(* ===== verification/NmoPrelude.thy ===== *)
theory NmoPrelude
  imports Main "HOL-Library.Word"
begin

text \<open>
  Shared vocabulary of the development: the machine types of the C code, its error codes,
  the effects a C function can have beyond its return value, the little-endian view of a
  buffer of 32-bit words as bytes, and the alignment and byte-swap helpers of
  \<^verbatim>\<open>include/core/nmo_utils.h\<close>.

  Conventions used everywhere below.
  \<^item> The platform is LP64 and little-endian: \<^verbatim>\<open>size_t\<close> is 64 bits wide, \<^verbatim>\<open>int\<close> and
    \<^verbatim>\<open>unsigned\<close> are 32 bits wide. A \<^verbatim>\<open>size_t\<close> is a \<^typ>\<open>nat\<close> and the sums the code forms
    on it go through \<open>sz_add\<close>, which wraps; values of fixed width are words.
  \<^item> A \<^verbatim>\<open>float\<close> is only ever copied, so it is its 32-bit pattern.
  \<^item> An access outside a buffer, or signed overflow, is the effect \<open>Undefined\<close>; a loop that
    does not end is the effect \<open>Diverges\<close>. Neither is an ordinary return value, so a theorem
    that a call is \<open>Done\<close> rules both out.
\<close>

unbundle bit_operations_syntax

type_synonym u8 = "8 word"
type_synonym u16 = "16 word"
type_synonym u32 = "32 word"
type_synonym u64 = "64 word"
type_synonym f32 = "32 word"

named_theorems eff_simps "unfolding rules for effects and sequencing"
named_theorems mem_simps "length and content of buffers"

section \<open>Error codes\<close>

text \<open>The enumeration \<^verbatim>\<open>nmo_error_code\<close>, and the integer each constant has in C.\<close>

datatype nmo_error_code =
    NMO_OK | NMO_ERR_NOMEM | NMO_ERR_BUFFER_OVERRUN | NMO_ERR_FILE_NOT_FOUND
  | NMO_ERR_CANT_OPEN_FILE | NMO_ERR_CANT_READ_FILE | NMO_ERR_CANT_WRITE_FILE
  | NMO_ERR_INVALID_SIGNATURE | NMO_ERR_UNSUPPORTED_VERSION | NMO_ERR_CHECKSUM_MISMATCH
  | NMO_ERR_DECOMPRESSION_FAILED | NMO_ERR_COMPRESSION_FAILED | NMO_ERR_VALIDATION_FAILED
  | NMO_ERR_INVALID_FORMAT | NMO_ERR_INVALID_OFFSET | NMO_ERR_EOF | NMO_ERR_INVALID_ARGUMENT
  | NMO_ERR_INVALID_STATE | NMO_ERR_NOT_IMPLEMENTED | NMO_ERR_NOT_SUPPORTED | NMO_ERR_UNKNOWN
  | NMO_ERR_INTERNAL | NMO_ERR_OUT_OF_BOUNDS | NMO_ERR_NOT_FOUND | NMO_ERR_ALREADY_EXISTS
  | NMO_ERR_CORRUPT

definition nmo_error_codes :: "nmo_error_code list" where
  "nmo_error_codes =
    [NMO_OK, NMO_ERR_NOMEM, NMO_ERR_BUFFER_OVERRUN, NMO_ERR_FILE_NOT_FOUND,
     NMO_ERR_CANT_OPEN_FILE, NMO_ERR_CANT_READ_FILE, NMO_ERR_CANT_WRITE_FILE,
     NMO_ERR_INVALID_SIGNATURE, NMO_ERR_UNSUPPORTED_VERSION, NMO_ERR_CHECKSUM_MISMATCH,
     NMO_ERR_DECOMPRESSION_FAILED, NMO_ERR_COMPRESSION_FAILED, NMO_ERR_VALIDATION_FAILED,
     NMO_ERR_INVALID_FORMAT, NMO_ERR_INVALID_OFFSET, NMO_ERR_EOF, NMO_ERR_INVALID_ARGUMENT,
     NMO_ERR_INVALID_STATE, NMO_ERR_NOT_IMPLEMENTED, NMO_ERR_NOT_SUPPORTED, NMO_ERR_UNKNOWN,
     NMO_ERR_INTERNAL, NMO_ERR_OUT_OF_BOUNDS, NMO_ERR_NOT_FOUND, NMO_ERR_ALREADY_EXISTS,
     NMO_ERR_CORRUPT]"

fun index_of :: "'a \<Rightarrow> 'a list \<Rightarrow> nat" where
  "index_of x [] = 0"
| "index_of x (y # ys) = (if x = y then 0 else Suc (index_of x ys))"

definition error_int :: "nmo_error_code \<Rightarrow> u32" where
  "error_int e = word_of_nat (index_of e nmo_error_codes)"

section \<open>Effects\<close>

datatype 'a eff = Done 'a | Undefined | Diverges

text \<open>
  The result of a C function that reports an error code: the code or the value it produces,
  and the state it leaves behind, which matters on an error too.
\<close>

type_synonym ('a, 's) cres = "((nmo_error_code + 'a) \<times> 's) eff"

definition ok :: "'a \<Rightarrow> 's \<Rightarrow> ('a, 's) cres" where
  [eff_simps]: "ok x s = Done (Inr x, s)"

definition fail :: "nmo_error_code \<Rightarrow> 's \<Rightarrow> ('a, 's) cres" where
  [eff_simps]: "fail e s = Done (Inl e, s)"

text \<open>
  \<^verbatim>\<open>result = m(); if (result != NMO_OK) return result; ...\<close>: the rest runs in the state the
  call left, and only when it succeeded.
\<close>

definition bindR :: "('a, 's) cres \<Rightarrow> ('a \<Rightarrow> 's \<Rightarrow> ('b, 's) cres) \<Rightarrow> ('b, 's) cres" where
  "bindR m f = (case m of
       Done (Inl e, s) \<Rightarrow> Done (Inl e, s)
     | Done (Inr x, s) \<Rightarrow> f x s
     | Undefined \<Rightarrow> Undefined
     | Diverges \<Rightarrow> Diverges)"

lemma bindR_simps [simp]:
  "bindR (Done (Inl e, s)) f = Done (Inl e, s)"
  "bindR (Done (Inr x, s)) f = f x s"
  "bindR Undefined f = Undefined"
  "bindR Diverges f = Diverges"
  by (simp_all add: bindR_def)

lemma bindR_ok [simp]: "bindR (ok x s) f = f x s"
  and bindR_fail [simp]: "bindR (fail e s) f = fail e s"
  by (simp_all add: eff_simps)

lemma bindR_Done_Inr_iff:
  "bindR m f = Done (Inr y, t) \<longleftrightarrow> (\<exists>x s. m = Done (Inr x, s) \<and> f x s = Done (Inr y, t))"
  by (auto simp: bindR_def split: eff.splits prod.splits sum.splits)

lemma bindR_cong [fundef_cong]:
  assumes "m = m'" and "\<And>x s. m' = Done (Inr x, s) \<Longrightarrow> f x s = f' x s"
  shows "bindR m f = bindR m' f'"
  using assms by (auto simp: bindR_def split: eff.splits prod.splits sum.splits)

text \<open>The call neither leaves a buffer nor runs forever.\<close>

definition returns :: "'a eff \<Rightarrow> bool" where
  "returns m \<longleftrightarrow> (\<exists>r. m = Done r)"

lemma returns_Done [simp]: "returns (Done r)" "\<not> returns Undefined" "\<not> returns Diverges"
  by (simp_all add: returns_def)

lemma returns_bindR:
  "returns m \<Longrightarrow> (\<And>x s. m = Done (Inr x, s) \<Longrightarrow> returns (f x s)) \<Longrightarrow> returns (bindR m f)"
  by (auto simp: bindR_def returns_def split: eff.splits prod.splits sum.splits)

text \<open>Sequencing of calls that always produce a value.\<close>

definition bindE :: "'a eff \<Rightarrow> ('a \<Rightarrow> 'b eff) \<Rightarrow> 'b eff" where
  "bindE m f = (case m of Done r \<Rightarrow> f r | Undefined \<Rightarrow> Undefined | Diverges \<Rightarrow> Diverges)"

lemma bindE_simps [simp]:
  "bindE (Done r) f = f r" "bindE Undefined f = Undefined" "bindE Diverges f = Diverges"
  by (simp_all add: bindE_def)

lemma bindE_Done_iff: "bindE m f = Done r \<longleftrightarrow> (\<exists>x. m = Done x \<and> f x = Done r)"
  by (cases m) auto

section \<open>Arithmetic on \<^verbatim>\<open>size_t\<close>\<close>

definition sz_add :: "nat \<Rightarrow> nat \<Rightarrow> nat" where
  "sz_add a b = (a + b) mod 2 ^ 64"

definition sz_sub :: "nat \<Rightarrow> nat \<Rightarrow> nat" where
  "sz_sub a b = (a + (2 ^ 64 - b mod 2 ^ 64)) mod 2 ^ 64"

definition sz_mul :: "nat \<Rightarrow> nat \<Rightarrow> nat" where
  "sz_mul a b = (a * b) mod 2 ^ 64"

lemma sz_add_small: "a + b < 2 ^ 64 \<Longrightarrow> sz_add a b = a + b"
  by (simp add: sz_add_def)

lemma sz_mul_small: "a * b < 2 ^ 64 \<Longrightarrow> sz_mul a b = a * b"
  by (simp add: sz_mul_def)

lemma sz_sub_small: "b \<le> a \<Longrightarrow> a < 2 ^ 64 \<Longrightarrow> sz_sub a b = a - b"
proof -
  assume h: "b \<le> a" "a < 2 ^ 64"
  then have eq: "a + (2 ^ 64 - b mod 2 ^ 64) = (a - b) + 2 ^ 64" by simp
  from h have "a - b < 2 ^ 64" by linarith
  then show ?thesis unfolding sz_sub_def by (simp only: eq mod_add_self2 mod_less)
qed

lemma sz_sub_wraps: "a < b \<Longrightarrow> b < 2 ^ 64 \<Longrightarrow> sz_sub a b = 2 ^ 64 - (b - a)"
  by (simp add: sz_sub_def)

text \<open>
  The loop \<^verbatim>\<open>while (c < target) c = step(c);\<close> in which the buffers of the writer grow. The
  step can wrap around, so the loop need not end.
\<close>

partial_function (option) grow_until :: "(nat \<Rightarrow> nat) \<Rightarrow> nat \<Rightarrow> nat \<Rightarrow> nat option" where
  "grow_until step target c = (if c < target then grow_until step target (step c) else Some c)"

lemma grow_until_stop: "target \<le> c \<Longrightarrow> grow_until step target c = Some c"
  by (simp add: grow_until.simps)

lemma grow_until_returns:
  assumes "\<And>c. c < target \<Longrightarrow> c \<in> S \<Longrightarrow> c < step c \<and> step c \<le> bound \<and> step c \<in> S"
    and "c \<in> S" and "c \<le> bound"
  shows "\<exists>d. grow_until step target c = Some d \<and> target \<le> d \<and> c \<le> d \<and> d \<le> bound"
  using assms(2,3)
proof (induction "target - c" arbitrary: c rule: less_induct)
  case less
  show ?case
  proof (cases "c < target")
    case True
    with less.prems assms(1) have s: "c < step c" "step c \<le> bound" "step c \<in> S" by auto
    with True have "target - step c < target - c" by simp
    from less.hyps [OF this s(3) s(2)] s(1) True show ?thesis
      by (auto simp: grow_until.simps [of step target c])
  next
    case False
    then show ?thesis using less.prems by (simp add: grow_until_stop)
  qed
qed

section \<open>Words as bytes\<close>

text \<open>The four bytes of a 32-bit word in memory order, and the word that four bytes form.\<close>

definition dword_bytes :: "u32 \<Rightarrow> u8 list" where
  "dword_bytes d = [ucast d, ucast (drop_bit 8 d), ucast (drop_bit 16 d), ucast (drop_bit 24 d)]"

definition bytes_dword :: "u8 \<Rightarrow> u8 \<Rightarrow> u8 \<Rightarrow> u8 \<Rightarrow> u32" where
  "bytes_dword a b c d =
     ucast a OR push_bit 8 (ucast b) OR push_bit 16 (ucast c) OR push_bit 24 (ucast d)"

definition bytes_of_dwords :: "u32 list \<Rightarrow> u8 list" where
  "bytes_of_dwords ds = concat (map dword_bytes ds)"

text \<open>The words of a byte string, the last one filled up with zero bytes.\<close>

fun dwords_of_bytes :: "u8 list \<Rightarrow> u32 list" where
  "dwords_of_bytes [] = []"
| "dwords_of_bytes [a] = [bytes_dword a 0 0 0]"
| "dwords_of_bytes [a, b] = [bytes_dword a b 0 0]"
| "dwords_of_bytes [a, b, c] = [bytes_dword a b c 0]"
| "dwords_of_bytes (a # b # c # d # bs) = bytes_dword a b c d # dwords_of_bytes bs"

lemma length_dword_bytes [simp]: "length (dword_bytes d) = 4"
  by (simp add: dword_bytes_def)

lemma bit_bytes_dword:
  "bit (bytes_dword a b c d) n \<longleftrightarrow>
     (if n < 8 then bit a n else if n < 16 then bit b (n - 8)
      else if n < 24 then bit c (n - 16) else n < 32 \<and> bit d (n - 24))"
  by (auto simp: bytes_dword_def bit_simps not_less dest: bit_imp_le_length)

lemma dword_bytes_dword: "dword_bytes (bytes_dword a b c d) = [a, b, c, d]"
  unfolding dword_bytes_def
  by (auto intro!: bit_word_eqI simp: bit_bytes_dword bit_simps)

lemma bytes_dword_dword: "dword_bytes w = [a, b, c, d] \<Longrightarrow> bytes_dword a b c d = w"
  by (rule bit_word_eqI) (auto simp: dword_bytes_def bit_bytes_dword bit_simps)

lemma bytes_of_dwords_simps [simp]:
  "bytes_of_dwords [] = []"
  "bytes_of_dwords (d # ds) = dword_bytes d @ bytes_of_dwords ds"
  "bytes_of_dwords (ds @ es) = bytes_of_dwords ds @ bytes_of_dwords es"
  by (simp_all add: bytes_of_dwords_def)

lemma length_bytes_of_dwords [simp, mem_simps]: "length (bytes_of_dwords ds) = 4 * length ds"
  by (induction ds) auto

lemma length_dwords_of_bytes [simp, mem_simps]:
  "length (dwords_of_bytes bs) = (length bs + 3) div 4"
  by (induction bs rule: dwords_of_bytes.induct) auto

lemma take_bytes_of_dwords_of_bytes [simp]:
  "take (length bs) (bytes_of_dwords (dwords_of_bytes bs)) = bs"
  by (induction bs rule: dwords_of_bytes.induct) (auto simp: dword_bytes_dword)

lemma dwords_of_bytes_of_dwords [simp]: "dwords_of_bytes (bytes_of_dwords ds) = ds"
proof (induction ds)
  case (Cons d ds)
  obtain a b c e where "dword_bytes d = [a, b, c, e]"
    by (simp add: dword_bytes_def)
  with Cons show ?case by (simp add: bytes_dword_dword)
qed simp

lemma bytes_of_dwords_inject [simp]: "bytes_of_dwords xs = bytes_of_dwords ys \<longleftrightarrow> xs = ys"
  by (metis dwords_of_bytes_of_dwords)

lemma take_bytes_of_dwords: "take (4 * n) (bytes_of_dwords ds) = bytes_of_dwords (take n ds)"
proof (induction ds arbitrary: n)
  case (Cons d ds)
  then show ?case by (cases n) (auto simp: take_append)
qed simp

lemma drop_bytes_of_dwords: "drop (4 * n) (bytes_of_dwords ds) = bytes_of_dwords (drop n ds)"
proof (induction ds arbitrary: n)
  case (Cons d ds)
  then show ?case by (cases n) (auto simp: drop_append)
qed simp

section \<open>Block copies\<close>

text \<open>\<^verbatim>\<open>memcpy(&xs[i], ys, ...)\<close> of whole elements; the caller has checked the bounds.\<close>

definition mem_blit :: "'a list \<Rightarrow> nat \<Rightarrow> 'a list \<Rightarrow> 'a list" where
  "mem_blit xs i ys = take i xs @ ys @ drop (i + length ys) xs"

lemma length_blit [simp, mem_simps]:
  "i + length ys \<le> length xs \<Longrightarrow> length (mem_blit xs i ys) = length xs"
  by (simp add: mem_blit_def)

lemma take_blit [mem_simps]: "i \<le> length xs \<Longrightarrow> take (i + length ys) (mem_blit xs i ys) = take i xs @ ys"
  by (simp add: mem_blit_def)

lemma take_blit_before [mem_simps]: "j \<le> i \<Longrightarrow> i \<le> length xs \<Longrightarrow> take j (mem_blit xs i ys) = take j xs"
  by (simp add: mem_blit_def min_def)

text \<open>
  \<^verbatim>\<open>memcpy\<close> of bytes into a buffer of words, starting at word \<open>i\<close>: the bytes of the last word
  that the copy does not reach keep their old value.
\<close>

definition blit_bytes :: "u32 list \<Rightarrow> nat \<Rightarrow> u8 list \<Rightarrow> u32 list" where
  "blit_bytes xs i bs =
     (let k = (length bs + 3) div 4;
          old = bytes_of_dwords (take k (drop i xs))
      in mem_blit xs i (dwords_of_bytes (bs @ drop (length bs) old)))"

lemma length_padded: "(length bs + 3) div 4 \<le> n \<Longrightarrow> length bs \<le> 4 * n"
  by linarith

lemma length_blit_words:
  assumes "i + (length bs + 3) div 4 \<le> length xs"
  shows "length (dwords_of_bytes (bs @ drop (length bs)
           (bytes_of_dwords (take ((length bs + 3) div 4) (drop i xs))))) = (length bs + 3) div 4"
proof -
  have "length bs \<le> 4 * ((length bs + 3) div 4)" by linarith
  with assms show ?thesis by (auto simp: min_def)
qed

lemma length_blit_bytes [simp, mem_simps]:
  "i + (length bs + 3) div 4 \<le> length xs \<Longrightarrow> length (blit_bytes xs i bs) = length xs"
  using length_blit_words [of i bs xs] by (simp add: blit_bytes_def Let_def)

section \<open>Alignment and byte swapping\<close>

text \<open>
  \<^verbatim>\<open>nmo_align_dword\<close>: the mask \<^verbatim>\<open>~3u\<close> is an \<^verbatim>\<open>unsigned int\<close>, so on a 64-bit \<^verbatim>\<open>size_t\<close> it
  clears the upper half as well.
\<close>

definition nmo_align_dword :: "nat \<Rightarrow> nat" where
  "nmo_align_dword bytes = unat ((of_nat bytes + 3 :: u64) AND ucast (NOT (3 :: u32)))"

definition nmo_align :: "nat \<Rightarrow> nat \<Rightarrow> nat" where
  "nmo_align sz alignment =
     unat ((of_nat sz + of_nat alignment - 1 :: u64) AND NOT (of_nat alignment - 1))"

definition nmo_bytes_to_dwords :: "nat \<Rightarrow> nat" where
  "nmo_bytes_to_dwords bytes = sz_add bytes 3 div 4"

definition nmo_check_buffer_bounds :: "nat \<Rightarrow> nat \<Rightarrow> nat \<Rightarrow> bool" where
  "nmo_check_buffer_bounds pos needed tot \<longleftrightarrow> pos \<le> tot \<and> needed \<le> tot - pos"

definition nmo_bswap16 :: "u16 \<Rightarrow> u16" where
  "nmo_bswap16 x = push_bit 8 (x AND 0x00FF) OR drop_bit 8 (x AND 0xFF00)"

definition nmo_bswap32 :: "u32 \<Rightarrow> u32" where
  "nmo_bswap32 x =
     push_bit 24 (x AND 0x000000FF) OR push_bit 8 (x AND 0x0000FF00) OR
     drop_bit 8 (x AND 0x00FF0000) OR drop_bit 24 (x AND 0xFF000000)"

text \<open>The 16-bit word that two bytes form in memory, and its two bytes.\<close>

definition bytes_word :: "u8 \<Rightarrow> u8 \<Rightarrow> u16" where
  "bytes_word a b = ucast a OR push_bit 8 (ucast b)"

definition word_bytes :: "u16 \<Rightarrow> u8 list" where
  "word_bytes w = [ucast w, ucast (drop_bit 8 w)]"

text \<open>\<^verbatim>\<open>nmo_swap_16bit_words(data, word_count)\<close> on the bytes of \<open>data\<close>.\<close>

fun nmo_swap_16bit_words :: "u8 list \<Rightarrow> nat \<Rightarrow> u8 list" where
  "nmo_swap_16bit_words (a # b # bs) (Suc n) =
     word_bytes (nmo_bswap16 (bytes_word a b)) @ nmo_swap_16bit_words bs n"
| "nmo_swap_16bit_words bs n = bs"

lemma bit_u8_beyond [simp]: "8 \<le> n \<Longrightarrow> \<not> bit (a :: u8) n"
  by (auto dest: bit_imp_le_length)

lemma nmo_bswap16_bytes: "word_bytes (nmo_bswap16 (bytes_word a b)) = [b, a]"
proof -
  have m: "(0xFF00 :: u16) = push_bit 8 (mask 8)" and m': "(0xFF :: u16) = mask 8"
    by (simp_all add: mask_eq_exp_minus_1 push_bit_eq_mult)
  show ?thesis unfolding word_bytes_def nmo_bswap16_def bytes_word_def m m'
    by (auto intro!: bit_word_eqI simp: bit_simps)
qed

lemma nmo_swap_16bit_words_involution:
  "nmo_swap_16bit_words (nmo_swap_16bit_words bs n) n = bs"
  by (induction bs n rule: nmo_swap_16bit_words.induct) (auto simp: nmo_bswap16_bytes)

lemma length_nmo_swap_16bit_words [simp]: "length (nmo_swap_16bit_words bs n) = length bs"
  by (induction bs n rule: nmo_swap_16bit_words.induct) (auto simp: word_bytes_def)

text \<open>The two alignment helpers in arithmetic terms.\<close>

lemma and_not_mask_word: "(w :: 'a::len word) AND NOT (mask k) = push_bit k (drop_bit k w)"
  by (rule bit_word_eqI) (auto simp: bit_simps)

lemma unat_and_not_mask: "unat ((w :: 'a::len word) AND NOT (mask k)) = unat w div 2 ^ k * 2 ^ k"
proof -
  have "unat w div 2 ^ k * 2 ^ k \<le> unat w" by (simp add: div_times_less_eq_dividend)
  also have "unat w < 2 ^ LENGTH('a)" by simp
  finally have "take_bit LENGTH('a) (push_bit k (drop_bit k (unat w))) = unat w div 2 ^ k * 2 ^ k"
    by (simp add: push_bit_eq_mult drop_bit_eq_div take_bit_nat_eq_self)
  then show ?thesis
    by (simp only: and_not_mask_word unsigned_push_bit_eq unat_drop_bit_eq)
qed

lemma align_dword_mask: "(ucast (NOT (3::u32)) :: u64) = NOT (mask 2) AND mask 32"
  by (simp add: mask_eq_exp_minus_1)

lemma nmo_align_dword_eq: "nmo_align_dword b = (b + 3) mod 2 ^ 32 div 4 * 4"
proof -
  have "(of_nat b + 3 :: u64) AND ucast (NOT (3 :: u32)) = (take_bit 32 (of_nat (b + 3))) AND NOT (mask 2)"
    unfolding align_dword_mask take_bit_eq_mask by (simp add: ac_simps)
  moreover have "unat (take_bit 32 (of_nat (b + 3) :: u64)) = take_bit 32 (take_bit 64 (b + 3))"
    by (simp add: unsigned_take_bit_eq unsigned_of_nat del: of_nat_add take_bit_take_bit)
  ultimately show ?thesis by (simp add: nmo_align_dword_def unat_and_not_mask take_bit_eq_mod mod_mod_cancel)
qed

lemma nmo_align_dword_small: "b + 3 < 2 ^ 32 \<Longrightarrow> nmo_align_dword b div 4 = (b + 3) div 4"
  by (simp add: nmo_align_dword_eq)

lemma nmo_align_pow2:
  assumes "sz + 2 ^ k < 2 ^ 64"
  shows "nmo_align sz (2 ^ k) = (sz + (2 ^ k - 1)) div 2 ^ k * 2 ^ k"
proof -
  have "(of_nat (2 ^ k) - 1 :: u64) = mask k" by (simp add: mask_eq_exp_minus_1)
  moreover have "(of_nat sz + of_nat (2 ^ k) - 1 :: u64) = of_nat (sz + (2 ^ k - 1))"
    by (subst of_nat_add, subst of_nat_diff) (simp_all add: add_diff_eq)
  moreover have "unat (of_nat (sz + (2 ^ k - 1)) :: u64) = sz + (2 ^ k - 1)"
    by (subst unat_of_nat, rule mod_less) (use assms in simp)
  ultimately show ?thesis by (simp only: nmo_align_def unat_and_not_mask)
qed
end
