(* ===== verification/Arena.thy ===== *)
theory Arena
  imports NmoPrelude
begin

text \<open>
  The arena allocator of \<^verbatim>\<open>src/core/arena.c\<close>: a list of blocks obtained from the underlying
  allocator, of which the one at \<open>ar_current\<close> is being carved up. The underlying allocator is
  a callback of the application (or \<^verbatim>\<open>malloc\<close>), so it is a parameter: \<open>ar_alloc k n\<close> says
  whether its \<open>k\<close>-th call returns a block when asked for \<open>n\<close> bytes. The content of memory an
  arena hands out is whatever was there before; \<open>ar_stale k i\<close> is the \<open>i\<close>-th word of the
  \<open>k\<close>-th region handed out. A \<^verbatim>\<open>float\<close> growth factor is observed in two ways only, the test
  against one and the product with a size, which are the two fields of \<open>growth_factor\<close>.
\<close>

section \<open>State\<close>

record growth_factor =
  gf_below_one :: bool
  gf_scale :: "nat \<Rightarrow> nat"

record arena_config =
  initial_block_size :: nat
  max_block_size :: nat
  cfg_growth_factor :: growth_factor
  cfg_alignment :: nat

record arena_chunk =
  ck_id :: nat
  ck_size :: nat
  ck_used :: nat

record arena =
  ar_chunks :: "arena_chunk list"
  ar_current :: nat
  ar_initial_chunk_size :: nat
  ar_next_chunk_size :: nat
  ar_max_chunk_size :: nat
  ar_growth_factor :: growth_factor
  ar_default_alignment :: nat
  ar_total_allocated :: nat
  ar_bytes_used :: nat
  ar_alloc :: "nat \<Rightarrow> nat \<Rightarrow> bool"
  ar_calls :: nat
  ar_stale :: "nat \<Rightarrow> nat \<Rightarrow> u32"
  ar_serial :: nat

text \<open>
  The pointer \<^verbatim>\<open>nmo_arena_alloc\<close> returns: an offset into the data of a block, with the size
  asked for and the position of the region in the sequence of regions handed out.
\<close>

record region =
  rg_chunk :: nat
  rg_off :: nat
  rg_size :: nat
  rg_serial :: nat

definition sizeof_arena_chunk :: nat where
  "sizeof_arena_chunk = 24"

definition sizeof_arena :: nat where
  "sizeof_arena = 96"

definition growth_two :: growth_factor where
  "growth_two = \<lparr>gf_below_one = False, gf_scale = (\<lambda>n. 2 * n)\<rparr>"

section \<open>Operations\<close>

definition arena_create_chunk :: "nat \<Rightarrow> arena \<Rightarrow> (arena_chunk option \<times> arena) eff" where
  "arena_create_chunk sz a =
     (let total_size = sz_add sizeof_arena_chunk sz;
          a' = a\<lparr>ar_calls := Suc (ar_calls a)\<rparr>
      in if \<not> ar_alloc a (ar_calls a) total_size then Done (None, a')
         else if total_size < sizeof_arena_chunk then Undefined
         else Done (Some \<lparr>ck_id = ar_calls a, ck_size = sz, ck_used = 0\<rparr>, a'))"

definition nmo_arena_default_config :: arena_config where
  "nmo_arena_default_config =
     \<lparr>initial_block_size = 64 * 1024, max_block_size = 16 * 1024 * 1024,
      cfg_growth_factor = growth_two, cfg_alignment = 16\<rparr>"

text \<open>
  Creation, given the behaviour of the allocator and the memory content: \<open>None\<close> is a NULL
  result. Call 0 of the allocator is for the arena structure itself.
\<close>

definition nmo_arena_create_ex ::
  "(nat \<Rightarrow> nat \<Rightarrow> bool) \<Rightarrow> (nat \<Rightarrow> nat \<Rightarrow> u32) \<Rightarrow> arena_config option \<Rightarrow> arena option eff" where
  "nmo_arena_create_ex alloc stale config =
     (let cfg = (case config of None \<Rightarrow> nmo_arena_default_config | Some c \<Rightarrow> c);
          cfg = (if initial_block_size cfg = 0 then cfg\<lparr>initial_block_size := 64 * 1024\<rparr> else cfg);
          cfg = (if gf_below_one (cfg_growth_factor cfg)
                 then cfg\<lparr>cfg_growth_factor := growth_two\<rparr> else cfg);
          cfg = (if cfg_alignment cfg = 0 then cfg\<lparr>cfg_alignment := 16\<rparr> else cfg)
      in if \<not> alloc 0 sizeof_arena then Done None
         else
           let a = \<lparr>ar_chunks = [], ar_current = 0,
                    ar_initial_chunk_size = initial_block_size cfg,
                    ar_next_chunk_size = initial_block_size cfg,
                    ar_max_chunk_size = max_block_size cfg,
                    ar_growth_factor = cfg_growth_factor cfg,
                    ar_default_alignment = cfg_alignment cfg,
                    ar_total_allocated = 0, ar_bytes_used = 0,
                    ar_alloc = alloc, ar_calls = 1, ar_stale = stale, ar_serial = 0\<rparr>
           in case arena_create_chunk (initial_block_size cfg) a of
                Done (Some ck, a) \<Rightarrow>
                  Done (Some (a\<lparr>ar_chunks := [ck], ar_current := 0,
                                ar_total_allocated := initial_block_size cfg\<rparr>))
              | Done (None, a) \<Rightarrow> Done None
              | Undefined \<Rightarrow> Undefined
              | Diverges \<Rightarrow> Diverges)"

definition nmo_arena_create ::
  "(nat \<Rightarrow> nat \<Rightarrow> bool) \<Rightarrow> (nat \<Rightarrow> nat \<Rightarrow> u32) \<Rightarrow> nat \<Rightarrow> arena option eff" where
  "nmo_arena_create alloc stale initial_size =
     (let config = nmo_arena_default_config;
          config = (if initial_size > 0 then config\<lparr>initial_block_size := initial_size\<rparr> else config)
      in nmo_arena_create_ex alloc stale (Some config))"

text \<open>The size of the next block, with growth and the cap.\<close>

definition arena_grown_size :: "arena \<Rightarrow> nat" where
  "arena_grown_size a =
     (let n = gf_scale (ar_growth_factor a) (ar_next_chunk_size a)
      in if ar_max_chunk_size a > 0 \<and> n > ar_max_chunk_size a then ar_max_chunk_size a else n)"

text \<open>A request larger than that gets a block made to measure.\<close>

definition arena_new_chunk_size :: "nat \<Rightarrow> nat \<Rightarrow> arena \<Rightarrow> nat" where
  "arena_new_chunk_size sz alignment a =
     (if sz > arena_grown_size a then nmo_align sz alignment else arena_grown_size a)"

text \<open>\<^verbatim>\<open>ptr = chunk->data + off\<close>, for the current block.\<close>

definition arena_take :: "nat \<Rightarrow> nat \<Rightarrow> arena \<Rightarrow> (region option \<times> arena) eff" where
  "arena_take off sz a =
     (let ck = ar_chunks a ! ar_current a
      in Done (Some \<lparr>rg_chunk = ck_id ck, rg_off = off, rg_size = sz, rg_serial = ar_serial a\<rparr>,
           a\<lparr>ar_chunks := (ar_chunks a)[ar_current a := ck\<lparr>ck_used := sz_add off sz\<rparr>],
             ar_bytes_used := sz_add (ar_bytes_used a) sz,
             ar_serial := Suc (ar_serial a)\<rparr>))"

definition nmo_arena_alloc :: "nat \<Rightarrow> nat \<Rightarrow> arena \<Rightarrow> (region option \<times> arena) eff" where
  "nmo_arena_alloc sz alignment a =
     (if sz = 0 then Done (None, a)
      else if alignment > 0 \<and> (of_nat alignment :: u64) AND (of_nat alignment - 1) \<noteq> 0
      then Done (None, a)
      else
        let alignment = (if alignment = 0 then ar_default_alignment a else alignment);
            chunk = ar_chunks a ! ar_current a;
            aligned_used = nmo_align (ck_used chunk) alignment;
            remaining = sz_sub (ck_size chunk) aligned_used
        in if remaining < sz then
             let new_chunk_size = arena_new_chunk_size sz alignment a
             in case arena_create_chunk new_chunk_size a of
                  Done (Some ck, a) \<Rightarrow>
                    arena_take 0 sz
                      (a\<lparr>ar_chunks := take (Suc (ar_current a)) (ar_chunks a) @ [ck],
                         ar_current := Suc (ar_current a),
                         ar_total_allocated := sz_add (ar_total_allocated a) new_chunk_size,
                         ar_next_chunk_size := new_chunk_size\<rparr>)
                | Done (None, a) \<Rightarrow> Done (None, a)
                | Undefined \<Rightarrow> Undefined
                | Diverges \<Rightarrow> Diverges
           else arena_take aligned_used sz a)"

definition nmo_arena_reset :: "arena \<Rightarrow> arena" where
  "nmo_arena_reset a =
     a\<lparr>ar_chunks := map (\<lambda>ck. ck\<lparr>ck_used := 0\<rparr>) (ar_chunks a), ar_current := 0,
       ar_bytes_used := 0\<rparr>"

text \<open>Destruction frees the blocks that the list still reaches; the result names them.\<close>

definition nmo_arena_destroy :: "arena \<Rightarrow> nat list" where
  "nmo_arena_destroy a = map ck_id (ar_chunks a)"

definition nmo_arena_total_allocated :: "arena \<Rightarrow> nat" where
  "nmo_arena_total_allocated a = ar_total_allocated a"

definition nmo_arena_bytes_used :: "arena \<Rightarrow> nat" where
  "nmo_arena_bytes_used a = ar_bytes_used a"

text \<open>The loop of \<^verbatim>\<open>nmo_arena_reserve\<close>; \<open>None\<close> is a loop that does not end.\<close>

partial_function (option) arena_reserve_loop :: "nat \<Rightarrow> arena \<Rightarrow> (unit, arena) cres option" where
  "arena_reserve_loop needed a =
     (if needed = 0 then Some (ok () a)
      else
        let chunk_size = arena_grown_size a;
            chunk_size = (if chunk_size > needed then needed else chunk_size)
        in case arena_create_chunk chunk_size a of
             Done (Some ck, a) \<Rightarrow>
               arena_reserve_loop (needed - chunk_size)
                 (a\<lparr>ar_chunks := ar_chunks a @ [ck],
                    ar_total_allocated := sz_add (ar_total_allocated a) chunk_size,
                    ar_next_chunk_size := chunk_size\<rparr>)
           | Done (None, a) \<Rightarrow> Some (fail NMO_ERR_NOMEM a)
           | Undefined \<Rightarrow> Some Undefined
           | Diverges \<Rightarrow> Some Diverges)"

definition nmo_arena_reserve :: "nat \<Rightarrow> arena \<Rightarrow> (unit, arena) cres" where
  "nmo_arena_reserve total_size a =
     (if ar_total_allocated a \<ge> total_size then ok () a
      else case arena_reserve_loop (total_size - ar_total_allocated a) a of
             None \<Rightarrow> Diverges | Some r \<Rightarrow> r)"

definition nmo_arena_get_config :: "arena \<Rightarrow> arena_config" where
  "nmo_arena_get_config a =
     \<lparr>initial_block_size = ar_initial_chunk_size a, max_block_size = ar_max_chunk_size a,
      cfg_growth_factor = ar_growth_factor a, cfg_alignment = ar_default_alignment a\<rparr>"

text \<open>The words a fresh region of \<open>n\<close> words holds before anything is written to it.\<close>

definition fresh_dwords :: "region \<Rightarrow> arena \<Rightarrow> nat \<Rightarrow> u32 list" where
  "fresh_dwords r a n = map (ar_stale a (rg_serial r)) [0..<n]"

lemma length_fresh_dwords [simp, mem_simps]: "length (fresh_dwords r a n) = n"
  by (simp add: fresh_dwords_def)

lemma pow2_and_pred [simp]: "j < 64 \<Longrightarrow> (of_nat (2 ^ j) :: u64) AND (of_nat (2 ^ j) - 1) = 0"
proof -
  assume "j < 64"
  have "(of_nat (2 ^ j) - 1 :: u64) = mask j" by (simp add: mask_eq_exp_minus_1)
  then show ?thesis by (simp only:) (auto intro!: bit_word_eqI simp: bit_simps)
qed

lemma pow2_and_pred' [simp]: "j < 64 \<Longrightarrow> (2 ^ j :: u64) AND (2 ^ j - 1) = 0"
  using pow2_and_pred [of j] by simp

text \<open>
  Whatever its layout, an arena with a cap on its block size answers a request of sane size: it
  returns a region or NULL and keeps its configuration.
\<close>

definition arena_sane :: "arena \<Rightarrow> bool" where
  "arena_sane a \<longleftrightarrow> 0 < ar_max_chunk_size a \<and> ar_max_chunk_size a < 2 ^ 62"

text \<open>
  Memory is available: the underlying allocator refuses no request of an admissible size, that is of at
  least one byte and below the \<open>2 ^ 63\<close> that no object exceeds.
\<close>

definition arena_grants :: "arena \<Rightarrow> bool" where
  "arena_grants a \<longleftrightarrow> (\<forall>k n. 0 < n \<longrightarrow> n < 2 ^ 63 \<longrightarrow> ar_alloc a k n)"

lemma arena_alloc_sane:
  assumes "arena_sane a" and "n < 2 ^ 62" and "al \<in> {1, 4, 8, 16}"
  obtains q b where "nmo_arena_alloc n al a = Done (q, b)" "arena_sane b"
    "arena_grants b = arena_grants a" "arena_grants a \<Longrightarrow> 0 < n \<Longrightarrow> q \<noteq> None"
proof -
  from assms(3) obtain j where j: "al = 2 ^ j" "j \<le> 4"
    by (auto intro: that [of 0] that [of 2] that [of 3] that [of 4])
  have up: "(2::nat) ^ j \<le> 2 ^ 4" using j(2) by (intro power_increasing) auto
  have eq: "nmo_align n al = (n + (2 ^ j - 1)) div 2 ^ j * 2 ^ j"
    unfolding j(1) by (rule nmo_align_pow2) (use assms(2) up in simp)
  have "nmo_align n al \<le> n + (2 ^ j - 1)" unfolding eq by (rule div_times_less_eq_dividend)
  with assms(2) up have "nmo_align n al < 2 ^ 62 + 16" by simp
  moreover have "arena_grown_size a < 2 ^ 62"
    using assms(1) by (auto simp: arena_sane_def arena_grown_size_def Let_def)
  ultimately have m: "arena_new_chunk_size n al a < 2 ^ 62 + 16" by (simp add: arena_new_chunk_size_def)
  then have "sz_add 24 (arena_new_chunk_size n al a) = 24 + arena_new_chunk_size n al a"
    by (simp add: sz_add_small)
  moreover have "\<exists>k n. 0 < n \<and> n < 2 ^ 63 \<and> \<not> ar_alloc a k n"
    if "\<not> ar_alloc a k (24 + arena_new_chunk_size n al a)" for k
    using that m by (intro exI [of _ k] exI [of _ "24 + arena_new_chunk_size n al a"]) simp
  moreover have "al \<noteq> 0" using assms(3) by auto
  moreover have "(of_nat al :: u64) AND (of_nat al - 1) = 0" using j by simp
  ultimately have "\<exists>q b. nmo_arena_alloc n al a = Done (q, b) \<and> arena_sane b
      \<and> arena_grants b = arena_grants a \<and> (arena_grants a \<longrightarrow> 0 < n \<longrightarrow> q \<noteq> None)"
    using assms(1)
    by (auto simp: nmo_arena_alloc_def Let_def arena_create_chunk_def sizeof_arena_chunk_def arena_take_def
        arena_sane_def arena_grants_def)
  then show thesis using that by blast
qed

lemma arena_grant_region:
  assumes "arena_sane a" and "arena_grants a" and "0 < n" and "n < 2 ^ 62" and "al \<in> {1, 4, 8, 16}"
  obtains r b where "nmo_arena_alloc n al a = Done (Some r, b)" "arena_sane b" "arena_grants b"
proof -
  from arena_alloc_sane [OF assms(1,4,5)] obtain q b where
    q: "nmo_arena_alloc n al a = Done (q, b)" "arena_sane b" "arena_grants b = arena_grants a"
      "arena_grants a \<Longrightarrow> 0 < n \<Longrightarrow> q \<noteq> None" by blast
  with assms(2,3) that show ?thesis by (cases q) auto
qed

lemma default_arena_sane:
  "nmo_arena_create alloc stale n = Done (Some a) \<Longrightarrow> arena_sane a"
  by (auto simp: nmo_arena_create_def nmo_arena_create_ex_def nmo_arena_default_config_def Let_def
      growth_two_def arena_create_chunk_def arena_sane_def split: if_splits)

text \<open>The default arena over an allocator that never refuses, for the witnesses.\<close>

lemma default_arena_exists:
  obtains a where "nmo_arena_create (\<lambda>_ _. True) (\<lambda>_ _. 0) 0 = Done (Some a)" "arena_sane a" "arena_grants a"
proof -
  obtain a where a: "nmo_arena_create (\<lambda>_ _. True) (\<lambda>_ _. 0) 0 = Done (Some a)" "arena_grants a"
    by (simp add: nmo_arena_create_def nmo_arena_create_ex_def nmo_arena_default_config_def Let_def
      growth_two_def arena_create_chunk_def sizeof_arena_chunk_def sz_add_def arena_grants_def)
  from a(1) have "arena_sane a" by (rule default_arena_sane)
  with a show thesis using that by blast
qed

section \<open>The interface of a region allocator\<close>

definition regions_disjoint :: "region \<Rightarrow> region \<Rightarrow> bool" where
  "regions_disjoint r q \<longleftrightarrow>
     rg_chunk r \<noteq> rg_chunk q \<or> rg_off r + rg_size r \<le> rg_off q \<or> rg_off q + rg_size q \<le> rg_off r"

fun alloc_run :: "(nat \<Rightarrow> nat \<Rightarrow> 's \<Rightarrow> (region option \<times> 's) eff) \<Rightarrow> (nat \<times> nat) list \<Rightarrow> 's
    \<Rightarrow> (region list \<times> 's) eff" where
  "alloc_run alloc [] s = Done ([], s)"
| "alloc_run alloc ((n, al) # reqs) s =
     (case alloc n al s of
        Done (r, s) \<Rightarrow>
          (case alloc_run alloc reqs s of
             Done (rs, s) \<Rightarrow> Done ((case r of None \<Rightarrow> rs | Some r \<Rightarrow> r # rs), s)
           | Undefined \<Rightarrow> Undefined | Diverges \<Rightarrow> Diverges)
      | Undefined \<Rightarrow> Undefined | Diverges \<Rightarrow> Diverges)"

locale region_allocator =
  fixes alloc :: "nat \<Rightarrow> nat \<Rightarrow> 's \<Rightarrow> (region option \<times> 's) eff"
    and inv :: "'s \<Rightarrow> bool"
    and admits :: "nat \<Rightarrow> nat \<Rightarrow> bool"
    and live :: "'s \<Rightarrow> region \<Rightarrow> bool"
  assumes alloc_returns: "inv s \<Longrightarrow> admits n al \<Longrightarrow> \<exists>p t. alloc n al s = Done (p, t) \<and> inv t"
    and alloc_live: "inv s \<Longrightarrow> admits n al \<Longrightarrow> alloc n al s = Done (Some r, t) \<Longrightarrow> live t r"
    and alloc_keeps: "inv s \<Longrightarrow> admits n al \<Longrightarrow> alloc n al s = Done (p, t) \<Longrightarrow> live s r \<Longrightarrow> live t r"
    and alloc_fresh: "inv s \<Longrightarrow> admits n al \<Longrightarrow> alloc n al s = Done (Some r, t) \<Longrightarrow> live s q
       \<Longrightarrow> regions_disjoint q r"
begin

lemma run_returns:
  assumes "inv s" and "\<forall>(n, al) \<in> set reqs. admits n al"
  shows "\<exists>rs t. alloc_run alloc reqs s = Done (rs, t) \<and> inv t
    \<and> (\<forall>r. live s r \<longrightarrow> live t r) \<and> (\<forall>r \<in> set rs. live t r)
    \<and> (\<forall>r \<in> set rs. \<forall>q. live s q \<longrightarrow> regions_disjoint q r)
    \<and> sorted_wrt regions_disjoint rs"
  using assms
proof (induction reqs arbitrary: s)
  case Nil
  then show ?case by simp
next
  case (Cons req reqs)
  obtain n al where req: "req = (n, al)" by (cases req)
  with Cons.prems have adm: "admits n al" "\<forall>(n, al) \<in> set reqs. admits n al" by auto
  from alloc_returns [OF Cons.prems(1) adm(1)] obtain q u where
    u: "alloc n al s = Done (q, u)" "inv u" by blast
  note keeps = alloc_keeps [OF Cons.prems(1) adm(1) u(1)]
  from Cons.IH [OF u(2) adm(2)] obtain rs t where
    t: "alloc_run alloc reqs u = Done (rs, t)" "inv t" "\<And>r. live u r \<Longrightarrow> live t r"
      "\<And>r. r \<in> set rs \<Longrightarrow> live t r" "\<And>r q. r \<in> set rs \<Longrightarrow> live u q \<Longrightarrow> regions_disjoint q r"
      "sorted_wrt regions_disjoint rs"
    by blast
  show ?case
  proof (cases q)
    case None
    with u t keeps show ?thesis by (simp add: req)
  next
    case (Some r)
    have "live u r" and "\<And>q. live s q \<Longrightarrow> regions_disjoint q r"
      using alloc_live [OF Cons.prems(1) adm(1)] alloc_fresh [OF Cons.prems(1) adm(1)] u(1) Some
      by blast+
    with u t keeps Some show ?thesis by (auto simp: req)
  qed
qed

end

section \<open>The arena is a region allocator\<close>

text \<open>
  A block layout that keeps requests inside their block: every block size is a multiple of one
  power of two \<open>A\<close>, and so are the sizes the arena grows to.
\<close>

definition chunk_ok :: "nat \<Rightarrow> nat \<Rightarrow> arena_chunk \<Rightarrow> bool" where
  "chunk_ok A calls ck \<longleftrightarrow> ck_used ck \<le> ck_size ck \<and> ck_size ck < 2 ^ 62 \<and> A dvd ck_size ck \<and> ck_id ck < calls"

definition arena_wf :: "nat \<Rightarrow> arena \<Rightarrow> bool" where
  "arena_wf k a \<longleftrightarrow>
     k \<le> 32 \<and> ar_current a < length (ar_chunks a)
     \<and> (\<forall>ck \<in> set (ar_chunks a). chunk_ok (2 ^ k) (ar_calls a) ck)
     \<and> distinct (map ck_id (ar_chunks a))
     \<and> (\<forall>i < length (ar_chunks a). ar_current a < i \<longrightarrow> ck_used (ar_chunks a ! i) = 0)
     \<and> 0 < ar_max_chunk_size a \<and> ar_max_chunk_size a < 2 ^ 62 \<and> 2 ^ k dvd ar_max_chunk_size a
     \<and> 2 ^ k dvd ar_next_chunk_size a
     \<and> (\<forall>n. 2 ^ k dvd n \<longrightarrow> 2 ^ k dvd gf_scale (ar_growth_factor a) n)"

text \<open>
  Requests that keep such a layout: the alignment is a power of two up to \<open>A\<close>, and a block
  made to measure for the request has a size that is a multiple of \<open>A\<close>.
\<close>

definition arena_admits :: "nat \<Rightarrow> nat \<Rightarrow> nat \<Rightarrow> bool" where
  "arena_admits k n al \<longleftrightarrow> 0 < n \<and> n < 2 ^ 61 \<and> (\<exists>j \<le> k. al = 2 ^ j) \<and> (2 ^ k dvd n \<or> al = 2 ^ k)"

definition arena_live :: "arena \<Rightarrow> region \<Rightarrow> bool" where
  "arena_live a r \<longleftrightarrow> 0 < rg_size r \<and>
     (\<exists>ck \<in> set (ar_chunks a). ck_id ck = rg_chunk r \<and> rg_off r + rg_size r \<le> ck_used ck)"

lemma align_up_le: "(2::nat) ^ j dvd s \<Longrightarrow> u \<le> s \<Longrightarrow> (u + (2 ^ j - 1)) div 2 ^ j * 2 ^ j \<le> s"
proof -
  let ?A = "(2::nat) ^ j"
  assume "?A dvd s" "u \<le> s"
  then obtain m where s: "s = m * ?A" by (metis dvd_def mult.commute)
  have "(u + (?A - 1)) div ?A \<le> (m * ?A + (?A - 1)) div ?A"
    using \<open>u \<le> s\<close> s by (intro div_le_mono) simp
  also have "\<dots> = m" by (subst div_mult_self3) simp_all
  finally show ?thesis by (simp add: s)
qed

lemma align_up_ge: "u \<le> (u + (2 ^ j - 1)) div 2 ^ j * (2::nat) ^ j"
proof -
  let ?A = "(2::nat) ^ j" and ?x = "u + (2 ^ j - 1)"
  have "?x div ?A * ?A + ?x mod ?A = ?x" by (rule div_mult_mod_eq)
  moreover have "?x mod ?A < ?A" by simp
  ultimately show ?thesis by linarith
qed

lemma nmo_align_bounds:
  assumes "j \<le> 32" "u \<le> s" "2 ^ j dvd s" "s < 2 ^ 62"
  shows "u \<le> nmo_align u (2 ^ j) \<and> nmo_align u (2 ^ j) \<le> s"
proof -
  have "(2::nat) ^ j \<le> 2 ^ 32" using assms(1) by (intro power_increasing) auto
  with assms have "u + 2 ^ j < 2 ^ 64" by simp
  then show ?thesis using align_up_le [OF assms(3,2)] align_up_ge [of u j] by (simp add: nmo_align_pow2)
qed

lemma nmo_align_dvd: "j \<le> 32 \<Longrightarrow> u < 2 ^ 62 \<Longrightarrow> 2 ^ j dvd nmo_align u (2 ^ j)"
proof -
  assume "j \<le> 32" "u < 2 ^ 62"
  moreover have "(2::nat) ^ j \<le> 2 ^ 32" using \<open>j \<le> 32\<close> by (intro power_increasing) auto
  ultimately have "u + 2 ^ j < 2 ^ 64" by simp
  then show ?thesis by (simp add: nmo_align_pow2)
qed


definition arena_taken :: "nat \<Rightarrow> nat \<Rightarrow> arena \<Rightarrow> arena" where
  "arena_taken off sz a =
     a\<lparr>ar_chunks := (ar_chunks a)[ar_current a := (ar_chunks a ! ar_current a)\<lparr>ck_used := off + sz\<rparr>],
       ar_bytes_used := sz_add (ar_bytes_used a) sz, ar_serial := Suc (ar_serial a)\<rparr>"

definition region_at :: "nat \<Rightarrow> nat \<Rightarrow> arena \<Rightarrow> region" where
  "region_at off sz a =
     \<lparr>rg_chunk = ck_id (ar_chunks a ! ar_current a), rg_off = off, rg_size = sz, rg_serial = ar_serial a\<rparr>"

lemma arena_take_eq:
  "off + sz < 2 ^ 64 \<Longrightarrow> arena_take off sz a = Done (Some (region_at off sz a), arena_taken off sz a)"
  by (simp add: arena_take_def arena_taken_def region_at_def Let_def sz_add_small)

lemma ids_set_used: "map ck_id (xs[i := (xs ! i)\<lparr>ck_used := u\<rparr>]) = map ck_id xs"
  by (cases "i < length xs") (auto simp: list_eq_iff_nth_eq nth_list_update)

lemma arena_wf_taken:
  assumes "arena_wf k a" and "off + sz \<le> ck_size (ar_chunks a ! ar_current a)"
  shows "arena_wf k (arena_taken off sz a)"
  using assms unfolding arena_wf_def arena_taken_def
  by (auto simp: ids_set_used chunk_ok_def all_set_conv_all_nth nth_list_update)

lemma arena_live_taken:
  assumes "arena_wf k a" and "ck_used (ar_chunks a ! ar_current a) \<le> off" and "arena_live a r"
  shows "arena_live (arena_taken off sz a) r"
proof -
  from assms(3) obtain i where i: "i < length (ar_chunks a)" "ck_id (ar_chunks a ! i) = rg_chunk r"
      "rg_off r + rg_size r \<le> ck_used (ar_chunks a ! i)" "0 < rg_size r"
    by (auto simp: arena_live_def in_set_conv_nth)
  let ?b = "(ar_chunks a)[ar_current a := (ar_chunks a ! ar_current a)\<lparr>ck_used := off + sz\<rparr>]"
  have "?b ! i \<in> set ?b" using i(1) by (intro nth_mem) simp
  moreover have "ck_id (?b ! i) = rg_chunk r" "rg_off r + rg_size r \<le> ck_used (?b ! i)"
    using i assms(1,2) by (auto simp: nth_list_update arena_wf_def)
  ultimately show ?thesis using i(4) unfolding arena_live_def arena_taken_def by auto
qed

lemma arena_live_region_at:
  assumes "arena_wf k a" and "0 < sz"
  shows "arena_live (arena_taken off sz a) (region_at off sz a)"
  using assms unfolding arena_live_def arena_taken_def region_at_def arena_wf_def
  by (auto intro!: bexI [OF _ set_update_memI])

lemma arena_fresh_region_at:
  assumes "arena_wf k a" and "ck_used (ar_chunks a ! ar_current a) \<le> off" and "arena_live a r"
  shows "regions_disjoint r (region_at off sz a)"
proof -
  from assms(3) obtain i where i: "i < length (ar_chunks a)" "ck_id (ar_chunks a ! i) = rg_chunk r"
      "rg_off r + rg_size r \<le> ck_used (ar_chunks a ! i)"
    by (auto simp: arena_live_def in_set_conv_nth)
  show ?thesis
  proof (cases "i = ar_current a")
    case True
    with i assms(2) show ?thesis by (simp add: regions_disjoint_def region_at_def)
  next
    case False
    with i(1) assms(1) have "ck_id (ar_chunks a ! i) \<noteq> ck_id (ar_chunks a ! ar_current a)"
      unfolding arena_wf_def by (metis nth_eq_iff_index_eq length_map nth_map)
    with i(2) show ?thesis by (simp add: regions_disjoint_def region_at_def)
  qed
qed

text \<open>Switching to a new block.\<close>

definition arena_extended :: "nat \<Rightarrow> arena \<Rightarrow> arena" where
  "arena_extended n a =
     a\<lparr>ar_calls := Suc (ar_calls a),
       ar_chunks := take (Suc (ar_current a)) (ar_chunks a)
         @ [\<lparr>ck_id = ar_calls a, ck_size = n, ck_used = 0\<rparr>],
       ar_current := Suc (ar_current a),
       ar_total_allocated := sz_add (ar_total_allocated a) n,
       ar_next_chunk_size := n\<rparr>"

lemma arena_extended_current:
  assumes "arena_wf k a"
  shows "ar_chunks (arena_extended n a) ! ar_current (arena_extended n a)
    = \<lparr>ck_id = ar_calls a, ck_size = n, ck_used = 0\<rparr>"
  using assms by (simp add: arena_extended_def arena_wf_def nth_append min_def)

lemma arena_wf_extended:
  assumes "arena_wf k a" and "2 ^ k dvd n" and "n < 2 ^ 62"
  shows "arena_wf k (arena_extended n a)"
proof -
  have old: "\<forall>ck \<in> set (take (Suc (ar_current a)) (ar_chunks a)).
      ck_id ck < ar_calls a \<and> chunk_ok (2 ^ k) (Suc (ar_calls a)) ck"
    using assms(1) by (auto simp: arena_wf_def chunk_ok_def dest!: in_set_takeD)
  have "distinct (map ck_id (take (Suc (ar_current a)) (ar_chunks a)))"
    using assms(1) by (simp add: arena_wf_def flip: take_map)
  with old have ids: "distinct (map ck_id (take (Suc (ar_current a)) (ar_chunks a)) @ [ar_calls a])"
    by auto
  have "chunk_ok (2 ^ k) (Suc (ar_calls a)) \<lparr>ck_id = ar_calls a, ck_size = n, ck_used = 0\<rparr>"
    using assms(2,3) by (simp add: chunk_ok_def)
  with assms old ids show ?thesis
    unfolding arena_wf_def arena_extended_def by (auto simp: nth_append min_def)
qed

lemma arena_live_extended:
  assumes "arena_wf k a" and "arena_live a r"
  shows "arena_live (arena_extended n a) r"
proof -
  from assms(2) obtain i where i: "i < length (ar_chunks a)" "ck_id (ar_chunks a ! i) = rg_chunk r"
      "rg_off r + rg_size r \<le> ck_used (ar_chunks a ! i)" "0 < rg_size r"
    by (auto simp: arena_live_def in_set_conv_nth)
  with assms(1) have "i \<le> ar_current a"
    unfolding arena_wf_def by (metis add_is_0 le_zero_eq linorder_not_le not_gr_zero)
  with i(1) have "ar_chunks a ! i \<in> set (take (Suc (ar_current a)) (ar_chunks a))"
    by (auto simp: in_set_conv_nth min_def intro!: exI [of _ i])
  with i show ?thesis unfolding arena_live_def arena_extended_def by auto
qed


lemma arena_grown_size_ok:
  assumes "arena_wf k a"
  shows "2 ^ k dvd arena_grown_size a \<and> arena_grown_size a < 2 ^ 62"
  using assms unfolding arena_wf_def arena_grown_size_def Let_def by auto

lemma made_to_measure_ok:
  assumes "arena_admits k n al" and "k \<le> 32"
  shows "2 ^ k dvd nmo_align n al \<and> nmo_align n al < 2 ^ 62 \<and> n \<le> nmo_align n al"
proof -
  from assms obtain j where j: "j \<le> k" "al = 2 ^ j" "n < 2 ^ 61" "2 ^ k dvd n \<or> al = 2 ^ k"
    by (auto simp: arena_admits_def)
  then have j32: "j \<le> 32" using assms(2) by simp
  have up: "(2::nat) ^ j \<le> 2 ^ 32" using j32 by (intro power_increasing) auto
  have eq: "nmo_align n al = (n + (2 ^ j - 1)) div 2 ^ j * 2 ^ j"
    unfolding j(2) by (rule nmo_align_pow2) (use j(3) up in simp)
  have "n + (2 ^ j - 1) < 2 ^ 62" using j(3) up by simp
  then have lt: "nmo_align n al < 2 ^ 62"
    unfolding eq by (rule le_less_trans [OF div_times_less_eq_dividend])
  have "2 ^ k dvd nmo_align n al"
  proof (cases "2 ^ k dvd n")
    case True
    then have "(2::nat) ^ j dvd n" using j(1) by (meson dvd_trans le_imp_power_dvd)
    then have "nmo_align n al = n"
      using align_up_le [of j n n] align_up_ge [of n j] by (simp add: eq)
    with True show ?thesis by simp
  next
    case False
    with j(4) have "al = 2 ^ k" by blast
    with j(2) eq show ?thesis by (metis dvd_triv_right)
  qed
  with lt show ?thesis using align_up_ge [of n j] by (simp add: eq)
qed

lemma arena_alloc_cases:
  assumes wf: "arena_wf k a" and adm: "arena_admits k n al"
  obtains (refused) "nmo_arena_alloc n al a = Done (None, a\<lparr>ar_calls := Suc (ar_calls a)\<rparr>)"
  | (placed) off b where
      "nmo_arena_alloc n al a = Done (Some (region_at off n b), arena_taken off n b)"
      "b = a \<or> (\<exists>m. b = arena_extended m a \<and> 2 ^ k dvd m \<and> m < 2 ^ 62)"
      "ck_used (ar_chunks b ! ar_current b) \<le> off" "off + n \<le> ck_size (ar_chunks b ! ar_current b)"
      "al dvd off"
proof -
  let ?ck = "ar_chunks a ! ar_current a" and ?m = "arena_new_chunk_size n al a"
  let ?au = "nmo_align (ck_used ?ck) al"
  from adm obtain j where j: "j \<le> k" "al = 2 ^ j" and n: "0 < n" "n < 2 ^ 61"
    by (auto simp: arena_admits_def)
  from wf have k: "k \<le> 32" and ck: "chunk_ok (2 ^ k) (ar_calls a) ?ck" by (auto simp: arena_wf_def)
  have j32: "j \<le> 32" using j k by simp
  have dv: "2 ^ j dvd ck_size ?ck" using ck j(1) by (meson chunk_ok_def dvd_trans le_imp_power_dvd)
  have au: "ck_used ?ck \<le> ?au" "?au \<le> ck_size ?ck" "al dvd ?au"
    using nmo_align_bounds [OF j32 _ dv] nmo_align_dvd [OF j32] ck j(2) by (auto simp: chunk_ok_def)
  have rem: "sz_sub (ck_size ?ck) ?au = ck_size ?ck - ?au"
    by (rule sz_sub_small) (use au ck in \<open>auto simp: chunk_ok_def\<close>)
  have m: "2 ^ k dvd ?m" "?m < 2 ^ 62" "n \<le> ?m"
    using made_to_measure_ok [OF adm k] arena_grown_size_ok [OF wf]
    by (auto simp: arena_new_chunk_size_def)
  have guard: "n \<noteq> 0" "al \<noteq> 0" "(of_nat al :: u64) AND (of_nat al - 1) = 0"
    using n j j32 by simp_all
  show thesis
  proof (cases "ck_size ?ck - ?au < n")
    case False
    with au(2) have fits: "?au + n \<le> ck_size ?ck" by simp
    then have "nmo_arena_alloc n al a = arena_take ?au n a"
      using guard False by (simp add: nmo_arena_alloc_def Let_def rem)
    also have "\<dots> = Done (Some (region_at ?au n a), arena_taken ?au n a)"
      by (rule arena_take_eq) (use fits ck in \<open>simp add: chunk_ok_def\<close>)
    finally show thesis using placed au fits by blast
  next
    case True
    have tot: "sz_add 24 ?m = 24 + ?m"
      using m(2) by (simp add: sz_add_small)
    show thesis
    proof (cases "ar_alloc a (ar_calls a) (24 + ?m)")
      case False
      then have "nmo_arena_alloc n al a = Done (None, a\<lparr>ar_calls := Suc (ar_calls a)\<rparr>)"
        using guard True
        by (simp add: nmo_arena_alloc_def Let_def rem arena_create_chunk_def tot sizeof_arena_chunk_def)
      then show thesis by (rule refused)
    next
      case grant: True
      let ?b = "arena_extended ?m a"
      have "nmo_arena_alloc n al a = arena_take 0 n ?b"
        using guard True grant
        by (simp add: nmo_arena_alloc_def Let_def rem arena_create_chunk_def tot arena_extended_def
              sizeof_arena_chunk_def)
      also have "\<dots> = Done (Some (region_at 0 n ?b), arena_taken 0 n ?b)"
        by (rule arena_take_eq) (use n in simp)
      finally show thesis
        using placed [of 0 ?b] m arena_extended_current [OF wf] by auto
    qed
  qed
qed

lemma arena_wf_refused: "arena_wf k a \<Longrightarrow> arena_wf k (a\<lparr>ar_calls := Suc (ar_calls a)\<rparr>)"
  by (auto simp: arena_wf_def chunk_ok_def)

lemma arena_live_calls [simp]: "arena_live (a\<lparr>ar_calls := c\<rparr>) r = arena_live a r"
  by (simp add: arena_live_def)

interpretation ar: region_allocator nmo_arena_alloc "arena_wf k" "arena_admits k" arena_live
proof
  fix a n al assume h: "arena_wf k a" "arena_admits k n al"
  then show "\<exists>p t. nmo_arena_alloc n al a = Done (p, t) \<and> arena_wf k t"
    by (cases rule: arena_alloc_cases)
      (use h(1) in \<open>auto intro: arena_wf_refused arena_wf_taken [OF arena_wf_extended] arena_wf_taken\<close>)
next
  fix a n al r t
  assume h: "arena_wf k a" "arena_admits k n al" "nmo_arena_alloc n al a = Done (Some r, t)"
  have n: "0 < n" using h(2) by (simp add: arena_admits_def)
  from h(1,2) show "arena_live t r"
    using h(3) by (cases rule: arena_alloc_cases)
      (use h(1) n in \<open>auto intro: arena_live_region_at arena_live_region_at [OF arena_wf_extended]\<close>)
next
  fix a n al p t r
  assume h: "arena_wf k a" "arena_admits k n al" "nmo_arena_alloc n al a = Done (p, t)" "arena_live a r"
  from h(1,2) show "arena_live t r"
    using h(3,4) by (cases rule: arena_alloc_cases)
      (auto intro: arena_live_taken [OF h(1)] arena_live_taken [OF arena_wf_extended [OF h(1)]]
         arena_live_extended [OF h(1)])
next
  fix a n al r t q
  assume h: "arena_wf k a" "arena_admits k n al" "nmo_arena_alloc n al a = Done (Some r, t)" "arena_live a q"
  from h(1,2) show "regions_disjoint q r"
    using h(3,4) by (cases rule: arena_alloc_cases)
      (auto intro: arena_fresh_region_at [OF h(1)] arena_fresh_region_at [OF arena_wf_extended [OF h(1)]]
         arena_live_extended [OF h(1)])
qed

section \<open>Properties\<close>

definition region_in_block :: "arena \<Rightarrow> region \<Rightarrow> bool" where
  "region_in_block a r \<longleftrightarrow>
     (\<exists>ck \<in> set (ar_chunks a). ck_id ck = rg_chunk r \<and> rg_off r + rg_size r \<le> ck_size ck)"

definition region_address :: "nat \<Rightarrow> region \<Rightarrow> nat" where
  "region_address base r = base + sizeof_arena_chunk + rg_off r"

lemma arena_live_in_block: "arena_wf k a \<Longrightarrow> arena_live a r \<Longrightarrow> region_in_block a r"
  by (fastforce simp: arena_wf_def chunk_ok_def arena_live_def region_in_block_def)

lemma default_arena:
  assumes "nmo_arena_create alloc stale 0 = Done (Some a)"
  shows "a = \<lparr>ar_chunks = [\<lparr>ck_id = 1, ck_size = 65536, ck_used = 0\<rparr>], ar_current = 0,
           ar_initial_chunk_size = 65536, ar_next_chunk_size = 65536, ar_max_chunk_size = 16777216,
           ar_growth_factor = growth_two, ar_default_alignment = 16, ar_total_allocated = 65536,
           ar_bytes_used = 0, ar_alloc = alloc, ar_calls = 2, ar_stale = stale, ar_serial = 0\<rparr>"
  using assms
  by (auto simp: nmo_arena_create_def nmo_arena_create_ex_def nmo_arena_default_config_def Let_def
      growth_two_def arena_create_chunk_def split: if_splits)

lemma default_arena_wf:
  assumes "nmo_arena_create alloc stale 0 = Done (Some a)" and "k \<le> 16"
  shows "arena_wf k a"
proof -
  have "(65536::nat) = 2 ^ 16" "(16777216::nat) = 2 ^ 24" by simp_all
  then have d: "(2::nat) ^ k dvd 65536" "(2::nat) ^ k dvd 16777216"
    using assms(2) by (simp_all only: le_imp_power_dvd)
  then show ?thesis
    using assms(2) unfolding default_arena [OF assms(1)]
    by (simp add: arena_wf_def chunk_ok_def growth_two_def)
qed

text \<open>
  C29: from a freshly created arena with the default configuration, any sequence of requests whose
  alignments are powers of two up to some \<open>2 ^ k\<close>, \<open>k \<le> 16\<close>, and whose sizes are multiples of
  \<open>2 ^ k\<close> unless they are aligned to \<open>2 ^ k\<close>, yields regions that are pairwise disjoint and lie
  inside the blocks the arena owns, whatever the underlying allocator grants or refuses.
\<close>

theorem arena_regions_disjoint:
  assumes "nmo_arena_create alloc stale 0 = Done (Some a)" and "k \<le> 16"
    and "\<forall>(n, al) \<in> set reqs. arena_admits k n al"
  shows "\<exists>rs b. alloc_run nmo_arena_alloc reqs a = Done (rs, b)
    \<and> sorted_wrt regions_disjoint rs \<and> (\<forall>r \<in> set rs. region_in_block b r)"
proof -
  from ar.run_returns [OF default_arena_wf [OF assms(1,2)] assms(3)] show ?thesis
    using arena_live_in_block by blast
qed

theorem arena_regions_disjoint_witness:
  "\<exists>a. nmo_arena_create (\<lambda>_ _. True) (\<lambda>_ _. 0) 0 = Done (Some a)
     \<and> (\<exists>rs b. alloc_run nmo_arena_alloc [(216, 8), (400, 4), (131072, 8)] a = Done (rs, b)
     \<and> sorted_wrt regions_disjoint rs \<and> (\<forall>r \<in> set rs. region_in_block b r))"
proof -
  obtain a where a: "nmo_arena_create (\<lambda>_ _. True) (\<lambda>_ _. 0) 0 = Done (Some a)"
    by (simp add: nmo_arena_create_def nmo_arena_create_ex_def nmo_arena_default_config_def Let_def
      growth_two_def arena_create_chunk_def sizeof_arena_chunk_def sz_add_def)
  have "arena_admits 3 216 8" "arena_admits 3 400 4" "arena_admits 3 131072 8"
    unfolding arena_admits_def
    by (auto intro: exI [of _ 3] exI [of _ 2])
  then have "\<forall>(n, al) \<in> set [(216, 8), (400, 4), (131072, 8)]. arena_admits 3 n al" by simp
  from arena_regions_disjoint [OF a _ this] a show ?thesis by simp
qed

text \<open>
  C34: where the fill level of the current block, rounded up to the requested alignment, exceeds the
  size of the block, the subtraction that computes the remaining space wraps around, the request is
  taken to fit, and the returned region starts beyond the end of the block. The witness reaches such
  a state from a default arena with one request for 200004 bytes at alignment 4.
\<close>

theorem arena_alloc_escapes_block:
  assumes "ar_current a < length (ar_chunks a)"
    and "ck_used (ar_chunks a ! ar_current a) \<le> ck_size (ar_chunks a ! ar_current a)"
    and "nmo_align (ck_used (ar_chunks a ! ar_current a)) (2 ^ j) > ck_size (ar_chunks a ! ar_current a)"
    and "ck_size (ar_chunks a ! ar_current a) < 2 ^ 62" and "j \<le> 32" and "0 < sz" and "sz < 2 ^ 62"
  shows "\<exists>r b. nmo_arena_alloc sz (2 ^ j) a = Done (Some r, b)
    \<and> rg_chunk r = ck_id (ar_chunks a ! ar_current a)
    \<and> rg_off r > ck_size (ar_chunks a ! ar_current a)"
proof -
  let ?ck = "ar_chunks a ! ar_current a"
  let ?au = "nmo_align (ck_used ?ck) (2 ^ j)"
  have up: "(2::nat) ^ j \<le> 2 ^ 32" using assms(5) by (intro power_increasing) auto
  have u: "ck_used ?ck < 2 ^ 62" using assms(2,4) by (rule le_less_trans)
  have eq: "?au = (ck_used ?ck + (2 ^ j - 1)) div 2 ^ j * 2 ^ j"
    by (rule nmo_align_pow2) (use u up in simp)
  have "?au \<le> ck_used ?ck + (2 ^ j - 1)"
    unfolding eq by (rule div_times_less_eq_dividend)
  with up have "?au \<le> ck_used ?ck + 2 ^ 32" by linarith
  with u have au: "?au \<le> ck_used ?ck + 2 ^ 32" "?au < 2 ^ 63" by simp_all
  have "sz_sub (ck_size ?ck) ?au = 2 ^ 64 - (?au - ck_size ?ck)"
    by (rule sz_sub_wraps) (use assms(3) au in simp_all)
  also have "\<dots> \<ge> sz" using au assms(2,7) by simp
  finally have "\<not> sz_sub (ck_size ?ck) ?au < sz" by simp
  then have "nmo_arena_alloc sz (2 ^ j) a = arena_take ?au sz a"
    using assms(5,6) by (simp add: nmo_arena_alloc_def Let_def)
  also have "\<dots> = Done (Some (region_at ?au sz a), arena_taken ?au sz a)"
    by (rule arena_take_eq) (use au assms(7) in simp)
  finally show ?thesis using assms(3) by (simp add: region_at_def)
qed

lemma nmo_align_numeral:
  "sz + 4 < 2 ^ 64 \<Longrightarrow> nmo_align sz 4 = (sz + 3) div 4 * 4"
  "sz + 8 < 2 ^ 64 \<Longrightarrow> nmo_align sz 8 = (sz + 7) div 8 * 8"
  "sz + 16 < 2 ^ 64 \<Longrightarrow> nmo_align sz 16 = (sz + 15) div 16 * 16"
  using nmo_align_pow2 [of sz 2] nmo_align_pow2 [of sz 3] nmo_align_pow2 [of sz 4] by simp_all

lemma nmo_align_zero: "j < 64 \<Longrightarrow> nmo_align 0 (2 ^ j) = 0"
proof -
  assume "j < 64"
  then have "(2::nat) ^ j \<le> 2 ^ 63" by (intro power_increasing) auto
  then have "(0::nat) + 2 ^ j < 2 ^ 64" by simp
  from nmo_align_pow2 [OF this] show ?thesis by simp
qed

theorem arena_alloc_escapes_block_witness:
  "\<exists>a b. nmo_arena_create (\<lambda>_ _. True) (\<lambda>_ _. 0) 0 = Done (Some a)
     \<and> alloc_run nmo_arena_alloc [(200004, 4)] a
         = Done ([\<lparr>rg_chunk = 2, rg_off = 0, rg_size = 200004, rg_serial = 0\<rparr>], b)
     \<and> ck_size (ar_chunks b ! ar_current b) = 200004
     \<and> (\<exists>r c. nmo_arena_alloc 8 8 b = Done (Some r, c) \<and> rg_chunk r = 2 \<and> rg_off r > 200004)"
proof -
  obtain a where a: "nmo_arena_create (\<lambda>_ _. True) (\<lambda>_ _. 0) 0 = Done (Some a)"
    by (simp add: nmo_arena_create_def nmo_arena_create_ex_def nmo_arena_default_config_def Let_def
      growth_two_def arena_create_chunk_def sizeof_arena_chunk_def sz_add_def)
  define b where "b = arena_taken 0 200004 (arena_extended 200004 a)"
  have run: "alloc_run nmo_arena_alloc [(200004, 4)] a
      = Done ([\<lparr>rg_chunk = 2, rg_off = 0, rg_size = 200004, rg_serial = 0\<rparr>], b)"
    unfolding b_def default_arena [OF a]
    by (simp add: nmo_arena_alloc_def arena_new_chunk_size_def arena_grown_size_def growth_two_def
        nmo_align_numeral sz_sub_def arena_create_chunk_def sizeof_arena_chunk_def sz_add_def
        arena_take_def arena_taken_def arena_extended_def)
  have cur: "ar_chunks b ! ar_current b = \<lparr>ck_id = 2, ck_size = 200004, ck_used = 200004\<rparr>"
      "ar_current b < length (ar_chunks b)"
    unfolding b_def default_arena [OF a] by (simp_all add: arena_taken_def arena_extended_def)
  from arena_alloc_escapes_block [of b 3 8] cur
  have "\<exists>r c. nmo_arena_alloc 8 8 b = Done (Some r, c) \<and> rg_chunk r = 2 \<and> rg_off r > 200004"
    by (simp add: nmo_align_numeral)
  with a run cur show ?thesis by auto
qed

text \<open>
  The arena aligns offsets inside the data of a block and not addresses. The data starts 24
  bytes after an address the allocator aligned to 16, so a request for alignment 16 on a fresh
  default arena returns an address that is 8 modulo 16.
\<close>

theorem arena_misaligns_16:
  assumes "nmo_arena_create alloc stale 0 = Done (Some a)"
    and "16 dvd base" and "0 < sz" and "sz \<le> 65536"
  shows "\<exists>r b. nmo_arena_alloc sz 16 a = Done (Some r, b) \<and> region_address base r mod 16 = 8"
proof -
  from assms(3,4) have "nmo_arena_alloc sz 16 a = arena_take 0 sz a"
    unfolding default_arena [OF assms(1)]
    by (simp add: nmo_arena_alloc_def nmo_align_numeral sz_sub_def)
  moreover from assms(2) obtain m where "base = 16 * m" by (rule dvdE)
  then have "(base + 24) mod 16 = 8" by presburger
  ultimately show ?thesis
    by (simp add: arena_take_def Let_def region_address_def sizeof_arena_chunk_def)
qed

theorem arena_misaligns_16_witness:
  "\<exists>a r b. nmo_arena_create (\<lambda>_ _. True) (\<lambda>_ _. 0) 0 = Done (Some a)
     \<and> nmo_arena_alloc 216 16 a = Done (Some r, b) \<and> region_address 4096 r mod 16 = 8"
proof -
  obtain a where a: "nmo_arena_create (\<lambda>_ _. True) (\<lambda>_ _. 0) 0 = Done (Some a)"
    by (simp add: nmo_arena_create_def nmo_arena_create_ex_def nmo_arena_default_config_def Let_def
      growth_two_def arena_create_chunk_def sizeof_arena_chunk_def sz_add_def)
  from arena_misaligns_16 [OF a, of 4096 216] a show ?thesis by auto
qed

text \<open>
  When the arena leaves its current block, the new block replaces everything behind the current
  one in the list: destruction then frees the blocks up to the current one and the new one only. The
  witness loses in this way a block that \<open>nmo_arena_reserve\<close> had put there for later use.
\<close>

theorem arena_growth_drops_later_blocks:
  assumes "arena_wf k a" and "arena_admits k n al"
    and "nmo_arena_alloc n al a = Done (Some r, b)" and "ar_current b \<noteq> ar_current a"
  shows "nmo_arena_destroy b = take (Suc (ar_current a)) (nmo_arena_destroy a) @ [ar_calls a]"
  using assms(1,2)
proof (cases rule: arena_alloc_cases)
  case refused
  with assms(3) show ?thesis by simp
next
  case (placed off c)
  with assms(3,4) obtain m where c: "c = arena_extended m a" "b = arena_taken off n c"
    by (auto simp: arena_taken_def)
  have "map ck_id (ar_chunks (arena_taken off n c)) = map ck_id (ar_chunks c)"
    by (simp add: arena_taken_def ids_set_used)
  then show ?thesis using c by (simp add: nmo_arena_destroy_def arena_extended_def take_map)
qed

theorem arena_growth_drops_later_blocks_witness:
  "\<exists>a b r c. nmo_arena_create (\<lambda>_ _. True) (\<lambda>_ _. 0) 0 = Done (Some a)
     \<and> nmo_arena_reserve 131072 a = ok () b \<and> nmo_arena_destroy b = [1, 2]
     \<and> nmo_arena_alloc 131072 4 b = Done (Some r, c) \<and> nmo_arena_destroy c = [1, 3]"
proof -
  obtain a where a: "nmo_arena_create (\<lambda>_ _. True) (\<lambda>_ _. 0) 0 = Done (Some a)"
    by (simp add: nmo_arena_create_def nmo_arena_create_ex_def nmo_arena_default_config_def Let_def
      growth_two_def arena_create_chunk_def sizeof_arena_chunk_def sz_add_def)
  define b where "b = a\<lparr>ar_chunks := ar_chunks a @ [\<lparr>ck_id = 2, ck_size = 65536, ck_used = 0\<rparr>],
      ar_calls := 3, ar_total_allocated := 131072\<rparr>"
  have b: "nmo_arena_reserve 131072 a = ok () b" "nmo_arena_destroy b = [1, 2]"
    unfolding b_def default_arena [OF a]
    by (simp_all add: nmo_arena_reserve_def arena_reserve_loop.simps arena_grown_size_def growth_two_def
      arena_create_chunk_def sizeof_arena_chunk_def sz_add_def ok_def nmo_arena_destroy_def)
  have wf: "arena_wf 2 b" unfolding b_def default_arena [OF a]
    by (simp add: arena_wf_def chunk_ok_def growth_two_def nth_Cons')
  have adm: "arena_admits 2 131072 4"
    by (auto simp: arena_admits_def intro: exI [of _ 2])
  have "\<exists>r c. nmo_arena_alloc 131072 4 b = Done (Some r, c) \<and> ar_current c = 1"
    unfolding b_def default_arena [OF a]
    by (simp add: nmo_arena_alloc_def arena_new_chunk_size_def arena_grown_size_def growth_two_def
        nmo_align_numeral nmo_align_zero [of 2, simplified] sz_sub_def arena_create_chunk_def
        sizeof_arena_chunk_def sz_add_def arena_take_def)
  then obtain r c where c: "nmo_arena_alloc 131072 4 b = Done (Some r, c)" "ar_current c = 1" by blast
  have "ar_current b = 0" "ar_calls b = 3" by (simp_all add: b_def default_arena [OF a])
  with arena_growth_drops_later_blocks [OF wf adm c(1)] c(2) b have "nmo_arena_destroy c = [1, 3]" by simp
  with a b c show ?thesis by auto
qed

end
