(* ===== verification/IdRemap.thy ===== *)
theory IdRemap
  imports Arena
begin

text \<open>
  The ID remap table of \<^verbatim>\<open>src/format/nmo_id_remap.c\<close>, a growing array of pairs searched from the
  front, and the two tables built on it in \<^verbatim>\<open>src/session/id_remap.c\<close>: the one that takes file IDs
  to runtime IDs on load, and the plan that takes runtime IDs to file IDs on save.
\<close>

section \<open>State and operations\<close>

record id_remap =
  r_entries :: "(u32 \<times> u32) list"
  r_count :: nat
  r_capacity :: nat
  r_arena :: arena

definition fresh_entries :: "region \<Rightarrow> arena \<Rightarrow> nat \<Rightarrow> (u32 \<times> u32) list" where
  "fresh_entries rg a n =
     map (\<lambda>i. (ar_stale a (rg_serial rg) (2 * i), ar_stale a (rg_serial rg) (2 * i + 1))) [0..<n]"

lemma length_fresh_entries [simp, mem_simps]: "length (fresh_entries rg a n) = n"
  by (simp add: fresh_entries_def)

definition nmo_id_remap_create :: "arena \<Rightarrow> (id_remap option \<times> arena) eff" where
  "nmo_id_remap_create a =
     bindE (nmo_arena_alloc 32 8 a) (\<lambda>(q, a). case q of
       None \<Rightarrow> Done (None, a)
     | Some _ \<Rightarrow>
         bindE (nmo_arena_alloc (8 * 32) 8 a) (\<lambda>(q, a). case q of
           None \<Rightarrow> Done (None, a)
         | Some rg \<Rightarrow>
             Done (Some \<lparr>r_entries = fresh_entries rg a 32, r_count = 0, r_capacity = 32,
                         r_arena = a\<rparr>, a)))"

definition remap_store :: "u32 \<Rightarrow> u32 \<Rightarrow> id_remap \<Rightarrow> (unit, id_remap) cres" where
  "remap_store old_id new_id r =
     (if r_count r < length (r_entries r)
      then ok () (r\<lparr>r_entries := (r_entries r)[r_count r := (old_id, new_id)],
                    r_count := sz_add (r_count r) 1\<rparr>)
      else Undefined)"

definition nmo_id_remap_add :: "u32 \<Rightarrow> u32 \<Rightarrow> id_remap \<Rightarrow> (unit, id_remap) cres" where
  "nmo_id_remap_add old_id new_id r =
     (if r_count r \<ge> r_capacity r then
        let new_capacity = sz_mul (r_capacity r) 2
        in bindE (nmo_arena_alloc (sz_mul 8 new_capacity) 8 (r_arena r)) (\<lambda>(q, a).
             let r = r\<lparr>r_arena := a\<rparr>
             in case q of
                  None \<Rightarrow> fail NMO_ERR_NOMEM r
                | Some rg \<Rightarrow>
                    if r_count r \<le> length (r_entries r) \<and> r_count r \<le> new_capacity then
                      remap_store old_id new_id
                        (r\<lparr>r_entries := mem_blit (fresh_entries rg a new_capacity) 0
                                         (take (r_count r) (r_entries r)),
                           r_capacity := new_capacity\<rparr>)
                    else Undefined)
      else remap_store old_id new_id r)"

fun remap_scan :: "(u32 \<times> u32) list \<Rightarrow> u32 \<Rightarrow> u32 option" where
  "remap_scan [] k = None"
| "remap_scan ((old_id, new_id) # es) k = (if old_id = k then Some new_id else remap_scan es k)"

definition nmo_id_remap_lookup_id :: "id_remap \<Rightarrow> u32 \<Rightarrow> nmo_error_code + u32" where
  "nmo_id_remap_lookup_id r k =
     (case remap_scan (take (r_count r) (r_entries r)) k of
        Some v \<Rightarrow> Inr v
      | None \<Rightarrow> Inl NMO_ERR_NOT_FOUND)"

definition nmo_id_remap_get_count :: "id_remap \<Rightarrow> nat" where
  "nmo_id_remap_get_count r = r_count r"

definition nmo_id_remap_clear :: "id_remap \<Rightarrow> id_remap" where
  "nmo_id_remap_clear r = r\<lparr>r_count := 0\<rparr>"

text \<open>
  \<^verbatim>\<open>nmo_build_remap_table\<close>: the pairs the load session recorded (file ID, runtime ID) are added in
  order, and a failing addition is skipped. The table has an arena of its own.
\<close>

fun remap_add_all :: "(u32 \<times> u32) list \<Rightarrow> id_remap \<Rightarrow> id_remap eff" where
  "remap_add_all [] r = Done r"
| "remap_add_all ((old_id, new_id) # ps) r =
     bindE (nmo_id_remap_add old_id new_id r) (\<lambda>(_, r). remap_add_all ps r)"

definition nmo_build_remap_table ::
  "(nat \<Rightarrow> nat \<Rightarrow> bool) \<Rightarrow> (nat \<Rightarrow> nat \<Rightarrow> u32) \<Rightarrow> (u32 \<times> u32) list \<Rightarrow> id_remap option eff" where
  "nmo_build_remap_table alloc stale mappings =
     (if mappings = [] then Done None
      else bindE (nmo_arena_create alloc stale 4096) (\<lambda>arena. case arena of
        None \<Rightarrow> Done None
      | Some a \<Rightarrow>
          bindE (nmo_id_remap_create a) (\<lambda>(r, _). case r of
            None \<Rightarrow> Done None
          | Some r \<Rightarrow> bindE (remap_add_all mappings r) (\<lambda>r. Done (Some r)))))"

record id_remap_plan =
  pl_remap :: id_remap
  pl_objects_remapped :: nat

text \<open>
  The loop over the objects to save: the runtime ID of the object at index \<open>i\<close> gets file ID \<open>i\<close>;
  \<open>None\<close> is a NULL entry.
\<close>

fun plan_fill :: "nat \<Rightarrow> u32 option list \<Rightarrow> id_remap_plan \<Rightarrow> id_remap_plan eff" where
  "plan_fill i [] plan = Done plan"
| "plan_fill i (None # objs) plan = plan_fill (Suc i) objs plan"
| "plan_fill i (Some runtime_id # objs) plan =
     bindE (nmo_id_remap_add runtime_id (of_nat i) (pl_remap plan)) (\<lambda>(x, r).
       let plan = plan\<lparr>pl_remap := r\<rparr>
       in plan_fill (Suc i) objs
            (case x of
               Inr _ \<Rightarrow> plan\<lparr>pl_objects_remapped := sz_add (pl_objects_remapped plan) 1\<rparr>
             | Inl _ \<Rightarrow> plan))"

definition nmo_id_remap_plan_create ::
  "(nat \<Rightarrow> nat \<Rightarrow> bool) \<Rightarrow> (nat \<Rightarrow> nat \<Rightarrow> u32) \<Rightarrow> u32 option list \<Rightarrow> id_remap_plan option eff" where
  "nmo_id_remap_plan_create alloc stale objects =
     (if objects = [] then Done None
      else bindE (nmo_arena_create alloc stale 4096) (\<lambda>arena. case arena of
        None \<Rightarrow> Done None
      | Some a \<Rightarrow>
          bindE (nmo_arena_alloc 24 8 a) (\<lambda>(q, a). case q of
            None \<Rightarrow> Done None
          | Some _ \<Rightarrow>
              bindE (nmo_id_remap_create a) (\<lambda>(r, _). case r of
                None \<Rightarrow> Done None
              | Some r \<Rightarrow>
                  bindE (plan_fill 0 objects \<lparr>pl_remap = r, pl_objects_remapped = 0\<rparr>)
                    (\<lambda>plan. Done (Some plan))))))"

text \<open>The accessors the session offers; a NULL table or plan is \<open>None\<close>, and a NULL destination \<open>False\<close>.\<close>

definition nmo_id_remap_lookup :: "id_remap option \<Rightarrow> u32 \<Rightarrow> bool \<Rightarrow> nmo_error_code + u32" where
  "nmo_id_remap_lookup table old_id has_out =
     (case table of
        None \<Rightarrow> Inl NMO_ERR_INVALID_ARGUMENT
      | Some r \<Rightarrow> if has_out then nmo_id_remap_lookup_id r old_id else Inl NMO_ERR_INVALID_ARGUMENT)"

definition nmo_id_remap_table_get_count :: "id_remap option \<Rightarrow> nat" where
  "nmo_id_remap_table_get_count table = (case table of None \<Rightarrow> 0 | Some r \<Rightarrow> nmo_id_remap_get_count r)"

definition nmo_id_remap_plan_get_table :: "id_remap_plan option \<Rightarrow> id_remap option" where
  "nmo_id_remap_plan_get_table plan = (case plan of None \<Rightarrow> None | Some p \<Rightarrow> Some (pl_remap p))"

definition nmo_id_remap_plan_get_remapped_count :: "id_remap_plan option \<Rightarrow> nat" where
  "nmo_id_remap_plan_get_remapped_count plan = (case plan of None \<Rightarrow> 0 | Some p \<Rightarrow> pl_objects_remapped p)"

section \<open>The interface of a remap table\<close>

text \<open>
  What a client of a remap table relies on. \<open>inv n s\<close> says that the table is well formed and has
  room in its index arithmetic for \<open>n\<close> more entries. A table answers with the first pair added for
  a key.
\<close>

locale remap_table =
  fixes add :: "'k \<Rightarrow> 'v \<Rightarrow> 's \<Rightarrow> (unit, 's) cres"
    and lookup :: "'s \<Rightarrow> 'k \<Rightarrow> nmo_error_code + 'v"
    and inv :: "nat \<Rightarrow> 's \<Rightarrow> bool"
  assumes add_returns: "inv (Suc n) s \<Longrightarrow> \<exists>x t. add k v s = Done (x, t) \<and> inv n t"
    and add_ok: "inv (Suc n) s \<Longrightarrow> add k v s = Done (Inr u, t) \<Longrightarrow>
      lookup t j = (case lookup s j of Inr w \<Rightarrow> Inr w
                    | Inl e \<Rightarrow> if j = k then Inr v else Inl NMO_ERR_NOT_FOUND)"
    and add_fail: "inv (Suc n) s \<Longrightarrow> add k v s = Done (Inl e, t) \<Longrightarrow> lookup t = lookup s"
begin

lemma add_keeps:
  assumes "inv (Suc n) s" and "add k v s = Done (x, t)" and "lookup s j = Inr w"
  shows "lookup t j = Inr w"
proof (cases x)
  case (Inl e)
  with add_fail [OF assms(1)] assms show ?thesis by simp
next
  case (Inr u)
  with add_ok [OF assms(1), of k v u t j] assms show ?thesis by simp
qed

lemma add_only:
  assumes "inv (Suc n) s" and "add k v s = Done (x, t)" and "lookup t j = Inr w" and "j \<noteq> k"
  shows "lookup s j = Inr w"
proof (cases x)
  case (Inl e)
  with add_fail [OF assms(1)] assms show ?thesis by simp
next
  case (Inr u)
  with add_ok [OF assms(1), of k v u t j] assms show ?thesis by (simp split: sum.splits)
qed

end

definition remap_wf :: "nat \<Rightarrow> id_remap \<Rightarrow> bool" where
  "remap_wf n r \<longleftrightarrow> length (r_entries r) = r_capacity r \<and> r_count r \<le> r_capacity r
     \<and> 0 < r_capacity r \<and> r_capacity r \<le> 2 ^ 57 \<and> r_count r + n \<le> 2 ^ 56 \<and> arena_sane (r_arena r)"

lemma remap_scan_map_of: "remap_scan es k = map_of es k"
  by (induction es) auto

lemma lookup_map_of:
  "nmo_id_remap_lookup_id r k
     = (case map_of (take (r_count r) (r_entries r)) k of Some v \<Rightarrow> Inr v | None \<Rightarrow> Inl NMO_ERR_NOT_FOUND)"
  by (simp add: nmo_id_remap_lookup_id_def remap_scan_map_of)

lemma remap_store_ok:
  assumes "r_count r < length (r_entries r)" and "r_count r < 2 ^ 57"
  shows "\<exists>t. remap_store k v r = Done (Inr (), t) \<and> r_count t = Suc (r_count r)
    \<and> length (r_entries t) = length (r_entries r) \<and> r_capacity t = r_capacity r \<and> r_arena t = r_arena r
    \<and> take (r_count t) (r_entries t) = take (r_count r) (r_entries r) @ [(k, v)]"
  using assms by (simp add: remap_store_def ok_def sz_add_small take_Suc_conv_app_nth)

text \<open>One addition: it fails without a trace in the table, or appends one pair.\<close>

lemma remap_add_cases:
  assumes "remap_wf (Suc n) r"
  obtains (nomem) t where "nmo_id_remap_add k v r = Done (Inl NMO_ERR_NOMEM, t)" "remap_wf n t"
      "take (r_count t) (r_entries t) = take (r_count r) (r_entries r)" "\<not> arena_grants (r_arena r)"
  | (added) t where "nmo_id_remap_add k v r = Done (Inr (), t)" "remap_wf n t"
      "arena_grants (r_arena t) = arena_grants (r_arena r)"
      "take (r_count t) (r_entries t) = take (r_count r) (r_entries r) @ [(k, v)]"
proof (cases "r_count r \<ge> r_capacity r")
  case False
  with assms have c: "r_count r < length (r_entries r)" "r_count r < 2 ^ 57" by (simp_all add: remap_wf_def)
  from remap_store_ok [OF this] obtain t where
    "remap_store k v r = Done (Inr (), t)" "r_count t = Suc (r_count r)"
    "length (r_entries t) = length (r_entries r)" "r_capacity t = r_capacity r" "r_arena t = r_arena r"
    "take (r_count t) (r_entries t) = take (r_count r) (r_entries r) @ [(k, v)]" by blast
  with False assms c show thesis
    by (intro added [of t]) (auto simp: nmo_id_remap_add_def remap_wf_def)
next
  case True
  with assms have cap: "r_count r = r_capacity r" "0 < r_capacity r" "r_capacity r \<le> 2 ^ 56"
      "length (r_entries r) = r_capacity r" "arena_sane (r_arena r)"
    by (auto simp: remap_wf_def)
  have nc: "sz_mul (r_capacity r) 2 = 2 * r_capacity r" "sz_mul 8 (2 * r_capacity r) = 16 * r_capacity r"
    using cap(3) by (simp_all add: sz_mul_small)
  obtain q b where
    b: "nmo_arena_alloc (16 * r_capacity r) 8 (r_arena r) = Done (q, b)" "arena_sane b"
      "arena_grants b = arena_grants (r_arena r)" "arena_grants (r_arena r) \<Longrightarrow> q \<noteq> None"
    by (rule arena_alloc_sane [OF cap(5), of "16 * r_capacity r" 8]) (use cap(2,3) in auto)
  show thesis
  proof (cases q)
    case None
    with b True nc assms show thesis
      by (intro nomem [of "r\<lparr>r_arena := b\<rparr>"]) (auto simp: nmo_id_remap_add_def remap_wf_def fail_def)
  next
    case (Some rg)
    let ?e = "mem_blit (fresh_entries rg b (2 * r_capacity r)) 0 (take (r_count r) (r_entries r))"
    let ?r = "r\<lparr>r_arena := b, r_entries := ?e, r_capacity := 2 * r_capacity r\<rparr>"
    have len: "length ?e = 2 * r_capacity r" using cap by simp
    have tk: "take (r_count r) ?e = take (r_count r) (r_entries r)" using cap by (simp add: mem_blit_def)
    have eq: "nmo_id_remap_add k v r = remap_store k v ?r"
      using True b Some nc cap by (simp add: nmo_id_remap_add_def Let_def)
    have "r_count ?r < length (r_entries ?r)" "r_count ?r < 2 ^ 57" using len cap by simp_all
    from remap_store_ok [OF this] obtain t where t: "remap_store k v ?r = Done (Inr (), t)"
      "r_count t = Suc (r_count ?r)" "length (r_entries t) = length (r_entries ?r)"
      "r_capacity t = r_capacity ?r" "r_arena t = r_arena ?r"
      "take (r_count t) (r_entries t) = take (r_count ?r) (r_entries ?r) @ [(k, v)]" by blast
    show thesis
    proof (rule added [of t])
      show "arena_grants (r_arena t) = arena_grants (r_arena r)" using t(5) b(3) by simp
      show "nmo_id_remap_add k v r = Done (Inr (), t)" by (simp only: eq t(1))
      show "remap_wf n t" using t cap assms b(2) len by (simp add: remap_wf_def)
      show "take (r_count t) (r_entries t) = take (r_count r) (r_entries r) @ [(k, v)]"
        using t(6) tk by simp
    qed
  qed
qed

interpretation rt: remap_table nmo_id_remap_add nmo_id_remap_lookup_id remap_wf
proof
  fix n r k v assume "remap_wf (Suc n) r"
  then show "\<exists>x t. nmo_id_remap_add k v r = Done (x, t) \<and> remap_wf n t"
    by (cases rule: remap_add_cases [of n r k v]) auto
next
  fix n r k v u t j assume h: "remap_wf (Suc n) r" "nmo_id_remap_add k v r = Done (Inr u, t)"
  from h(1) show "nmo_id_remap_lookup_id t j = (case nmo_id_remap_lookup_id r j of Inr w \<Rightarrow> Inr w
       | Inl e \<Rightarrow> if j = k then Inr v else Inl NMO_ERR_NOT_FOUND)"
    by (cases rule: remap_add_cases [of n r k v])
      (use h(2) in \<open>auto simp: lookup_map_of map_add_def split: option.splits\<close>)
next
  fix n r k v e t assume h: "remap_wf (Suc n) r" "nmo_id_remap_add k v r = Done (Inl e, t)"
  from h(1) show "nmo_id_remap_lookup_id t = nmo_id_remap_lookup_id r"
    by (cases rule: remap_add_cases [of n r k v])
      (use h(2) in \<open>auto simp: lookup_map_of fun_eq_iff\<close>)
qed

section \<open>Filling a table\<close>

fun add_list :: "('k \<Rightarrow> 'v \<Rightarrow> 's \<Rightarrow> (unit, 's) cres) \<Rightarrow> ('k \<times> 'v) list \<Rightarrow> 's \<Rightarrow> 's eff" where
  "add_list add [] s = Done s"
| "add_list add ((k, v) # ps) s = bindE (add k v s) (\<lambda>(_, s). add_list add ps s)"

locale total_remap_table = remap_table +
  assumes add_total: "inv (Suc n) s \<Longrightarrow> add k v s = Done (x, t) \<Longrightarrow> x = Inr ()"
begin

lemma add_list_lookup:
  assumes "inv (length ps + n) s"
  shows "\<exists>t. add_list add ps s = Done t \<and> inv n t
    \<and> (\<forall>j. lookup t j = (case lookup s j of Inr w \<Rightarrow> Inr w
         | Inl e \<Rightarrow> (case map_of ps j of Some w \<Rightarrow> Inr w
                     | None \<Rightarrow> if ps = [] then Inl e else Inl NMO_ERR_NOT_FOUND)))"
  using assms
proof (induction ps arbitrary: s)
  case Nil
  then show ?case by (auto split: sum.splits)
next
  case (Cons p ps)
  obtain k v where p: "p = (k, v)" by (cases p)
  from Cons.prems have i: "inv (Suc (length ps + n)) s" by simp
  from add_returns [OF i] obtain x t where t: "add k v s = Done (x, t)" "inv (length ps + n) t" by blast
  with add_total [OF i] have x: "add k v s = Done (Inr (), t)" by blast
  from Cons.IH [OF t(2)] obtain u where u: "add_list add ps t = Done u" "inv n u"
    "\<And>j. lookup u j = (case lookup t j of Inr w \<Rightarrow> Inr w
         | Inl e \<Rightarrow> (case map_of ps j of Some w \<Rightarrow> Inr w
                     | None \<Rightarrow> if ps = [] then Inl e else Inl NMO_ERR_NOT_FOUND))" by blast
  have "lookup u j = (case lookup s j of Inr w \<Rightarrow> Inr w
         | Inl e \<Rightarrow> (case map_of (p # ps) j of Some w \<Rightarrow> Inr w | None \<Rightarrow> Inl NMO_ERR_NOT_FOUND))" for j
    unfolding u(3) add_ok [OF i x, of j] by (auto simp: p split: sum.splits option.splits)
  with u(1,2) x show ?case by (simp add: p split: sum.splits option.splits)
qed

end

definition remap_granted :: "nat \<Rightarrow> id_remap \<Rightarrow> bool" where
  "remap_granted n r \<longleftrightarrow> remap_wf n r \<and> arena_grants (r_arena r)"

interpretation rtt: total_remap_table nmo_id_remap_add nmo_id_remap_lookup_id remap_granted
proof
  fix n r k v assume h: "remap_granted (Suc n) r"
  then have "remap_wf (Suc n) r" by (simp add: remap_granted_def)
  then show "\<exists>x t. nmo_id_remap_add k v r = Done (x, t) \<and> remap_granted n t"
    by (cases rule: remap_add_cases [of n r k v]) (use h in \<open>auto simp: remap_granted_def\<close>)
next
  fix n r k v x t assume h: "remap_granted (Suc n) r" "nmo_id_remap_add k v r = Done (x, t)"
  then have "remap_wf (Suc n) r" by (simp add: remap_granted_def)
  then show "x = Inr ()"
    by (cases rule: remap_add_cases [of n r k v]) (use h in \<open>auto simp: remap_granted_def\<close>)
next
  fix n r k v u t j assume "remap_granted (Suc n) r" "nmo_id_remap_add k v r = Done (Inr u, t)"
  then show "nmo_id_remap_lookup_id t j = (case nmo_id_remap_lookup_id r j of Inr w \<Rightarrow> Inr w
       | Inl e \<Rightarrow> if j = k then Inr v else Inl NMO_ERR_NOT_FOUND)"
    unfolding remap_granted_def by (blast intro: rt.add_ok)
next
  fix n r k v e t assume "remap_granted (Suc n) r" "nmo_id_remap_add k v r = Done (Inl e, t)"
  then show "nmo_id_remap_lookup_id t = nmo_id_remap_lookup_id r"
    unfolding remap_granted_def by (blast intro: rt.add_fail)
qed

lemma remap_add_all_eq: "remap_add_all ps r = add_list nmo_id_remap_add ps r"
  by (induction ps r rule: remap_add_all.induct) (auto simp: bindE_def split: eff.splits prod.splits)

text \<open>The pairs the save plan adds.\<close>

definition plan_pairs :: "nat \<Rightarrow> u32 option list \<Rightarrow> (u32 \<times> u32) list" where
  "plan_pairs i objs = [(the q, of_nat j). (j, q) \<leftarrow> enumerate i objs, q \<noteq> None]"

lemma plan_pairs_simps [simp]:
  "plan_pairs i [] = []"
  "plan_pairs i (None # objs) = plan_pairs (Suc i) objs"
  "plan_pairs i (Some k # objs) = (k, of_nat i) # plan_pairs (Suc i) objs"
  by (simp_all add: plan_pairs_def)

lemma plan_fill_eq:
  assumes "remap_granted (length objs + n) (pl_remap plan)"
  shows "\<exists>t. plan_fill i objs plan = Done t
    \<and> add_list nmo_id_remap_add (plan_pairs i objs) (pl_remap plan) = Done (pl_remap t)"
  using assms
proof (induction objs arbitrary: i plan)
  case Nil
  then show ?case by simp
next
  case (Cons q objs)
  show ?case
  proof (cases q)
    case None
    with Cons.prems have "remap_granted (length objs + n) (pl_remap plan)"
      by (simp add: remap_granted_def remap_wf_def)
    from Cons.IH [OF this, of "Suc i"] None show ?thesis by simp
  next
    case (Some k)
    from Cons.prems have g: "remap_granted (Suc (length objs + n)) (pl_remap plan)" by simp
    from rtt.add_returns [OF g, of k "of_nat i"] obtain x t where
      t: "nmo_id_remap_add k (of_nat i) (pl_remap plan) = Done (x, t)" "remap_granted (length objs + n) t"
      by blast
    have x: "x = Inr ()" using rtt.add_total [OF g t(1)] .
    let ?plan = "plan\<lparr>pl_remap := t, pl_objects_remapped := sz_add (pl_objects_remapped plan) 1\<rparr>"
    from Cons.IH [of ?plan "Suc i"] t x Some show ?thesis by (simp add: Let_def)
  qed
qed

lemma length_plan_pairs: "length (plan_pairs i objs) \<le> length objs"
proof (induction objs arbitrary: i)
  case (Cons q objs)
  then show ?case by (cases q) (simp_all add: le_SucI)
qed simp

lemma map_of_plan_pairs:
  assumes "Some k \<notin> set (take j objs)" and "j < length objs" and "objs ! j = Some k"
  shows "map_of (plan_pairs i objs) k = Some (of_nat (i + j))"
  using assms
proof (induction objs arbitrary: i j)
  case (Cons q objs)
  show ?case
  proof (cases j)
    case 0
    with Cons.prems show ?thesis by simp
  next
    case (Suc m)
    with Cons.prems have m: "m < length objs" "objs ! m = Some k" "q \<noteq> Some k" by auto
    with Cons.IH [of m "Suc i"] Cons.prems(1) Suc show ?thesis by (cases q) auto
  qed
qed simp

lemma created_remap:
  assumes "arena_sane a" and "arena_grants a"
  shows "\<exists>r b. nmo_id_remap_create a = Done (Some r, b) \<and> r_count r = 0
     \<and> (\<forall>n \<le> 2 ^ 56. remap_granted n r)"
proof -
  obtain q b where b: "nmo_arena_alloc 32 8 a = Done (q, b)" "arena_sane b" "arena_grants b" "q \<noteq> None"
    by (rule arena_alloc_sane [OF assms(1), of 32 8]) (use assms(2) in auto)
  obtain p c where c: "nmo_arena_alloc 256 8 b = Done (p, c)" "arena_sane c" "arena_grants c" "p \<noteq> None"
    by (rule arena_alloc_sane [OF b(2), of 256 8]) (use b(3) in auto)
  from b(1,4) c show ?thesis
    by (auto simp: nmo_id_remap_create_def remap_granted_def remap_wf_def)
qed

lemma granted_arena:
  assumes "\<And>k n. alloc k n" and "n < 2 ^ 62"
  shows "\<exists>a. nmo_arena_create alloc stale n = Done (Some a) \<and> arena_sane a \<and> arena_grants a"
  using assms(1) assms(2)
  by (auto simp: nmo_arena_create_def nmo_arena_create_ex_def nmo_arena_default_config_def Let_def
      growth_two_def arena_create_chunk_def sizeof_arena_chunk_def sz_add_small arena_sane_def arena_grants_def)

section \<open>Properties\<close>

text \<open>
  C28: a table answers each key with the value of the first pair added for it, through every growth
  of its array, as long as the allocator does not refuse: adding the pairs of a load session gives
  the table whose lookup is the association list of these pairs.
\<close>

theorem build_remap_table_lookup:
  assumes "\<And>k n. alloc k n" and "mappings \<noteq> []" and "length mappings \<le> 2 ^ 56"
  shows "\<exists>r. nmo_build_remap_table alloc stale mappings = Done (Some r)
    \<and> (\<forall>k. nmo_id_remap_lookup_id r k
          = (case map_of mappings k of Some v \<Rightarrow> Inr v | None \<Rightarrow> Inl NMO_ERR_NOT_FOUND))"
proof -
  obtain a where a: "nmo_arena_create alloc stale 4096 = Done (Some a)" "arena_sane a" "arena_grants a"
    using granted_arena [where alloc = alloc and n = 4096, OF assms(1)] by auto
  from created_remap [OF a(2,3)] obtain r b where
    r: "nmo_id_remap_create a = Done (Some r, b)" "r_count r = 0" "\<And>n. n \<le> 2 ^ 56 \<Longrightarrow> remap_granted n r"
    by blast
  have empty: "nmo_id_remap_lookup_id r k = Inl NMO_ERR_NOT_FOUND" for k
    using r(2) by (simp add: lookup_map_of)
  from rtt.add_list_lookup [of mappings 0 r] r(3) [of "length mappings"] assms(3) obtain t where
    t: "add_list nmo_id_remap_add mappings r = Done t"
      "\<And>j. nmo_id_remap_lookup_id t j
        = (case map_of mappings j of Some w \<Rightarrow> Inr w | None \<Rightarrow> Inl NMO_ERR_NOT_FOUND)"
    using assms(2) by (auto simp: empty)
  with a(1) r(1) assms(2) show ?thesis
    by (auto simp: nmo_build_remap_table_def remap_add_all_eq)
qed

theorem build_remap_table_lookup_witness:
  "\<exists>r. nmo_build_remap_table (\<lambda>_ _. True) (\<lambda>_ _. 0) [(0, 7), (3, 9), (0, 8)] = Done (Some r)
     \<and> nmo_id_remap_lookup_id r 0 = Inr 7 \<and> nmo_id_remap_lookup_id r 3 = Inr 9
     \<and> nmo_id_remap_lookup_id r 7 = Inl NMO_ERR_NOT_FOUND"
proof -
  have "\<exists>r. nmo_build_remap_table (\<lambda>_ _. True) (\<lambda>_ _. 0) [(0, 7), (3, 9), (0, 8)] = Done (Some r)
    \<and> (\<forall>k. nmo_id_remap_lookup_id r k = (case map_of [(0, 7), (3, 9), (0, 8)] k of
         Some v \<Rightarrow> Inr v | None \<Rightarrow> Inl NMO_ERR_NOT_FOUND))"
    by (rule build_remap_table_lookup) simp_all
  then obtain r where r: "nmo_build_remap_table (\<lambda>_ _. True) (\<lambda>_ _. 0) [(0, 7), (3, 9), (0, 8)] = Done (Some r)"
    "\<And>k. nmo_id_remap_lookup_id r k = (case map_of [(0, 7), (3, 9), (0, 8)] k of
         Some v \<Rightarrow> Inr v | None \<Rightarrow> Inl NMO_ERR_NOT_FOUND)" by blast
  then show ?thesis by (intro exI [of _ r]) (simp add: r(2))
qed

text \<open>
  The save plan gives the object whose first occurrence in the list to save is at index \<open>j\<close> the
  file ID \<open>j\<close>, whatever NULL entries the list has. In particular the first object gets file ID 0,
  the value that stands for no object.
\<close>

theorem plan_assigns_indices:
  assumes "\<And>k n. alloc k n" and "length objects \<le> 2 ^ 32" and "Some k \<notin> set (take j objects)"
    and "j < length objects" and "objects ! j = Some k"
  shows "\<exists>plan. nmo_id_remap_plan_create alloc stale objects = Done (Some plan)
    \<and> nmo_id_remap_lookup_id (pl_remap plan) k = Inr (of_nat j)"
proof -
  obtain a where a: "nmo_arena_create alloc stale 4096 = Done (Some a)" "arena_sane a" "arena_grants a"
    using granted_arena [where alloc = alloc and n = 4096, OF assms(1)] by auto
  obtain q b where b: "nmo_arena_alloc 24 8 a = Done (q, b)" "arena_sane b" "arena_grants b" "q \<noteq> None"
    by (rule arena_alloc_sane [OF a(2), of 24 8]) (use a(3) in auto)
  from created_remap [OF b(2,3)] obtain r c where
    r: "nmo_id_remap_create b = Done (Some r, c)" "r_count r = 0" "\<And>n. n \<le> 2 ^ 56 \<Longrightarrow> remap_granted n r"
    by blast
  from plan_fill_eq [of objects 0 "\<lparr>pl_remap = r, pl_objects_remapped = 0\<rparr>" 0] r(3) [of "length objects"] assms(2)
  obtain p where p: "plan_fill 0 objects \<lparr>pl_remap = r, pl_objects_remapped = 0\<rparr> = Done p"
      "add_list nmo_id_remap_add (plan_pairs 0 objects) r = Done (pl_remap p)" by auto
  have "remap_granted (length (plan_pairs 0 objects) + 0) r"
    using r(3) length_plan_pairs [of 0 objects] assms(2) by simp
  from rtt.add_list_lookup [OF this] p(2) map_of_plan_pairs [OF assms(3-5), of 0]
  have "nmo_id_remap_lookup_id (pl_remap p) k = Inr (of_nat j)"
    using r(2) by (simp add: lookup_map_of)
  moreover have "objects \<noteq> []" using assms(4) by auto
  ultimately show ?thesis using a(1) b(1,4) r(1) p(1)
    by (auto simp: nmo_id_remap_plan_create_def)
qed

theorem plan_assigns_indices_witness:
  "\<exists>plan. nmo_id_remap_plan_create (\<lambda>_ _. True) (\<lambda>_ _. 0) [Some 5, None, Some 17] = Done (Some plan)
     \<and> nmo_id_remap_lookup_id (pl_remap plan) 5 = Inr 0"
  using plan_assigns_indices [of "\<lambda>_ _. True" "[Some 5, None, Some 17]" 5 0 "\<lambda>_ _. 0"] by simp

end
