(* ===== verification/Chunk.thy ===== *)
theory Chunk
  imports IdRemap
begin

text \<open>
  The \<^verbatim>\<open>CKStateChunk\<close> of \<^verbatim>\<open>include/format/nmo_chunk.h\<close>: version fields, option flags, the buffer of
  32-bit words, the lists that track object IDs, sub-chunk positions and manager entries, and the
  sub-chunks. The record \<open>chunk_body\<close> holds every field but the array of sub-chunks, the datatype
  \<open>nmo_chunk\<close> adds it. A pointer to a buffer is \<open>None\<close> for NULL; its list is the memory it points
  to, whose length need not agree with the count field next to it.
\<close>

section \<open>Types and constants\<close>

record nmo_guid =
  d1 :: u32
  d2 :: u32

record chunk_body =
  c_class_id :: u32
  c_data_version :: u32
  c_chunk_version :: u32
  c_chunk_class_id :: u8
  c_chunk_options :: u32
  c_data :: "u32 list option"
  c_data_size :: nat
  c_data_capacity :: nat
  c_ids :: "u32 list option"
  c_id_count :: nat
  c_id_capacity :: nat
  c_chunk_count :: nat
  c_chunk_capacity :: nat
  c_chunk_refs :: "u32 list option"
  c_chunk_ref_count :: nat
  c_chunk_ref_capacity :: nat
  c_managers :: "u32 list option"
  c_manager_count :: nat
  c_manager_capacity :: nat
  c_uncompressed_size :: nat
  c_compressed_size :: nat
  c_is_compressed :: bool
  c_unpack_size :: nat
  c_raw_data :: "u8 list option"
  c_raw_size :: nat
  c_owns_data :: bool

text \<open>
  The array \<^verbatim>\<open>chunks\<close> is \<open>None\<close> for NULL; an entry \<open>None\<close> is a NULL pointer in the array. The chunks
  a chunk reaches form a tree.
\<close>

datatype nmo_chunk = Chunk (c_body: chunk_body) (c_chunks: "nmo_chunk option list option")

definition NMO_CHUNK_OPTION_IDS :: u32 where "NMO_CHUNK_OPTION_IDS = 0x01"
definition NMO_CHUNK_OPTION_MAN :: u32 where "NMO_CHUNK_OPTION_MAN = 0x02"
definition NMO_CHUNK_OPTION_CHN :: u32 where "NMO_CHUNK_OPTION_CHN = 0x04"
definition NMO_CHUNK_OPTION_FILE :: u32 where "NMO_CHUNK_OPTION_FILE = 0x08"

definition NMO_CHUNK_VERSION1 :: nat where "NMO_CHUNK_VERSION1 = 4"
definition NMO_CHUNK_VERSION2 :: nat where "NMO_CHUNK_VERSION2 = 5"
definition NMO_CHUNK_VERSION3 :: nat where "NMO_CHUNK_VERSION3 = 6"
definition NMO_CHUNK_VERSION4 :: nat where "NMO_CHUNK_VERSION4 = 7"

lemmas chunk_option_defs =
  NMO_CHUNK_OPTION_IDS_def NMO_CHUNK_OPTION_MAN_def NMO_CHUNK_OPTION_CHN_def NMO_CHUNK_OPTION_FILE_def

lemmas chunk_version_defs =
  NMO_CHUNK_VERSION1_def NMO_CHUNK_VERSION2_def NMO_CHUNK_VERSION3_def NMO_CHUNK_VERSION4_def

definition sizeof_chunk :: nat where
  "sizeof_chunk = 216"

text \<open>The test of a flag, as \<^verbatim>\<open>options & flag\<close> in a condition.\<close>

definition has_option :: "u32 \<Rightarrow> u32 \<Rightarrow> bool" where
  "has_option options flag \<longleftrightarrow> options AND flag \<noteq> 0"

text \<open>
  The optional pair of ID tables a writer or parser is given to convert object IDs between
  runtime and file numbering (\<^verbatim>\<open>nmo_chunk_context.h\<close>).
\<close>

record chunk_file_context =
  runtime_to_file :: "id_remap option"
  file_to_runtime :: "id_remap option"

section \<open>Creation\<close>

definition empty_body :: chunk_body where
  "empty_body =
     \<lparr>c_class_id = 0, c_data_version = 0, c_chunk_version = 7, c_chunk_class_id = 0,
      c_chunk_options = 0, c_data = None, c_data_size = 0, c_data_capacity = 0,
      c_ids = None, c_id_count = 0, c_id_capacity = 0, c_chunk_count = 0, c_chunk_capacity = 0,
      c_chunk_refs = None, c_chunk_ref_count = 0, c_chunk_ref_capacity = 0,
      c_managers = None, c_manager_count = 0, c_manager_capacity = 0,
      c_uncompressed_size = 0, c_compressed_size = 0, c_is_compressed = False, c_unpack_size = 0,
      c_raw_data = None, c_raw_size = 0, c_owns_data = True\<rparr>"

definition nmo_chunk_create :: "arena \<Rightarrow> (nmo_chunk option \<times> arena) eff" where
  "nmo_chunk_create a =
     bindE (nmo_arena_alloc sizeof_chunk 8 a) (\<lambda>(q, a). case q of
       None \<Rightarrow> Done (None, a)
     | Some _ \<Rightarrow> Done (Some (Chunk empty_body None), a))"

section \<open>Well-formed chunks\<close>

text \<open>
  A buffer holds the words its count announces: the pointer is not NULL unless the count is zero,
  and the memory it points to has at least that many words.
\<close>

definition buffer_ok :: "u32 list option \<Rightarrow> nat \<Rightarrow> bool" where
  "buffer_ok p n \<longleftrightarrow> n < 2 ^ 60 \<and> (case p of None \<Rightarrow> n = 0 | Some xs \<Rightarrow> n \<le> length xs)"

text \<open>The words of such a buffer.\<close>

definition words :: "u32 list option \<Rightarrow> nat \<Rightarrow> u32 list" where
  "words p n = (case p of None \<Rightarrow> [] | Some xs \<Rightarrow> take n xs)"

lemma length_words [simp, mem_simps]: "buffer_ok p n \<Longrightarrow> length (words p n) = n"
  by (auto simp: buffer_ok_def words_def split: option.splits)

definition body_ok :: "chunk_body \<Rightarrow> bool" where
  "body_ok b \<longleftrightarrow> buffer_ok (c_data b) (c_data_size b) \<and> buffer_ok (c_ids b) (c_id_count b)
     \<and> buffer_ok (c_chunk_refs b) (c_chunk_ref_count b)
     \<and> buffer_ok (c_managers b) (c_manager_count b)"

text \<open>
  Reading \<open>n\<close> words at word \<open>i\<close> of a buffer, as \<^verbatim>\<open>memcpy(dst, &p[i], n * sizeof(uint32_t))\<close> does:
  outside the memory that is there, or through NULL, the access is undefined.
\<close>

definition load_dwords :: "u32 list option \<Rightarrow> nat \<Rightarrow> nat \<Rightarrow> u32 list eff" where
  "load_dwords p i n = (case p of
       None \<Rightarrow> Undefined
     | Some xs \<Rightarrow> if i + n \<le> length xs then Done (take n (drop i xs)) else Undefined)"

definition load_dword :: "u32 list option \<Rightarrow> nat \<Rightarrow> u32 eff" where
  "load_dword p i = (case p of
       None \<Rightarrow> Undefined
     | Some xs \<Rightarrow> if i < length xs then Done (xs ! i) else Undefined)"

text \<open>The same for \<open>n\<close> bytes from the start of word \<open>i\<close>.\<close>

definition load_bytes :: "u32 list option \<Rightarrow> nat \<Rightarrow> nat \<Rightarrow> u8 list eff" where
  "load_bytes p i n = (case p of
       None \<Rightarrow> Undefined
     | Some xs \<Rightarrow> if 4 * i + n \<le> 4 * length xs then Done (take n (bytes_of_dwords (drop i xs)))
                  else Undefined)"

end
