(* ===== verification/ChunkWriter.thy ===== *)
theory ChunkWriter
  imports Chunk
begin

text \<open>
  The chunk writer of \<^verbatim>\<open>src/format/chunk_writer.c\<close>: a buffer of words that grows in the arena, the
  lists of positions it tracks, and the chunk that \<^verbatim>\<open>finalize\<close> hands them to. Every operation is
  modelled on the buffers as they are in memory, capacity and unwritten tail included.
\<close>

section \<open>State\<close>

text \<open>A tracked list of words: the array (NULL at first), its length and its capacity.\<close>

record track_list =
  tl_items :: "u32 list option"
  tl_count :: nat
  tl_capacity :: nat

record chunk_writer =
  w_chunk :: "nmo_chunk option"
  w_file_context :: "chunk_file_context option"
  w_arena :: arena
  w_data :: "u32 list"
  w_data_size :: nat
  w_data_capacity :: nat
  w_id_list :: track_list
  w_manager_list :: track_list
  w_chunk_ref_list :: track_list
  w_chunk_list :: "nmo_chunk option list option"
  w_chunk_count :: nat
  w_chunk_capacity :: nat
  w_prev_identifier_pos :: nat
  w_finalized :: bool

type_synonym 'a wres = "('a, chunk_writer) cres"

definition LIST_SEQUENCE_MARKER :: u32 where "LIST_SEQUENCE_MARKER = 0xFFFFFFFF"

definition WRITER_INITIAL_CAPACITY :: nat where "WRITER_INITIAL_CAPACITY = 100"

definition WRITER_GROWTH_INCREMENT :: nat where "WRITER_GROWTH_INCREMENT = 500"

definition sizeof_writer :: nat where "sizeof_writer = 168"

section \<open>Capacity\<close>

text \<open>
  Allocate an array of \<open>n\<close> words and copy the first \<open>count\<close> words of the old one into it; \<open>None\<close>
  is an allocation failure.
\<close>

definition realloc_dwords ::
  "u32 list option \<Rightarrow> nat \<Rightarrow> nat \<Rightarrow> arena \<Rightarrow> (u32 list option \<times> arena) eff" where
  "realloc_dwords old count n a =
     bindE (nmo_arena_alloc (sz_mul n 4) 4 a) (\<lambda>(q, a). case q of
       None \<Rightarrow> Done (None, a)
     | Some rg \<Rightarrow>
         let new = fresh_dwords rg a (rg_size rg div 4)
         in if old \<noteq> None \<and> count > 0 then
              bindE (load_dwords old 0 count) (\<lambda>xs.
                if count \<le> length new then Done (Some (mem_blit new 0 xs), a) else Undefined)
            else Done (Some new, a))"

definition ensure_data_capacity :: "nat \<Rightarrow> chunk_writer \<Rightarrow> unit wres" where
  "ensure_data_capacity needed_dwords w =
     (if sz_add (w_data_size w) needed_dwords \<le> w_data_capacity w then ok () w
      else case grow_until (\<lambda>c. sz_add c WRITER_GROWTH_INCREMENT)
                  (sz_add (w_data_size w) needed_dwords)
                  (sz_add (w_data_capacity w) WRITER_GROWTH_INCREMENT) of
             None \<Rightarrow> Diverges
           | Some new_capacity \<Rightarrow>
               bindE (realloc_dwords (Some (w_data w)) (w_data_size w) new_capacity (w_arena w))
                 (\<lambda>(q, a).
                   let w = w\<lparr>w_arena := a\<rparr>
                   in case q of
                        None \<Rightarrow> fail NMO_ERR_NOMEM w
                      | Some new_data \<Rightarrow>
                          ok () (w\<lparr>w_data := new_data, w_data_capacity := new_capacity\<rparr>)))"

text \<open>The growth of a tracked list, common to the three \<^verbatim>\<open>ensure_*_capacity\<close> below.\<close>

definition ensure_list_capacity :: "nat \<Rightarrow> track_list \<Rightarrow> arena \<Rightarrow> (unit, track_list \<times> arena) cres" where
  "ensure_list_capacity needed_entries l a =
     (if sz_add (tl_count l) needed_entries \<le> tl_capacity l then ok () (l, a)
      else case grow_until (\<lambda>c. sz_mul c 2) (sz_add (tl_count l) needed_entries)
                  (if tl_capacity l = 0 then 16 else sz_mul (tl_capacity l) 2) of
             None \<Rightarrow> Diverges
           | Some new_capacity \<Rightarrow>
               bindE (realloc_dwords (tl_items l) (tl_count l) new_capacity a) (\<lambda>(q, a). case q of
                 None \<Rightarrow> fail NMO_ERR_NOMEM (l, a)
               | Some new_list \<Rightarrow>
                   ok () (l\<lparr>tl_items := Some new_list, tl_capacity := new_capacity\<rparr>, a)))"

definition list_push :: "u32 \<Rightarrow> track_list \<Rightarrow> track_list eff" where
  "list_push v l = (case tl_items l of
       None \<Rightarrow> Undefined
     | Some xs \<Rightarrow>
         if tl_count l < length xs
         then Done (l\<lparr>tl_items := Some (xs[tl_count l := v]), tl_count := sz_add (tl_count l) 1\<rparr>)
         else Undefined)"

fun list_push_all :: "u32 list \<Rightarrow> track_list \<Rightarrow> track_list eff" where
  "list_push_all [] l = Done l"
| "list_push_all (v # vs) l = bindE (list_push v l) (list_push_all vs)"

definition ensure_id_capacity :: "nat \<Rightarrow> chunk_writer \<Rightarrow> unit wres" where
  "ensure_id_capacity n w =
     bindE (ensure_list_capacity n (w_id_list w) (w_arena w)) (\<lambda>(x, l, a).
       Done (x, w\<lparr>w_id_list := l, w_arena := a\<rparr>))"

definition ensure_manager_capacity :: "nat \<Rightarrow> chunk_writer \<Rightarrow> unit wres" where
  "ensure_manager_capacity n w =
     bindE (ensure_list_capacity n (w_manager_list w) (w_arena w)) (\<lambda>(x, l, a).
       Done (x, w\<lparr>w_manager_list := l, w_arena := a\<rparr>))"

definition ensure_chunk_ref_capacity :: "nat \<Rightarrow> chunk_writer \<Rightarrow> unit wres" where
  "ensure_chunk_ref_capacity n w =
     bindE (ensure_list_capacity n (w_chunk_ref_list w) (w_arena w)) (\<lambda>(x, l, a).
       Done (x, w\<lparr>w_chunk_ref_list := l, w_arena := a\<rparr>))"

definition push_id :: "u32 list \<Rightarrow> chunk_writer \<Rightarrow> unit wres" where
  "push_id vs w = bindE (list_push_all vs (w_id_list w)) (\<lambda>l. ok () (w\<lparr>w_id_list := l\<rparr>))"

definition push_manager :: "u32 list \<Rightarrow> chunk_writer \<Rightarrow> unit wres" where
  "push_manager vs w = bindE (list_push_all vs (w_manager_list w)) (\<lambda>l. ok () (w\<lparr>w_manager_list := l\<rparr>))"

definition push_chunk_ref :: "u32 list \<Rightarrow> chunk_writer \<Rightarrow> unit wres" where
  "push_chunk_ref vs w =
     bindE (list_push_all vs (w_chunk_ref_list w)) (\<lambda>l. ok () (w\<lparr>w_chunk_ref_list := l\<rparr>))"

definition track_id_sequence_start :: "u32 \<Rightarrow> chunk_writer \<Rightarrow> unit wres" where
  "track_id_sequence_start position w =
     bindR (ensure_id_capacity 2 w) (\<lambda>_. push_id [LIST_SEQUENCE_MARKER, position])"

definition track_manager_sequence_start :: "u32 \<Rightarrow> chunk_writer \<Rightarrow> unit wres" where
  "track_manager_sequence_start position w =
     bindR (ensure_manager_capacity 2 w) (\<lambda>_. push_manager [LIST_SEQUENCE_MARKER, position])"

definition track_chunk_sequence_start :: "u32 \<Rightarrow> chunk_writer \<Rightarrow> unit wres" where
  "track_chunk_sequence_start position w =
     bindR (ensure_chunk_ref_capacity 2 w) (\<lambda>_. push_chunk_ref [LIST_SEQUENCE_MARKER, position])"

definition track_chunk_position :: "u32 \<Rightarrow> chunk_writer \<Rightarrow> unit wres" where
  "track_chunk_position position w =
     bindR (ensure_chunk_ref_capacity 1 w) (\<lambda>_. push_chunk_ref [position])"

definition track_id_position :: "chunk_writer \<Rightarrow> unit wres" where
  "track_id_position w =
     bindR (ensure_id_capacity 1 w) (\<lambda>_ w. push_id [of_nat (w_data_size w)] w)"

definition writer_has_file_context :: "chunk_writer \<Rightarrow> bool" where
  "writer_has_file_context w \<longleftrightarrow>
     (case w_file_context w of None \<Rightarrow> False | Some ctx \<Rightarrow> runtime_to_file ctx \<noteq> None)"

definition encode_object_id :: "chunk_writer \<Rightarrow> u32 \<Rightarrow> nmo_error_code + u32" where
  "encode_object_id w oid =
     (case Option.bind (w_file_context w) runtime_to_file of
        None \<Rightarrow> Inr oid
      | Some remap \<Rightarrow> if oid = 0 then Inr oid else nmo_id_remap_lookup_id remap oid)"

text \<open>Changing the options of the chunk under construction, if there is one.\<close>

definition map_options :: "(u32 \<Rightarrow> u32) \<Rightarrow> nmo_chunk \<Rightarrow> nmo_chunk" where
  "map_options f c =
     Chunk ((c_body c)\<lparr>c_chunk_options := f (c_chunk_options (c_body c))\<rparr>) (c_chunks c)"

definition set_option :: "u32 \<Rightarrow> chunk_writer \<Rightarrow> chunk_writer" where
  "set_option flag w = w\<lparr>w_chunk := map_option (map_options (\<lambda>x. x OR flag)) (w_chunk w)\<rparr>"

definition clear_option :: "u32 \<Rightarrow> chunk_writer \<Rightarrow> chunk_writer" where
  "clear_option flag w = w\<lparr>w_chunk := map_option (map_options (\<lambda>x. x AND NOT flag)) (w_chunk w)\<rparr>"

section \<open>Lifecycle\<close>

definition empty_list :: track_list where
  "empty_list = \<lparr>tl_items = None, tl_count = 0, tl_capacity = 0\<rparr>"

definition nmo_chunk_writer_create :: "arena \<Rightarrow> (chunk_writer option \<times> arena) eff" where
  "nmo_chunk_writer_create a =
     bindE (nmo_arena_alloc sizeof_writer 8 a) (\<lambda>(q, a). case q of
       None \<Rightarrow> Done (None, a)
     | Some _ \<Rightarrow>
         bindE (nmo_arena_alloc (WRITER_INITIAL_CAPACITY * 4) 4 a) (\<lambda>(q, a). case q of
           None \<Rightarrow> Done (None, a)
         | Some rg \<Rightarrow>
             Done (Some \<lparr>w_chunk = None, w_file_context = None, w_arena = a,
                         w_data = fresh_dwords rg a WRITER_INITIAL_CAPACITY, w_data_size = 0,
                         w_data_capacity = WRITER_INITIAL_CAPACITY,
                         w_id_list = empty_list, w_manager_list = empty_list,
                         w_chunk_ref_list = empty_list,
                         w_chunk_list = None, w_chunk_count = 0, w_chunk_capacity = 0,
                         w_prev_identifier_pos = 0, w_finalized = False\<rparr>, a)))"

definition nmo_chunk_writer_set_file_context ::
  "chunk_file_context option \<Rightarrow> chunk_writer \<Rightarrow> chunk_writer" where
  "nmo_chunk_writer_set_file_context ctx w =
     (let w = w\<lparr>w_file_context := ctx\<rparr>
      in if writer_has_file_context w then set_option NMO_CHUNK_OPTION_FILE w
         else clear_option NMO_CHUNK_OPTION_FILE w)"

definition nmo_chunk_writer_start :: "u32 \<Rightarrow> u32 \<Rightarrow> chunk_writer \<Rightarrow> chunk_writer eff" where
  "nmo_chunk_writer_start class_id chunk_version w =
     bindE (nmo_chunk_create (w_arena w)) (\<lambda>(c, a).
       let w = w\<lparr>w_arena := a, w_chunk := c\<rparr>
       in case c of
            None \<Rightarrow> Done w
          | Some c \<Rightarrow>
              let b = (c_body c)\<lparr>c_class_id := class_id, c_chunk_version := chunk_version,
                        c_chunk_class_id := ucast (class_id AND 0xFF), c_data_version := 0\<rparr>;
                  w = w\<lparr>w_chunk := Some (Chunk b (c_chunks c))\<rparr>;
                  w = (if writer_has_file_context w then set_option NMO_CHUNK_OPTION_FILE w
                       else clear_option NMO_CHUNK_OPTION_FILE w)
              in Done (w\<lparr>w_data_size := 0,
                         w_id_list := (w_id_list w)\<lparr>tl_count := 0\<rparr>,
                         w_manager_list := (w_manager_list w)\<lparr>tl_count := 0\<rparr>,
                         w_chunk_ref_list := (w_chunk_ref_list w)\<lparr>tl_count := 0\<rparr>,
                         w_chunk_count := 0, w_prev_identifier_pos := 0, w_finalized := False\<rparr>))"

section \<open>Storing into the buffer\<close>

text \<open>\<^verbatim>\<open>w->data[w->data_size++] = v;\<close> for each of the values in turn.\<close>

definition put_dwords :: "u32 list \<Rightarrow> chunk_writer \<Rightarrow> unit wres" where
  "put_dwords vs w =
     (if w_data_size w + length vs \<le> length (w_data w)
      then ok () (w\<lparr>w_data := mem_blit (w_data w) (w_data_size w) vs,
                    w_data_size := sz_add (w_data_size w) (length vs)\<rparr>)
      else Undefined)"

text \<open>\<^verbatim>\<open>memset(&w->data[w->data_size], 0, dwords * 4)\<close>.\<close>

definition zero_dwords :: "nat \<Rightarrow> chunk_writer \<Rightarrow> unit wres" where
  "zero_dwords dwords w =
     (if w_data_size w + dwords \<le> length (w_data w)
      then ok () (w\<lparr>w_data := mem_blit (w_data w) (w_data_size w) (replicate dwords 0)\<rparr>)
      else Undefined)"

text \<open>
  \<^verbatim>\<open>memcpy(&w->data[w->data_size], src, bytes); w->data_size += dwords\<close>. The caller's buffer \<open>src\<close>
  has to hold that many bytes.
\<close>

definition copy_bytes :: "u8 list \<Rightarrow> nat \<Rightarrow> nat \<Rightarrow> chunk_writer \<Rightarrow> unit wres" where
  "copy_bytes src bytes dwords w =
     (if bytes \<le> length src \<and> 4 * w_data_size w + bytes \<le> 4 * length (w_data w)
      then ok () (w\<lparr>w_data := blit_bytes (w_data w) (w_data_size w) (take bytes src),
                    w_data_size := sz_add (w_data_size w) dwords\<rparr>)
      else Undefined)"

section \<open>Scalar values\<close>

definition nmo_chunk_writer_write_byte :: "u8 \<Rightarrow> chunk_writer \<Rightarrow> unit wres" where
  "nmo_chunk_writer_write_byte v w =
     (if w_finalized w then fail NMO_ERR_INVALID_ARGUMENT w
      else bindR (ensure_data_capacity 1 w) (\<lambda>_. put_dwords [ucast v]))"

definition nmo_chunk_writer_write_word :: "u16 \<Rightarrow> chunk_writer \<Rightarrow> unit wres" where
  "nmo_chunk_writer_write_word v w =
     (if w_finalized w then fail NMO_ERR_INVALID_ARGUMENT w
      else bindR (ensure_data_capacity 1 w) (\<lambda>_. put_dwords [ucast v]))"

definition nmo_chunk_writer_write_dword :: "u32 \<Rightarrow> chunk_writer \<Rightarrow> unit wres" where
  "nmo_chunk_writer_write_dword v w =
     (if w_finalized w then fail NMO_ERR_INVALID_ARGUMENT w
      else bindR (ensure_data_capacity 1 w) (\<lambda>_. put_dwords [v]))"

definition nmo_chunk_writer_write_dword_as_words :: "u32 \<Rightarrow> chunk_writer \<Rightarrow> unit wres" where
  "nmo_chunk_writer_write_dword_as_words v w =
     (if w_finalized w then fail NMO_ERR_INVALID_ARGUMENT w
      else
        let low = ucast (v AND 0xFFFF) :: u16;
            high = ucast (drop_bit 16 v AND 0xFFFF) :: u16
        in bindR (nmo_chunk_writer_write_word low w) (\<lambda>_. nmo_chunk_writer_write_word high))"

text \<open>The array is a pointer and a count; the memory behind it must hold that many values.\<close>

definition nmo_chunk_writer_write_array_dword_as_words ::
  "u32 list option \<Rightarrow> nat \<Rightarrow> chunk_writer \<Rightarrow> unit wres" where
  "nmo_chunk_writer_write_array_dword_as_words values count w =
     (if w_finalized w then fail NMO_ERR_INVALID_ARGUMENT w
      else if count = 0 then ok () w
      else if values = None then fail NMO_ERR_INVALID_ARGUMENT w
      else if count > (2 ^ 64 - 1) div 2 then fail NMO_ERR_INVALID_ARGUMENT w
      else bindR (ensure_data_capacity (sz_mul count 2) w) (\<lambda>_ w.
        bindE (load_dwords values 0 count) (\<lambda>vs.
          put_dwords (concat (map (\<lambda>v. [v AND 0xFFFF, drop_bit 16 v AND 0xFFFF]) vs)) w)))"

text \<open>A signed value is the word with the same bits, and so is a \<^verbatim>\<open>float\<close>.\<close>

definition nmo_chunk_writer_write_int :: "u32 \<Rightarrow> chunk_writer \<Rightarrow> unit wres" where
  "nmo_chunk_writer_write_int v w =
     (if w_finalized w then fail NMO_ERR_INVALID_ARGUMENT w
      else bindR (ensure_data_capacity 1 w) (\<lambda>_. put_dwords [v]))"

definition nmo_chunk_writer_write_float :: "f32 \<Rightarrow> chunk_writer \<Rightarrow> unit wres" where
  "nmo_chunk_writer_write_float v w =
     (if w_finalized w then fail NMO_ERR_INVALID_ARGUMENT w
      else bindR (ensure_data_capacity 1 w) (\<lambda>_. put_dwords [v]))"

definition nmo_chunk_writer_write_guid :: "nmo_guid \<Rightarrow> chunk_writer \<Rightarrow> unit wres" where
  "nmo_chunk_writer_write_guid guid w =
     (if w_finalized w then fail NMO_ERR_INVALID_ARGUMENT w
      else bindR (ensure_data_capacity 2 w) (\<lambda>_. put_dwords [d1 guid, d2 guid]))"

section \<open>Byte buffers and strings\<close>

definition nmo_chunk_writer_write_bytes :: "u8 list option \<Rightarrow> nat \<Rightarrow> chunk_writer \<Rightarrow> unit wres" where
  "nmo_chunk_writer_write_bytes src bytes w =
     (if w_finalized w then fail NMO_ERR_INVALID_ARGUMENT w
      else if bytes = 0 then ok () w
      else case src of
        None \<Rightarrow> fail NMO_ERR_INVALID_ARGUMENT w
      | Some bs \<Rightarrow>
          let dwords_needed = nmo_align_dword bytes div 4
          in bindR (ensure_data_capacity dwords_needed w) (\<lambda>_ w.
               bindR (zero_dwords dwords_needed w) (\<lambda>_.
                 copy_bytes bs bytes dwords_needed)))"

definition nmo_chunk_writer_write_buffer_nosize ::
  "nat \<Rightarrow> u8 list option \<Rightarrow> chunk_writer \<Rightarrow> unit wres" where
  "nmo_chunk_writer_write_buffer_nosize bytes src w =
     (if w_finalized w then fail NMO_ERR_INVALID_ARGUMENT w
      else case src of
        None \<Rightarrow> ok () w
      | Some bs \<Rightarrow>
          if bytes = 0 then ok () w
          else
            let dwords_needed = nmo_align_dword bytes div 4
            in bindR (ensure_data_capacity dwords_needed w) (\<lambda>_ w.
                 bindR (zero_dwords dwords_needed w) (\<lambda>_.
                   copy_bytes bs bytes dwords_needed)))"

fun write_words :: "u16 list \<Rightarrow> chunk_writer \<Rightarrow> unit wres" where
  "write_words [] w = ok () w"
| "write_words (v # vs) w = bindR (nmo_chunk_writer_write_word v w) (\<lambda>_. write_words vs)"

definition nmo_chunk_writer_write_buffer_nosize_lendian16 ::
  "nat \<Rightarrow> u16 list option \<Rightarrow> chunk_writer \<Rightarrow> unit wres" where
  "nmo_chunk_writer_write_buffer_nosize_lendian16 value_count src w =
     (if w_finalized w then fail NMO_ERR_INVALID_ARGUMENT w
      else case src of
        None \<Rightarrow> ok () w
      | Some values \<Rightarrow>
          if value_count = 0 then ok () w
          else if value_count \<le> length values then write_words (take value_count values) w
          else Undefined)"

text \<open>The result is the index of the first reserved word, \<open>None\<close> for NULL.\<close>

definition nmo_chunk_writer_lock_write_buffer ::
  "nat \<Rightarrow> chunk_writer \<Rightarrow> (nat option \<times> chunk_writer) eff" where
  "nmo_chunk_writer_lock_write_buffer dword_count w =
     (if w_finalized w then Done (None, w)
      else bindE (ensure_data_capacity dword_count w) (\<lambda>(x, w). case x of
        Inl _ \<Rightarrow> Done (None, w)
      | Inr _ \<Rightarrow> Done (Some (w_data_size w),
                    w\<lparr>w_data_size := sz_add (w_data_size w) dword_count\<rparr>)))"

text \<open>\<^verbatim>\<open>strlen\<close> of the memory behind a \<^verbatim>\<open>char *\<close>: the bytes before the first zero byte.\<close>

definition strlen :: "u8 list \<Rightarrow> nat" where
  "strlen bs = length (takeWhile (\<lambda>b. b \<noteq> 0) bs)"

definition nmo_chunk_writer_write_string :: "u8 list option \<Rightarrow> chunk_writer \<Rightarrow> unit wres" where
  "nmo_chunk_writer_write_string str w =
     (if w_finalized w then fail NMO_ERR_INVALID_ARGUMENT w
      else
        let len = (case str of None \<Rightarrow> 0 | Some bs \<Rightarrow> of_nat (strlen bs)) :: u32
        in bindR (nmo_chunk_writer_write_dword len w) (\<lambda>_ w.
             if len > 0 then nmo_chunk_writer_write_bytes str (unat len) w else ok () w))"

definition nmo_chunk_writer_write_buffer :: "u8 list option \<Rightarrow> nat \<Rightarrow> chunk_writer \<Rightarrow> unit wres" where
  "nmo_chunk_writer_write_buffer src sz w =
     (if w_finalized w then fail NMO_ERR_INVALID_ARGUMENT w
      else bindR (nmo_chunk_writer_write_dword (of_nat sz) w) (\<lambda>_ w.
        if sz > 0 then
          (if src = None then fail NMO_ERR_INVALID_ARGUMENT w
           else nmo_chunk_writer_write_bytes src sz w)
        else ok () w))"

section \<open>Object IDs, managers and sequences\<close>

definition nmo_chunk_writer_write_object_id :: "u32 \<Rightarrow> chunk_writer \<Rightarrow> unit wres" where
  "nmo_chunk_writer_write_object_id oid w =
     (if w_finalized w then fail NMO_ERR_INVALID_ARGUMENT w
      else bindR (ensure_data_capacity 1 w) (\<lambda>_ w.
        let w = set_option NMO_CHUNK_OPTION_IDS w
        in bindR (if oid \<noteq> 0 \<and> \<not> writer_has_file_context w then track_id_position w else ok () w)
             (\<lambda>_ w. case encode_object_id w oid of
                Inl e \<Rightarrow> fail e w
              | Inr encoded_value \<Rightarrow> put_dwords [encoded_value] w)))"

definition nmo_chunk_writer_start_object_sequence :: "nat \<Rightarrow> chunk_writer \<Rightarrow> unit wres" where
  "nmo_chunk_writer_start_object_sequence count w =
     (if w_finalized w then fail NMO_ERR_INVALID_ARGUMENT w
      else bindR (ensure_data_capacity 1 (set_option NMO_CHUNK_OPTION_IDS w)) (\<lambda>_ w.
        bindR (if count > 0 \<and> \<not> writer_has_file_context w
               then track_id_sequence_start (of_nat (w_data_size w)) w else ok () w)
          (\<lambda>_. put_dwords [of_nat count])))"

definition nmo_chunk_writer_start_manager_sequence ::
  "nmo_guid \<Rightarrow> nat \<Rightarrow> chunk_writer \<Rightarrow> unit wres" where
  "nmo_chunk_writer_start_manager_sequence manager count w =
     (if w_finalized w then fail NMO_ERR_INVALID_ARGUMENT w
      else bindR (ensure_data_capacity 3 (set_option NMO_CHUNK_OPTION_MAN w)) (\<lambda>_ w.
        bindR (track_manager_sequence_start (of_nat (w_data_size w)) w)
          (\<lambda>_. put_dwords [of_nat count, d1 manager, d2 manager])))"

definition nmo_chunk_writer_start_subchunk_sequence :: "nat \<Rightarrow> chunk_writer \<Rightarrow> unit wres" where
  "nmo_chunk_writer_start_subchunk_sequence count w =
     (if w_finalized w then fail NMO_ERR_INVALID_ARGUMENT w
      else bindR (ensure_data_capacity 1 (set_option NMO_CHUNK_OPTION_CHN w)) (\<lambda>_ w.
        let sequence_pos = (if w_data_size w = 0 then 0 else of_nat (w_data_size w - 1))
        in bindR (track_chunk_sequence_start sequence_pos w) (\<lambda>_. put_dwords [of_nat count])))"

definition nmo_chunk_writer_write_manager_int ::
  "nmo_guid \<Rightarrow> u32 \<Rightarrow> chunk_writer \<Rightarrow> unit wres" where
  "nmo_chunk_writer_write_manager_int manager v w =
     (if w_finalized w then fail NMO_ERR_INVALID_ARGUMENT w
      else bindR (ensure_data_capacity 3 (set_option NMO_CHUNK_OPTION_MAN w)) (\<lambda>_ w.
        bindR (ensure_manager_capacity 1 w) (\<lambda>_ w.
          bindR (push_manager [of_nat (w_data_size w)] w)
            (\<lambda>_. put_dwords [d1 manager, d2 manager, v]))))"

section \<open>Sub-chunks\<close>

text \<open>Append a sub-chunk pointer to the chunk list, doubling its array when it is full.\<close>

definition push_subchunk :: "nmo_chunk \<Rightarrow> chunk_writer \<Rightarrow> unit wres" where
  "push_subchunk sub w =
     (let store = (\<lambda>w. case w_chunk_list w of
            None \<Rightarrow> Undefined
          | Some cs \<Rightarrow>
              if w_chunk_count w < length cs
              then ok () (w\<lparr>w_chunk_list := Some (cs[w_chunk_count w := Some sub]),
                            w_chunk_count := sz_add (w_chunk_count w) 1\<rparr>)
              else Undefined)
      in if w_chunk_count w \<ge> w_chunk_capacity w then
           let new_capacity = (if w_chunk_capacity w = 0 then 16 else sz_mul (w_chunk_capacity w) 2)
           in bindE (nmo_arena_alloc (sz_mul new_capacity 8) 8 (w_arena w)) (\<lambda>(q, a).
                let w = w\<lparr>w_arena := a\<rparr>
                in case q of
                     None \<Rightarrow> fail NMO_ERR_NOMEM w
                   | Some rg \<Rightarrow>
                       let new_list = replicate (rg_size rg div 8) None
                       in case (if w_chunk_count w > 0 then w_chunk_list w else None) of
                            None \<Rightarrow>
                              store (w\<lparr>w_chunk_list := Some new_list, w_chunk_capacity := new_capacity\<rparr>)
                          | Some cs \<Rightarrow>
                              if w_chunk_count w \<le> length cs \<and> w_chunk_count w \<le> length new_list
                              then store (w\<lparr>w_chunk_list :=
                                              Some (mem_blit new_list 0 (take (w_chunk_count w) cs)),
                                            w_chunk_capacity := new_capacity\<rparr>)
                              else Undefined)
         else store w)"

definition set_flag_if :: "bool \<Rightarrow> u32 \<Rightarrow> u32 \<Rightarrow> u32" where
  "set_flag_if b flag options = (if b then options OR flag else options)"

text \<open>The option flags written for a chunk: its own, and one for each list that is not empty.\<close>

definition effective_options :: "chunk_body \<Rightarrow> u32" where
  "effective_options b =
     set_flag_if (c_manager_count b > 0) NMO_CHUNK_OPTION_MAN
       (set_flag_if (c_chunk_ref_count b > 0) NMO_CHUNK_OPTION_CHN
         (set_flag_if (c_id_count b > 0) NMO_CHUNK_OPTION_IDS (c_chunk_options b)))"

text \<open>\<^verbatim>\<open>(data_version | (class_byte << 8)) | ((chunk_version | (options << 8)) << 16)\<close> on bytes.\<close>

definition pack_version :: "u8 \<Rightarrow> u8 \<Rightarrow> u8 \<Rightarrow> u8 \<Rightarrow> u32" where
  "pack_version data_version class_byte chunk_version options =
     (let data_packed = ucast data_version OR push_bit 8 (ucast class_byte) :: u16;
          version_packed = ucast chunk_version OR push_bit 8 (ucast options) :: u16
      in ucast data_packed OR push_bit 16 (ucast version_packed))"

definition class_byte :: "chunk_body \<Rightarrow> u8" where
  "class_byte b = (if c_chunk_class_id b \<noteq> 0 then c_chunk_class_id b
                   else ucast (c_class_id b AND 0xFF))"

text \<open>A block is copied only if its count is positive and its pointer is not NULL.\<close>

definition put_block :: "u32 list option \<Rightarrow> nat \<Rightarrow> chunk_writer \<Rightarrow> unit wres" where
  "put_block p n w =
     (if n > 0 \<and> p \<noteq> None then bindE (load_dwords p 0 n) (\<lambda>vs. put_dwords vs w) else ok () w)"

definition subchunk_manager_field :: "chunk_body \<Rightarrow> u32" where
  "subchunk_manager_field b = (if c_chunk_version b > 4 then of_nat (c_manager_count b) else 0)"

text \<open>The number of words after the size field.\<close>

definition subchunk_payload_dwords :: "chunk_body \<Rightarrow> nat" where
  "subchunk_payload_dwords b =
     sz_add (sz_add (sz_add (sz_add (if c_chunk_version b > 4 then 7 else 6) (c_data_size b))
       (c_id_count b)) (c_chunk_ref_count b)) (unat (subchunk_manager_field b))"

definition subchunk_header :: "chunk_body \<Rightarrow> u32 list" where
  "subchunk_header b =
     [c_class_id b,
      pack_version (ucast (c_data_version b AND 0xFF)) (class_byte b)
        (ucast (c_chunk_version b AND 0xFF)) (ucast (effective_options b AND 0xFF)),
      of_nat (c_data_size b),
      (if has_option (effective_options b) NMO_CHUNK_OPTION_FILE then 1 else 0),
      of_nat (c_id_count b), of_nat (c_chunk_ref_count b)]
     @ (if c_chunk_version b > 4 then [subchunk_manager_field b] else [])"

text \<open>The stores behind the size field.\<close>

definition put_subchunk_body :: "chunk_body \<Rightarrow> chunk_writer \<Rightarrow> unit wres" where
  "put_subchunk_body b w =
     bindR (put_dwords (subchunk_header b) w) (\<lambda>_ w.
       bindR (put_block (c_data b) (c_data_size b) w) (\<lambda>_ w.
         bindR (put_block (c_ids b) (c_id_count b) w) (\<lambda>_ w.
           bindR (put_block (c_chunk_refs b) (c_chunk_ref_count b) w) (\<lambda>_.
             put_block (c_managers b) (unat (subchunk_manager_field b))))))"

definition nmo_chunk_writer_write_subchunk :: "nmo_chunk option \<Rightarrow> chunk_writer \<Rightarrow> unit wres" where
  "nmo_chunk_writer_write_subchunk sub w =
     (if w_finalized w then fail NMO_ERR_INVALID_ARGUMENT w
      else
        let w = set_option NMO_CHUNK_OPTION_CHN w
        in case sub of
             None \<Rightarrow> bindR (ensure_data_capacity 1 w) (\<lambda>_. put_dwords [0])
           | Some c \<Rightarrow>
               let b = c_body c; payload_dwords = subchunk_payload_dwords b
               in bindR (push_subchunk c w) (\<lambda>_ w.
                    bindR (ensure_data_capacity (sz_add 1 payload_dwords) w) (\<lambda>_ w.
                      bindR (put_dwords [of_nat payload_dwords] w) (\<lambda>_ w.
                        bindR (track_chunk_position (of_nat (w_data_size w - 1)) w) (\<lambda>_.
                          put_subchunk_body b)))))"

section \<open>Arrays\<close>

text \<open>Counts and sizes are \<^verbatim>\<open>int\<close>s; the parameter is the word with their bits.\<close>

definition put_empty_array :: "chunk_writer \<Rightarrow> unit wres" where
  "put_empty_array w = bindR (ensure_data_capacity 2 w) (\<lambda>_. put_dwords [0, 0])"

definition nmo_chunk_writer_write_array_lendian ::
  "u32 \<Rightarrow> u32 \<Rightarrow> u8 list option \<Rightarrow> chunk_writer \<Rightarrow> unit wres" where
  "nmo_chunk_writer_write_array_lendian element_count element_size src w =
     (if w_finalized w then fail NMO_ERR_INVALID_ARGUMENT w
      else case src of
        None \<Rightarrow> put_empty_array w
      | Some bs \<Rightarrow>
          if sint element_count \<le> 0 \<or> sint element_size \<le> 0 then put_empty_array w
          else if sint element_count > (2 ^ 31 - 1) div sint element_size then put_empty_array w
          else
            let total_bytes = sz_mul (unat element_size) (unat element_count)
            in if total_bytes > 2 ^ 31 - 1 then put_empty_array w
               else
                 let dword_count = (sz_add total_bytes 3) div 4
                 in bindR (ensure_data_capacity (sz_add 2 dword_count) w) (\<lambda>_ w.
                      bindR (put_dwords [of_nat total_bytes, element_count] w) (\<lambda>_.
                        copy_bytes bs total_bytes dword_count)))"

text \<open>The temporary buffer comes from \<^verbatim>\<open>malloc\<close>, which succeeds for the sizes \<open>malloc_ok\<close> accepts.\<close>

definition nmo_chunk_writer_write_array_lendian16 ::
  "(nat \<Rightarrow> bool) \<Rightarrow> u32 \<Rightarrow> u32 \<Rightarrow> u8 list option \<Rightarrow> chunk_writer \<Rightarrow> unit wres" where
  "nmo_chunk_writer_write_array_lendian16 malloc_ok element_count element_size src w =
     (if w_finalized w then fail NMO_ERR_INVALID_ARGUMENT w
      else case src of
        None \<Rightarrow> put_empty_array w
      | Some bs \<Rightarrow>
          if sint element_count \<le> 0 \<or> sint element_size \<le> 0 then put_empty_array w
          else
            let total_bytes = sz_mul (unat element_count) (unat element_size);
                dword_count = nmo_align_dword total_bytes div 4
            in bindR (ensure_data_capacity (sz_add 2 dword_count) w) (\<lambda>_ w.
                 bindR (put_dwords [of_nat total_bytes, element_count] w) (\<lambda>_ w.
                   if \<not> malloc_ok total_bytes then fail NMO_ERR_NOMEM w
                   else if \<not> total_bytes \<le> length bs then Undefined
                   else copy_bytes (nmo_swap_16bit_words (take total_bytes bs) (total_bytes div 2))
                          total_bytes dword_count w)))"

definition nmo_chunk_writer_write_buffer_lendian16 ::
  "(nat \<Rightarrow> bool) \<Rightarrow> nat \<Rightarrow> u8 list option \<Rightarrow> chunk_writer \<Rightarrow> unit wres" where
  "nmo_chunk_writer_write_buffer_lendian16 malloc_ok bytes src w =
     (if w_finalized w then fail NMO_ERR_INVALID_ARGUMENT w
      else case src of
        None \<Rightarrow> fail NMO_ERR_INVALID_ARGUMENT w
      | Some bs \<Rightarrow>
          if bytes = 0 then ok () w
          else
            let dword_count = nmo_align_dword bytes div 4
            in bindR (ensure_data_capacity dword_count w) (\<lambda>_ w.
                 if \<not> malloc_ok bytes then fail NMO_ERR_NOMEM w
                 else if \<not> bytes \<le> length bs then Undefined
                 else bindR (zero_dwords dword_count w) (\<lambda>_.
                   copy_bytes (nmo_swap_16bit_words (take bytes bs) (bytes div 2)) bytes dword_count)))"

section \<open>Identifiers and the finished chunk\<close>

definition nmo_chunk_writer_write_identifier :: "u32 \<Rightarrow> chunk_writer \<Rightarrow> unit wres" where
  "nmo_chunk_writer_write_identifier identifier w =
     (if w_finalized w then fail NMO_ERR_INVALID_ARGUMENT w
      else bindR (ensure_data_capacity 2 w) (\<lambda>_ w.
        let linked =
          (if w_prev_identifier_pos w < w_data_size w then
             if w_prev_identifier_pos w + 1 < length (w_data w)
             then ok () (w\<lparr>w_data := (w_data w)[w_prev_identifier_pos w + 1 := of_nat (w_data_size w)]\<rparr>)
             else Undefined
           else ok () w)
        in bindR linked (\<lambda>_ w.
             put_dwords [identifier, 0] (w\<lparr>w_prev_identifier_pos := w_data_size w\<rparr>))))"

text \<open>A list that is not empty replaces the one of the chunk.\<close>

definition finalize_ids :: "track_list \<Rightarrow> chunk_body \<Rightarrow> chunk_body" where
  "finalize_ids l b =
     (if tl_count l > 0 then b\<lparr>c_ids := tl_items l, c_id_count := tl_count l\<rparr> else b)"

definition finalize_managers :: "track_list \<Rightarrow> chunk_body \<Rightarrow> chunk_body" where
  "finalize_managers l b =
     (if tl_count l > 0 then b\<lparr>c_managers := tl_items l, c_manager_count := tl_count l\<rparr> else b)"

definition finalize_refs :: "track_list \<Rightarrow> chunk_body \<Rightarrow> chunk_body" where
  "finalize_refs l b =
     (if tl_count l > 0
      then b\<lparr>c_chunk_refs := tl_items l, c_chunk_ref_count := tl_count l, c_chunk_ref_capacity := tl_count l\<rparr>
      else b)"

definition nmo_chunk_writer_finalize :: "chunk_writer \<Rightarrow> nmo_chunk option \<times> chunk_writer" where
  "nmo_chunk_writer_finalize w =
     (case w_chunk w of
        None \<Rightarrow> (None, w)
      | Some c \<Rightarrow>
          if w_finalized w then (None, w)
          else
            let b = (c_body c)\<lparr>c_data := Some (w_data w), c_data_size := w_data_size w,
                      c_data_capacity := w_data_capacity w\<rparr>;
                b = finalize_managers (w_manager_list w) (finalize_ids (w_id_list w) b);
                b = (if w_chunk_count w > 0 then b\<lparr>c_chunk_count := w_chunk_count w\<rparr> else b);
                subs = (if w_chunk_count w > 0 then w_chunk_list w else c_chunks c);
                c = Chunk (finalize_refs (w_chunk_ref_list w) b) subs
            in (Some c, w\<lparr>w_chunk := Some c, w_finalized := True\<rparr>))"

section \<open>Mathematical types\<close>

text \<open>
  The structs of \<^verbatim>\<open>include/core/nmo_math.h\<close>. A vector pointer that may be NULL is an option; a
  matrix is its four rows, as it lies in memory.
\<close>

record nmo_vector2 =
  v2_x :: f32
  v2_y :: f32

record nmo_vector =
  v3_x :: f32
  v3_y :: f32
  v3_z :: f32

record nmo_vector4 =
  v4_x :: f32
  v4_y :: f32
  v4_z :: f32
  v4_w :: f32

record nmo_quaternion =
  q_x :: f32
  q_y :: f32
  q_z :: f32
  q_w :: f32

record nmo_color =
  col_r :: f32
  col_g :: f32
  col_b :: f32
  col_a :: f32

record nmo_matrix =
  m_row0 :: nmo_vector4
  m_row1 :: nmo_vector4
  m_row2 :: nmo_vector4
  m_row3 :: nmo_vector4

definition vector4_dwords :: "nmo_vector4 \<Rightarrow> u32 list" where
  "vector4_dwords v = [v4_x v, v4_y v, v4_z v, v4_w v]"

definition matrix_dwords :: "nmo_matrix \<Rightarrow> u32 list" where
  "matrix_dwords m = vector4_dwords (m_row0 m) @ vector4_dwords (m_row1 m)
     @ vector4_dwords (m_row2 m) @ vector4_dwords (m_row3 m)"

definition nmo_chunk_writer_write_vector2 :: "nmo_vector2 option \<Rightarrow> chunk_writer \<Rightarrow> unit wres" where
  "nmo_chunk_writer_write_vector2 p w = (case p of
       None \<Rightarrow> fail NMO_ERR_INVALID_ARGUMENT w
     | Some v \<Rightarrow>
         if w_finalized w then fail NMO_ERR_INVALID_ARGUMENT w
         else bindR (ensure_data_capacity 2 w) (\<lambda>_. put_dwords [v2_x v, v2_y v]))"

definition nmo_chunk_writer_write_vector :: "nmo_vector option \<Rightarrow> chunk_writer \<Rightarrow> unit wres" where
  "nmo_chunk_writer_write_vector p w = (case p of
       None \<Rightarrow> fail NMO_ERR_INVALID_ARGUMENT w
     | Some v \<Rightarrow>
         if w_finalized w then fail NMO_ERR_INVALID_ARGUMENT w
         else bindR (ensure_data_capacity 3 w) (\<lambda>_. put_dwords [v3_x v, v3_y v, v3_z v]))"

definition nmo_chunk_writer_write_vector4 :: "nmo_vector4 option \<Rightarrow> chunk_writer \<Rightarrow> unit wres" where
  "nmo_chunk_writer_write_vector4 p w = (case p of
       None \<Rightarrow> fail NMO_ERR_INVALID_ARGUMENT w
     | Some v \<Rightarrow>
         if w_finalized w then fail NMO_ERR_INVALID_ARGUMENT w
         else bindR (ensure_data_capacity 4 w) (\<lambda>_. put_dwords [v4_x v, v4_y v, v4_z v, v4_w v]))"

definition nmo_chunk_writer_write_matrix :: "nmo_matrix option \<Rightarrow> chunk_writer \<Rightarrow> unit wres" where
  "nmo_chunk_writer_write_matrix p w = (case p of
       None \<Rightarrow> fail NMO_ERR_INVALID_ARGUMENT w
     | Some m \<Rightarrow>
         if w_finalized w then fail NMO_ERR_INVALID_ARGUMENT w
         else bindR (ensure_data_capacity 16 w) (\<lambda>_. put_dwords (matrix_dwords m)))"

definition nmo_chunk_writer_write_quaternion :: "nmo_quaternion option \<Rightarrow> chunk_writer \<Rightarrow> unit wres" where
  "nmo_chunk_writer_write_quaternion p w = (case p of
       None \<Rightarrow> fail NMO_ERR_INVALID_ARGUMENT w
     | Some q \<Rightarrow>
         if w_finalized w then fail NMO_ERR_INVALID_ARGUMENT w
         else bindR (ensure_data_capacity 4 w) (\<lambda>_. put_dwords [q_x q, q_y q, q_z q, q_w q]))"

definition nmo_chunk_writer_write_color :: "nmo_color option \<Rightarrow> chunk_writer \<Rightarrow> unit wres" where
  "nmo_chunk_writer_write_color p w = (case p of
       None \<Rightarrow> fail NMO_ERR_INVALID_ARGUMENT w
     | Some c \<Rightarrow>
         if w_finalized w then fail NMO_ERR_INVALID_ARGUMENT w
         else bindR (ensure_data_capacity 4 w) (\<lambda>_. put_dwords [col_r c, col_g c, col_b c, col_a c]))"

end
