(* ===== verification/ChunkParser.thy ===== *)
theory ChunkParser
  imports ChunkWriter
begin

text \<open>
  The chunk parser of \<^verbatim>\<open>src/format/chunk_parser.c\<close>: a cursor over the words of a chunk with the
  state of the sequence being read. A read outside the words that are in memory is \<open>Undefined\<close>, a
  search that follows links forever is \<open>Diverges\<close>.
\<close>

section \<open>State\<close>

record chunk_parser =
  p_chunk :: chunk_body
  p_cursor :: nat
  p_prev_identifier_pos :: nat
  p_file_context :: "chunk_file_context option"
  p_object_remaining :: nat
  p_manager_remaining :: nat
  p_subchunk_remaining :: nat
  p_in_object_sequence :: bool
  p_in_manager_sequence :: bool
  p_in_subchunk_sequence :: bool
  p_current_manager_guid :: nmo_guid

type_synonym 'a pres = "('a, chunk_parser) cres"
type_synonym 'a pares = "('a, chunk_parser \<times> arena) cres"

definition check_bounds :: "chunk_parser \<Rightarrow> nat \<Rightarrow> bool" where
  "check_bounds p dwords_needed \<longleftrightarrow> sz_add (p_cursor p) dwords_needed \<le> c_data_size (p_chunk p)"

definition advance :: "nat \<Rightarrow> chunk_parser \<Rightarrow> chunk_parser" where
  "advance n p = p\<lparr>p_cursor := sz_add (p_cursor p) n\<rparr>"

definition consume_subchunk_slot :: "chunk_parser \<Rightarrow> chunk_parser" where
  "consume_subchunk_slot p =
     (if p_in_subchunk_sequence p \<and> p_subchunk_remaining p > 0 then
        let p = p\<lparr>p_subchunk_remaining := p_subchunk_remaining p - 1\<rparr>
        in if p_subchunk_remaining p = 0 then p\<lparr>p_in_subchunk_sequence := False\<rparr> else p
      else p)"

text \<open>\<^verbatim>\<open>p->chunk->data[p->cursor++]\<close>.\<close>

definition take_dword :: "chunk_parser \<Rightarrow> u32 pres" where
  "take_dword p =
     bindE (load_dword (c_data (p_chunk p)) (p_cursor p)) (\<lambda>d. ok d (advance 1 p))"

text \<open>The same for a block of words.\<close>

definition take_dwords :: "nat \<Rightarrow> chunk_parser \<Rightarrow> u32 list pres" where
  "take_dwords n p =
     bindE (load_dwords (c_data (p_chunk p)) (p_cursor p) n) (\<lambda>ds. ok ds (advance n p))"

section \<open>Lifecycle and position\<close>

definition nmo_chunk_parser_create :: "nmo_chunk \<Rightarrow> chunk_parser" where
  "nmo_chunk_parser_create chunk =
     \<lparr>p_chunk = c_body chunk, p_cursor = 0, p_prev_identifier_pos = 0, p_file_context = None,
      p_object_remaining = 0, p_manager_remaining = 0, p_subchunk_remaining = 0,
      p_in_object_sequence = False, p_in_manager_sequence = False, p_in_subchunk_sequence = False,
      p_current_manager_guid = \<lparr>d1 = 0, d2 = 0\<rparr>\<rparr>"

definition nmo_chunk_parser_set_file_context ::
  "chunk_file_context option \<Rightarrow> chunk_parser \<Rightarrow> chunk_parser" where
  "nmo_chunk_parser_set_file_context ctx p = p\<lparr>p_file_context := ctx\<rparr>"

definition nmo_chunk_parser_tell :: "chunk_parser \<Rightarrow> nat" where
  "nmo_chunk_parser_tell p = p_cursor p"

definition nmo_chunk_parser_seek :: "nat \<Rightarrow> chunk_parser \<Rightarrow> unit pres" where
  "nmo_chunk_parser_seek pos p =
     (if pos > c_data_size (p_chunk p) then fail NMO_ERR_INVALID_OFFSET p
      else ok () (p\<lparr>p_cursor := pos\<rparr>))"

definition nmo_chunk_parser_skip :: "nat \<Rightarrow> chunk_parser \<Rightarrow> unit pres" where
  "nmo_chunk_parser_skip dwords p =
     (if sz_add (p_cursor p) dwords > c_data_size (p_chunk p) then fail NMO_ERR_INVALID_OFFSET p
      else ok () (advance dwords p))"

definition nmo_chunk_parser_remaining :: "chunk_parser \<Rightarrow> nat" where
  "nmo_chunk_parser_remaining p =
     (if p_cursor p > c_data_size (p_chunk p) then 0 else c_data_size (p_chunk p) - p_cursor p)"

definition nmo_chunk_parser_at_end :: "chunk_parser \<Rightarrow> bool" where
  "nmo_chunk_parser_at_end p \<longleftrightarrow> nmo_chunk_parser_remaining p = 0"

section \<open>Scalar values\<close>

definition nmo_chunk_parser_read_byte :: "chunk_parser \<Rightarrow> u8 pres" where
  "nmo_chunk_parser_read_byte p =
     (if \<not> check_bounds p 1 then fail NMO_ERR_EOF p
      else bindR (take_dword p) (\<lambda>d. ok (ucast (d AND 0xFF))))"

definition nmo_chunk_parser_read_word :: "chunk_parser \<Rightarrow> u16 pres" where
  "nmo_chunk_parser_read_word p =
     (if \<not> check_bounds p 1 then fail NMO_ERR_EOF p
      else bindR (take_dword p) (\<lambda>d. ok (ucast (d AND 0xFFFF))))"

definition nmo_chunk_parser_read_dword :: "chunk_parser \<Rightarrow> u32 pres" where
  "nmo_chunk_parser_read_dword p =
     (if \<not> check_bounds p 1 then fail NMO_ERR_EOF p else take_dword p)"

definition nmo_chunk_parser_read_dword_as_words :: "chunk_parser \<Rightarrow> u32 pres" where
  "nmo_chunk_parser_read_dword_as_words p =
     bindR (nmo_chunk_parser_read_word p) (\<lambda>low p.
       bindR (nmo_chunk_parser_read_word p) (\<lambda>high.
         ok (push_bit 16 (ucast high) OR ucast low)))"

fun nmo_chunk_parser_read_dword_array_as_words :: "nat \<Rightarrow> chunk_parser \<Rightarrow> u32 list pres" where
  "nmo_chunk_parser_read_dword_array_as_words 0 p = ok [] p"
| "nmo_chunk_parser_read_dword_array_as_words (Suc n) p =
     bindR (nmo_chunk_parser_read_dword_as_words p) (\<lambda>v p.
       bindR (nmo_chunk_parser_read_dword_array_as_words n p) (\<lambda>vs. ok (v # vs)))"

definition nmo_chunk_parser_read_int :: "chunk_parser \<Rightarrow> u32 pres" where
  "nmo_chunk_parser_read_int p =
     (if \<not> check_bounds p 1 then fail NMO_ERR_EOF p else take_dword p)"

definition nmo_chunk_parser_read_float :: "chunk_parser \<Rightarrow> f32 pres" where
  "nmo_chunk_parser_read_float p =
     (if \<not> check_bounds p 1 then fail NMO_ERR_EOF p else take_dword p)"

definition nmo_chunk_parser_read_guid :: "chunk_parser \<Rightarrow> nmo_guid pres" where
  "nmo_chunk_parser_read_guid p =
     (if \<not> check_bounds p 2 then fail NMO_ERR_EOF p
      else bindR (take_dwords 2 p) (\<lambda>ds. ok \<lparr>d1 = ds ! 0, d2 = ds ! 1\<rparr>))"

section \<open>Managers\<close>

text \<open>
  The value (0 when it cannot be read) and the GUID stored through the out parameter, \<open>None\<close> when
  nothing is stored.
\<close>

definition nmo_chunk_parser_read_manager_int ::
  "chunk_parser \<Rightarrow> ((u32 \<times> nmo_guid option) \<times> chunk_parser) eff" where
  "nmo_chunk_parser_read_manager_int p =
     (if \<not> check_bounds p 3 then Done ((0, None), p)
      else bindE (load_dwords (c_data (p_chunk p)) (p_cursor p) 3) (\<lambda>ds.
        Done ((ds ! 2, Some \<lparr>d1 = ds ! 0, d2 = ds ! 1\<rparr>), advance 3 p)))"

definition nmo_chunk_parser_read_manager_int_sequence ::
  "chunk_parser \<Rightarrow> (u32 \<times> chunk_parser) eff" where
  "nmo_chunk_parser_read_manager_int_sequence p =
     (if \<not> p_in_manager_sequence p \<or> p_manager_remaining p = 0 then Done (0, p)
      else if \<not> check_bounds p 1 then Done (0, p)
      else bindE (load_dword (c_data (p_chunk p)) (p_cursor p)) (\<lambda>v.
        let p = (advance 1 p)\<lparr>p_manager_remaining := p_manager_remaining p - 1\<rparr>
        in Done (v, if p_manager_remaining p = 0 then p\<lparr>p_in_manager_sequence := False\<rparr> else p)))"

text \<open>
  These three return an \<^verbatim>\<open>int\<close> that is the count on success and an error code otherwise; the model
  returns the bits of that \<^verbatim>\<open>int\<close>.
\<close>

definition nmo_chunk_parser_start_manager_sequence ::
  "chunk_parser \<Rightarrow> ((u32 \<times> nmo_guid option) \<times> chunk_parser) eff" where
  "nmo_chunk_parser_start_manager_sequence p =
     (if \<not> check_bounds p 3 then Done ((error_int NMO_ERR_EOF, None), p)
      else bindE (load_dwords (c_data (p_chunk p)) (p_cursor p) 3) (\<lambda>ds.
        let guid = \<lparr>d1 = ds ! 1, d2 = ds ! 2\<rparr>
        in Done ((ds ! 0, Some guid),
             (advance 3 p)\<lparr>p_current_manager_guid := guid, p_manager_remaining := unat (ds ! 0),
                           p_in_manager_sequence := ds ! 0 > 0\<rparr>)))"

definition nmo_chunk_parser_start_object_sequence :: "chunk_parser \<Rightarrow> (u32 \<times> chunk_parser) eff" where
  "nmo_chunk_parser_start_object_sequence p =
     (if \<not> check_bounds p 1 then Done (error_int NMO_ERR_EOF, p)
      else bindE (load_dword (c_data (p_chunk p)) (p_cursor p)) (\<lambda>count.
        Done (count, (advance 1 p)\<lparr>p_object_remaining := unat count,
                                   p_in_object_sequence := count > 0\<rparr>)))"

definition nmo_chunk_parser_start_read_sequence :: "chunk_parser \<Rightarrow> (u32 \<times> chunk_parser) eff" where
  "nmo_chunk_parser_start_read_sequence p =
     (if \<not> check_bounds p 1 then Done (error_int NMO_ERR_EOF, p)
      else bindE (load_dword (c_data (p_chunk p)) (p_cursor p)) (\<lambda>count.
        Done (count, (advance 1 p)\<lparr>p_subchunk_remaining := unat count,
                                   p_in_subchunk_sequence := count > 0\<rparr>)))"

definition nmo_chunk_parser_read_object_id :: "chunk_parser \<Rightarrow> u32 pres" where
  "nmo_chunk_parser_read_object_id p =
     (if \<not> check_bounds p 1 then fail NMO_ERR_EOF p
      else bindR (take_dword p) (\<lambda>raw_id p.
        let resolved_id =
              (case Option.bind (p_file_context p) file_to_runtime of
                 None \<Rightarrow> raw_id
               | Some remap \<Rightarrow>
                   if has_option (c_chunk_options (p_chunk p)) NMO_CHUNK_OPTION_FILE \<and> raw_id \<noteq> 0
                   then (case nmo_id_remap_lookup_id remap raw_id of
                           Inr remapped \<Rightarrow> remapped | Inl _ \<Rightarrow> raw_id)
                   else raw_id);
            p = (if p_in_object_sequence p \<and> p_object_remaining p > 0 then
                   let p = p\<lparr>p_object_remaining := p_object_remaining p - 1\<rparr>
                   in if p_object_remaining p = 0 then p\<lparr>p_in_object_sequence := False\<rparr> else p
                 else p)
        in ok resolved_id p))"

section \<open>Byte buffers, strings and arrays\<close>

definition nmo_chunk_parser_read_bytes :: "nat \<Rightarrow> chunk_parser \<Rightarrow> u8 list pres" where
  "nmo_chunk_parser_read_bytes bytes p =
     (if bytes = 0 then ok [] p
      else
        let dwords_needed = nmo_align_dword bytes div 4
        in if \<not> check_bounds p dwords_needed then fail NMO_ERR_EOF p
           else bindE (load_bytes (c_data (p_chunk p)) (p_cursor p) bytes) (\<lambda>bs.
             ok bs (advance dwords_needed p)))"

definition nmo_chunk_parser_read_buffer_nosize :: "nat \<Rightarrow> chunk_parser \<Rightarrow> u8 list pres" where
  "nmo_chunk_parser_read_buffer_nosize bytes p =
     (if bytes = 0 then ok [] p
      else
        let dwords_needed = (sz_add bytes 3) div 4
        in if \<not> check_bounds p dwords_needed then fail NMO_ERR_EOF p
           else bindE (load_bytes (c_data (p_chunk p)) (p_cursor p) bytes) (\<lambda>bs.
             ok bs (advance dwords_needed p)))"

definition nmo_chunk_parser_read_buffer_lendian16 :: "nat \<Rightarrow> chunk_parser \<Rightarrow> u8 list pres" where
  "nmo_chunk_parser_read_buffer_lendian16 bytes p =
     (if bytes = 0 then ok [] p
      else
        let dwords_needed = nmo_align_dword bytes div 4
        in if \<not> check_bounds p dwords_needed then fail NMO_ERR_EOF p
           else bindE (load_bytes (c_data (p_chunk p)) (p_cursor p) bytes) (\<lambda>bs.
             ok (nmo_swap_16bit_words bs (bytes div 2)) (advance dwords_needed p)))"

fun nmo_chunk_parser_read_buffer_nosize_lendian16 :: "nat \<Rightarrow> chunk_parser \<Rightarrow> u16 list pres" where
  "nmo_chunk_parser_read_buffer_nosize_lendian16 0 p = ok [] p"
| "nmo_chunk_parser_read_buffer_nosize_lendian16 (Suc n) p =
     bindR (nmo_chunk_parser_read_word p) (\<lambda>v p.
       bindR (nmo_chunk_parser_read_buffer_nosize_lendian16 n p) (\<lambda>vs. ok (v # vs)))"

text \<open>The result is the index of the current word, \<open>None\<close> for NULL.\<close>

definition nmo_chunk_parser_lock_read_buffer :: "chunk_parser \<Rightarrow> nat option" where
  "nmo_chunk_parser_lock_read_buffer p =
     (if p_cursor p \<ge> c_data_size (p_chunk p) then None else Some (p_cursor p))"

text \<open>A reader that takes no memory, in the state with the arena.\<close>

definition with_arena :: "(chunk_parser \<Rightarrow> 'a pres) \<Rightarrow> chunk_parser \<times> arena \<Rightarrow> 'a pares" where
  "with_arena f = (\<lambda>(p, a). bindE (f p) (\<lambda>(x, p). Done (x, p, a)))"

text \<open>An allocation in the arena: its region is only tested for NULL.\<close>

definition arena_get :: "nat \<Rightarrow> nat \<Rightarrow> chunk_parser \<times> arena \<Rightarrow> unit pares" where
  "arena_get n alignment = (\<lambda>(p, a).
     bindE (nmo_arena_alloc n alignment a) (\<lambda>(q, a).
       Done (case q of None \<Rightarrow> Inl NMO_ERR_NOMEM | Some _ \<Rightarrow> Inr (), p, a)))"

definition nmo_chunk_parser_read_string :: "chunk_parser \<times> arena \<Rightarrow> u8 list pares" where
  "nmo_chunk_parser_read_string s =
     bindR (with_arena nmo_chunk_parser_read_dword s) (\<lambda>len s.
       bindR (arena_get (unat (len + 1)) 1 s) (\<lambda>_ s.
         if len > 0 then with_arena (nmo_chunk_parser_read_bytes (unat len)) s else ok [] s))"

text \<open>The size stored through the out parameter, and the buffer, \<open>None\<close> for NULL.\<close>

definition nmo_chunk_parser_read_buffer :: "chunk_parser \<times> arena \<Rightarrow> (nat \<times> u8 list option) pares" where
  "nmo_chunk_parser_read_buffer s =
     bindR (with_arena nmo_chunk_parser_read_dword s) (\<lambda>buf_size s.
       if buf_size = 0 then ok (0, None) s
       else bindR (arena_get (unat buf_size) 4 s) (\<lambda>_ s.
         bindR (with_arena (nmo_chunk_parser_read_bytes (unat buf_size)) s) (\<lambda>bs.
           ok (unat buf_size, Some bs))))"

text \<open>
  The count returned and the array stored. The sum \<^verbatim>\<open>data_size_bytes + 3\<close> is an \<^verbatim>\<open>int\<close>, so its
  overflow is undefined.
\<close>

definition nmo_chunk_parser_read_array_lendian ::
  "chunk_parser \<times> arena \<Rightarrow> ((u32 \<times> u8 list option) \<times> chunk_parser \<times> arena) eff" where
  "nmo_chunk_parser_read_array_lendian = (\<lambda>(p, a).
     if \<not> check_bounds p 2 then Done ((0, None), p, a)
     else bindE (load_dwords (c_data (p_chunk p)) (p_cursor p) 2) (\<lambda>ds.
       let p = advance 2 p; data_size_bytes = ds ! 0; element_count = ds ! 1
       in if sint data_size_bytes \<le> 0 \<or> sint element_count \<le> 0 then Done ((0, None), p, a)
          else if sint data_size_bytes + 3 > 2 ^ 31 - 1 then Undefined
          else
            let dword_count = (unat data_size_bytes + 3) div 4
            in if \<not> check_bounds p dword_count then Done ((0, None), p, a)
               else bindE (nmo_arena_alloc (unat data_size_bytes) 1 a) (\<lambda>(q, a). case q of
                 None \<Rightarrow> Done ((0, None), p, a)
               | Some _ \<Rightarrow>
                   bindE (load_bytes (c_data (p_chunk p)) (p_cursor p) (unat data_size_bytes)) (\<lambda>bs.
                     Done ((element_count, Some bs), advance dword_count p, a)))))"

text \<open>
  The \<^verbatim>\<open>int\<close> returned, a count or an error code, and what is stored through \<^verbatim>\<open>array\<close>: \<open>None\<close> for
  nothing, \<open>Some None\<close> for NULL.
\<close>

definition nmo_chunk_parser_read_array_lendian16 ::
  "chunk_parser \<times> arena \<Rightarrow> ((u32 \<times> u8 list option option) \<times> chunk_parser \<times> arena) eff" where
  "nmo_chunk_parser_read_array_lendian16 s =
     bindE (bindR (with_arena nmo_chunk_parser_read_dword s) (\<lambda>size_bytes s.
       bindR (with_arena nmo_chunk_parser_read_dword s) (\<lambda>element_count (p, a).
         if size_bytes = 0 \<or> element_count = 0 then ok (0, Some None) (p, a)
         else
           let dwords_needed = nmo_align_dword (unat size_bytes) div 4
           in if \<not> check_bounds p dwords_needed then fail NMO_ERR_EOF (p, a)
              else bindR (arena_get (unat size_bytes) 4 (p, a)) (\<lambda>_ (p, a).
                bindE (load_bytes (c_data (p_chunk p)) (p_cursor p) (unat size_bytes)) (\<lambda>bs.
                  ok (element_count, Some (Some (nmo_swap_16bit_words bs (unat size_bytes div 2))))
                    (advance dwords_needed p, a))))))
       (\<lambda>(x, s). Done (case x of Inl e \<Rightarrow> (error_int e, None) | Inr r \<Rightarrow> r, s))"

section \<open>Identifiers\<close>

definition nmo_chunk_parser_read_identifier :: "chunk_parser \<Rightarrow> u32 pres" where
  "nmo_chunk_parser_read_identifier p =
     (if sz_add (p_cursor p) 2 > c_data_size (p_chunk p) then fail NMO_ERR_EOF p
      else bindE (load_dword (c_data (p_chunk p)) (p_cursor p)) (\<lambda>identifier.
        ok identifier (advance 2 (p\<lparr>p_prev_identifier_pos := p_cursor p\<rparr>))))"

text \<open>
  The search reads the words \<open>xs\<close> of a chunk that has \<open>n\<close> of them and yields the position where it
  stops. The loop that starts at word 0 gives up when a link leads back to \<open>j\<close>; \<open>None\<close> is a loop that
  does not end.
\<close>

partial_function (option) seek_cycle_loop ::
  "u32 list \<Rightarrow> nat \<Rightarrow> u32 \<Rightarrow> u32 \<Rightarrow> nat \<Rightarrow> (nmo_error_code + nat) eff option" where
  "seek_cycle_loop xs n identifier j i =
     (if \<not> i < n then Some (Done (Inr i))
      else if \<not> i < length xs then Some Undefined
      else if xs ! i = identifier then Some (Done (Inr i))
      else if i + 1 \<ge> n then Some (Done (Inl NMO_ERR_EOF))
      else if \<not> i + 1 < length xs then Some Undefined
      else if xs ! (i + 1) = j then Some (Done (Inl NMO_ERR_EOF))
      else seek_cycle_loop xs n identifier j (unat (xs ! (i + 1))))"

text \<open>
  The loop that starts at \<open>j\<close> follows the links until one is 0; then it runs the loop above, and
  tests its own condition once more.
\<close>

partial_function (option) seek_main_loop ::
  "u32 list \<Rightarrow> nat \<Rightarrow> u32 \<Rightarrow> u32 \<Rightarrow> nat \<Rightarrow> (nmo_error_code + nat) eff option" where
  "seek_main_loop xs n identifier j i =
     (if \<not> i < n then Some (Done (Inr i))
      else if \<not> i < length xs then Some Undefined
      else if xs ! i = identifier then Some (Done (Inr i))
      else if i + 1 \<ge> n then Some (Done (Inl NMO_ERR_EOF))
      else if \<not> i + 1 < length xs then Some Undefined
      else if xs ! (i + 1) = 0 then
        Option.bind (seek_cycle_loop xs n identifier j 0) (\<lambda>r. case r of
          Done (Inr i) \<Rightarrow> seek_main_loop xs n identifier j i
        | Done (Inl e) \<Rightarrow> Some (Done (Inl e))
        | Undefined \<Rightarrow> Some Undefined
        | Diverges \<Rightarrow> Some Diverges)
      else seek_main_loop xs n identifier j (unat (xs ! (i + 1))))"

definition nmo_chunk_parser_seek_identifier :: "u32 \<Rightarrow> chunk_parser \<Rightarrow> unit pres" where
  "nmo_chunk_parser_seek_identifier identifier p =
     (let n = c_data_size (p_chunk p)
      in case c_data (p_chunk p) of
           None \<Rightarrow> fail NMO_ERR_EOF p
         | Some xs \<Rightarrow>
             if n = 0 then fail NMO_ERR_EOF p
             else if p_prev_identifier_pos p \<ge> n - 1 then fail NMO_ERR_EOF p
             else bindE (load_dword (Some xs) (p_prev_identifier_pos p + 1)) (\<lambda>j.
               case (if j \<noteq> 0 then seek_main_loop xs n identifier j (unat j)
                     else seek_cycle_loop xs n identifier j 0) of
                 None \<Rightarrow> Diverges
               | Some r \<Rightarrow> bindE r (\<lambda>r. case r of
                   Inl e \<Rightarrow> fail e p
                 | Inr i \<Rightarrow>
                     if i \<ge> n then fail NMO_ERR_EOF p
                     else ok () (p\<lparr>p_prev_identifier_pos := i, p_cursor := i + 2\<rparr>))))"

text \<open>
  The size stored through the out parameter, which the caller passes. The difference of two
  \<^verbatim>\<open>size_t\<close> values wraps.
\<close>

definition nmo_chunk_parser_seek_identifier_with_size :: "u32 \<Rightarrow> chunk_parser \<Rightarrow> nat pres" where
  "nmo_chunk_parser_seek_identifier_with_size identifier p =
     bindE (nmo_chunk_parser_seek_identifier identifier p) (\<lambda>(x, q). case x of
       Inl e \<Rightarrow>
         fail e (q\<lparr>p_cursor := p_cursor p, p_prev_identifier_pos := p_prev_identifier_pos p\<rparr>)
     | Inr _ \<Rightarrow>
         if p_prev_identifier_pos q + 1 < c_data_size (p_chunk q) then
           bindE (load_dword (c_data (p_chunk q)) (p_prev_identifier_pos q + 1)) (\<lambda>next_pos.
             if next_pos \<noteq> 0 \<and> unat next_pos < c_data_size (p_chunk q)
             then ok (sz_sub (unat next_pos) (p_cursor q)) q
             else ok (sz_sub (c_data_size (p_chunk q)) (p_cursor q)) q)
         else ok 0 q)"

section \<open>Sub-chunks\<close>

text \<open>A block of \<open>n\<close> words copied into an array taken from the arena; nothing for \<open>n = 0\<close>.\<close>

definition read_block :: "nat \<Rightarrow> chunk_parser \<times> arena \<Rightarrow> u32 list option pares" where
  "read_block n = (\<lambda>(p, a).
     if n > 0 then
       if \<not> check_bounds p n then fail NMO_ERR_EOF (p, a)
       else bindR (arena_get (n * 4) 4 (p, a)) (\<lambda>_ s.
         bindR (with_arena (take_dwords n) s) (\<lambda>ds. ok (Some ds)))
     else ok None (p, a))"

definition skip_block :: "nat \<Rightarrow> chunk_parser \<times> arena \<Rightarrow> unit pares" where
  "skip_block n = (\<lambda>(p, a).
     if n > 0 then
       if \<not> check_bounds p n then fail NMO_ERR_EOF (p, a) else ok () (advance n p, a)
     else ok () (p, a))"

text \<open>The version bytes of a packed word.\<close>

definition unpack_version :: "u32 \<Rightarrow> chunk_body \<Rightarrow> chunk_body" where
  "unpack_version v b = b\<lparr>c_data_version := v AND 0xFF,
     c_chunk_class_id := ucast (drop_bit 8 v AND 0xFF),
     c_chunk_version := drop_bit 16 v AND 0xFF, c_chunk_options := drop_bit 24 v AND 0xFF\<rparr>"

definition read_counted :: "chunk_parser \<times> arena \<Rightarrow> u32 pares" where
  "read_counted = with_arena nmo_chunk_parser_read_dword"

text \<open>
  The four blocks behind the header; the positions of nested sub-chunks are skipped.
\<close>

definition read_subchunk_blocks ::
  "nat \<Rightarrow> nat \<Rightarrow> nat \<Rightarrow> nat \<Rightarrow> chunk_body \<Rightarrow> chunk_parser \<times> arena \<Rightarrow> chunk_body pares" where
  "read_subchunk_blocks chunk_size id_count chunk_count manager_count b s =
     bindR (read_block chunk_size s) (\<lambda>data s.
       let b = b\<lparr>c_data := data, c_data_size := chunk_size, c_data_capacity := chunk_size\<rparr>
       in bindR (read_block id_count s) (\<lambda>ids s.
            let b = b\<lparr>c_ids := ids, c_id_count := id_count, c_id_capacity := id_count\<rparr>
            in bindR (skip_block chunk_count s) (\<lambda>_ s.
                 bindR (read_block manager_count s) (\<lambda>managers.
                   ok (b\<lparr>c_managers := managers, c_manager_count := manager_count,
                         c_manager_capacity := manager_count\<rparr>)))))"

text \<open>The sub-chunk, \<open>None\<close> when the marker of an absent one was read.\<close>

definition nmo_chunk_parser_read_subchunk :: "chunk_parser \<times> arena \<Rightarrow> nmo_chunk option pares" where
  "nmo_chunk_parser_read_subchunk = (\<lambda>(p, a).
     if p_in_subchunk_sequence p \<and> p_subchunk_remaining p = 0 then fail NMO_ERR_EOF (p, a)
     else bindR (read_counted (p, a)) (\<lambda>size_dwords (p, a).
       if size_dwords = 0 then ok None (consume_subchunk_slot p, a)
       else if \<not> check_bounds p (unat size_dwords) then fail NMO_ERR_EOF (p, a)
       else bindR (read_counted (p, a)) (\<lambda>class_id (p, a).
         bindE (nmo_chunk_create a) (\<lambda>(sub, a). case sub of
           None \<Rightarrow> fail NMO_ERR_NOMEM (p, a)
         | Some sub \<Rightarrow>
             bindR (read_counted (p, a)) (\<lambda>version_info s.
               let b = unpack_version version_info ((c_body sub)\<lparr>c_class_id := class_id\<rparr>)
               in bindR (read_counted s) (\<lambda>chunk_size s.
                    bindR (read_counted s) (\<lambda>has_file s.
                      bindR (read_counted s) (\<lambda>id_count s.
                        bindR (read_counted s) (\<lambda>chunk_count s.
                          bindR (if c_chunk_version b > 4 then read_counted s else ok 0 s)
                            (\<lambda>manager_count s.
                              bindR (read_subchunk_blocks (unat chunk_size) (unat id_count)
                                       (unat chunk_count) (unat manager_count) b s)
                                (\<lambda>b (p, a).
                                  ok (Some (Chunk b (c_chunks sub))) (consume_subchunk_slot p, a))))))))))))"

section \<open>Mathematical types\<close>

definition nmo_chunk_parser_read_vector2 :: "chunk_parser \<Rightarrow> nmo_vector2 pres" where
  "nmo_chunk_parser_read_vector2 p =
     (if \<not> check_bounds p 2 then fail NMO_ERR_EOF p
      else bindR (take_dwords 2 p) (\<lambda>d. ok \<lparr>v2_x = d ! 0, v2_y = d ! 1\<rparr>))"

definition nmo_chunk_parser_read_vector :: "chunk_parser \<Rightarrow> nmo_vector pres" where
  "nmo_chunk_parser_read_vector p =
     (if \<not> check_bounds p 3 then fail NMO_ERR_EOF p
      else bindR (take_dwords 3 p) (\<lambda>d. ok \<lparr>v3_x = d ! 0, v3_y = d ! 1, v3_z = d ! 2\<rparr>))"

definition dwords_vector4 :: "u32 list \<Rightarrow> nmo_vector4" where
  "dwords_vector4 d = \<lparr>v4_x = d ! 0, v4_y = d ! 1, v4_z = d ! 2, v4_w = d ! 3\<rparr>"

definition nmo_chunk_parser_read_vector4 :: "chunk_parser \<Rightarrow> nmo_vector4 pres" where
  "nmo_chunk_parser_read_vector4 p =
     (if \<not> check_bounds p 4 then fail NMO_ERR_EOF p
      else bindR (take_dwords 4 p) (\<lambda>d. ok (dwords_vector4 d)))"

definition nmo_chunk_parser_read_matrix :: "chunk_parser \<Rightarrow> nmo_matrix pres" where
  "nmo_chunk_parser_read_matrix p =
     (if \<not> check_bounds p 16 then fail NMO_ERR_EOF p
      else bindR (take_dwords 16 p) (\<lambda>d.
        ok \<lparr>m_row0 = dwords_vector4 d, m_row1 = dwords_vector4 (drop 4 d),
            m_row2 = dwords_vector4 (drop 8 d), m_row3 = dwords_vector4 (drop 12 d)\<rparr>))"

definition nmo_chunk_parser_read_quaternion :: "chunk_parser \<Rightarrow> nmo_quaternion pres" where
  "nmo_chunk_parser_read_quaternion p =
     (if \<not> check_bounds p 4 then fail NMO_ERR_EOF p
      else bindR (take_dwords 4 p) (\<lambda>d.
        ok \<lparr>q_x = d ! 0, q_y = d ! 1, q_z = d ! 2, q_w = d ! 3\<rparr>))"

definition nmo_chunk_parser_read_color :: "chunk_parser \<Rightarrow> nmo_color pres" where
  "nmo_chunk_parser_read_color p =
     (if \<not> check_bounds p 4 then fail NMO_ERR_EOF p
      else bindR (take_dwords 4 p) (\<lambda>d.
        ok \<lparr>col_r = d ! 0, col_g = d ! 1, col_b = d ! 2, col_a = d ! 3\<rparr>))"

end
