(* ===== verification/WriterSpec.thy ===== *)
theory WriterSpec
  imports ChunkWriter
begin

text \<open>
  What the writer promises. The abstract writer \<open>awriter\<close> forgets capacities, stale memory and the
  arena: it is the words written so far, the tracked positions, the sub-chunks and the chunk under
  construction. The judgement \<open>outcome\<close> says that a call neither leaves a buffer nor loops, keeps
  the writer well formed, fails at most for want of memory and otherwise reaches a given abstract
  state; every operation gets one such rule.
\<close>

section \<open>The abstract writer\<close>

record awriter =
  aw_words :: "u32 list"
  aw_ids :: "u32 list"
  aw_managers :: "u32 list"
  aw_refs :: "u32 list"
  aw_subs :: "nmo_chunk list"
  aw_chunk :: "nmo_chunk option"
  aw_context :: "chunk_file_context option"
  aw_prev :: nat
  aw_finalized :: bool

definition track_items :: "track_list \<Rightarrow> u32 list" where
  "track_items l = words (tl_items l) (tl_count l)"

definition sub_items :: "nmo_chunk option list option \<Rightarrow> nat \<Rightarrow> nmo_chunk list" where
  "sub_items p n = (case p of None \<Rightarrow> [] | Some cs \<Rightarrow> map the (take n cs))"

definition wabs :: "chunk_writer \<Rightarrow> awriter" where
  "wabs w =
     \<lparr>aw_words = take (w_data_size w) (w_data w), aw_ids = track_items (w_id_list w),
      aw_managers = track_items (w_manager_list w), aw_refs = track_items (w_chunk_ref_list w),
      aw_subs = sub_items (w_chunk_list w) (w_chunk_count w), aw_chunk = w_chunk w, aw_context = w_file_context w,
      aw_prev = w_prev_identifier_pos w, aw_finalized = w_finalized w\<rparr>"

lemma wabs_simps [simp]:
  "aw_chunk (wabs w) = w_chunk w" "aw_context (wabs w) = w_file_context w"
  "aw_prev (wabs w) = w_prev_identifier_pos w" "aw_finalized (wabs w) = w_finalized w"
  by (simp_all add: wabs_def)

section \<open>Well-formed writers\<close>

definition track_wf :: "track_list \<Rightarrow> bool" where
  "track_wf l \<longleftrightarrow> tl_count l \<le> tl_capacity l \<and> tl_capacity l < 2 ^ 59
     \<and> (case tl_items l of None \<Rightarrow> tl_capacity l = 0 | Some xs \<Rightarrow> length xs = tl_capacity l)"

definition subs_wf :: "nmo_chunk option list option \<Rightarrow> nat \<Rightarrow> nat \<Rightarrow> bool" where
  "subs_wf p n capacity \<longleftrightarrow> n \<le> capacity \<and> capacity < 2 ^ 59
     \<and> (case p of None \<Rightarrow> capacity = 0 | Some cs \<Rightarrow> length cs = capacity \<and> None \<notin> set (take n cs))"

definition data_wf :: "u32 list \<Rightarrow> nat \<Rightarrow> nat \<Rightarrow> bool" where
  "data_wf xs n capacity \<longleftrightarrow> length xs = capacity \<and> n \<le> capacity \<and> capacity < 2 ^ 59"

definition writer_wf :: "chunk_writer \<Rightarrow> bool" where
  "writer_wf w \<longleftrightarrow> data_wf (w_data w) (w_data_size w) (w_data_capacity w) \<and> arena_sane (w_arena w) \<and> track_wf (w_id_list w)
     \<and> track_wf (w_manager_list w) \<and> track_wf (w_chunk_ref_list w)
     \<and> subs_wf (w_chunk_list w) (w_chunk_count w) (w_chunk_capacity w)"

text \<open>The number of words and entries a writer holds; everything is checked up to \<open>2 ^ 56\<close> of them.\<close>

definition load :: "awriter \<Rightarrow> nat" where
  "load A = length (aw_words A) + length (aw_ids A) + length (aw_managers A) + length (aw_refs A)
     + length (aw_subs A)"

definition room :: "nat \<Rightarrow> awriter \<Rightarrow> bool" where
  "room n A \<longleftrightarrow> load A + n \<le> 2 ^ 56"

lemma room_mono: "room n A \<Longrightarrow> m \<le> n \<Longrightarrow> room m A"
  by (simp add: room_def ac_simps)

lemma length_track_items [simp]: "track_wf l \<Longrightarrow> length (track_items l) = tl_count l"
  by (auto simp: track_items_def words_def track_wf_def split: option.splits)

lemma length_sub_items [simp]: "subs_wf p n c \<Longrightarrow> length (sub_items p n) = n"
  by (auto simp: sub_items_def subs_wf_def split: option.splits)

lemma load_wabs:
  "writer_wf w \<Longrightarrow> load (wabs w) = w_data_size w + tl_count (w_id_list w)
     + tl_count (w_manager_list w) + tl_count (w_chunk_ref_list w) + w_chunk_count w"
  by (auto simp: load_def writer_wf_def wabs_def data_wf_def)

section \<open>Outcomes\<close>

definition outcome :: "chunk_writer \<Rightarrow> 'a wres \<Rightarrow> ('a \<Rightarrow> chunk_writer \<Rightarrow> bool) \<Rightarrow> bool" where
  "outcome w m Q \<longleftrightarrow>
     (\<exists>v. m = Done (Inl NMO_ERR_NOMEM, v) \<and> writer_wf v \<and> \<not> arena_grants (w_arena w)) \<or>
     (\<exists>y v. m = Done (Inr y, v) \<and> writer_wf v
        \<and> (arena_grants (w_arena w) \<longrightarrow> arena_grants (w_arena v)) \<and> Q y v)"

lemma outcome_ok [simp, intro]:
  "writer_wf v \<Longrightarrow> (arena_grants (w_arena w) \<Longrightarrow> arena_grants (w_arena v)) \<Longrightarrow> Q y v
    \<Longrightarrow> outcome w (ok y v) Q"
  by (simp add: outcome_def ok_def)

lemma outcome_nomem:
  "writer_wf v \<Longrightarrow> \<not> arena_grants (w_arena w) \<Longrightarrow> outcome w (fail NMO_ERR_NOMEM v) Q"
  by (simp add: outcome_def fail_def)

lemma outcome_bind:
  "outcome w m Q \<Longrightarrow> (\<And>y v. writer_wf v \<Longrightarrow> Q y v \<Longrightarrow> outcome v (f y v) R) \<Longrightarrow> outcome w (bindR m f) R"
  unfolding outcome_def by fastforce

lemma outcome_mono:
  "outcome w m Q \<Longrightarrow> (\<And>y v. writer_wf v \<Longrightarrow> Q y v \<Longrightarrow> R y v) \<Longrightarrow> outcome w m R"
  unfolding outcome_def by blast

lemma outcome_returns: "outcome w m Q \<Longrightarrow> returns m"
  by (auto simp: outcome_def returns_def)

text \<open>When the allocator never refuses, the call succeeds.\<close>

lemma outcome_grants:
  assumes "outcome w m Q" and "arena_grants (w_arena w)"
  obtains y v where "m = Done (Inr y, v)" "writer_wf v" "arena_grants (w_arena v)" "Q y v"
  using assms unfolding outcome_def by blast

text \<open>A call that starts from a writer with the same arena.\<close>

lemma outcome_arena: "w_arena v = w_arena w \<Longrightarrow> outcome v m Q = outcome w m Q"
  by (simp add: outcome_def)

lemma bindR_ok_right [simp]: "bindR m ok = m"
  by (auto simp: bindR_def ok_def split: eff.splits prod.splits sum.splits)

section \<open>Capacity\<close>

lemma arena_alloc_size:
  "nmo_arena_alloc n al a = Done (Some r, b) \<Longrightarrow> rg_size r = n"
  by (auto simp: nmo_arena_alloc_def arena_take_def Let_def
      split: if_splits eff.splits option.splits prod.splits)

lemma realloc_dwords_outcome:
  assumes "arena_sane a" and "n < 2 ^ 60" and "count \<le> n"
    and "case old of None \<Rightarrow> True | Some xs \<Rightarrow> count \<le> length xs"
  obtains q b where "realloc_dwords old count n a = Done (q, b)" "arena_sane b"
    "arena_grants b = arena_grants a" "arena_grants a \<Longrightarrow> 0 < n \<Longrightarrow> q \<noteq> None"
    "\<And>ys. q = Some ys \<Longrightarrow> length ys = n \<and> (\<forall>xs. old = Some xs \<longrightarrow> take count ys = take count xs)"
proof -
  have m: "sz_mul n 4 = n * 4" using assms(2) by (intro sz_mul_small) simp
  have "n * 4 < 2 ^ 62" using assms(2) by simp
  from arena_alloc_sane [OF assms(1) this, of 4] obtain q b where
    q: "nmo_arena_alloc (n * 4) 4 a = Done (q, b)" "arena_sane b" "arena_grants b = arena_grants a"
      "arena_grants a \<Longrightarrow> 0 < n * 4 \<Longrightarrow> q \<noteq> None" by auto
  show ?thesis
  proof (cases q)
    case None
    then show ?thesis using q by (intro that [of None b]) (auto simp: realloc_dwords_def m)
  next
    case (Some r)
    then have sz: "rg_size r = n * 4" using q(1) by (auto dest: arena_alloc_size)
    let ?new = "fresh_dwords r b n"
    show ?thesis
    proof (cases "old \<noteq> None \<and> count > 0")
      case True
      then obtain xs where xs: "old = Some xs" "count \<le> length xs" using assms(4) by auto
      show ?thesis
        by (rule that [of "Some (mem_blit ?new 0 (take count xs))" b])
          (use True q Some sz xs assms(3) in \<open>auto simp: realloc_dwords_def m Let_def load_dwords_def mem_blit_def\<close>)
    next
      case False
      show ?thesis
        by (rule that [of "Some ?new" b])
          (use False q Some sz in \<open>auto simp: realloc_dwords_def m Let_def\<close>)
    qed
  qed
qed

lemma ensure_data_outcome:
  assumes wf: "writer_wf w" and room: "room n (wabs w)"
  shows "outcome w (ensure_data_capacity n w)
    (\<lambda>_ v. wabs v = wabs w \<and> w_data_size v + n \<le> w_data_capacity v)"
proof -
  have b: "w_data_size w + n \<le> 2 ^ 56" using room by (simp add: room_def load_wabs [OF wf])
  have d: "data_wf (w_data w) (w_data_size w) (w_data_capacity w)" using wf by (simp add: writer_wf_def)
  then have c: "w_data_capacity w < 2 ^ 59" "w_data_size w \<le> length (w_data w)" by (auto simp: data_wf_def)
  have add: "sz_add (w_data_size w) n = w_data_size w + n" using b by (intro sz_add_small) simp
  show ?thesis
  proof (cases "w_data_size w + n \<le> w_data_capacity w")
    case True
    then show ?thesis using wf by (simp add: ensure_data_capacity_def add)
  next
    case False
    let ?t = "w_data_size w + n" and ?c = "sz_add (w_data_capacity w) WRITER_GROWTH_INCREMENT"
    have c0: "?c = w_data_capacity w + 500"
      using False b by (subst sz_add_small) (auto simp: WRITER_GROWTH_INCREMENT_def)
    have "\<exists>e. grow_until (\<lambda>c. sz_add c WRITER_GROWTH_INCREMENT) ?t ?c = Some e
        \<and> ?t \<le> e \<and> ?c \<le> e \<and> e \<le> ?t + 500"
      by (rule grow_until_returns [where S = UNIV])
        (use False b in \<open>auto simp: c0 sz_add_small WRITER_GROWTH_INCREMENT_def\<close>)
    then obtain e where e: "grow_until (\<lambda>c. sz_add c WRITER_GROWTH_INCREMENT) ?t ?c = Some e"
        "?t \<le> e" "e \<le> ?t + 500" by auto
    have "e < 2 ^ 59" using e(3) b by simp
    from realloc_dwords_outcome [of "w_arena w" e "w_data_size w" "Some (w_data w)"] obtain q a where
      q: "realloc_dwords (Some (w_data w)) (w_data_size w) e (w_arena w) = Done (q, a)" "arena_sane a"
        "arena_grants a = arena_grants (w_arena w)" "arena_grants (w_arena w) \<Longrightarrow> 0 < e \<Longrightarrow> q \<noteq> None"
        "\<And>ys. q = Some ys \<Longrightarrow> length ys = e \<and> take (w_data_size w) ys = take (w_data_size w) (w_data w)"
      using wf c e(2) \<open>e < 2 ^ 59\<close> by (auto simp: writer_wf_def)
    show ?thesis
    proof (cases q)
      case None
      with q(4) e(2) False have "\<not> arena_grants (w_arena w)" by auto
      with None show ?thesis using wf q(1-3) False
        by (auto simp: ensure_data_capacity_def add e(1) outcome_def fail_def writer_wf_def)
    next
      case (Some ys)
      with q(5) have ys: "length ys = e" "take (w_data_size w) ys = take (w_data_size w) (w_data w)" by auto
      show ?thesis using wf q(1-3) False Some ys e(2) \<open>e < 2 ^ 59\<close>
        by (auto simp: ensure_data_capacity_def add e(1) outcome_def ok_def writer_wf_def data_wf_def
            wabs_def Let_def)
    qed
  qed
qed

lemma ensure_list_cases:
  assumes wf: "track_wf l" and a: "arena_sane a" and room: "tl_count l + n \<le> 2 ^ 56"
  obtains (refused) b where "ensure_list_capacity n l a = Done (Inl NMO_ERR_NOMEM, l, b)"
      "arena_sane b" "\<not> arena_grants a"
  | (grown) k b where "ensure_list_capacity n l a = Done (Inr (), k, b)" "track_wf k" "arena_sane b"
      "arena_grants b = arena_grants a" "track_items k = track_items l" "tl_count k = tl_count l"
      "tl_count k + n \<le> tl_capacity k"
proof -
  have add: "sz_add (tl_count l) n = tl_count l + n" using room by (intro sz_add_small) simp
  show ?thesis
  proof (cases "tl_count l + n \<le> tl_capacity l")
    case True
    then show ?thesis using wf a by (intro grown [of l a]) (simp_all add: ensure_list_capacity_def add ok_def)
  next
    case False
    let ?t = "tl_count l + n" and ?c = "if tl_capacity l = 0 then 16 else sz_mul (tl_capacity l) 2"
    have c0: "?c = (if tl_capacity l = 0 then 16 else tl_capacity l * 2)"
      using False room by (auto intro!: sz_mul_small)
    have "\<exists>e. grow_until (\<lambda>c. sz_mul c 2) ?t ?c = Some e \<and> ?t \<le> e \<and> ?c \<le> e \<and> e \<le> 2 * ?t + 16"
      by (rule grow_until_returns [where S = "{c. 0 < c}"])
        (use False room in \<open>auto simp: c0 sz_mul_small\<close>)
    then obtain e where e: "grow_until (\<lambda>c. sz_mul c 2) ?t ?c = Some e" "?t \<le> e" "e \<le> 2 * ?t + 16"
      by blast
    have e': "e < 2 ^ 59" using e(3) room by simp
    have old: "case tl_items l of None \<Rightarrow> True | Some xs \<Rightarrow> tl_count l \<le> length xs"
      using wf by (auto simp: track_wf_def split: option.splits)
    from realloc_dwords_outcome [of a e "tl_count l" "tl_items l"] a e(2) e' old obtain q b where
      q: "realloc_dwords (tl_items l) (tl_count l) e a = Done (q, b)" "arena_sane b"
        "arena_grants b = arena_grants a" "arena_grants a \<Longrightarrow> 0 < e \<Longrightarrow> q \<noteq> None"
        "\<And>ys. q = Some ys \<Longrightarrow> length ys = e
           \<and> (\<forall>xs. tl_items l = Some xs \<longrightarrow> take (tl_count l) ys = take (tl_count l) xs)"
      by auto
    show ?thesis
    proof (cases q)
      case None
      with q(4) e(2) False have "\<not> arena_grants a" by auto
      with None q False show ?thesis
        by (intro refused [of b]) (simp_all add: ensure_list_capacity_def add e(1) fail_def)
    next
      case (Some ys)
      with q(5) have ys: "length ys = e"
          "\<forall>xs. tl_items l = Some xs \<longrightarrow> take (tl_count l) ys = take (tl_count l) xs" by auto
      show ?thesis
        by (rule grown [of "l\<lparr>tl_items := Some ys, tl_capacity := e\<rparr>" b])
          (use q(1-3) False Some ys e(2) e' wf in \<open>auto simp: ensure_list_capacity_def add e(1) ok_def
              track_wf_def track_items_def words_def split: option.splits\<close>)
    qed
  qed
qed

lemma list_push_all_ok:
  assumes "track_wf l" and "tl_count l + length vs \<le> tl_capacity l"
  shows "\<exists>k. list_push_all vs l = Done k \<and> track_wf k \<and> track_items k = track_items l @ vs"
  using assms
proof (induction vs arbitrary: l)
  case (Cons v vs)
  then obtain xs where xs: "tl_items l = Some xs" "length xs = tl_capacity l"
    by (auto simp: track_wf_def split: option.splits)
  have add: "sz_add (tl_count l) 1 = tl_count l + 1"
    using Cons.prems by (intro sz_add_small) (simp add: track_wf_def)
  let ?k = "l\<lparr>tl_items := Some (xs[tl_count l := v]), tl_count := tl_count l + 1\<rparr>"
  have k: "list_push v l = Done ?k" using xs Cons.prems add by (simp add: list_push_def)
  have "track_wf ?k" using Cons.prems xs by (simp add: track_wf_def)
  moreover have "track_items ?k = track_items l @ [v]"
    using Cons.prems xs by (simp add: track_items_def words_def take_Suc_conv_app_nth)
  ultimately show ?case using Cons.IH [of ?k] Cons.prems k by auto
qed simp

section \<open>Tracking positions\<close>

definition slack :: "nat \<Rightarrow> chunk_writer \<Rightarrow> bool" where
  "slack n w \<longleftrightarrow> w_data_size w + n \<le> w_data_capacity w"

definition add_ids :: "u32 list \<Rightarrow> awriter \<Rightarrow> awriter" where
  "add_ids vs A = A\<lparr>aw_ids := aw_ids A @ vs\<rparr>"

definition add_managers :: "u32 list \<Rightarrow> awriter \<Rightarrow> awriter" where
  "add_managers vs A = A\<lparr>aw_managers := aw_managers A @ vs\<rparr>"

definition add_refs :: "u32 list \<Rightarrow> awriter \<Rightarrow> awriter" where
  "add_refs vs A = A\<lparr>aw_refs := aw_refs A @ vs\<rparr>"

definition emit :: "u32 list \<Rightarrow> awriter \<Rightarrow> awriter" where
  "emit vs A = A\<lparr>aw_words := aw_words A @ vs\<rparr>"

definition with_option :: "(u32 \<Rightarrow> u32) \<Rightarrow> awriter \<Rightarrow> awriter" where
  "with_option f A = A\<lparr>aw_chunk := map_option (map_options f) (aw_chunk A)\<rparr>"

lemmas aw_update_defs = add_ids_def add_managers_def add_refs_def emit_def with_option_def

lemma load_updates [simp]:
  "load (add_ids vs A) = load A + length vs" "load (add_managers vs A) = load A + length vs"
  "load (add_refs vs A) = load A + length vs" "load (emit vs A) = load A + length vs"
  "load (with_option f A) = load A"
  by (simp_all add: load_def aw_update_defs)

lemma aw_updates [simp]:
  "aw_words (add_ids vs A) = aw_words A" "aw_words (add_managers vs A) = aw_words A"
  "aw_words (add_refs vs A) = aw_words A" "aw_words (with_option f A) = aw_words A"
  "aw_words (emit vs A) = aw_words A @ vs"
  "aw_context (add_ids vs A) = aw_context A" "aw_context (add_managers vs A) = aw_context A"
  "aw_context (add_refs vs A) = aw_context A" "aw_context (with_option f A) = aw_context A"
  "aw_context (emit vs A) = aw_context A"
  "aw_finalized (add_ids vs A) = aw_finalized A" "aw_finalized (add_managers vs A) = aw_finalized A"
  "aw_finalized (add_refs vs A) = aw_finalized A" "aw_finalized (with_option f A) = aw_finalized A"
  "aw_finalized (emit vs A) = aw_finalized A"
  "aw_prev (add_ids vs A) = aw_prev A" "aw_prev (add_managers vs A) = aw_prev A"
  "aw_prev (add_refs vs A) = aw_prev A" "aw_prev (with_option f A) = aw_prev A"
  "aw_prev (emit vs A) = aw_prev A"
  by (simp_all add: aw_update_defs)

lemma ensure_data_ok:
  assumes "writer_wf w" and "room n (wabs w)"
  shows "outcome w (ensure_data_capacity n w) (\<lambda>_ v. wabs v = wabs w \<and> slack n v)"
  using ensure_data_outcome [OF assms] by (simp add: slack_def)

lemma track_ids_ok:
  assumes wf: "writer_wf w" and "room n (wabs w)" and "length vs \<le> n"
  shows "outcome w (bindR (ensure_id_capacity n w) (\<lambda>_. push_id vs))
    (\<lambda>_ v. wabs v = add_ids vs (wabs w) \<and> (\<forall>k. slack k w \<longrightarrow> slack k v))"
proof -
  have l: "track_wf (w_id_list w)" "arena_sane (w_arena w)" "tl_count (w_id_list w) + n \<le> 2 ^ 56"
    using assms by (simp_all add: room_def load_wabs writer_wf_def)
  then show ?thesis
  proof (cases rule: ensure_list_cases)
    case (refused b)
    then show ?thesis using wf
      by (auto simp: ensure_id_capacity_def outcome_def writer_wf_def)
  next
    case (grown k b)
    with list_push_all_ok [of k vs] assms(3) obtain m where
      "list_push_all vs k = Done m" "track_wf m" "track_items m = track_items k @ vs" by auto
    with grown show ?thesis using wf
      by (auto simp: ensure_id_capacity_def push_id_def outcome_def writer_wf_def ok_def wabs_def add_ids_def slack_def)
  qed
qed

lemma track_managers_ok:
  assumes wf: "writer_wf w" and "room n (wabs w)" and "length vs \<le> n"
  shows "outcome w (bindR (ensure_manager_capacity n w) (\<lambda>_. push_manager vs))
    (\<lambda>_ v. wabs v = add_managers vs (wabs w) \<and> (\<forall>k. slack k w \<longrightarrow> slack k v))"
proof -
  have l: "track_wf (w_manager_list w)" "arena_sane (w_arena w)" "tl_count (w_manager_list w) + n \<le> 2 ^ 56"
    using assms by (simp_all add: room_def load_wabs writer_wf_def)
  then show ?thesis
  proof (cases rule: ensure_list_cases)
    case (refused b)
    then show ?thesis using wf
      by (auto simp: ensure_manager_capacity_def outcome_def writer_wf_def)
  next
    case (grown k b)
    with list_push_all_ok [of k vs] assms(3) obtain m where
      "list_push_all vs k = Done m" "track_wf m" "track_items m = track_items k @ vs" by auto
    with grown show ?thesis using wf
      by (auto simp: ensure_manager_capacity_def push_manager_def outcome_def writer_wf_def ok_def wabs_def
          add_managers_def slack_def)
  qed
qed

lemma track_refs_ok:
  assumes wf: "writer_wf w" and "room n (wabs w)" and "length vs \<le> n"
  shows "outcome w (bindR (ensure_chunk_ref_capacity n w) (\<lambda>_. push_chunk_ref vs))
    (\<lambda>_ v. wabs v = add_refs vs (wabs w) \<and> (\<forall>k. slack k w \<longrightarrow> slack k v))"
proof -
  have l: "track_wf (w_chunk_ref_list w)" "arena_sane (w_arena w)" "tl_count (w_chunk_ref_list w) + n \<le> 2 ^ 56"
    using assms by (simp_all add: room_def load_wabs writer_wf_def)
  then show ?thesis
  proof (cases rule: ensure_list_cases)
    case (refused b)
    then show ?thesis using wf
      by (auto simp: ensure_chunk_ref_capacity_def outcome_def writer_wf_def)
  next
    case (grown k b)
    with list_push_all_ok [of k vs] assms(3) obtain m where
      "list_push_all vs k = Done m" "track_wf m" "track_items m = track_items k @ vs" by auto
    with grown show ?thesis using wf
      by (auto simp: ensure_chunk_ref_capacity_def push_chunk_ref_def outcome_def writer_wf_def ok_def wabs_def
          add_refs_def slack_def)
  qed
qed

lemma set_option_wf [simp]: "writer_wf (set_option f w) = writer_wf w" "w_arena (set_option f w) = w_arena w"
    "slack n (set_option f w) = slack n w" "w_finalized (set_option f w) = w_finalized w"
    "w_data_size (set_option f w) = w_data_size w" "w_file_context (set_option f w) = w_file_context w"
    "wabs (set_option f w) = with_option (\<lambda>x. x OR f) (wabs w)"
  by (simp_all add: set_option_def writer_wf_def slack_def wabs_def with_option_def)

section \<open>Storing\<close>

lemma put_dwords_ok:
  assumes "writer_wf w" and "slack (length vs) w"
  shows "outcome w (put_dwords vs w) (\<lambda>_ v. wabs v = emit vs (wabs w)
    \<and> (\<forall>k. slack (length vs + k) w \<longrightarrow> slack k v))"
proof -
  have "sz_add (w_data_size w) (length vs) = w_data_size w + length vs"
    using assms by (intro sz_add_small) (auto simp: writer_wf_def data_wf_def slack_def)
  with assms show ?thesis
    by (auto simp: put_dwords_def outcome_def ok_def writer_wf_def data_wf_def slack_def wabs_def
        emit_def take_blit)
qed

lemma zero_dwords_ok:
  assumes "writer_wf w" and "slack n w"
  shows "outcome w (zero_dwords n w) (\<lambda>_ v. wabs v = wabs w \<and> slack n v
    \<and> take n (drop (w_data_size v) (w_data v)) = replicate n 0)"
  using assms by (auto simp: zero_dwords_def outcome_def ok_def writer_wf_def data_wf_def slack_def wabs_def
        mem_blit_def min_def)

text \<open>Bytes copied over zeroed words read back as the padded words of the byte string.\<close>

lemma blit_bytes_zeroed:
  assumes "take ((length bs + 3) div 4) (drop i xs) = replicate ((length bs + 3) div 4) 0"
  shows "blit_bytes xs i bs = mem_blit xs i (dwords_of_bytes bs)"
proof -
  let ?k = "(length bs + 3) div 4"
  have "dwords_of_bytes (bs @ drop (length bs) (bytes_of_dwords (replicate ?k 0))) = dwords_of_bytes bs"
  proof (induction bs rule: dwords_of_bytes.induct)
    case (5 a b c d bs)
    have "(length (a # b # c # d # bs) + 3) div 4 = Suc ((length bs + 3) div 4)" by simp
    with 5 show ?case by (simp del: length_Cons)
  qed (simp_all add: dword_bytes_def)
  with assms show ?thesis by (simp add: blit_bytes_def)
qed

lemma copy_bytes_ok:
  assumes "writer_wf w" and "slack n w" and "length bs = b" and "n = (b + 3) div 4"
    and "take n (drop (w_data_size w) (w_data w)) = replicate n 0"
  shows "outcome w (copy_bytes bs b n w) (\<lambda>_ v. wabs v = emit (dwords_of_bytes bs) (wabs w))"
proof -
  have add: "sz_add (w_data_size w) n = w_data_size w + n"
    using assms by (intro sz_add_small) (auto simp: writer_wf_def data_wf_def slack_def)
  have "b \<le> 4 * n" using assms(4) by linarith
  have "w_data_size w + n \<le> length (w_data w)"
    using assms by (auto simp: writer_wf_def data_wf_def slack_def)
  then have bound: "4 * w_data_size w + b \<le> 4 * length (w_data w)" using \<open>b \<le> 4 * n\<close> by linarith
  have len: "length (dwords_of_bytes bs) = n" using assms(3,4) by simp
  have blit: "blit_bytes (w_data w) (w_data_size w) bs = mem_blit (w_data w) (w_data_size w) (dwords_of_bytes bs)"
    using assms(3-5) by (intro blit_bytes_zeroed) simp
  show ?thesis
    using assms(1,2) bound \<open>w_data_size w + n \<le> length (w_data w)\<close> take_blit [of "w_data_size w" "w_data w" "dwords_of_bytes bs"]
    by (auto simp: copy_bytes_def outcome_def ok_def writer_wf_def data_wf_def slack_def wabs_def
        emit_def add assms(3)  blit len simp del: length_dwords_of_bytes)
qed

section \<open>The operations\<close>

named_theorems write_rules "what each write operation does to the abstract writer"

definition writes :: "chunk_writer \<Rightarrow> (chunk_writer \<Rightarrow> unit wres) \<Rightarrow> (awriter \<Rightarrow> awriter) \<Rightarrow> bool" where
  "writes w f spec \<longleftrightarrow> outcome w (f w) (\<lambda>_ v. wabs v = spec (wabs w))"

text \<open>The common shape: make room for the words, then store them.\<close>

lemma put_after_ensure:
  assumes "writer_wf w" and "room n (wabs w)" and "length vs = n"
  shows "outcome w (bindR (ensure_data_capacity n w) (\<lambda>_. put_dwords vs))
    (\<lambda>_ v. wabs v = emit vs (wabs w))"
  by (rule outcome_bind [OF ensure_data_ok [OF assms(1,2)]], rule outcome_mono [OF put_dwords_ok])
    (use assms(3) in auto)

lemma write_byte_ok [write_rules]:
  "writer_wf w \<Longrightarrow> \<not> w_finalized w \<Longrightarrow> room 1 (wabs w)
    \<Longrightarrow> writes w (nmo_chunk_writer_write_byte x) (emit [ucast x])"
  by (simp add: nmo_chunk_writer_write_byte_def writes_def put_after_ensure)

lemma write_word_ok [write_rules]:
  "writer_wf w \<Longrightarrow> \<not> w_finalized w \<Longrightarrow> room 1 (wabs w)
    \<Longrightarrow> writes w (nmo_chunk_writer_write_word x) (emit [ucast x])"
  by (simp add: nmo_chunk_writer_write_word_def writes_def put_after_ensure)

lemma write_dword_ok [write_rules]:
  "writer_wf w \<Longrightarrow> \<not> w_finalized w \<Longrightarrow> room 1 (wabs w)
    \<Longrightarrow> writes w (nmo_chunk_writer_write_dword x) (emit [x])"
  by (simp add: nmo_chunk_writer_write_dword_def writes_def put_after_ensure)

lemma write_int_ok [write_rules]:
  "writer_wf w \<Longrightarrow> \<not> w_finalized w \<Longrightarrow> room 1 (wabs w)
    \<Longrightarrow> writes w (nmo_chunk_writer_write_int x) (emit [x])"
  by (simp add: nmo_chunk_writer_write_int_def writes_def put_after_ensure)

lemma write_float_ok [write_rules]:
  "writer_wf w \<Longrightarrow> \<not> w_finalized w \<Longrightarrow> room 1 (wabs w)
    \<Longrightarrow> writes w (nmo_chunk_writer_write_float x) (emit [x])"
  by (simp add: nmo_chunk_writer_write_float_def writes_def put_after_ensure)

lemma write_guid_ok [write_rules]:
  "writer_wf w \<Longrightarrow> \<not> w_finalized w \<Longrightarrow> room 2 (wabs w)
    \<Longrightarrow> writes w (nmo_chunk_writer_write_guid g) (emit [d1 g, d2 g])"
  by (simp add: nmo_chunk_writer_write_guid_def writes_def put_after_ensure)

lemma write_vector2_ok [write_rules]:
  "writer_wf w \<Longrightarrow> \<not> w_finalized w \<Longrightarrow> room 2 (wabs w)
    \<Longrightarrow> writes w (nmo_chunk_writer_write_vector2 (Some x)) (emit [v2_x x, v2_y x])"
  by (simp add: nmo_chunk_writer_write_vector2_def writes_def put_after_ensure)

lemma write_vector_ok [write_rules]:
  "writer_wf w \<Longrightarrow> \<not> w_finalized w \<Longrightarrow> room 3 (wabs w)
    \<Longrightarrow> writes w (nmo_chunk_writer_write_vector (Some x)) (emit [v3_x x, v3_y x, v3_z x])"
  by (simp add: nmo_chunk_writer_write_vector_def writes_def put_after_ensure)

lemma write_vector4_ok [write_rules]:
  "writer_wf w \<Longrightarrow> \<not> w_finalized w \<Longrightarrow> room 4 (wabs w)
    \<Longrightarrow> writes w (nmo_chunk_writer_write_vector4 (Some x)) (emit (vector4_dwords x))"
  by (simp add: nmo_chunk_writer_write_vector4_def writes_def put_after_ensure matrix_dwords_def vector4_dwords_def)

lemma write_quaternion_ok [write_rules]:
  "writer_wf w \<Longrightarrow> \<not> w_finalized w \<Longrightarrow> room 4 (wabs w)
    \<Longrightarrow> writes w (nmo_chunk_writer_write_quaternion (Some x)) (emit [q_x x, q_y x, q_z x, q_w x])"
  by (simp add: nmo_chunk_writer_write_quaternion_def writes_def put_after_ensure)

lemma write_color_ok [write_rules]:
  "writer_wf w \<Longrightarrow> \<not> w_finalized w \<Longrightarrow> room 4 (wabs w)
    \<Longrightarrow> writes w (nmo_chunk_writer_write_color (Some x)) (emit [col_r x, col_g x, col_b x, col_a x])"
  by (simp add: nmo_chunk_writer_write_color_def writes_def put_after_ensure)

lemma write_matrix_ok [write_rules]:
  "writer_wf w \<Longrightarrow> \<not> w_finalized w \<Longrightarrow> room 16 (wabs w)
    \<Longrightarrow> writes w (nmo_chunk_writer_write_matrix (Some x)) (emit (matrix_dwords x))"
  by (simp add: nmo_chunk_writer_write_matrix_def writes_def put_after_ensure matrix_dwords_def vector4_dwords_def)

text \<open>Two operations in a row.\<close>

lemma finalized_wabs: "wabs v = A \<Longrightarrow> w_finalized v = aw_finalized A"
  by (metis wabs_simps(4))

lemma writes_seq:
  assumes "writes w f s"
    and "\<And>v. writer_wf v \<Longrightarrow> wabs v = s (wabs w) \<Longrightarrow> w_finalized v = aw_finalized (s (wabs w))
      \<Longrightarrow> writes v g t"
  shows "writes w (\<lambda>w. bindR (f w) (\<lambda>_. g)) (\<lambda>A. t (s A))"
  using assms(1) unfolding writes_def
proof (rule outcome_bind)
  fix v assume v: "writer_wf v" "wabs v = s (wabs w)"
  from assms(2) [OF v finalized_wabs [OF v(2)]]
  show "outcome v (g v) (\<lambda>_ u. wabs u = t (s (wabs w)))" by (simp add: writes_def v(2))
qed

lemma emit_emit [simp]: "emit ys (emit xs A) = emit (xs @ ys) A"
  by (simp add: emit_def)

lemma room_emit [simp]: "room n (emit xs A) \<longleftrightarrow> room (length xs + n) A"
  by (simp add: room_def ac_simps)

lemma write_dword_as_words_ok [write_rules]:
  assumes "writer_wf w" "\<not> w_finalized w" "room 2 (wabs w)"
  shows "writes w (nmo_chunk_writer_write_dword_as_words x)
    (emit [x AND 0xFFFF, drop_bit 16 x AND 0xFFFF])"
proof -
  have m: "(0xFFFF :: u32) = mask 16" by (simp add: mask_eq_exp_minus_1)
  have u: "(ucast (ucast (x AND 0xFFFF) :: u16) :: u32) = x AND 0xFFFF"
      "(ucast (ucast (drop_bit 16 x AND 0xFFFF) :: u16) :: u32) = drop_bit 16 x AND 0xFFFF"
    unfolding m by (auto intro!: bit_word_eqI simp: bit_simps)
  let ?lo = "ucast (x AND 0xFFFF) :: u16" and ?hi = "ucast (drop_bit 16 x AND 0xFFFF) :: u16"
  have "writes w (\<lambda>w. bindR (nmo_chunk_writer_write_word ?lo w) (\<lambda>_. nmo_chunk_writer_write_word ?hi))
      (\<lambda>A. emit [ucast ?hi] (emit [ucast ?lo] A))"
  proof (rule writes_seq [where s = "emit [ucast ?lo]" and t = "emit [ucast ?hi]"])
    show "writes w (nmo_chunk_writer_write_word ?lo) (emit [ucast ?lo])"
      using assms by (intro write_word_ok) (auto elim: room_mono)
    show "writes v (nmo_chunk_writer_write_word ?hi) (emit [ucast ?hi])"
      if "writer_wf v" "wabs v = emit [ucast ?lo] (wabs w)"
        "w_finalized v = aw_finalized (emit [ucast ?lo] (wabs w))" for v
      using assms that by (intro write_word_ok) (auto simp: numeral_2_eq_2)
  qed
  then show ?thesis
    using assms(2) unfolding u by (simp add: writes_def nmo_chunk_writer_write_dword_as_words_def)
qed

subsection \<open>Bytes and strings\<close>

text \<open>The padded store shared by the byte operations.\<close>

lemma bytes_after_ensure:
  assumes "writer_wf w" and "room n (wabs w)" and "length bs = b" and "n = (b + 3) div 4"
  shows "outcome w (bindR (ensure_data_capacity n w) (\<lambda>_ w. bindR (zero_dwords n w) (\<lambda>_. copy_bytes bs b n)))
    (\<lambda>_ v. wabs v = emit (dwords_of_bytes bs) (wabs w))"
  by (rule outcome_bind [OF ensure_data_ok [OF assms(1,2)]], elim conjE,
      rule outcome_bind [OF zero_dwords_ok], assumption, assumption, elim conjE,
      rule outcome_mono [OF copy_bytes_ok [OF _ _ assms(3,4)]]) auto

lemma copy_bytes_take: "b \<le> length bs \<Longrightarrow> copy_bytes bs b n = copy_bytes (take b bs) b n"
  by (simp add: copy_bytes_def fun_eq_iff)

text \<open>The bytes and sizes the alignment helper handles: below \<open>2 ^ 32 - 3\<close>.\<close>

definition byte_count_ok :: "nat \<Rightarrow> bool" where
  "byte_count_ok b \<longleftrightarrow> b + 3 < 2 ^ 32"

lemma align_byte_count: "byte_count_ok b \<Longrightarrow> nmo_align_dword b div 4 = (b + 3) div 4"
  unfolding byte_count_ok_def by (rule nmo_align_dword_small)

lemma write_bytes_ok [write_rules]:
  "writer_wf w \<Longrightarrow> \<not> w_finalized w \<Longrightarrow> b \<le> length bs \<Longrightarrow> byte_count_ok b
    \<Longrightarrow> room ((b + 3) div 4) (wabs w)
    \<Longrightarrow> writes w (nmo_chunk_writer_write_bytes (Some bs) b) (emit (dwords_of_bytes (take b bs)))"
  using bytes_after_ensure [of w "(b + 3) div 4" "take b bs" b] copy_bytes_take [of b bs]
  by (auto simp: nmo_chunk_writer_write_bytes_def writes_def align_byte_count Let_def emit_def)

lemma write_buffer_nosize_ok [write_rules]:
  "writer_wf w \<Longrightarrow> \<not> w_finalized w \<Longrightarrow> b \<le> length bs \<Longrightarrow> byte_count_ok b
    \<Longrightarrow> room ((b + 3) div 4) (wabs w)
    \<Longrightarrow> writes w (nmo_chunk_writer_write_buffer_nosize b (Some bs)) (emit (dwords_of_bytes (take b bs)))"
  using bytes_after_ensure [of w "(b + 3) div 4" "take b bs" b] copy_bytes_take [of b bs]
  by (auto simp: nmo_chunk_writer_write_buffer_nosize_def writes_def align_byte_count Let_def emit_def)

lemma write_buffer_lendian16_ok [write_rules]:
  "writer_wf w \<Longrightarrow> \<not> w_finalized w \<Longrightarrow> b \<le> length bs \<Longrightarrow> byte_count_ok b \<Longrightarrow> malloc_ok b
    \<Longrightarrow> room ((b + 3) div 4) (wabs w)
    \<Longrightarrow> writes w (nmo_chunk_writer_write_buffer_lendian16 malloc_ok b (Some bs))
          (emit (dwords_of_bytes (nmo_swap_16bit_words (take b bs) (b div 2))))"
  using bytes_after_ensure [of w "(b + 3) div 4" "nmo_swap_16bit_words (take b bs) (b div 2)" b]
  by (auto simp: nmo_chunk_writer_write_buffer_lendian16_def writes_def align_byte_count Let_def emit_def)

lemma write_string_ok [write_rules]:
  assumes "writer_wf w" "\<not> w_finalized w" "byte_count_ok (strlen bs)"
    "room ((strlen bs + 3) div 4 + 1) (wabs w)"
  shows "writes w (nmo_chunk_writer_write_string (Some bs))
    (emit (of_nat (strlen bs) # dwords_of_bytes (take (strlen bs) bs)))"
proof -
  have len: "strlen bs \<le> length bs" by (simp add: strlen_def length_takeWhile_le)
  have u: "unat (of_nat (strlen bs) :: u32) = strlen bs"
    using assms(3) by (simp add: byte_count_ok_def unat_of_nat)
  then have pos: "(0 :: u32) < of_nat (strlen bs) \<longleftrightarrow> 0 < strlen bs"
    by (metis unat_0 word_less_nat_alt)
  show ?thesis
  proof (cases "strlen bs = 0")
    case True
    with assms show ?thesis
      using write_dword_ok [of w 0] by (simp add: nmo_chunk_writer_write_string_def writes_def)
  next
    case False
    have "writes w (\<lambda>w. bindR (nmo_chunk_writer_write_dword (of_nat (strlen bs)) w)
        (\<lambda>_. nmo_chunk_writer_write_bytes (Some bs) (strlen bs)))
        (\<lambda>A. emit (dwords_of_bytes (take (strlen bs) bs)) (emit [of_nat (strlen bs)] A))"
      by (rule writes_seq [OF write_dword_ok write_bytes_ok])
        (use assms len in \<open>auto elim: room_mono\<close>)
    with False assms(2) pos u show ?thesis by (simp add: nmo_chunk_writer_write_string_def writes_def)
  qed
qed

lemma write_buffer_ok [write_rules]:
  assumes "writer_wf w" "\<not> w_finalized w" "b \<le> length bs" "byte_count_ok b"
    "room ((b + 3) div 4 + 1) (wabs w)"
  shows "writes w (nmo_chunk_writer_write_buffer (Some bs) b)
    (emit (of_nat b # dwords_of_bytes (take b bs)))"
proof -
  show ?thesis
  proof (cases "b = 0")
    case True
    with assms write_dword_ok [of w 0] show ?thesis
      by (simp add: nmo_chunk_writer_write_buffer_def writes_def)
  next
    case False
    have "writes w (\<lambda>w. bindR (nmo_chunk_writer_write_dword (of_nat b) w)
        (\<lambda>_. nmo_chunk_writer_write_bytes (Some bs) b))
        (\<lambda>A. emit (dwords_of_bytes (take b bs)) (emit [of_nat b] A))"
      by (rule writes_seq [OF write_dword_ok write_bytes_ok])
        (use assms in \<open>auto elim: room_mono\<close>)
    with False assms(2) show ?thesis by (simp add: nmo_chunk_writer_write_buffer_def writes_def)
  qed
qed

lemma emit_Nil [simp]: "emit [] A = A"
  by (simp add: emit_def)

lemma write_words_ok [write_rules]:
  "writer_wf w \<Longrightarrow> \<not> w_finalized w \<Longrightarrow> room (length vs) (wabs w)
    \<Longrightarrow> writes w (write_words vs) (emit (map ucast vs))"
proof (induction vs arbitrary: w)
  case Nil
  then show ?case by (simp add: writes_def emit_def)
next
  case (Cons v vs)
  have "writes w (\<lambda>w. bindR (nmo_chunk_writer_write_word v w) (\<lambda>_. write_words vs))
      (\<lambda>A. emit (map ucast vs) (emit [ucast v] A))"
    by (rule writes_seq [OF write_word_ok Cons.IH]) (use Cons.prems in \<open>auto elim: room_mono\<close>)
  then show ?case by (simp add: writes_def)
qed

lemma write_nosize_lendian16_ok [write_rules]:
  "writer_wf w \<Longrightarrow> \<not> w_finalized w \<Longrightarrow> room (length vs) (wabs w)
    \<Longrightarrow> writes w (nmo_chunk_writer_write_buffer_nosize_lendian16 (length vs) (Some vs))
          (emit (map ucast vs))"
  using write_words_ok [of w vs]
  by (simp add: writes_def nmo_chunk_writer_write_buffer_nosize_lendian16_def emit_def)

definition halves :: "u32 list \<Rightarrow> u32 list" where
  "halves vs = concat (map (\<lambda>v. [v AND 0xFFFF, drop_bit 16 v AND 0xFFFF]) vs)"

lemma length_halves [simp]: "length (halves vs) = 2 * length vs" and halves_Nil [simp]: "halves [] = []"
  by (induction vs) (auto simp: halves_def)

lemma write_array_dword_as_words_ok [write_rules]:
  assumes "writer_wf w" "\<not> w_finalized w" "room (2 * length vs) (wabs w)"
  shows "writes w (nmo_chunk_writer_write_array_dword_as_words (Some vs) (length vs)) (emit (halves vs))"
proof -
  have "2 * length vs \<le> 2 ^ 56" using assms(3) by (simp add: room_def)
  then have "sz_mul (length vs) 2 = 2 * length vs" "\<not> length vs > (2 ^ 64 - 1) div 2"
    by (auto simp: sz_mul_small)
  with put_after_ensure [of w "2 * length vs" "halves vs"] assms show ?thesis
    by (auto simp: writes_def nmo_chunk_writer_write_array_dword_as_words_def load_dwords_def
        halves_def [symmetric])
qed

subsection \<open>Object IDs, managers and sequences\<close>

definition id_position :: "awriter \<Rightarrow> u32" where
  "id_position A = of_nat (length (aw_words A))"

lemma id_position_wabs: "writer_wf w \<Longrightarrow> (of_nat (w_data_size w) :: u32) = id_position (wabs w)"
  by (simp add: id_position_def wabs_def writer_wf_def data_wf_def)

text \<open>Without file context an ID is stored as it is, and its position is tracked unless it is null.\<close>

definition spec_object_id :: "u32 \<Rightarrow> awriter \<Rightarrow> awriter" where
  "spec_object_id oid A =
     (let A = with_option (\<lambda>x. x OR NMO_CHUNK_OPTION_IDS) A
      in emit [oid] (if oid = 0 then A else add_ids [id_position A] A))"

definition plain :: "awriter \<Rightarrow> bool" where
  "plain A \<longleftrightarrow> Option.bind (aw_context A) runtime_to_file = None"

lemma plain_wabs: "writer_has_file_context w \<longleftrightarrow> \<not> plain (wabs w)"
  by (auto simp: writer_has_file_context_def plain_def split: option.splits)

lemma plain_updates [simp]:
  "plain (add_ids vs A) = plain A" "plain (add_managers vs A) = plain A" "plain (add_refs vs A) = plain A"
  "plain (emit vs A) = plain A" "plain (with_option f A) = plain A"
  by (simp_all add: plain_def)

lemma encode_plain: "plain (wabs w) \<Longrightarrow> encode_object_id w oid = Inr oid"
  by (auto simp: plain_def encode_object_id_def split: option.splits)

lemma ensure_id_keeps: "ensure_id_capacity n w = Done (x, v) \<Longrightarrow> w_data_size v = w_data_size w"
  and ensure_manager_keeps: "ensure_manager_capacity n w = Done (x, v) \<Longrightarrow> w_data_size v = w_data_size w"
  by (auto simp: ensure_id_capacity_def ensure_manager_capacity_def bindE_Done_iff)

lemma track_id_position_ok:
  assumes "writer_wf w" and "room 1 (wabs w)"
  shows "outcome w (track_id_position w)
    (\<lambda>_ v. wabs v = add_ids [id_position (wabs w)] (wabs w) \<and> (\<forall>k. slack k w \<longrightarrow> slack k v))"
proof -
  have "track_id_position w = bindR (ensure_id_capacity 1 w) (\<lambda>_. push_id [of_nat (w_data_size w)])"
    unfolding track_id_position_def by (rule bindR_cong) (auto simp: ensure_id_keeps)
  then show ?thesis using track_ids_ok [OF assms, of "[of_nat (w_data_size w)]"] assms
    by (simp add: id_position_wabs)
qed

lemma put_exact:
  "writer_wf w \<Longrightarrow> slack n w \<Longrightarrow> length vs = n \<Longrightarrow> B = emit vs (wabs w)
    \<Longrightarrow> outcome w (put_dwords vs w) (\<lambda>_ v. wabs v = B)"
  by (rule outcome_mono [OF put_dwords_ok]) auto

lemma write_object_id_ok [write_rules]:
  assumes "writer_wf w" "\<not> w_finalized w" "plain (wabs w)" "room 2 (wabs w)"
  shows "writes w (nmo_chunk_writer_write_object_id oid) (spec_object_id oid)"
proof -
  let ?A = "with_option (\<lambda>x. x OR NMO_CHUNK_OPTION_IDS) (wabs w)"
  let ?B = "if oid = 0 then ?A else add_ids [id_position ?A] ?A"
  have "outcome w (bindR (ensure_data_capacity 1 w) (\<lambda>_ w.
        let w = set_option NMO_CHUNK_OPTION_IDS w
        in bindR (if oid \<noteq> 0 \<and> \<not> writer_has_file_context w then track_id_position w else ok () w)
             (\<lambda>_ w. case encode_object_id w oid of
                Inl e \<Rightarrow> fail e w | Inr encoded_value \<Rightarrow> put_dwords [encoded_value] w)))
      (\<lambda>_ v. wabs v = spec_object_id oid (wabs w))"
  proof (rule outcome_bind [OF ensure_data_ok], rule assms(1), rule room_mono [OF assms(4)], simp, unfold Let_def,
      rule outcome_bind [where Q = "\<lambda>_ v. slack 1 v \<and> wabs v = ?B"])
    fix v assume v: "writer_wf v" "wabs v = wabs w \<and> slack 1 v"
    let ?v = "set_option NMO_CHUNK_OPTION_IDS v"
    have "outcome ?v (track_id_position ?v)
        (\<lambda>_ u. wabs u = add_ids [id_position ?A] ?A \<and> (\<forall>k. slack k ?v \<longrightarrow> slack k u))"
      using track_id_position_ok [of ?v] v assms(4) by (simp add: room_def)
    then have "outcome v (track_id_position ?v)
        (\<lambda>_ u. wabs u = add_ids [id_position ?A] ?A \<and> slack 1 u)"
      unfolding outcome_arena [where v = ?v and w = v, simplified]
      by (rule outcome_mono) (use v in auto)
    then show "outcome v (if oid \<noteq> 0 \<and> \<not> writer_has_file_context ?v then track_id_position ?v else ok () ?v)
        (\<lambda>_ u. slack 1 u \<and> wabs u = ?B)"
      using v assms(3) by (auto simp: plain_wabs elim: outcome_mono)
  next
    fix u assume "writer_wf u" "slack 1 u \<and> wabs u = ?B"
    then show "outcome u (case encode_object_id u oid of Inl e \<Rightarrow> fail e u | Inr x \<Rightarrow> put_dwords [x] u)
        (\<lambda>_ t. wabs t = spec_object_id oid (wabs w))"
      using assms(3) by (auto simp: encode_plain spec_object_id_def Let_def intro!: put_exact)
  qed
  then show ?thesis using assms(2) by (simp add: writes_def nmo_chunk_writer_write_object_id_def)
qed

text \<open>The shape of the sequence headers: set a flag, make room, track a position, store the words.\<close>

lemma ensure_track_put:
  assumes "writer_wf w" and "room n (wabs w)" and "length vs = n"
    and T: "\<And>v. writer_wf v \<Longrightarrow> wabs v = with_option (\<lambda>x. x OR opt) (wabs w) \<Longrightarrow>
      outcome v (T v) (\<lambda>_ u. wabs u = G (wabs v) \<and> (\<forall>k. slack k v \<longrightarrow> slack k u))"
    and B: "B = emit vs (G (with_option (\<lambda>x. x OR opt) (wabs w)))"
  shows "outcome w (bindR (ensure_data_capacity n (set_option opt w)) (\<lambda>_ w. bindR (T w) (\<lambda>_. put_dwords vs)))
    (\<lambda>_ v. wabs v = B)"
proof -
  let ?w = "set_option opt w"
  have "outcome ?w (bindR (ensure_data_capacity n ?w) (\<lambda>_ w. bindR (T w) (\<lambda>_. put_dwords vs)))
      (\<lambda>_ v. wabs v = B)"
  proof (rule outcome_bind [OF ensure_data_ok])
    fix v assume v: "writer_wf v" "wabs v = wabs ?w \<and> slack n v"
    show "outcome v (bindR (T v) (\<lambda>_. put_dwords vs)) (\<lambda>_ v. wabs v = B)"
      by (rule outcome_bind [OF T]) (use v B assms(3) in \<open>auto intro!: put_exact\<close>)
  qed (use assms(1,2) in \<open>simp_all add: room_def\<close>)
  then show ?thesis by (simp add: outcome_arena [of ?w w])
qed

definition spec_object_sequence :: "nat \<Rightarrow> awriter \<Rightarrow> awriter" where
  "spec_object_sequence n A =
     (let A = with_option (\<lambda>x. x OR NMO_CHUNK_OPTION_IDS) A
      in emit [of_nat n] (if n > 0 \<and> plain A then add_ids [LIST_SEQUENCE_MARKER, id_position A] A else A))"

lemma start_object_sequence_ok [write_rules]:
  assumes "writer_wf w" "\<not> w_finalized w" "room 2 (wabs w)"
  shows "writes w (nmo_chunk_writer_start_object_sequence n) (spec_object_sequence n)"
proof -
  have "outcome w (bindR (ensure_data_capacity 1 (set_option NMO_CHUNK_OPTION_IDS w)) (\<lambda>_ w.
        bindR (if n > 0 \<and> \<not> writer_has_file_context w
               then track_id_sequence_start (of_nat (w_data_size w)) w else ok () w)
          (\<lambda>_. put_dwords [of_nat n]))) (\<lambda>_ v. wabs v = spec_object_sequence n (wabs w))"
  proof (rule ensure_track_put [where
        G = "\<lambda>A. if n > 0 \<and> plain A then add_ids [LIST_SEQUENCE_MARKER, id_position A] A else A"])
    fix v assume v: "writer_wf v" "wabs v = with_option (\<lambda>x. x OR NMO_CHUNK_OPTION_IDS) (wabs w)"
    then have r: "room 2 (wabs v)" using assms(3) by (simp add: room_def)
    show "outcome v (if n > 0 \<and> \<not> writer_has_file_context v
        then track_id_sequence_start (of_nat (w_data_size v)) v else ok () v)
        (\<lambda>_ u. wabs u = (if n > 0 \<and> plain (wabs v)
                          then add_ids [LIST_SEQUENCE_MARKER, id_position (wabs v)] (wabs v) else wabs v)
          \<and> (\<forall>k. slack k v \<longrightarrow> slack k u))"
      using track_ids_ok [OF v(1) r, of "[LIST_SEQUENCE_MARKER, id_position (wabs v)]"] v(1)
      by (simp add: plain_wabs track_id_sequence_start_def id_position_wabs)
  qed (use assms in \<open>auto simp: spec_object_sequence_def Let_def elim: room_mono\<close>)
  then show ?thesis
    using assms(2) by (simp add: writes_def nmo_chunk_writer_start_object_sequence_def)
qed

definition spec_manager_sequence :: "nmo_guid \<Rightarrow> nat \<Rightarrow> awriter \<Rightarrow> awriter" where
  "spec_manager_sequence g n A =
     (let A = with_option (\<lambda>x. x OR NMO_CHUNK_OPTION_MAN) A
      in emit [of_nat n, d1 g, d2 g] (add_managers [LIST_SEQUENCE_MARKER, id_position A] A))"

lemma start_manager_sequence_ok [write_rules]:
  assumes "writer_wf w" "\<not> w_finalized w" "room 3 (wabs w)"
  shows "writes w (nmo_chunk_writer_start_manager_sequence g n) (spec_manager_sequence g n)"
proof -
  have "outcome w (bindR (ensure_data_capacity 3 (set_option NMO_CHUNK_OPTION_MAN w)) (\<lambda>_ w.
        bindR (track_manager_sequence_start (of_nat (w_data_size w)) w)
          (\<lambda>_. put_dwords [of_nat n, d1 g, d2 g]))) (\<lambda>_ v. wabs v = spec_manager_sequence g n (wabs w))"
  proof (rule ensure_track_put [where G = "\<lambda>A. add_managers [LIST_SEQUENCE_MARKER, id_position A] A"])
    fix v assume v: "writer_wf v" "wabs v = with_option (\<lambda>x. x OR NMO_CHUNK_OPTION_MAN) (wabs w)"
    then have r: "room 2 (wabs v)" using assms(3) by (simp add: room_def)
    show "outcome v (track_manager_sequence_start (of_nat (w_data_size v)) v)
        (\<lambda>_ u. wabs u = add_managers [LIST_SEQUENCE_MARKER, id_position (wabs v)] (wabs v)
          \<and> (\<forall>k. slack k v \<longrightarrow> slack k u))"
      using track_managers_ok [OF v(1) r, of "[LIST_SEQUENCE_MARKER, id_position (wabs v)]"] v(1)
      by (simp add: track_manager_sequence_start_def id_position_wabs)
  qed (use assms in \<open>auto simp: spec_manager_sequence_def Let_def\<close>)
  then show ?thesis
    using assms(2) by (simp add: writes_def nmo_chunk_writer_start_manager_sequence_def)
qed

definition spec_manager_int :: "nmo_guid \<Rightarrow> u32 \<Rightarrow> awriter \<Rightarrow> awriter" where
  "spec_manager_int g x A =
     (let A = with_option (\<lambda>x. x OR NMO_CHUNK_OPTION_MAN) A
      in emit [d1 g, d2 g, x] (add_managers [id_position A] A))"

lemma write_manager_int_ok [write_rules]:
  assumes "writer_wf w" "\<not> w_finalized w" "room 3 (wabs w)"
  shows "writes w (nmo_chunk_writer_write_manager_int g x) (spec_manager_int g x)"
proof -
  let ?T = "\<lambda>w. bindR (ensure_manager_capacity 1 w) (\<lambda>_. push_manager [of_nat (w_data_size w)])"
  have assoc: "bindR (ensure_manager_capacity 1 v) (\<lambda>_ w. bindR (push_manager [of_nat (w_data_size w)] w) f)
      = bindR (?T v) f" for v and f :: "unit \<Rightarrow> chunk_writer \<Rightarrow> unit wres"
    by (auto simp: bindR_def ensure_manager_keeps split: eff.splits prod.splits sum.splits)
  have "outcome w (bindR (ensure_data_capacity 3 (set_option NMO_CHUNK_OPTION_MAN w)) (\<lambda>_ w.
        bindR (?T w) (\<lambda>_. put_dwords [d1 g, d2 g, x]))) (\<lambda>_ v. wabs v = spec_manager_int g x (wabs w))"
  proof (rule ensure_track_put [where G = "\<lambda>A. add_managers [id_position A] A"])
    fix v assume v: "writer_wf v" "wabs v = with_option (\<lambda>x. x OR NMO_CHUNK_OPTION_MAN) (wabs w)"
    then have r: "room 1 (wabs v)" using assms(3) by (simp add: room_def)
    show "outcome v (?T v) (\<lambda>_ u. wabs u = add_managers [id_position (wabs v)] (wabs v)
          \<and> (\<forall>k. slack k v \<longrightarrow> slack k u))"
      using track_managers_ok [OF v(1) r, of "[id_position (wabs v)]"] v(1)
      by (simp add: id_position_wabs)
  qed (use assms in \<open>auto simp: spec_manager_int_def Let_def\<close>)
  then show ?thesis
    using assms(2) by (simp add: writes_def nmo_chunk_writer_write_manager_int_def assoc [simplified])
qed

text \<open>The position tracked for a sequence of sub-chunks is the one before the count.\<close>

definition spec_subchunk_sequence :: "nat \<Rightarrow> awriter \<Rightarrow> awriter" where
  "spec_subchunk_sequence n A =
     (let A = with_option (\<lambda>x. x OR NMO_CHUNK_OPTION_CHN) A
      in emit [of_nat n] (add_refs [LIST_SEQUENCE_MARKER, of_nat (length (aw_words A) - 1)] A))"

lemma data_size_wabs: "writer_wf w \<Longrightarrow> length (aw_words (wabs w)) = w_data_size w"
  by (simp add: wabs_def writer_wf_def data_wf_def)

lemma start_subchunk_sequence_ok [write_rules]:
  assumes "writer_wf w" "\<not> w_finalized w" "room 2 (wabs w)"
  shows "writes w (nmo_chunk_writer_start_subchunk_sequence n) (spec_subchunk_sequence n)"
proof -
  have "outcome w (bindR (ensure_data_capacity 1 (set_option NMO_CHUNK_OPTION_CHN w)) (\<lambda>_ w.
        bindR (let sequence_pos = (if w_data_size w = 0 then 0 else of_nat (w_data_size w - 1))
               in track_chunk_sequence_start sequence_pos w) (\<lambda>_. put_dwords [of_nat n])))
      (\<lambda>_ v. wabs v = spec_subchunk_sequence n (wabs w))"
  proof (rule ensure_track_put [where
        G = "\<lambda>A. add_refs [LIST_SEQUENCE_MARKER, of_nat (length (aw_words A) - 1)] A"])
    fix v assume v: "writer_wf v" "wabs v = with_option (\<lambda>x. x OR NMO_CHUNK_OPTION_CHN) (wabs w)"
    then have r: "room 2 (wabs v)" using assms(3) by (simp add: room_def)
    show "outcome v (let sequence_pos = (if w_data_size v = 0 then 0 else of_nat (w_data_size v - 1))
               in track_chunk_sequence_start sequence_pos v)
        (\<lambda>_ u. wabs u = add_refs [LIST_SEQUENCE_MARKER, of_nat (length (aw_words (wabs v)) - 1)] (wabs v)
          \<and> (\<forall>k. slack k v \<longrightarrow> slack k u))"
      using track_refs_ok [OF v(1) r, of "[LIST_SEQUENCE_MARKER, of_nat (w_data_size v - 1)]"] v(1)
      by (cases "w_data_size v = 0") (simp_all add: track_chunk_sequence_start_def data_size_wabs)
  qed (use assms in \<open>auto simp: spec_subchunk_sequence_def Let_def elim: room_mono\<close>)
  then show ?thesis
    using assms(2) by (simp add: writes_def nmo_chunk_writer_start_subchunk_sequence_def Let_def)
qed

subsection \<open>Sub-chunks\<close>

lemma push_subchunk_ok:
  assumes wf: "writer_wf w" and room: "room 1 (wabs w)"
  shows "outcome w (push_subchunk c w) (\<lambda>_ v. wabs v = (wabs w)\<lparr>aw_subs := aw_subs (wabs w) @ [c]\<rparr>
    \<and> (\<forall>k. slack k w \<longrightarrow> slack k v))"
proof -
  let ?n = "w_chunk_count w" and ?cap = "w_chunk_capacity w"
  have b: "?n < 2 ^ 56" using room by (simp add: room_def load_wabs [OF wf])
  have sw: "subs_wf (w_chunk_list w) ?n ?cap" using wf by (simp add: writer_wf_def)
  have add: "sz_add ?n (Suc 0) = Suc ?n" using b by (subst sz_add_small) auto
  show ?thesis
  proof (cases "?n \<ge> ?cap")
    case False
    with sw obtain cs where cs: "w_chunk_list w = Some cs" "length cs = ?cap" "None \<notin> set (take ?n cs)"
      by (auto simp: subs_wf_def split: option.splits)
    with False have "take (Suc ?n) (cs[?n := Some c]) = take ?n cs @ [Some c]"
      by (simp add: take_Suc_conv_app_nth)
    with False cs wf show ?thesis
      by (auto simp: push_subchunk_def Let_def outcome_def ok_def writer_wf_def subs_wf_def wabs_def
          sub_items_def slack_def add)
  next
    case True
    then have eq: "?n = ?cap" using sw by (simp add: subs_wf_def)
    define e where "e = (if ?cap = 0 then 16 else sz_mul ?cap 2)"
    have "e = (if ?cap = 0 then 16 else ?cap * 2)" using b eq by (auto simp: e_def intro!: sz_mul_small)
    then have le: "?n < e" "e \<le> 2 ^ 57" using eq b by auto
    then have m: "sz_mul e 8 = e * 8" by (intro sz_mul_small) simp
    have "arena_sane (w_arena w)" "e * 8 < 2 ^ 62" using wf le by (auto simp: writer_wf_def)
    from arena_alloc_sane [OF this, of 8] obtain q a where
      q: "nmo_arena_alloc (e * 8) 8 (w_arena w) = Done (q, a)" "arena_sane a"
        "arena_grants a = arena_grants (w_arena w)" "arena_grants (w_arena w) \<Longrightarrow> 0 < e * 8 \<Longrightarrow> q \<noteq> None"
      by auto
    show ?thesis
    proof (cases q)
      case None
      with q(4) le have "\<not> arena_grants (w_arena w)" by auto
      with None True q(1-3) wf show ?thesis
        unfolding push_subchunk_def e_def [symmetric] Let_def m q(1)
        by (simp add: outcome_def fail_def writer_wf_def)
    next
      case (Some r)
      then have rsz: "rg_size r = e * 8" using q(1) by (auto dest: arena_alloc_size)
      define old where "old = (case w_chunk_list w of None \<Rightarrow> [] | Some cs \<Rightarrow> take ?n cs)"
      let ?blank = "replicate e (None :: nmo_chunk option)"
      have old_ok: "length old = ?n" "None \<notin> set old" "map the old = sub_items (w_chunk_list w) ?n"
        using sw by (auto simp: old_def subs_wf_def sub_items_def split: option.splits)
      have stored: "(mem_blit ?blank 0 old)[?n := Some c] = old @ Some c # replicate (e - Suc ?n) None"
      proof -
        have "replicate (e - ?n) (None :: nmo_chunk option) = None # replicate (e - Suc ?n) None"
          using le(1) by (metis Suc_diff_Suc replicate_Suc)
        then show ?thesis using le(1) old_ok(1) by (simp only: mem_blit_def) (simp add: list_update_append)
      qed
      have "push_subchunk c w = ok () (w\<lparr>w_arena := a, w_chunk_capacity := e,
          w_chunk_list := Some (old @ Some c # replicate (e - Suc ?n) None), w_chunk_count := Suc ?n\<rparr>)"
        unfolding push_subchunk_def e_def [symmetric] Let_def m q(1)
        using True Some rsz le stored sw eq add
        by (cases "w_chunk_list w") (auto simp: old_def subs_wf_def mem_blit_def)
      then show ?thesis using wf q(2,3) le old_ok
        by (auto simp: outcome_def ok_def writer_wf_def subs_wf_def wabs_def slack_def sub_items_def [of "Some _"])
    qed
  qed
qed


text \<open>A sub-chunk is its size, its header and its four lists.\<close>

definition subchunk_lists :: "chunk_body \<Rightarrow> u32 list" where
  "subchunk_lists b = words (c_data b) (c_data_size b) @ words (c_ids b) (c_id_count b)
     @ words (c_chunk_refs b) (c_chunk_ref_count b)
     @ (if c_chunk_version b > 4 then words (c_managers b) (c_manager_count b) else [])"

definition subchunk_dwords :: "chunk_body \<Rightarrow> u32 list" where
  "subchunk_dwords b = of_nat (subchunk_payload_dwords b) # subchunk_header b @ subchunk_lists b"

definition spec_subchunk :: "nmo_chunk \<Rightarrow> awriter \<Rightarrow> awriter" where
  "spec_subchunk c A =
     (let A = with_option (\<lambda>x. x OR NMO_CHUNK_OPTION_CHN) A
      in emit (subchunk_dwords (c_body c)) (add_refs [id_position A] (A\<lparr>aw_subs := aw_subs A @ [c]\<rparr>)))"

text \<open>The counts fit the 32-bit fields of the header.\<close>

definition counts_fit :: "chunk_body \<Rightarrow> bool" where
  "counts_fit b \<longleftrightarrow> body_ok b \<and> c_data_size b + c_id_count b + c_chunk_ref_count b + c_manager_count b + 8 < 2 ^ 32"

lemma subchunk_payload_eq:
  "counts_fit b \<Longrightarrow> subchunk_payload_dwords b = length (subchunk_header b) + length (subchunk_lists b)"
  by (auto simp: counts_fit_def subchunk_payload_dwords_def subchunk_header_def subchunk_lists_def
      subchunk_manager_field_def body_ok_def sz_add_small unat_of_nat)

lemma length_subchunk_header: "length (subchunk_header b) = (if c_chunk_version b > 4 then 7 else 6)"
  by (simp add: subchunk_header_def)

text \<open>A store that uses up exactly the room of its words.\<close>

definition stores :: "u32 list \<Rightarrow> chunk_writer \<Rightarrow> (chunk_writer \<Rightarrow> unit wres) \<Rightarrow> bool" where
  "stores xs w f \<longleftrightarrow> outcome w (f w) (\<lambda>_ v. wabs v = emit xs (wabs w)
     \<and> (\<forall>k. slack (length xs + k) w \<longrightarrow> slack k v))"

lemma stores_put: "writer_wf w \<Longrightarrow> slack (length xs) w \<Longrightarrow> stores xs w (put_dwords xs)"
  by (simp add: stores_def put_dwords_ok)

lemma stores_seq:
  assumes "stores xs w f" and "slack (length xs + length ys) w"
    and "\<And>v. writer_wf v \<Longrightarrow> slack (length ys) v \<Longrightarrow> stores ys v g"
  shows "stores (xs @ ys) w (\<lambda>w. bindR (f w) (\<lambda>_. g))"
  using assms(1) unfolding stores_def
proof (rule outcome_bind)
  fix v assume v: "writer_wf v"
    "wabs v = emit xs (wabs w) \<and> (\<forall>k. slack (length xs + k) w \<longrightarrow> slack k v)"
  with assms(2) have "slack (length ys) v" by simp
  from assms(3) [OF v(1) this, unfolded stores_def] show
    "outcome v (g v) (\<lambda>_ u. wabs u = emit (xs @ ys) (wabs w)
      \<and> (\<forall>k. slack (length (xs @ ys) + k) w \<longrightarrow> slack k u))"
    by (rule outcome_mono) (use v in \<open>auto simp: add.assoc\<close>)
qed

lemma stores_block:
  assumes "writer_wf w" and "buffer_ok p n" and "slack n w"
  shows "stores (words p n) w (put_block p n)"
proof (cases "n > 0 \<and> p \<noteq> None")
  case True
  then obtain xs where xs: "p = Some xs" "n \<le> length xs" using assms(2) by (auto simp: buffer_ok_def)
  then have "length (take n xs) = n" by simp
  with stores_put [of w "take n xs"] assms True xs show ?thesis
    by (simp add: stores_def put_block_def load_dwords_def words_def)
next
  case False
  then have "n = 0" using assms(2) by (auto simp: buffer_ok_def split: option.splits)
  with assms show ?thesis by (auto simp: stores_def put_block_def words_def split: option.splits)
qed

lemma unat_manager_field:
  "counts_fit b \<Longrightarrow> unat (subchunk_manager_field b) = (if c_chunk_version b > 4 then c_manager_count b else 0)"
  by (auto simp: subchunk_manager_field_def counts_fit_def unat_of_nat)

lemma buffer_ok_0: "buffer_ok p n \<Longrightarrow> buffer_ok p 0"
  by (auto simp: buffer_ok_def split: option.splits)

text \<open>The five stores of a sub-chunk behind its size.\<close>

lemma subchunk_stores_ok:
  assumes wf: "writer_wf w" and fit: "counts_fit b" and room: "slack (subchunk_payload_dwords b) w"
  shows "stores (subchunk_header b @ subchunk_lists b) w (put_subchunk_body b)"
proof -
  let ?m = "unat (subchunk_manager_field b)"
  have ok: "buffer_ok (c_data b) (c_data_size b)" "buffer_ok (c_ids b) (c_id_count b)"
      "buffer_ok (c_chunk_refs b) (c_chunk_ref_count b)" "buffer_ok (c_managers b) ?m"
    using fit by (auto simp: counts_fit_def body_ok_def unat_manager_field [OF fit] intro: buffer_ok_0)
  have lists: "subchunk_lists b = words (c_data b) (c_data_size b) @ words (c_ids b) (c_id_count b)
      @ words (c_chunk_refs b) (c_chunk_ref_count b) @ words (c_managers b) ?m"
    by (auto simp: subchunk_lists_def unat_manager_field [OF fit] words_def split: option.splits)
  show ?thesis unfolding lists put_subchunk_body_def [abs_def]
    by (rule stores_seq [OF stores_put [OF wf]], use room ok in \<open>simp add: subchunk_payload_eq [OF fit] slack_def\<close>,
        use room ok in \<open>simp add: subchunk_payload_eq [OF fit] slack_def lists\<close>)
      ((rule stores_seq [OF stores_block] stores_block; simp add: ok slack_def)+)
qed

lemma write_subchunk_ok [write_rules]:
  assumes wf: "writer_wf w" "\<not> w_finalized w" and fit: "counts_fit (c_body c)"
    and room: "room (subchunk_payload_dwords (c_body c) + 3) (wabs w)"
  shows "writes w (nmo_chunk_writer_write_subchunk (Some c)) (spec_subchunk c)"
proof -
  let ?b = "c_body c" and ?w = "set_option NMO_CHUNK_OPTION_CHN w"
  let ?n = "subchunk_payload_dwords (c_body c)" and ?A = "with_option (\<lambda>x. x OR NMO_CHUNK_OPTION_CHN) (wabs w)"
  let ?B = "?A\<lparr>aw_subs := aw_subs ?A @ [c]\<rparr>"
  have n: "sz_add 1 ?n = 1 + ?n" using room by (intro sz_add_small) (simp add: room_def)
  have B: "load ?B = load (wabs w) + 1" "aw_words ?B = aw_words (wabs w)"
    by (simp_all add: load_def with_option_def)
  let ?goal = "\<lambda>_ v. wabs v = spec_subchunk c (wabs w)"
  have stored: "outcome t (bindR (track_chunk_position (of_nat (w_data_size t - 1)) t) (\<lambda>_. put_subchunk_body ?b)) ?goal"
    if t: "writer_wf t" "wabs t = emit [of_nat ?n] ?B" "slack ?n t" for t
  proof -
    have "w_data_size t = Suc (length (aw_words (wabs w)))" using data_size_wabs [OF t(1)] t(2) B by simp
    then have pos: "(of_nat (w_data_size t - 1) :: u32) = id_position ?A" by (simp add: id_position_def)
    have r: "room 1 (wabs t)" using room B t by (simp add: room_def)
    show ?thesis unfolding track_chunk_position_def pos
    proof (rule outcome_bind [OF track_refs_ok [OF t(1) r]])
      fix s assume s: "writer_wf s" "wabs s = add_refs [id_position ?A] (wabs t) \<and> (\<forall>k. slack k t \<longrightarrow> slack k s)"
      from subchunk_stores_ok [OF s(1) fit, unfolded stores_def] t(3) s(2)
      show "outcome s (put_subchunk_body ?b s) ?goal"
        by (auto elim!: outcome_mono simp: t(2) spec_subchunk_def subchunk_dwords_def Let_def emit_def
            add_refs_def with_option_def)
    qed simp
  qed
  have put: "outcome u (bindR (put_dwords [of_nat ?n] u) (\<lambda>_ w.
      bindR (track_chunk_position (of_nat (w_data_size w - 1)) w) (\<lambda>_. put_subchunk_body ?b))) ?goal"
    if u: "writer_wf u" "wabs u = ?B" "slack (1 + ?n) u" for u
    by (rule outcome_bind [OF put_dwords_ok], rule u(1), use u(3) in \<open>simp add: slack_def\<close>,
        rule stored) (use u in auto)
  have "outcome ?w (nmo_chunk_writer_write_subchunk (Some c) w) ?goal"
    unfolding nmo_chunk_writer_write_subchunk_def if_not_P [OF wf(2)] Let_def option.case n
  proof (rule outcome_bind [where Q = "\<lambda>_ v. wabs v = ?B"])
    show "outcome ?w (push_subchunk c ?w) (\<lambda>_ v. wabs v = ?B)"
      by (rule outcome_mono [OF push_subchunk_ok]) (use wf(1) room in \<open>auto simp: room_def\<close>)
    show "outcome v (bindR (ensure_data_capacity (1 + ?n) v) (\<lambda>_ w. bindR (put_dwords [of_nat ?n] w) (\<lambda>_ w.
        bindR (track_chunk_position (of_nat (w_data_size w - 1)) w) (\<lambda>_. put_subchunk_body ?b)))) ?goal"
      if "writer_wf v" "wabs v = ?B" for v
      by (rule outcome_bind [OF ensure_data_ok put]) (use that room B in \<open>auto simp: room_def\<close>)
  qed
  then show ?thesis by (simp add: writes_def outcome_arena [of ?w w])
qed

lemma write_null_subchunk_ok [write_rules]:
  assumes "writer_wf w" "\<not> w_finalized w" "room 1 (wabs w)"
  shows "writes w (nmo_chunk_writer_write_subchunk None)
    (\<lambda>A. emit [0] (with_option (\<lambda>x. x OR NMO_CHUNK_OPTION_CHN) A))"
  using put_after_ensure [of "set_option NMO_CHUNK_OPTION_CHN w" 1 "[0]"] assms
  by (simp add: writes_def nmo_chunk_writer_write_subchunk_def room_def
      outcome_arena [of "set_option NMO_CHUNK_OPTION_CHN w" w])

subsection \<open>Arrays\<close>

text \<open>
  Bytes copied into words that were not zeroed: the words hold the bytes, and the rest of the last
  word is whatever was there.
\<close>

definition holds_bytes :: "u8 list \<Rightarrow> u32 list \<Rightarrow> bool" where
  "holds_bytes bs ds \<longleftrightarrow> length ds = (length bs + 3) div 4 \<and> take (length bs) (bytes_of_dwords ds) = bs"

lemma holds_dwords_of_bytes [simp]: "holds_bytes bs (dwords_of_bytes bs)"
  by (simp add: holds_bytes_def)

lemma take_bytes_prefix: "take (length bs) (bytes_of_dwords (dwords_of_bytes (bs @ cs))) = bs"
proof -
  have "take (length bs) (take (length (bs @ cs)) (bytes_of_dwords (dwords_of_bytes (bs @ cs)))) = bs"
    by (simp only: take_bytes_of_dwords_of_bytes) simp
  then show ?thesis by (simp only: take_take) (simp add: min_def)
qed

lemma copy_bytes_loose:
  assumes "writer_wf w" and "slack n w" and "length bs = b" and "n = (b + 3) div 4"
  shows "outcome w (copy_bytes bs b n w) (\<lambda>_ v. \<exists>ds. wabs v = emit ds (wabs w) \<and> holds_bytes bs ds)"
proof -
  have add: "sz_add (w_data_size w) n = w_data_size w + n"
    using assms by (intro sz_add_small) (auto simp: writer_wf_def data_wf_def slack_def)
  have room: "w_data_size w + n \<le> length (w_data w)"
    using assms by (auto simp: writer_wf_def data_wf_def slack_def)
  have "b \<le> 4 * n" using assms(4) by linarith
  then have bound: "4 * w_data_size w + b \<le> 4 * length (w_data w)" using room by linarith
  define cs where "cs = drop (length bs) (bytes_of_dwords (take n (drop (w_data_size w) (w_data w))))"
  have cs: "length bs + length cs = 4 * n"
    using \<open>b \<le> 4 * n\<close> room assms(3) by (auto simp: cs_def min_def)
  let ?ds = "dwords_of_bytes (bs @ cs)"
  have len: "length ?ds = n" using cs by simp
  have holds: "holds_bytes bs ?ds"
    using take_bytes_prefix [of bs cs] len assms(3,4) by (simp add: holds_bytes_def)
  have blit: "blit_bytes (w_data w) (w_data_size w) bs = mem_blit (w_data w) (w_data_size w) ?ds"
    using assms(3,4) by (simp add: blit_bytes_def cs_def Let_def)
  have "take (w_data_size w + n) (mem_blit (w_data w) (w_data_size w) ?ds) = take (w_data_size w) (w_data w) @ ?ds"
    using take_blit [of "w_data_size w" "w_data w" ?ds] room len by simp
  then show ?thesis
    using assms(1,2) bound room len holds
    by (auto simp: copy_bytes_def outcome_def ok_def writer_wf_def data_wf_def slack_def wabs_def
        emit_def add assms(3) blit simp del: length_dwords_of_bytes intro!: exI [of _ ?ds])
qed

text \<open>The stores of an array behind its size and count.\<close>

lemma array_stores_ok:
  assumes "writer_wf w" and "room (2 + n) (wabs w)" and "length bs = b" and "n = (b + 3) div 4"
  shows "outcome w (bindR (ensure_data_capacity (2 + n) w) (\<lambda>_ w.
      bindR (put_dwords [x, y] w) (\<lambda>_. copy_bytes bs b n)))
    (\<lambda>_ v. \<exists>ds. wabs v = emit (x # y # ds) (wabs w) \<and> holds_bytes bs ds)"
proof (rule outcome_bind [OF ensure_data_ok [OF assms(1,2)]])
  fix v assume v: "writer_wf v" "wabs v = wabs w \<and> slack (2 + n) v"
  show "outcome v (bindR (put_dwords [x, y] v) (\<lambda>_. copy_bytes bs b n))
      (\<lambda>_ v. \<exists>ds. wabs v = emit (x # y # ds) (wabs w) \<and> holds_bytes bs ds)"
    by (rule outcome_bind [OF put_dwords_ok], rule v(1), use v in \<open>simp add: slack_def\<close>,
        rule outcome_mono [OF copy_bytes_loose [OF _ _ assms(3,4)]]) (use v in auto)
qed

text \<open>
  The arguments describe an array of \<open>count\<close> elements of \<open>size\<close> bytes each in \<open>bs\<close>, with the total
  below the limit of \<^verbatim>\<open>int\<close>.
\<close>

definition array_args :: "u32 \<Rightarrow> u32 \<Rightarrow> u8 list \<Rightarrow> bool" where
  "array_args count sz bs \<longleftrightarrow> 0 <s count \<and> 0 <s sz \<and> unat count * unat sz \<le> 2 ^ 31 - 1
     \<and> length bs = unat count * unat sz"

lemma sint_positive: "0 <s (x :: u32) \<Longrightarrow> sint x = int (unat x)"
proof -
  assume "0 <s x"
  then have "0 \<le> sint x" by (simp add: word_sless_alt)
  moreover have "sint x < 2 ^ 32" using sint_lt [of x] by simp
  ultimately have "take_bit 32 (sint x) = sint x" by (simp add: take_bit_int_eq_self)
  moreover have "uint x = take_bit 32 (sint x)" by (simp add: uint_sint)
  ultimately show ?thesis by simp
qed

lemma write_array_lendian_ok [write_rules]:
  assumes "writer_wf w" "\<not> w_finalized w" "array_args count sz bs"
    "room (2 + (length bs + 3) div 4) (wabs w)"
  shows "outcome w (nmo_chunk_writer_write_array_lendian count sz (Some bs) w)
    (\<lambda>_ v. \<exists>ds. wabs v = emit (of_nat (length bs) # count # ds) (wabs w) \<and> holds_bytes bs ds)"
proof -
  let ?n = "length bs"
  have p: "0 < sint count" "0 < sint sz" using assms(3) by (auto simp: array_args_def word_sless_alt)
  then have pos: "sint count = int (unat count)" "sint sz = int (unat sz)"
    using sint_positive [of count] sint_positive [of sz] p by (simp_all add: word_sless_alt)
  have sz0: "0 < unat sz" using p(2) by (cases "sz = 0") (auto simp: unat_gt_0)
  have n: "unat sz * unat count = ?n" "?n \<le> 2 ^ 31 - 1" using assms(3) by (auto simp: array_args_def mult.commute)
  have "unat count \<le> (2 ^ 31 - 1) div unat sz"
    using n sz0 by (simp add: less_eq_div_iff_mult_less_eq mult.commute)
  then have "int (unat count) \<le> int ((2 ^ 31 - 1) div unat sz)" by (simp only: of_nat_le_iff)
  also have "\<dots> = (2 ^ 31 - 1) div int (unat sz)" unfolding zdiv_int by simp
  finally have c: "\<not> sint count > (2 ^ 31 - 1) div sint sz" unfolding pos by simp
  have a: "sz_mul (unat sz) (unat count) = ?n" "sz_add ?n 3 = ?n + 3" "sz_add 2 ((?n + 3) div 4) = 2 + (?n + 3) div 4"
    using n by (auto simp: sz_mul_small sz_add_small)
  show ?thesis
    using array_stores_ok [OF assms(1,4), of bs "length bs" "of_nat ?n" count] assms(2) c n(2) p
    unfolding nmo_chunk_writer_write_array_lendian_def Let_def a option.case by simp
qed

lemma write_array_lendian16_ok [write_rules]:
  assumes "writer_wf w" "\<not> w_finalized w" "array_args count sz bs" "malloc_ok (length bs)"
    "room (2 + (length bs + 3) div 4) (wabs w)"
  shows "outcome w (nmo_chunk_writer_write_array_lendian16 malloc_ok count sz (Some bs) w)
    (\<lambda>_ v. \<exists>ds. wabs v = emit (of_nat (length bs) # count # ds) (wabs w)
      \<and> holds_bytes (nmo_swap_16bit_words bs (length bs div 2)) ds)"
proof -
  let ?n = "length bs"
  have p: "0 < sint count" "0 < sint sz" using assms(3) by (auto simp: array_args_def word_sless_alt)
  have n: "unat count * unat sz = ?n" "?n \<le> 2 ^ 31 - 1" using assms(3) by (auto simp: array_args_def)
  then have "?n + 3 < 2 ^ 32" by simp
  then have a: "sz_mul (unat count) (unat sz) = ?n" "nmo_align_dword ?n div 4 = (?n + 3) div 4"
      "sz_add 2 ((?n + 3) div 4) = 2 + (?n + 3) div 4"
    using n by (auto simp: sz_mul_small sz_add_small nmo_align_dword_small)
  show ?thesis
    using array_stores_ok [OF assms(1,5), of "nmo_swap_16bit_words bs (?n div 2)" ?n "of_nat ?n" count] assms(2,4) p
    unfolding nmo_chunk_writer_write_array_lendian16_def Let_def a option.case by simp
qed

subsection \<open>Identifiers and reserved room\<close>

definition spec_identifier :: "u32 \<Rightarrow> awriter \<Rightarrow> awriter" where
  "spec_identifier ident A =
     (let xs = aw_words A;
          xs = (if aw_prev A < length xs then xs[aw_prev A + 1 := of_nat (length xs)] else xs)
      in A\<lparr>aw_words := xs @ [ident, 0], aw_prev := length xs\<rparr>)"

lemma write_identifier_ok [write_rules]:
  assumes "writer_wf w" "\<not> w_finalized w" "room 2 (wabs w)"
  shows "writes w (nmo_chunk_writer_write_identifier ident) (spec_identifier ident)"
proof -
  have "outcome w (bindR (ensure_data_capacity 2 w) (\<lambda>_ w.
        let linked =
          (if w_prev_identifier_pos w < w_data_size w then
             if w_prev_identifier_pos w + 1 < length (w_data w)
             then ok () (w\<lparr>w_data := (w_data w)[w_prev_identifier_pos w + 1 := of_nat (w_data_size w)]\<rparr>)
             else Undefined
           else ok () w)
        in bindR linked (\<lambda>_ w.
             put_dwords [ident, 0] (w\<lparr>w_prev_identifier_pos := w_data_size w\<rparr>))))
      (\<lambda>_ v. wabs v = spec_identifier ident (wabs w))"
  proof (rule outcome_bind [OF ensure_data_ok [OF assms(1,3)]])
    fix v assume v: "writer_wf v" "wabs v = wabs w \<and> slack 2 v"
    define u where "u = v\<lparr>w_data := (if w_prev_identifier_pos v < w_data_size v
        then (w_data v)[w_prev_identifier_pos v + 1 := of_nat (w_data_size v)] else w_data v),
      w_prev_identifier_pos := w_data_size v\<rparr>"
    have u: "writer_wf u" "slack 2 u" "w_arena u = w_arena v"
      using v by (auto simp: u_def writer_wf_def data_wf_def slack_def)
    have spec: "spec_identifier ident (wabs v) = emit [ident, 0] (wabs u)"
      using v(1) by (auto simp: spec_identifier_def u_def wabs_def emit_def Let_def writer_wf_def data_wf_def
          take_update_swap)
    have eq: "(let linked =
          (if w_prev_identifier_pos v < w_data_size v then
             if w_prev_identifier_pos v + 1 < length (w_data v)
             then ok () (v\<lparr>w_data := (w_data v)[w_prev_identifier_pos v + 1 := of_nat (w_data_size v)]\<rparr>)
             else Undefined
           else ok () v)
        in bindR linked (\<lambda>_ w.
             put_dwords [ident, 0] (w\<lparr>w_prev_identifier_pos := w_data_size w\<rparr>))) = put_dwords [ident, 0] u"
      using v by (auto simp: u_def slack_def writer_wf_def data_wf_def)
    show "outcome v (let linked =
          (if w_prev_identifier_pos v < w_data_size v then
             if w_prev_identifier_pos v + 1 < length (w_data v)
             then ok () (v\<lparr>w_data := (w_data v)[w_prev_identifier_pos v + 1 := of_nat (w_data_size v)]\<rparr>)
             else Undefined
           else ok () v)
        in bindR linked (\<lambda>_ w.
             put_dwords [ident, 0] (w\<lparr>w_prev_identifier_pos := w_data_size w\<rparr>)))
        (\<lambda>_ v. wabs v = spec_identifier ident (wabs w))"
      unfolding eq using put_exact [OF u(1,2), of "[ident, 0]"] v(2)
      by (simp add: spec outcome_arena [OF u(3)] flip: spec)
  qed
  then show ?thesis using assms(2) by (simp add: writes_def nmo_chunk_writer_write_identifier_def)
qed

lemma lock_write_buffer_ok:
  assumes "writer_wf w" "\<not> w_finalized w" "room n (wabs w)"
  obtains (refused) v where "nmo_chunk_writer_lock_write_buffer n w = Done (None, v)" "writer_wf v"
      "\<not> arena_grants (w_arena w)"
  | (locked) v ds where "nmo_chunk_writer_lock_write_buffer n w = Done (Some (w_data_size w), v)"
      "writer_wf v" "wabs v = emit ds (wabs w)" "length ds = n"
proof -
  from ensure_data_ok [OF assms(1,3)] consider
      v where "ensure_data_capacity n w = Done (Inl NMO_ERR_NOMEM, v)" "writer_wf v" "\<not> arena_grants (w_arena w)"
    | v where "ensure_data_capacity n w = Done (Inr (), v)" "writer_wf v" "wabs v = wabs w" "slack n v"
    by (auto simp: outcome_def)
  then show ?thesis
  proof cases
    case 1
    then show ?thesis using assms(2) by (intro refused [of v]) (simp_all add: nmo_chunk_writer_lock_write_buffer_def)
  next
    case 2
    have sz: "w_data_size v = w_data_size w" using data_size_wabs 2 assms(1) by metis
    have add: "sz_add (w_data_size w) n = w_data_size w + n"
      unfolding sz [symmetric] using 2 by (intro sz_add_small) (auto simp: slack_def writer_wf_def data_wf_def)
    let ?u = "v\<lparr>w_data_size := w_data_size v + n\<rparr>"
    have "wabs ?u = emit (take n (drop (w_data_size v) (w_data v))) (wabs v)"
      by (simp add: wabs_def emit_def take_add)
    then show ?thesis using 2 assms(2) sz
      by (intro locked [of ?u "take n (drop (w_data_size v) (w_data v))"])
        (auto simp: nmo_chunk_writer_lock_write_buffer_def add sz writer_wf_def data_wf_def slack_def)
  qed
qed

section \<open>Lifecycle\<close>

definition empty_awriter :: "chunk_file_context option \<Rightarrow> nmo_chunk option \<Rightarrow> awriter" where
  "empty_awriter ctx c =
     \<lparr>aw_words = [], aw_ids = [], aw_managers = [], aw_refs = [], aw_subs = [], aw_chunk = c,
      aw_context = ctx, aw_prev = 0, aw_finalized = False\<rparr>"

lemma words_0 [simp]: "words p 0 = []" and sub_items_0 [simp]: "sub_items q 0 = []"
  by (simp_all add: words_def sub_items_def split: option.splits)

lemma load_empty [simp]: "load (empty_awriter ctx c) = 0"
  by (simp add: load_def empty_awriter_def)

lemma writer_create_ok:
  assumes "arena_sane a"
  obtains (refused) b where "nmo_chunk_writer_create a = Done (None, b)" "\<not> arena_grants a"
  | (created) w b where "nmo_chunk_writer_create a = Done (Some w, b)" "writer_wf w"
      "arena_grants (w_arena w) = arena_grants a" "wabs w = empty_awriter None None"
proof -
  from arena_alloc_sane [OF assms, of sizeof_writer 8] obtain q b where
    q: "nmo_arena_alloc sizeof_writer 8 a = Done (q, b)" "arena_sane b" "arena_grants b = arena_grants a"
      "arena_grants a \<Longrightarrow> q \<noteq> None" by (auto simp: sizeof_writer_def)
  from arena_alloc_sane [OF q(2), of "WRITER_INITIAL_CAPACITY * 4" 4] obtain r c where
    r: "nmo_arena_alloc (WRITER_INITIAL_CAPACITY * 4) 4 b = Done (r, c)" "arena_sane c"
      "arena_grants c = arena_grants b" "arena_grants b \<Longrightarrow> r \<noteq> None"
    by (auto simp: WRITER_INITIAL_CAPACITY_def)
  show ?thesis
  proof (cases q; cases r)
    fix x y assume "q = Some x" "r = Some y"
    then show ?thesis using q r
      by (intro created) (auto simp: nmo_chunk_writer_create_def writer_wf_def data_wf_def track_wf_def
          subs_wf_def empty_list_def wabs_def empty_awriter_def track_items_def words_def sub_items_def
          WRITER_INITIAL_CAPACITY_def)
  next
    fix x assume "q = Some x" "r = None"
    with q r show ?thesis by (intro refused [of c]) (auto simp: nmo_chunk_writer_create_def)
  qed (use q in \<open>auto intro!: refused [of b] simp: nmo_chunk_writer_create_def\<close>)
qed

text \<open>The chunk a started writer builds.\<close>

definition started_chunk :: "u32 \<Rightarrow> u32 \<Rightarrow> bool \<Rightarrow> nmo_chunk" where
  "started_chunk class_id version in_file =
     Chunk (empty_body\<lparr>c_class_id := class_id, c_chunk_version := version,
       c_chunk_class_id := ucast (class_id AND 0xFF),
       c_chunk_options := if in_file then NMO_CHUNK_OPTION_FILE else 0\<rparr>) None"

lemma writer_start_ok:
  assumes "writer_wf w" and "arena_grants (w_arena w)"
  obtains v where "nmo_chunk_writer_start class_id version w = Done v" "writer_wf v"
    "arena_grants (w_arena v)"
    "wabs v = empty_awriter (w_file_context w)
       (Some (started_chunk class_id version (\<not> plain (wabs w))))"
proof -
  have sane: "arena_sane (w_arena w)" using assms(1) by (simp add: writer_wf_def)
  from arena_alloc_sane [OF sane, of sizeof_chunk 8] obtain q b where
    q: "nmo_arena_alloc sizeof_chunk 8 (w_arena w) = Done (q, b)" "arena_sane b"
      "arena_grants b = arena_grants (w_arena w)" "arena_grants (w_arena w) \<Longrightarrow> q \<noteq> None"
    by (auto simp: sizeof_chunk_def)
  with assms(2) obtain r where
    r: "nmo_arena_alloc sizeof_chunk 8 (w_arena w) = Done (Some r, b)" "arena_sane b" "arena_grants b" by auto
  let ?in = "writer_has_file_context w"
  let ?v = "w\<lparr>w_arena := b, w_chunk := Some (started_chunk class_id version ?in), w_data_size := 0,
    w_id_list := (w_id_list w)\<lparr>tl_count := 0\<rparr>, w_manager_list := (w_manager_list w)\<lparr>tl_count := 0\<rparr>,
    w_chunk_ref_list := (w_chunk_ref_list w)\<lparr>tl_count := 0\<rparr>, w_chunk_count := 0,
    w_prev_identifier_pos := 0, w_finalized := False\<rparr>"
  have keep: "writer_has_file_context (w\<lparr>w_arena := b, w_chunk := x\<rparr>) = ?in" for x
    by (simp add: writer_has_file_context_def)
  have "nmo_chunk_writer_start class_id version w = Done ?v"
    by (cases ?in) (simp_all add: nmo_chunk_writer_start_def nmo_chunk_create_def r(1) Let_def keep
      set_option_def clear_option_def map_options_def started_chunk_def empty_body_def)
  moreover have "writer_wf ?v" using assms(1) r(2)
    by (auto simp: writer_wf_def data_wf_def track_wf_def subs_wf_def split: option.splits)
  moreover have "wabs ?v = empty_awriter (w_file_context w) (Some (started_chunk class_id version ?in))"
    by (simp add: wabs_def empty_awriter_def track_items_def)
  ultimately show ?thesis using r(3) by (intro that [of ?v]) (simp_all add: plain_wabs)
qed

text \<open>The chunk that \<^verbatim>\<open>finalize\<close> hands out for a started writer.\<close>

definition started :: "awriter \<Rightarrow> bool" where
  "started A \<longleftrightarrow> \<not> aw_finalized A \<and> (\<exists>class_id version byte options.
     aw_chunk A = Some (Chunk (empty_body\<lparr>c_class_id := class_id, c_chunk_version := version,
       c_chunk_class_id := byte, c_chunk_options := options\<rparr>) None))"

lemma started_empty [simp]: "started (empty_awriter ctx (Some (started_chunk class_id version in_file)))"
  by (auto simp: started_def empty_awriter_def started_chunk_def)

lemma started_updates [simp]:
  "started (add_ids vs A) = started A" "started (add_managers vs A) = started A"
  "started (add_refs vs A) = started A" "started (emit vs A) = started A"
  by (simp_all add: started_def aw_update_defs)

lemma started_with_option [simp]: "started A \<Longrightarrow> started (with_option f A)"
  by (auto simp: started_def with_option_def map_options_def) (intro exI, rule refl)

definition finalized_as :: "awriter \<Rightarrow> nmo_chunk \<Rightarrow> bool" where
  "finalized_as A c \<longleftrightarrow> (let b = c_body c; b0 = c_body (the (aw_chunk A)) in
     body_ok b \<and> words (c_data b) (c_data_size b) = aw_words A
     \<and> words (c_ids b) (c_id_count b) = aw_ids A \<and> words (c_managers b) (c_manager_count b) = aw_managers A
     \<and> words (c_chunk_refs b) (c_chunk_ref_count b) = aw_refs A
     \<and> sub_items (c_chunks c) (c_chunk_count b) = aw_subs A \<and> c_chunk_count b = length (aw_subs A)
     \<and> c_class_id b = c_class_id b0 \<and> c_chunk_version b = c_chunk_version b0
     \<and> c_chunk_class_id b = c_chunk_class_id b0 \<and> c_chunk_options b = c_chunk_options b0)"

lemma track_buffer_ok: "track_wf l \<Longrightarrow> buffer_ok (tl_items l) (tl_count l)"
  by (auto simp: track_wf_def buffer_ok_def split: option.splits)

lemma track_items_0: "tl_count l = 0 \<Longrightarrow> track_items l = []"
  by (simp add: track_items_def words_def split: option.splits)

lemma finalize_ids_fields [simp]:
  "c_data (finalize_ids l b) = c_data b" "c_data_size (finalize_ids l b) = c_data_size b"
  "c_managers (finalize_ids l b) = c_managers b" "c_manager_count (finalize_ids l b) = c_manager_count b"
  "c_chunk_refs (finalize_ids l b) = c_chunk_refs b" "c_chunk_ref_count (finalize_ids l b) = c_chunk_ref_count b"
  "c_chunk_count (finalize_ids l b) = c_chunk_count b" "c_class_id (finalize_ids l b) = c_class_id b"
  "c_chunk_version (finalize_ids l b) = c_chunk_version b"
  "c_chunk_class_id (finalize_ids l b) = c_chunk_class_id b"
  "c_chunk_options (finalize_ids l b) = c_chunk_options b"
  by (simp_all add: finalize_ids_def)

lemma finalize_managers_fields [simp]:
  "c_data (finalize_managers l b) = c_data b" "c_data_size (finalize_managers l b) = c_data_size b"
  "c_ids (finalize_managers l b) = c_ids b" "c_id_count (finalize_managers l b) = c_id_count b"
  "c_chunk_refs (finalize_managers l b) = c_chunk_refs b"
  "c_chunk_ref_count (finalize_managers l b) = c_chunk_ref_count b"
  "c_chunk_count (finalize_managers l b) = c_chunk_count b" "c_class_id (finalize_managers l b) = c_class_id b"
  "c_chunk_version (finalize_managers l b) = c_chunk_version b"
  "c_chunk_class_id (finalize_managers l b) = c_chunk_class_id b"
  "c_chunk_options (finalize_managers l b) = c_chunk_options b"
  by (simp_all add: finalize_managers_def)

lemma finalize_refs_fields [simp]:
  "c_data (finalize_refs l b) = c_data b" "c_data_size (finalize_refs l b) = c_data_size b"
  "c_ids (finalize_refs l b) = c_ids b" "c_id_count (finalize_refs l b) = c_id_count b"
  "c_managers (finalize_refs l b) = c_managers b" "c_manager_count (finalize_refs l b) = c_manager_count b"
  "c_chunk_count (finalize_refs l b) = c_chunk_count b" "c_class_id (finalize_refs l b) = c_class_id b"
  "c_chunk_version (finalize_refs l b) = c_chunk_version b"
  "c_chunk_class_id (finalize_refs l b) = c_chunk_class_id b"
  "c_chunk_options (finalize_refs l b) = c_chunk_options b"
  by (simp_all add: finalize_refs_def)

text \<open>On a chunk without lists, the tracked lists are the lists of the result.\<close>

lemma finalize_lists [simp]:
  "c_id_count b = 0 \<Longrightarrow> words (c_ids (finalize_ids l b)) (c_id_count (finalize_ids l b)) = track_items l"
  "c_manager_count b = 0 \<Longrightarrow>
     words (c_managers (finalize_managers l b)) (c_manager_count (finalize_managers l b)) = track_items l"
  "c_chunk_ref_count b = 0 \<Longrightarrow>
     words (c_chunk_refs (finalize_refs l b)) (c_chunk_ref_count (finalize_refs l b)) = track_items l"
  by (auto simp: finalize_ids_def finalize_managers_def finalize_refs_def track_items_def words_def
      split: option.splits)

lemma finalize_buffers [simp]:
  "track_wf l \<Longrightarrow> c_id_count b = 0 \<Longrightarrow> buffer_ok (c_ids (finalize_ids l b)) (c_id_count (finalize_ids l b))"
  "track_wf l \<Longrightarrow> c_manager_count b = 0
    \<Longrightarrow> buffer_ok (c_managers (finalize_managers l b)) (c_manager_count (finalize_managers l b))"
  "track_wf l \<Longrightarrow> c_chunk_ref_count b = 0
    \<Longrightarrow> buffer_ok (c_chunk_refs (finalize_refs l b)) (c_chunk_ref_count (finalize_refs l b))"
  using track_buffer_ok [of l]
  by (auto simp: finalize_ids_def finalize_managers_def finalize_refs_def buffer_ok_def split: option.splits)

lemma writer_finalize_ok:
  assumes "writer_wf w" and "started (wabs w)"
  obtains c v where "nmo_chunk_writer_finalize w = (Some c, v)" "finalized_as (wabs w) c"
proof -
  from assms(2) obtain class_id version byte opts where
    c: "w_chunk w = Some (Chunk (empty_body\<lparr>c_class_id := class_id, c_chunk_version := version,
       c_chunk_class_id := byte, c_chunk_options := opts\<rparr>) None)" "\<not> w_finalized w"
    by (auto simp: started_def)
  note wf = assms(1) [unfolded writer_wf_def data_wf_def]
  obtain d v where d: "nmo_chunk_writer_finalize w = (Some d, v)"
    using c by (simp add: nmo_chunk_writer_finalize_def Let_def)
  have "finalized_as (wabs w) d"
    using d wf c by (cases "w_chunk_count w = 0")
      (auto simp: nmo_chunk_writer_finalize_def Let_def empty_body_def finalized_as_def wabs_def
        body_ok_def buffer_ok_def [of "Some _"] words_def [of "Some _"])
  with d show ?thesis by (rule that)
qed

end
