(* ===== verification/ParserSpec.thy ===== *)
theory ParserSpec
  imports ChunkParser WriterSpec
begin

text \<open>
  What the parser promises: on a chunk whose buffer holds the words its size announces, every read
  that finds its words in the unread rest returns the value they encode and moves past them
  (\<open>parses\<close>), and no read leaves the buffer, whatever the words are (\<open>safe\<close>).
\<close>

section \<open>Well-formed parsers\<close>

definition parser_wf :: "chunk_parser \<Rightarrow> bool" where
  "parser_wf p \<longleftrightarrow> buffer_ok (c_data (p_chunk p)) (c_data_size (p_chunk p))
     \<and> p_cursor p \<le> c_data_size (p_chunk p) + 1"

definition rest :: "chunk_parser \<Rightarrow> u32 list" where
  "rest p = drop (p_cursor p) (words (c_data (p_chunk p)) (c_data_size (p_chunk p)))"

definition parser_ready :: "chunk_parser \<Rightarrow> bool" where
  "parser_ready p \<longleftrightarrow> parser_wf p \<and> p_cursor p \<le> c_data_size (p_chunk p) \<and> p_file_context p = None"

lemma length_rest: "parser_wf p \<Longrightarrow> length (rest p) = c_data_size (p_chunk p) - p_cursor p"
  by (simp add: rest_def parser_wf_def)

lemma check_bounds_iff:
  "parser_wf p \<Longrightarrow> n < 2 ^ 62 \<Longrightarrow> check_bounds p n \<longleftrightarrow> p_cursor p + n \<le> c_data_size (p_chunk p)"
  by (auto simp: check_bounds_def parser_wf_def buffer_ok_def sz_add_small)

lemma cursor_add:
  "parser_wf p \<Longrightarrow> p_cursor p + n \<le> c_data_size (p_chunk p) \<Longrightarrow> sz_add (p_cursor p) n = p_cursor p + n"
  by (auto simp: parser_wf_def buffer_ok_def sz_add_small)

lemma data_present:
  assumes "parser_wf p" and "p_cursor p + n \<le> c_data_size (p_chunk p)" and "0 < n"
  obtains xs where "c_data (p_chunk p) = Some xs" "c_data_size (p_chunk p) \<le> length xs"
    "rest p = drop (p_cursor p) (take (c_data_size (p_chunk p)) xs)"
  using assms by (auto simp: parser_wf_def buffer_ok_def rest_def words_def split: option.splits)

lemma load_dwords_rest:
  assumes "parser_wf p" and "p_cursor p + n \<le> c_data_size (p_chunk p)" and "0 < n"
  shows "load_dwords (c_data (p_chunk p)) (p_cursor p) n = Done (take n (rest p))"
proof -
  obtain xs where xs: "c_data (p_chunk p) = Some xs" "c_data_size (p_chunk p) \<le> length xs"
    "rest p = drop (p_cursor p) (take (c_data_size (p_chunk p)) xs)"
    using data_present [OF assms] .
  then show ?thesis using assms(2) by (simp add: load_dwords_def take_drop min_def)
qed

lemma load_dword_rest:
  assumes "parser_wf p" and "p_cursor p + 1 \<le> c_data_size (p_chunk p)"
  shows "load_dword (c_data (p_chunk p)) (p_cursor p) = Done (hd (rest p))"
proof -
  obtain xs where xs: "c_data (p_chunk p) = Some xs" "c_data_size (p_chunk p) \<le> length xs"
    "rest p = drop (p_cursor p) (take (c_data_size (p_chunk p)) xs)"
    using data_present [OF assms] by auto
  then show ?thesis using assms(2) by (simp add: load_dword_def hd_drop_conv_nth)
qed

lemma load_bytes_rest:
  assumes "parser_wf p" and "p_cursor p + n \<le> c_data_size (p_chunk p)" and "b \<le> 4 * n" and "0 < n"
  shows "load_bytes (c_data (p_chunk p)) (p_cursor p) b = Done (take b (bytes_of_dwords (take n (rest p))))"
proof -
  obtain xs where xs: "c_data (p_chunk p) = Some xs" "c_data_size (p_chunk p) \<le> length xs"
    "rest p = drop (p_cursor p) (take (c_data_size (p_chunk p)) xs)"
    using data_present [OF assms(1,2,4)] .
  have "take n (rest p) = take n (drop (p_cursor p) xs)"
    using xs assms(2) by (simp add: take_drop min_def)
  moreover have "take b (bytes_of_dwords (take n ys)) = take b (bytes_of_dwords ys)" for ys
    unfolding take_bytes_of_dwords [symmetric] using assms(3) by (simp add: min_def)
  ultimately show ?thesis using xs assms by (auto simp: load_bytes_def)
qed

lemma advance_ready:
  assumes "parser_wf p" and "p_cursor p + n \<le> c_data_size (p_chunk p)"
  shows "parser_wf (advance n p)" "rest (advance n p) = drop n (rest p)"
    "p_chunk (advance n p) = p_chunk p" "p_file_context (advance n p) = p_file_context p"
    "p_cursor (advance n p) = p_cursor p + n"
  using assms cursor_add [OF assms] by (auto simp: advance_def parser_wf_def rest_def add.commute)

section \<open>Successful reads\<close>

definition parses :: "(chunk_parser \<Rightarrow> 'a pres) \<Rightarrow> u32 list \<Rightarrow> 'a \<Rightarrow> bool" where
  "parses f ds v \<longleftrightarrow> (\<forall>p r. parser_ready p \<longrightarrow> rest p = ds @ r \<longrightarrow>
     (\<exists>q. f p = Done (Inr v, q) \<and> parser_ready q \<and> rest q = r))"

lemma parses_bind:
  "parses f ds v \<Longrightarrow> parses (g v) es u \<Longrightarrow> parses (\<lambda>p. bindR (f p) g) (ds @ es) u"
  unfolding parses_def by fastforce

lemma parses_bind_ok: "parses f ds v \<Longrightarrow> u = h v \<Longrightarrow> parses (\<lambda>p. bindR (f p) (\<lambda>x. ok (h x))) ds u"
  unfolding parses_def by (fastforce simp: ok_def)

lemma parses_ok [simp]: "parses (ok v) [] v"
  by (simp add: parses_def ok_def)

lemma ready_bounds:
  assumes "parser_ready p" and "rest p = ds @ r"
  shows "parser_wf p" "p_cursor p + length ds \<le> c_data_size (p_chunk p)"
proof -
  show wf: "parser_wf p" using assms(1) by (simp add: parser_ready_def)
  from assms(2) have "length ds \<le> length (rest p)" by simp
  then show "p_cursor p + length ds \<le> c_data_size (p_chunk p)"
    using assms(1) by (auto simp: length_rest [OF wf] parser_ready_def)
qed

lemma ready_small: "parser_wf p \<Longrightarrow> p_cursor p + n \<le> c_data_size (p_chunk p) \<Longrightarrow> n < 2 ^ 62"
  by (auto simp: parser_wf_def buffer_ok_def)

text \<open>A guarded read of \<open>n\<close> words.\<close>

lemma parses_dwords:
  assumes "length ds = n" and "0 < n"
  shows "parses (\<lambda>p. if \<not> check_bounds p n then fail NMO_ERR_EOF p else take_dwords n p) ds ds"
  unfolding parses_def
proof (intro allI impI)
  fix p r assume p: "parser_ready p" "rest p = ds @ r"
  note b = ready_bounds [OF p, unfolded assms(1)]
  show "\<exists>q. (if \<not> check_bounds p n then fail NMO_ERR_EOF p else take_dwords n p) = Done (Inr ds, q)
      \<and> parser_ready q \<and> rest q = r"
    using b p assms load_dwords_rest [OF b assms(2)] advance_ready [OF b]
    by (auto simp: check_bounds_iff [OF b(1) ready_small [OF b]] take_dwords_def ok_def parser_ready_def)
qed

lemma take_dword_dwords: "take_dword p = bindR (take_dwords 1 p) (\<lambda>ds. ok (hd ds))"
  by (auto simp: take_dword_def take_dwords_def load_dword_def load_dwords_def ok_def take_Suc_conv_app_nth
      hd_drop_conv_nth take_Suc split: option.splits)

lemma guarded_bind: "(if \<not> check_bounds p n then fail e p else bindR (f p) g)
    = bindR (if \<not> check_bounds p n then fail e p else f p) g"
  by simp

named_theorems read_rules "the value each read returns"

lemma parses_dword: "parses (\<lambda>p. if \<not> check_bounds p 1 then fail NMO_ERR_EOF p else take_dword p) [d] d"
  using parses_bind_ok [OF parses_dwords [of "[d]" 1], of d hd]
  unfolding take_dword_dwords guarded_bind by simp

lemma read_dword_ok [read_rules]: "parses nmo_chunk_parser_read_dword [d] d"
  and read_int_ok [read_rules]: "parses nmo_chunk_parser_read_int [d] d"
  and read_float_ok [read_rules]: "parses nmo_chunk_parser_read_float [d] d"
  using parses_dword [of d]
  by (simp_all add: nmo_chunk_parser_read_dword_def [abs_def] nmo_chunk_parser_read_int_def [abs_def]
      nmo_chunk_parser_read_float_def [abs_def])

lemma read_byte_ok [read_rules]: "parses nmo_chunk_parser_read_byte [ucast b] b"
proof -
  have m: "(0xFF :: u32) = mask 8" by (simp add: mask_eq_exp_minus_1)
  have "ucast ((ucast b :: u32) AND 0xFF) = b"
    unfolding m by (auto intro!: bit_word_eqI simp: bit_simps)
  then show ?thesis using parses_bind_ok [OF parses_dword [of "ucast b"], of b "\<lambda>d. ucast (d AND 0xFF)"]
    by (simp add: nmo_chunk_parser_read_byte_def [abs_def] guarded_bind)
qed

lemma read_word_ok [read_rules]: "parses nmo_chunk_parser_read_word [ucast b] b"
proof -
  have m: "(0xFFFF :: u32) = mask 16" by (simp add: mask_eq_exp_minus_1)
  have "ucast ((ucast b :: u32) AND 0xFFFF) = b"
    unfolding m by (auto intro!: bit_word_eqI simp: bit_simps)
  then show ?thesis using parses_bind_ok [OF parses_dword [of "ucast b"], of b "\<lambda>d. ucast (d AND 0xFFFF)"]
    by (simp add: nmo_chunk_parser_read_word_def [abs_def] guarded_bind)
qed

lemma read_dword_as_words_ok [read_rules]:
  "parses nmo_chunk_parser_read_dword_as_words [d AND 0xFFFF, drop_bit 16 d AND 0xFFFF] d"
proof -
  let ?lo = "ucast d :: u16" and ?hi = "ucast (drop_bit 16 d) :: u16"
  have m: "(0xFFFF :: u32) = mask 16" by (simp add: mask_eq_exp_minus_1)
  have w: "d AND 0xFFFF = ucast ?lo" "drop_bit 16 d AND 0xFFFF = ucast ?hi"
    unfolding m by (auto intro!: bit_word_eqI simp: bit_simps)
  have j: "push_bit 16 (ucast ?hi) OR ucast ?lo = d"
    by (rule bit_word_eqI) (auto simp: bit_simps)
  have "parses (\<lambda>p. bindR (nmo_chunk_parser_read_word p) (\<lambda>low p.
      bindR (nmo_chunk_parser_read_word p) (\<lambda>high. ok (push_bit 16 (ucast high) OR ucast low))))
      ([ucast ?lo] @ [ucast ?hi]) d"
    by (rule parses_bind [OF read_word_ok], rule parses_bind_ok [OF read_word_ok]) (simp add: j)
  then show ?thesis by (simp add: nmo_chunk_parser_read_dword_as_words_def [abs_def] w)
qed

lemma read_dword_array_as_words_ok [read_rules]:
  "parses (nmo_chunk_parser_read_dword_array_as_words (length vs))
     (concat (map (\<lambda>v. [v AND 0xFFFF, drop_bit 16 v AND 0xFFFF]) vs)) vs"
proof (induction vs)
  case (Cons v vs)
  have "parses (\<lambda>p. bindR (nmo_chunk_parser_read_dword_as_words p) (\<lambda>v p.
      bindR (nmo_chunk_parser_read_dword_array_as_words (length vs) p) (\<lambda>vs. ok (v # vs))))
      ([v AND 0xFFFF, drop_bit 16 v AND 0xFFFF]
        @ concat (map (\<lambda>v. [v AND 0xFFFF, drop_bit 16 v AND 0xFFFF]) vs)) (v # vs)"
    by (rule parses_bind [OF read_dword_as_words_ok], rule parses_bind_ok [OF Cons.IH]) simp
  then show ?case by simp
qed simp

lemma read_guid_ok [read_rules]: "parses nmo_chunk_parser_read_guid [d1 g, d2 g] g"
  using parses_bind_ok [OF parses_dwords [of "[d1 g, d2 g]" 2], of g "\<lambda>ds. \<lparr>d1 = ds ! 0, d2 = ds ! 1\<rparr>"]
  by (simp add: nmo_chunk_parser_read_guid_def [abs_def] guarded_bind)

lemma read_vector2_ok [read_rules]: "parses nmo_chunk_parser_read_vector2 [v2_x v, v2_y v] v"
  using parses_bind_ok [OF parses_dwords [of "[v2_x v, v2_y v]" 2], of v "\<lambda>d. \<lparr>v2_x = d ! 0, v2_y = d ! 1\<rparr>"]
  by (simp add: nmo_chunk_parser_read_vector2_def [abs_def] guarded_bind)

lemma read_vector_ok [read_rules]: "parses nmo_chunk_parser_read_vector [v3_x v, v3_y v, v3_z v] v"
  using parses_bind_ok [OF parses_dwords [of "[v3_x v, v3_y v, v3_z v]" 3], of v "\<lambda>d. \<lparr>v3_x = d ! 0, v3_y = d ! 1, v3_z = d ! 2\<rparr>"]
  by (simp add: nmo_chunk_parser_read_vector_def [abs_def] guarded_bind)

lemma dwords_vector4_dwords: "dwords_vector4 (vector4_dwords v @ ds) = v"
  by (simp add: dwords_vector4_def vector4_dwords_def)

lemma length_vector4_dwords [simp]: "length (vector4_dwords v) = 4"
  by (simp add: vector4_dwords_def)

lemma read_vector4_ok [read_rules]: "parses nmo_chunk_parser_read_vector4 (vector4_dwords v) v"
  using parses_bind_ok [OF parses_dwords [of "vector4_dwords v" 4], of v dwords_vector4]
    dwords_vector4_dwords [of v "[]"]
  by (simp add: nmo_chunk_parser_read_vector4_def [abs_def] guarded_bind)

lemma read_matrix_ok [read_rules]: "parses nmo_chunk_parser_read_matrix (matrix_dwords m) m"
proof -
  have len: "length (matrix_dwords m) = 16" by (simp add: matrix_dwords_def)
  show ?thesis
    using parses_bind_ok [OF parses_dwords [OF len], of m "\<lambda>d. \<lparr>m_row0 = dwords_vector4 d,
        m_row1 = dwords_vector4 (drop 4 d), m_row2 = dwords_vector4 (drop 8 d), m_row3 = dwords_vector4 (drop 12 d)\<rparr>"]
      dwords_vector4_dwords [of "m_row3 m" "[]"]
    by (simp add: nmo_chunk_parser_read_matrix_def [abs_def] guarded_bind matrix_dwords_def dwords_vector4_dwords)
qed

lemma read_quaternion_ok [read_rules]: "parses nmo_chunk_parser_read_quaternion [q_x v, q_y v, q_z v, q_w v] v"
  using parses_bind_ok [OF parses_dwords [of "[q_x v, q_y v, q_z v, q_w v]" 4], of v "\<lambda>d. \<lparr>q_x = d ! 0, q_y = d ! 1, q_z = d ! 2, q_w = d ! 3\<rparr>"]
  by (simp add: nmo_chunk_parser_read_quaternion_def [abs_def] guarded_bind)

lemma read_color_ok [read_rules]: "parses nmo_chunk_parser_read_color [col_r v, col_g v, col_b v, col_a v] v"
  using parses_bind_ok [OF parses_dwords [of "[col_r v, col_g v, col_b v, col_a v]" 4], of v "\<lambda>d. \<lparr>col_r = d ! 0, col_g = d ! 1, col_b = d ! 2, col_a = d ! 3\<rparr>"]
  by (simp add: nmo_chunk_parser_read_color_def [abs_def] guarded_bind)

section \<open>Bytes, strings and arrays\<close>

lemma guarded_bytes:
  assumes "holds_bytes bs ds" and "0 < length bs"
  shows "parses (\<lambda>p. if \<not> check_bounds p ((length bs + 3) div 4) then fail NMO_ERR_EOF p
           else bindE (load_bytes (c_data (p_chunk p)) (p_cursor p) (length bs)) (\<lambda>bs'.
             ok (h bs') (advance ((length bs + 3) div 4) p))) ds (h bs)"
  unfolding parses_def
proof (intro allI impI)
  fix p r assume p: "parser_ready p" "rest p = ds @ r"
  let ?n = "(length bs + 3) div 4"
  have len: "length ds = ?n" "0 < ?n" "length bs \<le> 4 * ?n"
    using assms by (auto simp: holds_bytes_def div_greater_zero_iff Suc_le_eq)
  note b = ready_bounds [OF p, unfolded len(1)]
  show "\<exists>q. (if \<not> check_bounds p ?n then fail NMO_ERR_EOF p
         else bindE (load_bytes (c_data (p_chunk p)) (p_cursor p) (length bs)) (\<lambda>bs'.
           ok (h bs') (advance ?n p))) = Done (Inr (h bs), q) \<and> parser_ready q \<and> rest q = r"
    using b p len assms(1) load_bytes_rest [OF b len(3,2)] advance_ready [OF b]
    by (auto simp: check_bounds_iff [OF b(1) ready_small [OF b]] ok_def parser_ready_def holds_bytes_def)
qed

lemma read_bytes_ok [read_rules]:
  assumes "holds_bytes bs ds" and "byte_count_ok (length bs)"
  shows "parses (nmo_chunk_parser_read_bytes (length bs)) ds bs"
proof (cases "bs = []")
  case True
  then show ?thesis using assms by (simp add: nmo_chunk_parser_read_bytes_def [abs_def] holds_bytes_def)
next
  case False
  with guarded_bytes [OF assms(1), of "\<lambda>x. x"] align_byte_count [OF assms(2)] show ?thesis
    by (simp add: nmo_chunk_parser_read_bytes_def [abs_def] Let_def)
qed

lemma read_buffer_nosize_ok [read_rules]:
  assumes "holds_bytes bs ds" and "byte_count_ok (length bs)"
  shows "parses (nmo_chunk_parser_read_buffer_nosize (length bs)) ds bs"
proof (cases "bs = []")
  case True
  then show ?thesis using assms by (simp add: nmo_chunk_parser_read_buffer_nosize_def [abs_def] holds_bytes_def)
next
  case False
  have "sz_add (length bs) 3 = length bs + 3" using assms(2) by (intro sz_add_small) (simp add: byte_count_ok_def)
  with False guarded_bytes [OF assms(1), of "\<lambda>x. x"] show ?thesis
    by (simp add: nmo_chunk_parser_read_buffer_nosize_def [abs_def] Let_def)
qed

lemma read_buffer_lendian16_ok [read_rules]:
  assumes "holds_bytes (nmo_swap_16bit_words bs (length bs div 2)) ds" and "byte_count_ok (length bs)"
  shows "parses (nmo_chunk_parser_read_buffer_lendian16 (length bs)) ds bs"
proof (cases "bs = []")
  case True
  then show ?thesis using assms by (simp add: nmo_chunk_parser_read_buffer_lendian16_def [abs_def] holds_bytes_def)
next
  case False
  with guarded_bytes [OF assms(1), of "\<lambda>x. nmo_swap_16bit_words x (length bs div 2)",
      unfolded length_nmo_swap_16bit_words nmo_swap_16bit_words_involution]
    align_byte_count [OF assms(2)] show ?thesis
    by (simp add: nmo_chunk_parser_read_buffer_lendian16_def [abs_def] Let_def)
qed

lemma read_nosize_lendian16_ok [read_rules]:
  "parses (nmo_chunk_parser_read_buffer_nosize_lendian16 (length vs)) (map ucast vs) vs"
proof (induction vs)
  case (Cons v vs)
  have "parses (\<lambda>p. bindR (nmo_chunk_parser_read_word p) (\<lambda>v p.
      bindR (nmo_chunk_parser_read_buffer_nosize_lendian16 (length vs) p) (\<lambda>vs. ok (v # vs))))
      ([ucast v] @ map ucast vs) (v # vs)"
    by (rule parses_bind [OF read_word_ok], rule parses_bind_ok [OF Cons.IH]) simp
  then show ?case by simp
qed simp

text \<open>Reads that allocate, in an arena that never refuses.\<close>

definition parses_in :: "(chunk_parser \<times> arena \<Rightarrow> 'a pares) \<Rightarrow> u32 list \<Rightarrow> 'a \<Rightarrow> bool" where
  "parses_in f ds v \<longleftrightarrow> (\<forall>p a r. parser_ready p \<longrightarrow> arena_sane a \<longrightarrow> arena_grants a \<longrightarrow> rest p = ds @ r \<longrightarrow>
     (\<exists>q b. f (p, a) = Done (Inr v, q, b) \<and> parser_ready q \<and> rest q = r \<and> arena_sane b \<and> arena_grants b))"

lemma parses_in_bind:
  "parses_in f ds v \<Longrightarrow> parses_in (g v) es u \<Longrightarrow> parses_in (\<lambda>s. bindR (f s) g) (ds @ es) u"
  unfolding parses_in_def by fastforce

lemma parses_in_bind_ok: "parses_in f ds v \<Longrightarrow> u = h v \<Longrightarrow> parses_in (\<lambda>s. bindR (f s) (\<lambda>x. ok (h x))) ds u"
  unfolding parses_in_def by (fastforce simp: ok_def)

lemma parses_in_ok [simp]: "parses_in (ok v) [] v"
  by (simp add: parses_in_def ok_def)

lemma parses_in_with_arena [simp]: "parses f ds v \<Longrightarrow> parses_in (with_arena f) ds v"
  unfolding parses_def parses_in_def with_arena_def by fastforce

lemma arena_get_ok: "0 < n \<Longrightarrow> n < 2 ^ 62 \<Longrightarrow> al \<in> {1, 4, 8, 16} \<Longrightarrow> parses_in (arena_get n al) [] ()"
  unfolding parses_in_def
proof (intro allI impI)
  fix p a r
  assume h: "0 < n" "n < 2 ^ 62" "al \<in> {1, 4, 8, 16}" and a: "arena_sane a" "arena_grants a"
    and p: "parser_ready p" "rest p = [] @ r"
  from arena_alloc_sane [OF a(1) h(2,3)] obtain q b where
    "nmo_arena_alloc n al a = Done (q, b)" "arena_sane b" "arena_grants b = arena_grants a"
    "arena_grants a \<Longrightarrow> 0 < n \<Longrightarrow> q \<noteq> None" by blast
  with a h p show "\<exists>q b. arena_get n al (p, a) = Done (Inr (), q, b) \<and> parser_ready q \<and> rest q = r
      \<and> arena_sane b \<and> arena_grants b"
    by (auto simp: arena_get_def)
qed

lemma unat_of_nat_small: "n < 2 ^ 32 \<Longrightarrow> unat (of_nat n :: u32) = n"
  by (simp add: unat_of_nat)

lemma read_string_ok [read_rules]:
  assumes "holds_bytes bs ds" and "byte_count_ok (length bs)"
  shows "parses_in nmo_chunk_parser_read_string (of_nat (length bs) # ds) bs"
proof -
  let ?l = "of_nat (length bs) :: u32"
  have n: "length bs + 1 < 2 ^ 32" using assms(2) by (simp add: byte_count_ok_def)
  then have l: "unat ?l = length bs" "unat (?l + 1) = length bs + 1"
    using unat_of_nat_small [of "length bs"] unat_of_nat_small [of "length bs + 1"]
    by (simp_all add: add.commute)
  have pos: "?l > 0 \<longleftrightarrow> 0 < length bs" using l(1) by (metis unat_0 word_less_nat_alt)
  have tail: "parses_in (\<lambda>s. if ?l > 0 then with_arena (nmo_chunk_parser_read_bytes (unat ?l)) s else ok [] s) ds bs"
    using read_bytes_ok [OF assms] assms(1) by (cases "bs = []") (auto simp: pos l holds_bytes_def)
  have "parses_in nmo_chunk_parser_read_string ([?l] @ [] @ ds) bs"
    unfolding nmo_chunk_parser_read_string_def [abs_def]
    by (rule parses_in_bind [OF parses_in_with_arena [OF read_dword_ok]], rule parses_in_bind, rule arena_get_ok)
      (use n tail in \<open>simp_all add: l(2)\<close>)
  then show ?thesis by simp
qed

lemma read_buffer_ok [read_rules]:
  assumes "holds_bytes bs ds" and "byte_count_ok (length bs)"
  shows "parses_in nmo_chunk_parser_read_buffer (of_nat (length bs) # ds)
    (length bs, if bs = [] then None else Some bs)"
proof -
  let ?l = "of_nat (length bs) :: u32"
  have n: "length bs < 2 ^ 32" using assms(2) by (simp add: byte_count_ok_def)
  then have l: "unat ?l = length bs" by (rule unat_of_nat_small)
  then have z: "?l = 0 \<longleftrightarrow> bs = []" by (metis length_0_conv unat_eq_zero)
  have tail: "parses_in (\<lambda>s. if ?l = 0 then ok (0, None) s
       else bindR (arena_get (unat ?l) 4 s) (\<lambda>_ s.
         bindR (with_arena (nmo_chunk_parser_read_bytes (unat ?l)) s) (\<lambda>bs.
           ok (unat ?l, Some bs)))) ds (length bs, if bs = [] then None else Some bs)"
  proof (cases "bs = []")
    case True
    then show ?thesis using assms(1) by (simp add: holds_bytes_def)
  next
    case False
    have "parses_in (\<lambda>s. bindR (arena_get (length bs) 4 s) (\<lambda>_ s.
         bindR (with_arena (nmo_chunk_parser_read_bytes (length bs)) s) (\<lambda>bs'.
           ok (length bs, Some bs')))) ([] @ ds) (length bs, Some bs)"
    proof (rule parses_in_bind)
      show "parses_in (arena_get (length bs) 4) [] ()" by (rule arena_get_ok) (use n False in auto)
      show "parses_in (\<lambda>s. bindR (with_arena (nmo_chunk_parser_read_bytes (length bs)) s)
          (\<lambda>bs'. ok (length bs, Some bs'))) ds (length bs, Some bs)"
        by (rule parses_in_bind_ok [OF parses_in_with_arena [OF read_bytes_ok [OF assms]]]) simp
    qed
    with False show ?thesis by (simp add: z l)
  qed
  have "parses_in nmo_chunk_parser_read_buffer ([?l] @ ds) (length bs, if bs = [] then None else Some bs)"
    unfolding nmo_chunk_parser_read_buffer_def [abs_def]
    by (rule parses_in_bind [OF parses_in_with_arena [OF read_dword_ok]], rule tail)
  then show ?thesis by simp
qed

lemma array_args_bounds:
  assumes "array_args count sz bs"
  shows "byte_count_ok (length bs)" "unat (of_nat (length bs) :: u32) = length bs" "0 < length bs"
    "sint (of_nat (length bs) :: u32) = int (length bs)" "0 < sint count"
proof -
  from assms have b: "length bs \<le> 2 ^ 31 - 1" "0 < sint count" "0 < sint sz" "length bs = unat count * unat sz"
    by (auto simp: array_args_def word_sless_alt)
  then have "0 < unat count" "0 < unat sz"
    by (cases "count = 0"; cases "sz = 0"; auto simp: unat_gt_0)+
  with b(4) show pos: "0 < length bs" by (metis nat_0_less_mult_iff)
  show "byte_count_ok (length bs)" using b by (simp add: byte_count_ok_def)
  show u: "unat (of_nat (length bs) :: u32) = length bs" using b by (intro unat_of_nat_small) simp
  show "0 < sint count" by (rule b(2))
  have "sint (of_nat (length bs) :: u32) = int (length bs)"
    unfolding signed_of_nat using b(1) by (simp add: signed_take_bit_int_eq_self)
  then show "sint (of_nat (length bs) :: u32) = int (length bs)" .
qed

text \<open>The facts about a block of bytes at the cursor.\<close>

lemma bytes_at_cursor:
  assumes "parser_ready p" and "rest p = ds @ r" and "holds_bytes bs ds" and "0 < length bs"
  shows "check_bounds p ((length bs + 3) div 4)"
    "load_bytes (c_data (p_chunk p)) (p_cursor p) (length bs) = Done bs"
    "parser_ready (advance ((length bs + 3) div 4) p)" "rest (advance ((length bs + 3) div 4) p) = r"
proof -
  let ?n = "(length bs + 3) div 4"
  have len: "length ds = ?n" "0 < ?n" "length bs \<le> 4 * ?n"
    using assms(3,4) by (auto simp: holds_bytes_def div_greater_zero_iff Suc_le_eq)
  note b = ready_bounds [OF assms(1,2), unfolded len(1)]
  show "check_bounds p ?n" using b by (simp add: check_bounds_iff [OF b(1) ready_small [OF b]])
  show "load_bytes (c_data (p_chunk p)) (p_cursor p) (length bs) = Done bs"
    using load_bytes_rest [OF b len(3,2)] assms(2,3) len(1) by (simp add: holds_bytes_def)
  show "parser_ready (advance ?n p)" "rest (advance ?n p) = r"
    using advance_ready [OF b] b assms(1,2) len(1) by (auto simp: parser_ready_def)
qed

lemma read_array_lendian_ok [read_rules]:
  assumes args: "array_args count sz bs" "length bs + 3 \<le> 2 ^ 31 - 1" and holds: "holds_bytes bs ds"
    and p: "parser_ready p" "rest p = of_nat (length bs) # count # ds @ r"
    and a: "arena_sane a" "arena_grants a"
  shows "\<exists>q b. nmo_chunk_parser_read_array_lendian (p, a) = Done ((count, Some bs), q, b)
    \<and> parser_ready q \<and> rest q = r \<and> arena_sane b \<and> arena_grants b"
proof -
  let ?l = "of_nat (length bs) :: u32"
  note n = array_args_bounds [OF args(1)]
  have p2: "rest p = [?l, count] @ ds @ r" using p(2) by simp
  note h = ready_bounds [OF p(1) p2, simplified]
  have c2: "check_bounds p 2" using h by (simp add: check_bounds_iff)
  have l2: "load_dwords (c_data (p_chunk p)) (p_cursor p) 2 = Done [?l, count]"
    using load_dwords_rest [of p 2] h p2 by simp
  have q: "parser_ready (advance 2 p)" "rest (advance 2 p) = ds @ r"
    using advance_ready [of p 2] h p2 p(1) by (auto simp: parser_ready_def)
  note at = bytes_at_cursor [OF q holds n(3)]
  have le: "length bs < 2 ^ 62" using n(1) by (auto simp: byte_count_ok_def)
  obtain rg b where g: "nmo_arena_alloc (length bs) 1 a = Done (Some rg, b)" "arena_sane b" "arena_grants b"
    using arena_grant_region [OF a n(3) le, of 1] by auto
  show ?thesis
    using c2 l2 at g n args(2) by (simp add: nmo_chunk_parser_read_array_lendian_def Let_def)
qed

lemma read_array_lendian16_ok [read_rules]:
  assumes args: "array_args count sz bs"
    and holds: "holds_bytes (nmo_swap_16bit_words bs (length bs div 2)) ds"
    and p: "parser_ready p" "rest p = of_nat (length bs) # count # ds @ r"
    and a: "arena_sane a" "arena_grants a"
  shows "\<exists>q b. nmo_chunk_parser_read_array_lendian16 (p, a) = Done ((count, Some (Some bs)), q, b)
    \<and> parser_ready q \<and> rest q = r \<and> arena_sane b \<and> arena_grants b"
proof -
  let ?l = "of_nat (length bs) :: u32"
  note n = array_args_bounds [OF args]
  have r1: "parses_in (with_arena nmo_chunk_parser_read_dword) [d] d" for d
    by (rule parses_in_with_arena [OF read_dword_ok])
  from r1 [of ?l, unfolded parses_in_def, rule_format, OF p(1) a, of "count # ds @ r"] p(2)
  obtain p1 a1 where s1: "with_arena nmo_chunk_parser_read_dword (p, a) = Done (Inr ?l, p1, a1)"
    "parser_ready p1" "rest p1 = count # ds @ r" "arena_sane a1" "arena_grants a1" by auto
  from r1 [of count, unfolded parses_in_def, rule_format, OF s1(2,4,5), of "ds @ r"] s1(3)
  obtain p2 a2 where s2: "with_arena nmo_chunk_parser_read_dword (p1, a1) = Done (Inr count, p2, a2)"
    "parser_ready p2" "rest p2 = ds @ r" "arena_sane a2" "arena_grants a2" by auto
  have nz: "?l \<noteq> 0" "count \<noteq> 0" using n(2,3,5) by auto
  note at = bytes_at_cursor [OF s2(2,3) holds, unfolded length_nmo_swap_16bit_words, OF n(3)]
  have le: "length bs < 2 ^ 62" using n(1) by (simp add: byte_count_ok_def)
  obtain rg b where g: "nmo_arena_alloc (length bs) 4 a2 = Done (Some rg, b)" "arena_sane b" "arena_grants b"
    using arena_grant_region [OF s2(4,5) n(3) le, of 4] by auto
  show ?thesis
    using s1(1) s2(1) nz at g n(2) align_byte_count [OF n(1)]
    by (simp add: nmo_chunk_parser_read_array_lendian16_def Let_def arena_get_def ok_def
        nmo_swap_16bit_words_involution)
qed

subsection \<open>Object IDs and managers\<close>

lemma read_object_id_ok [read_rules]: "parses nmo_chunk_parser_read_object_id [oid] oid"
proof -
  have "\<exists>q. nmo_chunk_parser_read_object_id p = Done (Inr oid, q) \<and> parser_ready q \<and> rest q = r"
    if "parser_ready p" "rest p = [oid] @ r" for p r
  proof -
    from parses_dword [of oid, unfolded parses_def, rule_format, OF that] obtain q where
      q: "(if \<not> check_bounds p 1 then fail NMO_ERR_EOF p else take_dword p) = Done (Inr oid, q)"
        "parser_ready q" "rest q = r" by blast
    then have c: "check_bounds p 1" "take_dword p = Done (Inr oid, q)" by (auto simp: fail_def split: if_splits)
    then show ?thesis using q(2,3)
      by (auto simp: nmo_chunk_parser_read_object_id_def parser_ready_def parser_wf_def rest_def ok_def Let_def)
  qed
  then show ?thesis by (simp add: parses_def)
qed

text \<open>
  The reads that return an \<^verbatim>\<open>int\<close> or a default instead of an error code, as reads with an error
  code that never fails.
\<close>

definition plain_read :: "('a \<times> chunk_parser) eff \<Rightarrow> 'a pres" where
  "plain_read m = bindE m (\<lambda>(x, p). ok x p)"

lemma parses_plain:
  assumes "length ds = n" and "0 < n"
    and "\<And>p. parser_wf p \<Longrightarrow> check_bounds p n \<Longrightarrow> load_dwords (c_data (p_chunk p)) (p_cursor p) n = Done ds
      \<Longrightarrow> \<exists>q. f p = Done (v, q) \<and> p_chunk q = p_chunk p \<and> p_cursor q = p_cursor (advance n p)
          \<and> p_file_context q = p_file_context p"
  shows "parses (\<lambda>p. plain_read (f p)) ds v"
  unfolding parses_def
proof (intro allI impI)
  fix p r assume p: "parser_ready p" "rest p = ds @ r"
  note b = ready_bounds [OF p, unfolded assms(1)]
  from assms(3) [OF b(1)] load_dwords_rest [OF b assms(2)] p(2) b obtain q where
    q: "f p = Done (v, q)" "p_chunk q = p_chunk p" "p_cursor q = p_cursor (advance n p)"
      "p_file_context q = p_file_context p"
    by (auto simp: check_bounds_iff [OF b(1) ready_small [OF b]] assms(1))
  with b p assms(1) show "\<exists>q. plain_read (f p) = Done (Inr v, q) \<and> parser_ready q \<and> rest q = r"
    using advance_ready [OF b]
    by (auto simp: plain_read_def ok_def parser_ready_def parser_wf_def rest_def)
qed

lemma load_dword_dwords:
  "load_dwords d i 1 = Done [x] \<Longrightarrow> load_dword d i = Done x"
  by (auto simp: load_dwords_def load_dword_def take_Suc hd_drop_conv_nth split: option.splits if_splits)

lemma read_manager_int_ok [read_rules]:
  "parses (\<lambda>p. plain_read (nmo_chunk_parser_read_manager_int p)) [d1 g, d2 g, x] (x, Some g)"
  by (rule parses_plain [where n = 3]) (auto simp: nmo_chunk_parser_read_manager_int_def advance_def)

lemma parse_object_sequence_ok [read_rules]:
  "parses (\<lambda>p. plain_read (nmo_chunk_parser_start_object_sequence p)) [n] n"
  by (rule parses_plain [where n = 1])
    (auto simp: nmo_chunk_parser_start_object_sequence_def advance_def dest!: load_dword_dwords [simplified])

lemma parse_read_sequence_ok [read_rules]:
  "parses (\<lambda>p. plain_read (nmo_chunk_parser_start_read_sequence p)) [n] n"
  by (rule parses_plain [where n = 1])
    (auto simp: nmo_chunk_parser_start_read_sequence_def advance_def dest!: load_dword_dwords [simplified])

lemma parse_manager_sequence_ok [read_rules]:
  "parses (\<lambda>p. plain_read (nmo_chunk_parser_start_manager_sequence p)) [n, d1 g, d2 g] (n, Some g)"
  by (rule parses_plain [where n = 3])
    (auto simp: nmo_chunk_parser_start_manager_sequence_def advance_def Let_def)

end
