(* ===== verification/ChunkCodec.thy ===== *)
theory ChunkCodec
  imports ParserSpec
begin

text \<open>
  Writing values into a chunk and reading them back. The interface \<open>codec\<close> is the contract between a
  write operation of \<^verbatim>\<open>chunk_writer.c\<close> and the read operation of \<^verbatim>\<open>chunk_parser.c\<close> that undoes it;
  inside it a whole list of values is written and read back. Every kind of value is interpreted on
  the code's own operations, and all of them together on the type \<open>item\<close>.
\<close>

section \<open>The contract between a writer and its reader\<close>

definition writer_ready :: "chunk_writer \<Rightarrow> bool" where
  "writer_ready w \<longleftrightarrow> writer_wf w \<and> started (wabs w) \<and> plain (wabs w)"

text \<open>The words a successful put of cost \<open>k\<close> adds, in a writer that stays ready.\<close>

definition adds :: "nat \<Rightarrow> (u32 list \<Rightarrow> bool) \<Rightarrow> awriter \<Rightarrow> awriter \<Rightarrow> bool" where
  "adds k P A B \<longleftrightarrow> started B \<and> plain B \<and> load B \<le> load A + k
     \<and> (\<exists>ds. P ds \<and> aw_words B = aw_words A @ ds)"

fun write_list :: "('v \<Rightarrow> chunk_writer \<Rightarrow> unit wres) \<Rightarrow> 'v list \<Rightarrow> chunk_writer \<Rightarrow> unit wres" where
  "write_list put [] w = ok () w"
| "write_list put (v # vs) w = bindR (put v w) (\<lambda>_. write_list put vs)"

fun read_list :: "('k \<Rightarrow> chunk_parser \<times> arena \<Rightarrow> 'v pares) \<Rightarrow> 'k list \<Rightarrow> chunk_parser \<times> arena \<Rightarrow> 'v list pares" where
  "read_list get [] s = ok [] s"
| "read_list get (k # ks) s = bindR (get k s) (\<lambda>v s. bindR (read_list get ks s) (\<lambda>vs. ok (v # vs)))"

locale codec =
  fixes put :: "'v \<Rightarrow> chunk_writer \<Rightarrow> unit wres"
    and get :: "'k \<Rightarrow> chunk_parser \<times> arena \<Rightarrow> 'v pares"
    and kind :: "'v \<Rightarrow> 'k"
    and admits :: "'v \<Rightarrow> bool"
    and cost :: "'v \<Rightarrow> nat"
    and encodes :: "'v \<Rightarrow> u32 list \<Rightarrow> bool"
  assumes write_law: "writer_ready w \<Longrightarrow> admits v \<Longrightarrow> room (cost v) (wabs w)
      \<Longrightarrow> outcome w (put v w) (\<lambda>_ u. adds (cost v) (encodes v) (wabs w) (wabs u))"
    and read_law: "admits v \<Longrightarrow> encodes v ds \<Longrightarrow> parses_in (get (kind v)) ds v"
begin

definition encodes_list :: "'v list \<Rightarrow> u32 list \<Rightarrow> bool" where
  "encodes_list vs ds \<longleftrightarrow> (\<exists>dss. list_all2 encodes vs dss \<and> ds = concat dss)"

lemma encodes_list_Nil: "encodes_list [] ds \<longleftrightarrow> ds = []"
  by (auto simp: encodes_list_def)

lemma encodes_list_Cons: "encodes_list (v # vs) ds \<longleftrightarrow> (\<exists>xs ys. encodes v xs \<and> encodes_list vs ys \<and> ds = xs @ ys)"
  by (fastforce simp: encodes_list_def list_all2_Cons1)

lemma write_list_law:
  assumes "writer_ready w" and "list_all admits vs" and "room (sum_list (map cost vs)) (wabs w)"
  shows "outcome w (write_list put vs w)
    (\<lambda>_ u. adds (sum_list (map cost vs)) (encodes_list vs) (wabs w) (wabs u))"
  using assms
proof (induction vs arbitrary: w)
  case Nil
  then show ?case by (auto simp: adds_def encodes_list_Nil writer_ready_def)
next
  case (Cons v vs)
  have "outcome w (put v w) (\<lambda>_ u. adds (cost v) (encodes v) (wabs w) (wabs u))"
    using Cons.prems by (intro write_law) (auto simp: room_def)
  then show ?case unfolding write_list.simps
  proof (rule outcome_bind)
    fix u assume u: "writer_wf u" "adds (cost v) (encodes v) (wabs w) (wabs u)"
    then have "outcome u (write_list put vs u)
        (\<lambda>_ t. adds (sum_list (map cost vs)) (encodes_list vs) (wabs u) (wabs t))"
      using Cons.prems by (intro Cons.IH) (auto simp: writer_ready_def adds_def room_def)
    then show "outcome u (write_list put vs u)
        (\<lambda>_ t. adds (sum_list (map cost (v # vs))) (encodes_list (v # vs)) (wabs w) (wabs t))"
      by (rule outcome_mono) (use u(2) in \<open>fastforce simp: adds_def encodes_list_Cons\<close>)
  qed
qed

lemma read_list_law:
  "list_all admits vs \<Longrightarrow> encodes_list vs ds \<Longrightarrow> parses_in (read_list get (map kind vs)) ds vs"
proof (induction vs arbitrary: ds)
  case Nil
  then show ?case by (simp add: encodes_list_Nil parses_in_def ok_def)
next
  case (Cons v vs)
  then obtain xs ys where d: "encodes v xs" "encodes_list vs ys" "ds = xs @ ys"
    by (auto simp: encodes_list_Cons)
  have "parses_in (\<lambda>s. bindR (get (kind v) s) (\<lambda>v s. bindR (read_list get (map kind vs) s) (\<lambda>vs. ok (v # vs))))
      (xs @ ys) (v # vs)"
  proof (rule parses_in_bind)
    show "parses_in (get (kind v)) xs v" using Cons.prems d by (intro read_law) auto
    show "parses_in (\<lambda>s. bindR (read_list get (map kind vs) s) (\<lambda>vs. ok (v # vs))) ys (v # vs)"
      using Cons d by (intro parses_in_bind_ok [OF Cons.IH]) auto
  qed
  then show ?case by (simp add: d(3))
qed

text \<open>From a fresh writer over the finished chunk to a fresh parser.\<close>

lemma list_round_trip:
  assumes w: "writer_wf w" "arena_grants (w_arena w)" "wabs w = empty_awriter None None"
    and vs: "list_all admits vs" "sum_list (map cost vs) \<le> 2 ^ 56"
    and b: "arena_sane b" "arena_grants b"
  shows "\<exists>w1 w2 c w3 p b'. nmo_chunk_writer_start class_id version w = Done w1
    \<and> write_list put vs w1 = Done (Inr (), w2) \<and> nmo_chunk_writer_finalize w2 = (Some c, w3)
    \<and> read_list get (map kind vs) (nmo_chunk_parser_create c, b) = Done (Inr vs, p, b')
    \<and> nmo_chunk_parser_at_end p"
proof -
  obtain w1 where w1: "nmo_chunk_writer_start class_id version w = Done w1" "writer_wf w1"
    "arena_grants (w_arena w1)"
    "wabs w1 = empty_awriter (w_file_context w) (Some (started_chunk class_id version (\<not> plain (wabs w))))"
    using writer_start_ok [OF w(1,2)] .
  have ready: "writer_ready w1"
    using w1 w(3) wabs_simps(2) [of w] by (auto simp: writer_ready_def plain_def empty_awriter_def
      started_empty [unfolded empty_awriter_def])
  moreover have "room (sum_list (map cost vs)) (wabs w1)" using vs(2) w1(4) by (simp add: room_def)
  ultimately have "outcome w1 (write_list put vs w1)
      (\<lambda>_ u. adds (sum_list (map cost vs)) (encodes_list vs) (wabs w1) (wabs u))"
    using vs(1) by (intro write_list_law)
  from outcome_grants [OF this w1(3)] obtain w2 where
    w2: "write_list put vs w1 = Done (Inr (), w2)" "writer_wf w2" "started (wabs w2)"
      "encodes_list vs (aw_words (wabs w2))"
    using w1(4) by (auto simp: adds_def empty_awriter_def)
  obtain c w3 where c: "nmo_chunk_writer_finalize w2 = (Some c, w3)" "finalized_as (wabs w2) c"
    using writer_finalize_ok [OF w2(2,3)] .
  let ?p = "nmo_chunk_parser_create c"
  have p: "parser_ready ?p" "rest ?p = aw_words (wabs w2) @ []"
    using c(2) by (auto simp: parser_ready_def parser_wf_def rest_def nmo_chunk_parser_create_def
        finalized_as_def Let_def body_ok_def)
  from read_list_law [OF vs(1) w2(4), unfolded parses_in_def, rule_format, OF p(1) b p(2)]
  obtain q b' where q: "read_list get (map kind vs) (?p, b) = Done (Inr vs, q, b')" "parser_ready q" "rest q = []"
    by blast
  have "nmo_chunk_parser_at_end q"
    using q(2,3) length_rest [of q] by (simp add: parser_ready_def nmo_chunk_parser_at_end_def nmo_chunk_parser_remaining_def)
  with w1(1) w2(1) c(1) q(1) show ?thesis by blast
qed

end

section \<open>Values of a chunk\<close>

text \<open>
  A value that can be written, with what the caller passes, and what a reader must know to read it:
  its kind and, where the format does not store it, a length or an element size.
\<close>

datatype item =
    IByte u8 | IWord u16 | IDword u32 | IDwordAsWords u32 | IDwordArray "u32 list" | IInt u32 | IFloat f32
  | IGuid nmo_guid | IVector2 nmo_vector2 | IVector nmo_vector | IVector4 nmo_vector4 | IMatrix nmo_matrix
  | IQuaternion nmo_quaternion | IColor nmo_color
  | IString "u8 list" | IBytes "u8 list" | IBuffer "u8 list" | IBufferNosize "u8 list"
  | IBuffer16 "u8 list" | IWords16 "u16 list" | IArray u32 u32 "u8 list" | IArray16 u32 u32 "u8 list"
  | IObjectId u32 | IObjectSequence u32 | IManagerSequence nmo_guid u32 | IManagerInt nmo_guid u32
  | ISubchunkSequence u32

datatype value_kind =
    KByte | KWord | KDword | KDwordAsWords | KDwordArray nat | KInt | KFloat
  | KGuid | KVector2 | KVector | KVector4 | KMatrix | KQuaternion | KColor
  | KString | KBytes nat | KBuffer | KBufferNosize nat
  | KBuffer16 nat | KWords16 nat | KArray u32 | KArray16 u32
  | KObjectId | KObjectSequence | KManagerSequence | KManagerInt | KSubchunkSequence

fun item_kind :: "item \<Rightarrow> value_kind" where
  "item_kind (IByte _) = KByte"
| "item_kind (IWord _) = KWord"
| "item_kind (IDword _) = KDword"
| "item_kind (IDwordAsWords _) = KDwordAsWords"
| "item_kind (IDwordArray vs) = KDwordArray (length vs)"
| "item_kind (IInt _) = KInt"
| "item_kind (IFloat _) = KFloat"
| "item_kind (IGuid _) = KGuid"
| "item_kind (IVector2 _) = KVector2"
| "item_kind (IVector _) = KVector"
| "item_kind (IVector4 _) = KVector4"
| "item_kind (IMatrix _) = KMatrix"
| "item_kind (IQuaternion _) = KQuaternion"
| "item_kind (IColor _) = KColor"
| "item_kind (IString _) = KString"
| "item_kind (IBytes bs) = KBytes (length bs)"
| "item_kind (IBuffer _) = KBuffer"
| "item_kind (IBufferNosize bs) = KBufferNosize (length bs)"
| "item_kind (IBuffer16 bs) = KBuffer16 (length bs)"
| "item_kind (IWords16 vs) = KWords16 (length vs)"
| "item_kind (IArray _ sz _) = KArray sz"
| "item_kind (IArray16 _ sz _) = KArray16 sz"
| "item_kind (IObjectId _) = KObjectId"
| "item_kind (IObjectSequence _) = KObjectSequence"
| "item_kind (IManagerSequence _ _) = KManagerSequence"
| "item_kind (IManagerInt _ _) = KManagerInt"
| "item_kind (ISubchunkSequence _) = KSubchunkSequence"

text \<open>The call that writes a value; a string is passed with its terminating zero byte.\<close>

fun put_item :: "(nat \<Rightarrow> bool) \<Rightarrow> item \<Rightarrow> chunk_writer \<Rightarrow> unit wres" where
  "put_item mok (IByte x) = nmo_chunk_writer_write_byte x"
| "put_item mok (IWord x) = nmo_chunk_writer_write_word x"
| "put_item mok (IDword x) = nmo_chunk_writer_write_dword x"
| "put_item mok (IDwordAsWords x) = nmo_chunk_writer_write_dword_as_words x"
| "put_item mok (IDwordArray vs) = nmo_chunk_writer_write_array_dword_as_words (Some vs) (length vs)"
| "put_item mok (IInt x) = nmo_chunk_writer_write_int x"
| "put_item mok (IFloat x) = nmo_chunk_writer_write_float x"
| "put_item mok (IGuid g) = nmo_chunk_writer_write_guid g"
| "put_item mok (IVector2 v) = nmo_chunk_writer_write_vector2 (Some v)"
| "put_item mok (IVector v) = nmo_chunk_writer_write_vector (Some v)"
| "put_item mok (IVector4 v) = nmo_chunk_writer_write_vector4 (Some v)"
| "put_item mok (IMatrix m) = nmo_chunk_writer_write_matrix (Some m)"
| "put_item mok (IQuaternion q) = nmo_chunk_writer_write_quaternion (Some q)"
| "put_item mok (IColor c) = nmo_chunk_writer_write_color (Some c)"
| "put_item mok (IString bs) = nmo_chunk_writer_write_string (Some (bs @ [0]))"
| "put_item mok (IBytes bs) = nmo_chunk_writer_write_bytes (Some bs) (length bs)"
| "put_item mok (IBuffer bs) = nmo_chunk_writer_write_buffer (Some bs) (length bs)"
| "put_item mok (IBufferNosize bs) = nmo_chunk_writer_write_buffer_nosize (length bs) (Some bs)"
| "put_item mok (IBuffer16 bs) = nmo_chunk_writer_write_buffer_lendian16 mok (length bs) (Some bs)"
| "put_item mok (IWords16 vs) = nmo_chunk_writer_write_buffer_nosize_lendian16 (length vs) (Some vs)"
| "put_item mok (IArray n sz bs) = nmo_chunk_writer_write_array_lendian n sz (Some bs)"
| "put_item mok (IArray16 n sz bs) = nmo_chunk_writer_write_array_lendian16 mok n sz (Some bs)"
| "put_item mok (IObjectId oid) = nmo_chunk_writer_write_object_id oid"
| "put_item mok (IObjectSequence n) = nmo_chunk_writer_start_object_sequence (unat n)"
| "put_item mok (IManagerSequence g n) = nmo_chunk_writer_start_manager_sequence g (unat n)"
| "put_item mok (IManagerInt g x) = nmo_chunk_writer_write_manager_int g x"
| "put_item mok (ISubchunkSequence n) = nmo_chunk_writer_start_subchunk_sequence (unat n)"

definition map_read :: "('a \<Rightarrow> 'b) \<Rightarrow> (chunk_parser \<times> arena \<Rightarrow> 'a pares) \<Rightarrow> chunk_parser \<times> arena \<Rightarrow> 'b pares" where
  "map_read h f s = bindR (f s) (\<lambda>x. ok (h x))"

text \<open>The call that reads a value back, with its result put together.\<close>

fun get_item :: "value_kind \<Rightarrow> chunk_parser \<times> arena \<Rightarrow> item pares" where
  "get_item KByte = map_read IByte (with_arena nmo_chunk_parser_read_byte)"
| "get_item KWord = map_read IWord (with_arena nmo_chunk_parser_read_word)"
| "get_item KDword = map_read IDword (with_arena nmo_chunk_parser_read_dword)"
| "get_item KDwordAsWords = map_read IDwordAsWords (with_arena nmo_chunk_parser_read_dword_as_words)"
| "get_item (KDwordArray n) = map_read IDwordArray (with_arena (nmo_chunk_parser_read_dword_array_as_words n))"
| "get_item KInt = map_read IInt (with_arena nmo_chunk_parser_read_int)"
| "get_item KFloat = map_read IFloat (with_arena nmo_chunk_parser_read_float)"
| "get_item KGuid = map_read IGuid (with_arena nmo_chunk_parser_read_guid)"
| "get_item KVector2 = map_read IVector2 (with_arena nmo_chunk_parser_read_vector2)"
| "get_item KVector = map_read IVector (with_arena nmo_chunk_parser_read_vector)"
| "get_item KVector4 = map_read IVector4 (with_arena nmo_chunk_parser_read_vector4)"
| "get_item KMatrix = map_read IMatrix (with_arena nmo_chunk_parser_read_matrix)"
| "get_item KQuaternion = map_read IQuaternion (with_arena nmo_chunk_parser_read_quaternion)"
| "get_item KColor = map_read IColor (with_arena nmo_chunk_parser_read_color)"
| "get_item KString = map_read IString nmo_chunk_parser_read_string"
| "get_item (KBytes n) = map_read IBytes (with_arena (nmo_chunk_parser_read_bytes n))"
| "get_item KBuffer = map_read (\<lambda>(n, b). IBuffer (case b of None \<Rightarrow> [] | Some bs \<Rightarrow> bs)) nmo_chunk_parser_read_buffer"
| "get_item (KBufferNosize n) = map_read IBufferNosize (with_arena (nmo_chunk_parser_read_buffer_nosize n))"
| "get_item (KBuffer16 n) = map_read IBuffer16 (with_arena (nmo_chunk_parser_read_buffer_lendian16 n))"
| "get_item (KWords16 n) = map_read IWords16 (with_arena (nmo_chunk_parser_read_buffer_nosize_lendian16 n))"
| "get_item (KArray sz) = (\<lambda>s. bindE (nmo_chunk_parser_read_array_lendian s) (\<lambda>((n, b), s).
     case b of None \<Rightarrow> fail NMO_ERR_EOF s | Some bs \<Rightarrow> ok (IArray n sz bs) s))"
| "get_item (KArray16 sz) = (\<lambda>s. bindE (nmo_chunk_parser_read_array_lendian16 s) (\<lambda>((n, b), s).
     case Option.bind b (\<lambda>x. x) of None \<Rightarrow> fail NMO_ERR_EOF s | Some bs \<Rightarrow> ok (IArray16 n sz bs) s))"
| "get_item KObjectId = map_read IObjectId (with_arena nmo_chunk_parser_read_object_id)"
| "get_item KObjectSequence = map_read IObjectSequence
     (with_arena (\<lambda>p. plain_read (nmo_chunk_parser_start_object_sequence p)))"
| "get_item KManagerSequence = map_read (\<lambda>(n, g). IManagerSequence (the g) n)
     (with_arena (\<lambda>p. plain_read (nmo_chunk_parser_start_manager_sequence p)))"
| "get_item KManagerInt = map_read (\<lambda>(x, g). IManagerInt (the g) x)
     (with_arena (\<lambda>p. plain_read (nmo_chunk_parser_read_manager_int p)))"
| "get_item KSubchunkSequence = map_read ISubchunkSequence
     (with_arena (\<lambda>p. plain_read (nmo_chunk_parser_start_read_sequence p)))"

text \<open>
  The words a value occupies. In an array the bytes of the last word behind the array are not
  determined.
\<close>

fun item_encodes :: "item \<Rightarrow> u32 list \<Rightarrow> bool" where
  "item_encodes (IByte x) ds \<longleftrightarrow> ds = [ucast x]"
| "item_encodes (IWord x) ds \<longleftrightarrow> ds = [ucast x]"
| "item_encodes (IDword x) ds \<longleftrightarrow> ds = [x]"
| "item_encodes (IDwordAsWords x) ds \<longleftrightarrow> ds = [x AND 0xFFFF, drop_bit 16 x AND 0xFFFF]"
| "item_encodes (IDwordArray vs) ds \<longleftrightarrow> ds = halves vs"
| "item_encodes (IInt x) ds \<longleftrightarrow> ds = [x]"
| "item_encodes (IFloat x) ds \<longleftrightarrow> ds = [x]"
| "item_encodes (IGuid g) ds \<longleftrightarrow> ds = [d1 g, d2 g]"
| "item_encodes (IVector2 v) ds \<longleftrightarrow> ds = [v2_x v, v2_y v]"
| "item_encodes (IVector v) ds \<longleftrightarrow> ds = [v3_x v, v3_y v, v3_z v]"
| "item_encodes (IVector4 v) ds \<longleftrightarrow> ds = vector4_dwords v"
| "item_encodes (IMatrix m) ds \<longleftrightarrow> ds = matrix_dwords m"
| "item_encodes (IQuaternion q) ds \<longleftrightarrow> ds = [q_x q, q_y q, q_z q, q_w q]"
| "item_encodes (IColor c) ds \<longleftrightarrow> ds = [col_r c, col_g c, col_b c, col_a c]"
| "item_encodes (IString bs) ds \<longleftrightarrow> ds = of_nat (length bs) # dwords_of_bytes bs"
| "item_encodes (IBytes bs) ds \<longleftrightarrow> ds = dwords_of_bytes bs"
| "item_encodes (IBuffer bs) ds \<longleftrightarrow> ds = of_nat (length bs) # dwords_of_bytes bs"
| "item_encodes (IBufferNosize bs) ds \<longleftrightarrow> ds = dwords_of_bytes bs"
| "item_encodes (IBuffer16 bs) ds \<longleftrightarrow> ds = dwords_of_bytes (nmo_swap_16bit_words bs (length bs div 2))"
| "item_encodes (IWords16 vs) ds \<longleftrightarrow> ds = map ucast vs"
| "item_encodes (IArray n sz bs) ds \<longleftrightarrow> (\<exists>es. ds = of_nat (length bs) # n # es \<and> holds_bytes bs es)"
| "item_encodes (IArray16 n sz bs) ds \<longleftrightarrow> (\<exists>es. ds = of_nat (length bs) # n # es
     \<and> holds_bytes (nmo_swap_16bit_words bs (length bs div 2)) es)"
| "item_encodes (IObjectId oid) ds \<longleftrightarrow> ds = [oid]"
| "item_encodes (IObjectSequence n) ds \<longleftrightarrow> ds = [n]"
| "item_encodes (IManagerSequence g n) ds \<longleftrightarrow> ds = [n, d1 g, d2 g]"
| "item_encodes (IManagerInt g x) ds \<longleftrightarrow> ds = [d1 g, d2 g, x]"
| "item_encodes (ISubchunkSequence n) ds \<longleftrightarrow> ds = [n]"

text \<open>
  The values that survive the trip: strings without zero bytes, byte strings below \<open>2 ^ 32 - 3\<close>
  bytes, arrays that fit their element count and size.
\<close>

fun item_ok :: "(nat \<Rightarrow> bool) \<Rightarrow> item \<Rightarrow> bool" where
  "item_ok mok (IString bs) \<longleftrightarrow> 0 \<notin> set bs \<and> byte_count_ok (length bs)"
| "item_ok mok (IBytes bs) \<longleftrightarrow> byte_count_ok (length bs)"
| "item_ok mok (IBuffer bs) \<longleftrightarrow> byte_count_ok (length bs)"
| "item_ok mok (IBufferNosize bs) \<longleftrightarrow> byte_count_ok (length bs)"
| "item_ok mok (IBuffer16 bs) \<longleftrightarrow> byte_count_ok (length bs) \<and> mok (length bs)"
| "item_ok mok (IArray n sz bs) \<longleftrightarrow> array_args n sz bs \<and> length bs + 3 \<le> 2 ^ 31 - 1"
| "item_ok mok (IArray16 n sz bs) \<longleftrightarrow> array_args n sz bs \<and> mok (length bs)"
| "item_ok mok _ \<longleftrightarrow> True"

fun item_cost :: "item \<Rightarrow> nat" where
  "item_cost (IDwordArray vs) = 2 * length vs"
| "item_cost (IMatrix _) = 16"
| "item_cost (IString bs) = length bs + 1"
| "item_cost (IBytes bs) = length bs"
| "item_cost (IBuffer bs) = length bs + 1"
| "item_cost (IBufferNosize bs) = length bs"
| "item_cost (IBuffer16 bs) = length bs"
| "item_cost (IWords16 vs) = length vs"
| "item_cost (IArray _ _ bs) = length bs + 2"
| "item_cost (IArray16 _ _ bs) = length bs + 2"
| "item_cost _ = 5"

lemma words_of_bytes_le: "(n + 3) div 4 \<le> (n :: nat)"
  by (cases n) auto

lemma length_matrix_dwords [simp]: "length (matrix_dwords m) = 16"
  by (simp add: matrix_dwords_def)

text \<open>An operation that appends words, or also tracks a position, has the required outcome.\<close>

lemma writes_adds:
  assumes "writer_ready w" and "writes w f (emit ds)" and "P ds" and "length ds \<le> k"
  shows "outcome w (f w) (\<lambda>_ u. adds k P (wabs w) (wabs u))"
  using assms(2) unfolding writes_def
  by (rule outcome_mono) (use assms in \<open>auto simp: adds_def writer_ready_def\<close>)

lemma writes_adds_spec:
  assumes "writer_ready w" and "writes w f s" and "adds k P (wabs w) (s (wabs w))"
  shows "outcome w (f w) (\<lambda>_ u. adds k P (wabs w) (wabs u))"
  using assms(2) unfolding writes_def by (rule outcome_mono) (use assms(3) in auto)

lemma strlen_terminated: "0 \<notin> set bs \<Longrightarrow> strlen (bs @ [0]) = length bs"
  by (subst strlen_def, subst takeWhile_append2) auto

lemma item_put_law:
  assumes ready: "writer_ready w" and ok: "item_ok mok v" and room: "room (item_cost v) (wabs w)"
  shows "outcome w (put_item mok v w) (\<lambda>_ u. adds (item_cost v) (item_encodes v) (wabs w) (wabs u))"
proof -
  have w: "writer_wf w" "\<not> w_finalized w" "plain (wabs w)" "started (wabs w)"
    using ready by (auto simp: writer_ready_def started_def)
  note r = room_mono [OF room]
  note le = words_of_bytes_le
  show ?thesis
  proof (cases v)
    case (IString bs)
    with ok have "strlen (bs @ [0]) = length bs" "byte_count_ok (length bs)" by (auto simp: strlen_terminated)
    then show ?thesis using write_string_ok [OF w(1,2), of "bs @ [0]"] r le [of "length bs"] IString
      by (auto intro!: writes_adds [OF ready])
  next
    case (IArray n sz bs)
    have "outcome w (put_item mok v w)
        (\<lambda>_ u. \<exists>ds. wabs u = emit (of_nat (length bs) # n # ds) (wabs w) \<and> holds_bytes bs ds)"
      using write_array_lendian_ok [OF w(1,2)] ok r [of "2 + (length bs + 3) div 4"] le [of "length bs"] IArray by simp
    then show ?thesis
      by (rule outcome_mono) (use w le [of "length bs"] IArray in \<open>fastforce simp: adds_def holds_bytes_def\<close>)
  next
    case (IArray16 n sz bs)
    have "outcome w (put_item mok v w)
        (\<lambda>_ u. \<exists>ds. wabs u = emit (of_nat (length bs) # n # ds) (wabs w)
          \<and> holds_bytes (nmo_swap_16bit_words bs (length bs div 2)) ds)"
      using write_array_lendian16_ok [OF w(1,2)] ok r [of "2 + (length bs + 3) div 4"] le [of "length bs"] IArray16 by simp
    then show ?thesis
      by (rule outcome_mono) (use w le [of "length bs"] IArray16 in \<open>fastforce simp: adds_def holds_bytes_def\<close>)
  next
    case (IByte x)
    show ?thesis unfolding IByte put_item.simps
      by (rule writes_adds [OF ready write_byte_ok]) (use w r le ok IByte in auto)
  next
    case (IWord x)
    show ?thesis unfolding IWord put_item.simps
      by (rule writes_adds [OF ready write_word_ok]) (use w r le ok IWord in auto)
  next
    case (IDword x)
    show ?thesis unfolding IDword put_item.simps
      by (rule writes_adds [OF ready write_dword_ok]) (use w r le ok IDword in auto)
  next
    case (IDwordAsWords x)
    show ?thesis unfolding IDwordAsWords put_item.simps
      by (rule writes_adds [OF ready write_dword_as_words_ok]) (use w r le ok IDwordAsWords in auto)
  next
    case (IDwordArray vs)
    show ?thesis unfolding IDwordArray put_item.simps
      by (rule writes_adds [OF ready write_array_dword_as_words_ok]) (use w r le ok IDwordArray in auto)
  next
    case (IInt x)
    show ?thesis unfolding IInt put_item.simps
      by (rule writes_adds [OF ready write_int_ok]) (use w r le ok IInt in auto)
  next
    case (IFloat x)
    show ?thesis unfolding IFloat put_item.simps
      by (rule writes_adds [OF ready write_float_ok]) (use w r le ok IFloat in auto)
  next
    case (IGuid g)
    show ?thesis unfolding IGuid put_item.simps
      by (rule writes_adds [OF ready write_guid_ok]) (use w r le ok IGuid in auto)
  next
    case (IVector2 p)
    show ?thesis unfolding IVector2 put_item.simps
      by (rule writes_adds [OF ready write_vector2_ok]) (use w r le ok IVector2 in auto)
  next
    case (IVector p)
    show ?thesis unfolding IVector put_item.simps
      by (rule writes_adds [OF ready write_vector_ok]) (use w r le ok IVector in auto)
  next
    case (IVector4 p)
    show ?thesis unfolding IVector4 put_item.simps
      by (rule writes_adds [OF ready write_vector4_ok]) (use w r le ok IVector4 in auto)
  next
    case (IMatrix m)
    show ?thesis unfolding IMatrix put_item.simps
      by (rule writes_adds [OF ready write_matrix_ok]) (use w r le ok IMatrix in auto)
  next
    case (IQuaternion q)
    show ?thesis unfolding IQuaternion put_item.simps
      by (rule writes_adds [OF ready write_quaternion_ok]) (use w r le ok IQuaternion in auto)
  next
    case (IColor c)
    show ?thesis unfolding IColor put_item.simps
      by (rule writes_adds [OF ready write_color_ok]) (use w r le ok IColor in auto)
  next
    case (IBytes bs)
    show ?thesis unfolding IBytes put_item.simps
      by (rule writes_adds [OF ready write_bytes_ok]) (use w r le ok IBytes in auto)
  next
    case (IBuffer bs)
    show ?thesis unfolding IBuffer put_item.simps
      by (rule writes_adds [OF ready write_buffer_ok]) (use w r le ok IBuffer in auto)
  next
    case (IBufferNosize bs)
    show ?thesis unfolding IBufferNosize put_item.simps
      by (rule writes_adds [OF ready write_buffer_nosize_ok]) (use w r le ok IBufferNosize in auto)
  next
    case (IBuffer16 bs)
    show ?thesis unfolding IBuffer16 put_item.simps
      by (rule writes_adds [OF ready write_buffer_lendian16_ok]) (use w r le ok IBuffer16 in auto)
  next
    case (IWords16 vs)
    show ?thesis unfolding IWords16 put_item.simps
      by (rule writes_adds [OF ready write_nosize_lendian16_ok]) (use w r le ok IWords16 in auto)
  next
    case (IObjectId x)
    show ?thesis unfolding IObjectId put_item.simps
      by (rule writes_adds_spec [OF ready write_object_id_ok]) (use w r ok IObjectId in \<open>auto simp: adds_def Let_def spec_object_id_def
        spec_object_sequence_def spec_manager_sequence_def spec_manager_int_def spec_subchunk_sequence_def\<close>)
  next
    case (IObjectSequence n)
    show ?thesis unfolding IObjectSequence put_item.simps
      by (rule writes_adds_spec [OF ready start_object_sequence_ok]) (use w r ok IObjectSequence in \<open>auto simp: adds_def Let_def spec_object_id_def
        spec_object_sequence_def spec_manager_sequence_def spec_manager_int_def spec_subchunk_sequence_def\<close>)
  next
    case (IManagerSequence g n)
    show ?thesis unfolding IManagerSequence put_item.simps
      by (rule writes_adds_spec [OF ready start_manager_sequence_ok]) (use w r ok IManagerSequence in \<open>auto simp: adds_def Let_def spec_object_id_def
        spec_object_sequence_def spec_manager_sequence_def spec_manager_int_def spec_subchunk_sequence_def\<close>)
  next
    case (IManagerInt g x)
    show ?thesis unfolding IManagerInt put_item.simps
      by (rule writes_adds_spec [OF ready write_manager_int_ok]) (use w r ok IManagerInt in \<open>auto simp: adds_def Let_def spec_object_id_def
        spec_object_sequence_def spec_manager_sequence_def spec_manager_int_def spec_subchunk_sequence_def\<close>)
  next
    case (ISubchunkSequence n)
    show ?thesis unfolding ISubchunkSequence put_item.simps
      by (rule writes_adds_spec [OF ready start_subchunk_sequence_ok]) (use w r ok ISubchunkSequence in \<open>auto simp: adds_def Let_def spec_object_id_def
        spec_object_sequence_def spec_manager_sequence_def spec_manager_int_def spec_subchunk_sequence_def\<close>)
  qed
qed

lemma map_read_ok: "parses_in f ds x \<Longrightarrow> v = h x \<Longrightarrow> parses_in (map_read h f) ds v"
  unfolding map_read_def [abs_def] by (rule parses_in_bind_ok)

lemma map_read_plain: "parses f ds x \<Longrightarrow> v = h x \<Longrightarrow> parses_in (map_read h (with_arena f)) ds v"
  by (rule map_read_ok) simp_all

lemma item_get_law:
  assumes ok: "item_ok mok v" and ds: "item_encodes v ds"
  shows "parses_in (get_item (item_kind v)) ds v"
proof (cases v)
  case (IArray n sz bs)
  with ds obtain es where es: "ds = of_nat (length bs) # n # es" "holds_bytes bs es" by auto
  show ?thesis unfolding parses_in_def
  proof (intro allI impI)
    fix p a r assume h: "parser_ready p" "arena_sane a" "arena_grants a" "rest p = ds @ r"
    from read_array_lendian_ok [of n sz bs es p r a] h es ok IArray
    show "\<exists>q b. get_item (item_kind v) (p, a) = Done (Inr v, q, b) \<and> parser_ready q \<and> rest q = r
        \<and> arena_sane b \<and> arena_grants b"
      by (auto simp: ok_def)
  qed
next
  case (IArray16 n sz bs)
  with ds obtain es where es: "ds = of_nat (length bs) # n # es"
    "holds_bytes (nmo_swap_16bit_words bs (length bs div 2)) es" by auto
  show ?thesis unfolding parses_in_def
  proof (intro allI impI)
    fix p a r assume h: "parser_ready p" "arena_sane a" "arena_grants a" "rest p = ds @ r"
    from read_array_lendian16_ok [of n sz bs es p r a] h es ok IArray16
    show "\<exists>q b. get_item (item_kind v) (p, a) = Done (Inr v, q, b) \<and> parser_ready q \<and> rest q = r
        \<and> arena_sane b \<and> arena_grants b"
      by (auto simp: ok_def)
  qed
next
  case (IDwordArray vs)
  show ?thesis using ds unfolding IDwordArray
    by (simp add: halves_def) (rule map_read_plain [OF read_dword_array_as_words_ok], simp)
next
  case (IString bs)
  show ?thesis using ds ok unfolding IString by simp (rule map_read_ok [OF read_string_ok], simp_all)
next
  case (IBytes bs)
  show ?thesis using ds ok unfolding IBytes by simp (rule map_read_plain [OF read_bytes_ok], simp_all)
next
  case (IBuffer bs)
  show ?thesis using ds ok unfolding IBuffer by simp (rule map_read_ok [OF read_buffer_ok], simp_all)
next
  case (IBufferNosize bs)
  show ?thesis using ds ok unfolding IBufferNosize
    by simp (rule map_read_plain [OF read_buffer_nosize_ok], simp_all)
next
  case (IBuffer16 bs)
  have "parses_in (map_read IBuffer16 (with_arena (nmo_chunk_parser_read_buffer_lendian16 (length bs)))) ds (IBuffer16 bs)"
    by (rule map_read_plain [OF read_buffer_lendian16_ok]) (use ds ok IBuffer16 in simp_all)
  then show ?thesis unfolding IBuffer16 by simp
next
  case (IWords16 vs)
  show ?thesis using ds unfolding IWords16 by simp (rule map_read_plain [OF read_nosize_lendian16_ok], simp)
next
  case (IObjectSequence n)
  show ?thesis using ds unfolding IObjectSequence by simp (rule map_read_plain [OF parse_object_sequence_ok], simp)
next
  case (IManagerSequence g n)
  show ?thesis using ds unfolding IManagerSequence by simp (rule map_read_plain [OF parse_manager_sequence_ok], simp)
next
  case (IManagerInt g x)
  show ?thesis using ds unfolding IManagerInt by simp (rule map_read_plain [OF read_manager_int_ok], simp)
next
  case (ISubchunkSequence n)
  show ?thesis using ds unfolding ISubchunkSequence by simp (rule map_read_plain [OF parse_read_sequence_ok], simp)
next
  case (IByte x)
  show ?thesis using ds unfolding IByte by simp (rule map_read_plain [OF read_byte_ok], simp)
next
  case (IWord x)
  show ?thesis using ds unfolding IWord by simp (rule map_read_plain [OF read_word_ok], simp)
next
  case (IDword x)
  show ?thesis using ds unfolding IDword by simp (rule map_read_plain [OF read_dword_ok], simp)
next
  case (IDwordAsWords x)
  show ?thesis using ds unfolding IDwordAsWords by simp (rule map_read_plain [OF read_dword_as_words_ok], simp)
next
  case (IInt x)
  show ?thesis using ds unfolding IInt by simp (rule map_read_plain [OF read_int_ok], simp)
next
  case (IFloat x)
  show ?thesis using ds unfolding IFloat by simp (rule map_read_plain [OF read_float_ok], simp)
next
  case (IGuid g)
  show ?thesis using ds unfolding IGuid by simp (rule map_read_plain [OF read_guid_ok], simp)
next
  case (IVector2 p)
  show ?thesis using ds unfolding IVector2 by simp (rule map_read_plain [OF read_vector2_ok], simp)
next
  case (IVector p)
  show ?thesis using ds unfolding IVector by simp (rule map_read_plain [OF read_vector_ok], simp)
next
  case (IVector4 p)
  show ?thesis using ds unfolding IVector4 by simp (rule map_read_plain [OF read_vector4_ok], simp)
next
  case (IMatrix m)
  show ?thesis using ds unfolding IMatrix by simp (rule map_read_plain [OF read_matrix_ok], simp)
next
  case (IQuaternion q)
  show ?thesis using ds unfolding IQuaternion by simp (rule map_read_plain [OF read_quaternion_ok], simp)
next
  case (IColor c)
  show ?thesis using ds unfolding IColor by simp (rule map_read_plain [OF read_color_ok], simp)
next
  case (IObjectId x)
  show ?thesis using ds unfolding IObjectId by simp (rule map_read_plain [OF read_object_id_ok], simp)
qed

interpretation ci: codec "put_item mok" get_item item_kind "item_ok mok" item_cost item_encodes
  by unfold_locales (auto intro: item_put_law item_get_law)

section \<open>Properties\<close>

text \<open>
  C2: whatever values are written into a fresh chunk - scalars, GUIDs, vectors, strings, byte
  buffers, byte-swapped buffers, arrays, object IDs, manager entries and sequence headers, in any
  order and any number up to the size bound - every write succeeds, and reading the finished chunk
  with the matching calls returns exactly these values and ends at the end of the chunk.
\<close>

theorem chunk_values_round_trip:
  assumes "arena_sane a" "arena_grants a" and "nmo_chunk_writer_create a = Done (Some w, a')"
    and "list_all (item_ok mok) vs" and "sum_list (map item_cost vs) \<le> 2 ^ 56"
    and "arena_sane b" "arena_grants b"
  shows "\<exists>w1 w2 c w3 p b'. nmo_chunk_writer_start class_id version w = Done w1
    \<and> write_list (put_item mok) vs w1 = Done (Inr (), w2)
    \<and> nmo_chunk_writer_finalize w2 = (Some c, w3)
    \<and> read_list get_item (map item_kind vs) (nmo_chunk_parser_create c, b) = Done (Inr vs, p, b')
    \<and> nmo_chunk_parser_at_end p"
proof -
  have "writer_wf w \<and> arena_grants (w_arena w) \<and> wabs w = empty_awriter None None"
    using writer_create_ok [OF assms(1)] assms(2,3) by (metis eff.inject(1) option.distinct(1) option.inject prod.inject)
  then show ?thesis using ci.list_round_trip assms(4-7) by blast
qed

text \<open>A word, a string and a big-endian array, in the default arena.\<close>

theorem chunk_values_round_trip_witness:
  "\<exists>a w a' w1 w2 c w3 p b'.
     nmo_arena_create (\<lambda>_ _. True) (\<lambda>_ _. 7) 0 = Done (Some a)
   \<and> nmo_chunk_writer_create a = Done (Some w, a') \<and> nmo_chunk_writer_start 19 7 w = Done w1
   \<and> write_list (put_item (\<lambda>_. True)) [IWord 513, IString [72, 105], IArray16 3 2 [1, 2, 3, 4, 5, 6]] w1
       = Done (Inr (), w2)
   \<and> nmo_chunk_writer_finalize w2 = (Some c, w3)
   \<and> read_list get_item [KWord, KString, KArray16 2] (nmo_chunk_parser_create c, a)
       = Done (Inr [IWord 513, IString [72, 105], IArray16 3 2 [1, 2, 3, 4, 5, 6]], p, b')
   \<and> nmo_chunk_parser_at_end p"
proof -
  obtain a where a: "nmo_arena_create (\<lambda>_ _. True) (\<lambda>_ _. 7) 0 = Done (Some a)"
    by (simp add: nmo_arena_create_def nmo_arena_create_ex_def nmo_arena_default_config_def Let_def
      growth_two_def arena_create_chunk_def sizeof_arena_chunk_def sz_add_def)
  have sane: "arena_sane a" "arena_grants a"
    using default_arena_sane [OF a] default_arena [OF a] by (simp_all add: arena_grants_def)
  obtain w a' where w: "nmo_chunk_writer_create a = Done (Some w, a')"
    using writer_create_ok [OF sane(1)] sane(2) by metis
  have ok: "list_all (item_ok (\<lambda>_. True)) [IWord 513, IString [72, 105], IArray16 3 2 [1, 2, 3, 4, 5, 6]]"
    by (simp add: byte_count_ok_def array_args_def word_sless_alt)
  have cost: "sum_list (map item_cost [IWord 513, IString [72, 105], IArray16 3 2 [1, 2, 3, 4, 5, 6]]) \<le> 2 ^ 56"
    by simp
  from chunk_values_round_trip [OF sane w ok cost sane, of 19 7] a w show ?thesis
    unfolding list.map item_kind.simps by blast
qed

end
