(* ===== verification/ParserSafety.thy ===== *)
theory ParserSafety
  imports ChunkCodec
begin

text \<open>
  Reads on hostile data. Whatever the words of a chunk are, a read whose length does not come from
  the data stays inside the buffer and ends, and the parser stays well formed; so does any sequence
  of such reads, seeks and skips. The reads that take a byte length from the data do so up to the
  length where \<^verbatim>\<open>nmo_align_dword\<close> wraps.
\<close>

section \<open>Safe reads\<close>

definition safe :: "(chunk_parser \<Rightarrow> ('a \<times> chunk_parser) eff) \<Rightarrow> bool" where
  "safe f \<longleftrightarrow> (\<forall>p. parser_wf p \<longrightarrow> (\<exists>x q. f p = Done (x, q) \<and> parser_wf q \<and> p_chunk q = p_chunk p))"

definition safe_in :: "(chunk_parser \<times> arena \<Rightarrow> ('a \<times> chunk_parser \<times> arena) eff) \<Rightarrow> bool" where
  "safe_in f \<longleftrightarrow> (\<forall>p a. parser_wf p \<longrightarrow> arena_sane a \<longrightarrow>
     (\<exists>x q b. f (p, a) = Done (x, q, b) \<and> parser_wf q \<and> p_chunk q = p_chunk p \<and> arena_sane b))"

named_theorems safe_rules "reads that stay inside the buffer"

lemma safe_ok [safe_rules]: "safe (ok x)" and safe_in_ok [safe_rules]: "safe_in (ok x)"
  by (simp_all add: safe_def safe_in_def ok_def)

lemma safe_bind [safe_rules]:
  assumes "safe f" and "\<And>v. safe (g v)"
  shows "safe (\<lambda>p. bindR (f p) g)"
  unfolding safe_def
proof (intro allI impI)
  fix p assume "parser_wf p"
  with assms(1) obtain x q where q: "f p = Done (x, q)" "parser_wf q" "p_chunk q = p_chunk p"
    unfolding safe_def by blast
  show "\<exists>x r. bindR (f p) g = Done (x, r) \<and> parser_wf r \<and> p_chunk r = p_chunk p"
  proof (cases x)
    case (Inr v)
    with assms(2) [of v] q show ?thesis unfolding safe_def by (metis bindR_simps(2))
  qed (use q in simp)
qed

lemma safe_in_bind [safe_rules]:
  assumes "safe_in f" and "\<And>v. safe_in (g v)"
  shows "safe_in (\<lambda>s. bindR (f s) g)"
  unfolding safe_in_def
proof (intro allI impI)
  fix p a assume "parser_wf p" "arena_sane a"
  with assms(1) obtain x q b where q: "f (p, a) = Done (x, q, b)" "parser_wf q" "p_chunk q = p_chunk p" "arena_sane b"
    unfolding safe_in_def by blast
  show "\<exists>x r b. bindR (f (p, a)) g = Done (x, r, b) \<and> parser_wf r \<and> p_chunk r = p_chunk p \<and> arena_sane b"
  proof (cases x)
    case (Inr v)
    with assms(2) [of v] q show ?thesis unfolding safe_in_def by (metis bindR_simps(2))
  qed (use q in simp)
qed

lemma safe_with_arena [safe_rules]: "safe f \<Longrightarrow> safe_in (with_arena f)"
  unfolding safe_def safe_in_def with_arena_def by (metis (no_types, lifting) bindE_simps(1) case_prod_conv)

lemma safe_map_read [safe_rules]: "safe_in f \<Longrightarrow> safe_in (map_read h f)"
  unfolding map_read_def [abs_def] by (intro safe_rules)

lemma safe_plain_read [safe_rules]: "safe f \<Longrightarrow> safe (\<lambda>p. plain_read (f p))"
  unfolding safe_def plain_read_def ok_def by (metis (no_types, lifting) bindE_simps(1) case_prod_conv)

lemma parser_wf_updates [simp]:
  "parser_wf (p\<lparr>p_object_remaining := n\<rparr>) = parser_wf p"
  "parser_wf (p\<lparr>p_manager_remaining := n\<rparr>) = parser_wf p"
  "parser_wf (p\<lparr>p_subchunk_remaining := n\<rparr>) = parser_wf p"
  "parser_wf (p\<lparr>p_in_object_sequence := b\<rparr>) = parser_wf p"
  "parser_wf (p\<lparr>p_in_manager_sequence := b\<rparr>) = parser_wf p"
  "parser_wf (p\<lparr>p_in_subchunk_sequence := b\<rparr>) = parser_wf p"
  "parser_wf (p\<lparr>p_current_manager_guid := g\<rparr>) = parser_wf p"
  "parser_wf (p\<lparr>p_prev_identifier_pos := n\<rparr>) = parser_wf p"
  "parser_wf (p\<lparr>p_file_context := c\<rparr>) = parser_wf p"
  by (simp_all add: parser_wf_def)

lemma parser_wf_cursor: "parser_wf p \<Longrightarrow> n \<le> c_data_size (p_chunk p) + 1 \<Longrightarrow> parser_wf (p\<lparr>p_cursor := n\<rparr>)"
  by (simp add: parser_wf_def)

text \<open>A bounds check that succeeds makes the access and the advance safe.\<close>

lemma checked:
  assumes "parser_wf p" and "check_bounds p n" and "n < 2 ^ 62"
  shows "p_cursor p + n \<le> c_data_size (p_chunk p)"
    "parser_wf (advance n p)" "p_chunk (advance n p) = p_chunk p"
    "0 < n \<Longrightarrow> \<exists>ds. load_dwords (c_data (p_chunk p)) (p_cursor p) n = Done ds"
    "b \<le> 4 * n \<Longrightarrow> 0 < n \<Longrightarrow> \<exists>bs. load_bytes (c_data (p_chunk p)) (p_cursor p) b = Done bs"
    "0 < n \<Longrightarrow> \<exists>d. load_dword (c_data (p_chunk p)) (p_cursor p) = Done d"
proof -
  show le: "p_cursor p + n \<le> c_data_size (p_chunk p)"
    using assms by (simp add: check_bounds_iff)
  show "parser_wf (advance n p)" "p_chunk (advance n p) = p_chunk p"
    using advance_ready [OF assms(1) le] by auto
  show "\<exists>ds. load_dwords (c_data (p_chunk p)) (p_cursor p) n = Done ds" if "0 < n"
    using load_dwords_rest [OF assms(1) le that] by blast
  show "\<exists>bs. load_bytes (c_data (p_chunk p)) (p_cursor p) b = Done bs" if "b \<le> 4 * n" "0 < n"
    using load_bytes_rest [OF assms(1) le that] by blast
  show "\<exists>d. load_dword (c_data (p_chunk p)) (p_cursor p) = Done d" if "0 < n"
    using load_dword_rest [OF assms(1)] le that by auto
qed

lemma safe_checked:
  assumes "n < 2 ^ 62" and "\<And>p. parser_wf p \<Longrightarrow> check_bounds p n \<Longrightarrow>
    \<exists>x q. f p = Done (x, q) \<and> parser_wf q \<and> p_chunk q = p_chunk p"
  shows "safe (\<lambda>p. if \<not> check_bounds p n then fail e p else f p)"
  using assms(2) by (auto simp: safe_def fail_def)

lemma safe_dwords [safe_rules]:
  assumes "0 < n" "n < 2 ^ 62"
  shows "safe (\<lambda>p. if \<not> check_bounds p n then fail NMO_ERR_EOF p else take_dwords n p)"
proof (rule safe_checked [OF assms(2)])
  fix p assume p: "parser_wf p" "check_bounds p n"
  show "\<exists>x q. take_dwords n p = Done (x, q) \<and> parser_wf q \<and> p_chunk q = p_chunk p"
    using checked(2-4) [OF p assms(2)] assms(1) by (auto simp: take_dwords_def ok_def)
qed

lemma safe_dword [safe_rules]:
  "safe (\<lambda>p. if \<not> check_bounds p 1 then fail NMO_ERR_EOF p else take_dword p)"
proof -
  have "safe (\<lambda>p. bindR (if \<not> check_bounds p 1 then fail NMO_ERR_EOF p else take_dwords 1 p) (\<lambda>ds. ok (hd ds)))"
    by (rule safe_bind [OF safe_dwords safe_ok]) simp_all
  then show ?thesis unfolding take_dword_dwords guarded_bind .
qed

lemma safe_bytes:
  assumes "b \<le> 4 * n" and "0 < b" and "n < 2 ^ 62"
  shows "safe (\<lambda>p. if \<not> check_bounds p n then fail NMO_ERR_EOF p
    else bindE (load_bytes (c_data (p_chunk p)) (p_cursor p) b) (\<lambda>bs. ok (h bs) (advance n p)))"
proof (rule safe_checked [OF assms(3)])
  have n: "0 < n" using assms by simp
  fix p assume p: "parser_wf p" "check_bounds p n"
  show "\<exists>x q. bindE (load_bytes (c_data (p_chunk p)) (p_cursor p) b) (\<lambda>bs. ok (h bs) (advance n p)) = Done (x, q)
      \<and> parser_wf q \<and> p_chunk q = p_chunk p"
    using checked(2,3) [OF p assms(3)] checked(5) [OF p assms(3,1) n] by (auto simp: ok_def)
qed

lemma safe_reads [safe_rules]:
  "safe nmo_chunk_parser_read_byte" "safe nmo_chunk_parser_read_word" "safe nmo_chunk_parser_read_dword"
  "safe nmo_chunk_parser_read_int" "safe nmo_chunk_parser_read_float" "safe nmo_chunk_parser_read_guid"
  "safe nmo_chunk_parser_read_vector2" "safe nmo_chunk_parser_read_vector"
  "safe nmo_chunk_parser_read_vector4" "safe nmo_chunk_parser_read_matrix"
  "safe nmo_chunk_parser_read_quaternion" "safe nmo_chunk_parser_read_color"
  unfolding nmo_chunk_parser_read_byte_def [abs_def] nmo_chunk_parser_read_word_def [abs_def]
    nmo_chunk_parser_read_dword_def [abs_def] nmo_chunk_parser_read_int_def [abs_def]
    nmo_chunk_parser_read_float_def [abs_def] nmo_chunk_parser_read_guid_def [abs_def]
    nmo_chunk_parser_read_vector2_def [abs_def] nmo_chunk_parser_read_vector_def [abs_def]
    nmo_chunk_parser_read_vector4_def [abs_def] nmo_chunk_parser_read_matrix_def [abs_def]
    nmo_chunk_parser_read_quaternion_def [abs_def] nmo_chunk_parser_read_color_def [abs_def] guarded_bind
  by (intro safe_rules; simp)+

lemma safe_dword_as_words [safe_rules]: "safe nmo_chunk_parser_read_dword_as_words"
  unfolding nmo_chunk_parser_read_dword_as_words_def [abs_def] by (intro safe_rules)

lemma safe_dword_array [safe_rules]: "safe (nmo_chunk_parser_read_dword_array_as_words n)"
proof (induction n)
  case 0
  show ?case by (simp add: safe_def ok_def)
next
  case (Suc n)
  show ?case unfolding nmo_chunk_parser_read_dword_array_as_words.simps by (intro safe_rules Suc.IH)
qed

lemma safe_nosize_lendian16 [safe_rules]: "safe (nmo_chunk_parser_read_buffer_nosize_lendian16 n)"
proof (induction n)
  case 0
  show ?case by (simp add: safe_def ok_def)
next
  case (Suc n)
  show ?case unfolding nmo_chunk_parser_read_buffer_nosize_lendian16.simps by (intro safe_rules Suc.IH)
qed

lemma safe_read_bytes: "byte_count_ok n \<Longrightarrow> safe (nmo_chunk_parser_read_bytes n)"
  and safe_read_buffer_lendian16: "byte_count_ok n \<Longrightarrow> safe (nmo_chunk_parser_read_buffer_lendian16 n)"
proof -
  assume ok: "byte_count_ok n"
  have b: "n \<le> 4 * ((n + 3) div 4)" "(n + 3) div 4 < 2 ^ 62" using ok by (auto simp: byte_count_ok_def)
  show "safe (nmo_chunk_parser_read_bytes n)"
    using safe_bytes [OF b(1) _ b(2), of "\<lambda>x. x"] align_byte_count [OF ok]
    by (cases "n = 0") (simp_all add: nmo_chunk_parser_read_bytes_def [abs_def] Let_def safe_rules)
  show "safe (nmo_chunk_parser_read_buffer_lendian16 n)"
    using safe_bytes [OF b(1) _ b(2), of "\<lambda>x. nmo_swap_16bit_words x (n div 2)"] align_byte_count [OF ok]
    by (cases "n = 0") (simp_all add: nmo_chunk_parser_read_buffer_lendian16_def [abs_def] Let_def safe_rules)
qed

lemma safe_read_buffer_nosize: "n + 3 < 2 ^ 64 \<Longrightarrow> safe (nmo_chunk_parser_read_buffer_nosize n)"
proof -
  assume n: "n + 3 < 2 ^ 64"
  have b: "n \<le> 4 * ((n + 3) div 4)" by linarith
  have b2: "(n + 3) div 4 < 2 ^ 62" using n by (simp add: div_less_iff_less_mult)
  show "safe (nmo_chunk_parser_read_buffer_nosize n)"
    using safe_bytes [OF b _ b2, of "\<lambda>x. x"] n
    by (cases "n = 0") (simp_all add: nmo_chunk_parser_read_buffer_nosize_def [abs_def] Let_def sz_add_small safe_rules)
qed

lemma safe_object_id [safe_rules]: "safe nmo_chunk_parser_read_object_id"
proof -
  have "\<exists>x q. nmo_chunk_parser_read_object_id p = Done (x, q) \<and> parser_wf q \<and> p_chunk q = p_chunk p"
    if wf: "parser_wf p" for p
  proof (cases "check_bounds p 1")
    case True
    from checked(2,3,6) [OF wf True] obtain d where
      "load_dword (c_data (p_chunk p)) (p_cursor p) = Done d" "parser_wf (advance 1 p)"
      "p_chunk (advance 1 p) = p_chunk p" by auto
    with True show ?thesis
      by (simp add: nmo_chunk_parser_read_object_id_def take_dword_def ok_def Let_def)
  qed (use wf in \<open>simp add: nmo_chunk_parser_read_object_id_def fail_def\<close>)
  then show ?thesis by (simp add: safe_def)
qed

text \<open>The readers that return an \<^verbatim>\<open>int\<close> or a default.\<close>

lemma safe_ints [safe_rules]:
  "safe nmo_chunk_parser_read_manager_int" "safe nmo_chunk_parser_read_manager_int_sequence"
  "safe nmo_chunk_parser_start_manager_sequence" "safe nmo_chunk_parser_start_object_sequence"
  "safe nmo_chunk_parser_start_read_sequence"
proof -
  have c3: "parser_wf (advance 3 p) \<and> p_chunk (advance 3 p) = p_chunk p
      \<and> (\<exists>ds. load_dwords (c_data (p_chunk p)) (p_cursor p) 3 = Done ds)"
    if "parser_wf p" "check_bounds p 3" for p using checked(2-4) [OF that] by simp
  have c1: "parser_wf (advance 1 p) \<and> p_chunk (advance 1 p) = p_chunk p
      \<and> (\<exists>d. load_dword (c_data (p_chunk p)) (p_cursor p) = Done d)"
    if "parser_wf p" "check_bounds p 1" for p using checked(2,3,6) [OF that] by simp
  show "safe nmo_chunk_parser_read_manager_int" "safe nmo_chunk_parser_start_manager_sequence"
    unfolding safe_def nmo_chunk_parser_read_manager_int_def nmo_chunk_parser_start_manager_sequence_def
    by (auto dest: c3 simp: Let_def)
  show "safe nmo_chunk_parser_read_manager_int_sequence" "safe nmo_chunk_parser_start_object_sequence"
    "safe nmo_chunk_parser_start_read_sequence"
    unfolding safe_def nmo_chunk_parser_read_manager_int_sequence_def nmo_chunk_parser_start_object_sequence_def
      nmo_chunk_parser_start_read_sequence_def
    by (auto dest: c1 simp: Let_def)
qed

text \<open>Allocation, and the reads that take a length from the data.\<close>

lemma arena_alloc_total:
  "arena_sane a \<Longrightarrow> n < 2 ^ 62 \<Longrightarrow> al \<in> {1, 4, 8, 16} \<Longrightarrow> \<exists>q b. nmo_arena_alloc n al a = Done (q, b) \<and> arena_sane b"
  by (erule (2) arena_alloc_sane) blast

lemma safe_arena_get [safe_rules]: "n < 2 ^ 62 \<Longrightarrow> al \<in> {1, 4, 8, 16} \<Longrightarrow> safe_in (arena_get n al)"
  unfolding safe_in_def
proof (intro allI impI)
  fix p a assume h: "n < 2 ^ 62" "al \<in> {1, 4, 8, 16}" "parser_wf p" "arena_sane a"
  obtain q b where "nmo_arena_alloc n al a = Done (q, b)" "arena_sane b"
    using arena_alloc_total [OF h(4,1,2)] by blast
  with h(3) show "\<exists>x q b. arena_get n al (p, a) = Done (x, q, b) \<and> parser_wf q \<and> p_chunk q = p_chunk p \<and> arena_sane b"
    by (cases q) (auto simp: arena_get_def)
qed

lemma unat_lt: "unat (x :: u32) < 2 ^ 32"
  using unsigned_less [of x] by simp

lemma safe_skip_block [safe_rules]: "n < 2 ^ 62 \<Longrightarrow> safe_in (skip_block n)"
  unfolding skip_block_def safe_in_def using checked(2,3) [of _ n] by (auto simp: fail_def ok_def)

text \<open>A block is read after its bounds check, in the state the allocation left.\<close>

lemma safe_read_block [safe_rules]:
  assumes "n < 2 ^ 32"
  shows "safe_in (read_block n)"
proof (cases "n = 0")
  case True
  then show ?thesis by (simp add: read_block_def safe_in_def ok_def)
next
  case False
  have n: "0 < n" "n < 2 ^ 62" "n * 4 < 2 ^ 62" using assms False by auto
  have "\<exists>x q b. bindR (arena_get (n * 4) 4 (p, a)) (\<lambda>_ s. bindR (with_arena (take_dwords n) s) (\<lambda>ds. ok (Some ds)))
      = Done (x, q, b) \<and> parser_wf q \<and> p_chunk q = p_chunk p \<and> arena_sane b"
    if p: "parser_wf p" "check_bounds p n" and a: "arena_sane a" for p a
  proof -
    obtain q b where q: "nmo_arena_alloc (n * 4) 4 a = Done (q, b)" "arena_sane b"
      using arena_alloc_total [OF a n(3), of 4] by auto
    show ?thesis using q checked(2-4) [OF p n(2)] n(1) p(1)
      by (cases q) (auto simp: arena_get_def with_arena_def take_dwords_def ok_def)
  qed
  with False show ?thesis by (auto simp: read_block_def safe_in_def fail_def)
qed

lemma safe_read_counted [safe_rules]: "safe_in read_counted"
  unfolding read_counted_def by (intro safe_rules)

lemma safe_read_subchunk_blocks [safe_rules]:
  assumes "n1 < 2 ^ 32" "n2 < 2 ^ 32" "n3 < 2 ^ 32" "n4 < 2 ^ 32"
  shows "safe_in (read_subchunk_blocks n1 n2 n3 n4 b)"
proof -
  have "n3 < 2 ^ 62" using assms(3) by simp
  then show ?thesis unfolding read_subchunk_blocks_def [abs_def] Let_def using assms
    by (intro safe_in_bind safe_read_block safe_skip_block safe_in_ok)
qed

lemma consume_subchunk_slot_wf [simp]:
  "parser_wf (consume_subchunk_slot p) = parser_wf p" "p_chunk (consume_subchunk_slot p) = p_chunk p"
  by (simp_all add: consume_subchunk_slot_def Let_def)

text \<open>The rules for functions of the pair of parser and arena.\<close>

lemma safe_in_split [safe_rules]:
  "safe_in (\<lambda>(p, a). f p a) \<Longrightarrow> safe_in (\<lambda>(p, a). g p a)
    \<Longrightarrow> safe_in (\<lambda>(p, a). if P p a then f p a else g p a)"
  "safe_in (\<lambda>(p, a). f p a) \<Longrightarrow> (\<And>v. safe_in (k v)) \<Longrightarrow> safe_in (\<lambda>(p, a). bindR (f p a) k)"
  "safe_in (\<lambda>(p, a). fail e (p, a))" "safe_in (\<lambda>(p, a). ok c (p, a))"
  "safe_in (\<lambda>(p, a). ok c (consume_subchunk_slot p, a))"
  "safe_in h \<Longrightarrow> safe_in (\<lambda>(p, a). h (p, a))"
proof -
  show "safe_in (\<lambda>(p, a). bindR (f p a) k)" if "safe_in (\<lambda>(p, a). f p a)" "\<And>v. safe_in (k v)"
    using safe_in_bind [OF that] by (simp add: case_prod_unfold)
qed (auto simp: safe_in_def fail_def ok_def)

lemma safe_create_chunk [safe_rules]:
  assumes "\<And>sub. safe_in (\<lambda>(p, a). g sub p a)"
  shows "safe_in (\<lambda>(p, a). bindE (nmo_chunk_create a) (\<lambda>(sub, a). case sub of
    None \<Rightarrow> fail NMO_ERR_NOMEM (p, a) | Some sub \<Rightarrow> g sub p a))"
  unfolding safe_in_def
proof (intro allI impI)
  fix p a assume p: "parser_wf p" and a: "arena_sane a"
  obtain q b where q: "nmo_arena_alloc sizeof_chunk 8 a = Done (q, b)" "arena_sane b"
    using arena_alloc_total [OF a, of sizeof_chunk 8] by (auto simp: sizeof_chunk_def)
  show "\<exists>x q b. (case (p, a) of (p, a) \<Rightarrow> bindE (nmo_chunk_create a) (\<lambda>(sub, a). case sub of
      None \<Rightarrow> fail NMO_ERR_NOMEM (p, a) | Some sub \<Rightarrow> g sub p a)) = Done (x, q, b)
      \<and> parser_wf q \<and> p_chunk q = p_chunk p \<and> arena_sane b"
    using q p assms [of "Chunk empty_body None"]
    by (cases q) (auto simp: nmo_chunk_create_def fail_def safe_in_def)
qed

lemma safe_read_subchunk [safe_rules]: "safe_in nmo_chunk_parser_read_subchunk"
proof -
  have opt: "safe_in (\<lambda>s. bindR (if P then read_counted s else ok 0 s) k)" if "\<And>v. safe_in (k v)" for P and k :: "u32 \<Rightarrow> chunk_parser \<times> arena \<Rightarrow> nmo_chunk option pares"
    by (cases P) (simp_all add: that safe_in_bind safe_read_counted)
  show ?thesis unfolding nmo_chunk_parser_read_subchunk_def Let_def
    by (intro safe_rules opt unat_lt)
qed

section \<open>Any sequence of calls\<close>

text \<open>
  One call of a client that knows the lengths it asks for. The kinds whose length comes from the
  data are excluded here.
\<close>

datatype parse_step =
    Read value_kind | ReadManagerIntNext | ReadSubchunk | ReadIdentifier | Seek nat | Skip nat

fun run_step :: "parse_step \<Rightarrow> chunk_parser \<times> arena \<Rightarrow> unit pares" where
  "run_step (Read k) = map_read (\<lambda>_. ()) (get_item k)"
| "run_step ReadManagerIntNext = map_read (\<lambda>_. ()) (with_arena (\<lambda>p. plain_read (nmo_chunk_parser_read_manager_int_sequence p)))"
| "run_step ReadSubchunk = map_read (\<lambda>_. ()) nmo_chunk_parser_read_subchunk"
| "run_step ReadIdentifier = map_read (\<lambda>_. ()) (with_arena nmo_chunk_parser_read_identifier)"
| "run_step (Seek pos) = with_arena (nmo_chunk_parser_seek pos)"
| "run_step (Skip n) = with_arena (nmo_chunk_parser_skip n)"

text \<open>The run goes on after a call that fails, in the state the call left.\<close>

fun run_steps :: "parse_step list \<Rightarrow> chunk_parser \<times> arena \<Rightarrow> (unit \<times> chunk_parser \<times> arena) eff" where
  "run_steps [] s = Done ((), s)"
| "run_steps (c # cs) s = bindE (run_step c s) (\<lambda>(_, s). run_steps cs s)"

fun own_length :: "parse_step \<Rightarrow> bool" where
  "own_length (Read KString) \<longleftrightarrow> False"
| "own_length (Read KBuffer) \<longleftrightarrow> False"
| "own_length (Read (KArray _)) \<longleftrightarrow> False"
| "own_length (Read (KArray16 _)) \<longleftrightarrow> False"
| "own_length (Read (KBytes n)) \<longleftrightarrow> byte_count_ok n"
| "own_length (Read (KBuffer16 n)) \<longleftrightarrow> byte_count_ok n"
| "own_length (Read (KBufferNosize n)) \<longleftrightarrow> n + 3 < 2 ^ 64"
| "own_length _ \<longleftrightarrow> True"

lemma safe_seek [safe_rules]: "safe (nmo_chunk_parser_seek pos)"
  by (auto simp: safe_def nmo_chunk_parser_seek_def fail_def ok_def parser_wf_cursor)

lemma safe_skip [safe_rules]: "safe (nmo_chunk_parser_skip n)"
  by (auto simp: safe_def nmo_chunk_parser_skip_def fail_def ok_def advance_def parser_wf_cursor)

lemma safe_read_identifier [safe_rules]: "safe nmo_chunk_parser_read_identifier"
proof -
  have "\<exists>x q. nmo_chunk_parser_read_identifier p = Done (x, q) \<and> parser_wf q \<and> p_chunk q = p_chunk p"
    if wf: "parser_wf p" for p
  proof (cases "check_bounds p 2")
    case True
    from checked(1,6) [OF wf True] obtain d where
      "load_dword (c_data (p_chunk p)) (p_cursor p) = Done d" "p_cursor p + 2 \<le> c_data_size (p_chunk p)" by auto
    with True wf advance_ready(1) [of "p\<lparr>p_prev_identifier_pos := p_cursor p\<rparr>" 2] show ?thesis
      by (auto simp: nmo_chunk_parser_read_identifier_def check_bounds_def ok_def advance_def)
  next
    case False
    then show ?thesis using wf by (simp add: nmo_chunk_parser_read_identifier_def check_bounds_def fail_def)
  qed
  then show ?thesis by (simp add: safe_def)
qed

lemma safe_run_step: "own_length c \<Longrightarrow> safe_in (run_step c)"
proof (cases c)
  case (Read k)
  assume "own_length c"
  then have "safe_in (get_item k)" unfolding Read
    by (cases k) (auto intro!: safe_rules safe_read_bytes safe_read_buffer_lendian16 safe_read_buffer_nosize)
  then show ?thesis unfolding Read run_step.simps by (intro safe_rules)
qed (auto intro!: safe_rules)

text \<open>
  C5: whatever words a chunk holds, any sequence of parser calls whose lengths the caller chooses -
  scalar and vector reads, byte reads below \<open>2 ^ 32 - 3\<close> bytes, object IDs, manager entries,
  sequence headers, sub-chunks, identifiers, seeks and skips, also after errors - returns, never
  reads outside the chunk's buffer and leaves the cursor inside it. Strings, buffers and the arrays with
  their element size, whose length comes from the words, are not among the calls (\<open>own_length\<close>): a string
  does leave the buffer for two lengths. Queries that read no word of the buffer are not either.
\<close>

theorem parser_calls_stay_in_bounds:
  assumes "parser_wf p" and "arena_sane a" and "list_all own_length cs"
  shows "\<exists>q b. run_steps cs (p, a) = Done ((), q, b) \<and> parser_wf q \<and> p_chunk q = p_chunk p"
  using assms
proof (induction cs arbitrary: p a)
  case (Cons c cs)
  have "safe_in (run_step c)" using Cons.prems(3) by (simp add: safe_run_step)
  then obtain x q b where q: "run_step c (p, a) = Done (x, q, b)" "parser_wf q" "p_chunk q = p_chunk p" "arena_sane b"
    unfolding safe_in_def using Cons.prems(1,2) by blast
  from Cons.IH [OF q(2,4)] Cons.prems(3) obtain r d where
    "run_steps cs (q, b) = Done ((), r, d)" "parser_wf r" "p_chunk r = p_chunk q" by auto
  with q show ?case by simp
qed simp

text \<open>A chunk of one hostile word: everything read from it fails or returns, nothing overruns.\<close>

theorem parser_calls_stay_in_bounds_witness:
  "\<exists>a q b. nmo_arena_create (\<lambda>_ _. True) (\<lambda>_ _. 0) 0 = Done (Some a)
     \<and> run_steps [ReadSubchunk, Seek 1, Skip (2 ^ 64 - 1), Read KMatrix, Read (KBytes 4)]
         (nmo_chunk_parser_create (Chunk (empty_body\<lparr>c_data := Some [0xFFFFFFFF], c_data_size := 1\<rparr>) None), a)
         = Done ((), q, b) \<and> parser_wf q"
proof -
  let ?p = "nmo_chunk_parser_create (Chunk (empty_body\<lparr>c_data := Some [0xFFFFFFFF], c_data_size := 1\<rparr>) None)"
  obtain a where a: "nmo_arena_create (\<lambda>_ _. True) (\<lambda>_ _. 0) 0 = Done (Some a)" "arena_sane a"
    by (rule default_arena_exists)
  have wf: "parser_wf ?p" by (simp add: parser_wf_def nmo_chunk_parser_create_def buffer_ok_def)
  have "list_all own_length [ReadSubchunk, Seek 1, Skip (2 ^ 64 - 1), Read KMatrix, Read (KBytes 4)]"
    by (simp add: byte_count_ok_def)
  from parser_calls_stay_in_bounds [OF wf a(2) this] a(1) show ?thesis by blast
qed

section \<open>Lengths from the data\<close>

lemma read_string_long:
  assumes p: "parser_ready p" "rest p = d # r" and a: "arena_sane a" "arena_grants a"
    and big: "unat d = 2 ^ 32 - 3 \<or> unat d = 2 ^ 32 - 2"
    and mem: "\<forall>xs. c_data (p_chunk p) = Some xs \<longrightarrow> length xs < 2 ^ 30"
  shows "nmo_chunk_parser_read_string (p, a) = Undefined"
proof -
  from parses_in_with_arena [OF read_dword_ok, of d, unfolded parses_in_def, rule_format, OF p(1) a, of r] p(2)
  obtain q b where q: "with_arena nmo_chunk_parser_read_dword (p, a) = Done (Inr d, q, b)"
    "parser_ready q" "rest q = r" "arena_sane b" "arena_grants b" by auto
  have chunk: "p_chunk q = p_chunk p"
    using safe_with_arena [OF safe_reads(3)] q(1) p(1) a(1) unfolding safe_in_def parser_ready_def by fastforce
  have d1: "unat (d + 1) = unat d + 1" using big by (auto simp: unat_word_ariths)
  have "unat (d + 1) < 2 ^ 62" "0 < unat (d + 1)" using big unfolding d1 by auto
  then obtain ra b' where "nmo_arena_alloc (unat (d + 1)) 1 b = Done (Some ra, b')"
    by (auto intro: arena_grant_region [OF q(4,5), where n = "unat (d + 1)" and al = 1] simp del: One_nat_def)
  then have g: "arena_get (unat (d + 1)) 1 (q, b) = Done (Inr (), q, b')" by (simp add: arena_get_def)
  have al: "nmo_align_dword (unat d) div 4 = 0" using big by (auto simp: nmo_align_dword_eq)
  have qr: "parser_wf q" "p_cursor q \<le> c_data_size (p_chunk q)" using q(2) by (auto simp: parser_ready_def)
  have "load_bytes (c_data (p_chunk q)) (p_cursor q) (unat d) = Undefined"
    using mem big unfolding chunk load_bytes_def by (auto split: option.splits)
  moreover have "check_bounds q 0" using qr by (simp add: check_bounds_iff)
  moreover have "unat d \<noteq> 0" "d > 0" using big by (auto simp: word_greater_zero_iff)
  ultimately show ?thesis using q(1) g
    by (simp add: nmo_chunk_parser_read_string_def with_arena_def [of "nmo_chunk_parser_read_bytes _"]
        nmo_chunk_parser_read_bytes_def al)
qed

lemma read_string_short:
  assumes p: "parser_ready p" "rest p = d # r" and a: "arena_sane a" "arena_grants a"
    and small: "unat d \<noteq> 2 ^ 32 - 3" "unat d \<noteq> 2 ^ 32 - 2"
  shows "nmo_chunk_parser_read_string (p, a) \<noteq> Undefined"
proof -
  have wf: "parser_wf p" using p(1) by (simp add: parser_ready_def)
  from parses_in_with_arena [OF read_dword_ok, of d, unfolded parses_in_def, rule_format, OF p(1) a, of r] p(2)
  obtain q b where q: "with_arena nmo_chunk_parser_read_dword (p, a) = Done (Inr d, q, b)"
    "parser_ready q" "arena_sane b" by auto
  show ?thesis
  proof (cases "d = - 1")
    case True
    then show ?thesis using q(1)
      by (simp add: nmo_chunk_parser_read_string_def arena_get_def nmo_arena_alloc_def)
  next
    case False
    then have "unat d \<noteq> 2 ^ 32 - 1" by (auto simp: word_unat_eq_iff unsigned_minus_1_eq_mask mask_eq_exp_minus_1)
    then have lt: "byte_count_ok (unat d)"
      using small unat_lt [of d] by (auto simp: byte_count_ok_def)
    have "safe_in (with_arena (nmo_chunk_parser_read_bytes (unat d)))" by (intro safe_rules safe_read_bytes lt)
    then have "safe_in (\<lambda>s. if d > 0 then with_arena (nmo_chunk_parser_read_bytes (unat d)) s else ok [] s)"
      by (cases "d > 0") (simp_all add: safe_in_ok)
    moreover have "unat (d + 1) < 2 ^ 62" using unat_lt [of "d + 1"] by simp
    then have "safe_in (arena_get (unat (d + 1)) 1)" by (intro safe_arena_get) simp_all
    ultimately have "safe_in (\<lambda>s. bindR (arena_get (unat (d + 1)) 1 s) (\<lambda>_ s.
        if d > 0 then with_arena (nmo_chunk_parser_read_bytes (unat d)) s else ok [] s))"
      by (intro safe_in_bind)
    then show ?thesis using q by (fastforce simp: nmo_chunk_parser_read_string_def safe_in_def parser_ready_def)
  qed
qed

text \<open>
  C31: the parser reads a string whose length word the data holds out of bounds exactly when the
  length is \<open>2 ^ 32 - 3\<close> or \<open>2 ^ 32 - 2\<close>: rounding those up to words wraps to zero, so the bounds check
  passes and the copy of almost 4 GB runs past the buffer. Every other length either is read or is
  refused (\<open>2 ^ 32 - 1\<close> asks the arena for zero bytes and ends in \<^verbatim>\<open>NMO_ERR_NOMEM\<close>).
\<close>

theorem read_string_overrun_iff:
  assumes "parser_ready p" "rest p = d # r" and "arena_sane a" "arena_grants a"
    and "\<forall>xs. c_data (p_chunk p) = Some xs \<longrightarrow> length xs < 2 ^ 30"
  shows "nmo_chunk_parser_read_string (p, a) = Undefined \<longleftrightarrow> unat d \<in> {2 ^ 32 - 3, 2 ^ 32 - 2}"
  using read_string_long [OF assms(1-4) _ assms(5)] read_string_short [OF assms(1-4)] by blast

text \<open>A chunk of two words whose first is the length \<open>0xFFFFFFFD\<close>.\<close>

theorem read_string_overrun_iff_witness:
  "\<exists>a. nmo_arena_create (\<lambda>_ _. True) (\<lambda>_ _. 0) 0 = Done (Some a)
     \<and> nmo_chunk_parser_read_string
         (nmo_chunk_parser_create (Chunk (empty_body\<lparr>c_data := Some [0xFFFFFFFD, 7], c_data_size := 2\<rparr>) None), a)
         = Undefined"
proof -
  let ?p = "nmo_chunk_parser_create (Chunk (empty_body\<lparr>c_data := Some [0xFFFFFFFD, 7], c_data_size := 2\<rparr>) None)"
  obtain a where a: "nmo_arena_create (\<lambda>_ _. True) (\<lambda>_ _. 0) 0 = Done (Some a)" "arena_sane a" "arena_grants a"
    by (rule default_arena_exists)
  have ready: "parser_ready ?p" and rest: "rest ?p = [0xFFFFFFFD, 7]"
    by (simp_all add: parser_ready_def parser_wf_def nmo_chunk_parser_create_def buffer_ok_def rest_def
        empty_body_def words_def)
  have "\<forall>xs. c_data (p_chunk ?p) = Some xs \<longrightarrow> length xs < 2 ^ 30"
    by (simp add: nmo_chunk_parser_create_def)
  then show ?thesis using read_string_overrun_iff [OF ready rest a(2,3)] a(1) by auto
qed

end
