(* ===== verification/ChunkSerial.thy ===== *)
theory ChunkSerial
  imports ChunkParser
begin

text \<open>
  A chunk as bytes (\<^verbatim>\<open>src/format/chunk.c\<close>): the recursive format of \<^verbatim>\<open>nmo_chunk_serialize\<close> and
  \<^verbatim>\<open>nmo_chunk_deserialize\<close>, the file layouts of \<^verbatim>\<open>nmo_chunk_serialize_version1\<close> and
  \<^verbatim>\<open>nmo_chunk_parse\<close>, and the deep copy \<^verbatim>\<open>nmo_chunk_clone\<close>.
\<close>

section \<open>Byte contexts\<close>

record nmo_write_ctx =
  wc_buffer :: "u8 list"
  wc_pos :: nat
  wc_size :: nat

record nmo_read_ctx =
  rc_buffer :: "u8 list"
  rc_pos :: nat
  rc_size :: nat

text \<open>The source of a write is an array of words; the bytes copied are its first \<open>len\<close>.\<close>

definition write_bytes :: "u32 list option \<Rightarrow> nat \<Rightarrow> nmo_write_ctx \<Rightarrow> (unit, nmo_write_ctx) cres" where
  "write_bytes data len ctx =
     (if sz_add (wc_pos ctx) len > wc_size ctx then fail NMO_ERR_BUFFER_OVERRUN ctx
      else bindE (load_bytes data 0 len) (\<lambda>bs.
        if wc_pos ctx + len \<le> length (wc_buffer ctx)
        then ok () (ctx\<lparr>wc_buffer := mem_blit (wc_buffer ctx) (wc_pos ctx) bs,
                       wc_pos := sz_add (wc_pos ctx) len\<rparr>)
        else Undefined))"

definition write_u32 :: "u32 \<Rightarrow> nmo_write_ctx \<Rightarrow> (unit, nmo_write_ctx) cres" where
  "write_u32 v = write_bytes (Some [v]) 4"

definition read_bytes :: "nat \<Rightarrow> nmo_read_ctx \<Rightarrow> (u8 list, nmo_read_ctx) cres" where
  "read_bytes len ctx =
     (if sz_add (rc_pos ctx) len > rc_size ctx then fail NMO_ERR_BUFFER_OVERRUN ctx
      else if rc_pos ctx + len \<le> length (rc_buffer ctx)
      then ok (take len (drop (rc_pos ctx) (rc_buffer ctx))) (ctx\<lparr>rc_pos := sz_add (rc_pos ctx) len\<rparr>)
      else Undefined)"

definition read_u32 :: "nmo_read_ctx \<Rightarrow> (u32, nmo_read_ctx) cres" where
  "read_u32 ctx = bindR (read_bytes 4 ctx) (\<lambda>bs. ok (hd (dwords_of_bytes bs)))"

section \<open>The recursive format\<close>

text \<open>The entries behind \<^verbatim>\<open>chunk->chunks\<close>; reading past them is undefined, as through NULL.\<close>

definition chunk_array :: "nmo_chunk option list option \<Rightarrow> nmo_chunk option list" where
  "chunk_array cs = (case cs of None \<Rightarrow> [] | Some xs \<Rightarrow> xs)"

lemma size_chunk_array [termination_simp]:
  "size_list (size_option size) (chunk_array cs) \<le> size_option (size_list (size_option size)) cs"
  by (auto simp: chunk_array_def split: option.split)

text \<open>The size of the counted list behind a flag.\<close>

definition add_list_size :: "u32 \<Rightarrow> chunk_body \<Rightarrow> nat \<Rightarrow> nat \<Rightarrow> nat" where
  "add_list_size flag b n sz =
     (if has_option (c_chunk_options b) flag then sz_add (sz_add sz 4) (sz_mul n 4) else sz)"

fun chunk_calc_size :: "nmo_chunk \<Rightarrow> nat eff"
  and calc_size_loop :: "nat \<Rightarrow> nmo_chunk option list \<Rightarrow> nat \<Rightarrow> nat eff" where
  "chunk_calc_size (Chunk b cs) =
     (let sz = add_list_size NMO_CHUNK_OPTION_IDS b (c_id_count b) (sz_add 8 (sz_mul (c_data_size b) 4))
      in bindE (if has_option (c_chunk_options b) NMO_CHUNK_OPTION_CHN
                then calc_size_loop (c_chunk_count b) (chunk_array cs) (sz_add sz 4) else Done sz) (\<lambda>sz.
           Done (add_list_size NMO_CHUNK_OPTION_MAN b (c_manager_count b) sz)))"
| "calc_size_loop 0 cs sz = Done sz"
| "calc_size_loop (Suc n) (Some c # cs) sz =
     bindE (chunk_calc_size c) (\<lambda>k. calc_size_loop n cs (sz_add sz k))"
| "calc_size_loop (Suc n) _ sz = Undefined"

definition version_word :: "chunk_body \<Rightarrow> u32" where
  "version_word b =
     (c_data_version b AND 0xFF) OR push_bit 8 (ucast (c_chunk_class_id b) AND 0xFF)
     OR push_bit 16 (c_chunk_version b AND 0xFF) OR push_bit 24 (c_chunk_options b AND 0xFF)"

text \<open>An array of \<open>n\<close> words, nothing for \<open>n = 0\<close>; and one behind its count.\<close>

definition write_array :: "u32 list option \<Rightarrow> nat \<Rightarrow> nmo_write_ctx \<Rightarrow> (unit, nmo_write_ctx) cres" where
  "write_array p n ctx = (if n > 0 then write_bytes p (sz_mul n 4) ctx else ok () ctx)"

definition write_counted ::
  "u32 list option \<Rightarrow> nat \<Rightarrow> nmo_write_ctx \<Rightarrow> (unit, nmo_write_ctx) cres" where
  "write_counted p n ctx = bindR (write_u32 (word_of_nat n) ctx) (\<lambda>_. write_array p n)"

fun chunk_serialize_internal :: "nmo_chunk \<Rightarrow> nmo_write_ctx \<Rightarrow> (unit, nmo_write_ctx) cres"
  and serialize_loop :: "nat \<Rightarrow> nmo_chunk option list \<Rightarrow> nmo_write_ctx \<Rightarrow> (unit, nmo_write_ctx) cres" where
  "chunk_serialize_internal (Chunk b cs) ctx =
     bindR (write_u32 (version_word b) ctx) (\<lambda>_ ctx.
     bindR (write_u32 (word_of_nat (c_data_size b)) ctx) (\<lambda>_ ctx.
     bindR (write_array (c_data b) (c_data_size b) ctx) (\<lambda>_ ctx.
     bindR (if has_option (c_chunk_options b) NMO_CHUNK_OPTION_IDS
            then write_counted (c_ids b) (c_id_count b) ctx else ok () ctx) (\<lambda>_ ctx.
     bindR (if has_option (c_chunk_options b) NMO_CHUNK_OPTION_CHN
            then bindR (write_u32 (word_of_nat (c_chunk_count b)) ctx) (\<lambda>_ ctx.
                   serialize_loop (c_chunk_count b) (chunk_array cs) ctx)
            else ok () ctx) (\<lambda>_ ctx.
       if has_option (c_chunk_options b) NMO_CHUNK_OPTION_MAN
       then write_counted (c_managers b) (c_manager_count b) ctx else ok () ctx)))))"
| "serialize_loop 0 cs ctx = ok () ctx"
| "serialize_loop (Suc n) (Some c # cs) ctx =
     bindR (chunk_serialize_internal c ctx) (\<lambda>_ ctx. serialize_loop n cs ctx)"
| "serialize_loop (Suc n) _ ctx = Undefined"

text \<open>The output buffer and its size in bytes.\<close>

definition nmo_chunk_serialize :: "nmo_chunk \<Rightarrow> arena \<Rightarrow> (u8 list \<times> nat, arena) cres" where
  "nmo_chunk_serialize chunk a =
     bindE (chunk_calc_size chunk) (\<lambda>total_size.
     bindE (nmo_arena_alloc total_size 4 a) (\<lambda>(q, a). case q of
       None \<Rightarrow> fail NMO_ERR_NOMEM a
     | Some rg \<Rightarrow>
         bindE (chunk_serialize_internal chunk
                 \<lparr>wc_buffer = bytes_of_dwords (fresh_dwords rg a (rg_size rg div 4)),
                  wc_pos = 0, wc_size = total_size\<rparr>) (\<lambda>(x, ctx). case x of
           Inl e \<Rightarrow> fail e a
         | Inr _ \<Rightarrow> ok (wc_buffer ctx, total_size) a)))"

subsection \<open>Reading it back\<close>

definition with_ctx ::
  "(nmo_read_ctx \<Rightarrow> ('a, nmo_read_ctx) cres) \<Rightarrow> nmo_read_ctx \<times> arena \<Rightarrow> ('a, nmo_read_ctx \<times> arena) cres" where
  "with_ctx f = (\<lambda>(ctx, a). bindE (f ctx) (\<lambda>(x, ctx). Done (x, ctx, a)))"

text \<open>The bytes of an array of \<open>count\<close> words are counted in 32 bits.\<close>

definition read_array ::
  "u32 \<Rightarrow> nmo_read_ctx \<times> arena \<Rightarrow> (u32 list option, nmo_read_ctx \<times> arena) cres" where
  "read_array count = (\<lambda>(ctx, a).
     if count > 0 then
       bindE (nmo_arena_alloc (unat (count * 4)) 4 a) (\<lambda>(q, a). case q of
         None \<Rightarrow> fail NMO_ERR_NOMEM (ctx, a)
       | Some _ \<Rightarrow> bindR (with_ctx (read_bytes (unat (count * 4))) (ctx, a)) (\<lambda>bs.
           ok (Some (dwords_of_bytes bs))))
     else ok None (ctx, a))"

fun deserialize_loop :: "('s \<Rightarrow> ('c, 's) cres) \<Rightarrow> nat \<Rightarrow> 's \<Rightarrow> ('c list, 's) cres" where
  "deserialize_loop f 0 s = ok [] s"
| "deserialize_loop f (Suc n) s =
     bindR (f s) (\<lambda>c s. bindR (deserialize_loop f n s) (\<lambda>cs. ok (c # cs)))"

text \<open>The array of sub-chunks: its memory is taken, then every entry is read.\<close>

definition read_chunks ::
  "(nmo_read_ctx \<times> arena \<Rightarrow> (nmo_chunk, nmo_read_ctx \<times> arena) cres) \<Rightarrow> u32
    \<Rightarrow> nmo_read_ctx \<times> arena \<Rightarrow> (nmo_chunk option list option, nmo_read_ctx \<times> arena) cres" where
  "read_chunks f count = (\<lambda>(ctx, a).
     if count > 0 then
       bindE (nmo_arena_alloc (sz_mul (unat count) 8) 8 a) (\<lambda>(q, a). case q of
         None \<Rightarrow> fail NMO_ERR_NOMEM (ctx, a)
       | Some _ \<Rightarrow> bindR (deserialize_loop f (unat count) (ctx, a)) (\<lambda>cs. ok (Some (map Some cs))))
     else ok None (ctx, a))"

text \<open>A list behind its count, when the flag announces it.\<close>

definition read_flagged ::
  "u32 \<Rightarrow> chunk_body \<Rightarrow> (u32 \<Rightarrow> nmo_read_ctx \<times> arena \<Rightarrow> ('a option, nmo_read_ctx \<times> arena) cres)
    \<Rightarrow> nmo_read_ctx \<times> arena \<Rightarrow> (u32 \<times> 'a option, nmo_read_ctx \<times> arena) cres" where
  "read_flagged flag b f s =
     (if has_option (c_chunk_options b) flag
      then bindR (with_ctx read_u32 s) (\<lambda>n s. bindR (f n s) (\<lambda>x. ok (n, x)))
      else ok (0, None) s)"

text \<open>
  The fuel bounds the nesting. A level reads eight bytes before it goes deeper, so a fuel above an
  eighth of the input is never used up.
\<close>

fun chunk_deserialize_internal ::
  "nat \<Rightarrow> nmo_read_ctx \<times> arena \<Rightarrow> (nmo_chunk, nmo_read_ctx \<times> arena) cres" where
  "chunk_deserialize_internal 0 s = Diverges"
| "chunk_deserialize_internal (Suc fuel) (ctx, a) =
     bindE (nmo_chunk_create a) (\<lambda>(chunk, a). case chunk of
       None \<Rightarrow> fail NMO_ERR_NOMEM (ctx, a)
     | Some chunk \<Rightarrow>
         bindR (with_ctx read_u32 (ctx, a)) (\<lambda>version_info s.
         let b = unpack_version version_info (c_body chunk)
         in bindR (with_ctx read_u32 s) (\<lambda>n s.
            bindR (read_array n s) (\<lambda>data s.
            let b = b\<lparr>c_data := data, c_data_size := unat n, c_data_capacity := unat n\<rparr>
            in bindR (read_flagged NMO_CHUNK_OPTION_IDS b read_array s) (\<lambda>(n, ids) s.
               let b = b\<lparr>c_ids := ids, c_id_count := unat n, c_id_capacity := unat n\<rparr>
               in bindR (read_flagged NMO_CHUNK_OPTION_CHN b
                          (read_chunks (chunk_deserialize_internal fuel)) s) (\<lambda>(n, chunks) s.
                  let b = b\<lparr>c_chunk_count := unat n, c_chunk_capacity := unat n\<rparr>
                  in bindR (read_flagged NMO_CHUNK_OPTION_MAN b read_array s) (\<lambda>(n, managers).
                     ok (Chunk (b\<lparr>c_managers := managers, c_manager_count := unat n,
                                  c_manager_capacity := unat n\<rparr>) chunks))))))))"

section \<open>The file layouts\<close>

definition add_counted :: "bool \<Rightarrow> nat \<Rightarrow> nat \<Rightarrow> nat" where
  "add_counted present n sz = (if present then sz_add (sz_add sz 4) (sz_mul n 4) else sz)"

definition chunk_calc_size_version1 :: "chunk_body \<Rightarrow> nat" where
  "chunk_calc_size_version1 b =
     (if unat (c_chunk_version b) < NMO_CHUNK_VERSION2 then
        sz_add (sz_add (sz_add (6 * 4) (sz_mul (c_data_size b) 4)) (sz_mul (c_id_count b) 4))
          (sz_mul (c_chunk_ref_count b) 4)
      else if unat (c_chunk_version b) = NMO_CHUNK_VERSION2 then
        sz_add (sz_add (sz_add (sz_add (7 * 4) (sz_mul (c_data_size b) 4)) (sz_mul (c_id_count b) 4))
          (sz_mul (c_chunk_ref_count b) 4)) (sz_mul (c_manager_count b) 4)
      else
        let has_ids = has_option (c_chunk_options b) NMO_CHUNK_OPTION_IDS \<or> c_id_count b > 0;
            has_chunks = has_option (c_chunk_options b) NMO_CHUNK_OPTION_CHN \<or> c_chunk_ref_count b > 0;
            has_managers = has_option (c_chunk_options b) NMO_CHUNK_OPTION_MAN \<or> c_manager_count b > 0
        in add_counted has_managers (c_manager_count b)
             (add_counted has_chunks (c_chunk_ref_count b)
               (add_counted has_ids (c_id_count b) (sz_add 8 (sz_mul (c_data_size b) 4)))))"

text \<open>
  The output buffer of words and the index of the next one. A store behind its end is undefined.
\<close>

type_synonym out_buffer = "u32 list \<times> nat"

definition out_dwords :: "u32 list \<Rightarrow> out_buffer \<Rightarrow> (unit, out_buffer) cres" where
  "out_dwords ds = (\<lambda>(buffer, pos).
     if pos + length ds \<le> length buffer then ok () (mem_blit buffer pos ds, pos + length ds)
     else Undefined)"

definition out_array :: "u32 list option \<Rightarrow> nat \<Rightarrow> out_buffer \<Rightarrow> (unit, out_buffer) cres" where
  "out_array p n s =
     (if n > 0 then
        if p = None then fail NMO_ERR_INVALID_STATE s
        else bindE (load_dwords p 0 n) (\<lambda>ds. out_dwords ds s)
      else ok () s)"

definition out_counted :: "u32 list option \<Rightarrow> nat \<Rightarrow> out_buffer \<Rightarrow> (unit, out_buffer) cres" where
  "out_counted p n s = bindR (out_dwords [word_of_nat n] s) (\<lambda>_. out_array p n)"

definition serialize_layout1 :: "u32 \<Rightarrow> chunk_body \<Rightarrow> out_buffer \<Rightarrow> (unit, out_buffer) cres" where
  "serialize_layout1 version b s =
     bindR (out_dwords
       [(c_data_version b AND 0xFF) OR push_bit 16 (version AND 0xFF), c_class_id b,
        word_of_nat (c_data_size b), 0, word_of_nat (c_id_count b), word_of_nat (c_chunk_ref_count b)] s)
     (\<lambda>_ s. bindR (out_array (c_data b) (c_data_size b) s)
     (\<lambda>_ s. bindR (out_array (c_ids b) (c_id_count b) s)
     (\<lambda>_ s. out_array (c_chunk_refs b) (c_chunk_ref_count b) s)))"

definition serialize_layout2 :: "u32 \<Rightarrow> chunk_body \<Rightarrow> out_buffer \<Rightarrow> (unit, out_buffer) cres" where
  "serialize_layout2 version b s =
     bindR (out_dwords
       [(c_data_version b AND 0xFF) OR push_bit 16 (version AND 0xFF), ucast (c_chunk_class_id b),
        word_of_nat (c_data_size b), 0, word_of_nat (c_id_count b), word_of_nat (c_chunk_ref_count b),
        word_of_nat (c_manager_count b)] s)
     (\<lambda>_ s. bindR (out_array (c_data b) (c_data_size b) s)
     (\<lambda>_ s. bindR (out_array (c_ids b) (c_id_count b) s)
     (\<lambda>_ s. bindR (out_array (c_chunk_refs b) (c_chunk_ref_count b) s)
     (\<lambda>_ s. out_array (c_managers b) (c_manager_count b) s))))"

definition option_flags :: "chunk_body \<Rightarrow> u32" where
  "option_flags b =
     c_chunk_options b OR (if c_id_count b > 0 then NMO_CHUNK_OPTION_IDS else 0)
     OR (if c_chunk_ref_count b > 0 then NMO_CHUNK_OPTION_CHN else 0)
     OR (if c_manager_count b > 0 then NMO_CHUNK_OPTION_MAN else 0)"

definition serialize_compact :: "u32 \<Rightarrow> chunk_body \<Rightarrow> out_buffer \<Rightarrow> (unit, out_buffer) cres" where
  "serialize_compact version b s =
     bindR (out_dwords
       [pack_version (ucast (c_data_version b AND 0xFF)) (class_byte b) (ucast (version AND 0xFF))
          (ucast (option_flags b AND 0xFF)), word_of_nat (c_data_size b)] s)
     (\<lambda>_ s. bindR (out_array (c_data b) (c_data_size b) s)
     (\<lambda>_ s. bindR (if has_option (option_flags b) NMO_CHUNK_OPTION_IDS
                   then out_counted (c_ids b) (c_id_count b) s else ok () s)
     (\<lambda>_ s. bindR (if has_option (option_flags b) NMO_CHUNK_OPTION_CHN
                   then out_counted (c_chunk_refs b) (c_chunk_ref_count b) s else ok () s)
     (\<lambda>_ s. if has_option (option_flags b) NMO_CHUNK_OPTION_MAN
            then out_counted (c_managers b) (c_manager_count b) s else ok () s))))"

definition clamp_version :: "u32 \<Rightarrow> u32" where
  "clamp_version v =
     (if unat v < NMO_CHUNK_VERSION1 then word_of_nat NMO_CHUNK_VERSION1
      else if unat v > NMO_CHUNK_VERSION4 then word_of_nat NMO_CHUNK_VERSION4 else v)"

text \<open>The words of the output buffer and its size in bytes.\<close>

definition nmo_chunk_serialize_version1 :: "nmo_chunk \<Rightarrow> arena \<Rightarrow> (u32 list \<times> nat, arena) cres" where
  "nmo_chunk_serialize_version1 chunk a =
     (let b = c_body chunk;
          total_size = chunk_calc_size_version1 b
      in bindE (nmo_arena_alloc total_size 4 a) (\<lambda>(q, a). case q of
           None \<Rightarrow> fail NMO_ERR_NOMEM a
         | Some rg \<Rightarrow>
             let s = (fresh_dwords rg a (rg_size rg div 4), 0);
                 v = clamp_version (c_chunk_version b)
             in bindE (if unat v < NMO_CHUNK_VERSION2 then serialize_layout1 v b s
                       else if unat v = NMO_CHUNK_VERSION2 then serialize_layout2 v b s
                       else serialize_compact v b s) (\<lambda>(x, buffer, pos). case x of
                  Inl e \<Rightarrow> fail e a
                | Inr _ \<Rightarrow> ok (buffer, total_size) a)))"

subsection \<open>Parsing\<close>

text \<open>
  The state is the position in words, the chunk being filled and its arena. The input is the memory
  behind \<^verbatim>\<open>data\<close>, read as words, and the size the caller announces.
\<close>

type_synonym parse_state = "nat \<times> chunk_body \<times> arena"

definition buffer_words :: "u8 list \<Rightarrow> u32 list option" where
  "buffer_words data = Some (dwords_of_bytes (take (length data div 4 * 4) data))"

definition next_dword :: "u32 list option \<Rightarrow> parse_state \<Rightarrow> (u32, parse_state) cres" where
  "next_dword buf = (\<lambda>(pos, b, a). bindE (load_dword buf pos) (\<lambda>d. ok d (pos + 1, b, a)))"

definition set_chunk :: "(chunk_body \<Rightarrow> chunk_body) \<Rightarrow> parse_state \<Rightarrow> (unit, parse_state) cres" where
  "set_chunk f = (\<lambda>(pos, b, a). ok () (pos, f b, a))"

text \<open>
  One counted array: \<open>point\<close> sets the pointer, also to NULL when the allocation fails, \<open>count_as\<close> the
  count, the capacity and, in the older layouts, the option flag.
\<close>

definition parse_array ::
  "u32 list option \<Rightarrow> nat \<Rightarrow> u32 \<Rightarrow> (u32 list option \<Rightarrow> chunk_body \<Rightarrow> chunk_body)
    \<Rightarrow> (nat \<Rightarrow> chunk_body \<Rightarrow> chunk_body) \<Rightarrow> parse_state \<Rightarrow> (unit, parse_state) cres" where
  "parse_array buf size_dwords count point count_as = (\<lambda>(pos, b, a).
     if count > 0 then
       if sz_add pos (unat count) > size_dwords then fail NMO_ERR_INVALID_STATE (pos, b, a)
       else bindE (nmo_arena_alloc (sz_mul (unat count) 4) 4 a) (\<lambda>(q, a). case q of
         None \<Rightarrow> fail NMO_ERR_NOMEM (pos, point None b, a)
       | Some _ \<Rightarrow> bindE (load_dwords buf pos (unat count)) (\<lambda>ds.
           ok () (pos + unat count, count_as (unat count) (point (Some ds) b), a)))
     else ok () (pos, b, a))"

definition set_data :: "u32 list option \<Rightarrow> chunk_body \<Rightarrow> chunk_body" where
  "set_data p b = b\<lparr>c_data := p\<rparr>"
definition size_data :: "nat \<Rightarrow> chunk_body \<Rightarrow> chunk_body" where
  "size_data n b = b\<lparr>c_data_size := n, c_data_capacity := n\<rparr>"
definition set_ids :: "u32 list option \<Rightarrow> chunk_body \<Rightarrow> chunk_body" where
  "set_ids p b = b\<lparr>c_ids := p\<rparr>"
definition size_ids :: "u32 \<Rightarrow> nat \<Rightarrow> chunk_body \<Rightarrow> chunk_body" where
  "size_ids flag n b = b\<lparr>c_id_count := n, c_id_capacity := n, c_chunk_options := c_chunk_options b OR flag\<rparr>"
definition set_refs :: "u32 list option \<Rightarrow> chunk_body \<Rightarrow> chunk_body" where
  "set_refs p b = b\<lparr>c_chunk_refs := p\<rparr>"
definition size_refs :: "u32 \<Rightarrow> nat \<Rightarrow> chunk_body \<Rightarrow> chunk_body" where
  "size_refs flag n b =
     b\<lparr>c_chunk_ref_count := n, c_chunk_ref_capacity := n, c_chunk_options := c_chunk_options b OR flag\<rparr>"
definition set_managers :: "u32 list option \<Rightarrow> chunk_body \<Rightarrow> chunk_body" where
  "set_managers p b = b\<lparr>c_managers := p\<rparr>"
definition size_managers :: "u32 \<Rightarrow> nat \<Rightarrow> chunk_body \<Rightarrow> chunk_body" where
  "size_managers flag n b =
     b\<lparr>c_manager_count := n, c_manager_capacity := n, c_chunk_options := c_chunk_options b OR flag\<rparr>"

text \<open>The check of a header of \<open>k\<close> words, and the reserved word, which is passed over.\<close>

definition header_room :: "nat \<Rightarrow> nat \<Rightarrow> parse_state \<Rightarrow> (unit, parse_state) cres" where
  "header_room size_dwords k = (\<lambda>(pos, b, a).
     if sz_add pos k > size_dwords then fail NMO_ERR_INVALID_STATE (pos, b, a) else ok () (pos, b, a))"

definition skip_dword :: "parse_state \<Rightarrow> (unit, parse_state) cres" where
  "skip_dword = (\<lambda>(pos, b, a). ok () (pos + 1, b, a))"

definition parse_layout1 :: "u32 list option \<Rightarrow> nat \<Rightarrow> parse_state \<Rightarrow> (unit, parse_state) cres" where
  "parse_layout1 buf n s =
     bindR (header_room n 5 s) (\<lambda>_ s.
     bindR (next_dword buf s) (\<lambda>class_id s.
     bindR (set_chunk (\<lambda>b. b\<lparr>c_class_id := class_id, c_chunk_class_id := ucast (class_id AND 0xFF)\<rparr>) s) (\<lambda>_ s.
     bindR (next_dword buf s) (\<lambda>chunk_size s.
     bindR (skip_dword s) (\<lambda>_ s.
     bindR (next_dword buf s) (\<lambda>id_count s.
     bindR (next_dword buf s) (\<lambda>chunk_count s.
     bindR (parse_array buf n chunk_size set_data size_data s) (\<lambda>_ s.
     bindR (parse_array buf n id_count set_ids (size_ids NMO_CHUNK_OPTION_IDS) s) (\<lambda>_ s.
       parse_array buf n chunk_count set_refs (size_refs NMO_CHUNK_OPTION_CHN) s)))))))))"

text \<open>The header check asks for five words; six are read.\<close>

definition parse_layout2 :: "u32 list option \<Rightarrow> nat \<Rightarrow> parse_state \<Rightarrow> (unit, parse_state) cres" where
  "parse_layout2 buf n s =
     bindR (header_room n 5 s) (\<lambda>_ s.
     bindR (next_dword buf s) (\<lambda>class_id s.
     bindR (set_chunk (\<lambda>b. b\<lparr>c_chunk_class_id := ucast class_id\<rparr>) s) (\<lambda>_ s.
     bindR (next_dword buf s) (\<lambda>chunk_size s.
     bindR (skip_dword s) (\<lambda>_ s.
     bindR (next_dword buf s) (\<lambda>id_count s.
     bindR (next_dword buf s) (\<lambda>chunk_count s.
     bindR (next_dword buf s) (\<lambda>manager_count s.
     bindR (parse_array buf n chunk_size set_data size_data s) (\<lambda>_ s.
     bindR (parse_array buf n id_count set_ids (size_ids NMO_CHUNK_OPTION_IDS) s) (\<lambda>_ s.
     bindR (parse_array buf n chunk_count set_refs (size_refs NMO_CHUNK_OPTION_CHN) s) (\<lambda>_ s.
       parse_array buf n manager_count set_managers (size_managers NMO_CHUNK_OPTION_MAN) s)))))))))))"

definition checked_dword :: "u32 list option \<Rightarrow> nat \<Rightarrow> parse_state \<Rightarrow> (u32, parse_state) cres" where
  "checked_dword buf n = (\<lambda>(pos, b, a).
     if pos \<ge> n then fail NMO_ERR_INVALID_STATE (pos, b, a) else next_dword buf (pos, b, a))"

definition parse_flagged ::
  "u32 list option \<Rightarrow> nat \<Rightarrow> bool \<Rightarrow> (u32 list option \<Rightarrow> chunk_body \<Rightarrow> chunk_body)
    \<Rightarrow> (nat \<Rightarrow> chunk_body \<Rightarrow> chunk_body) \<Rightarrow> parse_state \<Rightarrow> (unit, parse_state) cres" where
  "parse_flagged buf n present point count_as s =
     (if present then bindR (checked_dword buf n s) (\<lambda>count. parse_array buf n count point count_as)
      else ok () s)"

definition parse_compact :: "u32 list option \<Rightarrow> nat \<Rightarrow> u32 \<Rightarrow> parse_state \<Rightarrow> (unit, parse_state) cres" where
  "parse_compact buf n val s =
     (let options = drop_bit 24 val AND 0xFF
      in bindR (set_chunk (\<lambda>b. b\<lparr>c_chunk_class_id := ucast (drop_bit 8 val AND 0xFF),
                                 c_chunk_options := options,
                                 c_data_version := val AND 0xFF,
                                 c_chunk_version := drop_bit 16 val AND 0xFF\<rparr>) s) (\<lambda>_ s.
         bindR (checked_dword buf n s) (\<lambda>chunk_size s.
         bindR (parse_array buf n chunk_size set_data size_data s) (\<lambda>_ s.
         bindR (parse_flagged buf n (has_option options NMO_CHUNK_OPTION_IDS) set_ids (size_ids 0) s) (\<lambda>_ s.
         bindR (parse_flagged buf n (has_option options NMO_CHUNK_OPTION_CHN) set_refs (size_refs 0) s) (\<lambda>_ s.
           parse_flagged buf n (has_option options NMO_CHUNK_OPTION_MAN) set_managers (size_managers 0) s))))))"

definition parse_layouts :: "u32 list option \<Rightarrow> nat \<Rightarrow> chunk_body \<Rightarrow> arena \<Rightarrow> (unit, parse_state) cres" where
  "parse_layouts buf n b a =
     bindR (next_dword buf (0, b, a)) (\<lambda>val s.
     let version = drop_bit 16 val AND 0xFF
     in bindR (set_chunk (\<lambda>b. b\<lparr>c_data_version := val AND 0xFF, c_chunk_version := version\<rparr>) s) (\<lambda>_ s.
          if unat version < NMO_CHUNK_VERSION2 then parse_layout1 buf n s
          else if unat version = NMO_CHUNK_VERSION2 then parse_layout2 buf n s
          else if unat version \<le> NMO_CHUNK_VERSION4 then parse_compact buf n val s
          else fail NMO_ERR_UNSUPPORTED_VERSION s))"

text \<open>The chunk passed in is filled in place, also when an error is returned.\<close>

definition nmo_chunk_parse :: "nmo_chunk \<Rightarrow> u8 list \<Rightarrow> nat \<Rightarrow> arena \<Rightarrow> (unit, nmo_chunk \<times> arena) cres" where
  "nmo_chunk_parse chunk data sz a =
     (if sz = 0 then fail NMO_ERR_INVALID_ARGUMENT (chunk, a)
      else
        let b = (c_body chunk)\<lparr>c_raw_data := Some data, c_raw_size := sz\<rparr>;
            n = sz div 4
        in if n < 1 then fail NMO_ERR_INVALID_STATE (Chunk b (c_chunks chunk), a)
           else bindE (parse_layouts (buffer_words data) n b a) (\<lambda>(x, pos, b, a).
                  Done (x, Chunk b (c_chunks chunk), a)))"

section \<open>Deserialize, clone and accessors\<close>

definition nmo_chunk_deserialize :: "u8 list \<Rightarrow> nat \<Rightarrow> arena \<Rightarrow> (nmo_chunk, arena) cres" where
  "nmo_chunk_deserialize data sz a =
     (if sz < 8 then fail NMO_ERR_BUFFER_OVERRUN a
      else bindE (chunk_deserialize_internal (Suc (sz div 8))
                   (\<lparr>rc_buffer = data, rc_pos = 0, rc_size = sz\<rparr>, a)) (\<lambda>(x, ctx, a). Done (x, a)))"

text \<open>
  Copy of an array: the new pointer and count, NULL and zero when there is nothing to copy; \<open>None\<close>
  when the arena refuses.
\<close>

definition clone_array :: "u32 list option \<Rightarrow> nat \<Rightarrow> arena \<Rightarrow> ((u32 list option \<times> nat) option \<times> arena) eff" where
  "clone_array p n a =
     (if p \<noteq> None \<and> n > 0 then
        bindE (nmo_arena_alloc (sz_mul n 4) 4 a) (\<lambda>(q, a). case q of
          None \<Rightarrow> Done (None, a)
        | Some _ \<Rightarrow> bindE (load_dwords p 0 n) (\<lambda>ds. Done (Some (Some ds, n), a)))
      else Done (Some (None, 0), a))"

definition bindO :: "('a option \<times> arena) eff \<Rightarrow> ('a \<Rightarrow> arena \<Rightarrow> ('b option \<times> arena) eff) \<Rightarrow> ('b option \<times> arena) eff" where
  "bindO m f = bindE m (\<lambda>(x, a). case x of None \<Rightarrow> Done (None, a) | Some x \<Rightarrow> f x a)"

lemma bindO_cong [fundef_cong]:
  assumes "m = m'" and "\<And>x a. m' = Done (Some x, a) \<Longrightarrow> f x a = f' x a"
  shows "bindO m f = bindO m' f'"
  using assms by (auto simp: bindO_def bindE_def split: eff.splits option.splits)

fun nmo_chunk_clone :: "nmo_chunk \<Rightarrow> arena \<Rightarrow> (nmo_chunk option \<times> arena) eff"
  and clone_loop :: "nat \<Rightarrow> nmo_chunk option list \<Rightarrow> arena \<Rightarrow> (nmo_chunk option list option \<times> arena) eff" where
  "nmo_chunk_clone (Chunk b cs) a =
     bindE (nmo_arena_alloc sizeof_chunk 16 a) (\<lambda>(q, a). case q of
       None \<Rightarrow> Done (None, a)
     | Some _ \<Rightarrow>
         bindO (clone_array (c_data b) (c_data_size b) a) (\<lambda>(data, data_size) a.
         bindO (clone_array (c_ids b) (c_id_count b) a) (\<lambda>(ids, id_count) a.
         bindO (clone_array (c_managers b) (c_manager_count b) a) (\<lambda>(managers, manager_count) a.
         bindO (if cs \<noteq> None \<and> c_chunk_count b > 0 then
                  bindE (nmo_arena_alloc (sz_mul (c_chunk_count b) 8) 8 a) (\<lambda>(q, a). case q of
                    None \<Rightarrow> Done (None, a)
                  | Some _ \<Rightarrow> bindO (clone_loop (c_chunk_count b) (chunk_array cs) a) (\<lambda>xs a.
                      Done (Some (Some xs, c_chunk_count b), a)))
                else Done (Some (None, 0), a)) (\<lambda>(chunks, chunk_count) a.
         bindO (clone_array (c_chunk_refs b) (c_chunk_ref_count b) a) (\<lambda>(refs, ref_count) a.
           Done (Some (Chunk
             \<lparr>c_class_id = c_class_id b, c_data_version = c_data_version b,
              c_chunk_version = c_chunk_version b, c_chunk_class_id = c_chunk_class_id b,
              c_chunk_options = c_chunk_options b, c_data = data, c_data_size = data_size,
              c_data_capacity = data_size, c_ids = ids, c_id_count = id_count, c_id_capacity = id_count,
              c_chunk_count = chunk_count, c_chunk_capacity = chunk_count, c_chunk_refs = refs,
              c_chunk_ref_count = ref_count, c_chunk_ref_capacity = ref_count, c_managers = managers,
              c_manager_count = manager_count, c_manager_capacity = manager_count,
              c_uncompressed_size = 0, c_compressed_size = 0, c_is_compressed = False,
              c_unpack_size = 0, c_raw_data = None, c_raw_size = 0, c_owns_data = False\<rparr> chunks), a)))))))"
| "clone_loop 0 cs a = Done (Some [], a)"
| "clone_loop (Suc n) [] a = Undefined"
| "clone_loop (Suc n) (None # cs) a = bindO (clone_loop n cs a) (\<lambda>xs a. Done (Some (None # xs), a))"
| "clone_loop (Suc n) (Some c # cs) a =
     bindO (nmo_chunk_clone c a) (\<lambda>x a. bindO (clone_loop n cs a) (\<lambda>xs a. Done (Some (Some x # xs), a)))"

record nmo_chunk_header =
  chunk_id :: u32
  chunk_size :: u32
  sub_chunk_count :: u32
  hdr_flags :: u32

definition nmo_chunk_get_header :: "nmo_chunk \<Rightarrow> nmo_chunk_header" where
  "nmo_chunk_get_header chunk =
     (let b = c_body chunk
      in \<lparr>chunk_id = c_class_id b, chunk_size = word_of_nat (sz_mul (c_data_size b) 4),
          sub_chunk_count = word_of_nat (c_chunk_count b), hdr_flags = c_chunk_options b\<rparr>)"

definition nmo_chunk_get_data :: "nmo_chunk \<Rightarrow> u32 list option \<times> nat" where
  "nmo_chunk_get_data chunk = (c_data (c_body chunk), sz_mul (c_data_size (c_body chunk)) 4)"

end
