(* ===== verification/SerialSpec.thy ===== *)
theory SerialSpec
  imports ChunkSerial ParserSafety
begin

text \<open>
  The recursive format of a chunk as a list of words: what \<^verbatim>\<open>nmo_chunk_serialize\<close> stores, the size it
  computes for it, and what \<^verbatim>\<open>nmo_chunk_deserialize\<close> makes of it.
\<close>

section \<open>The words of a chunk\<close>

fun tree_ok :: "nmo_chunk \<Rightarrow> bool" and forest_ok :: "nat \<Rightarrow> nmo_chunk option list \<Rightarrow> bool" where
  "tree_ok (Chunk b cs) \<longleftrightarrow> body_ok b
     \<and> (has_option (c_chunk_options b) NMO_CHUNK_OPTION_CHN \<longrightarrow> forest_ok (c_chunk_count b) (chunk_array cs))"
| "forest_ok 0 cs \<longleftrightarrow> True"
| "forest_ok (Suc n) (Some c # cs) \<longleftrightarrow> tree_ok c \<and> forest_ok n cs"
| "forest_ok (Suc n) _ \<longleftrightarrow> False"

definition counted_words :: "bool \<Rightarrow> nat \<Rightarrow> u32 list \<Rightarrow> u32 list" where
  "counted_words present n ds = (if present then word_of_nat n # ds else [])"

fun chunk_words :: "nmo_chunk \<Rightarrow> u32 list" and forest_words :: "nat \<Rightarrow> nmo_chunk option list \<Rightarrow> u32 list" where
  "chunk_words (Chunk b cs) =
     [version_word b, word_of_nat (c_data_size b)] @ words (c_data b) (c_data_size b)
     @ counted_words (has_option (c_chunk_options b) NMO_CHUNK_OPTION_IDS) (c_id_count b)
         (words (c_ids b) (c_id_count b))
     @ (if has_option (c_chunk_options b) NMO_CHUNK_OPTION_CHN
        then word_of_nat (c_chunk_count b) # forest_words (c_chunk_count b) (chunk_array cs) else [])
     @ counted_words (has_option (c_chunk_options b) NMO_CHUNK_OPTION_MAN) (c_manager_count b)
         (words (c_managers b) (c_manager_count b))"
| "forest_words 0 cs = []"
| "forest_words (Suc n) (Some c # cs) = chunk_words c @ forest_words n cs"
| "forest_words (Suc n) _ = []"

lemma length_counted_words [simp]:
  "length (counted_words present n ds) = (if present then Suc (length ds) else 0)"
  by (simp add: counted_words_def)

section \<open>The size computed is the size written\<close>

lemma add_list_size_eq:
  "\<not> has_option (c_chunk_options b) flag \<Longrightarrow> add_list_size flag b n sz = sz"
  "has_option (c_chunk_options b) flag \<Longrightarrow> sz + 4 + 4 * n < 2 ^ 62 \<Longrightarrow> add_list_size flag b n sz = sz + 4 + 4 * n"
  by (simp_all add: add_list_size_def sz_mul_small sz_add_small)

lemma calc_size_words:
  "tree_ok c \<Longrightarrow> 4 * length (chunk_words c) < 2 ^ 62 \<Longrightarrow> chunk_calc_size c = Done (4 * length (chunk_words c))"
  "forest_ok n cs \<Longrightarrow> sz + 4 * length (forest_words n cs) < 2 ^ 62 \<Longrightarrow>
     calc_size_loop n cs sz = Done (sz + 4 * length (forest_words n cs))"
proof (induction c and n cs sz rule: chunk_calc_size_calc_size_loop.induct)
  case (1 b cs)
  have ok: "body_ok b" using "1.prems" by simp
  let ?f = "\<lambda>x. has_option (c_chunk_options b) x"
  let ?sz = "8 + 4 * c_data_size b + (if ?f NMO_CHUNK_OPTION_IDS then 4 + 4 * c_id_count b else 0)"
  have len: "4 * length (chunk_words (Chunk b cs)) =
      ?sz + (if ?f NMO_CHUNK_OPTION_CHN then 4 + 4 * length (forest_words (c_chunk_count b) (chunk_array cs)) else 0)
      + (if ?f NMO_CHUNK_OPTION_MAN then 4 + 4 * c_manager_count b else 0)"
    using ok by (simp add: body_ok_def)
  have a: "add_list_size NMO_CHUNK_OPTION_IDS b (c_id_count b) (sz_add 8 (sz_mul (c_data_size b) 4)) = ?sz"
    using "1.prems"(2) unfolding len by (auto simp: add_list_size_eq sz_mul_small sz_add_small split: if_splits)
  have l: "?f NMO_CHUNK_OPTION_CHN \<Longrightarrow> calc_size_loop (c_chunk_count b) (chunk_array cs) (sz_add ?sz 4)
      = Done (?sz + 4 + 4 * length (forest_words (c_chunk_count b) (chunk_array cs)))"
    using "1.IH" [OF a [symmetric]] "1.prems" unfolding len by (simp add: sz_add_small)
  show ?case
    using "1.prems"(2) l unfolding len by (simp add: a add_list_size_eq split: if_splits)
next
  case (3 n c cs sz)
  then show ?case using "3.IH"(2) [of "4 * length (chunk_words c)"] by (simp add: sz_add_small add.assoc)
qed simp_all

section \<open>Sinks of words\<close>

text \<open>
  Something words are stored into one after the other: a context with room for \<open>n\<close> more words, and
  the context after the store. What an operation stores can then be read off its structure.
\<close>

locale word_sink =
  fixes room :: "'s \<Rightarrow> nat \<Rightarrow> bool"
    and put :: "u32 list \<Rightarrow> 's \<Rightarrow> 's"
  assumes put_nil: "room s 0 \<Longrightarrow> put [] s = s"
    and put_put: "room s (length ds + length es) \<Longrightarrow> put es (put ds s) = put (ds @ es) s"
    and room_put: "room s (length ds + n) \<Longrightarrow> room (put ds s) n"
    and room_less: "room s (m + n) \<Longrightarrow> room s m"
begin

definition appends :: "('s \<Rightarrow> (unit, 's) cres) \<Rightarrow> u32 list \<Rightarrow> bool" where
  "appends f ds \<longleftrightarrow> (\<forall>s. room s (length ds) \<longrightarrow> f s = ok () (put ds s))"

lemma appends_nothing: "appends (\<lambda>s. ok () s) []"
  by (simp add: appends_def put_nil)

lemma appends_bind:
  assumes "appends f ds" and "appends g es"
  shows "appends (\<lambda>s. bindR (f s) (\<lambda>_ s. g s)) (ds @ es)"
  using assms room_put room_less by (fastforce simp: appends_def put_put)

lemma appends_if:
  "(P \<Longrightarrow> appends f ds) \<Longrightarrow> appends (\<lambda>s. if P then f s else ok () s) (if P then ds else [])"
  using appends_nothing by simp

end

section \<open>Serializing writes these words\<close>

text \<open>A context with room for \<open>n\<close> words, and the context after storing some.\<close>

definition wc_ready :: "nmo_write_ctx \<Rightarrow> nat \<Rightarrow> bool" where
  "wc_ready ctx n \<longleftrightarrow> wc_pos ctx + 4 * n \<le> wc_size ctx \<and> wc_size ctx = length (wc_buffer ctx) \<and> wc_size ctx < 2 ^ 62"

definition appended :: "u32 list \<Rightarrow> nmo_write_ctx \<Rightarrow> nmo_write_ctx" where
  "appended ds ctx = ctx\<lparr>wc_buffer := mem_blit (wc_buffer ctx) (wc_pos ctx) (bytes_of_dwords ds),
                        wc_pos := wc_pos ctx + 4 * length ds\<rparr>"

lemma mem_blit_twice:
  "i + length ys + length zs \<le> length xs \<Longrightarrow>
     mem_blit (mem_blit xs i ys) (i + length ys) zs = mem_blit xs i (ys @ zs)"
  by (cases ys) (auto simp: mem_blit_def min_def add.assoc add.commute [of "length zs"])

lemma appended_twice: "wc_ready ctx (length ds + length es) \<Longrightarrow> appended es (appended ds ctx) = appended (ds @ es) ctx"
  using mem_blit_twice [of "wc_pos ctx" "bytes_of_dwords ds" "bytes_of_dwords es" "wc_buffer ctx"]
  by (simp add: appended_def wc_ready_def)

lemma wc_ready_appended: "wc_ready ctx (length ds + n) \<Longrightarrow> wc_ready (appended ds ctx) n"
  by (simp add: appended_def wc_ready_def)

interpretation ctx: word_sink wc_ready appended
  by unfold_locales (simp_all add: appended_twice wc_ready_appended, simp_all add: appended_def mem_blit_def wc_ready_def)

lemma appends_bytes:
  assumes "length ds = n" "load_bytes p 0 (4 * n) = Done (bytes_of_dwords ds)"
  shows "ctx.appends (write_bytes p (4 * n)) ds"
  using assms by (auto simp: ctx.appends_def wc_ready_def write_bytes_def sz_add_small appended_def ok_def)

lemma appends_u32: "ctx.appends (write_u32 v) [v]"
  unfolding write_u32_def using appends_bytes [of "[v]" 1 "Some [v]"] by (simp add: load_bytes_def)

lemma appends_array:
  assumes "buffer_ok p n"
  shows "ctx.appends (write_array p n) (words p n)"
proof (cases "n = 0")
  case False
  with assms obtain xs where p: "p = Some xs" "n \<le> length xs" "n < 2 ^ 60"
    by (auto simp: buffer_ok_def split: option.splits)
  have "load_bytes p 0 (4 * n) = Done (bytes_of_dwords (take n xs))"
    using p by (simp add: load_bytes_def take_bytes_of_dwords)
  with p False show ?thesis using appends_bytes [of "take n xs" n p]
    by (simp add: write_array_def [abs_def] sz_mul_small mult.commute [of n 4] words_def)
qed (use ctx.appends_nothing in \<open>simp add: write_array_def [abs_def] words_def split: option.split\<close>)

lemma appends_counted:
  "buffer_ok p n \<Longrightarrow> ctx.appends (write_counted p n) (word_of_nat n # words p n)"
  using ctx.appends_bind [OF appends_u32 appends_array] by (simp add: write_counted_def [abs_def])

lemma serialize_words:
  "tree_ok c \<Longrightarrow> ctx.appends (chunk_serialize_internal c) (chunk_words c)"
  "forest_ok n cs \<Longrightarrow> ctx.appends (serialize_loop n cs) (forest_words n cs)"
proof (induction c and n cs rule: chunk_words_forest_words.induct)
  case (1 b cs)
  then have "buffer_ok (c_data b) (c_data_size b)" "buffer_ok (c_ids b) (c_id_count b)"
    "buffer_ok (c_managers b) (c_manager_count b)" by (auto simp: body_ok_def)
  note rules = this [THEN appends_array] this(2,3) [THEN appends_counted] 
  have "ctx.appends (chunk_serialize_internal (Chunk b cs))
     ([version_word b] @ [word_of_nat (c_data_size b)] @ words (c_data b) (c_data_size b)
     @ (if has_option (c_chunk_options b) NMO_CHUNK_OPTION_IDS
        then word_of_nat (c_id_count b) # words (c_ids b) (c_id_count b) else [])
     @ (if has_option (c_chunk_options b) NMO_CHUNK_OPTION_CHN
        then [word_of_nat (c_chunk_count b)] @ forest_words (c_chunk_count b) (chunk_array cs) else [])
     @ (if has_option (c_chunk_options b) NMO_CHUNK_OPTION_MAN
        then word_of_nat (c_manager_count b) # words (c_managers b) (c_manager_count b) else []))"
    unfolding chunk_serialize_internal.simps [abs_def]
    by (intro ctx.appends_bind ctx.appends_if appends_u32 rules "1.IH") (use "1.prems" in simp_all)
  then show ?case by (simp only: chunk_words.simps counted_words_def append.simps)
next
  case (2 cs)
  show ?case using ctx.appends_nothing by (simp add: ctx.appends_def)
next
  case (3 n c cs)
  then show ?case using ctx.appends_bind [OF 3(1) 3(2)] by (simp add: ctx.appends_def)
qed simp_all

lemma serialize_encodes:
  assumes "tree_ok c" and "4 * length (chunk_words c) < 2 ^ 61" and "arena_sane a" "arena_grants a"
  shows "\<exists>b. nmo_chunk_serialize c a
      = ok (bytes_of_dwords (chunk_words c), 4 * length (chunk_words c)) b \<and> arena_sane b \<and> arena_grants b"
proof -
  let ?ds = "chunk_words c"
  have n: "0 < 4 * length ?ds" by (cases c) simp
  have "4 * length ?ds < 2 ^ 62" using assms(2) by simp
  from arena_grant_region [OF assms(3,4) n this] obtain r b where
    q: "nmo_arena_alloc (4 * length ?ds) 4 a = Done (Some r, b)" "arena_sane b" "arena_grants b" by auto
  let ?ctx = "\<lparr>wc_buffer = bytes_of_dwords (fresh_dwords r b (rg_size r div 4)), wc_pos = 0, wc_size = 4 * length ?ds\<rparr>"
  have "wc_ready ?ctx (length ?ds)"
    using assms(2) arena_alloc_size [OF q(1)] by (simp add: wc_ready_def)
  with serialize_words(1) [OF assms(1)] have "chunk_serialize_internal c ?ctx = ok () (appended ?ds ?ctx)"
    by (simp add: ctx.appends_def)
  moreover have "wc_buffer (appended ?ds ?ctx) = bytes_of_dwords ?ds"
    using arena_alloc_size [OF q(1)] by (simp add: appended_def mem_blit_def)
  ultimately show ?thesis
    using calc_size_words(1) [OF assms(1)] assms(2) q by (simp add: nmo_chunk_serialize_def ok_def)
qed

section \<open>Reading the words back\<close>

text \<open>
  What reading a chunk back gives: the fields the format carries, without the lists whose flag is
  not set.
\<close>

definition kept :: "bool \<Rightarrow> u32 list option \<Rightarrow> nat \<Rightarrow> u32 list option" where
  "kept present p n = (if present \<and> n > 0 then Some (words p n) else None)"

fun stored :: "nmo_chunk \<Rightarrow> nmo_chunk" and forest_stored :: "nat \<Rightarrow> nmo_chunk option list \<Rightarrow> nmo_chunk list" where
  "stored (Chunk b cs) =
     (let ids = has_option (c_chunk_options b) NMO_CHUNK_OPTION_IDS;
          chn = has_option (c_chunk_options b) NMO_CHUNK_OPTION_CHN;
          man = has_option (c_chunk_options b) NMO_CHUNK_OPTION_MAN
      in Chunk (empty_body
          \<lparr>c_data_version := c_data_version b AND 0xFF, c_chunk_class_id := c_chunk_class_id b,
           c_chunk_version := c_chunk_version b AND 0xFF, c_chunk_options := c_chunk_options b AND 0xFF,
           c_data := kept True (c_data b) (c_data_size b),
           c_data_size := c_data_size b, c_data_capacity := c_data_size b,
           c_ids := kept ids (c_ids b) (c_id_count b),
           c_id_count := (if ids then c_id_count b else 0), c_id_capacity := (if ids then c_id_count b else 0),
           c_chunk_count := (if chn then c_chunk_count b else 0),
           c_chunk_capacity := (if chn then c_chunk_count b else 0),
           c_managers := kept man (c_managers b) (c_manager_count b),
           c_manager_count := (if man then c_manager_count b else 0),
           c_manager_capacity := (if man then c_manager_count b else 0)\<rparr>)
        (if chn \<and> c_chunk_count b > 0
         then Some (map Some (forest_stored (c_chunk_count b) (chunk_array cs))) else None))"
| "forest_stored 0 cs = []"
| "forest_stored (Suc n) (Some c # cs) = stored c # forest_stored n cs"
| "forest_stored (Suc n) _ = []"

text \<open>
  \<open>f\<close> consumes the words \<open>ds\<close> in front of a context and returns \<open>x\<close>, whatever follows.
\<close>

definition rc_ready :: "nmo_read_ctx \<Rightarrow> u8 list \<Rightarrow> bool" where
  "rc_ready ctx bs \<longleftrightarrow> rc_size ctx = length (rc_buffer ctx) \<and> rc_size ctx < 2 ^ 62
     \<and> rc_pos ctx \<le> rc_size ctx \<and> drop (rc_pos ctx) (rc_buffer ctx) = bs"

definition decodes :: "(nmo_read_ctx \<times> arena \<Rightarrow> ('a, nmo_read_ctx \<times> arena) cres) \<Rightarrow> u32 list \<Rightarrow> 'a \<Rightarrow> bool" where
  "decodes f ds x \<longleftrightarrow> (\<forall>ctx a bs. rc_ready ctx (bytes_of_dwords ds @ bs) \<longrightarrow> arena_sane a \<longrightarrow> arena_grants a \<longrightarrow>
     (\<exists>b. f (ctx, a) = ok x (ctx\<lparr>rc_pos := rc_pos ctx + 4 * length ds\<rparr>, b) \<and> arena_sane b \<and> arena_grants b))"

lemma rc_ready_advance:
  assumes "rc_ready ctx (bytes_of_dwords ds @ bs)"
  shows "rc_ready (ctx\<lparr>rc_pos := rc_pos ctx + 4 * length ds\<rparr>) bs" "rc_pos ctx + 4 * length ds \<le> rc_size ctx"
proof -
  have "rc_size ctx - rc_pos ctx = 4 * length ds + length bs"
    using assms by (metis rc_ready_def length_append length_bytes_of_dwords length_drop)
  with assms show "rc_pos ctx + 4 * length ds \<le> rc_size ctx" unfolding rc_ready_def by linarith
  with assms show "rc_ready (ctx\<lparr>rc_pos := rc_pos ctx + 4 * length ds\<rparr>) bs"
    by (simp add: rc_ready_def drop_drop [symmetric] add.commute [of "rc_pos ctx"])
qed

lemma decodes_ok: "decodes (ok x) [] x"
  by (auto simp: decodes_def ok_def)

lemma decodes_bind:
  assumes "decodes f ds x" and "decodes (g x) es y"
  shows "decodes (\<lambda>s. bindR (f s) g) (ds @ es) y"
  unfolding decodes_def
proof (intro allI impI)
  fix ctx a bs assume h: "rc_ready ctx (bytes_of_dwords (ds @ es) @ bs)" "arena_sane a" "arena_grants a"
  then have h1: "rc_ready ctx (bytes_of_dwords ds @ bytes_of_dwords es @ bs)" by simp
  with assms(1) h(2,3) obtain b where b: "f (ctx, a) = ok x (ctx\<lparr>rc_pos := rc_pos ctx + 4 * length ds\<rparr>, b)"
    "arena_sane b" "arena_grants b" unfolding decodes_def by blast
  from assms(2) rc_ready_advance(1) [OF h1] b(2,3) obtain c where
    "g x (ctx\<lparr>rc_pos := rc_pos ctx + 4 * length ds\<rparr>, b)
       = ok y (ctx\<lparr>rc_pos := rc_pos ctx + 4 * length ds + 4 * length es\<rparr>, c)" "arena_sane c" "arena_grants c"
    unfolding decodes_def by fastforce
  with b show "\<exists>c. bindR (f (ctx, a)) g = ok y (ctx\<lparr>rc_pos := rc_pos ctx + 4 * length (ds @ es)\<rparr>, c)
      \<and> arena_sane c \<and> arena_grants c"
    by (auto simp: add.assoc)
qed

lemma decodes_read_bytes: "decodes (with_ctx (read_bytes (4 * length ds))) ds (bytes_of_dwords ds)"
  unfolding decodes_def
proof (intro allI impI)
  fix ctx a bs assume h: "rc_ready ctx (bytes_of_dwords ds @ bs)" "arena_sane a" "arena_grants a"
  with rc_ready_advance(2) [OF h(1)]
  show "\<exists>b. with_ctx (read_bytes (4 * length ds)) (ctx, a)
        = ok (bytes_of_dwords ds) (ctx\<lparr>rc_pos := rc_pos ctx + 4 * length ds\<rparr>, b) \<and> arena_sane b \<and> arena_grants b"
    by (auto simp: with_ctx_def read_bytes_def rc_ready_def sz_add_small ok_def)
qed

lemma decodes_read_u32: "decodes (with_ctx read_u32) [d] d"
proof -
  have "decodes (\<lambda>s. bindR (with_ctx (read_bytes (4 * length [d])) s) (\<lambda>bs. ok (hd (dwords_of_bytes bs)))) ([d] @ []) d"
    by (rule decodes_bind [OF decodes_read_bytes [of "[d]"]]) (simp add: decodes_ok del: bytes_of_dwords_simps)
  moreover have "with_ctx read_u32 = (\<lambda>s. bindR (with_ctx (read_bytes 4) s) (\<lambda>bs. ok (hd (dwords_of_bytes bs))))"
    by (auto simp: fun_eq_iff with_ctx_def read_u32_def bindR_def bindE_def ok_def split: eff.splits sum.splits)
  ultimately show ?thesis by simp
qed

lemma decodes_alloc:
  assumes "0 < n" "n < 2 ^ 62" "al \<in> {1, 4, 8, 16}" and "decodes g ds x"
  shows "decodes (\<lambda>(ctx, a). bindE (nmo_arena_alloc n al a) (\<lambda>(q, a). case q of
           None \<Rightarrow> fail e (ctx, a) | Some _ \<Rightarrow> g (ctx, a))) ds x"
  unfolding decodes_def
proof (intro allI impI)
  fix ctx a bs assume h: "rc_ready ctx (bytes_of_dwords ds @ bs)" "arena_sane a" "arena_grants a"
  from arena_grant_region [OF h(2,3) assms(1,2,3)] obtain r b where
    "nmo_arena_alloc n al a = Done (Some r, b)" "arena_sane b" "arena_grants b" by blast
  with assms(4) [unfolded decodes_def, rule_format, OF h(1)] show "\<exists>b. (case (ctx, a) of (ctx, a) \<Rightarrow> bindE (nmo_arena_alloc n al a) (\<lambda>(q, a). case q of
           None \<Rightarrow> fail e (ctx, a) | Some _ \<Rightarrow> g (ctx, a)))
       = ok x (ctx\<lparr>rc_pos := rc_pos ctx + 4 * length ds\<rparr>, b) \<and> arena_sane b \<and> arena_grants b"
    by simp
qed

lemma unat_small_word: "n < 2 ^ 32 \<Longrightarrow> unat (word_of_nat n :: u32) = n"
  by (simp add: unat_of_nat)

lemma unat_count_bytes: "n < 2 ^ 30 \<Longrightarrow> unat (word_of_nat n * 4 :: u32) = 4 * n"
  by (simp add: unat_word_ariths unat_of_nat mult.commute)

lemma word_count_pos: "n < 2 ^ 32 \<Longrightarrow> (0 :: u32) < word_of_nat n \<longleftrightarrow> 0 < n"
  by (metis unat_small_word unat_0 word_less_nat_alt)

lemma decodes_read_array:
  assumes "buffer_ok p n" "n < 2 ^ 30"
  shows "decodes (read_array (word_of_nat n)) (words p n) (kept True p n)"
proof (cases "n = 0")
  case False
  have "decodes (\<lambda>s. bindR (with_ctx (read_bytes (4 * length (words p n))) s) (\<lambda>bs. ok (Some (dwords_of_bytes bs))))
          (words p n @ []) (Some (words p n))"
    by (rule decodes_bind [OF decodes_read_bytes]) (simp add: decodes_ok)
  then show ?thesis using False assms
    by (auto simp: read_array_def kept_def word_count_pos unat_count_bytes intro!: decodes_alloc)
next
  case True
  have "read_array 0 = ok None" by (auto simp: read_array_def fun_eq_iff)
  with True show ?thesis by (simp add: kept_def words_def decodes_ok split: option.split)
qed

lemma decodes_flagged:
  assumes "has_option (c_chunk_options b) flag \<longleftrightarrow> P" and "P \<Longrightarrow> decodes (f (word_of_nat n)) ds x"
  shows "decodes (read_flagged flag b f) (counted_words P n ds)
           (if P then word_of_nat n else 0, if P then x else None)"
proof (cases P)
  case True
  have "decodes (\<lambda>s. bindR (with_ctx read_u32 s) (\<lambda>n s. bindR (f n s) (\<lambda>x. ok (n, x))))
          ([word_of_nat n] @ ds @ []) (word_of_nat n, x)"
    by (rule decodes_bind [OF decodes_read_u32], rule decodes_bind [OF assms(2) [OF True]], rule decodes_ok)
  with True assms(1) show ?thesis by (simp add: read_flagged_def [abs_def] counted_words_def)
qed (use decodes_ok assms(1) in \<open>simp add: read_flagged_def [abs_def] counted_words_def\<close>)

lemma length_forest_stored: "forest_ok n cs \<Longrightarrow> length (forest_stored n cs) = n"
proof (induction n arbitrary: cs)
  case (Suc n)
  then show ?case by (cases cs; cases "hd cs") auto
qed simp

lemma forest_words_length: "forest_ok n cs \<Longrightarrow> n \<le> length (forest_words n cs)"
proof (induction n arbitrary: cs)
  case (Suc n)
  then obtain c ys where "cs = Some c # ys" "forest_ok n ys" by (cases cs; cases "hd cs") auto
  with Suc.IH [of ys] show ?case by (cases c) simp
qed simp

lemma decodes_chunks:
  assumes "decodes (deserialize_loop f n) ds cs" and "n < 2 ^ 32"
  shows "decodes (read_chunks f (word_of_nat n)) (if n > 0 then ds else []) (if n > 0 then Some (map Some cs) else None)"
proof (cases "n = 0")
  case False
  have "decodes (\<lambda>s. bindR (deserialize_loop f n s) (\<lambda>cs. ok (Some (map Some cs)))) (ds @ []) (Some (map Some cs))"
    by (rule decodes_bind [OF assms(1)], rule decodes_ok)
  then show ?thesis using False assms
    by (auto simp: read_chunks_def word_count_pos unat_small_word sz_mul_small intro!: decodes_alloc)
next
  case True
  have "read_chunks f 0 = ok None" by (auto simp: read_chunks_def fun_eq_iff)
  with True show ?thesis by (simp add: decodes_ok)
qed

lemma u8_bits: "bit (x :: u8) n \<Longrightarrow> n < 8"
  using bit_imp_le_length [of x n] by simp

lemma ucast_up_down: "ucast (ucast (x :: u8) :: u32) = x"
  by (rule bit_word_eqI) (auto simp: bit_simps)

lemma unpack_version_word:
  "unpack_version (version_word b) r = r\<lparr>c_data_version := c_data_version b AND 0xFF,
     c_chunk_class_id := c_chunk_class_id b, c_chunk_version := c_chunk_version b AND 0xFF,
     c_chunk_options := c_chunk_options b AND 0xFF\<rparr>"
proof -
  have m: "(0xFF :: u32) = mask 8" by (simp add: mask_eq_exp_minus_1)
  have bits: "version_word b AND 0xFF = c_data_version b AND 0xFF"
    "drop_bit 8 (version_word b) AND 0xFF = ucast (c_chunk_class_id b)"
    "drop_bit 16 (version_word b) AND 0xFF = c_chunk_version b AND 0xFF"
    "drop_bit 24 (version_word b) AND 0xFF = c_chunk_options b AND 0xFF"
    unfolding version_word_def m by (auto intro!: bit_word_eqI simp: bit_simps intro: u8_bits)
  show ?thesis unfolding unpack_version_def bits by (simp add: ucast_up_down)
qed

lemma create_alloc:
  "bindE (nmo_chunk_create a) (\<lambda>(chunk, a). case chunk of None \<Rightarrow> fail e (ctx, a) | Some c \<Rightarrow> g c (ctx, a))
     = bindE (nmo_arena_alloc sizeof_chunk 8 a) (\<lambda>(q, a). case q of
         None \<Rightarrow> fail e (ctx, a) | Some _ \<Rightarrow> g (Chunk empty_body None) (ctx, a))"
  by (auto simp: nmo_chunk_create_def bindE_def split: eff.splits option.splits prod.splits)

lemma decodes_create:
  assumes "decodes (g (Chunk empty_body None)) ds x"
  shows "decodes (\<lambda>(ctx, a). bindE (nmo_chunk_create a) (\<lambda>(chunk, a). case chunk of
           None \<Rightarrow> fail e (ctx, a) | Some c \<Rightarrow> g c (ctx, a))) ds x"
proof -
  have "decodes (\<lambda>(ctx, a). bindE (nmo_arena_alloc sizeof_chunk 8 a) (\<lambda>(q, a). case q of
           None \<Rightarrow> fail e (ctx, a) | Some _ \<Rightarrow> g (Chunk empty_body None) (ctx, a))) ds x"
    by (rule decodes_alloc [OF _ _ _ assms]) (simp_all add: sizeof_chunk_def)
  then show ?thesis by (simp add: create_alloc)
qed

lemma deserialize_eq:
  "chunk_deserialize_internal (Suc k) = (\<lambda>(ctx, a). bindE (nmo_chunk_create a) (\<lambda>(chunk, a). case chunk of
       None \<Rightarrow> fail NMO_ERR_NOMEM (ctx, a)
     | Some chunk \<Rightarrow>
         bindR (with_ctx read_u32 (ctx, a)) (\<lambda>version_info s.
         let b = unpack_version version_info (c_body chunk)
         in bindR (with_ctx read_u32 s) (\<lambda>n s.
            bindR (read_array n s) (\<lambda>data s.
            let b = b\<lparr>c_data := data, c_data_size := unat n, c_data_capacity := unat n\<rparr>
            in bindR (read_flagged NMO_CHUNK_OPTION_IDS b read_array s) (\<lambda>(n, ids) s.
               let b = b\<lparr>c_ids := ids, c_id_count := unat n, c_id_capacity := unat n\<rparr>
               in bindR (read_flagged NMO_CHUNK_OPTION_CHN b
                          (read_chunks (chunk_deserialize_internal k)) s) (\<lambda>(n, chunks) s.
                  let b = b\<lparr>c_chunk_count := unat n, c_chunk_capacity := unat n\<rparr>
                  in bindR (read_flagged NMO_CHUNK_OPTION_MAN b read_array s) (\<lambda>(n, managers).
                     ok (Chunk (b\<lparr>c_managers := managers, c_manager_count := unat n,
                                  c_manager_capacity := unat n\<rparr>) chunks)))))))))"
  by (rule ext, clarify) (rule chunk_deserialize_internal.simps)

lemma decodes_ok': "x = y \<Longrightarrow> decodes (ok x) [] y"
  by (simp add: decodes_ok)

lemma has_option_byte:
  "has_option (w AND 0xFF) NMO_CHUNK_OPTION_IDS = has_option w NMO_CHUNK_OPTION_IDS"
  "has_option (w AND 0xFF) NMO_CHUNK_OPTION_CHN = has_option w NMO_CHUNK_OPTION_CHN"
  "has_option (w AND 0xFF) NMO_CHUNK_OPTION_MAN = has_option w NMO_CHUNK_OPTION_MAN"
  by (simp_all add: has_option_def chunk_option_defs and.assoc)

lemma deserialize_words:
  "tree_ok c \<Longrightarrow> length (chunk_words c) < 2 ^ 30 \<Longrightarrow> length (chunk_words c) < 2 * fuel \<Longrightarrow>
     decodes (chunk_deserialize_internal fuel) (chunk_words c) (stored c)"
  "forest_ok n cs \<Longrightarrow> length (forest_words n cs) < 2 ^ 30 \<Longrightarrow> length (forest_words n cs) < 2 * fuel \<Longrightarrow>
     decodes (deserialize_loop (chunk_deserialize_internal fuel) n) (forest_words n cs) (forest_stored n cs)"
proof (induction c and n cs arbitrary: fuel and fuel rule: chunk_words_forest_words.induct)
  case (1 b cs)
  let ?f = "has_option (c_chunk_options b)"
  let ?ids = "?f NMO_CHUNK_OPTION_IDS" and ?chn = "?f NMO_CHUNK_OPTION_CHN" and ?man = "?f NMO_CHUNK_OPTION_MAN"
  let ?n = "c_chunk_count b"
  have ok: "buffer_ok (c_data b) (c_data_size b)" "buffer_ok (c_ids b) (c_id_count b)"
    "buffer_ok (c_managers b) (c_manager_count b)" using "1.prems"(1) by (auto simp: body_ok_def)
  note len = "1.prems"(2,3) [unfolded chunk_words.simps]
  obtain k where fuel: "fuel = Suc k" using "1.prems"(3) by (cases fuel) auto
  have sizes: "c_data_size b < 2 ^ 30" "?ids \<Longrightarrow> c_id_count b < 2 ^ 30" "?man \<Longrightarrow> c_manager_count b < 2 ^ 30"
    using len ok by auto
  have forest: "?chn \<Longrightarrow> forest_ok ?n (chunk_array cs)" using "1.prems"(1) by simp
  have loop: "decodes (read_chunks (chunk_deserialize_internal k) (word_of_nat ?n))
      (forest_words ?n (chunk_array cs)) (if ?n > 0 then Some (map Some (forest_stored ?n (chunk_array cs))) else None)"
    if ?chn
  proof -
    have "length (forest_words ?n (chunk_array cs)) < 2 ^ 30" "length (forest_words ?n (chunk_array cs)) < 2 * k"
      using len that unfolding fuel by auto
    with "1.IH" [OF that forest [OF that]]
    have "decodes (deserialize_loop (chunk_deserialize_internal k) ?n)
        (forest_words ?n (chunk_array cs)) (forest_stored ?n (chunk_array cs))" by blast
    from decodes_chunks [OF this] forest_words_length [OF forest [OF that]] len that show ?thesis by (auto split: if_splits)
  qed
  have ids: "decodes (read_flagged NMO_CHUNK_OPTION_IDS r read_array)
      (counted_words ?ids (c_id_count b) (words (c_ids b) (c_id_count b)))
      (if ?ids then word_of_nat (c_id_count b) else 0, if ?ids then kept True (c_ids b) (c_id_count b) else None)"
    if "has_option (c_chunk_options r) NMO_CHUNK_OPTION_IDS \<longleftrightarrow> ?ids" for r
    by (rule decodes_flagged [OF that]) (rule decodes_read_array [OF ok(2) sizes(2)])
  have chn: "decodes (read_flagged NMO_CHUNK_OPTION_CHN r (read_chunks (chunk_deserialize_internal k)))
      (counted_words ?chn ?n (forest_words ?n (chunk_array cs)))
      (if ?chn then word_of_nat ?n else 0,
       if ?chn then if ?n > 0 then Some (map Some (forest_stored ?n (chunk_array cs))) else None else None)"
    if "has_option (c_chunk_options r) NMO_CHUNK_OPTION_CHN \<longleftrightarrow> ?chn" for r
    by (rule decodes_flagged [OF that]) (rule loop)
  have man: "decodes (read_flagged NMO_CHUNK_OPTION_MAN r read_array)
      (counted_words ?man (c_manager_count b) (words (c_managers b) (c_manager_count b)))
      (if ?man then word_of_nat (c_manager_count b) else 0,
       if ?man then kept True (c_managers b) (c_manager_count b) else None)"
    if "has_option (c_chunk_options r) NMO_CHUNK_OPTION_MAN \<longleftrightarrow> ?man" for r
    by (rule decodes_flagged [OF that]) (rule decodes_read_array [OF ok(3) sizes(3)])
  have counts: "unat (word_of_nat (c_data_size b) :: u32) = c_data_size b"
     "?ids \<Longrightarrow> unat (word_of_nat (c_id_count b) :: u32) = c_id_count b"
     "?chn \<Longrightarrow> unat (word_of_nat ?n :: u32) = ?n"
     "?man \<Longrightarrow> unat (word_of_nat (c_manager_count b) :: u32) = c_manager_count b"
    using sizes forest_words_length [OF forest] len by (auto intro!: unat_small_word)
  have "decodes (chunk_deserialize_internal fuel)
    ([version_word b] @ [word_of_nat (c_data_size b)] @ words (c_data b) (c_data_size b)
     @ counted_words ?ids (c_id_count b) (words (c_ids b) (c_id_count b))
     @ counted_words ?chn ?n (forest_words ?n (chunk_array cs))
     @ counted_words ?man (c_manager_count b) (words (c_managers b) (c_manager_count b)) @ []) (stored (Chunk b cs))"
    unfolding fuel deserialize_eq
    apply (rule decodes_create)
    apply (rule decodes_bind [OF decodes_read_u32])
    apply (unfold Let_def)
    apply (rule decodes_bind [OF decodes_read_u32])
    apply (rule decodes_bind [OF decodes_read_array [OF ok(1) sizes(1)]])
    apply (rule decodes_bind [OF ids], simp add: unpack_version_word has_option_byte, unfold prod.case)
    apply (rule decodes_bind [OF chn], simp add: unpack_version_word has_option_byte, unfold prod.case)
    apply (rule decodes_bind [OF man], simp add: unpack_version_word has_option_byte, unfold prod.case)
    apply (rule decodes_ok')
    apply (simp add: unpack_version_word Let_def kept_def counts)
    done
  then show ?case by (simp add: counted_words_def)
next
  case (2 cs)
  then show ?case using decodes_ok by (simp add: decodes_def)
next
  case (3 n c cs)
  have c: "decodes (chunk_deserialize_internal fuel) (chunk_words c) (stored c)"
    using "3.IH"(1) "3.prems" by simp
  have cs: "decodes (deserialize_loop (chunk_deserialize_internal fuel) n) (forest_words n cs) (forest_stored n cs)"
    using "3.IH"(2) "3.prems" by simp
  have "decodes (\<lambda>s. bindR (chunk_deserialize_internal fuel s) (\<lambda>c s.
      bindR (deserialize_loop (chunk_deserialize_internal fuel) n s) (\<lambda>cs. ok (c # cs))))
      (chunk_words c @ forest_words n cs @ []) (stored c # forest_stored n cs)"
    by (rule decodes_bind [OF c], rule decodes_bind [OF cs], rule decodes_ok)
  then show ?case by (simp add: decodes_def)
qed simp_all

text \<open>
  C6: a chunk whose trees of sub-chunks are complete is serialized into exactly the bytes that
  \<^verbatim>\<open>chunk_calc_size\<close> computed, and deserializing them gives the chunk back, with its sub-chunks, up
  to what the format carries: the lists whose flag is set, the low bytes of the versions and the
  options, and not the class ID.
\<close>

theorem serialize_round_trip:
  assumes "tree_ok c" and "length (chunk_words c) < 2 ^ 30" and "arena_sane a" "arena_grants a"
  shows "\<exists>bs a' a''. nmo_chunk_serialize c a = ok (bs, length bs) a'
     \<and> chunk_calc_size c = Done (length bs) \<and> nmo_chunk_deserialize bs (length bs) a' = ok (stored c) a''"
proof -
  let ?ds = "chunk_words c"
  let ?ctx = "\<lparr>rc_buffer = bytes_of_dwords ?ds, rc_pos = 0, rc_size = 4 * length ?ds\<rparr>"
  have bound: "4 * length ?ds < 2 ^ 61" using assms(2) by simp
  from serialize_encodes [OF assms(1) bound assms(3,4)] obtain b where
    b: "nmo_chunk_serialize c a = ok (bytes_of_dwords ?ds, 4 * length ?ds) b" "arena_sane b" "arena_grants b" by blast
  have long: "2 \<le> length ?ds" by (cases c) simp
  have "decodes (chunk_deserialize_internal (Suc (4 * length ?ds div 8))) ?ds (stored c)"
    by (rule deserialize_words(1) [OF assms(1,2)]) simp
  moreover have "rc_ready ?ctx (bytes_of_dwords ?ds @ [])" using bound by (simp add: rc_ready_def)
  ultimately obtain d where "chunk_deserialize_internal (Suc (4 * length ?ds div 8)) (?ctx, b)
      = ok (stored c) (?ctx\<lparr>rc_pos := 4 * length ?ds\<rparr>, d)"
    using b(2,3) unfolding decodes_def by fastforce
  then have "nmo_chunk_deserialize (bytes_of_dwords ?ds) (4 * length ?ds) b = ok (stored c) d"
    using long by (simp add: nmo_chunk_deserialize_def ok_def)
  with b(1) calc_size_words(1) [OF assms(1)] bound show ?thesis by (intro exI [of _ "bytes_of_dwords ?ds"]) auto
qed

text \<open>A chunk with an ID and a sub-chunk of its own.\<close>

definition sample_leaf :: nmo_chunk where
  "sample_leaf = Chunk (empty_body\<lparr>c_data := Some [7], c_data_size := 1\<rparr>) None"

definition sample_tree :: nmo_chunk where
  "sample_tree = Chunk (empty_body\<lparr>c_data := Some [1, 2, 3], c_data_size := 2, c_chunk_options := 0x05,
     c_ids := Some [1], c_id_count := 1, c_chunk_count := 1\<rparr>) (Some [Some sample_leaf])"

theorem serialize_round_trip_witness:
  "\<exists>a bs a' a''. nmo_arena_create (\<lambda>_ _. True) (\<lambda>_ _. 0) 0 = Done (Some a)
     \<and> nmo_chunk_serialize sample_tree a = ok (bs, length bs) a'
     \<and> nmo_chunk_deserialize bs (length bs) a' = ok (stored sample_tree) a''"
proof -
  obtain a where a: "nmo_arena_create (\<lambda>_ _. True) (\<lambda>_ _. 0) 0 = Done (Some a)" "arena_sane a" "arena_grants a"
    by (rule default_arena_exists)
  have "tree_ok sample_tree" and "length (chunk_words sample_tree) < 2 ^ 30"
    by (simp_all add: sample_tree_def sample_leaf_def body_ok_def buffer_ok_def chunk_array_def empty_body_def words_def
        has_option_def chunk_option_defs counted_words_def)
  from serialize_round_trip [OF this a(2,3)] a(1) show ?thesis by blast
qed

end
