(* ===== verification/SerialSafety.thy ===== *)
theory SerialSafety
  imports SerialSpec
begin

text \<open>
  \<^verbatim>\<open>nmo_chunk_deserialize\<close> on any input: it returns, reads nothing outside the input, and what it
  returns is a well-formed tree exactly when no count reached \<open>2 ^ 30\<close>, where its size in bytes wraps.
\<close>

section \<open>Reads that stay inside the input\<close>

text \<open>
  On a context with at most \<open>m\<close> bytes left, \<open>f\<close> returns; when it succeeds it has consumed at least
  \<open>k\<close> bytes and its value satisfies \<open>Q\<close>.
\<close>

definition rc_ok :: "nmo_read_ctx \<Rightarrow> bool" where
  "rc_ok ctx \<longleftrightarrow> rc_size ctx = length (rc_buffer ctx) \<and> rc_size ctx < 2 ^ 62 \<and> rc_pos ctx \<le> rc_size ctx"

definition reads_within ::
  "nat \<Rightarrow> nat \<Rightarrow> ('a \<Rightarrow> bool) \<Rightarrow> (nmo_read_ctx \<times> arena \<Rightarrow> ('a, nmo_read_ctx \<times> arena) cres) \<Rightarrow> bool" where
  "reads_within m k Q f \<longleftrightarrow> (\<forall>ctx a. rc_ok ctx \<longrightarrow> rc_size ctx - rc_pos ctx \<le> m \<longrightarrow> arena_sane a \<longrightarrow>
     (\<exists>x c b. f (ctx, a) = Done (x, c, b) \<and> arena_sane b \<and> rc_ok c \<and> rc_size c = rc_size ctx
        \<and> rc_pos ctx \<le> rc_pos c \<and> (\<forall>v. x = Inr v \<longrightarrow> rc_pos ctx + k \<le> rc_pos c \<and> Q v)))"

lemma reads_within_mono:
  "reads_within m k Q f \<Longrightarrow> m' \<le> m \<Longrightarrow> k' \<le> k \<Longrightarrow> (\<And>v. Q v \<Longrightarrow> R v) \<Longrightarrow> reads_within m' k' R f"
  unfolding reads_within_def by (meson le_trans add_le_cancel_left)

lemma reads_ok: "Q x \<Longrightarrow> reads_within m 0 Q (ok x)"
  by (auto simp: reads_within_def ok_def)

lemma reads_bind:
  assumes "reads_within m k Q f" and "\<And>v. Q v \<Longrightarrow> k \<le> m \<Longrightarrow> reads_within (m - k) j R (g v)"
  shows "reads_within m (k + j) R (\<lambda>s. bindR (f s) g)"
  unfolding reads_within_def
proof (intro allI impI)
  fix ctx a assume h: "rc_ok ctx" "rc_size ctx - rc_pos ctx \<le> m" "arena_sane a"
  from assms(1) [unfolded reads_within_def, rule_format, OF h] obtain x c b where
    f: "f (ctx, a) = Done (x, c, b)" "arena_sane b" "rc_ok c" "rc_size c = rc_size ctx"
      "rc_pos ctx \<le> rc_pos c" "\<And>v. x = Inr v \<Longrightarrow> rc_pos ctx + k \<le> rc_pos c \<and> Q v" by auto
  show "\<exists>x c b. bindR (f (ctx, a)) g = Done (x, c, b) \<and> arena_sane b \<and> rc_ok c \<and> rc_size c = rc_size ctx
        \<and> rc_pos ctx \<le> rc_pos c \<and> (\<forall>v. x = Inr v \<longrightarrow> rc_pos ctx + (k + j) \<le> rc_pos c \<and> R v)"
  proof (cases x)
    case (Inr v)
    with f(6) have v: "rc_pos ctx + k \<le> rc_pos c" "Q v" by auto
    have "rc_size c - rc_pos c \<le> m - k" "k \<le> m"
      using v(1) f(3,4) h(1,2) unfolding rc_ok_def by linarith+
    from assms(2) [OF v(2) \<open>k \<le> m\<close>, unfolded reads_within_def, rule_format, OF f(3) \<open>rc_size c - rc_pos c \<le> m - k\<close> f(2)] obtain y d e where
      "g v (c, b) = Done (y, d, e)" "arena_sane e" "rc_ok d" "rc_size d = rc_size c" "rc_pos c \<le> rc_pos d"
      "\<And>v. y = Inr v \<Longrightarrow> rc_pos c + j \<le> rc_pos d \<and> R v" by auto
    with f(1,4,5) Inr v(1) show ?thesis by fastforce
  qed (use f in simp)
qed

lemma reads_bytes: "n < 2 ^ 62 \<Longrightarrow> reads_within m n (\<lambda>bs. length bs = n) (with_ctx (read_bytes n))"
  by (auto simp: reads_within_def with_ctx_def read_bytes_def rc_ok_def sz_add_small ok_def fail_def)

lemma reads_u32: "reads_within m 4 (\<lambda>_. True) (with_ctx read_u32)"
proof -
  have "reads_within m (4 + 0) (\<lambda>_. True) (\<lambda>s. bindR (with_ctx (read_bytes 4) s) (\<lambda>bs. ok (hd (dwords_of_bytes bs))))"
    by (rule reads_bind [OF reads_bytes]) (simp_all add: reads_ok)
  moreover have "with_ctx read_u32 = (\<lambda>s. bindR (with_ctx (read_bytes 4) s) (\<lambda>bs. ok (hd (dwords_of_bytes bs))))"
    by (auto simp: fun_eq_iff with_ctx_def read_u32_def bindR_def bindE_def ok_def split: eff.splits sum.splits)
  ultimately show ?thesis by simp
qed

lemma reads_alloc:
  assumes "n < 2 ^ 62" "al \<in> {1, 4, 8, 16}" and "n > 0 \<Longrightarrow> reads_within m k Q g"
  shows "reads_within m k Q (\<lambda>(ctx, a). bindE (nmo_arena_alloc n al a) (\<lambda>(q, a). case q of
           None \<Rightarrow> fail e (ctx, a) | Some _ \<Rightarrow> g (ctx, a)))"
  unfolding reads_within_def
proof (intro allI impI)
  fix ctx a assume h: "rc_ok ctx" "rc_size ctx - rc_pos ctx \<le> m" "arena_sane a"
  from arena_alloc_sane [OF h(3) assms(1,2)] obtain q b where
    q: "nmo_arena_alloc n al a = Done (q, b)" "arena_sane b" by blast
  have "q \<noteq> None \<Longrightarrow> n > 0" using q(1) by (cases n) (auto simp: nmo_arena_alloc_def)
  with assms(3) have "q \<noteq> None \<Longrightarrow> reads_within m k Q g" by simp
  from this [unfolded reads_within_def, rule_format, OF _ h(1,2) q(2)] q h(1)
  show "\<exists>x c b. (case (ctx, a) of (ctx, a) \<Rightarrow> bindE (nmo_arena_alloc n al a) (\<lambda>(q, a). case q of
           None \<Rightarrow> fail e (ctx, a) | Some _ \<Rightarrow> g (ctx, a))) = Done (x, c, b) \<and> arena_sane b \<and> rc_ok c
        \<and> rc_size c = rc_size ctx \<and> rc_pos ctx \<le> rc_pos c \<and> (\<forall>v. x = Inr v \<longrightarrow> rc_pos ctx + k \<le> rc_pos c \<and> Q v)"
    by (cases q) (auto simp: fail_def)
qed

lemma reads_create:
  assumes "reads_within m k Q (g (Chunk empty_body None))"
  shows "reads_within m k Q (\<lambda>(ctx, a). bindE (nmo_chunk_create a) (\<lambda>(chunk, a). case chunk of
           None \<Rightarrow> fail e (ctx, a) | Some c \<Rightarrow> g c (ctx, a)))"
proof -
  have "reads_within m k Q (\<lambda>(ctx, a). bindE (nmo_arena_alloc sizeof_chunk 8 a) (\<lambda>(q, a). case q of
           None \<Rightarrow> fail e (ctx, a) | Some _ \<Rightarrow> g (Chunk empty_body None) (ctx, a)))"
    by (rule reads_alloc [OF _ _ assms]) (simp_all add: sizeof_chunk_def)
  then show ?thesis by (simp add: create_alloc)
qed

section \<open>Counts whose size in bytes wraps\<close>

text \<open>The array read for a count holds as many words as the count announces, unless the count wraps.\<close>

definition honest :: "u32 \<Rightarrow> u32 list option \<Rightarrow> bool" where
  "honest n p \<longleftrightarrow> (buffer_ok p (unat n) \<longleftrightarrow> unat n < 2 ^ 30)"

lemma reads_array: "reads_within m 0 (honest n) (read_array n)"
proof (cases "n = 0")
  case True
  then show ?thesis by (simp add: read_array_def reads_ok [unfolded ok_def] honest_def buffer_ok_def reads_within_def ok_def)
next
  case False
  let ?l = "unat (n * 4)"
  have l: "?l < 2 ^ 62" using unat_lt [of "n * 4"] by simp
  have mod: "?l = 4 * (unat n mod 2 ^ 30)"
    using mult_mod_right [of 4 "unat n" "2 ^ 30"] by (simp add: unat_word_ariths mult.commute)
  have n: "unat n < 2 ^ 32" "0 < unat n" using unat_lt False by (simp_all add: unat_gt_0)
  have "reads_within m ?l (honest n) (\<lambda>s. bindR (with_ctx (read_bytes ?l) s) (\<lambda>bs. ok (Some (dwords_of_bytes bs))))"
    if "?l > 0"
  proof -
    have "reads_within m (?l + 0) (honest n) (\<lambda>s. bindR (with_ctx (read_bytes ?l) s) (\<lambda>bs. ok (Some (dwords_of_bytes bs))))"
    proof (rule reads_bind [OF reads_bytes [OF l]], rule reads_ok)
      fix bs :: "u8 list" assume "length bs = ?l"
      then have "length (dwords_of_bytes bs) = unat n mod 2 ^ 30" unfolding mod by simp
      then show "honest n (Some (dwords_of_bytes bs))"
        using n by (auto simp: honest_def buffer_ok_def not_less mod_if)
    qed
    then show ?thesis by simp
  qed
  then have "reads_within m 0 (honest n) (\<lambda>(ctx, a). bindE (nmo_arena_alloc ?l 4 a) (\<lambda>(q, a). case q of
         None \<Rightarrow> fail NMO_ERR_NOMEM (ctx, a)
       | Some _ \<Rightarrow> bindR (with_ctx (read_bytes ?l) (ctx, a)) (\<lambda>bs. ok (Some (dwords_of_bytes bs)))))"
    by (intro reads_alloc l) (auto elim: reads_within_mono)
  then show ?thesis using False by (simp add: read_array_def word_gt_0)
qed

text \<open>No count of the tree reached the bound.\<close>

fun unwrapped :: "nmo_chunk \<Rightarrow> bool" and forest_unwrapped :: "nat \<Rightarrow> nmo_chunk option list \<Rightarrow> bool" where
  "unwrapped (Chunk b cs) \<longleftrightarrow> c_data_size b < 2 ^ 30 \<and> c_id_count b < 2 ^ 30 \<and> c_manager_count b < 2 ^ 30
     \<and> (has_option (c_chunk_options b) NMO_CHUNK_OPTION_CHN \<longrightarrow> forest_unwrapped (c_chunk_count b) (chunk_array cs))"
| "forest_unwrapped 0 cs \<longleftrightarrow> True"
| "forest_unwrapped (Suc n) (Some c # cs) \<longleftrightarrow> unwrapped c \<and> forest_unwrapped n cs"
| "forest_unwrapped (Suc n) _ \<longleftrightarrow> False"

definition faithful :: "nmo_chunk \<Rightarrow> bool" where
  "faithful c \<longleftrightarrow> (tree_ok c \<longleftrightarrow> unwrapped c)"

lemma reads_loop:
  assumes "\<And>m'. m' \<le> m \<Longrightarrow> reads_within m' 0 Q f"
  shows "reads_within m 0 (\<lambda>cs. length cs = n \<and> (\<forall>c \<in> set cs. Q c)) (deserialize_loop f n)"
  using assms
proof (induction n arbitrary: m)
  case 0
  show ?case using reads_ok [of "\<lambda>cs. length cs = 0 \<and> (\<forall>c \<in> set cs. Q c)" "[]" m] by (simp add: reads_within_def)
next
  case (Suc n)
  have "reads_within m (0 + (0 + 0)) (\<lambda>cs. length cs = Suc n \<and> (\<forall>c \<in> set cs. Q c))
      (\<lambda>s. bindR (f s) (\<lambda>c s. bindR (deserialize_loop f n s) (\<lambda>cs. ok (c # cs))))"
    by (rule reads_bind [OF Suc.prems], simp, rule reads_bind [OF Suc.IH], rule Suc.prems, simp, rule reads_ok, simp)
  then show ?case by (simp add: reads_within_def)
qed

definition honest_forest :: "u32 \<Rightarrow> nmo_chunk option list option \<Rightarrow> bool" where
  "honest_forest n cs \<longleftrightarrow>
     (forest_ok (unat n) (chunk_array cs) \<longleftrightarrow> forest_unwrapped (unat n) (chunk_array cs))"

lemma honest_forestI: "\<forall>c \<in> set cs. faithful c \<Longrightarrow>
    forest_ok (length cs) (map Some cs) \<longleftrightarrow> forest_unwrapped (length cs) (map Some cs)"
  by (induction cs) (auto simp: faithful_def)

lemma reads_chunks:
  assumes "\<And>m'. m' \<le> m \<Longrightarrow> reads_within m' 0 faithful f"
  shows "reads_within m 0 (honest_forest n) (read_chunks f n)"
proof (cases "n = 0")
  case True
  then show ?thesis by (simp add: read_chunks_def honest_forest_def reads_within_def ok_def)
next
  case False
  have "reads_within m (0 + 0) (honest_forest n)
      (\<lambda>s. bindR (deserialize_loop f (unat n) s) (\<lambda>cs. ok (Some (map Some cs))))"
    by (rule reads_bind [OF reads_loop [OF assms]], simp, rule reads_ok)
      (auto simp: honest_forest_def chunk_array_def dest!: honest_forestI)
  moreover have "unat n * 8 < 2 ^ 62" using unat_lt [of n] by simp
  ultimately have "reads_within m 0 (honest_forest n) (\<lambda>(ctx, a).
      bindE (nmo_arena_alloc (unat n * 8) 8 a) (\<lambda>(q, a). case q of
         None \<Rightarrow> fail NMO_ERR_NOMEM (ctx, a)
       | Some _ \<Rightarrow> bindR (deserialize_loop f (unat n) (ctx, a)) (\<lambda>cs. ok (Some (map Some cs)))))"
    by (intro reads_alloc) simp_all
  moreover have "sz_mul (unat n) 8 = unat n * 8" using unat_lt [of n] by (simp add: sz_mul_small)
  ultimately show ?thesis using False by (simp add: read_chunks_def word_gt_0)
qed

lemma reads_flagged:
  assumes "\<And>n. has_option (c_chunk_options b) flag \<Longrightarrow> 4 \<le> m \<Longrightarrow> reads_within (m - 4) 0 (Q n) (f n)"
    and "\<not> has_option (c_chunk_options b) flag \<Longrightarrow> Q 0 None"
  shows "reads_within m 0 (\<lambda>(n, x). Q n x) (read_flagged flag b f)"
proof (cases "has_option (c_chunk_options b) flag")
  case True
  have "reads_within m (4 + (0 + 0)) (\<lambda>(n, x). Q n x)
      (\<lambda>s. bindR (with_ctx read_u32 s) (\<lambda>n s. bindR (f n s) (\<lambda>x. ok (n, x))))"
    by (rule reads_bind [OF reads_u32], rule reads_bind [OF assms(1) [OF True]], assumption, rule reads_ok) simp
  with True show ?thesis by (simp add: read_flagged_def [abs_def] reads_within_mono)
qed (use assms(2) in \<open>simp add: read_flagged_def [abs_def] reads_ok\<close>)

lemma deserialize_reads: "m < 8 * fuel \<Longrightarrow> reads_within m 0 faithful (chunk_deserialize_internal fuel)"
proof (induction fuel arbitrary: m)
  case (Suc k)
  have sub: "reads_within m' 0 faithful (chunk_deserialize_internal k)" if "m' \<le> m - 12" "12 \<le> m" for m'
    by (rule Suc.IH) (use that Suc.prems in simp)
  have "reads_within m (4 + (4 + (0 + (0 + (0 + (0 + 0)))))) faithful (chunk_deserialize_internal (Suc k))"
    unfolding deserialize_eq
    apply (rule reads_create)
    apply (rule reads_bind [OF reads_u32])
    apply (unfold Let_def)
    apply (rule reads_bind [OF reads_u32])
    apply (rule reads_bind [OF reads_array])
    apply (rule reads_bind [OF reads_flagged [where Q = honest]], rule reads_array,
      simp add: honest_def buffer_ok_def, unfold split_paired_all prod.case)
    apply (rule reads_bind [OF reads_flagged [where Q = honest_forest]], rule reads_chunks, rule sub, simp, simp,
      simp add: honest_forest_def, unfold split_paired_all prod.case)
    apply (rule reads_bind [OF reads_flagged [where Q = honest]], rule reads_array,
      simp add: honest_def buffer_ok_def, unfold split_paired_all prod.case)
    apply (rule reads_ok)
    apply (auto simp: faithful_def honest_def honest_forest_def body_ok_def buffer_ok_def
        unpack_version_def empty_body_def)
    done
  then show ?case by (auto elim: reads_within_mono)
qed simp

text \<open>
  C7: for every input, however hostile, \<^verbatim>\<open>nmo_chunk_deserialize\<close> ends, reads and writes nothing out of
  bounds, and returns an error or a chunk; and that chunk is well formed, every buffer of its tree as
  long as its count says, exactly when no count of the tree reached \<open>2 ^ 30\<close>.
\<close>

theorem deserialize_any_input:
  assumes "length data < 2 ^ 62" and "arena_sane a"
  shows "\<exists>x b. nmo_chunk_deserialize data (length data) a = Done (x, b)
     \<and> (\<forall>c. x = Inr c \<longrightarrow> (tree_ok c \<longleftrightarrow> unwrapped c))"
proof (cases "length data < 8")
  case False
  let ?ctx = "\<lparr>rc_buffer = data, rc_pos = 0, rc_size = length data\<rparr>"
  have "length data < 8 * Suc (length data div 8)" by presburger
  from deserialize_reads [OF this] have
    "reads_within (length data) 0 faithful (chunk_deserialize_internal (Suc (length data div 8)))" .
  moreover have "rc_ok ?ctx" "rc_size ?ctx - rc_pos ?ctx \<le> length data" using assms(1) by (simp_all add: rc_ok_def)
  ultimately obtain x c b where "chunk_deserialize_internal (Suc (length data div 8)) (?ctx, a) = Done (x, c, b)"
    "\<And>v. x = Inr v \<Longrightarrow> faithful v"
    using assms(2) unfolding reads_within_def by blast
  then show ?thesis using False by (auto simp: nmo_chunk_deserialize_def faithful_def simp del: chunk_deserialize_internal.simps)
qed (simp add: nmo_chunk_deserialize_def fail_def)

text \<open>Twelve bytes that announce a list of IDs and end before it.\<close>

theorem deserialize_any_input_witness:
  "\<exists>a x b. nmo_arena_create (\<lambda>_ _. True) (\<lambda>_ _. 0) 0 = Done (Some a)
     \<and> nmo_chunk_deserialize (bytes_of_dwords [0x01070000, 0, 5]) 12 a = Done (x, b)"
proof -
  obtain a where a: "nmo_arena_create (\<lambda>_ _. True) (\<lambda>_ _. 0) 0 = Done (Some a)" "arena_sane a" "arena_grants a"
    by (rule default_arena_exists)
  from deserialize_any_input [OF _ a(2), of "bytes_of_dwords [0x01070000, 0, 5]"] a(1) show ?thesis
    by (auto simp del: bytes_of_dwords_simps)
qed

lemma decodes_wrapped_array:
  assumes n: "unat (n :: u32) = 2 ^ 30 + length ds" and k: "0 < length ds" "length ds < 2 ^ 30"
  shows "decodes (read_array n) ds (Some ds)"
proof -
  have n4: "unat (n * 4) = 4 * length ds" using n k(2) by (simp add: unat_word_ariths)
  have pos: "n > 0" using n by (simp add: word_less_nat_alt)
  have "decodes (\<lambda>s. bindR (with_ctx (read_bytes (4 * length ds)) s) (\<lambda>bs. ok (Some (dwords_of_bytes bs))))
      (ds @ []) (Some ds)" by (rule decodes_bind [OF decodes_read_bytes]) (simp add: decodes_ok)
  then show ?thesis using k pos by (auto simp: read_array_def n4 intro!: decodes_alloc)
qed

text \<open>
  C32: a chunk whose size word is \<open>2 ^ 30 + k\<close> and whose data holds only \<open>k\<close> words is accepted, for every
  \<open>0 < k < 2 ^ 30\<close>: the size in bytes is computed in 32 bits. The chunk returned announces \<open>2 ^ 30\<close>
  words more than its buffer has, and a read of its parser at word \<open>k\<close> passes the bounds check and
  leaves the buffer.
\<close>

theorem deserialize_wraps_data_size:
  assumes "0 < length ds" "length ds < 2 ^ 30" and "v < 2 ^ 24" and "arena_sane a" "arena_grants a"
  shows "\<exists>c b. nmo_chunk_deserialize (bytes_of_dwords (v # word_of_nat (2 ^ 30 + length ds) # ds))
            (8 + 4 * length ds) a = ok c b
     \<and> c_data_size (c_body c) = 2 ^ 30 + length ds \<and> c_data (c_body c) = Some ds
     \<and> nmo_chunk_parser_read_dword ((nmo_chunk_parser_create c)\<lparr>p_cursor := length ds\<rparr>) = Undefined"
proof -
  let ?k = "length ds" and ?n = "word_of_nat (2 ^ 30 + length ds) :: u32"
  let ?b = "(unpack_version v empty_body)\<lparr>c_data := Some ds, c_data_size := 2 ^ 30 + ?k,
    c_data_capacity := 2 ^ 30 + ?k\<rparr>"
  let ?c = "Chunk (?b\<lparr>c_ids := None, c_id_count := 0, c_id_capacity := 0, c_chunk_count := 0,
    c_chunk_capacity := 0, c_managers := None, c_manager_count := 0, c_manager_capacity := 0\<rparr>) None"
  let ?ctx = "\<lparr>rc_buffer = bytes_of_dwords (v # ?n # ds), rc_pos = 0, rc_size = 8 + 4 * ?k\<rparr>"
  have n: "unat ?n = 2 ^ 30 + ?k" by (rule unat_small_word) (use assms(2) in simp)
  have "unat (drop_bit 24 v) = 0" using assms(3) by (simp add: unat_drop_bit_eq word_less_nat_alt drop_bit_nat_def)
  then have options: "\<not> has_option (c_chunk_options (unpack_version v r)) flag" for r flag
    by (simp add: unpack_version_def has_option_def unat_eq_zero)
  have array: "decodes (read_array ?n) ds (Some ds)" by (rule decodes_wrapped_array [OF n assms(1,2)])
  have none: "decodes (read_flagged flag r f) [] (0, None)" if "\<not> has_option (c_chunk_options r) flag" for flag r
    and f :: "u32 \<Rightarrow> nmo_read_ctx \<times> arena \<Rightarrow> ('x option, nmo_read_ctx \<times> arena) cres"
    using that by (simp add: read_flagged_def [abs_def] decodes_ok)
  have "decodes (chunk_deserialize_internal (Suc m)) ([v] @ [?n] @ ds @ [] @ [] @ [] @ []) ?c" for m
    unfolding deserialize_eq
    apply (rule decodes_create)
    apply (rule decodes_bind [OF decodes_read_u32])
    apply (unfold Let_def)
    apply (rule decodes_bind [OF decodes_read_u32])
    apply (rule decodes_bind [OF array])
    apply (rule decodes_bind [OF none], simp add: options, unfold prod.case)
    apply (rule decodes_bind [OF none], simp add: options, unfold prod.case)
    apply (rule decodes_bind [OF none], simp add: options, unfold prod.case)
    apply (rule decodes_ok')
    apply (unfold n, simp)
    done
  moreover have "rc_ready ?ctx (bytes_of_dwords ([v] @ [?n] @ ds @ [] @ [] @ [] @ []) @ [])"
    using assms(2) by (simp add: rc_ready_def)
  ultimately obtain b where "chunk_deserialize_internal (Suc ((8 + 4 * ?k) div 8)) (?ctx, a)
      = ok ?c (?ctx\<lparr>rc_pos := 8 + 4 * ?k\<rparr>, b)"
    using assms(4,5) unfolding decodes_def by fastforce
  then have "nmo_chunk_deserialize (bytes_of_dwords (v # ?n # ds)) (8 + 4 * ?k) a = ok ?c b"
    by (simp add: nmo_chunk_deserialize_def ok_def del: chunk_deserialize_internal.simps)
  moreover have "nmo_chunk_parser_read_dword ((nmo_chunk_parser_create ?c)\<lparr>p_cursor := ?k\<rparr>) = Undefined"
    using assms(2) by (simp add: nmo_chunk_parser_create_def nmo_chunk_parser_read_dword_def check_bounds_def
        sz_add_small take_dword_def load_dword_def unpack_version_def empty_body_def)
  ultimately show ?thesis by (intro exI [of _ ?c]) auto
qed

text \<open>Twelve bytes of input make a chunk of more than a billion words.\<close>

theorem deserialize_wraps_data_size_witness:
  "\<exists>a c b. nmo_arena_create (\<lambda>_ _. True) (\<lambda>_ _. 0) 0 = Done (Some a)
     \<and> nmo_chunk_deserialize (bytes_of_dwords [0x00070000, 0x40000001, 7]) 12 a = ok c b
     \<and> c_data_size (c_body c) = 0x40000001 \<and> c_data (c_body c) = Some [7]"
proof -
  obtain a where a: "nmo_arena_create (\<lambda>_ _. True) (\<lambda>_ _. 0) 0 = Done (Some a)" "arena_sane a" "arena_grants a"
    by (rule default_arena_exists)
  from deserialize_wraps_data_size [OF _ _ _ a(2,3), of "[7]" "0x00070000"] a(1) show ?thesis
    by (auto simp del: bytes_of_dwords_simps)
qed

end
