(* ===== verification/LayoutSpec.thy ===== *)
theory LayoutSpec
  imports SerialSpec
begin

text \<open>
  The file layouts of a chunk as lists of words: what \<^verbatim>\<open>nmo_chunk_serialize_version1\<close> stores for each
  chunk version and what \<^verbatim>\<open>nmo_chunk_parse\<close> makes of it.
\<close>

section \<open>Serializing\<close>

definition out_room :: "out_buffer \<Rightarrow> nat \<Rightarrow> bool" where
  "out_room = (\<lambda>(buffer, pos) n. pos + n \<le> length buffer)"

definition out_put :: "u32 list \<Rightarrow> out_buffer \<Rightarrow> out_buffer" where
  "out_put ds = (\<lambda>(buffer, pos). (mem_blit buffer pos ds, pos + length ds))"

interpretation out: word_sink out_room out_put
  by unfold_locales
    (auto simp: out_room_def out_put_def mem_blit_twice add.assoc simp del: add_leD1, simp add: mem_blit_def)

lemma out_appends_dwords: "out.appends (out_dwords ds) ds"
  unfolding out.appends_def by (auto simp: out_room_def out_put_def out_dwords_def)

lemma out_appends_array:
  assumes "buffer_ok p n"
  shows "out.appends (out_array p n) (words p n)"
proof (cases "n = 0")
  case False
  with assms obtain xs where p: "p = Some xs" "n \<le> length xs" by (auto simp: buffer_ok_def split: option.splits)
  then show ?thesis using False out_appends_dwords [of "take n xs"]
    by (simp add: out_array_def [abs_def] load_dwords_def words_def)
qed (use out.appends_nothing in \<open>simp add: out_array_def [abs_def] words_def split: option.split\<close>)

lemma out_appends_counted:
  "buffer_ok p n \<Longrightarrow> out.appends (out_counted p n) (word_of_nat n # words p n)"
  using out.appends_bind [OF out_appends_dwords [of "[word_of_nat n]"] out_appends_array] by (simp add: out_counted_def [abs_def])

definition layout_words :: "chunk_body \<Rightarrow> u32 list" where
  "layout_words b =
     (let v = clamp_version (c_chunk_version b);
          old_version = (c_data_version b AND 0xFF) OR push_bit 16 (v AND 0xFF);
          ds = words (c_data b) (c_data_size b); ids = words (c_ids b) (c_id_count b);
          refs = words (c_chunk_refs b) (c_chunk_ref_count b);
          mans = words (c_managers b) (c_manager_count b)
      in if unat v < NMO_CHUNK_VERSION2 then
           [old_version, c_class_id b, word_of_nat (c_data_size b), 0, word_of_nat (c_id_count b),
            word_of_nat (c_chunk_ref_count b)] @ ds @ ids @ refs
         else if unat v = NMO_CHUNK_VERSION2 then
           [old_version, ucast (c_chunk_class_id b), word_of_nat (c_data_size b), 0,
            word_of_nat (c_id_count b), word_of_nat (c_chunk_ref_count b), word_of_nat (c_manager_count b)]
           @ ds @ ids @ refs @ mans
         else
           [pack_version (ucast (c_data_version b AND 0xFF)) (class_byte b) (ucast (v AND 0xFF))
              (ucast (option_flags b AND 0xFF)), word_of_nat (c_data_size b)] @ ds
           @ (if has_option (option_flags b) NMO_CHUNK_OPTION_IDS then word_of_nat (c_id_count b) # ids else [])
           @ (if has_option (option_flags b) NMO_CHUNK_OPTION_CHN then word_of_nat (c_chunk_ref_count b) # refs else [])
           @ (if has_option (option_flags b) NMO_CHUNK_OPTION_MAN then word_of_nat (c_manager_count b) # mans else []))"

definition serialize_layout :: "chunk_body \<Rightarrow> out_buffer \<Rightarrow> (unit, out_buffer) cres" where
  "serialize_layout b s =
     (let v = clamp_version (c_chunk_version b)
      in if unat v < NMO_CHUNK_VERSION2 then serialize_layout1 v b s
         else if unat v = NMO_CHUNK_VERSION2 then serialize_layout2 v b s
         else serialize_compact v b s)"

lemma layout_appends:
  assumes "body_ok b"
  shows "out.appends (serialize_layout b) (layout_words b)"
proof -
  have ok: "buffer_ok (c_data b) (c_data_size b)" "buffer_ok (c_ids b) (c_id_count b)"
    "buffer_ok (c_chunk_refs b) (c_chunk_ref_count b)" "buffer_ok (c_managers b) (c_manager_count b)"
    using assms by (auto simp: body_ok_def)
  note rules = ok [THEN out_appends_array] ok [THEN out_appends_counted]
  show ?thesis
    unfolding serialize_layout_def [abs_def] layout_words_def Let_def
      serialize_layout1_def serialize_layout2_def serialize_compact_def
    by (cases "unat (clamp_version (c_chunk_version b)) < NMO_CHUNK_VERSION2";
        cases "unat (clamp_version (c_chunk_version b)) = NMO_CHUNK_VERSION2";
        simp only: if_True if_False simp_thms; intro out.appends_bind out.appends_if out_appends_dwords rules)
qed

lemma clamp_version_cases:
  "unat (clamp_version v) < NMO_CHUNK_VERSION2 \<longleftrightarrow> unat v < NMO_CHUNK_VERSION2"
  "unat (clamp_version v) = NMO_CHUNK_VERSION2 \<longleftrightarrow> unat v = NMO_CHUNK_VERSION2"
  by (auto simp: clamp_version_def chunk_version_defs)

lemma option_flags_has:
  "has_option (option_flags b) NMO_CHUNK_OPTION_IDS \<longleftrightarrow>
     has_option (c_chunk_options b) NMO_CHUNK_OPTION_IDS \<or> c_id_count b > 0"
  "has_option (option_flags b) NMO_CHUNK_OPTION_CHN \<longleftrightarrow>
     has_option (c_chunk_options b) NMO_CHUNK_OPTION_CHN \<or> c_chunk_ref_count b > 0"
  "has_option (option_flags b) NMO_CHUNK_OPTION_MAN \<longleftrightarrow>
     has_option (c_chunk_options b) NMO_CHUNK_OPTION_MAN \<or> c_manager_count b > 0"
  by (auto simp: option_flags_def has_option_def chunk_option_defs bit.conj_disj_distrib2)

lemma add_counted_eq:
  "\<not> present \<Longrightarrow> add_counted present n sz = sz"
  "present \<Longrightarrow> sz + 4 + 4 * n < 2 ^ 62 \<Longrightarrow> add_counted present n sz = sz + 4 + 4 * n"
  by (simp_all add: add_counted_def sz_mul_small sz_add_small)

lemma calc_size_layout:
  assumes "body_ok b" and "4 * length (layout_words b) < 2 ^ 62"
  shows "chunk_calc_size_version1 b = 4 * length (layout_words b)"
proof -
  have ok: "buffer_ok (c_data b) (c_data_size b)" "buffer_ok (c_ids b) (c_id_count b)"
    "buffer_ok (c_chunk_refs b) (c_chunk_ref_count b)" "buffer_ok (c_managers b) (c_manager_count b)"
    using assms by (auto simp: body_ok_def)
  let ?f = "has_option (option_flags b)"
  note len = assms(2) [unfolded layout_words_def Let_def clamp_version_cases]
  consider (v1) "unat (c_chunk_version b) < NMO_CHUNK_VERSION2" | (v2) "unat (c_chunk_version b) = NMO_CHUNK_VERSION2"
    | (v4) "\<not> unat (c_chunk_version b) < NMO_CHUNK_VERSION2" "unat (c_chunk_version b) \<noteq> NMO_CHUNK_VERSION2" by blast
  then show ?thesis
  proof cases
    case v4
    have "chunk_calc_size_version1 b = add_counted (?f NMO_CHUNK_OPTION_MAN) (c_manager_count b)
        (add_counted (?f NMO_CHUNK_OPTION_CHN) (c_chunk_ref_count b)
          (add_counted (?f NMO_CHUNK_OPTION_IDS) (c_id_count b) (sz_add 8 (sz_mul (c_data_size b) 4))))"
      using v4 by (simp add: chunk_calc_size_version1_def Let_def option_flags_has)
    also have "sz_add 8 (sz_mul (c_data_size b) 4) = 8 + 4 * c_data_size b"
      using len v4 ok by (simp add: sz_mul_small sz_add_small)
    finally show ?thesis using len v4 ok
      by (cases "?f NMO_CHUNK_OPTION_IDS"; cases "?f NMO_CHUNK_OPTION_CHN"; cases "?f NMO_CHUNK_OPTION_MAN")
        (simp_all add: layout_words_def Let_def clamp_version_cases add_counted_eq)
  qed (use len ok in \<open>simp_all add: chunk_calc_size_version1_def layout_words_def Let_def clamp_version_cases
      sz_mul_small sz_add_small\<close>)
qed

lemma serialize_layout_words:
  assumes "body_ok b" and "4 * length (layout_words b) < 2 ^ 61" and "arena_sane a" "arena_grants a"
  shows "\<exists>a'. nmo_chunk_serialize_version1 (Chunk b cs) a = ok (layout_words b, 4 * length (layout_words b)) a'
     \<and> arena_sane a' \<and> arena_grants a'"
proof -
  let ?ds = "layout_words b"
  have n: "0 < 4 * length ?ds" "4 * length ?ds < 2 ^ 62" using assms(2) by (simp_all add: layout_words_def Let_def)
  from arena_grant_region [OF assms(3,4) n] obtain r a' where
    q: "nmo_arena_alloc (4 * length ?ds) 4 a = Done (Some r, a')" "arena_sane a'" "arena_grants a'" by auto
  let ?s = "(fresh_dwords r a' (rg_size r div 4), 0)"
  have size: "rg_size r div 4 = length ?ds" using arena_alloc_size [OF q(1)] by simp
  then have "out_room ?s (length ?ds)" by (simp add: out_room_def)
  with layout_appends [OF assms(1)] have "serialize_layout b ?s = ok () (out_put ?ds ?s)"
    unfolding out.appends_def by blast
  then have "serialize_layout b ?s = ok () (?ds, length ?ds)"
    using size by (simp add: out_put_def mem_blit_def)
  then show ?thesis
    using q calc_size_layout [OF assms(1) n(2)]
    by (simp add: nmo_chunk_serialize_version1_def serialize_layout_def Let_def ok_def)
qed

section \<open>Parsing\<close>

text \<open>
  \<open>f\<close> takes the words \<open>ds\<close> at the position, returns \<open>x\<close> and changes the chunk by \<open>F\<close>.
\<close>

definition takes ::
  "u32 list \<Rightarrow> (parse_state \<Rightarrow> ('a, parse_state) cres) \<Rightarrow> u32 list \<Rightarrow> 'a \<Rightarrow> (chunk_body \<Rightarrow> chunk_body) \<Rightarrow> bool" where
  "takes xs f ds x F \<longleftrightarrow> (\<forall>pos b a post. drop pos xs = ds @ post \<longrightarrow> pos \<le> length xs \<longrightarrow> length xs < 2 ^ 60 \<longrightarrow>
     arena_sane a \<longrightarrow> arena_grants a \<longrightarrow>
     (\<exists>a'. f (pos, b, a) = ok x (pos + length ds, F b, a') \<and> arena_sane a' \<and> arena_grants a'))"

lemma drop_prefix:
  assumes "drop pos xs = ds @ post" "pos \<le> length xs"
  shows "drop (pos + length ds) xs = post" "pos + length ds \<le> length xs" "ds \<noteq> [] \<Longrightarrow> xs ! pos = hd ds"
proof -
  have "length xs - pos = length ds + length post" using assms(1) by (metis length_append length_drop)
  then show "pos + length ds \<le> length xs" using assms(2) by linarith
  show "drop (pos + length ds) xs = post" using assms(1) by (simp add: drop_drop [symmetric] add.commute [of pos])
  show "xs ! pos = hd ds" if "ds \<noteq> []"
    using that assms(1) by (metis append_is_Nil_conv drop_eq_Nil hd_append2 hd_drop_conv_nth not_le)
qed

lemma takes_ok: "takes xs (ok x) [] x (\<lambda>b. b)"
  by (auto simp: takes_def ok_def)

lemma takes_bind:
  assumes "takes xs f ds x F" and "takes xs (g x) es y G"
  shows "takes xs (\<lambda>s. bindR (f s) g) (ds @ es) y (\<lambda>b. G (F b))"
  unfolding takes_def
proof (intro allI impI)
  fix pos b a post
  assume h: "drop pos xs = (ds @ es) @ post" "pos \<le> length xs" "length xs < 2 ^ 60" "arena_sane a" "arena_grants a"
  then have d: "drop pos xs = ds @ es @ post" by simp
  from assms(1) [unfolded takes_def, rule_format, OF d h(2-5)] obtain a' where
    f: "f (pos, b, a) = ok x (pos + length ds, F b, a')" "arena_sane a'" "arena_grants a'" by blast
  from assms(2) [unfolded takes_def, rule_format, OF drop_prefix(1,2) [OF d h(2)] h(3) f(2,3)] f(1)
  show "\<exists>a'. bindR (f (pos, b, a)) g = ok y (pos + length (ds @ es), G (F b), a') \<and> arena_sane a' \<and> arena_grants a'"
    by (auto simp: add.assoc)
qed

lemma takes_next: "takes xs (next_dword (Some xs)) [d] d (\<lambda>b. b)"
  and takes_checked: "takes xs (checked_dword (Some xs) (length xs)) [d] d (\<lambda>b. b)"
proof -
  have "load_dword (Some xs) pos = Done d" "pos < length xs"
    if "drop pos xs = d # post" "pos \<le> length xs" for pos post
    using drop_prefix [of pos xs "[d]" post] that by (auto simp: load_dword_def)
  then show "takes xs (next_dword (Some xs)) [d] d (\<lambda>b. b)"
    "takes xs (checked_dword (Some xs) (length xs)) [d] d (\<lambda>b. b)"
    by (auto simp: takes_def next_dword_def checked_dword_def ok_def)
qed

lemma takes_set: "takes xs (set_chunk F) [] () F"
  by (auto simp: takes_def set_chunk_def ok_def)

lemma takes_skip: "takes xs skip_dword [r] () (\<lambda>b. b)"
  by (auto simp: takes_def skip_dword_def ok_def)

text \<open>What parsing an array of \<open>n\<close> words does to the chunk.\<close>

definition fill :: "(u32 list option \<Rightarrow> chunk_body \<Rightarrow> chunk_body) \<Rightarrow> (nat \<Rightarrow> chunk_body \<Rightarrow> chunk_body)
    \<Rightarrow> u32 list \<Rightarrow> chunk_body \<Rightarrow> chunk_body" where
  "fill point count_as ds b = (if ds = [] then b else count_as (length ds) (point (Some ds) b))"

lemma takes_array:
  assumes "length ds = n" and "n < 2 ^ 32"
  shows "takes xs (parse_array (Some xs) (length xs) (word_of_nat n) point count_as) ds () (fill point count_as ds)"
  unfolding takes_def
proof (intro allI impI)
  fix pos b a post
  assume h: "drop pos xs = ds @ post" "pos \<le> length xs" "length xs < 2 ^ 60" "arena_sane a" "arena_grants a"
  show "\<exists>a'. parse_array (Some xs) (length xs) (word_of_nat n) point count_as (pos, b, a)
      = ok () (pos + length ds, fill point count_as ds b, a') \<and> arena_sane a' \<and> arena_grants a'"
  proof (cases "n = 0")
    case False
    have "n * 4 < 2 ^ 62" "0 < n * 4" using assms(2) False by simp_all
    from arena_grant_region [OF h(4,5) this(2,1)] obtain r a' where
      q: "nmo_arena_alloc (n * 4) 4 a = Done (Some r, a')" "arena_sane a'" "arena_grants a'" by auto
    have "load_dwords (Some xs) pos n = Done ds"
      using drop_prefix(2) [OF h(1,2)] h(1) assms(1) by (auto simp: load_dwords_def)
    then show ?thesis
      using q drop_prefix(2) [OF h(1,2)] h(3) assms False
      by (auto simp: parse_array_def fill_def unat_small_word word_count_pos sz_mul_small sz_add_small ok_def)
  qed (use h assms in \<open>auto simp: parse_array_def fill_def ok_def\<close>)
qed

lemma takes_flagged:
  assumes "length ds = n" and "n < 2 ^ 32" and "\<not> present \<Longrightarrow> n = 0"
  shows "takes xs (parse_flagged (Some xs) (length xs) present point count_as)
           (if present then word_of_nat n # ds else []) () (fill point count_as ds)"
proof (cases present)
  case True
  have "takes xs (\<lambda>s. bindR (checked_dword (Some xs) (length xs) s)
      (\<lambda>count. parse_array (Some xs) (length xs) count point count_as)) ([word_of_nat n] @ ds) ()
      (\<lambda>b. fill point count_as ds b)"
    by (rule takes_bind [OF takes_checked]) (rule takes_array [OF assms(1,2)])
  with True show ?thesis by (simp add: parse_flagged_def [abs_def])
qed (use takes_ok assms in \<open>simp add: parse_flagged_def [abs_def] fill_def [abs_def]\<close>)

text \<open>A header check in front of at least the words it asks for changes nothing.\<close>

lemma takes_header:
  assumes "takes xs f ds x F" and "k \<le> length ds"
  shows "takes xs (\<lambda>s. bindR (header_room (length xs) k s) (\<lambda>_ s. f s)) ds x F"
  unfolding takes_def
proof (intro allI impI)
  fix pos b a post
  assume h: "drop pos xs = ds @ post" "pos \<le> length xs" "length xs < 2 ^ 60" "arena_sane a" "arena_grants a"
  have "sz_add pos k \<le> length xs" using drop_prefix(2) [OF h(1,2)] assms(2) h(3) by (simp add: sz_add_small)
  with assms(1) [unfolded takes_def, rule_format, OF h]
  show "\<exists>a'. bindR (header_room (length xs) k (pos, b, a)) (\<lambda>_. f)
      = ok x (pos + length ds, F b, a') \<and> arena_sane a' \<and> arena_grants a'" by (simp add: header_room_def)
qed

definition counts_fit32 :: "chunk_body \<Rightarrow> bool" where
  "counts_fit32 b \<longleftrightarrow> c_data_size b < 2 ^ 32 \<and> c_id_count b < 2 ^ 32 \<and> c_chunk_ref_count b < 2 ^ 32
     \<and> c_manager_count b < 2 ^ 32"

lemma arrays_take:
  assumes ok: "body_ok b" and fit: "counts_fit32 b"
  shows "takes xs (parse_array (Some xs) (length xs) (word_of_nat (c_data_size b)) set_data size_data)
     (words (c_data b) (c_data_size b)) () (fill set_data size_data (words (c_data b) (c_data_size b)))"
  "takes xs (parse_array (Some xs) (length xs) (word_of_nat (c_id_count b)) set_ids (size_ids f))
     (words (c_ids b) (c_id_count b)) () (fill set_ids (size_ids f) (words (c_ids b) (c_id_count b)))"
  "takes xs (parse_array (Some xs) (length xs) (word_of_nat (c_chunk_ref_count b)) set_refs (size_refs f))
     (words (c_chunk_refs b) (c_chunk_ref_count b)) ()
     (fill set_refs (size_refs f) (words (c_chunk_refs b) (c_chunk_ref_count b)))"
  "takes xs (parse_array (Some xs) (length xs) (word_of_nat (c_manager_count b)) set_managers (size_managers f))
     (words (c_managers b) (c_manager_count b)) ()
     (fill set_managers (size_managers f) (words (c_managers b) (c_manager_count b)))"
  using ok fit by (auto simp: body_ok_def counts_fit32_def intro!: takes_array)

text \<open>The chunk each layout reads back, from the fields of \<open>b\<close> and the chunk \<open>r\<close> it reads into.\<close>

definition fill_data :: "chunk_body \<Rightarrow> chunk_body \<Rightarrow> chunk_body" where
  "fill_data b = fill set_data size_data (words (c_data b) (c_data_size b))"
definition fill_ids :: "u32 \<Rightarrow> chunk_body \<Rightarrow> chunk_body \<Rightarrow> chunk_body" where
  "fill_ids f b = fill set_ids (size_ids f) (words (c_ids b) (c_id_count b))"
definition fill_refs :: "u32 \<Rightarrow> chunk_body \<Rightarrow> chunk_body \<Rightarrow> chunk_body" where
  "fill_refs f b = fill set_refs (size_refs f) (words (c_chunk_refs b) (c_chunk_ref_count b))"
definition fill_managers :: "u32 \<Rightarrow> chunk_body \<Rightarrow> chunk_body \<Rightarrow> chunk_body" where
  "fill_managers f b = fill set_managers (size_managers f) (words (c_managers b) (c_manager_count b))"

lemmas fill_defs = fill_data_def fill_ids_def fill_refs_def fill_managers_def

lemma parse_layout1_takes:
  assumes "body_ok b" "counts_fit32 b"
  shows "takes xs (parse_layout1 (Some xs) (length xs))
    ([c_class_id b, word_of_nat (c_data_size b), 0, word_of_nat (c_id_count b), word_of_nat (c_chunk_ref_count b)]
     @ words (c_data b) (c_data_size b) @ words (c_ids b) (c_id_count b) @ words (c_chunk_refs b) (c_chunk_ref_count b))
    () (\<lambda>r. fill_refs NMO_CHUNK_OPTION_CHN b (fill_ids NMO_CHUNK_OPTION_IDS b (fill_data b
          (r\<lparr>c_class_id := c_class_id b, c_chunk_class_id := ucast (c_class_id b AND 0xFF)\<rparr>))))"
proof -
  note arrays = arrays_take [OF assms, of xs]
  have "takes xs (parse_layout1 (Some xs) (length xs))
    ([c_class_id b] @ [] @ [word_of_nat (c_data_size b)] @ [0] @ [word_of_nat (c_id_count b)]
     @ [word_of_nat (c_chunk_ref_count b)]
     @ words (c_data b) (c_data_size b) @ words (c_ids b) (c_id_count b) @ words (c_chunk_refs b) (c_chunk_ref_count b))
    () (\<lambda>r. fill_refs NMO_CHUNK_OPTION_CHN b (fill_ids NMO_CHUNK_OPTION_IDS b (fill_data b
          (r\<lparr>c_class_id := c_class_id b, c_chunk_class_id := ucast (c_class_id b AND 0xFF)\<rparr>))))"
    unfolding parse_layout1_def fill_defs
    by (rule takes_header, (rule takes_bind, rule takes_next takes_set takes_skip arrays)+, rule arrays) simp
  then show ?thesis by simp
qed

lemma parse_layout2_takes:
  assumes "body_ok b" "counts_fit32 b"
  shows "takes xs (parse_layout2 (Some xs) (length xs))
    ([ucast (c_chunk_class_id b), word_of_nat (c_data_size b), 0, word_of_nat (c_id_count b),
      word_of_nat (c_chunk_ref_count b), word_of_nat (c_manager_count b)]
     @ words (c_data b) (c_data_size b) @ words (c_ids b) (c_id_count b)
     @ words (c_chunk_refs b) (c_chunk_ref_count b) @ words (c_managers b) (c_manager_count b))
    () (\<lambda>r. fill_managers NMO_CHUNK_OPTION_MAN b (fill_refs NMO_CHUNK_OPTION_CHN b
          (fill_ids NMO_CHUNK_OPTION_IDS b (fill_data b
            (r\<lparr>c_chunk_class_id := ucast (ucast (c_chunk_class_id b) :: u32)\<rparr>)))))"
proof -
  note arrays = arrays_take [OF assms, of xs]
  have "takes xs (parse_layout2 (Some xs) (length xs))
    ([ucast (c_chunk_class_id b)] @ [] @ [word_of_nat (c_data_size b)] @ [0] @ [word_of_nat (c_id_count b)]
     @ [word_of_nat (c_chunk_ref_count b)] @ [word_of_nat (c_manager_count b)]
     @ words (c_data b) (c_data_size b) @ words (c_ids b) (c_id_count b)
     @ words (c_chunk_refs b) (c_chunk_ref_count b) @ words (c_managers b) (c_manager_count b))
    () (\<lambda>r. fill_managers NMO_CHUNK_OPTION_MAN b (fill_refs NMO_CHUNK_OPTION_CHN b
          (fill_ids NMO_CHUNK_OPTION_IDS b (fill_data b
            (r\<lparr>c_chunk_class_id := ucast (ucast (c_chunk_class_id b) :: u32)\<rparr>)))))"
    unfolding parse_layout2_def fill_defs
    by (rule takes_header, (rule takes_bind, rule takes_next takes_set takes_skip arrays)+, rule arrays) simp
  then show ?thesis by simp
qed

lemma flagged_take:
  assumes "body_ok b" and "counts_fit32 b"
  shows "takes xs (parse_flagged (Some xs) (length xs) (has_option (option_flags b) NMO_CHUNK_OPTION_IDS) set_ids (size_ids f))
     (if has_option (option_flags b) NMO_CHUNK_OPTION_IDS
      then word_of_nat (c_id_count b) # words (c_ids b) (c_id_count b) else []) () (fill_ids f b)"
  "takes xs (parse_flagged (Some xs) (length xs) (has_option (option_flags b) NMO_CHUNK_OPTION_CHN) set_refs (size_refs f))
     (if has_option (option_flags b) NMO_CHUNK_OPTION_CHN
      then word_of_nat (c_chunk_ref_count b) # words (c_chunk_refs b) (c_chunk_ref_count b) else []) () (fill_refs f b)"
  "takes xs (parse_flagged (Some xs) (length xs) (has_option (option_flags b) NMO_CHUNK_OPTION_MAN) set_managers (size_managers f))
     (if has_option (option_flags b) NMO_CHUNK_OPTION_MAN
      then word_of_nat (c_manager_count b) # words (c_managers b) (c_manager_count b) else []) () (fill_managers f b)"
  unfolding fill_defs
  by (rule takes_flagged; use assms in \<open>auto simp: body_ok_def counts_fit32_def option_flags_has\<close>)+

lemma parse_compact_takes:
  assumes "body_ok b" "counts_fit32 b"
    and val: "drop_bit 24 val AND 0xFF = option_flags b AND 0xFF"
  shows "takes xs (parse_compact (Some xs) (length xs) val)
    (word_of_nat (c_data_size b) # words (c_data b) (c_data_size b)
     @ (if has_option (option_flags b) NMO_CHUNK_OPTION_IDS
        then word_of_nat (c_id_count b) # words (c_ids b) (c_id_count b) else [])
     @ (if has_option (option_flags b) NMO_CHUNK_OPTION_CHN
        then word_of_nat (c_chunk_ref_count b) # words (c_chunk_refs b) (c_chunk_ref_count b) else [])
     @ (if has_option (option_flags b) NMO_CHUNK_OPTION_MAN
        then word_of_nat (c_manager_count b) # words (c_managers b) (c_manager_count b) else []))
    () (\<lambda>r. fill_managers 0 b (fill_refs 0 b (fill_ids 0 b (fill_data b
          (r\<lparr>c_chunk_class_id := ucast (drop_bit 8 val AND 0xFF), c_chunk_options := option_flags b AND 0xFF,
            c_data_version := val AND 0xFF, c_chunk_version := drop_bit 16 val AND 0xFF\<rparr>)))))"
proof -
  note arrays = arrays_take(1) [OF assms(1,2), of xs, folded fill_data_def]
  note flagged = flagged_take [OF assms(1,2), of xs]
  have "takes xs (parse_compact (Some xs) (length xs) val)
    ([] @ [word_of_nat (c_data_size b)] @ words (c_data b) (c_data_size b)
     @ (if has_option (option_flags b) NMO_CHUNK_OPTION_IDS
        then word_of_nat (c_id_count b) # words (c_ids b) (c_id_count b) else [])
     @ (if has_option (option_flags b) NMO_CHUNK_OPTION_CHN
        then word_of_nat (c_chunk_ref_count b) # words (c_chunk_refs b) (c_chunk_ref_count b) else [])
     @ (if has_option (option_flags b) NMO_CHUNK_OPTION_MAN
        then word_of_nat (c_manager_count b) # words (c_managers b) (c_manager_count b) else []))
    () (\<lambda>r. fill_managers 0 b (fill_refs 0 b (fill_ids 0 b (fill_data b
          (r\<lparr>c_chunk_class_id := ucast (drop_bit 8 val AND 0xFF), c_chunk_options := option_flags b AND 0xFF,
            c_data_version := val AND 0xFF, c_chunk_version := drop_bit 16 val AND 0xFF\<rparr>)))))"
    unfolding parse_compact_def Let_def val unfolding has_option_byte
    by ((rule takes_bind, rule takes_set takes_checked arrays flagged)+, rule flagged)
  then show ?thesis by simp
qed

section \<open>The round trip\<close>

lemma old_header_bits:
  fixes dv v :: u32
  shows "((dv AND 0xFF) OR push_bit 16 (v AND 0xFF)) AND 0xFF = dv AND 0xFF"
    "drop_bit 16 ((dv AND 0xFF) OR push_bit 16 (v AND 0xFF)) AND 0xFF = v AND 0xFF"
proof -
  have m: "(0xFF :: u32) = mask 8" by (simp add: mask_eq_exp_minus_1)
  show "((dv AND 0xFF) OR push_bit 16 (v AND 0xFF)) AND 0xFF = dv AND 0xFF"
    "drop_bit 16 ((dv AND 0xFF) OR push_bit 16 (v AND 0xFF)) AND 0xFF = v AND 0xFF"
    unfolding m by (auto intro!: bit_word_eqI simp: bit_simps)
qed

lemma pack_version_bits:
  "pack_version d c v o' AND 0xFF = ucast d" "drop_bit 8 (pack_version d c v o') AND 0xFF = ucast c"
  "drop_bit 16 (pack_version d c v o') AND 0xFF = ucast v" "drop_bit 24 (pack_version d c v o') AND 0xFF = ucast o'"
proof -
  have m: "(0xFF :: u32) = mask 8" by (simp add: mask_eq_exp_minus_1)
  show "pack_version d c v o' AND 0xFF = ucast d" "drop_bit 8 (pack_version d c v o') AND 0xFF = ucast c"
    "drop_bit 16 (pack_version d c v o') AND 0xFF = ucast v" "drop_bit 24 (pack_version d c v o') AND 0xFF = ucast o'"
    unfolding pack_version_def Let_def m by (auto intro!: bit_word_eqI simp: bit_simps dest!: u8_bits)
qed

lemma ucast_low_byte: "ucast (ucast (x AND 0xFF) :: u8) = (x :: u32) AND 0xFF"
proof -
  have m: "(0xFF :: u32) = mask 8" by (simp add: mask_eq_exp_minus_1)
  show ?thesis unfolding m by (auto intro!: bit_word_eqI simp: bit_simps)
qed

lemma clamp_version_range: "clamp_version v \<in> {4, 5, 6, 7}"
proof (cases "unat v < 4 \<or> unat v > 7")
  case False
  then have "unat v \<in> {4, 5, 6, 7}" by auto
  then have "v \<in> {4, 5, 6, 7}" by (auto simp: word_unat_eq_iff)
  with False show ?thesis by (auto simp: clamp_version_def chunk_version_defs)
qed (auto simp: clamp_version_def chunk_version_defs)

lemma clamp_version_byte: "clamp_version v AND 0xFF = clamp_version v"
  using clamp_version_range [of v] by auto

text \<open>
  What a chunk is after it was stored and parsed into an empty chunk. Each layout has its own way of
  keeping the class: the first has the whole class ID, the second the class byte, the compact one the
  class byte or the low byte of the class ID.
\<close>

definition loaded :: "chunk_body \<Rightarrow> chunk_body" where
  "loaded b =
     (let v = clamp_version (c_chunk_version b);
          flags = \<lambda>man. (if c_id_count b > 0 then NMO_CHUNK_OPTION_IDS else 0)
                     OR (if c_chunk_ref_count b > 0 then NMO_CHUNK_OPTION_CHN else 0)
                     OR (if man \<and> c_manager_count b > 0 then NMO_CHUNK_OPTION_MAN else 0)
      in empty_body
         \<lparr>c_class_id := (if v = 4 then c_class_id b else 0),
          c_data_version := c_data_version b AND 0xFF, c_chunk_version := v,
          c_chunk_class_id := (if v = 4 then ucast (c_class_id b AND 0xFF)
                               else if v = 5 then c_chunk_class_id b else class_byte b),
          c_chunk_options := (if v = 4 then flags False else if v = 5 then flags True
                              else option_flags b AND 0xFF),
          c_data := kept True (c_data b) (c_data_size b),
          c_data_size := c_data_size b, c_data_capacity := c_data_size b,
          c_ids := kept True (c_ids b) (c_id_count b),
          c_id_count := c_id_count b, c_id_capacity := c_id_count b,
          c_chunk_refs := kept True (c_chunk_refs b) (c_chunk_ref_count b),
          c_chunk_ref_count := c_chunk_ref_count b, c_chunk_ref_capacity := c_chunk_ref_count b,
          c_managers := kept (v \<noteq> 4) (c_managers b) (c_manager_count b),
          c_manager_count := (if v \<noteq> 4 then c_manager_count b else 0),
          c_manager_capacity := (if v \<noteq> 4 then c_manager_count b else 0)\<rparr>)"

lemma fill_eq:
  assumes "buffer_ok p n"
  shows "fill point count_as (words p n) r = (if n = 0 then r else count_as n (point (Some (words p n)) r))"
  using length_words [OF assms] by (auto simp: fill_def)

lemmas field_updates =
  set_data_def size_data_def set_ids_def size_ids_def set_refs_def size_refs_def set_managers_def size_managers_def

text \<open>The version word and what follows it.\<close>

definition parse_body :: "u32 list option \<Rightarrow> nat \<Rightarrow> u32 \<Rightarrow> parse_state \<Rightarrow> (unit, parse_state) cres" where
  "parse_body buf n val s =
     (let version = drop_bit 16 val AND 0xFF
      in if unat version < NMO_CHUNK_VERSION2 then parse_layout1 buf n s
         else if unat version = NMO_CHUNK_VERSION2 then parse_layout2 buf n s
         else if unat version \<le> NMO_CHUNK_VERSION4 then parse_compact buf n val s
         else fail NMO_ERR_UNSUPPORTED_VERSION s)"

lemma takes_layouts:
  assumes "takes xs (parse_body (Some xs) (length xs) val) ds () F"
  shows "takes xs (\<lambda>(pos, b, a). bindR (next_dword (Some xs) (pos, b, a)) (\<lambda>val.
       \<lambda>s. bindR (set_chunk (\<lambda>b. b\<lparr>c_data_version := val AND 0xFF, c_chunk_version := drop_bit 16 val AND 0xFF\<rparr>) s)
         (\<lambda>_. parse_body (Some xs) (length xs) val))) (val # ds) ()
     (\<lambda>b. F (b\<lparr>c_data_version := val AND 0xFF, c_chunk_version := drop_bit 16 val AND 0xFF\<rparr>))"
proof -
  let ?set = "\<lambda>b. b\<lparr>c_data_version := val AND 0xFF, c_chunk_version := drop_bit 16 val AND 0xFF\<rparr>"
  have "takes xs (\<lambda>s. bindR (next_dword (Some xs) s) (\<lambda>val.
       \<lambda>s. bindR (set_chunk (\<lambda>b. b\<lparr>c_data_version := val AND 0xFF, c_chunk_version := drop_bit 16 val AND 0xFF\<rparr>) s)
         (\<lambda>_. parse_body (Some xs) (length xs) val))) ([val] @ [] @ ds) () (\<lambda>b. F (?set b))"
    by (rule takes_bind, rule takes_next, rule takes_bind, rule takes_set, rule assms)
  then show ?thesis by (simp add: case_prod_beta')
qed

lemma parse_layouts_eq:
  "parse_layouts buf n b a = bindR (next_dword buf (0, b, a)) (\<lambda>val.
     \<lambda>s. bindR (set_chunk (\<lambda>b. b\<lparr>c_data_version := val AND 0xFF, c_chunk_version := drop_bit 16 val AND 0xFF\<rparr>) s)
       (\<lambda>_. parse_body buf n val))"
  unfolding parse_layouts_def parse_body_def [abs_def] Let_def ..

lemma parse_layouts_takes:
  assumes "takes xs (parse_body (Some xs) (length xs) val) ds () F" and "xs = val # ds" "length xs < 2 ^ 60"
    and "arena_sane a" "arena_grants a"
    and "F (b\<lparr>c_data_version := val AND 0xFF, c_chunk_version := drop_bit 16 val AND 0xFF\<rparr>) = r"
  shows "\<exists>a'. parse_layouts (Some xs) (length xs) b a = ok () (length xs, r, a') \<and> arena_sane a' \<and> arena_grants a'"
  using takes_layouts [OF assms(1), unfolded takes_def, rule_format, of 0 "[]" a b] assms(2-6)
  by (simp add: parse_layouts_eq)

lemma parse_layouts_loaded:
  assumes "body_ok b" "counts_fit32 b" and "length (layout_words b) < 2 ^ 60" and "arena_sane a" "arena_grants a"
  shows "\<exists>a'. parse_layouts (Some (layout_words b)) (length (layout_words b))
      (empty_body\<lparr>c_raw_data := d, c_raw_size := n\<rparr>) a
    = ok () (length (layout_words b), (loaded b)\<lparr>c_raw_data := d, c_raw_size := n\<rparr>, a')
    \<and> arena_sane a' \<and> arena_grants a'"
proof -
  let ?xs = "layout_words b" and ?r = "empty_body\<lparr>c_raw_data := d, c_raw_size := n\<rparr>"
  let ?v = "clamp_version (c_chunk_version b)"
  have ok: "buffer_ok (c_data b) (c_data_size b)" "buffer_ok (c_ids b) (c_id_count b)"
    "buffer_ok (c_chunk_refs b) (c_chunk_ref_count b)" "buffer_ok (c_managers b) (c_manager_count b)"
    using assms by (auto simp: body_ok_def)
  note fills = ok [THEN fill_eq]
  note simps = loaded_def fill_defs fills field_updates kept_def empty_body_def Let_def
  consider (v1) "?v = 4" | (v2) "?v = 5" | (v4) "?v \<in> {6, 7}" using clamp_version_range by blast
  then show ?thesis
  proof cases
    case v1
    let ?val = "(c_data_version b AND 0xFF) OR push_bit 16 (?v AND 0xFF)"
    note bits = old_header_bits [of "c_data_version b" ?v]
    have "takes ?xs (parse_body (Some ?xs) (length ?xs) ?val) (tl ?xs) ()
        (\<lambda>r. fill_refs NMO_CHUNK_OPTION_CHN b (fill_ids NMO_CHUNK_OPTION_IDS b (fill_data b
          (r\<lparr>c_class_id := c_class_id b, c_chunk_class_id := ucast (c_class_id b AND 0xFF)\<rparr>))))"
      using parse_layout1_takes [OF assms(1,2), of ?xs] v1
      by (simp add: parse_body_def [abs_def] bits chunk_version_defs layout_words_def)
    moreover have "?xs = ?val # tl ?xs" using v1 by (simp add: layout_words_def chunk_version_defs)
    ultimately show ?thesis
      by (rule parse_layouts_takes [OF _ _ assms(3-5)]) (unfold bits, unfold clamp_version_byte, simp add: v1 simps)
  next
    case v2
    let ?val = "(c_data_version b AND 0xFF) OR push_bit 16 (?v AND 0xFF)"
    note bits = old_header_bits [of "c_data_version b" ?v]
    have "takes ?xs (parse_body (Some ?xs) (length ?xs) ?val) (tl ?xs) ()
        (\<lambda>r. fill_managers NMO_CHUNK_OPTION_MAN b (fill_refs NMO_CHUNK_OPTION_CHN b
          (fill_ids NMO_CHUNK_OPTION_IDS b (fill_data b
            (r\<lparr>c_chunk_class_id := ucast (ucast (c_chunk_class_id b) :: u32)\<rparr>)))))"
      using parse_layout2_takes [OF assms(1,2), of ?xs] v2
      by (simp add: parse_body_def [abs_def] bits chunk_version_defs layout_words_def)
    moreover have "?xs = ?val # tl ?xs" using v2 by (simp add: layout_words_def chunk_version_defs)
    ultimately show ?thesis
      by (rule parse_layouts_takes [OF _ _ assms(3-5)])
        (unfold bits, unfold clamp_version_byte ucast_up_down, simp add: v2 simps or.assoc)
  next
    case v4
    let ?val = "pack_version (ucast (c_data_version b AND 0xFF)) (class_byte b) (ucast (?v AND 0xFF))
              (ucast (option_flags b AND 0xFF))"
    note bits = pack_version_bits [of "ucast (c_data_version b AND 0xFF)" "class_byte b" "ucast (?v AND 0xFF)"
              "ucast (option_flags b AND 0xFF)", unfolded ucast_low_byte]
    have v: "\<not> unat ?v < NMO_CHUNK_VERSION2" "unat ?v \<noteq> NMO_CHUNK_VERSION2" "unat ?v \<le> NMO_CHUNK_VERSION4"
      "?v \<noteq> 4" "?v \<noteq> 5" using v4 by (auto simp: chunk_version_defs)
    have body: "parse_body (Some ?xs) (length ?xs) ?val = parse_compact (Some ?xs) (length ?xs) ?val"
      unfolding parse_body_def [abs_def] Let_def bits unfolding clamp_version_byte by (simp add: v)
    have xs: "?xs = ?val # tl ?xs" by (simp add: layout_words_def v)
    have "takes ?xs (parse_body (Some ?xs) (length ?xs) ?val) (tl ?xs) ()
        (\<lambda>r. fill_managers 0 b (fill_refs 0 b (fill_ids 0 b (fill_data b
          (r\<lparr>c_chunk_class_id := ucast (drop_bit 8 ?val AND 0xFF), c_chunk_options := option_flags b AND 0xFF,
            c_data_version := ?val AND 0xFF, c_chunk_version := drop_bit 16 ?val AND 0xFF\<rparr>)))))"
      using parse_compact_takes [OF assms(1,2) bits(4), of ?xs] unfolding body
      by (simp add: layout_words_def [of b] v Let_def)
    from this xs show ?thesis
      by (rule parse_layouts_takes [OF _ _ assms(3-5)])
        (unfold bits, unfold clamp_version_byte ucast_up_down, simp add: v simps)
  qed
qed

lemma length_layout_words:
  assumes "body_ok b" "counts_fit32 b"
  shows "0 < length (layout_words b)" "length (layout_words b) < 2 ^ 40"
  using assms by (auto simp: layout_words_def Let_def body_ok_def counts_fit32_def)

lemma buffer_words_bytes: "buffer_words (bytes_of_dwords ds) = Some ds"
  using dwords_of_bytes_of_dwords [of ds] by (simp add: buffer_words_def mult.commute)

lemma parse_loaded:
  assumes "body_ok b" "counts_fit32 b" and "arena_sane a" "arena_grants a"
  shows "\<exists>a'. nmo_chunk_parse (Chunk empty_body None) (bytes_of_dwords (layout_words b)) (4 * length (layout_words b)) a
    = ok () (Chunk ((loaded b)\<lparr>c_raw_data := Some (bytes_of_dwords (layout_words b)),
                              c_raw_size := 4 * length (layout_words b)\<rparr>) None, a')
    \<and> arena_sane a' \<and> arena_grants a'"
proof -
  note len = length_layout_words [OF assms(1,2)]
  have "length (layout_words b) < 2 ^ 60" using len(2) by simp
  from parse_layouts_loaded [OF assms(1,2) this assms(3,4), where d = "Some (bytes_of_dwords (layout_words b))"
      and n = "4 * length (layout_words b)"]
  obtain a' where "parse_layouts (Some (layout_words b)) (length (layout_words b))
      (empty_body\<lparr>c_raw_data := Some (bytes_of_dwords (layout_words b)), c_raw_size := 4 * length (layout_words b)\<rparr>) a
    = ok () (length (layout_words b), (loaded b)\<lparr>c_raw_data := Some (bytes_of_dwords (layout_words b)),
        c_raw_size := 4 * length (layout_words b)\<rparr>, a')" "arena_sane a'" "arena_grants a'" by blast
  with len(1) show ?thesis by (simp add: nmo_chunk_parse_def buffer_words_bytes ok_def Let_def)
qed

text \<open>
  C8: a chunk of any version saved in its file layout is parsed back, from exactly the bytes whose
  number was computed: the data, the ID list, the sub-chunk references and (from version 5 on) the
  manager list are the ones saved, and the versions, options and class are what \<open>loaded\<close> says. What the
  layout has no room for is lost: before version 5 the managers, the options above the lowest eight bits,
  the class where its field does not exist, and the sub-chunks themselves, of which only the references
  are written.
\<close>

theorem file_layout_round_trip:
  assumes "body_ok b" "counts_fit32 b" and "arena_sane a" "arena_grants a"
  shows "\<exists>ws a' a''. nmo_chunk_serialize_version1 (Chunk b cs) a = ok (ws, chunk_calc_size_version1 b) a'
     \<and> chunk_calc_size_version1 b = 4 * length ws
     \<and> nmo_chunk_parse (Chunk empty_body None) (bytes_of_dwords ws) (4 * length ws) a'
       = ok () (Chunk ((loaded b)\<lparr>c_raw_data := Some (bytes_of_dwords ws), c_raw_size := 4 * length ws\<rparr>) None, a'')"
proof -
  let ?ws = "layout_words b"
  have len: "4 * length ?ws < 2 ^ 61" using length_layout_words(2) [OF assms(1,2)] by simp
  from serialize_layout_words [OF assms(1) len assms(3,4)] obtain a' where
    a': "nmo_chunk_serialize_version1 (Chunk b cs) a = ok (?ws, 4 * length ?ws) a'" "arena_sane a'" "arena_grants a'"
    by blast
  have "chunk_calc_size_version1 b = 4 * length ?ws" using calc_size_layout [OF assms(1)] len by simp
  with a'(1) parse_loaded [OF assms(1,2) a'(2,3)] show ?thesis by auto
qed

definition sample_body :: chunk_body where
  "sample_body = empty_body\<lparr>c_class_id := 0x0102, c_data := Some [1, 2, 3], c_data_size := 3,
     c_ids := Some [1], c_id_count := 1, c_managers := Some [5, 6], c_manager_count := 2\<rparr>"

lemma sample_body_ok: "body_ok sample_body" "counts_fit32 sample_body"
  by (simp_all add: sample_body_def body_ok_def buffer_ok_def counts_fit32_def empty_body_def)

theorem file_layout_round_trip_witness:
  "\<exists>a ws a' a''. nmo_arena_create (\<lambda>_ _. True) (\<lambda>_ _. 0) 0 = Done (Some a)
     \<and> nmo_chunk_serialize_version1 (Chunk sample_body None) a = ok (ws, chunk_calc_size_version1 sample_body) a'
     \<and> nmo_chunk_parse (Chunk empty_body None) (bytes_of_dwords ws) (4 * length ws) a'
       = ok () (Chunk ((loaded sample_body)\<lparr>c_raw_data := Some (bytes_of_dwords ws), c_raw_size := 4 * length ws\<rparr>) None, a'')"
proof -
  obtain a where a: "nmo_arena_create (\<lambda>_ _. True) (\<lambda>_ _. 0) 0 = Done (Some a)" "arena_sane a" "arena_grants a"
    by (rule default_arena_exists)
  from file_layout_round_trip [OF sample_body_ok a(2,3)] a(1) show ?thesis by blast
qed

section \<open>Saving again\<close>

lemma loaded_words:
  assumes "body_ok b"
  shows "words (c_data (loaded b)) (c_data_size b) = words (c_data b) (c_data_size b)"
    "words (c_ids (loaded b)) (c_id_count b) = words (c_ids b) (c_id_count b)"
    "words (c_chunk_refs (loaded b)) (c_chunk_ref_count b) = words (c_chunk_refs b) (c_chunk_ref_count b)"
    "clamp_version (c_chunk_version b) \<noteq> 4 \<Longrightarrow>
       words (c_managers (loaded b)) (c_manager_count b) = words (c_managers b) (c_manager_count b)"
proof -
  have "words (kept True p n) n = words p n" if "buffer_ok p n" for p n
    using that by (auto simp: kept_def words_def buffer_ok_def split: option.splits)
  with assms show "words (c_data (loaded b)) (c_data_size b) = words (c_data b) (c_data_size b)"
    "words (c_ids (loaded b)) (c_id_count b) = words (c_ids b) (c_id_count b)"
    "words (c_chunk_refs (loaded b)) (c_chunk_ref_count b) = words (c_chunk_refs b) (c_chunk_ref_count b)"
    "clamp_version (c_chunk_version b) \<noteq> 4 \<Longrightarrow>
       words (c_managers (loaded b)) (c_manager_count b) = words (c_managers b) (c_manager_count b)"
    by (auto simp: body_ok_def loaded_def Let_def)
qed

lemma clamp_version_idem: "clamp_version (clamp_version v) = clamp_version v"
  by (auto simp: clamp_version_def chunk_version_defs)

lemma flag_absorb:
  assumes "f AND 0xFF = (f :: u32)"
  shows "f OR ((x OR f) AND 0xFF) = (x OR f) AND 0xFF" "f OR ((f OR x) AND 0xFF) = (f OR x) AND 0xFF"
proof -
  have f: "bit (0xFF :: u32) n" if "bit f n" for n using that assms by (metis bit_and_iff)
  show "f OR ((x OR f) AND 0xFF) = (x OR f) AND 0xFF" "f OR ((f OR x) AND 0xFF) = (f OR x) AND 0xFF"
    by (rule bit_word_eqI; use f in \<open>auto simp: bit_or_iff bit_and_iff\<close>)+
qed

lemma loaded_options:
  assumes "clamp_version (c_chunk_version b) \<notin> {4, 5}"
  shows "option_flags (loaded b) AND 0xFF = option_flags b AND 0xFF"
    "has_option (option_flags (loaded b)) f \<longleftrightarrow> has_option (option_flags b AND 0xFF) f"
proof -
  have "option_flags (loaded b) = option_flags b AND 0xFF"
    using assms
    by (cases "c_id_count b = 0"; cases "c_chunk_ref_count b = 0"; cases "c_manager_count b = 0")
      (simp_all add: option_flags_def loaded_def Let_def chunk_option_defs bit.disj_conj_distrib2
        or.assoc or.commute or.left_commute flag_absorb)
  then show "option_flags (loaded b) AND 0xFF = option_flags b AND 0xFF"
    "has_option (option_flags (loaded b)) f \<longleftrightarrow> has_option (option_flags b AND 0xFF) f"
    by (simp_all add: and.assoc)
qed

lemma class_byte_loaded:
  assumes "clamp_version (c_chunk_version b) \<notin> {4, 5}"
  shows "class_byte (loaded b) = class_byte b"
  using assms by (simp add: class_byte_def loaded_def Let_def)

lemma layout_words_loaded:
  assumes "body_ok b"
  shows "layout_words (loaded b) = layout_words b"
proof -
  let ?v = "clamp_version (c_chunk_version b)"
  note same = loaded_words [OF assms]
  have counts: "c_data_size (loaded b) = c_data_size b" "c_id_count (loaded b) = c_id_count b"
    "c_chunk_ref_count (loaded b) = c_chunk_ref_count b" "?v \<noteq> 4 \<Longrightarrow> c_manager_count (loaded b) = c_manager_count b"
    and version: "clamp_version (c_chunk_version (loaded b)) = ?v"
    and data_version: "c_data_version (loaded b) AND 0xFF = c_data_version b AND 0xFF"
    by (simp_all add: loaded_def Let_def clamp_version_idem and.assoc)
  consider (v1) "?v = 4" | (v2) "?v = 5" | (v4) "?v \<in> {6, 7}" using clamp_version_range by blast
  then show ?thesis
  proof cases
    case v1
    moreover from v1 have "c_class_id (loaded b) = c_class_id b" by (simp add: loaded_def Let_def)
    ultimately show ?thesis
      by (simp add: layout_words_def [of "loaded b"] layout_words_def [of b] Let_def version data_version same counts
          chunk_version_defs)
  next
    case v2
    moreover from v2 have "c_chunk_class_id (loaded b) = c_chunk_class_id b" by (simp add: loaded_def Let_def)
    ultimately show ?thesis
      by (simp add: layout_words_def [of "loaded b"] layout_words_def [of b] Let_def version data_version same counts
          chunk_version_defs)
  next
    case v4
    then have "?v \<notin> {4, 5}" "?v \<noteq> 4" by auto
    then show ?thesis
      using v4 by (auto simp: layout_words_def [of "loaded b"] layout_words_def [of b] Let_def version data_version same
          counts chunk_version_defs class_byte_loaded loaded_options has_option_byte)
  qed
qed

text \<open>
  C10: saving what was parsed gives the same bytes: a chunk that was saved, parsed and saved again is
  the same file content word for word, whatever its version, flags and class fields were.
\<close>

theorem resaving_is_identical:
  assumes "body_ok b" "counts_fit32 b" and "arena_sane a" "arena_grants a"
  shows "\<exists>ws a1 c a2 a3. nmo_chunk_serialize_version1 (Chunk b cs) a = ok (ws, 4 * length ws) a1
     \<and> nmo_chunk_parse (Chunk empty_body None) (bytes_of_dwords ws) (4 * length ws) a1 = ok () (c, a2)
     \<and> nmo_chunk_serialize_version1 c a2 = ok (ws, 4 * length ws) a3"
proof -
  let ?ws = "layout_words b"
  let ?c = "(loaded b)\<lparr>c_raw_data := Some (bytes_of_dwords ?ws), c_raw_size := 4 * length ?ws\<rparr>"
  have len: "4 * length ?ws < 2 ^ 61" using length_layout_words(2) [OF assms(1,2)] by simp
  from serialize_layout_words [OF assms(1) len assms(3,4)] obtain a1 where
    a1: "nmo_chunk_serialize_version1 (Chunk b cs) a = ok (?ws, 4 * length ?ws) a1" "arena_sane a1" "arena_grants a1"
    by blast
  from parse_loaded [OF assms(1,2) a1(2,3)] obtain a2 where
    a2: "nmo_chunk_parse (Chunk empty_body None) (bytes_of_dwords ?ws) (4 * length ?ws) a1 = ok () (Chunk ?c None, a2)"
      "arena_sane a2" "arena_grants a2" by blast
  have "body_ok (loaded b)"
    using assms(1) by (auto simp: loaded_def Let_def body_ok_def buffer_ok_def kept_def words_def split: option.splits)
  then have ok: "body_ok ?c" by (simp add: body_ok_def)
  have "layout_words ?c = layout_words (loaded b)" by (simp add: layout_words_def Let_def option_flags_def class_byte_def)
  with layout_words_loaded [OF assms(1)] have ws: "layout_words ?c = ?ws" by simp
  from serialize_layout_words [OF ok _ a2(2,3), of None] len a1 a2 show ?thesis unfolding ws by blast
qed

theorem resaving_is_identical_witness:
  "\<exists>a ws a1 c a2 a3. nmo_arena_create (\<lambda>_ _. True) (\<lambda>_ _. 0) 0 = Done (Some a)
     \<and> nmo_chunk_serialize_version1 (Chunk sample_body None) a = ok (ws, 4 * length ws) a1
     \<and> nmo_chunk_parse (Chunk empty_body None) (bytes_of_dwords ws) (4 * length ws) a1 = ok () (c, a2)
     \<and> nmo_chunk_serialize_version1 c a2 = ok (ws, 4 * length ws) a3"
proof -
  obtain a where a: "nmo_arena_create (\<lambda>_ _. True) (\<lambda>_ _. 0) 0 = Done (Some a)" "arena_sane a" "arena_grants a"
    by (rule default_arena_exists)
  from resaving_is_identical [OF sample_body_ok a(2,3)] a(1) show ?thesis by blast
qed

end
