(* ===== verification/LayoutSafety.thy ===== *)
theory LayoutSafety
  imports LayoutSpec
begin

text \<open>
  \<^verbatim>\<open>nmo_chunk_parse\<close> on any input: it returns, except for one header, whose check is a word short.
\<close>

section \<open>Steps that stay inside the input\<close>

text \<open>With at least \<open>k\<close> words left, \<open>f\<close> returns, and when it succeeds at least \<open>j\<close> words are left.\<close>

definition steps :: "u32 list \<Rightarrow> nat \<Rightarrow> nat \<Rightarrow> (parse_state \<Rightarrow> ('a, parse_state) cres) \<Rightarrow> bool" where
  "steps xs k j f \<longleftrightarrow> (\<forall>pos b a. length xs < 2 ^ 60 \<longrightarrow> pos + k \<le> length xs \<longrightarrow> arena_sane a \<longrightarrow>
     (\<exists>x q c d. f (pos, b, a) = Done (x, q, c, d) \<and> arena_sane d \<and> (\<forall>v. x = Inr v \<longrightarrow> q + j \<le> length xs)))"

lemma steps_bind:
  assumes "steps xs k j f" and "\<And>v. steps xs j l (g v)"
  shows "steps xs k l (\<lambda>s. bindR (f s) g)"
  unfolding steps_def
proof (intro allI impI)
  fix pos b a assume h: "length xs < 2 ^ 60" "pos + k \<le> length xs" "arena_sane a"
  from assms(1) [unfolded steps_def, rule_format, OF h] obtain x q c d where
    f: "f (pos, b, a) = Done (x, q, c, d)" "arena_sane d" "\<And>v. x = Inr v \<Longrightarrow> q + j \<le> length xs" by blast
  show "\<exists>x q c d. bindR (f (pos, b, a)) g = Done (x, q, c, d) \<and> arena_sane d \<and> (\<forall>v. x = Inr v \<longrightarrow> q + l \<le> length xs)"
  proof (cases x)
    case (Inr v)
    from assms(2) [of v, unfolded steps_def, rule_format, OF h(1) f(3) [OF Inr] f(2), of c] f(1) Inr
    show ?thesis by simp
  qed (use f in simp)
qed

lemma steps_mono: "steps xs k j f \<Longrightarrow> k \<le> k' \<Longrightarrow> j' \<le> j \<Longrightarrow> steps xs k' j' f"
  unfolding steps_def by (meson add_left_mono order.trans)

lemma steps_next: "steps xs (Suc k) k (next_dword (Some xs))"
  by (auto simp: steps_def next_dword_def load_dword_def ok_def)

lemma steps_checked: "steps xs k 0 (checked_dword (Some xs) (length xs))"
  by (auto simp: steps_def checked_dword_def next_dword_def load_dword_def ok_def fail_def)

lemma steps_set: "steps xs k k (set_chunk F)"
  by (auto simp: steps_def set_chunk_def ok_def)

lemma steps_skip: "steps xs (Suc k) k skip_dword"
  by (auto simp: steps_def skip_dword_def ok_def)

lemma steps_header: "steps xs k (max k j) (header_room (length xs) j)" if "j < 2 ^ 60"
  using that by (auto simp: steps_def header_room_def ok_def fail_def sz_add_small)

lemma steps_array: "steps xs k 0 (parse_array (Some xs) (length xs) count point count_as)"
  unfolding steps_def
proof (intro allI impI)
  fix pos b a assume h: "length xs < 2 ^ 60" "pos + k \<le> length xs" "arena_sane a"
  have n: "unat count < 2 ^ 32" by (rule unat_lt)
  then have m: "unat count * 4 < 2 ^ 62" "(4 :: nat) \<in> {1, 4, 8, 16}" by simp_all
  from arena_alloc_sane [OF h(3) m] obtain q d where
    "nmo_arena_alloc (unat count * 4) 4 a = Done (q, d)" "arena_sane d" by blast
  with h n show "\<exists>x q c d. parse_array (Some xs) (length xs) count point count_as (pos, b, a) = Done (x, q, c, d)
      \<and> arena_sane d \<and> (\<forall>v. x = Inr v \<longrightarrow> q + 0 \<le> length xs)"
    by (auto simp: parse_array_def sz_mul_small sz_add_small ok_def fail_def load_dwords_def split: option.split)
qed

lemma steps_flagged: "steps xs k 0 (parse_flagged (Some xs) (length xs) present point count_as)"
proof (cases present)
  case True
  then show ?thesis using steps_bind [OF steps_checked steps_array] by (simp add: parse_flagged_def [abs_def])
qed (simp add: parse_flagged_def [abs_def] steps_def ok_def)

lemma steps_layout1: "steps xs 0 0 (parse_layout1 (Some xs) (length xs))"
proof -
  have head: "steps xs 0 j (header_room (length xs) 5)" if "j = 5" for j
    using that steps_header [of 5 xs 0] by simp
  show ?thesis unfolding parse_layout1_def [abs_def]
    by (rule steps_bind, rule head [of "Suc (Suc (Suc (Suc (Suc 0))))"], simp) ((rule steps_bind, rule steps_next steps_set steps_skip steps_array)+, rule steps_array)
qed

lemma steps_layout2: "steps xs (Suc (Suc (Suc (Suc (Suc (Suc 0)))))) 0 (parse_layout2 (Some xs) (length xs))"
proof -
  have head: "steps xs j j (header_room (length xs) 5)" if "j = 6" for j
    using that steps_header [of 5 xs 6] by simp
  show ?thesis unfolding parse_layout2_def [abs_def]
    by (rule steps_bind, rule head, simp) ((rule steps_bind, rule steps_next steps_set steps_skip steps_array)+, rule steps_array)
qed

lemma steps_compact: "steps xs 0 0 (parse_compact (Some xs) (length xs) val)"
  unfolding parse_compact_def [abs_def] Let_def
  by ((rule steps_bind, rule steps_set steps_checked steps_array steps_flagged)+, rule steps_flagged)

section \<open>The one header that is read too far\<close>

definition version_byte :: "u32 list \<Rightarrow> nat" where
  "version_byte xs = unat (drop_bit 16 (xs ! 0) AND 0xFF)"

lemma next_dword_at: "pos < length xs \<Longrightarrow> next_dword (Some xs) (pos, b, a) = ok (xs ! pos) (pos + 1, b, a)"
  and next_dword_beyond: "length xs \<le> pos \<Longrightarrow> next_dword (Some xs) (pos, b, a) = Undefined"
  by (simp_all add: next_dword_def load_dword_def)

lemma parse_layouts_next:
  "xs \<noteq> [] \<Longrightarrow> parse_layouts (Some xs) n b a = parse_body (Some xs) n (xs ! 0)
     (1, b\<lparr>c_data_version := xs ! 0 AND 0xFF, c_chunk_version := drop_bit 16 (xs ! 0) AND 0xFF\<rparr>, a)"
  by (simp add: parse_layouts_eq next_dword_at set_chunk_def)

lemma parse_layouts_steps:
  assumes "xs \<noteq> []" "length xs < 2 ^ 60" "arena_sane a" and "\<not> (version_byte xs = 5 \<and> length xs = 6)"
  shows "\<exists>r. parse_layouts (Some xs) (length xs) b a = Done r"
proof -
  have run: "\<exists>r. f (1, c, a) = Done r" if "steps xs k 0 f" "1 + k \<le> length xs" for k c
    and f :: "parse_state \<Rightarrow> (unit, parse_state) cres"
    using that assms(2,3) unfolding steps_def by blast
  have one: "1 \<le> length xs" using assms(1) by (cases xs) auto
  have "\<exists>r. parse_layout2 (Some xs) (length xs) (1, c, a) = Done r" if "version_byte xs = 5" for c
  proof (cases "length xs < 6")
    case True
    then show ?thesis using assms(2) by (simp add: parse_layout2_def header_room_def sz_add_small fail_def)
  next
    case False
    then show ?thesis using run [OF steps_layout2] assms(4) that by simp
  qed
  with run [OF steps_layout1] run [OF steps_compact] one show ?thesis
    unfolding parse_layouts_next [OF assms(1)]
    by (auto simp: parse_body_def Let_def chunk_version_defs version_byte_def fail_def)
qed

lemma parse_layout2_overruns:
  assumes "length xs = 6" "version_byte xs = 5"
  shows "parse_layouts (Some xs) 6 b a = Undefined"
proof -
  have "xs \<noteq> []" using assms(1) by auto
  then show ?thesis using assms
    by (simp add: parse_layouts_next parse_body_def Let_def version_byte_def chunk_version_defs parse_layout2_def
        header_room_def sz_add_small next_dword_at next_dword_beyond set_chunk_def skip_dword_def)
qed

text \<open>
  C30: parsing any input into any chunk returns a result or an error and stays inside the input, except
  for one input shape: a version-5 header of exactly six words (24 to 27 bytes). Its check asks for
  five words behind the version word, and the sixth, the manager count, is read behind the input.
\<close>

theorem parse_overruns_iff:
  assumes "length data < 2 ^ 61" and "arena_sane a"
  shows "(nmo_chunk_parse chunk data (length data) a = Undefined \<longleftrightarrow>
      length data div 4 = 6 \<and> version_byte (the (buffer_words data)) = 5)
    \<and> nmo_chunk_parse chunk data (length data) a \<noteq> Diverges"
proof -
  let ?xs = "the (buffer_words data)" and ?b = "(c_body chunk)\<lparr>c_raw_data := Some data, c_raw_size := length data\<rparr>"
  have xs: "buffer_words data = Some ?xs" "length ?xs = length data div 4" "length ?xs < 2 ^ 60"
    using assms(1) by (simp_all add: buffer_words_def)
  show ?thesis
  proof (cases "length data div 4 < 1")
    case True
    then show ?thesis by (auto simp: nmo_chunk_parse_def Let_def fail_def)
  next
    case False
    then have ne: "?xs \<noteq> []" using xs(2) by auto
    have eq: "nmo_chunk_parse chunk data (length data) a = bindE (parse_layouts (Some ?xs) (length ?xs) ?b a)
        (\<lambda>(x, pos, b, a). Done (x, Chunk b (c_chunks chunk), a))"
      using False xs(1) by (auto simp: nmo_chunk_parse_def Let_def xs(2))
    show ?thesis
    proof (cases "version_byte ?xs = 5 \<and> length ?xs = 6")
      case True
      then show ?thesis using parse_layout2_overruns [of ?xs] xs(2) by (simp add: eq)
    next
      case False
      from parse_layouts_steps [OF ne xs(3) assms(2) this, of ?b] obtain x q b d where
        "parse_layouts (Some ?xs) (length ?xs) ?b a = Done (x, q, b, d)" by auto
      with False xs(2) show ?thesis by (auto simp: eq)
    qed
  qed
qed

text \<open>Six words whose version byte is five.\<close>

theorem parse_overruns_iff_witness:
  "\<exists>a. nmo_arena_create (\<lambda>_ _. True) (\<lambda>_ _. 0) 0 = Done (Some a)
     \<and> nmo_chunk_parse (Chunk empty_body None) (bytes_of_dwords [0x00050000, 0, 0, 0, 0, 0]) 24 a = Undefined"
proof -
  let ?ds = "[0x00050000, 0, 0, 0, 0, 0] :: u32 list"
  obtain a where a: "nmo_arena_create (\<lambda>_ _. True) (\<lambda>_ _. 0) 0 = Done (Some a)" "arena_sane a" "arena_grants a"
    by (rule default_arena_exists)
  have "version_byte (the (buffer_words (bytes_of_dwords ?ds))) = 5"
    unfolding buffer_words_bytes by (simp add: version_byte_def)
  moreover have "length (bytes_of_dwords ?ds) = 24" unfolding length_bytes_of_dwords by simp
  ultimately show ?thesis
    using parse_overruns_iff [OF _ a(2), of "bytes_of_dwords ?ds" "Chunk empty_body None"] a(1)
    by (auto simp del: bytes_of_dwords_simps)
qed

end
