(* ===== verification/ChunkClone.thy ===== *)
theory ChunkClone
  imports LayoutSpec
begin

text \<open>The deep copy of a chunk: it succeeds on every complete tree and copies all of its content.\<close>

section \<open>Trees and their content\<close>

fun cloneable :: "nmo_chunk \<Rightarrow> bool" and forest_cloneable :: "nat \<Rightarrow> nmo_chunk option list \<Rightarrow> bool" where
  "cloneable (Chunk b cs) \<longleftrightarrow> body_ok b \<and> c_chunk_count b < 2 ^ 58 \<and> (cs = None \<longrightarrow> c_chunk_count b = 0)
     \<and> forest_cloneable (c_chunk_count b) (chunk_array cs)"
| "forest_cloneable 0 cs \<longleftrightarrow> True"
| "forest_cloneable (Suc n) [] \<longleftrightarrow> False"
| "forest_cloneable (Suc n) (None # cs) \<longleftrightarrow> forest_cloneable n cs"
| "forest_cloneable (Suc n) (Some c # cs) \<longleftrightarrow> cloneable c \<and> forest_cloneable n cs"

definition same_body :: "chunk_body \<Rightarrow> chunk_body \<Rightarrow> bool" where
  "same_body b d \<longleftrightarrow>
     c_class_id d = c_class_id b \<and> c_data_version d = c_data_version b \<and> c_chunk_version d = c_chunk_version b
     \<and> c_chunk_class_id d = c_chunk_class_id b \<and> c_chunk_options d = c_chunk_options b
     \<and> c_data_size d = c_data_size b \<and> words (c_data d) (c_data_size d) = words (c_data b) (c_data_size b)
     \<and> c_id_count d = c_id_count b \<and> words (c_ids d) (c_id_count d) = words (c_ids b) (c_id_count b)
     \<and> c_chunk_ref_count d = c_chunk_ref_count b
     \<and> words (c_chunk_refs d) (c_chunk_ref_count d) = words (c_chunk_refs b) (c_chunk_ref_count b)
     \<and> c_manager_count d = c_manager_count b
     \<and> words (c_managers d) (c_manager_count d) = words (c_managers b) (c_manager_count b)
     \<and> c_chunk_count d = c_chunk_count b"

fun same_tree :: "nmo_chunk \<Rightarrow> nmo_chunk \<Rightarrow> bool"
  and same_forest :: "nat \<Rightarrow> nmo_chunk option list \<Rightarrow> nmo_chunk option list \<Rightarrow> bool" where
  "same_tree (Chunk b cs) (Chunk d ds) \<longleftrightarrow> same_body b d \<and> body_ok d
     \<and> same_forest (c_chunk_count b) (chunk_array cs) (chunk_array ds)"
| "same_forest 0 cs ds \<longleftrightarrow> True"
| "same_forest (Suc n) (None # cs) (None # ds) \<longleftrightarrow> same_forest n cs ds"
| "same_forest (Suc n) (Some c # cs) (Some d # ds) \<longleftrightarrow> same_tree c d \<and> same_forest n cs ds"
| "same_forest (Suc n) _ _ \<longleftrightarrow> False"

section \<open>The copy\<close>

definition grants :: "(arena \<Rightarrow> ('a option \<times> arena) eff) \<Rightarrow> ('a \<Rightarrow> bool) \<Rightarrow> bool" where
  "grants f Q \<longleftrightarrow> (\<forall>a. arena_sane a \<longrightarrow> arena_grants a \<longrightarrow>
     (\<exists>x b. f a = Done (Some x, b) \<and> Q x \<and> arena_sane b \<and> arena_grants b))"

lemma grants_ok: "Q x \<Longrightarrow> grants (\<lambda>a. Done (Some x, a)) Q"
  by (simp add: grants_def)

lemma grants_bind:
  assumes "grants f P" and "\<And>x. P x \<Longrightarrow> grants (g x) Q"
  shows "grants (\<lambda>a. bindO (f a) g) Q"
  unfolding grants_def
proof (intro allI impI)
  fix a assume "arena_sane a" "arena_grants a"
  with assms(1) obtain x b where x: "f a = Done (Some x, b)" "P x" "arena_sane b" "arena_grants b"
    unfolding grants_def by blast
  with assms(2) [OF x(2)] show "\<exists>y c. bindO (f a) g = Done (Some y, c) \<and> Q y \<and> arena_sane c \<and> arena_grants c"
    by (simp add: grants_def bindO_def)
qed

lemma grants_alloc:
  assumes "0 < n" "n < 2 ^ 62" "al \<in> {1, 4, 8, 16}" and "grants g Q"
  shows "grants (\<lambda>a. bindE (nmo_arena_alloc n al a) (\<lambda>(q, a). case q of None \<Rightarrow> Done (None, a) | Some _ \<Rightarrow> g a)) Q"
  unfolding grants_def
proof (intro allI impI)
  fix a assume h: "arena_sane a" "arena_grants a"
  from arena_grant_region [OF h assms(1-3)] obtain r b where
    "nmo_arena_alloc n al a = Done (Some r, b)" "arena_sane b" "arena_grants b" by blast
  with assms(4) show "\<exists>x b. bindE (nmo_arena_alloc n al a)
      (\<lambda>(q, a). case q of None \<Rightarrow> Done (None, a) | Some _ \<Rightarrow> g a) = Done (Some x, b) \<and> Q x \<and> arena_sane b \<and> arena_grants b"
    by (simp add: grants_def)
qed

lemma grants_array:
  assumes "buffer_ok p n"
  shows "grants (clone_array p n) (\<lambda>(q, m). m = n \<and> words q m = words p n \<and> buffer_ok q m)"
proof (cases "n = 0")
  case False
  with assms obtain xs where p: "p = Some xs" "n \<le> length xs" "n < 2 ^ 60"
    by (auto simp: buffer_ok_def split: option.splits)
  have "grants (\<lambda>a. bindE (nmo_arena_alloc (n * 4) 4 a) (\<lambda>(q, a). case q of None \<Rightarrow> Done (None, a)
      | Some _ \<Rightarrow> Done (Some (Some (take n xs), n), a))) (\<lambda>(q, m). m = n \<and> words q m = words p n \<and> buffer_ok q m)"
    using p False by (intro grants_alloc grants_ok) (auto simp: words_def buffer_ok_def)
  moreover have "load_dwords p 0 n = Done (take n xs)" using p by (simp add: load_dwords_def)
  ultimately show ?thesis using p False
    unfolding clone_array_def [abs_def] by (simp only: bindE_simps if_True simp_thms) (simp add: sz_mul_small)
qed (use assms in \<open>auto simp: clone_array_def grants_def words_def buffer_ok_def split: option.split\<close>)

lemma clone_same:
  "cloneable c \<Longrightarrow> grants (nmo_chunk_clone c) (same_tree c)"
  "forest_cloneable n cs \<Longrightarrow> grants (clone_loop n cs) (same_forest n cs)"
proof (induction c and n cs rule: cloneable_forest_cloneable.induct)
  case (1 b cs)
  let ?n = "c_chunk_count b"
  have ok: "buffer_ok (c_data b) (c_data_size b)" "buffer_ok (c_ids b) (c_id_count b)"
    "buffer_ok (c_chunk_refs b) (c_chunk_ref_count b)" "buffer_ok (c_managers b) (c_manager_count b)"
    using "1.prems" by (auto simp: body_ok_def)
  have chunks: "grants (\<lambda>a. if cs \<noteq> None \<and> ?n > 0 then
        bindE (nmo_arena_alloc (sz_mul ?n 8) 8 a) (\<lambda>(q, a). case q of
          None \<Rightarrow> Done (None, a)
        | Some _ \<Rightarrow> bindO (clone_loop ?n (chunk_array cs) a) (\<lambda>xs a. Done (Some (Some xs, ?n), a)))
      else Done (Some (None, 0), a))
      (\<lambda>(ds, m). m = ?n \<and> same_forest ?n (chunk_array cs) (chunk_array ds))"
  proof (cases "cs \<noteq> None \<and> ?n > 0")
    case True
    have "grants (\<lambda>a. bindE (nmo_arena_alloc (sz_mul ?n 8) 8 a) (\<lambda>(q, a). case q of
          None \<Rightarrow> Done (None, a)
        | Some _ \<Rightarrow> bindO (clone_loop ?n (chunk_array cs) a) (\<lambda>xs a. Done (Some (Some xs, ?n), a))))
      (\<lambda>(ds, m). m = ?n \<and> same_forest ?n (chunk_array cs) (chunk_array ds))"
      using "1.prems" True
      by (intro grants_alloc grants_bind [OF "1.IH"] grants_ok) (auto simp: sz_mul_small chunk_array_def)
    with True show ?thesis by simp
  qed (use "1.prems" in \<open>auto intro!: grants_ok\<close>)
  show ?case
    unfolding nmo_chunk_clone.simps [abs_def]
    apply (rule grants_alloc)
       apply (simp_all add: sizeof_chunk_def)[3]
    apply (rule grants_bind [OF grants_array [OF ok(1)]], clarify)
    apply (rule grants_bind [OF grants_array [OF ok(2)]], clarify)
    apply (rule grants_bind [OF grants_array [OF ok(4)]], clarify)
    apply (rule grants_bind [OF chunks], clarify)
    apply (rule grants_bind [OF grants_array [OF ok(3)]], clarify)
    apply (rule grants_ok)
    apply (simp add: same_body_def body_ok_def)
    done
next
  case (4 n cs)
  then have "grants (\<lambda>a. bindO (clone_loop n cs a) (\<lambda>xs a. Done (Some (None # xs), a))) (same_forest (Suc n) (None # cs))"
    by (intro grants_bind [OF "4.IH"] grants_ok) simp_all
  then show ?case by (simp add: grants_def)
next
  case (5 n c cs)
  then have "grants (\<lambda>a. bindO (nmo_chunk_clone c a) (\<lambda>x a. bindO (clone_loop n cs a) (\<lambda>xs a. Done (Some (Some x # xs), a))))
      (same_forest (Suc n) (Some c # cs))"
    by (intro grants_bind [OF "5.IH"(1)] grants_bind [OF "5.IH"(2)] grants_ok) simp_all
  then show ?case by (simp add: grants_def)
qed (simp_all add: grants_def)

lemma same_body_layout: "same_body b d \<Longrightarrow> layout_words d = layout_words b"
  unfolding layout_words_def option_flags_def class_byte_def same_body_def by (elim conjE) (simp only:)

text \<open>
  C27: cloning a complete tree of chunks succeeds whenever the arena has memory, and the clone has the
  same class, versions, options, data, IDs, references, managers and, recursively, sub-chunks; saved
  in the file layout it gives the same words.
\<close>

theorem clone_copies_content:
  assumes "cloneable c" and "arena_sane a" "arena_grants a"
  shows "\<exists>d a'. nmo_chunk_clone c a = Done (Some d, a') \<and> same_tree c d
     \<and> layout_words (c_body d) = layout_words (c_body c)"
proof -
  from clone_same(1) [OF assms(1)] assms(2,3) obtain d a' where
    d: "nmo_chunk_clone c a = Done (Some d, a')" "same_tree c d" unfolding grants_def by blast
  from d(2) have "same_body (c_body c) (c_body d)" by (cases c; cases d) simp
  with d show ?thesis by (blast dest: same_body_layout)
qed

theorem clone_copies_content_witness:
  "\<exists>a d a'. nmo_arena_create (\<lambda>_ _. True) (\<lambda>_ _. 0) 0 = Done (Some a)
     \<and> nmo_chunk_clone sample_tree a = Done (Some d, a') \<and> same_tree sample_tree d"
proof -
  obtain a where a: "nmo_arena_create (\<lambda>_ _. True) (\<lambda>_ _. 0) 0 = Done (Some a)" "arena_sane a" "arena_grants a"
    by (rule default_arena_exists)
  have "cloneable sample_tree"
    by (simp add: sample_tree_def sample_leaf_def body_ok_def buffer_ok_def chunk_array_def empty_body_def)
  from clone_copies_content [OF this a(2,3)] a(1) show ?thesis by blast
qed

end
