(* ===== verification/ChunkRemap.thy ===== *)
theory ChunkRemap
  imports SerialSpec
begin

text \<open>
  Conversion of the object IDs in a chunk and its sub-chunks (\<^verbatim>\<open>src/format/chunk_remap.c\<close>). The ID list
  of a chunk names the words to convert: the position of one ID, or a marker with its sign bit set
  followed by the position of a count with that many IDs behind it.
\<close>

section \<open>The operations\<close>

text \<open>The ID after conversion, and 1 when it changed.\<close>

definition remap_single_id :: "u32 \<Rightarrow> id_remap \<Rightarrow> u32 \<times> nat" where
  "remap_single_id old_id r =
     (if old_id = 0 then (old_id, 0)
      else case nmo_id_remap_lookup_id r old_id of
        Inr new_id \<Rightarrow> if new_id \<noteq> 0 \<and> new_id \<noteq> old_id then (new_id, 1) else (old_id, 0)
      | Inl _ \<Rightarrow> (old_id, 0))"

text \<open>The state is the buffer and the \<^verbatim>\<open>int\<close> counter, whose overflow is undefined.\<close>

definition remap_at :: "id_remap \<Rightarrow> nat \<Rightarrow> u32 list \<times> nat \<Rightarrow> (u32 list \<times> nat) eff" where
  "remap_at r i = (\<lambda>(chunk_data, n).
     if i < length chunk_data then
       let (new_id, k) = remap_single_id (chunk_data ! i) r
       in if n + k < 2 ^ 31 then Done (chunk_data[i := new_id], n + k) else Undefined
     else Undefined)"

fun remap_range :: "id_remap \<Rightarrow> nat \<Rightarrow> nat \<Rightarrow> u32 list \<times> nat \<Rightarrow> (u32 list \<times> nat) eff" where
  "remap_range r i 0 s = Done s"
| "remap_range r i (Suc k) s = bindE (remap_at r i s) (remap_range r (Suc i) k)"

text \<open>\<^verbatim>\<open>(int) ids[i]\<close> is negative when the sign bit is set.\<close>

definition remap_sequence :: "id_remap \<Rightarrow> nat \<Rightarrow> u32 \<Rightarrow> u32 list \<times> nat \<Rightarrow> (u32 list \<times> nat) eff" where
  "remap_sequence r data_size header = (\<lambda>(chunk_data, n).
     if 0 \<le> sint header \<and> unat header < data_size then
       bindE (load_dword (Some chunk_data) (unat header)) (\<lambda>word.
         let count = sint word; start = unat header + 1
         in if count > 0 \<and> sz_add start (nat count) \<le> data_size
            then remap_range r start (nat count) (chunk_data, n)
            else Done (chunk_data, n))
     else Done (chunk_data, n))"

text \<open>The loop over the \<open>n\<close> entries of the ID list that are left.\<close>

fun remap_ids :: "id_remap \<Rightarrow> nat \<Rightarrow> nat \<Rightarrow> u32 list \<Rightarrow> u32 list \<times> nat \<Rightarrow> (u32 list \<times> nat) eff" where
  "remap_ids r data_size 0 ids s = Done s"
| "remap_ids r data_size (Suc n) [] s = Undefined"
| "remap_ids r data_size (Suc n) (x # ids) s =
     (if 0 \<le> sint x then
        bindE (if unat x < data_size then remap_at r (unat x) s else Done s) (remap_ids r data_size n ids)
      else case n of
        0 \<Rightarrow> Done s
      | Suc m \<Rightarrow> (case ids of
          [] \<Rightarrow> Undefined
        | y # ids \<Rightarrow> bindE (remap_sequence r data_size y s) (remap_ids r data_size m ids)))"

text \<open>The buffer afterwards and the number of IDs changed.\<close>

definition remap_chunk_data_recursive ::
  "u32 list option \<Rightarrow> nat \<Rightarrow> u32 list option \<Rightarrow> nat \<Rightarrow> id_remap \<Rightarrow> (nmo_error_code + u32 list \<times> nat) eff" where
  "remap_chunk_data_recursive chunk_data data_size ids id_count r =
     (case chunk_data of
        None \<Rightarrow> Done (Inl NMO_ERR_INVALID_ARGUMENT)
      | Some ds \<Rightarrow>
          bindE (case ids of None \<Rightarrow> Done (ds, 0) | Some xs \<Rightarrow> remap_ids r data_size id_count xs (ds, 0))
            (\<lambda>s. Done (Inr s)))"

text \<open>
  The chunk is changed in place, also when a sub-chunk reports an error. The value is the number of
  IDs changed; its sum is an \<^verbatim>\<open>int\<close>.
\<close>

fun remap_object_ids_recursive :: "id_remap \<Rightarrow> nmo_chunk \<Rightarrow> ((nmo_error_code + nat) \<times> nmo_chunk) eff"
  and remap_sub_chunks :: "id_remap \<Rightarrow> nat \<Rightarrow> nat \<Rightarrow> nmo_chunk option list
    \<Rightarrow> ((nmo_error_code + nat) \<times> nmo_chunk option list) eff" where
  "remap_object_ids_recursive r (Chunk b cs) =
     (if unat (c_chunk_version b) < NMO_CHUNK_VERSION1 then Done (Inr 0, Chunk b cs)
      else bindE (remap_chunk_data_recursive (c_data b) (c_data_size b) (c_ids b) (c_id_count b) r) (\<lambda>x. case x of
        Inl e \<Rightarrow> Done (Inl e, Chunk b cs)
      | Inr (ds, n) \<Rightarrow>
          let b = b\<lparr>c_data := Some ds\<rparr>
          in case cs of
               None \<Rightarrow> Done (Inr n, Chunk b cs)
             | Some xs \<Rightarrow> bindE (remap_sub_chunks r (c_chunk_count b) n xs) (\<lambda>(y, xs).
                 Done (y, Chunk b (Some xs)))))"
| "remap_sub_chunks r 0 n xs = Done (Inr n, xs)"
| "remap_sub_chunks r (Suc k) n [] = Undefined"
| "remap_sub_chunks r (Suc k) n (None # xs) =
     bindE (remap_sub_chunks r k n xs) (\<lambda>(y, xs). Done (y, None # xs))"
| "remap_sub_chunks r (Suc k) n (Some c # xs) =
     bindE (remap_object_ids_recursive r c) (\<lambda>(x, c). case x of
       Inl e \<Rightarrow> Done (Inl e, Some c # xs)
     | Inr m \<Rightarrow>
         if n + m < 2 ^ 31
         then bindE (remap_sub_chunks r k (n + m) xs) (\<lambda>(y, xs). Done (y, Some c # xs))
         else Undefined)"

definition nmo_chunk_remap_object_ids :: "nmo_chunk \<Rightarrow> id_remap \<Rightarrow> (unit, nmo_chunk) cres" where
  "nmo_chunk_remap_object_ids chunk r =
     bindE (remap_object_ids_recursive r chunk) (\<lambda>(x, chunk). case x of
       Inl e \<Rightarrow> fail e chunk
     | Inr _ \<Rightarrow> ok () chunk)"

section \<open>What a conversion does\<close>

definition convert :: "id_remap \<Rightarrow> u32 \<Rightarrow> u32" where
  "convert r x = fst (remap_single_id x r)"

definition converted :: "id_remap \<Rightarrow> nat list \<Rightarrow> u32 list \<Rightarrow> u32 list" where
  "converted r offs ds = fold (\<lambda>i ds. ds[i := convert r (ds ! i)]) offs ds"

text \<open>The words the ID list designates, in the order they are converted.\<close>

definition sequence_words :: "nat \<Rightarrow> u32 list \<Rightarrow> u32 \<Rightarrow> nat list" where
  "sequence_words data_size ds header =
     (if 0 \<le> sint header \<and> unat header < data_size then
        let count = sint (ds ! unat header); start = unat header + 1
        in if count > 0 \<and> start + nat count \<le> data_size then [start ..< start + nat count] else []
      else [])"

fun id_words :: "nat \<Rightarrow> u32 list \<Rightarrow> u32 list \<Rightarrow> nat list" where
  "id_words data_size ds [] = []"
| "id_words data_size ds (x # ids) =
     (if 0 \<le> sint x then (if unat x < data_size then [unat x] else []) @ id_words data_size ds ids
      else case ids of [] \<Rightarrow> [] | y # ids \<Rightarrow> sequence_words data_size ds y @ id_words data_size ds ids)"

fun header_words :: "u32 list \<Rightarrow> nat list" where
  "header_words [] = []"
| "header_words (x # ids) =
     (if 0 \<le> sint x then header_words ids
      else case ids of [] \<Rightarrow> [] | y # ids \<Rightarrow> unat y # header_words ids)"

lemma length_converted [simp]: "length (converted r offs ds) = length ds"
  unfolding converted_def by (induction offs arbitrary: ds) simp_all

lemma converted_append: "converted r (xs @ ys) ds = converted r ys (converted r xs ds)"
  by (simp add: converted_def)

text \<open>Each word is converted as often as it is designated.\<close>

lemma nth_converted:
  "i < length ds \<Longrightarrow> converted r offs ds ! i = (convert r ^^ count_list offs i) (ds ! i)"
proof (induction offs arbitrary: ds)
  case (Cons o' offs)
  have "converted r (o' # offs) ds ! i = (convert r ^^ count_list offs i) (ds[o' := convert r (ds ! o')] ! i)"
    using Cons.IH [of "ds[o' := convert r (ds ! o')]"] Cons.prems by (simp add: converted_def)
  also have "\<dots> = (convert r ^^ count_list (o' # offs) i) (ds ! i)"
    using Cons.prems by (cases "o' = i") (simp_all add: funpow_swap1)
  finally show ?case .
qed (simp add: converted_def)

lemma converted_other: "i \<notin> set offs \<Longrightarrow> i < length ds \<Longrightarrow> converted r offs ds ! i = ds ! i"
  by (simp add: nth_converted count_list_0_iff)

lemma remap_at_ok:
  assumes "i < length ds" and "n + 1 < 2 ^ 31"
  shows "\<exists>m \<le> n + 1. remap_at r i (ds, n) = Done (converted r [i] ds, m)"
proof -
  obtain y k where "remap_single_id (ds ! i) r = (y, k)" "k \<le> 1"
    by (cases "remap_single_id (ds ! i) r") (auto simp: remap_single_id_def split: if_splits sum.splits)
  with assms show ?thesis by (auto simp: remap_at_def converted_def convert_def)
qed

lemma remap_range_ok:
  "i + k \<le> length ds \<Longrightarrow> n + k < 2 ^ 31 \<Longrightarrow>
     \<exists>m \<le> n + k. remap_range r i k (ds, n) = Done (converted r [i ..< i + k] ds, m)"
proof (induction k arbitrary: i ds n)
  case (Suc k)
  then obtain m where m: "m \<le> n + 1" "remap_at r i (ds, n) = Done (converted r [i] ds, m)"
    using remap_at_ok [of i ds n r] by auto
  with Suc.IH [of "Suc i" "converted r [i] ds" m] Suc.prems obtain l where
    l: "l \<le> m + k" "remap_range r (Suc i) k (converted r [i] ds, m)
      = Done (converted r [Suc i ..< Suc i + k] (converted r [i] ds), l)" by auto
  have "[i ..< i + Suc k] = [i] @ [Suc i ..< Suc i + k]" by (simp add: upt_conv_Cons)
  with m l show ?case by (auto simp: converted_append simp del: append.simps intro!: exI [of _ l])
qed (auto simp: converted_def)

lemma sequence_words_cong: "ds ! unat h = es ! unat h \<Longrightarrow> sequence_words sz ds h = sequence_words sz es h"
  by (simp add: sequence_words_def)

lemma remap_sequence_ok:
  assumes "sz \<le> length ds" and "n + length (sequence_words sz ds h) < 2 ^ 31"
  shows "\<exists>m \<le> n + length (sequence_words sz ds h).
    remap_sequence r sz h (ds, n) = Done (converted r (sequence_words sz ds h) ds, m)"
proof (cases "0 \<le> sint h \<and> unat h < sz")
  case True
  let ?k = "nat (sint (ds ! unat h))" and ?i = "unat h + 1"
  have "?k < 2 ^ 31" using sint_less [of "ds ! unat h"] by simp
  then have add: "sz_add ?i ?k = ?i + ?k" using unat_lt [of h] by (simp add: sz_add_small)
  have load: "load_dword (Some ds) (unat h) = Done (ds ! unat h)" using True assms(1) by (simp add: load_dword_def)
  show ?thesis
  proof (cases "sint (ds ! unat h) > 0 \<and> ?i + ?k \<le> sz")
    case inside: True
    with True have seq: "sequence_words sz ds h = [?i ..< ?i + ?k]"
      unfolding sequence_words_def Let_def by simp
    have "length (sequence_words sz ds h) = ?k" unfolding seq by simp
    with assms(1,2) inside have "?i + ?k \<le> length ds" "n + ?k < 2 ^ 31" by simp_all
    from remap_range_ok [OF this, of r] obtain m where
      m: "m \<le> n + ?k" "remap_range r ?i ?k (ds, n) = Done (converted r [?i ..< ?i + ?k] ds, m)" by blast
    have "remap_sequence r sz h (ds, n) = remap_range r ?i ?k (ds, n)"
      using True inside add load by (simp add: remap_sequence_def Let_def)
    with m \<open>length (sequence_words sz ds h) = ?k\<close> show ?thesis unfolding seq by auto
  next
    case False
    with True add load show ?thesis
      by (auto simp: remap_sequence_def sequence_words_def Let_def converted_def)
  qed
qed (auto simp: remap_sequence_def sequence_words_def converted_def)

lemma remap_ids_ok:
  assumes "sz \<le> length ds" "length ds = length es" and "k \<le> length ids"
    and "n + length (id_words sz es (take k ids)) < 2 ^ 31"
    and "\<forall>h \<in> set (header_words (take k ids)). h < sz \<longrightarrow> ds ! h = es ! h"
    and "set (header_words (take k ids)) \<inter> set (id_words sz es (take k ids)) = {}"
  shows "\<exists>m. remap_ids r sz k ids (ds, n) = Done (converted r (id_words sz es (take k ids)) ds, m)
    \<and> m \<le> n + length (id_words sz es (take k ids))"
  using assms
proof (induction k arbitrary: ids ds n rule: less_induct)
  case (less k)
  show ?case
  proof (cases k)
    case 0
    then show ?thesis by (simp add: converted_def)
  next
    case (Suc j)
    then obtain x xs where ids: "ids = x # xs" using less.prems(3) by (cases ids) auto
    show ?thesis
    proof (cases "0 \<le> sint x")
      case True
      let ?o = "if unat x < sz then [unat x] else []"
      have words: "id_words sz es (take k ids) = ?o @ id_words sz es (take j xs)"
        and heads: "header_words (take k ids) = header_words (take j xs)" using True by (simp_all add: ids Suc)
      obtain m where m: "m \<le> n + length ?o"
        "(if unat x < sz then remap_at r (unat x) (ds, n) else Done (ds, n)) = Done (converted r ?o ds, m)"
      proof (cases "unat x < sz")
        case True
        then have "\<exists>m \<le> n + 1. remap_at r (unat x) (ds, n) = Done (converted r [unat x] ds, m)"
          using less.prems(1,4) unfolding words by (intro remap_at_ok) auto
        with True that show thesis by auto
      qed (use that [of n] in \<open>auto simp: converted_def\<close>)
      have "h \<notin> set ?o" "h < sz \<Longrightarrow> ds ! h = es ! h" if "h \<in> set (header_words (take j xs))" for h
          using that less.prems(5,6) unfolding words heads set_append by auto
        then have keep: "\<forall>h \<in> set (header_words (take j xs)). h < sz \<longrightarrow> converted r ?o ds ! h = es ! h"
          using less.prems(1) by (simp add: converted_other)
      have bound: "m + length (id_words sz es (take j xs)) < 2 ^ 31"
          using less.prems(4) m(1) unfolding words by simp
        have disj: "set (header_words (take j xs)) \<inter> set (id_words sz es (take j xs)) = {}"
          using less.prems(6) unfolding words heads by auto
        have "\<exists>l. remap_ids r sz j xs (converted r ?o ds, m)
          = Done (converted r (id_words sz es (take j xs)) (converted r ?o ds), l)
          \<and> l \<le> m + length (id_words sz es (take j xs))"
        by (rule less.IH [OF _ _ _ _ bound keep disj])
            (use less.prems(1,2,3) in \<open>simp_all add: ids Suc\<close>)
      then show ?thesis using True m unfolding words by (auto simp: ids Suc converted_append)
    next
      case False
      show ?thesis
      proof (cases j)
        case 0
        then show ?thesis using False by (simp add: ids Suc converted_def)
      next
        case (Suc i)
        then obtain y ys where xs: "xs = y # ys" using less.prems(3) ids \<open>k = Suc j\<close> by (cases xs) auto
        let ?o = "sequence_words sz es y"
        have words: "id_words sz es (take k ids) = ?o @ id_words sz es (take i ys)"
          and heads: "header_words (take k ids) = unat y # header_words (take i ys)"
          using False by (simp_all add: ids xs Suc \<open>k = Suc j\<close>)
        have same: "sequence_words sz ds y = ?o"
        proof (cases "unat y < sz")
          case True
          then have "ds ! unat y = es ! unat y" using less.prems(5) unfolding heads by simp
          then show ?thesis by (rule sequence_words_cong)
        qed (simp add: sequence_words_def)
        obtain m where m: "m \<le> n + length ?o" "remap_sequence r sz y (ds, n) = Done (converted r ?o ds, m)"
          using remap_sequence_ok [of sz ds n y r] less.prems(1,2,4) words same by auto
        have "h \<notin> set ?o" "h < sz \<Longrightarrow> ds ! h = es ! h" if "h \<in> set (header_words (take i ys))" for h
          using that less.prems(5,6) unfolding words heads set_append by auto
        then have keep: "\<forall>h \<in> set (header_words (take i ys)). h < sz \<longrightarrow> converted r ?o ds ! h = es ! h"
          using less.prems(1) by (simp add: converted_other)
        have bound: "m + length (id_words sz es (take i ys)) < 2 ^ 31"
          using less.prems(4) m(1) unfolding words by simp
        have disj: "set (header_words (take i ys)) \<inter> set (id_words sz es (take i ys)) = {}"
          using less.prems(6) unfolding words heads by auto
        have "\<exists>l. remap_ids r sz i ys (converted r ?o ds, m)
            = Done (converted r (id_words sz es (take i ys)) (converted r ?o ds), l)
            \<and> l \<le> m + length (id_words sz es (take i ys))"
          by (rule less.IH [OF _ _ _ _ bound keep disj])
            (use less.prems(1,2,3) in \<open>simp_all add: ids xs Suc \<open>k = Suc j\<close>\<close>)
        then show ?thesis using False m unfolding words by (auto simp: ids xs Suc \<open>k = Suc j\<close> converted_append)
      qed
    qed
  qed
qed

section \<open>Trees of chunks\<close>

definition body_words :: "chunk_body \<Rightarrow> nat list" where
  "body_words b = id_words (c_data_size b) (the (c_data b)) (words (c_ids b) (c_id_count b))"

text \<open>A chunk with data whose ID list does not designate a count as an ID.\<close>

definition body_remappable :: "chunk_body \<Rightarrow> bool" where
  "body_remappable b \<longleftrightarrow> body_ok b \<and> c_data b \<noteq> None
     \<and> set (header_words (words (c_ids b) (c_id_count b))) \<inter> set (body_words b) = {}"

fun remappable :: "nmo_chunk \<Rightarrow> bool" and forest_remappable :: "nat \<Rightarrow> nmo_chunk option list \<Rightarrow> bool" where
  "remappable (Chunk b cs) \<longleftrightarrow> unat (c_chunk_version b) < NMO_CHUNK_VERSION1 \<or>
     body_remappable b \<and> (case cs of None \<Rightarrow> True | Some xs \<Rightarrow> forest_remappable (c_chunk_count b) xs)"
| "forest_remappable 0 xs \<longleftrightarrow> True"
| "forest_remappable (Suc k) [] \<longleftrightarrow> False"
| "forest_remappable (Suc k) (None # xs) \<longleftrightarrow> forest_remappable k xs"
| "forest_remappable (Suc k) (Some c # xs) \<longleftrightarrow> remappable c \<and> forest_remappable k xs"

text \<open>The number of conversions, and the tree after them.\<close>

fun hits :: "nmo_chunk \<Rightarrow> nat" and forest_hits :: "nat \<Rightarrow> nmo_chunk option list \<Rightarrow> nat" where
  "hits (Chunk b cs) =
     (if unat (c_chunk_version b) < NMO_CHUNK_VERSION1 then 0
      else length (body_words b) + (case cs of None \<Rightarrow> 0 | Some xs \<Rightarrow> forest_hits (c_chunk_count b) xs))"
| "forest_hits 0 xs = 0"
| "forest_hits (Suc k) [] = 0"
| "forest_hits (Suc k) (None # xs) = forest_hits k xs"
| "forest_hits (Suc k) (Some c # xs) = hits c + forest_hits k xs"

fun remapped :: "id_remap \<Rightarrow> nmo_chunk \<Rightarrow> nmo_chunk"
  and forest_remapped :: "id_remap \<Rightarrow> nat \<Rightarrow> nmo_chunk option list \<Rightarrow> nmo_chunk option list" where
  "remapped r (Chunk b cs) =
     (if unat (c_chunk_version b) < NMO_CHUNK_VERSION1 then Chunk b cs
      else Chunk (b\<lparr>c_data := Some (converted r (body_words b) (the (c_data b)))\<rparr>)
             (case cs of None \<Rightarrow> None | Some xs \<Rightarrow> Some (forest_remapped r (c_chunk_count b) xs)))"
| "forest_remapped r 0 xs = xs"
| "forest_remapped r (Suc k) [] = []"
| "forest_remapped r (Suc k) (None # xs) = None # forest_remapped r k xs"
| "forest_remapped r (Suc k) (Some c # xs) = Some (remapped r c) # forest_remapped r k xs"

lemma remap_data_ok:
  assumes "body_remappable b" and "length (body_words b) < 2 ^ 31"
  shows "\<exists>m \<le> length (body_words b).
    remap_chunk_data_recursive (c_data b) (c_data_size b) (c_ids b) (c_id_count b) r
      = Done (Inr (converted r (body_words b) (the (c_data b)), m))"
proof -
  from assms(1) obtain ds where ds: "c_data b = Some ds" "c_data_size b \<le> length ds"
    by (auto simp: body_remappable_def body_ok_def buffer_ok_def)
  show ?thesis
  proof (cases "c_ids b")
    case None
    then show ?thesis by (simp add: remap_chunk_data_recursive_def ds body_words_def words_def converted_def)
  next
    case (Some xs)
    with assms(1) have k: "c_id_count b \<le> length xs" by (simp add: body_remappable_def body_ok_def buffer_ok_def)
    have ids: "words (c_ids b) (c_id_count b) = take (c_id_count b) xs" by (simp add: Some words_def)
    from remap_ids_ok [of "c_data_size b" ds ds "c_id_count b" xs 0 r] ds k assms
    show ?thesis
      by (auto simp: remap_chunk_data_recursive_def Some [symmetric] body_words_def ids body_remappable_def)
        (auto simp: Some)
  qed
qed

lemma remap_tree_ok:
  "remappable c \<Longrightarrow> hits c < 2 ^ 31 \<Longrightarrow>
     \<exists>m \<le> hits c. remap_object_ids_recursive r c = Done (Inr m, remapped r c)"
  "forest_remappable k xs \<Longrightarrow> n + forest_hits k xs < 2 ^ 31 \<Longrightarrow>
     \<exists>m \<le> n + forest_hits k xs. remap_sub_chunks r k n xs = Done (Inr m, forest_remapped r k xs)"
proof (induction c and k xs arbitrary: and n rule: remappable_forest_remappable.induct)
  case (1 b cs)
  show ?case
  proof (cases "unat (c_chunk_version b) < NMO_CHUNK_VERSION1")
    case False
    with "1.prems" have ok: "body_remappable b" "length (body_words b) < 2 ^ 31" by auto
    from remap_data_ok [OF this, of r] obtain m where m: "m \<le> length (body_words b)"
      "remap_chunk_data_recursive (c_data b) (c_data_size b) (c_ids b) (c_id_count b) r
        = Done (Inr (converted r (body_words b) (the (c_data b)), m))" by blast
    show ?thesis
    proof (cases cs)
      case (Some xs)
      with "1.IH" [OF Some, of m] "1.prems" False m(1) obtain l where
        "l \<le> m + forest_hits (c_chunk_count b) xs"
        "remap_sub_chunks r (c_chunk_count b) m xs = Done (Inr l, forest_remapped r (c_chunk_count b) xs)"
        by auto
      with False Some m show ?thesis by (auto simp: Let_def)
    qed (use False m in \<open>auto simp: Let_def\<close>)
  qed simp
next
  case (5 k c xs)
  from "5.IH"(1) "5.prems" obtain m where m: "m \<le> hits c" "remap_object_ids_recursive r c = Done (Inr m, remapped r c)"
    by auto
  with "5.IH"(2) [of "n + m"] "5.prems" obtain l where
    "l \<le> n + m + forest_hits k xs" "remap_sub_chunks r k (n + m) xs = Done (Inr l, forest_remapped r k xs)" by auto
  with m "5.prems"(2) show ?case by auto
next
  case (4 k xs)
  then obtain m where "m \<le> n + forest_hits k xs" "remap_sub_chunks r k n xs = Done (Inr m, forest_remapped r k xs)"
    by auto
  then show ?case by auto
qed simp_all

section \<open>Properties\<close>

text \<open>
  C9: converting the IDs of a tree of chunks changes, in every chunk of version 4 or later, exactly
  the words its ID list designates, and each of them as many times as it is designated: word \<open>i\<close> of
  the chunk becomes its \<open>count_list\<close>-fold conversion, every other word and field stays.
\<close>

theorem remap_converts_designated_words:
  assumes "remappable (Chunk b cs)" and "hits (Chunk b cs) < 2 ^ 31"
    and "unat (c_chunk_version b) \<ge> NMO_CHUNK_VERSION1" and "c_data b = Some ds"
  shows "\<exists>es. nmo_chunk_remap_object_ids (Chunk b cs) r = ok () (remapped r (Chunk b cs))
     \<and> c_body (remapped r (Chunk b cs)) = b\<lparr>c_data := Some es\<rparr> \<and> length es = length ds
     \<and> (\<forall>i < length ds. es ! i = (convert r ^^ count_list (body_words b) i) (ds ! i))"
proof -
  from remap_tree_ok(1) [OF assms(1,2), of r] have
    "nmo_chunk_remap_object_ids (Chunk b cs) r = ok () (remapped r (Chunk b cs))"
    by (auto simp: nmo_chunk_remap_object_ids_def simp del: remap_object_ids_recursive.simps remapped.simps)
  moreover have "c_body (remapped r (Chunk b cs)) = b\<lparr>c_data := Some (converted r (body_words b) ds)\<rparr>"
    using assms(3,4) by simp
  ultimately show ?thesis by (intro exI [of _ "converted r (body_words b) ds"]) (simp add: nth_converted)
qed

text \<open>One ID at word 0 and a sequence of two behind the count at word 1.\<close>

definition sample_ids :: chunk_body where
  "sample_ids = empty_body\<lparr>c_data := Some [5, 2, 6, 0], c_data_size := 4,
     c_ids := Some [0, 0xFFFFFFFF, 1], c_id_count := 3\<rparr>"

theorem remap_converts_designated_words_witness:
  "\<forall>a. \<exists>es. nmo_chunk_remap_object_ids (Chunk sample_ids None) \<lparr>r_entries = [(5, 9), (6, 5)], r_count = 2,
        r_capacity = 2, r_arena = a\<rparr>
      = ok () (Chunk (sample_ids\<lparr>c_data := Some es\<rparr>) None) \<and> length es = 4"
  (is "\<forall>a. ?P a")
proof
  fix a
  let ?r = "\<lparr>r_entries = [(5, 9), (6, 5)], r_count = 2, r_capacity = 2, r_arena = a\<rparr>"
  have words: "body_words sample_ids = [0, 2, 3]"
    by (simp add: body_words_def sample_ids_def empty_body_def words_def sequence_words_def upt_rec)
  have "body_remappable sample_ids"
    unfolding body_remappable_def words
    by (simp add: sample_ids_def empty_body_def body_ok_def buffer_ok_def words_def)
  then have "remappable (Chunk sample_ids None)" "hits (Chunk sample_ids None) < 2 ^ 31"
    by (simp_all add: words)
  moreover have "unat (c_chunk_version sample_ids) \<ge> NMO_CHUNK_VERSION1" "c_data sample_ids = Some [5, 2, 6, 0]"
    by (simp_all add: sample_ids_def empty_body_def chunk_version_defs)
  ultimately obtain es where "nmo_chunk_remap_object_ids (Chunk sample_ids None) ?r
      = ok () (remapped ?r (Chunk sample_ids None))"
    "c_body (remapped ?r (Chunk sample_ids None)) = sample_ids\<lparr>c_data := Some es\<rparr>" "length es = 4"
    using remap_converts_designated_words [of sample_ids None "[5, 2, 6, 0]" ?r] by fastforce
  moreover have "c_chunks (remapped ?r (Chunk sample_ids None)) = None" by simp
  ultimately show "?P a" by (metis nmo_chunk.exhaust_sel)
qed

section \<open>The IDs a writer tracks for a sequence\<close>

lemma write_ids_outcome:
  assumes "writer_wf w" "\<not> aw_finalized (wabs w)" "plain (wabs w)" "room (2 * length xs) (wabs w)"
  shows "outcome w (write_list nmo_chunk_writer_write_object_id xs w) (\<lambda>_ v. wabs v = fold spec_object_id xs (wabs w))"
  using assms
proof (induction xs arbitrary: w)
  case (Cons x xs)
  have "outcome w (nmo_chunk_writer_write_object_id x w) (\<lambda>_ v. wabs v = spec_object_id x (wabs w))"
    using Cons.prems wabs_simps by (intro write_object_id_ok [unfolded writes_def]) (auto elim: room_mono)
  then show ?case unfolding write_list.simps
  proof (rule outcome_bind)
    fix v assume v: "writer_wf v" "wabs v = spec_object_id x (wabs w)"
    have "outcome v (write_list nmo_chunk_writer_write_object_id xs v) (\<lambda>_ u. wabs u = fold spec_object_id xs (wabs v))"
      using Cons.prems v by (intro Cons.IH) (auto simp: spec_object_id_def Let_def plain_def room_def)
    then show "outcome v (write_list nmo_chunk_writer_write_object_id xs v)
        (\<lambda>_ u. wabs u = fold spec_object_id (x # xs) (wabs w))" by (simp add: v)
  qed
qed simp

definition version_of :: "awriter \<Rightarrow> u32 option" where
  "version_of A = map_option (\<lambda>c. c_chunk_version (c_body c)) (aw_chunk A)"

lemma spec_object_id_fields:
  "aw_words (spec_object_id x A) = aw_words A @ [x]"
  "x \<noteq> 0 \<Longrightarrow> aw_ids (spec_object_id x A) = aw_ids A @ [word_of_nat (length (aw_words A))]"
  "aw_subs (spec_object_id x A) = aw_subs A"
  "version_of (spec_object_id x A) = version_of A"
  by (auto simp: spec_object_id_def Let_def id_position_def version_of_def aw_update_defs map_options_def
      option.map_comp comp_def split: option.splits)

lemma started_spec_object_id: "started A \<Longrightarrow> started (spec_object_id x A)"
  by (simp add: spec_object_id_def Let_def)

lemma fold_object_ids:
  assumes "0 \<notin> set xs"
  shows "aw_words (fold spec_object_id xs A) = aw_words A @ xs"
    "aw_ids (fold spec_object_id xs A)
       = aw_ids A @ map word_of_nat [length (aw_words A) ..< length (aw_words A) + length xs]"
    "aw_subs (fold spec_object_id xs A) = aw_subs A"
    "started A \<Longrightarrow> started (fold spec_object_id xs A)"
    "version_of (fold spec_object_id xs A) = version_of A"
proof -
  have "aw_words (fold spec_object_id xs A) = aw_words A @ xs
    \<and> aw_ids (fold spec_object_id xs A)
       = aw_ids A @ map word_of_nat [length (aw_words A) ..< length (aw_words A) + length xs]
    \<and> aw_subs (fold spec_object_id xs A) = aw_subs A
    \<and> (started A \<longrightarrow> started (fold spec_object_id xs A))
    \<and> version_of (fold spec_object_id xs A) = version_of A"
    using assms
  proof (induction xs arbitrary: A)
    case (Cons x xs)
    have "[length (aw_words A) ..< length (aw_words A) + length (x # xs)]
        = length (aw_words A) # [length (aw_words A) + 1 ..< length (aw_words A) + 1 + length xs]"
      by (simp add: upt_conv_Cons del: upt_Suc)
    then show ?case
      using Cons.IH [of "spec_object_id x A"] Cons.prems
      by (simp add: spec_object_id_fields started_spec_object_id del: upt_Suc)
  qed simp
  then show "aw_words (fold spec_object_id xs A) = aw_words A @ xs"
    "aw_ids (fold spec_object_id xs A)
       = aw_ids A @ map word_of_nat [length (aw_words A) ..< length (aw_words A) + length xs]"
    "aw_subs (fold spec_object_id xs A) = aw_subs A"
    "started A \<Longrightarrow> started (fold spec_object_id xs A)"
    "version_of (fold spec_object_id xs A) = version_of A" by auto
qed

lemma sint_small_word: "n < 2 ^ 31 \<Longrightarrow> sint (word_of_nat n :: u32) = int n"
  by (simp add: signed_of_nat signed_take_bit_int_eq_self)

lemma id_words_positions:
  "j \<le> 2 ^ 31 \<Longrightarrow> j \<le> sz \<Longrightarrow> id_words sz ds (map word_of_nat [i ..< j]) = [i ..< j]"
proof (induction "j - i" arbitrary: i)
  case (Suc k)
  then have i: "[i ..< j] = i # [Suc i ..< j]" "i < 2 ^ 31" "i < sz" by (auto simp: upt_conv_Cons)
  with Suc show ?case by (simp add: sint_small_word unat_small_word del: upt_Suc)
qed simp

lemma header_words_positions: "j \<le> 2 ^ 31 \<Longrightarrow> header_words (map word_of_nat [i ..< j]) = []"
proof (induction "j - i" arbitrary: i)
  case (Suc k)
  then have "[i ..< j] = i # [Suc i ..< j]" "i < 2 ^ 31" by (auto simp: upt_conv_Cons)
  with Suc show ?case by (simp add: sint_small_word del: upt_Suc)
qed simp

lemma count_list_upt: "count_list [i ..< j] k = (if i \<le> k \<and> k < j then 1 else 0)"
  by (induction j) (auto simp: count_list_0_iff)

lemma sequence_ids_designated:
  fixes xs :: "u32 list"
  assumes "0 < length xs" "length xs < 2 ^ 29" and "sz = Suc (length xs)"
    and "take sz ds = word_of_nat (length xs) # xs" "sz \<le> length ds"
    and ids: "words ids n = [LIST_SEQUENCE_MARKER, 0] @ map word_of_nat [1 ..< 1 + length xs]"
  shows "id_words sz ds (words ids n) = [1 ..< 1 + length xs] @ [1 ..< 1 + length xs]"
    and "header_words (words ids n) = [0]"
proof -
  let ?n = "length xs"
  have marker: "\<not> 0 \<le> sint LIST_SEQUENCE_MARKER" by (simp add: LIST_SEQUENCE_MARKER_def)
  have "ds ! 0 = take sz ds ! 0" using assms(1,3,5) by simp
  then have "ds ! 0 = word_of_nat ?n" using assms(4) by simp
  then have count: "sint (ds ! 0) = int ?n" using assms(2) by (simp add: sint_small_word)
  have "sequence_words sz ds 0 = [1 ..< 1 + ?n]"
    using count assms(1,3) unfolding sequence_words_def Let_def by simp
  moreover have "id_words sz ds (map word_of_nat [1 ..< 1 + ?n]) = [1 ..< 1 + ?n]"
    using assms(2,3) by (intro id_words_positions) simp_all
  ultimately show "id_words sz ds (words ids n) = [1 ..< 1 + ?n] @ [1 ..< 1 + ?n]"
    unfolding ids using marker by (simp del: upt_Suc)
  show "header_words (words ids n) = [0]"
    unfolding ids using marker header_words_positions [of "1 + ?n" 1] assms(2) by (simp del: upt_Suc)
qed

text \<open>The chunk a writer makes of a sequence.\<close>

lemma sequence_chunk:
  assumes "arena_sane a" "arena_grants a" and "nmo_chunk_writer_create a = Done (Some w, a')"
    and "xs \<noteq> []" "0 \<notin> set xs" "length xs < 2 ^ 29"
  obtains w1 w2 b cs w3 where "nmo_chunk_writer_start class_id version w = Done w1"
    "bindR (nmo_chunk_writer_start_object_sequence (length xs) w1)
        (\<lambda>_. write_list nmo_chunk_writer_write_object_id xs) = Done (Inr (), w2)"
    "nmo_chunk_writer_finalize w2 = (Some (Chunk b cs), w3)"
    "body_ok b" "words (c_data b) (c_data_size b) = word_of_nat (length xs) # xs"
    "words (c_ids b) (c_id_count b) = [LIST_SEQUENCE_MARKER, 0] @ map word_of_nat [1 ..< 1 + length xs]"
    "c_chunk_count b = 0" "c_chunk_version b = version"
proof -
  let ?n = "length xs"
  have w: "writer_wf w" "arena_grants (w_arena w)" "wabs w = empty_awriter None None"
    using writer_create_ok [OF assms(1)] assms(2,3) by (metis eff.inject(1) option.distinct(1) option.inject prod.inject)+
  have no_ctx: "w_file_context w = None" using wabs_simps(2) [of w] w(3) by (simp add: empty_awriter_def)
  have plain: "plain (wabs w)" by (simp add: w(3) plain_def empty_awriter_def)
  obtain w1 where w1: "nmo_chunk_writer_start class_id version w = Done w1" "writer_wf w1" "arena_grants (w_arena w1)"
    "wabs w1 = empty_awriter None (Some (started_chunk class_id version False))"
    using writer_start_ok [OF w(1,2), of class_id version] no_ctx plain by metis
  let ?A = "wabs w1" and ?B = "spec_object_sequence ?n (wabs w1)"
  have "aw_finalized ?A = False" using w1(4) by (simp add: empty_awriter_def)
  then have open1: "\<not> w_finalized w1" by simp
  have A: "\<not> aw_finalized ?A" "plain ?A" "aw_words ?A = []" "aw_ids ?A = []" "aw_subs ?A = []" "load ?A = 0"
    "version_of ?A = Some version"
    unfolding w1(4) by (simp_all add: empty_awriter_def plain_def load_def version_of_def started_chunk_def)
  have started: "started ?A" unfolding w1(4) by simp
  have B: "aw_words ?B = [word_of_nat ?n]" "aw_ids ?B = [LIST_SEQUENCE_MARKER, 0]" "aw_subs ?B = []"
    "version_of ?B = Some version" "plain ?B" "\<not> aw_finalized ?B" "load ?B = 3"
    using A assms(4) by (simp_all add: spec_object_sequence_def Let_def version_of_def plain_def id_position_def
        aw_update_defs map_options_def load_def option.map_comp comp_def)
  have started_B: "started ?B" using started by (simp add: spec_object_sequence_def Let_def)
  have "room 2 ?A" using A(6) by (simp add: room_def)
  from start_object_sequence_ok [OF w1(2) open1 this, of ?n]
  have "outcome w1 (nmo_chunk_writer_start_object_sequence ?n w1) (\<lambda>_ v. wabs v = ?B)" by (simp add: writes_def)
  then have "outcome w1 (bindR (nmo_chunk_writer_start_object_sequence ?n w1)
      (\<lambda>_. write_list nmo_chunk_writer_write_object_id xs)) (\<lambda>_ v. wabs v = fold spec_object_id xs ?B)"
  proof (rule outcome_bind)
    fix v assume v: "writer_wf v" "wabs v = ?B"
    then show "outcome v (write_list nmo_chunk_writer_write_object_id xs v) (\<lambda>_ u. wabs u = fold spec_object_id xs ?B)"
      using write_ids_outcome [of v xs] B assms(6) by (simp add: room_def)
  qed
  from outcome_grants [OF this w1(3)] obtain w2 where w2: "bindR (nmo_chunk_writer_start_object_sequence ?n w1)
      (\<lambda>_. write_list nmo_chunk_writer_write_object_id xs) = Done (Inr (), w2)"
    "writer_wf w2" "wabs w2 = fold spec_object_id xs ?B" by auto
  note fields = fold_object_ids [OF assms(5), of ?B, folded w2(3), unfolded B]
  have ids: "aw_ids (wabs w2) = [LIST_SEQUENCE_MARKER, 0] @ map word_of_nat [1 ..< 1 + ?n]"
    using fields(2) by (simp del: upt_Suc)
  obtain c w3 where c: "nmo_chunk_writer_finalize w2 = (Some c, w3)" "finalized_as (wabs w2) c"
    using writer_finalize_ok [OF w2(2) fields(4) [OF started_B]] .
  obtain b cs where bc: "c = Chunk b cs" by (cases c)
  have "body_ok b" "words (c_data b) (c_data_size b) = word_of_nat ?n # xs"
    "words (c_ids b) (c_id_count b) = [LIST_SEQUENCE_MARKER, 0] @ map word_of_nat [1 ..< 1 + ?n]"
    "c_chunk_count b = 0" "c_chunk_version b = version"
    using c(2) fields(1,3,5) ids unfolding bc finalized_as_def version_of_def by (auto simp: Let_def simp del: upt_Suc)
  with w1(1) w2(1) c(1) bc show thesis by (intro that) simp_all
qed

text \<open>
  C33: object IDs written as a sequence are converted twice: the writer tracks the sequence and each of
  its IDs, so \<^verbatim>\<open>nmo_chunk_remap_object_ids\<close> visits every ID once for the sequence and once for itself.
  Whenever the table maps an ID it has produced, the result is not the conversion of what was written.
\<close>

theorem sequence_ids_converted_twice:
  assumes "arena_sane a" "arena_grants a" and "nmo_chunk_writer_create a = Done (Some w, a')"
    and "xs \<noteq> []" "0 \<notin> set xs" "length xs < 2 ^ 29" and "unat version \<ge> NMO_CHUNK_VERSION1"
  shows "\<exists>w1 w2 c w3 d. nmo_chunk_writer_start class_id version w = Done w1
    \<and> bindR (nmo_chunk_writer_start_object_sequence (length xs) w1)
        (\<lambda>_. write_list nmo_chunk_writer_write_object_id xs) = Done (Inr (), w2)
    \<and> nmo_chunk_writer_finalize w2 = (Some c, w3)
    \<and> nmo_chunk_remap_object_ids c r = ok () d
    \<and> words (c_data (c_body d)) (c_data_size (c_body d))
        = word_of_nat (length xs) # map (\<lambda>x. convert r (convert r x)) xs"
proof -
  let ?n = "length xs"
  obtain w1 w2 b cs w3 where w: "nmo_chunk_writer_start class_id version w = Done w1"
    "bindR (nmo_chunk_writer_start_object_sequence ?n w1)
        (\<lambda>_. write_list nmo_chunk_writer_write_object_id xs) = Done (Inr (), w2)"
    "nmo_chunk_writer_finalize w2 = (Some (Chunk b cs), w3)"
    and fin: "body_ok b" "words (c_data b) (c_data_size b) = word_of_nat ?n # xs"
    "words (c_ids b) (c_id_count b) = [LIST_SEQUENCE_MARKER, 0] @ map word_of_nat [1 ..< 1 + ?n]"
    "c_chunk_count b = 0" "c_chunk_version b = version"
    by (rule sequence_chunk [OF assms(1-6)])
  obtain ds where ds: "c_data b = Some ds" "take (c_data_size b) ds = word_of_nat ?n # xs" "c_data_size b \<le> length ds"
    using fin(1,2) by (auto simp: body_ok_def buffer_ok_def words_def split: option.splits)
  have sz: "c_data_size b = Suc ?n" using arg_cong [OF ds(2), of length] ds(3) by simp
  have n: "0 < ?n" using assms(4) by simp
  note designated = sequence_ids_designated [OF n assms(6) sz ds(2,3) fin(3)]
  have words: "body_words b = [1 ..< 1 + ?n] @ [1 ..< 1 + ?n]"
    unfolding body_words_def ds(1) option.sel by (rule designated(1))
  have "body_remappable b"
    unfolding body_remappable_def words designated(2) using fin(1) ds(1) assms(4) by simp
  then have ok: "remappable (Chunk b cs)" "hits (Chunk b cs) < 2 ^ 31"
    using fin(4) assms(6) words by (auto split: option.split)
  have "unat (c_chunk_version b) \<ge> NMO_CHUNK_VERSION1" using fin(5) assms(7) by simp
  from remap_converts_designated_words [OF ok this ds(1), of r] obtain es where
    es: "nmo_chunk_remap_object_ids (Chunk b cs) r = ok () (remapped r (Chunk b cs))"
      "c_body (remapped r (Chunk b cs)) = b\<lparr>c_data := Some es\<rparr>"
      "length es = length ds" "\<And>i. i < length ds \<Longrightarrow> es ! i = (convert r ^^ count_list (body_words b) i) (ds ! i)"
    by blast
  have "take (Suc ?n) es = word_of_nat ?n # map (\<lambda>x. convert r (convert r x)) xs"
  proof (rule nth_equalityI)
    show len: "length (take (Suc ?n) es) = length (word_of_nat ?n # map (\<lambda>x. convert r (convert r x)) xs)"
      using es(3) ds(3) sz by simp
    fix i assume "i < length (take (Suc ?n) es)"
    then have i: "i < Suc ?n" by simp
    have "ds ! i = (word_of_nat ?n # xs) ! i" using i ds(2) sz by (metis nth_take)
    moreover have "es ! i = (convert r ^^ count_list (body_words b) i) (ds ! i)"
      by (rule es(4)) (use i ds(3) sz in simp)
    ultimately show "take (Suc ?n) es ! i = (word_of_nat ?n # map (\<lambda>x. convert r (convert r x)) xs) ! i"
      using i by (cases i) (simp_all add: words count_list_append count_list_upt del: upt_Suc)
  qed
  then have "words (c_data (c_body (remapped r (Chunk b cs)))) (c_data_size (c_body (remapped r (Chunk b cs))))
      = word_of_nat ?n # map (\<lambda>x. convert r (convert r x)) xs"
    unfolding es(2) using sz by (simp add: words_def)
  with w es(1) show ?thesis by blast
qed

text \<open>With a table that maps 1 to 2 and 2 to 3, the sequence of the one ID 1 becomes 3.\<close>

theorem sequence_ids_converted_twice_witness:
  "\<exists>a w a' w1 w2 c w3 d. nmo_arena_create (\<lambda>_ _. True) (\<lambda>_ _. 0) 0 = Done (Some a)
    \<and> nmo_chunk_writer_create a = Done (Some w, a') \<and> nmo_chunk_writer_start 1 7 w = Done w1
    \<and> bindR (nmo_chunk_writer_start_object_sequence 1 w1)
        (\<lambda>_. write_list nmo_chunk_writer_write_object_id [1]) = Done (Inr (), w2)
    \<and> nmo_chunk_writer_finalize w2 = (Some c, w3)
    \<and> nmo_chunk_remap_object_ids c \<lparr>r_entries = [(1, 2), (2, 3)], r_count = 2, r_capacity = 2, r_arena = a\<rparr> = ok () d
    \<and> words (c_data (c_body d)) (c_data_size (c_body d)) = [1, 3]"
proof -
  obtain a where a: "nmo_arena_create (\<lambda>_ _. True) (\<lambda>_ _. 0) 0 = Done (Some a)" "arena_sane a" "arena_grants a"
    by (rule default_arena_exists)
  let ?r = "\<lparr>r_entries = [(1, 2), (2, 3)], r_count = 2, r_capacity = 2, r_arena = a\<rparr>"
  obtain w a' where w: "nmo_chunk_writer_create a = Done (Some w, a')"
    using writer_create_ok [OF a(2)] a(3) by metis
  have "convert ?r (convert ?r 1) = 3"
    by (simp add: convert_def remap_single_id_def nmo_id_remap_lookup_id_def)
  then show ?thesis
    using sequence_ids_converted_twice [OF a(2,3) w, of "[1]" 7 1 ?r] a(1) w by (auto simp: chunk_version_defs)
qed

end
