(* ===== verification/ChunkPipeline.thy ===== *)
theory ChunkPipeline
  imports ChunkClone ChunkRemap
begin

text \<open>
  The parts together: a chunk is written, finished, saved in its file layout, parsed and read.
\<close>

lemma written_chunk:
  assumes "arena_sane a" "arena_grants a" and "nmo_chunk_writer_create a = Done (Some w, a')"
    and vs: "list_all (item_ok mok) vs" and cost: "sum_list (map item_cost vs) < 2 ^ 32"
  obtains w1 w2 c w3 where "nmo_chunk_writer_start class_id version w = Done w1"
    "write_list (put_item mok) vs w1 = Done (Inr (), w2)" "nmo_chunk_writer_finalize w2 = (Some c, w3)"
    "body_ok (c_body c)" "counts_fit32 (c_body c)"
    "ci.encodes_list vs (words (c_data (c_body c)) (c_data_size (c_body c)))"
proof -
  have w: "writer_wf w" "arena_grants (w_arena w)" "wabs w = empty_awriter None None"
    using writer_create_ok [OF assms(1)] assms(2,3) by (metis eff.inject(1) option.distinct(1) option.inject prod.inject)+
  obtain w1 where w1: "nmo_chunk_writer_start class_id version w = Done w1" "writer_wf w1" "arena_grants (w_arena w1)"
    "wabs w1 = empty_awriter (w_file_context w) (Some (started_chunk class_id version (\<not> plain (wabs w))))"
    using writer_start_ok [OF w(1,2)] .
  have "writer_ready w1"
    using w1 w(3) wabs_simps(2) [of w] by (auto simp: writer_ready_def plain_def empty_awriter_def
      started_empty [unfolded empty_awriter_def])
  moreover have "room (sum_list (map item_cost vs)) (wabs w1)" using cost w1(4) by (simp add: room_def)
  ultimately have "outcome w1 (write_list (put_item mok) vs w1)
      (\<lambda>_ u. adds (sum_list (map item_cost vs)) (ci.encodes_list vs) (wabs w1) (wabs u))"
    using vs by (intro ci.write_list_law)
  from outcome_grants [OF this w1(3)] obtain w2 where
    put: "write_list (put_item mok) vs w1 = Done (Inr (), w2)" "writer_wf w2"
      "adds (sum_list (map item_cost vs)) (ci.encodes_list vs) (wabs w1) (wabs w2)" by auto
  have "load (wabs w1) = 0" "aw_words (wabs w1) = []" unfolding w1(4) by (simp_all add: empty_awriter_def load_def)
  with put(3) cost have w2: "started (wabs w2)" "ci.encodes_list vs (aw_words (wabs w2))" "load (wabs w2) < 2 ^ 32"
    by (auto simp: adds_def)
  obtain c w3 where c: "nmo_chunk_writer_finalize w2 = (Some c, w3)" "finalized_as (wabs w2) c"
    using writer_finalize_ok [OF put(2) w2(1)] .
  have fin: "body_ok (c_body c)" "words (c_data (c_body c)) (c_data_size (c_body c)) = aw_words (wabs w2)"
    "words (c_ids (c_body c)) (c_id_count (c_body c)) = aw_ids (wabs w2)"
    "words (c_managers (c_body c)) (c_manager_count (c_body c)) = aw_managers (wabs w2)"
    "words (c_chunk_refs (c_body c)) (c_chunk_ref_count (c_body c)) = aw_refs (wabs w2)"
    using c(2) by (simp_all add: finalized_as_def Let_def)
  have enc: "ci.encodes_list vs (words (c_data (c_body c)) (c_data_size (c_body c)))"
    unfolding fin(2) by (rule w2(2))
  have fit: "counts_fit32 (c_body c)"
    using fin(1) w2(3) fin(2-5) [THEN arg_cong [of _ _ length]]
    by (simp add: counts_fit32_def body_ok_def load_def)
  show thesis by (rule that [OF w1(1) put(1) c(1) fin(1) fit enc])
qed

lemma parser_of_loaded:
  assumes "body_ok b"
  shows "parser_ready (nmo_chunk_parser_create (Chunk ((loaded b)\<lparr>c_raw_data := d, c_raw_size := n\<rparr>) None))"
    and "rest (nmo_chunk_parser_create (Chunk ((loaded b)\<lparr>c_raw_data := d, c_raw_size := n\<rparr>) None))
      = words (c_data b) (c_data_size b)"
  using loaded_words(1) [OF assms] assms
  by (auto simp: parser_ready_def parser_wf_def rest_def nmo_chunk_parser_create_def loaded_def Let_def body_ok_def
      buffer_ok_def kept_def words_def split: option.splits)

text \<open>
  C1: values survive a file. Whatever list of values is written into a chunk of any version, the chunk
  saved with \<^verbatim>\<open>nmo_chunk_serialize_version1\<close>, parsed with \<^verbatim>\<open>nmo_chunk_parse\<close> and read with the matching
  calls gives these values back and nothing else.
\<close>

theorem values_survive_a_file:
  assumes "arena_sane a" "arena_grants a" and "nmo_chunk_writer_create a = Done (Some w, a')"
    and "list_all (item_ok mok) vs" and "sum_list (map item_cost vs) < 2 ^ 32"
    and "arena_sane b" "arena_grants b"
  shows "\<exists>w1 w2 c w3 ws b1 d b2 p b3. nmo_chunk_writer_start class_id version w = Done w1
    \<and> write_list (put_item mok) vs w1 = Done (Inr (), w2) \<and> nmo_chunk_writer_finalize w2 = (Some c, w3)
    \<and> nmo_chunk_serialize_version1 c b = ok (ws, 4 * length ws) b1
    \<and> nmo_chunk_parse (Chunk empty_body None) (bytes_of_dwords ws) (4 * length ws) b1 = ok () (d, b2)
    \<and> read_list get_item (map item_kind vs) (nmo_chunk_parser_create d, b2) = Done (Inr vs, p, b3)
    \<and> nmo_chunk_parser_at_end p"
proof -
  obtain w1 w2 c w3 where w: "nmo_chunk_writer_start class_id version w = Done w1"
    "write_list (put_item mok) vs w1 = Done (Inr (), w2)" "nmo_chunk_writer_finalize w2 = (Some c, w3)"
    and ok: "body_ok (c_body c)" "counts_fit32 (c_body c)"
    and enc: "ci.encodes_list vs (words (c_data (c_body c)) (c_data_size (c_body c)))"
    by (rule written_chunk [OF assms(1-5)])
  let ?b = "c_body c"
  let ?ws = "layout_words ?b"
  let ?d = "Chunk ((loaded ?b)\<lparr>c_raw_data := Some (bytes_of_dwords ?ws), c_raw_size := 4 * length ?ws\<rparr>) None"
  have len: "4 * length ?ws < 2 ^ 61" using length_layout_words(2) [OF ok] by simp
  from serialize_layout_words [OF ok(1) len assms(6,7), of "c_chunks c"] obtain b1 where
    b1: "nmo_chunk_serialize_version1 c b = ok (?ws, 4 * length ?ws) b1" "arena_sane b1" "arena_grants b1" by auto
  from parse_loaded [OF ok b1(2,3)] obtain b2 where
    b2: "nmo_chunk_parse (Chunk empty_body None) (bytes_of_dwords ?ws) (4 * length ?ws) b1 = ok () (?d, b2)"
      "arena_sane b2" "arena_grants b2" by blast
  have p: "parser_ready (nmo_chunk_parser_create ?d)"
    "rest (nmo_chunk_parser_create ?d) = words (c_data ?b) (c_data_size ?b) @ []"
    using parser_of_loaded [OF ok(1)] by simp_all
  from ci.read_list_law [OF assms(4) enc, unfolded parses_in_def, rule_format, OF p(1) b2(2,3) p(2)]
  obtain q b3 where q: "read_list get_item (map item_kind vs) (nmo_chunk_parser_create ?d, b2) = Done (Inr vs, q, b3)"
    "parser_ready q" "rest q = []" by blast
  have "nmo_chunk_parser_at_end q" using q(2,3) length_rest [of q]
    by (simp add: parser_ready_def nmo_chunk_parser_at_end_def nmo_chunk_parser_remaining_def)
  with w b1(1) b2(1) q(1) show ?thesis by blast
qed

text \<open>A word and a string, saved as version 7 in the default arena.\<close>

theorem values_survive_a_file_witness:
  "\<exists>a w a' w1 w2 c w3 ws b1 d b2 p b3. nmo_arena_create (\<lambda>_ _. True) (\<lambda>_ _. 0) 0 = Done (Some a)
    \<and> nmo_chunk_writer_create a = Done (Some w, a') \<and> nmo_chunk_writer_start 19 7 w = Done w1
    \<and> write_list (put_item (\<lambda>_. True)) [IWord 513, IString [72, 105]] w1 = Done (Inr (), w2)
    \<and> nmo_chunk_writer_finalize w2 = (Some c, w3)
    \<and> nmo_chunk_serialize_version1 c a = ok (ws, 4 * length ws) b1
    \<and> nmo_chunk_parse (Chunk empty_body None) (bytes_of_dwords ws) (4 * length ws) b1 = ok () (d, b2)
    \<and> read_list get_item [KWord, KString] (nmo_chunk_parser_create d, b2)
        = Done (Inr [IWord 513, IString [72, 105]], p, b3) \<and> nmo_chunk_parser_at_end p"
proof -
  obtain a where a: "nmo_arena_create (\<lambda>_ _. True) (\<lambda>_ _. 0) 0 = Done (Some a)" "arena_sane a" "arena_grants a"
    by (rule default_arena_exists)
  obtain w a' where w: "nmo_chunk_writer_create a = Done (Some w, a')"
    using writer_create_ok [OF a(2)] a(3) by metis
  have ok: "list_all (item_ok (\<lambda>_. True)) [IWord 513, IString [72, 105]]"
    and cost: "sum_list (map item_cost [IWord 513, IString [72, 105]]) < 2 ^ 32"
    by (simp_all add: byte_count_ok_def)
  from values_survive_a_file [OF a(2,3) w ok cost a(2,3), of 19 7] a(1) w show ?thesis
    unfolding list.map item_kind.simps by blast
qed

text \<open>
  A chunk without data cannot be converted after loading. Parsing leaves the buffer of a chunk of
  size 0 NULL, and \<^verbatim>\<open>nmo_chunk_remap_object_ids\<close> takes a NULL buffer for an invalid argument, for
  the chunk itself and for every tree it is a part of.
\<close>

theorem empty_chunk_refuses_conversion:
  assumes "body_ok b" "counts_fit32 b" and "c_data_size b = 0" and "arena_sane a" "arena_grants a"
  shows "\<exists>ws a1 c a2. nmo_chunk_serialize_version1 (Chunk b cs) a = ok (ws, 4 * length ws) a1
    \<and> nmo_chunk_parse (Chunk empty_body None) (bytes_of_dwords ws) (4 * length ws) a1 = ok () (c, a2)
    \<and> nmo_chunk_remap_object_ids c r = fail NMO_ERR_INVALID_ARGUMENT c"
proof -
  let ?ws = "layout_words b"
  let ?c = "Chunk ((loaded b)\<lparr>c_raw_data := Some (bytes_of_dwords ?ws), c_raw_size := 4 * length ?ws\<rparr>) None"
  have len: "4 * length ?ws < 2 ^ 61" using length_layout_words(2) [OF assms(1,2)] by simp
  from serialize_layout_words [OF assms(1) len assms(4,5)] obtain a1 where
    a1: "nmo_chunk_serialize_version1 (Chunk b cs) a = ok (?ws, 4 * length ?ws) a1" "arena_sane a1" "arena_grants a1"
    by blast
  from parse_loaded [OF assms(1,2) a1(2,3)] obtain a2 where
    a2: "nmo_chunk_parse (Chunk empty_body None) (bytes_of_dwords ?ws) (4 * length ?ws) a1 = ok () (?c, a2)" by blast
  have "c_data (loaded b) = None" "c_chunk_version (loaded b) = clamp_version (c_chunk_version b)"
    using assms(3) by (simp_all add: loaded_def Let_def kept_def)
  moreover have "\<not> unat (clamp_version (c_chunk_version b)) < NMO_CHUNK_VERSION1"
    using clamp_version_range [of "c_chunk_version b"] by (auto simp: chunk_version_defs)
  ultimately have "nmo_chunk_remap_object_ids ?c r = fail NMO_ERR_INVALID_ARGUMENT ?c"
    by (simp add: nmo_chunk_remap_object_ids_def remap_chunk_data_recursive_def)
  with a1(1) a2 show ?thesis by blast
qed

theorem empty_chunk_refuses_conversion_witness:
  "\<exists>a ws a1 c a2. nmo_arena_create (\<lambda>_ _. True) (\<lambda>_ _. 0) 0 = Done (Some a)
    \<and> nmo_chunk_serialize_version1 (Chunk empty_body None) a = ok (ws, 4 * length ws) a1
    \<and> nmo_chunk_parse (Chunk empty_body None) (bytes_of_dwords ws) (4 * length ws) a1 = ok () (c, a2)
    \<and> nmo_chunk_remap_object_ids c \<lparr>r_entries = [], r_count = 0, r_capacity = 0, r_arena = a\<rparr>
        = fail NMO_ERR_INVALID_ARGUMENT c"
proof -
  obtain a where a: "nmo_arena_create (\<lambda>_ _. True) (\<lambda>_ _. 0) 0 = Done (Some a)" "arena_sane a" "arena_grants a"
    by (rule default_arena_exists)
  have ok: "body_ok empty_body" "counts_fit32 empty_body" "c_data_size empty_body = 0"
    by (simp_all add: body_ok_def buffer_ok_def counts_fit32_def empty_body_def)
  from empty_chunk_refuses_conversion [OF ok a(2,3)] a(1) show ?thesis by blast
qed

end
