(* ===== verification/OpenAddressing.thy ===== *)
theory OpenAddressing
  imports NmoPrelude
begin

text \<open>
  Linear probing with tombstones, the search that \<^verbatim>\<open>src/core/hash_table.c\<close>, \<^verbatim>\<open>hash_set.c\<close> and
  \<^verbatim>\<open>indexed_map.c\<close> share line by line. A slot array is the state array of the code joined with what
  an occupied slot refers to: the key and value of the hash table, the key of the set, the dense index
  of the indexed map. The lemmas say when the search ends and where, and which updates keep every
  entry reachable from its home slot.
\<close>

section \<open>Slots and the probe loop\<close>

datatype 'a hash_slot = EMPTY | OCCUPIED 'a | TOMBSTONE

text \<open>
  The loop \<^verbatim>\<open>for (;;)\<close> of \<^verbatim>\<open>find_slot\<close>: whether the key is found and the slot where it is or where it
  can be put, the first tombstone passed if there is one. \<open>None\<close> is a loop that does not end.
\<close>

partial_function (option) probe ::
  "('a \<Rightarrow> bool) \<Rightarrow> 'a hash_slot list \<Rightarrow> nat \<Rightarrow> nat option \<Rightarrow> (bool \<times> nat) option" where
  "probe hit ss index tombstone = (case ss ! index of
       EMPTY \<Rightarrow> Some (False, case tombstone of Some t \<Rightarrow> t | None \<Rightarrow> index)
     | OCCUPIED a \<Rightarrow>
         if hit a then Some (True, index)
         else probe hit ss ((index + 1) AND (length ss - 1)) tombstone
     | TOMBSTONE \<Rightarrow>
         probe hit ss ((index + 1) AND (length ss - 1)) (if tombstone = None then Some index else tombstone))"

text \<open>The number of slots is a power of two, so the mask is a remainder.\<close>

lemma and_mask_mod: "x AND (2 ^ k - 1) = x mod (2 ^ k :: nat)"
  by (metis mask_eq_exp_minus_1 take_bit_eq_mask take_bit_eq_mod)

definition slot_at :: "'a hash_slot list \<Rightarrow> nat \<Rightarrow> nat \<Rightarrow> nat" where
  "slot_at ss h j = (h + j) mod length ss"

lemma slot_at_less [simp]: "0 < length ss \<Longrightarrow> slot_at ss h j < length ss"
  by (simp add: slot_at_def)

lemma slot_at_0: "slot_at ss h 0 = h mod length ss"
  by (simp add: slot_at_def)

lemma slot_at_update [simp]: "slot_at (ss[i := x]) h j = slot_at ss h j"
  by (simp add: slot_at_def)

lemma slot_at_next: "length ss = 2 ^ k \<Longrightarrow> (slot_at ss h j + 1) AND (length ss - 1) = slot_at ss h (Suc j)"
  by (simp only: and_mask_mod slot_at_def) (simp add: mod_Suc_eq)

text \<open>Every slot is met within one round.\<close>

lemma slot_at_covers:
  assumes "i < length ss"
  shows "\<exists>j<length ss. slot_at ss h j = i"
proof -
  let ?n = "length ss"
  have "0 < ?n" using assms by linarith
  let ?j = "(i + (?n - h mod ?n)) mod ?n"
  have "(h + ?j) mod ?n = (h mod ?n + (i + (?n - h mod ?n))) mod ?n"
    by (simp add: mod_add_left_eq mod_add_right_eq)
  also have "h mod ?n + (i + (?n - h mod ?n)) = i + ?n"
    using mod_less_divisor [OF \<open>0 < ?n\<close>, of h] by linarith
  finally show ?thesis using assms \<open>0 < ?n\<close> by (auto simp: slot_at_def intro!: exI [of _ ?j])
qed

definition stops :: "('a \<Rightarrow> bool) \<Rightarrow> 'a hash_slot \<Rightarrow> bool" where
  "stops hit s = (case s of EMPTY \<Rightarrow> True | OCCUPIED a \<Rightarrow> hit a | TOMBSTONE \<Rightarrow> False)"

fun tomb_before :: "'a hash_slot list \<Rightarrow> nat \<Rightarrow> nat \<Rightarrow> nat option" where
  "tomb_before ss h 0 = None"
| "tomb_before ss h (Suc j) = (case tomb_before ss h j of
       Some t \<Rightarrow> Some t
     | None \<Rightarrow> if ss ! slot_at ss h j = TOMBSTONE then Some (slot_at ss h j) else None)"

lemma tomb_before_SomeD:
  "tomb_before ss h j = Some t \<Longrightarrow> \<exists>i<j. t = slot_at ss h i \<and> ss ! t = TOMBSTONE"
  by (induction j) (auto split: option.splits if_splits intro: less_SucI)

lemma probe_walk:
  assumes "length ss = 2 ^ k" and "\<forall>i<j. \<not> stops hit (ss ! slot_at ss h i)"
  shows "probe hit ss (h mod length ss) None = probe hit ss (slot_at ss h j) (tomb_before ss h j)"
  using assms(2)
proof (induction j)
  case (Suc j)
  then have "probe hit ss (h mod length ss) None = probe hit ss (slot_at ss h j) (tomb_before ss h j)"
    and "\<not> stops hit (ss ! slot_at ss h j)" by auto
  then show ?case using slot_at_next [OF assms(1), of h j]
    by (subst (asm) (2) probe.simps) (auto simp: stops_def split: hash_slot.splits option.splits)
qed (simp add: slot_at_0)

text \<open>The first slot at which the search stops decides its result.\<close>

lemma probe_result:
  assumes "length ss = 2 ^ k" and "\<forall>i<j. \<not> stops hit (ss ! slot_at ss h i)"
    and "stops hit (ss ! slot_at ss h j)"
  shows "probe hit ss (h mod length ss) None =
    Some (if ss ! slot_at ss h j = EMPTY
          then (False, case tomb_before ss h j of Some t \<Rightarrow> t | None \<Rightarrow> slot_at ss h j)
          else (True, slot_at ss h j))"
  unfolding probe_walk [OF assms(1,2)] using assms(3)
  by (subst probe.simps) (auto simp: stops_def split: hash_slot.splits)

lemma first_stop:
  assumes "i < length ss" and "stops hit (ss ! i)"
  obtains j where "j < length ss" "stops hit (ss ! slot_at ss h j)"
    "\<forall>m<j. \<not> stops hit (ss ! slot_at ss h m)"
proof -
  obtain j0 where "j0 < length ss" "slot_at ss h j0 = i" using slot_at_covers [OF assms(1)] by blast
  with assms(2) have "stops hit (ss ! slot_at ss h j0)" by simp
  from LeastI [of "\<lambda>j. stops hit (ss ! slot_at ss h j)", OF this]
    Least_le [of "\<lambda>j. stops hit (ss ! slot_at ss h j)", OF this]
  have "stops hit (ss ! slot_at ss h (LEAST j. stops hit (ss ! slot_at ss h j)))"
    "(LEAST j. stops hit (ss ! slot_at ss h j)) \<le> j0" .
  with \<open>j0 < length ss\<close> that show ?thesis by (meson not_less_Least le_less_trans)
qed

text \<open>Without an empty slot and without the key, the loop does not end.\<close>

lemma probe_returns_stop:
  assumes "probe hit ss i t = Some r"
  shows "length ss = 2 ^ k \<longrightarrow> i < length ss \<longrightarrow> (\<exists>m<length ss. stops hit (ss ! m))"
  using assms
proof (induction rule: probe.raw_induct [rotated 1, consumes 1, case_names step])
  case (step search hit ss i t r)
  show ?case
  proof (intro impI)
    assume n: "length ss = 2 ^ k" "i < length ss"
    then have "(i + 1) AND (length ss - 1) < length ss" by (simp only: and_mask_mod) simp
    with step n show "\<exists>m<length ss. stops hit (ss ! m)"
      by (cases "ss ! i") (auto simp: stops_def intro: exI [of _ i] split: if_splits)
  qed
qed

lemma probe_diverges:
  assumes "length ss = 2 ^ k" and "\<forall>i<length ss. \<not> stops hit (ss ! i)"
  shows "probe hit ss (h mod length ss) None = None"
proof (rule ccontr)
  assume "probe hit ss (h mod length ss) None \<noteq> None"
  then obtain r where "probe hit ss (h mod length ss) None = Some r" by blast
  from probe_returns_stop [OF this, of k] assms show False by auto
qed

section \<open>Reachable entries\<close>

text \<open>Slot \<open>i\<close> lies on the probe path of a hash before its first empty slot.\<close>

definition chained :: "'a hash_slot list \<Rightarrow> nat \<Rightarrow> nat \<Rightarrow> bool" where
  "chained ss h i \<longleftrightarrow> (\<exists>j<length ss. i = slot_at ss h j \<and> (\<forall>m<j. ss ! slot_at ss h m \<noteq> EMPTY))"

lemma chained_mono:
  assumes "chained ss h i" and "\<forall>m<length ss. ss ! m \<noteq> EMPTY \<longrightarrow> ss' ! m \<noteq> EMPTY" and "length ss' = length ss"
  shows "chained ss' h i"
proof -
  obtain j where j: "j < length ss" "i = slot_at ss h j" "\<forall>m<j. ss ! slot_at ss h m \<noteq> EMPTY"
    using assms(1) by (auto simp: chained_def)
  then have "0 < length ss" by linarith
  then have "\<forall>m<j. ss' ! slot_at ss' h m \<noteq> EMPTY" using j(3) assms(2,3) by (simp add: slot_at_def)
  with j assms(3) show ?thesis by (auto simp: chained_def slot_at_def)
qed

text \<open>Every entry is on its path, and no key is there twice.\<close>

definition slots_wf :: "('a \<Rightarrow> 'k) \<Rightarrow> ('k \<Rightarrow> nat) \<Rightarrow> 'a hash_slot list \<Rightarrow> bool" where
  "slots_wf key hash ss \<longleftrightarrow> (\<exists>k. length ss = 2 ^ k)
     \<and> (\<forall>i<length ss. \<forall>a. ss ! i = OCCUPIED a \<longrightarrow> chained ss (hash (key a)) i)
     \<and> (\<forall>i<length ss. \<forall>j<length ss. \<forall>a b.
           ss ! i = OCCUPIED a \<longrightarrow> ss ! j = OCCUPIED b \<longrightarrow> key a = key b \<longrightarrow> i = j)"

abbreviation find_key :: "('a \<Rightarrow> 'k) \<Rightarrow> ('k \<Rightarrow> nat) \<Rightarrow> 'k \<Rightarrow> 'a hash_slot list \<Rightarrow> (bool \<times> nat) option" where
  "find_key key hash x ss \<equiv> probe (\<lambda>a. key a = x) ss (hash x mod length ss) None"

lemma find_key_present:
  assumes wf: "slots_wf key hash ss" and i: "i < length ss" "ss ! i = OCCUPIED a" "key a = x"
  shows "find_key key hash x ss = Some (True, i)"
proof -
  obtain k where k: "length ss = 2 ^ k" using wf by (auto simp: slots_wf_def)
  obtain j where j: "j < length ss" "i = slot_at ss (hash x) j" "\<forall>m<j. ss ! slot_at ss (hash x) m \<noteq> EMPTY"
    using wf i by (auto simp: slots_wf_def chained_def)
  have st: "stops (\<lambda>a. key a = x) (ss ! i)" using i by (simp add: stops_def)
  from first_stop [OF i(1) st, of "hash x"] obtain l where
    l: "l < length ss" "stops (\<lambda>a. key a = x) (ss ! slot_at ss (hash x) l)"
      "\<forall>m<l. \<not> stops (\<lambda>a. key a = x) (ss ! slot_at ss (hash x) m)" .
  then have "l \<le> j" using st j(2) by (metis not_le)
  have "ss ! slot_at ss (hash x) l \<noteq> EMPTY"
    using j i \<open>l \<le> j\<close> by (cases "l = j") (auto simp: j(2) [symmetric])
  with l(2) obtain b where b: "ss ! slot_at ss (hash x) l = OCCUPIED b" "key b = x"
    by (auto simp: stops_def split: hash_slot.splits)
  have "slot_at ss (hash x) l < length ss" using i(1) by (intro slot_at_less) linarith
  with wf b i have "slot_at ss (hash x) l = i" by (auto simp: slots_wf_def)
  with probe_result [OF k l(3,2)] b show ?thesis by simp
qed

lemma find_key_absent:
  assumes wf: "slots_wf key hash ss" and no: "\<forall>i<length ss. \<forall>a. ss ! i = OCCUPIED a \<longrightarrow> key a \<noteq> x"
    and e: "e < length ss" "ss ! e = EMPTY"
  shows "\<exists>i<length ss. find_key key hash x ss = Some (False, i) \<and> chained ss (hash x) i
     \<and> (ss ! i = EMPTY \<or> ss ! i = TOMBSTONE)"
proof -
  obtain k where k: "length ss = 2 ^ k" using wf by (auto simp: slots_wf_def)
  have pos: "0 < length ss" using e(1) by linarith
  have "stops (\<lambda>a. key a = x) (ss ! e)" using e by (simp add: stops_def)
  from first_stop [OF e(1) this, of "hash x"] obtain l where
    l: "l < length ss" "stops (\<lambda>a. key a = x) (ss ! slot_at ss (hash x) l)"
      "\<forall>m<l. \<not> stops (\<lambda>a. key a = x) (ss ! slot_at ss (hash x) m)" .
  have before: "\<forall>m<l. ss ! slot_at ss (hash x) m \<noteq> EMPTY"
    using l(3) by (auto simp: stops_def)
  have "ss ! slot_at ss (hash x) l = EMPTY"
    using l(2) no slot_at_less [OF pos] by (auto simp: stops_def split: hash_slot.splits)
  note r = probe_result [OF k l(3,2)]
  show ?thesis
  proof (cases "tomb_before ss (hash x) l")
    case None
    moreover have "chained ss (hash x) (slot_at ss (hash x) l)" using l(1) before by (auto simp: chained_def)
    ultimately show ?thesis using r \<open>ss ! slot_at ss (hash x) l = EMPTY\<close> pos
      by (intro exI [of _ "slot_at ss (hash x) l"]) simp
  next
    case (Some t)
    from tomb_before_SomeD [OF this] obtain m where m: "m < l" "t = slot_at ss (hash x) m" "ss ! t = TOMBSTONE"
      by blast
    with l(1) before have "chained ss (hash x) t"
      by (auto simp: chained_def intro!: exI [of _ m])
    with r Some \<open>ss ! slot_at ss (hash x) l = EMPTY\<close> m pos show ?thesis
      by (auto intro!: exI [of _ t])
  qed
qed

lemma find_key_hangs:
  assumes wf: "slots_wf key hash ss" and no: "\<forall>i<length ss. \<forall>a. ss ! i = OCCUPIED a \<longrightarrow> key a \<noteq> x"
    and e: "\<forall>i<length ss. ss ! i \<noteq> EMPTY"
  shows "find_key key hash x ss = None"
proof -
  obtain k where k: "length ss = 2 ^ k" using wf by (auto simp: slots_wf_def)
  show ?thesis
    by (rule probe_diverges [OF k]) (use no e in \<open>auto simp: stops_def split: hash_slot.splits\<close>)
qed

section \<open>Updates\<close>

text \<open>A slot that is not empty any more, or was not before, keeps every path.\<close>

lemma slots_wf_update:
  assumes wf: "slots_wf key hash ss" and i: "i < length ss" and s: "s \<noteq> EMPTY"
    and new: "\<And>a. s = OCCUPIED a \<Longrightarrow> chained ss (hash (key a)) i
      \<and> (\<forall>m<length ss. \<forall>b. ss ! m = OCCUPIED b \<longrightarrow> key b = key a \<longrightarrow> m = i)"
  shows "slots_wf key hash (ss[i := s])"
proof -
  have keep: "chained ss h m \<Longrightarrow> chained (ss[i := s]) h m" for h m
    using s i by (elim chained_mono) (auto simp: nth_list_update)
  have chain: "chained ss (hash (key a)) m" if "m < length ss" "ss ! m = OCCUPIED a" for m a
    using wf that unfolding slots_wf_def by blast
  have uniq: "m = l" if "m < length ss" "l < length ss" "ss ! m = OCCUPIED a" "ss ! l = OCCUPIED b" "key a = key b"
    for m l a b using wf that unfolding slots_wf_def by blast
  show ?thesis unfolding slots_wf_def
  proof (intro conjI allI impI)
    show "\<exists>k. length (ss[i := s]) = 2 ^ k" using wf by (simp add: slots_wf_def)
  next
    fix m a assume "m < length (ss[i := s])" "ss[i := s] ! m = OCCUPIED a"
    then have "chained ss (hash (key a)) m"
      using new [THEN conjunct1, of a] chain [of m a] i by (cases "m = i") simp_all
    then show "chained (ss[i := s]) (hash (key a)) m" by (rule keep)
  next
    fix m l a b
    assume h: "m < length (ss[i := s])" "l < length (ss[i := s])" "ss[i := s] ! m = OCCUPIED a"
      "ss[i := s] ! l = OCCUPIED b" "key a = key b"
    have other: "r = i" if "r < length (ss[i := s])" "ss[i := s] ! r = OCCUPIED d" "r \<noteq> i" "s = OCCUPIED c" "key d = key c" for r c d
      using that new [OF that(4)] by simp
    consider "m = i" "l = i" | "m = i" "l \<noteq> i" | "m \<noteq> i" "l = i" | "m \<noteq> i" "l \<noteq> i" by blast
    then show "m = l"
    proof cases
      case 2 then show ?thesis using h i other [OF h(2,4)] by simp
    next
      case 3 then show ?thesis using h i other [OF h(1,3)] by simp
    next
      case 4 then show ?thesis using h by (intro uniq [of m l a b]) simp_all
    qed simp
  qed
qed

lemma slots_wf_fresh: "slots_wf key hash (replicate (2 ^ k) EMPTY)"
  by (auto simp: slots_wf_def)

section \<open>Contents\<close>

fun occupant :: "'a hash_slot \<Rightarrow> 'a option" where
  "occupant (OCCUPIED a) = Some a"
| "occupant _ = None"

definition contents :: "'a hash_slot list \<Rightarrow> 'a list" where
  "contents ss = List.map_filter occupant ss"

text \<open>The entry under a key.\<close>

definition entry_of :: "('a \<Rightarrow> 'k) \<Rightarrow> 'a hash_slot list \<Rightarrow> 'k \<Rightarrow> 'a option" where
  "entry_of key ss x = List.find (\<lambda>a. key a = x) (contents ss)"

lemma occupant_Some [simp]: "occupant s = Some a \<longleftrightarrow> s = OCCUPIED a"
  by (cases s) auto

lemma set_contents: "a \<in> set (contents ss) \<longleftrightarrow> (\<exists>i<length ss. ss ! i = OCCUPIED a)"
proof -
  have "a \<in> set (contents ss) \<longleftrightarrow> (\<exists>s\<in>set ss. occupant s = Some a)"
    by (induction ss) (auto simp: contents_def map_filter_simps split: option.splits)
  then show ?thesis by (auto simp: in_set_conv_nth)
qed

lemma entry_of_Some:
  assumes "slots_wf key hash ss"
  shows "entry_of key ss x = Some a \<longleftrightarrow> (\<exists>i<length ss. ss ! i = OCCUPIED a \<and> key a = x)"
proof
  assume "entry_of key ss x = Some a"
  then have "a \<in> set (contents ss)" "key a = x"
    unfolding entry_of_def find_Some_iff by auto
  then show "\<exists>i<length ss. ss ! i = OCCUPIED a \<and> key a = x" by (auto simp: set_contents)
next
  assume "\<exists>i<length ss. ss ! i = OCCUPIED a \<and> key a = x"
  then obtain i where i: "i < length ss" "ss ! i = OCCUPIED a" "key a = x" by blast
  then have "a \<in> set (contents ss)" by (auto simp: set_contents)
  with i(3) have "entry_of key ss x \<noteq> None" by (auto simp: entry_of_def find_None_iff)
  then obtain b where b: "entry_of key ss x = Some b" by blast
  then have "b \<in> set (contents ss)" "key b = x" unfolding entry_of_def find_Some_iff by auto
  with i assms have "b = a" by (auto simp: set_contents slots_wf_def)
  with b show "entry_of key ss x = Some a" by simp
qed

lemma entry_of_None:
  "entry_of key ss x = None \<longleftrightarrow> (\<forall>i<length ss. \<forall>a. ss ! i = OCCUPIED a \<longrightarrow> key a \<noteq> x)"
  by (auto simp: entry_of_def find_None_iff set_contents)

lemma option_eqI: "(\<And>a. f = Some a \<longleftrightarrow> g = Some a) \<Longrightarrow> f = g"
  by (cases f; cases g) auto

lemma occupied_elsewhere:
  assumes "i < length ss" and "\<And>b. ss ! i = OCCUPIED b \<Longrightarrow> key b \<noteq> x" and "\<And>b. s = OCCUPIED b \<Longrightarrow> key b \<noteq> x"
  shows "(\<exists>m<length (ss[i := s]). ss[i := s] ! m = OCCUPIED c \<and> key c = x)
    \<longleftrightarrow> (\<exists>m<length ss. ss ! m = OCCUPIED c \<and> key c = x)"
proof -
  have "ss[i := s] ! m = OCCUPIED c \<and> key c = x \<longleftrightarrow> ss ! m = OCCUPIED c \<and> key c = x" for m
    using assms by (cases "m = i") auto
  then show ?thesis by simp
qed

lemma entry_of_put:
  assumes wf: "slots_wf key hash ss" "slots_wf key hash (ss[i := OCCUPIED a])"
    and i: "i < length ss" "\<And>b. ss ! i = OCCUPIED b \<Longrightarrow> key b = key a"
  shows "entry_of key (ss[i := OCCUPIED a]) = (entry_of key ss)(key a \<mapsto> a)"
proof (intro ext option_eqI)
  fix x c
  have "entry_of key (ss[i := OCCUPIED a]) (key a) = Some a"
    unfolding entry_of_Some [OF wf(2)] using i(1) by (intro exI [of _ i]) simp
  moreover have "entry_of key (ss[i := OCCUPIED a]) x = Some c \<longleftrightarrow> entry_of key ss x = Some c" if "x \<noteq> key a"
    unfolding entry_of_Some [OF wf(1)] entry_of_Some [OF wf(2)]
    using that i by (intro occupied_elsewhere) auto
  ultimately show "entry_of key (ss[i := OCCUPIED a]) x = Some c \<longleftrightarrow> ((entry_of key ss)(key a \<mapsto> a)) x = Some c"
    by (cases "x = key a") auto
qed

lemma entry_of_delete:
  assumes wf: "slots_wf key hash ss" and i: "i < length ss" "ss ! i = OCCUPIED b"
  shows "slots_wf key hash (ss[i := TOMBSTONE])"
    and "entry_of key (ss[i := TOMBSTONE]) = (entry_of key ss)(key b := None)"
proof -
  show wf': "slots_wf key hash (ss[i := TOMBSTONE])"
    by (rule slots_wf_update [OF wf i(1)]) auto
  show "entry_of key (ss[i := TOMBSTONE]) = (entry_of key ss)(key b := None)"
  proof (intro ext option_eqI)
    fix x c
    have "j = i" if "j < length ss" "ss ! j = OCCUPIED d" "key d = key b" for j d
      using wf that i unfolding slots_wf_def by blast
    then have "entry_of key (ss[i := TOMBSTONE]) (key b) = None"
      unfolding entry_of_None using i(1) by (auto simp: nth_list_update split: if_splits)
    moreover have "entry_of key (ss[i := TOMBSTONE]) x = Some c \<longleftrightarrow> entry_of key ss x = Some c" if "x \<noteq> key b"
      unfolding entry_of_Some [OF wf] entry_of_Some [OF wf']
      using that i by (intro occupied_elsewhere) auto
    ultimately show "entry_of key (ss[i := TOMBSTONE]) x = Some c \<longleftrightarrow> ((entry_of key ss)(key b := None)) x = Some c"
      by (cases "x = key b") auto
  qed
qed

text \<open>Counting the slots of a kind across an update.\<close>

lemma length_filter_update:
  assumes "i < length xs"
  shows "length (filter P (xs[i := x])) + of_bool (P (xs ! i)) = length (filter P xs) + of_bool (P x)"
proof -
  have "filter P xs = filter P (take i xs @ xs ! i # drop (Suc i) xs)"
    using assms by (simp add: id_take_nth_drop [symmetric])
  then show ?thesis using assms by (simp add: upd_conv_take_nth_drop)
qed

definition free_slots :: "'a hash_slot list \<Rightarrow> nat" where
  "free_slots ss = length (filter (\<lambda>s. s = EMPTY) ss)"

lemma free_slots_pos: "0 < free_slots ss \<longleftrightarrow> (\<exists>i<length ss. ss ! i = EMPTY)"
  by (auto simp: free_slots_def length_greater_0_conv filter_empty_conv in_set_conv_nth)

lemma free_slots_update:
  "i < length ss \<Longrightarrow> s \<noteq> EMPTY \<Longrightarrow> free_slots (ss[i := s]) = free_slots ss - of_bool (ss ! i = EMPTY)"
  using length_filter_update [of i ss "\<lambda>s. s = EMPTY" s] unfolding free_slots_def by simp

lemma length_contents: "length (contents ss) = length (filter (\<lambda>s. occupant s \<noteq> None) ss)"
  by (induction ss) (auto simp: contents_def map_filter_simps split: option.splits)

lemma length_contents_update:
  "i < length ss \<Longrightarrow> length (contents (ss[i := s])) + of_bool (occupant (ss ! i) \<noteq> None)
     = length (contents ss) + of_bool (occupant s \<noteq> None)"
  unfolding length_contents by (rule length_filter_update)

lemma contents_fresh [simp]: "contents (replicate n EMPTY) = []"
  by (induction n) (simp_all add: contents_def map_filter_simps)

lemma entry_of_fresh [simp]: "entry_of key (replicate n EMPTY) = Map.empty"
  by (simp add: entry_of_def fun_eq_iff)

lemma free_slots_fresh [simp]: "free_slots (replicate n EMPTY) = n"
  by (simp add: free_slots_def)

lemma contents_free: "length (contents ss) + free_slots ss \<le> length ss"
  unfolding length_contents free_slots_def
  by (induction ss) (auto split: hash_slot.splits)

section \<open>Insertion at the slot found\<close>

text \<open>The slot that the search reports for an absent key can take it.\<close>

lemma put_at_found:
  assumes wf: "slots_wf key hash ss" and free: "0 < free_slots ss" and new: "entry_of key ss (key a) = None"
  shows "\<exists>i<length ss. find_key key hash (key a) ss = Some (False, i)
     \<and> slots_wf key hash (ss[i := OCCUPIED a])
     \<and> entry_of key (ss[i := OCCUPIED a]) = (entry_of key ss)(key a \<mapsto> a)
     \<and> length (contents (ss[i := OCCUPIED a])) = Suc (length (contents ss))
     \<and> free_slots ss \<le> Suc (free_slots (ss[i := OCCUPIED a]))"
proof -
  obtain e where e: "e < length ss" "ss ! e = EMPTY" using free by (auto simp: free_slots_pos)
  have no: "\<forall>i<length ss. \<forall>b. ss ! i = OCCUPIED b \<longrightarrow> key b \<noteq> key a"
    using new by (simp add: entry_of_None)
  from find_key_absent [OF wf no e] obtain i where i: "i < length ss"
    "find_key key hash (key a) ss = Some (False, i)" "chained ss (hash (key a)) i"
    "ss ! i = EMPTY \<or> ss ! i = TOMBSTONE" by blast
  have wf': "slots_wf key hash (ss[i := OCCUPIED a])"
    by (rule slots_wf_update [OF wf i(1)]) (use i(3) no in auto)
  have "entry_of key (ss[i := OCCUPIED a]) = (entry_of key ss)(key a \<mapsto> a)"
    by (rule entry_of_put [OF wf wf' i(1)]) (use i(4) in auto)
  moreover have "length (contents (ss[i := OCCUPIED a])) = Suc (length (contents ss))"
    using length_contents_update [OF i(1), of "OCCUPIED a"] i(4) by auto
  ultimately show ?thesis using i wf' by (auto simp: free_slots_update)
qed

text \<open>The search for a present key, and the replacement of its entry.\<close>

lemma found_at:
  assumes wf: "slots_wf key hash ss" and old: "entry_of key ss x = Some b"
  obtains i where "i < length ss" "ss ! i = OCCUPIED b" "key b = x" "find_key key hash x ss = Some (True, i)"
  using old find_key_present [OF wf] unfolding entry_of_Some [OF wf] by blast

lemma replace_at:
  assumes wf: "slots_wf key hash ss" and i: "i < length ss" "ss ! i = OCCUPIED b" and k: "key a = key b"
  shows "slots_wf key hash (ss[i := OCCUPIED a])"
    and "entry_of key (ss[i := OCCUPIED a]) = (entry_of key ss)(key a \<mapsto> a)"
    and "length (contents (ss[i := OCCUPIED a])) = length (contents ss)"
    and "free_slots (ss[i := OCCUPIED a]) = free_slots ss"
proof -
  have uniq: "m = i" if "m < length ss" "ss ! m = OCCUPIED c" "key c = key b" for m c
    using wf that i unfolding slots_wf_def by blast
  have "chained ss (hash (key a)) i" using wf i k unfolding slots_wf_def by metis
  then show wf': "slots_wf key hash (ss[i := OCCUPIED a])"
    using uniq k by (intro slots_wf_update [OF wf i(1)]) auto
  show "entry_of key (ss[i := OCCUPIED a]) = (entry_of key ss)(key a \<mapsto> a)"
    by (rule entry_of_put [OF wf wf' i(1)]) (use i(2) k in auto)
  show "length (contents (ss[i := OCCUPIED a])) = length (contents ss)"
    using length_contents_update [OF i(1), of "OCCUPIED a"] i(2) by auto
  show "free_slots (ss[i := OCCUPIED a]) = free_slots ss"
    using i by (simp add: free_slots_update)
qed

section \<open>Capacity\<close>

text \<open>
  The loop of \<^verbatim>\<open>next_capacity\<close>: it doubles up to the number asked for and yields 0 when it cannot;
  it would not end from 0. The load test compares \<^verbatim>\<open>count + 1\<close> with the product of the capacity and
  the \<^verbatim>\<open>double\<close> 0.7, which is 6305039478318694 / 2^53; for a power of two the product is exact.
\<close>

partial_function (option) capacity_loop :: "nat \<Rightarrow> nat \<Rightarrow> nat option" where
  "capacity_loop min_capacity capacity =
     (if capacity < min_capacity then
        if capacity > (2 ^ 64 - 1) div 2 then Some 0 else capacity_loop min_capacity (2 * capacity)
      else Some capacity)"

definition next_capacity :: "nat \<Rightarrow> nat eff" where
  "next_capacity min_capacity =
     (case capacity_loop min_capacity 16 of
        None \<Rightarrow> Diverges
      | Some c \<Rightarrow> Done c)"

definition over_load_factor :: "nat \<Rightarrow> nat \<Rightarrow> bool" where
  "over_load_factor count capacity \<longleftrightarrow> (count + 1) * 2 ^ 53 > capacity * 6305039478318694"

lemma capacity_loop_eq:
  assumes "k \<le> 63"
  shows "capacity_loop m (2 ^ k) = Some (if m \<le> 2 ^ 63 then 2 ^ (LEAST j. k \<le> j \<and> m \<le> 2 ^ j) else 0)"
  using assms
proof (induction "63 - k" arbitrary: k)
  case 0
  then have "k = 63" by simp
  show ?case
  proof (cases "m \<le> 2 ^ 63")
    case True
    then have "(LEAST j. k \<le> j \<and> m \<le> 2 ^ j) = 63" using \<open>k = 63\<close> by (intro Least_equality) auto
    with True show ?thesis using \<open>k = 63\<close> by (subst capacity_loop.simps) simp
  next
    case False
    then show ?thesis using \<open>k = 63\<close> by (subst capacity_loop.simps) simp
  qed
next
  case (Suc n)
  then have k: "k < 63" by simp
  show ?case
  proof (cases "m \<le> 2 ^ k")
    case True
    then have "(LEAST j. k \<le> j \<and> m \<le> 2 ^ j) = k" by (intro Least_equality) auto
    moreover have "m \<le> 2 ^ 63" using True k by (meson le_trans less_imp_le one_le_numeral power_increasing)
    ultimately show ?thesis using True by (subst capacity_loop.simps) simp
  next
    case False
    have "(2::nat) ^ k \<le> 2 ^ 62" using k by (intro power_increasing) auto
    then have "\<not> (2::nat) ^ k > (2 ^ 64 - 1) div 2" by simp
    then have "capacity_loop m (2 ^ k) = capacity_loop m (2 ^ Suc k)"
      using False by (subst capacity_loop.simps) simp
    moreover have "(LEAST j. k \<le> j \<and> m \<le> 2 ^ j) = (LEAST j. Suc k \<le> j \<and> m \<le> 2 ^ j)"
      using False by (intro arg_cong [where f = Least] ext) (auto simp: Suc_le_eq le_less)
    ultimately show ?thesis using Suc.hyps(1) [of "Suc k"] Suc.hyps(2) k by simp
  qed
qed

lemma next_capacity_ok:
  assumes "m \<le> 2 ^ 63"
  shows "\<exists>k. next_capacity m = Done (2 ^ k) \<and> 4 \<le> k \<and> k \<le> 63 \<and> m \<le> 2 ^ k \<and> (4 < k \<longrightarrow> 2 ^ (k - 1) < m)"
proof -
  let ?k = "LEAST j. 4 \<le> j \<and> m \<le> 2 ^ j"
  have "4 \<le> ?k \<and> m \<le> 2 ^ ?k" using assms by (intro LeastI [of "\<lambda>j. 4 \<le> j \<and> m \<le> 2 ^ j" 63]) simp
  moreover have "?k \<le> 63" using assms by (intro Least_le) simp
  moreover have "4 < ?k \<longrightarrow> 2 ^ (?k - 1) < m"
    using not_less_Least [of "?k - 1" "\<lambda>j. 4 \<le> j \<and> m \<le> 2 ^ j"] by auto
  ultimately show ?thesis using capacity_loop_eq [of 4 m] assms
    by (intro exI [of _ ?k]) (simp add: next_capacity_def)
qed

lemma next_capacity_fails: "2 ^ 63 < m \<Longrightarrow> next_capacity m = Done 0"
  using capacity_loop_eq [of 4 m] by (simp add: next_capacity_def)

text \<open>The capacity of a new container.\<close>

lemma initial_capacity:
  assumes "n \<le> 2 ^ 30"
  obtains k where "(if n > 0 then next_capacity n else Done 16) = Done (2 ^ k)" "16 \<le> (2::nat) ^ k"
    "(2::nat) ^ k \<le> 2 ^ 30" "n \<le> 2 ^ k"
proof -
  have "\<exists>k. (if n > 0 then next_capacity n else Done 16) = Done (2 ^ k) \<and> 4 \<le> k \<and> k \<le> 30 \<and> n \<le> 2 ^ k"
  proof (cases "n > 0")
    case True
    from next_capacity_ok [of n] assms obtain k where k: "next_capacity n = Done (2 ^ k)" "4 \<le> k" "n \<le> 2 ^ k"
      "4 < k \<longrightarrow> 2 ^ (k - 1) < n" by auto
    have "k - 1 < 30" if "4 < k"
      using k(4) that assms by (intro power_less_imp_less_exp [of "2::nat" "k - 1" 30]) linarith+
    then have "k \<le> 30" by (cases "4 < k") auto
    with k True show ?thesis by auto
  qed (auto intro!: exI [of _ 4])
  then obtain k where k: "(if n > 0 then next_capacity n else Done 16) = Done (2 ^ k)" "4 \<le> k" "k \<le> 30" "n \<le> 2 ^ k"
    by blast
  have "16 \<le> (2::nat) ^ k" "(2::nat) ^ k \<le> 2 ^ 30"
    using power_increasing [OF k(2), of "2::nat"] power_increasing [OF k(3), of "2::nat"] by simp_all
  with k(1,4) show ?thesis using that by blast
qed

lemma load_room:
  assumes "\<not> over_load_factor count capacity" and "16 \<le> capacity"
  shows "count + 1 < capacity"
  using assms by (auto simp: over_load_factor_def not_less)

end
