(* ===== verification/KeyValueStore.thy ===== *)
theory KeyValueStore
  imports NmoPrelude
begin

text \<open>
  The contract of the containers that map keys to values (\<^verbatim>\<open>nmo_hash_table\<close>, \<^verbatim>\<open>nmo_indexed_map\<close>) and what
  their clients may conclude from it. The containers answer only while they have room: \<open>room\<close> is the
  number of further insertions that are sure to end.
\<close>

datatype ('k, 'v) store_op = Put 'k 'v | Delete 'k | Lookup 'k

datatype 'v store_result = Stored bool | Deleted bool | Found "'v option"

text \<open>What an operation may answer on a finite map, and the map afterwards: a refused insertion changes nothing.\<close>

fun answers :: "('k, 'v) store_op \<Rightarrow> ('k \<rightharpoonup> 'v) \<Rightarrow> 'v store_result \<Rightarrow> ('k \<rightharpoonup> 'v) \<Rightarrow> bool" where
  "answers (Put k v) m (Stored True) m' \<longleftrightarrow> m' = m(k \<mapsto> v)"
| "answers (Put k v) m (Stored False) m' \<longleftrightarrow> m' = m"
| "answers (Delete k) m (Deleted d) m' \<longleftrightarrow> d = (m k \<noteq> None) \<and> m' = m(k := None)"
| "answers (Lookup k) m (Found v) m' \<longleftrightarrow> v = m k \<and> m' = m"
| "answers _ m _ m' \<longleftrightarrow> False"

inductive conforms :: "('k, 'v) store_op list \<Rightarrow> ('k \<rightharpoonup> 'v) \<Rightarrow> 'v store_result list \<Rightarrow> ('k \<rightharpoonup> 'v) \<Rightarrow> bool" where
  finished: "conforms [] m [] m"
| stepped: "answers op m r m' \<Longrightarrow> conforms ops m' rs m'' \<Longrightarrow> conforms (op # ops) m (r # rs) m''"

inductive_cases conforms_NilE: "conforms [] m rs m'"
inductive_cases conforms_ConsE: "conforms (op # ops) m rs m'"

text \<open>The operations run on a container, given its three calls.\<close>

fun store_step ::
  "('k \<Rightarrow> 'v \<Rightarrow> 's \<Rightarrow> (unit, 's) cres) \<Rightarrow> ('k \<Rightarrow> 's \<Rightarrow> (bool \<times> 's) eff) \<Rightarrow> ('k \<Rightarrow> 's \<Rightarrow> 'v option eff)
    \<Rightarrow> ('k, 'v) store_op \<Rightarrow> 's \<Rightarrow> ('v store_result \<times> 's) eff" where
  "store_step put del look (Put k v) s = bindE (put k v s) (\<lambda>(r, s). Done (Stored (r = Inr ()), s))"
| "store_step put del look (Delete k) s = bindE (del k s) (\<lambda>(d, s). Done (Deleted d, s))"
| "store_step put del look (Lookup k) s = bindE (look k s) (\<lambda>v. Done (Found v, s))"

fun run_store ::
  "('k \<Rightarrow> 'v \<Rightarrow> 's \<Rightarrow> (unit, 's) cres) \<Rightarrow> ('k \<Rightarrow> 's \<Rightarrow> (bool \<times> 's) eff) \<Rightarrow> ('k \<Rightarrow> 's \<Rightarrow> 'v option eff)
    \<Rightarrow> ('k, 'v) store_op list \<Rightarrow> 's \<Rightarrow> ('v store_result list \<times> 's) eff" where
  "run_store put del look [] s = Done ([], s)"
| "run_store put del look (op # ops) s =
     bindE (store_step put del look op s) (\<lambda>(r, s).
       bindE (run_store put del look ops s) (\<lambda>(rs, s). Done (r # rs, s)))"

lemma run_store_append:
  "run_store put del look (xs @ ys) s = bindE (run_store put del look xs s) (\<lambda>(rs, s).
     bindE (run_store put del look ys s) (\<lambda>(qs, s). Done (rs @ qs, s)))"
  by (induction xs arbitrary: s)
    (auto simp: bindE_def split: eff.splits prod.splits)

locale kv_store =
  fixes inv :: "'s \<Rightarrow> bool" and abs_map :: "'s \<Rightarrow> 'k \<rightharpoonup> 'v" and room :: "'s \<Rightarrow> nat"
    and put :: "'k \<Rightarrow> 'v \<Rightarrow> 's \<Rightarrow> (unit, 's) cres" and del :: "'k \<Rightarrow> 's \<Rightarrow> (bool \<times> 's) eff"
    and look :: "'k \<Rightarrow> 's \<Rightarrow> 'v option eff"
  assumes put_law: "inv s \<Longrightarrow> 0 < room s \<Longrightarrow> \<exists>r s'. put k v s = Done (r, s') \<and> inv s' \<and> room s \<le> Suc (room s')
      \<and> (r = Inr () \<and> abs_map s' = (abs_map s)(k \<mapsto> v) \<or> r = Inl NMO_ERR_NOMEM \<and> abs_map s' = abs_map s)"
    and del_law: "inv s \<Longrightarrow> 0 < room s \<Longrightarrow> \<exists>s'. del k s = Done (abs_map s k \<noteq> None, s') \<and> inv s'
      \<and> room s \<le> room s' \<and> abs_map s' = (abs_map s)(k := None)"
    and look_law: "inv s \<Longrightarrow> 0 < room s \<Longrightarrow> look k s = Done (abs_map s k)"
begin

lemma store_step_ok:
  assumes "inv s" and "0 < room s"
  shows "\<exists>r s'. store_step put del look op s = Done (r, s') \<and> inv s' \<and> room s \<le> Suc (room s')
    \<and> answers op (abs_map s) r (abs_map s')"
proof (cases op)
  case (Put k v)
  with put_law [OF assms, of k v] show ?thesis by fastforce
next
  case (Delete k)
  with del_law [OF assms, of k] show ?thesis by fastforce
next
  case (Lookup k)
  with look_law [OF assms, of k] assms(1) show ?thesis by simp
qed

lemma run_store_ok:
  assumes "inv s" and "length ops \<le> room s"
  shows "\<exists>rs s'. run_store put del look ops s = Done (rs, s') \<and> inv s'
    \<and> conforms ops (abs_map s) rs (abs_map s')"
  using assms
proof (induction ops arbitrary: s)
  case Nil
  then show ?case by (auto intro: conforms.finished)
next
  case (Cons op ops)
  then obtain r s1 where s1: "store_step put del look op s = Done (r, s1)" "inv s1" "room s \<le> Suc (room s1)"
    "answers op (abs_map s) r (abs_map s1)"
    using store_step_ok [of s op] by auto
  from Cons.prems(2) s1(3) have "length ops \<le> room s1" by simp
  from Cons.IH [OF s1(2) this] s1 show ?case by (auto intro: conforms.stepped)
qed

end

end
