(* ===== verification/HashTable.thy ===== *)
theory HashTable
  imports OpenAddressing KeyValueStore
begin

text \<open>
  The hash table of \<^verbatim>\<open>src/core/hash_table.c\<close>. Keys and values are what the blocks of \<^verbatim>\<open>key_size\<close> and
  \<^verbatim>\<open>value_size\<close> bytes stand for; the hash and compare callbacks are fields, as in the structure, and
  a NULL callback is the default one. The allocator is a parameter as for the arena: \<open>ht_alloc k n\<close>
  says whether its \<open>k\<close>-th call returns a block of \<open>n\<close> bytes. The dispose callbacks belong to the
  application; the table only calls them, so it keeps the list of the calls it made.
\<close>

section \<open>State\<close>

record ('k, 'v) hash_table =
  ht_alloc :: "nat \<Rightarrow> nat \<Rightarrow> bool"
  ht_calls :: nat
  ht_key_size :: nat
  ht_value_size :: nat
  ht_capacity :: nat
  ht_count :: nat
  ht_slots :: "('k \<times> 'v) hash_slot list"
  ht_hash_func :: "'k \<Rightarrow> nat"
  ht_compare_func :: "'k \<Rightarrow> 'k \<Rightarrow> int"
  ht_key_dispose :: bool
  ht_value_dispose :: bool
  ht_disposed :: "('k + 'v) list"

definition sizeof_hash_table :: nat where
  "sizeof_hash_table = 128"

section \<open>Storage\<close>

text \<open>The three blocks are asked for in turn, also after one was refused.\<close>

definition nmo_hash_table_allocate_storage ::
  "nat \<Rightarrow> ('k, 'v) hash_table \<Rightarrow> (unit, ('k, 'v) hash_table) cres" where
  "nmo_hash_table_allocate_storage capacity t =
     (if capacity = 0 then fail NMO_ERR_INVALID_ARGUMENT t
      else if ht_key_size t \<noteq> 0 \<and> capacity > (2 ^ 64 - 1) div ht_key_size t then fail NMO_ERR_NOMEM t
      else if ht_value_size t \<noteq> 0 \<and> capacity > (2 ^ 64 - 1) div ht_value_size t then fail NMO_ERR_NOMEM t
      else
        let k = ht_calls t; t' = t\<lparr>ht_calls := k + 3\<rparr>
        in if ht_alloc t k capacity \<and> ht_alloc t (k + 1) (capacity * ht_key_size t)
              \<and> ht_alloc t (k + 2) (capacity * ht_value_size t)
           then ok () (t'\<lparr>ht_slots := replicate capacity EMPTY, ht_capacity := capacity, ht_count := 0\<rparr>)
           else fail NMO_ERR_NOMEM t')"

text \<open>\<^verbatim>\<open>(int) index\<close>.\<close>

definition slot_int :: "nat \<Rightarrow> int" where
  "slot_int i = sint (word_of_nat i :: u32)"

definition nmo_hash_table_find_slot :: "'k \<Rightarrow> ('k, 'v) hash_table \<Rightarrow> (bool \<times> int) eff" where
  "nmo_hash_table_find_slot key t =
     (case probe (\<lambda>e. ht_compare_func t (fst e) key = 0) (ht_slots t)
             (ht_hash_func t key AND (ht_capacity t - 1)) None of
        None \<Rightarrow> Diverges
      | Some (found, index) \<Rightarrow> Done (found, slot_int index))"

definition nmo_hash_table_place_entry ::
  "'k \<times> 'v \<Rightarrow> ('k, 'v) hash_table \<Rightarrow> ('k, 'v) hash_table eff" where
  "nmo_hash_table_place_entry e t =
     bindE (nmo_hash_table_find_slot (fst e) t) (\<lambda>(found, slot).
       if slot < 0 then Done t
       else Done (t\<lparr>ht_slots := (ht_slots t)[nat slot := OCCUPIED e], ht_count := sz_add (ht_count t) 1\<rparr>))"

text \<open>The loop over the old slots: the occupied ones are placed in turn.\<close>

fun place_all :: "('k \<times> 'v) list \<Rightarrow> ('k, 'v) hash_table \<Rightarrow> ('k, 'v) hash_table eff" where
  "place_all [] t = Done t"
| "place_all (e # es) t = bindE (nmo_hash_table_place_entry e t) (place_all es)"

definition nmo_hash_table_rehash ::
  "nat \<Rightarrow> ('k, 'v) hash_table \<Rightarrow> (unit, ('k, 'v) hash_table) cres" where
  "nmo_hash_table_rehash new_capacity t =
     bindR (nmo_hash_table_allocate_storage new_capacity t) (\<lambda>_ t'.
       bindE (place_all (contents (ht_slots t)) (t'\<lparr>ht_count := 0\<rparr>)) (ok ()))"

definition nmo_hash_table_should_grow :: "('k, 'v) hash_table \<Rightarrow> bool" where
  "nmo_hash_table_should_grow t \<longleftrightarrow> over_load_factor (ht_count t) (ht_capacity t)"

section \<open>Operations\<close>

definition nmo_hash_table_dispose_value :: "'v \<Rightarrow> ('k, 'v) hash_table \<Rightarrow> ('k, 'v) hash_table" where
  "nmo_hash_table_dispose_value v t =
     (if ht_value_dispose t then t\<lparr>ht_disposed := ht_disposed t @ [Inr v]\<rparr> else t)"

definition nmo_hash_table_dispose_entry :: "'k \<times> 'v \<Rightarrow> ('k, 'v) hash_table \<Rightarrow> ('k, 'v) hash_table" where
  "nmo_hash_table_dispose_entry e t =
     (let t = nmo_hash_table_dispose_value (snd e) t
      in if ht_key_dispose t then t\<lparr>ht_disposed := ht_disposed t @ [Inl (fst e)]\<rparr> else t)"

text \<open>Creation; \<open>None\<close> is NULL. Call 0 of the allocator is for the structure.\<close>

definition nmo_hash_table_create ::
  "(nat \<Rightarrow> nat \<Rightarrow> bool) \<Rightarrow> nat \<Rightarrow> nat \<Rightarrow> nat \<Rightarrow> ('k \<Rightarrow> nat) \<Rightarrow> ('k \<Rightarrow> 'k \<Rightarrow> int)
    \<Rightarrow> ('k, 'v) hash_table option eff" where
  "nmo_hash_table_create alloc key_size value_size initial_capacity hash_func compare_func =
     (if key_size = 0 \<or> value_size = 0 then Done None
      else if \<not> alloc 0 sizeof_hash_table then Done None
      else
        let t = \<lparr>ht_alloc = alloc, ht_calls = 1, ht_key_size = key_size, ht_value_size = value_size,
                 ht_capacity = 0, ht_count = 0, ht_slots = [], ht_hash_func = hash_func,
                 ht_compare_func = compare_func, ht_key_dispose = False, ht_value_dispose = False,
                 ht_disposed = []\<rparr>
        in bindE (if initial_capacity > 0 then next_capacity initial_capacity else Done 16) (\<lambda>capacity.
             if capacity = 0 then Done None
             else bindE (nmo_hash_table_allocate_storage capacity t) (\<lambda>(x, t). case x of
               Inl _ \<Rightarrow> Done None
             | Inr _ \<Rightarrow> Done (Some t))))"

text \<open>A lifecycle is the presence of its callback.\<close>

definition nmo_hash_table_set_lifecycle ::
  "bool option \<Rightarrow> bool option \<Rightarrow> ('k, 'v) hash_table \<Rightarrow> ('k, 'v) hash_table" where
  "nmo_hash_table_set_lifecycle key_lifecycle value_lifecycle t =
     t\<lparr>ht_key_dispose := (case key_lifecycle of Some d \<Rightarrow> d | None \<Rightarrow> False),
       ht_value_dispose := (case value_lifecycle of Some d \<Rightarrow> d | None \<Rightarrow> False)\<rparr>"

definition nmo_hash_table_insert ::
  "'k \<Rightarrow> 'v \<Rightarrow> ('k, 'v) hash_table \<Rightarrow> (unit, ('k, 'v) hash_table) cres" where
  "nmo_hash_table_insert key v t =
     bindR (if ht_capacity t = 0 then bindE (next_capacity 16) (\<lambda>n. nmo_hash_table_rehash n t) else ok () t) (\<lambda>_ t.
     bindR (if nmo_hash_table_should_grow t then
              let new_capacity = sz_mul (ht_capacity t) 2
              in if new_capacity = 0 \<or> new_capacity \<le> ht_capacity t then fail NMO_ERR_NOMEM t
                 else nmo_hash_table_rehash new_capacity t
            else ok () t) (\<lambda>_ t.
     bindE (nmo_hash_table_find_slot key t) (\<lambda>(found, slot).
       if slot < 0 then fail NMO_ERR_INVALID_STATE t
       else case (found, ht_slots t ! nat slot) of
         (True, OCCUPIED e) \<Rightarrow>
           let t = nmo_hash_table_dispose_value (snd e) t
           in ok () (t\<lparr>ht_slots := (ht_slots t)[nat slot := OCCUPIED (fst e, v)]\<rparr>)
       | _ \<Rightarrow> ok () (t\<lparr>ht_slots := (ht_slots t)[nat slot := OCCUPIED (key, v)],
                      ht_count := sz_add (ht_count t) 1\<rparr>))))"

text \<open>The value stored through \<^verbatim>\<open>value_out\<close>, \<open>None\<close> when the call returns 0.\<close>

definition nmo_hash_table_get :: "'k \<Rightarrow> ('k, 'v) hash_table \<Rightarrow> 'v option eff" where
  "nmo_hash_table_get key t =
     bindE (nmo_hash_table_find_slot key t) (\<lambda>(found, slot).
       if slot < 0 \<or> \<not> found then Done None
       else Done (map_option snd (occupant (ht_slots t ! nat slot))))"

definition nmo_hash_table_remove :: "'k \<Rightarrow> ('k, 'v) hash_table \<Rightarrow> (bool \<times> ('k, 'v) hash_table) eff" where
  "nmo_hash_table_remove key t =
     bindE (nmo_hash_table_find_slot key t) (\<lambda>(found, slot).
       if slot < 0 \<or> \<not> found then Done (False, t)
       else
         let t = (case ht_slots t ! nat slot of
                    OCCUPIED e \<Rightarrow> nmo_hash_table_dispose_entry e t
                  | _ \<Rightarrow> t)
         in Done (True, t\<lparr>ht_slots := (ht_slots t)[nat slot := TOMBSTONE], ht_count := ht_count t - 1\<rparr>))"

definition nmo_hash_table_contains :: "'k \<Rightarrow> ('k, 'v) hash_table \<Rightarrow> bool eff" where
  "nmo_hash_table_contains key t = bindE (nmo_hash_table_get key t) (\<lambda>v. Done (v \<noteq> None))"

definition nmo_hash_table_get_count :: "('k, 'v) hash_table \<Rightarrow> nat" where
  "nmo_hash_table_get_count t = ht_count t"

definition nmo_hash_table_get_capacity :: "('k, 'v) hash_table \<Rightarrow> nat" where
  "nmo_hash_table_get_capacity t = ht_capacity t"

definition nmo_hash_table_reserve ::
  "nat \<Rightarrow> ('k, 'v) hash_table \<Rightarrow> (unit, ('k, 'v) hash_table) cres" where
  "nmo_hash_table_reserve capacity t =
     (if capacity \<le> ht_capacity t then ok () t
      else bindE (next_capacity capacity) (\<lambda>target.
        if target = 0 then fail NMO_ERR_NOMEM t else nmo_hash_table_rehash target t))"

definition nmo_hash_table_clear :: "('k, 'v) hash_table \<Rightarrow> ('k, 'v) hash_table" where
  "nmo_hash_table_clear t =
     (if ht_slots t = [] then t
      else (fold nmo_hash_table_dispose_entry (contents (ht_slots t)) t)
             \<lparr>ht_slots := replicate (ht_capacity t) EMPTY, ht_count := 0\<rparr>)"

text \<open>Destruction: what is left is the list of the callbacks made.\<close>

definition nmo_hash_table_destroy :: "('k, 'v) hash_table \<Rightarrow> ('k + 'v) list" where
  "nmo_hash_table_destroy t = ht_disposed (nmo_hash_table_clear t)"

text \<open>The visitor gets a pointer to the value, so it may change it; it stops the loop with \<open>False\<close>.\<close>

fun iterate_slots ::
  "('k \<Rightarrow> 'v \<Rightarrow> 'u \<Rightarrow> bool \<times> 'v \<times> 'u) \<Rightarrow> ('k \<times> 'v) hash_slot list \<Rightarrow> 'u
    \<Rightarrow> ('k \<times> 'v) hash_slot list \<times> 'u" where
  "iterate_slots func [] u = ([], u)"
| "iterate_slots func (OCCUPIED (k, v) # ss) u =
     (case func k v u of (continue, v, u) \<Rightarrow>
        if continue then let (ss, u) = iterate_slots func ss u in (OCCUPIED (k, v) # ss, u)
        else (OCCUPIED (k, v) # ss, u))"
| "iterate_slots func (s # ss) u = (let (ss, u) = iterate_slots func ss u in (s # ss, u))"

definition nmo_hash_table_iterate ::
  "('k \<Rightarrow> 'v \<Rightarrow> 'u \<Rightarrow> bool \<times> 'v \<times> 'u) \<Rightarrow> ('k, 'v) hash_table \<Rightarrow> 'u \<Rightarrow> ('k, 'v) hash_table \<times> 'u" where
  "nmo_hash_table_iterate func t u =
     (let (ss, u) = iterate_slots func (ht_slots t) u in (t\<lparr>ht_slots := ss\<rparr>, u))"

section \<open>Invariant and abstraction\<close>

definition ht_wf :: "('k, 'v) hash_table \<Rightarrow> bool" where
  "ht_wf t \<longleftrightarrow> slots_wf fst (ht_hash_func t) (ht_slots t) \<and> ht_capacity t = length (ht_slots t)
     \<and> 16 \<le> ht_capacity t \<and> ht_capacity t \<le> 2 ^ 31 \<and> ht_count t = length (contents (ht_slots t))
     \<and> (\<forall>x y. ht_compare_func t x y = 0 \<longleftrightarrow> x = y)"

definition ht_map :: "('k, 'v) hash_table \<Rightarrow> 'k \<rightharpoonup> 'v" where
  "ht_map t x = map_option snd (entry_of fst (ht_slots t) x)"

text \<open>The insertions left: every one can use up an empty slot, and slot numbers are \<^verbatim>\<open>int\<close>s.\<close>

definition ht_room :: "('k, 'v) hash_table \<Rightarrow> nat" where
  "ht_room t = min (free_slots (ht_slots t)) (2 ^ 30 - ht_count t)"

lemma slot_int_small: "i < 2 ^ 31 \<Longrightarrow> slot_int i = int i"
  unfolding slot_int_def
  by (simp add: signed_of_nat signed_take_bit_int_eq_self)

lemma index_of_hash:
  assumes "slots_wf key hash ss"
  shows "hash x AND (length ss - 1) = hash x mod length ss"
proof -
  obtain k where "length ss = 2 ^ k" using assms by (auto simp: slots_wf_def)
  then show ?thesis by (simp only: and_mask_mod)
qed

lemma find_slot_eq:
  assumes "slots_wf fst (ht_hash_func t) (ht_slots t)" and "ht_capacity t = length (ht_slots t)"
    and "\<forall>x y. ht_compare_func t x y = 0 \<longleftrightarrow> x = y"
  shows "nmo_hash_table_find_slot x t = (case find_key fst (ht_hash_func t) x (ht_slots t) of
      None \<Rightarrow> Diverges | Some (found, i) \<Rightarrow> Done (found, slot_int i))"
  unfolding nmo_hash_table_find_slot_def using assms(2,3) index_of_hash [OF assms(1), of x] by simp

section \<open>Rehashing\<close>

lemma distinct_contents:
  assumes "slots_wf key hash ss"
  shows "distinct (map key (contents ss))"
proof -
  have "(\<And>i j a b. i < length ss \<Longrightarrow> j < length ss \<Longrightarrow> ss ! i = OCCUPIED a \<Longrightarrow> ss ! j = OCCUPIED b \<Longrightarrow>
      key a = key b \<Longrightarrow> i = j) \<Longrightarrow> distinct (map key (contents ss))"
  proof (induction ss)
    case (Cons s ss)
    have "distinct (map key (contents ss))"
      by (rule Cons.IH) (metis Cons.prems Suc_less_eq length_Cons nat.inject nth_Cons_Suc)
    moreover have "key a \<notin> key ` set (contents ss)" if "s = OCCUPIED a" for a
    proof
      assume "key a \<in> key ` set (contents ss)"
      then obtain i b where "i < length ss" "ss ! i = OCCUPIED b" "key a = key b"
        by (auto simp: set_contents)
      with Cons.prems [of 0 "Suc i" a b] that show False by simp
    qed
    ultimately show ?case by (cases s) (auto simp: contents_def map_filter_simps)
  qed (simp add: contents_def map_filter_simps)
  then show ?thesis using assms unfolding slots_wf_def by blast
qed

lemma find_Cons_map_add:
  assumes "fst e \<notin> fst ` set es"
  shows "m(fst e \<mapsto> e) ++ (\<lambda>x. List.find (\<lambda>d. fst d = x) es) = m ++ (\<lambda>x. List.find (\<lambda>d. fst d = x) (e # es))"
proof
  fix x
  have "List.find (\<lambda>d. fst d = fst e) es = None"
    unfolding find_None_iff using assms by (metis imageI)
  then show "(m(fst e \<mapsto> e) ++ (\<lambda>x. List.find (\<lambda>d. fst d = x) es)) x
      = (m ++ (\<lambda>x. List.find (\<lambda>d. fst d = x) (e # es))) x"
    by (cases "x = fst e") (auto simp: map_add_def split: option.split)
qed

lemma place_all_ok:
  assumes "slots_wf fst (ht_hash_func t) (ht_slots t)" and "ht_capacity t = length (ht_slots t)"
    and "\<forall>x y. ht_compare_func t x y = 0 \<longleftrightarrow> x = y" and "ht_capacity t \<le> 2 ^ 31"
    and "length es < free_slots (ht_slots t)" and "distinct (map fst es)"
    and "\<forall>e\<in>set es. entry_of fst (ht_slots t) (fst e) = None" and "ht_count t + length es < 2 ^ 64"
  shows "\<exists>ss. place_all es t = Done (t\<lparr>ht_slots := ss, ht_count := ht_count t + length es\<rparr>)
     \<and> length ss = length (ht_slots t) \<and> slots_wf fst (ht_hash_func t) ss
     \<and> length (contents ss) = length (contents (ht_slots t)) + length es
     \<and> free_slots (ht_slots t) \<le> free_slots ss + length es
     \<and> entry_of fst ss = entry_of fst (ht_slots t) ++ (\<lambda>x. List.find (\<lambda>e. fst e = x) es)"
  using assms
proof (induction es arbitrary: t)
  case (Cons e es)
  let ?ss = "ht_slots t"
  have "0 < free_slots ?ss" "entry_of fst ?ss (fst e) = None" using Cons.prems by simp_all
  from put_at_found [OF Cons.prems(1) this] obtain i where i: "i < length ?ss"
    "find_key fst (ht_hash_func t) (fst e) ?ss = Some (False, i)"
    "slots_wf fst (ht_hash_func t) (?ss[i := OCCUPIED e])"
    "entry_of fst (?ss[i := OCCUPIED e]) = (entry_of fst ?ss)(fst e \<mapsto> e)"
    "length (contents (?ss[i := OCCUPIED e])) = Suc (length (contents ?ss))"
    "free_slots ?ss \<le> Suc (free_slots (?ss[i := OCCUPIED e]))" by blast
  have int: "slot_int i = int i" using i(1) Cons.prems(2,4) by (intro slot_int_small) simp
  let ?t = "t\<lparr>ht_slots := ?ss[i := OCCUPIED e], ht_count := Suc (ht_count t)\<rparr>"
  have "nmo_hash_table_place_entry e t = Done ?t"
    unfolding nmo_hash_table_place_entry_def find_slot_eq [OF Cons.prems(1-3)] i(2)
    using int Cons.prems(8) by (simp add: sz_add_small)
  moreover have "\<forall>d\<in>set es. entry_of fst (ht_slots ?t) (fst d) = None"
  proof
    fix d assume "d \<in> set es"
    with Cons.prems(6) have "fst d \<noteq> fst e" by (metis distinct.simps(2) image_eqI list.set_map list.simps(9))
    with \<open>d \<in> set es\<close> Cons.prems(7) i(4) show "entry_of fst (ht_slots ?t) (fst d) = None" by simp
  qed
  with Cons.IH [of ?t] Cons.prems i(1-3,5,6) obtain ss where
    "place_all es ?t = Done (t\<lparr>ht_slots := ss, ht_count := Suc (ht_count t) + length es\<rparr>)"
    "length ss = length ?ss" "slots_wf fst (ht_hash_func t) ss"
    "length (contents ss) = Suc (length (contents ?ss)) + length es"
    "free_slots (?ss[i := OCCUPIED e]) \<le> free_slots ss + length es"
    "entry_of fst ss = entry_of fst (?ss[i := OCCUPIED e]) ++ (\<lambda>x. List.find (\<lambda>e. fst e = x) es)"
    by auto
  ultimately show ?case using i(4,6) Cons.prems(6) find_Cons_map_add [of e es "entry_of fst ?ss"]
    by (intro exI [of _ ss]) simp
next
  case Nil
  then show ?case by (intro exI [of _ "ht_slots t"]) (simp add: map_add_def)
qed

text \<open>A table that differs only in what it asked the allocator for and the calls it made.\<close>

definition ht_same :: "('k, 'v) hash_table \<Rightarrow> ('k, 'v) hash_table \<Rightarrow> bool" where
  "ht_same t t' \<longleftrightarrow> ht_wf t' \<and> ht_map t' = ht_map t \<and> ht_count t' = ht_count t
     \<and> ht_hash_func t' = ht_hash_func t \<and> ht_value_dispose t' = ht_value_dispose t
     \<and> ht_key_dispose t' = ht_key_dispose t \<and> ht_disposed t' = ht_disposed t"

lemma ht_wf_calls [simp]: "ht_wf (t\<lparr>ht_calls := k\<rparr>) = ht_wf t" "ht_map (t\<lparr>ht_calls := k\<rparr>) = ht_map t"
  by (simp_all add: ht_wf_def ht_map_def fun_eq_iff)

lemma rehash_ok:
  assumes wf: "ht_wf t" and n: "n = 2 ^ k" "16 \<le> n" "n \<le> 2 ^ 31" "ht_count t < n"
  shows "\<exists>t'. ht_same t t' \<and> (nmo_hash_table_rehash n t = fail NMO_ERR_NOMEM t' \<and> ht_slots t' = ht_slots t
        \<and> ht_capacity t' = ht_capacity t
      \<or> nmo_hash_table_rehash n t = ok () t' \<and> ht_capacity t' = n \<and> n \<le> free_slots (ht_slots t') + ht_count t)"
proof -
  note w = wf [unfolded ht_wf_def]
  have "n \<noteq> 0" using n(2) by simp
  let ?k = "ht_calls t" and ?es = "contents (ht_slots t)"
  let ?t = "t\<lparr>ht_calls := ?k + 3\<rparr>"
  consider (nomem) t' where "nmo_hash_table_allocate_storage n t = fail NMO_ERR_NOMEM t'" "t' = t \<or> t' = ?t"
    | (ok) "nmo_hash_table_allocate_storage n t =
        ok () (?t\<lparr>ht_slots := replicate n EMPTY, ht_capacity := n, ht_count := 0\<rparr>)"
    unfolding nmo_hash_table_allocate_storage_def Let_def using \<open>n \<noteq> 0\<close> by presburger
  then show ?thesis
  proof cases
    case nomem
    then show ?thesis using wf
      by (intro exI [of _ t']) (auto simp: nmo_hash_table_rehash_def ht_same_def)
  next
    case ok
    let ?t' = "?t\<lparr>ht_slots := replicate n EMPTY, ht_capacity := n, ht_count := 0\<rparr>"
    have "\<forall>e\<in>set ?es. entry_of fst (ht_slots ?t') (fst e) = None" by (simp add: entry_of_def)
    with place_all_ok [of ?t' ?es] w n slots_wf_fresh [of fst "ht_hash_func t" k] distinct_contents [of fst "ht_hash_func t" "ht_slots t"]
    obtain ss where ss: "place_all ?es ?t' = Done (?t'\<lparr>ht_slots := ss, ht_count := length ?es\<rparr>)"
      "length ss = n" "slots_wf fst (ht_hash_func t) ss" "length (contents ss) = length ?es"
      "n \<le> free_slots ss + length ?es"
      "entry_of fst ss = Map.empty ++ (\<lambda>x. List.find (\<lambda>e. fst e = x) ?es)"
      by auto
    have "entry_of fst ss = entry_of fst (ht_slots t)" unfolding ss(6) by (simp add: entry_of_def fun_eq_iff)
    with ok ss w n show ?thesis
      by (intro exI [of _ "?t'\<lparr>ht_slots := ss, ht_count := length ?es\<rparr>"])
        (simp add: nmo_hash_table_rehash_def ht_same_def ht_wf_def ht_map_def fun_eq_iff)
  qed
qed

section \<open>The table as a map\<close>

lemma overload_capacity:
  assumes "over_load_factor count (2 ^ k)" and "count < 2 ^ 30"
  shows "k \<le> 30"
proof (rule ccontr)
  assume "\<not> k \<le> 30"
  then have "(2::nat) ^ 31 \<le> 2 ^ k" by (intro power_increasing) auto
  then have "2 ^ 31 * 6305039478318694 \<le> 2 ^ k * (6305039478318694 :: nat)" by (rule mult_le_mono1)
  moreover have "(count + 1) * 2 ^ 53 \<le> 2 ^ 30 * (2 ^ 53 :: nat)" using assms(2) by (intro mult_le_mono1) simp
  ultimately show False using assms(1) by (simp add: over_load_factor_def)
qed

text \<open>Growing before an insertion.\<close>

definition grow_for_insert :: "('k, 'v) hash_table \<Rightarrow> (unit, ('k, 'v) hash_table) cres" where
  "grow_for_insert t =
     (if nmo_hash_table_should_grow t then
        let new_capacity = sz_mul (ht_capacity t) 2
        in if new_capacity = 0 \<or> new_capacity \<le> ht_capacity t then fail NMO_ERR_NOMEM t
           else nmo_hash_table_rehash new_capacity t
      else ok () t)"

lemma grow_ok:
  assumes wf: "ht_wf t" and room: "0 < ht_room t"
  shows "\<exists>t'. ht_same t t' \<and> ht_room t \<le> ht_room t'
    \<and> (grow_for_insert t = fail NMO_ERR_NOMEM t' \<or> grow_for_insert t = ok () t')"
proof (cases "nmo_hash_table_should_grow t")
  case True
  note w = wf [unfolded ht_wf_def]
  obtain k where k: "ht_capacity t = 2 ^ k" using w by (auto simp: slots_wf_def)
  have "k \<le> 30" using True room k by (intro overload_capacity) (auto simp: nmo_hash_table_should_grow_def ht_room_def)
  then have n: "2 * (2::nat) ^ k \<le> 2 ^ 31" using power_increasing [of "Suc k" 31 "2::nat"] by simp
  have c: "ht_count t + free_slots (ht_slots t) \<le> 2 ^ k" using w k contents_free [of "ht_slots t"] by simp
  have g: "grow_for_insert t = nmo_hash_table_rehash (2 * 2 ^ k) t"
    using True k n by (simp add: grow_for_insert_def sz_mul_small mult.commute)
  have "16 \<le> 2 * (2::nat) ^ k" using w k by simp
  moreover have "ht_count t < 2 * 2 ^ k" using c zero_less_power [of "2::nat" k] by linarith
  ultimately obtain t' where t': "ht_same t t'" "nmo_hash_table_rehash (2 * 2 ^ k) t = fail NMO_ERR_NOMEM t' \<and> ht_slots t' = ht_slots t
        \<and> ht_capacity t' = ht_capacity t
      \<or> nmo_hash_table_rehash (2 * 2 ^ k) t = ok () t' \<and> ht_capacity t' = 2 * 2 ^ k \<and> 2 * 2 ^ k \<le> free_slots (ht_slots t') + ht_count t"
    using rehash_ok [OF wf, of "2 * 2 ^ k" "Suc k"] n by auto
  have "free_slots (ht_slots t) \<le> free_slots (ht_slots t')" using t'(2) c by auto
  with t' have "ht_room t \<le> ht_room t'" by (auto simp: ht_room_def ht_same_def)
  with t' g show ?thesis by auto
next
  case False
  with wf show ?thesis by (intro exI [of _ t]) (simp add: grow_for_insert_def ht_same_def)
qed

lemma find_present:
  assumes wf: "ht_wf t" and "ht_map t x = Some v"
  obtains i y where "i < length (ht_slots t)" "ht_slots t ! i = OCCUPIED (x, v)"
    "nmo_hash_table_find_slot x t = Done (True, int i)"
proof -
  note w = wf [unfolded ht_wf_def]
  from assms(2) obtain e where e: "entry_of fst (ht_slots t) x = Some e" "snd e = v" by (auto simp: ht_map_def)
  from found_at [OF _ e(1)] w obtain i where i: "i < length (ht_slots t)" "ht_slots t ! i = OCCUPIED e" "fst e = x"
    "find_key fst (ht_hash_func t) x (ht_slots t) = Some (True, i)" by blast
  then have "slot_int i = int i" using w by (intro slot_int_small) linarith
  with i e(2) that [of i] find_slot_eq [of t x] w show ?thesis by auto
qed

lemma find_absent:
  assumes wf: "ht_wf t" and "ht_map t x = None" and "0 < free_slots (ht_slots t)"
  obtains i where "i < length (ht_slots t)" "nmo_hash_table_find_slot x t = Done (False, int i)"
    "\<And>v. ht_wf (t\<lparr>ht_slots := (ht_slots t)[i := OCCUPIED (x, v)], ht_count := Suc (ht_count t)\<rparr>)"
    "\<And>v. entry_of fst ((ht_slots t)[i := OCCUPIED (x, v)]) = (entry_of fst (ht_slots t))(x \<mapsto> (x, v))"
    "\<And>v. free_slots (ht_slots t) \<le> Suc (free_slots ((ht_slots t)[i := OCCUPIED (x, v)]))"
proof -
  note w = wf [unfolded ht_wf_def]
  let ?ss = "ht_slots t"
  from assms(2) have none: "entry_of fst ?ss x = None" by (simp add: ht_map_def)
  obtain e where e: "e < length ?ss" "?ss ! e = EMPTY" using assms(3) by (auto simp: free_slots_pos)
  have no: "\<forall>i<length ?ss. \<forall>a. ?ss ! i = OCCUPIED a \<longrightarrow> fst a \<noteq> x" using none by (simp add: entry_of_None)
  obtain i where i: "i < length ?ss" "find_key fst (ht_hash_func t) x ?ss = Some (False, i)"
    using find_key_absent [OF conjunct1 [OF w] no e] by blast
  have put: "slots_wf fst (ht_hash_func t) (?ss[i := OCCUPIED (x, v)])
     \<and> entry_of fst (?ss[i := OCCUPIED (x, v)]) = (entry_of fst ?ss)(x \<mapsto> (x, v))
     \<and> length (contents (?ss[i := OCCUPIED (x, v)])) = Suc (length (contents ?ss))
     \<and> free_slots ?ss \<le> Suc (free_slots (?ss[i := OCCUPIED (x, v)]))" for v
    using put_at_found [OF conjunct1 [OF w] assms(3), of "(x, v)"] none i(2) by auto
  have "slot_int i = int i" using i(1) w by (intro slot_int_small) linarith
  with i(2) find_slot_eq [of t x] w have "nmo_hash_table_find_slot x t = Done (False, int i)" by simp
  with i(1) put w show ?thesis by (intro that [of i]) (auto simp: ht_wf_def)
qed

lemma ht_room_free: "0 < ht_room t \<Longrightarrow> 0 < free_slots (ht_slots t)"
  by (simp add: ht_room_def)

lemma insert_grow:
  "ht_wf t \<Longrightarrow> nmo_hash_table_insert key v t = bindR (grow_for_insert t) (\<lambda>_ t.
     bindE (nmo_hash_table_find_slot key t) (\<lambda>(found, slot).
       if slot < 0 then fail NMO_ERR_INVALID_STATE t
       else case (found, ht_slots t ! nat slot) of
         (True, OCCUPIED e) \<Rightarrow>
           let t = nmo_hash_table_dispose_value (snd e) t
           in ok () (t\<lparr>ht_slots := (ht_slots t)[nat slot := OCCUPIED (fst e, v)]\<rparr>)
       | _ \<Rightarrow> ok () (t\<lparr>ht_slots := (ht_slots t)[nat slot := OCCUPIED (key, v)],
                      ht_count := sz_add (ht_count t) 1\<rparr>)))"
  by (auto simp: nmo_hash_table_insert_def grow_for_insert_def ht_wf_def)

lemma dispose_value_fields [simp]:
  "ht_slots (nmo_hash_table_dispose_value v t) = ht_slots t"
  "ht_count (nmo_hash_table_dispose_value v t) = ht_count t"
  "ht_wf (nmo_hash_table_dispose_value v t) = ht_wf t"
  "ht_capacity (nmo_hash_table_dispose_value v t) = ht_capacity t"
  "ht_hash_func (nmo_hash_table_dispose_value v t) = ht_hash_func t"
  "ht_compare_func (nmo_hash_table_dispose_value v t) = ht_compare_func t"
  by (simp_all add: nmo_hash_table_dispose_value_def ht_wf_def)

lemma dispose_entry_fields [simp]:
  "ht_slots (nmo_hash_table_dispose_entry e t) = ht_slots t"
  "ht_count (nmo_hash_table_dispose_entry e t) = ht_count t"
  "ht_wf (nmo_hash_table_dispose_entry e t) = ht_wf t"
  "ht_capacity (nmo_hash_table_dispose_entry e t) = ht_capacity t"
  "ht_hash_func (nmo_hash_table_dispose_entry e t) = ht_hash_func t"
  "ht_compare_func (nmo_hash_table_dispose_entry e t) = ht_compare_func t"
  by (simp_all add: nmo_hash_table_dispose_entry_def Let_def ht_wf_def)

lemma insert_law:
  assumes "ht_wf t" and "0 < ht_room t"
  shows "\<exists>r t'. nmo_hash_table_insert x v t = Done (r, t') \<and> ht_wf t' \<and> ht_room t \<le> Suc (ht_room t')
      \<and> (r = Inr () \<and> ht_map t' = (ht_map t)(x \<mapsto> v) \<or> r = Inl NMO_ERR_NOMEM \<and> ht_map t' = ht_map t)"
proof -
  from grow_ok [OF assms] obtain t1 where t1: "ht_same t t1" "ht_room t \<le> ht_room t1"
    "grow_for_insert t = fail NMO_ERR_NOMEM t1 \<or> grow_for_insert t = ok () t1" by blast
  show ?thesis
  proof (cases "grow_for_insert t = ok () t1")
    case False
    with t1 insert_grow [OF assms(1)] show ?thesis
      by (auto simp: ht_same_def fail_def)
  next
    case True
    have wf: "ht_wf t1" and m: "ht_map t1 = ht_map t" and room: "0 < ht_room t1"
      using t1 assms(2) by (auto simp: ht_same_def)
    note w = wf [unfolded ht_wf_def]
    show ?thesis
    proof (cases "ht_map t x")
      case None
      with m have "ht_map t1 x = None" by simp
      from find_absent [OF wf this ht_room_free [OF room]] obtain i where i: "i < length (ht_slots t1)"
        "nmo_hash_table_find_slot x t1 = Done (False, int i)"
        "ht_wf (t1\<lparr>ht_slots := (ht_slots t1)[i := OCCUPIED (x, v)], ht_count := Suc (ht_count t1)\<rparr>)"
        "entry_of fst ((ht_slots t1)[i := OCCUPIED (x, v)]) = (entry_of fst (ht_slots t1))(x \<mapsto> (x, v))"
        "free_slots (ht_slots t1) \<le> Suc (free_slots ((ht_slots t1)[i := OCCUPIED (x, v)]))" by metis
      have "sz_add (ht_count t1) 1 = Suc (ht_count t1)" using room by (simp add: ht_room_def sz_add_small)
      with True i m t1(2) insert_grow [OF assms(1), of x v] show ?thesis
        by (auto simp: ok_def ht_room_def ht_map_def fun_eq_iff)
    next
      case (Some u)
      with m have "ht_map t1 x = Some u" by simp
      from find_present [OF wf this] obtain i where i: "i < length (ht_slots t1)" "ht_slots t1 ! i = OCCUPIED (x, u)"
        "nmo_hash_table_find_slot x t1 = Done (True, int i)" by blast
      note r = replace_at [OF conjunct1 [OF w] i(1,2), of "(x, v)", simplified]
      have "ht_wf (t1\<lparr>ht_slots := (ht_slots t1)[i := OCCUPIED (x, v)]\<rparr>)"
        using w r by (simp add: ht_wf_def)
      then have "ht_wf ((nmo_hash_table_dispose_value u t1)\<lparr>ht_slots := (ht_slots t1)[i := OCCUPIED (x, v)]\<rparr>)"
        by (simp add: ht_wf_def)
      with True i r m t1(2) insert_grow [OF assms(1), of x v] show ?thesis
        by (auto simp: ok_def ht_room_def ht_map_def fun_eq_iff Let_def)
    qed
  qed
qed

lemma get_law:
  assumes "ht_wf t" and "0 < ht_room t"
  shows "nmo_hash_table_get x t = Done (ht_map t x)"
proof (cases "ht_map t x")
  case None
  from find_absent [OF assms(1) None ht_room_free [OF assms(2)]] obtain i where
    "nmo_hash_table_find_slot x t = Done (False, int i)" by metis
  with None show ?thesis by (simp add: nmo_hash_table_get_def)
next
  case (Some v)
  from find_present [OF assms(1) Some] obtain i where
    "ht_slots t ! i = OCCUPIED (x, v)" "nmo_hash_table_find_slot x t = Done (True, int i)" by metis
  with Some show ?thesis by (simp add: nmo_hash_table_get_def)
qed

lemma remove_law:
  assumes "ht_wf t" and "0 < ht_room t"
  shows "\<exists>t'. nmo_hash_table_remove x t = Done (ht_map t x \<noteq> None, t') \<and> ht_wf t'
      \<and> ht_room t \<le> ht_room t' \<and> ht_map t' = (ht_map t)(x := None)"
proof (cases "ht_map t x")
  case None
  from find_absent [OF assms(1) None ht_room_free [OF assms(2)]] obtain i where
    "nmo_hash_table_find_slot x t = Done (False, int i)" by metis
  with None assms(1) show ?thesis by (auto simp: nmo_hash_table_remove_def)
next
  case (Some v)
  note w = assms(1) [unfolded ht_wf_def]
  from find_present [OF assms(1) Some] obtain i where i: "i < length (ht_slots t)"
    "ht_slots t ! i = OCCUPIED (x, v)" "nmo_hash_table_find_slot x t = Done (True, int i)" by metis
  note d = entry_of_delete [OF conjunct1 [OF w] i(1,2)]
  have c: "length (contents ((ht_slots t)[i := TOMBSTONE])) = ht_count t - 1"
    using length_contents_update [OF i(1), of TOMBSTONE] i(2) w by simp
  have f: "free_slots ((ht_slots t)[i := TOMBSTONE]) = free_slots (ht_slots t)"
    using i by (simp add: free_slots_update)
  let ?t' = "(nmo_hash_table_dispose_entry (x, v) t)\<lparr>ht_slots := (ht_slots t)[i := TOMBSTONE], ht_count := ht_count t - 1\<rparr>"
  have "nmo_hash_table_remove x t = Done (True, ?t')" using i by (simp add: nmo_hash_table_remove_def Let_def)
  moreover have "ht_wf ?t'" using w d(1) c by (simp add: ht_wf_def)
  moreover have "ht_room t \<le> ht_room ?t'" using f by (simp add: ht_room_def)
  moreover have "ht_map ?t' = (ht_map t)(x := None)" using d(2) by (simp add: ht_map_def fun_eq_iff)
  ultimately show ?thesis using Some by auto
qed

interpretation ht: kv_store ht_wf ht_map ht_room nmo_hash_table_insert nmo_hash_table_remove nmo_hash_table_get
  by unfold_locales (erule (1) insert_law remove_law get_law)+

section \<open>Properties\<close>

lemma created_table:
  assumes "nmo_hash_table_create alloc key_size value_size n hash cmp = Done (Some t)" and "n \<le> 2 ^ 30"
    and "\<forall>x y. cmp x y = 0 \<longleftrightarrow> x = y"
  shows "ht_wf t" and "ht_slots t = replicate (ht_capacity t) EMPTY" and "ht_room t = ht_capacity t"
    and "ht_hash_func t = hash" and "ht_compare_func t = cmp" and "n \<le> ht_capacity t"
    and "ht_count t = 0" and "\<exists>k. ht_capacity t = 2 ^ k" and "16 \<le> ht_capacity t" and "ht_capacity t \<le> 2 ^ 30"
proof -
  obtain k where k: "(if n > 0 then next_capacity n else Done 16) = Done (2 ^ k)" and b: "16 \<le> (2::nat) ^ k"
    "(2::nat) ^ k \<le> 2 ^ 30" "n \<le> 2 ^ k" by (rule initial_capacity [OF assms(2)])
  from assms(1) k b have t: "ht_slots t = replicate (2 ^ k) EMPTY" "ht_capacity t = 2 ^ k" "ht_count t = 0"
    "ht_hash_func t = hash" "ht_compare_func t = cmp"
    by (auto simp: nmo_hash_table_create_def nmo_hash_table_allocate_storage_def eff_simps Let_def split: if_splits)
  with b assms(3) show "ht_wf t" "ht_slots t = replicate (ht_capacity t) EMPTY" "ht_room t = ht_capacity t"
    "ht_hash_func t = hash" "ht_compare_func t = cmp" "n \<le> ht_capacity t" "ht_count t = 0"
    "\<exists>k. ht_capacity t = 2 ^ k" "16 \<le> ht_capacity t" "ht_capacity t \<le> 2 ^ 30"
    using slots_wf_fresh [of fst hash k] by (auto simp: ht_wf_def ht_room_def)
qed

text \<open>
  C12: a hash table answers any sequence of insertions, removals and look-ups, no longer than its
  capacity, as a finite map that starts empty; an insertion that the allocator refuses changes nothing.
\<close>

theorem hash_table_is_a_map:
  assumes "nmo_hash_table_create alloc key_size value_size n hash cmp = Done (Some t)" and "n \<le> 2 ^ 30"
    and "\<forall>x y. cmp x y = 0 \<longleftrightarrow> x = y" and "length ops \<le> nmo_hash_table_get_capacity t"
  shows "\<exists>rs t'. run_store nmo_hash_table_insert nmo_hash_table_remove nmo_hash_table_get ops t = Done (rs, t')
    \<and> conforms ops Map.empty rs (ht_map t')"
proof -
  note c = created_table [OF assms(1-3)]
  have "ht_map t = Map.empty" by (simp add: ht_map_def c(2) fun_eq_iff)
  with ht.run_store_ok [OF c(1), of ops] assms(4) c(3) show ?thesis
    by (auto simp: nmo_hash_table_get_capacity_def)
qed

theorem hash_table_is_a_map_witness:
  "\<exists>(t :: (nat, bool) hash_table) rs t'. nmo_hash_table_create (\<lambda>_ _. True) 4 8 0 (\<lambda>x. x) (\<lambda>x y :: nat. if x = y then 0 else 1) = Done (Some t)
    \<and> run_store nmo_hash_table_insert nmo_hash_table_remove nmo_hash_table_get
        [Put 3 True, Put 19 False, Delete 3, Lookup 19] t = Done (rs, t')
    \<and> conforms [Put 3 True, Put 19 False, Delete 3, Lookup 19] Map.empty rs (ht_map t')"
proof -
  obtain t :: "(nat, bool) hash_table" where t: "nmo_hash_table_create (\<lambda>_ _. True) 4 8 0 (\<lambda>x. x) (\<lambda>x y :: nat. if x = y then 0 else 1) = Done (Some t)"
    "ht_capacity t = 16"
    by (simp add: nmo_hash_table_create_def nmo_hash_table_allocate_storage_def eff_simps Let_def)
  with hash_table_is_a_map [OF t(1), of "[Put 3 True, Put 19 False, Delete 3, Lookup 19]"] show ?thesis
    by (auto simp: nmo_hash_table_get_capacity_def)
qed

text \<open>One insertion and removal of a key whose home slot is empty in a table without entries.\<close>

lemma churn_step:
  assumes "length (ht_slots t) = 2 ^ k" "ht_capacity t = 2 ^ k" "16 \<le> ht_capacity t" "ht_capacity t \<le> 2 ^ 31"
    and "ht_count t = 0" and "\<forall>x y. ht_compare_func t x y = 0 \<longleftrightarrow> x = y"
    and "ht_slots t ! (ht_hash_func t x mod 2 ^ k) = EMPTY"
  shows "\<exists>t'. run_store nmo_hash_table_insert nmo_hash_table_remove nmo_hash_table_get [Put x v, Delete x] t
      = Done ([Stored True, Deleted True], t')
    \<and> ht_slots t' = (ht_slots t)[ht_hash_func t x mod 2 ^ k := TOMBSTONE] \<and> ht_capacity t' = ht_capacity t
    \<and> ht_count t' = 0 \<and> ht_hash_func t' = ht_hash_func t \<and> ht_compare_func t' = ht_compare_func t"
proof -
  let ?i = "ht_hash_func t x mod 2 ^ k"
  have i: "?i < length (ht_slots t)" "slot_int ?i = int ?i"
  proof -
    have "?i < 2 ^ k" by simp
    with assms(1,2,4) show "?i < length (ht_slots t)" "slot_int ?i = int ?i"
      by (auto intro!: slot_int_small simp del: mod_less_divisor)
  qed
  have h: "ht_hash_func t x AND (ht_capacity t - 1) = ?i" unfolding assms(2) by (rule and_mask_mod)
  have "nmo_hash_table_find_slot x t = Done (False, int ?i)"
    unfolding nmo_hash_table_find_slot_def h by (subst probe.simps) (simp add: assms(7) i(2))
  moreover have "\<not> nmo_hash_table_should_grow t" using assms(3,5)
    by (simp add: nmo_hash_table_should_grow_def over_load_factor_def)
  ultimately have put: "nmo_hash_table_insert x v t = ok () (t\<lparr>ht_slots := (ht_slots t)[?i := OCCUPIED (x, v)], ht_count := 1\<rparr>)"
    (is "_ = ok () ?t1") using assms(3,5) by (simp add: nmo_hash_table_insert_def sz_add_def)
  have "nmo_hash_table_find_slot x ?t1 = Done (True, int ?i)"
    unfolding nmo_hash_table_find_slot_def using h i assms(6) by (subst probe.simps) simp
  then have "\<exists>t'. nmo_hash_table_remove x ?t1 = Done (True, t') \<and> ht_slots t' = (ht_slots t)[?i := TOMBSTONE]
    \<and> ht_capacity t' = ht_capacity t \<and> ht_count t' = 0 \<and> ht_hash_func t' = ht_hash_func t
    \<and> ht_compare_func t' = ht_compare_func t"
    using i by (simp add: nmo_hash_table_remove_def Let_def)
  with put show ?thesis by (auto simp: ok_def)
qed

lemma churn_run:
  assumes "length (ht_slots t) = 2 ^ k" "ht_capacity t = 2 ^ k" "16 \<le> ht_capacity t" "ht_capacity t \<le> 2 ^ 31"
    and "ht_count t = 0" and "\<forall>x y. ht_compare_func t x y = 0 \<longleftrightarrow> x = y"
    and "distinct (map (\<lambda>x. ht_hash_func t x mod 2 ^ k) xs)"
    and "\<forall>x\<in>set xs. ht_slots t ! (ht_hash_func t x mod 2 ^ k) = EMPTY"
  shows "\<exists>rs t'. run_store nmo_hash_table_insert nmo_hash_table_remove nmo_hash_table_get
      (concat (map (\<lambda>x. [Put x v, Delete x]) xs)) t = Done (rs, t')
    \<and> length (ht_slots t') = 2 ^ k \<and> ht_capacity t' = 2 ^ k \<and> ht_count t' = 0
    \<and> ht_hash_func t' = ht_hash_func t \<and> ht_compare_func t' = ht_compare_func t
    \<and> (\<forall>i<2 ^ k. ht_slots t' ! i = (if i \<in> (\<lambda>x. ht_hash_func t x mod 2 ^ k) ` set xs then TOMBSTONE else ht_slots t ! i))"
  using assms
proof (induction xs arbitrary: t)
  case (Cons x xs)
  let ?home = "\<lambda>x. ht_hash_func t x mod 2 ^ k"
  from Cons.prems(8) have "ht_slots t ! ?home x = EMPTY" by simp
  from churn_step [OF Cons.prems(1-6) this, of v] obtain t1 where
    t1: "run_store nmo_hash_table_insert nmo_hash_table_remove nmo_hash_table_get [Put x v, Delete x] t
      = Done ([Stored True, Deleted True], t1)"
    "ht_slots t1 = (ht_slots t)[?home x := TOMBSTONE]" "ht_capacity t1 = ht_capacity t"
    "ht_count t1 = 0" "ht_hash_func t1 = ht_hash_func t" "ht_compare_func t1 = ht_compare_func t" by blast
  have "\<forall>y\<in>set xs. ?home y \<noteq> ?home x" using Cons.prems(7) by (auto simp: image_iff)
  then have "\<forall>y\<in>set xs. ht_slots t1 ! (ht_hash_func t1 y mod 2 ^ k) = EMPTY"
    using Cons.prems(8) t1(2,5) by (metis list.set_intros(2) nth_list_update_neq)
  moreover have "distinct (map (\<lambda>x. ht_hash_func t1 x mod 2 ^ k) xs)" using Cons.prems(7) t1(5) by simp
  moreover have "length (ht_slots t1) = 2 ^ k" "ht_capacity t1 = 2 ^ k" "16 \<le> ht_capacity t1" "ht_capacity t1 \<le> 2 ^ 31"
    "ht_count t1 = 0" "\<forall>x y. ht_compare_func t1 x y = 0 \<longleftrightarrow> x = y"
    using Cons.prems(1-4,6) t1(2-4,6) by simp_all
  note IH = Cons.IH [OF this, unfolded t1(5,6)]
  ultimately obtain rs t2 where t2: "run_store nmo_hash_table_insert nmo_hash_table_remove nmo_hash_table_get
      (concat (map (\<lambda>x. [Put x v, Delete x]) xs)) t1 = Done (rs, t2)"
    "length (ht_slots t2) = 2 ^ k" "ht_capacity t2 = 2 ^ k" "ht_count t2 = 0"
    "ht_hash_func t2 = ht_hash_func t" "ht_compare_func t2 = ht_compare_func t"
    "\<forall>i<2 ^ k. ht_slots t2 ! i = (if i \<in> ?home ` set xs then TOMBSTONE else ht_slots t1 ! i)"
    using IH t1(5) by auto
  have "ht_slots t2 ! i = (if i \<in> ?home ` set (x # xs) then TOMBSTONE else ht_slots t ! i)" if "i < 2 ^ k" for i
    using that t1(2) t2(7) Cons.prems(1) by (cases "i = ?home x") auto
  moreover have "run_store nmo_hash_table_insert nmo_hash_table_remove nmo_hash_table_get
      (concat (map (\<lambda>x. [Put x v, Delete x]) (x # xs))) t = Done ([Stored True, Deleted True] @ rs, t2)"
    unfolding list.map concat.simps run_store_append t1(1) by (simp add: t2(1))
  ultimately show ?case using t2(2-6) by blast
qed simp

lemma hangs_without_empty:
  assumes "length (ht_slots t) = 2 ^ k" "ht_capacity t = 2 ^ k" and "\<forall>i<2 ^ k. ht_slots t ! i = TOMBSTONE"
  shows "nmo_hash_table_find_slot x t = Diverges"
proof -
  have "ht_hash_func t x AND (ht_capacity t - 1) = ht_hash_func t x mod length (ht_slots t)"
    unfolding assms(1,2) by (rule and_mask_mod)
  with probe_diverges [OF assms(1), of "\<lambda>e. ht_compare_func t (fst e) x = 0" "ht_hash_func t x"] assms(1,3)
  show ?thesis by (simp add: nmo_hash_table_find_slot_def stops_def)
qed

text \<open>
  C26: removed entries leave tombstones that the growth test does not count. When every slot has held
  an entry once, which \<open>capacity\<close> insertions each followed by the removal of the same key bring
  about, the table is empty and every search in it runs forever. The keys are those that start in
  different slots, so that the insertions fill one slot after the other.
\<close>

theorem tombstones_hang_the_table:
  assumes "nmo_hash_table_create alloc key_size value_size n hash cmp = Done (Some t)" and "n \<le> 2 ^ 30"
    and "\<forall>x y. cmp x y = 0 \<longleftrightarrow> x = y"
    and "length xs = nmo_hash_table_get_capacity t" and "distinct (map (\<lambda>x. hash x mod nmo_hash_table_get_capacity t) xs)"
  shows "\<exists>rs t'. run_store nmo_hash_table_insert nmo_hash_table_remove nmo_hash_table_get
      (concat (map (\<lambda>x. [Put x v, Delete x]) xs)) t = Done (rs, t')
    \<and> nmo_hash_table_get_count t' = 0
    \<and> (\<forall>x. nmo_hash_table_get x t' = Diverges \<and> nmo_hash_table_insert x v t' = Diverges
          \<and> nmo_hash_table_remove x t' = Diverges)"
proof -
  note c = created_table [OF assms(1-3)]
  obtain k where k: "ht_capacity t = 2 ^ k" using c(8) by blast
  let ?home = "\<lambda>x. hash x mod 2 ^ k"
  from churn_run [of t k xs v] c k assms(3,5) obtain rs t' where r: "run_store nmo_hash_table_insert
      nmo_hash_table_remove nmo_hash_table_get (concat (map (\<lambda>x. [Put x v, Delete x]) xs)) t = Done (rs, t')"
    "length (ht_slots t') = 2 ^ k" "ht_capacity t' = 2 ^ k" "ht_count t' = 0"
    "\<forall>i<2 ^ k. ht_slots t' ! i = (if i \<in> ?home ` set xs then TOMBSTONE else EMPTY)"
    by (auto simp: nmo_hash_table_get_capacity_def)
  have "card (?home ` set xs) = 2 ^ k"
    using distinct_card [of "map ?home xs"] assms(4,5) k by (simp add: nmo_hash_table_get_capacity_def)
  moreover have "?home ` set xs \<subseteq> {..<2 ^ k}" by auto
  ultimately have "?home ` set xs = {..<2 ^ k}" by (intro card_subset_eq) simp_all
  with r(5) have "\<forall>i<2 ^ k. ht_slots t' ! i = TOMBSTONE" by simp
  then have h: "nmo_hash_table_find_slot x t' = Diverges" for x by (rule hangs_without_empty [OF r(2,3)])
  have "\<not> nmo_hash_table_should_grow t'" "ht_capacity t' \<noteq> 0" using c(9) k r(3,4)
    by (auto simp: nmo_hash_table_should_grow_def over_load_factor_def)
  with h r(1,4) show ?thesis
    by (auto simp: nmo_hash_table_get_def nmo_hash_table_insert_def nmo_hash_table_remove_def nmo_hash_table_get_count_def)
qed

theorem tombstones_hang_the_table_witness:
  "\<exists>(t :: (nat, bool) hash_table) rs t'. nmo_hash_table_create (\<lambda>_ _. True) 4 8 0 (\<lambda>x. x) (\<lambda>x y. if x = y then 0 else 1) = Done (Some t)
    \<and> run_store nmo_hash_table_insert nmo_hash_table_remove nmo_hash_table_get
        (concat (map (\<lambda>x. [Put x True, Delete x]) [0 ..< 16])) t = Done (rs, t')
    \<and> nmo_hash_table_get 99 t' = Diverges"
proof -
  obtain t :: "(nat, bool) hash_table" where t: "nmo_hash_table_create (\<lambda>_ _. True) 4 8 0 (\<lambda>x. x) (\<lambda>x y. if x = y then 0 else 1) = Done (Some t)"
    "ht_capacity t = 16"
    by (simp add: nmo_hash_table_create_def nmo_hash_table_allocate_storage_def eff_simps Let_def)
  have "distinct (map (\<lambda>x. x mod 16) [0 ..< 16 :: nat])" by (simp add: upt_rec)
  moreover have "\<forall>x y. (if x = y then 0 else 1 :: int) = 0 \<longleftrightarrow> x = (y :: nat)" by simp
  ultimately show ?thesis using tombstones_hang_the_table [OF t(1), of "[0 ..< 16]" True] t
    by (auto simp: nmo_hash_table_get_capacity_def)
qed

end
