(* ===== verification/IndexedMap.thy ===== *)
theory IndexedMap
  imports HashTable Arena
begin

text \<open>
  The indexed map of \<^verbatim>\<open>src/core/indexed_map.c\<close>: a hash part whose occupied slots hold indices into a
  dense part, the entries in the order of insertion, which lives in an arena. The hash part comes from
  an allocator as the storage of a hash table does (\<open>im_alloc k n\<close> is the answer to its \<open>k\<close>-th call). The
  dense part is the list of its entries in use; \<open>im_array_capacity\<close> is the number there is memory for,
  and an access outside the entries in use is \<open>Undefined\<close>.
\<close>

section \<open>State\<close>

record ('k, 'v) indexed_map =
  im_arena :: arena
  im_owns_arena :: bool
  im_alloc :: "nat \<Rightarrow> nat \<Rightarrow> bool"
  im_calls :: nat
  im_key_size :: nat
  im_value_size :: nat
  im_capacity :: nat
  im_array_capacity :: nat
  im_count :: nat
  im_slots :: "nat hash_slot list"
  im_dense :: "('k \<times> 'v) list"
  im_hash_func :: "'k \<Rightarrow> nat"
  im_compare_func :: "'k \<Rightarrow> 'k \<Rightarrow> int"
  im_key_dispose :: bool
  im_value_dispose :: bool
  im_disposed :: "('k + 'v) list"

definition sizeof_indexed_map :: nat where
  "sizeof_indexed_map = 160"

definition indexed_map_alignment :: "nat \<Rightarrow> nat" where
  "indexed_map_alignment sz =
     (let alignment = (if sz < 8 then 8 else sz)
      in if alignment AND (alignment - 1) \<noteq> 0 then 8 else alignment)"

section \<open>Storage\<close>

text \<open>The size of the index array may wrap; a store behind its end would be undefined.\<close>

definition indexed_map_allocate_hash ::
  "nat \<Rightarrow> ('k, 'v) indexed_map \<Rightarrow> (unit, ('k, 'v) indexed_map) cres" where
  "indexed_map_allocate_hash capacity m =
     (if capacity = 0 then fail NMO_ERR_INVALID_ARGUMENT m
      else
        let k = im_calls m; m' = m\<lparr>im_calls := k + 2\<rparr>
        in if im_alloc m k capacity \<and> im_alloc m (k + 1) (sz_mul capacity 8)
           then if capacity * 8 < 2 ^ 64
                then ok () (m'\<lparr>im_slots := replicate capacity EMPTY, im_capacity := capacity\<rparr>)
                else Undefined
           else fail NMO_ERR_NOMEM m')"

definition indexed_map_allocate_dense ::
  "nat \<Rightarrow> ('k, 'v) indexed_map \<Rightarrow> (unit, ('k, 'v) indexed_map) cres" where
  "indexed_map_allocate_dense capacity m =
     (if capacity = 0 then fail NMO_ERR_INVALID_ARGUMENT m
      else if im_key_size m \<noteq> 0 \<and> capacity > (2 ^ 64 - 1) div im_key_size m then fail NMO_ERR_NOMEM m
      else if im_value_size m \<noteq> 0 \<and> capacity > (2 ^ 64 - 1) div im_value_size m then fail NMO_ERR_NOMEM m
      else
        bindE (nmo_arena_alloc (capacity * im_key_size m) (indexed_map_alignment (im_key_size m)) (im_arena m)) (\<lambda>(keys, a).
        bindE (nmo_arena_alloc (capacity * im_value_size m) (indexed_map_alignment (im_value_size m)) a) (\<lambda>(values, a).
          let m = m\<lparr>im_arena := a\<rparr>
          in if keys = None \<or> values = None then fail NMO_ERR_NOMEM m
             else if im_count m \<le> capacity then ok () (m\<lparr>im_array_capacity := capacity\<rparr>)
             else Undefined)))"

definition indexed_map_grow_dense :: "('k, 'v) indexed_map \<Rightarrow> (unit, ('k, 'v) indexed_map) cres" where
  "indexed_map_grow_dense m =
     (let new_capacity = (if im_array_capacity m > 0 then sz_mul (im_array_capacity m) 2 else 16)
      in if new_capacity = 0 then fail NMO_ERR_NOMEM m else indexed_map_allocate_dense new_capacity m)"

definition indexed_map_find_slot :: "'k \<Rightarrow> ('k, 'v) indexed_map \<Rightarrow> (bool \<times> int) eff" where
  "indexed_map_find_slot key m =
     (case probe (\<lambda>d. im_compare_func m (fst (im_dense m ! d)) key = 0) (im_slots m)
             (im_hash_func m key AND (im_capacity m - 1)) None of
        None \<Rightarrow> Diverges
      | Some (found, index) \<Rightarrow> Done (found, slot_int index))"

text \<open>The first slot that refers to a dense index.\<close>

fun slot_for_dense :: "nat \<Rightarrow> nat hash_slot list \<Rightarrow> nat \<Rightarrow> nat option" where
  "slot_for_dense i [] dense_index = None"
| "slot_for_dense i (s # ss) dense_index =
     (if s = OCCUPIED dense_index then Some i else slot_for_dense (Suc i) ss dense_index)"

definition indexed_map_slot_for_dense :: "nat \<Rightarrow> ('k, 'v) indexed_map \<Rightarrow> int" where
  "indexed_map_slot_for_dense dense_index m =
     (case slot_for_dense 0 (im_slots m) dense_index of Some i \<Rightarrow> slot_int i | None \<Rightarrow> -1)"

text \<open>The loop over the entries \<open>i, \<dots>, count - 1\<close>.\<close>

fun rehash_loop :: "nat \<Rightarrow> nat \<Rightarrow> ('k, 'v) indexed_map \<Rightarrow> ('k, 'v) indexed_map eff" where
  "rehash_loop i 0 m = Done m"
| "rehash_loop i (Suc n) m =
     (if i < length (im_dense m) then
        bindE (indexed_map_find_slot (fst (im_dense m ! i)) m) (\<lambda>(found, slot).
          if slot < 0 then Undefined
          else rehash_loop (Suc i) n (m\<lparr>im_slots := (im_slots m)[nat slot := OCCUPIED i]\<rparr>))
      else Undefined)"

definition indexed_map_rehash ::
  "nat \<Rightarrow> ('k, 'v) indexed_map \<Rightarrow> (unit, ('k, 'v) indexed_map) cres" where
  "indexed_map_rehash new_capacity m =
     bindR (indexed_map_allocate_hash new_capacity m) (\<lambda>_ m. bindE (rehash_loop 0 (im_count m) m) (ok ()))"

section \<open>Operations\<close>

definition indexed_map_dispose_entry :: "'k \<times> 'v \<Rightarrow> ('k, 'v) indexed_map \<Rightarrow> ('k, 'v) indexed_map" where
  "indexed_map_dispose_entry e m =
     (let m = (if im_value_dispose m then m\<lparr>im_disposed := im_disposed m @ [Inr (snd e)]\<rparr> else m)
      in if im_key_dispose m then m\<lparr>im_disposed := im_disposed m @ [Inl (fst e)]\<rparr> else m)"

text \<open>
  Creation with an arena, which is handed back, or without one: the map then makes a default arena of
  its own, over the allocator \<open>own_alloc\<close> and the memory content \<open>own_stale\<close>. \<open>None\<close> is NULL.
\<close>

definition indexed_map_create_in ::
  "(nat \<Rightarrow> nat \<Rightarrow> bool) \<Rightarrow> bool \<Rightarrow> nat \<Rightarrow> nat \<Rightarrow> nat \<Rightarrow> ('k \<Rightarrow> nat) \<Rightarrow> ('k \<Rightarrow> 'k \<Rightarrow> int) \<Rightarrow> arena
    \<Rightarrow> (('k, 'v) indexed_map option \<times> arena) eff" where
  "indexed_map_create_in alloc owns_arena key_size value_size initial_capacity hash_func compare_func a =
     bindE (nmo_arena_alloc sizeof_indexed_map (indexed_map_alignment sizeof_indexed_map) a) (\<lambda>(q, a). case q of
       None \<Rightarrow> Done (None, a)
     | Some _ \<Rightarrow>
         let m = \<lparr>im_arena = a, im_owns_arena = owns_arena, im_alloc = alloc, im_calls = 0,
                  im_key_size = key_size, im_value_size = value_size, im_capacity = 0,
                  im_array_capacity = 0, im_count = 0, im_slots = [], im_dense = [],
                  im_hash_func = hash_func, im_compare_func = compare_func,
                  im_key_dispose = False, im_value_dispose = False, im_disposed = []\<rparr>
         in bindE (if initial_capacity > 0 then next_capacity initial_capacity else Done 16) (\<lambda>capacity.
              if capacity = 0 then Done (None, a)
              else bindE (indexed_map_allocate_hash capacity m) (\<lambda>(x, m). case x of
                Inl _ \<Rightarrow> Done (None, a)
              | Inr _ \<Rightarrow> bindE (indexed_map_allocate_dense capacity m) (\<lambda>(x, m). case x of
                  Inl _ \<Rightarrow> Done (None, im_arena m)
                | Inr _ \<Rightarrow> Done (Some (m\<lparr>im_count := 0\<rparr>), im_arena m)))))"

definition nmo_indexed_map_create ::
  "(nat \<Rightarrow> nat \<Rightarrow> bool) \<Rightarrow> (nat \<Rightarrow> nat \<Rightarrow> bool) \<Rightarrow> (nat \<Rightarrow> nat \<Rightarrow> u32) \<Rightarrow> arena option
    \<Rightarrow> nat \<Rightarrow> nat \<Rightarrow> nat \<Rightarrow> ('k \<Rightarrow> nat) \<Rightarrow> ('k \<Rightarrow> 'k \<Rightarrow> int) \<Rightarrow> (('k, 'v) indexed_map option \<times> arena option) eff" where
  "nmo_indexed_map_create alloc own_alloc own_stale arena_given key_size value_size initial_capacity hash_func compare_func =
     (if key_size = 0 \<or> value_size = 0 then Done (None, arena_given)
      else case arena_given of
        Some a \<Rightarrow> bindE (indexed_map_create_in alloc False key_size value_size initial_capacity hash_func compare_func a)
          (\<lambda>(m, a). Done (m, Some a))
      | None \<Rightarrow> bindE (nmo_arena_create own_alloc own_stale 0) (\<lambda>own. case own of
          None \<Rightarrow> Done (None, None)
        | Some a \<Rightarrow> bindE (indexed_map_create_in alloc True key_size value_size initial_capacity hash_func compare_func a)
            (\<lambda>(m, a). Done (m, None))))"

definition nmo_indexed_map_set_lifecycle ::
  "bool option \<Rightarrow> bool option \<Rightarrow> ('k, 'v) indexed_map \<Rightarrow> ('k, 'v) indexed_map" where
  "nmo_indexed_map_set_lifecycle key_lifecycle value_lifecycle m =
     m\<lparr>im_key_dispose := (case key_lifecycle of Some d \<Rightarrow> d | None \<Rightarrow> False),
       im_value_dispose := (case value_lifecycle of Some d \<Rightarrow> d | None \<Rightarrow> False)\<rparr>"

text \<open>The growth of the hash part and of the dense part before an insertion.\<close>

definition indexed_map_make_room :: "('k, 'v) indexed_map \<Rightarrow> (unit, ('k, 'v) indexed_map) cres" where
  "indexed_map_make_room m =
     bindR (if im_capacity m = 0 then bindE (next_capacity 16) (\<lambda>n.
              if n = 0 then fail NMO_ERR_NOMEM m else indexed_map_rehash n m) else ok () m) (\<lambda>_ m.
     bindR (if over_load_factor (im_count m) (im_capacity m) then
              let new_capacity = sz_mul (im_capacity m) 2
              in if new_capacity = 0 \<or> new_capacity \<le> im_capacity m then fail NMO_ERR_NOMEM m
                 else indexed_map_rehash new_capacity m
            else ok () m) (\<lambda>_ m.
       if im_count m \<ge> im_array_capacity m then indexed_map_grow_dense m else ok () m))"

definition nmo_indexed_map_insert ::
  "'k \<Rightarrow> 'v \<Rightarrow> ('k, 'v) indexed_map \<Rightarrow> (unit, ('k, 'v) indexed_map) cres" where
  "nmo_indexed_map_insert key v m =
     bindR (indexed_map_make_room m) (\<lambda>_ m.
     bindE (indexed_map_find_slot key m) (\<lambda>(found, slot).
       if slot < 0 then fail NMO_ERR_INVALID_STATE m
       else case (found, im_slots m ! nat slot) of
         (True, OCCUPIED d) \<Rightarrow>
           if d < length (im_dense m) then
             let e = im_dense m ! d;
                 m = (if im_value_dispose m then m\<lparr>im_disposed := im_disposed m @ [Inr (snd e)]\<rparr> else m)
             in ok () (m\<lparr>im_dense := (im_dense m)[d := (fst e, v)]\<rparr>)
           else Undefined
       | _ \<Rightarrow>
           if im_count m = length (im_dense m) \<and> im_count m < im_array_capacity m then
             ok () (m\<lparr>im_dense := im_dense m @ [(key, v)],
                      im_slots := (im_slots m)[nat slot := OCCUPIED (im_count m)],
                      im_count := sz_add (im_count m) 1\<rparr>)
           else Undefined))"

text \<open>The dense entry a search leads to.\<close>

definition indexed_map_entry :: "'k \<Rightarrow> ('k, 'v) indexed_map \<Rightarrow> (nat \<times> nat) option eff" where
  "indexed_map_entry key m =
     bindE (indexed_map_find_slot key m) (\<lambda>(found, slot).
       if slot < 0 \<or> \<not> found then Done None
       else case im_slots m ! nat slot of
         OCCUPIED d \<Rightarrow> if d < length (im_dense m) then Done (Some (nat slot, d)) else Undefined
       | _ \<Rightarrow> Undefined)"

definition nmo_indexed_map_get :: "'k \<Rightarrow> ('k, 'v) indexed_map \<Rightarrow> 'v option eff" where
  "nmo_indexed_map_get key m =
     bindE (indexed_map_entry key m) (\<lambda>r. Done (map_option (\<lambda>(slot, d). snd (im_dense m ! d)) r))"

text \<open>The last entry moves into the place of the removed one, and its slot follows.\<close>

definition indexed_map_fill_gap :: "nat \<Rightarrow> ('k, 'v) indexed_map \<Rightarrow> ('k, 'v) indexed_map" where
  "indexed_map_fill_gap d m =
     (let last_index = im_count m - 1
      in if d \<noteq> last_index then
           let m = m\<lparr>im_dense := (im_dense m)[d := im_dense m ! last_index]\<rparr>;
               last_slot = indexed_map_slot_for_dense last_index m
           in if last_slot \<ge> 0 then m\<lparr>im_slots := (im_slots m)[nat last_slot := OCCUPIED d]\<rparr> else m
         else m)"

definition nmo_indexed_map_remove :: "'k \<Rightarrow> ('k, 'v) indexed_map \<Rightarrow> (bool \<times> ('k, 'v) indexed_map) eff" where
  "nmo_indexed_map_remove key m =
     bindE (indexed_map_entry key m) (\<lambda>r. case r of
       None \<Rightarrow> Done (False, m)
     | Some (slot, d) \<Rightarrow>
         let m = indexed_map_fill_gap d (indexed_map_dispose_entry (im_dense m ! d) m)
         in Done (True, m\<lparr>im_dense := take (im_count m - 1) (im_dense m), im_count := im_count m - 1,
                          im_slots := (im_slots m)[slot := TOMBSTONE]\<rparr>))"

definition nmo_indexed_map_contains :: "'k \<Rightarrow> ('k, 'v) indexed_map \<Rightarrow> bool eff" where
  "nmo_indexed_map_contains key m = bindE (nmo_indexed_map_get key m) (\<lambda>v. Done (v \<noteq> None))"

definition nmo_indexed_map_get_count :: "('k, 'v) indexed_map \<Rightarrow> nat" where
  "nmo_indexed_map_get_count m = im_count m"

definition nmo_indexed_map_get_at :: "nat \<Rightarrow> ('k, 'v) indexed_map \<Rightarrow> ('k \<times> 'v) option eff" where
  "nmo_indexed_map_get_at i m =
     (if i \<ge> im_count m then Done None
      else if i < length (im_dense m) then Done (Some (im_dense m ! i)) else Undefined)"

definition nmo_indexed_map_get_key_at :: "nat \<Rightarrow> ('k, 'v) indexed_map \<Rightarrow> 'k option eff" where
  "nmo_indexed_map_get_key_at i m =
     (if i \<ge> im_count m then Done None
      else if i < length (im_dense m) then Done (Some (fst (im_dense m ! i))) else Undefined)"

definition nmo_indexed_map_get_value_at :: "nat \<Rightarrow> ('k, 'v) indexed_map \<Rightarrow> 'v option eff" where
  "nmo_indexed_map_get_value_at i m =
     (if i \<ge> im_count m then Done None
      else if i < length (im_dense m) then Done (Some (snd (im_dense m ! i))) else Undefined)"

definition nmo_indexed_map_clear :: "('k, 'v) indexed_map \<Rightarrow> ('k, 'v) indexed_map" where
  "nmo_indexed_map_clear m =
     (fold indexed_map_dispose_entry (im_dense m) m)
       \<lparr>im_count := 0, im_dense := [], im_slots := replicate (length (im_slots m)) EMPTY\<rparr>"

text \<open>Destruction: the callbacks made, and the blocks freed when the map made its arena.\<close>

definition nmo_indexed_map_destroy :: "('k, 'v) indexed_map \<Rightarrow> ('k + 'v) list \<times> nat list" where
  "nmo_indexed_map_destroy m =
     (im_disposed (fold indexed_map_dispose_entry (im_dense m) m),
      if im_owns_arena m then nmo_arena_destroy (im_arena m) else [])"

fun iterate_dense ::
  "('k \<Rightarrow> 'v \<Rightarrow> 'u \<Rightarrow> bool \<times> 'v \<times> 'u) \<Rightarrow> ('k \<times> 'v) list \<Rightarrow> 'u \<Rightarrow> ('k \<times> 'v) list \<times> 'u" where
  "iterate_dense func [] u = ([], u)"
| "iterate_dense func ((k, v) # es) u =
     (case func k v u of (continue, v, u) \<Rightarrow>
        if continue then let (es, u) = iterate_dense func es u in ((k, v) # es, u) else ((k, v) # es, u))"

definition nmo_indexed_map_iterate ::
  "('k \<Rightarrow> 'v \<Rightarrow> 'u \<Rightarrow> bool \<times> 'v \<times> 'u) \<Rightarrow> ('k, 'v) indexed_map \<Rightarrow> 'u \<Rightarrow> ('k, 'v) indexed_map \<times> 'u" where
  "nmo_indexed_map_iterate func m u =
     (let (es, u) = iterate_dense func (im_dense m) u in (m\<lparr>im_dense := es\<rparr>, u))"

section \<open>Hash and compare functions\<close>

definition nmo_map_hash_uint32 :: "u32 \<Rightarrow> nat" where
  "nmo_map_hash_uint32 v = unat (v * 2654435761)"

text \<open>The bytes of the string before its terminating zero; a \<^verbatim>\<open>char\<close> is signed.\<close>

definition nmo_map_hash_string :: "u8 list \<Rightarrow> nat" where
  "nmo_map_hash_string str =
     unat (fold (\<lambda>c hash. (push_bit 5 hash + hash) + scast c) (takeWhile (\<lambda>c. c \<noteq> 0) str) (5381 :: u64))"

fun strcmp :: "u8 list \<Rightarrow> u8 list \<Rightarrow> int" where
  "strcmp [] [] = 0"
| "strcmp (x # xs) [] = uint x"
| "strcmp [] (y # ys) = - uint y"
| "strcmp (x # xs) (y # ys) = (if x = y \<and> x \<noteq> 0 then strcmp xs ys else uint x - uint y)"

definition nmo_map_compare_string :: "u8 list \<Rightarrow> u8 list \<Rightarrow> int" where
  "nmo_map_compare_string str1 str2 = strcmp str1 str2"

definition indexed_map_hash_default :: "u8 list \<Rightarrow> nat" where
  "indexed_map_hash_default bytes =
     unat (fold (\<lambda>b hash. (hash XOR ucast b) * 1099511628211) bytes (14695981039346656037 :: u64))"

section \<open>The slots seen through the dense part\<close>

definition im_view :: "('k, 'v) indexed_map \<Rightarrow> ('k \<times> 'v) hash_slot list" where
  "im_view m = map (map_hash_slot (\<lambda>d. im_dense m ! d)) (im_slots m)"

lemma length_im_view [simp]: "length (im_view m) = length (im_slots m)"
  by (simp add: im_view_def)

lemma im_view_OCCUPIED:
  "i < length (im_slots m) \<Longrightarrow> im_view m ! i = OCCUPIED e \<longleftrightarrow> (\<exists>d. im_slots m ! i = OCCUPIED d \<and> im_dense m ! d = e)"
  by (cases "im_slots m ! i") (auto simp: im_view_def)

lemma im_view_EMPTY: "i < length (im_slots m) \<Longrightarrow> im_view m ! i = EMPTY \<longleftrightarrow> im_slots m ! i = EMPTY"
  by (cases "im_slots m ! i") (auto simp: im_view_def)

lemma contents_map: "contents (map (map_hash_slot f) ss) = map f (contents ss)"
proof (induction ss)
  case (Cons s ss)
  then show ?case by (cases s) (simp_all add: contents_def map_filter_simps)
qed (simp add: contents_def map_filter_simps)

lemma free_slots_map [simp]: "free_slots (map (map_hash_slot f) ss) = free_slots ss"
proof (induction ss)
  case (Cons s ss)
  then show ?case by (cases s) (simp_all add: free_slots_def)
qed (simp add: free_slots_def)

lemma free_slots_view [simp]: "free_slots (im_view m) = free_slots (im_slots m)"
  by (simp add: im_view_def)

text \<open>The search on the indices is the search on the entries they stand for.\<close>

lemma probe_map_forward:
  assumes "probe h ss i t = Some r"
  shows "length ss = 2 ^ k \<longrightarrow> i < length ss \<longrightarrow> h = (\<lambda>d. hit (f d)) \<longrightarrow> probe hit (map (map_hash_slot f) ss) i t = Some r"
  using assms
proof (induction rule: probe.raw_induct [rotated 1, consumes 1, case_names step])
  case (step search h ss i t r)
  show ?case
  proof (intro impI)
    assume n: "length ss = 2 ^ k" "i < length ss" and h: "h = (\<lambda>d. hit (f d))"
    then have "(i + 1) AND (length ss - 1) < length ss" by (simp only: and_mask_mod) simp
    with step n h show "probe hit (map (map_hash_slot f) ss) i t = Some r"
      by (subst probe.simps) (cases "ss ! i"; auto split: if_splits)
  qed
qed

lemma probe_map_backward:
  assumes "probe hit ss' i t = Some r"
  shows "\<forall>ss. ss' = map (map_hash_slot f) ss \<longrightarrow> length ss = 2 ^ k \<longrightarrow> i < length ss \<longrightarrow> probe (\<lambda>d. hit (f d)) ss i t = Some r"
  using assms
proof (induction rule: probe.raw_induct [rotated 1, consumes 1, case_names step])
  case (step search hit ss' i t r)
  show ?case
  proof (intro allI impI)
    fix ss assume s: "ss' = map (map_hash_slot f) ss" and n: "length ss = 2 ^ k" "i < length ss"
    then have "(i + 1) AND (length ss - 1) < length ss" by (simp only: and_mask_mod) simp
    with step n s show "probe (\<lambda>d. hit (f d)) ss i t = Some r"
      by (subst probe.simps) (cases "ss ! i"; auto split: if_splits)
  qed
qed

lemma probe_map:
  assumes "length ss = 2 ^ k" and "i < length ss"
  shows "probe (\<lambda>d. hit (f d)) ss i t = probe hit (map (map_hash_slot f) ss) i t"
proof (rule option_eqI)
  fix r
  show "probe (\<lambda>d. hit (f d)) ss i t = Some r \<longleftrightarrow> probe hit (map (map_hash_slot f) ss) i t = Some r"
    using probe_map_forward [of "\<lambda>d. hit (f d)" ss i t r k hit f] probe_map_backward [of hit _ i t r f k] assms by blast
qed

section \<open>Invariant\<close>

definition im_wf :: "('k, 'v) indexed_map \<Rightarrow> bool" where
  "im_wf m \<longleftrightarrow> slots_wf fst (im_hash_func m) (im_view m) \<and> im_capacity m = length (im_slots m)
     \<and> 16 \<le> im_capacity m \<and> im_capacity m \<le> 2 ^ 31 \<and> im_count m = length (im_dense m)
     \<and> (\<forall>d. (\<exists>i<length (im_slots m). im_slots m ! i = OCCUPIED d) \<longleftrightarrow> d < im_count m)
     \<and> im_count m \<le> im_array_capacity m \<and> im_array_capacity m \<le> 2 ^ 32
     \<and> (\<forall>x y. im_compare_func m x y = 0 \<longleftrightarrow> x = y) \<and> arena_sane (im_arena m)
     \<and> 0 < im_key_size m \<and> im_key_size m < 32 \<and> 0 < im_value_size m \<and> im_value_size m < 32"

definition im_map :: "('k, 'v) indexed_map \<Rightarrow> 'k \<rightharpoonup> 'v" where
  "im_map m = map_of (im_dense m)"

definition im_room :: "('k, 'v) indexed_map \<Rightarrow> nat" where
  "im_room m = min (free_slots (im_slots m)) (2 ^ 30 - im_count m)"

lemma im_slot_unique:
  assumes "slots_wf fst hash (im_view m)" and "i < length (im_slots m)" "j < length (im_slots m)"
    and "im_slots m ! i = OCCUPIED d" "im_slots m ! j = OCCUPIED d'" "fst (im_dense m ! d) = fst (im_dense m ! d')"
  shows "i = j"
proof -
  have "im_view m ! i = OCCUPIED (im_dense m ! d)" "im_view m ! j = OCCUPIED (im_dense m ! d')"
    using assms(2-5) by (auto simp: im_view_OCCUPIED)
  with assms(1-3,6) show ?thesis unfolding slots_wf_def by (metis length_im_view)
qed

lemma im_distinct:
  assumes "im_wf m"
  shows "distinct (map fst (im_dense m))"
proof -
  note w = assms [unfolded im_wf_def]
  have "d = d'" if d: "d < im_count m" "d' < im_count m" "fst (im_dense m ! d) = fst (im_dense m ! d')" for d d'
  proof -
    obtain i j where "i < length (im_slots m)" "im_slots m ! i = OCCUPIED d"
      "j < length (im_slots m)" "im_slots m ! j = OCCUPIED d'" using w d(1,2) by blast
    with im_slot_unique [of "im_hash_func m" m i j d d'] w d(3) show ?thesis by auto
  qed
  then show ?thesis using w by (simp add: distinct_conv_nth) metis
qed

lemma im_count_contents:
  assumes "im_wf m"
  shows "length (contents (im_slots m)) = im_count m"
proof -
  note w = assms [unfolded im_wf_def]
  have "distinct (map fst (contents (im_view m)))" using w by (intro distinct_contents) blast
  then have "distinct (contents (im_slots m))"
    unfolding im_view_def contents_map map_map by (simp add: distinct_map)
  moreover have "set (contents (im_slots m)) = {..<im_count m}" using w by (auto simp: set_contents)
  ultimately show ?thesis using distinct_card by fastforce
qed

lemma im_entry_of:
  assumes "im_wf m"
  shows "entry_of fst (im_view m) x = map_option (Pair x) (im_map m x)"
proof (rule option_eqI)
  fix e
  note w = assms [unfolded im_wf_def]
  then have b: "(\<exists>i<length (im_slots m). im_slots m ! i = OCCUPIED d) \<longleftrightarrow> d < im_count m" for d by blast
  have "entry_of fst (im_view m) x = Some e \<longleftrightarrow> (\<exists>i<length (im_slots m). im_view m ! i = OCCUPIED e \<and> fst e = x)"
    using w entry_of_Some [of fst "im_hash_func m" "im_view m"] by simp
  also have "\<dots> \<longleftrightarrow> (\<exists>d. (\<exists>i<length (im_slots m). im_slots m ! i = OCCUPIED d) \<and> im_dense m ! d = e) \<and> fst e = x"
    by (simp add: im_view_OCCUPIED cong: conj_cong) blast
  also have "\<dots> \<longleftrightarrow> (\<exists>d<im_count m. im_dense m ! d = e) \<and> fst e = x" unfolding b ..
  also have "\<dots> \<longleftrightarrow> e \<in> set (im_dense m) \<and> fst e = x" using w by (auto simp: in_set_conv_nth)
  also have "\<dots> \<longleftrightarrow> map_option (Pair x) (im_map m x) = Some e"
    using im_distinct [OF assms] by (cases e) (auto simp: im_map_def)
  finally show "entry_of fst (im_view m) x = Some e \<longleftrightarrow> map_option (Pair x) (im_map m x) = Some e" .
qed

lemma im_find_slot_eq:
  assumes "slots_wf fst (im_hash_func m) (im_view m)" and "im_capacity m = length (im_slots m)"
    and "\<forall>x y. im_compare_func m x y = 0 \<longleftrightarrow> x = y"
  shows "indexed_map_find_slot x m = (case find_key fst (im_hash_func m) x (im_view m) of
      None \<Rightarrow> Diverges | Some (found, i) \<Rightarrow> Done (found, slot_int i))"
proof -
  obtain k where k: "length (im_slots m) = 2 ^ k" using assms(1) by (auto simp: slots_wf_def)
  have "im_hash_func m x AND (im_capacity m - 1) = im_hash_func m x mod length (im_slots m)"
    unfolding assms(2) k by (rule and_mask_mod)
  moreover have "im_hash_func m x mod length (im_slots m) < length (im_slots m)" using k by simp
  ultimately show ?thesis
    unfolding indexed_map_find_slot_def using assms(3)
    probe_map [OF k, of "im_hash_func m x mod length (im_slots m)" "\<lambda>e. fst e = x" "\<lambda>d. im_dense m ! d" None]
    by (simp add: im_view_def)
qed

section \<open>Rehashing and growth\<close>

lemma put_free:
  assumes "i < length ss" and "length (contents (ss[i := OCCUPIED a])) = Suc (length (contents ss))"
  shows "ss ! i \<noteq> OCCUPIED b"
  using length_contents_update [OF assms(1), of "OCCUPIED a"] assms(2) by auto

lemma occupied_put:
  assumes "j < length ss" and "\<And>b. ss ! j \<noteq> OCCUPIED b"
  shows "(\<exists>l<length (ss[j := OCCUPIED i]). ss[j := OCCUPIED i] ! l = OCCUPIED d)
    \<longleftrightarrow> d = i \<or> (\<exists>l<length ss. ss ! l = OCCUPIED d)"
proof -
  have "ss[j := OCCUPIED i] ! l = OCCUPIED d \<longleftrightarrow> (if l = j then d = i else ss ! l = OCCUPIED d)" for l
    using assms(1) by auto
  with assms show ?thesis by (metis length_list_update)
qed

lemma im_view_put:
  "d < length (im_dense m) \<Longrightarrow> im_view (m\<lparr>im_slots := (im_slots m)[j := OCCUPIED d]\<rparr>) = (im_view m)[j := OCCUPIED (im_dense m ! d)]"
  by (simp add: im_view_def map_update)

text \<open>What a search for an absent key leads to.\<close>

lemma im_put_at:
  assumes wf: "slots_wf fst (im_hash_func m) (im_view m)" and cap: "im_capacity m = length (im_slots m)" "im_capacity m \<le> 2 ^ 31"
    and cmp: "\<forall>x y. im_compare_func m x y = 0 \<longleftrightarrow> x = y" and free: "0 < free_slots (im_slots m)"
    and new: "entry_of fst (im_view m) (fst e) = None"
  obtains j where "j < length (im_slots m)" "indexed_map_find_slot (fst e) m = Done (False, int j)"
    "\<And>b. im_slots m ! j \<noteq> OCCUPIED b" "slots_wf fst (im_hash_func m) ((im_view m)[j := OCCUPIED e])"
    "\<And>d. free_slots (im_slots m) \<le> Suc (free_slots ((im_slots m)[j := OCCUPIED d]))"
proof -
  from put_at_found [OF wf _ new] free obtain j where j: "j < length (im_slots m)"
    "find_key fst (im_hash_func m) (fst e) (im_view m) = Some (False, j)"
    "slots_wf fst (im_hash_func m) ((im_view m)[j := OCCUPIED e])"
    "length (contents ((im_view m)[j := OCCUPIED e])) = Suc (length (contents (im_view m)))" by auto
  have nb: "im_slots m ! j \<noteq> OCCUPIED b" for b
  proof
    assume "im_slots m ! j = OCCUPIED b"
    then have "im_view m ! j = OCCUPIED (im_dense m ! b)" using j(1) by (auto simp: im_view_OCCUPIED)
    with put_free [of j "im_view m" e "im_dense m ! b"] j(1,4) show False by simp
  qed
  have "slot_int j = int j" using j(1) cap by (intro slot_int_small) simp
  with j(2) im_find_slot_eq [OF wf cap(1) cmp, of "fst e"]
  have "indexed_map_find_slot (fst e) m = Done (False, int j)" by simp
  moreover have "free_slots (im_slots m) \<le> Suc (free_slots ((im_slots m)[j := OCCUPIED d]))" for d
    using j(1) by (auto simp: free_slots_update)
  ultimately show ?thesis using j(1,3) nb that by blast
qed

lemma rehash_loop_ok:
  assumes "slots_wf fst (im_hash_func m) (im_view m)" "im_capacity m = length (im_slots m)" "im_capacity m \<le> 2 ^ 31"
    and "\<forall>x y. im_compare_func m x y = 0 \<longleftrightarrow> x = y" and "i + n = length (im_dense m)"
    and "distinct (map fst (im_dense m))" and "n < free_slots (im_slots m)"
    and "\<And>d. (\<exists>j<length (im_slots m). im_slots m ! j = OCCUPIED d) \<longleftrightarrow> d < i"
  shows "\<exists>ss. rehash_loop i n m = Done (m\<lparr>im_slots := ss\<rparr>) \<and> length ss = length (im_slots m)
    \<and> slots_wf fst (im_hash_func m) (im_view (m\<lparr>im_slots := ss\<rparr>))
    \<and> (\<forall>d. (\<exists>j<length ss. ss ! j = OCCUPIED d) \<longleftrightarrow> d < length (im_dense m))
    \<and> free_slots (im_slots m) \<le> free_slots ss + n"
  using assms
proof (induction n arbitrary: i m)
  case 0
  then show ?case by (intro exI [of _ "im_slots m"]) simp
next
  case (Suc n)
  let ?e = "im_dense m ! i"
  have i: "i < length (im_dense m)" using Suc.prems(5) by simp
  have "fst (im_dense m ! d) \<noteq> fst ?e" if "d < i" for d
    using Suc.prems(6) that i nth_eq_iff_index_eq [of "map fst (im_dense m)" d i] by simp
  then have "entry_of fst (im_view m) (fst ?e) = None"
    unfolding entry_of_None
  proof (intro allI impI)
    fix l a assume "l < length (im_view m)" "im_view m ! l = OCCUPIED a"
    then obtain d where d: "l < length (im_slots m)" "im_slots m ! l = OCCUPIED d" "im_dense m ! d = a"
      by (auto simp: im_view_OCCUPIED)
    then have "d < i" using Suc.prems(8) by blast
    with \<open>\<And>d. d < i \<Longrightarrow> fst (im_dense m ! d) \<noteq> fst ?e\<close> d(3) show "fst a \<noteq> fst ?e" by blast
  qed
  moreover have "0 < free_slots (im_slots m)" using Suc.prems(7) by simp
  ultimately obtain j where j: "j < length (im_slots m)" "indexed_map_find_slot (fst ?e) m = Done (False, int j)"
    "\<And>b. im_slots m ! j \<noteq> OCCUPIED b" "slots_wf fst (im_hash_func m) ((im_view m)[j := OCCUPIED ?e])"
    "free_slots (im_slots m) \<le> Suc (free_slots ((im_slots m)[j := OCCUPIED i]))"
    using im_put_at [OF Suc.prems(1-4)] by blast
  let ?m = "m\<lparr>im_slots := (im_slots m)[j := OCCUPIED i]\<rparr>"
  have "slots_wf fst (im_hash_func ?m) (im_view ?m)" using j(4) i by (simp add: im_view_put)
  moreover have "(\<exists>l<length (im_slots ?m). im_slots ?m ! l = OCCUPIED d) \<longleftrightarrow> d < Suc i" for d
    using occupied_put [OF j(1,3), of i d] Suc.prems(8) [of d] by auto
  moreover have "n < free_slots (im_slots ?m)" using j(5) Suc.prems(7) by simp
  ultimately obtain ss where "rehash_loop (Suc i) n ?m = Done (m\<lparr>im_slots := ss\<rparr>)" "length ss = length (im_slots m)"
    "slots_wf fst (im_hash_func m) (im_view (m\<lparr>im_slots := ss\<rparr>))"
    "\<forall>d. (\<exists>j<length ss. ss ! j = OCCUPIED d) \<longleftrightarrow> d < length (im_dense m)"
    "free_slots ((im_slots m)[j := OCCUPIED i]) \<le> free_slots ss + n"
    using Suc.IH [of ?m "Suc i"] Suc.prems(2-6) by auto
  then show ?case using j(2,5) i by (intro exI [of _ ss]) auto
qed

text \<open>A map with the same entries, however they are stored.\<close>

definition im_same :: "('k, 'v) indexed_map \<Rightarrow> ('k, 'v) indexed_map \<Rightarrow> bool" where
  "im_same m m' \<longleftrightarrow> im_wf m' \<and> im_dense m' = im_dense m \<and> im_count m' = im_count m \<and> im_hash_func m' = im_hash_func m
     \<and> free_slots (im_slots m) \<le> free_slots (im_slots m')"

lemma im_rehash_ok:
  assumes wf: "im_wf m" and n: "n = 2 ^ k" "im_capacity m \<le> n" "n \<le> 2 ^ 31" "im_count m < n"
  shows "\<exists>m'. im_same m m' \<and> im_array_capacity m' = im_array_capacity m
    \<and> (indexed_map_rehash n m = fail NMO_ERR_NOMEM m' \<or> indexed_map_rehash n m = ok () m')"
proof -
  note w = wf [unfolded im_wf_def]
  have c: "im_count m + free_slots (im_slots m) \<le> im_capacity m"
    using contents_free [of "im_slots m"] im_count_contents [OF wf] w by simp
  let ?m = "m\<lparr>im_calls := im_calls m + 2\<rparr>"
  let ?m' = "?m\<lparr>im_slots := replicate n EMPTY, im_capacity := n\<rparr>"
  have n0: "n \<noteq> 0" "n * 8 < 2 ^ 64" using w n by auto
  show ?thesis
  proof (cases "im_alloc m (im_calls m) n \<and> im_alloc m (im_calls m + 1) (sz_mul n 8)")
    case False
    then have "indexed_map_allocate_hash n m = fail NMO_ERR_NOMEM ?m"
      using n0 unfolding indexed_map_allocate_hash_def Let_def by presburger
    moreover have "im_same m ?m" using wf by (simp add: im_same_def im_wf_def im_view_def)
    ultimately show ?thesis by (intro exI [of _ ?m]) (simp add: indexed_map_rehash_def)
  next
    case True
    then have a: "indexed_map_allocate_hash n m = ok () ?m'"
      using n0 unfolding indexed_map_allocate_hash_def Let_def by presburger
    have "slots_wf fst (im_hash_func ?m') (im_view ?m')"
      using slots_wf_fresh [of fst "im_hash_func m" k] n(1) by (simp add: im_view_def)
    moreover have "im_capacity ?m' = length (im_slots ?m')" "im_capacity ?m' \<le> 2 ^ 31"
      "\<forall>x y. im_compare_func ?m' x y = 0 \<longleftrightarrow> x = y" "0 + im_count m = length (im_dense ?m')"
      "distinct (map fst (im_dense ?m'))" "im_count m < free_slots (im_slots ?m')"
      "\<And>d. (\<exists>j<length (im_slots ?m'). im_slots ?m' ! j = OCCUPIED d) \<longleftrightarrow> d < 0"
      using w n im_distinct [OF wf] by simp_all
    ultimately obtain ss where
      ss: "rehash_loop 0 (im_count m) ?m' = Done (?m'\<lparr>im_slots := ss\<rparr>)" "length ss = n"
      "slots_wf fst (im_hash_func m) (im_view (?m'\<lparr>im_slots := ss\<rparr>))"
      "\<forall>d. (\<exists>j<length ss. ss ! j = OCCUPIED d) \<longleftrightarrow> d < length (im_dense m)"
      "n \<le> free_slots ss + im_count m" using rehash_loop_ok [of ?m' 0 "im_count m"] by auto
    have "im_same m (?m'\<lparr>im_slots := ss\<rparr>)" using ss(2-5) w n c by (simp add: im_same_def im_wf_def)
    with a ss(1) show ?thesis
      by (intro exI [of _ "?m'\<lparr>im_slots := ss\<rparr>"]) (simp add: indexed_map_rehash_def)
  qed
qed

lemma small_alignment:
  assumes "0 < s" and "s < 32"
  shows "indexed_map_alignment s \<in> {1, 4, 8, 16}"
proof -
  have "list_all (\<lambda>s. indexed_map_alignment s \<in> {1, 4, 8, 16}) [1 ..< 32]" by code_simp
  moreover have "s \<in> set [1 ..< 32]" using assms by simp
  ultimately show ?thesis unfolding list_all_iff by blast
qed

lemma allocate_dense_ok:
  assumes wf: "im_wf m" and n: "0 < n" "n \<le> 2 ^ 32" "im_count m \<le> n"
  shows "\<exists>b. arena_sane b \<and> (indexed_map_allocate_dense n m = fail NMO_ERR_NOMEM (m\<lparr>im_arena := b\<rparr>)
    \<or> indexed_map_allocate_dense n m = ok () (m\<lparr>im_arena := b, im_array_capacity := n\<rparr>))"
proof -
  have sizes: "0 < im_key_size m" "im_key_size m < 32" "0 < im_value_size m" "im_value_size m < 32"
    and sane: "arena_sane (im_arena m)" using wf by (simp_all add: im_wf_def)
  have lim: "n * s < 2 ^ 62" if "s < 32" for s
  proof -
    have "n * s \<le> 2 ^ 32 * 32" using n(2) that by (intro mult_le_mono) auto
    then show ?thesis by simp
  qed
  have dv: "\<not> (2 ^ 64 - 1) div s < n" if "0 < s" "s < 32" for s :: nat
    using lim [OF that(2)] that(1) by (simp add: not_less less_eq_div_iff_mult_less_eq)
  obtain q a where a: "nmo_arena_alloc (n * im_key_size m) (indexed_map_alignment (im_key_size m)) (im_arena m) = Done (q, a)"
    "arena_sane a" by (rule arena_alloc_sane [OF sane lim [OF sizes(2)] small_alignment [OF sizes(1,2)]])
  obtain r b where b: "nmo_arena_alloc (n * im_value_size m) (indexed_map_alignment (im_value_size m)) a = Done (r, b)"
    "arena_sane b" by (rule arena_alloc_sane [OF a(2) lim [OF sizes(4)] small_alignment [OF sizes(3,4)]])
  have "n \<noteq> 0" using n(1) by simp
  then have "indexed_map_allocate_dense n m = (if q = None \<or> r = None then fail NMO_ERR_NOMEM (m\<lparr>im_arena := b\<rparr>)
      else ok () (m\<lparr>im_arena := b, im_array_capacity := n\<rparr>))"
    unfolding indexed_map_allocate_dense_def a(1) b(1) bindE_simps prod.case Let_def
    using dv [OF sizes(1,2)] dv [OF sizes(3,4)] n(3) by simp
  with b(2) show ?thesis by (intro exI [of _ b]) (simp split: if_splits)
qed

lemma im_grow_dense_ok:
  assumes wf: "im_wf m" and full: "im_array_capacity m \<le> im_count m" "im_count m < 2 ^ 30"
  shows "\<exists>m'. im_same m m' \<and> (indexed_map_grow_dense m = fail NMO_ERR_NOMEM m'
    \<or> indexed_map_grow_dense m = ok () m' \<and> im_count m' < im_array_capacity m')"
proof -
  have c: "im_count m = im_array_capacity m" using wf full(1) by (simp add: im_wf_def)
  obtain n where n: "indexed_map_grow_dense m = indexed_map_allocate_dense n m" "0 < n" "n \<le> 2 ^ 32" "im_count m < n"
    using full by (cases "im_array_capacity m > 0")
      (auto simp: indexed_map_grow_dense_def Let_def sz_mul_small c)
  from allocate_dense_ok [OF wf n(2,3)] n(4) obtain b where b: "arena_sane b"
    "indexed_map_grow_dense m = fail NMO_ERR_NOMEM (m\<lparr>im_arena := b\<rparr>)
      \<or> indexed_map_grow_dense m = ok () (m\<lparr>im_arena := b, im_array_capacity := n\<rparr>)" using n(1) by auto
  have "im_same m (m\<lparr>im_arena := b\<rparr>)" "im_same m (m\<lparr>im_arena := b, im_array_capacity := n\<rparr>)"
    using wf b(1) n by (simp_all add: im_same_def im_wf_def im_view_def)
  with b(2) n(4) show ?thesis
    by (elim disjE; intro exI [of _ "m\<lparr>im_arena := b\<rparr>"] exI [of _ "m\<lparr>im_arena := b, im_array_capacity := n\<rparr>"]) auto
qed

section \<open>The map as a map\<close>

lemma im_same_refl: "im_wf m \<Longrightarrow> im_same m m"
  by (simp add: im_same_def)

lemma im_same_trans: "im_same m m' \<Longrightarrow> im_same m' m'' \<Longrightarrow> im_same m m''"
  by (simp add: im_same_def)

lemma make_room_ok:
  assumes wf: "im_wf m" and room: "0 < im_room m"
  shows "\<exists>m'. im_same m m' \<and> (indexed_map_make_room m = fail NMO_ERR_NOMEM m'
    \<or> indexed_map_make_room m = ok () m' \<and> im_count m' < im_array_capacity m')"
proof -
  note w = wf [unfolded im_wf_def]
  have small: "im_count m < 2 ^ 30" using room by (simp add: im_room_def)
  obtain k where k: "im_capacity m = 2 ^ k" using w by (auto simp: slots_wf_def)
  have c: "im_count m + free_slots (im_slots m) \<le> im_capacity m"
    using contents_free [of "im_slots m"] im_count_contents [OF wf] w by simp
  let ?grow = "if over_load_factor (im_count m) (im_capacity m) then
      let new_capacity = sz_mul (im_capacity m) 2
      in if new_capacity = 0 \<or> new_capacity \<le> im_capacity m then fail NMO_ERR_NOMEM m
         else indexed_map_rehash new_capacity m else ok () m"
  have "\<exists>m'. im_same m m' \<and> (?grow = fail NMO_ERR_NOMEM m' \<or> ?grow = ok () m')"
  proof (cases "over_load_factor (im_count m) (im_capacity m)")
    case True
    then have "k \<le> 30" using small k by (intro overload_capacity) auto
    then have n: "2 * (2::nat) ^ k \<le> 2 ^ 31" using power_increasing [of "Suc k" 31 "2::nat"] by simp
    have "im_count m < 2 * 2 ^ k" using c k zero_less_power [of "2::nat" k] by linarith
    with im_rehash_ok [OF wf, of "2 * 2 ^ k" "Suc k"] n k show ?thesis
      using True by (auto simp: sz_mul_small mult.commute)
  next
    case False
    then show ?thesis using im_same_refl [OF wf] by auto
  qed
  then obtain m1 where m1: "im_same m m1" "?grow = fail NMO_ERR_NOMEM m1 \<or> ?grow = ok () m1" by blast
  have cap0: "im_capacity m \<noteq> 0" using k by simp
  from m1(2) show ?thesis
  proof
    assume "?grow = fail NMO_ERR_NOMEM m1"
    then have "indexed_map_make_room m = fail NMO_ERR_NOMEM m1"
      unfolding indexed_map_make_room_def using cap0 by simp
    with m1(1) show ?thesis by blast
  next
    assume "?grow = ok () m1"
    then have r: "indexed_map_make_room m = (if im_count m1 \<ge> im_array_capacity m1 then indexed_map_grow_dense m1 else ok () m1)"
      unfolding indexed_map_make_room_def using cap0 by simp
    show ?thesis
    proof (cases "im_count m1 \<ge> im_array_capacity m1")
      case True
      have "im_wf m1" "im_count m1 < 2 ^ 30" using m1(1) small by (simp_all add: im_same_def)
      from im_grow_dense_ok [OF this(1) True this(2)] r True m1(1) show ?thesis by (auto intro: im_same_trans)
    next
      case False
      with r m1(1) show ?thesis by auto
    qed
  qed
qed

lemma im_find_present:
  assumes wf: "im_wf m" and "im_map m x = Some v"
  obtains i d where "i < length (im_slots m)" "im_slots m ! i = OCCUPIED d" "d < im_count m"
    "im_dense m ! d = (x, v)" "indexed_map_find_slot x m = Done (True, int i)"
proof -
  note w = wf [unfolded im_wf_def]
  have sw: "slots_wf fst (im_hash_func m) (im_view m)" using w by blast
  have "entry_of fst (im_view m) x = Some (x, v)" using im_entry_of [OF wf, of x] assms(2) by simp
  from found_at [OF sw this] obtain i where i: "i < length (im_slots m)" "im_view m ! i = OCCUPIED (x, v)"
    "find_key fst (im_hash_func m) x (im_view m) = Some (True, i)" by auto
  then obtain d where d: "im_slots m ! i = OCCUPIED d" "im_dense m ! d = (x, v)" by (auto simp: im_view_OCCUPIED)
  have "d < im_count m" using w d(1) i(1) by blast
  moreover have "slot_int i = int i" using i(1) w by (intro slot_int_small) linarith
  ultimately show ?thesis using i d that im_find_slot_eq [of m x] w by simp
qed

lemma im_find_absent:
  assumes wf: "im_wf m" and "im_map m x = None" and "0 < free_slots (im_slots m)"
  obtains j where "j < length (im_slots m)" "indexed_map_find_slot x m = Done (False, int j)"
    "\<And>b. im_slots m ! j \<noteq> OCCUPIED b" "slots_wf fst (im_hash_func m) ((im_view m)[j := OCCUPIED (x, v)])"
    "\<And>d. free_slots (im_slots m) \<le> Suc (free_slots ((im_slots m)[j := OCCUPIED d]))"
proof -
  note w = wf [unfolded im_wf_def]
  have "entry_of fst (im_view m) (fst (x, v)) = None" using im_entry_of [OF wf, of x] assms(2) by simp
  with im_put_at [of m "(x, v)" thesis] w assms(3) that show ?thesis by simp
qed

lemma im_same_map: "im_same m m' \<Longrightarrow> im_map m' = im_map m \<and> im_room m \<le> im_room m' \<and> im_wf m'"
  by (auto simp: im_same_def im_map_def im_room_def)

lemma im_insert_new:
  assumes wf: "im_wf m" and none: "im_map m x = None" and room: "0 < im_room m" and cap: "im_count m < im_array_capacity m"
  obtains j where "indexed_map_find_slot x m = Done (False, int j)" "j < length (im_slots m)"
    "let m' = m\<lparr>im_dense := im_dense m @ [(x, v)], im_slots := (im_slots m)[j := OCCUPIED (im_count m)],
                im_count := Suc (im_count m)\<rparr>
     in im_wf m' \<and> im_map m' = (im_map m)(x \<mapsto> v) \<and> im_room m \<le> Suc (im_room m')"
proof -
  note w = wf [unfolded im_wf_def]
  have "0 < free_slots (im_slots m)" using room by (simp add: im_room_def)
  from im_find_absent [OF wf none this] obtain j where j: "j < length (im_slots m)"
    "indexed_map_find_slot x m = Done (False, int j)" "\<And>b. im_slots m ! j \<noteq> OCCUPIED b"
    "slots_wf fst (im_hash_func m) ((im_view m)[j := OCCUPIED (x, v)])"
    "free_slots (im_slots m) \<le> Suc (free_slots ((im_slots m)[j := OCCUPIED (im_count m)]))" by metis
  let ?m = "m\<lparr>im_dense := im_dense m @ [(x, v)], im_slots := (im_slots m)[j := OCCUPIED (im_count m)],
                im_count := Suc (im_count m)\<rparr>"
  have view: "im_view ?m = (im_view m)[j := OCCUPIED (x, v)]"
  proof (rule nth_equalityI)
    fix l assume "l < length (im_view ?m)"
    then have l: "l < length (im_slots m)" by simp
    have "im_slots m ! l = OCCUPIED d \<Longrightarrow> d < length (im_dense m)" for d using w l by metis
    then show "im_view ?m ! l = (im_view m)[j := OCCUPIED (x, v)] ! l"
      using l w j(1) by (cases "l = j"; cases "im_slots m ! l") (auto simp: im_view_def nth_append)
  qed simp
  have "(\<exists>l<length (im_slots ?m). im_slots ?m ! l = OCCUPIED d) \<longleftrightarrow> d < Suc (im_count m)" for d
    using occupied_put [OF j(1,3), of "im_count m" d] w by auto
  then have wf': "im_wf ?m" using w j(4) cap unfolding im_wf_def view by simp
  have "x \<notin> fst ` set (im_dense m)" using none by (simp add: im_map_def map_of_eq_None_iff)
  then have "im_map ?m = (im_map m)(x \<mapsto> v)"
    by (auto simp: im_map_def fun_eq_iff map_add_def split: option.splits dest: map_of_SomeD intro: rev_image_eqI)
  with that [OF j(2,1)] wf' j(5) show ?thesis by (simp add: im_room_def)
qed

lemma im_wf_disposed [simp]: "im_wf (m\<lparr>im_disposed := l\<rparr>) = im_wf m"
  by (simp add: im_wf_def im_view_def)

lemma im_replace:
  assumes wf: "im_wf m" and d: "d < im_count m" "im_dense m ! d = (x, u)"
  shows "im_wf (m\<lparr>im_dense := (im_dense m)[d := (x, v)]\<rparr>)"
    and "im_map (m\<lparr>im_dense := (im_dense m)[d := (x, v)]\<rparr>) = (im_map m)(x \<mapsto> v)"
proof -
  note w = wf [unfolded im_wf_def]
  let ?m = "m\<lparr>im_dense := (im_dense m)[d := (x, v)]\<rparr>"
  obtain i where i: "i < length (im_slots m)" "im_slots m ! i = OCCUPIED d" using w d(1) by blast
  have dl: "d < length (im_dense m)" using w d(1) by simp
  have view: "im_view ?m = (im_view m)[i := OCCUPIED (x, v)]"
  proof (rule nth_equalityI)
    fix l assume "l < length (im_view ?m)"
    then have l: "l < length (im_slots m)" by simp
    show "im_view ?m ! l = (im_view m)[i := OCCUPIED (x, v)] ! l"
    proof (cases "l = i")
      case True
      then show ?thesis using i dl by (simp add: im_view_def)
    next
      case False
      have "im_slots m ! l \<noteq> OCCUPIED d"
        using im_slot_unique [OF conjunct1 [OF w] l i(1) _ i(2)] False by blast
      then show ?thesis using l False by (cases "im_slots m ! l") (auto simp: im_view_def)
    qed
  qed simp
  have "im_view m ! i = OCCUPIED (x, u)" using i d(2) by (auto simp: im_view_OCCUPIED)
  from replace_at [OF conjunct1 [OF w] _ this, of "(x, v)"] i(1)
  have r: "slots_wf fst (im_hash_func m) (im_view ?m)"
    "entry_of fst (im_view ?m) = (entry_of fst (im_view m))(x \<mapsto> (x, v))" unfolding view by simp_all
  show wf': "im_wf ?m" using w r(1) by (simp add: im_wf_def)
  show "im_map ?m = (im_map m)(x \<mapsto> v)"
  proof
    fix y
    have "map_option (Pair y) (im_map ?m y) = map_option (Pair y) (((im_map m)(x \<mapsto> v)) y)"
      using fun_cong [OF r(2), of y] im_entry_of [OF wf', of y] im_entry_of [OF wf, of y] by (cases "y = x") simp_all
    then show "im_map ?m y = ((im_map m)(x \<mapsto> v)) y" by (cases "im_map ?m y"; cases "((im_map m)(x \<mapsto> v)) y") auto
  qed
qed

lemma im_insert_law:
  assumes "im_wf m" and "0 < im_room m"
  shows "\<exists>r m'. nmo_indexed_map_insert x v m = Done (r, m') \<and> im_wf m' \<and> im_room m \<le> Suc (im_room m')
      \<and> (r = Inr () \<and> im_map m' = (im_map m)(x \<mapsto> v) \<or> r = Inl NMO_ERR_NOMEM \<and> im_map m' = im_map m)"
proof -
  from make_room_ok [OF assms] obtain m1 where m1: "im_same m m1"
    "indexed_map_make_room m = fail NMO_ERR_NOMEM m1 \<or> indexed_map_make_room m = ok () m1 \<and> im_count m1 < im_array_capacity m1"
    by blast
  note s = im_same_map [OF m1(1)]
  from m1(2) show ?thesis
  proof
    assume "indexed_map_make_room m = fail NMO_ERR_NOMEM m1"
    then show ?thesis using s by (auto simp: nmo_indexed_map_insert_def fail_def)
  next
    assume r: "indexed_map_make_room m = ok () m1 \<and> im_count m1 < im_array_capacity m1"
    have room: "0 < im_room m1" and wf: "im_wf m1" using s assms(2) by linarith+
    note w = wf [unfolded im_wf_def]
    show ?thesis
    proof (cases "im_map m1 x")
      case None
      from im_insert_new [OF wf None room] r obtain j where j: "indexed_map_find_slot x m1 = Done (False, int j)" "j < length (im_slots m1)"
        "let m' = m1\<lparr>im_dense := im_dense m1 @ [(x, v)], im_slots := (im_slots m1)[j := OCCUPIED (im_count m1)],
                im_count := Suc (im_count m1)\<rparr>
         in im_wf m' \<and> im_map m' = (im_map m1)(x \<mapsto> v) \<and> im_room m1 \<le> Suc (im_room m')" by blast
      have "im_count m1 < 2 ^ 30" using room by (simp add: im_room_def)
      with r j(1) w have "nmo_indexed_map_insert x v m = ok () (m1\<lparr>im_dense := im_dense m1 @ [(x, v)],
          im_slots := (im_slots m1)[j := OCCUPIED (im_count m1)], im_count := Suc (im_count m1)\<rparr>)"
        by (simp add: nmo_indexed_map_insert_def sz_add_small)
      with j(3) s show ?thesis unfolding Let_def ok_def by auto
    next
      case (Some u)
      from im_find_present [OF wf Some] obtain i d where i: "i < length (im_slots m1)" "im_slots m1 ! i = OCCUPIED d"
        "d < im_count m1" "im_dense m1 ! d = (x, u)" "indexed_map_find_slot x m1 = Done (True, int i)" by blast
      have "d < length (im_dense m1)" using i(3) w by simp
      with r i have e: "nmo_indexed_map_insert x v m = ok () ((if im_value_dispose m1 then m1\<lparr>im_disposed := im_disposed m1 @ [Inr u]\<rparr> else m1)
          \<lparr>im_dense := (im_dense m1)[d := (x, v)]\<rparr>)"
        by (simp add: nmo_indexed_map_insert_def Let_def)
      have "im_wf (m1\<lparr>im_disposed := l, im_dense := (im_dense m1)[d := (x, v)]\<rparr>)" for l
        using im_replace(1) [OF wf i(3,4), of v] by (simp add: im_wf_def im_view_def)
      then show ?thesis using e im_replace [OF wf i(3,4), of v] s
        by (auto simp: ok_def im_map_def im_room_def)
    qed
  qed
qed

lemma im_entry_law:
  assumes "im_wf m" and "0 < im_room m"
  shows "case im_map m x of None \<Rightarrow> indexed_map_entry x m = Done None
    | Some v \<Rightarrow> \<exists>i d. indexed_map_entry x m = Done (Some (i, d)) \<and> i < length (im_slots m) \<and> im_slots m ! i = OCCUPIED d
        \<and> d < im_count m \<and> im_dense m ! d = (x, v)"
proof (cases "im_map m x")
  case None
  have "0 < free_slots (im_slots m)" using assms(2) by (simp add: im_room_def)
  from im_find_absent [OF assms(1) None this] obtain j where "indexed_map_find_slot x m = Done (False, int j)" by blast
  with None show ?thesis by (simp add: indexed_map_entry_def)
next
  case (Some v)
  from im_find_present [OF assms(1) Some] obtain i d where i: "i < length (im_slots m)" "im_slots m ! i = OCCUPIED d"
    "d < im_count m" "im_dense m ! d = (x, v)" "indexed_map_find_slot x m = Done (True, int i)" by blast
  have "d < length (im_dense m)" using i(3) assms(1) by (simp add: im_wf_def)
  with i Some show ?thesis by (simp add: indexed_map_entry_def)
qed

lemma im_get_law:
  assumes "im_wf m" and "0 < im_room m"
  shows "nmo_indexed_map_get x m = Done (im_map m x)"
  using im_entry_law [OF assms, of x] by (auto simp: nmo_indexed_map_get_def split: option.splits)

section \<open>Removal\<close>

lemma slot_for_dense_Some:
  assumes "i < length ss" "ss ! i = OCCUPIED d" and "\<forall>j<length ss. ss ! j = OCCUPIED d \<longrightarrow> j = i"
  shows "slot_for_dense k ss d = Some (k + i)"
  using assms
proof (induction ss arbitrary: k i)
  case (Cons s ss)
  show ?case
  proof (cases i)
    case 0
    with Cons.prems show ?thesis by simp
  next
    case (Suc l)
    have "s \<noteq> OCCUPIED d" using spec [OF Cons.prems(3), of 0] Suc by auto
    have "\<forall>j<length ss. ss ! j = OCCUPIED d \<longrightarrow> j = l"
    proof (intro allI impI)
      fix j assume "j < length ss" "ss ! j = OCCUPIED d"
      then show "j = l" using spec [OF Cons.prems(3), of "Suc j"] Suc by simp
    qed
    moreover have "l < length ss" "ss ! l = OCCUPIED d" using Cons.prems(1,2) Suc by simp_all
    ultimately have "slot_for_dense (Suc k) ss d = Some (Suc k + l)" by (intro Cons.IH)
    with \<open>s \<noteq> OCCUPIED d\<close> show ?thesis using Suc by simp
  qed
qed simp

text \<open>The slots after a removal: the removed one is a tombstone, and the one of the last entry points to the gap.\<close>

lemma im_remove_slots:
  assumes wf: "im_wf m" and i: "i < length (im_slots m)" "im_slots m ! i = OCCUPIED d" "d < im_count m"
  shows "\<exists>ss. (indexed_map_fill_gap d m)\<lparr>im_dense := take (im_count m - 1) (im_dense (indexed_map_fill_gap d m)),
        im_count := im_count m - 1, im_slots := (im_slots (indexed_map_fill_gap d m))[i := TOMBSTONE]\<rparr>
      = m\<lparr>im_dense := take (im_count m - 1) ((im_dense m)[d := im_dense m ! (im_count m - 1)]),
          im_count := im_count m - 1, im_slots := ss\<rparr>
    \<and> im_count (indexed_map_fill_gap d m) = im_count m \<and> length ss = length (im_slots m)
    \<and> (\<forall>l<length ss. ss ! l = (if l = i then TOMBSTONE else if im_slots m ! l = OCCUPIED (im_count m - 1)
          then OCCUPIED d else im_slots m ! l))"
proof -
  note w = wf [unfolded im_wf_def]
  have uniq: "l = l'" if "l < length (im_slots m)" "l' < length (im_slots m)" "im_slots m ! l = OCCUPIED e" "im_slots m ! l' = OCCUPIED e" for l l' e
    using im_slot_unique [OF conjunct1 [OF w] that] by simp
  let ?last = "im_count m - 1"
  show ?thesis
  proof (cases "d = ?last")
    case True
    have "im_slots m ! l \<noteq> OCCUPIED d" if "l < length (im_slots m)" "l \<noteq> i" for l
      using uniq [OF that(1) i(1) _ i(2)] that(2) by blast
    then have "(im_slots m)[i := TOMBSTONE] ! l = (if l = i then TOMBSTONE else if im_slots m ! l = OCCUPIED ?last
          then OCCUPIED d else im_slots m ! l)" if "l < length (im_slots m)" for l
      using that True by (cases "l = i") simp_all
    moreover have "indexed_map_fill_gap d m = m" using True by (simp add: indexed_map_fill_gap_def)
    moreover have "(im_dense m)[d := im_dense m ! ?last] = im_dense m" using True by simp
    ultimately show ?thesis by (intro exI [of _ "(im_slots m)[i := TOMBSTONE]"]) simp
  next
    case False
    have "?last < im_count m" using i(3) by linarith
    with w obtain il where il: "il < length (im_slots m)" "im_slots m ! il = OCCUPIED ?last" by blast
    have only: "\<forall>j<length (im_slots m). im_slots m ! j = OCCUPIED ?last \<longrightarrow> j = il"
      using uniq [OF _ il(1) _ il(2)] by blast
    have "slot_int il = int il" using il(1) w by (intro slot_int_small) linarith
    with slot_for_dense_Some [OF il only, of 0] have "indexed_map_slot_for_dense ?last
        (m\<lparr>im_dense := (im_dense m)[d := im_dense m ! ?last]\<rparr>) = int il"
      by (simp add: indexed_map_slot_for_dense_def)
    then have g: "indexed_map_fill_gap d m = m\<lparr>im_dense := (im_dense m)[d := im_dense m ! ?last], im_slots := (im_slots m)[il := OCCUPIED d]\<rparr>"
      using False by (simp add: indexed_map_fill_gap_def Let_def)
    let ?ss = "(im_slots m)[il := OCCUPIED d, i := TOMBSTONE]"
    have "?ss ! l = (if l = i then TOMBSTONE else if im_slots m ! l = OCCUPIED ?last then OCCUPIED d else im_slots m ! l)"
      if "l < length ?ss" for l
    proof (cases "l = i \<or> l = il")
      case True
      then show ?thesis using that il by (cases "l = i") simp_all
    next
      case False
      then have "im_slots m ! l \<noteq> OCCUPIED ?last" using only that by auto
      with False show ?thesis by simp
    qed
    then show ?thesis unfolding g by (intro exI [of _ ?ss]) simp
  qed
qed

lemma im_removed:
  assumes wf: "im_wf m" and i: "i < length (im_slots m)" "im_slots m ! i = OCCUPIED d" "d < im_count m"
    and e: "im_dense m ! d = (x, v)" and len: "length ss = length (im_slots m)"
    and ss: "\<And>l. l < length ss \<Longrightarrow> ss ! l = (if l = i then TOMBSTONE else if im_slots m ! l = OCCUPIED (im_count m - 1)
          then OCCUPIED d else im_slots m ! l)"
  shows "im_wf (m\<lparr>im_dense := take (im_count m - 1) ((im_dense m)[d := im_dense m ! (im_count m - 1)]),
          im_count := im_count m - 1, im_slots := ss\<rparr>)" (is "im_wf ?m")
    and "im_map (m\<lparr>im_dense := take (im_count m - 1) ((im_dense m)[d := im_dense m ! (im_count m - 1)]),
          im_count := im_count m - 1, im_slots := ss\<rparr>) = (im_map m)(x := None)"
    and "free_slots ss = free_slots (im_slots m)"
proof -
  note w = wf [unfolded im_wf_def]
  let ?last = "im_count m - 1"
  have uniq: "l = i" if "l < length (im_slots m)" "im_slots m ! l = OCCUPIED d" for l
    using im_slot_unique [OF conjunct1 [OF w] that(1) i(1) that(2) i(2)] by simp
  have occ: "(\<exists>i<length (im_slots m). im_slots m ! i = OCCUPIED c) \<longleftrightarrow> c < im_count m" for c using w by blast
  have dl: "im_count m = length (im_dense m)" using w by blast
  have gap: "take ?last ((im_dense m)[d := im_dense m ! ?last]) ! a = (if a = d then im_dense m ! ?last else im_dense m ! a)"
    if "a < ?last" for a using that i(3) dl by (simp add: nth_list_update)
  have view: "im_view ?m = (im_view m)[i := TOMBSTONE]"
  proof (rule nth_equalityI)
    fix l assume "l < length (im_view ?m)"
    then have l: "l < length (im_slots m)" using len by simp
    show "im_view ?m ! l = (im_view m)[i := TOMBSTONE] ! l"
    proof (cases "im_slots m ! l")
      case (OCCUPIED c)
      have c: "c < im_count m" using occ [of c] l OCCUPIED by blast
      have cd: "c \<noteq> d" if "l \<noteq> i" using uniq l OCCUPIED that by blast
      have sl: "ss ! l = (if l = i then TOMBSTONE else if c = ?last then OCCUPIED d else OCCUPIED c)"
        using ss [of l] l len OCCUPIED by simp
      show ?thesis
      proof (cases "l = i")
        case True
        then show ?thesis using sl l len by (simp add: im_view_def)
      next
        case False
        have "d < ?last" if "c = ?last" using cd [OF False] i(3) that by linarith
        moreover have "c < ?last" if "c \<noteq> ?last" using c that by linarith
        ultimately show ?thesis using False sl l len gap [of d] gap [of c] cd OCCUPIED
          by (cases "c = ?last") (simp_all add: im_view_def)
      qed
    qed (use l len ss i in \<open>auto simp: im_view_def nth_list_update\<close>)
  qed (use len in simp)
  have "im_view m ! i = OCCUPIED (x, v)" using i e by (auto simp: im_view_OCCUPIED)
  note del = entry_of_delete [OF conjunct1 [OF w] _ this]
  have sw: "slots_wf fst (im_hash_func m) (im_view ?m)" and eo: "entry_of fst (im_view ?m) = (entry_of fst (im_view m))(x := None)"
    using del i(1) unfolding view by simp_all
  have occ': "(\<exists>l<length ss. ss ! l = OCCUPIED c) \<longleftrightarrow> c < ?last" for c
  proof
    assume "\<exists>l<length ss. ss ! l = OCCUPIED c"
    then obtain l where l: "l < length ss" "ss ! l = OCCUPIED c" by blast
    with ss [OF l(1)] have "l \<noteq> i" by auto
    show "c < ?last"
    proof (cases "im_slots m ! l = OCCUPIED ?last")
      case True
      then have "c = d" using ss [OF l(1)] l(2) \<open>l \<noteq> i\<close> by simp
      moreover have "d \<noteq> ?last" using uniq [of l] True l(1) len \<open>l \<noteq> i\<close> by auto
      ultimately show ?thesis using i(3) by simp
    next
      case False
      then have "im_slots m ! l = OCCUPIED c" using ss [OF l(1)] l(2) \<open>l \<noteq> i\<close> by simp
      moreover from this False have "c \<noteq> ?last" by auto
      ultimately show ?thesis using occ [of c] l(1) len by (metis Suc_pred' less_SucE gr_implies_not0 not_gr_zero)
    qed
  next
    assume c: "c < ?last"
    show "\<exists>l<length ss. ss ! l = OCCUPIED c"
    proof (cases "c = d")
      case True
      have "?last < im_count m" using c by linarith
      with occ [of ?last] obtain l where l: "l < length (im_slots m)" "im_slots m ! l = OCCUPIED ?last" by blast
      then have "l \<noteq> i" using i(2) c True by auto
      with l ss [of l] len True show ?thesis by auto
    next
      case False
      have "c < im_count m" using c by linarith
      with occ [of c] obtain l where l: "l < length (im_slots m)" "im_slots m ! l = OCCUPIED c" by blast
      then have "l \<noteq> i" using i(2) False by auto
      with l ss [of l] len c show ?thesis by auto
    qed
  qed
  have "?last \<le> im_array_capacity m" using w by linarith
  then show wf': "im_wf ?m" using w sw occ' len i(3) unfolding im_wf_def by simp
  show "im_map ?m = (im_map m)(x := None)"
  proof
    fix y
    have "map_option (Pair y) (im_map ?m y) = map_option (Pair y) (((im_map m)(x := None)) y)"
      using fun_cong [OF eo, of y] im_entry_of [OF wf', of y] im_entry_of [OF wf, of y] by (cases "y = x") simp_all
    then show "im_map ?m y = ((im_map m)(x := None)) y" by (cases "im_map ?m y"; cases "((im_map m)(x := None)) y") auto
  qed
  have "free_slots (im_view ?m) = free_slots (im_view m)"
    unfolding view using i e by (subst free_slots_update) (auto simp: im_view_EMPTY)
  then show "free_slots ss = free_slots (im_slots m)" by simp
qed

lemma im_remove_law:
  assumes "im_wf m" and "0 < im_room m"
  shows "\<exists>m'. nmo_indexed_map_remove x m = Done (im_map m x \<noteq> None, m') \<and> im_wf m'
      \<and> im_room m \<le> im_room m' \<and> im_map m' = (im_map m)(x := None)"
proof (cases "im_map m x")
  case None
  with im_entry_law [OF assms, of x] assms(1) show ?thesis
    by (auto simp: nmo_indexed_map_remove_def)
next
  case (Some v)
  with im_entry_law [OF assms, of x] obtain i d where i: "indexed_map_entry x m = Done (Some (i, d))" "i < length (im_slots m)"
    "im_slots m ! i = OCCUPIED d" "d < im_count m" "im_dense m ! d = (x, v)" by auto
  define q where "q = indexed_map_dispose_entry (x, v) m"
  have q: "im_wf q" "im_slots q = im_slots m" "im_dense q = im_dense m" "im_count q = im_count m"
    using assms(1) by (auto simp: q_def indexed_map_dispose_entry_def Let_def)
  from im_remove_slots [OF q(1), of i d] i(2-4) q obtain ss where ss:
    "(indexed_map_fill_gap d q)\<lparr>im_dense := take (im_count q - 1) (im_dense (indexed_map_fill_gap d q)),
        im_count := im_count q - 1, im_slots := (im_slots (indexed_map_fill_gap d q))[i := TOMBSTONE]\<rparr>
      = q\<lparr>im_dense := take (im_count q - 1) ((im_dense q)[d := im_dense q ! (im_count q - 1)]),
          im_count := im_count q - 1, im_slots := ss\<rparr>"
    "im_count (indexed_map_fill_gap d q) = im_count q" "length ss = length (im_slots q)"
    "\<And>l. l < length ss \<Longrightarrow> ss ! l = (if l = i then TOMBSTONE else if im_slots q ! l = OCCUPIED (im_count q - 1)
          then OCCUPIED d else im_slots q ! l)" by auto
  have "i < length (im_slots q)" "im_slots q ! i = OCCUPIED d" "d < im_count q" "im_dense q ! d = (x, v)"
    using i(2-5) q(2-4) by simp_all
  note r = im_removed [OF q(1) this ss(3,4)]
  have m: "im_map q = im_map m" by (simp add: im_map_def q(3))
  have "nmo_indexed_map_remove x m = Done (True, q\<lparr>im_dense := take (im_count q - 1) ((im_dense q)[d := im_dense q ! (im_count q - 1)]),
          im_count := im_count q - 1, im_slots := ss\<rparr>)"
    unfolding nmo_indexed_map_remove_def i(1) using i(5) ss(1,2) by (simp add: q_def [symmetric] Let_def)
  with r m Some q(2,4) show ?thesis by (auto simp: im_room_def)
qed

interpretation im: kv_store im_wf im_map im_room nmo_indexed_map_insert nmo_indexed_map_remove nmo_indexed_map_get
  by unfold_locales (erule (1) im_insert_law im_remove_law im_get_law)+

section \<open>Properties\<close>

lemma create_in_ok:
  fixes m :: "('k, 'v) indexed_map"
  assumes c: "indexed_map_create_in alloc owns key_size value_size n hash cmp a = Done (Some m, a')" and n: "n \<le> 2 ^ 30"
    and cmp: "\<forall>x y. cmp x y = 0 \<longleftrightarrow> x = y" and sizes: "0 < key_size" "key_size < 32" "0 < value_size" "value_size < 32"
    and sane: "arena_sane a"
  shows "im_wf m \<and> im_map m = Map.empty \<and> im_room m = im_capacity m \<and> n \<le> im_capacity m \<and> 16 \<le> im_capacity m
    \<and> im_slots m = replicate (im_capacity m) EMPTY \<and> im_hash_func m = hash \<and> im_compare_func m = cmp
    \<and> im_count m = 0 \<and> im_dense m = [] \<and> a' = im_arena m \<and> im_capacity m \<le> 2 ^ 30 \<and> (\<exists>k. im_capacity m = 2 ^ k)
    \<and> im_array_capacity m = im_capacity m"
proof -
  obtain k where k: "(if n > 0 then next_capacity n else Done 16) = Done (2 ^ k)" and b: "16 \<le> (2::nat) ^ k"
    "(2::nat) ^ k \<le> 2 ^ 30" "n \<le> 2 ^ k" by (rule initial_capacity [OF n])
  have al: "indexed_map_alignment sizeof_indexed_map = 8" by code_simp
  have "sizeof_indexed_map < 2 ^ 62" by (simp add: sizeof_indexed_map_def)
  then obtain q a1 where q: "nmo_arena_alloc sizeof_indexed_map 8 a = Done (q, a1)" "arena_sane a1"
    using arena_alloc_sane [OF sane, of sizeof_indexed_map 8 thesis] by simp
  have "q \<noteq> None" using c q(1) by (auto simp: indexed_map_create_in_def al split: option.splits)
  define z :: "('k, 'v) indexed_map" where "z = \<lparr>im_arena = a1, im_owns_arena = owns, im_alloc = alloc, im_calls = Suc (Suc 0),
                  im_key_size = key_size, im_value_size = value_size, im_capacity = 2 ^ k,
                  im_array_capacity = 0, im_count = 0, im_slots = replicate (2 ^ k) EMPTY, im_dense = [],
                  im_hash_func = hash, im_compare_func = cmp,
                  im_key_dispose = False, im_value_dispose = False, im_disposed = []\<rparr>"
  have z: "im_count z = 0" "im_capacity z = 2 ^ k" "im_slots z = replicate (2 ^ k) EMPTY" "im_dense z = []"
    "im_hash_func z = hash" "im_compare_func z = cmp" by (simp_all add: z_def)
  have "(2::nat) ^ k * 8 < 2 ^ 64" using b(2) by simp
  with c q(1) \<open>q \<noteq> None\<close> k b(1) have d: "bindE (indexed_map_allocate_dense (2 ^ k) z) (\<lambda>(x, m). case x of
      Inl _ \<Rightarrow> Done (None, im_arena m) | Inr _ \<Rightarrow> Done (Some (m\<lparr>im_count := 0\<rparr>), im_arena m)) = Done (Some m, a')"
    unfolding z_def by (auto simp: indexed_map_create_in_def al indexed_map_allocate_hash_def eff_simps Let_def split: if_splits)
  have wf: "im_wf z" using b sizes cmp q(2) slots_wf_fresh [of fst hash k] by (simp add: im_wf_def im_view_def z_def)
  have "0 < (2::nat) ^ k" "(2::nat) ^ k \<le> 2 ^ 32" "im_count z \<le> 2 ^ k" using b(2) z(1) by simp_all
  from allocate_dense_ok [OF wf this] obtain e where e: "arena_sane e"
    "indexed_map_allocate_dense (2 ^ k) z = fail NMO_ERR_NOMEM (z\<lparr>im_arena := e\<rparr>)
      \<or> indexed_map_allocate_dense (2 ^ k) z = ok () (z\<lparr>im_arena := e, im_array_capacity := 2 ^ k\<rparr>)" by blast
  have m: "m = z\<lparr>im_arena := e, im_array_capacity := 2 ^ k\<rparr>" "a' = e"
    using d e(2) z(1) by (auto simp: eff_simps)
  have "im_wf m" using wf e(1) b z(4) unfolding m(1) by (simp add: im_wf_def im_view_def)
  with m b z show ?thesis by (auto simp: im_map_def im_room_def)
qed

lemma created_map:
  assumes "nmo_indexed_map_create alloc oa os (Some a) key_size value_size n hash cmp = Done (Some m, b)" and "n \<le> 2 ^ 30"
    and "\<forall>x y. cmp x y = 0 \<longleftrightarrow> x = y" and "key_size < 32" "value_size < 32" and "arena_sane a"
  shows "im_wf m \<and> im_map m = Map.empty \<and> im_room m = im_capacity m \<and> n \<le> im_capacity m \<and> 16 \<le> im_capacity m
    \<and> im_slots m = replicate (im_capacity m) EMPTY \<and> im_hash_func m = hash \<and> im_compare_func m = cmp
    \<and> im_count m = 0 \<and> im_dense m = [] \<and> b = Some (im_arena m) \<and> im_capacity m \<le> 2 ^ 30 \<and> (\<exists>k. im_capacity m = 2 ^ k)
    \<and> im_array_capacity m = im_capacity m"
proof -
  from assms(1) obtain a' where c: "indexed_map_create_in alloc False key_size value_size n hash cmp a = Done (Some m, a')"
    "b = Some a'" "0 < key_size" "0 < value_size"
    by (auto simp: nmo_indexed_map_create_def bindE_Done_iff split: if_splits)
  from create_in_ok [OF c(1) assms(2,3) c(3) assms(4) c(4) assms(5,6)] c(2) show ?thesis by blast
qed

text \<open>
  C11: an indexed map answers any sequence of insertions, removals and look-ups, no longer than the
  capacity asked for, as a finite map; and afterwards the indices below its count enumerate exactly the
  entries, each key once.
\<close>

theorem indexed_map_is_an_enumerated_map:
  assumes "nmo_indexed_map_create alloc oa os (Some a) key_size value_size n hash cmp = Done (Some m, b)" and "n \<le> 2 ^ 30"
    and "\<forall>x y. cmp x y = 0 \<longleftrightarrow> x = y" and "key_size < 32" "value_size < 32" and "arena_sane a"
    and "length ops \<le> n"
  shows "\<exists>rs m'. run_store nmo_indexed_map_insert nmo_indexed_map_remove nmo_indexed_map_get ops m = Done (rs, m')
    \<and> conforms ops Map.empty rs (im_map m')
    \<and> (\<forall>x v. im_map m' x = Some v \<longleftrightarrow> (\<exists>i<nmo_indexed_map_get_count m'. nmo_indexed_map_get_at i m' = Done (Some (x, v))))
    \<and> (\<forall>i j x. nmo_indexed_map_get_key_at i m' = Done (Some x) \<longrightarrow> nmo_indexed_map_get_key_at j m' = Done (Some x) \<longrightarrow> i = j)"
proof -
  note c = created_map [OF assms(1-6)]
  then have "length ops \<le> im_room m" using assms(7) by simp
  with im.run_store_ok [of m ops] c obtain rs m' where r: "im_wf m'" "conforms ops Map.empty rs (im_map m')"
    "run_store nmo_indexed_map_insert nmo_indexed_map_remove nmo_indexed_map_get ops m = Done (rs, m')" by auto
  have n: "im_count m' = length (im_dense m')" using r(1) by (simp add: im_wf_def)
  note d = im_distinct [OF r(1)]
  have "im_map m' x = Some v \<longleftrightarrow> (\<exists>i<nmo_indexed_map_get_count m'. nmo_indexed_map_get_at i m' = Done (Some (x, v)))" for x v
    using d n by (auto simp: im_map_def nmo_indexed_map_get_count_def nmo_indexed_map_get_at_def in_set_conv_nth not_le)
  moreover have "i = j" if "nmo_indexed_map_get_key_at i m' = Done (Some x)" "nmo_indexed_map_get_key_at j m' = Done (Some x)" for i j x
    using that n nth_eq_iff_index_eq [OF d, of i j] by (auto simp: nmo_indexed_map_get_key_at_def split: if_splits)
  ultimately show ?thesis using r(2,3) by blast
qed

text \<open>Over an allocator and an arena that never refuse, the map is created.\<close>

lemma created_exists:
  assumes a: "arena_sane a" "arena_grants a" and n: "n \<le> 2 ^ 30"
    and sizes: "0 < key_size" "key_size < 32" "0 < value_size" "value_size < 32"
  shows "\<exists>m b. nmo_indexed_map_create (\<lambda>_ _. True) oa os (Some a) key_size value_size n hash cmp = Done (Some m, b)
    \<and> im_alloc m = (\<lambda>_ _. True) \<and> arena_grants (im_arena m)"
proof -
  obtain k where k: "(if n > 0 then next_capacity n else Done 16) = Done (2 ^ k)" and b: "16 \<le> (2::nat) ^ k"
    "(2::nat) ^ k \<le> 2 ^ 30" by (rule initial_capacity [OF n])
  have al: "indexed_map_alignment sizeof_indexed_map = 8" by code_simp
  have "sizeof_indexed_map < 2 ^ 62" "0 < sizeof_indexed_map" by (simp_all add: sizeof_indexed_map_def)
  then obtain q a1 where q: "nmo_arena_alloc sizeof_indexed_map 8 a = Done (Some q, a1)" "arena_sane a1" "arena_grants a1"
    using arena_alloc_sane [OF a(1), of sizeof_indexed_map 8 thesis] a(2) by fastforce
  have lim: "2 ^ k * s < 2 ^ 62" if "s < 32" for s :: nat
  proof -
    have "2 ^ k * s \<le> 2 ^ 30 * 32" using b(2) that by (intro mult_le_mono) auto
    then show ?thesis by simp
  qed
  have dv: "\<not> (2 ^ 64 - 1) div s < 2 ^ k" if "0 < s" "s < 32" for s :: nat
    using lim [OF that(2)] that(1) by (simp add: not_less less_eq_div_iff_mult_less_eq)
  obtain r a2 where r: "nmo_arena_alloc (2 ^ k * key_size) (indexed_map_alignment key_size) a1 = Done (Some r, a2)"
    "arena_sane a2" "arena_grants a2"
    using arena_alloc_sane [OF q(2) lim [OF sizes(2)] small_alignment [OF sizes(1,2)], of thesis] q(3) sizes(1) by fastforce
  obtain p a3 where p: "nmo_arena_alloc (2 ^ k * value_size) (indexed_map_alignment value_size) a2 = Done (Some p, a3)"
    "arena_grants a3"
    using arena_alloc_sane [OF r(2) lim [OF sizes(4)] small_alignment [OF sizes(3,4)], of thesis] r(3) sizes(3) by fastforce
  have "(2::nat) ^ k * 8 < 2 ^ 64" using b(2) by simp
  then show ?thesis using k q(1) r(1) p dv [OF sizes(1,2)] dv [OF sizes(3,4)] sizes
    by (simp add: nmo_indexed_map_create_def indexed_map_create_in_def al indexed_map_allocate_hash_def
        indexed_map_allocate_dense_def eff_simps Let_def)
qed

theorem indexed_map_is_an_enumerated_map_witness:
  "\<exists>a m b rs m'. nmo_arena_create (\<lambda>_ _. True) (\<lambda>_ _. 0) 0 = Done (Some a)
    \<and> nmo_indexed_map_create (\<lambda>_ _. True) (\<lambda>_ _. True) (\<lambda>_ _. 0) (Some a) 4 8 64 nmo_map_hash_uint32
        (\<lambda>x y. if x = y then 0 else 1) = Done (Some m, b)
    \<and> run_store nmo_indexed_map_insert nmo_indexed_map_remove nmo_indexed_map_get
        [Put 7 True, Put 9 False, Delete 7, Lookup 9] m = Done (rs, m')
    \<and> conforms [Put 7 True, Put 9 False, Delete 7, Lookup 9] Map.empty rs (im_map m')"
proof -
  obtain a where a: "nmo_arena_create (\<lambda>_ _. True) (\<lambda>_ _. 0) 0 = Done (Some a)" "arena_sane a" "arena_grants a"
    by (rule default_arena_exists)
  obtain m :: "(u32, bool) indexed_map" and b where m: "nmo_indexed_map_create (\<lambda>_ _. True) (\<lambda>_ _. True) (\<lambda>_ _. 0) (Some a) 4 8 64 nmo_map_hash_uint32
        (\<lambda>x y. if x = y then 0 else 1) = Done (Some m, b)" using created_exists [OF a(2,3), of 64 4 8] by fastforce
  have "\<forall>x y :: u32. (if x = y then 0 else 1 :: int) = 0 \<longleftrightarrow> x = y" by simp
  from indexed_map_is_an_enumerated_map [OF m _ this _ _ a(2), of "[Put 7 True, Put 9 False, Delete 7, Lookup 9]"] m a(1)
  show ?thesis by auto
qed

end
