(* ===== verification/ByteIO.thy ===== *)
theory ByteIO
  imports NmoPrelude
begin

text \<open>
  The byte stream interface, \<^verbatim>\<open>src/io/io.c\<close>. A stream is a record of function pointers, each of
  which may be NULL, and the handle they work on; every call of the model returns the interface with
  the handle as the implementation left it. The two locales at the end are what the file format code
  relies on: a source delivers the bytes it holds in order, a sink appends the bytes it is given.
\<close>

section \<open>The interface\<close>

datatype nmo_seek_origin = NMO_SEEK_SET | NMO_SEEK_CUR | NMO_SEEK_END

record 'h nmo_io_interface =
  io_read :: "(nat \<Rightarrow> 'h \<Rightarrow> (u8 list, 'h) cres) option"
  io_write :: "(u8 list \<Rightarrow> 'h \<Rightarrow> (unit, 'h) cres) option"
  io_seek :: "(int \<Rightarrow> nmo_seek_origin \<Rightarrow> 'h \<Rightarrow> (unit, 'h) cres) option"
  io_tell :: "('h \<Rightarrow> int) option"
  io_flush :: "('h \<Rightarrow> (unit, 'h) cres) option"
  io_close :: "('h \<Rightarrow> (unit, 'h) cres) option"
  io_handle :: 'h

text \<open>A call through a function pointer.\<close>

definition on_handle :: "('h \<Rightarrow> ('a, 'h) cres) \<Rightarrow> 'h nmo_io_interface \<Rightarrow> ('a, 'h nmo_io_interface) cres" where
  "on_handle f io = bindE (f (io_handle io)) (\<lambda>(r, h). Done (r, io\<lparr>io_handle := h\<rparr>))"

text \<open>A read yields the bytes it put into the buffer, so their number is \<^verbatim>\<open>*bytes_read\<close>.\<close>

definition nmo_io_read :: "nat \<Rightarrow> 'h nmo_io_interface \<Rightarrow> (u8 list, 'h nmo_io_interface) cres" where
  "nmo_io_read n io =
     (case io_read io of None \<Rightarrow> fail NMO_ERR_NOT_IMPLEMENTED io | Some f \<Rightarrow> on_handle (f n) io)"

definition nmo_io_write :: "u8 list \<Rightarrow> 'h nmo_io_interface \<Rightarrow> (unit, 'h nmo_io_interface) cres" where
  "nmo_io_write buffer io =
     (case io_write io of None \<Rightarrow> fail NMO_ERR_NOT_IMPLEMENTED io | Some f \<Rightarrow> on_handle (f buffer) io)"

definition nmo_io_seek :: "int \<Rightarrow> nmo_seek_origin \<Rightarrow> 'h nmo_io_interface \<Rightarrow> (unit, 'h nmo_io_interface) cres" where
  "nmo_io_seek offset origin io =
     (case io_seek io of None \<Rightarrow> fail NMO_ERR_NOT_IMPLEMENTED io | Some f \<Rightarrow> on_handle (f offset origin) io)"

definition nmo_io_tell :: "'h nmo_io_interface \<Rightarrow> int" where
  "nmo_io_tell io = (case io_tell io of None \<Rightarrow> -1 | Some f \<Rightarrow> f (io_handle io))"

definition nmo_io_flush :: "'h nmo_io_interface \<Rightarrow> (unit, 'h nmo_io_interface) cres" where
  "nmo_io_flush io =
     (case io_flush io of None \<Rightarrow> fail NMO_ERR_NOT_SUPPORTED io | Some f \<Rightarrow> on_handle f io)"

definition nmo_io_close :: "'h nmo_io_interface \<Rightarrow> (unit, 'h nmo_io_interface) cres" where
  "nmo_io_close io = (case io_close io of None \<Rightarrow> ok () io | Some f \<Rightarrow> on_handle f io)"

section \<open>Whole values\<close>

definition nmo_io_read_exact :: "nat \<Rightarrow> 'h nmo_io_interface \<Rightarrow> (u8 list, 'h nmo_io_interface) cres" where
  "nmo_io_read_exact n io =
     bindR (nmo_io_read n io) (\<lambda>bs io. if length bs \<noteq> n then fail NMO_ERR_EOF io else ok bs io)"

definition nmo_io_read_u8 :: "'h nmo_io_interface \<Rightarrow> (u8, 'h nmo_io_interface) cres" where
  "nmo_io_read_u8 io = bindR (nmo_io_read_exact 1 io) (\<lambda>bs. ok (hd bs))"

definition nmo_io_read_u16 :: "'h nmo_io_interface \<Rightarrow> (u16, 'h nmo_io_interface) cres" where
  "nmo_io_read_u16 io = bindR (nmo_io_read_exact 2 io) (\<lambda>bs. ok (bytes_word (bs ! 0) (bs ! 1)))"

definition nmo_io_read_u32 :: "'h nmo_io_interface \<Rightarrow> (u32, 'h nmo_io_interface) cres" where
  "nmo_io_read_u32 io = bindR (nmo_io_read_exact 4 io) (\<lambda>bs. ok (hd (dwords_of_bytes bs)))"

text \<open>A 64-bit value in memory: its lower half, then its upper half.\<close>

definition dwords_qword :: "u32 list \<Rightarrow> u64" where
  "dwords_qword ds = ucast (ds ! 0) OR push_bit 32 (ucast (ds ! 1))"

definition qword_dwords :: "u64 \<Rightarrow> u32 list" where
  "qword_dwords w = [ucast w, ucast (drop_bit 32 w)]"

definition nmo_io_read_u64 :: "'h nmo_io_interface \<Rightarrow> (u64, 'h nmo_io_interface) cres" where
  "nmo_io_read_u64 io = bindR (nmo_io_read_exact 8 io) (\<lambda>bs. ok (dwords_qword (dwords_of_bytes bs)))"

definition nmo_io_write_u8 :: "u8 \<Rightarrow> 'h nmo_io_interface \<Rightarrow> (unit, 'h nmo_io_interface) cres" where
  "nmo_io_write_u8 value = nmo_io_write [value]"

definition nmo_io_write_u16 :: "u16 \<Rightarrow> 'h nmo_io_interface \<Rightarrow> (unit, 'h nmo_io_interface) cres" where
  "nmo_io_write_u16 value = nmo_io_write (word_bytes value)"

definition nmo_io_write_u32 :: "u32 \<Rightarrow> 'h nmo_io_interface \<Rightarrow> (unit, 'h nmo_io_interface) cres" where
  "nmo_io_write_u32 value = nmo_io_write (dword_bytes value)"

definition nmo_io_write_u64 :: "u64 \<Rightarrow> 'h nmo_io_interface \<Rightarrow> (unit, 'h nmo_io_interface) cres" where
  "nmo_io_write_u64 value = nmo_io_write (bytes_of_dwords (qword_dwords value))"

lemma qword_dwords_qword [simp]: "dwords_qword (qword_dwords w) = w"
  by (rule bit_word_eqI) (auto simp: dwords_qword_def qword_dwords_def bit_simps not_less)

lemma dwords_of_dword_bytes [simp]: "dwords_of_bytes (dword_bytes d) = [d]"
  using dwords_of_bytes_of_dwords [of "[d]"] by simp

lemma word_bytes_word [simp]: "bytes_word (word_bytes w ! 0) (word_bytes w ! 1) = w"
  by (rule bit_word_eqI) (auto simp: bytes_word_def word_bytes_def bit_simps not_less)

section \<open>Sources\<close>

text \<open>
  A source holds the bytes that are still to come. A read delivers as many of them as there are, up
  to the number asked for.
\<close>

locale byte_source =
  fixes live :: "'h nmo_io_interface \<Rightarrow> bool" and pending :: "'h nmo_io_interface \<Rightarrow> u8 list"
  assumes read_law: "live io \<Longrightarrow> n < 2 ^ 64 \<Longrightarrow>
    \<exists>io'. nmo_io_read n io = ok (take n (pending io)) io' \<and> live io' \<and> pending io' = drop n (pending io)"
begin

lemma read_exact_ok:
  assumes "live io" and "pending io = bs @ rest" and "length bs < 2 ^ 64"
  shows "\<exists>io'. nmo_io_read_exact (length bs) io = ok bs io' \<and> live io' \<and> pending io' = rest"
  using read_law [OF assms(1,3)] assms(2) by (auto simp: nmo_io_read_exact_def)

lemma read_exact_eof:
  assumes "live io" and "length (pending io) < n" and "n < 2 ^ 64"
  shows "\<exists>io'. nmo_io_read_exact n io = fail NMO_ERR_EOF io' \<and> live io' \<and> pending io' = []"
  using read_law [OF assms(1,3)] assms(2) by (auto simp: nmo_io_read_exact_def)

lemma read_u8_ok:
  assumes "live io" and "pending io = b # rest"
  shows "\<exists>io'. nmo_io_read_u8 io = ok b io' \<and> live io' \<and> pending io' = rest"
  using read_exact_ok [OF assms(1), of "[b]" rest] assms(2) by (auto simp: nmo_io_read_u8_def)

lemma read_u16_ok:
  assumes "live io" and "pending io = word_bytes w @ rest"
  shows "\<exists>io'. nmo_io_read_u16 io = ok w io' \<and> live io' \<and> pending io' = rest"
proof -
  have "length (word_bytes w) = 2" by (simp add: word_bytes_def)
  with read_exact_ok [OF assms] show ?thesis
    using word_bytes_word [of w] by (auto simp: nmo_io_read_u16_def simp del: word_bytes_word)
qed

lemma read_u32_ok:
  assumes "live io" and "pending io = dword_bytes d @ rest"
  shows "\<exists>io'. nmo_io_read_u32 io = ok d io' \<and> live io' \<and> pending io' = rest"
  using read_exact_ok [OF assms] by (auto simp: nmo_io_read_u32_def)

lemma read_u32_eof:
  assumes "live io" and "length (pending io) < 4"
  shows "\<exists>io'. nmo_io_read_u32 io = fail NMO_ERR_EOF io' \<and> live io' \<and> pending io' = []"
  using read_exact_eof [OF assms] by (auto simp: nmo_io_read_u32_def)

lemma read_u64_ok:
  assumes "live io" and "pending io = bytes_of_dwords (qword_dwords w) @ rest"
  shows "\<exists>io'. nmo_io_read_u64 io = ok w io' \<and> live io' \<and> pending io' = rest"
proof -
  have "length (bytes_of_dwords (qword_dwords w)) = 8" by (simp add: qword_dwords_def)
  with read_exact_ok [OF assms] show ?thesis by (auto simp: nmo_io_read_u64_def)
qed

end

section \<open>Sinks\<close>

text \<open>A sink with room for the bytes appends them to what was written.\<close>

locale byte_sink =
  fixes capable :: "nat \<Rightarrow> 'h nmo_io_interface \<Rightarrow> bool" and written :: "'h nmo_io_interface \<Rightarrow> u8 list"
  assumes write_law: "capable (length bs + n) io \<Longrightarrow>
    \<exists>io'. nmo_io_write bs io = ok () io' \<and> capable n io' \<and> written io' = written io @ bs"
begin

lemma write_u8_ok:
  assumes "capable (n + 1) io"
  shows "\<exists>io'. nmo_io_write_u8 b io = ok () io' \<and> capable n io' \<and> written io' = written io @ [b]"
  using write_law [of "[b]" n io] assms by (simp add: nmo_io_write_u8_def)

lemma write_u32_ok:
  assumes "capable (n + 4) io"
  shows "\<exists>io'. nmo_io_write_u32 d io = ok () io' \<and> capable n io' \<and> written io' = written io @ dword_bytes d"
  using write_law [of "dword_bytes d" n io] assms by (simp add: nmo_io_write_u32_def add.commute)

lemma write_u64_ok:
  assumes "capable (n + 8) io"
  shows "\<exists>io'. nmo_io_write_u64 w io = ok () io' \<and> capable n io'
    \<and> written io' = written io @ bytes_of_dwords (qword_dwords w)"
  using write_law [of "bytes_of_dwords (qword_dwords w)" n io] assms
  by (simp add: nmo_io_write_u64_def qword_dwords_def add.commute)

end

end
