(* ===== verification/IoMemory.thy ===== *)
theory IoMemory
  imports ByteIO
begin

text \<open>
  Streams in memory, \<^verbatim>\<open>src/io/io_memory.c\<close>: the read-only handle over a caller's buffer, the write
  handle whose buffer grows, and the older context \<^verbatim>\<open>nmo_io_memory\<close> which has the fields of the write
  handle and one more.

  A buffer is the list of its bytes, over its whole capacity. What a new block of memory holds before
  it is written is a parameter of the model: \<open>fresh k i\<close> is byte \<open>i\<close> of the block that call \<open>k\<close> of the
  allocator returned, and \<open>alloc k n\<close> says whether that call, for \<open>n\<close> bytes, succeeds.
\<close>

section \<open>Offsets\<close>

text \<open>The cast of a \<^verbatim>\<open>size_t\<close> to \<^verbatim>\<open>int64_t\<close>, and signed addition, which must not overflow.\<close>

definition to_int64 :: "nat \<Rightarrow> int" where
  "to_int64 n = sint (word_of_nat n :: u64)"

definition add_int64 :: "int \<Rightarrow> int \<Rightarrow> int eff" where
  "add_int64 a b = (if -(2 ^ 63) \<le> a + b \<and> a + b < 2 ^ 63 then Done (a + b) else Undefined)"

lemma to_int64_small: "n < 2 ^ 63 \<Longrightarrow> to_int64 n = int n"
  by (simp add: to_int64_def signed_of_nat signed_take_bit_int_eq_self)

fun seek_target :: "nmo_seek_origin \<Rightarrow> int \<Rightarrow> nat \<Rightarrow> nat \<Rightarrow> int eff" where
  "seek_target NMO_SEEK_SET offset position len = Done offset"
| "seek_target NMO_SEEK_CUR offset position len = add_int64 (to_int64 position) offset"
| "seek_target NMO_SEEK_END offset position len = add_int64 (to_int64 len) offset"

text \<open>\<^verbatim>\<open>memcpy\<close> out of a buffer and into one. Copying nothing touches no memory.\<close>

definition copy_out :: "u8 list \<Rightarrow> nat \<Rightarrow> nat \<Rightarrow> u8 list eff" where
  "copy_out buffer position n =
     (if n = 0 then Done []
      else if position + n \<le> length buffer then Done (take n (drop position buffer)) else Undefined)"

definition copy_in :: "u8 list \<Rightarrow> nat \<Rightarrow> u8 list \<Rightarrow> u8 list eff" where
  "copy_in buffer position bs =
     (if bs = [] then Done buffer
      else if position + length bs \<le> length buffer then Done (mem_blit buffer position bs) else Undefined)"

section \<open>The read-only handle\<close>

record nmo_memory_read_handle =
  rh_data :: "u8 list"
  rh_size :: nat
  rh_position :: nat

definition memory_read_io_read :: "nat \<Rightarrow> nmo_memory_read_handle \<Rightarrow> (u8 list, nmo_memory_read_handle) cres" where
  "memory_read_io_read n mh =
     (let available = sz_sub (rh_size mh) (rh_position mh);
          to_read = (if n < available then n else available)
      in if to_read > 0 then
           bindE (copy_out (rh_data mh) (rh_position mh) to_read) (\<lambda>bs.
             ok bs (mh\<lparr>rh_position := sz_add (rh_position mh) to_read\<rparr>))
         else ok [] mh)"

definition memory_read_io_write :: "u8 list \<Rightarrow> nmo_memory_read_handle \<Rightarrow> (unit, nmo_memory_read_handle) cres" where
  "memory_read_io_write buffer mh = fail NMO_ERR_NOT_IMPLEMENTED mh"

definition memory_read_io_seek ::
  "int \<Rightarrow> nmo_seek_origin \<Rightarrow> nmo_memory_read_handle \<Rightarrow> (unit, nmo_memory_read_handle) cres" where
  "memory_read_io_seek offset origin mh =
     bindE (seek_target origin offset (rh_position mh) (rh_size mh)) (\<lambda>new_pos.
       if new_pos < 0 \<or> nat new_pos > rh_size mh then fail NMO_ERR_INVALID_OFFSET mh
       else ok () (mh\<lparr>rh_position := nat new_pos\<rparr>))"

definition memory_read_io_tell :: "nmo_memory_read_handle \<Rightarrow> int" where
  "memory_read_io_tell mh = to_int64 (rh_position mh)"

definition memory_read_io_close :: "nmo_memory_read_handle \<Rightarrow> (unit, nmo_memory_read_handle) cres" where
  "memory_read_io_close mh = ok () mh"

definition sizeof_io_interface :: nat where "sizeof_io_interface = 56"

definition memory_reader :: "nmo_memory_read_handle \<Rightarrow> nmo_memory_read_handle nmo_io_interface" where
  "memory_reader mh =
     \<lparr>io_read = Some memory_read_io_read, io_write = Some memory_read_io_write,
      io_seek = Some memory_read_io_seek, io_tell = Some memory_read_io_tell,
      io_flush = None, io_close = Some memory_read_io_close, io_handle = mh\<rparr>"

definition nmo_memory_io_open_read ::
  "(nat \<Rightarrow> nat \<Rightarrow> bool) \<Rightarrow> u8 list option \<Rightarrow> nat \<Rightarrow> nmo_memory_read_handle nmo_io_interface option" where
  "nmo_memory_io_open_read alloc data len =
     (case data of
        None \<Rightarrow> None
      | Some bs \<Rightarrow>
          if len = 0 then None
          else if \<not> alloc 0 24 then None
          else if \<not> alloc 1 sizeof_io_interface then None
          else Some (memory_reader \<lparr>rh_data = bs, rh_size = len, rh_position = 0\<rparr>))"

section \<open>The write handle\<close>

record nmo_memory_write_handle =
  wh_alloc :: "nat \<Rightarrow> nat \<Rightarrow> bool"
  wh_fresh :: "nat \<Rightarrow> nat \<Rightarrow> u8"
  wh_calls :: nat
  wh_data :: "u8 list option"
  wh_size :: nat
  wh_capacity :: nat
  wh_position :: nat

definition wh_bytes :: "'x nmo_memory_write_handle_scheme \<Rightarrow> u8 list" where
  "wh_bytes mh = (case wh_data mh of None \<Rightarrow> [] | Some bs \<Rightarrow> bs)"

definition memory_read_at :: "nat \<Rightarrow> 'x nmo_memory_write_handle_scheme
    \<Rightarrow> (u8 list \<times> 'x nmo_memory_write_handle_scheme) eff" where
  "memory_read_at n mh =
     (let available = sz_sub (wh_size mh) (wh_position mh);
          to_read = (if n < available then n else available)
      in if to_read > 0 then
           bindE (copy_out (wh_bytes mh) (wh_position mh) to_read) (\<lambda>bs.
             Done (bs, mh\<lparr>wh_position := sz_add (wh_position mh) to_read\<rparr>))
         else Done ([], mh))"

definition memory_write_io_read :: "nat \<Rightarrow> nmo_memory_write_handle \<Rightarrow> (u8 list, nmo_memory_write_handle) cres" where
  "memory_write_io_read n mh = bindE (memory_read_at n mh) (\<lambda>(bs, mh). ok bs mh)"

text \<open>
  The growth: double the capacity until it suffices, ask for a block, copy what was written. The
  result tells whether the block was granted.
\<close>

definition memory_grow :: "nat \<Rightarrow> 'x nmo_memory_write_handle_scheme
    \<Rightarrow> (bool \<times> 'x nmo_memory_write_handle_scheme) eff" where
  "memory_grow required mh =
     (case grow_until (\<lambda>c. sz_mul c 2) required (if wh_capacity mh = 0 then 64 else wh_capacity mh) of
        None \<Rightarrow> Diverges
      | Some new_capacity \<Rightarrow>
          let k = wh_calls mh; mh = mh\<lparr>wh_calls := k + 1\<rparr>
          in if \<not> wh_alloc mh k new_capacity then Done (False, mh)
             else
               let kept = (if wh_data mh \<noteq> None \<and> wh_size mh > 0 then wh_size mh else 0)
               in bindE (copy_out (wh_bytes mh) 0 kept) (\<lambda>bs.
                    Done (True, mh\<lparr>wh_data := Some (bs @ map (wh_fresh mh k) [kept ..< new_capacity]),
                                   wh_capacity := new_capacity\<rparr>)))"

text \<open>The copy at the position, and the new size.\<close>

definition memory_put :: "u8 list \<Rightarrow> 'x nmo_memory_write_handle_scheme \<Rightarrow> 'x nmo_memory_write_handle_scheme eff" where
  "memory_put bs mh =
     bindE (copy_in (wh_bytes mh) (wh_position mh) bs) (\<lambda>buffer.
       let position = sz_add (wh_position mh) (length bs)
       in Done (mh\<lparr>wh_data := (if bs = [] then wh_data mh else Some buffer), wh_position := position,
                   wh_size := (if position > wh_size mh then position else wh_size mh)\<rparr>))"

definition memory_write_io_write :: "u8 list \<Rightarrow> nmo_memory_write_handle \<Rightarrow> (unit, nmo_memory_write_handle) cres" where
  "memory_write_io_write buffer mh =
     (let required = sz_add (wh_position mh) (length buffer)
      in bindE (if required > wh_capacity mh then memory_grow required mh else Done (True, mh)) (\<lambda>(granted, mh).
           if \<not> granted then fail NMO_ERR_NOMEM mh
           else bindE (memory_put buffer mh) (ok ())))"

definition memory_write_io_seek ::
  "int \<Rightarrow> nmo_seek_origin \<Rightarrow> nmo_memory_write_handle \<Rightarrow> (unit, nmo_memory_write_handle) cres" where
  "memory_write_io_seek offset origin mh =
     bindE (seek_target origin offset (wh_position mh) (wh_size mh)) (\<lambda>new_pos.
       if new_pos < 0 then fail NMO_ERR_INVALID_OFFSET mh
       else ok () (mh\<lparr>wh_position := nat new_pos\<rparr>))"

definition memory_write_io_tell :: "nmo_memory_write_handle \<Rightarrow> int" where
  "memory_write_io_tell mh = to_int64 (wh_position mh)"

definition memory_write_io_close :: "nmo_memory_write_handle \<Rightarrow> (unit, nmo_memory_write_handle) cres" where
  "memory_write_io_close mh = ok () (mh\<lparr>wh_data := None\<rparr>)"

definition memory_writer :: "nmo_memory_write_handle \<Rightarrow> nmo_memory_write_handle nmo_io_interface" where
  "memory_writer mh =
     \<lparr>io_read = Some memory_write_io_read, io_write = Some memory_write_io_write,
      io_seek = Some memory_write_io_seek, io_tell = Some memory_write_io_tell,
      io_flush = None, io_close = Some memory_write_io_close, io_handle = mh\<rparr>"

text \<open>Call 0 of the allocator is for the handle, call 1 for the buffer if there is one.\<close>

definition nmo_memory_io_open_write ::
  "(nat \<Rightarrow> nat \<Rightarrow> bool) \<Rightarrow> (nat \<Rightarrow> nat \<Rightarrow> u8) \<Rightarrow> nat \<Rightarrow> nmo_memory_write_handle nmo_io_interface option" where
  "nmo_memory_io_open_write alloc fresh initial_capacity =
     (let calls = (if initial_capacity > 0 then 2 else 1)
      in if \<not> alloc 0 32 then None
         else if initial_capacity > 0 \<and> \<not> alloc 1 initial_capacity then None
         else if \<not> alloc calls sizeof_io_interface then None
         else Some (memory_writer
           \<lparr>wh_alloc = alloc, wh_fresh = fresh, wh_calls = calls + 1,
            wh_data = (if initial_capacity > 0 then Some (map (fresh 1) [0 ..< initial_capacity]) else None),
            wh_size = 0, wh_capacity = initial_capacity, wh_position = 0\<rparr>))"

text \<open>The buffer, and the size; the caller reads that many bytes of it.\<close>

definition nmo_memory_io_get_data :: "nmo_memory_write_handle nmo_io_interface \<Rightarrow> u8 list option \<times> nat" where
  "nmo_memory_io_get_data io = (wh_data (io_handle io), wh_size (io_handle io))"

section \<open>The memory context\<close>

record nmo_io_memory = nmo_memory_write_handle +
  iom_owns_buffer :: bool

definition nmo_io_memory_create ::
  "(nat \<Rightarrow> nat \<Rightarrow> bool) \<Rightarrow> (nat \<Rightarrow> nat \<Rightarrow> u8) \<Rightarrow> u8 list option \<Rightarrow> nat \<Rightarrow> bool \<Rightarrow> nmo_io_memory option eff" where
  "nmo_io_memory_create alloc fresh buffer len copy_data =
     (case buffer of
        None \<Rightarrow> Done None
      | Some bs \<Rightarrow>
          if len = 0 then Done None
          else if \<not> alloc 0 40 then Done None
          else if copy_data \<and> \<not> alloc 1 len then Done None
          else bindE (if copy_data then copy_out bs 0 len else Done bs) (\<lambda>data.
            Done (Some \<lparr>wh_alloc = alloc, wh_fresh = fresh, wh_calls = (if copy_data then 2 else 1),
              wh_data = Some data, wh_size = len, wh_capacity = len, wh_position = 0,
              iom_owns_buffer = copy_data\<rparr>)))"

definition nmo_io_memory_create_empty ::
  "(nat \<Rightarrow> nat \<Rightarrow> bool) \<Rightarrow> (nat \<Rightarrow> nat \<Rightarrow> u8) \<Rightarrow> nat \<Rightarrow> nmo_io_memory option" where
  "nmo_io_memory_create_empty alloc fresh initial_capacity =
     (if \<not> alloc 0 40 then None
      else if initial_capacity > 0 \<and> \<not> alloc 1 initial_capacity then None
      else Some \<lparr>wh_alloc = alloc, wh_fresh = fresh, wh_calls = (if initial_capacity > 0 then 2 else 1),
        wh_data = (if initial_capacity > 0 then Some (map (fresh 1) [0 ..< initial_capacity]) else None),
        wh_size = 0, wh_capacity = initial_capacity, wh_position = 0, iom_owns_buffer = True\<rparr>)"

definition nmo_io_memory_read :: "nat \<Rightarrow> nmo_io_memory \<Rightarrow> (u8 list \<times> nmo_io_memory) eff" where
  "nmo_io_memory_read n m = memory_read_at n m"

text \<open>The number of bytes written; 0 when the buffer cannot grow.\<close>

definition nmo_io_memory_write :: "u8 list \<Rightarrow> nmo_io_memory \<Rightarrow> (nat \<times> nmo_io_memory) eff" where
  "nmo_io_memory_write buffer m =
     (let required = sz_add (wh_position m) (length buffer)
      in bindE (if required > wh_capacity m
                then if \<not> iom_owns_buffer m then Done (False, m) else memory_grow required m
                else Done (True, m)) (\<lambda>(granted, m).
           if \<not> granted then Done (0, m)
           else bindE (memory_put buffer m) (\<lambda>m. Done (length buffer, m))))"

definition nmo_io_memory_seek :: "int \<Rightarrow> int \<Rightarrow> nmo_io_memory \<Rightarrow> (int \<times> nmo_io_memory) eff" where
  "nmo_io_memory_seek offset whence m =
     (if whence \<notin> {0, 1, 2} then Done (-1, m)
      else bindE (seek_target (if whence = 0 then NMO_SEEK_SET else if whence = 1 then NMO_SEEK_CUR else NMO_SEEK_END)
                    offset (wh_position m) (wh_size m)) (\<lambda>new_pos.
        if new_pos < 0 \<or> nat new_pos > wh_size m then Done (-1, m)
        else Done (new_pos, m\<lparr>wh_position := nat new_pos\<rparr>)))"

definition nmo_io_memory_tell :: "nmo_io_memory \<Rightarrow> int" where
  "nmo_io_memory_tell m = to_int64 (wh_position m)"

definition nmo_io_memory_get_buffer :: "nmo_io_memory \<Rightarrow> u8 list option \<times> nat" where
  "nmo_io_memory_get_buffer m = (wh_data m, wh_size m)"

definition nmo_io_memory_reset :: "nmo_io_memory \<Rightarrow> nmo_io_memory" where
  "nmo_io_memory_reset m = m\<lparr>wh_position := 0\<rparr>"

section \<open>The read-only handle as a source\<close>

definition reader_ok :: "nmo_memory_read_handle \<Rightarrow> bool" where
  "reader_ok mh \<longleftrightarrow> rh_position mh \<le> rh_size mh \<and> rh_size mh \<le> length (rh_data mh) \<and> rh_size mh < 2 ^ 64"

definition reader_rest :: "nmo_memory_read_handle \<Rightarrow> u8 list" where
  "reader_rest mh = drop (rh_position mh) (take (rh_size mh) (rh_data mh))"

lemma memory_read_ok:
  assumes "reader_ok mh"
  shows "\<exists>mh'. memory_read_io_read n mh = ok (take n (reader_rest mh)) mh' \<and> reader_ok mh'
    \<and> reader_rest mh' = drop n (reader_rest mh) \<and> rh_data mh' = rh_data mh \<and> rh_size mh' = rh_size mh"
proof -
  let ?p = "rh_position mh" and ?s = "rh_size mh" and ?d = "rh_data mh"
  have r: "?p \<le> ?s" "?s \<le> length ?d" "?s < 2 ^ 64" using assms by (simp_all add: reader_ok_def)
  define k where "k = (if n < ?s - ?p then n else ?s - ?p)"
  have k: "k \<le> n" "?p + k \<le> ?s" "n \<le> k \<or> k = ?s - ?p" using r(1) by (auto simp: k_def)
  have a: "sz_sub ?s ?p = ?s - ?p" "sz_add ?p k = ?p + k" using r k(2) by (simp_all add: sz_sub_small sz_add_small)
  have t: "take k (drop ?p ?d) = take n (reader_rest mh)"
    by (simp add: reader_rest_def drop_take k_def min_def)
  have d: "drop (?p + k) (take ?s ?d) = drop n (reader_rest mh)"
  proof (cases "n < ?s - ?p")
    case True
    then show ?thesis by (simp add: reader_rest_def k_def add.commute)
  next
    case False
    then show ?thesis using r by (simp add: reader_rest_def k_def)
  qed
  show ?thesis
  proof (cases "k = 0")
    case True
    with t d show ?thesis using assms a(1) by (auto intro!: exI [of _ mh] simp: memory_read_io_read_def k_def [symmetric] reader_rest_def)
  next
    case False
    with a t d k(2) r show ?thesis
      by (auto simp: memory_read_io_read_def k_def [symmetric] copy_out_def reader_ok_def reader_rest_def Let_def)
  qed
qed

text \<open>The handle over a fixed input.\<close>

definition reads_input :: "u8 list \<Rightarrow> nmo_memory_read_handle nmo_io_interface \<Rightarrow> bool" where
  "reads_input bs io \<longleftrightarrow> (\<exists>mh. io = memory_reader mh \<and> reader_ok mh \<and> take (rh_size mh) (rh_data mh) = bs)"

interpretation reader: byte_source "reads_input bs" "\<lambda>io. reader_rest (io_handle io)" for bs
proof unfold_locales
  fix io :: "nmo_memory_read_handle nmo_io_interface" and n :: nat
  assume "reads_input bs io"
  then obtain mh where mh: "io = memory_reader mh" "reader_ok mh" "take (rh_size mh) (rh_data mh) = bs"
    by (auto simp: reads_input_def)
  obtain mh' where "memory_read_io_read n mh = ok (take n (reader_rest mh)) mh'" "reader_ok mh'"
    "reader_rest mh' = drop n (reader_rest mh)" "rh_data mh' = rh_data mh" "rh_size mh' = rh_size mh"
    using memory_read_ok [OF mh(2)] by blast
  then show "\<exists>io'. nmo_io_read n io = ok (take n (reader_rest (io_handle io))) io'
    \<and> reads_input bs io' \<and> reader_rest (io_handle io') = drop n (reader_rest (io_handle io))"
    using mh(3) by (auto simp: mh(1) reads_input_def nmo_io_read_def on_handle_def memory_reader_def eff_simps)
qed

lemma open_read_ok:
  assumes "nmo_memory_io_open_read alloc (Some bs) (length bs) = Some io" and "length bs < 2 ^ 64"
  shows "reads_input bs io \<and> reader_rest (io_handle io) = bs"
  using assms by (auto simp: nmo_memory_io_open_read_def reads_input_def reader_ok_def reader_rest_def memory_reader_def split: if_splits)

lemma reader_tell:
  assumes "reads_input bs io" and "reader_rest (io_handle io) = drop k bs" and "k \<le> length bs" and "length bs < 2 ^ 63"
  shows "nmo_io_tell io = int k"
proof -
  obtain mh where mh: "io = memory_reader mh" "reader_ok mh" "take (rh_size mh) (rh_data mh) = bs"
    using assms(1) by (auto simp: reads_input_def)
  have l: "rh_size mh = length bs" "rh_position mh \<le> length bs" using mh(2,3) by (auto simp: reader_ok_def)
  have "drop (rh_position mh) bs = drop k bs" using assms(2) mh by (simp add: reader_rest_def memory_reader_def)
  from arg_cong [OF this, of length] l(2) assms(3) have "rh_position mh = k" by simp
  with assms(3,4) show ?thesis by (simp add: mh(1) nmo_io_tell_def memory_reader_def memory_read_io_tell_def to_int64_small)
qed

section \<open>The write handle as a file\<close>

text \<open>
  What the handle keeps: the buffer has the capacity recorded for it and holds what was written, and
  the cursor is inside it. \<open>\<^verbatim>\<open>writer_ok\<close>\<close> also asks for an allocator that does not refuse.
\<close>

definition writer_ok :: "'x nmo_memory_write_handle_scheme \<Rightarrow> bool" where
  "writer_ok mh \<longleftrightarrow> length (wh_bytes mh) = wh_capacity mh \<and> wh_size mh \<le> wh_capacity mh \<and> wh_position mh \<le> wh_size mh
    \<and> wh_capacity mh < 2 ^ 64 \<and> (\<forall>k n. wh_alloc mh k n)"

definition writer_content :: "'x nmo_memory_write_handle_scheme \<Rightarrow> u8 list" where
  "writer_content mh = take (wh_size mh) (wh_bytes mh)"

lemma writer_content_length [simp]: "writer_ok mh \<Longrightarrow> length (writer_content mh) = wh_size mh"
  by (simp add: writer_ok_def writer_content_def)

lemma doubling_ok:
  assumes "0 < c" and "c < 2 ^ 64" and "target \<le> 2 ^ 62"
  shows "\<exists>d. grow_until (\<lambda>c. sz_mul c 2) target c = Some d \<and> target \<le> d \<and> c \<le> d \<and> d < 2 ^ 64"
proof -
  have "\<exists>d. grow_until (\<lambda>c. sz_mul c 2) target c = Some d \<and> target \<le> d \<and> c \<le> d \<and> d \<le> 2 ^ 64 - 1"
  proof (rule grow_until_returns [where S = "{c. 0 < c}"])
    fix x assume "x < target" "x \<in> {c. 0 < c}"
    with assms(3) show "x < sz_mul x 2 \<and> sz_mul x 2 \<le> 2 ^ 64 - 1 \<and> sz_mul x 2 \<in> {c. 0 < c}"
      by (simp add: sz_mul_small)
  qed (use assms in simp_all)
  then show ?thesis by auto
qed

lemma memory_grow_ok:
  fixes mh :: "'x nmo_memory_write_handle_scheme"
  assumes ok: "writer_ok mh" and n: "required \<le> 2 ^ 62" "wh_capacity mh < required"
  shows "\<exists>mh'. memory_grow required mh = Done (True, mh') \<and> writer_ok mh' \<and> writer_content mh' = writer_content mh
    \<and> wh_size mh' = wh_size mh \<and> wh_position mh' = wh_position mh \<and> required \<le> wh_capacity mh'"
proof -
  have w: "length (wh_bytes mh) = wh_capacity mh" "wh_size mh \<le> wh_capacity mh" "wh_position mh \<le> wh_size mh"
    "wh_capacity mh < 2 ^ 64" "\<And>k n. wh_alloc mh k n" using ok by (auto simp: writer_ok_def)
  define c0 where "c0 = (if wh_capacity mh = 0 then 64 else wh_capacity mh)"
  have "0 < c0" "c0 < 2 ^ 64" using w(4) by (simp_all add: c0_def)
  from doubling_ok [OF this n(1)] obtain c where "grow_until (\<lambda>c. sz_mul c 2) required c0 = Some c" and c: "required \<le> c" "c < 2 ^ 64"
    by blast
  then have g: "grow_until (\<lambda>c. sz_mul c 2) required (if wh_capacity mh = 0 then 64 else wh_capacity mh) = Some c"
    by (simp only: c0_def)
  define kept where "kept = (if wh_data mh \<noteq> None \<and> wh_size mh > 0 then wh_size mh else 0)"
  have k: "kept = wh_size mh" using w(1,2) by (auto simp: kept_def wh_bytes_def split: option.splits)
  define mh' where "mh' = mh\<lparr>wh_calls := wh_calls mh + 1,
     wh_data := Some (writer_content mh @ map (wh_fresh mh (wh_calls mh)) [kept ..< c]), wh_capacity := c\<rparr>"
  have "copy_out (wh_bytes mh) 0 kept = Done (writer_content mh)"
    using k w(1,2) by (auto simp: copy_out_def writer_content_def)
  then have "memory_grow required mh = Done (True, mh')"
    by (cases "wh_data mh \<noteq> None \<and> wh_size mh > 0") (auto simp: memory_grow_def g w(5) mh'_def kept_def wh_bytes_def Let_def)
  moreover have "writer_ok mh'" "writer_content mh' = writer_content mh"
    using w c n(2) k by (auto simp: writer_ok_def writer_content_def mh'_def wh_bytes_def)
  ultimately show ?thesis using c(1) by (auto simp: mh'_def)
qed

lemma memory_put_ok:
  fixes mh :: "'x nmo_memory_write_handle_scheme"
  assumes ok: "writer_ok mh" and fits: "wh_position mh + length bs \<le> wh_capacity mh"
  shows "\<exists>mh'. memory_put bs mh = Done mh' \<and> writer_ok mh'
    \<and> writer_content mh' = take (wh_position mh) (writer_content mh) @ bs @ drop (wh_position mh + length bs) (writer_content mh)
    \<and> wh_position mh' = wh_position mh + length bs"
proof -
  let ?p = "wh_position mh" and ?b = "wh_bytes mh" and ?s = "wh_size mh"
  have w: "length ?b = wh_capacity mh" "?s \<le> wh_capacity mh" "?p \<le> ?s" "wh_capacity mh < 2 ^ 64"
    using ok by (auto simp: writer_ok_def)
  have a: "sz_add ?p (length bs) = ?p + length bs" using fits w(4) by (intro sz_add_small) simp
  have c: "copy_in ?b ?p bs = Done (if bs = [] then ?b else mem_blit ?b ?p bs)"
    using fits w(1) by (simp add: copy_in_def)
  have t: "take (max (?p + length bs) ?s) (mem_blit ?b ?p bs) = take ?p (take ?s ?b) @ bs @ drop (?p + length bs) (take ?s ?b)"
    using fits w by (auto simp: mem_blit_def max_def min_def take_append drop_take)
  have m: "(if ?s < ?p + length bs then ?p + length bs else ?s) = max (?p + length bs) ?s" by auto
  show ?thesis
  proof (cases "bs = []")
    case True
    then have "memory_put bs mh = Done mh" using a c w(3) by (simp add: memory_put_def)
    then show ?thesis using ok True by simp
  next
    case False
    define mh' where "mh' = mh\<lparr>wh_data := Some (mem_blit ?b ?p bs), wh_position := ?p + length bs,
      wh_size := max (?p + length bs) ?s\<rparr>"
    have "memory_put bs mh = Done mh'" using False a c m by (simp add: memory_put_def mh'_def Let_def)
    moreover have "writer_ok mh'" using ok w fits by (simp add: writer_ok_def mh'_def wh_bytes_def)
    moreover have "writer_content mh' = take ?p (writer_content mh) @ bs @ drop (?p + length bs) (writer_content mh)"
      using t by (simp add: writer_content_def mh'_def wh_bytes_def)
    ultimately show ?thesis by (auto simp: mh'_def)
  qed
qed

lemma memory_write_ok:
  assumes ok: "writer_ok mh" and room: "wh_position mh + length bs \<le> 2 ^ 62"
  shows "\<exists>mh'. memory_write_io_write bs mh = ok () mh' \<and> writer_ok mh'
    \<and> writer_content mh' = take (wh_position mh) (writer_content mh) @ bs @ drop (wh_position mh + length bs) (writer_content mh)
    \<and> wh_position mh' = wh_position mh + length bs"
proof -
  let ?n = "wh_position mh + length bs"
  have a: "sz_add (wh_position mh) (length bs) = ?n" using room by (intro sz_add_small) simp
  have "\<exists>mh'. (if ?n > wh_capacity mh then memory_grow ?n mh else Done (True, mh)) = Done (True, mh') \<and> writer_ok mh'
    \<and> writer_content mh' = writer_content mh \<and> wh_position mh' = wh_position mh \<and> ?n \<le> wh_capacity mh'"
    using memory_grow_ok [OF ok room] ok by (cases "?n > wh_capacity mh") auto
  then obtain m where m: "(if ?n > wh_capacity mh then memory_grow ?n mh else Done (True, mh)) = Done (True, m)" "writer_ok m"
    "writer_content m = writer_content mh" "wh_position m = wh_position mh" "?n \<le> wh_capacity m" by blast
  from memory_put_ok [OF m(2)] m(4,5) show ?thesis
    by (simp add: memory_write_io_write_def a m(1) Let_def) (metis bindE_simps(1) m(3,4))
qed

interpretation writer: byte_sink
  "\<lambda>n io. \<exists>mh. io = memory_writer mh \<and> writer_ok mh \<and> wh_position mh = wh_size mh \<and> wh_size mh + n \<le> 2 ^ 62"
  "\<lambda>io. writer_content (io_handle io)"
proof unfold_locales
  fix bs :: "u8 list" and n and io :: "nmo_memory_write_handle nmo_io_interface"
  assume "\<exists>mh. io = memory_writer mh \<and> writer_ok mh \<and> wh_position mh = wh_size mh \<and> wh_size mh + (length bs + n) \<le> 2 ^ 62"
  then obtain mh where mh: "io = memory_writer mh" "writer_ok mh" "wh_position mh = wh_size mh"
    "wh_size mh + (length bs + n) \<le> 2 ^ 62" by blast
  from mh(4) have "wh_position mh + length bs \<le> 2 ^ 62" unfolding mh(3) by linarith
  from memory_write_ok [OF mh(2) this] mh(2,3) obtain mh' where m: "memory_write_io_write bs mh = ok () mh'" "writer_ok mh'"
    "writer_content mh' = writer_content mh @ bs" "wh_position mh' = wh_size mh + length bs" by auto
  have "wh_size mh' = wh_size mh + length bs" using m(2,3) mh(2) by (metis length_append writer_content_length)
  with m mh(4) show "\<exists>io'. nmo_io_write bs io = ok () io'
    \<and> (\<exists>mh. io' = memory_writer mh \<and> writer_ok mh \<and> wh_position mh = wh_size mh \<and> wh_size mh + n \<le> 2 ^ 62)
    \<and> writer_content (io_handle io') = writer_content (io_handle io) @ bs"
    by (auto simp: mh(1) nmo_io_write_def on_handle_def memory_writer_def eff_simps)
qed

text \<open>
  A file in the abstract: its bytes and the place of the cursor. A seek to a negative place is
  refused, a read stops at the end of the file, a write replaces what it covers and extends the file
  when it passes the end.
\<close>

datatype file_op = Read nat | Write "u8 list" | Seek int nmo_seek_origin

datatype file_result = Got "u8 list" | Fine | Refused

fun seek_place :: "nmo_seek_origin \<Rightarrow> int \<Rightarrow> nat \<Rightarrow> nat \<Rightarrow> int" where
  "seek_place NMO_SEEK_SET offset p n = offset"
| "seek_place NMO_SEEK_CUR offset p n = int p + offset"
| "seek_place NMO_SEEK_END offset p n = int n + offset"

fun file_step :: "file_op \<Rightarrow> u8 list \<times> nat \<Rightarrow> file_result \<times> u8 list \<times> nat" where
  "file_step (Read n) (c, p) = (Got (take n (drop p c)), c, p + length (take n (drop p c)))"
| "file_step (Write bs) (c, p) = (Fine, take p c @ bs @ drop (p + length bs) c, p + length bs)"
| "file_step (Seek offset origin) (c, p) =
     (let t = seek_place origin offset p (length c) in if t < 0 then (Refused, c, p) else (Fine, c, nat t))"

text \<open>Sizes that stay below 2^62, and no seek beyond the end of the file.\<close>

fun op_fits :: "file_op \<Rightarrow> u8 list \<times> nat \<Rightarrow> bool" where
  "op_fits (Read n) (c, p) \<longleftrightarrow> n < 2 ^ 62"
| "op_fits (Write bs) (c, p) \<longleftrightarrow> p + length bs \<le> 2 ^ 62"
| "op_fits (Seek offset origin) (c, p) \<longleftrightarrow> \<bar>offset\<bar> < 2 ^ 62 \<and> seek_place origin offset p (length c) \<le> int (length c)"

fun file_run :: "file_op list \<Rightarrow> u8 list \<times> nat \<Rightarrow> file_result list \<times> u8 list \<times> nat" where
  "file_run [] f = ([], f)"
| "file_run (op # ops) f =
     (let (r, f) = file_step op f; (rs, f) = file_run ops f in (r # rs, f))"

fun ops_fit :: "file_op list \<Rightarrow> u8 list \<times> nat \<Rightarrow> bool" where
  "ops_fit [] f \<longleftrightarrow> True"
| "ops_fit (op # ops) f \<longleftrightarrow> op_fits op f \<and> ops_fit ops (snd (file_step op f))"

text \<open>The same operations as calls on a stream.\<close>

fun io_call :: "file_op \<Rightarrow> 'h nmo_io_interface \<Rightarrow> (file_result, 'h nmo_io_interface) cres" where
  "io_call (Read n) io = bindR (nmo_io_read n io) (\<lambda>bs. ok (Got bs))"
| "io_call (Write bs) io = bindR (nmo_io_write bs io) (\<lambda>_. ok Fine)"
| "io_call (Seek offset origin) io =
     bindE (nmo_io_seek offset origin io) (\<lambda>(r, io). case r of
       Inl e \<Rightarrow> if e = NMO_ERR_INVALID_OFFSET then ok Refused io else fail e io
     | Inr _ \<Rightarrow> ok Fine io)"

fun io_calls :: "file_op list \<Rightarrow> 'h nmo_io_interface \<Rightarrow> (file_result list, 'h nmo_io_interface) cres" where
  "io_calls [] io = ok [] io"
| "io_calls (op # ops) io = bindR (io_call op io) (\<lambda>r io. bindR (io_calls ops io) (\<lambda>rs. ok (r # rs)))"

definition holds_file :: "nmo_memory_write_handle nmo_io_interface \<Rightarrow> u8 list \<times> nat \<Rightarrow> bool" where
  "holds_file io f \<longleftrightarrow> (\<exists>mh. io = memory_writer mh \<and> writer_ok mh \<and> wh_size mh \<le> 2 ^ 62
     \<and> f = (writer_content mh, wh_position mh))"

lemma seek_target_place:
  assumes "\<bar>offset\<bar> < 2 ^ 62" and "p \<le> n" and "n \<le> 2 ^ 62"
  shows "seek_target origin offset p n = Done (seek_place origin offset p n)"
  using assms by (cases origin) (auto simp: add_int64_def to_int64_small)

lemma memory_read_at_ok:
  assumes "writer_ok mh"
  shows "\<exists>mh'. memory_write_io_read n mh = ok (take n (drop (wh_position mh) (writer_content mh))) mh' \<and> writer_ok mh'
    \<and> writer_content mh' = writer_content mh \<and> wh_size mh' = wh_size mh
    \<and> wh_position mh' = wh_position mh + length (take n (drop (wh_position mh) (writer_content mh)))"
proof -
  let ?p = "wh_position mh" and ?s = "wh_size mh"
  have w: "length (wh_bytes mh) = wh_capacity mh" "?s \<le> wh_capacity mh" "?p \<le> ?s" "wh_capacity mh < 2 ^ 64"
    using assms by (auto simp: writer_ok_def)
  define k where "k = (if n < ?s - ?p then n else ?s - ?p)"
  have l: "length (take n (drop ?p (writer_content mh))) = k" using assms by (simp add: k_def)
  have a: "sz_sub ?s ?p = ?s - ?p" "sz_add ?p k = ?p + k" using w by (simp_all add: sz_sub_small sz_add_small k_def)
  have t: "take k (drop ?p (wh_bytes mh)) = take n (drop ?p (writer_content mh))"
    by (simp add: writer_content_def drop_take k_def min_def)
  have c: "k \<noteq> 0 \<Longrightarrow> copy_out (wh_bytes mh) ?p k = Done (take n (drop ?p (writer_content mh)))"
    using w t by (auto simp: copy_out_def k_def)
  show ?thesis
  proof (cases "k = 0")
    case True
    have "memory_write_io_read n mh = ok [] mh"
      using True a(1) by (simp add: memory_write_io_read_def memory_read_at_def k_def [symmetric] Let_def)
    moreover have e: "take n (drop ?p (writer_content mh)) = []" using l True by (metis length_0_conv)
    ultimately show ?thesis unfolding e using assms by (auto intro!: exI [of _ mh])
  next
    case False
    with a c have "memory_write_io_read n mh = ok (take n (drop ?p (writer_content mh))) (mh\<lparr>wh_position := ?p + k\<rparr>)"
      by (simp add: memory_write_io_read_def memory_read_at_def k_def [symmetric] Let_def)
    moreover have "?p + k \<le> ?s" using w(3) by (auto simp: k_def)
    ultimately show ?thesis using assms l
      by (intro exI [of _ "mh\<lparr>wh_position := ?p + k\<rparr>"]) (simp add: writer_ok_def writer_content_def wh_bytes_def)
  qed
qed

lemma file_step_ok:
  assumes "holds_file io f" and "op_fits op f"
  shows "\<exists>io'. io_call op io = ok (fst (file_step op f)) io' \<and> holds_file io' (snd (file_step op f))"
proof -
  obtain mh where mh: "io = memory_writer mh" "writer_ok mh" "wh_size mh \<le> 2 ^ 62"
    and f: "f = (writer_content mh, wh_position mh)" using assms(1) by (auto simp: holds_file_def)
  have p: "wh_position mh \<le> wh_size mh" using mh(2) by (simp add: writer_ok_def)
  note calls = mh(1) f on_handle_def memory_writer_def eff_simps holds_file_def
  show ?thesis
  proof (cases op)
    case (Read n)
    with memory_read_at_ok [OF mh(2), of n] mh(3) show ?thesis by (auto simp: calls nmo_io_read_def)
  next
    case (Write bs)
    have "wh_position mh + length bs \<le> 2 ^ 62" using assms(2) Write f by simp
    from memory_write_ok [OF mh(2) this] obtain m where m: "memory_write_io_write bs mh = ok () m" "writer_ok m"
      "writer_content m = take (wh_position mh) (writer_content mh) @ bs @ drop (wh_position mh + length bs) (writer_content mh)"
      "wh_position m = wh_position mh + length bs" by blast
    have "wh_size m \<le> 2 ^ 62"
      using arg_cong [OF m(3), of length] m(2) mh(2,3) p \<open>wh_position mh + length bs \<le> 2 ^ 62\<close> by auto
    with m Write show ?thesis by (auto simp: calls nmo_io_write_def)
  next
    case (Seek offset origin)
    have "\<bar>offset\<bar> < 2 ^ 62" "seek_place origin offset (wh_position mh) (wh_size mh) \<le> int (wh_size mh)"
      using assms(2) Seek f mh(2) by simp_all
    with seek_target_place [OF this(1) p mh(3), of origin] mh(2,3) Seek show ?thesis
      by (auto simp: calls nmo_io_seek_def memory_write_io_seek_def writer_ok_def writer_content_def wh_bytes_def Let_def)
  qed
qed

lemma file_run_ok:
  assumes "holds_file io f" and "ops_fit ops f"
  shows "\<exists>io'. io_calls ops io = ok (fst (file_run ops f)) io' \<and> holds_file io' (snd (file_run ops f))"
  using assms
proof (induction ops arbitrary: io f)
  case (Cons op ops)
  then obtain io' where i: "io_call op io = ok (fst (file_step op f)) io'" "holds_file io' (snd (file_step op f))"
    using file_step_ok [of io f op] by auto
  from Cons.IH [OF i(2)] Cons.prems(2) obtain io'' where
    "io_calls ops io' = ok (fst (file_run ops (snd (file_step op f)))) io''"
    "holds_file io'' (snd (file_run ops (snd (file_step op f))))" by auto
  with i(1) show ?case by (auto simp: split_def Let_def)
qed (auto simp: eff_simps)

lemma open_write_holds:
  assumes "nmo_memory_io_open_write (\<lambda>_ _. True) fresh n = Some io" and "n < 2 ^ 64"
  shows "holds_file io ([], 0)"
  using assms by (auto simp: nmo_memory_io_open_write_def holds_file_def writer_ok_def writer_content_def wh_bytes_def
      Let_def split: if_splits)

text \<open>
  C18: a memory stream opened for writing, over an allocator that does not refuse, behaves as a file:
  every sequence of reads, writes and seeks that keeps inside 2^62 bytes and does not seek beyond the
  end gives the results of the abstract file, and the data and the position are those of the file.
\<close>

theorem memory_stream_is_a_file:
  assumes "nmo_memory_io_open_write (\<lambda>_ _. True) fresh n = Some io" and "n < 2 ^ 64"
    and "ops_fit ops ([], 0)" and "file_run ops ([], 0) = (rs, c, p)"
  shows "\<exists>io' buffer. io_calls ops io = ok rs io' \<and> nmo_io_tell io' = int p
    \<and> nmo_memory_io_get_data io' = (buffer, length c) \<and> take (length c) (case buffer of None \<Rightarrow> [] | Some bs \<Rightarrow> bs) = c"
proof -
  from file_run_ok [OF open_write_holds [OF assms(1,2)] assms(3)] assms(4) obtain io' where
    io': "io_calls ops io = ok rs io'" "holds_file io' (c, p)" by auto
  then obtain mh where mh: "io' = memory_writer mh" "writer_ok mh" "wh_size mh \<le> 2 ^ 62" "c = writer_content mh"
    "p = wh_position mh" by (auto simp: holds_file_def)
  have "wh_position mh < 2 ^ 63" using mh(2,3) by (simp add: writer_ok_def)
  then have "nmo_io_tell io' = int p"
    by (simp add: mh(1,5) nmo_io_tell_def memory_writer_def memory_write_io_tell_def to_int64_small)
  moreover have "nmo_memory_io_get_data io' = (wh_data mh, length c)"
    using mh(2) by (simp add: mh(1,4) nmo_memory_io_get_data_def memory_writer_def)
  moreover have "take (length c) (case wh_data mh of None \<Rightarrow> [] | Some bs \<Rightarrow> bs) = c"
    using mh(2) by (simp add: mh(4)) (simp add: writer_content_def wh_bytes_def)
  ultimately show ?thesis using io'(1) by blast
qed

theorem memory_stream_is_a_file_witness:
  "\<exists>io io' buffer. nmo_memory_io_open_write (\<lambda>_ _. True) (\<lambda>_ _. 0) 0 = Some io
    \<and> io_calls [Write [1, 2, 3, 4], Seek 1 NMO_SEEK_SET, Write [9], Seek (-3) NMO_SEEK_END, Read 10] io
        = ok [Fine, Fine, Fine, Fine, Got [9, 3, 4]] io'
    \<and> nmo_io_tell io' = 4 \<and> nmo_memory_io_get_data io' = (buffer, 4)"
proof -
  obtain io where io: "nmo_memory_io_open_write (\<lambda>_ _. True) (\<lambda>_ _. 0) 0 = Some io"
    by (simp add: nmo_memory_io_open_write_def)
  have "file_run [Write [1, 2, 3, 4], Seek 1 NMO_SEEK_SET, Write [9], Seek (-3) NMO_SEEK_END, Read 10] ([], 0)
    = ([Fine, Fine, Fine, Fine, Got [9, 3, 4]], [1, 9, 3, 4], 4)" by simp
  from memory_stream_is_a_file [OF io _ _ this] io show ?thesis by (auto simp del: io_calls.simps io_call.simps)
qed

text \<open>
  The write handle accepts a seek beyond the end, and a read there computes a size that wraps
  around: it delivers whatever the buffer held before it was written, and beyond the capacity it reads
  outside the buffer.
\<close>

theorem read_after_seek_past_end:
  assumes "nmo_memory_io_open_write alloc fresh n = Some io" and "0 < n" and "n < 2 ^ 62" and "0 < p" and "p < 2 ^ 62" and "0 < k" and "k < 2 ^ 62"
  shows "bindR (nmo_io_seek (int p) NMO_SEEK_SET io) (\<lambda>_. nmo_io_read k)
    = (if p + k \<le> n then ok (map (fresh 1) [p ..< p + k]) (io\<lparr>io_handle := io_handle io\<lparr>wh_position := p + k\<rparr>\<rparr>) else Undefined)"
proof -
  obtain mh where mh: "io = memory_writer mh" "wh_data mh = Some (map (fresh 1) [0 ..< n])" "wh_size mh = 0" "wh_position mh = 0"
    using assms(1,2) by (auto simp: nmo_memory_io_open_write_def split: if_splits)
  have s: "nmo_io_seek (int p) NMO_SEEK_SET io = ok () (memory_writer (mh\<lparr>wh_position := p\<rparr>))"
    by (simp add: mh(1) nmo_io_seek_def on_handle_def memory_writer_def memory_write_io_seek_def eff_simps)
  have "sz_sub 0 p = 2 ^ 64 - p" using assms(4,5) by (simp add: sz_sub_wraps)
  moreover have "k < 2 ^ 64 - p" using assms(5,7) by simp
  moreover have "sz_add p k = p + k" using assms(5,7) by (simp add: sz_add_small)
  moreover have "take k (drop p [0 ..< n]) = [p ..< p + k]" if "p + k \<le> n" using that by (simp add: take_upt drop_upt)
  ultimately show ?thesis using assms(6) unfolding s
    by (auto simp: nmo_io_read_def on_handle_def memory_writer_def memory_write_io_read_def memory_read_at_def mh(1-3)
        copy_out_def wh_bytes_def eff_simps Let_def take_map drop_map)
qed

theorem read_after_seek_past_end_witness:
  "\<exists>io. nmo_memory_io_open_write (\<lambda>_ _. True) (\<lambda>_ _. 7) 64 = Some io
    \<and> bindR (nmo_io_seek 10 NMO_SEEK_SET io) (\<lambda>_. nmo_io_read 100) = Undefined"
proof -
  obtain io where io: "nmo_memory_io_open_write (\<lambda>_ _. True) (\<lambda>_ _. 7) 64 = Some io" by (simp add: nmo_memory_io_open_write_def)
  from read_after_seek_past_end [OF this, of 10 100] io show ?thesis by simp
qed

end
