(* ===== verification/FileHeader.thy ===== *)
theory FileHeader
  imports IoMemory
begin

text \<open>
  The fixed header of a file, \<^verbatim>\<open>src/format/header.c\<close>: eight bytes of signature and six words, followed
  by eight more words from file version 5 on. Parsing and writing go through a byte stream; the lemmas
  in the two contexts hold for every stream that is a source or a sink.
\<close>

record nmo_file_header =
  fh_signature :: "u8 list"
  fh_crc :: u32
  fh_ck_version :: u32
  fh_file_version :: u32
  fh_file_version2 :: u32
  fh_file_write_mode :: u32
  fh_hdr1_pack_size :: u32
  fh_data_pack_size :: u32
  fh_data_unpack_size :: u32
  fh_manager_count :: u32
  fh_object_count :: u32
  fh_max_id_saved :: u32
  fh_product_version :: u32
  fh_product_build :: u32
  fh_hdr1_unpack_size :: u32

definition nemo_signature :: "u8 list" where
  "nemo_signature = [0x4E, 0x65, 0x6D, 0x6F, 0x20, 0x46, 0x69, 0]"

definition zero_header :: nmo_file_header where
  "zero_header = \<lparr>fh_signature = replicate 8 0, fh_crc = 0, fh_ck_version = 0, fh_file_version = 0,
     fh_file_version2 = 0, fh_file_write_mode = 0, fh_hdr1_pack_size = 0, fh_data_pack_size = 0,
     fh_data_unpack_size = 0, fh_manager_count = 0, fh_object_count = 0, fh_max_id_saved = 0,
     fh_product_version = 0, fh_product_build = 0, fh_hdr1_unpack_size = 0\<rparr>"

text \<open>The header context; \<open>granted\<close> is the answer of \<^verbatim>\<open>malloc\<close>.\<close>

definition nmo_header_create :: "bool \<Rightarrow> nmo_file_header option" where
  "nmo_header_create granted =
     (if \<not> granted then None
      else Some (zero_header\<lparr>fh_signature := nemo_signature, fh_file_version := 8, fh_ck_version := 0x13022002\<rparr>))"

definition nmo_header_get_size :: "nmo_file_header \<Rightarrow> nat" where
  "nmo_header_get_size h = (if fh_file_version h \<ge> 5 then 64 else 32)"

section \<open>Validation\<close>

definition nmo_file_header_validate :: "nmo_file_header \<Rightarrow> nmo_error_code + unit" where
  "nmo_file_header_validate h =
     (if fh_signature h \<noteq> nemo_signature then Inl NMO_ERR_INVALID_SIGNATURE
      else if fh_file_version h < 2 \<or> fh_file_version h > 9 then Inl NMO_ERR_UNSUPPORTED_VERSION
      else Inr ())"

definition nmo_header_validate :: "nmo_file_header \<Rightarrow> nmo_error_code + unit" where
  "nmo_header_validate h = nmo_file_header_validate h"

section \<open>Parsing\<close>

text \<open>Every failed call is reported with the one code given.\<close>

definition reported :: "nmo_error_code \<Rightarrow> ('a, 's) cres \<Rightarrow> ('a, 's) cres" where
  "reported e m = bindE m (\<lambda>(r, s). case r of Inl _ \<Rightarrow> fail e s | Inr x \<Rightarrow> ok x s)"

definition parse_field ::
  "((u32 \<Rightarrow> u32) \<Rightarrow> nmo_file_header \<Rightarrow> nmo_file_header) \<Rightarrow> nmo_file_header \<Rightarrow> 'h nmo_io_interface
    \<Rightarrow> (nmo_file_header, 'h nmo_io_interface) cres" where
  "parse_field update h io = bindR (reported NMO_ERR_EOF (nmo_io_read_u32 io)) (\<lambda>v. ok (update (\<lambda>_. v) h))"

fun parse_fields ::
  "((u32 \<Rightarrow> u32) \<Rightarrow> nmo_file_header \<Rightarrow> nmo_file_header) list \<Rightarrow> nmo_file_header \<Rightarrow> 'h nmo_io_interface
    \<Rightarrow> (nmo_file_header, 'h nmo_io_interface) cres" where
  "parse_fields [] h io = ok h io"
| "parse_fields (u # us) h io = bindR (parse_field u h io) (parse_fields us)"

definition part1_fields :: "((u32 \<Rightarrow> u32) \<Rightarrow> nmo_file_header \<Rightarrow> nmo_file_header) list" where
  "part1_fields = [fh_data_pack_size_update, fh_data_unpack_size_update, fh_manager_count_update,
     fh_object_count_update, fh_max_id_saved_update, fh_product_version_update, fh_product_build_update,
     fh_hdr1_unpack_size_update]"

definition nmo_file_header_parse :: "'h nmo_io_interface \<Rightarrow> (nmo_file_header, 'h nmo_io_interface) cres" where
  "nmo_file_header_parse io =
     bindR (reported NMO_ERR_EOF (nmo_io_read_exact 8 io)) (\<lambda>sig io.
       let h = zero_header\<lparr>fh_signature := sig\<rparr>
       in if fh_signature h \<noteq> nemo_signature then fail NMO_ERR_INVALID_SIGNATURE io
          else bindR (parse_fields [fh_crc_update, fh_ck_version_update, fh_file_version_update] h io) (\<lambda>h io.
            if fh_file_version h < 2 \<or> fh_file_version h > 9 then fail NMO_ERR_UNSUPPORTED_VERSION io
            else bindR (parse_fields [fh_file_version2_update, fh_file_write_mode_update, fh_hdr1_pack_size_update] h io) (\<lambda>h io.
              if fh_file_version h \<ge> 5 then parse_fields part1_fields h io else ok h io)))"

definition nmo_header_parse :: "'h nmo_io_interface \<Rightarrow> (nmo_file_header, 'h nmo_io_interface) cres" where
  "nmo_header_parse io = nmo_file_header_parse io"

section \<open>Writing\<close>

fun write_fields :: "u32 list \<Rightarrow> 'h nmo_io_interface \<Rightarrow> (unit, 'h nmo_io_interface) cres" where
  "write_fields [] io = ok () io"
| "write_fields (d # ds) io =
     bindR (reported NMO_ERR_CANT_WRITE_FILE (nmo_io_write_u32 d io)) (\<lambda>_. write_fields ds)"

definition part0_values :: "nmo_file_header \<Rightarrow> u32 list" where
  "part0_values h = [fh_crc h, fh_ck_version h, fh_file_version h, fh_file_version2 h, fh_file_write_mode h, fh_hdr1_pack_size h]"

definition part1_values :: "nmo_file_header \<Rightarrow> u32 list" where
  "part1_values h = [fh_data_pack_size h, fh_data_unpack_size h, fh_manager_count h, fh_object_count h,
     fh_max_id_saved h, fh_product_version h, fh_product_build h, fh_hdr1_unpack_size h]"

definition nmo_file_header_serialize :: "nmo_file_header \<Rightarrow> 'h nmo_io_interface \<Rightarrow> (unit, 'h nmo_io_interface) cres" where
  "nmo_file_header_serialize h io =
     bindR (reported NMO_ERR_CANT_WRITE_FILE (nmo_io_write (fh_signature h) io)) (\<lambda>_ io.
       bindR (write_fields (part0_values h) io) (\<lambda>_ io.
         if fh_file_version h \<ge> 5 then write_fields (part1_values h) io else ok () io))"

definition nmo_header_write :: "nmo_file_header \<Rightarrow> 'h nmo_io_interface \<Rightarrow> (unit, 'h nmo_io_interface) cres" where
  "nmo_header_write h io = nmo_file_header_serialize h io"

section \<open>The format\<close>

text \<open>The bytes of a header, and what any byte string says as a header.\<close>

definition header_bytes :: "nmo_file_header \<Rightarrow> u8 list" where
  "header_bytes h = fh_signature h
     @ bytes_of_dwords (part0_values h @ (if fh_file_version h \<ge> 5 then part1_values h else []))"

definition header_of :: "u8 list \<Rightarrow> u32 list \<Rightarrow> nmo_file_header" where
  "header_of sig ds =
     zero_header\<lparr>fh_signature := sig, fh_crc := ds ! 0, fh_ck_version := ds ! 1, fh_file_version := ds ! 2,
       fh_file_version2 := ds ! 3, fh_file_write_mode := ds ! 4, fh_hdr1_pack_size := ds ! 5\<rparr>"

definition with_part1 :: "u32 list \<Rightarrow> nmo_file_header \<Rightarrow> nmo_file_header" where
  "with_part1 ds h =
     h\<lparr>fh_data_pack_size := ds ! 0, fh_data_unpack_size := ds ! 1, fh_manager_count := ds ! 2, fh_object_count := ds ! 3,
       fh_max_id_saved := ds ! 4, fh_product_version := ds ! 5, fh_product_build := ds ! 6, fh_hdr1_unpack_size := ds ! 7\<rparr>"

definition read_header :: "u8 list \<Rightarrow> nmo_error_code + nmo_file_header" where
  "read_header bs =
     (let ds = dwords_of_bytes (drop 8 bs); h = header_of (take 8 bs) ds
      in if length bs < 8 then Inl NMO_ERR_EOF
         else if take 8 bs \<noteq> nemo_signature then Inl NMO_ERR_INVALID_SIGNATURE
         else if length bs < 20 then Inl NMO_ERR_EOF
         else if ds ! 2 < 2 \<or> ds ! 2 > 9 then Inl NMO_ERR_UNSUPPORTED_VERSION
         else if length bs < 32 then Inl NMO_ERR_EOF
         else if ds ! 2 < 5 then Inr h
         else if length bs < 64 then Inl NMO_ERR_EOF
         else Inr (with_part1 (drop 6 ds) h))"

lemma reported_simps [simp]:
  "reported e (ok x s) = ok x s" "reported e (fail e' s) = fail e s"
  by (simp_all add: reported_def eff_simps)

lemma dwords_of_bytes_unfold:
  "4 \<le> length bs \<Longrightarrow> dwords_of_bytes bs = hd (dwords_of_bytes (take 4 bs)) # dwords_of_bytes (drop 4 bs)"
  by (cases bs rule: dwords_of_bytes.cases) auto

text \<open>Fields in a row: the words of the input in turn, or the end of it.\<close>

fun fill_fields :: "((u32 \<Rightarrow> u32) \<Rightarrow> nmo_file_header \<Rightarrow> nmo_file_header) list \<Rightarrow> u32 list \<Rightarrow> nmo_file_header \<Rightarrow> nmo_file_header" where
  "fill_fields [] ds h = h"
| "fill_fields (u # us) ds h = fill_fields us (tl ds) (u (\<lambda>_. hd ds) h)"

context byte_source
begin

lemma read_u32_any:
  assumes "live io"
  shows "\<exists>io'. nmo_io_read_u32 io = (if length (pending io) < 4 then fail NMO_ERR_EOF io' else ok (hd (dwords_of_bytes (pending io))) io')
    \<and> live io' \<and> pending io' = drop 4 (pending io)"
proof (cases "length (pending io) < 4")
  case True
  with read_u32_eof [OF assms] show ?thesis by fastforce
next
  case False
  then have "pending io = dword_bytes (hd (dwords_of_bytes (pending io))) @ drop 4 (pending io)"
    by (cases "pending io" rule: dwords_of_bytes.cases) (auto simp: dword_bytes_dword)
  from read_u32_ok [OF assms this] False show ?thesis by auto
qed

lemma parse_fields_any:
  assumes "live io"
  shows "\<exists>io'. parse_fields us h io =
      (if length (pending io) < 4 * length us then fail NMO_ERR_EOF io' else ok (fill_fields us (dwords_of_bytes (pending io)) h) io')
    \<and> live io' \<and> (4 * length us \<le> length (pending io) \<longrightarrow> pending io' = drop (4 * length us) (pending io))"
  using assms
proof (induction us arbitrary: h io)
  case Nil
  then show ?case by auto
next
  case (Cons u us)
  obtain io1 where r: "nmo_io_read_u32 io =
      (if length (pending io) < 4 then fail NMO_ERR_EOF io1 else ok (hd (dwords_of_bytes (pending io))) io1)"
    "live io1" "pending io1 = drop 4 (pending io)" using read_u32_any [OF Cons.prems] by blast
  show ?case
  proof (cases "length (pending io) < 4")
    case True
    then show ?thesis using r by (auto simp: parse_field_def)
  next
    case False
    then have t: "tl (dwords_of_bytes (pending io)) = dwords_of_bytes (pending io1)"
      using dwords_of_bytes_unfold [of "pending io"] r(3) by simp
    from Cons.IH [OF r(2), of "u (\<lambda>_. hd (dwords_of_bytes (pending io))) h"] obtain io' where
      io': "parse_fields us (u (\<lambda>_. hd (dwords_of_bytes (pending io))) h) io1 =
        (if length (pending io1) < 4 * length us then fail NMO_ERR_EOF io'
         else ok (fill_fields us (dwords_of_bytes (pending io1)) (u (\<lambda>_. hd (dwords_of_bytes (pending io))) h)) io')"
      "live io'" "4 * length us \<le> length (pending io1) \<longrightarrow> pending io' = drop (4 * length us) (pending io1)" by blast
    have "length (pending io1) < 4 * length us \<longleftrightarrow> length (pending io) < 4 * length (u # us)"
      using False r(3) by auto
    with io' r(1,3) False t show ?thesis
      by (intro exI [of _ io']) (auto simp: parse_field_def add.commute not_less)
  qed
qed

end

text \<open>The three groups of fields, and the header they fill.\<close>

lemma fill_header:
  assumes "length ds \<ge> 6"
  shows "fill_fields [fh_file_version2_update, fh_file_write_mode_update, fh_hdr1_pack_size_update] (drop 3 ds)
      (fill_fields [fh_crc_update, fh_ck_version_update, fh_file_version_update] ds (zero_header\<lparr>fh_signature := sig\<rparr>)) = header_of sig ds"
  using assms by (auto simp: header_of_def zero_header_def numeral_eq_Suc Suc_le_length_iff)

lemma length_part1_fields [simp]: "length part1_fields = 8"
  by (simp add: part1_fields_def)

lemma fill_part1:
  assumes "length ds \<ge> 8"
  shows "fill_fields part1_fields ds h = with_part1 ds h"
  using assms by (auto simp: part1_fields_def with_part1_def numeral_eq_Suc Suc_le_length_iff)

lemma drop_dwords_of_bytes: "4 * n \<le> length bs \<Longrightarrow> dwords_of_bytes (drop (4 * n) bs) = drop n (dwords_of_bytes bs)"
proof (induction n arbitrary: bs)
  case (Suc n)
  then have "dwords_of_bytes bs = hd (dwords_of_bytes (take 4 bs)) # dwords_of_bytes (drop 4 bs)"
    by (intro dwords_of_bytes_unfold) simp
  with Suc.IH [of "drop 4 bs"] Suc.prems show ?case by (simp add: add.commute)
qed simp

lemma filled_version:
  assumes "length ds \<ge> 3"
  shows "fh_file_version (fill_fields [fh_crc_update, fh_ck_version_update, fh_file_version_update] ds h) = ds ! 2"
  using assms by (auto simp: numeral_eq_Suc Suc_le_length_iff)

lemma header_of_version [simp]: "fh_file_version (header_of sig ds) = ds ! 2"
  by (simp add: header_of_def)

context byte_source
begin

lemma read_exact_any:
  assumes "live io" and "n < 2 ^ 64"
  shows "\<exists>io'. nmo_io_read_exact n io =
      (if length (pending io) < n then fail NMO_ERR_EOF io' else ok (take n (pending io)) io')
    \<and> live io' \<and> pending io' = drop n (pending io)"
  using read_law [OF assms] by (auto simp: nmo_io_read_exact_def not_less)

lemma parse_fields_at:
  assumes "live io" and "pending io = drop k bs" and "k \<le> length bs"
  obtains io' where "parse_fields us h io =
      (if length bs < k + 4 * length us then fail NMO_ERR_EOF io' else ok (fill_fields us (dwords_of_bytes (drop k bs)) h) io')"
    and "live io'" and "k + 4 * length us \<le> length bs \<Longrightarrow> pending io' = drop (k + 4 * length us) bs"
proof -
  have "length (pending io) < 4 * length us \<longleftrightarrow> length bs < k + 4 * length us" using assms(2,3) by auto
  with parse_fields_any [OF assms(1), of us h] that show ?thesis unfolding assms(2) by (auto simp: add.commute)
qed

text \<open>The words behind the accepted version.\<close>

lemma parse_tail:
  assumes live: "live io" and at: "pending io = drop 20 bs" and long: "20 \<le> length bs"
    and sig: "take 8 bs = nemo_signature" and v: "\<not> (ds ! 2 < 2 \<or> ds ! 2 > 9)" and ds: "ds = dwords_of_bytes (drop 8 bs)"
    and h: "h = fill_fields [fh_crc_update, fh_ck_version_update, fh_file_version_update] ds (zero_header\<lparr>fh_signature := take 8 bs\<rparr>)"
  shows "\<exists>io'. bindR (parse_fields [fh_file_version2_update, fh_file_write_mode_update, fh_hdr1_pack_size_update] h io) (\<lambda>h io.
              if fh_file_version h \<ge> 5 then parse_fields part1_fields h io else ok h io)
        = (case read_header bs of Inl e \<Rightarrow> fail e io' | Inr h \<Rightarrow> ok h io') \<and> live io'
    \<and> (\<forall>h. read_header bs = Inr h \<longrightarrow> pending io' = drop (nmo_header_get_size h) bs)"
proof -
  let ?us = "[fh_file_version2_update, fh_file_write_mode_update, fh_hdr1_pack_size_update]"
  obtain io1 where r1: "parse_fields ?us h io =
      (if length bs < 32 then fail NMO_ERR_EOF io1 else ok (fill_fields ?us (dwords_of_bytes (drop 20 bs)) h) io1)"
    "live io1" "32 \<le> length bs \<Longrightarrow> pending io1 = drop 32 bs"
    using parse_fields_at [OF live at long, of ?us h thesis] by simp
  show ?thesis
  proof (cases "length bs < 32")
    case True
    then show ?thesis using r1(1,2) long sig v ds by (intro exI [of _ io1]) (simp add: read_header_def Let_def)
  next
    case False
    have "length ds \<ge> 6" using ds False by simp
    from fill_header [OF this, of "take 8 bs"] drop_dwords_of_bytes [of 3 "drop 8 bs"] ds long
    have filled: "fill_fields ?us (dwords_of_bytes (drop 20 bs)) h = header_of (take 8 bs) ds" unfolding h by simp
    obtain io2 where r2: "parse_fields part1_fields (header_of (take 8 bs) ds) io1 =
        (if length bs < 64 then fail NMO_ERR_EOF io2 else ok (fill_fields part1_fields (dwords_of_bytes (drop 32 bs)) (header_of (take 8 bs) ds)) io2)"
      "live io2" "64 \<le> length bs \<Longrightarrow> pending io2 = drop 64 bs"
      using parse_fields_at [OF r1(2) r1(3), of part1_fields "header_of (take 8 bs) ds" thesis] False by simp
    consider "ds ! 2 < 5" | "5 \<le> ds ! 2" "length bs < 64" | "5 \<le> ds ! 2" "64 \<le> length bs" by fastforce
    then show ?thesis
    proof cases
      case 1
      then have "\<not> 5 \<le> ds ! 2" by (simp only: not_le simp_thms)
      with 1 show ?thesis using r1 False long sig v ds filled
        by (intro exI [of _ io1]) (simp add: read_header_def nmo_header_get_size_def Let_def del: parse_fields.simps fill_fields.simps)
    next
      case 2
      then have "\<not> ds ! 2 < 5" by (simp only: not_less simp_thms)
      with 2 show ?thesis using r1 r2 False long sig v ds filled
        by (intro exI [of _ io2]) (simp add: read_header_def Let_def del: parse_fields.simps fill_fields.simps)
    next
      case 3
      have "fill_fields part1_fields (dwords_of_bytes (drop 32 bs)) (header_of (take 8 bs) ds) = with_part1 (drop 6 ds) (header_of (take 8 bs) ds)"
        using fill_part1 [of "dwords_of_bytes (drop 32 bs)"] 3(2) drop_dwords_of_bytes [of 6 "drop 8 bs"] ds by simp
      moreover have "fh_file_version (with_part1 (drop 6 ds) (header_of (take 8 bs) ds)) = ds ! 2" by (simp add: with_part1_def)
      moreover have "\<not> ds ! 2 < 5" using 3(1) by (simp only: not_less simp_thms)
      ultimately show ?thesis using 3 r1 r2 False long sig v ds filled
        by (intro exI [of _ io2])
          (simp add: read_header_def nmo_header_get_size_def Let_def del: parse_fields.simps fill_fields.simps)
    qed
  qed
qed

text \<open>What the parser makes of any input.\<close>

lemma file_header_parse_any:
  assumes live: "live io"
  shows "\<exists>io'. nmo_file_header_parse io = (case read_header (pending io) of Inl e \<Rightarrow> fail e io' | Inr h \<Rightarrow> ok h io') \<and> live io'
    \<and> (\<forall>h. read_header (pending io) = Inr h \<longrightarrow> pending io' = drop (nmo_header_get_size h) (pending io))"
proof -
  let ?bs = "pending io" let ?ds = "dwords_of_bytes (drop 8 ?bs)"
  let ?us = "[fh_crc_update, fh_ck_version_update, fh_file_version_update]" and ?h0 = "zero_header\<lparr>fh_signature := take 8 ?bs\<rparr>"
  obtain io1 where r1: "nmo_io_read_exact 8 io = (if length ?bs < 8 then fail NMO_ERR_EOF io1 else ok (take 8 ?bs) io1)"
    "live io1" "pending io1 = drop 8 ?bs" using read_exact_any [OF live, of 8] by auto
  show ?thesis
  proof (cases "8 \<le> length ?bs \<and> take 8 ?bs = nemo_signature")
    case False
    then show ?thesis using r1
      by (intro exI [of _ io1]) (auto simp: nmo_file_header_parse_def read_header_def Let_def simp del: parse_fields.simps)
  next
    case True
    obtain io2 where r2: "parse_fields ?us ?h0 io1 =
        (if length ?bs < 20 then fail NMO_ERR_EOF io2 else ok (fill_fields ?us ?ds ?h0) io2)"
      "live io2" "20 \<le> length ?bs \<Longrightarrow> pending io2 = drop 20 ?bs"
      using parse_fields_at [OF r1(2,3), of ?us ?h0 thesis] True by simp
    have start: "nmo_file_header_parse io = bindR (parse_fields ?us ?h0 io1) (\<lambda>h io.
            if fh_file_version h < 2 \<or> fh_file_version h > 9 then fail NMO_ERR_UNSUPPORTED_VERSION io
            else bindR (parse_fields [fh_file_version2_update, fh_file_write_mode_update, fh_hdr1_pack_size_update] h io) (\<lambda>h io.
              if fh_file_version h \<ge> 5 then parse_fields part1_fields h io else ok h io))"
      using r1(1) True by (simp add: nmo_file_header_parse_def Let_def del: parse_fields.simps)
    have version: "fh_file_version (fill_fields ?us ?ds ?h0) = ?ds ! 2" if "20 \<le> length ?bs"
      using filled_version [of ?ds ?h0] that by simp
    consider "length ?bs < 20" | "20 \<le> length ?bs" "?ds ! 2 < 2 \<or> ?ds ! 2 > 9" | "20 \<le> length ?bs" "\<not> (?ds ! 2 < 2 \<or> ?ds ! 2 > 9)"
      by linarith
    then show ?thesis
    proof cases
      case 1
      then show ?thesis using r2(1,2) True unfolding start
        by (intro exI [of _ io2]) (simp add: read_header_def Let_def del: parse_fields.simps)
    next
      case 2
      then show ?thesis using r2(1,2) True version unfolding start
        by (intro exI [of _ io2]) (simp add: read_header_def Let_def del: parse_fields.simps fill_fields.simps)
    next
      case 3
      from parse_tail [OF r2(2) r2(3) [OF 3(1)] 3(1) conjunct2 [OF True] 3(2) refl refl] 3 version r2(1) show ?thesis unfolding start
        by (simp del: parse_fields.simps fill_fields.simps)
    qed
  qed
qed

end

context byte_sink
begin

lemma write_fields_ok:
  assumes "capable (4 * length ds + n) io"
  shows "\<exists>io'. write_fields ds io = ok () io' \<and> capable n io' \<and> written io' = written io @ bytes_of_dwords ds"
  using assms
proof (induction ds arbitrary: io)
  case Nil
  then show ?case by (auto simp: eff_simps)
next
  case (Cons d ds)
  then have "capable ((4 * length ds + n) + 4) io" by (simp add: add_ac)
  from write_u32_ok [OF this] obtain io1 where io1: "nmo_io_write_u32 d io = ok () io1" "capable (4 * length ds + n) io1"
    "written io1 = written io @ dword_bytes d" by blast
  from Cons.IH [OF io1(2)] io1(1,3) show ?case by auto
qed

lemma file_header_serialize_ok:
  assumes "capable (length (header_bytes h) + n) io"
  shows "\<exists>io'. nmo_file_header_serialize h io = ok () io' \<and> capable n io' \<and> written io' = written io @ header_bytes h"
proof -
  let ?m = "if fh_file_version h \<ge> 5 then 4 * length (part1_values h) else 0"
  have "capable (length (fh_signature h) + (4 * length (part0_values h) + (?m + n))) io"
    using assms by (simp add: header_bytes_def add_ac split: if_splits)
  from write_law [OF this] obtain io1 where io1: "nmo_io_write (fh_signature h) io = ok () io1"
    "capable (4 * length (part0_values h) + (?m + n)) io1" "written io1 = written io @ fh_signature h" by blast
  from write_fields_ok [OF io1(2)] obtain io2 where io2: "write_fields (part0_values h) io1 = ok () io2" "capable (?m + n) io2"
    "written io2 = written io @ fh_signature h @ bytes_of_dwords (part0_values h)" using io1(3) by auto
  show ?thesis
  proof (cases "fh_file_version h \<ge> 5")
    case True
    with io2(2) have "capable (4 * length (part1_values h) + n) io2" by simp
    from write_fields_ok [OF this] io1(1) io2(1,3) True show ?thesis
      by (auto simp: nmo_file_header_serialize_def header_bytes_def)
  next
    case False
    with io1(1) io2 show ?thesis by (auto simp: nmo_file_header_serialize_def header_bytes_def)
  qed
qed

end

section \<open>Properties\<close>

text \<open>A header that passes validation; below version 5 the second part is not stored.\<close>

definition header_ok :: "nmo_file_header \<Rightarrow> bool" where
  "header_ok h \<longleftrightarrow> nmo_header_validate h = Inr () \<and> (fh_file_version h < 5 \<longrightarrow> part1_values h = replicate 8 0)"

lemma header_ok_fields:
  assumes "header_ok h"
  shows "fh_signature h = nemo_signature" "\<not> (fh_file_version h < 2 \<or> fh_file_version h > 9)"
  using assms by (auto simp: header_ok_def nmo_header_validate_def nmo_file_header_validate_def split: if_splits)

lemma length_header_bytes: "header_ok h \<Longrightarrow> length (header_bytes h) = nmo_header_get_size h"
  by (simp add: header_bytes_def header_ok_fields nemo_signature_def part0_values_def part1_values_def nmo_header_get_size_def)

lemma header_of_values: "part1_values h = replicate 8 0 \<Longrightarrow> header_of (fh_signature h) (part0_values h @ rest) = h"
  by (cases h) (auto simp: header_of_def part0_values_def part1_values_def zero_header_def numeral_eq_Suc)

lemma with_part1_values: "with_part1 (part1_values h @ rest) (header_of (fh_signature h) (part0_values h @ rest')) = h"
  by (cases h) (auto simp: header_of_def with_part1_def part0_values_def part1_values_def zero_header_def numeral_eq_Suc)

lemma read_header_bytes:
  assumes "header_ok h"
  shows "read_header (header_bytes h) = Inr h"
proof -
  let ?tail = "if fh_file_version h \<ge> 5 then part1_values h else []"
  note f = header_ok_fields [OF assms]
  have l: "length (fh_signature h) = 8" by (simp add: f nemo_signature_def)
  have d: "dwords_of_bytes (drop 8 (header_bytes h)) = part0_values h @ ?tail" and t: "take 8 (header_bytes h) = fh_signature h"
    by (simp_all add: header_bytes_def l dwords_of_bytes_of_dwords [of "_ @ _", simplified])
  have v: "(part0_values h @ ?tail) ! 2 = fh_file_version h" by (simp add: part0_values_def)
  have n: "length (header_bytes h) = nmo_header_get_size h" by (rule length_header_bytes [OF assms])
  have p0: "length (part0_values h) = 6" by (simp add: part0_values_def)
  show ?thesis
  proof (cases "fh_file_version h \<ge> 5")
    case True
    then have "\<not> fh_file_version h < 5" by (simp only: not_less simp_thms)
    with True d t v n f p0 with_part1_values [of h "[]" "part1_values h"] show ?thesis
      by (simp add: read_header_def nmo_header_get_size_def Let_def)
  next
    case False
    then have s: "fh_file_version h < 5" by (simp only: not_le simp_thms)
    with assms have "part1_values h = replicate 8 0" by (simp add: header_ok_def)
    with False s d t v n f header_of_values [of h "[]"] show ?thesis
      by (simp add: read_header_def nmo_header_get_size_def Let_def)
  qed
qed

text \<open>
  C13: a validated header written to a memory stream takes exactly the announced number of bytes, and a
  stream opened on those bytes parses back to the same header. Of a header below version 5 the file has
  the first part only: it comes back when the fields of the second part are zero.
\<close>

theorem file_header_round_trip:
  assumes "nmo_memory_io_open_write (\<lambda>_ _. True) fresh n = Some io" and "n < 2 ^ 64"
    and "nmo_header_validate h = Inr ()" and "fh_file_version h < 5 \<longrightarrow> part1_values h = replicate 8 0"
  shows "\<exists>io' buffer r r'. nmo_header_write h io = ok () io'
    \<and> nmo_memory_io_get_data io' = (Some buffer, nmo_header_get_size h)
    \<and> nmo_memory_io_open_read (\<lambda>_ _. True) (Some (take (nmo_header_get_size h) buffer)) (nmo_header_get_size h) = Some r
    \<and> nmo_header_parse r = ok h r'"
proof -
  have h: "header_ok h" using assms(3,4) by (simp add: header_ok_def)
  note len = length_header_bytes [OF h]
  obtain mh where mh: "io = memory_writer mh" "writer_ok mh" "writer_content mh = []" "wh_position mh = 0"
    using open_write_holds [OF assms(1,2)] by (auto simp: holds_file_def)
  have "wh_size mh = 0" using writer_content_length [OF mh(2)] mh(3) by simp
  moreover have "length (header_bytes h) \<le> 64" by (simp add: len nmo_header_get_size_def)
  ultimately have "\<exists>mh. io = memory_writer mh \<and> writer_ok mh \<and> wh_position mh = wh_size mh
      \<and> wh_size mh + (length (header_bytes h) + 0) \<le> 2 ^ 62" using mh by auto
  from writer.file_header_serialize_ok [OF this] mh obtain m where
    m: "nmo_file_header_serialize h io = ok () (memory_writer m)" "writer_ok m" "writer_content m = header_bytes h"
    by (auto simp: memory_writer_def)
  have sz: "wh_size m = nmo_header_get_size h" using writer_content_length [OF m(2)] m(3) len by simp
  have pos: "0 < nmo_header_get_size h" by (simp add: nmo_header_get_size_def)
  with sz m(2) obtain buffer where b: "wh_data m = Some buffer"
    by (cases "wh_data m") (auto simp: writer_ok_def wh_bytes_def)
  have tk: "take (nmo_header_get_size h) buffer = header_bytes h" using m(3) b sz by (simp add: writer_content_def wh_bytes_def)
  obtain r where r: "nmo_memory_io_open_read (\<lambda>_ _. True) (Some (header_bytes h)) (length (header_bytes h)) = Some r"
    using pos len by (auto simp: nmo_memory_io_open_read_def)
  have "length (header_bytes h) < 2 ^ 64" using len by (simp add: nmo_header_get_size_def)
  from open_read_ok [OF r this] have q: "reads_input (header_bytes h) r" "reader_rest (io_handle r) = header_bytes h" by simp_all
  from reader.file_header_parse_any [OF q(1)] read_header_bytes [OF h] obtain r' where r': "nmo_header_parse r = ok h r'"
    by (auto simp: q(2) nmo_header_parse_def)
  have "nmo_memory_io_get_data (memory_writer m) = (Some buffer, nmo_header_get_size h)"
    using sz b by (simp add: nmo_memory_io_get_data_def memory_writer_def)
  with m(1) r r' show ?thesis unfolding tk len nmo_header_write_def
    by (intro exI [of _ "memory_writer m"] exI [of _ buffer] exI [of _ r] exI [of _ r']) (simp add: tk)
qed

theorem file_header_round_trip_witness:
  "\<exists>h io io' (r :: nmo_memory_read_handle nmo_io_interface) r'. nmo_header_create True = Some h \<and> nmo_memory_io_open_write (\<lambda>_ _. True) (\<lambda>_ _. 0) 16 = Some io
    \<and> nmo_header_write h io = ok () io' \<and> snd (nmo_memory_io_get_data io') = 64 \<and> nmo_header_parse r = ok h r'"
proof -
  obtain h where h: "nmo_header_create True = Some h" by (simp add: nmo_header_create_def)
  obtain io where io: "nmo_memory_io_open_write (\<lambda>_ _. True) (\<lambda>_ _. 0) 16 = Some io" by (simp add: nmo_memory_io_open_write_def)
  have v: "nmo_header_validate h = Inr ()" "\<not> fh_file_version h < 5" "nmo_header_get_size h = 64"
    using h by (auto simp: nmo_header_create_def nmo_header_validate_def nmo_file_header_validate_def nmo_header_get_size_def)
  have f: "fh_file_version h < 5 \<longrightarrow> part1_values h = replicate 8 0" using v(2) by simp
  have n: "(16 :: nat) < 2 ^ 64" by simp
  from file_header_round_trip [OF io n v(1) f] obtain io' buffer r' and r :: "nmo_memory_read_handle nmo_io_interface" where
    "nmo_header_write h io = ok () io'" "nmo_memory_io_get_data io' = (Some buffer, 64)" "nmo_header_parse r = ok h r'"
    unfolding v(3) by blast
  with h io show ?thesis by (metis snd_conv)
qed

lemma read_header_Inr:
  assumes "read_header bs = Inr h"
  shows "nmo_header_validate h = Inr ()" "nmo_header_get_size h \<le> length bs"
proof -
  let ?ds = "dwords_of_bytes (drop 8 bs)"
  have s: "take 8 bs = nemo_signature" "\<not> (?ds ! 2 < 2 \<or> ?ds ! 2 > 9)" "32 \<le> length bs"
    and h: "?ds ! 2 < 5 \<and> h = header_of nemo_signature ?ds
      \<or> \<not> ?ds ! 2 < 5 \<and> 64 \<le> length bs \<and> h = with_part1 (drop 6 ?ds) (header_of nemo_signature ?ds)"
    using assms by (auto simp: read_header_def Let_def split: if_splits)
  have "fh_signature h = nemo_signature" "fh_file_version h = ?ds ! 2"
    using h by (auto simp: header_of_def with_part1_def)
  with s(2) show "nmo_header_validate h = Inr ()" by (simp add: nmo_header_validate_def nmo_file_header_validate_def)
  have "64 \<le> length bs" if "5 \<le> ?ds ! 2"
  proof -
    from that have "\<not> ?ds ! 2 < 5" by (simp only: not_less simp_thms)
    with h show ?thesis by blast
  qed
  with s(3) \<open>fh_file_version h = ?ds ! 2\<close> show "nmo_header_get_size h \<le> length bs" by (simp add: nmo_header_get_size_def)
qed

text \<open>
  C20: on any input the header parser returns what the format says: end of file when a part is cut off,
  a wrong signature or an unsupported version when that is met first, else a header that passes
  validation, with the stream behind it.
\<close>

theorem file_header_parse_outcome:
  assumes "nmo_memory_io_open_read alloc (Some bs) (length bs) = Some io" and "length bs < 2 ^ 63"
  shows "\<exists>io'. nmo_header_parse io = (case read_header bs of Inl e \<Rightarrow> fail e io' | Inr h \<Rightarrow> ok h io')
    \<and> (\<forall>h. read_header bs = Inr h \<longrightarrow> nmo_header_validate h = Inr () \<and> nmo_io_tell io' = int (nmo_header_get_size h))"
proof -
  have "length bs < 2 ^ 64" using assms(2) by simp
  from open_read_ok [OF assms(1) this] have q: "reads_input bs io" "reader_rest (io_handle io) = bs" by simp_all
  from reader.file_header_parse_any [OF q(1)] obtain io' where
    p: "nmo_header_parse io = (case read_header bs of Inl e \<Rightarrow> fail e io' | Inr h \<Rightarrow> ok h io')" "reads_input bs io'"
      "\<And>h. read_header bs = Inr h \<Longrightarrow> reader_rest (io_handle io') = drop (nmo_header_get_size h) bs"
    by (auto simp: q(2) nmo_header_parse_def)
  have "nmo_header_validate h = Inr () \<and> nmo_io_tell io' = int (nmo_header_get_size h)" if "read_header bs = Inr h" for h
    using read_header_Inr [OF that] reader_tell [OF p(2) p(3) [OF that] _ assms(2)] by simp
  with p(1) show ?thesis by blast
qed

theorem file_header_parse_outcome_witness:
  "\<exists>io io'. nmo_memory_io_open_read (\<lambda>_ _. True) (Some (nemo_signature @ replicate 12 0)) 20 = Some io
    \<and> nmo_header_parse io = fail NMO_ERR_UNSUPPORTED_VERSION io'"
proof -
  let ?bs = "nemo_signature @ replicate 12 0"
  obtain io where io: "nmo_memory_io_open_read (\<lambda>_ _. True) (Some ?bs) (length ?bs) = Some io"
    by (simp add: nmo_memory_io_open_read_def nemo_signature_def)
  have "read_header ?bs = Inl NMO_ERR_UNSUPPORTED_VERSION"
    by (simp add: read_header_def nemo_signature_def Let_def numeral_eq_Suc bytes_dword_def)
  with file_header_parse_outcome [OF io] obtain io' where "nmo_header_parse io = fail NMO_ERR_UNSUPPORTED_VERSION io'"
    by (auto simp: nemo_signature_def)
  with io show ?thesis by (auto simp: nemo_signature_def)
qed

end
