(* ===== verification/Hash.thy ===== *)
theory Hash
  imports IndexedMap
begin

text \<open>
  The hash functions of \<^verbatim>\<open>src/core/hash.c\<close> and \<^verbatim>\<open>include/core/nmo_hash.h\<close>, and C strings as keys. The
  input of a hash is the list of its bytes; a load that passes the end of the input is \<open>Undefined\<close>.
\<close>

section \<open>Loads and rotations\<close>

definition load_u32 :: "u8 list \<Rightarrow> nat \<Rightarrow> u32 eff" where
  "load_u32 bytes i =
     (if i + 4 \<le> length bytes
      then Done (bytes_dword (bytes ! i) (bytes ! (i + 1)) (bytes ! (i + 2)) (bytes ! (i + 3)))
      else Undefined)"

definition load_u64 :: "u8 list \<Rightarrow> nat \<Rightarrow> u64 eff" where
  "load_u64 bytes i =
     bindE (load_u32 bytes i) (\<lambda>lo. bindE (load_u32 bytes (i + 4)) (\<lambda>hi. Done (ucast lo OR push_bit 32 (ucast hi))))"

definition rotl32 :: "u32 \<Rightarrow> nat \<Rightarrow> u32" where
  "rotl32 x r = push_bit r x OR drop_bit (32 - r) x"

definition rotl64 :: "u64 \<Rightarrow> nat \<Rightarrow> u64" where
  "rotl64 x r = push_bit r x OR drop_bit (64 - r) x"

text \<open>The bytes of a tail, each at its place.\<close>

fun tail_word :: "nat \<Rightarrow> u8 list \<Rightarrow> 'a::len word" where
  "tail_word n [] = 0"
| "tail_word n (b # bs) = tail_word (n + 8) bs XOR push_bit n (ucast b)"

section \<open>MurmurHash3\<close>

definition fmix32 :: "u32 \<Rightarrow> u32" where
  "fmix32 h =
     (let h = h XOR drop_bit 16 h; h = h * 0x85ebca6b; h = h XOR drop_bit 13 h; h = h * 0xc2b2ae35
      in h XOR drop_bit 16 h)"

definition murmur3_scramble :: "u32 \<Rightarrow> u32" where
  "murmur3_scramble k = rotl32 (k * 0xcc9e2d51) 15 * 0x1b873593"

text \<open>The blocks are read from \<^verbatim>\<open>bytes + nblocks * 4\<close> on.\<close>

fun murmur3_32_body :: "u8 list \<Rightarrow> nat \<Rightarrow> nat \<Rightarrow> u32 \<Rightarrow> u32 eff" where
  "murmur3_32_body bytes p 0 h1 = Done h1"
| "murmur3_32_body bytes p (Suc n) h1 =
     bindE (load_u32 bytes p) (\<lambda>k1.
       murmur3_32_body bytes (p + 4) n (rotl32 (h1 XOR murmur3_scramble k1) 13 * 5 + 0xe6546b64))"

definition nmo_murmur3_32 :: "u8 list \<Rightarrow> u32 \<Rightarrow> u32 eff" where
  "nmo_murmur3_32 bytes seed =
     (let len = length bytes; nblocks = len div 4
      in bindE (murmur3_32_body bytes (nblocks * 4) nblocks seed) (\<lambda>h1.
           let h1 = (if len mod 4 = 0 then h1 else h1 XOR murmur3_scramble (tail_word 0 (drop (nblocks * 4) bytes)))
           in Done (fmix32 (h1 XOR word_of_nat len))))"

definition murmur3_k1 :: "u64 \<Rightarrow> u64" where
  "murmur3_k1 k = rotl64 (k * 0x87c37b91114253d5) 31 * 0x4cf5ad432745937f"

definition murmur3_k2 :: "u64 \<Rightarrow> u64" where
  "murmur3_k2 k = rotl64 (k * 0x4cf5ad432745937f) 33 * 0x87c37b91114253d5"

fun murmur3_128_body :: "u8 list \<Rightarrow> nat \<Rightarrow> nat \<Rightarrow> u64 \<times> u64 \<Rightarrow> (u64 \<times> u64) eff" where
  "murmur3_128_body bytes p 0 h = Done h"
| "murmur3_128_body bytes p (Suc n) h =
     bindE (load_u64 bytes p) (\<lambda>k1. bindE (load_u64 bytes (p + 8)) (\<lambda>k2.
       let h1 = (rotl64 (fst h XOR murmur3_k1 k1) 27 + snd h) * 5 + 0x52dce729;
           h2 = (rotl64 (snd h XOR murmur3_k2 k2) 31 + h1) * 5 + 0x38495ab5
       in murmur3_128_body bytes (p + 16) n (h1, h2)))"

text \<open>The finalizer of the 64-bit halves is that of \<^verbatim>\<open>nmo_hash_int64\<close>.\<close>

definition nmo_hash_int64 :: "u64 \<Rightarrow> u64" where
  "nmo_hash_int64 v =
     (let v = v XOR drop_bit 33 v; v = v * 0xff51afd7ed558ccd; v = v XOR drop_bit 33 v; v = v * 0xc4ceb9fe1a85ec53
      in v XOR drop_bit 33 v)"

definition nmo_murmur3_128 :: "u8 list \<Rightarrow> u32 \<Rightarrow> (u64 \<times> u64) eff" where
  "nmo_murmur3_128 bytes seed =
     (let len = length bytes; nblocks = len div 16; tail = drop (nblocks * 16) bytes
      in bindE (murmur3_128_body bytes 0 nblocks (ucast seed, ucast seed)) (\<lambda>(h1, h2).
           let h2 = (if len mod 16 \<ge> 9 then h2 XOR murmur3_k2 (tail_word 0 (drop 8 tail)) else h2);
               h1 = (if len mod 16 \<ge> 1 then h1 XOR murmur3_k1 (tail_word 0 (take 8 tail)) else h1);
               h1 = h1 XOR word_of_nat len; h2 = h2 XOR word_of_nat len;
               h1 = h1 + h2; h2 = h2 + h1;
               h1 = nmo_hash_int64 h1; h2 = nmo_hash_int64 h2;
               h1 = h1 + h2; h2 = h2 + h1
           in Done (h1, h2)))"

section \<open>XXHash32\<close>

definition PRIME32_1 :: u32 where "PRIME32_1 = 0x9E3779B1"
definition PRIME32_2 :: u32 where "PRIME32_2 = 0x85EBCA77"
definition PRIME32_3 :: u32 where "PRIME32_3 = 0xC2B2AE3D"
definition PRIME32_4 :: u32 where "PRIME32_4 = 0x27D4EB2F"
definition PRIME32_5 :: u32 where "PRIME32_5 = 0x165667B1"

definition xxh_round :: "u32 \<Rightarrow> u32 \<Rightarrow> u32" where
  "xxh_round v k = rotl32 (v + k * PRIME32_2) 13 * PRIME32_1"

text \<open>The stripes of 16 bytes; the argument is the position \<^verbatim>\<open>p\<close>, the result the lanes and the new \<^verbatim>\<open>p\<close>.\<close>

function xxh_stripes :: "u8 list \<Rightarrow> nat \<Rightarrow> u32 \<times> u32 \<times> u32 \<times> u32 \<Rightarrow> ((u32 \<times> u32 \<times> u32 \<times> u32) \<times> nat) eff" where
  "xxh_stripes bytes p (v1, v2, v3, v4) =
     (if p + 16 \<le> length bytes then
        bindE (load_u32 bytes p) (\<lambda>k1. bindE (load_u32 bytes (p + 4)) (\<lambda>k2.
        bindE (load_u32 bytes (p + 8)) (\<lambda>k3. bindE (load_u32 bytes (p + 12)) (\<lambda>k4.
          xxh_stripes bytes (p + 16) (xxh_round v1 k1, xxh_round v2 k2, xxh_round v3 k3, xxh_round v4 k4)))))
      else Done ((v1, v2, v3, v4), p))"
  by pat_completeness auto
termination by (relation "measure (\<lambda>(bytes, p, _). length bytes - p)") auto

function xxh_words :: "u8 list \<Rightarrow> nat \<Rightarrow> u32 \<Rightarrow> (u32 \<times> nat) eff" where
  "xxh_words bytes p h =
     (if p + 4 \<le> length bytes then
        bindE (load_u32 bytes p) (\<lambda>k1. xxh_words bytes (p + 4) (rotl32 (h + k1 * PRIME32_3) 17 * PRIME32_4))
      else Done (h, p))"
  by pat_completeness auto
termination by (relation "measure (\<lambda>(bytes, p, _). length bytes - p)") auto

declare xxh_stripes.simps [simp del] xxh_words.simps [simp del]

definition xxh_byte :: "u8 \<Rightarrow> u32 \<Rightarrow> u32" where
  "xxh_byte b h = rotl32 (h + ucast b * PRIME32_5) 11 * PRIME32_1"

definition nmo_xxhash32 :: "u8 list \<Rightarrow> u32 \<Rightarrow> u32 eff" where
  "nmo_xxhash32 bytes seed =
     bindE (if length bytes \<ge> 16 then
              bindE (xxh_stripes bytes 0 (seed + PRIME32_1 + PRIME32_2, seed + PRIME32_2, seed, seed - PRIME32_1)) (\<lambda>((v1, v2, v3, v4), p).
                Done (rotl32 v1 1 + rotl32 v2 7 + rotl32 v3 12 + rotl32 v4 18, p))
            else Done (seed + PRIME32_5, 0)) (\<lambda>(h, p).
     bindE (xxh_words bytes p (h + word_of_nat (length bytes))) (\<lambda>(h, p).
       let h = fold xxh_byte (drop p bytes) h;
           h = h XOR drop_bit 15 h; h = h * PRIME32_2; h = h XOR drop_bit 13 h; h = h * PRIME32_3
       in Done (h XOR drop_bit 16 h)))"

section \<open>Hashes of keys\<close>

definition nmo_hash_fnv1a :: "u8 list \<Rightarrow> nat" where
  "nmo_hash_fnv1a bytes =
     unat (fold (\<lambda>b hash. (hash XOR ucast b) * 1099511628211) bytes (14695981039346656037 :: u64))"

definition nmo_hash_int32 :: "u32 \<Rightarrow> u32" where
  "nmo_hash_int32 v =
     (let v = v XOR drop_bit 16 v; v = v * 0x85ebca6b; v = v XOR drop_bit 13 v; v = v * 0xc2b2ae35
      in v XOR drop_bit 16 v)"

definition nmo_hash_uint32 :: "u32 \<Rightarrow> nat" where
  "nmo_hash_uint32 key = unat (nmo_hash_int32 key)"

text \<open>A C string: the bytes before the terminating zero.\<close>

typedef cstring = "{bs :: u8 list. 0 \<notin> set bs}"
  morphisms string_bytes Abs_cstring
  by (rule exI [of _ "[]"]) simp

setup_lifting type_definition_cstring

lift_definition nmo_hash_string :: "cstring \<Rightarrow> nat" is
  "\<lambda>str. unat (fold (\<lambda>c hash. (push_bit 5 hash + hash) + scast c) str (5381 :: u64))" .

definition nmo_compare_string :: "cstring \<Rightarrow> cstring \<Rightarrow> int" where
  "nmo_compare_string str1 str2 = strcmp (string_bytes str1) (string_bytes str2)"

definition string_empty :: "cstring \<Rightarrow> bool" where
  "string_empty str \<longleftrightarrow> string_bytes str = []"

lemma strcmp_zero:
  "0 \<notin> set xs \<Longrightarrow> 0 \<notin> set ys \<Longrightarrow> strcmp xs ys = 0 \<longleftrightarrow> xs = ys"
  by (induction xs ys rule: strcmp.induct) (auto simp: word_uint_eq_iff)

lemma compare_string_eq: "nmo_compare_string x y = 0 \<longleftrightarrow> x = y"
  using string_bytes [of x] string_bytes [of y]
  by (simp add: nmo_compare_string_def strcmp_zero string_bytes_inject)

section \<open>Properties\<close>

lemma load_u32_returns [simp]: "i + 4 \<le> length bytes \<Longrightarrow> \<exists>w. load_u32 bytes i = Done w"
  by (simp add: load_u32_def)

text \<open>
  C39: MurmurHash3 in its 32-bit form starts reading its blocks where they end: on every input of four
  bytes or more it reads outside the input, and only shorter inputs have a hash.
\<close>

theorem murmur3_32_overruns_iff:
  "nmo_murmur3_32 bytes seed = Undefined \<longleftrightarrow> 4 \<le> length bytes"
proof (cases "length bytes div 4")
  case 0
  then show ?thesis by (auto simp: nmo_murmur3_32_def Let_def)
next
  case (Suc n)
  have "\<not> length bytes div 4 * 4 + 4 \<le> length bytes" by linarith
  then have "load_u32 bytes (length bytes div 4 * 4) = Undefined" by (simp add: load_u32_def)
  moreover have "4 \<le> length bytes" using Suc by (metis Suc_neq_Zero div_less not_le)
  ultimately show ?thesis using Suc by (simp add: nmo_murmur3_32_def)
qed

lemma murmur3_128_body_returns:
  "p + 16 * n \<le> length bytes \<Longrightarrow> \<exists>h'. murmur3_128_body bytes p n h = Done h'"
proof (induction n arbitrary: p h)
  case (Suc n)
  have l: "\<exists>w. load_u64 bytes i = Done w" if "i + 8 \<le> length bytes" for i
    using that by (auto simp: load_u64_def load_u32_def)
  from Suc.prems l [of p] l [of "p + 8"] Suc.IH [of "p + 16"] show ?case by (auto simp: Let_def)
qed simp

lemma xxh_stripes_returns:
  "\<exists>v p'. xxh_stripes bytes p vs = Done (v, p')"
proof (induction bytes p vs rule: xxh_stripes.induct)
  case (1 bytes p v1 v2 v3 v4)
  show ?case
  proof (cases "p + 16 \<le> length bytes")
    case True
    then obtain k1 k2 k3 k4 where k: "load_u32 bytes p = Done k1" "load_u32 bytes (p + 4) = Done k2"
      "load_u32 bytes (p + 8) = Done k3" "load_u32 bytes (p + 12) = Done k4"
      by (auto simp: load_u32_def)
    from 1 [OF True, of k1 k2 k3 k4] True k show ?thesis by (simp add: xxh_stripes.simps [of bytes p])
  qed (simp add: xxh_stripes.simps [of bytes p])
qed

lemma xxh_words_returns:
  "\<exists>h' p'. xxh_words bytes p h = Done (h', p')"
proof (induction bytes p h rule: xxh_words.induct)
  case (1 bytes p h)
  show ?case
  proof (cases "p + 4 \<le> length bytes")
    case True
    then obtain k where "load_u32 bytes p = Done k" by (auto simp: load_u32_def)
    with 1 [OF True, of k] True show ?thesis by (simp add: xxh_words.simps [of bytes p])
  qed (simp add: xxh_words.simps [of bytes p])
qed

text \<open>
  C40: the other two hashes stay inside their input, whatever its length, and return.
\<close>

theorem xxhash_and_murmur128_in_bounds:
  "returns (nmo_xxhash32 bytes seed) \<and> returns (nmo_murmur3_128 bytes seed)"
proof
  obtain v p where s: "xxh_stripes bytes 0 (seed + PRIME32_1 + PRIME32_2, seed + PRIME32_2, seed, seed - PRIME32_1) = Done (v, p)"
    using xxh_stripes_returns by blast
  obtain h q where "(if length bytes \<ge> 16 then
              bindE (xxh_stripes bytes 0 (seed + PRIME32_1 + PRIME32_2, seed + PRIME32_2, seed, seed - PRIME32_1)) (\<lambda>((v1, v2, v3, v4), p).
                Done (rotl32 v1 1 + rotl32 v2 7 + rotl32 v3 12 + rotl32 v4 18, p))
            else Done (seed + PRIME32_5, 0)) = Done (h, q)"
    using s by (cases v, cases "length bytes \<ge> 16") auto
  moreover obtain h' q' where "xxh_words bytes q (h + word_of_nat (length bytes)) = Done (h', q')"
    using xxh_words_returns by blast
  ultimately show "returns (nmo_xxhash32 bytes seed)" by (simp add: nmo_xxhash32_def Let_def)
next
  obtain h1 h2 where "murmur3_128_body bytes 0 (length bytes div 16) (ucast seed, ucast seed) = Done (h1, h2)"
    using murmur3_128_body_returns [of 0 "length bytes div 16" bytes] by force
  then show "returns (nmo_murmur3_128 bytes seed)" by (simp add: nmo_murmur3_128_def Let_def)
qed

text \<open>A word folded onto itself by a shift, and a product with an odd constant, can be undone.\<close>

lemma self_shift_zero:
  assumes "drop_bit n d = (d :: 'a::len word)" and "0 < n"
  shows "d = 0"
proof (rule bit_word_eqI)
  fix i
  have s: "bit d j \<longleftrightarrow> bit d (n + j)" for j using arg_cong [OF assms(1), of "\<lambda>w. bit w j"] by (simp add: bit_simps)
  have "bit d i \<longleftrightarrow> bit d (n * k + i)" for k
  proof (induction k)
    case (Suc k)
    with s [of "n * k + i"] show ?case by (simp add: add.assoc)
  qed simp
  from this [of "LENGTH('a)"] have "bit d i \<longleftrightarrow> bit d (n * LENGTH('a) + i)" .
  moreover have "LENGTH('a) \<le> n * LENGTH('a) + i" using assms(2) by (simp add: trans_le_add1)
  ultimately show "bit d i \<longleftrightarrow> bit 0 i" by (auto dest: bit_imp_le_length)
qed

lemma xor_shift_inj:
  assumes "x XOR drop_bit n x = y XOR drop_bit n (y :: 'a::len word)" and "0 < n"
  shows "x = y"
proof -
  have "drop_bit n (x XOR y) = x XOR y"
  proof (rule bit_word_eqI)
    fix i
    show "bit (drop_bit n (x XOR y)) i \<longleftrightarrow> bit (x XOR y) i"
      using arg_cong [OF assms(1), of "\<lambda>w. bit w i"] by (auto simp: bit_simps)
  qed
  from self_shift_zero [OF this assms(2)] have "(x XOR y) XOR y = y" by simp
  then show ?thesis by (simp add: xor.assoc)
qed

lemma mult_inj:
  assumes "x * c = y * (c :: 'a::len word)" and "c * c' = 1"
  shows "x = y"
  using arg_cong [OF assms(1), of "\<lambda>w. w * c'"] assms(2) by (simp add: mult.assoc)

text \<open>
  The hash of a 32-bit key loses nothing: different keys have different hashes, so two class IDs
  only meet in a table when its mask makes them.
\<close>

theorem hash_uint32_injective: "nmo_hash_uint32 x = nmo_hash_uint32 y \<longleftrightarrow> x = y"
proof
  assume "nmo_hash_uint32 x = nmo_hash_uint32 y"
  then have e: "nmo_hash_int32 x = nmo_hash_int32 y" by (simp add: nmo_hash_uint32_def word_unat_eq_iff)
  have c: "(0x85ebca6b :: u32) * 0xa5cb9243 = 1" "(0xc2b2ae35 :: u32) * 0x7ed1b41d = 1" by simp_all
  from e [unfolded nmo_hash_int32_def Let_def] show "x = y"
    by (rule xor_shift_inj [THEN mult_inj [OF _ c(2)], THEN xor_shift_inj, THEN mult_inj [OF _ c(1)], THEN xor_shift_inj]) simp_all
qed simp

end
