(* ===== verification/Objects.thy ===== *)
theory Objects
  imports Chunk Arena Hash
begin

text \<open>
  Objects in memory, \<^verbatim>\<open>src/format/object.c\<close>. Objects point to each other, so they live in an explicit
  store from addresses to objects, and every operation takes the store and returns it updated. A
  pointer is an address; the model of \<^verbatim>\<open>nmo_object_create\<close> places a region of the arena by the parameter
  \<open>addr\<close>. The array of children is the list of those in use next to its capacity.
\<close>

type_synonym obj_ref = nat

record nmo_object =
  ob_id :: u32
  ob_class_id :: u32
  ob_name :: "cstring option"
  ob_flags :: u32
  ob_type_guid :: nmo_guid
  ob_parent :: "obj_ref option"
  ob_children :: "obj_ref list"
  ob_child_capacity :: nat
  ob_chunk :: "nmo_chunk option"
  ob_data :: "nat option"
  ob_file_index :: u32
  ob_creation_flags :: u32
  ob_save_flags :: u32

type_synonym object_store = "obj_ref \<Rightarrow> nmo_object"

definition sizeof_object :: nat where
  "sizeof_object = 104"

definition nmo_object_create ::
  "(region \<Rightarrow> obj_ref) \<Rightarrow> u32 \<Rightarrow> u32 \<Rightarrow> arena \<Rightarrow> object_store \<Rightarrow> (obj_ref option \<times> arena \<times> object_store) eff" where
  "nmo_object_create addr new_id class_id a objs =
     bindE (nmo_arena_alloc sizeof_object 8 a) (\<lambda>(r, a). case r of
       None \<Rightarrow> Done (None, a, objs)
     | Some r \<Rightarrow> Done (Some (addr r), a, objs(addr r :=
         \<lparr>ob_id = new_id, ob_class_id = class_id, ob_name = None, ob_flags = 0, ob_type_guid = \<lparr>d1 = 0, d2 = 0\<rparr>,
          ob_parent = None, ob_children = [], ob_child_capacity = 0, ob_chunk = None, ob_data = None,
          ob_file_index = new_id, ob_creation_flags = 0, ob_save_flags = 0\<rparr>)))"

definition nmo_object_set_name ::
  "obj_ref \<Rightarrow> cstring option \<Rightarrow> arena \<Rightarrow> object_store \<Rightarrow> (unit, arena \<times> object_store) cres" where
  "nmo_object_set_name p name a objs =
     (case name of
        None \<Rightarrow> ok () (a, objs(p := (objs p)\<lparr>ob_name := None\<rparr>))
      | Some s \<Rightarrow>
          bindE (nmo_arena_alloc (sz_add (length (string_bytes s)) 1) 1 a) (\<lambda>(r, a). case r of
            None \<Rightarrow> fail NMO_ERR_NOMEM (a, objs)
          | Some _ \<Rightarrow> ok () (a, objs(p := (objs p)\<lparr>ob_name := Some s\<rparr>))))"

definition nmo_object_get_name :: "obj_ref \<Rightarrow> object_store \<Rightarrow> cstring option" where
  "nmo_object_get_name p objs = ob_name (objs p)"

section \<open>Children\<close>

text \<open>Room for one more child: the array doubles, and the new one comes from the arena.\<close>

definition grow_children :: "obj_ref \<Rightarrow> arena \<Rightarrow> object_store \<Rightarrow> (unit, arena \<times> object_store) cres" where
  "grow_children p a objs =
     (let ob = objs p
      in if length (ob_children ob) \<ge> ob_child_capacity ob then
           let new_capacity = (if ob_child_capacity ob = 0 then 4 else sz_mul (ob_child_capacity ob) 2)
           in bindE (nmo_arena_alloc (sz_mul new_capacity 8) 8 a) (\<lambda>(r, a). case r of
                None \<Rightarrow> fail NMO_ERR_NOMEM (a, objs)
              | Some _ \<Rightarrow> ok () (a, objs(p := ob\<lparr>ob_child_capacity := new_capacity\<rparr>)))
         else ok () (a, objs))"

definition nmo_object_add_child :: "obj_ref \<Rightarrow> obj_ref \<Rightarrow> arena \<Rightarrow> object_store \<Rightarrow> (unit, arena \<times> object_store) cres" where
  "nmo_object_add_child parent child a objs =
     bindR (grow_children parent a objs) (\<lambda>_ (a, objs).
       let objs = objs(parent := (objs parent)\<lparr>ob_children := ob_children (objs parent) @ [child]\<rparr>)
       in ok () (a, objs(child := (objs child)\<lparr>ob_parent := Some parent\<rparr>)))"

text \<open>The place of a pointer in an array.\<close>

fun find_ref :: "obj_ref \<Rightarrow> obj_ref list \<Rightarrow> nat option" where
  "find_ref p [] = None"
| "find_ref p (q # qs) = (if q = p then Some 0 else map_option Suc (find_ref p qs))"

definition nmo_object_remove_child :: "obj_ref \<Rightarrow> obj_ref \<Rightarrow> object_store \<Rightarrow> (unit, object_store) cres" where
  "nmo_object_remove_child parent child objs =
     (case find_ref child (ob_children (objs parent)) of
        None \<Rightarrow> fail NMO_ERR_INVALID_ARGUMENT objs
      | Some i \<Rightarrow>
          let cs = ob_children (objs parent);
              objs = objs(parent := (objs parent)\<lparr>ob_children := take i cs @ drop (Suc i) cs\<rparr>)
          in ok () (objs(child := (objs child)\<lparr>ob_parent := None\<rparr>)))"

definition nmo_object_get_child :: "obj_ref \<Rightarrow> nat \<Rightarrow> object_store \<Rightarrow> obj_ref option" where
  "nmo_object_get_child p i objs =
     (if i \<ge> length (ob_children (objs p)) then None else Some (ob_children (objs p) ! i))"

definition nmo_object_get_child_count :: "obj_ref \<Rightarrow> object_store \<Rightarrow> nat" where
  "nmo_object_get_child_count p objs = length (ob_children (objs p))"

section \<open>Accessors\<close>

definition nmo_object_set_chunk :: "obj_ref \<Rightarrow> nmo_chunk option \<Rightarrow> object_store \<Rightarrow> object_store" where
  "nmo_object_set_chunk p chunk objs = objs(p := (objs p)\<lparr>ob_chunk := chunk\<rparr>)"

definition nmo_object_get_chunk :: "obj_ref \<Rightarrow> object_store \<Rightarrow> nmo_chunk option" where
  "nmo_object_get_chunk p objs = ob_chunk (objs p)"

definition nmo_object_get_id :: "obj_ref option \<Rightarrow> object_store \<Rightarrow> u32" where
  "nmo_object_get_id p objs = (case p of None \<Rightarrow> 0 | Some p \<Rightarrow> ob_id (objs p))"

definition nmo_object_get_class_id :: "obj_ref option \<Rightarrow> object_store \<Rightarrow> u32" where
  "nmo_object_get_class_id p objs = (case p of None \<Rightarrow> 0 | Some p \<Rightarrow> ob_class_id (objs p))"

definition nmo_object_set_data :: "obj_ref \<Rightarrow> nat option \<Rightarrow> object_store \<Rightarrow> object_store" where
  "nmo_object_set_data p data objs = objs(p := (objs p)\<lparr>ob_data := data\<rparr>)"

definition nmo_object_get_data :: "obj_ref \<Rightarrow> object_store \<Rightarrow> nat option" where
  "nmo_object_get_data p objs = ob_data (objs p)"

definition nmo_object_set_file_index :: "obj_ref \<Rightarrow> u32 \<Rightarrow> object_store \<Rightarrow> object_store" where
  "nmo_object_set_file_index p i objs = objs(p := (objs p)\<lparr>ob_file_index := i\<rparr>)"

definition nmo_object_get_file_index :: "obj_ref \<Rightarrow> object_store \<Rightarrow> u32" where
  "nmo_object_get_file_index p objs = ob_file_index (objs p)"

definition nmo_object_get_type_guid :: "obj_ref \<Rightarrow> object_store \<Rightarrow> nmo_guid" where
  "nmo_object_get_type_guid p objs = ob_type_guid (objs p)"

definition nmo_object_set_type_guid :: "obj_ref \<Rightarrow> nmo_guid \<Rightarrow> object_store \<Rightarrow> object_store" where
  "nmo_object_set_type_guid p guid objs = objs(p := (objs p)\<lparr>ob_type_guid := guid\<rparr>)"

section \<open>The child relation\<close>

lemma find_ref_Some: "find_ref p qs = Some i \<Longrightarrow> i < length qs \<and> qs ! i = p"
  by (induction qs arbitrary: i) (auto split: if_splits)

lemma find_ref_None: "find_ref p qs = None \<longleftrightarrow> p \<notin> set qs"
  by (induction qs) auto

lemma remove_at_ref: "find_ref p qs = Some i \<Longrightarrow> take i qs @ drop (Suc i) qs = remove1 p qs"
  by (induction qs arbitrary: i) (auto split: if_splits)

text \<open>
  Every child knows its parent, no object is listed twice, and an array holds what its capacity
  allows; \<open>n\<close> bounds the children there have been.
\<close>

definition family_ok :: "nat \<Rightarrow> object_store \<Rightarrow> bool" where
  "family_ok n objs \<longleftrightarrow> (\<forall>p. distinct (ob_children (objs p)) \<and> length (ob_children (objs p)) \<le> ob_child_capacity (objs p)
     \<and> ob_child_capacity (objs p) \<le> 2 * n + 4 \<and> length (ob_children (objs p)) \<le> n
     \<and> (\<forall>c. c \<in> set (ob_children (objs p)) \<longleftrightarrow> ob_parent (objs c) = Some p))"

datatype family_op = Adopt obj_ref obj_ref | Release obj_ref obj_ref

fun family_step :: "family_op \<Rightarrow> arena \<Rightarrow> object_store \<Rightarrow> (unit, arena \<times> object_store) cres" where
  "family_step (Adopt p c) a objs = nmo_object_add_child p c a objs"
| "family_step (Release p c) a objs = bindE (nmo_object_remove_child p c objs) (\<lambda>(r, objs). Done (r, a, objs))"

text \<open>What the caller has to see to: a child that is added has no parent yet.\<close>

fun family_call_ok :: "family_op \<Rightarrow> object_store \<Rightarrow> bool" where
  "family_call_ok (Adopt p c) objs \<longleftrightarrow> ob_parent (objs c) = None"
| "family_call_ok (Release p c) objs \<longleftrightarrow> True"

lemma grow_children_ok:
  assumes "family_ok n objs" and "n < 2 ^ 31" and "arena_sane a"
  shows "\<exists>a' objs' r. grow_children p a objs = Done (r, a', objs') \<and> arena_sane a'
    \<and> (\<exists>cap. objs' = objs(p := (objs p)\<lparr>ob_child_capacity := cap\<rparr>) \<and> ob_child_capacity (objs p) \<le> cap \<and> cap \<le> 2 * Suc n + 4
      \<and> (r = Inr () \<longrightarrow> length (ob_children (objs p)) < cap))"
proof (cases "length (ob_children (objs p)) \<ge> ob_child_capacity (objs p)")
  case False
  have "ob_child_capacity (objs p) \<le> 2 * n + 4" using assms(1) by (simp add: family_ok_def)
  with False assms(3) show ?thesis
    by (auto simp: grow_children_def Let_def eff_simps intro!: exI [of _ "ob_child_capacity (objs p)"])
next
  case True
  define cap where "cap = (if ob_child_capacity (objs p) = 0 then 4 else sz_mul (ob_child_capacity (objs p)) 2)"
  have l: "length (ob_children (objs p)) \<le> n" "length (ob_children (objs p)) \<le> ob_child_capacity (objs p)"
    using assms(1) by (auto simp: family_ok_def)
  then have c: "ob_child_capacity (objs p) \<le> n" using True by simp
  then have cap: "cap = (if ob_child_capacity (objs p) = 0 then 4 else 2 * ob_child_capacity (objs p))"
    using assms(2) by (simp add: cap_def sz_mul_small)
  then have "cap \<le> 2 * n + 4" using c by simp
  then have "sz_mul cap 8 < 2 ^ 62" using assms(2) by (simp add: sz_mul_small)
  then obtain r a' where r: "nmo_arena_alloc (sz_mul cap 8) 8 a = Done (r, a')" "arena_sane a'"
    using arena_alloc_sane [OF assms(3), of "sz_mul cap 8" 8 thesis] by simp
  have cap2: "ob_child_capacity (objs p) \<le> cap" "length (ob_children (objs p)) < cap" using cap l True by auto
  show ?thesis
  proof (cases r)
    case None
    with True r c show ?thesis
      by (auto simp: grow_children_def Let_def cap_def eff_simps intro!: exI [of _ "ob_child_capacity (objs p)"])
  next
    case (Some q)
    with True r cap2 \<open>cap \<le> 2 * n + 4\<close> show ?thesis
      by (auto simp: grow_children_def Let_def cap_def [symmetric] eff_simps intro!: exI [of _ cap])
  qed
qed

lemma family_ok_updates:
  assumes "family_ok n objs" and "ob_child_capacity (objs p) \<le> cap" and "cap \<le> 2 * Suc n + 4"
  shows "family_ok (Suc n) (objs(p := (objs p)\<lparr>ob_child_capacity := cap\<rparr>))"
  using assms unfolding family_ok_def by (auto intro: le_trans le_SucI)

lemma adopt_ok:
  assumes "family_ok n objs" and "n < 2 ^ 31" and "arena_sane a" and "ob_parent (objs c) = None"
  shows "\<exists>r a' objs'. nmo_object_add_child p c a objs = Done (r, a', objs') \<and> arena_sane a' \<and> family_ok (Suc n) objs'"
proof -
  obtain r a' cap where g: "grow_children p a objs = Done (r, a', objs(p := (objs p)\<lparr>ob_child_capacity := cap\<rparr>))" "arena_sane a'"
    "ob_child_capacity (objs p) \<le> cap" "cap \<le> 2 * Suc n + 4" "r = Inr () \<Longrightarrow> length (ob_children (objs p)) < cap"
    using grow_children_ok [OF assms(1-3), of p] by blast
  let ?o = "objs(p := (objs p)\<lparr>ob_child_capacity := cap\<rparr>)"
  note f = family_ok_updates [OF assms(1) g(3,4)]
  show ?thesis
  proof (cases r)
    case (Inl e)
    with g f show ?thesis by (auto simp: nmo_object_add_child_def)
  next
    case (Inr u)
    define o1 where "o1 = ?o(p := (?o p)\<lparr>ob_children := ob_children (objs p) @ [c]\<rparr>)"
    define o2 where "o2 = o1(c := (o1 c)\<lparr>ob_parent := Some p\<rparr>)"
    have r: "nmo_object_add_child p c a objs = Done (Inr (), a', o2)"
      using g(1) Inr by (simp add: nmo_object_add_child_def eff_simps o1_def o2_def)
    have orphan: "c \<notin> set (ob_children (objs q))" for q using assms(1,4) by (simp add: family_ok_def)
    have ch: "ob_children (o2 q) = (if q = p then ob_children (objs p) @ [c] else ob_children (objs q))" for q
      by (simp add: o1_def o2_def)
    have cap': "ob_child_capacity (o2 q) = ob_child_capacity (?o q)" for q by (simp add: o1_def o2_def)
    have pa: "ob_parent (o2 q) = (if q = c then Some p else ob_parent (objs q))" for q by (simp add: o1_def o2_def)
    have old: "distinct (ob_children (objs q))" "length (ob_children (objs q)) \<le> n"
      "\<And>d. d \<in> set (ob_children (objs q)) \<longleftrightarrow> ob_parent (objs d) = Some q" for q
      using assms(1) by (auto simp: family_ok_def)
    have new: "length (ob_children (?o q)) \<le> ob_child_capacity (?o q)" "ob_child_capacity (?o q) \<le> 2 * Suc n + 4" for q
      using f unfolding family_ok_def by blast+
    have room: "length (ob_children (objs p)) < ob_child_capacity (?o p)" using g(5) Inr by simp
    have "family_ok (Suc n) o2"
      unfolding family_ok_def
    proof (intro allI conjI)
      fix q d
      show "distinct (ob_children (o2 q))" using old(1) orphan by (simp add: ch)
      show "length (ob_children (o2 q)) \<le> ob_child_capacity (o2 q)" using new(1) [of q] room unfolding ch cap' by (auto split: if_splits)
      show "ob_child_capacity (o2 q) \<le> 2 * Suc n + 4" using new(2) by (simp only: cap')
      show "length (ob_children (o2 q)) \<le> Suc n" using old(2) [of q] by (auto simp: ch)
      show "d \<in> set (ob_children (o2 q)) \<longleftrightarrow> ob_parent (o2 d) = Some q"
        using old(3) [of d q] old(3) [of d p] orphan [of q] assms(4) by (auto simp: ch pa)
    qed
    with r g(2) show ?thesis by blast
  qed
qed

lemma release_ok:
  assumes "family_ok n objs"
  shows "\<exists>r objs'. nmo_object_remove_child p c objs = Done (r, objs') \<and> family_ok n objs'
    \<and> (r = Inr () \<longleftrightarrow> ob_parent (objs c) = Some p) \<and> (r = Inr () \<longrightarrow> ob_parent (objs' c) = None)"
proof (cases "find_ref c (ob_children (objs p))")
  case None
  then have "ob_parent (objs c) \<noteq> Some p" using assms by (simp add: find_ref_None family_ok_def)
  moreover have "nmo_object_remove_child p c objs = Done (Inl NMO_ERR_INVALID_ARGUMENT, objs)"
    using None by (simp add: nmo_object_remove_child_def eff_simps)
  ultimately show ?thesis using assms by blast
next
  case (Some i)
  have old: "distinct (ob_children (objs q))" "length (ob_children (objs q)) \<le> n" "length (ob_children (objs q)) \<le> ob_child_capacity (objs q)"
    "ob_child_capacity (objs q) \<le> 2 * n + 4" "\<And>d. d \<in> set (ob_children (objs q)) \<longleftrightarrow> ob_parent (objs d) = Some q" for q
    using assms by (auto simp: family_ok_def)
  have c: "c \<in> set (ob_children (objs p))" using find_ref_Some [OF Some] nth_mem by metis
  define o2 where "o2 = (let o1 = objs(p := (objs p)\<lparr>ob_children := remove1 c (ob_children (objs p))\<rparr>)
    in o1(c := (o1 c)\<lparr>ob_parent := None\<rparr>))"
  have r: "nmo_object_remove_child p c objs = ok () o2"
    using Some remove_at_ref [OF Some] by (simp add: nmo_object_remove_child_def o2_def Let_def)
  have ch: "ob_children (o2 q) = (if q = p then remove1 c (ob_children (objs p)) else ob_children (objs q))" for q
    by (simp add: o2_def Let_def)
  have cap: "ob_child_capacity (o2 q) = ob_child_capacity (objs q)" and pa: "ob_parent (o2 q) = (if q = c then None else ob_parent (objs q))" for q
    by (simp_all add: o2_def Let_def)
  have len: "length (remove1 c (ob_children (objs p))) \<le> length (ob_children (objs p))" by (simp add: length_remove1)
  have "family_ok n o2"
    unfolding family_ok_def
  proof (intro allI conjI)
    fix q d
    show "distinct (ob_children (o2 q))" using old(1) by (simp add: ch)
    show "length (ob_children (o2 q)) \<le> ob_child_capacity (o2 q)" using old(3) [of q] len by (auto simp: ch cap)
    show "ob_child_capacity (o2 q) \<le> 2 * n + 4" using old(4) by (simp add: cap)
    show "length (ob_children (o2 q)) \<le> n" using old(2) [of q] len by (auto simp: ch)
    show "d \<in> set (ob_children (o2 q)) \<longleftrightarrow> ob_parent (o2 d) = Some q"
      using old(1) [of p] old(5) [of d q] old(5) [of d p] old(5) [of c q] c by (auto simp: ch pa)
  qed
  with r pa c old(5) show ?thesis by (auto simp: eff_simps)
qed

fun family_run :: "family_op list \<Rightarrow> arena \<Rightarrow> object_store \<Rightarrow> ((nmo_error_code + unit) list \<times> arena \<times> object_store) eff" where
  "family_run [] a objs = Done ([], a, objs)"
| "family_run (op # ops) a objs =
     bindE (family_step op a objs) (\<lambda>(r, a, objs).
       bindE (family_run ops a objs) (\<lambda>(rs, a, objs). Done (r # rs, a, objs)))"

fun family_calls_ok :: "family_op list \<Rightarrow> arena \<Rightarrow> object_store \<Rightarrow> bool" where
  "family_calls_ok [] a objs \<longleftrightarrow> True"
| "family_calls_ok (op # ops) a objs \<longleftrightarrow> family_call_ok op objs
     \<and> (case family_step op a objs of Done (r, a, objs) \<Rightarrow> family_calls_ok ops a objs | _ \<Rightarrow> True)"

lemma family_run_ok:
  assumes "family_ok n objs" and "n + length ops \<le> 2 ^ 31" and "arena_sane a" and "family_calls_ok ops a objs"
  shows "\<exists>rs a' objs'. family_run ops a objs = Done (rs, a', objs') \<and> arena_sane a' \<and> family_ok (n + length ops) objs'"
  using assms
proof (induction ops arbitrary: n a objs)
  case Nil
  then show ?case by simp
next
  case (Cons op ops)
  have "\<exists>r a1 o1. family_step op a objs = Done (r, a1, o1) \<and> arena_sane a1 \<and> family_ok (Suc n) o1"
  proof (cases op)
    case (Adopt p c)
    with Cons.prems show ?thesis using adopt_ok [of n objs a c p] by auto
  next
    case (Release p c)
    have "family_ok n o1 \<Longrightarrow> family_ok (Suc n) o1" for o1 unfolding family_ok_def by (auto intro: le_trans le_SucI)
    with Release Cons.prems release_ok [of n objs p c] show ?thesis by fastforce
  qed
  then obtain r a1 o1 where s: "family_step op a objs = Done (r, a1, o1)" "arena_sane a1" "family_ok (Suc n) o1" by blast
  have "family_calls_ok ops a1 o1" using Cons.prems(4) s(1) by simp
  from Cons.IH [OF s(3) _ s(2) this] Cons.prems(2) s(1) show ?case by auto
qed

text \<open>
  C19: starting from objects without children, any sequence of additions of parentless children and of
  removals, at most 2^31 of them, keeps the hierarchy consistent: an object is listed as a child of at
  most one parent, once, by exactly the parent it points to.
\<close>

theorem child_lists_match_parents:
  assumes "\<forall>p. ob_children (objs p) = [] \<and> ob_child_capacity (objs p) = 0 \<and> ob_parent (objs p) = None"
    and "length ops \<le> 2 ^ 31" and "arena_sane a" and "family_calls_ok ops a objs"
  shows "\<exists>rs a' objs'. family_run ops a objs = Done (rs, a', objs')
    \<and> (\<forall>p c. (\<exists>i. nmo_object_get_child p i objs' = Some c) \<longleftrightarrow> ob_parent (objs' c) = Some p)
    \<and> (\<forall>p i j c. nmo_object_get_child p i objs' = Some c \<and> nmo_object_get_child p j objs' = Some c \<longrightarrow> i = j)"
proof -
  have "family_ok 0 objs" using assms(1) by (simp add: family_ok_def)
  from family_run_ok [OF this _ assms(3,4)] assms(2) obtain rs a' objs' where
    r: "family_run ops a objs = Done (rs, a', objs')" "family_ok (length ops) objs'" by auto
  have "(\<exists>i. nmo_object_get_child p i objs' = Some c) \<longleftrightarrow> ob_parent (objs' c) = Some p" for p c
  proof -
    have "c \<in> set (ob_children (objs' p)) \<longleftrightarrow> ob_parent (objs' c) = Some p" using r(2) by (simp add: family_ok_def)
    then show ?thesis by (auto simp: nmo_object_get_child_def in_set_conv_nth not_le)
  qed
  moreover have "i = j" if "nmo_object_get_child p i objs' = Some c" "nmo_object_get_child p j objs' = Some c" for p i j c
  proof -
    have "distinct (ob_children (objs' p))" using r(2) by (simp add: family_ok_def)
    with that show ?thesis by (auto simp: nmo_object_get_child_def nth_eq_iff_index_eq split: if_splits)
  qed
  ultimately show ?thesis using r(1) by blast
qed

lemma add_child_other:
  assumes "nmo_object_add_child p c a objs = Done (r, a', objs')" and "d \<noteq> c"
  shows "ob_parent (objs' d) = ob_parent (objs d)"
proof (cases "grow_children p a objs")
  case (Done x)
  obtain q b o1 where x: "x = (q, b, o1)" by (cases x)
  have "ob_parent (o1 d) = ob_parent (objs d)"
    using Done x by (auto simp: grow_children_def Let_def eff_simps bindE_Done_iff split: if_splits option.splits)
  with assms Done x show ?thesis by (cases q) (auto simp: nmo_object_add_child_def Let_def eff_simps)
qed (use assms in \<open>auto simp: nmo_object_add_child_def\<close>)

theorem child_lists_match_parents_witness:
  "\<exists>a rs a' objs'. nmo_arena_create (\<lambda>_ _. True) (\<lambda>_ _. 0) 0 = Done (Some a)
    \<and> family_run [Adopt 1 2, Adopt 1 3, Release 1 2] a (\<lambda>p. \<lparr>ob_id = 0, ob_class_id = 0, ob_name = None, ob_flags = 0,
        ob_type_guid = \<lparr>d1 = 0, d2 = 0\<rparr>, ob_parent = None, ob_children = [], ob_child_capacity = 0, ob_chunk = None, ob_data = None,
        ob_file_index = 0, ob_creation_flags = 0, ob_save_flags = 0\<rparr>) = Done (rs, a', objs')
    \<and> (\<forall>p c. (\<exists>i. nmo_object_get_child p i objs' = Some c) \<longleftrightarrow> ob_parent (objs' c) = Some p)"
proof -
  obtain a where a: "nmo_arena_create (\<lambda>_ _. True) (\<lambda>_ _. 0) 0 = Done (Some a)" "arena_sane a"
    by (rule default_arena_exists)
  let ?o = "\<lambda>p :: nat. \<lparr>ob_id = 0, ob_class_id = 0, ob_name = None, ob_flags = 0,
        ob_type_guid = \<lparr>d1 = 0, d2 = 0\<rparr>, ob_parent = None, ob_children = [], ob_child_capacity = 0, ob_chunk = None, ob_data = None,
        ob_file_index = 0, ob_creation_flags = 0, ob_save_flags = 0\<rparr>"
  have "family_calls_ok [Adopt 1 2, Adopt 1 3, Release 1 2] a ?o"
    by (auto split: eff.splits dest!: add_child_other [of _ _ _ _ _ _ _ 3])
  from child_lists_match_parents [OF _ _ a(2) this] a(1) show ?thesis by fastforce
qed

end
