(* ===== verification/RepositoryState.thy ===== *)
theory RepositoryState
  imports Objects
begin

text \<open>
  The state shared by \<^verbatim>\<open>src/session/object_repository.c\<close> and \<^verbatim>\<open>src/session/object_index.c\<close>, which point
  to each other, and the look-ups of the repository. The repository record holds the store its object
  pointers designate; its arena is the one its ID map allocates from. The arrays of the index are
  reached through pointers kept in its hash tables, so they live in a store of their own, addressed by
  handles in the order of creation.
\<close>

section \<open>State\<close>

record object_array =
  oa_objects :: "obj_ref list"
  oa_capacity :: nat

record object_index =
  ix_malloc :: "nat \<Rightarrow> nat \<Rightarrow> bool"
  ix_calls :: nat
  ix_table_alloc :: "nat \<Rightarrow> nat \<Rightarrow> nat \<Rightarrow> bool"
  ix_tables :: nat
  ix_arrays :: "nat \<Rightarrow> object_array"
  ix_next :: nat
  ix_active_indexes :: u32
  ix_class_index :: "(u32, nat) hash_table option"
  ix_name_index :: "(cstring, nat) hash_table option"
  ix_guid_index :: "(nmo_guid, nat) hash_table option"

record object_repository =
  rp_objects :: object_store
  rp_id_map :: "(u32, obj_ref) indexed_map"
  rp_name_table :: "(cstring, obj_ref) hash_table"
  rp_next_runtime_id :: u32
  rp_attached_index :: "object_index option"

definition NMO_INDEX_BUILD_CLASS :: u32 where "NMO_INDEX_BUILD_CLASS = 0x0001"
definition NMO_INDEX_BUILD_NAME :: u32 where "NMO_INDEX_BUILD_NAME = 0x0002"
definition NMO_INDEX_BUILD_GUID :: u32 where "NMO_INDEX_BUILD_GUID = 0x0004"
definition NMO_INDEX_BUILD_ALL :: u32 where "NMO_INDEX_BUILD_ALL = 0x0007"

definition has_flag :: "u32 \<Rightarrow> u32 \<Rightarrow> bool" where
  "has_flag flags f \<longleftrightarrow> flags AND f \<noteq> 0"

text \<open>\<^verbatim>\<open>name != NULL && name[0] != '\0'\<close>\<close>

fun named :: "cstring option \<Rightarrow> bool" where
  "named None = False"
| "named (Some s) = (\<not> string_empty s)"

text \<open>\<^verbatim>\<open>memcmp\<close>: the difference of the first bytes that differ.\<close>

fun memcmp :: "u8 list \<Rightarrow> u8 list \<Rightarrow> int" where
  "memcmp (x # xs) (y # ys) = (if x = y then memcmp xs ys else uint x - uint y)"
| "memcmp xs ys = 0"

definition compare_uint32 :: "u32 \<Rightarrow> u32 \<Rightarrow> int" where
  "compare_uint32 x y = memcmp (dword_bytes x) (dword_bytes y)"

definition guid_bytes :: "nmo_guid \<Rightarrow> u8 list" where
  "guid_bytes g = bytes_of_dwords [d1 g, d2 g]"

definition compare_guid :: "nmo_guid \<Rightarrow> nmo_guid \<Rightarrow> int" where
  "compare_guid x y = memcmp (guid_bytes x) (guid_bytes y)"

lemma memcmp_zero: "length xs = length ys \<Longrightarrow> memcmp xs ys = 0 \<longleftrightarrow> xs = ys"
  by (induction xs ys rule: memcmp.induct) (auto simp: word_uint_eq_iff)

lemma compare_uint32_eq: "compare_uint32 x y = 0 \<longleftrightarrow> x = y"
proof -
  have "memcmp (dword_bytes x) (dword_bytes y) = 0 \<longleftrightarrow> bytes_of_dwords [x] = bytes_of_dwords [y]"
    by (subst memcmp_zero) simp_all
  then show ?thesis by (simp only: compare_uint32_def bytes_of_dwords_inject list.inject simp_thms)
qed

lemma compare_guid_eq: "compare_guid x y = 0 \<longleftrightarrow> x = y"
proof -
  have "length (guid_bytes x) = length (guid_bytes y)" by (simp add: guid_bytes_def)
  from memcmp_zero [OF this] show ?thesis by (cases x, cases y) (simp add: compare_guid_def guid_bytes_def del: bytes_of_dwords_simps)
qed

section \<open>Repository look-ups\<close>

definition nmo_object_repository_find_by_id :: "u32 \<Rightarrow> object_repository \<Rightarrow> obj_ref option eff" where
  "nmo_object_repository_find_by_id key repo = nmo_indexed_map_get key (rp_id_map repo)"

definition nmo_object_repository_find_by_name :: "cstring \<Rightarrow> object_repository \<Rightarrow> obj_ref option eff" where
  "nmo_object_repository_find_by_name name repo = nmo_hash_table_get name (rp_name_table repo)"

definition nmo_object_repository_contains :: "u32 \<Rightarrow> object_repository \<Rightarrow> bool eff" where
  "nmo_object_repository_contains key repo = nmo_indexed_map_contains key (rp_id_map repo)"

definition nmo_object_repository_get_count :: "object_repository \<Rightarrow> nat" where
  "nmo_object_repository_get_count repo = nmo_indexed_map_get_count (rp_id_map repo)"

definition nmo_object_repository_get_at :: "nat \<Rightarrow> object_repository \<Rightarrow> obj_ref option eff" where
  "nmo_object_repository_get_at i repo = nmo_indexed_map_get_value_at i (rp_id_map repo)"

definition nmo_object_repository_get_by_index :: "nat \<Rightarrow> object_repository \<Rightarrow> obj_ref option eff" where
  "nmo_object_repository_get_by_index i repo = nmo_object_repository_get_at i repo"

text \<open>The values from index \<open>i\<close> on; a place without value stays NULL.\<close>

fun collect_values :: "nat \<Rightarrow> nat \<Rightarrow> (u32, obj_ref) indexed_map \<Rightarrow> obj_ref option list eff" where
  "collect_values i 0 m = Done []"
| "collect_values i (Suc n) m =
     bindE (nmo_indexed_map_get_value_at i m) (\<lambda>v. bindE (collect_values (Suc i) n m) (\<lambda>vs. Done (v # vs)))"

text \<open>\<open>None\<close> is NULL; the count written is then 0. \<open>granted\<close> is the answer of \<^verbatim>\<open>malloc\<close>.\<close>

definition nmo_object_repository_get_all :: "bool \<Rightarrow> object_repository \<Rightarrow> obj_ref option list option eff" where
  "nmo_object_repository_get_all granted repo =
     (let obj_count = nmo_indexed_map_get_count (rp_id_map repo)
      in if obj_count = 0 then Done None
         else if \<not> granted then Done None
         else bindE (collect_values 0 obj_count (rp_id_map repo)) (\<lambda>vs. Done (Some vs)))"

text \<open>The objects of a class in the order of the map: one pass counts them, a second one copies them.\<close>

fun class_matches :: "object_store \<Rightarrow> u32 \<Rightarrow> obj_ref option list \<Rightarrow> obj_ref list" where
  "class_matches objs class_id [] = []"
| "class_matches objs class_id (None # vs) = class_matches objs class_id vs"
| "class_matches objs class_id (Some p # vs) =
     (if ob_class_id (objs p) = class_id then p # class_matches objs class_id vs else class_matches objs class_id vs)"

definition nmo_object_repository_find_by_class ::
  "u32 \<Rightarrow> object_repository \<Rightarrow> (obj_ref list option \<times> object_repository) eff" where
  "nmo_object_repository_find_by_class class_id repo =
     (let total_count = nmo_indexed_map_get_count (rp_id_map repo)
      in if total_count = 0 then Done (None, repo)
         else bindE (collect_values 0 total_count (rp_id_map repo)) (\<lambda>vs.
           let found = class_matches (rp_objects repo) class_id vs; match_count = length found
           in if match_count = 0 then Done (None, repo)
              else bindE (nmo_arena_alloc (sz_mul match_count 8) 8 (im_arena (rp_id_map repo))) (\<lambda>(r, a).
                let repo = repo\<lparr>rp_id_map := (rp_id_map repo)\<lparr>im_arena := a\<rparr>\<rparr>
                in case r of
                     None \<Rightarrow> Done (None, repo)
                   | Some _ \<Rightarrow> Done (Some found, repo))))"

definition nmo_object_repository_get_arena :: "object_repository \<Rightarrow> arena" where
  "nmo_object_repository_get_arena repo = im_arena (rp_id_map repo)"

end
