(* ===== verification/ObjectIndex.thy ===== *)
theory ObjectIndex
  imports RepositoryState
begin

text \<open>
  The indexes over a repository, \<^verbatim>\<open>src/session/object_index.c\<close>: hash tables from class ID, name and type
  GUID to arrays of objects. The three tables are handled alike, so a table with its arrays is a set of
  buckets, and the operations on buckets are defined once for any key. \<open>ix_malloc k n\<close> is the answer of
  the \<open>k\<close>-th call of \<^verbatim>\<open>malloc\<close> or \<^verbatim>\<open>realloc\<close> for \<open>n\<close> bytes; the \<open>t\<close>-th table created asks
  \<open>ix_table_alloc t\<close>. The fields that cache a query are never read and are left out.
\<close>

section \<open>Arrays\<close>

definition sizeof_object_array :: nat where
  "sizeof_object_array = 24"

definition object_array_create :: "nat \<Rightarrow> object_index \<Rightarrow> nat option \<times> object_index" where
  "object_array_create initial_capacity ix =
     (let k = ix_calls ix; capacity = (if initial_capacity > 0 then initial_capacity else 8)
      in if \<not> ix_malloc ix k sizeof_object_array then (None, ix\<lparr>ix_calls := k + 1\<rparr>)
         else if \<not> ix_malloc ix (k + 1) (sz_mul capacity 8) then (None, ix\<lparr>ix_calls := k + 2\<rparr>)
         else (Some (ix_next ix),
               ix\<lparr>ix_calls := k + 2, ix_next := ix_next ix + 1,
                  ix_arrays := (ix_arrays ix)(ix_next ix := \<lparr>oa_objects = [], oa_capacity = capacity\<rparr>)\<rparr>))"

definition object_array_add :: "nat \<Rightarrow> obj_ref \<Rightarrow> object_index \<Rightarrow> (unit, object_index) cres" where
  "object_array_add h obj ix =
     (let arr = ix_arrays ix h; k = ix_calls ix
      in if length (oa_objects arr) \<ge> oa_capacity arr then
           let new_capacity = sz_mul (oa_capacity arr) 2
           in if \<not> ix_malloc ix k (sz_mul new_capacity 8) then fail NMO_ERR_NOMEM (ix\<lparr>ix_calls := k + 1\<rparr>)
              else ok () (ix\<lparr>ix_calls := k + 1, ix_arrays := (ix_arrays ix)
                (h := \<lparr>oa_objects = oa_objects arr @ [obj], oa_capacity = new_capacity\<rparr>)\<rparr>)
         else ok () (ix\<lparr>ix_arrays := (ix_arrays ix)(h := arr\<lparr>oa_objects := oa_objects arr @ [obj]\<rparr>)\<rparr>))"

fun remove_id :: "object_store \<Rightarrow> u32 \<Rightarrow> obj_ref list \<Rightarrow> obj_ref list option" where
  "remove_id objs i [] = None"
| "remove_id objs i (p # ps) = (if ob_id (objs p) = i then Some ps else map_option ((#) p) (remove_id objs i ps))"

definition object_array_remove :: "nat \<Rightarrow> u32 \<Rightarrow> object_store \<Rightarrow> object_index \<Rightarrow> (unit, object_index) cres" where
  "object_array_remove h object_id objs ix =
     (case remove_id objs object_id (oa_objects (ix_arrays ix h)) of
        None \<Rightarrow> fail NMO_ERR_NOT_FOUND ix
      | Some ps \<Rightarrow> ok () (ix\<lparr>ix_arrays := (ix_arrays ix)(h := (ix_arrays ix h)\<lparr>oa_objects := ps\<rparr>)\<rparr>))"

section \<open>Case-insensitive comparison\<close>

definition tolower :: "u8 \<Rightarrow> int" where
  "tolower c = (if 0x41 \<le> c \<and> c \<le> 0x5A then uint c + 32 else uint c)"

text \<open>The terminating zero of either string is the empty rest of its list.\<close>

fun strcasecmp_bytes :: "u8 list \<Rightarrow> u8 list \<Rightarrow> int" where
  "strcasecmp_bytes (x # xs) (y # ys) =
     (if tolower x \<noteq> tolower y then tolower x - tolower y else strcasecmp_bytes xs ys)"
| "strcasecmp_bytes (x # xs) [] = tolower x - tolower 0"
| "strcasecmp_bytes [] (y # ys) = tolower 0 - tolower y"
| "strcasecmp_bytes [] [] = tolower 0 - tolower 0"

definition strcasecmp_portable :: "cstring \<Rightarrow> cstring \<Rightarrow> int" where
  "strcasecmp_portable s1 s2 = strcasecmp_bytes (string_bytes s1) (string_bytes s2)"

section \<open>Buckets\<close>

text \<open>The array of a key, created when there is none, gets one more object.\<close>

definition bucket_add ::
  "nat \<Rightarrow> 'k \<Rightarrow> obj_ref \<Rightarrow> ('k, nat) hash_table \<Rightarrow> object_index \<Rightarrow> (unit, ('k, nat) hash_table \<times> object_index) cres" where
  "bucket_add initial_capacity key obj t ix =
     bindE (nmo_hash_table_get key t) (\<lambda>found. case found of
       Some h \<Rightarrow> bindE (object_array_add h obj ix) (\<lambda>(r, ix). Done (r, t, ix))
     | None \<Rightarrow>
         let (arr, ix) = object_array_create initial_capacity ix
         in case arr of
              None \<Rightarrow> fail NMO_ERR_NOMEM (t, ix)
            | Some h \<Rightarrow>
                bindE (nmo_hash_table_insert key h t) (\<lambda>(_, t).
                  bindE (object_array_add h obj ix) (\<lambda>(r, ix). Done (r, t, ix))))"

text \<open>The result of removing from an array is ignored.\<close>

definition bucket_remove ::
  "'k \<Rightarrow> u32 \<Rightarrow> object_store \<Rightarrow> ('k, nat) hash_table \<Rightarrow> object_index \<Rightarrow> object_index eff" where
  "bucket_remove key object_id objs t ix =
     bindE (nmo_hash_table_get key t) (\<lambda>found. case found of
       None \<Rightarrow> Done ix
     | Some h \<Rightarrow> bindE (object_array_remove h object_id objs ix) (\<lambda>(_, ix). Done ix))"

text \<open>The key an object has in each of the indexes; none when the index skips it.\<close>

definition class_key :: "nmo_object \<Rightarrow> u32 option" where
  "class_key ob = Some (ob_class_id ob)"

definition name_key :: "nmo_object \<Rightarrow> cstring option" where
  "name_key ob = (if named (ob_name ob) then ob_name ob else None)"

definition nmo_guid_is_null :: "nmo_guid \<Rightarrow> bool" where
  "nmo_guid_is_null g \<longleftrightarrow> d1 g = 0 \<and> d2 g = 0"

definition guid_key :: "nmo_object \<Rightarrow> nmo_guid option" where
  "guid_key ob = (if nmo_guid_is_null (ob_type_guid ob) then None else Some (ob_type_guid ob))"

text \<open>
  The same from a pointer: two of the loops dereference it, \<^verbatim>\<open>nmo_object_get_name\<close> takes NULL.
\<close>

definition key_at :: "(nmo_object \<Rightarrow> 'k option) \<Rightarrow> nmo_object option \<Rightarrow> 'k option eff" where
  "key_at key ob = (case ob of None \<Rightarrow> Undefined | Some ob \<Rightarrow> Done (key ob))"

definition name_key_at :: "nmo_object option \<Rightarrow> cstring option eff" where
  "name_key_at ob = Done (case ob of None \<Rightarrow> None | Some ob \<Rightarrow> name_key ob)"

text \<open>All objects of the repository in turn.\<close>

fun bucket_fill ::
  "nat \<Rightarrow> (nmo_object option \<Rightarrow> 'k option eff) \<Rightarrow> object_store \<Rightarrow> obj_ref option list \<Rightarrow> ('k, nat) hash_table \<Rightarrow> object_index
    \<Rightarrow> (unit, ('k, nat) hash_table \<times> object_index) cres" where
  "bucket_fill cap key objs [] t ix = ok () (t, ix)"
| "bucket_fill cap key objs (v # vs) t ix =
     bindE (key (map_option objs v)) (\<lambda>k. case (v, k) of
        (Some p, Some k) \<Rightarrow> bindR (bucket_add cap k p t ix) (\<lambda>_ (t, ix). bucket_fill cap key objs vs t ix)
      | _ \<Rightarrow> bucket_fill cap key objs vs t ix)"

section \<open>Building\<close>

text \<open>A new table replaces the old one; NULL when there is no memory for it.\<close>

definition build_index ::
  "((nat \<Rightarrow> nat \<Rightarrow> bool) \<Rightarrow> ('k, nat) hash_table option eff) \<Rightarrow> nat \<Rightarrow> (nmo_object option \<Rightarrow> 'k option eff) \<Rightarrow> u32
    \<Rightarrow> (('k, nat) hash_table option \<Rightarrow> object_index \<Rightarrow> object_index)
    \<Rightarrow> object_repository \<Rightarrow> object_index \<Rightarrow> (unit, object_index) cres" where
  "build_index new_table cap key flag store repo ix =
     bindE (new_table (ix_table_alloc ix (ix_tables ix))) (\<lambda>t.
       let ix = store t (ix\<lparr>ix_tables := ix_tables ix + 1\<rparr>)
       in case t of
            None \<Rightarrow> fail NMO_ERR_NOMEM ix
          | Some t \<Rightarrow>
              let k = ix_calls ix; n = nmo_object_repository_get_count repo
              in bindE (nmo_object_repository_get_all (ix_malloc ix k (sz_mul n 8)) repo) (\<lambda>objects.
                   let ix = (if n = 0 then ix else ix\<lparr>ix_calls := k + 1\<rparr>)
                   in bindE (bucket_fill cap key (rp_objects repo) (case objects of None \<Rightarrow> [] | Some vs \<Rightarrow> vs) t ix) (\<lambda>(r, t, ix).
                        let ix = store (Some t) ix
                        in case r of
                             Inl e \<Rightarrow> fail e ix
                           | Inr _ \<Rightarrow> ok () (ix\<lparr>ix_active_indexes := ix_active_indexes ix OR flag\<rparr>))))"

definition store_class :: "(u32, nat) hash_table option \<Rightarrow> object_index \<Rightarrow> object_index" where
  "store_class t ix = ix\<lparr>ix_class_index := t\<rparr>"

definition store_name :: "(cstring, nat) hash_table option \<Rightarrow> object_index \<Rightarrow> object_index" where
  "store_name t ix = ix\<lparr>ix_name_index := t\<rparr>"

definition store_guid :: "(nmo_guid, nat) hash_table option \<Rightarrow> object_index \<Rightarrow> object_index" where
  "store_guid t ix = ix\<lparr>ix_guid_index := t\<rparr>"

definition build_class_index :: "object_repository \<Rightarrow> object_index \<Rightarrow> (unit, object_index) cres" where
  "build_class_index =
     build_index (\<lambda>alloc. nmo_hash_table_create alloc 4 8 64 nmo_hash_uint32 compare_uint32)
       8 (key_at class_key) NMO_INDEX_BUILD_CLASS store_class"

definition build_name_index :: "object_repository \<Rightarrow> object_index \<Rightarrow> (unit, object_index) cres" where
  "build_name_index =
     build_index (\<lambda>alloc. nmo_hash_table_create alloc 8 8 64 nmo_hash_string nmo_compare_string)
       4 name_key_at NMO_INDEX_BUILD_NAME store_name"

definition build_guid_index :: "object_repository \<Rightarrow> object_index \<Rightarrow> (unit, object_index) cres" where
  "build_guid_index =
     build_index (\<lambda>alloc. nmo_hash_table_create alloc 8 8 64 (\<lambda>g. nmo_hash_fnv1a (guid_bytes g)) compare_guid)
       4 (key_at guid_key) NMO_INDEX_BUILD_GUID store_guid"

definition nmo_object_index_create ::
  "bool \<Rightarrow> (nat \<Rightarrow> nat \<Rightarrow> bool) \<Rightarrow> (nat \<Rightarrow> nat \<Rightarrow> nat \<Rightarrow> bool) \<Rightarrow> object_index option" where
  "nmo_object_index_create granted malloc table_alloc =
     (if \<not> granted then None
      else Some \<lparr>ix_malloc = malloc, ix_calls = 0, ix_table_alloc = table_alloc, ix_tables = 0,
        ix_arrays = (\<lambda>_. \<lparr>oa_objects = [], oa_capacity = 0\<rparr>), ix_next = 0, ix_active_indexes = 0,
        ix_class_index = None, ix_name_index = None, ix_guid_index = None\<rparr>)"

definition when_flag :: "u32 \<Rightarrow> u32 \<Rightarrow> (object_index \<Rightarrow> (unit, object_index) cres) \<Rightarrow> object_index \<Rightarrow> (unit, object_index) cres" where
  "when_flag flags f m ix = (if has_flag flags f then m ix else ok () ix)"

definition nmo_object_index_build :: "u32 \<Rightarrow> object_repository \<Rightarrow> object_index \<Rightarrow> (unit, object_index) cres" where
  "nmo_object_index_build flags repo ix =
     bindR (when_flag flags NMO_INDEX_BUILD_CLASS (build_class_index repo) ix) (\<lambda>_ ix.
     bindR (when_flag flags NMO_INDEX_BUILD_NAME (build_name_index repo) ix) (\<lambda>_ ix.
     when_flag flags NMO_INDEX_BUILD_GUID (build_guid_index repo) ix))"

definition nmo_object_index_clear :: "u32 \<Rightarrow> object_index \<Rightarrow> object_index" where
  "nmo_object_index_clear flags ix =
     (let ix = (if has_flag flags NMO_INDEX_BUILD_CLASS \<and> ix_class_index ix \<noteq> None
                then ix\<lparr>ix_class_index := None, ix_active_indexes := ix_active_indexes ix AND NOT NMO_INDEX_BUILD_CLASS\<rparr> else ix);
          ix = (if has_flag flags NMO_INDEX_BUILD_NAME \<and> ix_name_index ix \<noteq> None
                then ix\<lparr>ix_name_index := None, ix_active_indexes := ix_active_indexes ix AND NOT NMO_INDEX_BUILD_NAME\<rparr> else ix)
      in if has_flag flags NMO_INDEX_BUILD_GUID \<and> ix_guid_index ix \<noteq> None
         then ix\<lparr>ix_guid_index := None, ix_active_indexes := ix_active_indexes ix AND NOT NMO_INDEX_BUILD_GUID\<rparr> else ix)"

definition nmo_object_index_rebuild :: "u32 \<Rightarrow> object_repository \<Rightarrow> object_index \<Rightarrow> (unit, object_index) cres" where
  "nmo_object_index_rebuild flags repo ix = nmo_object_index_build flags repo (nmo_object_index_clear flags ix)"

section \<open>Updates\<close>

text \<open>One of the indexes, when it is asked for and built, and the object has a key in it.\<close>

definition add_to_index ::
  "u32 \<Rightarrow> u32 \<Rightarrow> nat \<Rightarrow> 'k option \<Rightarrow> obj_ref \<Rightarrow> (object_index \<Rightarrow> ('k, nat) hash_table option)
    \<Rightarrow> (('k, nat) hash_table option \<Rightarrow> object_index \<Rightarrow> object_index) \<Rightarrow> object_index \<Rightarrow> (unit, object_index) cres" where
  "add_to_index flags f cap key obj table store ix =
     (case (table ix, key) of
        (Some t, Some k) \<Rightarrow>
          if has_flag flags f
          then bindE (bucket_add cap k obj t ix) (\<lambda>(r, t, ix). Done (r, store (Some t) ix))
          else ok () ix
      | _ \<Rightarrow> ok () ix)"

definition nmo_object_index_add_object :: "obj_ref \<Rightarrow> u32 \<Rightarrow> object_store \<Rightarrow> object_index \<Rightarrow> (unit, object_index) cres" where
  "nmo_object_index_add_object obj flags objs ix =
     bindR (add_to_index flags NMO_INDEX_BUILD_CLASS 8 (class_key (objs obj)) obj ix_class_index store_class ix) (\<lambda>_ ix.
     bindR (add_to_index flags NMO_INDEX_BUILD_NAME 4 (name_key (objs obj)) obj ix_name_index store_name ix) (\<lambda>_ ix.
     add_to_index flags NMO_INDEX_BUILD_GUID 4 (guid_key (objs obj)) obj ix_guid_index store_guid ix))"

definition remove_from_index ::
  "u32 \<Rightarrow> u32 \<Rightarrow> 'k option \<Rightarrow> u32 \<Rightarrow> object_store \<Rightarrow> (object_index \<Rightarrow> ('k, nat) hash_table option) \<Rightarrow> object_index \<Rightarrow> object_index eff" where
  "remove_from_index flags f key object_id objs table ix =
     (case (table ix, key) of
        (Some t, Some k) \<Rightarrow> if has_flag flags f then bucket_remove k object_id objs t ix else Done ix
      | _ \<Rightarrow> Done ix)"

definition nmo_object_index_remove_object :: "u32 \<Rightarrow> u32 \<Rightarrow> object_repository \<Rightarrow> object_index \<Rightarrow> (unit, object_index) cres" where
  "nmo_object_index_remove_object object_id flags repo ix =
     bindE (nmo_object_repository_find_by_id object_id repo) (\<lambda>obj. case obj of
       None \<Rightarrow> fail NMO_ERR_NOT_FOUND ix
     | Some p \<Rightarrow>
         let objs = rp_objects repo; ob = objs p
         in bindE (remove_from_index flags NMO_INDEX_BUILD_CLASS (class_key ob) object_id objs ix_class_index ix) (\<lambda>ix.
            bindE (remove_from_index flags NMO_INDEX_BUILD_NAME (name_key ob) object_id objs ix_name_index ix) (\<lambda>ix.
            bindE (remove_from_index flags NMO_INDEX_BUILD_GUID (guid_key ob) object_id objs ix_guid_index ix) (ok ()))))"

definition nmo_object_index_get_active_flags :: "object_index \<Rightarrow> u32" where
  "nmo_object_index_get_active_flags ix = ix_active_indexes ix"

section \<open>Queries\<close>

text \<open>The array of a key in an index; \<open>None\<close> is NULL. An empty array is still an array.\<close>

definition bucket_objects :: "'k \<Rightarrow> ('k, nat) hash_table \<Rightarrow> object_index \<Rightarrow> obj_ref list option eff" where
  "bucket_objects key t ix =
     bindE (nmo_hash_table_get key t) (\<lambda>found. Done (map_option (\<lambda>h. oa_objects (ix_arrays ix h)) found))"

definition nmo_object_index_get_by_class ::
  "u32 \<Rightarrow> object_repository \<Rightarrow> object_index \<Rightarrow> (obj_ref list option \<times> object_repository) eff" where
  "nmo_object_index_get_by_class class_id repo ix =
     (case ix_class_index ix of
        Some t \<Rightarrow> bindE (bucket_objects class_id t ix) (\<lambda>r. Done (r, repo))
      | None \<Rightarrow> nmo_object_repository_find_by_class class_id repo)"

definition nmo_object_index_count_by_class :: "u32 \<Rightarrow> object_repository \<Rightarrow> object_index \<Rightarrow> (nat \<times> object_repository) eff" where
  "nmo_object_index_count_by_class class_id repo ix =
     bindE (nmo_object_index_get_by_class class_id repo ix) (\<lambda>(r, repo).
       Done (case r of None \<Rightarrow> 0 | Some ps \<Rightarrow> length ps, repo))"

definition first_of_class :: "object_store \<Rightarrow> u32 \<Rightarrow> obj_ref list \<Rightarrow> obj_ref option" where
  "first_of_class objs class_id ps =
     (if class_id \<noteq> 0 then List.find (\<lambda>p. ob_class_id (objs p) = class_id) ps
      else case ps of [] \<Rightarrow> None | p # _ \<Rightarrow> Some p)"

definition nmo_object_index_find_by_name ::
  "cstring \<Rightarrow> u32 \<Rightarrow> object_repository \<Rightarrow> object_index \<Rightarrow> obj_ref option eff" where
  "nmo_object_index_find_by_name name class_id repo ix =
     (case ix_name_index ix of
        Some t \<Rightarrow> bindE (bucket_objects name t ix) (\<lambda>r. Done (case r of
            Some ps \<Rightarrow> first_of_class (rp_objects repo) class_id ps
          | None \<Rightarrow> None))
      | None \<Rightarrow> nmo_object_repository_find_by_name name repo)"

text \<open>The filtered array is allocated; \<open>granted\<close> is the answer of \<^verbatim>\<open>malloc\<close>.\<close>

definition nmo_object_index_get_by_name_all ::
  "bool \<Rightarrow> cstring \<Rightarrow> u32 \<Rightarrow> object_repository \<Rightarrow> object_index \<Rightarrow> obj_ref list option eff" where
  "nmo_object_index_get_by_name_all granted name class_id repo ix =
     (case ix_name_index ix of
        None \<Rightarrow> Done None
      | Some t \<Rightarrow> bindE (bucket_objects name t ix) (\<lambda>r. Done (case r of
          None \<Rightarrow> None
        | Some ps \<Rightarrow>
            if class_id = 0 then Some ps
            else let found = filter (\<lambda>p. ob_class_id (rp_objects repo p) = class_id) ps
                 in if found = [] then None else if \<not> granted then None else Some found)))"

text \<open>The linear searches over the array the repository hands out.\<close>

fun find_in_all :: "(nmo_object option \<Rightarrow> bool eff) \<Rightarrow> object_store \<Rightarrow> obj_ref option list \<Rightarrow> obj_ref option eff" where
  "find_in_all P objs [] = Done None"
| "find_in_all P objs (v # vs) =
     bindE (P (map_option objs v)) (\<lambda>found. if found then Done v else find_in_all P objs vs)"

definition search_all :: "bool \<Rightarrow> (nmo_object option \<Rightarrow> bool eff) \<Rightarrow> object_repository \<Rightarrow> obj_ref option eff" where
  "search_all granted P repo =
     bindE (nmo_object_repository_get_all granted repo) (\<lambda>vs.
       find_in_all P (rp_objects repo) (case vs of None \<Rightarrow> [] | Some vs \<Rightarrow> vs))"

definition nmo_object_index_find_by_name_fuzzy :: "bool \<Rightarrow> cstring \<Rightarrow> u32 \<Rightarrow> object_repository \<Rightarrow> obj_ref option eff" where
  "nmo_object_index_find_by_name_fuzzy granted name class_id repo =
     search_all granted (\<lambda>ob. Done (case ob of None \<Rightarrow> False | Some ob \<Rightarrow>
       (case ob_name ob of None \<Rightarrow> False | Some s \<Rightarrow> strcasecmp_portable s name = 0)
       \<and> (class_id = 0 \<or> ob_class_id ob = class_id))) repo"

definition nmo_guid_equals :: "nmo_guid \<Rightarrow> nmo_guid \<Rightarrow> bool" where
  "nmo_guid_equals a b \<longleftrightarrow> d1 a = d1 b \<and> d2 a = d2 b"

definition nmo_object_index_find_by_guid ::
  "bool \<Rightarrow> nmo_guid \<Rightarrow> object_repository \<Rightarrow> object_index \<Rightarrow> obj_ref option eff" where
  "nmo_object_index_find_by_guid granted guid repo ix =
     (if nmo_guid_is_null guid then Done None
      else case ix_guid_index ix of
        Some t \<Rightarrow> bindE (bucket_objects guid t ix) (\<lambda>r. Done (case r of Some (p # _) \<Rightarrow> Some p | _ \<Rightarrow> None))
      | None \<Rightarrow> search_all granted (\<lambda>ob. case ob of None \<Rightarrow> Undefined
          | Some ob \<Rightarrow> Done (nmo_guid_equals (ob_type_guid ob) guid)) repo)"

definition nmo_object_index_get_by_guid_all :: "nmo_guid \<Rightarrow> object_index \<Rightarrow> obj_ref list option eff" where
  "nmo_object_index_get_by_guid_all guid ix =
     (if nmo_guid_is_null guid then Done None
      else case ix_guid_index ix of
        None \<Rightarrow> Done None
      | Some t \<Rightarrow> bucket_objects guid t ix)"

section \<open>Statistics\<close>

record index_stats =
  st_total_objects :: nat
  st_class_index_entries :: nat
  st_name_index_entries :: nat
  st_guid_index_entries :: nat
  st_memory_usage :: nat

definition table_entries :: "('k, nat) hash_table option \<Rightarrow> nat" where
  "table_entries t = (case t of None \<Rightarrow> 0 | Some t \<Rightarrow> nmo_hash_table_get_count t)"

definition sizeof_object_index :: nat where
  "sizeof_object_index = 72"

definition nmo_object_index_get_stats :: "object_repository \<Rightarrow> object_index \<Rightarrow> index_stats" where
  "nmo_object_index_get_stats repo ix =
     (let c = table_entries (ix_class_index ix); n = table_entries (ix_name_index ix); g = table_entries (ix_guid_index ix)
      in \<lparr>st_total_objects = nmo_object_repository_get_count repo, st_class_index_entries = c,
          st_name_index_entries = n, st_guid_index_entries = g,
          st_memory_usage = sz_add (sz_add (sz_add sizeof_object_index (sz_mul c 12)) (sz_mul n 16)) (sz_mul g 16)\<rparr>)"

definition nmo_object_index_has_class_index :: "object_index \<Rightarrow> bool" where
  "nmo_object_index_has_class_index ix \<longleftrightarrow> ix_class_index ix \<noteq> None"

definition nmo_object_index_has_name_index :: "object_index \<Rightarrow> bool" where
  "nmo_object_index_has_name_index ix \<longleftrightarrow> ix_name_index ix \<noteq> None"

definition nmo_object_index_has_guid_index :: "object_index \<Rightarrow> bool" where
  "nmo_object_index_has_guid_index ix \<longleftrightarrow> ix_guid_index ix \<noteq> None"

end
