(* ===== verification/ObjectRepository.thy ===== *)
theory ObjectRepository
  imports ObjectIndex
begin

text \<open>
  The object repository, \<^verbatim>\<open>src/session/object_repository.c\<close>: creation, insertion, removal, and the
  notification of the attached index. Objects are entered by ID in an indexed map and by name in a hash
  table; the two containers are those of \<^verbatim>\<open>IndexedMap\<close> and \<^verbatim>\<open>HashTable\<close>.
\<close>

section \<open>Operations\<close>

definition sizeof_repository :: nat where
  "sizeof_repository = 40"

definition nmo_object_repository_create ::
  "(nat \<Rightarrow> bool) \<Rightarrow> (nat \<Rightarrow> nat \<Rightarrow> bool) \<Rightarrow> (nat \<Rightarrow> nat \<Rightarrow> bool) \<Rightarrow> object_store \<Rightarrow> arena
    \<Rightarrow> (object_repository option \<times> arena) eff" where
  "nmo_object_repository_create malloc map_alloc table_alloc objs a =
     (if \<not> malloc sizeof_repository then Done (None, a)
      else bindE (nmo_indexed_map_create map_alloc (\<lambda>_ _. False) (\<lambda>_ _. 0) (Some a) 4 8 64 nmo_map_hash_uint32 compare_uint32)
        (\<lambda>(m, b). let a = the b in case m of
           None \<Rightarrow> Done (None, a)
         | Some m \<Rightarrow> bindE (nmo_hash_table_create table_alloc 8 8 64 nmo_hash_string nmo_compare_string) (\<lambda>t. case t of
             None \<Rightarrow> Done (None, a)
           | Some t \<Rightarrow> Done (Some \<lparr>rp_objects = objs, rp_id_map = m, rp_name_table = t, rp_next_runtime_id = 1,
               rp_attached_index = None\<rparr>, a))))"

definition nmo_object_repository_set_index :: "object_index option \<Rightarrow> object_repository \<Rightarrow> object_repository" where
  "nmo_object_repository_set_index ix repo = repo\<lparr>rp_attached_index := ix\<rparr>"

definition nmo_object_repository_get_active_index_flags :: "object_repository \<Rightarrow> u32" where
  "nmo_object_repository_get_active_index_flags repo =
     (case rp_attached_index repo of None \<Rightarrow> 0 | Some ix \<Rightarrow> nmo_object_index_get_active_flags ix)"

text \<open>A call on the attached index; it is skipped when no index is active.\<close>

definition notify :: "(u32 \<Rightarrow> object_index \<Rightarrow> (unit, object_index) cres) \<Rightarrow> object_repository \<Rightarrow> (unit, object_repository) cres" where
  "notify call repo =
     (case rp_attached_index repo of
        None \<Rightarrow> ok () repo
      | Some ix \<Rightarrow>
          let flags = nmo_object_repository_get_active_index_flags repo
          in if flags = 0 then ok () repo
             else bindE (call flags ix) (\<lambda>(r, ix). Done (r, repo\<lparr>rp_attached_index := Some ix\<rparr>)))"

definition nmo_object_repository_notify_add :: "obj_ref \<Rightarrow> object_repository \<Rightarrow> (unit, object_repository) cres" where
  "nmo_object_repository_notify_add p repo =
     notify (\<lambda>flags. nmo_object_index_add_object p flags (rp_objects repo)) repo"

definition nmo_object_repository_notify_remove :: "u32 \<Rightarrow> object_repository \<Rightarrow> (unit, object_repository) cres" where
  "nmo_object_repository_notify_remove key repo =
     notify (\<lambda>flags. nmo_object_index_remove_object key flags repo) repo"

definition nmo_object_repository_allocate_id :: "object_repository \<Rightarrow> u32 \<times> object_repository" where
  "nmo_object_repository_allocate_id repo =
     (let next_id = rp_next_runtime_id repo + 1
      in (rp_next_runtime_id repo, repo\<lparr>rp_next_runtime_id := if next_id = 0 then 1 else next_id\<rparr>))"

text \<open>An object without an ID gets one.\<close>

definition give_id :: "obj_ref \<Rightarrow> object_repository \<Rightarrow> object_repository" where
  "give_id p repo =
     (if ob_id (rp_objects repo p) = 0 then
        let (new_id, repo) = nmo_object_repository_allocate_id repo
        in repo\<lparr>rp_objects := (rp_objects repo)(p := (rp_objects repo p)\<lparr>ob_id := new_id\<rparr>)\<rparr>
      else repo)"

definition drop_id :: "u32 \<Rightarrow> object_repository \<Rightarrow> object_repository eff" where
  "drop_id key repo = bindE (nmo_indexed_map_remove key (rp_id_map repo)) (\<lambda>(_, m). Done (repo\<lparr>rp_id_map := m\<rparr>))"

definition enter_name :: "obj_ref \<Rightarrow> object_repository \<Rightarrow> (unit, object_repository) cres" where
  "enter_name p repo =
     (case name_key (rp_objects repo p) of
        None \<Rightarrow> ok () repo
      | Some s \<Rightarrow> bindE (nmo_hash_table_insert s p (rp_name_table repo)) (\<lambda>(r, t). Done (r, repo\<lparr>rp_name_table := t\<rparr>)))"

definition drop_name :: "obj_ref \<Rightarrow> object_repository \<Rightarrow> object_repository eff" where
  "drop_name p repo =
     (case name_key (rp_objects repo p) of
        None \<Rightarrow> Done repo
      | Some s \<Rightarrow> bindE (nmo_hash_table_remove s (rp_name_table repo)) (\<lambda>(_, t). Done (repo\<lparr>rp_name_table := t\<rparr>)))"

definition nmo_object_repository_add :: "obj_ref \<Rightarrow> object_repository \<Rightarrow> (unit, object_repository) cres" where
  "nmo_object_repository_add p repo =
     (let repo = give_id p repo; key = ob_id (rp_objects repo p)
      in if key = 0 then fail NMO_ERR_NOMEM repo
         else bindE (nmo_indexed_map_contains key (rp_id_map repo)) (\<lambda>present.
           if present then fail NMO_ERR_INVALID_STATE repo
           else bindE (nmo_indexed_map_insert key p (rp_id_map repo)) (\<lambda>(r, m).
             let repo = repo\<lparr>rp_id_map := m\<rparr>
             in case r of
                  Inl e \<Rightarrow> fail e repo
                | Inr _ \<Rightarrow> bindE (enter_name p repo) (\<lambda>(r, repo). case r of
                    Inl e \<Rightarrow> bindE (drop_id key repo) (fail e)
                  | Inr _ \<Rightarrow> bindE (nmo_object_repository_notify_add p repo) (\<lambda>(r, repo). case r of
                      Inl e \<Rightarrow> bindE (drop_name p repo) (\<lambda>repo. bindE (drop_id key repo) (fail e))
                    | Inr _ \<Rightarrow> ok () repo)))))"

definition nmo_object_repository_remove :: "u32 \<Rightarrow> object_repository \<Rightarrow> (unit, object_repository) cres" where
  "nmo_object_repository_remove key repo =
     bindE (nmo_indexed_map_get key (rp_id_map repo)) (\<lambda>obj. case obj of
       None \<Rightarrow> fail NMO_ERR_INVALID_ARGUMENT repo
     | Some p \<Rightarrow> bindR (nmo_object_repository_notify_remove key repo) (\<lambda>_ repo.
         bindE (drop_name p repo) (\<lambda>repo. bindE (drop_id key repo) (ok ()))))"

definition nmo_object_repository_clear :: "object_repository \<Rightarrow> (unit, object_repository) cres" where
  "nmo_object_repository_clear repo =
     ok () (repo\<lparr>rp_id_map := nmo_indexed_map_clear (rp_id_map repo), rp_name_table := nmo_hash_table_clear (rp_name_table repo),
       rp_next_runtime_id := 1,
       rp_attached_index := map_option (nmo_object_index_clear NMO_INDEX_BUILD_ALL) (rp_attached_index repo)\<rparr>)"

section \<open>The repository as two finite maps\<close>

record repo_spec =
  sp_objects :: object_store
  sp_ids :: "u32 \<rightharpoonup> obj_ref"
  sp_names :: "cstring \<rightharpoonup> obj_ref"
  sp_next :: u32

datatype repo_op = Add obj_ref | Remove u32

definition spec_give_id :: "obj_ref \<Rightarrow> repo_spec \<Rightarrow> repo_spec" where
  "spec_give_id p s =
     (if ob_id (sp_objects s p) = 0
      then s\<lparr>sp_objects := (sp_objects s)(p := (sp_objects s p)\<lparr>ob_id := sp_next s\<rparr>),
             sp_next := (if sp_next s + 1 = 0 then 1 else sp_next s + 1)\<rparr>
      else s)"

definition spec_enter :: "obj_ref \<Rightarrow> repo_spec \<Rightarrow> repo_spec" where
  "spec_enter p s =
     s\<lparr>sp_ids := (sp_ids s)(ob_id (sp_objects s p) \<mapsto> p),
       sp_names := (case name_key (sp_objects s p) of None \<Rightarrow> sp_names s | Some n \<Rightarrow> (sp_names s)(n \<mapsto> p))\<rparr>"

definition spec_leave :: "u32 \<Rightarrow> obj_ref \<Rightarrow> repo_spec \<Rightarrow> repo_spec" where
  "spec_leave key p s =
     s\<lparr>sp_ids := (sp_ids s)(key := None),
       sp_names := (case name_key (sp_objects s p) of None \<Rightarrow> sp_names s | Some n \<Rightarrow> (sp_names s)(n := None))\<rparr>"

text \<open>What an operation may answer; an insertion may also find no memory and then leaves the maps alone.\<close>

fun repo_answers :: "repo_op \<Rightarrow> repo_spec \<Rightarrow> nmo_error_code + unit \<Rightarrow> repo_spec \<Rightarrow> bool" where
  "repo_answers (Add p) s r s' \<longleftrightarrow>
     (let t = spec_give_id p s
      in if sp_ids t (ob_id (sp_objects t p)) \<noteq> None then r = Inl NMO_ERR_INVALID_STATE \<and> s' = t
         else r = Inr () \<and> s' = spec_enter p t \<or> r = Inl NMO_ERR_NOMEM \<and> s' = t)"
| "repo_answers (Remove key) s r s' \<longleftrightarrow>
     (case sp_ids s key of
        None \<Rightarrow> r = Inl NMO_ERR_INVALID_ARGUMENT \<and> s' = s
      | Some p \<Rightarrow> r = Inr () \<and> s' = spec_leave key p s)"

inductive repo_conforms :: "repo_op list \<Rightarrow> repo_spec \<Rightarrow> (nmo_error_code + unit) list \<Rightarrow> repo_spec \<Rightarrow> bool" where
  finished: "repo_conforms [] s [] s"
| stepped: "repo_answers op s r t \<Longrightarrow> repo_conforms ops t rs u \<Longrightarrow> repo_conforms (op # ops) s (r # rs) u"

inductive_cases repo_conforms_ConsE: "repo_conforms (op # ops) s rs u"
inductive_cases repo_conforms_NilE: "repo_conforms [] s rs u"

fun repo_step :: "repo_op \<Rightarrow> object_repository \<Rightarrow> (unit, object_repository) cres" where
  "repo_step (Add p) repo = nmo_object_repository_add p repo"
| "repo_step (Remove key) repo = nmo_object_repository_remove key repo"

fun repo_run :: "repo_op list \<Rightarrow> object_repository \<Rightarrow> ((nmo_error_code + unit) list \<times> object_repository) eff" where
  "repo_run [] repo = Done ([], repo)"
| "repo_run (op # ops) repo =
     bindE (repo_step op repo) (\<lambda>(r, repo). bindE (repo_run ops repo) (\<lambda>(rs, repo). Done (r # rs, repo)))"

definition repo_abs :: "object_repository \<Rightarrow> repo_spec" where
  "repo_abs repo = \<lparr>sp_objects = rp_objects repo, sp_ids = im_map (rp_id_map repo), sp_names = ht_map (rp_name_table repo),
     sp_next = rp_next_runtime_id repo\<rparr>"

definition spec_ok :: "repo_spec \<Rightarrow> bool" where
  "spec_ok s \<longleftrightarrow> sp_next s \<noteq> 0
     \<and> (\<forall>i p. sp_ids s i = Some p \<longrightarrow> i \<noteq> 0 \<and> ob_id (sp_objects s p) = i)
     \<and> (\<forall>n p. sp_names s n = Some p \<longrightarrow> name_key (sp_objects s p) = Some n \<and> sp_ids s (ob_id (sp_objects s p)) = Some p)"

text \<open>Containers in order, with room for \<open>n\<close> more insertions.\<close>

definition repo_ok :: "nat \<Rightarrow> object_repository \<Rightarrow> bool" where
  "repo_ok n repo \<longleftrightarrow> im_wf (rp_id_map repo) \<and> n < im_room (rp_id_map repo)
     \<and> ht_wf (rp_name_table repo) \<and> n < ht_room (rp_name_table repo) \<and> spec_ok (repo_abs repo)"

lemma name_key_id [simp]: "name_key (ob\<lparr>ob_id := i\<rparr>) = name_key ob"
  by (simp add: name_key_def)

lemma spec_okD:
  assumes "spec_ok s"
  shows "sp_next s \<noteq> 0" and "sp_ids s i = Some p \<Longrightarrow> i \<noteq> 0 \<and> ob_id (sp_objects s p) = i"
    and "sp_names s n = Some p \<Longrightarrow> name_key (sp_objects s p) = Some n \<and> sp_ids s (ob_id (sp_objects s p)) = Some p"
  using assms by (simp_all add: spec_ok_def)

lemma spec_okI:
  assumes "sp_next s \<noteq> 0" and "\<And>i p. sp_ids s i = Some p \<Longrightarrow> i \<noteq> 0 \<and> ob_id (sp_objects s p) = i"
    and "\<And>n p. sp_names s n = Some p \<Longrightarrow> name_key (sp_objects s p) = Some n \<and> sp_ids s (ob_id (sp_objects s p)) = Some p"
  shows "spec_ok s"
  using assms by (simp add: spec_ok_def)

lemma spec_give_id_maps [simp]:
  "sp_ids (spec_give_id p s) = sp_ids s" "sp_names (spec_give_id p s) = sp_names s"
  by (simp_all add: spec_give_id_def)

lemma spec_ok_give_id:
  assumes "spec_ok s"
  shows "spec_ok (spec_give_id p s)" "ob_id (sp_objects (spec_give_id p s) p) \<noteq> 0"
proof -
  note d = spec_okD [OF assms]
  show "ob_id (sp_objects (spec_give_id p s) p) \<noteq> 0" using d(1) by (simp add: spec_give_id_def)
  show "spec_ok (spec_give_id p s)"
  proof (cases "ob_id (sp_objects s p) = 0")
    case True
    then have out: "sp_ids s i \<noteq> Some p" "sp_names s n \<noteq> Some p" for i n using d(2,3) by fastforce+
    have o: "sp_objects (spec_give_id p s) q = sp_objects s q" if "q \<noteq> p" for q
      using that by (simp add: spec_give_id_def)
    show ?thesis
    proof (rule spec_okI)
      show "sp_next (spec_give_id p s) \<noteq> 0" using d(1) by (simp add: spec_give_id_def)
    next
      fix i q assume "sp_ids (spec_give_id p s) i = Some q"
      with out d(2) o show "i \<noteq> 0 \<and> ob_id (sp_objects (spec_give_id p s) q) = i" by (metis spec_give_id_maps(1))
    next
      fix n q assume "sp_names (spec_give_id p s) n = Some q"
      with out d(3) o show "name_key (sp_objects (spec_give_id p s) q) = Some n
        \<and> sp_ids (spec_give_id p s) (ob_id (sp_objects (spec_give_id p s) q)) = Some q" by (metis spec_give_id_maps)
    qed
  qed (use assms in \<open>simp add: spec_give_id_def\<close>)
qed

lemma spec_ok_enter:
  assumes "spec_ok s" and "ob_id (sp_objects s p) \<noteq> 0" and "sp_ids s (ob_id (sp_objects s p)) = None"
  shows "spec_ok (spec_enter p s)"
proof (rule spec_okI)
  note d = spec_okD [OF assms(1)]
  show "sp_next (spec_enter p s) \<noteq> 0" using d(1) by (simp add: spec_enter_def)
  show "i \<noteq> 0 \<and> ob_id (sp_objects (spec_enter p s) q) = i" if "sp_ids (spec_enter p s) i = Some q" for i q
    using that d(2) [of i q] assms(2) by (auto simp: spec_enter_def split: if_splits)
  show "name_key (sp_objects (spec_enter p s) q) = Some n \<and> sp_ids (spec_enter p s) (ob_id (sp_objects (spec_enter p s) q)) = Some q"
    if "sp_names (spec_enter p s) n = Some q" for n q
    using that d(3) [of n q] assms(3) by (auto simp: spec_enter_def split: if_splits option.splits)
qed

lemma spec_ok_leave:
  assumes "spec_ok s" and "sp_ids s key = Some p"
  shows "spec_ok (spec_leave key p s)"
proof (rule spec_okI)
  note d = spec_okD [OF assms(1)]
  show "sp_next (spec_leave key p s) \<noteq> 0" using d(1) by (simp add: spec_leave_def)
  show "i \<noteq> 0 \<and> ob_id (sp_objects (spec_leave key p s) q) = i" if "sp_ids (spec_leave key p s) i = Some q" for i q
    using that d(2) [of i q] by (auto simp: spec_leave_def split: if_splits)
  show "name_key (sp_objects (spec_leave key p s) q) = Some n \<and> sp_ids (spec_leave key p s) (ob_id (sp_objects (spec_leave key p s) q)) = Some q"
    if "sp_names (spec_leave key p s) n = Some q" for n q
  proof -
    have q: "sp_names s n = Some q" and n: "name_key (sp_objects s p) \<noteq> Some n"
      using that by (auto simp: spec_leave_def split: option.splits if_splits)
    with d(3) [OF q] have "q \<noteq> p" by auto
    with d(3) [OF q] assms(2) show ?thesis by (auto simp: spec_leave_def)
  qed
qed

lemma repo_abs_give_id: "repo_abs (give_id p repo) = spec_give_id p (repo_abs repo)"
  by (simp add: repo_abs_def give_id_def spec_give_id_def nmo_object_repository_allocate_id_def)

lemma repo_okD:
  assumes "repo_ok n repo"
  shows "im_wf (rp_id_map repo)" "n < im_room (rp_id_map repo)" "ht_wf (rp_name_table repo)" "n < ht_room (rp_name_table repo)"
    "spec_ok (repo_abs repo)"
  using assms by (simp_all add: repo_ok_def)

lemma give_id_fields [simp]:
  "rp_id_map (give_id p repo) = rp_id_map repo" "rp_name_table (give_id p repo) = rp_name_table repo"
  "rp_attached_index (give_id p repo) = rp_attached_index repo"
  by (simp_all add: give_id_def nmo_object_repository_allocate_id_def Let_def)

lemma repo_ok_give_id: "repo_ok n repo \<Longrightarrow> repo_ok n (give_id p repo)"
  by (simp add: repo_ok_def repo_abs_give_id spec_ok_give_id)

lemma enter_name_ok:
  assumes "ht_wf (rp_name_table repo)" and "Suc n < ht_room (rp_name_table repo)"
  shows "\<exists>r t. enter_name p repo = Done (r, repo\<lparr>rp_name_table := t\<rparr>) \<and> ht_wf t \<and> n < ht_room t
    \<and> (r = Inr () \<and> ht_map t = (case name_key (rp_objects repo p) of None \<Rightarrow> ht_map (rp_name_table repo) | Some s \<Rightarrow> (ht_map (rp_name_table repo))(s \<mapsto> p))
      \<or> r = Inl NMO_ERR_NOMEM \<and> ht_map t = ht_map (rp_name_table repo))"
proof (cases "name_key (rp_objects repo p)")
  case None
  with assms show ?thesis by (auto simp: enter_name_def eff_simps intro!: exI [of _ "rp_name_table repo"])
next
  case (Some s)
  have "0 < ht_room (rp_name_table repo)" using assms(2) by simp
  from insert_law [OF assms(1) this, of s p] obtain r t where
    t: "nmo_hash_table_insert s p (rp_name_table repo) = Done (r, t)" "ht_wf t" "ht_room (rp_name_table repo) \<le> Suc (ht_room t)"
      "r = Inr () \<and> ht_map t = (ht_map (rp_name_table repo))(s \<mapsto> p) \<or> r = Inl NMO_ERR_NOMEM \<and> ht_map t = ht_map (rp_name_table repo)"
    by blast
  from t(3) assms(2) have "n < ht_room t" by simp
  with t Some show ?thesis by (auto simp: enter_name_def)
qed

lemma drop_id_ok:
  assumes "im_wf (rp_id_map repo)" and "n < im_room (rp_id_map repo)"
  shows "\<exists>m. drop_id key repo = Done (repo\<lparr>rp_id_map := m\<rparr>) \<and> im_wf m \<and> n < im_room m \<and> im_map m = (im_map (rp_id_map repo))(key := None)"
proof -
  have "0 < im_room (rp_id_map repo)" using assms(2) by simp
  from im_remove_law [OF assms(1) this, of key] assms(2) show ?thesis by (auto simp: drop_id_def)
qed

lemma drop_name_ok:
  assumes "ht_wf (rp_name_table repo)" and "n < ht_room (rp_name_table repo)"
  shows "\<exists>t. drop_name p repo = Done (repo\<lparr>rp_name_table := t\<rparr>) \<and> ht_wf t \<and> n < ht_room t
    \<and> ht_map t = (case name_key (rp_objects repo p) of None \<Rightarrow> ht_map (rp_name_table repo) | Some s \<Rightarrow> (ht_map (rp_name_table repo))(s := None))"
proof (cases "name_key (rp_objects repo p)")
  case None
  with assms show ?thesis by (auto simp: drop_name_def intro!: exI [of _ "rp_name_table repo"])
next
  case (Some s)
  have "0 < ht_room (rp_name_table repo)" using assms(2) by simp
  from remove_law [OF assms(1) this, of s] assms(2) Some show ?thesis by (auto simp: drop_name_def)
qed

text \<open>An insertion, up to the notification: the outcomes of the containers, and the rollback.\<close>

lemma repo_add_ok:
  assumes "repo_ok (Suc n) repo" and "rp_attached_index repo = None"
  shows "\<exists>r repo'. nmo_object_repository_add p repo = Done (r, repo') \<and> repo_ok n repo' \<and> rp_attached_index repo' = None
    \<and> repo_answers (Add p) (repo_abs repo) r (repo_abs repo')"
proof -
  define g where "g = give_id p repo"
  define key where "key = ob_id (rp_objects g p)"
  have g: "repo_ok (Suc n) g" "repo_abs g = spec_give_id p (repo_abs repo)" "rp_attached_index g = None"
    using repo_ok_give_id [OF assms(1)] assms(2) by (simp_all add: g_def repo_abs_give_id)
  note w = repo_okD [OF g(1)]
  have a: "sp_objects (repo_abs g) = rp_objects g" "sp_ids (repo_abs g) = im_map (rp_id_map g)"
    "sp_names (repo_abs g) = ht_map (rp_name_table g)" "sp_next (repo_abs g) = rp_next_runtime_id g" by (simp_all add: repo_abs_def)
  have key: "key \<noteq> 0" using spec_ok_give_id(2) [OF repo_okD(5) [OF assms(1)], of p] g(2) a(1) by (simp add: key_def)
  have room: "0 < im_room (rp_id_map g)" using w(2) by simp
  have c: "nmo_indexed_map_contains key (rp_id_map g) = Done (im_map (rp_id_map g) key \<noteq> None)"
    by (simp add: nmo_indexed_map_contains_def im_get_law [OF w(1) room])
  have low: "repo_ok n g" using w unfolding repo_ok_def by simp
  show ?thesis
  proof (cases "im_map (rp_id_map g) key")
    case (Some q)
    with key c low g a show ?thesis
      by (auto simp: nmo_object_repository_add_def g_def [symmetric] key_def [symmetric] eff_simps Let_def)
  next
    case None
    from im_insert_law [OF w(1) room, of key p] obtain r m where m: "nmo_indexed_map_insert key p (rp_id_map g) = Done (r, m)"
      "im_wf m" "im_room (rp_id_map g) \<le> Suc (im_room m)"
      "r = Inr () \<and> im_map m = (im_map (rp_id_map g))(key \<mapsto> p) \<or> r = Inl NMO_ERR_NOMEM \<and> im_map m = im_map (rp_id_map g)" by blast
    have rm: "n < im_room m" using m(3) w(2) by simp
    define g1 where "g1 = g\<lparr>rp_id_map := m\<rparr>"
    have add: "nmo_object_repository_add p repo = (case r of Inl e \<Rightarrow> fail e g1
       | Inr _ \<Rightarrow> bindE (enter_name p g1) (\<lambda>(r, repo). case r of
                    Inl e \<Rightarrow> bindE (drop_id key repo) (fail e)
                  | Inr _ \<Rightarrow> bindE (nmo_object_repository_notify_add p repo) (\<lambda>(r, repo). case r of
                      Inl e \<Rightarrow> bindE (drop_name p repo) (\<lambda>repo. bindE (drop_id key repo) (fail e))
                    | Inr _ \<Rightarrow> ok () repo)))"
      using key c None m(1) unfolding key_def g1_def
      by (simp add: nmo_object_repository_add_def g_def [symmetric] Let_def)
    show ?thesis
    proof (cases r)
      case (Inl e)
      with m(4) have e: "e = NMO_ERR_NOMEM" "im_map m = im_map (rp_id_map g)" by auto
      then have abs: "repo_abs g1 = repo_abs g" by (simp add: repo_abs_def g1_def)
      have "repo_ok n g1" using low m(2) rm abs by (simp add: repo_ok_def g1_def)
      with add Inl e(1) abs g a None show ?thesis by (auto simp: eff_simps key_def g1_def Let_def)
    next
      case (Inr u)
      with m(4) have mm: "im_map m = (im_map (rp_id_map g))(key \<mapsto> p)" by auto
      have names: "ht_wf (rp_name_table g1)" "Suc n < ht_room (rp_name_table g1)" "rp_objects g1 = rp_objects g"
        "rp_name_table g1 = rp_name_table g" "rp_attached_index g1 = None" "rp_next_runtime_id g1 = rp_next_runtime_id g"
        using w g(3) by (simp_all add: g1_def)
      from enter_name_ok [OF names(1,2), of p] obtain r2 t where t: "enter_name p g1 = Done (r2, g1\<lparr>rp_name_table := t\<rparr>)" "ht_wf t" "n < ht_room t"
        "r2 = Inr () \<and> ht_map t = (case name_key (rp_objects g p) of None \<Rightarrow> ht_map (rp_name_table g) | Some s \<Rightarrow> (ht_map (rp_name_table g))(s \<mapsto> p))
          \<or> r2 = Inl NMO_ERR_NOMEM \<and> ht_map t = ht_map (rp_name_table g)" unfolding names(3,4) by blast
      define g2 where "g2 = g1\<lparr>rp_name_table := t\<rparr>"
      show ?thesis
      proof (cases r2)
        case Inr2: (Inr u2)
        with t(4) have th: "ht_map t = (case name_key (rp_objects g p) of None \<Rightarrow> ht_map (rp_name_table g) | Some s \<Rightarrow> (ht_map (rp_name_table g))(s \<mapsto> p))" by auto
        have abs: "repo_abs g2 = spec_enter p (repo_abs g)"
          using mm th names(6) by (simp add: repo_abs_def spec_enter_def g2_def g1_def key_def split: option.split)
        have "spec_ok (spec_enter p (repo_abs g))" using spec_ok_enter [OF w(5), of p] key None a by (simp add: key_def)
        with abs have "repo_ok n g2" using m(2) rm t(2,3) by (simp add: repo_ok_def g2_def g1_def)
        moreover have "nmo_object_repository_notify_add p g2 = ok () g2" "rp_attached_index g2 = None"
          using names(5) by (simp_all add: nmo_object_repository_notify_add_def notify_def g2_def Let_def)
        ultimately show ?thesis using add Inr Inr2 t(1) abs g(2) a None
          by (auto simp: eff_simps key_def g2_def [symmetric] Let_def)
      next
        case Inl2: (Inl e)
        with t(4) have e: "e = NMO_ERR_NOMEM" "ht_map t = ht_map (rp_name_table g)" by auto
        have g2m: "im_wf (rp_id_map g2)" "n < im_room (rp_id_map g2)" "rp_id_map g2 = m" using m(2) rm by (simp_all add: g2_def g1_def)
        from drop_id_ok [OF g2m(1,2), of key] obtain m2 where d: "drop_id key g2 = Done (g2\<lparr>rp_id_map := m2\<rparr>)" "im_wf m2" "n < im_room m2"
          "im_map m2 = (im_map m)(key := None)" unfolding g2m(3) by blast
        have "im_map m2 = im_map (rp_id_map g)" using d(4) mm None by auto
        then have abs: "repo_abs (g2\<lparr>rp_id_map := m2\<rparr>) = repo_abs g" using e(2) names(6) by (simp add: repo_abs_def g2_def g1_def)
        have "repo_ok n (g2\<lparr>rp_id_map := m2\<rparr>)" using d(2,3) t(2,3) w(5) abs by (simp add: repo_ok_def g2_def)
        with add Inr Inl2 t(1) d(1) abs e(1) g a None show ?thesis
          by (auto simp: eff_simps key_def g2_def g1_def Let_def)
      qed
    qed
  qed
qed

lemma repo_remove_ok:
  assumes "repo_ok n repo" and "rp_attached_index repo = None"
  shows "\<exists>r repo'. nmo_object_repository_remove key repo = Done (r, repo') \<and> repo_ok n repo' \<and> rp_attached_index repo' = None
    \<and> repo_answers (Remove key) (repo_abs repo) r (repo_abs repo')"
proof -
  note w = repo_okD [OF assms(1)]
  have room: "0 < im_room (rp_id_map repo)" using w(2) by simp
  note get = im_get_law [OF w(1) room, of key]
  show ?thesis
  proof (cases "im_map (rp_id_map repo) key")
    case None
    with get assms show ?thesis by (auto simp: nmo_object_repository_remove_def eff_simps repo_abs_def)
  next
    case (Some p)
    have n: "nmo_object_repository_notify_remove key repo = ok () repo"
      using assms(2) by (simp add: nmo_object_repository_notify_remove_def notify_def Let_def)
    from drop_name_ok [OF w(3,4), of p] obtain t where t: "drop_name p repo = Done (repo\<lparr>rp_name_table := t\<rparr>)" "ht_wf t" "n < ht_room t"
      "ht_map t = (case name_key (rp_objects repo p) of None \<Rightarrow> ht_map (rp_name_table repo) | Some s \<Rightarrow> (ht_map (rp_name_table repo))(s := None))" by blast
    have "im_wf (rp_id_map (repo\<lparr>rp_name_table := t\<rparr>))" "n < im_room (rp_id_map (repo\<lparr>rp_name_table := t\<rparr>))" using w by simp_all
    from drop_id_ok [OF this, of key] obtain m where m: "drop_id key (repo\<lparr>rp_name_table := t\<rparr>) = Done (repo\<lparr>rp_name_table := t, rp_id_map := m\<rparr>)"
      "im_wf m" "n < im_room m" "im_map m = (im_map (rp_id_map repo))(key := None)" by auto
    have r: "nmo_object_repository_remove key repo = ok () (repo\<lparr>rp_name_table := t, rp_id_map := m\<rparr>)"
      using get Some n t(1) m(1) by (simp add: nmo_object_repository_remove_def)
    have abs: "repo_abs (repo\<lparr>rp_name_table := t, rp_id_map := m\<rparr>) = spec_leave key p (repo_abs repo)"
      using t(4) m(4) by (simp add: repo_abs_def spec_leave_def split: option.split)
    have "spec_ok (spec_leave key p (repo_abs repo))" using spec_ok_leave [OF w(5)] Some by (simp add: repo_abs_def)
    with abs have "repo_ok n (repo\<lparr>rp_name_table := t, rp_id_map := m\<rparr>)" using t m by (simp add: repo_ok_def)
    with r abs Some assms(2) show ?thesis by (auto simp: eff_simps repo_abs_def)
  qed
qed

section \<open>Properties\<close>

lemma repo_run_ok:
  assumes "repo_ok (length ops) repo" and "rp_attached_index repo = None"
  shows "\<exists>rs repo'. repo_run ops repo = Done (rs, repo') \<and> repo_ok 0 repo' \<and> rp_attached_index repo' = None
    \<and> repo_conforms ops (repo_abs repo) rs (repo_abs repo')"
  using assms
proof (induction ops arbitrary: repo)
  case Nil
  then show ?case by (auto intro: repo_conforms.finished)
next
  case (Cons op ops)
  have "\<exists>r repo1. repo_step op repo = Done (r, repo1) \<and> repo_ok (length ops) repo1 \<and> rp_attached_index repo1 = None
    \<and> repo_answers op (repo_abs repo) r (repo_abs repo1)"
  proof (cases op)
    case (Add p)
    with repo_add_ok [of "length ops" repo p] Cons.prems show ?thesis by simp
  next
    case (Remove key)
    have "repo_ok (length ops) repo" using Cons.prems(1) by (simp add: repo_ok_def)
    with repo_remove_ok [of "length ops" repo key] Remove Cons.prems(2) show ?thesis by simp
  qed
  then obtain r repo1 where s: "repo_step op repo = Done (r, repo1)" "repo_ok (length ops) repo1" "rp_attached_index repo1 = None"
    "repo_answers op (repo_abs repo) r (repo_abs repo1)" by blast
  from Cons.IH [OF s(2,3)] s(1,4) show ?case by (auto intro: repo_conforms.stepped)
qed

definition empty_spec :: "object_store \<Rightarrow> repo_spec" where
  "empty_spec objs = \<lparr>sp_objects = objs, sp_ids = Map.empty, sp_names = Map.empty, sp_next = 1\<rparr>"

lemma created_repo:
  assumes "nmo_object_repository_create malloc map_alloc table_alloc objs a = Done (Some repo, b)" and "arena_sane a"
  shows "repo_ok 63 repo" and "rp_attached_index repo = None" and "repo_abs repo = empty_spec objs"
    and "im_count (rp_id_map repo) = 0" "im_capacity (rp_id_map repo) = im_array_capacity (rp_id_map repo)" "64 \<le> im_capacity (rp_id_map repo)"
    and "ht_count (rp_name_table repo) = 0" "64 \<le> ht_capacity (rp_name_table repo)"
proof -
  from assms(1) obtain m c t where m: "nmo_indexed_map_create map_alloc (\<lambda>_ _. False) (\<lambda>_ _. 0) (Some a) 4 8 64 nmo_map_hash_uint32 compare_uint32 = Done (Some m, c)"
    and t: "nmo_hash_table_create table_alloc 8 8 64 nmo_hash_string nmo_compare_string = Done (Some t)"
    and r: "repo = \<lparr>rp_objects = objs, rp_id_map = m, rp_name_table = t, rp_next_runtime_id = 1, rp_attached_index = None\<rparr>"
    by (auto simp: nmo_object_repository_create_def bindE_Done_iff Let_def split: if_splits option.splits)
  have im: "im_wf m \<and> im_map m = Map.empty \<and> im_room m = im_capacity m \<and> 64 \<le> im_capacity m \<and> im_count m = 0
    \<and> im_array_capacity m = im_capacity m"
    using created_map [OF m _ _ _ _ assms(2)] compare_uint32_eq by simp
  have cmp: "\<forall>x y. nmo_compare_string x y = 0 \<longleftrightarrow> x = y" by (simp add: compare_string_eq)
  note ht = created_table [OF t _ this, simplified]
  have "ht_map t = Map.empty"
    using entry_of_fresh [of fst "ht_capacity t"] ht(2) by (auto simp: ht_map_def fun_eq_iff)
  then show abs: "repo_abs repo = empty_spec objs" using im by (simp add: r repo_abs_def empty_spec_def)
  have "spec_ok (repo_abs repo)" by (simp add: abs spec_ok_def empty_spec_def)
  then show "repo_ok 63 repo" using im ht by (simp add: r repo_ok_def)
  show "rp_attached_index repo = None" "im_count (rp_id_map repo) = 0" "im_capacity (rp_id_map repo) = im_array_capacity (rp_id_map repo)"
    "64 \<le> im_capacity (rp_id_map repo)" "ht_count (rp_name_table repo) = 0" "64 \<le> ht_capacity (rp_name_table repo)"
    using im ht by (simp_all add: r)
qed

text \<open>
  C17: a repository without attached index answers any sequence of up to 63 insertions and removals
  like a pair of finite maps: every ID designates the object that carries it, a name designates an
  object of that name which is present, and after a failed insertion both maps are as before.
\<close>

theorem repository_is_two_maps:
  assumes "nmo_object_repository_create malloc map_alloc table_alloc objs a = Done (Some repo, b)" and "arena_sane a"
    and "length ops \<le> 63"
  shows "\<exists>rs repo' s. repo_run ops repo = Done (rs, repo') \<and> repo_conforms ops (empty_spec objs) rs s
    \<and> rp_objects repo' = sp_objects s
    \<and> (\<forall>key. nmo_object_repository_find_by_id key repo' = Done (sp_ids s key))
    \<and> (\<forall>name. nmo_object_repository_find_by_name name repo' = Done (sp_names s name))
    \<and> (\<forall>key p. sp_ids s key = Some p \<longrightarrow> key \<noteq> 0 \<and> ob_id (rp_objects repo' p) = key)
    \<and> (\<forall>name p. sp_names s name = Some p \<longrightarrow> ob_name (rp_objects repo' p) = Some name
          \<and> sp_ids s (ob_id (rp_objects repo' p)) = Some p)"
proof -
  note c = created_repo [OF assms(1,2)]
  from c(1) assms(3) have "repo_ok (length ops) repo" by (simp add: repo_ok_def)
  from repo_run_ok [OF this c(2)] obtain rs repo' where r: "repo_run ops repo = Done (rs, repo')" "repo_ok 0 repo'"
    "repo_conforms ops (empty_spec objs) rs (repo_abs repo')" unfolding c(3) by blast
  note w = repo_okD [OF r(2)]
  have abs: "sp_objects (repo_abs repo') = rp_objects repo'" "sp_ids (repo_abs repo') = im_map (rp_id_map repo')"
    "sp_names (repo_abs repo') = ht_map (rp_name_table repo')" by (simp_all add: repo_abs_def)
  have f: "nmo_object_repository_find_by_id key repo' = Done (sp_ids (repo_abs repo') key)"
    "nmo_object_repository_find_by_name name repo' = Done (sp_names (repo_abs repo') name)" for key name
    unfolding nmo_object_repository_find_by_id_def nmo_object_repository_find_by_name_def abs
    using im_get_law [OF w(1,2)] get_law [OF w(3,4)] by simp_all
  have n: "name_key ob = Some s \<Longrightarrow> ob_name ob = Some s" for ob s by (auto simp: name_key_def split: if_splits)
  show ?thesis
    by (rule exI [of _ rs], rule exI [of _ repo'], rule exI [of _ "repo_abs repo'"])
      (use r(1,3) f spec_okD(2,3) [OF w(5)] n in \<open>simp add: abs(1)\<close>)
qed

text \<open>Small repositories do not allocate.\<close>

definition repo_small :: "nat \<Rightarrow> object_repository \<Rightarrow> bool" where
  "repo_small k repo \<longleftrightarrow> 64 \<le> im_capacity (rp_id_map repo) \<and> 64 \<le> im_array_capacity (rp_id_map repo) \<and> im_count (rp_id_map repo) \<le> k
     \<and> 64 \<le> ht_capacity (rp_name_table repo) \<and> ht_count (rp_name_table repo) \<le> k"

lemma not_overloaded: "k < 43 \<Longrightarrow> count \<le> k \<Longrightarrow> 64 \<le> cap \<Longrightarrow> \<not> over_load_factor count cap"
  unfolding over_load_factor_def by auto

lemma im_insert_small:
  assumes "nmo_indexed_map_insert x v m = Done (r, m')" and "\<not> over_load_factor (im_count m) (im_capacity m)"
    and "im_capacity m \<noteq> 0" and "im_count m < im_array_capacity m"
  shows "r \<noteq> Inl NMO_ERR_NOMEM \<and> im_capacity m' = im_capacity m \<and> im_array_capacity m' = im_array_capacity m \<and> im_count m' \<le> Suc (im_count m)"
proof -
  have "indexed_map_make_room m = ok () m" using assms(2-4) by (simp add: indexed_map_make_room_def)
  with assms(1) show ?thesis
    by (auto simp: nmo_indexed_map_insert_def bindE_Done_iff eff_simps Let_def sz_add_def mod_less_eq_dividend
        split: if_splits hash_slot.splits bool.splits)
qed

lemma ht_insert_small:
  assumes "nmo_hash_table_insert x v t = Done (r, t')" and "\<not> over_load_factor (ht_count t) (ht_capacity t)" and "ht_capacity t \<noteq> 0"
  shows "r \<noteq> Inl NMO_ERR_NOMEM \<and> ht_capacity t' = ht_capacity t \<and> ht_count t' \<le> Suc (ht_count t)"
proof -
  have "\<not> nmo_hash_table_should_grow t" using assms(2) by (simp add: nmo_hash_table_should_grow_def)
  with assms(1,3) show ?thesis
    by (auto simp: nmo_hash_table_insert_def nmo_hash_table_dispose_value_def bindE_Done_iff eff_simps Let_def sz_add_def
        mod_less_eq_dividend split: if_splits hash_slot.splits bool.splits)
qed

lemma fill_gap_fields:
  "im_capacity (indexed_map_fill_gap d m) = im_capacity m" "im_array_capacity (indexed_map_fill_gap d m) = im_array_capacity m"
  "im_count (indexed_map_fill_gap d m) = im_count m"
  by (simp_all add: indexed_map_fill_gap_def Let_def)

lemma im_dispose_fields:
  "im_capacity (indexed_map_dispose_entry e m) = im_capacity m" "im_array_capacity (indexed_map_dispose_entry e m) = im_array_capacity m"
  "im_count (indexed_map_dispose_entry e m) = im_count m"
  by (simp_all add: indexed_map_dispose_entry_def Let_def)

lemma im_remove_small:
  assumes "nmo_indexed_map_remove x m = Done (r, m')"
  shows "im_capacity m' = im_capacity m \<and> im_array_capacity m' = im_array_capacity m \<and> im_count m' \<le> im_count m"
proof -
  obtain q where q: "indexed_map_entry x m = Done q" using assms by (auto simp: nmo_indexed_map_remove_def bindE_Done_iff)
  show ?thesis
  proof (cases q)
    case None
    with assms q show ?thesis by (simp add: nmo_indexed_map_remove_def)
  next
    case (Some p)
    obtain i d where "p = (i, d)" by (cases p)
    with assms q Some show ?thesis by (auto simp: nmo_indexed_map_remove_def Let_def fill_gap_fields im_dispose_fields)
  qed
qed

lemma ht_remove_small:
  assumes "nmo_hash_table_remove x t = Done (r, t')"
  shows "ht_capacity t' = ht_capacity t \<and> ht_count t' \<le> ht_count t"
proof -
  obtain f i where q: "nmo_hash_table_find_slot x t = Done (f, i)" using assms by (auto simp: nmo_hash_table_remove_def bindE_Done_iff)
  have d: "ht_capacity (nmo_hash_table_dispose_entry e t) = ht_capacity t" "ht_count (nmo_hash_table_dispose_entry e t) = ht_count t" for e
    by (simp_all add: nmo_hash_table_dispose_entry_def nmo_hash_table_dispose_value_def Let_def)
  show ?thesis
  proof (cases "i < 0 \<or> \<not> f")
    case True
    with assms q show ?thesis by (simp add: nmo_hash_table_remove_def)
  next
    case False
    with assms q show ?thesis by (cases "ht_slots t ! nat i") (auto simp: nmo_hash_table_remove_def Let_def d)
  qed
qed

lemma drop_id_small:
  assumes "drop_id key repo = Done repo'" and "repo_small k repo"
  shows "repo_small k repo' \<and> rp_attached_index repo' = rp_attached_index repo"
proof -
  obtain d m where m: "nmo_indexed_map_remove key (rp_id_map repo) = Done (d, m)" "repo' = repo\<lparr>rp_id_map := m\<rparr>"
    using assms(1) by (auto simp: drop_id_def bindE_Done_iff)
  from im_remove_small [OF m(1)] assms(2) show ?thesis by (simp add: m(2) repo_small_def)
qed

lemma drop_name_small:
  assumes "drop_name p repo = Done repo'" and "repo_small k repo"
  shows "repo_small k repo' \<and> rp_attached_index repo' = rp_attached_index repo"
proof (cases "name_key (rp_objects repo p)")
  case (Some s)
  then obtain d t where t: "nmo_hash_table_remove s (rp_name_table repo) = Done (d, t)" "repo' = repo\<lparr>rp_name_table := t\<rparr>"
    using assms(1) by (auto simp: drop_name_def bindE_Done_iff)
  from ht_remove_small [OF t(1)] assms(2) show ?thesis by (simp add: t(2) repo_small_def)
qed (use assms in \<open>simp add: drop_name_def\<close>)

lemma enter_name_small:
  assumes "enter_name p repo = Done (r, repo')" and "repo_small (Suc k) repo" and "ht_count (rp_name_table repo) \<le> k" and "k < 43"
  shows "r \<noteq> Inl NMO_ERR_NOMEM \<and> repo_small (Suc k) repo' \<and> rp_attached_index repo' = rp_attached_index repo"
proof (cases "name_key (rp_objects repo p)")
  case None
  with assms(1,2) show ?thesis by (auto simp: enter_name_def eff_simps)
next
  case (Some s)
  with assms(1) obtain t where t: "nmo_hash_table_insert s p (rp_name_table repo) = Done (r, t)" "repo' = repo\<lparr>rp_name_table := t\<rparr>"
    by (auto simp: enter_name_def bindE_Done_iff)
  have c: "64 \<le> ht_capacity (rp_name_table repo)" using assms(2) by (simp add: repo_small_def)
  from ht_insert_small [OF t(1) not_overloaded [OF assms(4,3) c]] c assms(2,3) show ?thesis by (simp add: t(2) repo_small_def)
qed

lemma repo_add_small:
  assumes add: "nmo_object_repository_add p repo = Done (r, repo')" and small: "repo_small k repo" "k < 43"
    and "rp_attached_index repo = None" and spec: "spec_ok (repo_abs repo)"
  shows "r \<noteq> Inl NMO_ERR_NOMEM \<and> repo_small (Suc k) repo'"
proof -
  define g where "g = give_id p repo"
  define key where "key = ob_id (rp_objects g p)"
  have g: "repo_small k g" "rp_attached_index g = None" using small assms(4) by (simp_all add: g_def repo_small_def)
  have "key \<noteq> 0" using spec_ok_give_id(2) [OF spec, of p] by (simp add: key_def g_def repo_abs_give_id [symmetric]) (simp add: repo_abs_def)
  then obtain present where p: "nmo_indexed_map_contains key (rp_id_map g) = Done present"
    using add by (auto simp: nmo_object_repository_add_def g_def [symmetric] key_def [symmetric] Let_def bindE_Done_iff)
  have up: "repo_small (Suc k) x" if "repo_small k x" for x using that by (auto simp: repo_small_def)
  show ?thesis
  proof (cases present)
    case True
    with add p \<open>key \<noteq> 0\<close> g up show ?thesis
      by (auto simp: nmo_object_repository_add_def g_def [symmetric] key_def [symmetric] Let_def eff_simps)
  next
    case False
    have c: "64 \<le> im_capacity (rp_id_map g)" "im_count (rp_id_map g) \<le> k" "im_count (rp_id_map g) < im_array_capacity (rp_id_map g)"
      "ht_count (rp_name_table g) \<le> k" using g(1) small(2) by (simp_all add: repo_small_def)
    obtain r1 m where m: "nmo_indexed_map_insert key p (rp_id_map g) = Done (r1, m)"
      using add p \<open>key \<noteq> 0\<close> False by (auto simp: nmo_object_repository_add_def g_def [symmetric] key_def [symmetric] Let_def bindE_Done_iff)
    from im_insert_small [OF m not_overloaded [OF small(2) c(2,1)]] c have m1: "r1 \<noteq> Inl NMO_ERR_NOMEM" "im_capacity m = im_capacity (rp_id_map g)"
      "im_array_capacity m = im_array_capacity (rp_id_map g)" "im_count m \<le> Suc k" by auto
    define g1 where "g1 = g\<lparr>rp_id_map := m\<rparr>"
    have g1: "repo_small (Suc k) g1" "ht_count (rp_name_table g1) \<le> k" "rp_attached_index g1 = None"
      using g m1 c(4) by (simp_all add: g1_def repo_small_def)
    show ?thesis
    proof (cases r1)
      case (Inl e)
      with add p \<open>key \<noteq> 0\<close> False m m1(1) g1(1) show ?thesis
        by (auto simp: nmo_object_repository_add_def g_def [symmetric] key_def [symmetric] g1_def [symmetric] Let_def eff_simps)
    next
      case (Inr u)
      obtain r2 g2 where n: "enter_name p g1 = Done (r2, g2)"
        using add p \<open>key \<noteq> 0\<close> False m Inr
        by (auto simp: nmo_object_repository_add_def g_def [symmetric] key_def [symmetric] g1_def [symmetric] Let_def bindE_Done_iff)
      from enter_name_small [OF n g1(1,2) small(2)] g1(3) have g2: "r2 \<noteq> Inl NMO_ERR_NOMEM" "repo_small (Suc k) g2" "rp_attached_index g2 = None"
        by auto
      have nt: "nmo_object_repository_notify_add p g2 = ok () g2" using g2(3) by (simp add: nmo_object_repository_notify_add_def notify_def)
      show ?thesis
      proof (cases r2)
        case (Inl e)
        with add p \<open>key \<noteq> 0\<close> False m Inr n g2 show ?thesis
          by (auto simp: nmo_object_repository_add_def g_def [symmetric] key_def [symmetric] g1_def [symmetric] Let_def bindE_Done_iff eff_simps
              dest: drop_id_small)
      next
        case Inr2: (Inr u2)
        with add p \<open>key \<noteq> 0\<close> False m Inr n g2 nt show ?thesis
          by (auto simp: nmo_object_repository_add_def g_def [symmetric] key_def [symmetric] g1_def [symmetric] Let_def eff_simps)
      qed
    qed
  qed
qed

lemma repo_exists:
  assumes "arena_sane a" and "arena_grants a"
  shows "\<exists>repo b. nmo_object_repository_create (\<lambda>_. True) (\<lambda>_ _. True) (\<lambda>_ _. True) objs a = Done (Some repo, b)"
proof -
  obtain m :: "(u32, obj_ref) indexed_map" and b where
    m: "nmo_indexed_map_create (\<lambda>_ _. True) (\<lambda>_ _. False) (\<lambda>_ _. 0) (Some a) 4 8 64 nmo_map_hash_uint32 compare_uint32 = Done (Some m, b)"
    using created_exists [OF assms, of 64 4 8] by fastforce
  obtain t :: "(cstring, obj_ref) hash_table" where
    t: "nmo_hash_table_create (\<lambda>_ _. True) 8 8 64 nmo_hash_string nmo_compare_string = Done (Some t)"
    using initial_capacity [of 64 thesis]
    by (fastforce simp: nmo_hash_table_create_def nmo_hash_table_allocate_storage_def eff_simps Let_def)
  from m t show ?thesis by (simp add: nmo_object_repository_create_def Let_def)
qed

lemma created_small:
  assumes "nmo_object_repository_create malloc map_alloc table_alloc objs a = Done (Some repo, b)" and "arena_sane a"
  shows "repo_small 0 repo"
  using created_repo [OF assms] by (simp add: repo_small_def)

definition plain_object :: "u32 \<Rightarrow> cstring option \<Rightarrow> nmo_object" where
  "plain_object i name = \<lparr>ob_id = i, ob_class_id = 0, ob_name = name, ob_flags = 0, ob_type_guid = \<lparr>d1 = 0, d2 = 0\<rparr>,
     ob_parent = None, ob_children = [], ob_child_capacity = 0, ob_chunk = None, ob_data = None, ob_file_index = i,
     ob_creation_flags = 0, ob_save_flags = 0\<rparr>"

theorem repository_is_two_maps_witness:
  "\<exists>a repo b rs repo' s. nmo_arena_create (\<lambda>_ _. True) (\<lambda>_ _. 0) 0 = Done (Some a)
    \<and> nmo_object_repository_create (\<lambda>_. True) (\<lambda>_ _. True) (\<lambda>_ _. True) (\<lambda>_. plain_object 0 None) a = Done (Some repo, b)
    \<and> repo_run [Add 1, Add 2, Remove 1] repo = Done (rs, repo')
    \<and> repo_conforms [Add 1, Add 2, Remove 1] (empty_spec (\<lambda>_. plain_object 0 None)) rs s
    \<and> (\<forall>key. nmo_object_repository_find_by_id key repo' = Done (sp_ids s key))"
proof -
  obtain a where a: "nmo_arena_create (\<lambda>_ _. True) (\<lambda>_ _. 0) 0 = Done (Some a)" "arena_sane a" "arena_grants a"
    by (rule default_arena_exists)
  obtain repo b where r: "nmo_object_repository_create (\<lambda>_. True) (\<lambda>_ _. True) (\<lambda>_ _. True) (\<lambda>_. plain_object 0 None) a = Done (Some repo, b)"
    using repo_exists [OF a(2,3)] by blast
  have "length [Add 1, Add 2, Remove 1] \<le> 63" by simp
  from repository_is_two_maps [OF r a(2) this] a(1) r show ?thesis by blast
qed

text \<open>A run of insertions into a new repository, step by step.\<close>

lemma first_adds:
  assumes "repo_ok (length ps) repo" "rp_attached_index repo = None" "repo_small k repo" "k + length ps \<le> 43"
    and "repo_run (map Add ps) repo = Done (rs, repo')"
  shows "Inl NMO_ERR_NOMEM \<notin> set rs \<and> repo_ok 0 repo'"
  using assms
proof (induction ps arbitrary: repo k rs)
  case (Cons p ps)
  have "repo_ok (Suc (length ps)) repo" using Cons.prems(1) by simp
  from repo_add_ok [OF this Cons.prems(2), of p] obtain r repo1 where s: "nmo_object_repository_add p repo = Done (r, repo1)"
    "repo_ok (length ps) repo1" "rp_attached_index repo1 = None" by blast
  from repo_add_small [OF s(1) Cons.prems(3) _ Cons.prems(2)] Cons.prems(1,4) have
    m: "r \<noteq> Inl NMO_ERR_NOMEM" "repo_small (Suc k) repo1" by (auto simp: repo_ok_def)
  from Cons.prems(5) s(1) obtain rs' where rs: "rs = r # rs'" "repo_run (map Add ps) repo1 = Done (rs', repo')"
    by (auto simp: bindE_Done_iff)
  from Cons.IH [OF s(2,3) m(2) _ rs(2)] Cons.prems(4) m(1) rs(1) show ?case by auto
qed simp

text \<open>
  C36: an ID that a caller chose can be the next one the repository would hand out: the insertion of an
  object without ID is then refused, and as the object keeps the ID it was given, so is every repetition.
\<close>

theorem preset_id_blocks_allocation:
  assumes "nmo_object_repository_create malloc map_alloc table_alloc objs a = Done (Some repo, b)" and "arena_sane a"
    and "ob_id (objs p) = 1" and "ob_id (objs q) = 0" and "p \<noteq> q"
  shows "\<exists>repo'. repo_run [Add p, Add q, Add q] repo
      = Done ([Inr (), Inl NMO_ERR_INVALID_STATE, Inl NMO_ERR_INVALID_STATE], repo') \<and> ob_id (rp_objects repo' q) = 1"
proof -
  note c = created_repo [OF assms(1,2)]
  have ok: "repo_ok (length [p, q, q]) repo" using c(1) by (simp add: repo_ok_def)
  from repo_run_ok [of "[Add p, Add q, Add q]" repo] ok c(2,3) obtain rs repo' where
    r: "repo_run [Add p, Add q, Add q] repo = Done (rs, repo')" "repo_conforms [Add p, Add q, Add q] (empty_spec objs) rs (repo_abs repo')"
    by (auto simp del: repo_run.simps)
  have "repo_run (map Add [p, q, q]) repo = Done (rs, repo')" using r(1) by (simp del: repo_run.simps)
  from first_adds [OF ok c(2) created_small [OF assms(1,2)] _ this] have m: "Inl NMO_ERR_NOMEM \<notin> set rs" by simp
  from r(2) m assms(3-5) have "rs = [Inr (), Inl NMO_ERR_INVALID_STATE, Inl NMO_ERR_INVALID_STATE]
    \<and> ob_id (sp_objects (repo_abs repo') q) = 1"
    by (auto elim!: repo_conforms_ConsE repo_conforms_NilE
        simp: empty_spec_def spec_give_id_def spec_enter_def Let_def split: if_splits)
  with r(1) show ?thesis by (simp add: repo_abs_def)
qed

theorem preset_id_blocks_allocation_witness:
  "\<exists>a repo b repo'. nmo_arena_create (\<lambda>_ _. True) (\<lambda>_ _. 0) 0 = Done (Some a)
    \<and> nmo_object_repository_create (\<lambda>_. True) (\<lambda>_ _. True) (\<lambda>_ _. True) (\<lambda>p. plain_object (if p = 10 then 1 else 0) None) a = Done (Some repo, b)
    \<and> repo_run [Add 10, Add 20, Add 20] repo = Done ([Inr (), Inl NMO_ERR_INVALID_STATE, Inl NMO_ERR_INVALID_STATE], repo')"
proof -
  let ?objs = "\<lambda>p :: obj_ref. plain_object (if p = 10 then 1 else 0) None"
  obtain a where a: "nmo_arena_create (\<lambda>_ _. True) (\<lambda>_ _. 0) 0 = Done (Some a)" "arena_sane a" "arena_grants a"
    by (rule default_arena_exists)
  obtain repo b where r: "nmo_object_repository_create (\<lambda>_. True) (\<lambda>_ _. True) (\<lambda>_ _. True) ?objs a = Done (Some repo, b)"
    using repo_exists [OF a(2,3)] by blast
  have "ob_id (?objs 10) = 1" "ob_id (?objs 20) = 0" "(10 :: obj_ref) \<noteq> 20" by (simp_all add: plain_object_def)
  from preset_id_blocks_allocation [OF r a(2) this] a(1) r show ?thesis by blast
qed

text \<open>
  The name table has one entry per name. When two objects have the same name, the removal of the
  first takes the entry away, and the second, still in the repository, is not found by its name.
\<close>

theorem removal_hides_namesake:
  assumes "nmo_object_repository_create malloc map_alloc table_alloc objs a = Done (Some repo, b)" and "arena_sane a"
    and "name_key (objs p) = Some name" and "name_key (objs q) = Some name"
    and "ob_id (objs p) \<noteq> 0" and "ob_id (objs q) \<noteq> 0" and "ob_id (objs p) \<noteq> ob_id (objs q)"
  shows "\<exists>repo'. repo_run [Add p, Add q, Remove (ob_id (objs p))] repo = Done ([Inr (), Inr (), Inr ()], repo')
    \<and> nmo_object_repository_find_by_id (ob_id (objs q)) repo' = Done (Some q)
    \<and> nmo_object_repository_find_by_name name repo' = Done None"
proof -
  note c = created_repo [OF assms(1,2)]
  have ok: "repo_ok (length [p, q]) repo" "repo_ok (length [Add p, Add q, Remove (ob_id (objs p))]) repo" using c(1) by (simp_all add: repo_ok_def)
  from repo_run_ok [OF ok(2) c(2)] c(3) obtain rs repo' where
    r: "repo_run [Add p, Add q, Remove (ob_id (objs p))] repo = Done (rs, repo')" "repo_ok 0 repo'"
      "repo_conforms [Add p, Add q, Remove (ob_id (objs p))] (empty_spec objs) rs (repo_abs repo')"
    by (auto simp del: repo_run.simps)
  from r(1) obtain rs2 repo2 where r2: "repo_run (map Add [p, q]) repo = Done (rs2, repo2)" "rs = rs2 @ drop 2 rs" "length rs2 = 2"
    by (auto simp: bindE_Done_iff)
  from first_adds [OF ok(1) c(2) created_small [OF assms(1,2)] _ r2(1)] have m: "Inl NMO_ERR_NOMEM \<notin> set rs2" by simp
  have "rs = [Inr (), Inr (), Inr ()] \<and> sp_ids (repo_abs repo') (ob_id (objs q)) = Some q \<and> sp_names (repo_abs repo') name = None"
    using r(3) m r2(2,3) assms(3-7)
    by (auto elim!: repo_conforms_ConsE repo_conforms_NilE
        simp: empty_spec_def spec_give_id_def spec_enter_def spec_leave_def Let_def numeral_2_eq_2 length_Suc_conv split: if_splits)
  moreover note w = repo_okD [OF r(2)]
  ultimately show ?thesis using r(1) im_get_law [OF w(1,2)] get_law [OF w(3,4)]
    by (simp add: repo_abs_def nmo_object_repository_find_by_id_def nmo_object_repository_find_by_name_def del: repo_run.simps)
qed

theorem removal_hides_namesake_witness:
  "\<exists>a name repo b repo'. nmo_arena_create (\<lambda>_ _. True) (\<lambda>_ _. 0) 0 = Done (Some a)
    \<and> nmo_object_repository_create (\<lambda>_. True) (\<lambda>_ _. True) (\<lambda>_ _. True) (\<lambda>p. plain_object (if p = 10 then 5 else 6) (Some name)) a = Done (Some repo, b)
    \<and> repo_run [Add 10, Add 20, Remove 5] repo = Done ([Inr (), Inr (), Inr ()], repo')
    \<and> nmo_object_repository_find_by_id 6 repo' = Done (Some 20) \<and> nmo_object_repository_find_by_name name repo' = Done None"
proof -
  define name where "name = Abs_cstring [0x41]"
  let ?objs = "\<lambda>p :: obj_ref. plain_object (if p = 10 then 5 else 6) (Some name)"
  have "string_bytes name = [0x41]" by (simp add: name_def Abs_cstring_inverse)
  then have n: "name_key (?objs p) = Some name" for p by (simp add: name_key_def plain_object_def string_empty_def)
  obtain a where a: "nmo_arena_create (\<lambda>_ _. True) (\<lambda>_ _. 0) 0 = Done (Some a)" "arena_sane a" "arena_grants a"
    by (rule default_arena_exists)
  obtain repo b where r: "nmo_object_repository_create (\<lambda>_. True) (\<lambda>_ _. True) (\<lambda>_ _. True) ?objs a = Done (Some repo, b)"
    using repo_exists [OF a(2,3)] by blast
  have i: "ob_id (?objs 10) = 5" "ob_id (?objs 20) = 6" by (simp_all add: plain_object_def)
  then have "ob_id (?objs 10) \<noteq> 0" "ob_id (?objs 20) \<noteq> 0" "ob_id (?objs 10) \<noteq> ob_id (?objs 20)" by simp_all
  from removal_hides_namesake [OF r a(2) n n this] a(1) r show ?thesis unfolding i by blast
qed

end
