(* ===== verification/Header1.thy ===== *)
theory Header1
  imports FileHeader Hash Chunk
begin

text \<open>
  The table of objects, plugins and included files of a file, \<^verbatim>\<open>src/format/header1.c\<close>. The input is the
  list of its bytes; the position in it and the arena are the state of the parser. A name in memory is
  the C string behind its pointer, so the bytes of a name end at the first zero among them. What a
  failed parse leaves in the structure is not kept.
\<close>

section \<open>Data\<close>

record nmo_object_desc =
  od_file_id :: u32
  od_class_id :: u32
  od_file_index :: u32
  od_name :: "cstring option"
  od_flags :: u32

record nmo_plugin_dep =
  pd_guid :: nmo_guid
  pd_category :: u32
  pd_version :: u32

record nmo_included_file_desc =
  if_name :: "cstring option"
  if_data_size :: u32

record nmo_header1 =
  h1_object_count :: u32
  h1_objects :: "nmo_object_desc list option"
  h1_plugin_dep_count :: u32
  h1_plugin_deps :: "nmo_plugin_dep list option"
  h1_included_file_count :: u32
  h1_included_files :: "nmo_included_file_desc list option"

definition NMO_OBJECT_REFERENCE_FLAG :: u32 where "NMO_OBJECT_REFERENCE_FLAG = 0x00800000"

definition sizeof_object_desc :: nat where "sizeof_object_desc = 32"
definition sizeof_plugin_dep :: nat where "sizeof_plugin_dep = 16"
definition sizeof_included_file_desc :: nat where "sizeof_included_file_desc = 16"

definition string_of :: "u8 list \<Rightarrow> cstring" where
  "string_of bs = Abs_cstring (takeWhile (\<lambda>b. b \<noteq> 0) bs)"

section \<open>Parsing\<close>

type_synonym 'a h1res = "('a, nat \<times> arena) cres"

definition skip_u32 :: "u8 list \<Rightarrow> nat \<times> arena \<Rightarrow> unit h1res" where
  "skip_u32 data = (\<lambda>(pos, a).
     if \<not> nmo_check_buffer_bounds pos 4 (length data) then fail NMO_ERR_BUFFER_OVERRUN (pos, a)
     else ok () (sz_add pos 4, a))"

definition load_field :: "u8 list \<Rightarrow> nat \<times> arena \<Rightarrow> u32 h1res" where
  "load_field data = (\<lambda>(pos, a).
     if \<not> nmo_check_buffer_bounds pos 4 (length data) then fail NMO_ERR_BUFFER_OVERRUN (pos, a)
     else bindE (load_u32 data pos) (\<lambda>d. ok d (sz_add pos 4, a)))"

definition read_chars :: "u8 list \<Rightarrow> nat \<Rightarrow> nat \<times> arena \<Rightarrow> u8 list h1res" where
  "read_chars data n = (\<lambda>(pos, a).
     if \<not> nmo_check_buffer_bounds pos n (length data) then fail NMO_ERR_BUFFER_OVERRUN (pos, a)
     else bindE (copy_out data pos n) (\<lambda>bs. ok bs (sz_add pos n, a)))"

definition take_memory :: "nat \<Rightarrow> nat \<Rightarrow> nat \<times> arena \<Rightarrow> unit h1res" where
  "take_memory n alignment = (\<lambda>(pos, a).
     bindE (nmo_arena_alloc n alignment a) (\<lambda>(r, a). case r of
       None \<Rightarrow> fail NMO_ERR_NOMEM (pos, a)
     | Some _ \<Rightarrow> ok () (pos, a)))"

definition parse_object :: "u8 list \<Rightarrow> nat \<times> arena \<Rightarrow> nmo_object_desc h1res" where
  "parse_object data s =
     bindR (load_field data s) (\<lambda>file_id s.
     bindR (load_field data s) (\<lambda>class_id s.
     bindR (load_field data s) (\<lambda>file_index s.
     bindR (load_field data s) (\<lambda>name_len s.
     bindR (take_memory (unat (name_len + 1)) 1 s) (\<lambda>_ s.
     bindR (if name_len > 0 then read_chars data (unat name_len) s else ok [] s) (\<lambda>name.
       ok \<lparr>od_file_id = file_id AND NOT NMO_OBJECT_REFERENCE_FLAG, od_class_id = class_id, od_file_index = file_index,
           od_name = Some (string_of name),
           od_flags = (if file_id AND NMO_OBJECT_REFERENCE_FLAG \<noteq> 0 then NMO_OBJECT_REFERENCE_FLAG else 0)\<rparr>))))))"

fun parse_object_list :: "nat \<Rightarrow> u8 list \<Rightarrow> nat \<times> arena \<Rightarrow> nmo_object_desc list h1res" where
  "parse_object_list 0 data s = ok [] s"
| "parse_object_list (Suc n) data s =
     bindR (parse_object data s) (\<lambda>obj s. bindR (parse_object_list n data s) (\<lambda>objs. ok (obj # objs)))"

definition parse_objects :: "u8 list \<Rightarrow> u32 \<Rightarrow> nat \<times> arena \<Rightarrow> nmo_object_desc list option h1res" where
  "parse_objects data object_count s =
     (if object_count = 0 then ok None s
      else bindR (take_memory (sz_mul (unat object_count) sizeof_object_desc) 8 s) (\<lambda>_ s.
           bindR (parse_object_list (unat object_count) data s) (\<lambda>objs. ok (Some objs))))"

text \<open>The first pass over the categories counts their plugins in 32 bits.\<close>

fun count_plugins :: "nat \<Rightarrow> u8 list \<Rightarrow> u32 \<Rightarrow> nat \<times> arena \<Rightarrow> u32 h1res" where
  "count_plugins 0 data tot s = ok tot s"
| "count_plugins (Suc n) data tot s =
     bindR (skip_u32 data s) (\<lambda>_ s.
     bindR (load_field data s) (\<lambda>guid_count (pos, a).
       if \<not> nmo_check_buffer_bounds pos (unat (guid_count * 8)) (length data) then fail NMO_ERR_BUFFER_OVERRUN (pos, a)
       else count_plugins n data (tot + guid_count) (sz_add pos (unat (guid_count * 8)), a)))"

text \<open>The second pass fills the array of \<open>tot\<close> entries; \<open>deps\<close> are those filled so far.\<close>

fun parse_guids :: "nat \<Rightarrow> u8 list \<Rightarrow> nat \<Rightarrow> u32 \<Rightarrow> nmo_plugin_dep list \<Rightarrow> nat \<times> arena \<Rightarrow> nmo_plugin_dep list h1res" where
  "parse_guids 0 data tot category deps s = ok deps s"
| "parse_guids (Suc n) data tot category deps (pos, a) =
     (if \<not> nmo_check_buffer_bounds pos 8 (length data) then fail NMO_ERR_BUFFER_OVERRUN (pos, a)
      else if length deps \<ge> tot then Undefined
      else bindE (load_u32 data pos) (\<lambda>g1. bindE (load_u32 data (sz_add pos 4)) (\<lambda>g2.
        parse_guids n data tot category
          (deps @ [\<lparr>pd_guid = \<lparr>d1 = g1, d2 = g2\<rparr>, pd_category = category, pd_version = 0\<rparr>])
          (sz_add (sz_add pos 4) 4, a))))"

fun parse_categories :: "nat \<Rightarrow> u8 list \<Rightarrow> nat \<Rightarrow> nmo_plugin_dep list \<Rightarrow> nat \<times> arena \<Rightarrow> nmo_plugin_dep list h1res" where
  "parse_categories 0 data tot deps s = ok deps s"
| "parse_categories (Suc n) data tot deps s =
     bindR (load_field data s) (\<lambda>category s.
     bindR (load_field data s) (\<lambda>guid_count s.
     bindR (parse_guids (unat guid_count) data tot category deps s) (\<lambda>deps s.
       parse_categories n data tot deps s)))"

definition parse_plugin_deps :: "u8 list \<Rightarrow> nat \<times> arena \<Rightarrow> (u32 \<times> nmo_plugin_dep list option) h1res" where
  "parse_plugin_deps data s =
     bindR (load_field data s) (\<lambda>category_count s.
       if category_count = 0 then ok (0, None) s
       else let saved_pos = fst s in
         bindR (count_plugins (unat category_count) data 0 s) (\<lambda>total_plugins (_, a).
           if total_plugins = 0 then ok (0, None) (saved_pos, a)
           else bindR (take_memory (sz_mul (unat total_plugins) sizeof_plugin_dep) 8 (saved_pos, a)) (\<lambda>_ s.
                bindR (parse_categories (unat category_count) data (unat total_plugins) [] s) (\<lambda>deps.
                  ok (total_plugins, Some deps)))))"

text \<open>The table of included files has an end of its own, which these checks go by.\<close>

definition table_u32 :: "u8 list \<Rightarrow> nat \<Rightarrow> nat \<times> arena \<Rightarrow> u32 h1res" where
  "table_u32 data table_end = (\<lambda>(pos, a).
     if sz_add pos 4 > table_end then fail NMO_ERR_BUFFER_OVERRUN (pos, a)
     else bindE (load_u32 data pos) (\<lambda>d. ok d (sz_add pos 4, a)))"

definition table_name :: "u8 list \<Rightarrow> nat \<Rightarrow> u32 \<Rightarrow> nat \<times> arena \<Rightarrow> cstring h1res" where
  "table_name data table_end name_len s =
     (if name_len > 0 then
        if sz_add (fst s) (unat name_len) > table_end then fail NMO_ERR_BUFFER_OVERRUN s
        else bindR (take_memory (unat (name_len + 1)) 1 s) (\<lambda>_ (pos, a).
          bindE (copy_out data pos (unat name_len)) (\<lambda>bs. ok (string_of bs) (sz_add pos (unat name_len), a)))
      else bindR (take_memory 1 1 s) (\<lambda>_. ok (string_of [])))"

fun parse_file_list :: "nat \<Rightarrow> u8 list \<Rightarrow> nat \<Rightarrow> nat \<times> arena \<Rightarrow> nmo_included_file_desc list h1res" where
  "parse_file_list 0 data table_end s = ok [] s"
| "parse_file_list (Suc n) data table_end s =
     bindR (table_u32 data table_end s) (\<lambda>name_len s.
     bindR (table_name data table_end name_len s) (\<lambda>name s.
     bindR (table_u32 data table_end s) (\<lambda>data_size s.
     bindR (parse_file_list n data table_end s) (\<lambda>files.
       ok (\<lparr>if_name = Some name, if_data_size = data_size\<rparr> # files)))))"

definition parse_included_files :: "u8 list \<Rightarrow> nat \<times> arena \<Rightarrow> (u32 \<times> nmo_included_file_desc list option) h1res" where
  "parse_included_files data = (\<lambda>(pos, a).
     if sz_add pos 8 \<le> length data then
       bindE (load_u32 data pos) (\<lambda>included_count.
       bindE (load_u32 data (sz_add pos 4)) (\<lambda>table_size.
         let pos = sz_add (sz_add pos 4) 4; table_end = sz_add pos (unat table_size) in
         if table_size > 0 \<and> table_end > length data then fail NMO_ERR_BUFFER_OVERRUN (pos, a)
         else if included_count = 0 \<or> table_size = 0 then ok (included_count, None) (table_end, a)
         else bindR (take_memory (sz_mul sizeof_included_file_desc (unat included_count)) 8 (pos, a)) (\<lambda>_ s.
              bindR (parse_file_list (unat included_count) data table_end s) (\<lambda>files (_, a).
                ok (included_count, Some files) (table_end, a)))))
     else ok (0, None) (pos, a))"

text \<open>The count of objects comes from the file header.\<close>

definition nmo_header1_parse :: "u8 list \<Rightarrow> u32 \<Rightarrow> arena \<Rightarrow> (nmo_header1, arena) cres" where
  "nmo_header1_parse data object_count a =
     bindE (
       bindR (parse_objects data object_count (0, a)) (\<lambda>objects s.
       bindR (if fst s < length data then parse_plugin_deps data s else ok (0, None) s) (\<lambda>(dep_count, deps) s.
       bindR (parse_included_files data s) (\<lambda>(file_count, files).
         ok \<lparr>h1_object_count = object_count, h1_objects = objects, h1_plugin_dep_count = dep_count,
             h1_plugin_deps = deps, h1_included_file_count = file_count, h1_included_files = files\<rparr>))))
     (\<lambda>(r, _, a). Done (r, a))"

section \<open>Writing\<close>

text \<open>The position and the buffer are the state; a store is preceded by its check.\<close>

definition put_bytes :: "u8 list \<Rightarrow> nat \<times> u8 list \<Rightarrow> (unit, nat \<times> u8 list) cres" where
  "put_bytes bs = (\<lambda>(pos, buffer).
     if sz_add pos (length bs) > length buffer then fail NMO_ERR_BUFFER_OVERRUN (pos, buffer)
     else if pos + length bs \<le> length buffer then ok () (sz_add pos (length bs), mem_blit buffer pos bs)
     else Undefined)"

definition name_length :: "cstring option \<Rightarrow> u32" where
  "name_length name = (case name of None \<Rightarrow> 0 | Some s \<Rightarrow> word_of_nat (length (string_bytes s)))"

definition put_name :: "cstring option \<Rightarrow> nat \<times> u8 list \<Rightarrow> (unit, nat \<times> u8 list) cres" where
  "put_name name s =
     bindR (put_bytes (dword_bytes (name_length name)) s) (\<lambda>_ s.
       case name of
         None \<Rightarrow> ok () s
       | Some str \<Rightarrow>
           if name_length name > 0 then put_bytes (take (unat (name_length name)) (string_bytes str)) s else ok () s)"

definition serialize_object :: "nmo_object_desc \<Rightarrow> nat \<times> u8 list \<Rightarrow> (unit, nat \<times> u8 list) cres" where
  "serialize_object obj s =
     (let file_id = (if od_flags obj AND NMO_OBJECT_REFERENCE_FLAG \<noteq> 0
                     then od_file_id obj OR NMO_OBJECT_REFERENCE_FLAG else od_file_id obj)
      in bindR (put_bytes (dword_bytes file_id) s) (\<lambda>_ s.
         bindR (put_bytes (dword_bytes (od_class_id obj)) s) (\<lambda>_ s.
         bindR (put_bytes (dword_bytes (od_file_index obj)) s) (\<lambda>_ s.
         put_name (od_name obj) s))))"

fun put_each :: "('x \<Rightarrow> 's \<Rightarrow> (unit, 's) cres) \<Rightarrow> 'x list \<Rightarrow> 's \<Rightarrow> (unit, 's) cres" where
  "put_each f [] s = ok () s"
| "put_each f (x # xs) s = bindR (f x s) (\<lambda>_. put_each f xs)"

definition serialize_objects :: "nmo_object_desc list \<Rightarrow> nat \<times> u8 list \<Rightarrow> (unit, nat \<times> u8 list) cres" where
  "serialize_objects = put_each serialize_object"

text \<open>\<^verbatim>\<open>category_counts[cat]\<close>, for the five categories.\<close>

definition category_count :: "nmo_plugin_dep list \<Rightarrow> u32 \<Rightarrow> u32" where
  "category_count deps cat = word_of_nat (length (filter (\<lambda>d. pd_category d = cat) deps))"

definition plugin_categories :: "nmo_plugin_dep list \<Rightarrow> u32 list" where
  "plugin_categories deps = filter (\<lambda>cat. category_count deps cat > 0) [0, 1, 2, 3, 4]"

definition serialize_guid :: "nmo_plugin_dep \<Rightarrow> nat \<times> u8 list \<Rightarrow> (unit, nat \<times> u8 list) cres" where
  "serialize_guid dep = put_bytes (dword_bytes (d1 (pd_guid dep)) @ dword_bytes (d2 (pd_guid dep)))"

definition serialize_category :: "nmo_plugin_dep list \<Rightarrow> u32 \<Rightarrow> nat \<times> u8 list \<Rightarrow> (unit, nat \<times> u8 list) cres" where
  "serialize_category deps cat s =
     bindR (put_bytes (dword_bytes cat) s) (\<lambda>_ s.
     bindR (put_bytes (dword_bytes (category_count deps cat)) s) (\<lambda>_ s.
     put_each serialize_guid (filter (\<lambda>d. pd_category d = cat) deps) s))"

definition serialize_plugin_deps :: "nmo_plugin_dep list \<Rightarrow> nat \<times> u8 list \<Rightarrow> (unit, nat \<times> u8 list) cres" where
  "serialize_plugin_deps deps s =
     (if deps = [] then put_bytes (dword_bytes 0) s
      else bindR (put_bytes (dword_bytes (word_of_nat (length (plugin_categories deps)))) s) (\<lambda>_ s.
        put_each (serialize_category deps) (plugin_categories deps) s))"

definition serialize_file :: "nmo_included_file_desc \<Rightarrow> nat \<times> u8 list \<Rightarrow> (unit, nat \<times> u8 list) cres" where
  "serialize_file f s = bindR (put_name (if_name f) s) (\<lambda>_ s. put_bytes (dword_bytes (if_data_size f)) s)"

text \<open>\<^verbatim>\<open>block_size\<close>, which the sizes of the entries add up to.\<close>

fun add_sizes :: "nat \<Rightarrow> nat list \<Rightarrow> nat" where
  "add_sizes tot [] = tot"
| "add_sizes tot (n # ns) = add_sizes (sz_add tot n) ns"

definition file_sizes :: "nmo_included_file_desc list \<Rightarrow> nat list" where
  "file_sizes files = concat (map (\<lambda>f. [4, unat (name_length (if_name f)), 4]) files)"

text \<open>The first \<open>n\<close> entries of an array.\<close>

definition entries :: "u32 \<Rightarrow> 'a list option \<Rightarrow> 'a list eff" where
  "entries n p =
     (if n = 0 then Done []
      else case p of
        None \<Rightarrow> Undefined
      | Some xs \<Rightarrow> if unat n \<le> length xs then Done (take (unat n) xs) else Undefined)"

definition calculate_serialize_size :: "nmo_object_desc list \<Rightarrow> nmo_plugin_dep list \<Rightarrow> nmo_included_file_desc list \<Rightarrow> nat" where
  "calculate_serialize_size objects deps files =
     add_sizes 0 (concat (map (\<lambda>obj. [4, 4, 4, 4, unat (name_length (od_name obj))]) objects) @ [4]
       @ concat (map (\<lambda>cat. [4, 4, unat (category_count deps cat * 8)]) (plugin_categories deps)) @ [4, 4]
       @ file_sizes files)"

definition nmo_header1_serialize :: "nmo_header1 \<Rightarrow> arena \<Rightarrow> (u8 list, arena) cres" where
  "nmo_header1_serialize h a =
     bindE (entries (h1_object_count h) (h1_objects h)) (\<lambda>objects.
     bindE (entries (h1_plugin_dep_count h) (h1_plugin_deps h)) (\<lambda>deps.
     bindE (entries (h1_included_file_count h) (h1_included_files h)) (\<lambda>files.
       let buffer_size = calculate_serialize_size objects deps files
       in bindE (nmo_arena_alloc buffer_size 1 a) (\<lambda>(r, a). case r of
            None \<Rightarrow> fail NMO_ERR_NOMEM a
          | Some rg \<Rightarrow>
              let buffer = take buffer_size (bytes_of_dwords (fresh_dwords rg a (Suc (buffer_size div 4))))
              in bindE (
                   bindR (serialize_objects objects (0, buffer)) (\<lambda>_ s.
                   bindR (serialize_plugin_deps deps s) (\<lambda>_ s.
                   bindR (put_bytes (dword_bytes (h1_included_file_count h)
                            @ dword_bytes (word_of_nat (add_sizes 0 (file_sizes files)))) s) (\<lambda>_ s.
                   put_each serialize_file files s))))
                 (\<lambda>(r, pos, buffer). case r of
                   Inl e \<Rightarrow> fail e a
                 | Inr _ \<Rightarrow> ok (take pos buffer) a)))))"

definition nmo_header1_free :: "nmo_header1 \<Rightarrow> nmo_header1" where
  "nmo_header1_free h =
     \<lparr>h1_object_count = 0, h1_objects = None, h1_plugin_dep_count = 0, h1_plugin_deps = None,
      h1_included_file_count = 0, h1_included_files = None\<rparr>"

end
