(* ===== verification/Header1Spec.thy ===== *)
theory Header1Spec
  imports Header1
begin

text \<open>
  The format of the table as a list of bytes: what \<^verbatim>\<open>nmo_header1_serialize\<close> stores, the size it computes in
  advance, and what \<^verbatim>\<open>nmo_header1_parse\<close> makes of it.
\<close>

section \<open>The format\<close>

definition name_bytes :: "cstring option \<Rightarrow> u8 list" where
  "name_bytes name = (case name of None \<Rightarrow> [] | Some s \<Rightarrow> string_bytes s)"

definition object_bytes :: "nmo_object_desc \<Rightarrow> u8 list" where
  "object_bytes obj =
     dword_bytes (if od_flags obj AND NMO_OBJECT_REFERENCE_FLAG \<noteq> 0
                  then od_file_id obj OR NMO_OBJECT_REFERENCE_FLAG else od_file_id obj)
     @ dword_bytes (od_class_id obj) @ dword_bytes (od_file_index obj)
     @ dword_bytes (name_length (od_name obj)) @ name_bytes (od_name obj)"

definition guid_bytes_of :: "nmo_plugin_dep \<Rightarrow> u8 list" where
  "guid_bytes_of dep = dword_bytes (d1 (pd_guid dep)) @ dword_bytes (d2 (pd_guid dep))"

definition of_category :: "nmo_plugin_dep list \<Rightarrow> u32 \<Rightarrow> nmo_plugin_dep list" where
  "of_category deps cat = filter (\<lambda>d. pd_category d = cat) deps"

definition category_bytes :: "nmo_plugin_dep list \<Rightarrow> u32 \<Rightarrow> u8 list" where
  "category_bytes deps cat =
     dword_bytes cat @ dword_bytes (category_count deps cat) @ concat (map guid_bytes_of (of_category deps cat))"

definition plugin_bytes :: "nmo_plugin_dep list \<Rightarrow> u8 list" where
  "plugin_bytes deps =
     dword_bytes (word_of_nat (length (plugin_categories deps))) @ concat (map (category_bytes deps) (plugin_categories deps))"

definition file_bytes :: "nmo_included_file_desc \<Rightarrow> u8 list" where
  "file_bytes f = dword_bytes (name_length (if_name f)) @ name_bytes (if_name f) @ dword_bytes (if_data_size f)"

definition header1_bytes :: "nmo_object_desc list \<Rightarrow> nmo_plugin_dep list \<Rightarrow> nmo_included_file_desc list \<Rightarrow> u8 list" where
  "header1_bytes objects deps files =
     concat (map object_bytes objects) @ plugin_bytes deps
     @ dword_bytes (word_of_nat (length files)) @ dword_bytes (word_of_nat (length (concat (map file_bytes files))))
     @ concat (map file_bytes files)"

text \<open>
  What a file keeps of a header: an object that is only a reference has the flag and not the bit in
  its ID, a missing name is empty, plugins of the five categories are grouped by category and have no
  version, and an empty table is NULL.
\<close>

definition kept_name :: "cstring option \<Rightarrow> cstring option" where
  "kept_name name = Some (string_of (name_bytes name))"

definition kept_object :: "nmo_object_desc \<Rightarrow> nmo_object_desc" where
  "kept_object obj = obj\<lparr>od_file_id := od_file_id obj AND NOT NMO_OBJECT_REFERENCE_FLAG, od_name := kept_name (od_name obj),
     od_flags := (if (od_flags obj OR od_file_id obj) AND NMO_OBJECT_REFERENCE_FLAG \<noteq> 0 then NMO_OBJECT_REFERENCE_FLAG else 0)\<rparr>"

definition kept_deps :: "nmo_plugin_dep list \<Rightarrow> nmo_plugin_dep list" where
  "kept_deps deps = map (pd_version_update (\<lambda>_. 0)) (concat (map (of_category deps) [0, 1, 2, 3, 4]))"

definition kept_file :: "nmo_included_file_desc \<Rightarrow> nmo_included_file_desc" where
  "kept_file f = f\<lparr>if_name := kept_name (if_name f)\<rparr>"

definition table :: "'a list \<Rightarrow> 'a list option" where
  "table xs = (if xs = [] then None else Some xs)"

definition kept_header1 :: "nmo_object_desc list \<Rightarrow> nmo_plugin_dep list \<Rightarrow> nmo_included_file_desc list \<Rightarrow> nmo_header1" where
  "kept_header1 objects deps files =
     \<lparr>h1_object_count = word_of_nat (length objects), h1_objects = table (map kept_object objects),
      h1_plugin_dep_count = word_of_nat (length (kept_deps deps)), h1_plugin_deps = table (kept_deps deps),
      h1_included_file_count = word_of_nat (length files), h1_included_files = table (map kept_file files)\<rparr>"

subsection \<open>Writing it\<close>

definition emits :: "(nat \<times> u8 list \<Rightarrow> (unit, nat \<times> u8 list) cres) \<Rightarrow> u8 list \<Rightarrow> bool" where
  "emits f bs \<longleftrightarrow> (\<forall>pos buf. pos + length bs \<le> length buf \<longrightarrow> length buf < 2 ^ 63 \<longrightarrow>
     f (pos, buf) = ok () (pos + length bs, mem_blit buf pos bs))"

lemma emitsD:
  "emits f bs \<Longrightarrow> pos + length bs \<le> length buf \<Longrightarrow> length buf < 2 ^ 63 \<Longrightarrow>
     f (pos, buf) = ok () (pos + length bs, mem_blit buf pos bs)"
  by (simp add: emits_def)

lemma blit_blit: "pos + length xs + length ys \<le> length buf \<Longrightarrow>
    mem_blit (mem_blit buf pos xs) (pos + length xs) ys = mem_blit buf pos (xs @ ys)"
  by (simp add: mem_blit_def ac_simps)

lemma blit_nil: "mem_blit buf pos [] = buf"
  by (simp add: mem_blit_def)

lemma emits_put: "emits (put_bytes bs) bs"
  by (simp add: emits_def put_bytes_def sz_add_small)

lemma emits_bind:
  assumes "emits f xs" and "emits g ys"
  shows "emits (\<lambda>s. bindR (f s) (\<lambda>_. g)) (xs @ ys)"
  unfolding emits_def
proof (intro allI impI)
  fix pos and buf :: "u8 list" assume "pos + length (xs @ ys) \<le> length buf" "length buf < 2 ^ 63"
  then show "bindR (f (pos, buf)) (\<lambda>_. g) = ok () (pos + length (xs @ ys), mem_blit buf pos (xs @ ys))"
    using emitsD [OF assms(1), of pos buf] emitsD [OF assms(2), of "pos + length xs" "mem_blit buf pos xs"]
    by (simp add: blit_blit ac_simps)
qed

lemma emits_nothing: "emits (ok ()) []"
  by (simp add: emits_def blit_nil)

lemma emits_each: "(\<And>x. x \<in> set xs \<Longrightarrow> emits (f x) (g x)) \<Longrightarrow> emits (put_each f xs) (concat (map g xs))"
proof (induction xs)
  case Nil
  have "put_each f [] = ok ()" by (simp add: fun_eq_iff)
  then show ?case by (simp add: emits_nothing)
next
  case (Cons x xs)
  have "put_each f (x # xs) = (\<lambda>s. bindR (f x s) (\<lambda>_. put_each f xs))" by (simp add: fun_eq_iff)
  with Cons emits_bind show ?case by simp
qed

lemma name_length_bytes: "length (name_bytes name) < 2 ^ 32 \<Longrightarrow> unat (name_length name) = length (name_bytes name)"
  by (cases name) (simp_all add: name_length_def name_bytes_def unat_of_nat take_bit_nat_eq_self)

lemma name_length_zero: "length (name_bytes name) < 2 ^ 32 \<Longrightarrow> 0 < name_length name \<longleftrightarrow> name_bytes name \<noteq> []"
  using name_length_bytes [of name] by (auto simp: word_greater_zero_iff unat_eq_0)

lemma emits_name:
  assumes "length (name_bytes name) < 2 ^ 32"
  shows "emits (put_name name) (dword_bytes (name_length name) @ name_bytes name)"
proof -
  have "emits (\<lambda>s. case name of None \<Rightarrow> ok () s
      | Some str \<Rightarrow> if name_length name > 0 then put_bytes (take (unat (name_length name)) (string_bytes str)) s else ok () s)
    (name_bytes name)"
    using name_length_zero [OF assms] name_length_bytes [OF assms]
    by (cases name; cases "name_bytes name = []")
      (simp_all add: emits_nothing emits_put name_bytes_def)
  from emits_bind [OF emits_put this] show ?thesis by (simp add: put_name_def [abs_def])
qed


lemma emits_object:
  assumes "length (name_bytes (od_name obj)) < 2 ^ 32"
  shows "emits (serialize_object obj) (object_bytes obj)"
  unfolding serialize_object_def [abs_def] object_bytes_def Let_def
  by (intro emits_bind emits_put emits_name assms)

lemma emits_guid: "emits (serialize_guid dep) (guid_bytes_of dep)"
  by (simp add: serialize_guid_def guid_bytes_of_def emits_put)

lemma emits_category: "emits (serialize_category deps cat) (category_bytes deps cat)"
  unfolding serialize_category_def [abs_def] category_bytes_def of_category_def
  by (intro emits_bind emits_put emits_each emits_guid)

lemma emits_plugins: "emits (serialize_plugin_deps deps) (plugin_bytes deps)"
proof (cases "deps = []")
  case True
  then show ?thesis by (simp add: serialize_plugin_deps_def [abs_def] plugin_bytes_def plugin_categories_def category_count_def emits_put)
next
  case False
  then have "serialize_plugin_deps deps = (\<lambda>s. bindR (put_bytes (dword_bytes (word_of_nat (length (plugin_categories deps)))) s)
      (\<lambda>_. put_each (serialize_category deps) (plugin_categories deps)))"
    by (simp add: serialize_plugin_deps_def [abs_def])
  then show ?thesis unfolding plugin_bytes_def
    by (simp del: put_each.simps) (intro emits_bind emits_put emits_each emits_category)
qed

lemma emits_file:
  assumes "length (name_bytes (if_name f)) < 2 ^ 32"
  shows "emits (serialize_file f) (file_bytes f)"
proof -
  have "emits (serialize_file f) ((dword_bytes (name_length (if_name f)) @ name_bytes (if_name f)) @ dword_bytes (if_data_size f))"
    unfolding serialize_file_def [abs_def] by (intro emits_bind emits_put emits_name assms)
  then show ?thesis by (simp add: file_bytes_def)
qed

text \<open>The sizes computed in advance.\<close>

lemma add_sizes_sum: "n + sum_list ns < 2 ^ 64 \<Longrightarrow> add_sizes n ns = n + sum_list ns"
  by (induction ns arbitrary: n) (auto simp: sz_add_small)

lemma in_concat_le: "x \<in> set xs \<Longrightarrow> length (f x) \<le> length (concat (map f xs))"
  by (induction xs) auto

lemma name_in_table:
  assumes "length (header1_bytes objects deps files) < 2 ^ 32"
  shows "obj \<in> set objects \<Longrightarrow> length (name_bytes (od_name obj)) < 2 ^ 32"
    and "f \<in> set files \<Longrightarrow> length (name_bytes (if_name f)) < 2 ^ 32"
  using assms in_concat_le [of obj objects object_bytes] in_concat_le [of f files file_bytes]
  by (simp_all add: header1_bytes_def object_bytes_def file_bytes_def)

lemma file_sizes_sum:
  assumes "\<And>f. f \<in> set files \<Longrightarrow> length (name_bytes (if_name f)) < 2 ^ 32"
  shows "sum_list (file_sizes files) = length (concat (map file_bytes files))"
  using assms by (induction files) (simp_all add: file_sizes_def file_bytes_def name_length_bytes)

lemma object_sizes_sum:
  assumes "\<And>obj. obj \<in> set objects \<Longrightarrow> length (name_bytes (od_name obj)) < 2 ^ 32"
  shows "sum_list (concat (map (\<lambda>obj. [4, 4, 4, 4, unat (name_length (od_name obj))]) objects)) = length (concat (map object_bytes objects))"
  using assms by (induction objects) (simp_all add: object_bytes_def name_length_bytes)

lemma length_guids: "length (concat (map guid_bytes_of deps)) = 8 * length deps"
  by (induction deps) (simp_all add: guid_bytes_of_def)

lemma plugin_sizes_sum:
  assumes "\<And>cat. cat \<in> set cats \<Longrightarrow> 8 * length (of_category deps cat) < 2 ^ 32"
  shows "sum_list (concat (map (\<lambda>cat. [4, 4, unat (category_count deps cat * 8)]) cats)) = length (concat (map (category_bytes deps) cats))"
  using assms
proof (induction cats)
  case (Cons cat cats)
  have "unat (category_count deps cat * 8) = 8 * length (of_category deps cat)"
    using Cons.prems [of cat]
    by (simp add: category_count_def of_category_def unat_mult_lem [THEN iffD1] unat_of_nat take_bit_nat_eq_self unat_word_ariths)
  with Cons show ?case by (simp add: category_bytes_def length_guids)
qed simp

lemma category_fits:
  assumes "length (plugin_bytes deps) < 2 ^ 32" and "cat \<in> set (plugin_categories deps)"
  shows "8 * length (of_category deps cat) < 2 ^ 32"
  using assms(1) in_concat_le [OF assms(2), of "category_bytes deps"]
  by (simp add: plugin_bytes_def category_bytes_def length_guids)

lemma serialize_size:
  assumes "length (header1_bytes objects deps files) < 2 ^ 32"
  shows "calculate_serialize_size objects deps files = length (header1_bytes objects deps files)"
proof -
  have p: "length (plugin_bytes deps) < 2 ^ 32" using assms by (simp add: header1_bytes_def)
  note sums = object_sizes_sum [OF name_in_table(1) [OF assms]] file_sizes_sum [OF name_in_table(2) [OF assms]]
    plugin_sizes_sum [OF category_fits [OF p]]
  show ?thesis unfolding calculate_serialize_size_def
    by (subst add_sizes_sum; use assms in \<open>simp add: sums header1_bytes_def plugin_bytes_def\<close>)
qed

lemma header1_serialize:
  assumes "entries (h1_object_count h) (h1_objects h) = Done objects" and "entries (h1_plugin_dep_count h) (h1_plugin_deps h) = Done deps"
    and "entries (h1_included_file_count h) (h1_included_files h) = Done files"
    and small: "length (header1_bytes objects deps files) < 2 ^ 32" and "arena_sane a" "arena_grants a"
  shows "\<exists>b. nmo_header1_serialize h a = ok (header1_bytes objects deps files) b \<and> arena_sane b \<and> arena_grants b"
proof -
  let ?bs = "header1_bytes objects deps files" let ?n = "length ?bs"
  have "0 < ?n" by (simp add: header1_bytes_def)
  moreover have "?n < 2 ^ 62" "1 \<in> {1, 4, 8, 16 :: nat}" using small by (simp, blast)
  ultimately obtain rg b where b: "nmo_arena_alloc ?n 1 a = Done (Some rg, b)" "arena_sane b" "arena_grants b"
    by (rule arena_grant_region [OF assms(5,6)])
  let ?buf = "take ?n (bytes_of_dwords (fresh_dwords rg b (Suc (?n div 4))))"
  have len: "length ?buf = ?n" by simp
  have count: "h1_included_file_count h = word_of_nat (length files)"
    using assms(3) by (auto simp: entries_def split: if_splits option.splits)
  have table: "add_sizes 0 (file_sizes files) = length (concat (map file_bytes files))"
    using small by (subst add_sizes_sum; simp add: file_sizes_sum [OF name_in_table(2) [OF small]] header1_bytes_def)
  have "emits (\<lambda>s. bindR (serialize_objects objects s) (\<lambda>_ s. bindR (serialize_plugin_deps deps s) (\<lambda>_ s.
      bindR (put_bytes (dword_bytes (h1_included_file_count h) @ dword_bytes (word_of_nat (add_sizes 0 (file_sizes files)))) s) (\<lambda>_ s.
      put_each serialize_file files s))))
    (concat (map object_bytes objects) @ plugin_bytes deps @ (dword_bytes (h1_included_file_count h)
      @ dword_bytes (word_of_nat (add_sizes 0 (file_sizes files)))) @ concat (map file_bytes files))"
    unfolding serialize_objects_def
    by (intro emits_bind emits_put emits_each emits_plugins emits_object emits_file name_in_table [OF small])
  then have "emits (\<lambda>s. bindR (serialize_objects objects s) (\<lambda>_ s. bindR (serialize_plugin_deps deps s) (\<lambda>_ s.
      bindR (put_bytes (dword_bytes (h1_included_file_count h) @ dword_bytes (word_of_nat (add_sizes 0 (file_sizes files)))) s) (\<lambda>_ s.
      put_each serialize_file files s)))) ?bs"
    by (simp add: header1_bytes_def count table)
  from emitsD [OF this, of 0 ?buf] small have
    "bindR (serialize_objects objects (0, ?buf)) (\<lambda>_ s. bindR (serialize_plugin_deps deps s) (\<lambda>_ s.
      bindR (put_bytes (dword_bytes (h1_included_file_count h) @ dword_bytes (word_of_nat (add_sizes 0 (file_sizes files)))) s) (\<lambda>_ s.
      put_each serialize_file files s))) = ok () (?n, mem_blit ?buf 0 ?bs)"
    by (simp only: len) simp
  then show ?thesis
    using b by (simp add: nmo_header1_serialize_def assms(1-3) serialize_size [OF small] Let_def eff_simps mem_blit_def)
qed


subsection \<open>Reading it\<close>

text \<open>
  \<open>f\<close> takes the bytes \<open>bs\<close> from the position on, returns \<open>x\<close> and ends behind them; \<open>table_end\<close> matters only
  to the operations that go by it.
\<close>

definition taken :: "(u8 list \<Rightarrow> nat \<Rightarrow> nat \<times> arena \<Rightarrow> 'a h1res) \<Rightarrow> u8 list \<Rightarrow> 'a \<Rightarrow> bool" where
  "taken f bs x \<longleftrightarrow> (\<forall>pre post table_end a. length (pre @ bs @ post) < 2 ^ 62 \<longrightarrow> length pre + length bs \<le> table_end \<longrightarrow>
     table_end < 2 ^ 62 \<longrightarrow> arena_sane a \<longrightarrow> arena_grants a \<longrightarrow>
     (\<exists>b. f (pre @ bs @ post) table_end (length pre, a) = ok x (length pre + length bs, b) \<and> arena_sane b \<and> arena_grants b))"

lemma takenI:
  assumes "\<And>pre post table_end a. length (pre @ bs @ post) < 2 ^ 62 \<Longrightarrow> length pre + length bs \<le> table_end \<Longrightarrow>
     table_end < 2 ^ 62 \<Longrightarrow> arena_sane a \<Longrightarrow> arena_grants a \<Longrightarrow>
     \<exists>b. f (pre @ bs @ post) table_end (length pre, a) = ok x (length pre + length bs, b) \<and> arena_sane b \<and> arena_grants b"
  shows "taken f bs x"
  using assms by (simp add: taken_def)

lemma taken_pureI:
  assumes "\<And>pre post table_end a. length (pre @ bs @ post) < 2 ^ 62 \<Longrightarrow> length pre + length bs \<le> table_end \<Longrightarrow>
     table_end < 2 ^ 62 \<Longrightarrow> f (pre @ bs @ post) table_end (length pre, a) = ok x (length pre + length bs, a)"
  shows "taken f bs x"
  using assms by (auto simp: taken_def)

lemma takenD:
  assumes "taken f bs x" and "length (pre @ bs @ post) < 2 ^ 62" "length pre + length bs \<le> table_end" "table_end < 2 ^ 62"
    and "arena_sane a" "arena_grants a"
  obtains b where "f (pre @ bs @ post) table_end (length pre, a) = ok x (length pre + length bs, b)" "arena_sane b" "arena_grants b"
  using assms unfolding taken_def by blast

lemma taken_bind:
  assumes "taken f xs u" and "taken (\<lambda>data table_end. g u data table_end) ys v"
  shows "taken (\<lambda>data table_end s. bindR (f data table_end s) (\<lambda>x. g x data table_end)) (xs @ ys) v"
proof (rule takenI)
  fix pre post :: "u8 list" and table_end a
  assume h: "length (pre @ (xs @ ys) @ post) < 2 ^ 62" "length pre + length (xs @ ys) \<le> table_end" "table_end < 2 ^ 62"
    "arena_sane a" "arena_grants a"
  obtain b where b: "f (pre @ xs @ ys @ post) table_end (length pre, a) = ok u (length pre + length xs, b)"
    "arena_sane b" "arena_grants b"
    by (rule takenD [OF assms(1), of pre "ys @ post" table_end a]) (use h in auto)
  obtain c where "g u ((pre @ xs) @ ys @ post) table_end (length (pre @ xs), b) = ok v (length (pre @ xs) + length ys, c)"
    "arena_sane c" "arena_grants c"
    by (rule takenD [OF assms(2), of "pre @ xs" post table_end b]) (use h b in auto)
  with b show "\<exists>c. bindR (f (pre @ (xs @ ys) @ post) table_end (length pre, a)) (\<lambda>x. g x (pre @ (xs @ ys) @ post) table_end)
      = ok v (length pre + length (xs @ ys), c) \<and> arena_sane c \<and> arena_grants c"
    by (auto simp: ac_simps)
qed

lemma taken_value: "taken (\<lambda>_ _. ok x) [] x"
  by (rule taken_pureI) simp

lemma load_here: "load_u32 (pre @ dword_bytes d @ post) (length pre) = Done d"
  by (auto simp: load_u32_def dword_bytes_def nth_append bytes_dword_dword [OF dword_bytes_def])

lemma room_here: "length (pre @ bs @ post) < 2 ^ 62 \<Longrightarrow> nmo_check_buffer_bounds (length pre) (length bs) (length (pre @ bs @ post))"
  by (simp add: nmo_check_buffer_bounds_def)

lemma taken_u32: "taken (\<lambda>data _. load_field data) (dword_bytes d) d"
  by (rule taken_pureI) (use room_here [of _ "dword_bytes d"] in \<open>simp add: load_field_def load_here sz_add_small\<close>)

lemma taken_table_u32: "taken table_u32 (dword_bytes d) d"
  by (rule taken_pureI) (simp add: table_u32_def load_here sz_add_small)

lemma taken_skip: "taken (\<lambda>data _. skip_u32 data) (dword_bytes d) ()"
  by (rule taken_pureI) (use room_here [of _ "dword_bytes d"] in \<open>simp add: skip_u32_def sz_add_small\<close>)

lemma taken_memory:
  assumes "0 < n" "n < 2 ^ 62" "alignment \<in> {1, 4, 8, 16}"
  shows "taken (\<lambda>_ _. take_memory n alignment) [] ()"
proof (rule takenI)
  fix pre post :: "u8 list" and table_end :: nat and a assume "arena_sane a" "arena_grants a"
  from arena_grant_region [OF this assms] obtain r b where
    "nmo_arena_alloc n alignment a = Done (Some r, b)" "arena_sane b" "arena_grants b" by blast
  then show "\<exists>b. take_memory n alignment (length pre, a) = ok () (length pre + length ([] :: u8 list), b) \<and> arena_sane b \<and> arena_grants b"
    by (auto simp: take_memory_def)
qed

lemma taken_chars: "taken (\<lambda>data _. read_chars data (length bs)) bs bs"
  by (rule taken_pureI) (use room_here [of _ bs] in \<open>simp add: read_chars_def copy_out_def sz_add_small\<close>)

lemma string_of_name: "string_of (name_bytes (Some s)) = s"
proof -
  have "takeWhile (\<lambda>b. b \<noteq> 0) (string_bytes s) = string_bytes s"
    using string_bytes [of s] by (simp add: takeWhile_eq_all_conv) metis
  then show ?thesis by (simp only: string_of_def name_bytes_def option.case string_bytes_inverse)
qed

lemma flag_bits:
  fixes i f :: u32
  defines "w \<equiv> if f AND NMO_OBJECT_REFERENCE_FLAG \<noteq> 0 then i OR NMO_OBJECT_REFERENCE_FLAG else i"
  shows "w AND NOT NMO_OBJECT_REFERENCE_FLAG = i AND NOT NMO_OBJECT_REFERENCE_FLAG"
    and "w AND NMO_OBJECT_REFERENCE_FLAG = 0 \<longleftrightarrow> (f OR i) AND NMO_OBJECT_REFERENCE_FLAG = 0"
proof -
  have m: "NMO_OBJECT_REFERENCE_FLAG = 2 ^ 23" by (simp add: NMO_OBJECT_REFERENCE_FLAG_def)
  have z: "(x AND NMO_OBJECT_REFERENCE_FLAG = 0) = (\<not> bit x 23)" for x :: u32
    by (simp only: m and_exp_eq_0_iff_not_bit)
  show "w AND NOT NMO_OBJECT_REFERENCE_FLAG = i AND NOT NMO_OBJECT_REFERENCE_FLAG"
    by (rule bit_word_eqI) (auto simp: w_def bit_simps)
  have "bit NMO_OBJECT_REFERENCE_FLAG 23" by (simp add: NMO_OBJECT_REFERENCE_FLAG_def)
  then show "w AND NMO_OBJECT_REFERENCE_FLAG = 0 \<longleftrightarrow> (f OR i) AND NMO_OBJECT_REFERENCE_FLAG = 0"
    unfolding w_def z by (simp add: bit_or_iff)
qed

lemma name_room:
  assumes "length (name_bytes name) + 1 < 2 ^ 32"
  shows "unat (name_length name) = length (name_bytes name)" "0 < name_length name \<longleftrightarrow> name_bytes name \<noteq> []"
    "unat (name_length name + 1) = length (name_bytes name) + 1"
  using assms name_length_bytes [of name] name_length_zero [of name] by (simp_all add: unat_add_lem [THEN iffD1])

lemma taken_name_memory:
  assumes "length (name_bytes name) + 1 < 2 ^ 32"
  shows "taken (\<lambda>_ _. take_memory (unat (name_length name + 1)) 1) [] ()"
  by (rule taken_memory) (use name_room [OF assms] assms in auto)

lemma taken_name:
  assumes "length (name_bytes name) + 1 < 2 ^ 32"
  shows "taken (\<lambda>data _ s. if name_length name > 0 then read_chars data (unat (name_length name)) s else ok [] s)
    (name_bytes name) (name_bytes name)"
  using taken_chars [of "name_bytes name"] taken_value [of "[] :: u8 list"] name_room [OF assms] by (cases "name_bytes name = []") auto

lemma taken_object:
  assumes "length (name_bytes (od_name obj)) + 1 < 2 ^ 32"
  shows "taken (\<lambda>data _. parse_object data) (object_bytes obj) (kept_object obj)"
proof -
  let ?w = "if od_flags obj AND NMO_OBJECT_REFERENCE_FLAG \<noteq> 0 then od_file_id obj OR NMO_OBJECT_REFERENCE_FLAG else od_file_id obj"
  have kept: "kept_object obj = \<lparr>od_file_id = ?w AND NOT NMO_OBJECT_REFERENCE_FLAG, od_class_id = od_class_id obj,
      od_file_index = od_file_index obj, od_name = Some (string_of (name_bytes (od_name obj))),
      od_flags = (if ?w AND NMO_OBJECT_REFERENCE_FLAG \<noteq> 0 then NMO_OBJECT_REFERENCE_FLAG else 0)\<rparr>"
    by (simp only: flag_bits) (simp add: kept_object_def kept_name_def)
  have "taken (\<lambda>data _. parse_object data)
      (dword_bytes ?w @ dword_bytes (od_class_id obj) @ dword_bytes (od_file_index obj) @ dword_bytes (name_length (od_name obj))
        @ [] @ name_bytes (od_name obj) @ []) (kept_object obj)"
    unfolding parse_object_def [abs_def] kept
    by (rule taken_bind taken_u32 taken_name_memory taken_name taken_value assms)+
  then show ?thesis by (simp add: object_bytes_def)
qed

lemma taken_objects:
  assumes "\<And>obj. obj \<in> set objects \<Longrightarrow> length (name_bytes (od_name obj)) + 1 < 2 ^ 32"
  shows "taken (\<lambda>data _. parse_object_list (length objects) data) (concat (map object_bytes objects)) (map kept_object objects)"
  using assms
proof (induction objects)
  case (Cons obj objects)
  have obj: "taken (\<lambda>data _. parse_object data) (object_bytes obj) (kept_object obj)" using Cons.prems by (intro taken_object) simp
  have objs: "taken (\<lambda>data _. parse_object_list (length objects) data) (concat (map object_bytes objects)) (map kept_object objects)"
    using Cons by simp
  have "taken (\<lambda>data (_ :: nat) s. bindR (parse_object data s) (\<lambda>obj s. bindR (parse_object_list (length objects) data s) (\<lambda>objs. ok (obj # objs))))
      (object_bytes obj @ concat (map object_bytes objects) @ []) (kept_object obj # map kept_object objects)"
    by (rule taken_bind obj objs taken_value)+
  then show ?case by simp
qed (rule taken_pureI, simp)

lemma taken_guids:
  assumes "\<And>d. d \<in> set ds \<Longrightarrow> pd_category d = cat" and "length deps + length ds \<le> tot"
  shows "taken (\<lambda>data _. parse_guids (length ds) data tot cat deps) (concat (map guid_bytes_of ds)) (deps @ map (pd_version_update (\<lambda>_. 0)) ds)"
  using assms
proof (induction ds arbitrary: deps)
  case (Cons d ds)
  let ?e = "\<lparr>pd_guid = \<lparr>d1 = d1 (pd_guid d), d2 = d2 (pd_guid d)\<rparr>, pd_category = cat, pd_version = 0\<rparr>"
  have e: "?e = d\<lparr>pd_version := 0\<rparr>" using Cons.prems(1) [of d] by (cases d) simp
  have IH: "taken (\<lambda>data _. parse_guids (length ds) data tot cat (deps @ [?e])) (concat (map guid_bytes_of ds))
      ((deps @ [?e]) @ map (pd_version_update (\<lambda>_. 0)) ds)"
    using Cons.prems by (intro Cons.IH) auto
  show ?case
  proof (rule takenI)
    fix pre post :: "u8 list" and table_end :: nat and a
    let ?g = "dword_bytes (d1 (pd_guid d))" and ?h = "dword_bytes (d2 (pd_guid d))" and ?gs = "concat (map guid_bytes_of ds)"
    assume h: "length (pre @ concat (map guid_bytes_of (d # ds)) @ post) < 2 ^ 62"
      "length pre + length (concat (map guid_bytes_of (d # ds))) \<le> table_end" "table_end < 2 ^ 62" "arena_sane a" "arena_grants a"
    let ?data = "pre @ ?g @ ?h @ ?gs @ post"
    have l: "load_u32 ?data (length pre) = Done (d1 (pd_guid d))" "load_u32 ?data (length pre + 4) = Done (d2 (pd_guid d))"
      using load_here [of pre] load_here [of "pre @ ?g" _ "?gs @ post"] by simp_all
    obtain b where b: "parse_guids (length ds) ?data tot cat (deps @ [?e]) (length pre + 8, a)
        = ok ((deps @ [?e]) @ map (pd_version_update (\<lambda>_. 0)) ds) (length pre + 8 + length ?gs, b)" "arena_sane b" "arena_grants b"
      by (rule takenD [OF IH, of "pre @ ?g @ ?h" post table_end a]) (use h in \<open>simp_all add: guid_bytes_of_def\<close>)
    have c: "nmo_check_buffer_bounds (length pre) 8 (length ?data)" by (simp add: nmo_check_buffer_bounds_def)
    have "parse_guids (length (d # ds)) ?data tot cat deps (length pre, a)
        = parse_guids (length ds) ?data tot cat (deps @ [?e]) (length pre + 8, a)"
      using h Cons.prems(2) c l by (simp add: sz_add_small guid_bytes_of_def) (simp only: add.commute)
    with b e show "\<exists>b. parse_guids (length (d # ds)) (pre @ concat (map guid_bytes_of (d # ds)) @ post) tot cat deps (length pre, a)
        = ok (deps @ map (pd_version_update (\<lambda>_. 0)) (d # ds)) (length pre + length (concat (map guid_bytes_of (d # ds))), b)
        \<and> arena_sane b \<and> arena_grants b"
      by (auto simp: guid_bytes_of_def add.assoc simp del: parse_guids.simps)
  qed
qed (rule taken_pureI, simp)


text \<open>Both passes over the categories, each with a number of plugins that fits 32 bits.\<close>

definition fits :: "nmo_plugin_dep list \<Rightarrow> u32 list \<Rightarrow> bool" where
  "fits deps cats \<longleftrightarrow> (\<forall>cat \<in> set cats. 8 * length (of_category deps cat) < 2 ^ 32)"

lemma count_fits:
  assumes "fits deps cats" and "cat \<in> set cats"
  shows "unat (category_count deps cat) = length (of_category deps cat)"
    "unat (category_count deps cat * 8) = length (concat (map guid_bytes_of (of_category deps cat)))"
  using assms
  by (auto simp: fits_def category_count_def of_category_def length_guids unat_of_nat take_bit_nat_eq_self unat_word_ariths)

lemma taken_count:
  assumes "fits deps cats"
  shows "taken (\<lambda>data _. count_plugins (length cats) data tot) (concat (map (category_bytes deps) cats))
    (tot + sum_list (map (category_count deps) cats))"
  using assms
proof (induction cats arbitrary: tot)
  case (Cons cat cats)
  let ?n = "category_count deps cat" and ?gs = "concat (map guid_bytes_of (of_category deps cat))"
  have IH: "taken (\<lambda>data _. count_plugins (length cats) data (tot + ?n)) (concat (map (category_bytes deps) cats))
      (tot + ?n + sum_list (map (category_count deps) cats))"
    using Cons by (intro Cons.IH) (simp add: fits_def)
  have n: "unat (?n * 8) = length ?gs" using count_fits(2) [OF Cons.prems] by simp
  have step: "taken (\<lambda>data (_ :: nat) (pos, a). if \<not> nmo_check_buffer_bounds pos (unat (?n * 8)) (length data)
        then fail NMO_ERR_BUFFER_OVERRUN (pos, a) else count_plugins (length cats) data (tot + ?n) (sz_add pos (unat (?n * 8)), a))
      (?gs @ concat (map (category_bytes deps) cats)) (tot + ?n + sum_list (map (category_count deps) cats))"
  proof (rule takenI)
    fix pre post :: "u8 list" and table_end :: nat and a
    let ?r = "concat (map (category_bytes deps) cats)"
    assume h: "length (pre @ (?gs @ ?r) @ post) < 2 ^ 62" "length pre + length (?gs @ ?r) \<le> table_end" "table_end < 2 ^ 62"
      "arena_sane a" "arena_grants a"
    obtain b where b: "count_plugins (length cats) ((pre @ ?gs) @ ?r @ post) (tot + ?n) (length (pre @ ?gs), a)
        = ok (tot + ?n + sum_list (map (category_count deps) cats)) (length (pre @ ?gs) + length ?r, b)" "arena_sane b" "arena_grants b"
      by (rule takenD [OF IH, of "pre @ ?gs" post table_end a]) (use h in auto)
    have "nmo_check_buffer_bounds (length pre) (length ?gs) (length (pre @ (?gs @ ?r) @ post))"
      by (simp add: nmo_check_buffer_bounds_def)
    with b h n show "\<exists>b. (case (length pre, a) of (pos, a) \<Rightarrow> if \<not> nmo_check_buffer_bounds pos (unat (?n * 8)) (length (pre @ (?gs @ ?r) @ post))
        then fail NMO_ERR_BUFFER_OVERRUN (pos, a)
        else count_plugins (length cats) (pre @ (?gs @ ?r) @ post) (tot + ?n) (sz_add pos (unat (?n * 8)), a))
        = ok (tot + ?n + sum_list (map (category_count deps) cats)) (length pre + length (?gs @ ?r), b) \<and> arena_sane b \<and> arena_grants b"
      by (auto simp: sz_add_small add.assoc)
  qed
  have "taken (\<lambda>data (_ :: nat). count_plugins (Suc (length cats)) data tot)
      (dword_bytes cat @ dword_bytes ?n @ ?gs @ concat (map (category_bytes deps) cats)) (tot + ?n + sum_list (map (category_count deps) cats))"
    unfolding count_plugins.simps [abs_def] by (rule taken_bind taken_skip taken_u32 step)+
  then show ?case by (simp add: category_bytes_def [of deps cat] add.assoc del: count_plugins.simps)
qed (rule taken_pureI, simp)

lemma taken_categories:
  assumes "fits D cats" and "length deps + length (concat (map (of_category D) cats)) \<le> tot"
  shows "taken (\<lambda>data _. parse_categories (length cats) data tot deps) (concat (map (category_bytes D) cats))
    (deps @ map (pd_version_update (\<lambda>_. 0)) (concat (map (of_category D) cats)))"
  using assms
proof (induction cats arbitrary: deps)
  case (Cons cat cats)
  let ?n = "category_count D cat" and ?ds = "of_category D cat"
  have "taken (\<lambda>data _. parse_guids (length ?ds) data tot cat deps) (concat (map guid_bytes_of ?ds)) (deps @ map (pd_version_update (\<lambda>_. 0)) ?ds)"
    using Cons.prems(2) by (intro taken_guids) (auto simp: of_category_def)
  then have ds: "taken (\<lambda>data _. parse_guids (unat ?n) data tot cat deps) (concat (map guid_bytes_of ?ds)) (deps @ map (pd_version_update (\<lambda>_. 0)) ?ds)"
    using count_fits(1) [OF Cons.prems(1), of cat] by simp
  have IH: "taken (\<lambda>data _. parse_categories (length cats) data tot (deps @ map (pd_version_update (\<lambda>_. 0)) ?ds))
      (concat (map (category_bytes D) cats)) ((deps @ map (pd_version_update (\<lambda>_. 0)) ?ds) @ map (pd_version_update (\<lambda>_. 0)) (concat (map (of_category D) cats)))"
    using Cons.prems by (intro Cons.IH) (auto simp: fits_def)
  have "taken (\<lambda>data (_ :: nat). parse_categories (Suc (length cats)) data tot deps)
      (dword_bytes cat @ dword_bytes ?n @ concat (map guid_bytes_of ?ds) @ concat (map (category_bytes D) cats))
      ((deps @ map (pd_version_update (\<lambda>_. 0)) ?ds) @ map (pd_version_update (\<lambda>_. 0)) (concat (map (of_category D) cats)))"
    unfolding parse_categories.simps [abs_def] by (rule taken_bind taken_u32 ds IH)+
  then show ?case by (simp add: category_bytes_def [of D cat] del: parse_categories.simps)
qed (rule taken_pureI, simp)


lemma count_sum:
  assumes "fits deps cats"
  shows "sum_list (map (category_count deps) cats) = word_of_nat (length (concat (map (of_category deps) cats)))"
  using assms
proof (induction cats)
  case (Cons cat cats)
  then have "sum_list (map (category_count deps) cats) = word_of_nat (length (concat (map (of_category deps) cats)))"
    by (simp add: fits_def)
  moreover have "category_count deps cat = word_of_nat (length (of_category deps cat))"
    by (simp add: category_count_def of_category_def)
  ultimately show ?case by simp
qed simp

text \<open>Grouping by the categories that occur is grouping by all of them.\<close>

lemma group_all:
  assumes "length deps < 2 ^ 32"
  shows "concat (map (of_category deps) (plugin_categories deps)) = concat (map (of_category deps) [0, 1, 2, 3, 4])"
proof -
  have e: "of_category deps cat = []" if "\<not> category_count deps cat > 0" for cat
  proof -
    have "length (of_category deps cat) < 2 ^ 32"
      unfolding of_category_def by (rule le_less_trans [OF length_filter_le assms])
    with that show ?thesis by (simp add: category_count_def of_category_def unat_eq_0 [symmetric] unat_of_nat take_bit_nat_eq_self word_greater_zero_iff)
  qed
  have "concat (map (of_category deps) (filter (\<lambda>cat. category_count deps cat > 0) cats)) = concat (map (of_category deps) cats)" for cats
    by (induction cats) (simp_all add: e)
  then show ?thesis unfolding plugin_categories_def .
qed

lemma length_category_bytes: "length (concat (map (category_bytes deps) cats)) = 8 * length cats + 8 * length (concat (map (of_category deps) cats))"
  by (induction cats) (simp_all add: category_bytes_def length_guids)

lemma taken_plugins:
  assumes "length (plugin_bytes deps) < 2 ^ 32" and "length deps < 2 ^ 32"
  shows "taken (\<lambda>data _. parse_plugin_deps data) (plugin_bytes deps) (word_of_nat (length (kept_deps deps)), table (kept_deps deps))"
proof -
  let ?cats = "plugin_categories deps" and ?ds = "concat (map (of_category deps) (plugin_categories deps))"
  let ?body = "concat (map (category_bytes deps) ?cats)" and ?c = "word_of_nat (length ?cats) :: u32"
  have fits: "fits deps ?cats" using category_fits [OF assms(1)] by (simp add: fits_def)
  have c: "unat ?c = length ?cats" "?c = 0 \<longleftrightarrow> ?cats = []"
  proof -
    have "length ?cats \<le> 5" using length_filter_le [of _ "[0, 1, 2, 3, 4 :: u32]"] by (simp add: plugin_categories_def)
    then show "unat ?c = length ?cats" by (simp add: unat_of_nat take_bit_nat_eq_self)
    then show "?c = 0 \<longleftrightarrow> ?cats = []" by (metis length_0_conv unat_eq_zero)
  qed
  have len: "length (kept_deps deps) = length ?ds" and kept: "kept_deps deps = map (pd_version_update (\<lambda>_. 0)) ?ds"
    by (simp_all add: kept_deps_def group_all [OF assms(2)])
  have ds: "length ?ds < 2 ^ 29" using assms(1) by (simp add: plugin_bytes_def length_category_bytes del: length_concat)
  let ?t = "word_of_nat (length ?ds) :: u32"
  have t: "unat ?t = length ?ds" using ds by (simp add: unat_of_nat take_bit_nat_eq_self del: length_concat)
  then have t0: "?t = 0 \<longleftrightarrow> ?ds = []" by (metis length_0_conv unat_eq_zero)
  have cats: "taken (\<lambda>data _. parse_categories (length ?cats) data (unat ?t) []) ?body (kept_deps deps)"
    using taken_categories [OF fits, of "[]" "unat ?t"] by (simp add: t kept del: length_concat)
  have body: "taken (\<lambda>data _ s. let saved_pos = fst s in
         bindR (count_plugins (unat ?c) data 0 s) (\<lambda>total_plugins (_, a).
           if total_plugins = 0 then ok (0, None) (saved_pos, a)
           else bindR (take_memory (sz_mul (unat total_plugins) sizeof_plugin_dep) 8 (saved_pos, a)) (\<lambda>_ s.
                bindR (parse_categories (unat ?c) data (unat total_plugins) [] s) (\<lambda>deps.
                  ok (total_plugins, Some deps))))) ?body (?t, Some (kept_deps deps))" if "?ds \<noteq> []"
  proof (rule takenI)
    fix pre post :: "u8 list" and table_end :: nat and a
    assume h: "length (pre @ ?body @ post) < 2 ^ 62" "length pre + length ?body \<le> table_end" "table_end < 2 ^ 62" "arena_sane a" "arena_grants a"
    obtain b where b: "count_plugins (length ?cats) (pre @ ?body @ post) 0 (length pre, a) = ok ?t (length pre + length ?body, b)"
      "arena_sane b" "arena_grants b"
      by (rule takenD [OF taken_count [OF fits, of 0], of pre post table_end a]) (use h count_sum [OF fits] in auto)
    have m: "0 < sz_mul (unat ?t) sizeof_plugin_dep" "sz_mul (unat ?t) sizeof_plugin_dep < 2 ^ 62"
      using ds that by (simp_all add: t sizeof_plugin_dep_def sz_mul_small del: length_concat)
    have "taken (\<lambda>data (_ :: nat) s. bindR (take_memory (sz_mul (unat ?t) sizeof_plugin_dep) 8 s) (\<lambda>_ s.
        bindR (parse_categories (length ?cats) data (unat ?t) [] s) (\<lambda>deps. ok (?t, Some deps)))) ([] @ ?body @ []) (?t, Some (kept_deps deps))"
      by (rule taken_bind taken_memory [OF m] cats taken_value | simp)+
    then obtain e where e: "bindR (take_memory (sz_mul (unat ?t) sizeof_plugin_dep) 8 (length pre, b)) (\<lambda>_ s.
        bindR (parse_categories (length ?cats) (pre @ ?body @ post) (unat ?t) [] s) (\<lambda>deps. ok (?t, Some deps)))
        = ok (?t, Some (kept_deps deps)) (length pre + length ?body, e)" "arena_sane e" "arena_grants e"
      using h b by (auto elim!: takenD [of _ _ _ pre post table_end b])
    have nz: "?t \<noteq> 0" using that t0 by simp
    show "\<exists>b. (let saved_pos = fst (length pre, a) in
         bindR (count_plugins (unat ?c) (pre @ ?body @ post) 0 (length pre, a)) (\<lambda>total_plugins (_, a).
           if total_plugins = 0 then ok (0, None) (saved_pos, a)
           else bindR (take_memory (sz_mul (unat total_plugins) sizeof_plugin_dep) 8 (saved_pos, a)) (\<lambda>_ s.
                bindR (parse_categories (unat ?c) (pre @ ?body @ post) (unat total_plugins) [] s) (\<lambda>deps.
                  ok (total_plugins, Some deps)))))
        = ok (?t, Some (kept_deps deps)) (length pre + length ?body, b) \<and> arena_sane b \<and> arena_grants b"
      by (rule exI [of _ e]) (simp only: Let_def fst_conv c(1) b(1) bindR_ok prod.case nz if_False simp_thms e)
  qed
  show ?thesis
  proof (cases "?cats = []")
    case True
    then have "taken (\<lambda>data _. parse_plugin_deps data) (dword_bytes ?c @ []) (0, None)"
      unfolding parse_plugin_deps_def [abs_def]
      by (rule_tac taken_bind [OF taken_u32]) (simp add: taken_value)
    then show ?thesis using True len by (simp add: plugin_bytes_def table_def kept_deps_def)
  next
    case False
    then obtain cat where "cat \<in> set ?cats" by (meson list.set_sel(1))
    then have "category_count deps cat > 0" by (simp only: plugin_categories_def set_filter mem_Collect_eq)
    then have "of_category deps cat \<noteq> []" unfolding category_count_def of_category_def by fastforce
    with \<open>cat \<in> set ?cats\<close> have ne: "?ds \<noteq> []" by auto
    have "taken (\<lambda>data _. parse_plugin_deps data) (dword_bytes ?c @ ?body) (?t, Some (kept_deps deps))"
      unfolding parse_plugin_deps_def [abs_def]
      by (rule taken_bind [OF taken_u32]) (use body [OF ne] c False in simp)
    moreover have "kept_deps deps \<noteq> []" using ne kept by auto
    ultimately show ?thesis by (simp only: plugin_bytes_def table_def len if_False)
  qed
qed


lemma taken_table_name:
  assumes "length (name_bytes name) + 1 < 2 ^ 32"
  shows "taken (\<lambda>data table_end. table_name data table_end (name_length name)) (name_bytes name) (string_of (name_bytes name))"
proof (cases "name_bytes name = []")
  case True
  have "taken (\<lambda>(_ :: u8 list) (_ :: nat) s. bindR (take_memory 1 1 s) (\<lambda>_. ok (string_of []))) ([] @ []) (string_of [])"
    by (rule taken_bind taken_memory taken_value | simp)+
  then show ?thesis using True name_room [OF assms] by (simp add: table_name_def [abs_def])
next
  case False
  let ?n = "name_length name" and ?bs = "name_bytes name"
  note r = name_room [OF assms]
  have copy: "taken (\<lambda>data (_ :: nat) (pos, a). bindE (copy_out data pos (unat ?n)) (\<lambda>bs. ok (string_of bs) (sz_add pos (unat ?n), a)))
      ?bs (string_of ?bs)"
    by (rule taken_pureI) (use r False in \<open>simp add: copy_out_def sz_add_small\<close>)
  have "taken (\<lambda>data (_ :: nat) s. bindR (take_memory (unat (?n + 1)) 1 s) (\<lambda>_ (pos, a).
      bindE (copy_out data pos (unat ?n)) (\<lambda>bs. ok (string_of bs) (sz_add pos (unat ?n), a)))) ([] @ ?bs) (string_of ?bs)"
    by (rule taken_bind taken_name_memory [OF assms] copy)+
  then show ?thesis
    unfolding taken_def using r False by (auto simp: table_name_def sz_add_small)
qed

lemma taken_files:
  assumes "\<And>f. f \<in> set files \<Longrightarrow> length (name_bytes (if_name f)) + 1 < 2 ^ 32"
  shows "taken (parse_file_list (length files)) (concat (map file_bytes files)) (map kept_file files)"
  using assms
proof (induction files)
  case (Cons f files)
  have name: "taken (\<lambda>data table_end. table_name data table_end (name_length (if_name f))) (name_bytes (if_name f)) (string_of (name_bytes (if_name f)))"
    using Cons.prems by (intro taken_table_name) simp
  have IH: "taken (\<lambda>data table_end. parse_file_list (length files) data table_end) (concat (map file_bytes files)) (map kept_file files)"
    using Cons by simp
  have kept: "kept_file f = \<lparr>if_name = Some (string_of (name_bytes (if_name f))), if_data_size = if_data_size f\<rparr>"
    by (simp add: kept_file_def kept_name_def)
  have "taken (\<lambda>data table_end. parse_file_list (Suc (length files)) data table_end)
      (dword_bytes (name_length (if_name f)) @ name_bytes (if_name f) @ dword_bytes (if_data_size f) @ concat (map file_bytes files) @ [])
      (kept_file f # map kept_file files)"
    unfolding parse_file_list.simps kept by (rule taken_bind taken_table_u32 name IH taken_value)+
  then show ?case by (simp add: file_bytes_def [of f] del: parse_file_list.simps)
qed (rule taken_pureI, simp)

text \<open>The names of a header whose size fits 32 bits leave room for a terminating zero.\<close>

lemma name_and_zero:
  assumes "length (header1_bytes objects deps files) < 2 ^ 32"
  shows "obj \<in> set objects \<Longrightarrow> length (name_bytes (od_name obj)) + 1 < 2 ^ 32"
    and "f \<in> set files \<Longrightarrow> length (name_bytes (if_name f)) + 1 < 2 ^ 32"
  using assms in_concat_le [of obj objects object_bytes] in_concat_le [of f files file_bytes]
  by (simp_all add: header1_bytes_def object_bytes_def file_bytes_def)

lemma taken_included:
  assumes n: "length files < 2 ^ 32" and small: "length (concat (map file_bytes files)) < 2 ^ 32"
    and names: "\<And>f. f \<in> set files \<Longrightarrow> length (name_bytes (if_name f)) + 1 < 2 ^ 32"
  shows "taken (\<lambda>data _. parse_included_files data)
    (dword_bytes (word_of_nat (length files)) @ dword_bytes (word_of_nat (length (concat (map file_bytes files)))) @ concat (map file_bytes files))
    (word_of_nat (length files), table (map kept_file files))"
proof (rule takenI)
  fix pre post :: "u8 list" and table_end :: nat and a
  let ?b = "concat (map file_bytes files)"
  let ?n = "word_of_nat (length files) :: u32" and ?t = "word_of_nat (length ?b) :: u32"
  let ?data = "pre @ (dword_bytes ?n @ dword_bytes ?t @ ?b) @ post"
  assume h: "length ?data < 2 ^ 62" "arena_sane a" "arena_grants a"
  have n': "unat ?n = length files" using n by (simp add: unat_of_nat take_bit_nat_eq_self)
  have t': "unat ?t = length ?b" using small by (simp add: unat_of_nat take_bit_nat_eq_self del: length_concat)
  have z: "?n = 0 \<longleftrightarrow> files = []" "?t = 0 \<longleftrightarrow> ?b = []"
    using n' t' by (metis length_0_conv unat_eq_zero)+
  have e: "?b = [] \<longleftrightarrow> files = []" by (cases files) (auto simp: file_bytes_def dword_bytes_def)
  have l: "load_u32 ?data (length pre) = Done ?n" "load_u32 ?data (length pre + 4) = Done ?t"
    using load_here [of pre] load_here [of "pre @ dword_bytes ?n" _ "?b @ post"] by simp_all
  have pos: "sz_add (length pre) 8 = length pre + 8" "sz_add (length pre) 4 = length pre + 4" "sz_add (length pre + 4) 4 = length pre + 8"
    "sz_add (length pre + 8) (length ?b) = length pre + 8 + length ?b" "length pre + 8 + length ?b \<le> length ?data"
    using h(1) by (simp_all add: sz_add_small del: length_concat)
  show "\<exists>b. parse_included_files ?data (length pre, a) = ok (?n, table (map kept_file files))
      (length pre + length (dword_bytes ?n @ dword_bytes ?t @ ?b), b) \<and> arena_sane b \<and> arena_grants b"
  proof (cases "files = []")
    case True
    then show ?thesis using h l pos by (auto simp: parse_included_files_def Let_def table_def)
  next
    case False
    let ?m = "sz_mul sizeof_included_file_desc (unat ?n)"
    have m: "0 < ?m" "?m < 2 ^ 62" using n False by (simp_all add: n' sizeof_included_file_desc_def sz_mul_small)
    have "taken (\<lambda>data table_end s. bindR (take_memory ?m 8 s) (\<lambda>_. parse_file_list (length files) data table_end)) ([] @ ?b) (map kept_file files)"
      by (rule taken_bind taken_memory [OF m] taken_files names | simp)+
    then obtain b where "bindR (take_memory ?m 8 (length pre + 8, a)) (\<lambda>_. parse_file_list (length files) ?data (length pre + 8 + length ?b))
        = ok (map kept_file files) (length pre + 8 + length ?b, b)"
      and b: "arena_sane b" "arena_grants b"
      by (rule takenD [of _ _ _ "pre @ dword_bytes ?n @ dword_bytes ?t" post "length pre + 8 + length ?b" a]) (use h in \<open>simp_all del: length_concat\<close>)
    then obtain s where s: "take_memory ?m 8 (length pre + 8, a) = ok () s"
      "parse_file_list (length files) ?data (length pre + 8 + length ?b) s = ok (map kept_file files) (length pre + 8 + length ?b, b)"
      by (auto simp: eff_simps bindR_Done_Inr_iff)
    have nz: "?n \<noteq> 0" "?t \<noteq> 0" using z e False by simp_all
    have "parse_included_files ?data (length pre, a) = ok (?n, Some (map kept_file files)) (length pre + 8 + length ?b, b)"
      using pos(5) nz
      by (simp only: parse_included_files_def split_conv pos(1-4) l bindE_simps Let_def t')
        (simp add: n' s [unfolded n' append_assoc] del: length_concat)
    with b False show ?thesis by (auto simp: table_def add.assoc simp del: length_concat)
  qed
qed


subsection \<open>The round trip\<close>

lemma unat_u32: "unat (n :: u32) < 2 ^ 32"
  by (rule order.strict_trans2 [OF unsigned_less]) simp

lemma entries_ends: "entries n p = Done xs \<Longrightarrow> n = word_of_nat (length xs) \<and> length xs < 2 ^ 32"
  using unat_u32 [of n] by (auto simp: entries_def split: if_splits option.splits)

text \<open>
  C14: a table of objects, plugins and included files written to bytes and parsed again, with the number of
  objects from the file header, comes back as far as the format keeps it: objects in order with their
  IDs, indices and names, plugins of the five categories grouped by category, included files in order.
\<close>

theorem header1_round_trip:
  assumes "entries (h1_object_count h) (h1_objects h) = Done objects" and "entries (h1_plugin_dep_count h) (h1_plugin_deps h) = Done deps"
    and "entries (h1_included_file_count h) (h1_included_files h) = Done files"
    and "length (header1_bytes objects deps files) < 2 ^ 32" and "arena_sane a" "arena_grants a" "arena_sane b" "arena_grants b"
  shows "\<exists>a' b'. nmo_header1_serialize h a = ok (header1_bytes objects deps files) a'
    \<and> nmo_header1_parse (header1_bytes objects deps files) (h1_object_count h) b = ok (kept_header1 objects deps files) b'"
proof -
  let ?objs = "concat (map object_bytes objects)" and ?data = "header1_bytes objects deps files"
  let ?n = "word_of_nat (length objects) :: u32"
  note ends = entries_ends [OF assms(1)] entries_ends [OF assms(2)] entries_ends [OF assms(3)]
  have n: "unat ?n = length objects" using ends(1) by (simp add: unat_of_nat take_bit_nat_eq_self)
  then have n0: "?n = 0 \<longleftrightarrow> objects = []" by (metis length_0_conv unat_eq_zero)
  have plugins: "length (plugin_bytes deps) < 2 ^ 32" and files: "length (concat (map file_bytes files)) < 2 ^ 32"
    using assms(4) by (simp_all add: header1_bytes_def)
  have objs: "taken (\<lambda>data _. parse_objects data ?n) ?objs (table (map kept_object objects))"
  proof (cases "objects = []")
    case True
    then show ?thesis using taken_value [of None] by (simp add: parse_objects_def [abs_def] table_def)
  next
    case False
    have m: "0 < sz_mul (unat ?n) sizeof_object_desc" "sz_mul (unat ?n) sizeof_object_desc < 2 ^ 62"
      using ends(1) False by (simp_all add: n sizeof_object_desc_def sz_mul_small)
    have "taken (\<lambda>data (_ :: nat) s. bindR (take_memory (sz_mul (unat ?n) sizeof_object_desc) 8 s) (\<lambda>_ s.
        bindR (parse_object_list (length objects) data s) (\<lambda>objs. ok (Some objs)))) ([] @ ?objs @ []) (Some (map kept_object objects))"
      by (rule taken_bind taken_memory [OF m] taken_objects name_and_zero(1) [OF assms(4)] taken_value | simp)+
    then show ?thesis using False n n0 by (simp add: parse_objects_def [abs_def] table_def)
  qed
  have rest: "taken (\<lambda>data (_ :: nat) s. bindR (parse_plugin_deps data s) (\<lambda>(dep_count, deps') s.
       bindR (parse_included_files data s) (\<lambda>(file_count, files').
         ok \<lparr>h1_object_count = ?n, h1_objects = table (map kept_object objects), h1_plugin_dep_count = dep_count,
             h1_plugin_deps = deps', h1_included_file_count = file_count, h1_included_files = files'\<rparr>)))
     (plugin_bytes deps @ (dword_bytes (word_of_nat (length files)) @ dword_bytes (word_of_nat (length (concat (map file_bytes files))))
       @ concat (map file_bytes files)) @ []) (kept_header1 objects deps files)"
    unfolding case_prod_unfold kept_header1_def
    by (rule taken_bind taken_plugins plugins taken_included files name_and_zero(2) [OF assms(4)] taken_value conjunct2 [OF ends(2)] conjunct2 [OF ends(3)] | simp)+
  let ?tail = "plugin_bytes deps @ (dword_bytes (word_of_nat (length files)) @ dword_bytes (word_of_nat (length (concat (map file_bytes files))))
       @ concat (map file_bytes files)) @ []"
  define obs tail where obs: "obs = ?objs" and tail: "tail = ?tail"
  have data: "?data = obs @ tail" by (simp add: header1_bytes_def obs tail)
  have small: "length (obs @ tail) < 2 ^ 62" using assms(4) data by simp
  obtain c where c: "parse_objects (obs @ tail) ?n (0, b) = ok (table (map kept_object objects)) (length obs, c)" "arena_sane c" "arena_grants c"
    by (rule takenD [OF objs [folded obs], of "[]" tail "length (obs @ tail)" b]) (use small assms(7,8) in auto)
  obtain d where d: "bindR (parse_plugin_deps (obs @ tail) (length obs, c)) (\<lambda>(dep_count, deps') s.
       bindR (parse_included_files (obs @ tail) s) (\<lambda>(file_count, files').
         ok \<lparr>h1_object_count = ?n, h1_objects = table (map kept_object objects), h1_plugin_dep_count = dep_count,
             h1_plugin_deps = deps', h1_included_file_count = file_count, h1_included_files = files'\<rparr>))
      = ok (kept_header1 objects deps files) (length obs + length tail, d)"
    by (rule takenD [OF rest [folded tail], of obs "[]" "length (obs @ tail)" c]) (use small c in auto)
  have "length obs < length (obs @ tail)" by (simp add: tail plugin_bytes_def del: length_concat)
  then have "nmo_header1_parse (obs @ tail) ?n b = ok (kept_header1 objects deps files) d"
    using c(1) d by (simp add: nmo_header1_parse_def) (simp add: eff_simps)
  with header1_serialize [OF assms(1-6)] ends(1) data show ?thesis by auto
qed


text \<open>One object without a name, a plugin of category 2 and one of category 0, no included files.\<close>

theorem header1_round_trip_witness:
  "\<exists>a a' b'. nmo_arena_create (\<lambda>_ _. True) (\<lambda>_ _. 0) 0 = Done (Some a)
    \<and> nmo_header1_serialize \<lparr>h1_object_count = 1,
          h1_objects = Some [\<lparr>od_file_id = 5, od_class_id = 1, od_file_index = 7, od_name = None, od_flags = 0\<rparr>], h1_plugin_dep_count = 2,
          h1_plugin_deps = Some [\<lparr>pd_guid = \<lparr>d1 = 1, d2 = 2\<rparr>, pd_category = 2, pd_version = 3\<rparr>, \<lparr>pd_guid = \<lparr>d1 = 4, d2 = 5\<rparr>, pd_category = 0, pd_version = 0\<rparr>],
          h1_included_file_count = 0, h1_included_files = None\<rparr> a
       = ok (header1_bytes [\<lparr>od_file_id = 5, od_class_id = 1, od_file_index = 7, od_name = None, od_flags = 0\<rparr>]
          [\<lparr>pd_guid = \<lparr>d1 = 1, d2 = 2\<rparr>, pd_category = 2, pd_version = 3\<rparr>, \<lparr>pd_guid = \<lparr>d1 = 4, d2 = 5\<rparr>, pd_category = 0, pd_version = 0\<rparr>] []) a'
    \<and> nmo_header1_parse (header1_bytes [\<lparr>od_file_id = 5, od_class_id = 1, od_file_index = 7, od_name = None, od_flags = 0\<rparr>]
          [\<lparr>pd_guid = \<lparr>d1 = 1, d2 = 2\<rparr>, pd_category = 2, pd_version = 3\<rparr>, \<lparr>pd_guid = \<lparr>d1 = 4, d2 = 5\<rparr>, pd_category = 0, pd_version = 0\<rparr>] []) 1 a
       = ok \<lparr>h1_object_count = 1,
          h1_objects = Some [\<lparr>od_file_id = 5, od_class_id = 1, od_file_index = 7, od_name = Some (string_of []), od_flags = 0\<rparr>], h1_plugin_dep_count = 2,
          h1_plugin_deps = Some [\<lparr>pd_guid = \<lparr>d1 = 4, d2 = 5\<rparr>, pd_category = 0, pd_version = 0\<rparr>, \<lparr>pd_guid = \<lparr>d1 = 1, d2 = 2\<rparr>, pd_category = 2, pd_version = 0\<rparr>],
          h1_included_file_count = 0, h1_included_files = None\<rparr> b'"
proof -
  let ?o = "\<lparr>od_file_id = 5, od_class_id = 1, od_file_index = 7, od_name = None, od_flags = 0\<rparr>"
  let ?p = "\<lparr>pd_guid = \<lparr>d1 = 1, d2 = 2\<rparr>, pd_category = 2, pd_version = 3\<rparr>" and ?q = "\<lparr>pd_guid = \<lparr>d1 = 4, d2 = 5\<rparr>, pd_category = 0, pd_version = 0\<rparr>"
  let ?h = "\<lparr>h1_object_count = 1, h1_objects = Some [?o], h1_plugin_dep_count = 2, h1_plugin_deps = Some [?p, ?q],
    h1_included_file_count = 0, h1_included_files = None\<rparr>"
  obtain a where a: "nmo_arena_create (\<lambda>_ _. True) (\<lambda>_ _. 0) 0 = Done (Some a)" "arena_sane a" "arena_grants a"
    by (rule default_arena_exists)
  have e: "entries (h1_object_count ?h) (h1_objects ?h) = Done [?o]" "entries (h1_plugin_dep_count ?h) (h1_plugin_deps ?h) = Done [?p, ?q]"
    "entries (h1_included_file_count ?h) (h1_included_files ?h) = Done []" by (simp_all add: entries_def)
  have "length (header1_bytes [?o] [?p, ?q] []) < 2 ^ 32"
    by (simp add: header1_bytes_def object_bytes_def name_bytes_def plugin_bytes_def plugin_categories_def category_count_def
        category_bytes_def of_category_def guid_bytes_of_def)
  from header1_round_trip [OF e this a(2,3) a(2,3)] obtain a' b' where
    "nmo_header1_serialize ?h a = ok (header1_bytes [?o] [?p, ?q] []) a'"
    "nmo_header1_parse (header1_bytes [?o] [?p, ?q] []) 1 a = ok (kept_header1 [?o] [?p, ?q] []) b'" by auto
  moreover have "kept_header1 [?o] [?p, ?q] [] = \<lparr>h1_object_count = 1, h1_objects = Some [?o\<lparr>od_name := Some (string_of [])\<rparr>], h1_plugin_dep_count = 2,
      h1_plugin_deps = Some [?q, ?p\<lparr>pd_version := 0\<rparr>], h1_included_file_count = 0, h1_included_files = None\<rparr>"
    by (simp add: kept_header1_def kept_object_def kept_name_def name_bytes_def kept_deps_def of_category_def table_def NMO_OBJECT_REFERENCE_FLAG_def)
  ultimately show ?thesis using a(1) by auto
qed

end
