(* ===== verification/Header1Safety.thy ===== *)
theory Header1Safety
  imports Header1Spec
begin

text \<open>
  \<^verbatim>\<open>nmo_header1_parse\<close> on any input: it returns and stays in bounds unless a category announces so many
  plugins that their size wraps in 32 bits; then it may write behind the array of plugins.
\<close>

section \<open>Any input\<close>

lemma bounds_iff: "nmo_check_buffer_bounds pos n t \<longleftrightarrow> pos + n \<le> t"
  by (auto simp: nmo_check_buffer_bounds_def)

text \<open>
  \<open>f\<close> returns, and when it succeeds it is at the next position: the steps of the parser, whatever the
  input is.
\<close>

definition steps_in :: "u8 list \<Rightarrow> (nat \<times> arena \<Rightarrow> 'a h1res) \<Rightarrow> bool" where
  "steps_in data f \<longleftrightarrow> (\<forall>pos a. length data < 2 ^ 32 \<longrightarrow> pos \<le> length data \<longrightarrow> arena_sane a \<longrightarrow>
     (\<exists>r q b. f (pos, a) = Done (r, q, b) \<and> arena_sane b \<and> (\<forall>v. r = Inr v \<longrightarrow> q \<le> length data)))"

lemma steps_inI:
  assumes "\<And>pos a. length data < 2 ^ 32 \<Longrightarrow> pos \<le> length data \<Longrightarrow> arena_sane a \<Longrightarrow>
     \<exists>r q b. f (pos, a) = Done (r, q, b) \<and> arena_sane b \<and> (\<forall>v. r = Inr v \<longrightarrow> q \<le> length data)"
  shows "steps_in data f"
  using assms by (simp add: steps_in_def)

lemma steps_inD:
  assumes "steps_in data f" and "length data < 2 ^ 32" "pos \<le> length data" "arena_sane a"
  obtains r q b where "f (pos, a) = Done (r, q, b)" "arena_sane b" "\<forall>v. r = Inr v \<longrightarrow> q \<le> length data"
  using assms unfolding steps_in_def by blast

lemma steps_in_bind:
  assumes "steps_in data f" and "\<And>v. steps_in data (g v)"
  shows "steps_in data (\<lambda>s. bindR (f s) g)"
proof (rule steps_inI)
  fix pos a assume h: "length data < 2 ^ 32" "pos \<le> length data" "arena_sane a"
  obtain r q b where r: "f (pos, a) = Done (r, q, b)" "arena_sane b" "\<forall>v. r = Inr v \<longrightarrow> q \<le> length data"
    by (rule steps_inD [OF assms(1) h])
  show "\<exists>r q b. bindR (f (pos, a)) g = Done (r, q, b) \<and> arena_sane b \<and> (\<forall>v. r = Inr v \<longrightarrow> q \<le> length data)"
  proof (cases r)
    case (Inr v)
    with r(3) have "q \<le> length data" by simp
    from steps_inD [OF assms(2) [of v] h(1) this r(2)] show ?thesis using r(1) Inr by (metis bindR_simps(2))
  qed (use r in simp)
qed

lemma steps_in_value: "steps_in data (ok x)"
  by (auto simp: steps_in_def eff_simps)

lemma steps_in_u32: "steps_in data (load_field data)"
  by (auto simp: steps_in_def load_field_def bounds_iff load_u32_def eff_simps sz_add_small)

lemma steps_in_skip: "steps_in data (skip_u32 data)"
  by (auto simp: steps_in_def skip_u32_def bounds_iff eff_simps sz_add_small)

lemma steps_in_chars: "steps_in data (read_chars data n)"
  by (auto simp: steps_in_def read_chars_def bounds_iff copy_out_def eff_simps sz_add_small)

lemma steps_in_memory:
  assumes "n < 2 ^ 62" "alignment \<in> {1, 4, 8, 16}"
  shows "steps_in data (take_memory n alignment)"
proof (rule steps_inI)
  fix pos a assume "pos \<le> length data" "arena_sane a"
  obtain q b where "nmo_arena_alloc n alignment a = Done (q, b)" "arena_sane b"
    using arena_alloc_sane [OF \<open>arena_sane a\<close> assms] by blast
  with \<open>pos \<le> length data\<close> show "\<exists>r q b. take_memory n alignment (pos, a) = Done (r, q, b) \<and> arena_sane b \<and> (\<forall>v. r = Inr v \<longrightarrow> q \<le> length data)"
    by (cases q) (auto simp: take_memory_def eff_simps)
qed

lemma steps_in_name_memory: "steps_in data (take_memory (unat (n :: u32)) 1)"
  by (rule steps_in_memory) (use unat_u32 [of n] in auto)

lemmas steps_in_rules = steps_in_bind steps_in_value steps_in_u32 steps_in_skip steps_in_chars steps_in_name_memory

lemma steps_in_object: "steps_in data (parse_object data)"
proof -
  have "steps_in data (\<lambda>s. if n > 0 then read_chars data (unat n) s else ok [] s)" for n :: u32
    by (cases "n > 0") (simp_all add: steps_in_chars steps_in_value)
  then show ?thesis unfolding parse_object_def [abs_def] by (intro steps_in_rules)
qed

lemma steps_in_objects: "steps_in data (parse_objects data n)"
proof -
  have l: "steps_in data (parse_object_list k data)" for k
    by (induction k) (auto simp: steps_in_value [unfolded eff_simps] eff_simps [abs_def] intro!: steps_in_bind steps_in_object)
  have m: "steps_in data (take_memory (sz_mul (unat n) sizeof_object_desc) 8)"
    by (rule steps_in_memory) (use unat_u32 [of n] in \<open>auto simp: sizeof_object_desc_def sz_mul_small\<close>)
  show ?thesis unfolding parse_objects_def [abs_def] by (cases "n = 0") (auto intro!: steps_in_bind steps_in_value l m)
qed


text \<open>
  The sizes of the categories, as the first pass finds them from the position behind the count on, and
  those of the whole section.
\<close>

fun category_sizes :: "nat \<Rightarrow> u8 list \<Rightarrow> nat \<Rightarrow> nat list" where
  "category_sizes 0 data pos = []"
| "category_sizes (Suc n) data pos =
     (case load_u32 data (pos + 4) of
        Done c \<Rightarrow> unat c # category_sizes n data (pos + 8 + 8 * unat c)
      | _ \<Rightarrow> [])"

definition plugin_counts :: "u8 list \<Rightarrow> nat \<Rightarrow> nat list" where
  "plugin_counts data pos = (case load_u32 data pos of Done n \<Rightarrow> category_sizes (unat n) data (pos + 4) | _ \<Rightarrow> [])"

lemma product_small: "unat (c :: u32) < 2 ^ 29 \<Longrightarrow> unat (c * 8) = 8 * unat c"
  by (simp add: unat_word_ariths)

lemma count_pass:
  assumes "length data < 2 ^ 32" "pos \<le> length data" and "\<forall>c \<in> set (category_sizes n data pos). c < 2 ^ 29" and "8 * unat tot \<le> pos"
  shows "(\<exists>e s. count_plugins n data tot (pos, a) = fail e s \<and> snd s = a)
    \<or> (\<exists>t. count_plugins n data tot (pos, a) = ok t (pos + 8 * n + 8 * sum_list (category_sizes n data pos), a)
        \<and> unat t = unat tot + sum_list (category_sizes n data pos)
        \<and> pos + 8 * n + 8 * sum_list (category_sizes n data pos) \<le> length data \<and> length (category_sizes n data pos) = n)"
  using assms
proof (induction n arbitrary: pos tot)
  case (Suc n)
  show ?case
  proof (cases "pos + 8 \<le> length data")
    case True
    then obtain c where c: "load_u32 data (pos + 4) = Done c" by (auto simp: load_u32_def)
    have c29: "unat c < 2 ^ 29" using Suc.prems(3) c by simp
    have nx: "nmo_check_buffer_bounds pos 4 (length data)" "nmo_check_buffer_bounds (pos + 4) 4 (length data)"
      using True by (simp_all add: bounds_iff)
    show ?thesis
    proof (cases "pos + 8 + 8 * unat c \<le> length data")
      case False
      then have "\<not> nmo_check_buffer_bounds (pos + 8) (unat (c * 8)) (length data)"
        using product_small [OF c29] by (auto simp: bounds_iff)
      then show ?thesis using nx c Suc.prems(1,2) True
        by (intro disjI1 exI [of _ NMO_ERR_BUFFER_OVERRUN] exI [of _ "(pos + 8, a)"])
          (simp add: skip_u32_def load_field_def sz_add_small add.commute [of 8 pos])
    next
      case room: True
      then have b: "nmo_check_buffer_bounds (pos + 8) (unat (c * 8)) (length data)"
        using product_small [OF c29] by (auto simp: bounds_iff)
      have t: "unat (tot + c) = unat tot + unat c"
        using Suc.prems(1,4) room by (intro unat_add_lem [THEN iffD1]) simp
      have "8 * unat (tot + c) \<le> pos + 8 + 8 * unat c" using t Suc.prems(4) by simp
      moreover have "\<forall>x \<in> set (category_sizes n data (pos + 8 + 8 * unat c)). x < 2 ^ 29" using Suc.prems(3) c by simp
      moreover have "count_plugins (Suc n) data tot (pos, a) = count_plugins n data (tot + c) (pos + 8 + 8 * unat c, a)"
        using nx c b Suc.prems(1) room product_small [OF c29] by (simp add: skip_u32_def load_field_def sz_add_small add.commute [of 8 pos])
      ultimately show ?thesis
        using Suc.IH [of "pos + 8 + 8 * unat c" "tot + c"] Suc.prems(1) room c t by (auto simp: algebra_simps)
    qed
  next
    case False
    have "\<exists>e s. count_plugins (Suc n) data tot (pos, a) = fail e s \<and> snd s = a"
    proof (cases "pos + 4 \<le> length data")
      case True
      with False Suc.prems(1) show ?thesis
        by (intro exI [of _ NMO_ERR_BUFFER_OVERRUN] exI [of _ "(pos + 4, a)"])
          (simp add: skip_u32_def load_field_def bounds_iff sz_add_small)
    next
      case False
      with Suc.prems(1) show ?thesis
        by (intro exI [of _ NMO_ERR_BUFFER_OVERRUN] exI [of _ "(pos, a)"]) (simp add: skip_u32_def bounds_iff)
    qed
    then show ?thesis by blast
  qed
qed (auto simp: eff_simps)


text \<open>The second pass has a place for every plugin as long as the places left are those still to come.\<close>

lemma guid_pass:
  assumes "length data < 2 ^ 32" "pos \<le> length data" "length deps + n \<le> tot"
  shows "(\<exists>e s. parse_guids n data tot cat deps (pos, a) = fail e s \<and> snd s = a)
    \<or> (\<exists>ds. parse_guids n data tot cat deps (pos, a) = ok ds (pos + 8 * n, a) \<and> length ds = length deps + n \<and> pos + 8 * n \<le> length data)"
  using assms
proof (induction n arbitrary: pos deps)
  case (Suc n)
  show ?case
  proof (cases "pos + 8 \<le> length data")
    case True
    then obtain g h where g: "load_u32 data pos = Done g" "load_u32 data (pos + 4) = Done h" by (auto simp: load_u32_def)
    have "nmo_check_buffer_bounds pos 8 (length data)" using True by (simp add: bounds_iff)
    then have "parse_guids (Suc n) data tot cat deps (pos, a)
        = parse_guids n data tot cat (deps @ [\<lparr>pd_guid = \<lparr>d1 = g, d2 = h\<rparr>, pd_category = cat, pd_version = 0\<rparr>]) (pos + 8, a)"
      using g True Suc.prems by (simp add: sz_add_small add.commute [of 8 pos])
    with Suc.IH [of "pos + 8" "deps @ [\<lparr>pd_guid = \<lparr>d1 = g, d2 = h\<rparr>, pd_category = cat, pd_version = 0\<rparr>]"] Suc.prems True
    show ?thesis by (auto simp: algebra_simps simp del: parse_guids.simps)
  next
    case False
    then show ?thesis by (intro disjI1 exI [of _ NMO_ERR_BUFFER_OVERRUN] exI [of _ "(pos, a)"]) (simp add: bounds_iff)
  qed
qed (auto simp: eff_simps)

lemma category_pass:
  assumes "length data < 2 ^ 32" "pos \<le> length data" "length deps + sum_list (category_sizes n data pos) \<le> tot"
    and "length (category_sizes n data pos) = n"
  shows "(\<exists>e s. parse_categories n data tot deps (pos, a) = fail e s \<and> snd s = a)
    \<or> (\<exists>ds p. parse_categories n data tot deps (pos, a) = ok ds (p, a) \<and> p \<le> length data)"
  using assms
proof (induction n arbitrary: pos deps)
  case (Suc n)
  from Suc.prems(4) obtain c where c: "load_u32 data (pos + 4) = Done c"
    "length (category_sizes n data (pos + 8 + 8 * unat c)) = n" by (auto split: eff.splits)
  then have room: "pos + 8 \<le> length data" by (auto simp: load_u32_def split: if_splits)
  then obtain cat where cat: "load_u32 data pos = Done cat" by (auto simp: load_u32_def)
  have head: "parse_categories (Suc n) data tot deps (pos, a)
      = bindR (parse_guids (unat c) data tot cat deps (pos + 8, a)) (\<lambda>ds. parse_categories n data tot ds)"
    using room cat c(1) Suc.prems(1) by (simp add: load_field_def bounds_iff sz_add_small add.commute [of 8 pos])
  consider e s where "parse_guids (unat c) data tot cat deps (pos + 8, a) = fail e s" "snd s = a"
    | ds where "parse_guids (unat c) data tot cat deps (pos + 8, a) = ok ds (pos + 8 + 8 * unat c, a)" "length ds = length deps + unat c"
        "pos + 8 + 8 * unat c \<le> length data"
    using guid_pass [of data "pos + 8" deps "unat c" tot cat a] Suc.prems(1,3) room c by auto
  then show ?case
  proof cases
    case 1
    then show ?thesis unfolding head by (cases s) auto
  next
    case 2
    with Suc.IH [of "pos + 8 + 8 * unat c" ds] Suc.prems(1,3) c show ?thesis unfolding head by (simp add: ac_simps)
  qed
qed (auto simp: eff_simps)

lemma steps_plugins:
  assumes "length data < 2 ^ 32" "pos \<le> length data" "arena_sane a" and "\<forall>c \<in> set (plugin_counts data pos). c < 2 ^ 29"
  shows "\<exists>r q b. parse_plugin_deps data (pos, a) = Done (r, q, b) \<and> arena_sane b \<and> (\<forall>v. r = Inr v \<longrightarrow> q \<le> length data)"
proof (cases "pos + 4 \<le> length data")
  case True
  then obtain n where n: "load_u32 data pos = Done n" by (auto simp: load_u32_def)
  let ?cs = "category_sizes (unat n) data (pos + 4)"
  have head: "load_field data (pos, a) = ok n (pos + 4, a)"
    using True n assms(1) by (simp add: load_field_def bounds_iff sz_add_small)
  have small: "\<forall>c \<in> set ?cs. c < 2 ^ 29" using assms(4) n by (simp add: plugin_counts_def)
  consider (zero) "n = 0" | (short) e s where "count_plugins (unat n) data 0 (pos + 4, a) = fail e s" "snd s = a"
    | (counted) t q where "count_plugins (unat n) data 0 (pos + 4, a) = ok t (q, a)" "unat t = sum_list ?cs" "length ?cs = unat n"
    using count_pass [of data "pos + 4" "unat n" 0 a] assms(1) True small by auto
  then show ?thesis
  proof cases
    case zero
    then show ?thesis using head True assms(3) by (auto simp: parse_plugin_deps_def eff_simps)
  next
    case short
    then show ?thesis using head assms(3) by (cases s) (auto simp: parse_plugin_deps_def eff_simps)
  next
    case counted
    have m: "steps_in data (take_memory (sz_mul (unat t) sizeof_plugin_dep) 8)"
      by (rule steps_in_memory) (use unat_u32 [of t] in \<open>auto simp: sizeof_plugin_dep_def sz_mul_small\<close>)
    obtain r q' b where r: "take_memory (sz_mul (unat t) sizeof_plugin_dep) 8 (pos + 4, a) = Done (r, q', b)" "arena_sane b"
      by (rule steps_inD [OF m assms(1) True assms(3)])
    have q': "q' = pos + 4" using r(1) by (auto simp: take_memory_def eff_simps bindE_Done_iff split: option.splits)
    have "(\<exists>e s. parse_categories (unat n) data (unat t) [] (pos + 4, b) = fail e s \<and> snd s = b)
      \<or> (\<exists>ds p. parse_categories (unat n) data (unat t) [] (pos + 4, b) = ok ds (p, b) \<and> p \<le> length data)"
      using category_pass [of data "pos + 4" "[]" "unat n" "unat t" b] assms(1) True counted by simp
    with head counted r q' True assms(3) show ?thesis
      by (cases r; cases "t = 0") (auto simp: parse_plugin_deps_def eff_simps Let_def)
  qed
next
  case False
  then show ?thesis using assms(3) by (auto simp: parse_plugin_deps_def load_field_def bounds_iff eff_simps)
qed


lemma steps_in_table_u32: "table_end \<le> length data \<Longrightarrow> steps_in data (table_u32 data table_end)"
  by (auto simp: steps_in_def table_u32_def load_u32_def eff_simps sz_add_small)

lemma steps_in_table_name:
  assumes "table_end \<le> length data"
  shows "steps_in data (table_name data table_end n)"
proof (cases "n > 0")
  case False
  then show ?thesis unfolding table_name_def [abs_def]
    by (auto intro!: steps_in_bind steps_in_value steps_in_memory)
next
  case True
  show ?thesis
  proof (rule steps_inI)
    fix pos a assume h: "length data < 2 ^ 32" "pos \<le> length data" "arena_sane a"
    obtain r q b where r: "take_memory (unat (n + 1)) 1 (pos, a) = Done (r, q, b)" "arena_sane b"
      by (rule steps_inD [OF steps_in_name_memory h])
    have "q = pos" using r(1) by (auto simp: take_memory_def eff_simps bindE_Done_iff split: option.splits)
    moreover have "sz_add pos (unat n) = pos + unat n" using h(1,2) unat_u32 [of n] by (simp add: sz_add_small)
    ultimately show "\<exists>r q b. table_name data table_end n (pos, a) = Done (r, q, b) \<and> arena_sane b \<and> (\<forall>v. r = Inr v \<longrightarrow> q \<le> length data)"
      using True h r assms by (cases r) (auto simp: table_name_def copy_out_def eff_simps)
  qed
qed

lemma steps_in_files:
  assumes "table_end \<le> length data"
  shows "steps_in data (parse_file_list n data table_end)"
proof (induction n)
  case (Suc n)
  then show ?case unfolding parse_file_list.simps [abs_def]
    by (intro steps_in_bind steps_in_table_u32 steps_in_table_name steps_in_value assms)
qed (simp add: steps_in_value [unfolded eff_simps] eff_simps [abs_def])

lemma steps_in_included: "steps_in data (parse_included_files data)"
proof (rule steps_inI)
  fix pos a assume h: "length data < 2 ^ 32" "pos \<le> length data" "arena_sane a"
  have p: "sz_add pos 8 = pos + 8" "sz_add pos 4 = pos + 4" "sz_add (pos + 4) 4 = pos + 8" using h(1,2) by (simp_all add: sz_add_small)
  show "\<exists>r q b. parse_included_files data (pos, a) = Done (r, q, b) \<and> arena_sane b \<and> (\<forall>v. r = Inr v \<longrightarrow> q \<le> length data)"
  proof (cases "pos + 8 \<le> length data")
    case False
    then show ?thesis using h p by (simp add: parse_included_files_def eff_simps)
  next
    case True
    then obtain n t where n: "load_u32 data pos = Done n" "load_u32 data (pos + 4) = Done t" by (auto simp: load_u32_def)
    let ?e = "pos + 8 + unat t"
    have e: "sz_add (pos + 8) (unat t) = ?e" using True h(1) unat_u32 [of t] by (simp add: sz_add_small)
    consider "t > 0 \<and> ?e > length data" | "\<not> (t > 0 \<and> ?e > length data)" "n = 0 \<or> t = 0"
      | "?e \<le> length data" "n \<noteq> 0" "t \<noteq> 0" using word_gt_0 [of t] by fastforce
    then show ?thesis
    proof cases
      case 1
      then show ?thesis using True h n p e by (simp add: parse_included_files_def eff_simps Let_def)
    next
      case 2
      then show ?thesis using True h n p e word_gt_0 [of t] by (auto simp: parse_included_files_def eff_simps Let_def)
    next
      case 3
      have m: "steps_in data (take_memory (sz_mul sizeof_included_file_desc (unat n)) 8)"
        by (rule steps_in_memory) (use unat_u32 [of n] in \<open>auto simp: sizeof_included_file_desc_def sz_mul_small\<close>)
      have f: "steps_in data (\<lambda>s. bindR (parse_file_list (unat n) data ?e s) (\<lambda>files (_, a). ok (n, Some files) (?e, a)))"
        by (intro steps_in_bind steps_in_files 3(1)) (use 3(1) in \<open>auto simp: steps_in_def eff_simps\<close>)
      have "parse_included_files data (pos, a) = bindR (take_memory (sz_mul sizeof_included_file_desc (unat n)) 8 (pos + 8, a)) (\<lambda>_ s.
          bindR (parse_file_list (unat n) data ?e s) (\<lambda>files (_, a). ok (n, Some files) (?e, a)))"
        using 3 True n p e by (simp add: parse_included_files_def Let_def)
      with steps_inD [OF steps_in_bind [OF m f] h(1) True h(3)] show ?thesis by metis
    qed
  qed
qed

text \<open>
  C15: the parser of the table returns and stays in its input and in the arrays it allocated, on every
  input of less than 4 GB in which no category of plugins announces \<open>2 ^ 29\<close> entries or more.
\<close>

theorem header1_parse_in_bounds:
  assumes "length data < 2 ^ 32" and "arena_sane a"
    and "\<And>objects pos b. parse_objects data object_count (0, a) = ok objects (pos, b) \<Longrightarrow> \<forall>c \<in> set (plugin_counts data pos). c < 2 ^ 29"
  shows "returns (nmo_header1_parse data object_count a)"
proof -
  obtain r pos b where r: "parse_objects data object_count (0, a) = Done (r, pos, b)" "arena_sane b"
    "\<forall>v. r = Inr v \<longrightarrow> pos \<le> length data"
    by (rule steps_inD [OF steps_in_objects assms(1) le0 assms(2)])
  show ?thesis
  proof (cases r)
    case (Inl e)
    with r show ?thesis by (simp add: nmo_header1_parse_def)
  next
    case (Inr objects)
    define deps where "deps = (if pos < length data then parse_plugin_deps data (pos, b) else ok (0, None) (pos, b))"
    have "\<exists>r q c. deps = Done (r, q, c) \<and> arena_sane c \<and> (\<forall>v. r = Inr v \<longrightarrow> q \<le> length data)"
    proof (cases "pos < length data")
      case True
      have "parse_objects data object_count (0, a) = ok objects (pos, b)" using r(1) Inr by (simp add: ok_def)
      from steps_plugins [OF assms(1) _ r(2) assms(3) [OF this]] True show ?thesis by (simp add: deps_def)
    qed (use r Inr in \<open>auto simp: deps_def eff_simps\<close>)
    then obtain x q c where x: "deps = Done (x, q, c)" "arena_sane c" "\<forall>v. x = Inr v \<longrightarrow> q \<le> length data" by blast
    show ?thesis
    proof (cases x)
      case (Inl e)
      with r Inr x show ?thesis by (simp add: nmo_header1_parse_def deps_def)
    next
      case Inr2: (Inr v)
      with x(3) have "q \<le> length data" by simp
      then obtain y p d where y: "parse_included_files data (q, c) = Done (y, p, d)"
        by (rule steps_inD [OF steps_in_included assms(1) _ x(2)])
      obtain v1 v2 where "v = (v1, v2)" by (cases v)
      with r(1) Inr x(1) Inr2 y show ?thesis
        by (cases y) (auto simp: nmo_header1_parse_def deps_def eff_simps split: prod.splits)
    qed
  qed
qed


lemma load_dword_at:
  assumes "i < length ds"
  shows "load_u32 (bytes_of_dwords ds) (4 * i) = Done (ds ! i)"
proof -
  have "bytes_of_dwords ds = bytes_of_dwords (take i ds) @ dword_bytes (ds ! i) @ bytes_of_dwords (drop (Suc i) ds)"
    using assms by (subst id_take_nth_drop [OF assms]) simp
  then show ?thesis using load_here [of "bytes_of_dwords (take i ds)" "ds ! i"] assms by simp
qed

text \<open>One category with one plugin, and no included files.\<close>

theorem header1_parse_in_bounds_witness:
  "\<exists>a. nmo_arena_create (\<lambda>_ _. True) (\<lambda>_ _. 0) 0 = Done (Some a)
    \<and> returns (nmo_header1_parse (bytes_of_dwords [1, 3, 1, 8, 9, 0, 0]) 0 a)"
proof -
  let ?ds = "[1, 3, 1, 8, 9, 0, 0] :: u32 list"
  obtain a where a: "nmo_arena_create (\<lambda>_ _. True) (\<lambda>_ _. 0) 0 = Done (Some a)" "arena_sane a"
    by (rule default_arena_exists)
  have "load_u32 (bytes_of_dwords ?ds) 0 = Done 1" "load_u32 (bytes_of_dwords ?ds) 8 = Done 1"
    using load_dword_at [of 0 ?ds] load_dword_at [of 2 ?ds] by (simp_all del: bytes_of_dwords_simps)
  then have "\<forall>c \<in> set (plugin_counts (bytes_of_dwords ?ds) 0). c < 2 ^ 29"
    by (simp add: plugin_counts_def del: bytes_of_dwords_simps)
  moreover have "length (bytes_of_dwords ?ds) < 2 ^ 32" by simp
  ultimately have "returns (nmo_header1_parse (bytes_of_dwords ?ds) 0 a)"
    by (intro header1_parse_in_bounds a) (auto simp: parse_objects_def eff_simps simp del: bytes_of_dwords_simps)
  with a(1) show ?thesis by blast
qed

text \<open>
  C16: the number of plugins and the size of a category are computed in 32 bits, so two categories that
  announce \<open>2 ^ 31 + 1\<close> plugins each pass for two plugins; the parser allocates two places and
  stores a third plugin behind them. The input has 36 bytes.
\<close>

theorem plugin_counts_overflow:
  assumes "arena_sane a" "arena_grants a"
  shows "nmo_header1_parse (bytes_of_dwords [2, c, 0x80000001, g1, g2, c', 0x80000001, g3, g4]) 0 a = Undefined"
proof -
  let ?ds = "[2, c, 0x80000001, g1, g2, c', 0x80000001, g3, g4] :: u32 list"
  define data where "data = bytes_of_dwords ?ds"
  have len: "length data = 36" by (simp add: data_def)
  have l: "load_u32 data (4 * i) = Done (?ds ! i)" if "i < 9" for i
    unfolding data_def by (rule load_dword_at) (use that in simp)
  have loads: "load_u32 data 0 = Done 2" "load_u32 data 4 = Done c" "load_u32 data 8 = Done 0x80000001" "load_u32 data 12 = Done g1"
    "load_u32 data 16 = Done g2" "load_u32 data 20 = Done c'" "load_u32 data 24 = Done 0x80000001" "load_u32 data 28 = Done g3" "load_u32 data 32 = Done g4"
    using l [of 0] l [of 1] l [of 2] l [of 3] l [of 4] l [of 5] l [of 6] l [of 7] l [of 8] by simp_all
  have sz: "sz_mul 2 sizeof_plugin_dep = 32" by (simp add: sz_mul_def sizeof_plugin_dep_def)
  from arena_grant_region [OF assms, of 32 8] obtain r b where r: "nmo_arena_alloc 32 8 a = Done (Some r, b)" by fastforce
  have wrap: "(4294967298 :: u32) = 2" by simp
  have count: "count_plugins (Suc (Suc 0)) data 0 (4, a) = ok 2 (36, a)"
    by (simp add: skip_u32_def load_field_def bounds_iff len loads sz_add_def) (simp only: wrap)
  have "parse_guids (Suc (Suc (Suc n))) data 2 c [] (12, b) = Undefined" for n
    by (simp add: bounds_iff len loads sz_add_def)
  from this [of 2147483646] have guids: "parse_guids 2147483649 data 2 c [] (12, b) = Undefined" by simp
  have "parse_categories (Suc (Suc 0)) data 2 [] (4, b) = Undefined"
    by (simp add: load_field_def bounds_iff len loads sz_add_def guids)
  then have "parse_plugin_deps data (0, a) = Undefined"
    using count r by (simp add: numeral_2_eq_2 [symmetric] parse_plugin_deps_def load_field_def bounds_iff len loads sz_add_def sz take_memory_def)
  then show ?thesis unfolding data_def [symmetric] by (simp add: nmo_header1_parse_def parse_objects_def len)
qed

theorem plugin_counts_overflow_witness:
  "\<exists>a. nmo_arena_create (\<lambda>_ _. True) (\<lambda>_ _. 0) 0 = Done (Some a)
    \<and> nmo_header1_parse (bytes_of_dwords [2, 0, 0x80000001, 1, 1, 1, 0x80000001, 2, 2]) 0 a = Undefined"
proof -
  obtain a where a: "nmo_arena_create (\<lambda>_ _. True) (\<lambda>_ _. 0) 0 = Done (Some a)" "arena_sane a" "arena_grants a"
    by (rule default_arena_exists)
  from plugin_counts_overflow [OF a(2,3)] a(1) show ?thesis by blast
qed

end
