(* ===== verification/ChunkApi.thy ===== *)
theory ChunkApi
  imports ChunkParser
begin

text \<open>
  The second interface to a chunk, \<^verbatim>\<open>nmo_chunk_api.h\<close>: the same chunk is written and read through a
  position kept in its parser state. This theory holds the state, the life cycle
  (\<^verbatim>\<open>chunk_lifecycle.c\<close>), navigation and growth (\<^verbatim>\<open>chunk_navigation.c\<close>), the scalar values, strings,
  buffers and object IDs (\<^verbatim>\<open>chunk_primitives.c\<close>), identifiers, sequences and managers
  (\<^verbatim>\<open>chunk_identifiers.c\<close>, \<^verbatim>\<open>chunk_sequences.c\<close>, \<^verbatim>\<open>chunk_managers.c\<close>).
\<close>

section \<open>State\<close>

record parser_state =
  current_pos :: nat
  prev_identifier_pos :: nat
  ps_data_size :: nat

text \<open>
  A chunk with its array of sub-chunks, its arena and its parser state, which is NULL until a call
  of the life cycle makes one.
\<close>

record chunk_cursor =
  cu_body :: chunk_body
  cu_subs :: "nmo_chunk option list option"
  cu_arena :: arena
  cu_state :: "parser_state option"

type_synonym 'a cures = "('a, chunk_cursor) cres"

definition NMO_CHUNK_OPTION_PACKED :: u32 where "NMO_CHUNK_OPTION_PACKED = 0x100"

definition sizeof_parser_state :: nat where "sizeof_parser_state = 24"

definition cursor_of :: "nmo_chunk \<Rightarrow> arena \<Rightarrow> chunk_cursor" where
  "cursor_of c a = \<lparr>cu_body = c_body c, cu_subs = c_chunks c, cu_arena = a, cu_state = None\<rparr>"

definition add_option :: "u32 \<Rightarrow> chunk_cursor \<Rightarrow> chunk_cursor" where
  "add_option flag c = c\<lparr>cu_body := (cu_body c)\<lparr>c_chunk_options := c_chunk_options (cu_body c) OR flag\<rparr>\<rparr>"

section \<open>Life cycle\<close>

text \<open>
  The parser state of \<^verbatim>\<open>chunk_lifecycle.c\<close> is allocated at the first call; \<open>cu_state\<close> stays \<open>None\<close>
  when that fails. The other files only look at the field.
\<close>

definition get_parser_state :: "chunk_cursor \<Rightarrow> chunk_cursor eff" where
  "get_parser_state c = (case cu_state c of
       Some _ \<Rightarrow> Done c
     | None \<Rightarrow>
         bindE (nmo_arena_alloc sizeof_parser_state 8 (cu_arena c)) (\<lambda>(q, a).
           Done (c\<lparr>cu_arena := a,
                   cu_state := (case q of None \<Rightarrow> None
                                | Some _ \<Rightarrow> Some \<lparr>current_pos = 0, prev_identifier_pos = 0, ps_data_size = 0\<rparr>)\<rparr>)))"

definition set_pos :: "nat \<Rightarrow> chunk_cursor \<Rightarrow> chunk_cursor" where
  "set_pos n c = c\<lparr>cu_state := map_option (\<lambda>st. st\<lparr>current_pos := n\<rparr>) (cu_state c)\<rparr>"

definition set_prev :: "nat \<Rightarrow> chunk_cursor \<Rightarrow> chunk_cursor" where
  "set_prev n c = c\<lparr>cu_state := map_option (\<lambda>st. st\<lparr>prev_identifier_pos := n\<rparr>) (cu_state c)\<rparr>"

definition set_data_size :: "nat \<Rightarrow> chunk_cursor \<Rightarrow> chunk_cursor" where
  "set_data_size n c = c\<lparr>cu_body := (cu_body c)\<lparr>c_data_size := n\<rparr>\<rparr>"

definition with_data :: "u32 list option \<Rightarrow> nat \<Rightarrow> chunk_cursor \<Rightarrow> chunk_cursor" where
  "with_data p n c = c\<lparr>cu_body := (cu_body c)\<lparr>c_data := p, c_data_capacity := n\<rparr>\<rparr>"

definition nmo_chunk_start_read :: "chunk_cursor \<Rightarrow> unit cures" where
  "nmo_chunk_start_read c =
     bindE (get_parser_state c) (\<lambda>c.
       if cu_state c = None then fail NMO_ERR_NOMEM c
       else ok () (set_prev 0 (set_pos 0 c)))"

definition nmo_chunk_start_write :: "chunk_cursor \<Rightarrow> unit cures" where
  "nmo_chunk_start_write c =
     bindE (get_parser_state c) (\<lambda>c.
       if cu_state c = None then fail NMO_ERR_NOMEM c
       else
         let c = set_data_size 0 (set_pos 0 c)
         in case c_data (cu_body c) of
              Some _ \<Rightarrow> ok () c
            | None \<Rightarrow>
                bindE (realloc_dwords None 0 64 (cu_arena c)) (\<lambda>(q, a).
                  let c = with_data q (c_data_capacity (cu_body c)) (c\<lparr>cu_arena := a\<rparr>)
                  in case q of
                       None \<Rightarrow> fail NMO_ERR_NOMEM c
                     | Some _ \<Rightarrow> ok () (set_data_size 0 (with_data q 64 c))))"

definition nmo_chunk_update_data_size :: "chunk_cursor \<Rightarrow> chunk_cursor eff" where
  "nmo_chunk_update_data_size c =
     bindE (get_parser_state c) (\<lambda>c. Done (case cu_state c of
         None \<Rightarrow> c
       | Some st \<Rightarrow>
           if current_pos st > c_data_size (cu_body c) then set_data_size (current_pos st) c else c))"

definition nmo_chunk_close :: "chunk_cursor \<Rightarrow> chunk_cursor eff" where
  "nmo_chunk_close c = nmo_chunk_update_data_size c"

definition nmo_chunk_clear :: "chunk_cursor \<Rightarrow> chunk_cursor eff" where
  "nmo_chunk_clear c =
     bindE (get_parser_state (set_data_size 0 c)) (\<lambda>c. Done (set_prev 0 (set_pos 0 c)))"

definition nmo_chunk_get_class_id :: "chunk_cursor \<Rightarrow> u32" where
  "nmo_chunk_get_class_id c = c_class_id (cu_body c)"

definition nmo_chunk_get_data_version :: "chunk_cursor \<Rightarrow> u32" where
  "nmo_chunk_get_data_version c = c_data_version (cu_body c)"

definition nmo_chunk_set_data_version :: "u32 \<Rightarrow> chunk_cursor \<Rightarrow> chunk_cursor" where
  "nmo_chunk_set_data_version v c = c\<lparr>cu_body := (cu_body c)\<lparr>c_data_version := v\<rparr>\<rparr>"

definition nmo_chunk_get_chunk_version :: "chunk_cursor \<Rightarrow> u32" where
  "nmo_chunk_get_chunk_version c = c_chunk_version (cu_body c)"

definition nmo_chunk_get_data_size :: "chunk_cursor \<Rightarrow> nat" where
  "nmo_chunk_get_data_size c = sz_mul (c_data_size (cu_body c)) 4"

definition nmo_chunk_get_size :: "chunk_cursor \<Rightarrow> u32" where
  "nmo_chunk_get_size c = of_nat (nmo_chunk_get_data_size c)"

definition nmo_chunk_is_compressed :: "chunk_cursor \<Rightarrow> bool" where
  "nmo_chunk_is_compressed c = has_option (c_chunk_options (cu_body c)) NMO_CHUNK_OPTION_PACKED"

section \<open>Navigation and growth\<close>

definition nmo_chunk_get_position :: "chunk_cursor \<Rightarrow> nat" where
  "nmo_chunk_get_position c = (case cu_state c of None \<Rightarrow> 0 | Some st \<Rightarrow> current_pos st)"

definition nmo_chunk_goto :: "nat \<Rightarrow> chunk_cursor \<Rightarrow> unit cures" where
  "nmo_chunk_goto pos c =
     (if pos > c_data_size (cu_body c) then fail NMO_ERR_OUT_OF_BOUNDS c
      else if cu_state c = None then fail NMO_ERR_INVALID_STATE c
      else ok () (set_pos pos c))"

definition nmo_chunk_skip :: "nat \<Rightarrow> chunk_cursor \<Rightarrow> unit cures" where
  "nmo_chunk_skip dwords c = (case cu_state c of
       None \<Rightarrow> fail NMO_ERR_INVALID_STATE c
     | Some st \<Rightarrow>
         if sz_add (current_pos st) dwords > c_data_size (cu_body c) then fail NMO_ERR_EOF c
         else ok () (set_pos (sz_add (current_pos st) dwords) c))"

text \<open>The buffer grows by doubling its capacity; a capacity of zero is never outgrown.\<close>

definition nmo_chunk_check_size :: "nat \<Rightarrow> chunk_cursor \<Rightarrow> unit cures" where
  "nmo_chunk_check_size needed_dwords c = (case cu_state c of
       None \<Rightarrow> fail NMO_ERR_INVALID_STATE c
     | Some st \<Rightarrow>
         let required_size = sz_add (current_pos st) needed_dwords;
             capacity = c_data_capacity (cu_body c)
         in if required_size > capacity then
              (case grow_until (\<lambda>n. sz_mul n 2) required_size (sz_mul capacity 2) of
                 None \<Rightarrow> Diverges
               | Some new_capacity \<Rightarrow>
                   bindE (realloc_dwords (c_data (cu_body c)) (current_pos st) new_capacity (cu_arena c))
                     (\<lambda>(q, a).
                       let c = c\<lparr>cu_arena := a\<rparr>
                       in case q of
                            None \<Rightarrow> fail NMO_ERR_NOMEM c
                          | Some new_data \<Rightarrow> ok () (with_data (Some new_data) new_capacity c)))
            else ok () c)"

section \<open>Loads and stores at the position\<close>

definition can_read :: "chunk_cursor \<Rightarrow> nat \<Rightarrow> bool" where
  "can_read c dwords = (case cu_state c of
       None \<Rightarrow> False
     | Some st \<Rightarrow> sz_add (current_pos st) dwords \<le> c_data_size (cu_body c))"

text \<open>\<^verbatim>\<open>state->current_pos += n\<close>.\<close>

definition move_on :: "nat \<Rightarrow> chunk_cursor \<Rightarrow> chunk_cursor" where
  "move_on n c = set_pos (sz_add (nmo_chunk_get_position c) n) c"

text \<open>\<^verbatim>\<open>chunk->data[state->current_pos++] = v\<close>, through a state that must not be NULL.\<close>

definition store_dword :: "u32 \<Rightarrow> chunk_cursor \<Rightarrow> unit cures" where
  "store_dword v c = (case (cu_state c, c_data (cu_body c)) of
       (Some st, Some xs) \<Rightarrow>
         if current_pos st < length xs
         then ok () (move_on 1 (with_data (Some (xs[current_pos st := v])) (c_data_capacity (cu_body c)) c))
         else Undefined
     | _ \<Rightarrow> Undefined)"

fun store_dwords :: "u32 list \<Rightarrow> chunk_cursor \<Rightarrow> unit cures" where
  "store_dwords [] c = ok () c"
| "store_dwords (v # vs) c = bindR (store_dword v c) (\<lambda>_. store_dwords vs)"

text \<open>
  \<^verbatim>\<open>memcpy(&chunk->data[state->current_pos], src, size); state->current_pos += dwords;\<close> where the
  caller's memory \<open>src\<close> has to hold that many bytes. The bytes behind the copy keep what they were.
\<close>

definition store_bytes :: "u8 list \<Rightarrow> nat \<Rightarrow> nat \<Rightarrow> chunk_cursor \<Rightarrow> unit cures" where
  "store_bytes src sz dwords c = (case (cu_state c, c_data (cu_body c)) of
       (Some st, Some xs) \<Rightarrow>
         if sz \<le> length src \<and> 4 * current_pos st + sz \<le> 4 * length xs
         then ok () (move_on dwords
                (with_data (Some (blit_bytes xs (current_pos st) (take sz src))) (c_data_capacity (cu_body c)) c))
         else Undefined
     | _ \<Rightarrow> Undefined)"

text \<open>\<^verbatim>\<open>if (state->current_pos > chunk->data_size) chunk->data_size = state->current_pos;\<close>\<close>

definition extend_size :: "chunk_cursor \<Rightarrow> chunk_cursor" where
  "extend_size c =
     (if nmo_chunk_get_position c > c_data_size (cu_body c) then set_data_size (nmo_chunk_get_position c) c else c)"

definition load_next :: "chunk_cursor \<Rightarrow> u32 cures" where
  "load_next c = (case cu_state c of
       None \<Rightarrow> Undefined
     | Some st \<Rightarrow> bindE (load_dword (c_data (cu_body c)) (current_pos st)) (\<lambda>d. ok d (move_on 1 c)))"

text \<open>\<^verbatim>\<open>memcpy(dst, &chunk->data[state->current_pos], size); state->current_pos += dwords;\<close>\<close>

definition load_block :: "nat \<Rightarrow> nat \<Rightarrow> chunk_cursor \<Rightarrow> u8 list cures" where
  "load_block sz dwords c = (case cu_state c of
       None \<Rightarrow> Undefined
     | Some st \<Rightarrow> bindE (load_bytes (c_data (cu_body c)) (current_pos st) sz) (\<lambda>bs. ok bs (move_on dwords c)))"

section \<open>Scalar values\<close>

definition nmo_chunk_write_byte :: "u8 \<Rightarrow> chunk_cursor \<Rightarrow> unit cures" where
  "nmo_chunk_write_byte v c =
     bindR (nmo_chunk_check_size 1 c) (\<lambda>_ c. bindR (store_dword (ucast v) c) (\<lambda>_ c. ok () (extend_size c)))"

definition nmo_chunk_write_word :: "u16 \<Rightarrow> chunk_cursor \<Rightarrow> unit cures" where
  "nmo_chunk_write_word v c =
     bindR (nmo_chunk_check_size 1 c) (\<lambda>_ c. bindR (store_dword (ucast v) c) (\<lambda>_ c. ok () (extend_size c)))"

definition nmo_chunk_write_int :: "u32 \<Rightarrow> chunk_cursor \<Rightarrow> unit cures" where
  "nmo_chunk_write_int v c =
     bindR (nmo_chunk_check_size 1 c) (\<lambda>_ c. bindR (store_dword v c) (\<lambda>_ c. ok () (extend_size c)))"

definition nmo_chunk_write_dword :: "u32 \<Rightarrow> chunk_cursor \<Rightarrow> unit cures" where
  "nmo_chunk_write_dword v c = nmo_chunk_write_int v c"

definition nmo_chunk_write_float :: "f32 \<Rightarrow> chunk_cursor \<Rightarrow> unit cures" where
  "nmo_chunk_write_float v c =
     bindR (nmo_chunk_check_size 1 c) (\<lambda>_ c. bindR (store_dword v c) (\<lambda>_ c. ok () (extend_size c)))"

definition nmo_chunk_write_guid :: "nmo_guid \<Rightarrow> chunk_cursor \<Rightarrow> unit cures" where
  "nmo_chunk_write_guid g c =
     bindR (nmo_chunk_check_size 2 c) (\<lambda>_ c. bindR (store_dwords [d1 g, d2 g] c) (\<lambda>_ c. ok () (extend_size c)))"

definition nmo_chunk_read_byte :: "chunk_cursor \<Rightarrow> u8 cures" where
  "nmo_chunk_read_byte c =
     (if \<not> can_read c 1 then fail NMO_ERR_EOF c
      else bindR (load_next c) (\<lambda>d. ok (ucast (d AND 0xFF))))"

definition nmo_chunk_read_word :: "chunk_cursor \<Rightarrow> u16 cures" where
  "nmo_chunk_read_word c =
     (if \<not> can_read c 1 then fail NMO_ERR_EOF c
      else bindR (load_next c) (\<lambda>d. ok (ucast (d AND 0xFFFF))))"

definition nmo_chunk_read_int :: "chunk_cursor \<Rightarrow> u32 cures" where
  "nmo_chunk_read_int c = (if \<not> can_read c 1 then fail NMO_ERR_EOF c else load_next c)"

definition nmo_chunk_read_dword :: "chunk_cursor \<Rightarrow> u32 cures" where
  "nmo_chunk_read_dword c = nmo_chunk_read_int c"

definition nmo_chunk_read_float :: "chunk_cursor \<Rightarrow> f32 cures" where
  "nmo_chunk_read_float c = (if \<not> can_read c 1 then fail NMO_ERR_EOF c else load_next c)"

definition nmo_chunk_read_guid :: "chunk_cursor \<Rightarrow> nmo_guid cures" where
  "nmo_chunk_read_guid c =
     (if \<not> can_read c 2 then fail NMO_ERR_EOF c
      else bindR (load_next c) (\<lambda>x c. bindR (load_next c) (\<lambda>y. ok \<lparr>d1 = x, d2 = y\<rparr>)))"

section \<open>Strings and buffers\<close>

text \<open>The memory behind a \<^verbatim>\<open>char *\<close> holds the string and its terminating zero byte.\<close>

definition nmo_chunk_write_string :: "u8 list option \<Rightarrow> chunk_cursor \<Rightarrow> unit cures" where
  "nmo_chunk_write_string str c =
     (if (case str of None \<Rightarrow> False | Some bs \<Rightarrow> strlen bs = length bs) then Undefined
      else
        let len = (case str of None \<Rightarrow> 0 | Some bs \<Rightarrow> sz_add (strlen bs) 1);
            dwords = sz_add len 3 div 4
        in bindR (nmo_chunk_check_size (sz_add 1 dwords) c) (\<lambda>_ c.
             bindR (store_dword (of_nat len) c) (\<lambda>_ c.
               bindR (case str of
                        None \<Rightarrow> ok () c
                      | Some bs \<Rightarrow> if len > 0 then store_bytes bs len dwords c else ok () c) (\<lambda>_ c.
                 ok () (extend_size c)))))"

text \<open>The length returned and the pointer stored; the string is the memory behind the pointer.\<close>

definition nmo_chunk_read_string :: "chunk_cursor \<Rightarrow> ((nat \<times> u8 list option) \<times> chunk_cursor) eff" where
  "nmo_chunk_read_string c =
     (if \<not> can_read c 1 then Done ((0, None), c)
      else bindE (load_next c) (\<lambda>(r, c). case r of
        Inl _ \<Rightarrow> Done ((0, None), c)
      | Inr len \<Rightarrow>
          if len = 0 then Done ((0, None), c)
          else
            let dwords = unat ((len + 3) div 4)
            in if \<not> can_read c dwords then Done ((0, None), c)
               else bindE (nmo_arena_alloc (unat len) 1 (cu_arena c)) (\<lambda>(q, a).
                 let c = c\<lparr>cu_arena := a\<rparr>
                 in case q of
                      None \<Rightarrow> Done ((0, None), c)
                    | Some _ \<Rightarrow>
                        bindE (load_block (unat len) dwords c) (\<lambda>(r, c). case r of
                          Inl _ \<Rightarrow> Done ((0, None), c)
                        | Inr bs \<Rightarrow> Done ((unat (len - 1), Some bs), c)))))"

definition nmo_chunk_write_buffer :: "u8 list option \<Rightarrow> nat \<Rightarrow> chunk_cursor \<Rightarrow> unit cures" where
  "nmo_chunk_write_buffer src sz c =
     (let dwords = sz_add sz 3 div 4
      in bindR (nmo_chunk_check_size (sz_add 1 dwords) c) (\<lambda>_ c.
           bindR (store_dword (of_nat sz) c) (\<lambda>_ c.
             bindR (case src of
                      None \<Rightarrow> ok () c
                    | Some bs \<Rightarrow> if sz > 0 then store_bytes bs sz dwords c else ok () c) (\<lambda>_ c.
               ok () (extend_size c)))))"

definition nmo_chunk_write_buffer_no_size :: "u8 list option \<Rightarrow> nat \<Rightarrow> chunk_cursor \<Rightarrow> unit cures" where
  "nmo_chunk_write_buffer_no_size src sz c =
     (if sz = 0 then ok () c
      else
        let dwords = sz_add sz 3 div 4
        in bindR (nmo_chunk_check_size dwords c) (\<lambda>_ c.
             bindR (case src of None \<Rightarrow> Undefined | Some bs \<Rightarrow> store_bytes bs sz dwords c) (\<lambda>_ c.
               ok () (extend_size c))))"

text \<open>The size and the pointer stored through the out parameters of a successful call.\<close>

definition nmo_chunk_read_buffer :: "chunk_cursor \<Rightarrow> (nat \<times> u8 list option) cures" where
  "nmo_chunk_read_buffer c =
     (if \<not> can_read c 1 then fail NMO_ERR_EOF c
      else bindR (load_next c) (\<lambda>sz c.
        if sz = 0 then ok (0, None) c
        else
          let dwords = unat ((sz + 3) div 4)
          in if \<not> can_read c dwords then fail NMO_ERR_EOF c
             else bindE (nmo_arena_alloc (unat sz) 1 (cu_arena c)) (\<lambda>(q, a).
               let c = c\<lparr>cu_arena := a\<rparr>
               in case q of
                    None \<Rightarrow> fail NMO_ERR_NOMEM c
                  | Some _ \<Rightarrow> bindR (load_block (unat sz) dwords c) (\<lambda>bs. ok (unat sz, Some bs)))))"

text \<open>The value returned, and the caller's buffer after the call.\<close>

definition nmo_chunk_read_and_fill_buffer ::
  "u8 list \<Rightarrow> nat \<Rightarrow> chunk_cursor \<Rightarrow> ((nat \<times> u8 list) \<times> chunk_cursor) eff" where
  "nmo_chunk_read_and_fill_buffer buffer buffer_size c =
     (if \<not> can_read c 1 then Done ((0, buffer), c)
      else bindE (load_next c) (\<lambda>(r, c). case r of
        Inl _ \<Rightarrow> Done ((0, buffer), c)
      | Inr sz \<Rightarrow>
          if sz = 0 \<or> unat sz > buffer_size then Done ((0, buffer), c)
          else
            let dwords = unat ((sz + 3) div 4)
            in if \<not> can_read c dwords then Done ((0, buffer), c)
               else if unat sz > length buffer then Undefined
               else bindE (load_block (unat sz) dwords c) (\<lambda>(r, c). case r of
                 Inl _ \<Rightarrow> Done ((0, buffer), c)
               | Inr bs \<Rightarrow> Done ((unat sz, mem_blit buffer 0 bs), c))))"

section \<open>Object IDs\<close>

definition with_ids :: "u32 list option \<Rightarrow> nat \<Rightarrow> nat \<Rightarrow> chunk_cursor \<Rightarrow> chunk_cursor" where
  "with_ids p n capacity c = c\<lparr>cu_body := (cu_body c)\<lparr>c_ids := p, c_id_count := n, c_id_capacity := capacity\<rparr>\<rparr>"

definition make_ids :: "chunk_cursor \<Rightarrow> unit cures" where
  "make_ids c = (case c_ids (cu_body c) of
       Some _ \<Rightarrow> ok () c
     | None \<Rightarrow>
         bindE (realloc_dwords None 0 16 (cu_arena c)) (\<lambda>(q, a).
           let c = c\<lparr>cu_arena := a\<rparr>
           in case q of None \<Rightarrow> fail NMO_ERR_NOMEM c | Some _ \<Rightarrow> ok () (with_ids q 0 16 c)))"

definition grow_ids :: "chunk_cursor \<Rightarrow> unit cures" where
  "grow_ids c =
     (let b = cu_body c
      in if c_id_count b \<ge> c_id_capacity b then
           let new_capacity = sz_mul (c_id_capacity b) 2
           in bindE (realloc_dwords (c_ids b) (c_id_count b) new_capacity (cu_arena c)) (\<lambda>(q, a).
                let c = c\<lparr>cu_arena := a\<rparr>
                in case q of
                     None \<Rightarrow> fail NMO_ERR_NOMEM c
                   | Some _ \<Rightarrow> ok () (with_ids q (c_id_count b) new_capacity c))
         else ok () c)"

definition record_id :: "chunk_cursor \<Rightarrow> unit cures" where
  "record_id c =
     (let b = cu_body c
      in case c_ids b of
           None \<Rightarrow> Undefined
         | Some xs \<Rightarrow>
             if c_id_count b < length xs
             then ok () (add_option NMO_CHUNK_OPTION_IDS
                    (with_ids (Some (xs[c_id_count b := of_nat (nmo_chunk_get_position c)]))
                       (sz_add (c_id_count b) 1) (c_id_capacity b) c))
             else Undefined)"

definition nmo_chunk_write_object_id :: "u32 \<Rightarrow> chunk_cursor \<Rightarrow> unit cures" where
  "nmo_chunk_write_object_id oid c =
     bindR (nmo_chunk_check_size 1 c) (\<lambda>_ c.
       bindR (if oid \<noteq> 0
              then bindR (make_ids c) (\<lambda>_ c. bindR (grow_ids c) (\<lambda>_. record_id))
              else ok () c) (\<lambda>_ c.
         bindR (store_dword oid c) (\<lambda>_ c. ok () (extend_size c))))"

definition nmo_chunk_read_object_id :: "chunk_cursor \<Rightarrow> u32 cures" where
  "nmo_chunk_read_object_id c = (if \<not> can_read c 1 then fail NMO_ERR_EOF c else load_next c)"

section \<open>Identifiers\<close>

definition nmo_chunk_write_identifier :: "u32 \<Rightarrow> chunk_cursor \<Rightarrow> unit cures" where
  "nmo_chunk_write_identifier ident c =
     bindR (nmo_chunk_check_size 1 c) (\<lambda>_ c.
       bindR (store_dword ident c) (\<lambda>_ c.
         ok () (extend_size (set_prev (sz_sub (nmo_chunk_get_position c) 1) c))))"

definition nmo_chunk_read_identifier :: "chunk_cursor \<Rightarrow> u32 cures" where
  "nmo_chunk_read_identifier c =
     (if \<not> can_read c 1 then fail NMO_ERR_EOF c
      else bindR (load_next c) (\<lambda>ident c.
        ok ident (set_prev (sz_sub (nmo_chunk_get_position c) 1) c)))"

text \<open>The first of the first \<open>n\<close> words, from word \<open>i\<close> on, that is \<open>ident\<close>.\<close>

function find_word :: "u32 \<Rightarrow> u32 list \<Rightarrow> nat \<Rightarrow> nat \<Rightarrow> nat option eff" where
  "find_word ident xs n i =
     (if i < n then
        if i < length xs then (if xs ! i = ident then Done (Some i) else find_word ident xs n (i + 1))
        else Undefined
      else Done None)"
  by pat_completeness auto
termination by (relation "measure (\<lambda>(ident, xs, n, i). n - i)") auto

declare find_word.simps [simp del]

definition nmo_chunk_seek_identifier :: "u32 \<Rightarrow> chunk_cursor \<Rightarrow> unit cures" where
  "nmo_chunk_seek_identifier ident c = (case c_data (cu_body c) of
       None \<Rightarrow> fail NMO_ERR_NOT_FOUND c
     | Some xs \<Rightarrow>
         if c_data_size (cu_body c) = 0 then fail NMO_ERR_NOT_FOUND c
         else bindE (find_word ident xs (c_data_size (cu_body c)) 0) (\<lambda>r. case r of
           None \<Rightarrow> fail NMO_ERR_NOT_FOUND c
         | Some i \<Rightarrow>
             if cu_state c = None then Undefined
             else ok () (set_prev i (set_pos (sz_add i 1) c))))"

section \<open>Object sequences\<close>

text \<open>\<^verbatim>\<open>(size_t) count\<close> of an \<^verbatim>\<open>int32_t\<close>, with its sign extended.\<close>

definition size_of_int :: "u32 \<Rightarrow> nat" where
  "size_of_int n = nat (sint n mod 2 ^ 64)"

definition nmo_chunk_write_object_sequence_start :: "nat \<Rightarrow> chunk_cursor \<Rightarrow> unit cures" where
  "nmo_chunk_write_object_sequence_start count c =
     nmo_chunk_write_int (of_nat count) (add_option NMO_CHUNK_OPTION_IDS c)"

definition nmo_chunk_write_object_sequence_item :: "u32 \<Rightarrow> chunk_cursor \<Rightarrow> unit cures" where
  "nmo_chunk_write_object_sequence_item oid c = nmo_chunk_write_object_id oid c"

definition nmo_chunk_read_object_sequence_start :: "chunk_cursor \<Rightarrow> nat cures" where
  "nmo_chunk_read_object_sequence_start c =
     bindR (nmo_chunk_read_int c) (\<lambda>count. ok (size_of_int count))"

definition nmo_chunk_read_object_sequence_item :: "chunk_cursor \<Rightarrow> u32 cures" where
  "nmo_chunk_read_object_sequence_item c = nmo_chunk_read_object_id c"

definition nmo_chunk_get_id_count :: "chunk_cursor \<Rightarrow> nat" where
  "nmo_chunk_get_id_count c = c_id_count (cu_body c)"

text \<open>The object ID at the position that entry \<open>index\<close> of the ID list records.\<close>

definition nmo_chunk_get_object_id :: "nat \<Rightarrow> chunk_cursor \<Rightarrow> u32 eff" where
  "nmo_chunk_get_object_id index c =
     (let b = cu_body c
      in if index \<ge> c_id_count b \<or> c_ids b = None then Done 0
         else bindE (load_dword (c_ids b) index) (\<lambda>pos.
           if unat pos < c_data_size b then load_dword (c_data b) (unat pos) else Done 0))"

section \<open>Managers\<close>

definition with_managers :: "u32 list option \<Rightarrow> nat \<Rightarrow> nat \<Rightarrow> chunk_cursor \<Rightarrow> chunk_cursor" where
  "with_managers p n capacity c =
     c\<lparr>cu_body := (cu_body c)\<lparr>c_managers := p, c_manager_count := n, c_manager_capacity := capacity\<rparr>\<rparr>"

definition nmo_chunk_start_manager_sequence :: "nmo_guid \<Rightarrow> nat \<Rightarrow> chunk_cursor \<Rightarrow> unit cures" where
  "nmo_chunk_start_manager_sequence guid count c =
     bindR (nmo_chunk_write_dword (of_nat count) (add_option NMO_CHUNK_OPTION_MAN c)) (\<lambda>_.
       nmo_chunk_write_guid guid)"

definition make_managers :: "chunk_cursor \<Rightarrow> unit cures" where
  "make_managers c =
     (let b = cu_body c; n = c_manager_count b
      in case c_managers b of
           None \<Rightarrow>
             bindE (realloc_dwords None 0 16 (cu_arena c)) (\<lambda>(q, a).
               let c = with_managers q n 16 (c\<lparr>cu_arena := a\<rparr>)
               in if q = None then fail NMO_ERR_NOMEM c else ok () c)
         | Some xs \<Rightarrow>
             if n \<ge> c_manager_capacity b then
               let new_capacity = sz_mul (c_manager_capacity b) 2
               in bindE (realloc_dwords (Some xs) n new_capacity (cu_arena c)) (\<lambda>(q, a).
                    let c = c\<lparr>cu_arena := a\<rparr>
                    in case q of
                         None \<Rightarrow> fail NMO_ERR_NOMEM c
                       | Some _ \<Rightarrow> ok () (with_managers q n new_capacity c))
             else ok () c)"

definition record_manager :: "chunk_cursor \<Rightarrow> unit cures" where
  "record_manager c =
     (let b = cu_body c
      in case c_managers b of
           None \<Rightarrow> Undefined
         | Some xs \<Rightarrow>
             if c_manager_count b < length xs
             then ok () (with_managers (Some (xs[c_manager_count b := of_nat (nmo_chunk_get_position c)]))
                    (sz_add (c_manager_count b) 1) (c_manager_capacity b) c)
             else Undefined)"

definition nmo_chunk_write_manager_int :: "nmo_guid \<Rightarrow> u32 \<Rightarrow> chunk_cursor \<Rightarrow> unit cures" where
  "nmo_chunk_write_manager_int guid v c =
     bindR (nmo_chunk_check_size 3 c) (\<lambda>_ c.
       if cu_state c = None then fail NMO_ERR_INTERNAL c
       else bindR (make_managers c) (\<lambda>_ c. bindR (record_manager c) (\<lambda>_ c.
         bindR (store_dwords [d1 guid, d2 guid, v] c) (\<lambda>_ c. ok () (extend_size c)))))"

definition nmo_chunk_read_manager_int :: "chunk_cursor \<Rightarrow> (nmo_guid \<times> u32) cures" where
  "nmo_chunk_read_manager_int c =
     (if \<not> can_read c 3 then fail NMO_ERR_EOF c
      else bindR (load_next c) (\<lambda>x c. bindR (load_next c) (\<lambda>y c. bindR (load_next c) (\<lambda>v.
        ok (\<lparr>d1 = x, d2 = y\<rparr>, v)))))"

definition nmo_chunk_start_manager_read_sequence :: "chunk_cursor \<Rightarrow> (nmo_guid \<times> nat) cures" where
  "nmo_chunk_start_manager_read_sequence c =
     bindR (nmo_chunk_read_dword c) (\<lambda>count c.
       bindR (nmo_chunk_read_guid c) (\<lambda>guid. ok (guid, unat count)))"

end
