(* ===== verification/ChunkApiData.thy ===== *)
theory ChunkApiData
  imports ChunkApi
begin

text \<open>
  The compound values of the chunk interface: arrays (\<^verbatim>\<open>chunk_arrays.c\<close>), mathematical types
  (\<^verbatim>\<open>chunk_math.c\<close>), sub-chunks (\<^verbatim>\<open>chunk_subchunks.c\<close>), the checksum (\<^verbatim>\<open>chunk_crc.c\<close>) and
  compression (\<^verbatim>\<open>chunk_compression.c\<close>). Adler-32 and deflate come from miniz, which is not part of
  the repository's own code: they are parameters.
\<close>

section \<open>Arrays\<close>

definition nmo_chunk_write_array :: "u8 list option \<Rightarrow> nat \<Rightarrow> nat \<Rightarrow> chunk_cursor \<Rightarrow> unit cures" where
  "nmo_chunk_write_array array count elem_size c =
     (if array = None then fail NMO_ERR_INVALID_ARGUMENT c
      else bindR (nmo_chunk_write_dword (of_nat count) c) (\<lambda>_ c.
        bindR (nmo_chunk_write_dword (of_nat elem_size) c) (\<lambda>_.
          nmo_chunk_write_buffer_no_size array (sz_mul count elem_size))))"

text \<open>
  The product \<^verbatim>\<open>count * elem_size\<close> is taken in 32 bits. The array, the count and the element size
  are what a successful call stores through its out parameters.
\<close>

definition nmo_chunk_read_array :: "chunk_cursor \<Rightarrow> (u8 list \<times> nat \<times> nat) cures" where
  "nmo_chunk_read_array c =
     bindR (nmo_chunk_read_dword c) (\<lambda>count c.
       bindR (nmo_chunk_read_dword c) (\<lambda>elem_size c.
         let total_size = unat (count * elem_size);
             dwords = sz_add total_size 3 div 4
         in if \<not> can_read c dwords then fail NMO_ERR_EOF c
            else bindE (nmo_arena_alloc total_size 4 (cu_arena c)) (\<lambda>(q, a).
              let c = c\<lparr>cu_arena := a\<rparr>
              in case q of
                   None \<Rightarrow> fail NMO_ERR_NOMEM c
                 | Some _ \<Rightarrow> bindR (load_block total_size dwords c) (\<lambda>bs.
                     ok (bs, unat count, unat elem_size)))))"

text \<open>
  The memory that really lies behind a region at the end of the arena's current block. A block whose
  size wrapped around in its allocation is smaller than the arena believes.
\<close>

definition region_room :: "arena \<Rightarrow> region \<Rightarrow> nat" where
  "region_room a rg =
     (let ck = ar_chunks a ! ar_current a
      in min (rg_size rg) (sz_add sizeof_arena_chunk (ck_size ck) - sizeof_arena_chunk - rg_off rg))"

text \<open>
  \<^verbatim>\<open>for (i = 0; i < count; i++) { result = read(chunk, &array[i]); if (...) return result; }\<close> into an
  array that has \<open>room\<close> elements: a successful read past its end is undefined.
\<close>

fun read_each :: "(chunk_cursor \<Rightarrow> 'a cures) \<Rightarrow> nat \<Rightarrow> nat \<Rightarrow> chunk_cursor \<Rightarrow> 'a list cures" where
  "read_each rd room n c =
     (if n = 0 then ok [] c
      else bindR (rd c) (\<lambda>v c.
        if room = 0 then Undefined
        else bindR (read_each rd (room - 1) (n - 1) c) (\<lambda>vs. ok (v # vs))))"

declare read_each.simps [simp del]

text \<open>
  The readers of typed arrays differ in the element and its size. They take a second arena for the
  array, next to the one of the chunk. A count of zero stores NULL.
\<close>

definition read_typed_array ::
  "nat \<Rightarrow> (chunk_cursor \<Rightarrow> 'a cures) \<Rightarrow> chunk_cursor \<times> arena
     \<Rightarrow> (nat \<times> 'a list option, chunk_cursor \<times> arena) cres" where
  "read_typed_array elem_size rd = (\<lambda>(c, a).
     bindE (nmo_chunk_read_object_sequence_start c) (\<lambda>(r, c). case r of
       Inl e \<Rightarrow> fail e (c, a)
     | Inr count \<Rightarrow>
         if count = 0 then ok (0, None) (c, a)
         else bindE (nmo_arena_alloc (sz_mul count elem_size) elem_size a) (\<lambda>(q, a). case q of
           None \<Rightarrow> fail NMO_ERR_NOMEM (c, a)
         | Some rg \<Rightarrow>
             bindE (read_each rd (region_room a rg div elem_size) count c) (\<lambda>(r, c). case r of
               Inl e \<Rightarrow> fail e (c, a)
             | Inr vs \<Rightarrow> ok (count, Some vs) (c, a)))))"

text \<open>\<^verbatim>\<open>for (i = 0; i < count; i++) { result = write(chunk, array[i]); ... }\<close>\<close>

fun write_each :: "('a \<Rightarrow> chunk_cursor \<Rightarrow> unit cures) \<Rightarrow> 'a list \<Rightarrow> nat \<Rightarrow> chunk_cursor \<Rightarrow> unit cures" where
  "write_each wr vs 0 c = ok () c"
| "write_each wr [] (Suc n) c = Undefined"
| "write_each wr (v # vs) (Suc n) c = bindR (wr v c) (\<lambda>_. write_each wr vs n)"

definition write_typed_array ::
  "('a \<Rightarrow> chunk_cursor \<Rightarrow> unit cures) \<Rightarrow> 'a list option \<Rightarrow> nat \<Rightarrow> chunk_cursor \<Rightarrow> unit cures" where
  "write_typed_array wr array count c =
     (if count > 0 \<and> array = None then fail NMO_ERR_INVALID_ARGUMENT c
      else bindR (nmo_chunk_write_dword (of_nat count) c) (\<lambda>_.
        write_each wr (case array of None \<Rightarrow> [] | Some vs \<Rightarrow> vs) count))"

definition nmo_chunk_read_object_id_array ::
  "chunk_cursor \<times> arena \<Rightarrow> (nat \<times> u32 list option, chunk_cursor \<times> arena) cres" where
  "nmo_chunk_read_object_id_array = read_typed_array 4 nmo_chunk_read_object_id"

definition nmo_chunk_write_object_id_array :: "u32 list option \<Rightarrow> nat \<Rightarrow> chunk_cursor \<Rightarrow> unit cures" where
  "nmo_chunk_write_object_id_array = write_typed_array nmo_chunk_write_object_id"

definition nmo_chunk_read_int_array ::
  "chunk_cursor \<times> arena \<Rightarrow> (nat \<times> u32 list option, chunk_cursor \<times> arena) cres" where
  "nmo_chunk_read_int_array = read_typed_array 4 nmo_chunk_read_int"

definition nmo_chunk_write_int_array :: "u32 list option \<Rightarrow> nat \<Rightarrow> chunk_cursor \<Rightarrow> unit cures" where
  "nmo_chunk_write_int_array = write_typed_array nmo_chunk_write_int"

definition nmo_chunk_read_float_array ::
  "chunk_cursor \<times> arena \<Rightarrow> (nat \<times> f32 list option, chunk_cursor \<times> arena) cres" where
  "nmo_chunk_read_float_array = read_typed_array 4 nmo_chunk_read_float"

definition nmo_chunk_write_float_array :: "f32 list option \<Rightarrow> nat \<Rightarrow> chunk_cursor \<Rightarrow> unit cures" where
  "nmo_chunk_write_float_array = write_typed_array nmo_chunk_write_float"

definition nmo_chunk_read_dword_array ::
  "chunk_cursor \<times> arena \<Rightarrow> (nat \<times> u32 list option, chunk_cursor \<times> arena) cres" where
  "nmo_chunk_read_dword_array = read_typed_array 4 nmo_chunk_read_dword"

definition nmo_chunk_write_dword_array :: "u32 list option \<Rightarrow> nat \<Rightarrow> chunk_cursor \<Rightarrow> unit cures" where
  "nmo_chunk_write_dword_array = write_typed_array nmo_chunk_write_dword"

definition nmo_chunk_read_byte_array ::
  "chunk_cursor \<times> arena \<Rightarrow> (nat \<times> u8 list option, chunk_cursor \<times> arena) cres" where
  "nmo_chunk_read_byte_array = read_typed_array 1 nmo_chunk_read_byte"

definition nmo_chunk_write_byte_array :: "u8 list option \<Rightarrow> nat \<Rightarrow> chunk_cursor \<Rightarrow> unit cures" where
  "nmo_chunk_write_byte_array = write_typed_array nmo_chunk_write_byte"

text \<open>An array of strings; each pointer is stored whatever the call that reads the string returns.\<close>

fun read_strings :: "nat \<Rightarrow> nat \<Rightarrow> chunk_cursor \<Rightarrow> u8 list option list cures" where
  "read_strings room n c =
     (if n = 0 then ok [] c
      else bindE (nmo_chunk_read_string c) (\<lambda>((len, str), c).
        if room = 0 then Undefined
        else if len = 0 \<and> str = None then fail NMO_ERR_INVALID_FORMAT c
        else bindR (read_strings (room - 1) (n - 1) c) (\<lambda>vs. ok (str # vs))))"

declare read_strings.simps [simp del]

definition nmo_chunk_read_string_array ::
  "chunk_cursor \<times> arena \<Rightarrow> (nat \<times> u8 list option list option, chunk_cursor \<times> arena) cres" where
  "nmo_chunk_read_string_array = (\<lambda>(c, a).
     bindE (nmo_chunk_read_object_sequence_start c) (\<lambda>(r, c). case r of
       Inl e \<Rightarrow> fail e (c, a)
     | Inr count \<Rightarrow>
         if count = 0 then ok (0, None) (c, a)
         else bindE (nmo_arena_alloc (sz_mul count 8) 8 a) (\<lambda>(q, a). case q of
           None \<Rightarrow> fail NMO_ERR_NOMEM (c, a)
         | Some rg \<Rightarrow>
             bindE (read_strings (region_room a rg div 8) count c) (\<lambda>(r, c). case r of
               Inl e \<Rightarrow> fail e (c, a)
             | Inr vs \<Rightarrow> ok (count, Some vs) (c, a)))))"

definition nmo_chunk_write_string_array :: "u8 list option list option \<Rightarrow> nat \<Rightarrow> chunk_cursor \<Rightarrow> unit cures" where
  "nmo_chunk_write_string_array = write_typed_array nmo_chunk_write_string"

section \<open>Mathematical types\<close>

text \<open>The components in turn, each a \<^verbatim>\<open>float\<close>; the first failure is returned.\<close>

fun read_floats :: "nat \<Rightarrow> chunk_cursor \<Rightarrow> f32 list cures" where
  "read_floats 0 c = ok [] c"
| "read_floats (Suc n) c =
     bindR (nmo_chunk_read_float c) (\<lambda>x c. bindR (read_floats n c) (\<lambda>xs. ok (x # xs)))"

fun write_floats :: "f32 list \<Rightarrow> chunk_cursor \<Rightarrow> unit cures" where
  "write_floats [] c = ok () c"
| "write_floats (x # xs) c = bindR (nmo_chunk_write_float x c) (\<lambda>_. write_floats xs)"

text \<open>A vector pointer that may be NULL is an option.\<close>

definition write_struct :: "('a \<Rightarrow> f32 list) \<Rightarrow> 'a option \<Rightarrow> chunk_cursor \<Rightarrow> unit cures" where
  "write_struct parts p c = (case p of
       None \<Rightarrow> fail NMO_ERR_INVALID_ARGUMENT c
     | Some v \<Rightarrow> write_floats (parts v) c)"

definition nmo_chunk_read_vector2 :: "chunk_cursor \<Rightarrow> nmo_vector2 cures" where
  "nmo_chunk_read_vector2 c =
     bindR (read_floats 2 c) (\<lambda>xs. ok \<lparr>v2_x = xs ! 0, v2_y = xs ! 1\<rparr>)"

definition nmo_chunk_write_vector2 :: "nmo_vector2 option \<Rightarrow> chunk_cursor \<Rightarrow> unit cures" where
  "nmo_chunk_write_vector2 = write_struct (\<lambda>v. [v2_x v, v2_y v])"

definition nmo_chunk_read_vector3 :: "chunk_cursor \<Rightarrow> nmo_vector cures" where
  "nmo_chunk_read_vector3 c =
     bindR (read_floats 3 c) (\<lambda>xs. ok \<lparr>v3_x = xs ! 0, v3_y = xs ! 1, v3_z = xs ! 2\<rparr>)"

definition nmo_chunk_write_vector3 :: "nmo_vector option \<Rightarrow> chunk_cursor \<Rightarrow> unit cures" where
  "nmo_chunk_write_vector3 = write_struct (\<lambda>v. [v3_x v, v3_y v, v3_z v])"

definition nmo_chunk_read_vector4 :: "chunk_cursor \<Rightarrow> nmo_vector4 cures" where
  "nmo_chunk_read_vector4 c = bindR (read_floats 4 c) (\<lambda>xs. ok (dwords_vector4 xs))"

definition nmo_chunk_write_vector4 :: "nmo_vector4 option \<Rightarrow> chunk_cursor \<Rightarrow> unit cures" where
  "nmo_chunk_write_vector4 = write_struct vector4_dwords"

definition nmo_chunk_read_quaternion :: "chunk_cursor \<Rightarrow> nmo_quaternion cures" where
  "nmo_chunk_read_quaternion c =
     bindR (read_floats 4 c) (\<lambda>xs. ok \<lparr>q_x = xs ! 0, q_y = xs ! 1, q_z = xs ! 2, q_w = xs ! 3\<rparr>)"

definition nmo_chunk_write_quaternion :: "nmo_quaternion option \<Rightarrow> chunk_cursor \<Rightarrow> unit cures" where
  "nmo_chunk_write_quaternion = write_struct (\<lambda>q. [q_x q, q_y q, q_z q, q_w q])"

definition nmo_chunk_read_matrix :: "chunk_cursor \<Rightarrow> nmo_matrix cures" where
  "nmo_chunk_read_matrix c =
     bindR (read_floats 16 c) (\<lambda>xs. ok \<lparr>m_row0 = dwords_vector4 xs, m_row1 = dwords_vector4 (drop 4 xs),
       m_row2 = dwords_vector4 (drop 8 xs), m_row3 = dwords_vector4 (drop 12 xs)\<rparr>)"

definition nmo_chunk_write_matrix :: "nmo_matrix option \<Rightarrow> chunk_cursor \<Rightarrow> unit cures" where
  "nmo_chunk_write_matrix = write_struct matrix_dwords"

definition nmo_chunk_read_color :: "chunk_cursor \<Rightarrow> nmo_color cures" where
  "nmo_chunk_read_color c =
     bindR (read_floats 4 c) (\<lambda>xs. ok \<lparr>col_r = xs ! 0, col_g = xs ! 1, col_b = xs ! 2, col_a = xs ! 3\<rparr>)"

definition nmo_chunk_write_color :: "nmo_color option \<Rightarrow> chunk_cursor \<Rightarrow> unit cures" where
  "nmo_chunk_write_color = write_struct (\<lambda>x. [col_r x, col_g x, col_b x, col_a x])"

section \<open>Sub-chunks\<close>

definition nmo_chunk_start_read_sub_chunk_sequence :: "chunk_cursor \<Rightarrow> nat cures" where
  "nmo_chunk_start_read_sub_chunk_sequence c = bindR (nmo_chunk_read_dword c) (\<lambda>count. ok (unat count))"

definition nmo_chunk_start_sub_chunk_sequence :: "nat \<Rightarrow> chunk_cursor \<Rightarrow> unit cures" where
  "nmo_chunk_start_sub_chunk_sequence count c =
     nmo_chunk_write_dword (of_nat count) (add_option NMO_CHUNK_OPTION_CHN c)"

text \<open>A block of \<open>n\<close> words copied into a new array of the sub-chunk, \<open>None\<close> when there are none.\<close>

definition read_words_block :: "nat \<Rightarrow> chunk_cursor \<Rightarrow> u32 list option cures" where
  "read_words_block n c =
     (if n = 0 then ok None c
      else if \<not> can_read c n then fail NMO_ERR_EOF c
      else bindE (nmo_arena_alloc (sz_mul n 4) 4 (cu_arena c)) (\<lambda>(q, a).
        let c = c\<lparr>cu_arena := a\<rparr>
        in case (q, cu_state c) of
             (Some _, Some st) \<Rightarrow>
               bindE (load_dwords (c_data (cu_body c)) (current_pos st) n) (\<lambda>ds. ok (Some ds) (move_on n c))
           | (Some _, None) \<Rightarrow> Undefined
           | (None, _) \<Rightarrow> fail NMO_ERR_NOMEM c))"

definition nmo_chunk_read_sub_chunk :: "chunk_cursor \<Rightarrow> nmo_chunk cures" where
  "nmo_chunk_read_sub_chunk c =
     bindR (nmo_chunk_read_dword c) (\<lambda>total_size c.
     bindR (nmo_chunk_read_word c) (\<lambda>class_id c.
     bindR (nmo_chunk_read_dword c) (\<lambda>version_info c.
     bindR (nmo_chunk_read_dword c) (\<lambda>data_size c.
     bindR (nmo_chunk_read_dword c) (\<lambda>file_flag c.
     bindR (nmo_chunk_read_dword c) (\<lambda>id_count c.
     bindR (nmo_chunk_read_dword c) (\<lambda>chunk_count c.
     bindR (nmo_chunk_read_dword c) (\<lambda>manager_count c.
     bindE (nmo_chunk_create (cu_arena c)) (\<lambda>(sub, a).
       let c = c\<lparr>cu_arena := a\<rparr>
       in case sub of
            None \<Rightarrow> fail NMO_ERR_NOMEM c
          | Some sub \<Rightarrow>
              let b = (c_body sub)\<lparr>c_chunk_class_id := ucast class_id,
                        c_data_version := version_info AND 0xFF,
                        c_chunk_version := drop_bit 16 version_info AND 0xFF\<rparr>
              in bindR (read_words_block (unat data_size) c) (\<lambda>data c.
                   let b = (if data_size > 0
                            then b\<lparr>c_data := data, c_data_size := unat data_size, c_data_capacity := unat data_size\<rparr>
                            else b)
                   in bindR (read_words_block (unat id_count) c) (\<lambda>ids c.
                        let b = (if id_count > 0
                                 then b\<lparr>c_ids := ids, c_id_count := unat id_count, c_id_capacity := unat id_count\<rparr>
                                 else b)
                        in ok (Chunk b (c_chunks sub))
                             (if chunk_count > 0 then move_on (unat chunk_count) c else c))))))))))))"

definition set_subs :: "nmo_chunk option list option \<Rightarrow> nat \<Rightarrow> nat \<Rightarrow> chunk_cursor \<Rightarrow> chunk_cursor" where
  "set_subs p n capacity c =
     c\<lparr>cu_subs := p, cu_body := (cu_body c)\<lparr>c_chunk_count := n, c_chunk_capacity := capacity\<rparr>\<rparr>"

text \<open>The pointers behind the last one in a new array are not looked at before they are stored.\<close>

definition grow_subs :: "chunk_cursor \<Rightarrow> unit cures" where
  "grow_subs c =
     (let b = cu_body c; n = c_chunk_count b
      in if n \<ge> c_chunk_capacity b then
           let new_capacity = (if c_chunk_capacity b = 0 then 4 else sz_mul (c_chunk_capacity b) 2)
           in bindE (nmo_arena_alloc (sz_mul new_capacity 8) 8 (cu_arena c)) (\<lambda>(q, a).
                let c = c\<lparr>cu_arena := a\<rparr>
                in case q of
                     None \<Rightarrow> fail NMO_ERR_NOMEM c
                   | Some rg \<Rightarrow>
                       let new_chunks = replicate (rg_size rg div 8) None
                       in case cu_subs c of
                            None \<Rightarrow> ok () (set_subs (Some new_chunks) n new_capacity c)
                          | Some cs \<Rightarrow>
                              if n \<le> length cs \<and> n \<le> length new_chunks
                              then ok () (set_subs (Some (mem_blit new_chunks 0 (take n cs))) n new_capacity c)
                              else Undefined)
         else ok () c)"

definition nmo_chunk_add_sub_chunk :: "nmo_chunk option \<Rightarrow> chunk_cursor \<Rightarrow> unit cures" where
  "nmo_chunk_add_sub_chunk sub c =
     (if sub = None then fail NMO_ERR_INVALID_ARGUMENT c
      else bindR (grow_subs c) (\<lambda>_ c.
        let n = c_chunk_count (cu_body c)
        in case cu_subs c of
             None \<Rightarrow> Undefined
           | Some cs \<Rightarrow>
               if n < length cs
               then ok () (add_option NMO_CHUNK_OPTION_CHN
                      (set_subs (Some (cs[n := sub])) (sz_add n 1) (c_chunk_capacity (cu_body c)) c))
               else Undefined))"

definition nmo_chunk_get_sub_chunk_count :: "chunk_cursor \<Rightarrow> u32" where
  "nmo_chunk_get_sub_chunk_count c = of_nat (c_chunk_count (cu_body c))"

definition nmo_chunk_get_sub_chunk :: "u32 \<Rightarrow> chunk_cursor \<Rightarrow> nmo_chunk option eff" where
  "nmo_chunk_get_sub_chunk index c =
     (if unat index \<ge> c_chunk_count (cu_body c) then Done None
      else case cu_subs c of
        None \<Rightarrow> Undefined
      | Some cs \<Rightarrow> if unat index < length cs then Done (cs ! unat index) else Undefined)"

section \<open>Checksum\<close>

text \<open>\<open>adler\<close> stands for \<^verbatim>\<open>mz_adler32\<close>.\<close>

definition nmo_chunk_compute_crc ::
  "(u32 \<Rightarrow> u8 list \<Rightarrow> u64) \<Rightarrow> u32 \<Rightarrow> chunk_cursor \<Rightarrow> u32 eff" where
  "nmo_chunk_compute_crc adler initial_crc c =
     (if c_data_size (cu_body c) = 0 then Done initial_crc
      else bindE (load_bytes (c_data (cu_body c)) 0 (sz_mul (c_data_size (cu_body c)) 4)) (\<lambda>bs.
        Done (ucast (adler initial_crc bs))))"

end
