(* ===== verification/ChunkCompress.thy ===== *)
theory ChunkCompress
  imports ChunkApiData LayoutSpec
begin

text \<open>
  Compression of the words of a chunk in place, \<^verbatim>\<open>chunk_compression.c\<close>. The deflate codec is miniz,
  which is not part of the repository: it is a parameter, and what the properties need of it is that
  its decoder undoes its encoder.
\<close>

section \<open>Operations\<close>

text \<open>
  \<^verbatim>\<open>mz_compressBound\<close>, \<^verbatim>\<open>mz_compress2\<close> and \<^verbatim>\<open>mz_uncompress\<close>: the last two take the source, then the
  level or nothing, then the room in the destination, and return the bytes produced, \<open>None\<close> for any
  code but \<^verbatim>\<open>MZ_OK\<close>. \<open>scratch\<close> says which requests the default allocator grants.
\<close>

record miniz =
  mz_bound :: "nat \<Rightarrow> nat"
  mz_deflate :: "u8 list \<Rightarrow> int \<Rightarrow> nat \<Rightarrow> u8 list option"
  mz_inflate :: "u8 list \<Rightarrow> nat \<Rightarrow> u8 list option"
  scratch :: "nat \<Rightarrow> bool"

definition clamp_compression_level :: "int \<Rightarrow> int" where
  "clamp_compression_level level = (if level < 0 then 6 else if level > 9 then 9 else level)"

text \<open>\<open>None\<close> stands for no bytes at all, the NULL pointer with size zero.\<close>

definition chunk_generate_compressed_bytes :: "miniz \<Rightarrow> int \<Rightarrow> chunk_cursor \<Rightarrow> u8 list option cures" where
  "chunk_generate_compressed_bytes mz level c =
     (let src_size = sz_mul (c_data_size (cu_body c)) 4
      in if src_size = 0 then ok None c
         else if \<not> scratch mz (mz_bound mz src_size) then fail NMO_ERR_NOMEM c
         else bindE (load_bytes (c_data (cu_body c)) 0 src_size) (\<lambda>src.
           case mz_deflate mz src (clamp_compression_level level) (mz_bound mz src_size) of
             None \<Rightarrow> fail NMO_ERR_INTERNAL c
           | Some compressed \<Rightarrow> ok (Some compressed) c))"

definition chunk_commit_compressed_payload :: "u8 list \<Rightarrow> nat \<Rightarrow> chunk_cursor \<Rightarrow> unit cures" where
  "chunk_commit_compressed_payload compressed original_dwords c =
     (let dest_dwords = sz_add (length compressed) 3 div 4
      in bindE (nmo_arena_alloc (sz_mul dest_dwords 4) 4 (cu_arena c)) (\<lambda>(q, a).
           let c = c\<lparr>cu_arena := a\<rparr>; b = cu_body c
           in case q of
                None \<Rightarrow> fail NMO_ERR_NOMEM c
              | Some _ \<Rightarrow> ok () (c\<lparr>cu_body := b
                  \<lparr>c_data := Some (dwords_of_bytes compressed),
                   c_data_size := dest_dwords, c_data_capacity := dest_dwords,
                   c_chunk_options := c_chunk_options b OR NMO_CHUNK_OPTION_PACKED,
                   c_unpack_size := original_dwords, c_compressed_size := length compressed,
                   c_uncompressed_size := sz_mul original_dwords 4, c_is_compressed := True\<rparr>\<rparr>)))"

definition nmo_chunk_compress :: "miniz \<Rightarrow> int \<Rightarrow> chunk_cursor \<Rightarrow> unit cures" where
  "nmo_chunk_compress mz compression_level c =
     (if c_data_size (cu_body c) = 0 then ok () c
      else if has_option (c_chunk_options (cu_body c)) NMO_CHUNK_OPTION_PACKED then ok () c
      else bindR (chunk_generate_compressed_bytes mz compression_level c) (\<lambda>r c.
        case r of
          None \<Rightarrow> ok () c
        | Some compressed \<Rightarrow>
            if compressed = [] then ok () c
            else chunk_commit_compressed_payload compressed (c_data_size (cu_body c)) c))"

text \<open>
  The threshold is a \<^verbatim>\<open>float\<close> in the code. Here \<open>ratio_ok\<close> says whether it lies in (0,1], and \<open>keep\<close>
  is the comparison of the quotient of the two sizes with it.
\<close>

definition nmo_chunk_compress_if_beneficial ::
  "miniz \<Rightarrow> int \<Rightarrow> bool \<Rightarrow> (nat \<Rightarrow> nat \<Rightarrow> bool) \<Rightarrow> chunk_cursor \<Rightarrow> unit cures" where
  "nmo_chunk_compress_if_beneficial mz compression_level ratio_ok keep c =
     (let original_size = sz_mul (c_data_size (cu_body c)) 4
      in if \<not> ratio_ok then fail NMO_ERR_INVALID_ARGUMENT c
         else if has_option (c_chunk_options (cu_body c)) NMO_CHUNK_OPTION_PACKED then ok () c
         else if original_size = 0 then ok () c
         else bindR (chunk_generate_compressed_bytes mz compression_level c) (\<lambda>r c.
           case r of
             None \<Rightarrow> ok () c
           | Some compressed \<Rightarrow>
               if compressed = [] then ok () c
               else if \<not> keep (length compressed) original_size then ok () c
               else chunk_commit_compressed_payload compressed (c_data_size (cu_body c)) c))"

definition nmo_chunk_decompress :: "miniz \<Rightarrow> chunk_cursor \<Rightarrow> unit cures" where
  "nmo_chunk_decompress mz c =
     (let b = cu_body c; dest_len = sz_mul (c_unpack_size b) 4
      in if \<not> has_option (c_chunk_options b) NMO_CHUNK_OPTION_PACKED then ok () c
         else if c_unpack_size b = 0 then fail NMO_ERR_INVALID_STATE c
         else bindE (nmo_arena_alloc dest_len 4 (cu_arena c)) (\<lambda>(q, a).
           let c = c\<lparr>cu_arena := a\<rparr>
           in case q of
                None \<Rightarrow> fail NMO_ERR_NOMEM c
              | Some _ \<Rightarrow>
                  bindE (load_bytes (c_data b) 0 (sz_mul (c_data_size b) 4)) (\<lambda>src.
                    case mz_inflate mz src dest_len of
                      None \<Rightarrow> fail NMO_ERR_INTERNAL c
                    | Some out \<Rightarrow>
                        if length out \<noteq> dest_len then fail NMO_ERR_CORRUPT c
                        else ok () (c\<lparr>cu_body := b
                          \<lparr>c_data := Some (dwords_of_bytes out),
                           c_data_size := c_unpack_size b, c_data_capacity := c_unpack_size b,
                           c_chunk_options := c_chunk_options b AND NOT NMO_CHUNK_OPTION_PACKED,
                           c_compressed_size := 0, c_uncompressed_size := sz_mul (c_unpack_size b) 4,
                           c_is_compressed := False, c_unpack_size := 0\<rparr>\<rparr>))))"

definition nmo_chunk_pack :: "miniz \<Rightarrow> int \<Rightarrow> chunk_cursor \<Rightarrow> unit cures" where
  "nmo_chunk_pack mz compression_level c = nmo_chunk_compress mz compression_level c"

definition nmo_chunk_unpack :: "miniz \<Rightarrow> chunk_cursor \<Rightarrow> unit cures" where
  "nmo_chunk_unpack mz c = nmo_chunk_decompress mz c"

section \<open>Compressing and decompressing\<close>

text \<open>
  What is relied on: the encoder stays within its room, and the decoder, given the encoder's
  stream and the zero bytes, three at most, that fill up its last word, returns what was encoded.
\<close>

definition miniz_inverts :: "miniz \<Rightarrow> bool" where
  "miniz_inverts mz \<longleftrightarrow> (\<forall>src level room out k. mz_deflate mz src level room = Some out \<longrightarrow> k \<le> 3
     \<longrightarrow> length out \<le> room \<and> mz_inflate mz (out @ replicate k 0) (length src) = Some src)"

text \<open>The words of a chunk as the caller sees them.\<close>

definition chunk_content :: "chunk_cursor \<Rightarrow> u32 list" where
  "chunk_content c = words (c_data (cu_body c)) (c_data_size (cu_body c))"

lemma load_all_bytes:
  assumes "buffer_ok p n" and "0 < n"
  shows "load_bytes p 0 (4 * n) = Done (bytes_of_dwords (words p n))"
  using assms by (auto simp: load_bytes_def buffer_ok_def words_def take_bytes_of_dwords split: option.splits)

lemma bytes_of_padded: "\<exists>k \<le> 3. bytes_of_dwords (dwords_of_bytes bs) = bs @ replicate k 0"
proof (induction bs rule: dwords_of_bytes.induct)
  case (2 a)
  show ?case by (rule exI [of _ 3]) (simp add: dword_bytes_dword eval_nat_numeral)
next
  case (3 a b)
  show ?case by (rule exI [of _ 2]) (simp add: dword_bytes_dword eval_nat_numeral)
next
  case (4 a b c)
  show ?case by (rule exI [of _ 1]) (simp add: dword_bytes_dword)
qed (auto simp: dword_bytes_dword)

lemma packed_bit: "has_option (x OR NMO_CHUNK_OPTION_PACKED) NMO_CHUNK_OPTION_PACKED"
  "\<not> has_option x NMO_CHUNK_OPTION_PACKED
     \<Longrightarrow> (x OR NMO_CHUNK_OPTION_PACKED) AND NOT NMO_CHUNK_OPTION_PACKED = x"
proof -
  show "has_option (x OR NMO_CHUNK_OPTION_PACKED) NMO_CHUNK_OPTION_PACKED"
    by (simp add: has_option_def NMO_CHUNK_OPTION_PACKED_def bit.conj_disj_distrib2)
  assume "\<not> has_option x NMO_CHUNK_OPTION_PACKED"
  then have z: "x AND NMO_CHUNK_OPTION_PACKED = 0" by (simp add: has_option_def)
  show "(x OR NMO_CHUNK_OPTION_PACKED) AND NOT NMO_CHUNK_OPTION_PACKED = x"
  proof (rule bit_word_eqI)
    fix n
    have "\<not> (bit x n \<and> bit NMO_CHUNK_OPTION_PACKED n)" using z by (metis bit_0_eq bit_and_iff bot_apply bot_bool_def)
    then show "n < LENGTH(32) \<Longrightarrow> bit ((x OR NMO_CHUNK_OPTION_PACKED) AND NOT NMO_CHUNK_OPTION_PACKED) n = bit x n"
      by (auto simp: bit_simps)
  qed
qed

text \<open>The outcome of a successful compression.\<close>

lemma compress_ok:
  assumes c: "buffer_ok (c_data (cu_body c)) (c_data_size (cu_body c))" "0 < c_data_size (cu_body c)"
      "\<not> nmo_chunk_is_compressed c" "arena_sane (cu_arena c)" "arena_grants (cu_arena c)"
    and n: "n = 4 * c_data_size (cu_body c)" "scratch mz (mz_bound mz n)"
    and out: "mz_deflate mz (bytes_of_dwords (chunk_content c)) (clamp_compression_level level) (mz_bound mz n) = Some out"
      "out \<noteq> []" "length out < 2 ^ 60"
  obtains a where "arena_sane a" "arena_grants a"
    "nmo_chunk_compress mz level c = ok () (c\<lparr>cu_arena := a, cu_body := (cu_body c)
       \<lparr>c_data := Some (dwords_of_bytes out), c_data_size := (length out + 3) div 4,
        c_data_capacity := (length out + 3) div 4,
        c_chunk_options := c_chunk_options (cu_body c) OR NMO_CHUNK_OPTION_PACKED,
        c_unpack_size := c_data_size (cu_body c), c_compressed_size := length out,
        c_uncompressed_size := n, c_is_compressed := True\<rparr>\<rparr>)"
proof -
  have k: "sz_mul (c_data_size (cu_body c)) 4 = n" using c(1) n(1) by (simp add: buffer_ok_def sz_mul_small)
  have m: "sz_add (length out) 3 = length out + 3" using out(3) by (simp add: sz_add_small)
  have w: "sz_mul ((length out + 3) div 4) 4 = (length out + 3) div 4 * 4"
    using out(3) by (intro sz_mul_small) simp
  have "0 < (length out + 3) div 4 * 4" "(length out + 3) div 4 * 4 < 2 ^ 62" using out(2,3) by (cases out; simp)+
  then obtain r a where a: "nmo_arena_alloc ((length out + 3) div 4 * 4) 4 (cu_arena c) = Done (Some r, a)"
    "arena_sane a" "arena_grants a"
    using arena_grant_region [OF c(4,5)] by (metis insertI1 insertI2)
  have "load_bytes (c_data (cu_body c)) 0 n = Done (bytes_of_dwords (chunk_content c))"
    unfolding n(1) chunk_content_def by (rule load_all_bytes [OF c(1,2)])
  then have "nmo_chunk_compress mz level c = ok () (c\<lparr>cu_arena := a, cu_body := (cu_body c)
       \<lparr>c_data := Some (dwords_of_bytes out), c_data_size := (length out + 3) div 4,
        c_data_capacity := (length out + 3) div 4,
        c_chunk_options := c_chunk_options (cu_body c) OR NMO_CHUNK_OPTION_PACKED,
        c_unpack_size := c_data_size (cu_body c), c_compressed_size := length out,
        c_uncompressed_size := n, c_is_compressed := True\<rparr>\<rparr>)"
    using c n out a(1)
    by (simp add: nmo_chunk_compress_def chunk_generate_compressed_bytes_def chunk_commit_compressed_payload_def
        k m w Let_def nmo_chunk_is_compressed_def del: One_nat_def)
  with a(2,3) that show ?thesis by blast
qed

text \<open>
  C23: compressing a chunk and decompressing it gives the words back, with their number and the
  option flags, whatever deflate codec is behind it, as long as its decoder undoes its encoder; the
  zero bytes that fill up the last word of the compressed data do no harm.
\<close>

theorem compression_round_trip:
  assumes "miniz_inverts mz" and "body_ok (cu_body c)" "0 < c_data_size (cu_body c)" "\<not> nmo_chunk_is_compressed c"
    and "arena_sane (cu_arena c)" "arena_grants (cu_arena c)"
    and "n = 4 * c_data_size (cu_body c)" "scratch mz (mz_bound mz n)" "mz_bound mz n < 2 ^ 60"
    and "mz_deflate mz (bytes_of_dwords (chunk_content c)) (clamp_compression_level level) (mz_bound mz n) = Some out"
    and "out \<noteq> []"
  shows "\<exists>d e. nmo_chunk_compress mz level c = ok () d \<and> nmo_chunk_is_compressed d
     \<and> take (length out) (bytes_of_dwords (chunk_content d)) = out
     \<and> nmo_chunk_decompress mz d = ok () e \<and> \<not> nmo_chunk_is_compressed e
     \<and> chunk_content e = chunk_content c
     \<and> c_chunk_options (cu_body e) = c_chunk_options (cu_body c)"
proof -
  let ?m = "(length out + 3) div 4" and ?bs = "bytes_of_dwords (chunk_content c)"
  have buf: "buffer_ok (c_data (cu_body c)) (c_data_size (cu_body c))" using assms(2) by (simp add: body_ok_def)
  from assms(1,9,10) have short: "length out < 2 ^ 60" unfolding miniz_inverts_def by fastforce
  obtain a where a: "arena_sane a" "arena_grants a"
    and d: "nmo_chunk_compress mz level c = ok () (c\<lparr>cu_arena := a, cu_body := (cu_body c)
       \<lparr>c_data := Some (dwords_of_bytes out), c_data_size := ?m, c_data_capacity := ?m,
        c_chunk_options := c_chunk_options (cu_body c) OR NMO_CHUNK_OPTION_PACKED,
        c_unpack_size := c_data_size (cu_body c), c_compressed_size := length out,
        c_uncompressed_size := n, c_is_compressed := True\<rparr>\<rparr>)" (is "_ = ok () ?d")
    using compress_ok [OF buf assms(3,4,5,6,7,8,10,11) short] .
  have len: "length ?bs = n" using buf assms(7) by (simp add: chunk_content_def)
  have n: "0 < n" "n < 2 ^ 62" "sz_mul (c_data_size (cu_body c)) 4 = n"
    using buf assms(3,7) by (simp_all add: buffer_ok_def sz_mul_small)
  obtain r b where b: "nmo_arena_alloc n 4 a = Done (Some r, b)"
    using arena_grant_region [OF a n(1,2)] by (metis insertI1 insertI2)
  have m: "0 < ?m" "buffer_ok (Some (dwords_of_bytes out)) ?m" "sz_mul ?m 4 = 4 * ?m"
    using assms(11) short by (cases out; simp add: buffer_ok_def sz_mul_small)+
  have load: "load_bytes (Some (dwords_of_bytes out)) 0 (4 * ?m) = Done (bytes_of_dwords (dwords_of_bytes out))"
    using load_all_bytes [OF m(2,1)] by (simp add: words_def)
  have inflate: "mz_inflate mz (bytes_of_dwords (dwords_of_bytes out)) n = Some ?bs"
  proof -
    obtain k where "k \<le> 3" "bytes_of_dwords (dwords_of_bytes out) = out @ replicate k 0" using bytes_of_padded by blast
    then show ?thesis using assms(1,10) len by (metis miniz_inverts_def)
  qed
  have opts: "\<not> has_option (c_chunk_options (cu_body c)) NMO_CHUNK_OPTION_PACKED"
    using assms(4) by (simp add: nmo_chunk_is_compressed_def)
  define e where "e = c\<lparr>cu_arena := b, cu_body := (cu_body ?d)
     \<lparr>c_data := Some (chunk_content c), c_data_size := c_data_size (cu_body c), c_data_capacity := c_data_size (cu_body c),
      c_chunk_options := c_chunk_options (cu_body c), c_compressed_size := 0, c_uncompressed_size := n,
      c_is_compressed := False, c_unpack_size := 0\<rparr>\<rparr>"
  have "nmo_chunk_decompress mz ?d = ok () e"
    using assms(3) b packed_bit [of "c_chunk_options (cu_body c)"] opts len
    by (simp add: nmo_chunk_decompress_def Let_def n(3) m(3) load inflate e_def)
  moreover have "chunk_content e = chunk_content c" using buf
    by (simp add: chunk_content_def e_def words_def [of "Some _"])
  ultimately show ?thesis
    using d opts packed_bit(1)
    by (intro exI [of _ ?d] exI [of _ e])
       (auto simp: nmo_chunk_is_compressed_def e_def chunk_content_def words_def)
qed

section \<open>Compressed chunks in files\<close>

lemma low_byte_no_packed: "\<not> has_option (x AND 0xFF) NMO_CHUNK_OPTION_PACKED"
  by (simp add: has_option_def NMO_CHUNK_OPTION_PACKED_def and.assoc)

lemma loaded_not_packed: "\<not> has_option (c_chunk_options (loaded b)) NMO_CHUNK_OPTION_PACKED"
  using low_byte_no_packed
  by (auto simp: loaded_def Let_def has_option_def chunk_option_defs NMO_CHUNK_OPTION_PACKED_def)

text \<open>
  C35: the flag of a compressed chunk does not fit the eight option bits a file has. A compressed
  chunk that is saved and loaded again holds the compressed words, is no longer marked as compressed,
  and decompressing it succeeds without doing anything.
\<close>

theorem compression_lost_in_file:
  assumes "nmo_chunk_is_compressed c" and "body_ok (cu_body c)" "counts_fit32 (cu_body c)"
    and "arena_sane a" "arena_grants a"
  shows "\<exists>ws a' l a''. nmo_chunk_serialize_version1 (Chunk (cu_body c) (cu_subs c)) a = ok (ws, 4 * length ws) a'
     \<and> nmo_chunk_parse (Chunk empty_body None) (bytes_of_dwords ws) (4 * length ws) a' = ok () (l, a'')
     \<and> chunk_content (cursor_of l a'') = chunk_content c
     \<and> \<not> nmo_chunk_is_compressed (cursor_of l a'')
     \<and> (\<forall>mz. nmo_chunk_decompress mz (cursor_of l a'') = ok () (cursor_of l a''))"
proof -
  let ?ws = "layout_words (cu_body c)"
  let ?b = "(loaded (cu_body c))\<lparr>c_raw_data := Some (bytes_of_dwords ?ws), c_raw_size := 4 * length ?ws\<rparr>"
  have "4 * length ?ws < 2 ^ 61" using length_layout_words(2) [OF assms(2,3)] by simp
  from serialize_layout_words [OF assms(2) this assms(4,5)] obtain a' where a':
    "nmo_chunk_serialize_version1 (Chunk (cu_body c) (cu_subs c)) a = ok (?ws, 4 * length ?ws) a'"
    "arena_sane a'" "arena_grants a'" by blast
  from parse_loaded [OF assms(2,3) a'(2,3)] obtain a'' where a'':
    "nmo_chunk_parse (Chunk empty_body None) (bytes_of_dwords ?ws) (4 * length ?ws) a' = ok () (Chunk ?b None, a'')"
    by auto
  have size: "c_data_size (loaded (cu_body c)) = c_data_size (cu_body c)" by (simp add: loaded_def Let_def)
  have plain: "\<not> nmo_chunk_is_compressed (cursor_of (Chunk ?b None) a'')"
    using loaded_not_packed by (simp add: nmo_chunk_is_compressed_def cursor_of_def)
  moreover have "chunk_content (cursor_of (Chunk ?b None) a'') = chunk_content c"
    using loaded_words(1) [OF assms(2)] by (simp add: chunk_content_def cursor_of_def size)
  moreover have "nmo_chunk_decompress mz (cursor_of (Chunk ?b None) a'') = ok () (cursor_of (Chunk ?b None) a'')" for mz
    using plain by (simp add: nmo_chunk_decompress_def nmo_chunk_is_compressed_def Let_def)
  ultimately show ?thesis using a'(1) a'' by blast
qed

text \<open>A codec that stores its input, and a chunk of three words in the default arena.\<close>

definition storing_codec :: miniz where
  "storing_codec = \<lparr>mz_bound = \<lambda>n. n, mz_deflate = \<lambda>bs level room. if length bs \<le> room then Some bs else None,
     mz_inflate = \<lambda>bs room. Some (take room bs), scratch = \<lambda>_. True\<rparr>"

definition three_words :: "arena \<Rightarrow> chunk_cursor" where
  "three_words a = cursor_of (Chunk (empty_body\<lparr>c_data := Some [7, 8, 9], c_data_size := 3, c_data_capacity := 3\<rparr>) None) a"

lemma three_words_fields [simp]:
  "c_data (cu_body (three_words a)) = Some [7, 8, 9]" "c_data_size (cu_body (three_words a)) = 3"
  "cu_arena (three_words a) = a" "body_ok (cu_body (three_words a))" "\<not> nmo_chunk_is_compressed (three_words a)"
  by (simp_all add: three_words_def cursor_of_def body_ok_def buffer_ok_def empty_body_def
      nmo_chunk_is_compressed_def has_option_def)

theorem compression_round_trip_witness:
  "\<exists>a d e. nmo_arena_create (\<lambda>_ _. True) (\<lambda>_ _. 0) 0 = Done (Some a)
     \<and> nmo_chunk_compress storing_codec 6 (three_words a) = ok () d \<and> nmo_chunk_is_compressed d
     \<and> nmo_chunk_decompress storing_codec d = ok () e \<and> chunk_content e = [7, 8, 9]"
proof -
  obtain a where a: "nmo_arena_create (\<lambda>_ _. True) (\<lambda>_ _. 0) 0 = Done (Some a)" "arena_sane a" "arena_grants a"
    by (rule default_arena_exists)
  have inv: "miniz_inverts storing_codec" by (auto simp: miniz_inverts_def storing_codec_def)
  have content: "chunk_content (three_words a) = [7, 8, 9]" by (simp add: chunk_content_def words_def)
  have "\<exists>d e. nmo_chunk_compress storing_codec 6 (three_words a) = ok () d \<and> nmo_chunk_is_compressed d
     \<and> take (length (bytes_of_dwords [7, 8, 9])) (bytes_of_dwords (chunk_content d)) = bytes_of_dwords [7, 8, 9]
     \<and> nmo_chunk_decompress storing_codec d = ok () e \<and> \<not> nmo_chunk_is_compressed e
     \<and> chunk_content e = chunk_content (three_words a)
     \<and> c_chunk_options (cu_body e) = c_chunk_options (cu_body (three_words a))"
    by (rule compression_round_trip [OF inv, where n = 12])
       (simp_all add: a content storing_codec_def dword_bytes_def)
  with a(1) content show ?thesis by auto
qed

theorem compression_lost_in_file_witness:
  "\<exists>a ws a' l a''. nmo_arena_create (\<lambda>_ _. True) (\<lambda>_ _. 0) 0 = Done (Some a)
     \<and> nmo_chunk_serialize_version1 (Chunk (empty_body\<lparr>c_data := Some [7], c_data_size := 1, c_chunk_options := 0x100\<rparr>) None) a
       = ok (ws, 4 * length ws) a'
     \<and> nmo_chunk_parse (Chunk empty_body None) (bytes_of_dwords ws) (4 * length ws) a' = ok () (l, a'')
     \<and> \<not> nmo_chunk_is_compressed (cursor_of l a'')"
proof -
  obtain a where a: "nmo_arena_create (\<lambda>_ _. True) (\<lambda>_ _. 0) 0 = Done (Some a)" "arena_sane a" "arena_grants a"
    by (rule default_arena_exists)
  let ?b = "empty_body\<lparr>c_data := Some [7], c_data_size := 1, c_chunk_options := 0x100\<rparr>"
  let ?c = "cursor_of (Chunk ?b None) a"
  have f: "nmo_chunk_is_compressed ?c" "body_ok (cu_body ?c)" "counts_fit32 (cu_body ?c)"
    by (simp_all add: cursor_of_def nmo_chunk_is_compressed_def has_option_def NMO_CHUNK_OPTION_PACKED_def
        body_ok_def buffer_ok_def counts_fit32_def empty_body_def)
  from compression_lost_in_file [OF f a(2,3)] a(1) show ?thesis
    by (fastforce simp: cursor_of_def)
qed

end
