(* ===== verification/ChunkApiSpec.thy ===== *)
theory ChunkApiSpec
  imports ChunkApiData ChunkCodec
begin

text \<open>
  What the chunk interface promises on a well-formed chunk. The judgement \<open>runs\<close> says that a write
  neither leaves a buffer nor loops, keeps the chunk well formed and fails at most for want of
  memory; \<open>written\<close> says which words it put at the position. \<open>yields\<close> says which value a read
  returns for the words at the position.
\<close>

section \<open>Well-formed chunks\<close>

definition cmem :: "chunk_cursor \<Rightarrow> u32 list" where
  "cmem c = (case c_data (cu_body c) of None \<Rightarrow> [] | Some xs \<Rightarrow> xs)"

abbreviation csize :: "chunk_cursor \<Rightarrow> nat" where "csize c \<equiv> c_data_size (cu_body c)"
abbreviation cpos :: "chunk_cursor \<Rightarrow> nat" where "cpos \<equiv> nmo_chunk_get_position"

definition tracked_ok :: "u32 list option \<Rightarrow> nat \<Rightarrow> nat \<Rightarrow> bool" where
  "tracked_ok p n capacity \<longleftrightarrow> (case p of
       None \<Rightarrow> n = 0
     | Some xs \<Rightarrow> length xs = capacity \<and> n \<le> capacity \<and> 0 < capacity \<and> capacity < 2 ^ 59)"

definition cursor_wf :: "chunk_cursor \<Rightarrow> bool" where
  "cursor_wf c \<longleftrightarrow> arena_sane (cu_arena c)
     \<and> (case c_data (cu_body c) of
          None \<Rightarrow> csize c = 0 \<and> c_data_capacity (cu_body c) = 0
        | Some xs \<Rightarrow> data_wf xs (csize c) (c_data_capacity (cu_body c)) \<and> xs \<noteq> [])
     \<and> tracked_ok (c_ids (cu_body c)) (c_id_count (cu_body c)) (c_id_capacity (cu_body c))
     \<and> tracked_ok (c_managers (cu_body c)) (c_manager_count (cu_body c)) (c_manager_capacity (cu_body c))
     \<and> cpos c \<le> csize c"

text \<open>A chunk that has its buffer and its parser state.\<close>

definition opened :: "chunk_cursor \<Rightarrow> bool" where
  "opened c \<longleftrightarrow> cu_state c \<noteq> None \<and> c_data (cu_body c) \<noteq> None"

text \<open>The number of words and entries of a chunk; everything is checked up to \<open>2 ^ 56\<close> of them.\<close>

definition cload :: "chunk_cursor \<Rightarrow> nat" where
  "cload c = csize c + c_id_count (cu_body c) + c_manager_count (cu_body c)"

definition space :: "nat \<Rightarrow> chunk_cursor \<Rightarrow> bool" where
  "space n c \<longleftrightarrow> cpos c + n \<le> length (cmem c)"

lemma openedE:
  assumes "opened c"
  obtains st xs where "cu_state c = Some st" "c_data (cu_body c) = Some xs" "cmem c = xs" "cpos c = current_pos st"
  using assms by (auto simp: opened_def cmem_def nmo_chunk_get_position_def)

lemma cursor_wf_mem:
  "cursor_wf c \<Longrightarrow> opened c \<Longrightarrow> data_wf (cmem c) (csize c) (c_data_capacity (cu_body c)) \<and> cmem c \<noteq> []"
  by (auto simp: cursor_wf_def cmem_def opened_def)

lemma wf_bounds:
  assumes "cursor_wf c" "opened c"
  shows "cpos c \<le> csize c" "csize c \<le> length (cmem c)" "length (cmem c) < 2 ^ 59"
    "length (cmem c) = c_data_capacity (cu_body c)" "0 < length (cmem c)"
  using cursor_wf_mem [OF assms] assms(1) by (auto simp: cursor_wf_def data_wf_def simp flip: length_greater_0_conv)

section \<open>Outcomes of writes\<close>

text \<open>\<open>k\<close> bounds the words and entries the call adds, also when it fails half-way.\<close>

definition runs :: "nat \<Rightarrow> chunk_cursor \<Rightarrow> 'a cures \<Rightarrow> ('a \<Rightarrow> chunk_cursor \<Rightarrow> bool) \<Rightarrow> bool" where
  "runs k c m Q \<longleftrightarrow> (\<exists>r d. m = Done (r, d) \<and> cursor_wf d \<and> opened d \<and> cload d \<le> cload c + k
     \<and> (arena_grants (cu_arena c) \<longrightarrow> arena_grants (cu_arena d))
     \<and> (case r of Inl e \<Rightarrow> e = NMO_ERR_NOMEM \<and> \<not> arena_grants (cu_arena c) | Inr y \<Rightarrow> Q y d))"

lemma runs_ok [intro]:
  "cursor_wf d \<Longrightarrow> opened d \<Longrightarrow> cload d \<le> cload c + k
    \<Longrightarrow> (arena_grants (cu_arena c) \<Longrightarrow> arena_grants (cu_arena d)) \<Longrightarrow> Q y d \<Longrightarrow> runs k c (ok y d) Q"
  by (simp add: runs_def ok_def)

lemma runs_nomem:
  "cursor_wf d \<Longrightarrow> opened d \<Longrightarrow> cload d \<le> cload c + k \<Longrightarrow> \<not> arena_grants (cu_arena c)
    \<Longrightarrow> runs k c (fail NMO_ERR_NOMEM d) Q"
  by (simp add: runs_def fail_def)

lemma runs_bind:
  assumes m: "runs k c m Q"
    and f: "\<And>y d. cursor_wf d \<Longrightarrow> opened d \<Longrightarrow> cload d \<le> cload c + k \<Longrightarrow> Q y d \<Longrightarrow> runs l d (f y d) R"
  shows "runs (k + l) c (bindR m f) R"
proof -
  from m obtain r d where d: "m = Done (r, d)" "cursor_wf d" "opened d" "cload d \<le> cload c + k"
    "arena_grants (cu_arena c) \<longrightarrow> arena_grants (cu_arena d)"
    "case r of Inl e \<Rightarrow> e = NMO_ERR_NOMEM \<and> \<not> arena_grants (cu_arena c) | Inr y \<Rightarrow> Q y d"
    unfolding runs_def by blast
  show ?thesis
  proof (cases r)
    case (Inl e)
    then show ?thesis using d by (auto simp: runs_def)
  next
    case (Inr y)
    with d have "runs l d (f y d) R" by (intro f) auto
    then obtain q e where e: "f y d = Done (q, e)" "cursor_wf e" "opened e" "cload e \<le> cload d + l"
      "arena_grants (cu_arena d) \<longrightarrow> arena_grants (cu_arena e)"
      "case q of Inl x \<Rightarrow> x = NMO_ERR_NOMEM \<and> \<not> arena_grants (cu_arena d) | Inr z \<Rightarrow> R z e"
      unfolding runs_def by blast
    have "bindR m f = Done (q, e)" using d(1) Inr e(1) by simp
    then show ?thesis using d e(2-6) Inr unfolding runs_def
      by (intro exI [of _ q] exI [of _ e]) (auto split: sum.splits)
  qed
qed

lemma runs_mono:
  "runs k c m Q \<Longrightarrow> k \<le> l \<Longrightarrow> (\<And>y d. cursor_wf d \<Longrightarrow> opened d \<Longrightarrow> Q y d \<Longrightarrow> R y d) \<Longrightarrow> runs l c m R"
  unfolding runs_def by (fastforce split: sum.splits)

lemma runs_grants:
  assumes "runs k c m Q" and "arena_grants (cu_arena c)"
  obtains y d where "m = Done (Inr y, d)" "cursor_wf d" "opened d" "cload d \<le> cload c + k"
    "arena_grants (cu_arena d)" "Q y d"
  using assms unfolding runs_def by (fastforce split: sum.splits)

section \<open>Storing words at the position\<close>

text \<open>The chunk with \<open>ds\<close> put into its buffer, before its size is brought up to date.\<close>

definition put_mem :: "u32 list \<Rightarrow> chunk_cursor \<Rightarrow> chunk_cursor" where
  "put_mem ds c = set_pos (cpos c + length ds)
     (with_data (Some (mem_blit (cmem c) (cpos c) ds)) (c_data_capacity (cu_body c)) c)"

lemmas cursor_sets = set_pos_def set_prev_def set_data_size_def with_data_def

lemma put_mem_fields [simp]:
  "cu_arena (put_mem ds c) = cu_arena c" "csize (put_mem ds c) = csize c"
  "c_data_capacity (cu_body (put_mem ds c)) = c_data_capacity (cu_body c)"
  "c_ids (cu_body (put_mem ds c)) = c_ids (cu_body c)" "c_id_count (cu_body (put_mem ds c)) = c_id_count (cu_body c)"
  "c_id_capacity (cu_body (put_mem ds c)) = c_id_capacity (cu_body c)"
  "c_managers (cu_body (put_mem ds c)) = c_managers (cu_body c)"
  "c_manager_count (cu_body (put_mem ds c)) = c_manager_count (cu_body c)"
  "c_manager_capacity (cu_body (put_mem ds c)) = c_manager_capacity (cu_body c)"
  "cmem (put_mem ds c) = mem_blit (cmem c) (cpos c) ds"
  by (simp_all add: put_mem_def cursor_sets cmem_def)

lemma put_mem_opened [simp]:
  "opened c \<Longrightarrow> opened (put_mem ds c)" "opened c \<Longrightarrow> cpos (put_mem ds c) = cpos c + length ds"
  by (auto simp: put_mem_def cursor_sets opened_def nmo_chunk_get_position_def)

lemma put_mem_nil: "opened c \<Longrightarrow> put_mem [] c = c"
  by (auto elim!: openedE simp: put_mem_def cursor_sets mem_blit_def)

lemma blit_next:
  "i + length xs \<le> length ms \<Longrightarrow> mem_blit (mem_blit ms i xs) (i + length xs) ys = mem_blit ms i (xs @ ys)"
  by (simp add: mem_blit_def ac_simps)

lemma put_mem_append:
  assumes "opened c" and "space (length xs) c"
  shows "put_mem ys (put_mem xs c) = put_mem (xs @ ys) c"
proof -
  have "mem_blit (mem_blit (cmem c) (cpos c) xs) (cpos c + length xs) ys = mem_blit (cmem c) (cpos c) (xs @ ys)"
    using assms(2) by (intro blit_next) (simp add: space_def)
  then show ?thesis using assms(1)
    by (auto elim!: openedE simp: put_mem_def [of ys] put_mem_def [of "xs @ ys"])
       (auto simp: put_mem_def cursor_sets)
qed

lemma space_put: "opened c \<Longrightarrow> space (length xs + n) c \<Longrightarrow> space n (put_mem xs c)"
  by (simp add: space_def)

lemma store_dword_eq:
  assumes "cursor_wf c" "opened c" "space 1 c"
  shows "store_dword v c = ok () (put_mem [v] c)"
proof -
  from assms(2) obtain st xs where s: "cu_state c = Some st" "c_data (cu_body c) = Some xs" "cmem c = xs" "cpos c = current_pos st"
    by (rule openedE)
  have "mem_blit xs (current_pos st) [v] = xs[current_pos st := v]"
    using assms(3) s by (simp add: mem_blit_def space_def upd_conv_take_nth_drop)
  moreover have "sz_add (current_pos st) 1 = current_pos st + 1"
    using wf_bounds [OF assms(1,2)] s by (intro sz_add_small) simp
  ultimately show ?thesis using assms(3) s
    by (simp add: store_dword_def put_mem_def move_on_def space_def cursor_sets nmo_chunk_get_position_def)
qed

lemma bindR_assoc: "bindR (bindR m f) g = bindR m (\<lambda>x s. bindR (f x s) g)"
  by (auto simp: bindR_def split: eff.splits prod.splits sum.splits)

lemma store_dwords_eq:
  "cursor_wf c \<Longrightarrow> opened c \<Longrightarrow> space (length vs) c \<Longrightarrow> store_dwords vs c = ok () (put_mem vs c)"
proof (induction vs rule: rev_induct)
  case Nil
  then show ?case by (simp add: put_mem_nil)
next
  case (snoc v vs)
  have app: "store_dwords (xs @ ys) e = bindR (store_dwords xs e) (\<lambda>_. store_dwords ys)" for xs ys e
    by (induction xs arbitrary: e) (auto simp: bindR_assoc intro!: arg_cong [where f = "bindR _"])
  have "store_dword v (put_mem vs c) = ok () (put_mem [v] (put_mem vs c))"
  proof -
    from snoc.prems have o: "opened (put_mem vs c)" by simp
    obtain st xs where s: "cu_state (put_mem vs c) = Some st" "c_data (cu_body (put_mem vs c)) = Some xs"
      "cmem (put_mem vs c) = xs" "cpos (put_mem vs c) = current_pos st"
      using o by (rule openedE)
    have l: "current_pos st + 1 \<le> length xs" "length xs < 2 ^ 59"
      using snoc.prems s(3,4) wf_bounds [OF snoc.prems(1,2)] by (auto simp: space_def mem_blit_def)
    then have "mem_blit xs (current_pos st) [v] = xs[current_pos st := v]"
      by (simp add: mem_blit_def upd_conv_take_nth_drop)
    moreover have "sz_add (current_pos st) 1 = current_pos st + 1" using l by (intro sz_add_small) simp
    ultimately show ?thesis using l s
      by (simp add: store_dword_def put_mem_def [of "[v]"] move_on_def cursor_sets nmo_chunk_get_position_def)
  qed
  with snoc show ?case by (simp add: app put_mem_append space_def)
qed

lemma store_bytes_eq:
  assumes "length (cmem c) < 2 ^ 59" "opened c" "space n c" "n = (length bs + 3) div 4"
    and "take (length bs) src = bs" "length bs \<le> length src"
  shows "\<exists>ds. holds_bytes bs ds \<and> store_bytes src (length bs) n c = ok () (put_mem ds c)"
proof -
  from assms(2) obtain st xs where s: "cu_state c = Some st" "c_data (cu_body c) = Some xs" "cmem c = xs" "cpos c = current_pos st"
    by (rule openedE)
  have room: "current_pos st + n \<le> length xs" "length xs < 2 ^ 59"
    using assms(1,3) s by (simp_all add: space_def)
  define cs where "cs = drop (length bs) (bytes_of_dwords (take n (drop (current_pos st) xs)))"
  let ?ds = "dwords_of_bytes (bs @ cs)"
  have len: "length ?ds = n" using length_blit_words [of "current_pos st" bs xs] room assms(4)
    by (simp add: cs_def)
  have holds: "holds_bytes bs ?ds" using take_bytes_prefix [of bs cs] len assms(4) by (simp add: holds_bytes_def)
  have blit: "blit_bytes xs (current_pos st) bs = mem_blit xs (current_pos st) ?ds"
    using assms(4) by (simp add: blit_bytes_def cs_def Let_def)
  have "sz_add (current_pos st) n = current_pos st + n" using room by (intro sz_add_small) simp
  moreover have "4 * current_pos st + length bs \<le> 4 * length xs" using room assms(4) by linarith
  ultimately have "store_bytes src (length bs) n c = ok () (put_mem ?ds c)"
    using s assms(5,6) blit len
    by (simp add: store_bytes_def put_mem_def move_on_def cursor_sets nmo_chunk_get_position_def)
  with holds show ?thesis by blast
qed

section \<open>Bringing the size up to date\<close>

definition written :: "u32 list \<Rightarrow> chunk_cursor \<Rightarrow> chunk_cursor \<Rightarrow> bool" where
  "written ds c d \<longleftrightarrow> cpos d = cpos c + length ds \<and> take (cpos d) (cmem d) = take (cpos c) (cmem c) @ ds
     \<and> csize d = max (csize c) (cpos d)"

lemma written_append: "written xs c d \<Longrightarrow> written ys d e \<Longrightarrow> written (xs @ ys) c e"
  by (auto simp: written_def)

lemma written_nil: "written [] c d \<Longrightarrow> written ys d e \<Longrightarrow> written ys c e"
  using written_append [of "[]"] by simp

lemma extend_size_fields [simp]:
  "cu_arena (extend_size c) = cu_arena c" "cu_state (extend_size c) = cu_state c"
  "c_data (cu_body (extend_size c)) = c_data (cu_body c)"
  "c_data_capacity (cu_body (extend_size c)) = c_data_capacity (cu_body c)"
  "c_ids (cu_body (extend_size c)) = c_ids (cu_body c)" "c_id_count (cu_body (extend_size c)) = c_id_count (cu_body c)"
  "c_id_capacity (cu_body (extend_size c)) = c_id_capacity (cu_body c)"
  "c_managers (cu_body (extend_size c)) = c_managers (cu_body c)"
  "c_manager_count (cu_body (extend_size c)) = c_manager_count (cu_body c)"
  "c_manager_capacity (cu_body (extend_size c)) = c_manager_capacity (cu_body c)"
  "cmem (extend_size c) = cmem c" "cpos (extend_size c) = cpos c" "opened (extend_size c) = opened c"
  "csize (extend_size c) = max (csize c) (cpos c)"
  by (auto simp: extend_size_def set_data_size_def cmem_def opened_def nmo_chunk_get_position_def)

lemma cursor_wf_opened:
  "opened c \<Longrightarrow> cursor_wf c \<longleftrightarrow> arena_sane (cu_arena c)
     \<and> data_wf (cmem c) (csize c) (c_data_capacity (cu_body c)) \<and> cmem c \<noteq> []
     \<and> tracked_ok (c_ids (cu_body c)) (c_id_count (cu_body c)) (c_id_capacity (cu_body c))
     \<and> tracked_ok (c_managers (cu_body c)) (c_manager_count (cu_body c)) (c_manager_capacity (cu_body c))
     \<and> cpos c \<le> csize c"
  by (auto simp: cursor_wf_def cmem_def opened_def)

lemma extend_put:
  assumes "cursor_wf c" "opened c" "space (length ds) c"
  shows "cursor_wf (extend_size (put_mem ds c))" "written ds c (extend_size (put_mem ds c))"
    "cload (extend_size (put_mem ds c)) \<le> cload c + length ds"
proof -
  have o: "opened (extend_size (put_mem ds c))" using assms(2) by simp
  show "cursor_wf (extend_size (put_mem ds c))"
    using assms wf_bounds [OF assms(1,2)] unfolding cursor_wf_opened [OF o]
    by (auto simp: cursor_wf_opened space_def data_wf_def mem_blit_def)
  show "written ds c (extend_size (put_mem ds c))"
    using assms wf_bounds [OF assms(1,2)] by (simp add: written_def space_def take_blit)
  show "cload (extend_size (put_mem ds c)) \<le> cload c + length ds"
    using assms wf_bounds [OF assms(1,2)] by (simp add: cload_def)
qed

lemma put_runs:
  assumes "cursor_wf c" "opened c" "space (length ds) c"
  shows "runs (length ds) c (ok () (extend_size (put_mem ds c))) (\<lambda>_. written ds c)"
  using assms extend_put [OF assms] by (intro runs_ok) auto

section \<open>Growth\<close>

lemma check_size_runs:
  assumes c: "cursor_wf c" "opened c" and n: "cload c + n \<le> 2 ^ 56"
  shows "runs 0 c (nmo_chunk_check_size n c) (\<lambda>_ d. written [] c d \<and> space n d)"
proof -
  note b = wf_bounds [OF c]
  from c(2) obtain st xs where s: "cu_state c = Some st" "c_data (cu_body c) = Some xs" "cmem c = xs" "cpos c = current_pos st"
    by (rule openedE)
  let ?t = "current_pos st + n" and ?cap = "c_data_capacity (cu_body c)"
  have t: "?t \<le> 2 ^ 56" using n b(1) s(4) by (simp add: cload_def)
  then have add: "sz_add (current_pos st) n = ?t" by (intro sz_add_small) simp
  show ?thesis
  proof (cases "?t > ?cap")
    case False
    then show ?thesis using c s b add
      by (auto simp: nmo_chunk_check_size_def Let_def written_def space_def intro!: runs_ok)
  next
    case True
    have c0: "sz_mul ?cap 2 = 2 * ?cap" using True t by (subst sz_mul_small) simp_all
    have "\<exists>e. grow_until (\<lambda>n. sz_mul n 2) ?t (2 * ?cap) = Some e \<and> ?t \<le> e \<and> 2 * ?cap \<le> e \<and> e \<le> 2 * ?t"
      by (rule grow_until_returns [where S = "{c. 0 < c}"]) (use True t b(4,5) in \<open>auto simp: sz_mul_small\<close>)
    then obtain e where e: "grow_until (\<lambda>n. sz_mul n 2) ?t (2 * ?cap) = Some e" "?t \<le> e" "e \<le> 2 * ?t" by blast
    have e': "e < 2 ^ 59" using e(3) t by simp
    have sane: "arena_sane (cu_arena c)" using c(1) by (simp add: cursor_wf_def)
    have pos: "current_pos st \<le> length xs" using b(1,2) s by simp
    obtain q a where q: "realloc_dwords (Some xs) (current_pos st) e (cu_arena c) = Done (q, a)" "arena_sane a"
        "arena_grants a = arena_grants (cu_arena c)" "arena_grants (cu_arena c) \<Longrightarrow> 0 < e \<Longrightarrow> q \<noteq> None"
        "\<And>ys. q = Some ys \<Longrightarrow> length ys = e \<and> (\<forall>zs. Some xs = Some zs \<longrightarrow> take (current_pos st) ys = take (current_pos st) zs)"
      using realloc_dwords_outcome [OF sane, of e "current_pos st" "Some xs"] e(2) e' pos by auto
    have step: "nmo_chunk_check_size n c = (case q of None \<Rightarrow> fail NMO_ERR_NOMEM (c\<lparr>cu_arena := a\<rparr>)
        | Some ys \<Rightarrow> ok () (with_data (Some ys) e (c\<lparr>cu_arena := a\<rparr>)))"
      using True s add c0 e(1) q(1) by (simp add: nmo_chunk_check_size_def Let_def)
    show ?thesis
    proof (cases q)
      case None
      then have "\<not> arena_grants (cu_arena c)" using q(4) True e(2) by auto
      then show ?thesis using None step c q(2)
        by (auto intro!: runs_nomem simp: cursor_wf_def opened_def cload_def nmo_chunk_get_position_def)
    next
      case (Some ys)
      let ?d = "with_data (Some ys) e (c\<lparr>cu_arena := a\<rparr>)"
      have ys: "length ys = e" "take (current_pos st) ys = take (current_pos st) xs" using q(5) Some by auto
      have d: "opened ?d" "cpos ?d = cpos c" "cmem ?d = ys" "csize ?d = csize c" "cload ?d = cload c"
        using c(2) by (simp_all add: with_data_def opened_def cmem_def nmo_chunk_get_position_def cload_def)
      have "cursor_wf ?d" using c ys q(2) d e e' True b s unfolding cursor_wf_opened [OF d(1)]
        by (auto simp: cursor_wf_opened data_wf_def with_data_def nmo_chunk_get_position_def)
      moreover have "written [] c ?d" using ys s d b(1) by (simp add: written_def)
      ultimately show ?thesis using Some step d ys e q(3) s
        by (auto intro!: runs_ok simp: space_def with_data_def)
    qed
  qed
qed

lemma write_words_runs:
  assumes c: "cursor_wf c" "opened c" and n: "cload c + n \<le> 2 ^ 56" "length ds = n"
  shows "runs n c (bindR (nmo_chunk_check_size n c) (\<lambda>_ c.
    bindR (store_dwords ds c) (\<lambda>_ c. ok () (extend_size c)))) (\<lambda>_. written ds c)"
proof -
  have "runs (0 + n) c (bindR (nmo_chunk_check_size n c) (\<lambda>_ c.
    bindR (store_dwords ds c) (\<lambda>_ c. ok () (extend_size c)))) (\<lambda>_. written ds c)"
    by (rule runs_bind [OF check_size_runs [OF c n(1)]])
       (auto simp: store_dwords_eq n(2) [symmetric] intro: runs_mono [OF put_runs] written_nil)
  then show ?thesis by simp
qed

end
