(* ===== verification/ChunkApiWrite.thy ===== *)
theory ChunkApiWrite
  imports ChunkApiSpec
begin

text \<open>
  One rule per write operation of the chunk interface: the words it puts at the position. The words
  of a string, a buffer or an array are determined up to the bytes that fill the last one.
\<close>

section \<open>Scalar values\<close>

lemma store_dwords_one: "store_dwords [v] c = store_dword v c"
proof -
  have "(\<lambda>_ :: unit. store_dwords []) = (\<lambda>_. ok ())" by (intro ext) simp
  then show ?thesis by (simp add: bindR_def ok_def split: eff.splits prod.splits sum.splits)
qed

lemma write_word_runs:
  assumes "cursor_wf c" "opened c" "cload c + 1 \<le> 2 ^ 56"
  shows "runs 1 c (bindR (nmo_chunk_check_size 1 c) (\<lambda>_ c.
    bindR (store_dword v c) (\<lambda>_ c. ok () (extend_size c)))) (\<lambda>_. written [v] c)"
  using write_words_runs [of c 1 "[v]"] assms by (simp add: store_dwords_one del: store_dwords.simps)

lemma scalar_writes_run:
  assumes "cursor_wf c" "opened c" "cload c + 1 \<le> 2 ^ 56"
  shows "runs 1 c (nmo_chunk_write_byte b c) (\<lambda>_. written [ucast b] c)"
    "runs 1 c (nmo_chunk_write_word w c) (\<lambda>_. written [ucast w] c)"
    "runs 1 c (nmo_chunk_write_int x c) (\<lambda>_. written [x] c)"
    "runs 1 c (nmo_chunk_write_dword x c) (\<lambda>_. written [x] c)"
    "runs 1 c (nmo_chunk_write_float x c) (\<lambda>_. written [x] c)"
  using write_word_runs [OF assms]
  by (simp_all add: nmo_chunk_write_byte_def nmo_chunk_write_word_def nmo_chunk_write_int_def
      nmo_chunk_write_dword_def nmo_chunk_write_float_def)

lemma write_guid_runs:
  assumes "cursor_wf c" "opened c" "cload c + 2 \<le> 2 ^ 56"
  shows "runs 2 c (nmo_chunk_write_guid g c) (\<lambda>_. written [d1 g, d2 g] c)"
  using write_words_runs [of c 2 "[d1 g, d2 g]"] assms by (simp add: nmo_chunk_write_guid_def del: store_dwords.simps)

section \<open>Strings and buffers\<close>

text \<open>A count and the bytes behind it.\<close>

lemma write_counted_runs:
  assumes c: "cursor_wf c" "opened c" "cload c + (1 + n) \<le> 2 ^ 56"
    and n: "n = (length bs + 3) div 4" "take (length bs) src = bs" "length bs \<le> length src"
  shows "runs (1 + n) c (bindR (nmo_chunk_check_size (1 + n) c) (\<lambda>_ c.
      bindR (store_dword x c) (\<lambda>_ c.
        bindR (store_bytes src (length bs) n c) (\<lambda>_ c. ok () (extend_size c)))))
    (\<lambda>_ d. \<exists>ds. holds_bytes bs ds \<and> written (x # ds) c d)"
proof -
  have "runs (0 + (1 + n)) c (bindR (nmo_chunk_check_size (1 + n) c) (\<lambda>_ c.
      bindR (store_dword x c) (\<lambda>_ c.
        bindR (store_bytes src (length bs) n c) (\<lambda>_ c. ok () (extend_size c)))))
    (\<lambda>_ d. \<exists>ds. holds_bytes bs ds \<and> written (x # ds) c d)"
  proof (rule runs_bind [OF check_size_runs [OF c]])
    fix d assume d: "cursor_wf d" "opened d" "cload d \<le> cload c + 0" "written [] c d \<and> space (1 + n) d"
    note b = wf_bounds [OF d(1,2)]
    have first: "store_dword x d = ok () (put_mem [x] d)"
      using d by (intro store_dword_eq) (auto simp: space_def)
    have "\<exists>ds. holds_bytes bs ds \<and> store_bytes src (length bs) n (put_mem [x] d) = ok () (put_mem ds (put_mem [x] d))"
      by (rule store_bytes_eq) (use d b n in \<open>auto simp: space_def mem_blit_def\<close>)
    then obtain ds where holds: "holds_bytes bs ds" and
      "store_bytes src (length bs) n (put_mem [x] d) = ok () (put_mem ds (put_mem [x] d))" by blast
    moreover have "put_mem ds (put_mem [x] d) = put_mem (x # ds) d"
      using d by (subst put_mem_append) (auto simp: space_def)
    ultimately have second: "store_bytes src (length bs) n (put_mem [x] d) = ok () (put_mem (x # ds) d)" by simp
    have len: "length ds = n" using holds n(1) by (simp add: holds_bytes_def)
    have "runs (length (x # ds)) d (ok () (extend_size (put_mem (x # ds) d))) (\<lambda>_. written (x # ds) d)"
      using d len by (intro put_runs) auto
    then show "runs (1 + n) d (bindR (store_dword x d) (\<lambda>_ c.
        bindR (store_bytes src (length bs) n c) (\<lambda>_ c. ok () (extend_size c))))
      (\<lambda>_ d. \<exists>ds. holds_bytes bs ds \<and> written (x # ds) c d)"
      unfolding first bindR_ok second using d(4) holds len
      by (elim runs_mono) (auto intro: written_nil)
  qed
  then show ?thesis by simp
qed

text \<open>A string is stored with its terminating zero byte.\<close>

lemma write_string_runs:
  assumes "cursor_wf c" "opened c" "0 \<notin> set bs" "cload c + (length bs + 3) \<le> 2 ^ 56"
  shows "runs (length bs + 3) c (nmo_chunk_write_string (Some (bs @ [0])) c)
    (\<lambda>_ d. \<exists>ds. holds_bytes (bs @ [0]) ds \<and> written (of_nat (length bs + 1) # ds) c d)"
proof -
  define str where "str = bs @ [0]"
  let ?n = "(length str + 3) div 4"
  have str: "length str = length bs + 1" "strlen str = length bs"
    using assms(3) by (simp_all add: str_def strlen_terminated)
  have n: "?n \<le> length bs + 1" by (simp add: str)
  have small: "sz_add (length bs) 1 = length str" "sz_add (length str) 3 div 4 = ?n" "sz_add 1 ?n = 1 + ?n"
    using assms(4) n by (auto simp: sz_add_small str)
  have eq: "nmo_chunk_write_string (Some str) c = bindR (nmo_chunk_check_size (1 + ?n) c) (\<lambda>_ c.
      bindR (store_dword (of_nat (length str)) c) (\<lambda>_ c.
        bindR (store_bytes str (length str) ?n c) (\<lambda>_ c. ok () (extend_size c))))"
    unfolding nmo_chunk_write_string_def using small str by (simp add: Let_def)
  have "runs (1 + ?n) c (nmo_chunk_write_string (Some str) c)
    (\<lambda>_ d. \<exists>ds. holds_bytes str ds \<and> written (of_nat (length str) # ds) c d)"
    unfolding eq using assms n by (intro write_counted_runs) auto
  then have "runs (length bs + 3) c (nmo_chunk_write_string (Some str) c)
    (\<lambda>_ d. \<exists>ds. holds_bytes str ds \<and> written (of_nat (length str) # ds) c d)"
    using n by (elim runs_mono) auto
  then show ?thesis by (simp add: str str_def)
qed

lemma write_buffer_runs:
  assumes "cursor_wf c" "opened c" "cload c + (length bs + 3) \<le> 2 ^ 56"
  shows "runs (length bs + 3) c (nmo_chunk_write_buffer (Some bs) (length bs) c)
    (\<lambda>_ d. \<exists>ds. holds_bytes bs ds \<and> written (of_nat (length bs) # ds) c d)"
proof (cases "bs = []")
  case True
  have "sz_add 0 3 div 4 = 0" "sz_add 1 0 = 1" by (simp_all add: sz_add_small)
  then have "nmo_chunk_write_buffer (Some bs) (length bs) c = bindR (nmo_chunk_check_size 1 c) (\<lambda>_ c.
      bindR (store_dword 0 c) (\<lambda>_ c. ok () (extend_size c)))"
    by (simp add: nmo_chunk_write_buffer_def True Let_def)
  with write_word_runs [OF assms(1,2)] assms(3) have
    "runs 1 c (nmo_chunk_write_buffer (Some bs) (length bs) c) (\<lambda>_. written [0] c)" by simp
  then show ?thesis by (rule runs_mono) (auto simp: True holds_bytes_def intro: exI [of _ "[]"])
next
  case False
  let ?n = "(length bs + 3) div 4"
  have n: "?n \<le> length bs" using False by (cases bs) auto
  have small: "sz_add (length bs) 3 div 4 = ?n" "sz_add 1 ?n = 1 + ?n" using assms(3) n by (auto simp: sz_add_small)
  have eq: "nmo_chunk_write_buffer (Some bs) (length bs) c = bindR (nmo_chunk_check_size (1 + ?n) c) (\<lambda>_ c.
      bindR (store_dword (of_nat (length bs)) c) (\<lambda>_ c.
        bindR (store_bytes bs (length bs) ?n c) (\<lambda>_ c. ok () (extend_size c))))"
    unfolding nmo_chunk_write_buffer_def using small False by (simp add: Let_def)
  have "runs (1 + ?n) c (nmo_chunk_write_buffer (Some bs) (length bs) c)
    (\<lambda>_ d. \<exists>ds. holds_bytes bs ds \<and> written (of_nat (length bs) # ds) c d)"
    unfolding eq using assms n by (intro write_counted_runs) auto
  then show ?thesis using n by (elim runs_mono) auto
qed

lemma write_buffer_no_size_runs:
  assumes "cursor_wf c" "opened c" "cload c + length bs \<le> 2 ^ 56" "bs \<noteq> []"
  shows "runs (length bs) c (nmo_chunk_write_buffer_no_size (Some bs) (length bs) c)
    (\<lambda>_ d. \<exists>ds. holds_bytes bs ds \<and> written ds c d)"
proof -
  let ?n = "(length bs + 3) div 4"
  have n: "?n \<le> length bs" using assms(4) by (cases bs) auto
  have small: "sz_add (length bs) 3 div 4 = ?n" using assms(3) by (auto simp: sz_add_small)
  have room: "cload c + ?n \<le> 2 ^ 56" using assms(3) n by simp
  have "runs (0 + ?n) c (nmo_chunk_write_buffer_no_size (Some bs) (length bs) c)
    (\<lambda>_ d. \<exists>ds. holds_bytes bs ds \<and> written ds c d)"
    unfolding nmo_chunk_write_buffer_no_size_def Let_def small option.case using assms(4)
  proof (simp only: length_0_conv if_False, intro runs_bind [OF check_size_runs [OF assms(1,2) room]])
    fix d assume d: "cursor_wf d" "opened d" "cload d \<le> cload c + 0" "written [] c d \<and> space ?n d"
    have "\<exists>ds. holds_bytes bs ds \<and> store_bytes bs (length bs) ?n d = ok () (put_mem ds d)"
      by (rule store_bytes_eq) (use d wf_bounds [OF d(1,2)] in auto)
    then obtain ds where ds: "holds_bytes bs ds" "store_bytes bs (length bs) ?n d = ok () (put_mem ds d)" by blast
    have len: "length ds = ?n" using ds(1) by (simp add: holds_bytes_def)
    have "runs (length ds) d (ok () (extend_size (put_mem ds d))) (\<lambda>_. written ds d)"
      using d len by (intro put_runs) auto
    then show "runs ?n d (bindR (store_bytes bs (length bs) ?n d) (\<lambda>_ c. ok () (extend_size c)))
      (\<lambda>_ d. \<exists>ds. holds_bytes bs ds \<and> written ds c d)"
      unfolding ds(2) bindR_ok using d(4) ds(1) len by (elim runs_mono) (auto intro: written_nil)
  qed
  then show ?thesis using n by (elim runs_mono) auto
qed

section \<open>Tracked positions\<close>

text \<open>The buffer, the position and the size are the same.\<close>

definition untouched :: "chunk_cursor \<Rightarrow> chunk_cursor \<Rightarrow> bool" where
  "untouched c d \<longleftrightarrow> cu_state d = cu_state c \<and> c_data (cu_body d) = c_data (cu_body c)
     \<and> csize d = csize c \<and> c_data_capacity (cu_body d) = c_data_capacity (cu_body c)"

lemma untouchedD:
  assumes "untouched c d"
  shows "cpos d = cpos c" "cmem d = cmem c" "csize d = csize c" "opened d = opened c" "space n d = space n c"
  using assms by (auto simp: untouched_def nmo_chunk_get_position_def cmem_def opened_def space_def)

lemma untouched_trans: "untouched c d \<Longrightarrow> untouched d e \<Longrightarrow> untouched c e"
  by (simp add: untouched_def)

lemma untouched_written:
  "cursor_wf c \<Longrightarrow> untouched c d \<Longrightarrow> written ds d e \<Longrightarrow> written ds c e"
  using untouchedD [of c d] by (auto simp: written_def)

lemma make_ids_runs:
  assumes "cursor_wf c" "opened c"
  shows "runs 0 c (make_ids c) (\<lambda>_ d. untouched c d \<and> c_ids (cu_body d) \<noteq> None)"
proof (cases "c_ids (cu_body c)")
  case (Some xs)
  then show ?thesis using assms by (auto simp: make_ids_def untouched_def intro!: runs_ok)
next
  case None
  have sane: "arena_sane (cu_arena c)" using assms(1) by (simp add: cursor_wf_def)
  obtain q a where q: "realloc_dwords None 0 16 (cu_arena c) = Done (q, a)" "arena_sane a"
      "arena_grants a = arena_grants (cu_arena c)" "arena_grants (cu_arena c) \<Longrightarrow> (0::nat) < 16 \<Longrightarrow> q \<noteq> None"
      "\<And>ys. q = Some ys \<Longrightarrow> length ys = 16"
    using realloc_dwords_outcome [OF sane, of 16 0 None] by auto
  show ?thesis
  proof (cases q)
    case None
    with \<open>c_ids (cu_body c) = None\<close> q assms show ?thesis
      by (auto simp: make_ids_def cursor_wf_def opened_def cload_def nmo_chunk_get_position_def intro!: runs_nomem)
  next
    case (Some ys)
    with \<open>c_ids (cu_body c) = None\<close> q assms show ?thesis
      by (auto simp: make_ids_def with_ids_def cursor_wf_def opened_def cload_def nmo_chunk_get_position_def
          untouched_def tracked_ok_def intro!: runs_ok)
  qed
qed

lemma grow_ids_runs:
  assumes "cursor_wf c" "opened c" "c_ids (cu_body c) \<noteq> None" "cload c \<le> 2 ^ 56"
  shows "runs 0 c (grow_ids c) (\<lambda>_ d. untouched c d \<and> c_ids (cu_body d) \<noteq> None
    \<and> c_id_count (cu_body d) < c_id_capacity (cu_body d))"
proof -
  let ?b = "cu_body c"
  from assms(3) obtain xs where xs: "c_ids ?b = Some xs" by auto
  have ids: "length xs = c_id_capacity ?b" "c_id_count ?b \<le> c_id_capacity ?b" "0 < c_id_capacity ?b" "c_id_capacity ?b < 2 ^ 59"
    using assms(1) xs by (auto simp: cursor_wf_def tracked_ok_def)
  show ?thesis
  proof (cases "c_id_count ?b \<ge> c_id_capacity ?b")
    case False
    then show ?thesis using assms by (auto simp: grow_ids_def untouched_def Let_def intro!: runs_ok)
  next
    case True
    have cap: "c_id_capacity ?b \<le> 2 ^ 56" using assms(4) True by (simp add: cload_def)
    then have n: "sz_mul (c_id_capacity ?b) 2 = 2 * c_id_capacity ?b" by (subst sz_mul_small) simp_all
    have sane: "arena_sane (cu_arena c)" using assms(1) by (simp add: cursor_wf_def)
    obtain q a where q: "realloc_dwords (Some xs) (c_id_count ?b) (2 * c_id_capacity ?b) (cu_arena c) = Done (q, a)" "arena_sane a"
        "arena_grants a = arena_grants (cu_arena c)"
        "arena_grants (cu_arena c) \<Longrightarrow> 0 < 2 * c_id_capacity ?b \<Longrightarrow> q \<noteq> None"
        "\<And>ys. q = Some ys \<Longrightarrow> length ys = 2 * c_id_capacity ?b
           \<and> (\<forall>zs. Some xs = Some zs \<longrightarrow> take (c_id_count ?b) ys = take (c_id_count ?b) zs)"
      by (rule realloc_dwords_outcome [OF sane, of "2 * c_id_capacity ?b" "c_id_count ?b" "Some xs"])
         (use ids cap in auto)
    show ?thesis
    proof (cases q)
      case None
      with q True xs n ids assms show ?thesis
        by (auto simp: grow_ids_def cursor_wf_def opened_def cload_def nmo_chunk_get_position_def Let_def intro!: runs_nomem)
    next
      case (Some ys)
      with q True xs n ids cap assms show ?thesis
        by (auto simp: grow_ids_def with_ids_def cursor_wf_def opened_def cload_def nmo_chunk_get_position_def
            untouched_def tracked_ok_def Let_def intro!: runs_ok)
    qed
  qed
qed

lemma record_id_runs:
  assumes "cursor_wf c" "opened c" "c_ids (cu_body c) \<noteq> None" "c_id_count (cu_body c) < c_id_capacity (cu_body c)"
  shows "runs 1 c (record_id c) (\<lambda>_. untouched c)"
proof -
  from assms(3) obtain xs where xs: "c_ids (cu_body c) = Some xs" by auto
  have ids: "length xs = c_id_capacity (cu_body c)" "c_id_capacity (cu_body c) < 2 ^ 59"
    using assms(1) xs by (auto simp: cursor_wf_def tracked_ok_def)
  then have "sz_add (c_id_count (cu_body c)) 1 = c_id_count (cu_body c) + 1"
    using assms(4) by (intro sz_add_small) simp
  then show ?thesis using assms xs ids
    by (auto simp: record_id_def with_ids_def add_option_def cursor_wf_def opened_def cload_def
        nmo_chunk_get_position_def untouched_def tracked_ok_def Let_def intro!: runs_ok)
qed

text \<open>Storing the words of a value after an operation on the lists.\<close>

lemma store_after:
  assumes "cursor_wf d" "opened d" "written [] c d" "space (length ds) d"
  shows "runs (length ds) d (bindR (store_dwords ds d) (\<lambda>_ c. ok () (extend_size c))) (\<lambda>_. written ds c)"
  unfolding store_dwords_eq [OF assms(1,2,4)] bindR_ok
  by (rule runs_mono [OF put_runs [OF assms(1,2,4)]]) (use assms(3) in \<open>auto intro: written_nil\<close>)

lemma untouched_nil: "written [] c d \<Longrightarrow> untouched d e \<Longrightarrow> written [] c e"
  using untouchedD [of d e] by (auto simp: written_def)

lemma write_object_id_runs:
  assumes c: "cursor_wf c" "opened c" "cload c + 2 \<le> 2 ^ 56"
  shows "runs 2 c (nmo_chunk_write_object_id oid c) (\<lambda>_. written [oid] c)"
proof -
  have room: "cload c + 1 \<le> 2 ^ 56" using c(3) by simp
  have "runs (0 + (1 + 1)) c (nmo_chunk_write_object_id oid c) (\<lambda>_. written [oid] c)"
    unfolding nmo_chunk_write_object_id_def
  proof (rule runs_bind [OF check_size_runs [OF c(1,2) room]])
    fix d assume d: "cursor_wf d" "opened d" "cload d \<le> cload c + 0" "written [] c d \<and> space 1 d"
    have "runs 1 d (if oid \<noteq> 0 then bindR (make_ids d) (\<lambda>_ c. bindR (grow_ids c) (\<lambda>_. record_id)) else ok () d)
        (\<lambda>_. untouched d)"
    proof (cases "oid = 0")
      case True
      then show ?thesis using d by (auto simp: untouched_def intro!: runs_ok)
    next
      case False
      have "runs (0 + (0 + 1)) d (bindR (make_ids d) (\<lambda>_ c. bindR (grow_ids c) (\<lambda>_. record_id))) (\<lambda>_. untouched d)"
      proof (rule runs_bind [OF make_ids_runs [OF d(1,2)]])
        fix e assume e: "cursor_wf e" "opened e" "cload e \<le> cload d + 0" "untouched d e \<and> c_ids (cu_body e) \<noteq> None"
        have ready: "c_ids (cu_body e) \<noteq> None" "cload e \<le> 2 ^ 56" using e d c(3) by auto
        show "runs (0 + 1) e (bindR (grow_ids e) (\<lambda>_. record_id)) (\<lambda>_. untouched d)"
          by (rule runs_bind [OF grow_ids_runs [OF e(1,2) ready]], rule runs_mono [OF record_id_runs])
             (use e in \<open>auto intro: untouched_trans\<close>)
      qed
      then show ?thesis using False by simp
    qed
    then show "runs (1 + 1) d (bindR (if oid \<noteq> 0 then bindR (make_ids d) (\<lambda>_ c. bindR (grow_ids c) (\<lambda>_. record_id)) else ok () d)
        (\<lambda>_ c. bindR (store_dword oid c) (\<lambda>_ c. ok () (extend_size c)))) (\<lambda>_. written [oid] c)"
    proof (rule runs_bind)
      fix e assume e: "cursor_wf e" "opened e" "cload e \<le> cload d + 1" "untouched d e"
      have "space (length [oid]) e" using d(4) untouchedD(5) [OF e(4)] by simp
      from store_after [OF e(1,2) untouched_nil [OF conjunct1 [OF d(4)] e(4)] this]
      show "runs 1 e (bindR (store_dword oid e) (\<lambda>_ c. ok () (extend_size c))) (\<lambda>_. written [oid] c)"
        by (simp add: store_dwords_one del: store_dwords.simps)
    qed
  qed
  then show ?thesis by (simp add: numeral_eq_Suc)
qed

lemma set_prev_fields [simp]:
  "cu_arena (set_prev n c) = cu_arena c" "cu_body (set_prev n c) = cu_body c" "cpos (set_prev n c) = cpos c"
  "opened (set_prev n c) = opened c" "cmem (set_prev n c) = cmem c" "cload (set_prev n c) = cload c"
  "cursor_wf (set_prev n c) = cursor_wf c"
  by (auto simp: set_prev_def nmo_chunk_get_position_def opened_def cmem_def cload_def cursor_wf_def
      split: option.splits)

lemma extend_set_prev: "extend_size (set_prev n c) = set_prev n (extend_size c)"
proof -
  have "set_data_size k (set_prev n c) = set_prev n (set_data_size k c)" for k
    by (simp add: set_data_size_def set_prev_def)
  then show ?thesis by (simp add: extend_size_def)
qed

lemma write_identifier_runs:
  assumes c: "cursor_wf c" "opened c" "cload c + 1 \<le> 2 ^ 56"
  shows "runs 1 c (nmo_chunk_write_identifier ident c) (\<lambda>_. written [ident] c)"
proof -
  have "runs (0 + 1) c (nmo_chunk_write_identifier ident c) (\<lambda>_. written [ident] c)"
    unfolding nmo_chunk_write_identifier_def
  proof (rule runs_bind [OF check_size_runs [OF c]])
    fix d assume d: "cursor_wf d" "opened d" "cload d \<le> cload c + 0" "written [] c d \<and> space 1 d"
    have sp: "space (length [ident]) d" using d(4) by simp
    show "runs 1 d (bindR (store_dword ident d) (\<lambda>_ c.
        ok () (extend_size (set_prev (sz_sub (nmo_chunk_get_position c) 1) c)))) (\<lambda>_. written [ident] c)"
      unfolding store_dword_eq [OF d(1,2) conjunct2 [OF d(4)]] bindR_ok extend_set_prev
      using extend_put [OF d(1,2) sp] d written_nil [of c d "[ident]"]
      by (intro runs_ok) (auto simp: written_def)
  qed
  then show ?thesis by simp
qed

lemma make_managers_runs:
  assumes "cursor_wf c" "opened c" "cload c \<le> 2 ^ 56"
  shows "runs 0 c (make_managers c) (\<lambda>_ d. untouched c d \<and> c_managers (cu_body d) \<noteq> None
    \<and> c_manager_count (cu_body d) < c_manager_capacity (cu_body d))"
proof -
  let ?b = "cu_body c"
  have sane: "arena_sane (cu_arena c)" using assms(1) by (simp add: cursor_wf_def)
  show ?thesis
  proof (cases "c_managers ?b")
    case none: None
    then have n: "c_manager_count ?b = 0" using assms(1) by (simp add: cursor_wf_def tracked_ok_def)
    obtain q a where q: "realloc_dwords None 0 16 (cu_arena c) = Done (q, a)" "arena_sane a"
        "arena_grants a = arena_grants (cu_arena c)" "arena_grants (cu_arena c) \<Longrightarrow> (0::nat) < 16 \<Longrightarrow> q \<noteq> None"
        "\<And>ys. q = Some ys \<Longrightarrow> length ys = 16"
      using realloc_dwords_outcome [OF sane, of 16 0 None] by auto
    show ?thesis
    proof (cases q)
      case None
      with none n q assms show ?thesis
        by (auto simp: make_managers_def with_managers_def cursor_wf_def opened_def cload_def
            nmo_chunk_get_position_def tracked_ok_def Let_def intro!: runs_nomem)
    next
      case (Some ys)
      with none n q assms show ?thesis
        by (auto simp: make_managers_def with_managers_def cursor_wf_def opened_def cload_def
            nmo_chunk_get_position_def untouched_def tracked_ok_def Let_def intro!: runs_ok)
    qed
  next
    case (Some xs)
    then have ms: "length xs = c_manager_capacity ?b" "c_manager_count ?b \<le> c_manager_capacity ?b" "0 < c_manager_capacity ?b"
      using assms(1) by (auto simp: cursor_wf_def tracked_ok_def)
    show ?thesis
    proof (cases "c_manager_count ?b \<ge> c_manager_capacity ?b")
      case False
      then show ?thesis using assms Some by (auto simp: make_managers_def untouched_def Let_def intro!: runs_ok)
    next
      case True
      have cap: "c_manager_capacity ?b \<le> 2 ^ 56" using assms(3) True by (simp add: cload_def)
      then have n: "sz_mul (c_manager_capacity ?b) 2 = 2 * c_manager_capacity ?b" by (subst sz_mul_small) simp_all
      obtain q a where q: "realloc_dwords (Some xs) (c_manager_count ?b) (2 * c_manager_capacity ?b) (cu_arena c) = Done (q, a)"
          "arena_sane a" "arena_grants a = arena_grants (cu_arena c)"
          "arena_grants (cu_arena c) \<Longrightarrow> 0 < 2 * c_manager_capacity ?b \<Longrightarrow> q \<noteq> None"
          "\<And>ys. q = Some ys \<Longrightarrow> length ys = 2 * c_manager_capacity ?b
             \<and> (\<forall>zs. Some xs = Some zs \<longrightarrow> take (c_manager_count ?b) ys = take (c_manager_count ?b) zs)"
        by (rule realloc_dwords_outcome [OF sane, of "2 * c_manager_capacity ?b" "c_manager_count ?b" "Some xs"])
           (use ms cap in auto)
      show ?thesis
      proof (cases q)
        case None
        with q True Some n ms assms show ?thesis
          by (auto simp: make_managers_def cursor_wf_def opened_def cload_def nmo_chunk_get_position_def Let_def intro!: runs_nomem)
      next
        case (Some ys)
        with q True \<open>c_managers ?b = Some xs\<close> n ms cap assms show ?thesis
          by (auto simp: make_managers_def with_managers_def cursor_wf_def opened_def cload_def
              nmo_chunk_get_position_def untouched_def tracked_ok_def Let_def intro!: runs_ok)
      qed
    qed
  qed
qed

lemma record_manager_runs:
  assumes "cursor_wf c" "opened c" "c_managers (cu_body c) \<noteq> None" "c_manager_count (cu_body c) < c_manager_capacity (cu_body c)"
  shows "runs 1 c (record_manager c) (\<lambda>_. untouched c)"
proof -
  from assms(3) obtain xs where xs: "c_managers (cu_body c) = Some xs" by auto
  have ms: "length xs = c_manager_capacity (cu_body c)" "c_manager_capacity (cu_body c) < 2 ^ 59"
    using assms(1) xs by (auto simp: cursor_wf_def tracked_ok_def)
  then have "sz_add (c_manager_count (cu_body c)) 1 = c_manager_count (cu_body c) + 1"
    using assms(4) by (intro sz_add_small) simp
  then show ?thesis using assms xs ms
    by (auto simp: record_manager_def with_managers_def cursor_wf_def opened_def cload_def
        nmo_chunk_get_position_def untouched_def tracked_ok_def Let_def intro!: runs_ok)
qed

lemma write_manager_int_runs:
  assumes c: "cursor_wf c" "opened c" "cload c + 4 \<le> 2 ^ 56"
  shows "runs 4 c (nmo_chunk_write_manager_int g v c) (\<lambda>_. written [d1 g, d2 g, v] c)"
proof -
  have room: "cload c + 3 \<le> 2 ^ 56" using c(3) by simp
  have "runs (0 + (0 + (1 + 3))) c (nmo_chunk_write_manager_int g v c) (\<lambda>_. written [d1 g, d2 g, v] c)"
    unfolding nmo_chunk_write_manager_int_def
  proof (rule runs_bind [OF check_size_runs [OF c(1,2) room]])
    fix d assume d: "cursor_wf d" "opened d" "cload d \<le> cload c + 0" "written [] c d \<and> space 3 d"
    have small: "cload d \<le> 2 ^ 56" using d(3) c(3) by simp
    have "runs (0 + (1 + 3)) d (bindR (make_managers d) (\<lambda>_ c. bindR (record_manager c) (\<lambda>_ c.
         bindR (store_dwords [d1 g, d2 g, v] c) (\<lambda>_ c. ok () (extend_size c))))) (\<lambda>_. written [d1 g, d2 g, v] c)"
    proof (rule runs_bind [OF make_managers_runs [OF d(1,2) small]])
      fix e assume e: "cursor_wf e" "opened e" "cload e \<le> cload d + 0" "untouched d e \<and> c_managers (cu_body e) \<noteq> None
        \<and> c_manager_count (cu_body e) < c_manager_capacity (cu_body e)"
      have m: "c_managers (cu_body e) \<noteq> None" "c_manager_count (cu_body e) < c_manager_capacity (cu_body e)" using e(4) by auto
      show "runs (1 + 3) e (bindR (record_manager e) (\<lambda>_ c.
          bindR (store_dwords [d1 g, d2 g, v] c) (\<lambda>_ c. ok () (extend_size c)))) (\<lambda>_. written [d1 g, d2 g, v] c)"
      proof (rule runs_bind [OF record_manager_runs [OF e(1,2) m]])
        fix f assume f: "cursor_wf f" "opened f" "untouched e f"
        have u: "untouched d f" using e(4) f(3) by (blast intro: untouched_trans)
        have "space 3 f" using d(4) untouchedD(5) [OF u] by simp
        then have "space (length [d1 g, d2 g, v]) f" by (simp add: numeral_3_eq_3)
        from store_after [OF f(1,2) untouched_nil [OF conjunct1 [OF d(4)] u] this]
        show "runs 3 f (bindR (store_dwords [d1 g, d2 g, v] f) (\<lambda>_ c. ok () (extend_size c))) (\<lambda>_. written [d1 g, d2 g, v] c)"
          by (simp add: numeral_3_eq_3 del: store_dwords.simps)
      qed
    qed
    then show "runs (0 + (1 + 3)) d (if cu_state d = None then fail NMO_ERR_INTERNAL d
       else bindR (make_managers d) (\<lambda>_ c. bindR (record_manager c) (\<lambda>_ c.
         bindR (store_dwords [d1 g, d2 g, v] c) (\<lambda>_ c. ok () (extend_size c))))) (\<lambda>_. written [d1 g, d2 g, v] c)"
      using d(2) by (auto simp: opened_def simp del: store_dwords.simps)
  qed
  then show ?thesis by simp
qed

section \<open>Sequences, arrays and structs\<close>

lemma add_option_fields [simp]:
  "cu_arena (add_option f c) = cu_arena c" "cload (add_option f c) = cload c" "opened (add_option f c) = opened c"
  "cursor_wf (add_option f c) = cursor_wf c"
  by (auto simp: add_option_def cload_def opened_def cursor_wf_def nmo_chunk_get_position_def split: option.splits)

lemma runs_same: "cu_arena d = cu_arena c \<Longrightarrow> cload d = cload c \<Longrightarrow> runs k d m Q = runs k c m Q"
  by (simp add: runs_def cong: sum.case_cong)

lemma untouched_option: "untouched c (add_option f c)"
  by (simp add: untouched_def add_option_def)

text \<open>A call made after setting an option flag.\<close>

lemma runs_option:
  assumes "cursor_wf c" "runs k (add_option f c) m (\<lambda>_ d. \<exists>ds. P ds \<and> written ds (add_option f c) d)"
  shows "runs k c m (\<lambda>_ d. \<exists>ds. P ds \<and> written ds c d)"
proof -
  have "runs k c m (\<lambda>_ d. \<exists>ds. P ds \<and> written ds (add_option f c) d)" using assms(2) by (simp only: runs_same [of "add_option f c" c] add_option_fields)
  then show ?thesis
    by (rule runs_mono) (auto dest: untouched_written [OF assms(1) untouched_option])
qed

text \<open>The form all writes share: one of the word lists that encode the value is put at the position.\<close>

definition puts :: "nat \<Rightarrow> (u32 list \<Rightarrow> bool) \<Rightarrow> (chunk_cursor \<Rightarrow> unit cures) \<Rightarrow> bool" where
  "puts k P m \<longleftrightarrow> (\<forall>c. cursor_wf c \<longrightarrow> opened c \<longrightarrow> cload c + k \<le> 2 ^ 56 \<longrightarrow>
     runs k c (m c) (\<lambda>_ d. \<exists>ds. P ds \<and> written ds c d))"

lemma puts_words:
  assumes "\<And>c. cursor_wf c \<Longrightarrow> opened c \<Longrightarrow> cload c + k \<le> 2 ^ 56 \<Longrightarrow> runs k c (m c) (\<lambda>_. written ds c)"
  shows "puts k (\<lambda>xs. xs = ds) m"
  using assms by (simp add: puts_def)

lemma puts_mono: "puts k P m \<Longrightarrow> k \<le> l \<Longrightarrow> (\<And>ds. P ds \<Longrightarrow> Q ds) \<Longrightarrow> puts l Q m"
  unfolding puts_def by (fastforce intro: runs_mono)

lemma puts_bind:
  assumes "puts k P m" "puts l Q n"
  shows "puts (k + l) (\<lambda>ds. \<exists>xs ys. P xs \<and> Q ys \<and> ds = xs @ ys) (\<lambda>c. bindR (m c) (\<lambda>_. n))"
  unfolding puts_def
proof (intro allI impI)
  fix c assume c: "cursor_wf c" "opened c" "cload c + (k + l) \<le> 2 ^ 56"
  then have m: "runs k c (m c) (\<lambda>_ d. \<exists>ds. P ds \<and> written ds c d)" using assms(1) by (simp add: puts_def)
  show "runs (k + l) c (bindR (m c) (\<lambda>_. n)) (\<lambda>_ d. \<exists>ds. (\<exists>xs ys. P xs \<and> Q ys \<and> ds = xs @ ys) \<and> written ds c d)"
  proof (rule runs_bind [OF m])
    fix d assume d: "cursor_wf d" "opened d" "cload d \<le> cload c + k" "\<exists>ds. P ds \<and> written ds c d"
    then have "runs l d (n d) (\<lambda>_ e. \<exists>ds. Q ds \<and> written ds d e)" using assms(2) c(3) by (simp add: puts_def)
    then show "runs l d (n d) (\<lambda>_ d. \<exists>ds. (\<exists>xs ys. P xs \<and> Q ys \<and> ds = xs @ ys) \<and> written ds c d)"
      by (rule runs_mono) (use d(4) in \<open>auto dest: written_append\<close>)
  qed
qed

lemma puts_option:
  assumes "puts k P m"
  shows "puts k P (\<lambda>c. m (add_option f c))"
  unfolding puts_def
proof (intro allI impI)
  fix c assume c: "cursor_wf c" "opened c" "cload c + k \<le> 2 ^ 56"
  have "cursor_wf (add_option f c)" "opened (add_option f c)" "cload (add_option f c) + k \<le> 2 ^ 56"
    using c by (simp_all only: add_option_fields)
  with assms have "runs k (add_option f c) (m (add_option f c)) (\<lambda>_ d. \<exists>ds. P ds \<and> written ds (add_option f c) d)"
    unfolding puts_def by blast
  with c(1) show "runs k c (m (add_option f c)) (\<lambda>_ d. \<exists>ds. P ds \<and> written ds c d)" by (rule runs_option)
qed

lemma puts_nothing: "puts 0 (\<lambda>ds. ds = []) (ok ())"
  by (rule puts_words) (auto simp: written_def max_def cursor_wf_def intro!: runs_ok)

lemma scalar_puts:
  "puts 1 (\<lambda>ds. ds = [ucast b]) (nmo_chunk_write_byte b)" "puts 1 (\<lambda>ds. ds = [ucast w]) (nmo_chunk_write_word w)"
  "puts 1 (\<lambda>ds. ds = [x]) (nmo_chunk_write_int x)" "puts 1 (\<lambda>ds. ds = [x]) (nmo_chunk_write_dword x)"
  "puts 1 (\<lambda>ds. ds = [x]) (nmo_chunk_write_float x)" "puts 2 (\<lambda>ds. ds = [d1 g, d2 g]) (nmo_chunk_write_guid g)"
  "puts 2 (\<lambda>ds. ds = [x]) (nmo_chunk_write_object_id x)" "puts 1 (\<lambda>ds. ds = [x]) (nmo_chunk_write_identifier x)"
  "puts 4 (\<lambda>ds. ds = [d1 g, d2 g, x]) (nmo_chunk_write_manager_int g x)"
  by (rule puts_words, erule (2) scalar_writes_run write_guid_runs write_object_id_runs write_identifier_runs write_manager_int_runs)+

lemma puts_each:
  assumes "\<And>v. puts k (\<lambda>ds. ds = [enc v]) (wr v)"
  shows "puts (k * length vs) (\<lambda>ds. ds = map enc vs) (write_each wr vs (length vs))"
proof (induction vs)
  case Nil
  have "write_each wr [] 0 = ok ()" by (intro ext) simp
  then show ?case using puts_nothing by simp
next
  case (Cons v vs)
  have eq: "write_each wr (v # vs) (length (v # vs)) = (\<lambda>c. bindR (wr v c) (\<lambda>_. write_each wr vs (length vs)))"
    by (intro ext) simp
  show ?case unfolding eq by (rule puts_mono [OF puts_bind [OF assms Cons.IH]]) simp_all
qed

lemma puts_typed_array:
  assumes "\<And>v. puts k (\<lambda>ds. ds = [enc v]) (wr v)"
  shows "puts (1 + k * length vs) (\<lambda>ds. ds = of_nat (length vs) # map enc vs) (write_typed_array wr (Some vs) (length vs))"
proof -
  have eq: "write_typed_array wr (Some vs) (length vs)
      = (\<lambda>c. bindR (nmo_chunk_write_dword (of_nat (length vs)) c) (\<lambda>_. write_each wr vs (length vs)))"
    by (intro ext) (simp add: write_typed_array_def)
  have each: "puts (k * length vs) (\<lambda>ds. ds = map enc vs) (write_each wr vs (length vs))" by (rule puts_each [OF assms])
  show ?thesis unfolding eq by (rule puts_mono [OF puts_bind [OF scalar_puts(4) each]]) simp_all
qed

lemma puts_floats: "puts (length xs) (\<lambda>ds. ds = xs) (write_floats xs)"
proof (induction xs)
  case Nil
  have "write_floats [] = ok ()" by (intro ext) simp
  then show ?case using puts_nothing by simp
next
  case (Cons x xs)
  have eq: "write_floats (x # xs) = (\<lambda>c. bindR (nmo_chunk_write_float x c) (\<lambda>_. write_floats xs))" by (intro ext) simp
  show ?case unfolding eq by (rule puts_mono [OF puts_bind [OF scalar_puts(5) Cons.IH]]) simp_all
qed

lemma puts_struct: "length (parts v) = k \<Longrightarrow> puts k (\<lambda>ds. ds = parts v) (write_struct parts (Some v))"
proof -
  have "write_struct parts (Some v) = write_floats (parts v)" by (intro ext) (simp add: write_struct_def)
  then show "length (parts v) = k \<Longrightarrow> ?thesis" using puts_floats [of "parts v"] by simp
qed

lemma puts_bytes:
  "0 \<notin> set bs \<Longrightarrow> puts (length bs + 3) (\<lambda>ds. \<exists>es. ds = of_nat (length bs + 1) # es \<and> holds_bytes (bs @ [0]) es)
     (nmo_chunk_write_string (Some (bs @ [0])))"
  "puts (length bs + 3) (\<lambda>ds. \<exists>es. ds = of_nat (length bs) # es \<and> holds_bytes bs es)
     (nmo_chunk_write_buffer (Some bs) (length bs))"
  "bs \<noteq> [] \<Longrightarrow> puts (length bs) (\<lambda>ds. holds_bytes bs ds) (nmo_chunk_write_buffer_no_size (Some bs) (length bs))"
  unfolding puts_def
  by (fastforce intro: runs_mono [OF write_string_runs] runs_mono [OF write_buffer_runs]
      runs_mono [OF write_buffer_no_size_runs])+

lemma puts_array:
  assumes "length bs = n * m" "0 < n * m" "n * m < 2 ^ 32"
  shows "puts (length bs + 2) (\<lambda>ds. \<exists>es. ds = of_nat n # of_nat m # es \<and> holds_bytes bs es)
    (nmo_chunk_write_array (Some bs) n m)"
proof -
  have "sz_mul n m = length bs" using assms by (simp add: sz_mul_small)
  then have eq: "nmo_chunk_write_array (Some bs) n m = (\<lambda>c. bindR (nmo_chunk_write_dword (of_nat n) c) (\<lambda>_ c.
      bindR (nmo_chunk_write_dword (of_nat m) c) (\<lambda>_. nmo_chunk_write_buffer_no_size (Some bs) (length bs))))"
    by (intro ext) (simp add: nmo_chunk_write_array_def)
  have "bs \<noteq> []" using assms by auto
  then show ?thesis unfolding eq
    by (intro puts_mono [OF puts_bind [OF scalar_puts(4) puts_bind [OF scalar_puts(4) puts_bytes(3)]]]) auto
qed

lemma sequence_puts:
  "puts 1 (\<lambda>ds. ds = [of_nat n]) (nmo_chunk_write_object_sequence_start n)"
  "puts 2 (\<lambda>ds. ds = [x]) (nmo_chunk_write_object_sequence_item x)"
  "puts 3 (\<lambda>ds. ds = [of_nat n, d1 g, d2 g]) (nmo_chunk_start_manager_sequence g n)"
  "puts 1 (\<lambda>ds. ds = [of_nat n]) (nmo_chunk_start_sub_chunk_sequence n)"
proof -
  show "puts 1 (\<lambda>ds. ds = [of_nat n]) (nmo_chunk_write_object_sequence_start n)"
    using puts_option [OF scalar_puts(3)] by (simp add: nmo_chunk_write_object_sequence_start_def fun_eq_iff [symmetric] puts_def)
  show "puts 2 (\<lambda>ds. ds = [x]) (nmo_chunk_write_object_sequence_item x)"
    using scalar_puts(7) by (simp add: nmo_chunk_write_object_sequence_item_def puts_def)
  show "puts 1 (\<lambda>ds. ds = [of_nat n]) (nmo_chunk_start_sub_chunk_sequence n)"
    using puts_option [OF scalar_puts(4)] by (simp add: nmo_chunk_start_sub_chunk_sequence_def puts_def)
  have "puts 3 (\<lambda>ds. ds = [of_nat n, d1 g, d2 g])
     (\<lambda>c. bindR (nmo_chunk_write_dword (of_nat n) c) (\<lambda>_. nmo_chunk_write_guid g))"
    by (rule puts_mono [OF puts_bind [OF scalar_puts(4,6)]]) auto
  from puts_option [OF this] show "puts 3 (\<lambda>ds. ds = [of_nat n, d1 g, d2 g]) (nmo_chunk_start_manager_sequence g n)"
    by (simp add: nmo_chunk_start_manager_sequence_def puts_def)
qed

end
