(* ===== verification/ChunkApiRead.thy ===== *)
theory ChunkApiRead
  imports ChunkApiWrite
begin

text \<open>
  One rule per read operation of the chunk interface: given the words at the position, the value it
  returns, and the position behind them.
\<close>

section \<open>Reading words\<close>

definition reader :: "chunk_cursor \<Rightarrow> bool" where
  "reader c \<longleftrightarrow> cursor_wf c \<and> cu_state c \<noteq> None \<and> arena_grants (cu_arena c)"

definition crest :: "chunk_cursor \<Rightarrow> u32 list" where
  "crest c = drop (cpos c) (take (csize c) (cmem c))"

lemma crest_data:
  assumes "reader c" "crest c = ds @ r" "ds \<noteq> []"
  obtains st xs where "cu_state c = Some st" "c_data (cu_body c) = Some xs" "current_pos st + length ds \<le> csize c"
    "csize c \<le> length xs" "length xs < 2 ^ 59" "take (length ds) (drop (current_pos st) xs) = ds"
    "drop (current_pos st + length ds) (take (csize c) xs) = r"
proof -
  from assms(1) obtain st where st: "cu_state c = Some st" by (auto simp: reader_def)
  have "crest c \<noteq> []" using assms(2,3) by simp
  then obtain xs where xs: "c_data (cu_body c) = Some xs" by (auto simp: crest_def cmem_def split: option.splits)
  have wf: "data_wf xs (csize c) (c_data_capacity (cu_body c))" using assms(1) xs by (simp add: reader_def cursor_wf_def)
  have rest: "drop (current_pos st) (take (csize c) xs) = ds @ r"
    using assms(2) st xs by (simp add: crest_def cmem_def nmo_chunk_get_position_def)
  have size: "csize c \<le> length xs" "length xs < 2 ^ 59" using wf by (simp_all add: data_wf_def)
  have "length (ds @ r) = csize c - current_pos st" unfolding rest [symmetric] using size(1) by simp
  moreover have "current_pos st \<le> csize c"
    using assms(1) st by (simp add: reader_def cursor_wf_def nmo_chunk_get_position_def)
  ultimately have len: "current_pos st + length ds \<le> csize c" by simp
  have "take (length ds) (drop (current_pos st) xs) = take (length ds) (drop (current_pos st) (take (csize c) xs))"
    using len by (simp add: drop_take min_def)
  then have "take (length ds) (drop (current_pos st) xs) = ds" by (simp add: rest)
  moreover have "drop (current_pos st + length ds) (take (csize c) xs) = drop (length ds) (ds @ r)"
    unfolding rest [symmetric] by (simp add: add.commute)
  ultimately show thesis using that st xs len size by simp
qed

lemma can_read_rest:
  assumes "reader c" "crest c = ds @ r" "n = length ds"
  shows "can_read c n"
proof (cases "ds = []")
  case True
  from assms(1) obtain st where "cu_state c = Some st" by (auto simp: reader_def)
  moreover have "cpos c \<le> csize c" "csize c < 2 ^ 59"
    using assms(1) by (auto simp: reader_def cursor_wf_def data_wf_def split: option.splits)
  ultimately show ?thesis using True assms(3) by (simp add: can_read_def nmo_chunk_get_position_def sz_add_small)
next
  case False
  obtain st xs where "cu_state c = Some st" "c_data (cu_body c) = Some xs"
    "current_pos st + length ds \<le> csize c" "csize c \<le> length xs" "length xs < 2 ^ 59"
    by (rule crest_data [OF assms(1,2) False], rule that)
  then show ?thesis using assms(3) by (simp add: can_read_def sz_add_small)
qed

lemma move_on_reader:
  assumes "reader c" "crest c = ds @ r" "n = length ds" "ds \<noteq> []"
  shows "reader (move_on n c)" "crest (move_on n c) = r" "cu_body (move_on n c) = cu_body c"
    "cu_arena (move_on n c) = cu_arena c"
proof -
  obtain st xs where s: "cu_state c = Some st" "c_data (cu_body c) = Some xs"
    "current_pos st + length ds \<le> csize c" "csize c \<le> length xs" "length xs < 2 ^ 59"
    "drop (current_pos st + length ds) (take (csize c) xs) = r"
    by (rule crest_data [OF assms(1,2,4)], rule that)
  have "sz_add (current_pos st) n = current_pos st + n" using s assms(3) by (intro sz_add_small) simp
  then have m: "move_on n c = set_pos (current_pos st + n) c" using s by (simp add: move_on_def nmo_chunk_get_position_def)
  show "reader (move_on n c)" "crest (move_on n c) = r" "cu_body (move_on n c) = cu_body c"
    "cu_arena (move_on n c) = cu_arena c"
    using assms s unfolding m
    by (auto simp: reader_def cursor_wf_def crest_def cmem_def set_pos_def nmo_chunk_get_position_def)
qed

definition yields :: "(chunk_cursor \<Rightarrow> 'a cures) \<Rightarrow> u32 list \<Rightarrow> 'a \<Rightarrow> bool" where
  "yields f ds v \<longleftrightarrow> (\<forall>c r. reader c \<longrightarrow> crest c = ds @ r \<longrightarrow>
     (\<exists>d. f c = Done (Inr v, d) \<and> reader d \<and> crest d = r))"

lemma yields_bind:
  "yields f ds v \<Longrightarrow> yields (g v) es u \<Longrightarrow> yields (\<lambda>c. bindR (f c) g) (ds @ es) u"
  unfolding yields_def by fastforce

lemma yields_bind_ok: "yields f ds v \<Longrightarrow> u = h v \<Longrightarrow> yields (\<lambda>c. bindR (f c) (\<lambda>x. ok (h x))) ds u"
  unfolding yields_def by (fastforce simp: ok_def)

lemma yields_ok [simp]: "yields (ok v) [] v"
  by (simp add: yields_def ok_def)

lemma yields_load: "yields load_next [x] x"
  unfolding yields_def
proof (intro allI impI)
  fix c r assume c: "reader c" "crest c = [x] @ r"
  obtain st xs where s: "cu_state c = Some st" "c_data (cu_body c) = Some xs"
    "current_pos st + length [x] \<le> csize c" "csize c \<le> length xs" "take (length [x]) (drop (current_pos st) xs) = [x]"
    by (rule crest_data [OF c], simp, rule that)
  have "current_pos st < length xs" "xs ! current_pos st = x"
    using s(3-5) by (simp_all add: take_Suc hd_drop_conv_nth split: if_splits)
  then have "load_next c = Done (Inr x, move_on 1 c)" using s by (simp add: load_next_def load_dword_def ok_def)
  with move_on_reader [OF c, of 1] show "\<exists>d. load_next c = Done (Inr x, d) \<and> reader d \<and> crest d = r" by simp
qed

lemma yields_guarded:
  assumes "yields f ds v" "n = length ds"
  shows "yields (\<lambda>c. if \<not> can_read c n then fail e c else f c) ds v"
  using assms can_read_rest unfolding yields_def by fastforce

lemma scalar_yields:
  "yields nmo_chunk_read_byte [ucast (b :: u8)] b" "yields nmo_chunk_read_word [ucast (w :: u16)] w"
  "yields nmo_chunk_read_int [x] x" "yields nmo_chunk_read_dword [x] x" "yields nmo_chunk_read_float [x] x"
  "yields nmo_chunk_read_object_id [x] x"
proof -
  have byte: "ucast ((ucast b :: u32) AND 0xFF) = b"
  proof -
    have m: "(0xFF :: u32) = mask 8" by (simp add: mask_eq_exp_minus_1)
    show ?thesis unfolding m by (rule bit_word_eqI) (auto simp: bit_simps)
  qed
  have word: "ucast ((ucast w :: u32) AND 0xFFFF) = w"
  proof -
    have m: "(0xFFFF :: u32) = mask 16" by (simp add: mask_eq_exp_minus_1)
    show ?thesis unfolding m by (rule bit_word_eqI) (auto simp: bit_simps)
  qed
  show "yields nmo_chunk_read_byte [ucast b] b" unfolding nmo_chunk_read_byte_def
    by (rule yields_guarded [OF yields_bind_ok [OF yields_load]]) (simp_all add: byte)
  show "yields nmo_chunk_read_word [ucast w] w" unfolding nmo_chunk_read_word_def
    by (rule yields_guarded [OF yields_bind_ok [OF yields_load]]) (simp_all add: word)
  show int: "yields nmo_chunk_read_int [x] x" unfolding nmo_chunk_read_int_def
    by (rule yields_guarded [OF yields_load]) simp
  show "yields nmo_chunk_read_dword [x] x" using int by (simp add: yields_def nmo_chunk_read_dword_def)
  show "yields nmo_chunk_read_float [x] x" unfolding nmo_chunk_read_float_def
    by (rule yields_guarded [OF yields_load]) simp
  show "yields nmo_chunk_read_object_id [x] x" unfolding nmo_chunk_read_object_id_def
    by (rule yields_guarded [OF yields_load]) simp
qed

lemma yields_seq2:
  "yields (\<lambda>c. bindR (load_next c) (\<lambda>x c. bindR (load_next c) (\<lambda>y. ok (f x y)))) [x, y] (f x y)"
  using yields_bind [OF yields_load yields_bind_ok [OF yields_load refl]] by simp

lemma guid_yields: "yields nmo_chunk_read_guid [d1 g, d2 g] g"
proof -
  have g: "\<lparr>d1 = d1 g, d2 = d2 g\<rparr> = g" by simp
  from yields_seq2 [of "\<lambda>x y. \<lparr>d1 = x, d2 = y\<rparr>" "d1 g" "d2 g"] show ?thesis
    unfolding nmo_chunk_read_guid_def g by (intro yields_guarded) simp_all
qed

lemma identifier_yields: "yields nmo_chunk_read_identifier [x] x"
proof -
  have "reader (set_prev n c) = reader c" "crest (set_prev n c) = crest c" for n c
    by (auto simp: reader_def crest_def) (auto simp: set_prev_def)
  then have "yields (\<lambda>ident_c. bindR (load_next ident_c) (\<lambda>ident c.
      ok ident (set_prev (sz_sub (nmo_chunk_get_position c) 1) c))) ([x] @ []) x"
    by (intro yields_bind [OF yields_load]) (simp add: yields_def ok_def)
  then show ?thesis unfolding nmo_chunk_read_identifier_def by (intro yields_guarded) simp_all
qed

lemma manager_int_yields: "yields nmo_chunk_read_manager_int [d1 g, d2 g, v] (g, v)"
proof -
  have "yields (\<lambda>c. bindR (load_next c) (\<lambda>x c. bindR (load_next c) (\<lambda>y c. bindR (load_next c) (\<lambda>v.
      ok (\<lparr>d1 = x, d2 = y\<rparr>, v))))) ([d1 g] @ [d2 g] @ [v]) (g, v)"
    by (rule yields_bind [OF yields_load], rule yields_bind [OF yields_load], rule yields_bind_ok [OF yields_load]) simp
  then show ?thesis unfolding nmo_chunk_read_manager_int_def by (intro yields_guarded) simp_all
qed

lemma size_of_int_small: "n < 2 ^ 31 \<Longrightarrow> size_of_int (of_nat n) = n"
  by (simp add: size_of_int_def signed_of_nat signed_take_bit_int_eq_self)

lemma load_block_rest:
  assumes "reader c" "crest c = ds @ r" "ds \<noteq> []" "n = length ds" "k \<le> 4 * length ds"
  shows "load_block k n c = ok (take k (bytes_of_dwords ds)) (move_on n c)"
proof -
  obtain st xs where s: "cu_state c = Some st" "c_data (cu_body c) = Some xs"
    "current_pos st + length ds \<le> csize c" "csize c \<le> length xs" "take (length ds) (drop (current_pos st) xs) = ds"
    by (rule crest_data [OF assms(1,2,3)], rule that)
  have "take k (bytes_of_dwords (drop (current_pos st) xs)) = take k (take (4 * length ds) (bytes_of_dwords (drop (current_pos st) xs)))"
    using assms(5) by (simp add: min_def)
  also have "\<dots> = take k (bytes_of_dwords ds)" unfolding take_bytes_of_dwords s(5) ..
  finally show ?thesis using s assms(4,5) by (simp add: load_block_def load_bytes_def)
qed

lemma reader_arena: "reader c \<Longrightarrow> arena_sane a \<Longrightarrow> arena_grants a \<Longrightarrow> reader (c\<lparr>cu_arena := a\<rparr>)"
  and crest_arena: "crest (c\<lparr>cu_arena := a\<rparr>) = crest c"
  and can_read_arena: "can_read (c\<lparr>cu_arena := a\<rparr>) = can_read c"
  by (auto simp: reader_def cursor_wf_def crest_def cmem_def can_read_def nmo_chunk_get_position_def fun_eq_iff
      split: option.splits)

text \<open>An allocation and the block of bytes behind it.\<close>

lemma block_after_alloc:
  assumes "reader c" "crest c = ds @ r" "holds_bytes bs ds" "bs \<noteq> []" "length bs < 2 ^ 62" "al \<in> {1, 4}"
  obtains q a d where "nmo_arena_alloc (length bs) al (cu_arena c) = Done (Some q, a)"
    "load_block (length bs) ((length bs + 3) div 4) (c\<lparr>cu_arena := a\<rparr>) = ok bs d" "reader d" "crest d = r"
    "can_read c ((length bs + 3) div 4)"
proof -
  have len: "length ds = (length bs + 3) div 4" "take (length bs) (bytes_of_dwords ds) = bs"
    using assms(3) by (simp_all add: holds_bytes_def)
  have ne: "ds \<noteq> []" using len assms(4) by (cases bs) auto
  have g: "arena_sane (cu_arena c)" "arena_grants (cu_arena c)" using assms(1) by (simp_all add: reader_def cursor_wf_def)
  have al: "al \<in> {1, 4, 8, 16}" using assms(6) by auto
  obtain q a where
    a: "nmo_arena_alloc (length bs) al (cu_arena c) = Done (Some q, a)" "arena_sane a" "arena_grants a"
    by (rule arena_grant_region [OF g _ assms(5) al]) (use assms(4) in auto)
  let ?e = "c\<lparr>cu_arena := a\<rparr>"
  have e: "reader ?e" "crest ?e = ds @ r" using reader_arena [OF assms(1) a(2,3)] assms(2) by (simp_all add: crest_arena)
  have "length bs \<le> 4 * length ds" using len(1) by linarith
  from load_block_rest [OF e ne refl this] have
    "load_block (length bs) ((length bs + 3) div 4) ?e = ok bs (move_on (length ds) ?e)" by (simp add: len)
  then show thesis
    using a(1) move_on_reader(1,2) [OF e refl ne] can_read_rest [OF assms(1,2) refl]
    by (intro that [where d = "move_on (length ds) ?e" and q = q and a = a]) (simp_all add: len(1))
qed

definition settled :: "('a \<times> chunk_cursor) eff \<Rightarrow> 'a cures" where
  "settled m = bindE m (\<lambda>(x, c). ok x c)"

lemma counted_dwords: "n + 3 < 2 ^ 32 \<Longrightarrow> unat ((of_nat n + 3 :: u32) div 4) = (n + 3) div 4"
proof -
  assume h: "n + 3 < 2 ^ 32"
  have "(of_nat n + 3 :: u32) = of_nat (n + 3)" by simp
  then show ?thesis using h by (simp only: unat_div unat_of_nat) simp
qed

lemma string_yields:
  assumes "length bs < 2 ^ 32 - 4" "holds_bytes (bs @ [0]) ds"
  shows "yields (\<lambda>c. settled (nmo_chunk_read_string c)) (of_nat (length bs + 1) # ds) (length bs, Some (bs @ [0]))"
  unfolding yields_def
proof (intro allI impI)
  fix c r assume c: "reader c" "crest c = (of_nat (length bs + 1) # ds) @ r"
  let ?str = "bs @ [0]" and ?x = "of_nat (length bs + 1) :: u32"
  have "crest c = [?x] @ ds @ r" using c(2) by simp
  from yields_load [unfolded yields_def, rule_format, OF c(1) this] obtain d where
    d: "load_next c = Done (Inr ?x, d)" "reader d" "crest d = ds @ r" by blast
  have one: "can_read c 1" using c by (intro can_read_rest [of c "[?x]" "ds @ r"]) simp_all
  obtain q a e where e: "nmo_arena_alloc (length ?str) 1 (cu_arena d) = Done (Some q, a)"
    "load_block (length ?str) ((length ?str + 3) div 4) (d\<lparr>cu_arena := a\<rparr>) = ok ?str e" "reader e" "crest e = r"
    "can_read d ((length ?str + 3) div 4)"
    by (rule block_after_alloc [OF d(2,3) assms(2), of 1]) (use assms(1) in auto)
  have x: "unat ?x = length bs + 1" "?x \<noteq> 0" "unat (?x - 1) = length bs"
  proof -
    show x: "unat ?x = length bs + 1" using assms(1) by (subst unat_of_nat) simp
    then show "?x \<noteq> 0" by (metis add_is_0 unat_0 zero_neq_one)
    have "?x - 1 = of_nat (length bs)" by simp
    then show "unat (?x - 1) = length bs" using assms(1) by (simp only:) (subst unat_of_nat, simp)
  qed
  have dw: "unat ((?x + 3) div 4) = (length ?str + 3) div 4" using counted_dwords [of "length bs + 1"] assms(1) by simp
  have "nmo_chunk_read_string c = Done ((length bs, Some ?str), e)"
    unfolding nmo_chunk_read_string_def using one d(1) e x dw by (simp add: ok_def Let_def del: of_nat_add of_nat_Suc)
  then show "\<exists>d. settled (nmo_chunk_read_string c) = Done (Inr (length bs, Some (bs @ [0])), d) \<and> reader d \<and> crest d = r"
    using e(3,4) by (simp add: settled_def ok_def)
qed

lemma buffer_yields:
  assumes "length bs < 2 ^ 32 - 4" "holds_bytes bs ds"
  shows "yields nmo_chunk_read_buffer (of_nat (length bs) # ds) (length bs, if bs = [] then None else Some bs)"
  unfolding yields_def
proof (intro allI impI)
  fix c r assume c: "reader c" "crest c = (of_nat (length bs) # ds) @ r"
  let ?x = "of_nat (length bs) :: u32"
  have "crest c = [?x] @ ds @ r" using c(2) by simp
  from yields_load [unfolded yields_def, rule_format, OF c(1) this] obtain d where
    d: "load_next c = Done (Inr ?x, d)" "reader d" "crest d = ds @ r" by blast
  have one: "can_read c 1" using c by (intro can_read_rest [of c "[?x]" "ds @ r"]) simp_all
  have x: "unat ?x = length bs" using assms(1) by (subst unat_of_nat) simp
  show "\<exists>d. nmo_chunk_read_buffer c = Done (Inr (length bs, if bs = [] then None else Some bs), d) \<and> reader d \<and> crest d = r"
  proof (cases "bs = []")
    case True
    then show ?thesis using one d assms(2) by (simp add: nmo_chunk_read_buffer_def ok_def holds_bytes_def)
  next
    case False
    obtain q a e where e: "nmo_arena_alloc (length bs) 1 (cu_arena d) = Done (Some q, a)"
      "load_block (length bs) ((length bs + 3) div 4) (d\<lparr>cu_arena := a\<rparr>) = ok bs e" "reader e" "crest e = r"
      "can_read d ((length bs + 3) div 4)"
      by (rule block_after_alloc [OF d(2,3) assms(2) False, of 1]) (use assms(1) in auto)
    have "?x \<noteq> 0" using x False by (metis length_0_conv unat_0)
    moreover have "unat ((?x + 3) div 4) = (length bs + 3) div 4" using counted_dwords [of "length bs"] assms(1) by simp
    ultimately show ?thesis unfolding nmo_chunk_read_buffer_def using one d(1) e x False by (simp add: ok_def Let_def)
  qed
qed

lemma array_yields:
  assumes "length bs = n * m" "0 < n * m" "n * m < 2 ^ 32 - 4" "holds_bytes bs ds"
  shows "yields nmo_chunk_read_array (of_nat n # of_nat m # ds) (bs, n, m)"
proof -
  have "n \<le> n * m" "m \<le> n * m" using assms(2) by (cases m; cases n; simp)+
  then have small: "n < 2 ^ 32" "m < 2 ^ 32" using assms(3) by linarith+
  then have u: "unat (of_nat n :: u32) = n" "unat (of_nat m :: u32) = m" by (subst unat_of_nat; simp)+
  have tot: "unat (of_nat n * of_nat m :: u32) = length bs"
    unfolding assms(1) of_nat_mult [symmetric] using assms(3) by (subst unat_of_nat) simp
  have sz: "sz_add (length bs) 3 div 4 = (length bs + 3) div 4" using assms by (simp add: sz_add_small)
  have "yields (\<lambda>c. bindR (nmo_chunk_read_dword c) (\<lambda>count c. bindR (nmo_chunk_read_dword c) (\<lambda>elem_size c.
         let total_size = unat (count * elem_size); dwords = sz_add total_size 3 div 4
         in if \<not> can_read c dwords then fail NMO_ERR_EOF c
            else bindE (nmo_arena_alloc total_size 4 (cu_arena c)) (\<lambda>(q, a).
              let c = c\<lparr>cu_arena := a\<rparr>
              in case q of None \<Rightarrow> fail NMO_ERR_NOMEM c
                 | Some _ \<Rightarrow> bindR (load_block total_size dwords c) (\<lambda>bs. ok (bs, unat count, unat elem_size))))))
      ([of_nat n] @ [of_nat m] @ ds) (bs, n, m)"
  proof (rule yields_bind [OF scalar_yields(4)], rule yields_bind [OF scalar_yields(4)], unfold yields_def, intro allI impI)
    fix c r assume c: "reader c" "crest c = ds @ r"
    obtain q a e where e: "nmo_arena_alloc (length bs) 4 (cu_arena c) = Done (Some q, a)"
      "load_block (length bs) ((length bs + 3) div 4) (c\<lparr>cu_arena := a\<rparr>) = ok bs e" "reader e" "crest e = r"
      "can_read c ((length bs + 3) div 4)"
      by (rule block_after_alloc [OF c assms(4), of 4]) (use assms in auto)
    then show "\<exists>d. (let total_size = unat (of_nat n * of_nat m :: u32); dwords = sz_add total_size 3 div 4
         in if \<not> can_read c dwords then fail NMO_ERR_EOF c
            else bindE (nmo_arena_alloc total_size 4 (cu_arena c)) (\<lambda>(q, a).
              let c = c\<lparr>cu_arena := a\<rparr>
              in case q of None \<Rightarrow> fail NMO_ERR_NOMEM c
                 | Some _ \<Rightarrow> bindR (load_block total_size dwords c)
                     (\<lambda>bs. ok (bs, unat (of_nat n :: u32), unat (of_nat m :: u32)))))
        = Done (Inr (bs, n, m), d) \<and> reader d \<and> crest d = r"
      by (simp add: tot sz u ok_def Let_def)
  qed
  then show ?thesis by (simp add: nmo_chunk_read_array_def yields_def)
qed

end
