(* ===== verification/ChunkApiCodec.thy ===== *)
theory ChunkApiCodec
  imports ChunkApiRead
begin

text \<open>
  Writing values through the chunk interface and reading them back: the contract between a write and
  its read is the interface \<open>api_codec\<close>, interpreted on all kinds of values at once.
\<close>

section \<open>Arrays in a second arena\<close>

lemma arena_sane_wf: "arena_wf k a \<Longrightarrow> arena_sane a"
  by (simp add: arena_wf_def arena_sane_def)

text \<open>In an arena that keeps requests inside their block, the array has the memory asked for.\<close>

lemma block_alloc:
  assumes b: "arena_wf 2 b" "arena_grants b" and n: "0 < n" "n < 2 ^ 58" and al: "al \<in> {1, 4}"
  obtains q b' where "nmo_arena_alloc (4 * n) al b = Done (Some q, b')" "arena_wf 2 b'" "arena_grants b'"
    "region_room b' q = 4 * n"
proof -
  have adm: "arena_admits 2 (4 * n) al" using n al by (auto simp: arena_admits_def intro: exI [of _ 0] exI [of _ 2])
  obtain q b' where q: "nmo_arena_alloc (4 * n) al b = Done (Some q, b')" "arena_sane b'" "arena_grants b'"
    by (rule arena_grant_region [OF arena_sane_wf [OF b(1)] b(2), of "4 * n" al]) (use n al in auto)
  have wf: "arena_wf 2 b'" using ar.alloc_returns [OF b(1) adm] q(1) by auto
  from b(1) adm have "region_room b' q = 4 * n"
  proof (cases rule: arena_alloc_cases)
    case refused
    with q(1) show ?thesis by simp
  next
    case (placed off e)
    have e: "b' = arena_taken off (4 * n) e" "q = region_at off (4 * n) e" using placed(1) q(1) by auto
    have cur: "ar_current e < length (ar_chunks e)"
      using placed(2) b(1) by (auto simp: arena_wf_def arena_extended_def)
    have "ck_size (ar_chunks e ! ar_current e) < 2 ^ 62"
    proof -
      have "ar_chunks b' ! ar_current b' \<in> set (ar_chunks b')" using wf by (simp add: arena_wf_def)
      then have "ck_size (ar_chunks b' ! ar_current b') < 2 ^ 62" using wf by (auto simp: arena_wf_def chunk_ok_def)
      then show ?thesis using cur by (simp add: e arena_taken_def)
    qed
    then show ?thesis using placed(4) cur
      by (simp add: region_room_def Let_def e arena_taken_def region_at_def sizeof_arena_chunk_def sz_add_small)
  qed
  with q wf that show thesis by blast
qed

lemma word_array_alloc:
  assumes "arena_wf 2 b" "arena_grants b" "0 < n" "n < 2 ^ 58"
  obtains q b' where "nmo_arena_alloc (4 * n) 4 b = Done (Some q, b')" "arena_wf 2 b'" "arena_grants b'"
    "region_room b' q = 4 * n"
  by (rule block_alloc [OF assms, of 4]) (simp, rule that)

definition yields_in :: "(chunk_cursor \<times> arena \<Rightarrow> ('a, chunk_cursor \<times> arena) cres) \<Rightarrow> u32 list \<Rightarrow> 'a \<Rightarrow> bool" where
  "yields_in f ds v \<longleftrightarrow> (\<forall>c b r. reader c \<longrightarrow> arena_wf 2 b \<longrightarrow> arena_grants b \<longrightarrow> crest c = ds @ r \<longrightarrow>
     (\<exists>d b'. f (c, b) = Done (Inr v, d, b') \<and> reader d \<and> crest d = r \<and> arena_wf 2 b' \<and> arena_grants b'))"

lemma yields_in_bind:
  "yields_in f ds v \<Longrightarrow> yields_in (g v) es u \<Longrightarrow> yields_in (\<lambda>s. bindR (f s) g) (ds @ es) u"
  unfolding yields_in_def by fastforce

lemma yields_in_ok [simp]: "yields_in (ok v) [] v"
  by (simp add: yields_in_def ok_def)

definition beside_arena :: "(chunk_cursor \<Rightarrow> 'a cures) \<Rightarrow> chunk_cursor \<times> arena \<Rightarrow> ('a, chunk_cursor \<times> arena) cres" where
  "beside_arena f = (\<lambda>(c, b). bindE (f c) (\<lambda>(x, c). Done (x, c, b)))"

lemma yields_beside: "yields f ds v \<Longrightarrow> yields_in (beside_arena f) ds v"
  unfolding yields_def yields_in_def beside_arena_def by fastforce

definition map_api :: "('a \<Rightarrow> 'b) \<Rightarrow> (chunk_cursor \<times> arena \<Rightarrow> ('a, chunk_cursor \<times> arena) cres)
    \<Rightarrow> chunk_cursor \<times> arena \<Rightarrow> ('b, chunk_cursor \<times> arena) cres" where
  "map_api h f s = bindR (f s) (\<lambda>x. ok (h x))"

lemma yields_map: "yields_in f ds v \<Longrightarrow> u = h v \<Longrightarrow> yields_in (map_api h f) ds u"
  unfolding yields_in_def map_api_def by (fastforce simp: ok_def)

lemma read_each_yields:
  assumes "\<And>v. yields rd [enc v] v"
  shows "length vs \<le> cap \<Longrightarrow> yields (read_each rd cap (length vs)) (map enc vs) vs"
proof (induction vs arbitrary: cap)
  case Nil
  then show ?case by (simp add: read_each.simps yields_def ok_def)
next
  case (Cons v vs)
  have "yields (\<lambda>c. bindR (rd c) (\<lambda>v c. if cap = 0 then Undefined
        else bindR (read_each rd (cap - 1) (length vs) c) (\<lambda>vs. ok (v # vs)))) ([enc v] @ map enc vs) (v # vs)"
  proof (rule yields_bind [OF assms])
    have "yields (\<lambda>c. bindR (read_each rd (cap - 1) (length vs) c) (\<lambda>vs. ok (v # vs))) (map enc vs) (v # vs)"
      using Cons by (intro yields_bind_ok [OF Cons.IH]) auto
    then show "yields (\<lambda>c. if cap = 0 then Undefined
        else bindR (read_each rd (cap - 1) (length vs) c) (\<lambda>vs. ok (v # vs))) (map enc vs) (v # vs)"
      using Cons.prems by (simp add: yields_def)
  qed
  moreover have "read_each rd cap (length (v # vs)) = (\<lambda>c. bindR (rd c) (\<lambda>v c. if cap = 0 then Undefined
        else bindR (read_each rd (cap - 1) (length vs) c) (\<lambda>vs. ok (v # vs))))"
    by (intro ext, subst read_each.simps) (simp cong: if_cong)
  ultimately show ?case by simp
qed

lemma sequence_start_yields: "n < 2 ^ 31 \<Longrightarrow> yields nmo_chunk_read_object_sequence_start [of_nat n] n"
proof -
  assume n: "n < 2 ^ 31"
  have "yields (\<lambda>c. bindR (nmo_chunk_read_int c) (\<lambda>count. ok (size_of_int count))) [of_nat n] n"
    using yields_bind_ok [OF scalar_yields(3)] size_of_int_small [OF n] by metis
  then show ?thesis by (simp add: yields_def nmo_chunk_read_object_sequence_start_def)
qed

lemma typed_array_yields:
  assumes rd: "\<And>v. yields rd [enc v] v" and n: "length vs < 2 ^ 31"
  shows "yields_in (read_typed_array 4 rd) (of_nat (length vs) # map enc vs)
    (length vs, if vs = [] then None else Some vs)"
  unfolding yields_in_def
proof (intro allI impI)
  fix c b r assume c: "reader c" "arena_wf 2 b" "arena_grants b" "crest c = (of_nat (length vs) # map enc vs) @ r"
  have "crest c = [of_nat (length vs)] @ map enc vs @ r" using c(4) by simp
  with sequence_start_yields [OF n] c(1) obtain d where
    d: "nmo_chunk_read_object_sequence_start c = Done (Inr (length vs), d)" "reader d" "crest d = map enc vs @ r"
    unfolding yields_def by blast
  show "\<exists>d b'. read_typed_array 4 rd (c, b) = Done (Inr (length vs, if vs = [] then None else Some vs), d, b')
      \<and> reader d \<and> crest d = r \<and> arena_wf 2 b' \<and> arena_grants b'"
  proof (cases "vs = []")
    case True
    then show ?thesis using c d by (simp add: read_typed_array_def ok_def)
  next
    case False
    obtain q b' where q: "nmo_arena_alloc (4 * length vs) 4 b = Done (Some q, b')" "arena_wf 2 b'" "arena_grants b'"
      "region_room b' q = 4 * length vs"
      by (rule word_array_alloc [OF c(2,3), of "length vs"]) (use False n in auto)
    have m: "sz_mul (length vs) 4 = 4 * length vs" using n by (simp add: sz_mul_small)
    from read_each_yields [OF rd, of vs "length vs"] d(2,3) obtain e where
      "read_each rd (length vs) (length vs) d = Done (Inr vs, e)" "reader e" "crest e = r"
      unfolding yields_def by blast
    then show ?thesis using d(1) q False by (simp add: read_typed_array_def m ok_def)
  qed
qed

lemma read_floats_yields: "length xs = n \<Longrightarrow> yields (read_floats n) xs xs"
proof (induction xs arbitrary: n)
  case Nil
  then show ?case by (simp add: yields_def ok_def)
next
  case (Cons x xs)
  then obtain m where m: "n = Suc m" "length xs = m" by auto
  have "yields (\<lambda>c. bindR (nmo_chunk_read_float c) (\<lambda>x c. bindR (read_floats m c) (\<lambda>xs. ok (x # xs)))) ([x] @ xs) (x # xs)"
    by (rule yields_bind [OF scalar_yields(5)], rule yields_bind_ok [OF Cons.IH [OF m(2)]]) simp
  then show ?case by (simp add: m(1) yields_def)
qed

lemma struct_yields:
  assumes "length (parts v) = n" "build (parts v) = v"
  shows "yields (\<lambda>c. bindR (read_floats n c) (\<lambda>xs. ok (build xs))) (parts v) v"
  by (rule yields_bind_ok [OF read_floats_yields]) (simp_all add: assms)

lemma length_matrix [simp]: "length (matrix_dwords m) = 16"
  by (simp add: matrix_dwords_def vector4_dwords_def)

lemma structs_yield:
  "yields nmo_chunk_read_vector2 [v2_x a, v2_y a] a"
  "yields nmo_chunk_read_vector3 [v3_x b, v3_y b, v3_z b] b"
  "yields nmo_chunk_read_vector4 (vector4_dwords v) v"
  "yields nmo_chunk_read_quaternion [q_x q, q_y q, q_z q, q_w q] q"
  "yields nmo_chunk_read_matrix (matrix_dwords m) m"
  "yields nmo_chunk_read_color [col_r x, col_g x, col_b x, col_a x] x"
proof -
  show "yields nmo_chunk_read_vector2 [v2_x a, v2_y a] a"
    using struct_yields [of "\<lambda>v. [v2_x v, v2_y v]" a 2 "\<lambda>xs. \<lparr>v2_x = xs ! 0, v2_y = xs ! 1\<rparr>"]
    by (simp add: yields_def nmo_chunk_read_vector2_def del: read_floats.simps)
  show "yields nmo_chunk_read_vector3 [v3_x b, v3_y b, v3_z b] b"
    using struct_yields [of "\<lambda>v. [v3_x v, v3_y v, v3_z v]" b 3 "\<lambda>xs. \<lparr>v3_x = xs ! 0, v3_y = xs ! 1, v3_z = xs ! 2\<rparr>"]
    by (simp add: yields_def nmo_chunk_read_vector3_def del: read_floats.simps)
  show "yields nmo_chunk_read_vector4 (vector4_dwords v) v"
    using struct_yields [of vector4_dwords v 4 dwords_vector4]
    by (simp add: yields_def nmo_chunk_read_vector4_def vector4_dwords_def dwords_vector4_def del: read_floats.simps)
  show "yields nmo_chunk_read_quaternion [q_x q, q_y q, q_z q, q_w q] q"
    using struct_yields [of "\<lambda>q. [q_x q, q_y q, q_z q, q_w q]" q 4
        "\<lambda>xs. \<lparr>q_x = xs ! 0, q_y = xs ! 1, q_z = xs ! 2, q_w = xs ! 3\<rparr>"]
    by (simp add: yields_def nmo_chunk_read_quaternion_def del: read_floats.simps)
  show "yields nmo_chunk_read_color [col_r x, col_g x, col_b x, col_a x] x"
    using struct_yields [of "\<lambda>x. [col_r x, col_g x, col_b x, col_a x]" x 4
        "\<lambda>xs. \<lparr>col_r = xs ! 0, col_g = xs ! 1, col_b = xs ! 2, col_a = xs ! 3\<rparr>"]
    by (simp add: yields_def nmo_chunk_read_color_def del: read_floats.simps)
  show "yields nmo_chunk_read_matrix (matrix_dwords m) m"
    using struct_yields [of matrix_dwords m 16 "\<lambda>xs. \<lparr>m_row0 = dwords_vector4 xs, m_row1 = dwords_vector4 (drop 4 xs),
       m_row2 = dwords_vector4 (drop 8 xs), m_row3 = dwords_vector4 (drop 12 xs)\<rparr>"]
    by (simp add: yields_def nmo_chunk_read_matrix_def matrix_dwords_def vector4_dwords_def dwords_vector4_def
        eval_nat_numeral del: read_floats.simps)
qed

lemma more_yields:
  "n < 2 ^ 32 \<Longrightarrow> yields nmo_chunk_start_manager_read_sequence [of_nat n, d1 g, d2 g] (g, n)"
  "n < 2 ^ 32 \<Longrightarrow> yields nmo_chunk_start_read_sub_chunk_sequence [of_nat n] n"
proof -
  assume n: "n < 2 ^ 32"
  then have u: "unat (of_nat n :: u32) = n" by (subst unat_of_nat) simp
  have "yields (\<lambda>c. bindR (nmo_chunk_read_dword c) (\<lambda>count c. bindR (nmo_chunk_read_guid c) (\<lambda>guid. ok (guid, unat count))))
      ([of_nat n] @ [d1 g, d2 g]) (g, n)"
    by (rule yields_bind [OF scalar_yields(4)], rule yields_bind_ok [OF guid_yields]) (simp add: u)
  then show "yields nmo_chunk_start_manager_read_sequence [of_nat n, d1 g, d2 g] (g, n)"
    by (simp add: yields_def nmo_chunk_start_manager_read_sequence_def)
  show "yields nmo_chunk_start_read_sub_chunk_sequence [of_nat n] n"
    using yields_bind_ok [OF scalar_yields(4), of n unat "of_nat n"] u
    by (simp add: yields_def nmo_chunk_start_read_sub_chunk_sequence_def)
qed

section \<open>The contract between a write and its read\<close>

fun write_values :: "('v \<Rightarrow> chunk_cursor \<Rightarrow> unit cures) \<Rightarrow> 'v list \<Rightarrow> chunk_cursor \<Rightarrow> unit cures" where
  "write_values put [] c = ok () c"
| "write_values put (v # vs) c = bindR (put v c) (\<lambda>_. write_values put vs)"

fun read_values :: "('k \<Rightarrow> chunk_cursor \<times> arena \<Rightarrow> ('v, chunk_cursor \<times> arena) cres) \<Rightarrow> 'k list
    \<Rightarrow> chunk_cursor \<times> arena \<Rightarrow> ('v list, chunk_cursor \<times> arena) cres" where
  "read_values get [] s = ok [] s"
| "read_values get (k # ks) s = bindR (get k s) (\<lambda>v s. bindR (read_values get ks s) (\<lambda>vs. ok (v # vs)))"

lemma start_write_ok:
  assumes "cursor_wf c" "arena_grants (cu_arena c)"
  obtains d where "nmo_chunk_start_write c = ok () d" "cursor_wf d" "opened d" "arena_grants (cu_arena d)"
    "cpos d = 0" "csize d = 0" "cload d \<le> cload c"
proof -
  have sane: "arena_sane (cu_arena c)" using assms(1) by (simp add: cursor_wf_def)
  obtain r a where a: "nmo_arena_alloc sizeof_parser_state 8 (cu_arena c) = Done (Some r, a)" "arena_sane a" "arena_grants a"
    by (rule arena_grant_region [OF sane assms(2), of sizeof_parser_state 8]) (auto simp: sizeof_parser_state_def)
  obtain e where e: "get_parser_state c = Done e" "cu_state e \<noteq> None" "cu_body e = cu_body c"
    "arena_sane (cu_arena e)" "arena_grants (cu_arena e)"
    using a sane assms(2) by (cases "cu_state c") (auto simp: get_parser_state_def)
  show thesis
  proof (cases "c_data (cu_body c)")
    case (Some xs)
    let ?d = "set_data_size 0 (set_pos 0 e)"
    have "nmo_chunk_start_write c = ok () ?d" using e Some
      by (auto simp: nmo_chunk_start_write_def Let_def cursor_sets)
    moreover have "cursor_wf ?d" "opened ?d" "arena_grants (cu_arena ?d)" "cpos ?d = 0" "csize ?d = 0" "cload ?d \<le> cload c"
      using assms e Some by (auto simp: cursor_sets cursor_wf_def opened_def nmo_chunk_get_position_def cload_def data_wf_def)
    ultimately show thesis by (rule that)
  next
    case None
    obtain q b where q: "realloc_dwords None 0 64 (cu_arena e) = Done (q, b)" "arena_sane b"
        "arena_grants b = arena_grants (cu_arena e)" "arena_grants (cu_arena e) \<Longrightarrow> (0::nat) < 64 \<Longrightarrow> q \<noteq> None"
        "\<And>ys. q = Some ys \<Longrightarrow> length ys = 64"
      using realloc_dwords_outcome [OF e(4), of 64 0 None] by auto
    then obtain ys where ys: "q = Some ys" "length ys = 64" using e(5) by auto
    let ?d = "set_data_size 0 (with_data (Some ys) 64 (with_data (Some ys) (c_data_capacity (cu_body c))
       ((set_data_size 0 (set_pos 0 e))\<lparr>cu_arena := b\<rparr>)))"
    have "nmo_chunk_start_write c = ok () ?d" using e q(1) ys None
      by (auto simp: nmo_chunk_start_write_def Let_def cursor_sets)
    moreover have "cursor_wf ?d" "opened ?d" "arena_grants (cu_arena ?d)" "cpos ?d = 0" "csize ?d = 0" "cload ?d \<le> cload c"
      using assms e q(2,3) ys None by (auto simp: cursor_sets cursor_wf_def opened_def nmo_chunk_get_position_def cload_def data_wf_def)
    ultimately show thesis by (rule that)
  qed
qed

lemma start_read_ok:
  assumes "cursor_wf c" "opened c" "arena_grants (cu_arena c)"
  obtains d where "nmo_chunk_start_read c = ok () d" "reader d" "crest d = take (csize c) (cmem c)"
proof -
  from assms(2) obtain st where st: "cu_state c = Some st" by (auto simp: opened_def)
  let ?d = "set_prev 0 (set_pos 0 c)"
  have "nmo_chunk_start_read c = ok () ?d" using st
    by (simp add: nmo_chunk_start_read_def get_parser_state_def cursor_sets)
  moreover have "reader ?d" "crest ?d = take (csize c) (cmem c)"
    using assms st by (auto simp: reader_def crest_def cursor_sets cursor_wf_def nmo_chunk_get_position_def cmem_def
        split: option.splits)
  ultimately show thesis by (rule that)
qed

lemma crest_end: "reader d \<Longrightarrow> crest d = [] \<Longrightarrow> \<not> can_read d 1"
proof -
  assume d: "reader d" "crest d = []"
  then obtain st where st: "cu_state d = Some st" by (auto simp: reader_def)
  have wf: "cursor_wf d" using d(1) by (simp add: reader_def)
  have "csize d \<le> current_pos st"
  proof (cases "c_data (cu_body d)")
    case (Some xs)
    then have "csize d \<le> length xs" using wf by (auto simp: cursor_wf_def data_wf_def)
    then show ?thesis using d(2) st Some by (simp add: crest_def cmem_def nmo_chunk_get_position_def)
  qed (use wf in \<open>simp add: cursor_wf_def\<close>)
  moreover have "current_pos st \<le> csize d" "csize d < 2 ^ 59"
    using wf st by (auto simp: cursor_wf_def nmo_chunk_get_position_def data_wf_def split: option.splits)
  ultimately show "\<not> can_read d 1" using st by (simp add: can_read_def sz_add_small)
qed

locale api_codec =
  fixes put :: "'v \<Rightarrow> chunk_cursor \<Rightarrow> unit cures"
    and get :: "'k \<Rightarrow> chunk_cursor \<times> arena \<Rightarrow> ('v, chunk_cursor \<times> arena) cres"
    and kind :: "'v \<Rightarrow> 'k"
    and admits :: "'v \<Rightarrow> bool"
    and cost :: "'v \<Rightarrow> nat"
    and encodes :: "'v \<Rightarrow> u32 list \<Rightarrow> bool"
  assumes put_law: "admits v \<Longrightarrow> puts (cost v) (encodes v) (put v)"
    and get_law: "admits v \<Longrightarrow> encodes v ds \<Longrightarrow> yields_in (get (kind v)) ds v"
begin

fun encodes_all :: "'v list \<Rightarrow> u32 list \<Rightarrow> bool" where
  "encodes_all [] ds \<longleftrightarrow> ds = []"
| "encodes_all (v # vs) ds \<longleftrightarrow> (\<exists>xs ys. encodes v xs \<and> encodes_all vs ys \<and> ds = xs @ ys)"

lemma write_values_law:
  "list_all admits vs \<Longrightarrow> puts (sum_list (map cost vs)) (encodes_all vs) (write_values put vs)"
proof (induction vs)
  case Nil
  have "write_values put [] = ok ()" by (intro ext) simp
  then show ?case using puts_nothing by simp
next
  case (Cons v vs)
  have eq: "write_values put (v # vs) = (\<lambda>c. bindR (put v c) (\<lambda>_. write_values put vs))" by (intro ext) simp
  show ?case unfolding eq using Cons by (intro puts_mono [OF puts_bind [OF put_law Cons.IH]]) auto
qed

lemma read_values_law:
  "list_all admits vs \<Longrightarrow> encodes_all vs ds \<Longrightarrow> yields_in (read_values get (map kind vs)) ds vs"
proof (induction vs arbitrary: ds)
  case Nil
  then show ?case by (simp add: yields_in_def ok_def)
next
  case (Cons v vs)
  then obtain xs ys where d: "encodes v xs" "encodes_all vs ys" "ds = xs @ ys" by auto
  have "yields_in (\<lambda>s. bindR (get (kind v) s) (\<lambda>v s. bindR (read_values get (map kind vs) s) (\<lambda>vs. ok (v # vs)))) (xs @ ys) (v # vs)"
  proof (rule yields_in_bind)
    show "yields_in (get (kind v)) xs v" using Cons.prems d by (intro get_law) auto
    have "yields_in (\<lambda>s. bindR (read_values get (map kind vs) s) (\<lambda>vs. ok (v # vs))) (ys @ []) (v # vs)"
      using Cons d by (intro yields_in_bind [OF Cons.IH]) auto
    then show "yields_in (\<lambda>s. bindR (read_values get (map kind vs) s) (\<lambda>vs. ok (v # vs))) ys (v # vs)" by simp
  qed
  then show ?case by (simp add: d(3))
qed

lemma values_round_trip:
  assumes c: "cursor_wf c" "arena_grants (cu_arena c)" and b: "arena_wf 2 b" "arena_grants b"
    and vs: "list_all admits vs" "cload c + sum_list (map cost vs) \<le> 2 ^ 56"
  shows "\<exists>c1 c2 c3 d b'. nmo_chunk_start_write c = ok () c1 \<and> write_values put vs c1 = ok () c2
    \<and> nmo_chunk_start_read c2 = ok () c3 \<and> read_values get (map kind vs) (c3, b) = ok vs (d, b')
    \<and> \<not> can_read d 1"
proof -
  obtain c1 where c1: "nmo_chunk_start_write c = ok () c1" "cursor_wf c1" "opened c1" "arena_grants (cu_arena c1)"
    "cpos c1 = 0" "csize c1 = 0" "cload c1 \<le> cload c"
    by (rule start_write_ok [OF c])
  have "runs (sum_list (map cost vs)) c1 (write_values put vs c1) (\<lambda>_ d. \<exists>ds. encodes_all vs ds \<and> written ds c1 d)"
    using write_values_law [OF vs(1)] c1 vs(2) by (simp add: puts_def)
  then obtain y c2 ds where c2: "write_values put vs c1 = Done (Inr y, c2)" "cursor_wf c2" "opened c2" "arena_grants (cu_arena c2)"
    "encodes_all vs ds" "written ds c1 c2"
    by (rule runs_grants [OF _ c1(4)]) blast
  have full: "cpos c2 = csize c2" "take (csize c2) (cmem c2) = ds" using c2(6) c1(5,6) by (auto simp: written_def)
  obtain c3 where c3: "nmo_chunk_start_read c2 = ok () c3" "reader c3" "crest c3 = ds @ []"
    by (rule start_read_ok [OF c2(2-4)]) (simp add: full that)
  from read_values_law [OF vs(1) c2(5), unfolded yields_in_def, rule_format, OF c3(2) b c3(3)]
  obtain d b' where d: "read_values get (map kind vs) (c3, b) = Done (Inr vs, d, b')" "reader d" "crest d = []" by blast
  with crest_end show ?thesis using c1(1) c2(1) c3(1) by (auto simp: ok_def)
qed

end

section \<open>The values of the interface\<close>

datatype api_value =
    VByte u8 | VWord u16 | VInt u32 | VDword u32 | VFloat f32
  | VGuid nmo_guid | VString "u8 list" | VBuffer "u8 list" | VObjectId u32 | VIdentifier u32
  | VObjectSequence nat | VManagerSequence nmo_guid nat | VManagerInt nmo_guid u32 | VSubchunkSequence nat | VArray nat nat "u8 list"
  | VObjectIds "u32 list" | VInts "u32 list" | VFloats "f32 list" | VDwords "u32 list" | VVector2 nmo_vector2
  | VVector3 nmo_vector | VVector4 nmo_vector4 | VQuaternion nmo_quaternion | VMatrix nmo_matrix | VColor nmo_color

datatype api_kind =
    RByte | RWord | RInt | RDword | RFloat | RGuid
  | RString | RBuffer | RObjectId | RIdentifier | RObjectSequence | RManagerSequence
  | RManagerInt | RSubchunkSequence | RArray | RObjectIds | RInts | RFloats
  | RDwords | RVector2 | RVector3 | RVector4 | RQuaternion | RMatrix
  | RColor

fun kind_of :: "api_value \<Rightarrow> api_kind" where
  "kind_of (VByte _) = RByte"
| "kind_of (VWord _) = RWord"
| "kind_of (VInt _) = RInt"
| "kind_of (VDword _) = RDword"
| "kind_of (VFloat _) = RFloat"
| "kind_of (VGuid _) = RGuid"
| "kind_of (VString _) = RString"
| "kind_of (VBuffer _) = RBuffer"
| "kind_of (VObjectId _) = RObjectId"
| "kind_of (VIdentifier _) = RIdentifier"
| "kind_of (VObjectSequence _) = RObjectSequence"
| "kind_of (VManagerSequence _ _) = RManagerSequence"
| "kind_of (VManagerInt _ _) = RManagerInt"
| "kind_of (VSubchunkSequence _) = RSubchunkSequence"
| "kind_of (VArray _ _ _) = RArray"
| "kind_of (VObjectIds _) = RObjectIds"
| "kind_of (VInts _) = RInts"
| "kind_of (VFloats _) = RFloats"
| "kind_of (VDwords _) = RDwords"
| "kind_of (VVector2 _) = RVector2"
| "kind_of (VVector3 _) = RVector3"
| "kind_of (VVector4 _) = RVector4"
| "kind_of (VQuaternion _) = RQuaternion"
| "kind_of (VMatrix _) = RMatrix"
| "kind_of (VColor _) = RColor"

text \<open>The call that writes a value; a string is passed with its terminating zero byte.\<close>

fun api_put :: "api_value \<Rightarrow> chunk_cursor \<Rightarrow> unit cures" where
  "api_put (VByte b) = nmo_chunk_write_byte b"
| "api_put (VWord w) = nmo_chunk_write_word w"
| "api_put (VInt x) = nmo_chunk_write_int x"
| "api_put (VDword x) = nmo_chunk_write_dword x"
| "api_put (VFloat x) = nmo_chunk_write_float x"
| "api_put (VGuid g) = nmo_chunk_write_guid g"
| "api_put (VString bs) = nmo_chunk_write_string (Some (bs @ [0]))"
| "api_put (VBuffer bs) = nmo_chunk_write_buffer (Some bs) (length bs)"
| "api_put (VObjectId x) = nmo_chunk_write_object_id x"
| "api_put (VIdentifier x) = nmo_chunk_write_identifier x"
| "api_put (VObjectSequence n) = nmo_chunk_write_object_sequence_start n"
| "api_put (VManagerSequence g n) = nmo_chunk_start_manager_sequence g n"
| "api_put (VManagerInt g x) = nmo_chunk_write_manager_int g x"
| "api_put (VSubchunkSequence n) = nmo_chunk_start_sub_chunk_sequence n"
| "api_put (VArray n m bs) = nmo_chunk_write_array (Some bs) n m"
| "api_put (VObjectIds vs) = nmo_chunk_write_object_id_array (Some vs) (length vs)"
| "api_put (VInts vs) = nmo_chunk_write_int_array (Some vs) (length vs)"
| "api_put (VFloats vs) = nmo_chunk_write_float_array (Some vs) (length vs)"
| "api_put (VDwords vs) = nmo_chunk_write_dword_array (Some vs) (length vs)"
| "api_put (VVector2 v) = nmo_chunk_write_vector2 (Some v)"
| "api_put (VVector3 v) = nmo_chunk_write_vector3 (Some v)"
| "api_put (VVector4 v) = nmo_chunk_write_vector4 (Some v)"
| "api_put (VQuaternion q) = nmo_chunk_write_quaternion (Some q)"
| "api_put (VMatrix m) = nmo_chunk_write_matrix (Some m)"
| "api_put (VColor x) = nmo_chunk_write_color (Some x)"

text \<open>The call that reads it back.\<close>

definition array_value :: "('a list \<Rightarrow> api_value) \<Rightarrow> nat \<times> 'a list option \<Rightarrow> api_value" where
  "array_value h r = h (case snd r of None \<Rightarrow> [] | Some vs \<Rightarrow> vs)"

fun api_get :: "api_kind \<Rightarrow> chunk_cursor \<times> arena \<Rightarrow> (api_value, chunk_cursor \<times> arena) cres" where
  "api_get RByte = map_api VByte (beside_arena nmo_chunk_read_byte)"
| "api_get RWord = map_api VWord (beside_arena nmo_chunk_read_word)"
| "api_get RInt = map_api VInt (beside_arena nmo_chunk_read_int)"
| "api_get RDword = map_api VDword (beside_arena nmo_chunk_read_dword)"
| "api_get RFloat = map_api VFloat (beside_arena nmo_chunk_read_float)"
| "api_get RGuid = map_api VGuid (beside_arena nmo_chunk_read_guid)"
| "api_get RString = map_api (\<lambda>(n, p). VString (take n (the p))) (beside_arena (\<lambda>c. settled (nmo_chunk_read_string c)))"
| "api_get RBuffer = map_api (\<lambda>(n, p). VBuffer (case p of None \<Rightarrow> [] | Some bs \<Rightarrow> bs)) (beside_arena nmo_chunk_read_buffer)"
| "api_get RObjectId = map_api VObjectId (beside_arena nmo_chunk_read_object_id)"
| "api_get RIdentifier = map_api VIdentifier (beside_arena nmo_chunk_read_identifier)"
| "api_get RObjectSequence = map_api VObjectSequence (beside_arena nmo_chunk_read_object_sequence_start)"
| "api_get RManagerSequence = map_api (\<lambda>(g, n). VManagerSequence g n) (beside_arena nmo_chunk_start_manager_read_sequence)"
| "api_get RManagerInt = map_api (\<lambda>(g, x). VManagerInt g x) (beside_arena nmo_chunk_read_manager_int)"
| "api_get RSubchunkSequence = map_api VSubchunkSequence (beside_arena nmo_chunk_start_read_sub_chunk_sequence)"
| "api_get RArray = map_api (\<lambda>(bs, n, m). VArray n m bs) (beside_arena nmo_chunk_read_array)"
| "api_get RObjectIds = map_api (array_value VObjectIds) nmo_chunk_read_object_id_array"
| "api_get RInts = map_api (array_value VInts) nmo_chunk_read_int_array"
| "api_get RFloats = map_api (array_value VFloats) nmo_chunk_read_float_array"
| "api_get RDwords = map_api (array_value VDwords) nmo_chunk_read_dword_array"
| "api_get RVector2 = map_api VVector2 (beside_arena nmo_chunk_read_vector2)"
| "api_get RVector3 = map_api VVector3 (beside_arena nmo_chunk_read_vector3)"
| "api_get RVector4 = map_api VVector4 (beside_arena nmo_chunk_read_vector4)"
| "api_get RQuaternion = map_api VQuaternion (beside_arena nmo_chunk_read_quaternion)"
| "api_get RMatrix = map_api VMatrix (beside_arena nmo_chunk_read_matrix)"
| "api_get RColor = map_api VColor (beside_arena nmo_chunk_read_color)"

text \<open>The words that encode it.\<close>

fun api_encodes :: "api_value \<Rightarrow> u32 list \<Rightarrow> bool" where
  "api_encodes (VByte b) ds \<longleftrightarrow> ds = [ucast b]"
| "api_encodes (VWord w) ds \<longleftrightarrow> ds = [ucast w]"
| "api_encodes (VInt x) ds \<longleftrightarrow> ds = [x]"
| "api_encodes (VDword x) ds \<longleftrightarrow> ds = [x]"
| "api_encodes (VFloat x) ds \<longleftrightarrow> ds = [x]"
| "api_encodes (VGuid g) ds \<longleftrightarrow> ds = [d1 g, d2 g]"
| "api_encodes (VString bs) ds \<longleftrightarrow> (\<exists>es. ds = of_nat (length bs + 1) # es \<and> holds_bytes (bs @ [0]) es)"
| "api_encodes (VBuffer bs) ds \<longleftrightarrow> (\<exists>es. ds = of_nat (length bs) # es \<and> holds_bytes bs es)"
| "api_encodes (VObjectId x) ds \<longleftrightarrow> ds = [x]"
| "api_encodes (VIdentifier x) ds \<longleftrightarrow> ds = [x]"
| "api_encodes (VObjectSequence n) ds \<longleftrightarrow> ds = [of_nat n]"
| "api_encodes (VManagerSequence g n) ds \<longleftrightarrow> ds = [of_nat n, d1 g, d2 g]"
| "api_encodes (VManagerInt g x) ds \<longleftrightarrow> ds = [d1 g, d2 g, x]"
| "api_encodes (VSubchunkSequence n) ds \<longleftrightarrow> ds = [of_nat n]"
| "api_encodes (VArray n m bs) ds \<longleftrightarrow> (\<exists>es. ds = of_nat n # of_nat m # es \<and> holds_bytes bs es)"
| "api_encodes (VObjectIds vs) ds \<longleftrightarrow> ds = of_nat (length vs) # vs"
| "api_encodes (VInts vs) ds \<longleftrightarrow> ds = of_nat (length vs) # vs"
| "api_encodes (VFloats vs) ds \<longleftrightarrow> ds = of_nat (length vs) # vs"
| "api_encodes (VDwords vs) ds \<longleftrightarrow> ds = of_nat (length vs) # vs"
| "api_encodes (VVector2 v) ds \<longleftrightarrow> ds = [v2_x v, v2_y v]"
| "api_encodes (VVector3 v) ds \<longleftrightarrow> ds = [v3_x v, v3_y v, v3_z v]"
| "api_encodes (VVector4 v) ds \<longleftrightarrow> ds = vector4_dwords v"
| "api_encodes (VQuaternion q) ds \<longleftrightarrow> ds = [q_x q, q_y q, q_z q, q_w q]"
| "api_encodes (VMatrix m) ds \<longleftrightarrow> ds = matrix_dwords m"
| "api_encodes (VColor x) ds \<longleftrightarrow> ds = [col_r x, col_g x, col_b x, col_a x]"

text \<open>The values that survive: strings without zero bytes, counts that fit their field, arrays that are not empty where the element size is stored with them.\<close>

fun api_ok :: "api_value \<Rightarrow> bool" where
  "api_ok (VString bs) \<longleftrightarrow> 0 \<notin> set bs \<and> length bs < 2 ^ 32 - 4"
| "api_ok (VBuffer bs) \<longleftrightarrow> length bs < 2 ^ 32 - 4"
| "api_ok (VObjectSequence n) \<longleftrightarrow> n < 2 ^ 31"
| "api_ok (VManagerSequence g n) \<longleftrightarrow> n < 2 ^ 32"
| "api_ok (VSubchunkSequence n) \<longleftrightarrow> n < 2 ^ 32"
| "api_ok (VArray n m bs) \<longleftrightarrow> length bs = n * m \<and> 0 < n * m \<and> n * m < 2 ^ 32 - 4"
| "api_ok (VObjectIds vs) \<longleftrightarrow> length vs < 2 ^ 31"
| "api_ok (VInts vs) \<longleftrightarrow> length vs < 2 ^ 31"
| "api_ok (VFloats vs) \<longleftrightarrow> length vs < 2 ^ 31"
| "api_ok (VDwords vs) \<longleftrightarrow> length vs < 2 ^ 31"
| "api_ok _ \<longleftrightarrow> True"

fun api_cost :: "api_value \<Rightarrow> nat" where
  "api_cost (VString bs) = length bs + 3"
| "api_cost (VBuffer bs) = length bs + 3"
| "api_cost (VArray n m bs) = length bs + 2"
| "api_cost (VObjectIds vs) = 1 + 2 * length vs"
| "api_cost (VInts vs) = 1 + 1 * length vs"
| "api_cost (VFloats vs) = 1 + 1 * length vs"
| "api_cost (VDwords vs) = 1 + 1 * length vs"
| "api_cost _ = 16"

section \<open>Every value survives\<close>

lemma array_puts:
  "puts (1 + 2 * length vs) (\<lambda>ds. ds = of_nat (length vs) # vs) (nmo_chunk_write_object_id_array (Some vs) (length vs))"
  "puts (1 + 1 * length vs) (\<lambda>ds. ds = of_nat (length vs) # vs) (nmo_chunk_write_int_array (Some vs) (length vs))"
  "puts (1 + 1 * length vs) (\<lambda>ds. ds = of_nat (length vs) # vs) (nmo_chunk_write_float_array (Some vs) (length vs))"
  "puts (1 + 1 * length vs) (\<lambda>ds. ds = of_nat (length vs) # vs) (nmo_chunk_write_dword_array (Some vs) (length vs))"
  unfolding nmo_chunk_write_object_id_array_def nmo_chunk_write_int_array_def nmo_chunk_write_float_array_def
    nmo_chunk_write_dword_array_def
  using puts_typed_array [where enc = "\<lambda>v. v" and vs = vs, OF scalar_puts(7)]
    puts_typed_array [where enc = "\<lambda>v. v" and vs = vs, OF scalar_puts(3)]
    puts_typed_array [where enc = "\<lambda>v. v" and vs = vs, OF scalar_puts(5)]
    puts_typed_array [where enc = "\<lambda>v. v" and vs = vs, OF scalar_puts(4)]
  by simp_all

lemma struct_puts:
  "puts 2 (\<lambda>ds. ds = [v2_x a, v2_y a]) (nmo_chunk_write_vector2 (Some a))"
  "puts 3 (\<lambda>ds. ds = [v3_x b, v3_y b, v3_z b]) (nmo_chunk_write_vector3 (Some b))"
  "puts 4 (\<lambda>ds. ds = vector4_dwords v) (nmo_chunk_write_vector4 (Some v))"
  "puts 4 (\<lambda>ds. ds = [q_x q, q_y q, q_z q, q_w q]) (nmo_chunk_write_quaternion (Some q))"
  "puts 16 (\<lambda>ds. ds = matrix_dwords m) (nmo_chunk_write_matrix (Some m))"
  "puts 4 (\<lambda>ds. ds = [col_r x, col_g x, col_b x, col_a x]) (nmo_chunk_write_color (Some x))"
  unfolding nmo_chunk_write_vector2_def nmo_chunk_write_vector3_def nmo_chunk_write_vector4_def
    nmo_chunk_write_quaternion_def nmo_chunk_write_matrix_def nmo_chunk_write_color_def
  by (rule puts_struct; simp add: vector4_dwords_def)+

lemma api_put_law: "api_ok v \<Longrightarrow> puts (api_cost v) (api_encodes v) (api_put v)"
  by (cases v)
     (auto intro: puts_mono [OF scalar_puts(1)] puts_mono [OF scalar_puts(2)] puts_mono [OF scalar_puts(3)]
        puts_mono [OF scalar_puts(4)] puts_mono [OF scalar_puts(5)] puts_mono [OF scalar_puts(6)]
        puts_mono [OF scalar_puts(7)] puts_mono [OF scalar_puts(8)] puts_mono [OF scalar_puts(9)]
        puts_mono [OF puts_bytes(1)] puts_mono [OF puts_bytes(2)] puts_mono [OF sequence_puts(1)]
        puts_mono [OF sequence_puts(3)] puts_mono [OF sequence_puts(4)] puts_mono [OF puts_array]
        puts_mono [OF struct_puts(1)] puts_mono [OF struct_puts(2)] puts_mono [OF struct_puts(3)]
        puts_mono [OF struct_puts(4)] puts_mono [OF struct_puts(5)] puts_mono [OF struct_puts(6)]
        puts_mono [OF array_puts(1)] puts_mono [OF array_puts(2)] puts_mono [OF array_puts(3)] puts_mono [OF array_puts(4)])

lemma array_gets:
  assumes "length vs < 2 ^ 31"
  shows "yields_in (map_api (array_value VObjectIds) nmo_chunk_read_object_id_array) (of_nat (length vs) # vs) (VObjectIds vs)"
    "yields_in (map_api (array_value VInts) nmo_chunk_read_int_array) (of_nat (length vs) # vs) (VInts vs)"
    "yields_in (map_api (array_value VFloats) nmo_chunk_read_float_array) (of_nat (length vs) # vs) (VFloats vs)"
    "yields_in (map_api (array_value VDwords) nmo_chunk_read_dword_array) (of_nat (length vs) # vs) (VDwords vs)"
  unfolding nmo_chunk_read_object_id_array_def nmo_chunk_read_int_array_def nmo_chunk_read_float_array_def
    nmo_chunk_read_dword_array_def
  by (rule yields_map, rule typed_array_yields [where enc = "\<lambda>v. v", OF _ assms, unfolded list.map_ident],
      rule scalar_yields, simp add: array_value_def)+

lemmas beside_rules = scalar_yields guid_yields identifier_yields manager_int_yields sequence_start_yields
  more_yields structs_yield string_yields buffer_yields array_yields

lemma string_gets:
  assumes "0 \<notin> set bs" "length bs < 2 ^ 32 - 4" "holds_bytes (bs @ [0]) es"
  shows "yields_in (api_get RString) (of_nat (length bs + 1) # es) (VString bs)"
  unfolding api_get.simps
  by (rule yields_map, rule yields_beside, rule string_yields [OF assms(2,3)]) simp

lemma api_get_law:
  assumes "api_ok v" "api_encodes v ds"
  shows "yields_in (api_get (kind_of v)) ds v"
proof (cases v)
  case (VString bs)
  then obtain es where es: "ds = of_nat (length bs + 1) # es" "holds_bytes (bs @ [0]) es" using assms(2) by auto
  have "yields_in (api_get RString) ds v" unfolding es(1) VString
    using assms(1) VString es(2) by (intro string_gets) auto
  then show ?thesis by (simp add: VString)
qed (use assms in \<open>auto intro!: yields_map yields_beside array_gets intro: beside_rules simp del: of_nat_Suc\<close>)

interpretation chunk_api: api_codec api_put api_get kind_of api_ok api_cost api_encodes
  by unfold_locales (fact api_put_law api_get_law)+

end
