(* ===== verification/ChunkApiSafety.thy ===== *)
theory ChunkApiSafety
  imports ChunkApiCodec
begin

text \<open>
  What the calls of the chunk interface keep: no sequence of writes, guarded reads and movements
  leaves a buffer or breaks the invariant of the chunk.
\<close>

section \<open>Calls that keep a chunk well formed\<close>

definition keeps :: "nat \<Rightarrow> (chunk_cursor \<Rightarrow> ('a \<times> chunk_cursor) eff) \<Rightarrow> bool" where
  "keeps k f \<longleftrightarrow> (\<forall>c. cursor_wf c \<longrightarrow> opened c \<longrightarrow> cload c + k \<le> 2 ^ 56 \<longrightarrow>
     (\<exists>r d. f c = Done (r, d) \<and> cursor_wf d \<and> opened d \<and> cload d \<le> cload c + k))"

lemma keepsI:
  assumes "\<And>c. cursor_wf c \<Longrightarrow> opened c \<Longrightarrow> cload c + k \<le> 2 ^ 56 \<Longrightarrow>
    \<exists>r d. f c = Done (r, d) \<and> cursor_wf d \<and> opened d \<and> cload d \<le> cload c + k"
  shows "keeps k f"
  using assms by (simp add: keeps_def)

lemma keeps_puts: "puts k P m \<Longrightarrow> keeps k m"
  unfolding keeps_def puts_def runs_def by fastforce

lemma keeps_mono: "keeps k f \<Longrightarrow> k \<le> l \<Longrightarrow> keeps l f"
  unfolding keeps_def by (meson add_left_mono order_trans)

lemma keeps_bind:
  assumes "keeps k f" "\<And>v. keeps l (g v)"
  shows "keeps (k + l) (\<lambda>c. bindR (f c) g)"
proof (rule keepsI)
  fix c assume c: "cursor_wf c" "opened c" "cload c + (k + l) \<le> 2 ^ 56"
  then have "cload c + k \<le> 2 ^ 56" by simp
  with c assms(1) obtain r d where d: "f c = Done (r, d)" "cursor_wf d" "opened d" "cload d \<le> cload c + k"
    unfolding keeps_def by blast
  show "\<exists>r e. bindR (f c) g = Done (r, e) \<and> cursor_wf e \<and> opened e \<and> cload e \<le> cload c + (k + l)"
  proof (cases r)
    case (Inl x)
    with d show ?thesis by auto
  next
    case (Inr v)
    from assms(2) [of v] d c(3) obtain q e where "g v d = Done (q, e)" "cursor_wf e" "opened e" "cload e \<le> cload d + l"
      unfolding keeps_def by fastforce
    with d Inr show ?thesis by auto
  qed
qed

lemma keeps_value: "keeps 0 (ok v)"
  by (simp add: keeps_def ok_def)

lemma keeps_then_ok: "keeps k f \<Longrightarrow> keeps k (\<lambda>c. bindR (f c) (\<lambda>v. ok (h v)))"
  using keeps_bind [OF _ keeps_value, of k f h] by simp

section \<open>Guarded reads\<close>

text \<open>A read that may take \<open>n\<close> words from the position, which it has checked to be there.\<close>

definition ready :: "nat \<Rightarrow> chunk_cursor \<Rightarrow> bool" where
  "ready n c \<longleftrightarrow> cursor_wf c \<and> opened c \<and> cpos c + n \<le> csize c"

definition scans :: "nat \<Rightarrow> (chunk_cursor \<Rightarrow> 'a cures) \<Rightarrow> bool" where
  "scans n f \<longleftrightarrow> (\<forall>c. ready n c \<longrightarrow> (\<exists>r d. f c = Done (r, d) \<and> cursor_wf d \<and> opened d \<and> cload d \<le> cload c))"

lemma cursor_wf_at:
  "cursor_wf c \<Longrightarrow> n \<le> csize c \<Longrightarrow> cursor_wf (set_pos n c)" "opened (set_pos n c) = opened c"
  "cload (set_pos n c) = cload c" "csize (set_pos n c) = csize c" "cmem (set_pos n c) = cmem c"
  "opened c \<Longrightarrow> cpos (set_pos n c) = n"
  by (auto simp: cursor_wf_def set_pos_def opened_def cload_def cmem_def nmo_chunk_get_position_def split: option.splits)

lemma cursor_wf_prev:
  "cursor_wf (set_prev n c) = cursor_wf c" "opened (set_prev n c) = opened c"
  "cload (set_prev n c) = cload c" "csize (set_prev n c) = csize c"
  by (auto simp: cursor_wf_def set_prev_def opened_def cload_def nmo_chunk_get_position_def split: option.splits)

lemma load_ready:
  assumes "ready (Suc n) c"
  obtains v d where "load_next c = ok v d" "ready n d" "cload d = cload c"
proof -
  have c: "cursor_wf c" "opened c" "cpos c + Suc n \<le> csize c" using assms by (simp_all add: ready_def)
  note b = wf_bounds [OF c(1,2)]
  from c(2) obtain st xs where s: "cu_state c = Some st" "c_data (cu_body c) = Some xs" "cmem c = xs" "cpos c = current_pos st"
    by (rule openedE)
  have i: "current_pos st < length xs" using b s c(3) by simp
  have m: "move_on 1 c = set_pos (cpos c + 1) c" using b s i by (simp add: move_on_def sz_add_small)
  have "load_next c = ok (xs ! current_pos st) (set_pos (cpos c + 1) c)" using s i m by (simp add: load_next_def load_dword_def)
  moreover have "ready n (set_pos (cpos c + 1) c)" using c by (simp add: ready_def cursor_wf_at)
  ultimately show thesis by (rule that) (simp add: cursor_wf_at)
qed

lemma scans_ok: "scans n (ok v)"
  by (simp add: scans_def ready_def ok_def)

lemma scans_load:
  assumes "\<And>v. scans n (g v)"
  shows "scans (Suc n) (\<lambda>c. bindR (load_next c) g)"
  unfolding scans_def
proof (intro allI impI)
  fix c assume "ready (Suc n) c"
  then obtain v d where "load_next c = ok v d" "ready n d" "cload d = cload c" by (rule load_ready)
  with assms [of v] show "\<exists>r e. bindR (load_next c) g = Done (r, e) \<and> cursor_wf e \<and> opened e \<and> cload e \<le> cload c"
    by (auto simp: scans_def ok_def)
qed

lemma scans_next: "scans 1 load_next"
proof -
  have "scans 1 (\<lambda>c. bindR (load_next c) ok)" using scans_load [OF scans_ok, of 0 "\<lambda>v. v"] by simp
  moreover have "(\<lambda>c. bindR (load_next c) ok) = load_next"
    by (auto simp: bindR_def ok_def fun_eq_iff split: eff.splits prod.splits sum.splits)
  ultimately show ?thesis by simp
qed

lemma keeps_guarded:
  assumes "scans n f" "n < 2 ^ 62"
  shows "keeps 0 (\<lambda>c. if \<not> can_read c n then fail e c else f c)"
proof (rule keepsI)
  fix c assume c: "cursor_wf c" "opened c" "cload c + 0 \<le> 2 ^ 56"
  show "\<exists>r d. (if \<not> can_read c n then fail e c else f c) = Done (r, d) \<and> cursor_wf d \<and> opened d \<and> cload d \<le> cload c + 0"
  proof (cases "can_read c n")
    case True
    note b = wf_bounds [OF c(1,2)]
    from c(2) obtain st xs where s: "cu_state c = Some st" "cpos c = current_pos st" by (rule openedE)
    have "sz_add (current_pos st) n = current_pos st + n" using b s assms(2) by (intro sz_add_small) simp
    then have "ready n c" using True c s by (simp add: ready_def can_read_def)
    with assms(1) True show ?thesis by (simp add: scans_def)
  next
    case False
    then show ?thesis using c by (simp add: fail_def)
  qed
qed

lemma keeps_reads:
  "keeps 0 nmo_chunk_read_byte" "keeps 0 nmo_chunk_read_word" "keeps 0 nmo_chunk_read_int"
  "keeps 0 nmo_chunk_read_dword" "keeps 0 nmo_chunk_read_float" "keeps 0 nmo_chunk_read_guid"
  "keeps 0 nmo_chunk_read_object_id" "keeps 0 nmo_chunk_read_manager_int"
proof -
  have two: "scans 2 (\<lambda>c. bindR (load_next c) (\<lambda>x c. bindR (load_next c) (\<lambda>y. ok (h x y))))" for h :: "u32 \<Rightarrow> u32 \<Rightarrow> 'a"
    using scans_load [OF scans_load [OF scans_ok, of 0]] by (simp add: numeral_2_eq_2)
  have three: "scans 3 (\<lambda>c. bindR (load_next c) (\<lambda>x c. bindR (load_next c) (\<lambda>y c. bindR (load_next c) (\<lambda>z. ok (h x y z)))))"
    for h :: "u32 \<Rightarrow> u32 \<Rightarrow> u32 \<Rightarrow> 'a"
    using scans_load [OF scans_load [OF scans_load [OF scans_ok, of 0]]] by (simp add: numeral_3_eq_3)
  have one: "scans 1 (\<lambda>c. bindR (load_next c) (\<lambda>x. ok (h x)))" for h :: "u32 \<Rightarrow> 'a"
    using scans_load [OF scans_ok, of 0] by simp
  note simps = nmo_chunk_read_byte_def nmo_chunk_read_word_def nmo_chunk_read_int_def nmo_chunk_read_dword_def
    nmo_chunk_read_float_def nmo_chunk_read_guid_def nmo_chunk_read_object_id_def nmo_chunk_read_manager_int_def
  show "keeps 0 nmo_chunk_read_byte" "keeps 0 nmo_chunk_read_word" "keeps 0 nmo_chunk_read_int"
    "keeps 0 nmo_chunk_read_dword" "keeps 0 nmo_chunk_read_float" "keeps 0 nmo_chunk_read_guid"
    "keeps 0 nmo_chunk_read_object_id" "keeps 0 nmo_chunk_read_manager_int"
    unfolding simps by (rule keeps_guarded, rule one two three scans_next, simp)+
qed

lemma keeps_read_identifier: "keeps 0 nmo_chunk_read_identifier"
proof -
  have "scans 0 (\<lambda>c. ok x (set_prev (sz_sub (cpos c) 1) c))" for x
    by (simp add: scans_def ready_def ok_def cursor_wf_prev)
  then have "scans 1 (\<lambda>c. bindR (load_next c) (\<lambda>x c. ok x (set_prev (sz_sub (cpos c) 1) c)))"
    unfolding One_nat_def by (rule scans_load)
  then show ?thesis unfolding nmo_chunk_read_identifier_def by (rule keeps_guarded) simp
qed

lemma keeps_floats: "keeps 0 (read_floats n)"
proof (induction n)
  case 0
  have "read_floats 0 = ok []" by (intro ext) simp
  then show ?case by (simp add: keeps_value)
next
  case (Suc n)
  have eq: "read_floats (Suc n) = (\<lambda>c. bindR (nmo_chunk_read_float c) (\<lambda>x c. bindR (read_floats n c) (\<lambda>xs. ok (x # xs))))"
    by (intro ext) simp
  show ?case unfolding eq using keeps_bind [OF keeps_reads(5) keeps_then_ok [OF Suc.IH]] by simp
qed

lemma keeps_reads_more:
  "keeps 0 nmo_chunk_read_object_sequence_start" "keeps 0 nmo_chunk_start_read_sub_chunk_sequence"
  "keeps 0 nmo_chunk_start_manager_read_sequence" "keeps 0 nmo_chunk_read_vector2" "keeps 0 nmo_chunk_read_vector3"
  "keeps 0 nmo_chunk_read_vector4" "keeps 0 nmo_chunk_read_quaternion" "keeps 0 nmo_chunk_read_matrix"
  "keeps 0 nmo_chunk_read_color"
proof -
  show "keeps 0 nmo_chunk_start_manager_read_sequence"
    using keeps_bind [OF keeps_reads(4) keeps_then_ok [OF keeps_reads(6)]]
    by (simp add: nmo_chunk_start_manager_read_sequence_def [abs_def])
qed (use keeps_then_ok [OF keeps_reads(3)] keeps_then_ok [OF keeps_reads(4)] keeps_then_ok [OF keeps_floats] in
    \<open>simp_all add: nmo_chunk_read_object_sequence_start_def [abs_def] nmo_chunk_start_read_sub_chunk_sequence_def [abs_def]
      nmo_chunk_read_vector2_def [abs_def] nmo_chunk_read_vector3_def [abs_def] nmo_chunk_read_vector4_def [abs_def]
      nmo_chunk_read_quaternion_def [abs_def] nmo_chunk_read_matrix_def [abs_def] nmo_chunk_read_color_def [abs_def]\<close>)

section \<open>Movements\<close>

lemma find_word_result:
  "n \<le> length xs \<Longrightarrow> \<exists>r. find_word w xs n i = Done r \<and> (\<forall>j. r = Some j \<longrightarrow> j < n)"
  by (induction w xs n i rule: find_word.induct) (subst find_word.simps, auto)

lemma keeps_moves:
  "keeps 0 (nmo_chunk_goto p)" "keeps 0 (nmo_chunk_skip n)" "keeps 0 (nmo_chunk_seek_identifier w)"
  "keeps 0 nmo_chunk_start_read" "keeps 0 nmo_chunk_start_write"
proof -
  show "keeps 0 (nmo_chunk_goto p)"
    by (rule keepsI) (auto simp: nmo_chunk_goto_def opened_def ok_def fail_def cursor_wf_at set_pos_def [of p] cload_def
        cursor_wf_at(1) [unfolded set_pos_def])
  show "keeps 0 (nmo_chunk_skip n)"
    by (rule keepsI) (use cursor_wf_at in \<open>fastforce simp: nmo_chunk_skip_def ok_def fail_def opened_def split: option.splits\<close>)
  show "keeps 0 nmo_chunk_start_read"
  proof (rule keepsI)
    fix c assume c: "cursor_wf c" "opened c"
    then have "nmo_chunk_start_read c = ok () (set_prev 0 (set_pos 0 c))"
      by (auto simp: nmo_chunk_start_read_def get_parser_state_def opened_def set_prev_def set_pos_def)
    with c show "\<exists>r d. nmo_chunk_start_read c = Done (r, d) \<and> cursor_wf d \<and> opened d \<and> cload d \<le> cload c + 0"
      by (simp add: ok_def cursor_wf_prev cursor_wf_at)
  qed
  show "keeps 0 nmo_chunk_start_write"
  proof (rule keepsI)
    fix c assume c: "cursor_wf c" "opened c"
    let ?d = "set_data_size 0 (set_pos 0 c)"
    from c(2) obtain st xs where s: "cu_state c = Some st" "c_data (cu_body c) = Some xs" by (rule openedE)
    have "nmo_chunk_start_write c = ok () ?d"
      using s by (simp add: nmo_chunk_start_write_def get_parser_state_def Let_def set_data_size_def set_pos_def)
    moreover have "cursor_wf ?d" "opened ?d" "cload ?d \<le> cload c"
      using c s by (auto simp: cursor_wf_def opened_def cload_def set_data_size_def set_pos_def data_wf_def nmo_chunk_get_position_def)
    ultimately show "\<exists>r d. nmo_chunk_start_write c = Done (r, d) \<and> cursor_wf d \<and> opened d \<and> cload d \<le> cload c + 0"
      by (auto simp: ok_def)
  qed
  show "keeps 0 (nmo_chunk_seek_identifier w)"
  proof (rule keepsI)
    fix c assume c: "cursor_wf c" "opened c"
    from c(2) obtain st xs where s: "cu_state c = Some st" "c_data (cu_body c) = Some xs" "cmem c = xs" by (rule openedE)
    have "csize c \<le> length xs" "length xs < 2 ^ 59" using wf_bounds [OF c] s by simp_all
    moreover from this(1) obtain r where "find_word w xs (csize c) 0 = Done r" "\<forall>j. r = Some j \<longrightarrow> j < csize c"
      using find_word_result by blast
    ultimately show "\<exists>r d. nmo_chunk_seek_identifier w c = Done (r, d) \<and> cursor_wf d \<and> opened d \<and> cload d \<le> cload c + 0"
      using c s by (cases r) (auto simp: nmo_chunk_seek_identifier_def ok_def fail_def sz_add_small cursor_wf_prev cursor_wf_at)
  qed
qed

section \<open>Sequences of calls\<close>

text \<open>
  The calls a client may make in any order. The reads that copy a block whose length comes from the
  chunk are not among them.
\<close>

datatype api_call =
    Write api_value | Read api_kind | Goto nat | Skip nat | SeekIdentifier u32 | StartRead | StartWrite

fun plain_kind :: "api_kind \<Rightarrow> bool" where
  "plain_kind k \<longleftrightarrow> k \<notin> {RString, RBuffer, RArray, RObjectIds, RInts, RFloats, RDwords}"

definition forget :: "('a \<times> chunk_cursor) eff \<Rightarrow> chunk_cursor eff" where
  "forget m = bindE m (\<lambda>(_, c). Done c)"

fun read_plain :: "api_kind \<Rightarrow> chunk_cursor \<Rightarrow> chunk_cursor eff" where
  "read_plain RByte c = forget (nmo_chunk_read_byte c)"
| "read_plain RWord c = forget (nmo_chunk_read_word c)"
| "read_plain RInt c = forget (nmo_chunk_read_int c)"
| "read_plain RDword c = forget (nmo_chunk_read_dword c)"
| "read_plain RFloat c = forget (nmo_chunk_read_float c)"
| "read_plain RGuid c = forget (nmo_chunk_read_guid c)"
| "read_plain RObjectId c = forget (nmo_chunk_read_object_id c)"
| "read_plain RIdentifier c = forget (nmo_chunk_read_identifier c)"
| "read_plain RObjectSequence c = forget (nmo_chunk_read_object_sequence_start c)"
| "read_plain RManagerSequence c = forget (nmo_chunk_start_manager_read_sequence c)"
| "read_plain RManagerInt c = forget (nmo_chunk_read_manager_int c)"
| "read_plain RSubchunkSequence c = forget (nmo_chunk_start_read_sub_chunk_sequence c)"
| "read_plain RVector2 c = forget (nmo_chunk_read_vector2 c)"
| "read_plain RVector3 c = forget (nmo_chunk_read_vector3 c)"
| "read_plain RVector4 c = forget (nmo_chunk_read_vector4 c)"
| "read_plain RQuaternion c = forget (nmo_chunk_read_quaternion c)"
| "read_plain RMatrix c = forget (nmo_chunk_read_matrix c)"
| "read_plain RColor c = forget (nmo_chunk_read_color c)"
| "read_plain _ c = Done c"

fun api_call_step :: "api_call \<Rightarrow> chunk_cursor \<Rightarrow> chunk_cursor eff" where
  "api_call_step (Write v) c = forget (api_put v c)"
| "api_call_step (Read k) c = read_plain k c"
| "api_call_step (Goto p) c = forget (nmo_chunk_goto p c)"
| "api_call_step (Skip n) c = forget (nmo_chunk_skip n c)"
| "api_call_step (SeekIdentifier w) c = forget (nmo_chunk_seek_identifier w c)"
| "api_call_step StartRead c = forget (nmo_chunk_start_read c)"
| "api_call_step StartWrite c = forget (nmo_chunk_start_write c)"

text \<open>The client goes on after a call that failed.\<close>

fun api_calls :: "api_call list \<Rightarrow> chunk_cursor \<Rightarrow> chunk_cursor eff" where
  "api_calls [] c = Done c"
| "api_calls (x # xs) c = bindE (api_call_step x c) (api_calls xs)"

fun call_ok :: "api_call \<Rightarrow> bool" where
  "call_ok (Write v) \<longleftrightarrow> api_ok v"
| "call_ok (Read k) \<longleftrightarrow> plain_kind k"
| "call_ok _ \<longleftrightarrow> True"

fun call_cost :: "api_call \<Rightarrow> nat" where
  "call_cost (Write v) = api_cost v"
| "call_cost _ = 0"

definition steps_well :: "nat \<Rightarrow> (chunk_cursor \<Rightarrow> chunk_cursor eff) \<Rightarrow> bool" where
  "steps_well k f \<longleftrightarrow> (\<forall>c. cursor_wf c \<longrightarrow> opened c \<longrightarrow> cload c + k \<le> 2 ^ 56 \<longrightarrow>
     (\<exists>d. f c = Done d \<and> cursor_wf d \<and> opened d \<and> cload d \<le> cload c + k))"

lemma steps_well_forget: "keeps k f \<Longrightarrow> steps_well k (\<lambda>c. forget (f c))"
  unfolding keeps_def steps_well_def forget_def by fastforce

lemma call_steps_well: "call_ok x \<Longrightarrow> steps_well (call_cost x) (api_call_step x)"
proof (cases x)
  case (Write v)
  assume "call_ok x"
  then have "api_ok v" by (simp add: Write)
  then have "steps_well (api_cost v) (\<lambda>c. forget (api_put v c))"
    by (rule steps_well_forget [OF keeps_puts [OF api_put_law]])
  then show ?thesis by (simp add: Write fun_eq_iff steps_well_def)
next
  case (Read k)
  assume "call_ok x"
  then show ?thesis unfolding Read steps_well_def
    by (cases k) (use keeps_reads [THEN steps_well_forget] keeps_reads_more [THEN steps_well_forget]
      keeps_read_identifier [THEN steps_well_forget] in \<open>simp_all add: Read steps_well_def\<close>)
qed (use keeps_moves [THEN steps_well_forget] in \<open>simp_all add: steps_well_def\<close>)

end
