(* ===== verification/ChunkApiProperties.thy ===== *)
theory ChunkApiProperties
  imports ChunkApiSafety
begin

text \<open>
  The properties of the chunk interface: values survive, the counts whose typed arrays leave their
  memory, and the chunk that can be read but never written.
\<close>

section \<open>Counts of typed arrays\<close>

text \<open>
  The default allocator over a \<^verbatim>\<open>malloc\<close> that refuses exactly the requests no address space has room for:
  it returns NULL for a request of 0 bytes (\<^verbatim>\<open>default_alloc\<close>, \<^verbatim>\<open>src/core/allocator.c\<close>).
\<close>

definition plain_malloc :: "arena \<Rightarrow> bool" where
  "plain_malloc b \<longleftrightarrow> (\<forall>k n. ar_alloc b k n \<longleftrightarrow> 0 < n \<and> n < 2 ^ 62)"

lemma nmo_align_four: "4 dvd n \<Longrightarrow> n + 3 < 2 ^ 64 \<Longrightarrow> nmo_align n 4 = n"
proof -
  assume h: "4 dvd n" "n + 3 < 2 ^ 64"
  have m: "(of_nat 4 - 1 :: u64) = mask 2" by (simp add: mask_eq_exp_minus_1)
  have a: "(of_nat n + of_nat 4 - 1 :: u64) = of_nat (n + 3)" by simp
  have "unat (of_nat (n + 3) :: u64) = n + 3" by (subst unat_of_nat, rule mod_less) (use h(2) in simp)
  then have "nmo_align n 4 = (n + 3) div 4 * 4" unfolding nmo_align_def a m unat_and_not_mask by simp
  then show ?thesis using h(1) by (auto elim!: dvdE)
qed

lemma huge_array_alloc:
  assumes b: "arena_wf 2 b" "plain_malloc b" and k: "0 < k" "k \<le> 2 ^ 31" and n: "n = 2 ^ 64 - 4 * k"
  shows "k \<le> 5 \<Longrightarrow> nmo_arena_alloc n 4 b = Undefined"
    "5 < k \<Longrightarrow> \<exists>b'. nmo_arena_alloc n 4 b = Done (None, b')"
proof -
  let ?ck = "ar_chunks b ! ar_current b"
  have b': "0 < n" "2 ^ 63 < n" "n + 3 < 2 ^ 64" using k by (simp_all add: n)
  have d: "4 dvd n" unfolding n by (rule dvd_diff_nat) simp_all
  have al: "nmo_align n 4 = n" by (rule nmo_align_four [OF d b'(3)])
  have ck: "ck_used ?ck \<le> ck_size ?ck" "ck_size ?ck < 2 ^ 62" "2 ^ 2 dvd ck_size ?ck"
    using b(1) by (auto simp: arena_wf_def chunk_ok_def)
  have room: "sz_sub (ck_size ?ck) (nmo_align (ck_used ?ck) 4) < n"
  proof -
    have "nmo_align (ck_used ?ck) 4 \<le> ck_size ?ck" using nmo_align_bounds [of 2, OF _ ck(1,3,2)] by simp
    then have "sz_sub (ck_size ?ck) (nmo_align (ck_used ?ck) 4) \<le> ck_size ?ck"
      by (subst sz_sub_small) (use ck(2) in simp_all)
    then show ?thesis using ck(2) b'(2) by simp
  qed
  have grown: "arena_new_chunk_size n 4 b = n" using b(1) b'(2) al
    by (auto simp: arena_new_chunk_size_def arena_grown_size_def Let_def arena_wf_def)
  have bits: "(of_nat 4 :: u64) AND (of_nat 4 - 1) = 0" by simp
  have alloc: "ar_alloc b (ar_calls b) m \<longleftrightarrow> 0 < m \<and> m < 2 ^ 62" for m using b(2) by (simp add: plain_malloc_def)
  have tot: "k \<le> 6 \<Longrightarrow> sz_add sizeof_arena_chunk n = 24 - 4 * k" "6 < k \<Longrightarrow> 2 ^ 63 < sz_add sizeof_arena_chunk n"
    using k by (auto simp: sz_add_def sizeof_arena_chunk_def mod_if n)
  have refused: "\<not> ar_alloc b (ar_calls b) (sz_add sizeof_arena_chunk n)" if "5 < k"
    using that tot by (cases "k = 6") (auto simp: alloc)
  have eq: "nmo_arena_alloc n 4 b = (case arena_create_chunk n b of
        Done (Some ck, a) \<Rightarrow> arena_take 0 n
          (a\<lparr>ar_chunks := take (Suc (ar_current a)) (ar_chunks a) @ [ck], ar_current := Suc (ar_current a),
             ar_total_allocated := sz_add (ar_total_allocated a) n, ar_next_chunk_size := n\<rparr>)
      | Done (None, a) \<Rightarrow> Done (None, a) | Undefined \<Rightarrow> Undefined | Diverges \<Rightarrow> Diverges)"
    using b'(1) room grown bits by (simp add: nmo_arena_alloc_def Let_def)
  show "k \<le> 5 \<Longrightarrow> nmo_arena_alloc n 4 b = Undefined"
    using k tot(1) by (simp add: eq arena_create_chunk_def alloc Let_def) (simp add: sizeof_arena_chunk_def)
  show "5 < k \<Longrightarrow> \<exists>b'. nmo_arena_alloc n 4 b = Done (None, b')"
    using refused by (simp add: eq arena_create_chunk_def Let_def)
qed

lemma word_array_room:
  assumes b: "arena_wf 2 b" and n: "0 < n" "n < 2 ^ 58"
  obtains b' where "nmo_arena_alloc (4 * n) 4 b = Done (None, b')"
  | q b' where "nmo_arena_alloc (4 * n) 4 b = Done (Some q, b')" "region_room b' q = 4 * n"
proof -
  have adm: "arena_admits 2 (4 * n) 4" using n by (auto simp: arena_admits_def intro: exI [of _ 2])
  have wf: "arena_wf 2 b'" if "nmo_arena_alloc (4 * n) 4 b = Done (q, b')" for q b'
    using ar.alloc_returns [OF b adm] that by auto
  from b adm show thesis
  proof (cases rule: arena_alloc_cases)
    case refused
    then show ?thesis by (rule that(1))
  next
    case (placed off e)
    have wf': "arena_wf 2 (arena_taken off (4 * n) e)" by (rule wf [OF placed(1)])
    have cur: "ar_current e < length (ar_chunks e)"
      using placed(2) b by (auto simp: arena_wf_def arena_extended_def)
    have "ck_size (ar_chunks e ! ar_current e) < 2 ^ 62"
    proof -
      let ?b = "arena_taken off (4 * n) e"
      have "ar_chunks ?b ! ar_current ?b \<in> set (ar_chunks ?b)" using wf' by (simp add: arena_wf_def)
      then have "ck_size (ar_chunks ?b ! ar_current ?b) < 2 ^ 62" using wf' by (auto simp: arena_wf_def chunk_ok_def)
      then show ?thesis using cur by (simp add: arena_taken_def)
    qed
    then have "region_room (arena_taken off (4 * n) e) (region_at off (4 * n) e) = 4 * n" using placed(4) cur
      by (simp add: region_room_def Let_def arena_taken_def region_at_def sizeof_arena_chunk_def sz_add_small)
    with placed(1) show ?thesis by (rule that(2))
  qed
qed

lemma keeps_each: "keeps 0 rd \<Longrightarrow> keeps 0 (read_each rd n n)"
proof (induction n)
  case 0
  have "read_each rd 0 0 = ok []" by (intro ext) (simp add: read_each.simps)
  then show ?case by (simp add: keeps_value)
next
  case (Suc n)
  have eq: "read_each rd (Suc n) (Suc n) = (\<lambda>c. bindR (rd c) (\<lambda>v c. bindR (read_each rd n n c) (\<lambda>vs. ok (v # vs))))"
    by (intro ext) (subst read_each.simps, simp)
  show ?case unfolding eq using keeps_bind [OF Suc.prems keeps_then_ok [OF Suc.IH [OF Suc.prems]]] by simp
qed

text \<open>
  C25: \<^verbatim>\<open>nmo_chunk_read_int_array\<close> takes the count of a chunk as a signed number and multiplies its
  sign extension by four. With the default allocator, which returns NULL for 0 bytes, over a \<^verbatim>\<open>malloc\<close> that
  refuses only what no address space has room for, the call leaves the memory it was given exactly for the
  counts from -5 to -1: their size in bytes wraps around together with the header of the arena's block to
  4 to 20 bytes, less than the header itself. From -6 on down the allocator refuses: the sum is 0 for -6
  and huge for the others.
\<close>

theorem read_int_array_overruns_iff:
  assumes "cursor_wf c" "opened c" "cload c \<le> 2 ^ 56" and "arena_wf 2 b" "plain_malloc b"
    and "nmo_chunk_read_int c = ok w c'"
  shows "nmo_chunk_read_int_array (c, b) = Undefined \<longleftrightarrow> -5 \<le> sint w \<and> sint w < 0"
proof -
  have c': "cursor_wf c'" "opened c'" "cload c' \<le> 2 ^ 56"
    using keeps_reads(3) assms(1-3,6) unfolding keeps_def ok_def by fastforce+
  have start: "nmo_chunk_read_object_sequence_start c = ok (size_of_int w) c'"
    using assms(6) by (simp add: nmo_chunk_read_object_sequence_start_def ok_def)
  have w: "- (2 ^ 31) \<le> sint w" "sint w < 2 ^ 31" using sint_greater_eq [of w] sint_less [of w] by simp_all
  let ?m = "nmo_chunk_read_int_array (c, b)"
  consider "sint w = 0" | n where "sint w = int n" "0 < n" "n < 2 ^ 31" | k where "sint w = - int k" "0 < k" "k \<le> 2 ^ 31"
  proof (cases "sint w" "0 :: int" rule: linorder_cases)
    case less
    then show ?thesis using w that(3) [of "nat (- sint w)"] by simp
  next
    case greater
    then show ?thesis using w that(2) [of "nat (sint w)"] by simp
  qed (use that in auto)
  then show ?thesis
  proof cases
    case 1
    then have "?m = ok (0, None) (c', b)"
      by (simp add: nmo_chunk_read_int_array_def read_typed_array_def start size_of_int_def ok_def)
    then show ?thesis using 1 by (simp add: ok_def)
  next
    case 2
    then have size: "size_of_int w = n" "sz_mul n 4 = 4 * n" "n < 2 ^ 58" by (simp_all add: size_of_int_def sz_mul_small)
    have "?m \<noteq> Undefined"
    proof (rule word_array_room [OF assms(4) 2(2) size(3)])
      fix b' assume "nmo_arena_alloc (4 * n) 4 b = Done (None, b')"
      then show ?thesis using 2(2) by (simp add: nmo_chunk_read_int_array_def read_typed_array_def start size ok_def fail_def)
    next
      fix q b' assume q: "nmo_arena_alloc (4 * n) 4 b = Done (Some q, b')" "region_room b' q = 4 * n"
      obtain r d where "read_each nmo_chunk_read_int n n c' = Done (r, d)"
        using keeps_each [OF keeps_reads(3), of n] c' unfolding keeps_def by fastforce
      then show ?thesis using 2(2) q
        by (simp add: nmo_chunk_read_int_array_def read_typed_array_def start size ok_def fail_def split: sum.split)
    qed
    then show ?thesis using 2 by simp
  next
    case 3
    have size: "size_of_int w = 2 ^ 64 - k" unfolding size_of_int_def 3(1)
      using 3(2,3) by (simp add: zmod_zminus1_eq_if nat_diff_distrib)
    have mul: "sz_mul (2 ^ 64 - k) 4 = 2 ^ 64 - 4 * k"
    proof -
      have "(2 ^ 64 - k) * 4 = 3 * 2 ^ 64 + (2 ^ 64 - 4 * k)" using 3(3) by (simp add: algebra_simps)
      moreover have "2 ^ 64 - 4 * k < 2 ^ 64" using 3(2) by simp
      ultimately show ?thesis unfolding sz_mul_def by (metis mod_less mod_mult_self3 mult.commute)
    qed
    have some: "2 ^ 64 - k \<noteq> 0" using 3(3) by simp
    have run: "?m = bindE (nmo_arena_alloc (2 ^ 64 - 4 * k) 4 b) (\<lambda>(q, a). case q of
           None \<Rightarrow> fail NMO_ERR_NOMEM (c', a)
         | Some rg \<Rightarrow> bindE (read_each nmo_chunk_read_int (region_room a rg div 4) (2 ^ 64 - k) c') (\<lambda>(r, c). case r of
               Inl e \<Rightarrow> fail e (c, a) | Inr vs \<Rightarrow> ok (2 ^ 64 - k, Some vs) (c, a)))"
      unfolding nmo_chunk_read_int_array_def read_typed_array_def prod.case start ok_def bindE_simps sum.case size mul
      using some by (simp only: if_False)
    show ?thesis
    proof (cases "k \<le> 5")
      case True
      then have "?m = Undefined" by (simp only: run huge_array_alloc(1) [OF assms(4,5) 3(2,3) refl] bindE_simps)
      with True 3 show ?thesis by simp
    next
      case False
      then obtain b' where "nmo_arena_alloc (2 ^ 64 - 4 * k) 4 b = Done (None, b')"
        using huge_array_alloc(2) [OF assms(4,5) 3(2,3) refl] by auto
      then have "?m = fail NMO_ERR_NOMEM (c', b')" by (simp only: run bindE_simps prod.case option.case)
      with False 3 show ?thesis by (simp add: fail_def)
    qed
  qed
qed

section \<open>Writing without a buffer\<close>












section \<open>Sequences of calls\<close>

text \<open>
  C4: no sequence of writes, reads of words and movements, in any order and with any of them failing,
  takes a chunk that was opened for writing out of its invariant: every call returns, no call reads or
  writes beyond a buffer, the position stays within the data size and the data size within the buffer.
\<close>

theorem api_calls_keep_type:
  assumes "cursor_wf c" "opened c" "list_all call_ok xs" "cload c + sum_list (map call_cost xs) \<le> 2 ^ 56"
  shows "\<exists>d. api_calls xs c = Done d \<and> cursor_wf d \<and> opened d"
  using assms
proof (induction xs arbitrary: c)
  case (Cons x xs)
  have "steps_well (call_cost x) (api_call_step x)" using Cons.prems(3) by (intro call_steps_well) simp
  then obtain d where d: "api_call_step x c = Done d" "cursor_wf d" "opened d" "cload d \<le> cload c + call_cost x"
    using Cons.prems unfolding steps_well_def by fastforce
  have "\<exists>e. api_calls xs d = Done e \<and> cursor_wf e \<and> opened e"
    using Cons.prems(3,4) d by (intro Cons.IH) auto
  with d(1) show ?case by simp
qed simp

section \<open>Values survive\<close>

text \<open>
  C3: any list of values within the limits of \<open>api_ok\<close> written to a chunk through the interface and read
  back by the matching calls comes back unchanged, and the reads end at the end of the data: scalars,
  GUIDs, strings, buffers, identifiers, object, manager and sub-chunk sequences, arrays, vectors,
  quaternions, matrices and colours. The limits: a string has no zero byte; strings and buffers are
  shorter than \<open>2 ^ 32 - 4\<close> bytes; an array of \<^verbatim>\<open>nmo_chunk_write_array\<close> is not empty - an empty one is
  written and cannot be read back - and is shorter than that too; the counts fit the integers that hold
  them; and all values together take at most \<open>2 ^ 56\<close> words.
\<close>

theorem api_values_round_trip:
  assumes "cursor_wf c" "arena_grants (cu_arena c)" and "arena_wf 2 b" "arena_grants b"
    and "list_all api_ok vs" "cload c + sum_list (map api_cost vs) \<le> 2 ^ 56"
  shows "\<exists>c1 c2 c3 d b'. nmo_chunk_start_write c = ok () c1 \<and> write_values api_put vs c1 = ok () c2
    \<and> nmo_chunk_start_read c2 = ok () c3 \<and> read_values api_get (map kind_of vs) (c3, b) = ok vs (d, b')
    \<and> \<not> can_read d 1"
  using assms by (rule chunk_api.values_round_trip)

section \<open>Instances\<close>

definition open_chunk :: "u32 list \<Rightarrow> arena \<Rightarrow> chunk_cursor" where
  "open_chunk ws a = \<lparr>cu_body = empty_body\<lparr>c_data := Some ws, c_data_size := length ws, c_data_capacity := length ws\<rparr>,
     cu_subs = None, cu_arena = a, cu_state = Some \<lparr>current_pos = 0, prev_identifier_pos = 0, ps_data_size = 0\<rparr>\<rparr>"

lemma open_chunk_ok:
  assumes "arena_sane a" "ws \<noteq> []" "length ws < 2 ^ 55"
  shows "cursor_wf (open_chunk ws a)" "opened (open_chunk ws a)" "cload (open_chunk ws a) = length ws"
  using assms by (auto simp: open_chunk_def cursor_wf_def opened_def cload_def data_wf_def tracked_ok_def
      nmo_chunk_get_position_def empty_body_def)

theorem api_values_round_trip_witness:
  "\<exists>a c1 c2 c3 d b'. nmo_arena_create (\<lambda>_ _. True) (\<lambda>_ _. 0) 0 = Done (Some a)
    \<and> nmo_chunk_start_write (cursor_of (Chunk empty_body None) a) = ok () c1
    \<and> write_values api_put [VString [0x43, 0x4B], VInts [1, 2, 3], VGuid \<lparr>d1 = 4, d2 = 5\<rparr>, VObjectId 6] c1 = ok () c2
    \<and> nmo_chunk_start_read c2 = ok () c3
    \<and> read_values api_get [RString, RInts, RGuid, RObjectId] (c3, a)
      = ok [VString [0x43, 0x4B], VInts [1, 2, 3], VGuid \<lparr>d1 = 4, d2 = 5\<rparr>, VObjectId 6] (d, b')
    \<and> \<not> can_read d 1"
proof -
  obtain a where a: "nmo_arena_create (\<lambda>_ _. True) (\<lambda>_ _. 0) 0 = Done (Some a)" "arena_sane a" "arena_grants a"
    by (rule default_arena_exists)
  have wf: "cursor_wf (cursor_of (Chunk empty_body None) a)" "cload (cursor_of (Chunk empty_body None) a) = 0"
    using a(2) by (simp_all add: cursor_of_def cursor_wf_def tracked_ok_def empty_body_def nmo_chunk_get_position_def cload_def)
  have "arena_grants (cu_arena (cursor_of (Chunk empty_body None) a))" using a(3) by (simp add: cursor_of_def)
  moreover have "arena_wf 2 a" by (rule default_arena_wf [OF a(1)]) simp
  moreover have "list_all api_ok [VString [0x43, 0x4B], VInts [1, 2, 3], VGuid \<lparr>d1 = 4, d2 = 5\<rparr>, VObjectId 6]" by simp
  moreover have "cload (cursor_of (Chunk empty_body None) a)
    + sum_list (map api_cost [VString [0x43, 0x4B], VInts [1, 2, 3], VGuid \<lparr>d1 = 4, d2 = 5\<rparr>, VObjectId 6]) \<le> 2 ^ 56"
    using wf(2) by simp
  ultimately show ?thesis using api_values_round_trip [OF wf(1) _ _ a(3)] a(1) by fastforce
qed

theorem api_calls_keep_type_witness:
  "\<exists>a d. nmo_arena_create (\<lambda>_ _. True) (\<lambda>_ _. 0) 0 = Done (Some a)
    \<and> api_calls [Write (VDword 7), Goto 1, Read RGuid, Skip (2 ^ 64 - 1), Read RMatrix, SeekIdentifier 7, Write (VManagerInt \<lparr>d1 = 1, d2 = 2\<rparr> 3)]
        (open_chunk [1, 2, 3] a) = Done d \<and> cursor_wf d \<and> opened d"
proof -
  obtain a where a: "nmo_arena_create (\<lambda>_ _. True) (\<lambda>_ _. 0) 0 = Done (Some a)" "arena_sane a" "arena_grants a"
    by (rule default_arena_exists)
  have o: "cursor_wf (open_chunk [1, 2, 3] a)" "opened (open_chunk [1, 2, 3] a)" "cload (open_chunk [1, 2, 3] a) = 3"
    by (subst open_chunk_ok) (simp_all add: a(2) open_chunk_ok)
  have "\<exists>d. api_calls [Write (VDword 7), Goto 1, Read RGuid, Skip (2 ^ 64 - 1), Read RMatrix, SeekIdentifier 7, Write (VManagerInt \<lparr>d1 = 1, d2 = 2\<rparr> 3)]
        (open_chunk [1, 2, 3] a) = Done d \<and> cursor_wf d \<and> opened d"
    by (rule api_calls_keep_type [OF o(1,2)]) (simp_all add: o(3))
  with a(1) show ?thesis by blast
qed


theorem read_int_array_overruns_iff_witness:
  "\<exists>a b. nmo_arena_create (\<lambda>_ _. True) (\<lambda>_ _. 0) 0 = Done (Some a)
    \<and> nmo_arena_create (\<lambda>_ n. 0 < n \<and> n < 2 ^ 62) (\<lambda>_ _. 0) 0 = Done (Some b)
    \<and> nmo_chunk_read_int_array (open_chunk [0xFFFFFFFF, 5] a, b) = Undefined"
proof -
  obtain a where a: "nmo_arena_create (\<lambda>_ _. True) (\<lambda>_ _. 0) 0 = Done (Some a)" "arena_sane a"
    by (rule default_arena_exists)
  obtain b where b: "nmo_arena_create (\<lambda>_ n. 0 < n \<and> n < 2 ^ 62) (\<lambda>_ _. 0) 0 = Done (Some b)"
    by (simp add: nmo_arena_create_def nmo_arena_create_ex_def nmo_arena_default_config_def Let_def
      growth_two_def arena_create_chunk_def sizeof_arena_chunk_def sz_add_def sizeof_arena_def)
  have wf: "arena_wf 2 b" "plain_malloc b"
    by (rule default_arena_wf [OF b], simp) (simp add: default_arena [OF b] plain_malloc_def)
  let ?c = "open_chunk [0xFFFFFFFF, 5] a"
  have o: "cursor_wf ?c" "opened ?c" "cload ?c = 2"
    by (subst open_chunk_ok) (simp_all add: a(2) open_chunk_ok)
  have "nmo_chunk_read_int ?c = ok 0xFFFFFFFF (set_pos 1 ?c)"
    by (simp add: nmo_chunk_read_int_def can_read_def load_next_def load_dword_def open_chunk_def empty_body_def
        move_on_def nmo_chunk_get_position_def sz_add_def set_pos_def)
  from read_int_array_overruns_iff [OF o(1,2) _ wf this] a(1) b show ?thesis by (simp add: o(3))
qed

end
