(* ===== verification/StateIO.thy ===== *)
theory StateIO
  imports ChunkApiCodec
begin

text \<open>
  What the state readers and writers of the object classes (\<^verbatim>\<open>src/schema/builtin\<close>) share: a reader takes
  the chunk and the arena for the arrays of the state, a writer the chunk. Then the base classes:
  \<^verbatim>\<open>ckobject_schemas.c\<close>, \<^verbatim>\<open>cksceneobject_schemas.c\<close>, \<^verbatim>\<open>ckrenderobject_schemas.c\<close>,
  \<^verbatim>\<open>ckbehaviorio_schemas.c\<close> and \<^verbatim>\<open>ckbehaviorlink_schemas.c\<close>.
\<close>

type_synonym 'a sres = "('a, chunk_cursor \<times> arena) cres"

section \<open>Calls and their error codes\<close>

text \<open>A call whose failure the caller returns, with its own code or wrapped into another one.\<close>

abbreviation get :: "(chunk_cursor \<Rightarrow> 'a cures) \<Rightarrow> chunk_cursor \<times> arena \<Rightarrow> 'a sres" where
  "get \<equiv> beside_arena"

definition recode :: "nmo_error_code \<Rightarrow> ('a, 's) cres \<Rightarrow> ('a, 's) cres" where
  "recode e m = bindE m (\<lambda>(r, s). case r of Inl _ \<Rightarrow> fail e s | Inr v \<Rightarrow> ok v s)"

definition get_or :: "nmo_error_code \<Rightarrow> (chunk_cursor \<Rightarrow> 'a cures) \<Rightarrow> chunk_cursor \<times> arena \<Rightarrow> 'a sres" where
  "get_or e f s = recode e (get f s)"

text \<open>A call whose failure the caller only tests for, or ignores.\<close>

definition try_get :: "(chunk_cursor \<Rightarrow> 'a cures) \<Rightarrow> chunk_cursor \<times> arena \<Rightarrow> 'a option sres" where
  "try_get f s = bindE (get f s) (\<lambda>(r, s). ok (case r of Inl _ \<Rightarrow> None | Inr v \<Rightarrow> Some v) s)"

text \<open>\<^verbatim>\<open>nmo_chunk_seek_identifier(chunk, ident).code == NMO_OK\<close>.\<close>

definition seek :: "u32 \<Rightarrow> chunk_cursor \<times> arena \<Rightarrow> bool sres" where
  "seek ident s = bindR (try_get (nmo_chunk_seek_identifier ident) s) (\<lambda>r. ok (r \<noteq> None))"

text \<open>A part behind an identifier, which may be missing.\<close>

definition section_of ::
  "u32 \<Rightarrow> ('b \<Rightarrow> chunk_cursor \<times> arena \<Rightarrow> 'b sres) \<Rightarrow> 'b \<Rightarrow> chunk_cursor \<times> arena \<Rightarrow> 'b sres" where
  "section_of ident f st s = bindR (seek ident s) (\<lambda>found. if found then f st else ok st)"

definition alloc_in :: "nat \<Rightarrow> nat \<Rightarrow> chunk_cursor \<times> arena \<Rightarrow> region option sres" where
  "alloc_in sz al = (\<lambda>(c, a). bindE (nmo_arena_alloc sz al a) (\<lambda>(q, a). ok q (c, a)))"

text \<open>The bytes that lie behind a region of the arena, before anything is stored there.\<close>

definition fresh_bytes :: "region \<Rightarrow> arena \<Rightarrow> u8 list" where
  "fresh_bytes r a = (let n = region_room a r in take n (bytes_of_dwords (fresh_dwords r a (Suc (n div 4)))))"

section \<open>Unknown data at the end of a chunk\<close>

text \<open>
  \<^verbatim>\<open>raw_tail\<close> and \<^verbatim>\<open>raw_tail_size\<close>. The readers take the position, which counts words, from the size in
  bytes, and read a block with a length of its own.
\<close>

record raw_tail =
  tail_bytes :: "u8 list option"
  tail_size :: nat

definition no_tail :: raw_tail where
  "no_tail = \<lparr>tail_bytes = None, tail_size = 0\<rparr>"

definition fill_bytes :: "nat \<Rightarrow> chunk_cursor \<times> arena \<Rightarrow> (nat \<times> u8 list) option sres" where
  "fill_bytes remaining s =
     bindR (alloc_in remaining 1 s) (\<lambda>q (c, a). case q of
       None \<Rightarrow> ok None (c, a)
     | Some r \<Rightarrow>
         bindE (nmo_chunk_read_and_fill_buffer (fresh_bytes r a) remaining c) (\<lambda>((n, buf), c).
           ok (Some (n, buf)) (c, a)))"

definition read_tail :: "chunk_cursor \<times> arena \<Rightarrow> raw_tail sres" where
  "read_tail = (\<lambda>(c, a).
     let current_pos = nmo_chunk_get_position c;
         chunk_size = nmo_chunk_get_data_size c
     in if current_pos < chunk_size then
          let remaining = chunk_size - current_pos
          in bindR (fill_bytes remaining (c, a)) (\<lambda>q. case q of
               None \<Rightarrow> ok no_tail
             | Some (bytes_read, buf) \<Rightarrow>
                 if bytes_read = remaining then ok \<lparr>tail_bytes = Some buf, tail_size = remaining\<rparr>
                 else ok no_tail)
        else ok no_tail (c, a))"

text \<open>\<^verbatim>\<open>raw_tail_size\<close> bytes of \<^verbatim>\<open>raw_tail\<close> without a length, when there are any.\<close>

definition write_tail :: "raw_tail \<Rightarrow> chunk_cursor \<Rightarrow> unit cures" where
  "write_tail t c =
     (if tail_bytes t \<noteq> None \<and> tail_size t > 0
      then nmo_chunk_write_buffer_no_size (tail_bytes t) (tail_size t) c else ok () c)"

section \<open>CKObject\<close>

record nmo_ckobject_state =
  visibility_flags :: u32

definition NMO_CKOBJECT_VISIBLE :: u32 where "NMO_CKOBJECT_VISIBLE = 0x01"
definition NMO_CKOBJECT_HIERARCHICAL :: u32 where "NMO_CKOBJECT_HIERARCHICAL = 0x02"
definition CK_STATESAVE_OBJECTHIDDEN :: u32 where "CK_STATESAVE_OBJECTHIDDEN = 0x00000001"
definition CK_STATESAVE_OBJECTHIERAHIDDEN :: u32 where "CK_STATESAVE_OBJECTHIERAHIDDEN = 0x00000002"

definition nmo_ckobject_deserialize :: "chunk_cursor \<times> arena \<Rightarrow> nmo_ckobject_state sres" where
  "nmo_ckobject_deserialize s =
     bindR (seek CK_STATESAVE_OBJECTHIDDEN s) (\<lambda>hidden s.
       if hidden then ok \<lparr>visibility_flags = 0\<rparr> s
       else bindR (seek CK_STATESAVE_OBJECTHIERAHIDDEN s) (\<lambda>hiera_hidden s.
         if hiera_hidden then ok \<lparr>visibility_flags = NMO_CKOBJECT_HIERARCHICAL\<rparr> s
         else ok \<lparr>visibility_flags = NMO_CKOBJECT_VISIBLE\<rparr> s))"

text \<open>The result of writing the identifier is ignored.\<close>

definition nmo_ckobject_serialize :: "nmo_ckobject_state \<Rightarrow> chunk_cursor \<Rightarrow> unit cures" where
  "nmo_ckobject_serialize st c =
     (if visibility_flags st AND NMO_CKOBJECT_VISIBLE = 0 then
        bindE (nmo_chunk_write_identifier
                 (if visibility_flags st AND NMO_CKOBJECT_HIERARCHICAL \<noteq> 0
                  then CK_STATESAVE_OBJECTHIERAHIDDEN else CK_STATESAVE_OBJECTHIDDEN) c) (\<lambda>(_, c). ok () c)
      else ok () c)"

section \<open>CKSceneObject\<close>

record nmo_cksceneobject_state =
  so_base :: nmo_ckobject_state
  so_tail :: raw_tail

definition nmo_cksceneobject_deserialize :: "chunk_cursor \<times> arena \<Rightarrow> nmo_cksceneobject_state sres" where
  "nmo_cksceneobject_deserialize s =
     bindR (nmo_ckobject_deserialize s) (\<lambda>base (c, a).
       let pos = nmo_chunk_get_position c; total = unat (nmo_chunk_get_size c)
       in if pos < total then
            bindR (fill_bytes (total - pos) (c, a)) (\<lambda>q. case q of
              None \<Rightarrow> ok \<lparr>so_base = base, so_tail = no_tail\<rparr>
            | Some (bytes_read, buf) \<Rightarrow>
                ok \<lparr>so_base = base, so_tail = \<lparr>tail_bytes = Some buf, tail_size = bytes_read\<rparr>\<rparr>)
          else ok \<lparr>so_base = base, so_tail = no_tail\<rparr> (c, a))"

definition nmo_cksceneobject_serialize :: "nmo_cksceneobject_state \<Rightarrow> chunk_cursor \<Rightarrow> unit cures" where
  "nmo_cksceneobject_serialize st c =
     bindR (nmo_chunk_start_write c) (\<lambda>_ c.
       bindR (nmo_ckobject_serialize (so_base st) c) (\<lambda>_ c.
         if tail_bytes (so_tail st) \<noteq> None \<and> tail_size (so_tail st) > 0
         then nmo_chunk_write_buffer (tail_bytes (so_tail st)) (tail_size (so_tail st)) c
         else ok () c))"

section \<open>CKRenderObject\<close>

record nmo_ckrenderobject_state =
  ro_tail :: raw_tail

definition nmo_ckrenderobject_deserialize :: "chunk_cursor \<times> arena \<Rightarrow> nmo_ckrenderobject_state sres" where
  "nmo_ckrenderobject_deserialize s = bindR (read_tail s) (\<lambda>t. ok \<lparr>ro_tail = t\<rparr>)"

definition nmo_ckrenderobject_serialize :: "nmo_ckrenderobject_state \<Rightarrow> chunk_cursor \<Rightarrow> unit cures" where
  "nmo_ckrenderobject_serialize st c = write_tail (ro_tail st) c"

section \<open>CKBehaviorIO and CKBehaviorLink\<close>

record nmo_ckbehaviorio_state =
  old_flags :: u32

definition CK_STATESAVE_BEHAV_IOFLAGS :: u32 where "CK_STATESAVE_BEHAV_IOFLAGS = 0x00000001"

definition nmo_ckbehaviorio_deserialize :: "chunk_cursor \<times> arena \<Rightarrow> nmo_ckbehaviorio_state sres" where
  "nmo_ckbehaviorio_deserialize s =
     bindR (seek CK_STATESAVE_BEHAV_IOFLAGS s) (\<lambda>found s.
       if found then bindR (get nmo_chunk_read_dword s) (\<lambda>x. ok \<lparr>old_flags = x\<rparr>)
       else ok \<lparr>old_flags = 0\<rparr> s)"

definition nmo_ckbehaviorio_serialize :: "nmo_ckbehaviorio_state \<Rightarrow> chunk_cursor \<Rightarrow> unit cures" where
  "nmo_ckbehaviorio_serialize st c =
     bindR (nmo_chunk_write_identifier CK_STATESAVE_BEHAV_IOFLAGS c) (\<lambda>_.
       nmo_chunk_write_dword (old_flags st))"

record nmo_ckbehaviorlink_state =
  activation_delay :: u16
  initial_activation_delay :: u16
  in_io_id :: u32
  out_io_id :: u32

definition CK_STATESAVE_BEHAV_LINK_NEWDATA :: u32 where "CK_STATESAVE_BEHAV_LINK_NEWDATA = 0x00000001"
definition CK_STATESAVE_BEHAV_LINK_CURDELAY :: u32 where "CK_STATESAVE_BEHAV_LINK_CURDELAY = 0x00000002"
definition CK_STATESAVE_BEHAV_LINK_IOS :: u32 where "CK_STATESAVE_BEHAV_LINK_IOS = 0x00000004"

definition read_link_ends ::
  "nmo_ckbehaviorlink_state \<Rightarrow> chunk_cursor \<times> arena \<Rightarrow> nmo_ckbehaviorlink_state sres" where
  "read_link_ends st s =
     bindR (get nmo_chunk_read_object_id s) (\<lambda>x s.
       bindR (get nmo_chunk_read_object_id s) (\<lambda>y. ok (st\<lparr>in_io_id := x, out_io_id := y\<rparr>)))"

definition nmo_ckbehaviorlink_deserialize :: "chunk_cursor \<times> arena \<Rightarrow> nmo_ckbehaviorlink_state sres" where
  "nmo_ckbehaviorlink_deserialize s =
     (let st = \<lparr>activation_delay = 1, initial_activation_delay = 1, in_io_id = 0, out_io_id = 0\<rparr>
      in bindR (seek CK_STATESAVE_BEHAV_LINK_NEWDATA s) (\<lambda>found s.
        if found then
          bindR (get nmo_chunk_read_dword s) (\<lambda>delays.
            read_link_ends (st\<lparr>activation_delay := ucast (delays AND 0xFFFF),
                               initial_activation_delay := ucast (drop_bit 16 delays AND 0xFFFF)\<rparr>))
        else
          bindR (seek CK_STATESAVE_BEHAV_LINK_CURDELAY s) (\<lambda>found s.
            bindR (if found
                   then bindR (get nmo_chunk_read_int s) (\<lambda>d. ok (st\<lparr>activation_delay := ucast d\<rparr>))
                   else ok st s) (\<lambda>st s.
              bindR (seek CK_STATESAVE_BEHAV_LINK_IOS s) (\<lambda>found s.
                if found then read_link_ends st s else ok st s)))))"

definition nmo_ckbehaviorlink_serialize :: "nmo_ckbehaviorlink_state \<Rightarrow> chunk_cursor \<Rightarrow> unit cures" where
  "nmo_ckbehaviorlink_serialize st c =
     bindR (nmo_chunk_write_identifier CK_STATESAVE_BEHAV_LINK_NEWDATA c) (\<lambda>_ c.
       let delays = (scast (activation_delay st) AND 0xFFFF)
             OR push_bit 16 (scast (initial_activation_delay st) AND 0xFFFF)
       in bindR (nmo_chunk_write_dword delays c) (\<lambda>_ c.
            bindR (nmo_chunk_write_object_id (in_io_id st) c) (\<lambda>_.
              nmo_chunk_write_object_id (out_io_id st))))"

end
