(* ===== verification/Float32.thy ===== *)
theory Float32
  imports NmoPrelude
begin

text \<open>
  The arithmetic on \<^verbatim>\<open>float\<close> that the library does: IEEE binary32 numbers as bit patterns, with
  rounding to the nearest and ties to even. A finite number is read as a sign and a fraction.
\<close>

section \<open>Rounding\<close>

text \<open>The number of bits of a natural number.\<close>

fun bit_length :: "nat \<Rightarrow> nat" where
  "bit_length n = (if n = 0 then 0 else Suc (bit_length (n div 2)))"

declare bit_length.simps [simp del]

text \<open>\<open>p / q\<close> rounded to an integer, ties to even.\<close>

definition round_div :: "nat \<Rightarrow> nat \<Rightarrow> nat" where
  "round_div p q =
     (let d = p div q; r = p mod q
      in if 2 * r < q \<or> (2 * r = q \<and> even d) then d else d + 1)"

text \<open>The exponent of the last of 24 bits of \<open>p / q\<close>, not below -149.\<close>

definition last_exponent :: "nat \<Rightarrow> nat \<Rightarrow> int" where
  "last_exponent p q =
     (let e = int (bit_length p) - int (bit_length q);
          below = (if e \<ge> 0 then p < q * 2 ^ nat e else p * 2 ^ nat (- e) < q);
          top = (if below then e - 1 else e)
      in max (top - 23) (- 149))"

text \<open>The bit pattern of \<open>p / q\<close> without its sign; too large a value is infinite.\<close>

definition f32_of_ratio :: "nat \<Rightarrow> nat \<Rightarrow> f32" where
  "f32_of_ratio p q =
     (if p = 0 then 0
      else
        let u = last_exponent p q;
            m = (if u \<ge> 0 then round_div p (q * 2 ^ nat u) else round_div (p * 2 ^ nat (- u)) q);
            bits = nat (u + 149) * 2 ^ 23 + m
        in if bits < 0x7F800000 then of_nat bits else 0x7F800000)"

section \<open>Reading a number\<close>

definition f32_negative :: "f32 \<Rightarrow> bool" where
  "f32_negative x \<longleftrightarrow> x AND 0x80000000 \<noteq> 0"

definition f32_finite :: "f32 \<Rightarrow> bool" where
  "f32_finite x \<longleftrightarrow> x AND 0x7F800000 \<noteq> 0x7F800000"

definition f32_nan :: "f32 \<Rightarrow> bool" where
  "f32_nan x \<longleftrightarrow> x AND 0x7F800000 = 0x7F800000 \<and> x AND 0x007FFFFF \<noteq> 0"

text \<open>The magnitude of a finite number, as a mantissa and an exponent.\<close>

definition f32_parts :: "f32 \<Rightarrow> nat \<times> int" where
  "f32_parts x =
     (let e = unat (drop_bit 23 x AND 0xFF); m = unat (x AND 0x007FFFFF)
      in if e = 0 then (m, - 149) else (m + 2 ^ 23, int e - 150))"

definition f32_ratio :: "f32 \<Rightarrow> nat \<times> nat" where
  "f32_ratio x = (let (m, e) = f32_parts x in if e \<ge> 0 then (m * 2 ^ nat e, 1) else (m, 2 ^ nat (- e)))"

section \<open>Conversions and comparisons\<close>

text \<open>\<^verbatim>\<open>(float) n\<close> of an \<^verbatim>\<open>int32_t\<close>.\<close>

definition f32_of_int32 :: "u32 \<Rightarrow> f32" where
  "f32_of_int32 n =
     (let i = sint n; b = f32_of_ratio (nat \<bar>i\<bar>) 1 in if i < 0 then b OR 0x80000000 else b)"

text \<open>\<^verbatim>\<open>x < 0.0f\<close> and \<^verbatim>\<open>x > 1.0f\<close>; both zeros are equal, and a NaN compares to nothing.\<close>

definition f32_below_zero :: "f32 \<Rightarrow> bool" where
  "f32_below_zero x \<longleftrightarrow> f32_negative x \<and> x \<noteq> 0x80000000 \<and> \<not> f32_nan x"

definition f32_above_one :: "f32 \<Rightarrow> bool" where
  "f32_above_one x \<longleftrightarrow> \<not> f32_negative x \<and> x > 0x3F800000 \<and> \<not> f32_nan x"

text \<open>
  \<^verbatim>\<open>(uint8_t)(x * 255.0f)\<close>: the product is rounded, and a value that does not fit after the
  fraction is cut off is undefined.
\<close>

definition u8_of_scaled :: "f32 \<Rightarrow> u8 eff" where
  "u8_of_scaled x =
     (if \<not> f32_finite x then Undefined
      else
        let (p, q) = f32_ratio x; y = f32_of_ratio (p * 255) q;
            (p, q) = f32_ratio y; t = p div q
        in if \<not> f32_finite y then Undefined
           else if f32_negative x then (if t = 0 then Done 0 else Undefined)
           else if t < 256 then Done (of_nat t) else Undefined)"

text \<open>\<^verbatim>\<open>b / 255.0f\<close> of a byte.\<close>

definition unit_of_u8 :: "u8 \<Rightarrow> f32" where
  "unit_of_u8 b = f32_of_ratio (unat b) 255"

lemmas f32_eval = f32_of_ratio_def last_exponent_def round_div_def bit_length.simps Let_def f32_ratio_def f32_parts_def
  f32_finite_def f32_negative_def

lemma unit_of_u8_samples:
  "unit_of_u8 0 = 0" "unit_of_u8 255 = 0x3F800000" "unit_of_u8 51 = 0x3E4CCCCD" "f32_of_int32 3 = 0x40400000"
  by (simp_all add: unit_of_u8_def f32_of_int32_def f32_eval)

end
