(* ===== verification/EntityStates.thy ===== *)
theory EntityStates
  imports StateIO Float32
begin

text \<open>
  The state readers and writers of the classes that are rendered: \<^verbatim>\<open>ck3dentity_schemas.c\<close>,
  \<^verbatim>\<open>ck3dobject_schemas.c\<close>, \<^verbatim>\<open>ckcamera_schemas.c\<close>, \<^verbatim>\<open>cklight_schemas.c\<close>, \<^verbatim>\<open>ck2dentity_schemas.c\<close> and
  \<^verbatim>\<open>cksprite_schemas.c\<close>.
\<close>

abbreviation get_valid :: "(chunk_cursor \<Rightarrow> 'a cures) \<Rightarrow> chunk_cursor \<times> arena \<Rightarrow> 'a sres" where
  "get_valid \<equiv> get_or NMO_ERR_VALIDATION_FAILED"

section \<open>CK3dEntity and CK3dObject\<close>

record nmo_ck3dentity_state =
  e3_render_object :: nmo_ckrenderobject_state
  world_matrix :: "f32 list"
  entity_flags :: u32
  e3_tail :: raw_tail

definition nmo_ck3dentity_deserialize :: "chunk_cursor \<times> arena \<Rightarrow> nmo_ck3dentity_state sres" where
  "nmo_ck3dentity_deserialize s =
     bindR (nmo_ckrenderobject_deserialize s) (\<lambda>ro s.
     bindR (get_valid (read_floats 16) s) (\<lambda>m s.
     bindR (get_valid nmo_chunk_read_dword s) (\<lambda>flags s.
     bindR (read_tail s) (\<lambda>t.
       ok \<lparr>e3_render_object = ro, world_matrix = m, entity_flags = flags, e3_tail = t\<rparr>))))"

text \<open>The matrix is an array of 16 floats.\<close>

definition nmo_ck3dentity_serialize :: "nmo_ck3dentity_state \<Rightarrow> chunk_cursor \<Rightarrow> unit cures" where
  "nmo_ck3dentity_serialize st c =
     bindR (nmo_ckrenderobject_serialize (e3_render_object st) c) (\<lambda>_ c.
     bindR (write_floats (world_matrix st) c) (\<lambda>_ c.
     bindR (nmo_chunk_write_dword (entity_flags st) c) (\<lambda>_.
       write_tail (e3_tail st))))"

record nmo_ck3dobject_state =
  o3_entity :: nmo_ck3dentity_state
  mesh_id :: u32
  rendering_flags :: u32
  o3_tail :: raw_tail

definition nmo_ck3dobject_deserialize :: "chunk_cursor \<times> arena \<Rightarrow> nmo_ck3dobject_state sres" where
  "nmo_ck3dobject_deserialize s =
     bindR (nmo_ck3dentity_deserialize s) (\<lambda>e s.
     bindR (get_valid nmo_chunk_read_object_id s) (\<lambda>mesh s.
     bindR (get_valid nmo_chunk_read_dword s) (\<lambda>flags s.
     bindR (read_tail s) (\<lambda>t.
       ok \<lparr>o3_entity = e, mesh_id = mesh, rendering_flags = flags, o3_tail = t\<rparr>))))"

definition nmo_ck3dobject_serialize :: "nmo_ck3dobject_state \<Rightarrow> chunk_cursor \<Rightarrow> unit cures" where
  "nmo_ck3dobject_serialize st c =
     bindR (nmo_ck3dentity_serialize (o3_entity st) c) (\<lambda>_ c.
     bindR (nmo_chunk_write_object_id (mesh_id st) c) (\<lambda>_ c.
     bindR (nmo_chunk_write_dword (rendering_flags st) c) (\<lambda>_.
       write_tail (o3_tail st))))"

section \<open>CKCamera\<close>

record nmo_ckcamera_state =
  cam_entity :: nmo_ck3dentity_state
  projection_type :: u32
  fov :: f32
  aspect_ratio :: f32
  near_plane :: f32
  far_plane :: f32
  ortho_width :: f32
  ortho_height :: f32
  cam_tail :: raw_tail

definition nmo_ckcamera_deserialize :: "chunk_cursor \<times> arena \<Rightarrow> nmo_ckcamera_state sres" where
  "nmo_ckcamera_deserialize s =
     bindR (nmo_ck3dentity_deserialize s) (\<lambda>e s.
     bindR (get_valid nmo_chunk_read_dword s) (\<lambda>proj s.
     bindR (get_valid nmo_chunk_read_float s) (\<lambda>fov s.
     bindR (get_valid nmo_chunk_read_float s) (\<lambda>aspect s.
     bindR (get_valid nmo_chunk_read_float s) (\<lambda>near s.
     bindR (get_valid nmo_chunk_read_float s) (\<lambda>far s.
     bindR (get_valid nmo_chunk_read_float s) (\<lambda>w s.
     bindR (get_valid nmo_chunk_read_float s) (\<lambda>h s.
     bindR (read_tail s) (\<lambda>t.
       ok \<lparr>cam_entity = e, projection_type = proj, fov = fov, aspect_ratio = aspect, near_plane = near,
           far_plane = far, ortho_width = w, ortho_height = h, cam_tail = t\<rparr>)))))))))"

definition nmo_ckcamera_serialize :: "nmo_ckcamera_state \<Rightarrow> chunk_cursor \<Rightarrow> unit cures" where
  "nmo_ckcamera_serialize st c =
     bindR (nmo_ck3dentity_serialize (cam_entity st) c) (\<lambda>_ c.
     bindR (nmo_chunk_write_dword (projection_type st) c) (\<lambda>_ c.
     bindR (write_floats [fov st, aspect_ratio st, near_plane st, far_plane st, ortho_width st, ortho_height st] c) (\<lambda>_.
       write_tail (cam_tail st))))"

section \<open>CKLight\<close>

definition NMO_LIGHT_POINT :: u32 where "NMO_LIGHT_POINT = 1"
definition NMO_LIGHT_SPOT :: u32 where "NMO_LIGHT_SPOT = 2"
definition NMO_LIGHT_DIRECTIONAL :: u32 where "NMO_LIGHT_DIRECTIONAL = 3"

record nmo_vx_color =
  vc_r :: f32
  vc_g :: f32
  vc_b :: f32
  vc_a :: f32

record nmo_ck_light_data =
  light_type :: u32
  diffuse :: nmo_vx_color
  specular :: nmo_vx_color
  ambient :: nmo_vx_color
  position :: nmo_vector
  direction :: nmo_vector
  light_range :: f32
  falloff :: f32
  attenuation0 :: f32
  attenuation1 :: f32
  attenuation2 :: f32
  inner_spot_cone :: f32
  outer_spot_cone :: f32

record nmo_cklight_state =
  li_entity :: nmo_ck3dentity_state
  light_data :: nmo_ck_light_data
  li_flags :: u32
  light_power :: f32

definition f32_one :: f32 where "f32_one = 0x3F800000"

definition nmo_vx_color_from_argb :: "u32 \<Rightarrow> nmo_vx_color" where
  "nmo_vx_color_from_argb argb =
     \<lparr>vc_r = unit_of_u8 (ucast (drop_bit 16 argb AND 0xFF)), vc_g = unit_of_u8 (ucast (drop_bit 8 argb AND 0xFF)),
      vc_b = unit_of_u8 (ucast (argb AND 0xFF)), vc_a = unit_of_u8 (ucast (drop_bit 24 argb AND 0xFF))\<rparr>"

definition nmo_vx_color_to_argb :: "nmo_vx_color \<Rightarrow> u32 eff" where
  "nmo_vx_color_to_argb x =
     bindE (u8_of_scaled (vc_a x)) (\<lambda>a. bindE (u8_of_scaled (vc_r x)) (\<lambda>r.
     bindE (u8_of_scaled (vc_g x)) (\<lambda>g. bindE (u8_of_scaled (vc_b x)) (\<lambda>b.
       Done (push_bit 24 (ucast a) OR push_bit 16 (ucast r) OR push_bit 8 (ucast g) OR ucast b)))))"

definition zero_color :: nmo_vx_color where
  "zero_color = \<lparr>vc_r = 0, vc_g = 0, vc_b = 0, vc_a = 0\<rparr>"

definition zero_light :: nmo_ck_light_data where
  "zero_light = \<lparr>light_type = 0, diffuse = zero_color, specular = zero_color, ambient = zero_color,
     position = \<lparr>v3_x = 0, v3_y = 0, v3_z = 0\<rparr>, direction = \<lparr>v3_x = 0, v3_y = 0, v3_z = 0\<rparr>,
     light_range = 0, falloff = 0, attenuation0 = 0, attenuation1 = 0, attenuation2 = 0,
     inner_spot_cone = 0, outer_spot_cone = 0\<rparr>"

definition valid_light_type :: "u32 \<Rightarrow> u32" where
  "valid_light_type t = (if t < NMO_LIGHT_POINT \<or> t > NMO_LIGHT_DIRECTIONAL then NMO_LIGHT_POINT else t)"

definition nmo_cklight_deserialize_modern ::
  "nmo_ck3dentity_state \<Rightarrow> chunk_cursor \<times> arena \<Rightarrow> nmo_cklight_state sres" where
  "nmo_cklight_deserialize_modern e s =
     bindR (get_valid (nmo_chunk_seek_identifier 0x400000) s) (\<lambda>_ s.
     bindR (get_valid nmo_chunk_read_dword s) (\<lambda>packed s.
     bindR (get_valid nmo_chunk_read_dword s) (\<lambda>argb s.
     bindR (get_valid (read_floats 4) s) (\<lambda>xs s.
       let ty = valid_light_type (packed AND 0xFF)
       in bindR (if ty = NMO_LIGHT_SPOT then get_valid (read_floats 3) s else ok [0, 0, 0] s) (\<lambda>ys s.
          bindR (seek 0x800000 s) (\<lambda>found s.
          bindR (if found then get_valid nmo_chunk_read_float s else ok f32_one s) (\<lambda>power.
            ok \<lparr>li_entity = e,
                light_data = zero_light\<lparr>light_type := ty, diffuse := nmo_vx_color_from_argb argb,
                  attenuation0 := xs ! 0, attenuation1 := xs ! 1, attenuation2 := xs ! 2, light_range := xs ! 3,
                  outer_spot_cone := ys ! 0, inner_spot_cone := ys ! 1, falloff := ys ! 2\<rparr>,
                li_flags = packed AND 0xFFFFFF00, light_power = power\<rparr>)))))))"

definition nmo_cklight_deserialize_legacy ::
  "nmo_ck3dentity_state \<Rightarrow> chunk_cursor \<times> arena \<Rightarrow> nmo_cklight_state sres" where
  "nmo_cklight_deserialize_legacy e s =
     bindR (get_valid (nmo_chunk_seek_identifier 0x400000) s) (\<lambda>_ s.
     bindR (get_valid nmo_chunk_read_dword s) (\<lambda>ty s.
     bindR (get_valid (read_floats 4) s) (\<lambda>rgba s.
     bindR (get_valid nmo_chunk_read_int s) (\<lambda>active s.
     bindR (get_valid nmo_chunk_read_int s) (\<lambda>spec s.
     bindR (get_valid (read_floats 7) s) (\<lambda>xs.
       ok \<lparr>li_entity = e,
           light_data = zero_light\<lparr>light_type := valid_light_type ty,
             diffuse := \<lparr>vc_r = rgba ! 0, vc_g = rgba ! 1, vc_b = rgba ! 2, vc_a = f32_one\<rparr>,
             attenuation0 := xs ! 0, attenuation1 := xs ! 1, attenuation2 := xs ! 2, light_range := xs ! 3,
             outer_spot_cone := xs ! 4, inner_spot_cone := xs ! 5, falloff := xs ! 6\<rparr>,
           li_flags = (if active \<noteq> 0 then 0x100 else 0) OR (if spec \<noteq> 0 then 0x200 else 0),
           light_power = f32_one\<rparr>))))))"

definition nmo_cklight_deserialize :: "chunk_cursor \<times> arena \<Rightarrow> nmo_cklight_state sres" where
  "nmo_cklight_deserialize s =
     bindR (nmo_ck3dentity_deserialize s) (\<lambda>e (c, a).
       if nmo_chunk_get_data_version c < 5 then nmo_cklight_deserialize_legacy e (c, a)
       else nmo_cklight_deserialize_modern e (c, a))"

definition nmo_cklight_serialize :: "nmo_cklight_state \<Rightarrow> chunk_cursor \<Rightarrow> unit cures" where
  "nmo_cklight_serialize st c =
     (let d = light_data st
      in bindR (nmo_ck3dentity_serialize (li_entity st) c) (\<lambda>_ c.
           recode NMO_ERR_VALIDATION_FAILED
             (bindR (nmo_chunk_write_identifier 0x400000 c) (\<lambda>_ c.
              bindR (nmo_chunk_write_dword (light_type d OR li_flags st) c) (\<lambda>_ c.
              bindE (nmo_vx_color_to_argb (diffuse d)) (\<lambda>argb.
              bindR (nmo_chunk_write_dword argb c) (\<lambda>_ c.
              bindR (write_floats [attenuation0 d, attenuation1 d, attenuation2 d, light_range d] c) (\<lambda>_ c.
              bindR (if light_type d = NMO_LIGHT_SPOT
                     then write_floats [outer_spot_cone d, inner_spot_cone d, falloff d] c else ok () c) (\<lambda>_ c.
                if light_power st \<noteq> f32_one then
                  bindR (nmo_chunk_write_identifier 0x800000 c) (\<lambda>_. nmo_chunk_write_float (light_power st))
                else ok () c)))))))))"

definition nmo_cklight_finish_loading :: "nmo_cklight_state \<Rightarrow> nmo_error_code + unit" where
  "nmo_cklight_finish_loading st =
     (let d = light_data st
      in if light_type d < NMO_LIGHT_POINT \<or> light_type d > NMO_LIGHT_DIRECTIONAL then Inl NMO_ERR_VALIDATION_FAILED
         else if f32_below_zero (attenuation0 d) \<or> f32_below_zero (attenuation1 d) \<or> f32_below_zero (attenuation2 d)
         then Inl NMO_ERR_VALIDATION_FAILED
         else if f32_below_zero (light_range d) then Inl NMO_ERR_VALIDATION_FAILED
         else Inr ())"

section \<open>CK2dEntity\<close>

record nmo_vx_rect =
  rc_x :: f32
  rc_y :: f32
  rc_width :: f32
  rc_height :: f32

definition zero_rect :: nmo_vx_rect where
  "zero_rect = \<lparr>rc_x = 0, rc_y = 0, rc_width = 0, rc_height = 0\<rparr>"

record nmo_ck2dentity_state =
  e2_render_object :: nmo_ckrenderobject_state
  e2_rect :: nmo_vx_rect
  has_homogeneous_rect :: bool
  homogeneous_rect :: nmo_vx_rect
  has_source_rect :: bool
  source_rect :: nmo_vx_rect
  has_z_order :: bool
  z_order :: u32
  has_parent :: bool
  parent_id :: u32
  has_material :: bool
  material_id :: u32
  e2_flags :: u32
  e2_tail :: raw_tail

definition NMO_CK2DENTITY_CHUNK_MODERN :: u32 where "NMO_CK2DENTITY_CHUNK_MODERN = 0x10F000"
definition NMO_CK2DENTITY_CHUNK_FLAGS :: u32 where "NMO_CK2DENTITY_CHUNK_FLAGS = 0x4000"
definition NMO_CK2DENTITY_CHUNK_ORIGIN :: u32 where "NMO_CK2DENTITY_CHUNK_ORIGIN = 0x8000"
definition NMO_CK2DENTITY_CHUNK_SIZE :: u32 where "NMO_CK2DENTITY_CHUNK_SIZE = 0x2000"
definition NMO_CK2DENTITY_CHUNK_SOURCE_RECT :: u32 where "NMO_CK2DENTITY_CHUNK_SOURCE_RECT = 0x1000"
definition NMO_CK2DENTITY_CHUNK_Z_ORDER :: u32 where "NMO_CK2DENTITY_CHUNK_Z_ORDER = 0x100000"
definition NMO_CK2DENTITY_FLAG_SOURCE_RECT :: u32 where "NMO_CK2DENTITY_FLAG_SOURCE_RECT = 0x10000"
definition NMO_CK2DENTITY_FLAG_Z_ORDER :: u32 where "NMO_CK2DENTITY_FLAG_Z_ORDER = 0x20000"
definition NMO_CK2DENTITY_FLAG_PARENT :: u32 where "NMO_CK2DENTITY_FLAG_PARENT = 0x40000"
definition NMO_CK2DENTITY_FLAG_MATERIAL :: u32 where "NMO_CK2DENTITY_FLAG_MATERIAL = 0x200000"
definition NMO_CK2DENTITY_FLAG_HOMOGENEOUS :: u32 where "NMO_CK2DENTITY_FLAG_HOMOGENEOUS = 0x200"
definition NMO_CK2DENTITY_FLAGS_MASK :: u32 where "NMO_CK2DENTITY_FLAGS_MASK = 0xFFF8F7FF"

definition zero_2dentity :: "nmo_ckrenderobject_state \<Rightarrow> nmo_ck2dentity_state" where
  "zero_2dentity ro = \<lparr>e2_render_object = ro, e2_rect = zero_rect, has_homogeneous_rect = False,
     homogeneous_rect = zero_rect, has_source_rect = False, source_rect = zero_rect, has_z_order = False, z_order = 0,
     has_parent = False, parent_id = 0, has_material = False, material_id = 0, e2_flags = 0, e2_tail = no_tail\<rparr>"

definition rect_of :: "f32 list \<Rightarrow> nmo_vx_rect" where
  "rect_of xs = \<lparr>rc_x = xs ! 0, rc_y = xs ! 1, rc_width = xs ! 2, rc_height = xs ! 3\<rparr>"

definition read_rect :: "chunk_cursor \<Rightarrow> nmo_vx_rect cures" where
  "read_rect c = bindR (read_floats 4 c) (\<lambda>xs. ok (rect_of xs))"

definition write_rect :: "nmo_vx_rect \<Rightarrow> chunk_cursor \<Rightarrow> unit cures" where
  "write_rect r = write_floats [rc_x r, rc_y r, rc_width r, rc_height r]"

text \<open>A part of the state that is there when a condition holds.\<close>

definition part :: "bool \<Rightarrow> ('b \<Rightarrow> 's \<Rightarrow> ('b, 's) cres) \<Rightarrow> 'b \<Rightarrow> 's \<Rightarrow> ('b, 's) cres" where
  "part b f st s = (if b then f st s else ok st s)"

definition e2_deserialize_modern ::
  "nmo_ck2dentity_state \<Rightarrow> chunk_cursor \<times> arena \<Rightarrow> nmo_ck2dentity_state sres" where
  "e2_deserialize_modern st s =
     bindR (get_valid nmo_chunk_read_dword s) (\<lambda>raw_flags s.
       let st = st\<lparr>e2_flags := raw_flags AND NMO_CK2DENTITY_FLAGS_MASK\<rparr>
       in bindR (if e2_flags st AND NMO_CK2DENTITY_FLAG_HOMOGENEOUS \<noteq> 0
                 then bindR (get_valid read_rect s) (\<lambda>r. ok (st\<lparr>has_homogeneous_rect := True, homogeneous_rect := r\<rparr>))
                 else bindR (get_valid read_rect s) (\<lambda>r. ok (st\<lparr>has_homogeneous_rect := False, e2_rect := r\<rparr>))) (\<lambda>st s.
          bindR (part (raw_flags AND NMO_CK2DENTITY_FLAG_SOURCE_RECT \<noteq> 0)
                   (\<lambda>st s. bindR (get_valid read_rect s) (\<lambda>r. ok (st\<lparr>has_source_rect := True, source_rect := r\<rparr>))) st s) (\<lambda>st s.
          bindR (part (raw_flags AND NMO_CK2DENTITY_FLAG_Z_ORDER \<noteq> 0)
                   (\<lambda>st s. bindR (get_valid nmo_chunk_read_dword s) (\<lambda>x. ok (st\<lparr>has_z_order := True, z_order := x\<rparr>))) st s) (\<lambda>st s.
          bindR (part (raw_flags AND NMO_CK2DENTITY_FLAG_PARENT \<noteq> 0)
                   (\<lambda>st s. bindR (get_valid nmo_chunk_read_object_id s) (\<lambda>x. ok (st\<lparr>has_parent := True, parent_id := x\<rparr>))) st s) (\<lambda>st.
            part (raw_flags AND NMO_CK2DENTITY_FLAG_MATERIAL \<noteq> 0)
              (\<lambda>st s. bindR (get_valid nmo_chunk_read_object_id s) (\<lambda>x. ok (st\<lparr>has_material := True, material_id := x\<rparr>))) st)))))"

fun read_ints :: "nat \<Rightarrow> chunk_cursor \<Rightarrow> u32 list cures" where
  "read_ints 0 c = ok [] c"
| "read_ints (Suc n) c = bindR (nmo_chunk_read_int c) (\<lambda>x c. bindR (read_ints n c) (\<lambda>xs. ok (x # xs)))"

definition e2_deserialize_legacy ::
  "nmo_ck2dentity_state \<Rightarrow> chunk_cursor \<times> arena \<Rightarrow> nmo_ck2dentity_state sres" where
  "e2_deserialize_legacy st s =
     bindR (section_of NMO_CK2DENTITY_CHUNK_FLAGS (\<lambda>st s.
              bindR (get_valid nmo_chunk_read_dword s) (\<lambda>raw_flags.
                ok (st\<lparr>e2_flags := raw_flags AND NMO_CK2DENTITY_FLAGS_MASK\<rparr>))) st s) (\<lambda>st s.
     bindR (section_of NMO_CK2DENTITY_CHUNK_ORIGIN (\<lambda>st s.
              bindR (get_valid (read_ints 2) s) (\<lambda>xs.
                ok (st\<lparr>e2_rect := (e2_rect st)\<lparr>rc_x := f32_of_int32 (xs ! 0), rc_y := f32_of_int32 (xs ! 1)\<rparr>\<rparr>))) st s) (\<lambda>st s.
     bindR (section_of NMO_CK2DENTITY_CHUNK_SIZE (\<lambda>st s.
              bindR (get_valid (read_ints 2) s) (\<lambda>xs.
                ok (st\<lparr>e2_rect := (e2_rect st)\<lparr>rc_width := f32_of_int32 (xs ! 0), rc_height := f32_of_int32 (xs ! 1)\<rparr>\<rparr>))) st s) (\<lambda>st s.
     bindR (section_of NMO_CK2DENTITY_CHUNK_SOURCE_RECT (\<lambda>st s.
              bindR (get_valid (read_ints 4) s) (\<lambda>xs.
                ok (st\<lparr>has_source_rect := True, source_rect := rect_of (map f32_of_int32 xs)\<rparr>))) st s) (\<lambda>st.
       section_of NMO_CK2DENTITY_CHUNK_Z_ORDER (\<lambda>st s.
         bindR (get_valid nmo_chunk_read_dword s) (\<lambda>x. ok (st\<lparr>has_z_order := True, z_order := x\<rparr>))) st))))"

definition nmo_ck2dentity_deserialize :: "chunk_cursor \<times> arena \<Rightarrow> nmo_ck2dentity_state sres" where
  "nmo_ck2dentity_deserialize s =
     bindR (nmo_ckrenderobject_deserialize s) (\<lambda>ro (c, a).
     bindR (if nmo_chunk_get_data_version c \<ge> 5 then
              bindR (get_valid (nmo_chunk_seek_identifier NMO_CK2DENTITY_CHUNK_MODERN) (c, a)) (\<lambda>_.
                e2_deserialize_modern (zero_2dentity ro))
            else e2_deserialize_legacy (zero_2dentity ro) (c, a)) (\<lambda>st s.
     bindR (read_tail s) (\<lambda>t. ok (st\<lparr>e2_tail := t\<rparr>))))"

definition flag_if :: "bool \<Rightarrow> u32 \<Rightarrow> u32" where
  "flag_if b x = (if b then x else 0)"

definition e2_serialize_modern :: "nmo_ck2dentity_state \<Rightarrow> chunk_cursor \<Rightarrow> unit cures" where
  "e2_serialize_modern st c =
     bindR (nmo_chunk_write_identifier NMO_CK2DENTITY_CHUNK_MODERN c) (\<lambda>_ c.
     bindR (nmo_chunk_write_dword (e2_flags st OR flag_if (has_source_rect st) NMO_CK2DENTITY_FLAG_SOURCE_RECT
              OR flag_if (has_z_order st) NMO_CK2DENTITY_FLAG_Z_ORDER OR flag_if (has_parent st) NMO_CK2DENTITY_FLAG_PARENT
              OR flag_if (has_material st) NMO_CK2DENTITY_FLAG_MATERIAL) c) (\<lambda>_ c.
     bindR (write_rect (if has_homogeneous_rect st then homogeneous_rect st else e2_rect st) c) (\<lambda>_ c.
     bindR (if has_source_rect st then write_rect (source_rect st) c else ok () c) (\<lambda>_ c.
     bindR (if has_z_order st then nmo_chunk_write_dword (z_order st) c else ok () c) (\<lambda>_ c.
     bindR (if has_parent st then nmo_chunk_write_object_id (parent_id st) c else ok () c) (\<lambda>_ c.
       if has_material st then nmo_chunk_write_object_id (material_id st) c else ok () c))))))"

definition nmo_ck2dentity_serialize :: "nmo_ck2dentity_state \<Rightarrow> chunk_cursor \<Rightarrow> unit cures" where
  "nmo_ck2dentity_serialize st c =
     bindR (nmo_ckrenderobject_serialize (e2_render_object st) c) (\<lambda>_ c.
     bindR (e2_serialize_modern st c) (\<lambda>_ c.
       recode NMO_ERR_VALIDATION_FAILED (write_tail (e2_tail st) c)))"

section \<open>CKSprite\<close>

record nmo_ckbitmapdata =
  bm_width :: u32
  bm_height :: u32
  bm_pixels :: raw_tail
  bm_raw :: raw_tail

record nmo_cksprite_state =
  sp_entity :: nmo_ck2dentity_state
  has_sprite_ref :: bool
  sprite_ref_id :: u32
  has_bitmap_data :: bool
  bitmap_data :: nmo_ckbitmapdata
  has_transparency :: bool
  sp_transparent :: bool
  sp_transparent_color :: u32
  has_slot :: bool
  sp_slot :: u32
  has_save_options :: bool
  sp_save_options :: u32
  bitmap_properties :: raw_tail
  sp_tail :: raw_tail

definition NMO_CKSPRITE_CHUNK_SPRITE_REF :: u32 where "NMO_CKSPRITE_CHUNK_SPRITE_REF = 0x80000"
definition NMO_CKSPRITE_CHUNK_TRANSPARENCY :: u32 where "NMO_CKSPRITE_CHUNK_TRANSPARENCY = 0x20000"
definition NMO_CKSPRITE_CHUNK_SLOT :: u32 where "NMO_CKSPRITE_CHUNK_SLOT = 0x10000"
definition NMO_CKSPRITE_CHUNK_SAVE_OPTIONS :: u32 where "NMO_CKSPRITE_CHUNK_SAVE_OPTIONS = 0x20000000"

definition zero_bitmap :: nmo_ckbitmapdata where
  "zero_bitmap = \<lparr>bm_width = 0, bm_height = 0, bm_pixels = no_tail, bm_raw = no_tail\<rparr>"

definition zero_sprite :: "nmo_ck2dentity_state \<Rightarrow> nmo_cksprite_state" where
  "zero_sprite e = \<lparr>sp_entity = e, has_sprite_ref = False, sprite_ref_id = 0, has_bitmap_data = False,
     bitmap_data = zero_bitmap, has_transparency = False, sp_transparent = False, sp_transparent_color = 0,
     has_slot = False, sp_slot = 0, has_save_options = False, sp_save_options = 0, bitmap_properties = no_tail,
     sp_tail = no_tail\<rparr>"

definition read_bitmap_data :: "chunk_cursor \<times> arena \<Rightarrow> nmo_ckbitmapdata sres" where
  "read_bitmap_data s =
     bindR (section_of 0x20000 (\<lambda>b s.
              bindR (get nmo_chunk_read_dword s) (\<lambda>w s.
              bindR (get nmo_chunk_read_dword s) (\<lambda>h. ok (b\<lparr>bm_width := w, bm_height := h\<rparr>)))) zero_bitmap s) (\<lambda>b s.
     bindR (read_tail s) (\<lambda>t. ok (b\<lparr>bm_raw := t\<rparr>)))"

text \<open>The bytes of a block that was not filled stay, next to a size of 0.\<close>

definition read_properties :: "chunk_cursor \<times> arena \<Rightarrow> raw_tail sres" where
  "read_properties = (\<lambda>(c, a).
     let current_pos = nmo_chunk_get_position c; chunk_size = nmo_chunk_get_data_size c
     in if current_pos < chunk_size then
          let remaining = chunk_size - current_pos
          in bindR (fill_bytes remaining (c, a)) (\<lambda>q. case q of
               None \<Rightarrow> ok no_tail
             | Some (bytes_read, buf) \<Rightarrow>
                 ok \<lparr>tail_bytes = Some buf, tail_size = (if bytes_read = remaining then remaining else 0)\<rparr>)
        else ok no_tail (c, a))"

definition read_transparency :: "nmo_cksprite_state \<Rightarrow> chunk_cursor \<times> arena \<Rightarrow> nmo_cksprite_state sres" where
  "read_transparency st s =
     bindR (get_valid nmo_chunk_read_dword s) (\<lambda>color s.
     bindR (get_valid nmo_chunk_read_dword s) (\<lambda>flag.
       ok (st\<lparr>has_transparency := True, sp_transparent_color := color, sp_transparent := flag \<noteq> 0\<rparr>)))"

definition read_slot :: "nmo_cksprite_state \<Rightarrow> chunk_cursor \<times> arena \<Rightarrow> nmo_cksprite_state sres" where
  "read_slot st s =
     bindR (get_valid nmo_chunk_read_dword s) (\<lambda>x. ok (st\<lparr>has_slot := True, sp_slot := x\<rparr>))"

definition read_sprite_ref :: "nmo_cksprite_state \<Rightarrow> chunk_cursor \<times> arena \<Rightarrow> nmo_cksprite_state sres" where
  "read_sprite_ref st s =
     bindR (get_valid nmo_chunk_read_object_id s) (\<lambda>x. ok (st\<lparr>has_sprite_ref := True, sprite_ref_id := x\<rparr>))"

definition sp_deserialize_file_backed ::
  "nmo_cksprite_state \<Rightarrow> chunk_cursor \<times> arena \<Rightarrow> nmo_cksprite_state sres" where
  "sp_deserialize_file_backed st s =
     bindR (seek NMO_CKSPRITE_CHUNK_SPRITE_REF s) (\<lambda>found s.
     bindR (if found then read_sprite_ref (st\<lparr>has_bitmap_data := False\<rparr>) s
            else bindR (recode NMO_ERR_VALIDATION_FAILED (read_bitmap_data s)) (\<lambda>b.
                   ok (st\<lparr>has_sprite_ref := False, has_bitmap_data := True, bitmap_data := b\<rparr>))) (\<lambda>st s.
     bindR (section_of NMO_CKSPRITE_CHUNK_TRANSPARENCY read_transparency st s) (\<lambda>st s.
     bindR (section_of NMO_CKSPRITE_CHUNK_SLOT read_slot st s) (\<lambda>st.
       section_of NMO_CKSPRITE_CHUNK_SAVE_OPTIONS (\<lambda>st s.
         bindR (get_valid nmo_chunk_read_dword s) (\<lambda>x (c, a).
           let st = st\<lparr>has_save_options := True, sp_save_options := x\<rparr>
           in if nmo_chunk_get_data_version c > 6
              then bindR (read_properties (c, a)) (\<lambda>t. ok (st\<lparr>bitmap_properties := t\<rparr>))
              else ok st (c, a))) st))))"

definition sp_deserialize_chunk_only ::
  "nmo_cksprite_state \<Rightarrow> chunk_cursor \<times> arena \<Rightarrow> nmo_cksprite_state sres" where
  "sp_deserialize_chunk_only st s =
     bindR (section_of NMO_CKSPRITE_CHUNK_TRANSPARENCY read_transparency st s) (\<lambda>st s.
     bindR (section_of NMO_CKSPRITE_CHUNK_SLOT read_slot st s) (\<lambda>st.
       section_of NMO_CKSPRITE_CHUNK_SPRITE_REF read_sprite_ref st))"

definition nmo_cksprite_deserialize :: "chunk_cursor \<times> arena \<Rightarrow> nmo_cksprite_state sres" where
  "nmo_cksprite_deserialize s =
     bindR (nmo_ck2dentity_deserialize s) (\<lambda>e s.
     bindR (sp_deserialize_file_backed (zero_sprite e) s) (\<lambda>st s.
     bindR (read_tail s) (\<lambda>t. ok (st\<lparr>sp_tail := t\<rparr>))))"

definition nmo_cksprite_serialize :: "nmo_cksprite_state \<Rightarrow> chunk_cursor \<Rightarrow> unit cures" where
  "nmo_cksprite_serialize st c =
     bindR (nmo_ck2dentity_serialize (sp_entity st) c) (\<lambda>_ c.
     bindR (if has_sprite_ref st then
              bindR (nmo_chunk_write_identifier NMO_CKSPRITE_CHUNK_SPRITE_REF c) (\<lambda>_.
                nmo_chunk_write_object_id (sprite_ref_id st))
            else if has_bitmap_data st
            then recode NMO_ERR_VALIDATION_FAILED (write_tail (bm_raw (bitmap_data st)) c) else ok () c) (\<lambda>_ c.
     bindR (if has_transparency st then
              bindR (nmo_chunk_write_identifier NMO_CKSPRITE_CHUNK_TRANSPARENCY c) (\<lambda>_ c.
              bindR (nmo_chunk_write_dword (sp_transparent_color st) c) (\<lambda>_.
                nmo_chunk_write_dword (if sp_transparent st then 1 else 0)))
            else ok () c) (\<lambda>_ c.
     bindR (if has_slot st then
              bindR (nmo_chunk_write_identifier NMO_CKSPRITE_CHUNK_SLOT c) (\<lambda>_. nmo_chunk_write_dword (sp_slot st))
            else ok () c) (\<lambda>_ c.
     bindR (if has_save_options st then
              bindR (nmo_chunk_write_identifier NMO_CKSPRITE_CHUNK_SAVE_OPTIONS c) (\<lambda>_ c.
              bindR (nmo_chunk_write_dword (sp_save_options st) c) (\<lambda>_ c.
                recode NMO_ERR_VALIDATION_FAILED (write_tail (bitmap_properties st) c)))
            else ok () c) (\<lambda>_ c.
       recode NMO_ERR_VALIDATION_FAILED (write_tail (sp_tail st) c))))))"

end
