(* ===== verification/ParameterStates.thy ===== *)
theory ParameterStates
  imports StateIO
begin

text \<open>
  The state readers and writers of \<^verbatim>\<open>ckparameter_schemas.c\<close>, \<^verbatim>\<open>ckmessagemanager_schemas.c\<close> and
  \<^verbatim>\<open>ckattributemanager_schemas.c\<close>. Where the code ignores the result of a read, what was to be read
  keeps the zero it had.
\<close>

section \<open>CKParameter\<close>

record nmo_ckparameter_state =
  pm_type_guid :: nmo_guid
  pm_mode :: u32
  buffer_data :: "u8 list option"
  buffer_size :: nat
  pm_object_id :: u32
  pm_manager_guid :: nmo_guid
  pm_manager_value :: u32
  subchunk_data :: "u8 list option"
  subchunk_size :: nat

definition NMO_CKPARAM_MODE_SUBCHUNK :: u32 where "NMO_CKPARAM_MODE_SUBCHUNK = 0"
definition NMO_CKPARAM_MODE_BUFFER :: u32 where "NMO_CKPARAM_MODE_BUFFER = 1"
definition NMO_CKPARAM_MODE_OBJECT :: u32 where "NMO_CKPARAM_MODE_OBJECT = 2"
definition NMO_CKPARAM_MODE_NONE :: u32 where "NMO_CKPARAM_MODE_NONE = 3"
definition NMO_CKPARAM_MODE_MANAGER :: u32 where "NMO_CKPARAM_MODE_MANAGER = 4"
definition CK_PARAM_IDENTIFIER :: u32 where "CK_PARAM_IDENTIFIER = 0x00000040"

definition zero_guid :: nmo_guid where
  "zero_guid = \<lparr>d1 = 0, d2 = 0\<rparr>"

definition zero_parameter :: nmo_ckparameter_state where
  "zero_parameter = \<lparr>pm_type_guid = zero_guid, pm_mode = NMO_CKPARAM_MODE_NONE, buffer_data = None,
     buffer_size = 0, pm_object_id = 0, pm_manager_guid = zero_guid, pm_manager_value = 0,
     subchunk_data = None, subchunk_size = 0\<rparr>"

text \<open>A block with its length, copied into the arena of the state; empty when that or the reading fails.\<close>

definition read_copy :: "chunk_cursor \<times> arena \<Rightarrow> (u8 list option \<times> nat) sres" where
  "read_copy s =
     bindR (try_get nmo_chunk_read_buffer s) (\<lambda>r s. case r of
       Some (n, Some bs) \<Rightarrow>
         if n > 0 then bindR (alloc_in n 1 s) (\<lambda>q. case q of
             None \<Rightarrow> ok (None, 0)
           | Some _ \<Rightarrow> ok (Some bs, n))
         else ok (None, 0) s
     | _ \<Rightarrow> ok (None, 0) s)"

text \<open>Two words instead of three; a second word that is missing is an uninitialised variable.\<close>

definition read_bare_manager_value :: "chunk_cursor \<times> arena \<Rightarrow> u32 sres" where
  "read_bare_manager_value s =
     bindR (try_get nmo_chunk_read_int s) (\<lambda>_ s.
     bindR (try_get nmo_chunk_read_int s) (\<lambda>r s. case r of None \<Rightarrow> Undefined | Some v \<Rightarrow> ok v s))"

definition read_parameter_value ::
  "nmo_ckparameter_state \<Rightarrow> chunk_cursor \<times> arena \<Rightarrow> nmo_ckparameter_state sres" where
  "read_parameter_value st s =
     (if pm_mode st = NMO_CKPARAM_MODE_NONE then ok st s
      else if pm_mode st = NMO_CKPARAM_MODE_SUBCHUNK then
        bindR (read_copy s) (\<lambda>(p, n). ok (st\<lparr>subchunk_data := p, subchunk_size := n\<rparr>))
      else if pm_mode st = NMO_CKPARAM_MODE_OBJECT then
        bindR (get nmo_chunk_read_object_id s) (\<lambda>x. ok (st\<lparr>pm_object_id := x\<rparr>))
      else if pm_mode st = NMO_CKPARAM_MODE_MANAGER then
        bindR (try_get nmo_chunk_read_manager_int s) (\<lambda>r s. case r of
          Some (g, v) \<Rightarrow> ok (st\<lparr>pm_manager_guid := g, pm_manager_value := v\<rparr>) s
        | None \<Rightarrow> bindR (read_bare_manager_value s) (\<lambda>v. ok (st\<lparr>pm_manager_value := v\<rparr>)))
      else bindR (read_copy s) (\<lambda>(p, n). ok (st\<lparr>buffer_data := p, buffer_size := n\<rparr>)))"

definition nmo_ckparameter_deserialize :: "chunk_cursor \<times> arena \<Rightarrow> nmo_ckparameter_state sres" where
  "nmo_ckparameter_deserialize s =
     section_of CK_PARAM_IDENTIFIER (\<lambda>st s.
       bindR (get nmo_chunk_read_guid s) (\<lambda>g s.
       bindR (get nmo_chunk_read_dword s) (\<lambda>m.
         read_parameter_value (st\<lparr>pm_type_guid := g, pm_mode := m\<rparr>)))) zero_parameter s"

definition write_block :: "u8 list option \<Rightarrow> nat \<Rightarrow> chunk_cursor \<Rightarrow> unit cures" where
  "write_block p n c = (if p \<noteq> None \<and> n > 0 then nmo_chunk_write_buffer p n c else ok () c)"

definition nmo_ckparameter_serialize :: "nmo_ckparameter_state \<Rightarrow> chunk_cursor \<Rightarrow> unit cures" where
  "nmo_ckparameter_serialize st c =
     bindR (nmo_chunk_write_identifier CK_PARAM_IDENTIFIER c) (\<lambda>_ c.
     bindR (nmo_chunk_write_guid (pm_type_guid st) c) (\<lambda>_ c.
     bindR (nmo_chunk_write_dword (pm_mode st) c) (\<lambda>_ c.
       if pm_mode st = NMO_CKPARAM_MODE_NONE then ok () c
       else if pm_mode st = NMO_CKPARAM_MODE_SUBCHUNK then write_block (subchunk_data st) (subchunk_size st) c
       else if pm_mode st = NMO_CKPARAM_MODE_OBJECT then nmo_chunk_write_object_id (pm_object_id st) c
       else if pm_mode st = NMO_CKPARAM_MODE_MANAGER then
         nmo_chunk_write_manager_int (pm_manager_guid st) (pm_manager_value st) c
       else write_block (buffer_data st) (buffer_size st) c)))"

section \<open>CKParameterIn, CKParameterOut and CKParameterLocal\<close>

record nmo_ckparameterin_state =
  pi_type_guid :: nmo_guid
  source_id :: u32
  is_shared :: u8
  is_disabled :: u8

definition CK_STATESAVE_PARAMETERIN_DATASHARED :: u32 where "CK_STATESAVE_PARAMETERIN_DATASHARED = 0x00000001"
definition CK_STATESAVE_PARAMETERIN_DATASOURCE :: u32 where "CK_STATESAVE_PARAMETERIN_DATASOURCE = 0x00000002"
definition CK_STATESAVE_PARAMETERIN_DISABLED :: u32 where "CK_STATESAVE_PARAMETERIN_DISABLED = 0x00000010"

definition read_or :: "(chunk_cursor \<Rightarrow> 'a cures) \<Rightarrow> 'a \<Rightarrow> chunk_cursor \<times> arena \<Rightarrow> 'a sres" where
  "read_or rd x s = bindR (try_get rd s) (\<lambda>r. ok (case r of None \<Rightarrow> x | Some v \<Rightarrow> v))"

definition read_source :: "u8 \<Rightarrow> nmo_ckparameterin_state \<Rightarrow> chunk_cursor \<times> arena \<Rightarrow> nmo_ckparameterin_state sres" where
  "read_source shared st s =
     bindR (read_or nmo_chunk_read_guid (pi_type_guid st) s) (\<lambda>g s.
     bindR (read_or nmo_chunk_read_object_id (source_id st) s) (\<lambda>x.
       ok (st\<lparr>pi_type_guid := g, source_id := x, is_shared := shared\<rparr>)))"

definition nmo_ckparameterin_deserialize :: "chunk_cursor \<times> arena \<Rightarrow> nmo_ckparameterin_state sres" where
  "nmo_ckparameterin_deserialize s =
     (let st = \<lparr>pi_type_guid = zero_guid, source_id = 0, is_shared = 0, is_disabled = 0\<rparr>
      in bindR (seek CK_STATESAVE_PARAMETERIN_DATASHARED s) (\<lambda>found s.
         bindR (if found then read_source 1 st s
                else section_of CK_STATESAVE_PARAMETERIN_DATASOURCE (read_source 0) st s) (\<lambda>st.
           section_of CK_STATESAVE_PARAMETERIN_DISABLED (\<lambda>st. ok (st\<lparr>is_disabled := 1\<rparr>)) st)))"

definition nmo_ckparameterin_serialize :: "nmo_ckparameterin_state \<Rightarrow> chunk_cursor \<Rightarrow> unit cures" where
  "nmo_ckparameterin_serialize st c =
     bindR (nmo_chunk_write_identifier
              (if is_shared st \<noteq> 0 then CK_STATESAVE_PARAMETERIN_DATASHARED
               else CK_STATESAVE_PARAMETERIN_DATASOURCE) c) (\<lambda>_ c.
     bindR (nmo_chunk_write_guid (pi_type_guid st) c) (\<lambda>_ c.
     bindR (nmo_chunk_write_object_id (source_id st) c) (\<lambda>_ c.
       if is_disabled st \<noteq> 0 then nmo_chunk_write_identifier CK_STATESAVE_PARAMETERIN_DISABLED c
       else ok () c)))"

record nmo_ckparameterout_state =
  destination_ids :: "u32 list option"
  destination_count :: u32

definition CK_STATESAVE_PARAMETEROUT_DESTINATIONS :: u32 where "CK_STATESAVE_PARAMETEROUT_DESTINATIONS = 0x00000004"

text \<open>The words of the array, each replaced by an ID where one can be read.\<close>

fun read_over :: "u32 list \<Rightarrow> chunk_cursor \<times> arena \<Rightarrow> u32 list sres" where
  "read_over [] s = ok [] s"
| "read_over (x # xs) s =
     bindR (read_or nmo_chunk_read_object_id x s) (\<lambda>y s. bindR (read_over xs s) (\<lambda>ys. ok (y # ys)))"

definition nmo_ckparameterout_deserialize :: "chunk_cursor \<times> arena \<Rightarrow> nmo_ckparameterout_state sres" where
  "nmo_ckparameterout_deserialize s =
     section_of CK_STATESAVE_PARAMETEROUT_DESTINATIONS (\<lambda>st s.
       bindR (try_get nmo_chunk_read_int s) (\<lambda>r s. case r of
         None \<Rightarrow> ok st s
       | Some count \<Rightarrow>
           if sint count > 0 then
             bindR (alloc_in (sz_mul (unat count) 4) 4 s) (\<lambda>q (c, a). case q of
               None \<Rightarrow> ok \<lparr>destination_ids = None, destination_count = count\<rparr> (c, a)
             | Some rg \<Rightarrow>
                 bindR (read_over (fresh_dwords rg a (unat count)) (c, a)) (\<lambda>xs.
                   ok \<lparr>destination_ids = Some xs, destination_count = count\<rparr>))
           else ok st s)) \<lparr>destination_ids = None, destination_count = 0\<rparr> s"

definition nmo_ckparameterout_serialize :: "nmo_ckparameterout_state \<Rightarrow> chunk_cursor \<Rightarrow> unit cures" where
  "nmo_ckparameterout_serialize st c = (case destination_ids st of
       None \<Rightarrow> ok () c
     | Some xs \<Rightarrow>
         if destination_count st > 0 then
           bindR (nmo_chunk_write_identifier CK_STATESAVE_PARAMETEROUT_DESTINATIONS c) (\<lambda>_ c.
           bindR (nmo_chunk_write_int (destination_count st) c) (\<lambda>_.
             write_each nmo_chunk_write_object_id xs (unat (destination_count st))))
         else ok () c)"

record nmo_ckparameterlocal_state =
  is_myself :: u8
  is_setting :: u8

definition CK_STATESAVE_PARAMETEROUT_MYSELF :: u32 where "CK_STATESAVE_PARAMETEROUT_MYSELF = 0x00000008"
definition CK_STATESAVE_PARAMETEROUT_ISSETTING :: u32 where "CK_STATESAVE_PARAMETEROUT_ISSETTING = 0x00000020"

definition nmo_ckparameterlocal_deserialize :: "chunk_cursor \<times> arena \<Rightarrow> nmo_ckparameterlocal_state sres" where
  "nmo_ckparameterlocal_deserialize s =
     bindR (seek CK_STATESAVE_PARAMETEROUT_MYSELF s) (\<lambda>x s.
     bindR (seek CK_STATESAVE_PARAMETEROUT_ISSETTING s) (\<lambda>y.
       ok \<lparr>is_myself = (if x then 1 else 0), is_setting = (if y then 1 else 0)\<rparr>))"

definition nmo_ckparameterlocal_serialize :: "nmo_ckparameterlocal_state \<Rightarrow> chunk_cursor \<Rightarrow> unit cures" where
  "nmo_ckparameterlocal_serialize st c =
     bindR (if is_myself st \<noteq> 0 then nmo_chunk_write_identifier CK_STATESAVE_PARAMETEROUT_MYSELF c
            else ok () c) (\<lambda>_ c.
       if is_setting st \<noteq> 0 then nmo_chunk_write_identifier CK_STATESAVE_PARAMETEROUT_ISSETTING c
       else ok () c)"

section \<open>CKParameterOperation\<close>

record nmo_ckparameteroperation_state =
  operation_guid :: nmo_guid
  input1_id :: u32
  input2_id :: u32
  output_id :: u32
  owner_id :: u32

definition CK_STATESAVE_OPERATIONNEWDATA :: u32 where "CK_STATESAVE_OPERATIONNEWDATA = 0x00001000"
definition CK_STATESAVE_OPERATIONOP :: u32 where "CK_STATESAVE_OPERATIONOP = 0x00000001"
definition CK_STATESAVE_OPERATIONDEFAULTDATA :: u32 where "CK_STATESAVE_OPERATIONDEFAULTDATA = 0x00000002"
definition CK_STATESAVE_OPERATIONINPUTS :: u32 where "CK_STATESAVE_OPERATIONINPUTS = 0x00000004"
definition CK_STATESAVE_OPERATIONOUTPUT :: u32 where "CK_STATESAVE_OPERATIONOUTPUT = 0x00000008"

definition read_operation_inputs ::
  "nmo_ckparameteroperation_state \<Rightarrow> chunk_cursor \<times> arena \<Rightarrow> nmo_ckparameteroperation_state sres" where
  "read_operation_inputs st s =
     bindR (read_or nmo_chunk_read_object_id 0 s) (\<lambda>x s.
     bindR (read_or nmo_chunk_read_object_id 0 s) (\<lambda>y. ok (st\<lparr>input1_id := x, input2_id := y\<rparr>)))"

definition read_operation_output ::
  "nmo_ckparameteroperation_state \<Rightarrow> chunk_cursor \<times> arena \<Rightarrow> nmo_ckparameteroperation_state sres" where
  "read_operation_output st s = bindR (read_or nmo_chunk_read_object_id 0 s) (\<lambda>x. ok (st\<lparr>output_id := x\<rparr>))"

definition read_operation_guid ::
  "nmo_ckparameteroperation_state \<Rightarrow> chunk_cursor \<times> arena \<Rightarrow> nmo_ckparameteroperation_state sres" where
  "read_operation_guid st s = bindR (read_or nmo_chunk_read_guid zero_guid s) (\<lambda>g. ok (st\<lparr>operation_guid := g\<rparr>))"

definition nmo_ckparameteroperation_deserialize ::
  "chunk_cursor \<times> arena \<Rightarrow> nmo_ckparameteroperation_state sres" where
  "nmo_ckparameteroperation_deserialize s =
     (let st = \<lparr>operation_guid = zero_guid, input1_id = 0, input2_id = 0, output_id = 0, owner_id = 0\<rparr>
      in bindR (seek CK_STATESAVE_OPERATIONNEWDATA s) (\<lambda>found s.
           if found then
             bindR (read_operation_guid st s) (\<lambda>st s.
             bindR (read_or nmo_chunk_read_object_sequence_start 0 s) (\<lambda>seq_count s.
               if seq_count \<ge> 3
               then bindR (read_operation_inputs st s) read_operation_output
               else ok st s))
           else
             bindR (section_of CK_STATESAVE_OPERATIONOP read_operation_guid st s) (\<lambda>st s.
             bindR (section_of CK_STATESAVE_OPERATIONDEFAULTDATA (\<lambda>st s.
                      bindR (read_or nmo_chunk_read_object_id 0 s) (\<lambda>x. ok (st\<lparr>owner_id := x\<rparr>))) st s) (\<lambda>st s.
             bindR (section_of CK_STATESAVE_OPERATIONOUTPUT read_operation_output st s) (\<lambda>st.
               section_of CK_STATESAVE_OPERATIONINPUTS read_operation_inputs st)))))"

definition nmo_ckparameteroperation_serialize ::
  "nmo_ckparameteroperation_state \<Rightarrow> chunk_cursor \<Rightarrow> unit cures" where
  "nmo_ckparameteroperation_serialize st c =
     bindR (nmo_chunk_write_identifier CK_STATESAVE_OPERATIONNEWDATA c) (\<lambda>_ c.
     bindR (nmo_chunk_write_guid (operation_guid st) c) (\<lambda>_ c.
     bindR (nmo_chunk_write_dword 3 c) (\<lambda>_ c.
     bindR (nmo_chunk_write_object_id (input1_id st) c) (\<lambda>_ c.
     bindR (nmo_chunk_write_object_id (input2_id st) c) (\<lambda>_.
       nmo_chunk_write_object_id (output_id st))))))"

section \<open>CKMessageManager\<close>

record nmo_ckmessagemanager_state =
  message_type_count :: u32
  message_type_names :: "u8 list option list option"

definition CK_STATESAVE_MESSAGEMANAGER :: u32 where "CK_STATESAVE_MESSAGEMANAGER = 0x53"

definition read_name :: "chunk_cursor \<times> arena \<Rightarrow> u8 list option sres" where
  "read_name = (\<lambda>(c, a). bindE (nmo_chunk_read_string c) (\<lambda>((_, p), c). ok p (c, a)))"

text \<open>\<^verbatim>\<open>for (i = 0; i < n; i++)\<close> over an array allocated for \<open>n\<close> elements.\<close>

fun read_elements :: "(chunk_cursor \<times> arena \<Rightarrow> 'a sres) \<Rightarrow> nat \<Rightarrow> chunk_cursor \<times> arena \<Rightarrow> 'a list sres" where
  "read_elements rd 0 s = ok [] s"
| "read_elements rd (Suc n) s = bindR (rd s) (\<lambda>x s. bindR (read_elements rd n s) (\<lambda>xs. ok (x # xs)))"

text \<open>The array of \<open>n\<close> elements of \<open>elem\<close> bytes; no memory is the error.\<close>

definition read_array_of ::
  "(chunk_cursor \<times> arena \<Rightarrow> 'a sres) \<Rightarrow> nat \<Rightarrow> nat \<Rightarrow> chunk_cursor \<times> arena \<Rightarrow> 'a list option sres" where
  "read_array_of rd elem n s =
     bindR (alloc_in (sz_mul n elem) 8 s) (\<lambda>q s. case q of
       None \<Rightarrow> fail NMO_ERR_NOMEM s
     | Some _ \<Rightarrow> bindR (read_elements rd n s) (\<lambda>xs. ok (Some xs)))"

definition nmo_ckmessagemanager_deserialize :: "chunk_cursor \<times> arena \<Rightarrow> nmo_ckmessagemanager_state sres" where
  "nmo_ckmessagemanager_deserialize s =
     section_of CK_STATESAVE_MESSAGEMANAGER (\<lambda>st s.
       bindR (get nmo_chunk_read_int s) (\<lambda>type_count s.
         if sint type_count \<le> 0 then ok st s
         else if sint type_count > 10000 then fail NMO_ERR_VALIDATION_FAILED s
         else bindR (read_array_of read_name 8 (unat type_count) s) (\<lambda>ps.
                ok \<lparr>message_type_count = type_count, message_type_names = ps\<rparr>)))
       \<lparr>message_type_count = 0, message_type_names = None\<rparr> s"

text \<open>A name that is NULL is written as the empty string.\<close>

definition write_name :: "u8 list option \<Rightarrow> chunk_cursor \<Rightarrow> unit cures" where
  "write_name p = nmo_chunk_write_string (Some (case p of None \<Rightarrow> [0] | Some bs \<Rightarrow> bs))"

definition nmo_ckmessagemanager_serialize :: "nmo_ckmessagemanager_state \<Rightarrow> chunk_cursor \<Rightarrow> unit cures" where
  "nmo_ckmessagemanager_serialize st c =
     (if message_type_count st = 0 then ok () c
      else
        bindR (nmo_chunk_write_identifier CK_STATESAVE_MESSAGEMANAGER c) (\<lambda>_ c.
        bindR (nmo_chunk_write_int (message_type_count st) c) (\<lambda>_.
          write_each write_name (case message_type_names st of None \<Rightarrow> [] | Some ps \<Rightarrow> ps)
            (unat (message_type_count st)))))"

section \<open>CKAttributeManager\<close>

record nmo_ckattribute_category =
  cat_name :: "u8 list option"
  cat_flags :: u32
  cat_present :: bool

record nmo_ckattribute_descriptor =
  at_name :: "u8 list option"
  parameter_type_guid :: nmo_guid
  category_index :: u32
  at_compatible_class_id :: u32
  at_flags :: u32
  at_present :: bool

record nmo_ckattributemanager_state =
  category_count :: u32
  categories :: "nmo_ckattribute_category list option"
  am_attribute_count :: u32
  am_attributes :: "nmo_ckattribute_descriptor list option"

definition CK_STATESAVE_ATTRIBUTEMANAGER :: u32 where "CK_STATESAVE_ATTRIBUTEMANAGER = 0x52"

definition zero_category :: nmo_ckattribute_category where
  "zero_category = \<lparr>cat_name = None, cat_flags = 0, cat_present = False\<rparr>"

definition read_category :: "chunk_cursor \<times> arena \<Rightarrow> nmo_ckattribute_category sres" where
  "read_category s =
     bindR (get nmo_chunk_read_int s) (\<lambda>present s.
       if present = 0 then ok zero_category s
       else bindR (read_name s) (\<lambda>p s. bindR (get nmo_chunk_read_dword s) (\<lambda>fl.
              ok \<lparr>cat_name = p, cat_flags = fl, cat_present = True\<rparr>)))"

definition zero_descriptor :: nmo_ckattribute_descriptor where
  "zero_descriptor = \<lparr>at_name = None, parameter_type_guid = zero_guid, category_index = 0,
     at_compatible_class_id = 0, at_flags = 0, at_present = False\<rparr>"

definition read_descriptor :: "chunk_cursor \<times> arena \<Rightarrow> nmo_ckattribute_descriptor sres" where
  "read_descriptor s =
     bindR (get nmo_chunk_read_int s) (\<lambda>present s.
       if present = 0 then ok zero_descriptor s
       else bindR (read_name s) (\<lambda>p s. bindR (get nmo_chunk_read_guid s) (\<lambda>g s.
            bindR (get nmo_chunk_read_int s) (\<lambda>ci s. bindR (get nmo_chunk_read_int s) (\<lambda>cc s.
            bindR (get nmo_chunk_read_dword s) (\<lambda>fl.
              ok \<lparr>at_name = p, parameter_type_guid = g, category_index = ci, at_compatible_class_id = cc,
                  at_flags = fl, at_present = True\<rparr>))))))"

definition nmo_ckattributemanager_deserialize ::
  "chunk_cursor \<times> arena \<Rightarrow> nmo_ckattributemanager_state sres" where
  "nmo_ckattributemanager_deserialize s =
     section_of CK_STATESAVE_ATTRIBUTEMANAGER (\<lambda>st s.
       bindR (get nmo_chunk_read_int s) (\<lambda>n s.
       bindR (get nmo_chunk_read_int s) (\<lambda>m s.
         if sint n < 0 \<or> sint n > 10000 then fail NMO_ERR_VALIDATION_FAILED s
         else if sint m < 0 \<or> sint m > 100000 then fail NMO_ERR_VALIDATION_FAILED s
         else
           bindR (if n = 0 then ok None s else read_array_of read_category 16 (unat n) s) (\<lambda>xs s.
           bindR (if m = 0 then ok None s else read_array_of read_descriptor 32 (unat m) s) (\<lambda>ys.
             ok \<lparr>category_count = n, categories = xs, am_attribute_count = m, am_attributes = ys\<rparr>)))))
       \<lparr>category_count = 0, categories = None, am_attribute_count = 0, am_attributes = None\<rparr> s"

definition write_category :: "nmo_ckattribute_category \<Rightarrow> chunk_cursor \<Rightarrow> unit cures" where
  "write_category x c =
     bindR (nmo_chunk_write_int (if cat_present x then 1 else 0) c) (\<lambda>_ c.
       if cat_present x
       then bindR (write_name (cat_name x) c) (\<lambda>_. nmo_chunk_write_dword (cat_flags x))
       else ok () c)"

definition write_descriptor :: "nmo_ckattribute_descriptor \<Rightarrow> chunk_cursor \<Rightarrow> unit cures" where
  "write_descriptor x c =
     bindR (nmo_chunk_write_int (if at_present x then 1 else 0) c) (\<lambda>_ c.
       if at_present x then
         bindR (write_name (at_name x) c) (\<lambda>_ c.
         bindR (nmo_chunk_write_guid (parameter_type_guid x) c) (\<lambda>_ c.
         bindR (nmo_chunk_write_int (category_index x) c) (\<lambda>_ c.
         bindR (nmo_chunk_write_int (at_compatible_class_id x) c) (\<lambda>_.
           nmo_chunk_write_dword (at_flags x)))))
       else ok () c)"

definition nmo_ckattributemanager_serialize :: "nmo_ckattributemanager_state \<Rightarrow> chunk_cursor \<Rightarrow> unit cures" where
  "nmo_ckattributemanager_serialize st c =
     bindR (nmo_chunk_write_identifier CK_STATESAVE_ATTRIBUTEMANAGER c) (\<lambda>_ c.
     bindR (nmo_chunk_write_int (category_count st) c) (\<lambda>_ c.
     bindR (nmo_chunk_write_int (am_attribute_count st) c) (\<lambda>_ c.
     bindR (write_each write_category (case categories st of None \<Rightarrow> [] | Some xs \<Rightarrow> xs)
              (unat (category_count st)) c) (\<lambda>_.
       write_each write_descriptor (case am_attributes st of None \<Rightarrow> [] | Some xs \<Rightarrow> xs)
         (unat (am_attribute_count st))))))"

end
