(* ===== verification/ChunkSubWrite.thy ===== *)
theory ChunkSubWrite
  imports ChunkApiData
begin

text \<open>
  Writing a sub-chunk into its parent, the last call of \<^verbatim>\<open>chunk_subchunks.c\<close>. The buffers of the
  sub-chunk then point into the buffer of the parent; here they become a copy of the words there, so
  what later writes to the parent would change in the sub-chunk is not seen. The values of the pointers
  in the sub-chunk's own array, whose first bytes the code writes out, are a parameter.
\<close>

definition ensure_sub_slots :: "chunk_cursor \<Rightarrow> unit cures" where
  "ensure_sub_slots c =
     (let b = cu_body c; n = c_chunk_count b
      in case cu_subs c of
           None \<Rightarrow>
             bindE (nmo_arena_alloc (sz_mul 8 8) 8 (cu_arena c)) (\<lambda>(q, a).
               let c = set_subs None n 8 (c\<lparr>cu_arena := a\<rparr>)
               in case q of
                    None \<Rightarrow> fail NMO_ERR_NOMEM c
                  | Some rg \<Rightarrow> ok () (set_subs (Some (replicate (rg_size rg div 8) None)) n 8 c))
         | Some cs \<Rightarrow>
             if n \<ge> c_chunk_capacity b then
               let new_capacity = sz_mul (c_chunk_capacity b) 2
               in bindE (nmo_arena_alloc (sz_mul new_capacity 8) 8 (cu_arena c)) (\<lambda>(q, a).
                    let c = c\<lparr>cu_arena := a\<rparr>
                    in case q of
                         None \<Rightarrow> fail NMO_ERR_NOMEM c
                       | Some rg \<Rightarrow>
                           let new_chunks = replicate (rg_size rg div 8) None
                           in if n \<le> length cs \<and> n \<le> length new_chunks
                              then ok () (set_subs (Some (mem_blit new_chunks 0 (take n cs))) n new_capacity c)
                              else Undefined)
             else ok () c)"

definition store_sub :: "nat \<Rightarrow> nmo_chunk \<Rightarrow> chunk_cursor \<Rightarrow> chunk_cursor eff" where
  "store_sub n sub c = (case cu_subs c of
       None \<Rightarrow> Undefined
     | Some cs \<Rightarrow> if n < length cs then Done (c\<lparr>cu_subs := Some (cs[n := Some sub])\<rparr>) else Undefined)"

fun write_dword_list :: "u32 list \<Rightarrow> chunk_cursor \<Rightarrow> unit cures" where
  "write_dword_list [] c = ok () c"
| "write_dword_list (x # xs) c = bindR (nmo_chunk_write_dword x c) (\<lambda>_. write_dword_list xs)"

text \<open>A block of words of the sub-chunk, written when there are any.\<close>

definition write_words_of :: "u32 list option \<Rightarrow> nat \<Rightarrow> chunk_cursor \<Rightarrow> unit cures" where
  "write_words_of p n = nmo_chunk_write_buffer_no_size (map_option bytes_of_dwords p) (sz_mul n 4)"

text \<open>The sub-chunk behind the pointer after the call.\<close>

definition embedded_at :: "nat \<Rightarrow> nmo_chunk \<Rightarrow> chunk_cursor \<Rightarrow> nmo_chunk eff" where
  "embedded_at off sub c = (case c_data (cu_body c) of
       None \<Rightarrow> Undefined
     | Some xs \<Rightarrow>
         let b = c_body sub
         in Done (Chunk (b\<lparr>c_data := Some (drop off xs),
                           c_ids := (if c_ids b \<noteq> None \<and> c_id_count b > 0
                                     then Some (drop (off + c_data_size b) xs) else c_ids b)\<rparr>) (c_chunks sub)))"

definition nmo_chunk_write_sub_chunk :: "u8 list \<Rightarrow> nmo_chunk option \<Rightarrow> chunk_cursor \<Rightarrow> unit cures" where
  "nmo_chunk_write_sub_chunk pointer_bytes p c = (case p of
       None \<Rightarrow> fail NMO_ERR_INVALID_ARGUMENT c
     | Some sub \<Rightarrow>
         bindR (ensure_sub_slots (add_option NMO_CHUNK_OPTION_CHN c)) (\<lambda>_ c.
           let n = c_chunk_count (cu_body c); b = c_body sub
           in bindE (store_sub n sub c) (\<lambda>c.
             let c = c\<lparr>cu_body := (cu_body c)\<lparr>c_chunk_count := sz_add n 1\<rparr>\<rparr>;
                 ids = (if c_ids b \<noteq> None then c_id_count b else 0);
                 subs = (if c_chunks sub \<noteq> None then c_chunk_count b else 0);
                 total_size = sz_add (sz_add (sz_add 8 (c_data_size b)) ids) subs
             in case cu_state c of
                  None \<Rightarrow> Undefined
                | Some st \<Rightarrow>
                    let off = sz_add (current_pos st) 8
                    in bindR (nmo_chunk_write_dword (of_nat (sz_sub total_size 1)) c) (\<lambda>_ c.
                       bindR (nmo_chunk_write_word (ucast (c_chunk_class_id b)) c) (\<lambda>_ c.
                       bindR (write_dword_list [c_data_version b OR push_bit 16 (c_chunk_version b), of_nat (c_data_size b),
                                0, of_nat (c_id_count b), of_nat (c_chunk_count b), 0] c) (\<lambda>_ c.
                       bindR (if c_data_size b > 0 then write_words_of (c_data b) (c_data_size b) c else ok () c) (\<lambda>_ c.
                       bindR (if c_ids b \<noteq> None \<and> c_id_count b > 0
                              then write_words_of (c_ids b) (c_id_count b) c else ok () c) (\<lambda>_ c.
                       bindR (if c_chunks sub \<noteq> None \<and> c_chunk_count b > 0
                              then nmo_chunk_write_buffer_no_size (Some pointer_bytes) (sz_mul (c_chunk_count b) 4) c
                              else ok () c) (\<lambda>_ c.
                       bindE (embedded_at off sub c) (\<lambda>sub.
                       bindE (store_sub n sub c) (\<lambda>c. ok () c)))))))))))"

end
