(* ===== verification/MaterialStates.thy ===== *)
theory MaterialStates
  imports EntityStates ParameterStates ChunkSubWrite
begin

text \<open>
  The state readers and writers of \<^verbatim>\<open>ckmaterial_schemas.c\<close>, \<^verbatim>\<open>ckspritetext_schemas.c\<close> and
  \<^verbatim>\<open>cktexture_schemas.c\<close>, with the clean-up each does after loading.
\<close>

section \<open>CKMaterial\<close>

text \<open>The sixteen colour components of \<^verbatim>\<open>nmo_material_colors_t\<close>, four by four.\<close>

record nmo_material_colors =
  mc_ambient :: nmo_vx_color
  mc_diffuse :: nmo_vx_color
  mc_specular :: nmo_vx_color
  mc_emissive :: nmo_vx_color

record nmo_ck_material_state =
  mt_colors :: nmo_material_colors
  specular_power :: f32
  texture_ids :: "u32 list"
  texture_count :: u32
  texture_blend_mode :: u32
  texture_min_mode :: u32
  texture_mag_mode :: u32
  texture_address_mode :: u32
  texture_border_color :: u32
  shade_mode :: u32
  fill_mode :: u32
  alpha_test_enabled :: bool
  alpha_func :: u32
  alpha_ref :: u8
  blend_enabled :: bool
  src_blend :: u32
  dest_blend :: u32
  zwrite_enabled :: bool
  ztest_enabled :: bool
  two_sided :: bool
  has_colors :: bool
  has_textures :: bool
  has_rendering_settings :: bool

definition NMO_CKMATERIAL_IDENTIFIER_COLORS :: u32 where "NMO_CKMATERIAL_IDENTIFIER_COLORS = 0x00001000"
definition NMO_CKMATERIAL_IDENTIFIER_TEXTURES :: u32 where "NMO_CKMATERIAL_IDENTIFIER_TEXTURES = 0x00002000"
definition NMO_CKMATERIAL_IDENTIFIER_RENDERING :: u32 where "NMO_CKMATERIAL_IDENTIFIER_RENDERING = 0x00004000"

text \<open>A grey of the given intensity, opaque: \<^verbatim>\<open>0x3F800000\<close> is \<^verbatim>\<open>1.0f\<close>.\<close>

definition opaque_grey :: "f32 \<Rightarrow> nmo_vx_color" where
  "opaque_grey x = \<lparr>vc_r = x, vc_g = x, vc_b = x, vc_a = f32_one\<rparr>"

text \<open>The intensities are \<^verbatim>\<open>0.3f\<close>, \<^verbatim>\<open>0.7f\<close>, \<^verbatim>\<open>0.5f\<close> and \<^verbatim>\<open>0.0f\<close>; the modes are the enumerators of the code.\<close>

definition initialize_material_defaults :: nmo_ck_material_state where
  "initialize_material_defaults =
     \<lparr>mt_colors = \<lparr>mc_ambient = opaque_grey 0x3E99999A, mc_diffuse = opaque_grey 0x3F333333,
                   mc_specular = opaque_grey 0x3F000000, mc_emissive = opaque_grey 0\<rparr>,
      specular_power = 0, texture_ids = [0, 0, 0, 0], texture_count = 0,
      texture_blend_mode = 2, texture_min_mode = 2, texture_mag_mode = 2, texture_address_mode = 1,
      texture_border_color = 0xFF000000, shade_mode = 2, fill_mode = 3,
      alpha_test_enabled = False, alpha_func = 8, alpha_ref = 0, blend_enabled = False,
      src_blend = 2, dest_blend = 1, zwrite_enabled = True, ztest_enabled = True, two_sided = False,
      has_colors = False, has_textures = False, has_rendering_settings = False\<rparr>"

definition read_color :: "chunk_cursor \<times> arena \<Rightarrow> nmo_vx_color sres" where
  "read_color s =
     bindR (get (read_floats 4) s) (\<lambda>xs. ok \<lparr>vc_r = xs ! 0, vc_g = xs ! 1, vc_b = xs ! 2, vc_a = xs ! 3\<rparr>)"

definition mt_deserialize_colors ::
  "nmo_ck_material_state \<Rightarrow> chunk_cursor \<times> arena \<Rightarrow> nmo_ck_material_state sres" where
  "mt_deserialize_colors st s =
     bindR (read_color s) (\<lambda>am s. bindR (read_color s) (\<lambda>di s. bindR (read_color s) (\<lambda>sp s.
     bindR (read_color s) (\<lambda>em s. bindR (get nmo_chunk_read_float s) (\<lambda>power.
       ok (st\<lparr>mt_colors := \<lparr>mc_ambient = am, mc_diffuse = di, mc_specular = sp, mc_emissive = em\<rparr>,
              specular_power := power, has_colors := True\<rparr>))))))"

fun read_dwords :: "nat \<Rightarrow> chunk_cursor \<Rightarrow> u32 list cures" where
  "read_dwords 0 c = ok [] c"
| "read_dwords (Suc n) c = bindR (nmo_chunk_read_dword c) (\<lambda>x c. bindR (read_dwords n c) (\<lambda>xs. ok (x # xs)))"

fun read_object_ids :: "nat \<Rightarrow> chunk_cursor \<Rightarrow> u32 list cures" where
  "read_object_ids 0 c = ok [] c"
| "read_object_ids (Suc n) c =
     bindR (nmo_chunk_read_object_id c) (\<lambda>x c. bindR (read_object_ids n c) (\<lambda>xs. ok (x # xs)))"

text \<open>A count above four becomes four; the ids behind the fourth are read as the modes.\<close>

definition deserialize_textures ::
  "nmo_ck_material_state \<Rightarrow> chunk_cursor \<times> arena \<Rightarrow> nmo_ck_material_state sres" where
  "deserialize_textures st s =
     bindR (get nmo_chunk_read_dword s) (\<lambda>n s.
       let n = (if n > 4 then 4 else n)
       in bindR (get (read_object_ids (unat n)) s) (\<lambda>ids s.
          bindR (get (read_dwords 5) s) (\<lambda>xs.
            ok (st\<lparr>texture_count := n, texture_ids := ids @ drop (unat n) (texture_ids st),
                   texture_blend_mode := xs ! 0, texture_min_mode := xs ! 1, texture_mag_mode := xs ! 2,
                   texture_address_mode := xs ! 3, texture_border_color := xs ! 4, has_textures := True\<rparr>))))"

definition deserialize_rendering ::
  "nmo_ck_material_state \<Rightarrow> chunk_cursor \<times> arena \<Rightarrow> nmo_ck_material_state sres" where
  "deserialize_rendering st s =
     bindR (get (read_dwords 11) s) (\<lambda>xs.
       ok (st\<lparr>shade_mode := xs ! 0, fill_mode := xs ! 1, alpha_test_enabled := xs ! 2 \<noteq> 0, alpha_func := xs ! 3,
              alpha_ref := ucast (xs ! 4), blend_enabled := xs ! 5 \<noteq> 0, src_blend := xs ! 6, dest_blend := xs ! 7,
              zwrite_enabled := xs ! 8 \<noteq> 0, ztest_enabled := xs ! 9 \<noteq> 0, two_sided := xs ! 10 \<noteq> 0,
              has_rendering_settings := True\<rparr>))"

definition ckmaterial_deserialize_modern :: "chunk_cursor \<times> arena \<Rightarrow> nmo_ck_material_state sres" where
  "ckmaterial_deserialize_modern s =
     bindR (section_of NMO_CKMATERIAL_IDENTIFIER_COLORS mt_deserialize_colors initialize_material_defaults s) (\<lambda>st s.
     bindR (section_of NMO_CKMATERIAL_IDENTIFIER_TEXTURES deserialize_textures st s) (\<lambda>st.
       section_of NMO_CKMATERIAL_IDENTIFIER_RENDERING deserialize_rendering st))"

definition color_parts :: "nmo_vx_color \<Rightarrow> f32 list" where
  "color_parts x = [vc_r x, vc_g x, vc_b x, vc_a x]"

definition write_colors :: "nmo_ck_material_state \<Rightarrow> chunk_cursor \<Rightarrow> unit cures" where
  "write_colors st c =
     bindR (nmo_chunk_write_identifier NMO_CKMATERIAL_IDENTIFIER_COLORS c) (\<lambda>_.
       write_floats (color_parts (mc_ambient (mt_colors st)) @ color_parts (mc_diffuse (mt_colors st))
                     @ color_parts (mc_specular (mt_colors st)) @ color_parts (mc_emissive (mt_colors st))
                     @ [specular_power st]))"

definition write_textures :: "nmo_ck_material_state \<Rightarrow> chunk_cursor \<Rightarrow> unit cures" where
  "write_textures st c =
     bindR (nmo_chunk_write_identifier NMO_CKMATERIAL_IDENTIFIER_TEXTURES c) (\<lambda>_ c.
     bindR (nmo_chunk_write_dword (texture_count st) c) (\<lambda>_ c.
     bindR (write_each nmo_chunk_write_object_id (texture_ids st) (unat (texture_count st)) c) (\<lambda>_.
       write_dword_list [texture_blend_mode st, texture_min_mode st, texture_mag_mode st,
                         texture_address_mode st, texture_border_color st])))"

definition bit_of :: "bool \<Rightarrow> u32" where
  "bit_of b = (if b then 1 else 0)"

definition write_rendering :: "nmo_ck_material_state \<Rightarrow> chunk_cursor \<Rightarrow> unit cures" where
  "write_rendering st c =
     bindR (nmo_chunk_write_identifier NMO_CKMATERIAL_IDENTIFIER_RENDERING c) (\<lambda>_.
       write_dword_list [shade_mode st, fill_mode st, bit_of (alpha_test_enabled st), alpha_func st,
                         ucast (alpha_ref st), bit_of (blend_enabled st), src_blend st, dest_blend st,
                         bit_of (zwrite_enabled st), bit_of (ztest_enabled st), bit_of (two_sided st)])"

definition ckmaterial_serialize_modern :: "nmo_ck_material_state \<Rightarrow> chunk_cursor \<Rightarrow> unit cures" where
  "ckmaterial_serialize_modern st c =
     bindR (if has_colors st then write_colors st c else ok () c) (\<lambda>_ c.
     bindR (if has_textures st \<and> texture_count st > 0 then write_textures st c else ok () c) (\<lambda>_ c.
       if has_rendering_settings st then write_rendering st c else ok () c))"

definition clamp_component :: "f32 \<Rightarrow> f32" where
  "clamp_component x = (if f32_below_zero x then 0 else if f32_above_one x then f32_one else x)"

definition clamp_color :: "nmo_vx_color \<Rightarrow> nmo_vx_color" where
  "clamp_color x = \<lparr>vc_r = clamp_component (vc_r x), vc_g = clamp_component (vc_g x),
                    vc_b = clamp_component (vc_b x), vc_a = clamp_component (vc_a x)\<rparr>"

definition ckmaterial_finish_loading :: "nmo_ck_material_state \<Rightarrow> nmo_ck_material_state" where
  "ckmaterial_finish_loading st =
     (if has_colors st then
        let k = mt_colors st
        in st\<lparr>mt_colors := \<lparr>mc_ambient = clamp_color (mc_ambient k), mc_diffuse = clamp_color (mc_diffuse k),
                            mc_specular = clamp_color (mc_specular k), mc_emissive = clamp_color (mc_emissive k)\<rparr>,
              specular_power := (if f32_below_zero (specular_power st) then 0 else specular_power st)\<rparr>
      else st)"

section \<open>CKSpriteText\<close>

record nmo_font_info =
  font_name :: "u8 list option"
  fi_size :: u32
  fi_weight :: u32
  fi_italic :: u32
  fi_charset :: u32

text \<open>
  The members of \<^verbatim>\<open>nmo_ck_spritetext_state_t\<close> the functions use; the others, inherited from the sprite, are
  cleared by the reader and not touched.
\<close>

record nmo_ck_spritetext_state =
  text_content :: "u8 list option"
  st_font :: nmo_font_info
  font_color :: u32
  st_background_color :: u32
  needs_redraw :: bool

definition NMO_CKSPRITETEXT_IDENTIFIER_TEXT :: u32 where "NMO_CKSPRITETEXT_IDENTIFIER_TEXT = 0x01000000"
definition NMO_CKSPRITETEXT_IDENTIFIER_FONT :: u32 where "NMO_CKSPRITETEXT_IDENTIFIER_FONT = 0x02000000"
definition NMO_CKSPRITETEXT_IDENTIFIER_COLOR :: u32 where "NMO_CKSPRITETEXT_IDENTIFIER_COLOR = 0x04000000"

text \<open>A copy of a string in the arena; NULL without memory.\<close>

definition arena_strdup :: "u8 list \<Rightarrow> chunk_cursor \<times> arena \<Rightarrow> u8 list option sres" where
  "arena_strdup str s = bindR (alloc_in (length str) 1 s) (\<lambda>q. ok (if q = None then None else Some str))"

definition arial :: "u8 list" where
  "arial = [65, 114, 105, 97, 108, 0]"

definition read_name_or :: "u8 list \<Rightarrow> chunk_cursor \<times> arena \<Rightarrow> u8 list option sres" where
  "read_name_or dflt s = bindR (read_name s) (\<lambda>p. case p of None \<Rightarrow> arena_strdup dflt | Some bs \<Rightarrow> ok (Some bs))"

definition deserialize_text_content ::
  "nmo_ck_spritetext_state \<Rightarrow> chunk_cursor \<times> arena \<Rightarrow> nmo_ck_spritetext_state sres" where
  "deserialize_text_content st s = bindR (read_name_or [0] s) (\<lambda>p. ok (st\<lparr>text_content := p\<rparr>))"

definition get_format :: "(chunk_cursor \<Rightarrow> 'a cures) \<Rightarrow> chunk_cursor \<times> arena \<Rightarrow> 'a sres" where
  "get_format = get_or NMO_ERR_INVALID_FORMAT"

definition deserialize_font_properties ::
  "nmo_ck_spritetext_state \<Rightarrow> chunk_cursor \<times> arena \<Rightarrow> nmo_ck_spritetext_state sres" where
  "deserialize_font_properties st s =
     bindR (read_name_or arial s) (\<lambda>p s.
     bindR (get_format nmo_chunk_read_int s) (\<lambda>sz s. bindR (get_format nmo_chunk_read_int s) (\<lambda>w s.
     bindR (get_format nmo_chunk_read_int s) (\<lambda>it s. bindR (get_format nmo_chunk_read_int s) (\<lambda>cs.
       ok (st\<lparr>st_font := \<lparr>font_name = p, fi_size = sz, fi_weight = w, fi_italic = it, fi_charset = cs\<rparr>\<rparr>))))))"

definition st_deserialize_colors ::
  "nmo_ck_spritetext_state \<Rightarrow> chunk_cursor \<times> arena \<Rightarrow> nmo_ck_spritetext_state sres" where
  "st_deserialize_colors st s =
     bindR (get_format nmo_chunk_read_dword s) (\<lambda>x s. bindR (get_format nmo_chunk_read_dword s) (\<lambda>y.
       ok (st\<lparr>font_color := x, st_background_color := y\<rparr>)))"

definition ckspritetext_deserialize_modern :: "chunk_cursor \<times> arena \<Rightarrow> nmo_ck_spritetext_state sres" where
  "ckspritetext_deserialize_modern s =
     (let st = \<lparr>text_content = None,
                st_font = \<lparr>font_name = None, fi_size = 0, fi_weight = 0, fi_italic = 0, fi_charset = 0\<rparr>,
                font_color = 0xFFFFFFFF, st_background_color = 0, needs_redraw = True\<rparr>
      in bindR (seek NMO_CKSPRITETEXT_IDENTIFIER_TEXT s) (\<lambda>found s.
         bindR (if found then deserialize_text_content st s
                else bindR (arena_strdup [0] s) (\<lambda>p. ok (st\<lparr>text_content := p\<rparr>))) (\<lambda>st s.
         bindR (seek NMO_CKSPRITETEXT_IDENTIFIER_FONT s) (\<lambda>found s.
         bindR (if found then deserialize_font_properties st s
                else bindR (arena_strdup arial s) (\<lambda>p.
                       ok (st\<lparr>st_font := \<lparr>font_name = p, fi_size = 12, fi_weight = 400, fi_italic = 0,
                                          fi_charset = 0\<rparr>\<rparr>))) (\<lambda>st.
           section_of NMO_CKSPRITETEXT_IDENTIFIER_COLOR st_deserialize_colors st)))))"

text \<open>\<^verbatim>\<open>!name || name[0] == 0\<close>.\<close>

definition empty_name :: "u8 list option \<Rightarrow> bool" where
  "empty_name p = (case p of None \<Rightarrow> True | Some bs \<Rightarrow> hd bs = 0)"

definition ckspritetext_serialize_modern :: "nmo_ck_spritetext_state \<Rightarrow> chunk_cursor \<Rightarrow> unit cures" where
  "ckspritetext_serialize_modern st c =
     (let f = st_font st
      in if empty_name (font_name f) then fail NMO_ERR_VALIDATION_FAILED c
         else
           bindR (nmo_chunk_write_identifier NMO_CKSPRITETEXT_IDENTIFIER_TEXT c) (\<lambda>_ c.
           bindR (recode NMO_ERR_CANT_WRITE_FILE (write_name (text_content st) c)) (\<lambda>_ c.
           bindR (nmo_chunk_write_identifier NMO_CKSPRITETEXT_IDENTIFIER_FONT c) (\<lambda>_ c.
           bindR (recode NMO_ERR_CANT_WRITE_FILE (nmo_chunk_write_string (font_name f) c)) (\<lambda>_ c.
           bindR (nmo_chunk_write_int (fi_size f) c) (\<lambda>_ c.
           bindR (nmo_chunk_write_int (fi_weight f) c) (\<lambda>_ c.
           bindR (nmo_chunk_write_int (fi_italic f) c) (\<lambda>_ c.
           bindR (nmo_chunk_write_int (fi_charset f) c) (\<lambda>_ c.
           bindR (nmo_chunk_write_identifier NMO_CKSPRITETEXT_IDENTIFIER_COLOR c) (\<lambda>_ c.
           bindR (nmo_chunk_write_dword (font_color st) c) (\<lambda>_.
             nmo_chunk_write_dword (st_background_color st))))))))))))"

definition clamp_int32 :: "u32 \<Rightarrow> u32 \<Rightarrow> u32 \<Rightarrow> u32" where
  "clamp_int32 v lo hi = (if sint v < sint lo then lo else if sint v > sint hi then hi else v)"

text \<open>The check of the character set has no effect but a warning that is not there.\<close>

definition ckspritetext_finish_loading ::
  "nmo_ck_spritetext_state \<Rightarrow> arena \<Rightarrow> ((nmo_error_code + nmo_ck_spritetext_state) \<times> arena) eff" where
  "ckspritetext_finish_loading st a =
     (let f = st_font st;
          clamped = (\<lambda>p. st\<lparr>st_font := \<lparr>font_name = p,
                       fi_size = (if sint (fi_size f) < 6 \<or> sint (fi_size f) > 128
                                  then clamp_int32 (fi_size f) 6 128 else fi_size f),
                       fi_weight = (if sint (fi_weight f) < 100 \<or> sint (fi_weight f) > 900
                                    then clamp_int32 (fi_weight f) 100 900 else fi_weight f),
                       fi_italic = (if fi_italic f \<noteq> 0 \<and> fi_italic f \<noteq> 1 then 1 else fi_italic f),
                       fi_charset = fi_charset f\<rparr>, needs_redraw := False\<rparr>)
      in if empty_name (font_name f) then
           bindE (nmo_arena_alloc 6 1 a) (\<lambda>(q, a). case q of
             None \<Rightarrow> Done (Inl NMO_ERR_NOMEM, a)
           | Some _ \<Rightarrow> Done (Inr (clamped (Some arial)), a))
         else Done (Inr (clamped (font_name f)), a))"

section \<open>CKTexture\<close>

record nmo_texture_format =
  tf_width :: u32
  tf_height :: u32
  bits_per_pixel :: u32
  bytes_per_line :: u32
  image_size :: u32
  red_mask :: u32
  green_mask :: u32
  blue_mask :: u32
  alpha_mask :: u32

text \<open>The members that the functions use: mipmaps, options and flags are cleared and not touched.\<close>

record nmo_ck_texture_state =
  has_format :: bool
  tx_format :: nmo_texture_format
  has_palette :: bool
  palette_size :: u32
  palette :: "u32 list option"
  has_pixel_data :: bool
  pixel_data_size :: u32
  pixel_data :: "u8 list option"
  has_video_backup :: bool
  video_backup_size :: u32
  video_backup :: "u8 list option"
  has_file_path :: bool
  file_path :: "u8 list option"
  needs_mipmap_generation :: bool

definition NMO_CKTEXTURE_IDENTIFIER_PALETTE :: u32 where "NMO_CKTEXTURE_IDENTIFIER_PALETTE = 0x00200000"
definition NMO_CKTEXTURE_IDENTIFIER_SYSMEM :: u32 where "NMO_CKTEXTURE_IDENTIFIER_SYSMEM = 0x10000000"
definition NMO_CKTEXTURE_IDENTIFIER_VIDEOMEM :: u32 where "NMO_CKTEXTURE_IDENTIFIER_VIDEOMEM = 0x00800000"
definition NMO_CKTEXTURE_IDENTIFIER_FILEPATH :: u32 where "NMO_CKTEXTURE_IDENTIFIER_FILEPATH = 0x00400000"
definition NMO_CKTEXTURE_IDENTIFIER_FORMAT :: u32 where "NMO_CKTEXTURE_IDENTIFIER_FORMAT = 0x00040000"

definition is_valid_texture_format :: "nmo_texture_format \<Rightarrow> bool" where
  "is_valid_texture_format f =
     (if tf_width f = 0 \<or> tf_height f = 0 then False
      else if tf_width f > 16384 \<or> tf_height f > 16384 then False
      else if bits_per_pixel f \<noteq> 8 \<and> bits_per_pixel f \<noteq> 16 \<and> bits_per_pixel f \<noteq> 24 \<and> bits_per_pixel f \<noteq> 32 then False
      else let expected_size = bytes_per_line f * tf_height f
           in \<not> (image_size f > 0 \<and> image_size f < expected_size))"

definition zero_format :: nmo_texture_format where
  "zero_format = \<lparr>tf_width = 0, tf_height = 0, bits_per_pixel = 0, bytes_per_line = 0, image_size = 0,
     red_mask = 0, green_mask = 0, blue_mask = 0, alpha_mask = 0\<rparr>"

definition zero_texture :: nmo_ck_texture_state where
  "zero_texture = \<lparr>has_format = False, tx_format = zero_format, has_palette = False, palette_size = 0,
     palette = None, has_pixel_data = False, pixel_data_size = 0, pixel_data = None, has_video_backup = False,
     video_backup_size = 0, video_backup = None, has_file_path = False, file_path = None,
     needs_mipmap_generation = False\<rparr>"

definition deserialize_texture_format ::
  "nmo_ck_texture_state \<Rightarrow> chunk_cursor \<times> arena \<Rightarrow> nmo_ck_texture_state sres" where
  "deserialize_texture_format st s =
     bindR (get_format (read_dwords 5) s) (\<lambda>xs s.
     bindR (get (read_dwords 4) s) (\<lambda>ms.
       ok (st\<lparr>tx_format := \<lparr>tf_width = xs ! 0, tf_height = xs ! 1, bits_per_pixel = xs ! 2, bytes_per_line = xs ! 3,
                            image_size = xs ! 4, red_mask = ms ! 0, green_mask = ms ! 1, blue_mask = ms ! 2,
                            alpha_mask = ms ! 3\<rparr>, has_format := True\<rparr>)))"

definition deserialize_palette ::
  "nmo_ck_texture_state \<Rightarrow> chunk_cursor \<times> arena \<Rightarrow> nmo_ck_texture_state sres" where
  "deserialize_palette st s =
     bindR (get_format nmo_chunk_read_dword s) (\<lambda>n s.
     bindR (if n > 0 then
              bindR (alloc_in (sz_mul (unat n) 4) 4 s) (\<lambda>q s. case q of
                None \<Rightarrow> fail NMO_ERR_NOMEM s
              | Some _ \<Rightarrow> bindR (get_format (read_dwords (unat n)) s) (\<lambda>xs. ok (Some xs)))
            else ok None s) (\<lambda>p.
       ok (st\<lparr>palette_size := n, palette := p, has_palette := True\<rparr>)))"

text \<open>A length and then a block with a length of its own, which must be as long as the first says.\<close>

definition read_image_block :: "chunk_cursor \<times> arena \<Rightarrow> (u32 \<times> u8 list option) sres" where
  "read_image_block s =
     bindR (get_format nmo_chunk_read_dword s) (\<lambda>n s.
       if n > 0 then
         bindR (fill_bytes (unat n) s) (\<lambda>q s. case q of
           None \<Rightarrow> fail NMO_ERR_NOMEM s
         | Some (bytes_read, buf) \<Rightarrow>
             if bytes_read = unat n then ok (n, Some buf) s else fail NMO_ERR_INVALID_FORMAT s)
       else ok (n, None) s)"

definition deserialize_pixel_data ::
  "nmo_ck_texture_state \<Rightarrow> chunk_cursor \<times> arena \<Rightarrow> nmo_ck_texture_state sres" where
  "deserialize_pixel_data st s =
     bindR (read_image_block s) (\<lambda>(n, p). ok (st\<lparr>pixel_data_size := n, pixel_data := p, has_pixel_data := True\<rparr>))"

definition deserialize_video_backup ::
  "nmo_ck_texture_state \<Rightarrow> chunk_cursor \<times> arena \<Rightarrow> nmo_ck_texture_state sres" where
  "deserialize_video_backup st s =
     bindR (read_image_block s) (\<lambda>(n, p).
       ok (st\<lparr>video_backup_size := n, video_backup := p, has_video_backup := True\<rparr>))"

definition deserialize_file_path ::
  "nmo_ck_texture_state \<Rightarrow> chunk_cursor \<times> arena \<Rightarrow> nmo_ck_texture_state sres" where
  "deserialize_file_path st s = bindR (read_name s) (\<lambda>p. ok (st\<lparr>file_path := p, has_file_path := (p \<noteq> None)\<rparr>))"

definition cktexture_deserialize_modern :: "chunk_cursor \<times> arena \<Rightarrow> nmo_ck_texture_state sres" where
  "cktexture_deserialize_modern s =
     bindR (section_of NMO_CKTEXTURE_IDENTIFIER_FORMAT deserialize_texture_format zero_texture s) (\<lambda>st s.
     bindR (section_of NMO_CKTEXTURE_IDENTIFIER_PALETTE deserialize_palette st s) (\<lambda>st s.
     bindR (section_of NMO_CKTEXTURE_IDENTIFIER_SYSMEM deserialize_pixel_data st s) (\<lambda>st s.
     bindR (section_of NMO_CKTEXTURE_IDENTIFIER_VIDEOMEM deserialize_video_backup st s) (\<lambda>st.
       section_of NMO_CKTEXTURE_IDENTIFIER_FILEPATH deserialize_file_path st))))"

definition write_format :: "nmo_texture_format \<Rightarrow> chunk_cursor \<Rightarrow> unit cures" where
  "write_format f c =
     bindR (nmo_chunk_write_identifier NMO_CKTEXTURE_IDENTIFIER_FORMAT c) (\<lambda>_.
       write_dword_list [tf_width f, tf_height f, bits_per_pixel f, bytes_per_line f, image_size f,
                         red_mask f, green_mask f, blue_mask f, alpha_mask f])"

definition write_palette :: "u32 \<Rightarrow> u32 list option \<Rightarrow> chunk_cursor \<Rightarrow> unit cures" where
  "write_palette n p c =
     bindR (nmo_chunk_write_identifier NMO_CKTEXTURE_IDENTIFIER_PALETTE c) (\<lambda>_ c.
     bindR (nmo_chunk_write_dword n c) (\<lambda>_.
       write_each nmo_chunk_write_dword (case p of None \<Rightarrow> [] | Some xs \<Rightarrow> xs) (unat n)))"

definition write_image_block :: "u32 \<Rightarrow> u32 \<Rightarrow> u8 list option \<Rightarrow> chunk_cursor \<Rightarrow> unit cures" where
  "write_image_block ident n p c =
     bindR (nmo_chunk_write_identifier ident c) (\<lambda>_ c.
     bindR (nmo_chunk_write_dword n c) (\<lambda>_. nmo_chunk_write_buffer p (unat n)))"

definition cktexture_serialize_modern :: "nmo_ck_texture_state \<Rightarrow> chunk_cursor \<Rightarrow> unit cures" where
  "cktexture_serialize_modern st c =
     bindR (if has_format st then write_format (tx_format st) c else ok () c) (\<lambda>_ c.
     bindR (if has_palette st \<and> palette_size st > 0 then write_palette (palette_size st) (palette st) c
            else ok () c) (\<lambda>_ c.
     bindR (if has_pixel_data st \<and> pixel_data_size st > 0
            then write_image_block NMO_CKTEXTURE_IDENTIFIER_SYSMEM (pixel_data_size st) (pixel_data st) c
            else ok () c) (\<lambda>_ c.
     bindR (if has_video_backup st \<and> video_backup_size st > 0
            then write_image_block NMO_CKTEXTURE_IDENTIFIER_VIDEOMEM (video_backup_size st) (video_backup st) c
            else ok () c) (\<lambda>_ c.
       if has_file_path st \<and> file_path st \<noteq> None then
         bindR (nmo_chunk_write_identifier NMO_CKTEXTURE_IDENTIFIER_FILEPATH c) (\<lambda>_.
           nmo_chunk_write_string (file_path st))
       else ok () c))))"

definition cktexture_finish_loading :: "nmo_ck_texture_state \<Rightarrow> nmo_error_code + nmo_ck_texture_state" where
  "cktexture_finish_loading st =
     (if has_format st \<and> \<not> is_valid_texture_format (tx_format st) then Inl NMO_ERR_VALIDATION_FAILED
      else Inr (st\<lparr>needs_mipmap_generation := False\<rparr>))"

end
