(* ===== verification/BeObjectStates.thy ===== *)
theory BeObjectStates
  imports StateIO ChunkSubWrite
begin

text \<open>
  The state readers and writers of the classes that carry behaviours: \<^verbatim>\<open>ckbeobject_schemas.c\<close>,
  \<^verbatim>\<open>ckgroup_schemas.c\<close> and \<^verbatim>\<open>cklevel_schemas.c\<close>.
\<close>

section \<open>Arrays that may be cut off\<close>

text \<open>
  \<^verbatim>\<open>for (i = 0; i < n; i++) { if (read(&array[i]) fails) break; }\<close> into an array of \<open>slots\<close> elements:
  the elements that were read.
\<close>

fun read_until :: "(chunk_cursor \<Rightarrow> 'a cures) \<Rightarrow> nat \<Rightarrow> nat \<Rightarrow> chunk_cursor \<times> arena \<Rightarrow> 'a list sres" where
  "read_until rd slots n s =
     (if n = 0 then ok [] s
      else bindR (try_get rd s) (\<lambda>r s. case r of
             None \<Rightarrow> ok [] s
           | Some v \<Rightarrow>
               if slots = 0 then Undefined
               else bindR (read_until rd (slots - 1) (n - 1) s) (\<lambda>vs. ok (v # vs))))"

declare read_until.simps [simp del]

text \<open>
  An array of words with its memory: \<open>None\<close> without memory, else the words read and the array, which
  keeps what its memory held behind them.
\<close>

definition read_words_into ::
  "(chunk_cursor \<Rightarrow> u32 cures) \<Rightarrow> nat \<Rightarrow> chunk_cursor \<times> arena \<Rightarrow> (u32 list \<times> u32 list) option sres" where
  "read_words_into rd n s =
     bindR (alloc_in (sz_mul n 4) 4 s) (\<lambda>q (c, a). case q of
       None \<Rightarrow> ok None (c, a)
     | Some rg \<Rightarrow>
         bindR (read_until rd (region_room a rg div 4) n (c, a)) (\<lambda>vs.
           ok (Some (vs, vs @ drop (length vs) (fresh_dwords rg a n)))))"

text \<open>The ids of a counted array with its count, and what is written of them.\<close>

record id_array =
  ida_ids :: "u32 list option"
  ida_count :: u32

definition no_ids :: id_array where
  "no_ids = \<lparr>ida_ids = None, ida_count = 0\<rparr>"

definition write_ids :: "id_array \<Rightarrow> chunk_cursor \<Rightarrow> unit cures" where
  "write_ids x = write_each nmo_chunk_write_object_id (case ida_ids x of None \<Rightarrow> [] | Some vs \<Rightarrow> vs) (unat (ida_count x))"

section \<open>CKBeObject\<close>

record nmo_ckbeobject_state =
  be_base :: nmo_cksceneobject_state
  scripts :: id_array
  be_priority :: u32
  attribute_parameter_ids :: "u32 list option"
  attribute_types :: "u32 list option"
  attribute_count :: u32

definition CK_STATESAVE_SCRIPTS :: u32 where "CK_STATESAVE_SCRIPTS = 0x00000003"
definition CK_STATESAVE_DATAS :: u32 where "CK_STATESAVE_DATAS = 0x00000004"
definition CK_STATESAVE_NEWATTRIBUTES :: u32 where "CK_STATESAVE_NEWATTRIBUTES = 0x00000010"
definition CK_DATAS_VERSION_FLAG :: u32 where "CK_DATAS_VERSION_FLAG = 0x10000000"

definition attribute_manager_guid :: nmo_guid where
  "attribute_manager_guid = \<lparr>d1 = 0x6BED328B, d2 = 0x141F5148\<rparr>"

text \<open>A failure in one of the parts leaves the part as far as it came and goes on with the next.\<close>

definition read_scripts :: "chunk_cursor \<times> arena \<Rightarrow> id_array sres" where
  "read_scripts s =
     bindR (seek CK_STATESAVE_SCRIPTS s) (\<lambda>found s.
       if \<not> found then ok no_ids s
       else bindR (try_get nmo_chunk_read_dword s) (\<lambda>r s. case r of
         None \<Rightarrow> ok no_ids s
       | Some n \<Rightarrow>
           if n = 0 \<or> n > 10000 then ok no_ids s
           else bindR (read_words_into nmo_chunk_read_object_id (unat n) s) (\<lambda>q. case q of
             None \<Rightarrow> ok no_ids
           | Some (vs, arr) \<Rightarrow> ok \<lparr>ida_ids = Some arr, ida_count = of_nat (length vs)\<rparr>)))"

definition read_priority :: "chunk_cursor \<times> arena \<Rightarrow> u32 sres" where
  "read_priority s =
     bindR (seek CK_STATESAVE_DATAS s) (\<lambda>found s.
       if \<not> found then ok 0 s
       else bindR (try_get nmo_chunk_read_dword s) (\<lambda>r s. case r of
         None \<Rightarrow> ok 0 s
       | Some flag \<Rightarrow>
           if flag AND CK_DATAS_VERSION_FLAG \<noteq> 0
           then bindR (try_get nmo_chunk_read_int s) (\<lambda>p. ok (case p of None \<Rightarrow> 0 | Some x \<Rightarrow> x))
           else ok 0 s))"

text \<open>The two arrays and the count.\<close>

definition read_attribute_types ::
  "nat \<Rightarrow> u32 list \<Rightarrow> region \<Rightarrow> u32 list \<Rightarrow> u32 \<Rightarrow> chunk_cursor \<times> arena
     \<Rightarrow> (u32 list option \<times> u32 list option \<times> u32) sres" where
  "read_attribute_types n ids rg types count s =
     bindR (try_get nmo_chunk_start_manager_read_sequence s) (\<lambda>r (c, a). case r of
       None \<Rightarrow> ok (Some ids, Some types, count) (c, a)
     | Some (guid, seq_count) \<Rightarrow>
         if seq_count = n \<and> guid = attribute_manager_guid then
           bindR (read_until nmo_chunk_read_dword (region_room a rg div 4) n (c, a)) (\<lambda>ts.
             ok (Some ids, Some (ts @ drop (length ts) types), of_nat (length ts)))
         else ok (Some ids, Some types, count) (c, a))"

definition read_attributes :: "chunk_cursor \<times> arena \<Rightarrow> (u32 list option \<times> u32 list option \<times> u32) sres" where
  "read_attributes s =
     bindR (seek CK_STATESAVE_NEWATTRIBUTES s) (\<lambda>found s.
       if \<not> found then ok (None, None, 0) s
       else bindR (try_get nmo_chunk_read_object_sequence_start s) (\<lambda>r s. case r of
         None \<Rightarrow> ok (None, None, 0) s
       | Some n \<Rightarrow>
           if n = 0 then ok (None, None, 0) s
           else bindR (alloc_in (sz_mul n 4) 4 s) (\<lambda>q (c, a).
             let ids0 = (case q of None \<Rightarrow> [] | Some rg \<Rightarrow> fresh_dwords rg a n);
                 slots = (case q of None \<Rightarrow> 0 | Some rg \<Rightarrow> region_room a rg div 4)
             in bindR (alloc_in (sz_mul n 4) 4 (c, a)) (\<lambda>p (c, a). case (q, p) of
               (Some _, Some rg) \<Rightarrow>
                 bindR (read_until nmo_chunk_read_object_id slots n (c, a)) (\<lambda>vs.
                   read_attribute_types n (vs @ drop (length vs) ids0) rg (fresh_dwords rg a n)
                     (if length vs < n then of_nat (length vs) else 0))
             | _ \<Rightarrow> ok (None, None, 0) (c, a)))))"

definition nmo_ckbeobject_deserialize :: "chunk_cursor \<times> arena \<Rightarrow> nmo_ckbeobject_state sres" where
  "nmo_ckbeobject_deserialize s =
     bindR (nmo_cksceneobject_deserialize s) (\<lambda>base s.
     bindR (read_scripts s) (\<lambda>sc s.
     bindR (read_priority s) (\<lambda>p s.
     bindR (read_attributes s) (\<lambda>(ids, types, n).
       ok \<lparr>be_base = base, scripts = sc, be_priority = p, attribute_parameter_ids = ids, attribute_types = types,
           attribute_count = n\<rparr>))))"

definition nmo_ckbeobject_serialize :: "nmo_ckbeobject_state \<Rightarrow> chunk_cursor \<Rightarrow> unit cures" where
  "nmo_ckbeobject_serialize st c =
     bindR (nmo_cksceneobject_serialize (be_base st) c) (\<lambda>_ c.
     bindR (if ida_count (scripts st) > 0 \<and> ida_ids (scripts st) \<noteq> None then
              bindR (nmo_chunk_write_identifier CK_STATESAVE_SCRIPTS c) (\<lambda>_ c.
              bindR (nmo_chunk_write_dword (ida_count (scripts st)) c) (\<lambda>_. write_ids (scripts st)))
            else ok () c) (\<lambda>_ c.
     bindR (if be_priority st \<noteq> 0 then
              bindR (nmo_chunk_write_identifier CK_STATESAVE_DATAS c) (\<lambda>_ c.
              bindR (nmo_chunk_write_dword CK_DATAS_VERSION_FLAG c) (\<lambda>_. nmo_chunk_write_int (be_priority st)))
            else ok () c) (\<lambda>_ c.
       case (attribute_parameter_ids st, attribute_types st) of
         (Some ids, Some types) \<Rightarrow>
           if attribute_count st > 0 then
             bindR (nmo_chunk_write_identifier CK_STATESAVE_NEWATTRIBUTES c) (\<lambda>_ c.
             bindR (nmo_chunk_write_dword (attribute_count st) c) (\<lambda>_ c.
             bindR (write_each nmo_chunk_write_object_id ids (unat (attribute_count st)) c) (\<lambda>_ c.
             bindR (nmo_chunk_start_manager_sequence attribute_manager_guid (unat (attribute_count st)) c) (\<lambda>_.
               write_each nmo_chunk_write_dword types (unat (attribute_count st))))))
           else ok () c
       | _ \<Rightarrow> ok () c)))"

section \<open>CKGroup\<close>

record nmo_ckgroup_state =
  gr_base :: nmo_ckbeobject_state
  gr_objects :: id_array

definition CK_STATESAVE_GROUPALL :: u32 where "CK_STATESAVE_GROUPALL = 0x00000001"

text \<open>A counted array with a limit, as groups, levels and behaviours read it.\<close>

definition read_limited_ids :: "u32 \<Rightarrow> u32 \<Rightarrow> chunk_cursor \<times> arena \<Rightarrow> id_array sres" where
  "read_limited_ids limit count s =
     (if sint count > 0 then
        if count > limit then fail NMO_ERR_VALIDATION_FAILED s
        else bindR (read_words_into nmo_chunk_read_object_id (unat count) s) (\<lambda>q. case q of
          None \<Rightarrow> fail NMO_ERR_NOMEM
        | Some (vs, arr) \<Rightarrow> ok \<lparr>ida_ids = Some arr, ida_count = of_nat (length vs)\<rparr>)
      else ok no_ids s)"

definition nmo_ckgroup_deserialize :: "chunk_cursor \<times> arena \<Rightarrow> nmo_ckgroup_state sres" where
  "nmo_ckgroup_deserialize s =
     bindR (nmo_ckbeobject_deserialize s) (\<lambda>base s.
     bindR (seek CK_STATESAVE_GROUPALL s) (\<lambda>found s.
       if \<not> found then ok \<lparr>gr_base = base, gr_objects = no_ids\<rparr> s
       else bindR (get nmo_chunk_read_int s) (\<lambda>count s.
            bindR (read_limited_ids 100000 count s) (\<lambda>x. ok \<lparr>gr_base = base, gr_objects = x\<rparr>))))"

definition nmo_ckgroup_serialize :: "nmo_ckgroup_state \<Rightarrow> chunk_cursor \<Rightarrow> unit cures" where
  "nmo_ckgroup_serialize st c =
     bindR (nmo_ckbeobject_serialize (gr_base st) c) (\<lambda>_ c.
       if ida_count (gr_objects st) = 0 \<or> ida_ids (gr_objects st) = None then ok () c
       else bindR (nmo_chunk_write_identifier CK_STATESAVE_GROUPALL c) (\<lambda>_ c.
            bindR (nmo_chunk_write_int (ida_count (gr_objects st)) c) (\<lambda>_. write_ids (gr_objects st))))"

section \<open>CKLevel\<close>

text \<open>The names are the entries that were read, as the memory behind their pointers.\<close>

record nmo_cklevel_state =
  lv_base :: nmo_ckbeobject_state
  lv_scenes :: id_array
  current_scene_id :: u32
  level_scene_id :: u32
  level_scene_chunk :: "nmo_chunk option"
  inactive_manager_guids :: "nmo_guid list option"
  inactive_manager_count :: u32
  duplicate_manager_names :: "u8 list option list option"
  duplicate_manager_count :: u32

definition CK_STATESAVE_LEVELDEFAULTDATA :: u32 where "CK_STATESAVE_LEVELDEFAULTDATA = 0x00000001"
definition CK_STATESAVE_LEVELSCENE :: u32 where "CK_STATESAVE_LEVELSCENE = 0x00000002"
definition CK_STATESAVE_LEVELINACTIVEMAN :: u32 where "CK_STATESAVE_LEVELINACTIVEMAN = 0x00000004"
definition CK_STATESAVE_LEVELDUPLICATEMAN :: u32 where "CK_STATESAVE_LEVELDUPLICATEMAN = 0x00000008"

definition get_string :: "chunk_cursor \<times> arena \<Rightarrow> (nat \<times> u8 list option) sres" where
  "get_string = (\<lambda>(c, a). bindE (nmo_chunk_read_string c) (\<lambda>(r, c). ok r (c, a)))"

text \<open>How many reads succeed in a row, up to one more than a thousand.\<close>

fun count_until :: "(chunk_cursor \<times> arena \<Rightarrow> bool sres) \<Rightarrow> nat \<Rightarrow> chunk_cursor \<times> arena \<Rightarrow> nat sres" where
  "count_until rd 0 s = ok 0 s"
| "count_until rd (Suc k) s =
     bindR (rd s) (\<lambda>found s. if found then bindR (count_until rd k s) (\<lambda>n. ok (Suc n)) else ok 0 s)"

definition next_guid :: "chunk_cursor \<times> arena \<Rightarrow> bool sres" where
  "next_guid s = bindR (try_get nmo_chunk_read_guid s) (\<lambda>r. ok (r \<noteq> None))"

definition next_name :: "chunk_cursor \<times> arena \<Rightarrow> bool sres" where
  "next_name s = bindR (get_string s) (\<lambda>(len, p). ok (len \<noteq> 0 \<and> p \<noteq> None))"

fun guids_of :: "u32 list \<Rightarrow> nmo_guid list" where
  "guids_of (x # y # xs) = \<lparr>d1 = x, d2 = y\<rparr> # guids_of xs"
| "guids_of _ = []"

definition read_inactive_managers :: "chunk_cursor \<times> arena \<Rightarrow> (nmo_guid list option \<times> u32) sres" where
  "read_inactive_managers = (\<lambda>(c, a).
     let start_pos = nmo_chunk_get_position c
     in bindR (count_until next_guid 1001 (c, a)) (\<lambda>n s.
          if n = 0 then ok (None, 0) s
          else bindR (alloc_in (sz_mul n 8) 4 s) (\<lambda>q s. case q of
            None \<Rightarrow> fail NMO_ERR_NOMEM s
          | Some rg \<Rightarrow>
              bindR (get (nmo_chunk_goto start_pos) s) (\<lambda>_ (c, a).
              bindR (read_until nmo_chunk_read_guid (region_room a rg div 8) n (c, a)) (\<lambda>gs.
                ok (Some (gs @ drop (length gs) (guids_of (fresh_dwords rg a (2 * n)))), of_nat (length gs)))))))"

fun read_names :: "nat \<Rightarrow> nat \<Rightarrow> chunk_cursor \<times> arena \<Rightarrow> u8 list option list sres" where
  "read_names slots 0 s = ok [] s"
| "read_names slots (Suc n) s =
     bindR (get_string s) (\<lambda>(len, p) s.
       if slots = 0 then Undefined
       else if len = 0 \<or> p = None then ok [] s
       else bindR (read_names (slots - 1) n s) (\<lambda>ps. ok (p # ps)))"

definition read_duplicate_managers :: "chunk_cursor \<times> arena \<Rightarrow> (u8 list option list option \<times> u32) sres" where
  "read_duplicate_managers = (\<lambda>(c, a).
     let start_pos = nmo_chunk_get_position c
     in bindR (count_until next_name 1001 (c, a)) (\<lambda>n s.
          if n = 0 then ok (None, 0) s
          else bindR (alloc_in (sz_mul n 8) 8 s) (\<lambda>q s. case q of
            None \<Rightarrow> fail NMO_ERR_NOMEM s
          | Some rg \<Rightarrow>
              bindR (get (nmo_chunk_goto start_pos) s) (\<lambda>_ (c, a).
              bindR (read_names (region_room a rg div 8) n (c, a)) (\<lambda>ps.
                ok (Some ps, of_nat (length ps)))))))"

definition nmo_cklevel_deserialize :: "chunk_cursor \<times> arena \<Rightarrow> nmo_cklevel_state sres" where
  "nmo_cklevel_deserialize s =
     bindR (nmo_ckbeobject_deserialize s) (\<lambda>base s.
     bindR (seek CK_STATESAVE_LEVELDEFAULTDATA s) (\<lambda>found s.
     bindR (if found then
              bindR (get nmo_chunk_read_int s) (\<lambda>_ s. bindR (get nmo_chunk_read_int s) (\<lambda>_ s.
              bindR (get nmo_chunk_read_int s) (\<lambda>count. read_limited_ids 10000 count)))
            else ok no_ids s) (\<lambda>scenes s.
     bindR (seek CK_STATESAVE_LEVELSCENE s) (\<lambda>found s.
     bindR (if found then
              bindR (get nmo_chunk_read_object_id s) (\<lambda>x s. bindR (get nmo_chunk_read_object_id s) (\<lambda>y s.
              bindR (try_get nmo_chunk_read_sub_chunk s) (\<lambda>sub. ok (x, y, sub))))
            else ok (0, 0, None) s) (\<lambda>(x, y, sub) s.
     bindR (seek CK_STATESAVE_LEVELINACTIVEMAN s) (\<lambda>found s.
     bindR (if found then
              bindR (read_inactive_managers s) (\<lambda>(gs, n) s.
              bindR (seek CK_STATESAVE_LEVELDUPLICATEMAN s) (\<lambda>found s.
              bindR (if found then read_duplicate_managers s else ok (None, 0) s) (\<lambda>(ps, m). ok (gs, n, ps, m))))
            else ok (None, 0, None, 0) s) (\<lambda>(gs, n, ps, m).
       ok \<lparr>lv_base = base, lv_scenes = scenes, current_scene_id = x, level_scene_id = y, level_scene_chunk = sub,
           inactive_manager_guids = gs, inactive_manager_count = n, duplicate_manager_names = ps,
           duplicate_manager_count = m\<rparr>)))))))"

definition nmo_cklevel_serialize :: "u8 list \<Rightarrow> nmo_cklevel_state \<Rightarrow> chunk_cursor \<Rightarrow> unit cures" where
  "nmo_cklevel_serialize pointer_bytes st c =
     bindR (nmo_ckbeobject_serialize (lv_base st) c) (\<lambda>_ c.
     bindR (nmo_chunk_write_identifier CK_STATESAVE_LEVELDEFAULTDATA c) (\<lambda>_ c.
     bindR (nmo_chunk_write_int 0 c) (\<lambda>_ c. bindR (nmo_chunk_write_int 0 c) (\<lambda>_ c.
     bindR (nmo_chunk_write_int (ida_count (lv_scenes st)) c) (\<lambda>_ c.
     bindR (write_ids (lv_scenes st) c) (\<lambda>_ c.
     bindR (nmo_chunk_write_identifier CK_STATESAVE_LEVELSCENE c) (\<lambda>_ c.
     bindR (nmo_chunk_write_object_id (current_scene_id st) c) (\<lambda>_ c.
     bindR (nmo_chunk_write_object_id (level_scene_id st) c) (\<lambda>_ c.
     bindR (if level_scene_chunk st \<noteq> None
            then nmo_chunk_write_sub_chunk pointer_bytes (level_scene_chunk st) c else ok () c) (\<lambda>_ c.
       case inactive_manager_guids st of
         None \<Rightarrow> ok () c
       | Some gs \<Rightarrow>
           if inactive_manager_count st > 0 then
             bindR (nmo_chunk_write_identifier CK_STATESAVE_LEVELINACTIVEMAN c) (\<lambda>_ c.
             bindR (write_each nmo_chunk_write_guid gs (unat (inactive_manager_count st)) c) (\<lambda>_ c.
               case duplicate_manager_names st of
                 None \<Rightarrow> ok () c
               | Some ps \<Rightarrow>
                   if duplicate_manager_count st > 0 then
                     bindR (nmo_chunk_write_identifier CK_STATESAVE_LEVELDUPLICATEMAN c) (\<lambda>_ c.
                     bindR (write_each nmo_chunk_write_string ps (unat (duplicate_manager_count st)) c) (\<lambda>_.
                       nmo_chunk_write_string None))
                   else ok () c))
           else ok () c))))))))))"

end
