(* ===== verification/SceneStates.thy ===== *)
theory SceneStates
  imports BeObjectStates
begin

text \<open>The state readers and writers of \<^verbatim>\<open>ckscene_schemas.c\<close> and \<^verbatim>\<open>ckbehavior_schemas.c\<close>.\<close>

section \<open>CKScene\<close>

record nmo_scene_object_desc =
  sd_object_id :: u32
  sd_initial_value :: "nmo_chunk option"
  sd_flags :: u32

record nmo_ckscene_state =
  sc_base :: nmo_ckbeobject_state
  level_id :: u32
  object_descs :: "nmo_scene_object_desc list option"
  object_count :: u32
  environment_settings :: u32
  background_color :: u32
  ambient_light_color :: u32
  fog_mode :: u32
  fog_color :: u32
  fog_start :: f32
  fog_end :: f32
  fog_density :: f32
  background_texture_id :: u32
  starting_camera_id :: u32

definition CK_STATESAVE_SCENENEWDATA :: u32 where "CK_STATESAVE_SCENENEWDATA = 0x00000001"
definition CK_STATESAVE_SCENELAUNCHED :: u32 where "CK_STATESAVE_SCENELAUNCHED = 0x00000002"
definition CK_STATESAVE_SCENERENDERSETTINGS :: u32 where "CK_STATESAVE_SCENERENDERSETTINGS = 0x00000004"

definition zero_scene :: "nmo_ckbeobject_state \<Rightarrow> nmo_ckscene_state" where
  "zero_scene b = \<lparr>sc_base = b, level_id = 0, object_descs = None, object_count = 0, environment_settings = 0,
     background_color = 0, ambient_light_color = 0, fog_mode = 0, fog_color = 0, fog_start = 0, fog_end = 0,
     fog_density = 0, background_texture_id = 0, starting_camera_id = 0\<rparr>"

text \<open>
  With objects announced, the array is allocated and cleared and \<^verbatim>\<open>nmo_chunk_read_object_sequence_start\<close>
  is called with NULL for the count, which it refuses: what stands behind that call is not reached.
\<close>

definition sc_read_new_data :: "nmo_ckscene_state \<Rightarrow> chunk_cursor \<times> arena \<Rightarrow> nmo_ckscene_state sres" where
  "sc_read_new_data st s =
     bindR (get nmo_chunk_read_object_id s) (\<lambda>level s.
     bindR (get nmo_chunk_read_int s) (\<lambda>count s.
       if sint count > 0 then
         if count > 100000 then fail NMO_ERR_VALIDATION_FAILED s
         else bindR (alloc_in (sz_mul (unat count) 24) 8 s) (\<lambda>q s. case q of
           None \<Rightarrow> fail NMO_ERR_NOMEM s
         | Some _ \<Rightarrow> fail NMO_ERR_INVALID_ARGUMENT s)
       else ok (st\<lparr>level_id := level\<rparr>) s))"

definition sc_read_launched :: "nmo_ckscene_state \<Rightarrow> chunk_cursor \<times> arena \<Rightarrow> nmo_ckscene_state sres" where
  "sc_read_launched st s =
     bindR (try_get nmo_chunk_read_dword s) (\<lambda>r. ok (st\<lparr>environment_settings := (case r of None \<Rightarrow> 0 | Some x \<Rightarrow> x)\<rparr>))"

definition sc_read_settings :: "nmo_ckscene_state \<Rightarrow> chunk_cursor \<times> arena \<Rightarrow> nmo_ckscene_state sres" where
  "sc_read_settings st s =
     bindR (get nmo_chunk_read_dword s) (\<lambda>bg s. bindR (get nmo_chunk_read_dword s) (\<lambda>amb s.
     bindR (get nmo_chunk_read_dword s) (\<lambda>mode s. bindR (get nmo_chunk_read_dword s) (\<lambda>fog s.
     bindR (get nmo_chunk_read_float s) (\<lambda>x s. bindR (get nmo_chunk_read_float s) (\<lambda>y s.
     bindR (get nmo_chunk_read_float s) (\<lambda>z s. bindR (get nmo_chunk_read_object_id s) (\<lambda>tex s.
     bindR (get nmo_chunk_read_object_id s) (\<lambda>cam.
       ok (st\<lparr>background_color := bg, ambient_light_color := amb, fog_mode := mode, fog_color := fog,
              fog_start := x, fog_end := y, fog_density := z, background_texture_id := tex,
              starting_camera_id := cam\<rparr>))))))))))"

definition nmo_ckscene_deserialize :: "chunk_cursor \<times> arena \<Rightarrow> nmo_ckscene_state sres" where
  "nmo_ckscene_deserialize s =
     bindR (nmo_ckbeobject_deserialize s) (\<lambda>base s.
     bindR (section_of CK_STATESAVE_SCENENEWDATA sc_read_new_data (zero_scene base) s) (\<lambda>st s.
     bindR (section_of CK_STATESAVE_SCENELAUNCHED sc_read_launched st s) (\<lambda>st.
       section_of CK_STATESAVE_SCENERENDERSETTINGS sc_read_settings st)))"

definition write_desc :: "u8 list \<Rightarrow> nmo_scene_object_desc \<Rightarrow> chunk_cursor \<Rightarrow> unit cures" where
  "write_desc pointer_bytes d c =
     bindR (nmo_chunk_write_sub_chunk pointer_bytes (sd_initial_value d) c) (\<lambda>_.
       nmo_chunk_write_sub_chunk pointer_bytes None)"

definition nmo_ckscene_serialize :: "u8 list \<Rightarrow> nmo_ckscene_state \<Rightarrow> chunk_cursor \<Rightarrow> unit cures" where
  "nmo_ckscene_serialize pointer_bytes st c =
     (let n = unat (object_count st); ds = (case object_descs st of None \<Rightarrow> [] | Some ds \<Rightarrow> ds)
      in bindR (nmo_ckbeobject_serialize (sc_base st) c) (\<lambda>_ c.
         bindR (nmo_chunk_write_identifier CK_STATESAVE_SCENENEWDATA c) (\<lambda>_ c.
         bindR (nmo_chunk_write_object_id (level_id st) c) (\<lambda>_ c.
         bindR (nmo_chunk_write_int (object_count st) c) (\<lambda>_ c.
         bindR (if object_count st > 0 then
                  bindR (nmo_chunk_write_object_sequence_start n c) (\<lambda>_ c.
                  bindR (write_each (\<lambda>d. nmo_chunk_write_object_id (sd_object_id d)) ds n c) (\<lambda>_ c.
                  bindR (nmo_chunk_start_sub_chunk_sequence (unat (object_count st * 2)) c) (\<lambda>_ c.
                  bindR (write_each (write_desc pointer_bytes) ds n c) (\<lambda>_.
                    write_each (\<lambda>d. nmo_chunk_write_dword (sd_flags d)) ds n))))
                else ok () c) (\<lambda>_ c.
         bindR (nmo_chunk_write_identifier CK_STATESAVE_SCENELAUNCHED c) (\<lambda>_ c.
         bindR (nmo_chunk_write_dword (environment_settings st) c) (\<lambda>_ c.
         bindR (nmo_chunk_write_identifier CK_STATESAVE_SCENERENDERSETTINGS c) (\<lambda>_ c.
         bindR (write_dword_list [background_color st, ambient_light_color st, fog_mode st, fog_color st] c) (\<lambda>_ c.
         bindR (write_floats [fog_start st, fog_end st, fog_density st] c) (\<lambda>_ c.
         bindR (nmo_chunk_write_object_id (background_texture_id st) c) (\<lambda>_.
           nmo_chunk_write_object_id (starting_camera_id st)))))))))))))"

section \<open>CKBehavior\<close>

record nmo_ckbehavior_state =
  bh_base :: nmo_cksceneobject_state
  bh_flags :: u32
  bh_priority :: u32
  compatible_class_id :: u32
  block_guid :: nmo_guid
  block_version :: u32
  target_parameter_id :: u32
  sub_behaviors :: id_array
  sub_behavior_links :: id_array
  operations :: id_array
  in_parameters :: id_array
  out_parameters :: id_array
  local_parameters :: id_array
  bh_inputs :: id_array
  bh_outputs :: id_array
  single_activity_flags :: u32
  has_single_activity :: bool
  interface_chunk :: "nmo_chunk option"

definition CK_STATESAVE_BEHAVIORINTERFACE :: u32 where "CK_STATESAVE_BEHAVIORINTERFACE = 0x00000001"
definition CK_STATESAVE_BEHAVIORNEWDATA :: u32 where "CK_STATESAVE_BEHAVIORNEWDATA = 0x00000002"
definition CK_STATESAVE_BEHAVIORSINGLEACTIVITY :: u32 where "CK_STATESAVE_BEHAVIORSINGLEACTIVITY = 0x00000004"
definition CK_STATESAVE_BEHAVIORSUBBEHAV :: u32 where "CK_STATESAVE_BEHAVIORSUBBEHAV = 0x00000001"
definition CK_STATESAVE_BEHAVIORSUBLINKS :: u32 where "CK_STATESAVE_BEHAVIORSUBLINKS = 0x00000002"
definition CK_STATESAVE_BEHAVIOROPERATIONS :: u32 where "CK_STATESAVE_BEHAVIOROPERATIONS = 0x00000004"
definition CK_STATESAVE_BEHAVIORINPARAMS :: u32 where "CK_STATESAVE_BEHAVIORINPARAMS = 0x00000008"
definition CK_STATESAVE_BEHAVIOROUTPARAMS :: u32 where "CK_STATESAVE_BEHAVIOROUTPARAMS = 0x00000010"
definition CK_STATESAVE_BEHAVIORLOCALPARAMS :: u32 where "CK_STATESAVE_BEHAVIORLOCALPARAMS = 0x00000020"
definition CK_STATESAVE_BEHAVIORINPUTS :: u32 where "CK_STATESAVE_BEHAVIORINPUTS = 0x00000040"
definition CK_STATESAVE_BEHAVIOROUTPUTS :: u32 where "CK_STATESAVE_BEHAVIOROUTPUTS = 0x00000080"
definition CKBEHAVIOR_BUILDINGBLOCK :: u32 where "CKBEHAVIOR_BUILDINGBLOCK = 0x00000001"
definition CKBEHAVIOR_PRIORITY :: u32 where "CKBEHAVIOR_PRIORITY = 0x00000100"
definition CKBEHAVIOR_COMPATIBLECLASSID :: u32 where "CKBEHAVIOR_COMPATIBLECLASSID = 0x00000200"
definition CKBEHAVIOR_TARGETABLE :: u32 where "CKBEHAVIOR_TARGETABLE = 0x00000400"

text \<open>\<^verbatim>\<open>read_object_array\<close> behind the flag that announces it.\<close>

definition read_object_array :: "chunk_cursor \<times> arena \<Rightarrow> id_array sres" where
  "read_object_array s = bindR (get nmo_chunk_read_int s) (read_limited_ids 100000)"

definition write_object_array :: "id_array \<Rightarrow> chunk_cursor \<Rightarrow> unit cures" where
  "write_object_array x c = bindR (nmo_chunk_write_int (ida_count x) c) (\<lambda>_. write_ids x)"

definition read_if :: "bool \<Rightarrow> (chunk_cursor \<times> arena \<Rightarrow> 'a sres) \<Rightarrow> 'a \<Rightarrow> chunk_cursor \<times> arena \<Rightarrow> 'a sres" where
  "read_if b f x s = (if b then f s else ok x s)"

definition nmo_ckbehavior_deserialize :: "chunk_cursor \<times> arena \<Rightarrow> nmo_ckbehavior_state sres" where
  "nmo_ckbehavior_deserialize s =
     bindR (nmo_cksceneobject_deserialize s) (\<lambda>base s.
     bindR (seek CK_STATESAVE_BEHAVIORINTERFACE s) (\<lambda>found s.
     bindR (read_if found (try_get nmo_chunk_read_sub_chunk) None s) (\<lambda>iface s.
     bindR (seek CK_STATESAVE_BEHAVIORNEWDATA s) (\<lambda>found s.
       if \<not> found then fail NMO_ERR_VALIDATION_FAILED s else
     bindR (get nmo_chunk_read_dword s) (\<lambda>flags s.
     bindR (read_if (flags AND CKBEHAVIOR_BUILDINGBLOCK \<noteq> 0)
              (\<lambda>s. bindR (get nmo_chunk_read_guid s) (\<lambda>g s. bindR (get nmo_chunk_read_dword s) (\<lambda>v. ok (g, v))))
              (\<lparr>d1 = 0, d2 = 0\<rparr>, 0) s) (\<lambda>(guid, version) s.
     bindR (read_if (flags AND CKBEHAVIOR_PRIORITY \<noteq> 0) (get nmo_chunk_read_int) 0 s) (\<lambda>prio s.
     bindR (read_if (flags AND CKBEHAVIOR_COMPATIBLECLASSID \<noteq> 0) (get nmo_chunk_read_int) 2 s) (\<lambda>cls s.
     bindR (read_if (flags AND CKBEHAVIOR_TARGETABLE \<noteq> 0) (get nmo_chunk_read_object_id) 0 s) (\<lambda>target s.
     bindR (get nmo_chunk_read_dword s) (\<lambda>save s.
     bindR (read_if (save AND CK_STATESAVE_BEHAVIORSUBBEHAV \<noteq> 0) read_object_array no_ids s) (\<lambda>x1 s.
     bindR (read_if (save AND CK_STATESAVE_BEHAVIORSUBLINKS \<noteq> 0) read_object_array no_ids s) (\<lambda>x2 s.
     bindR (read_if (save AND CK_STATESAVE_BEHAVIOROPERATIONS \<noteq> 0) read_object_array no_ids s) (\<lambda>x3 s.
     bindR (read_if (save AND CK_STATESAVE_BEHAVIORINPARAMS \<noteq> 0) read_object_array no_ids s) (\<lambda>x4 s.
     bindR (read_if (save AND CK_STATESAVE_BEHAVIOROUTPARAMS \<noteq> 0) read_object_array no_ids s) (\<lambda>x5 s.
     bindR (read_if (save AND CK_STATESAVE_BEHAVIORLOCALPARAMS \<noteq> 0) read_object_array no_ids s) (\<lambda>x6 s.
     bindR (read_if (save AND CK_STATESAVE_BEHAVIORINPUTS \<noteq> 0) read_object_array no_ids s) (\<lambda>x7 s.
     bindR (read_if (save AND CK_STATESAVE_BEHAVIOROUTPUTS \<noteq> 0) read_object_array no_ids s) (\<lambda>x8 s.
     bindR (seek CK_STATESAVE_BEHAVIORSINGLEACTIVITY s) (\<lambda>found s.
     bindR (read_if found (try_get nmo_chunk_read_dword) None s) (\<lambda>single.
       ok \<lparr>bh_base = base, bh_flags = flags, bh_priority = prio, compatible_class_id = cls, block_guid = guid,
           block_version = version, target_parameter_id = target, sub_behaviors = x1, sub_behavior_links = x2,
           operations = x3, in_parameters = x4, out_parameters = x5, local_parameters = x6, bh_inputs = x7,
           bh_outputs = x8, single_activity_flags = (case single of None \<Rightarrow> 0 | Some x \<Rightarrow> x),
           has_single_activity = (single \<noteq> None), interface_chunk = iface\<rparr>))))))))))))))))))))"

definition write_if :: "bool \<Rightarrow> (chunk_cursor \<Rightarrow> unit cures) \<Rightarrow> chunk_cursor \<Rightarrow> unit cures" where
  "write_if b f c = (if b then f c else ok () c)"

text \<open>The arrays with the flag that announces each; the flags of those that are not empty are written first.\<close>

definition behavior_arrays :: "nmo_ckbehavior_state \<Rightarrow> (u32 \<times> id_array) list" where
  "behavior_arrays st =
     [(CK_STATESAVE_BEHAVIORSUBBEHAV, sub_behaviors st),
      (CK_STATESAVE_BEHAVIORSUBLINKS, sub_behavior_links st),
      (CK_STATESAVE_BEHAVIOROPERATIONS, operations st),
      (CK_STATESAVE_BEHAVIORINPARAMS, in_parameters st),
      (CK_STATESAVE_BEHAVIOROUTPARAMS, out_parameters st),
      (CK_STATESAVE_BEHAVIORLOCALPARAMS, local_parameters st),
      (CK_STATESAVE_BEHAVIORINPUTS, bh_inputs st),
      (CK_STATESAVE_BEHAVIOROUTPUTS, bh_outputs st)]"

definition save_flags :: "(u32 \<times> id_array) list \<Rightarrow> u32" where
  "save_flags xs = fold (\<lambda>(f, x) acc. if ida_count x > 0 then acc OR f else acc) xs 0"

fun write_arrays :: "u32 \<Rightarrow> (u32 \<times> id_array) list \<Rightarrow> chunk_cursor \<Rightarrow> unit cures" where
  "write_arrays fs [] c = ok () c"
| "write_arrays fs ((f, x) # xs) c =
     bindR (write_if (fs AND f \<noteq> 0) (write_object_array x) c) (\<lambda>_. write_arrays fs xs)"

definition nmo_ckbehavior_serialize :: "u8 list \<Rightarrow> nmo_ckbehavior_state \<Rightarrow> chunk_cursor \<Rightarrow> unit cures" where
  "nmo_ckbehavior_serialize pointer_bytes st c =
     (let flags = bh_flags st; save = save_flags (behavior_arrays st)
      in bindR (nmo_cksceneobject_serialize (bh_base st) c) (\<lambda>_ c.
         bindR (write_if (interface_chunk st \<noteq> None)
                  (\<lambda>c. bindR (nmo_chunk_write_identifier CK_STATESAVE_BEHAVIORINTERFACE c) (\<lambda>_.
                     nmo_chunk_write_sub_chunk pointer_bytes (interface_chunk st))) c) (\<lambda>_ c.
         bindR (nmo_chunk_write_identifier CK_STATESAVE_BEHAVIORNEWDATA c) (\<lambda>_ c.
         bindR (nmo_chunk_write_dword flags c) (\<lambda>_ c.
         bindR (write_if (flags AND CKBEHAVIOR_BUILDINGBLOCK \<noteq> 0)
                  (\<lambda>c. bindR (nmo_chunk_write_guid (block_guid st) c) (\<lambda>_. nmo_chunk_write_dword (block_version st))) c) (\<lambda>_ c.
         bindR (write_if (flags AND CKBEHAVIOR_PRIORITY \<noteq> 0) (nmo_chunk_write_int (bh_priority st)) c) (\<lambda>_ c.
         bindR (write_if (flags AND CKBEHAVIOR_COMPATIBLECLASSID \<noteq> 0) (nmo_chunk_write_int (compatible_class_id st)) c) (\<lambda>_ c.
         bindR (write_if (flags AND CKBEHAVIOR_TARGETABLE \<noteq> 0) (nmo_chunk_write_object_id (target_parameter_id st)) c) (\<lambda>_ c.
         bindR (nmo_chunk_write_dword save c) (\<lambda>_ c.
         bindR (write_arrays save (behavior_arrays st) c) (\<lambda>_.
           write_if (has_single_activity st)
             (\<lambda>c. bindR (nmo_chunk_write_identifier CK_STATESAVE_BEHAVIORSINGLEACTIVITY c) (\<lambda>_.
                nmo_chunk_write_dword (single_activity_flags st))))))))))))))"

end
