(* ===== verification/DataArrayStates.thy ===== *)
theory DataArrayStates
  imports BeObjectStates ParameterStates
begin

text \<open>
  The state reader and writer of \<^verbatim>\<open>ckdataarray_schemas.c\<close>.
\<close>

section \<open>CKDataArray\<close>

text \<open>
  A cell is a union: the integer, the float and the object id are its first word, the string and the
  chunk are pointers. Which one it is, the type of its column says; a pointer read as a word, or as a
  pointer to something else, is undefined.
\<close>

datatype nmo_ckdataarray_cell = Cell_word u32 | Cell_string "u8 list option" | Cell_chunk "nmo_chunk option"

record nmo_ckdataarray_column_format =
  col_name :: "u8 list option"
  col_type :: u32
  col_type_guid :: nmo_guid

record nmo_ckdataarray_row =
  row_column_count :: u32
  row_cells :: "nmo_ckdataarray_cell list option"

record nmo_ckdataarray_state =
  da_base :: nmo_ckbeobject_state
  column_count :: u32
  column_formats :: "nmo_ckdataarray_column_format list option"
  row_count :: u32
  da_rows :: "nmo_ckdataarray_row list option"
  da_order :: u32
  column_index :: u32
  key_column :: u32

definition NMO_ARRAYTYPE_INT :: u32 where "NMO_ARRAYTYPE_INT = 0"
definition NMO_ARRAYTYPE_FLOAT :: u32 where "NMO_ARRAYTYPE_FLOAT = 1"
definition NMO_ARRAYTYPE_STRING :: u32 where "NMO_ARRAYTYPE_STRING = 2"
definition NMO_ARRAYTYPE_OBJECT :: u32 where "NMO_ARRAYTYPE_OBJECT = 3"
definition NMO_ARRAYTYPE_PARAMETER :: u32 where "NMO_ARRAYTYPE_PARAMETER = 4"
definition CK_STATESAVE_DATAARRAYFORMAT :: u32 where "CK_STATESAVE_DATAARRAYFORMAT = 0x00000001"
definition CK_STATESAVE_DATAARRAYDATA :: u32 where "CK_STATESAVE_DATAARRAYDATA = 0x00000002"
definition CK_STATESAVE_DATAARRAYMEMBERS :: u32 where "CK_STATESAVE_DATAARRAYMEMBERS = 0x00000004"

text \<open>\<^verbatim>\<open>CKPGUID_OLDTIME\<close> is replaced by \<^verbatim>\<open>CKPGUID_TIME\<close>.\<close>

definition modern_guid :: "nmo_guid \<Rightarrow> nmo_guid" where
  "modern_guid g = (if g = \<lparr>d1 = 0x6D6B6BE2, d2 = 0x206C11D2\<rparr> then \<lparr>d1 = 0x6D6B6BE3, d2 = 0x206C11D2\<rparr> else g)"

definition read_column :: "chunk_cursor \<times> arena \<Rightarrow> nmo_ckdataarray_column_format sres" where
  "read_column s =
     bindR (read_name s) (\<lambda>p s.
     bindR (get nmo_chunk_read_dword s) (\<lambda>ty s.
       if ty = NMO_ARRAYTYPE_PARAMETER
       then bindR (get nmo_chunk_read_guid s) (\<lambda>g.
              ok \<lparr>col_name = p, col_type = ty, col_type_guid = modern_guid g\<rparr>)
       else ok \<lparr>col_name = p, col_type = ty, col_type_guid = zero_guid\<rparr> s))"

definition read_format ::
  "nmo_ckdataarray_state \<Rightarrow> chunk_cursor \<times> arena \<Rightarrow> nmo_ckdataarray_state sres" where
  "read_format st s =
     bindR (get nmo_chunk_read_int s) (\<lambda>n s.
       if sint n < 0 \<or> sint n > 10000 then fail NMO_ERR_VALIDATION_FAILED s
       else bindR (if n = 0 then ok None s else read_array_of read_column 24 (unat n) s) (\<lambda>cols.
              ok (st\<lparr>column_count := n, column_formats := cols\<rparr>)))"

definition read_cell :: "u32 \<Rightarrow> chunk_cursor \<times> arena \<Rightarrow> nmo_ckdataarray_cell sres" where
  "read_cell ty s =
     (if ty = NMO_ARRAYTYPE_INT then bindR (get nmo_chunk_read_int s) (\<lambda>x. ok (Cell_word x))
      else if ty = NMO_ARRAYTYPE_FLOAT then bindR (get nmo_chunk_read_float s) (\<lambda>x. ok (Cell_word x))
      else if ty = NMO_ARRAYTYPE_STRING then bindR (read_name s) (\<lambda>p. ok (Cell_string p))
      else if ty = NMO_ARRAYTYPE_OBJECT then bindR (get nmo_chunk_read_object_id s) (\<lambda>x. ok (Cell_word x))
      else if ty = NMO_ARRAYTYPE_PARAMETER
      then bindR (get nmo_chunk_read_sub_chunk s) (\<lambda>x. ok (Cell_chunk (Some x)))
      else fail NMO_ERR_VALIDATION_FAILED s)"

fun read_cells :: "nmo_ckdataarray_column_format list \<Rightarrow> chunk_cursor \<times> arena \<Rightarrow> nmo_ckdataarray_cell list sres" where
  "read_cells [] s = ok [] s"
| "read_cells (f # fs) s =
     bindR (read_cell (col_type f) s) (\<lambda>x s. bindR (read_cells fs s) (\<lambda>xs. ok (x # xs)))"

definition read_row ::
  "u32 \<Rightarrow> nmo_ckdataarray_column_format list \<Rightarrow> chunk_cursor \<times> arena \<Rightarrow> nmo_ckdataarray_row sres" where
  "read_row n fs s =
     (if n > 0 then
        bindR (alloc_in (sz_mul (unat n) 8) 8 s) (\<lambda>q s. case q of
          None \<Rightarrow> fail NMO_ERR_NOMEM s
        | Some _ \<Rightarrow> bindR (read_cells fs s) (\<lambda>xs. ok \<lparr>row_column_count = n, row_cells = Some xs\<rparr>))
      else ok \<lparr>row_column_count = n, row_cells = None\<rparr> s)"

definition read_rows ::
  "nmo_ckdataarray_state \<Rightarrow> chunk_cursor \<times> arena \<Rightarrow> nmo_ckdataarray_state sres" where
  "read_rows st s =
     bindR (get nmo_chunk_read_int s) (\<lambda>m s.
       if sint m < 0 \<or> sint m > 1000000 then fail NMO_ERR_VALIDATION_FAILED s
       else
         let fs = (case column_formats st of None \<Rightarrow> [] | Some fs \<Rightarrow> fs)
         in bindR (if m = 0 then ok None s else read_array_of (read_row (column_count st) fs) 16 (unat m) s) (\<lambda>rows.
              ok (st\<lparr>row_count := m, da_rows := rows\<rparr>)))"

text \<open>The result of the last read is ignored.\<close>

definition read_members ::
  "nmo_ckdataarray_state \<Rightarrow> chunk_cursor \<times> arena \<Rightarrow> nmo_ckdataarray_state sres" where
  "read_members st s =
     bindR (get nmo_chunk_read_int s) (\<lambda>x s.
     bindR (get nmo_chunk_read_int s) (\<lambda>y s.
     bindR (read_or nmo_chunk_read_int (key_column st) s) (\<lambda>z.
       ok (st\<lparr>da_order := x, column_index := y, key_column := z\<rparr>))))"

definition nmo_ckdataarray_deserialize :: "chunk_cursor \<times> arena \<Rightarrow> nmo_ckdataarray_state sres" where
  "nmo_ckdataarray_deserialize s =
     bindR (nmo_ckbeobject_deserialize s) (\<lambda>base s.
     bindR (section_of CK_STATESAVE_DATAARRAYFORMAT read_format
              \<lparr>da_base = base, column_count = 0, column_formats = None, row_count = 0, da_rows = None,
               da_order = 0, column_index = 0, key_column = -1\<rparr> s) (\<lambda>st s.
     bindR (section_of CK_STATESAVE_DATAARRAYDATA read_rows st s) (\<lambda>st.
       section_of CK_STATESAVE_DATAARRAYMEMBERS read_members st)))"

definition write_column :: "nmo_ckdataarray_column_format \<Rightarrow> chunk_cursor \<Rightarrow> unit cures" where
  "write_column f c =
     bindR (write_name (col_name f) c) (\<lambda>_ c.
     bindR (nmo_chunk_write_dword (col_type f) c) (\<lambda>_ c.
       if col_type f = NMO_ARRAYTYPE_PARAMETER then nmo_chunk_write_guid (col_type_guid f) c else ok () c))"

definition write_word_cell :: "(u32 \<Rightarrow> chunk_cursor \<Rightarrow> unit cures) \<Rightarrow> nmo_ckdataarray_cell \<Rightarrow> chunk_cursor \<Rightarrow> unit cures" where
  "write_word_cell wr x c = (case x of Cell_word w \<Rightarrow> wr w c | _ \<Rightarrow> Undefined)"

definition write_cell :: "u8 list \<Rightarrow> u32 \<Rightarrow> nmo_ckdataarray_cell \<Rightarrow> chunk_cursor \<Rightarrow> unit cures" where
  "write_cell pointer_bytes ty x c =
     (if ty = NMO_ARRAYTYPE_INT then write_word_cell nmo_chunk_write_int x c
      else if ty = NMO_ARRAYTYPE_FLOAT then write_word_cell nmo_chunk_write_float x c
      else if ty = NMO_ARRAYTYPE_STRING then (case x of Cell_string p \<Rightarrow> write_name p c | _ \<Rightarrow> Undefined)
      else if ty = NMO_ARRAYTYPE_OBJECT then write_word_cell nmo_chunk_write_object_id x c
      else if ty = NMO_ARRAYTYPE_PARAMETER then
        (case x of Cell_chunk p \<Rightarrow> if p = None then ok () c else nmo_chunk_write_sub_chunk pointer_bytes p c
                 | _ \<Rightarrow> Undefined)
      else fail NMO_ERR_VALIDATION_FAILED c)"

definition write_row ::
  "u8 list \<Rightarrow> nmo_ckdataarray_column_format list \<Rightarrow> nat \<Rightarrow> nmo_ckdataarray_row \<Rightarrow> chunk_cursor \<Rightarrow> unit cures" where
  "write_row pointer_bytes fs n r =
     write_each (\<lambda>(f, x). write_cell pointer_bytes (col_type f) x)
       (zip fs (case row_cells r of None \<Rightarrow> [] | Some xs \<Rightarrow> xs)) n"

definition nmo_ckdataarray_serialize :: "u8 list \<Rightarrow> nmo_ckdataarray_state \<Rightarrow> chunk_cursor \<Rightarrow> unit cures" where
  "nmo_ckdataarray_serialize pointer_bytes st c =
     (let fs = (case column_formats st of None \<Rightarrow> [] | Some fs \<Rightarrow> fs);
          rows = (case da_rows st of None \<Rightarrow> [] | Some rows \<Rightarrow> rows)
      in bindR (nmo_ckbeobject_serialize (da_base st) c) (\<lambda>_ c.
         bindR (nmo_chunk_write_identifier CK_STATESAVE_DATAARRAYFORMAT c) (\<lambda>_ c.
         bindR (nmo_chunk_write_int (column_count st) c) (\<lambda>_ c.
         bindR (write_each write_column fs (unat (column_count st)) c) (\<lambda>_ c.
         bindR (nmo_chunk_write_identifier CK_STATESAVE_DATAARRAYDATA c) (\<lambda>_ c.
         bindR (nmo_chunk_write_int (row_count st) c) (\<lambda>_ c.
         bindR (write_each (write_row pointer_bytes fs (unat (column_count st))) rows (unat (row_count st)) c) (\<lambda>_ c.
         bindR (nmo_chunk_write_identifier CK_STATESAVE_DATAARRAYMEMBERS c) (\<lambda>_ c.
         bindR (nmo_chunk_write_int (da_order st) c) (\<lambda>_ c.
         bindR (nmo_chunk_write_dword (column_index st) c) (\<lambda>_.
           nmo_chunk_write_int (key_column st))))))))))))"

end
