(* ===== verification/MeshStates.thy ===== *)
theory MeshStates
  imports BeObjectStates ParameterStates
begin

text \<open>
  The state reader of \<^verbatim>\<open>ckmesh_schemas.c\<close>; its writer only says that it is not implemented. What the
  reader does not fill keeps what the memory of the arena held.
\<close>

record nmo_vx_vector =
  vx_x :: f32
  vx_y :: f32
  vx_z :: f32

record nmo_vx_2d_vector =
  vx_u :: f32
  vx_v :: f32

record nmo_vx_vertex =
  vv_position :: nmo_vx_vector
  vv_normal :: nmo_vx_vector
  vv_uv :: nmo_vx_2d_vector

record nmo_ck_face =
  fc_normal :: nmo_vx_vector
  material_group_idx :: u16
  channel_mask :: u16

record nmo_ck_material_channel =
  ch_material_id :: u32
  ch_flags :: u32
  source_blend :: u32
  ch_dest_blend :: u32
  uv_count :: u32
  uv_coords :: "f32 list option"

text \<open>
  The members the reader sets; those it only clears (bounding volume, buffers, progressive data) are left
  out. The face indices come three for a face. An element of \<open>ms_channels\<close> that the reader does not
  complete is \<open>None\<close>.
\<close>

record nmo_ck_mesh_state =
  ms_beobject :: nmo_ckbeobject_state
  ms_flags :: u32
  face_count :: u32
  ms_faces :: "nmo_ck_face list option"
  face_vertex_indices :: "u16 list option"
  line_count :: u32
  line_indices :: "u16 list option"
  vertex_count :: u32
  ms_vertices :: "nmo_vx_vertex list option"
  vertex_colors :: "u32 list option"
  vertex_specular :: "u32 list option"
  vertex_weights :: "f32 list option"
  material_group_count :: u32
  material_groups :: "u32 list option"
  material_channel_count :: u32
  ms_channels :: "nmo_ck_material_channel option list option"
  has_progressive_mesh :: bool
  pm_field_0 :: u32
  pm_morph_enabled :: u32
  pm_morph_step :: u32

definition NMO_MESH_FLAGS_VALID_MASK :: u32 where "NMO_MESH_FLAGS_VALID_MASK = 0x7FE39A"
definition NMO_VERTEX_COLOR1_UNIFORM :: u32 where "NMO_VERTEX_COLOR1_UNIFORM = 0x01"
definition NMO_VERTEX_SPECULAR_UNIFORM :: u32 where "NMO_VERTEX_SPECULAR_UNIFORM = 0x02"
definition NMO_VERTEX_NORMALS_MISSING :: u32 where "NMO_VERTEX_NORMALS_MISSING = 0x04"
definition NMO_VERTEX_UV_UNIFORM :: u32 where "NMO_VERTEX_UV_UNIFORM = 0x08"
definition NMO_VERTEX_POS_EXTERNAL :: u32 where "NMO_VERTEX_POS_EXTERNAL = 0x10"

definition zero_mesh :: "nmo_ckbeobject_state \<Rightarrow> nmo_ck_mesh_state" where
  "zero_mesh b = \<lparr>ms_beobject = b, ms_flags = 0, face_count = 0, ms_faces = None, face_vertex_indices = None,
     line_count = 0, line_indices = None, vertex_count = 0, ms_vertices = None, vertex_colors = None,
     vertex_specular = None, vertex_weights = None, material_group_count = 0, material_groups = None,
     material_channel_count = 0, ms_channels = None, has_progressive_mesh = False, pm_field_0 = 0,
     pm_morph_enabled = 0, pm_morph_step = 0\<rparr>"

section \<open>Packed words\<close>

definition nmo_unpack_dword_to_words :: "u32 \<Rightarrow> u16 \<times> u16" where
  "nmo_unpack_dword_to_words dword = (ucast (dword AND 0xFFFF), ucast (drop_bit 16 dword AND 0xFFFF))"

definition nmo_pack_words_to_dword :: "u16 \<Rightarrow> u16 \<Rightarrow> u32" where
  "nmo_pack_words_to_dword lo hi = ucast lo OR push_bit 16 (ucast hi)"

text \<open>The 16-bit elements that lie in words.\<close>

fun words16 :: "u32 list \<Rightarrow> u16 list" where
  "words16 [] = []"
| "words16 (d # ds) = (let (lo, hi) = nmo_unpack_dword_to_words d in lo # hi # words16 ds)"

text \<open>The vertices, and the faces, that lie in the words of fresh memory.\<close>

fun vertices_in :: "u32 list \<Rightarrow> nmo_vx_vertex list" where
  "vertices_in (a # b # c # d # e # f # g # h # ws) =
     \<lparr>vv_position = \<lparr>vx_x = a, vx_y = b, vx_z = c\<rparr>, vv_normal = \<lparr>vx_x = d, vx_y = e, vx_z = f\<rparr>,
      vv_uv = \<lparr>vx_u = g, vx_v = h\<rparr>\<rparr> # vertices_in ws"
| "vertices_in _ = []"

fun faces_in :: "u32 list \<Rightarrow> nmo_ck_face list" where
  "faces_in (a # b # c # d # ws) =
     (let (lo, hi) = nmo_unpack_dword_to_words d
      in \<lparr>fc_normal = \<lparr>vx_x = a, vx_y = b, vx_z = c\<rparr>, material_group_idx = lo, channel_mask = hi\<rparr> # faces_in ws)"
| "faces_in _ = []"

section \<open>Vertices\<close>

text \<open>A loop over the elements of an array that updates each from the chunk and stops at a failure.\<close>

fun update_each :: "('a \<Rightarrow> chunk_cursor \<times> arena \<Rightarrow> 'a sres) \<Rightarrow> 'a list \<Rightarrow> chunk_cursor \<times> arena \<Rightarrow> 'a list sres" where
  "update_each f [] s = ok [] s"
| "update_each f (x # xs) s = bindR (f x s) (\<lambda>y s. bindR (update_each f xs s) (\<lambda>ys. ok (y # ys)))"

definition read_vector :: "chunk_cursor \<times> arena \<Rightarrow> nmo_vx_vector sres" where
  "read_vector s = bindR (get (read_floats 3) s) (\<lambda>xs. ok \<lparr>vx_x = xs ! 0, vx_y = xs ! 1, vx_z = xs ! 2\<rparr>)"

definition read_uv :: "chunk_cursor \<times> arena \<Rightarrow> nmo_vx_2d_vector sres" where
  "read_uv s = bindR (get (read_floats 2) s) (\<lambda>xs. ok \<lparr>vx_u = xs ! 0, vx_v = xs ! 1\<rparr>)"

text \<open>One colour, and either the same or one more for each of the other vertices.\<close>

definition read_vertex_colors :: "bool \<Rightarrow> nat \<Rightarrow> chunk_cursor \<times> arena \<Rightarrow> u32 list sres" where
  "read_vertex_colors uniform n s =
     bindR (get nmo_chunk_read_dword s) (\<lambda>first s.
       if uniform then ok (replicate n first) s
       else bindR (read_elements (get nmo_chunk_read_dword) (n - 1) s) (\<lambda>xs. ok (first # xs)))"

definition read_vertex_uvs :: "bool \<Rightarrow> nmo_vx_vertex list \<Rightarrow> chunk_cursor \<times> arena \<Rightarrow> nmo_vx_vertex list sres" where
  "read_vertex_uvs uniform vs s =
     bindR (read_uv s) (\<lambda>first s.
       if uniform then ok (map (\<lambda>v. v\<lparr>vv_uv := first\<rparr>) vs) s
       else bindR (update_each (\<lambda>v s. bindR (read_uv s) (\<lambda>x. ok (v\<lparr>vv_uv := x\<rparr>))) (tl vs) s) (\<lambda>ws.
              ok ((hd vs)\<lparr>vv_uv := first\<rparr> # ws)))"

text \<open>The three arrays of the vertices and what is read into them.\<close>

definition read_vertex_arrays ::
  "nat \<Rightarrow> u32 \<Rightarrow> chunk_cursor \<times> arena \<Rightarrow> (nmo_vx_vertex list \<times> u32 list \<times> u32 list) sres" where
  "read_vertex_arrays n fl s =
     bindR (alloc_in (sz_mul 32 n) 4 s) (\<lambda>q s. case q of
       None \<Rightarrow> fail NMO_ERR_NOMEM s
     | Some rg \<Rightarrow>
         bindR (alloc_in (sz_mul 4 n) 4 s) (\<lambda>q1 s.
         bindR (alloc_in (sz_mul 4 n) 4 s) (\<lambda>q2 (c, a).
           if q1 = None \<or> q2 = None then fail NMO_ERR_NOMEM (c, a)
           else
             let vs = vertices_in (fresh_dwords rg a (8 * n))
             in bindR (if fl AND NMO_VERTEX_POS_EXTERNAL = 0
                       then update_each (\<lambda>v s. bindR (read_vector s) (\<lambda>x. ok (v\<lparr>vv_position := x\<rparr>))) vs (c, a)
                       else ok vs (c, a)) (\<lambda>vs s.
                bindR (read_vertex_colors (fl AND NMO_VERTEX_COLOR1_UNIFORM \<noteq> 0) n s) (\<lambda>cols s.
                bindR (read_vertex_colors (fl AND NMO_VERTEX_SPECULAR_UNIFORM \<noteq> 0) n s) (\<lambda>spec s.
                bindR (if fl AND NMO_VERTEX_NORMALS_MISSING = 0
                       then update_each (\<lambda>v s. bindR (read_vector s) (\<lambda>x. ok (v\<lparr>vv_normal := x\<rparr>))) vs s
                       else ok vs s) (\<lambda>vs s.
                bindR (read_vertex_uvs (fl AND NMO_VERTEX_UV_UNIFORM \<noteq> 0) vs s) (\<lambda>vs.
                  ok (vs, cols, spec)))))))))"

definition nmo_ckmesh_deserialize_vertices ::
  "nmo_ck_mesh_state \<Rightarrow> chunk_cursor \<times> arena \<Rightarrow> nmo_ck_mesh_state sres" where
  "nmo_ckmesh_deserialize_vertices st s =
     section_of 0x20000 (\<lambda>st s.
       bindR (get_or NMO_ERR_VALIDATION_FAILED nmo_chunk_read_int s) (\<lambda>n s.
         if sint n < 0 \<or> sint n > 1000000 then fail NMO_ERR_VALIDATION_FAILED s
         else if n = 0 then ok st s
         else
           bindR (get_or NMO_ERR_VALIDATION_FAILED nmo_chunk_read_dword s) (\<lambda>fl s.
           bindR (read_vertex_arrays (unat n) fl s) (\<lambda>(vs, cols, spec).
             ok (st\<lparr>vertex_count := n, ms_vertices := Some vs, vertex_colors := Some cols,
                    vertex_specular := Some spec\<rparr>))))) st s"

section \<open>The other sections\<close>

definition read_mesh_flags :: "nmo_ck_mesh_state \<Rightarrow> chunk_cursor \<times> arena \<Rightarrow> nmo_ck_mesh_state sres" where
  "read_mesh_flags st s =
     bindR (get_or NMO_ERR_VALIDATION_FAILED nmo_chunk_read_dword s) (\<lambda>x.
       ok (st\<lparr>ms_flags := x AND NMO_MESH_FLAGS_VALID_MASK\<rparr>))"

definition read_group :: "chunk_cursor \<times> arena \<Rightarrow> u32 sres" where
  "read_group s = bindR (get nmo_chunk_read_object_id s) (\<lambda>x s. bindR (get nmo_chunk_read_int s) (\<lambda>_. ok x))"

text \<open>A count out of range is passed over.\<close>

definition read_groups :: "nmo_ck_mesh_state \<Rightarrow> chunk_cursor \<times> arena \<Rightarrow> nmo_ck_mesh_state sres" where
  "read_groups st s =
     bindR (get_or NMO_ERR_VALIDATION_FAILED nmo_chunk_read_int s) (\<lambda>n s.
       if sint n > 0 \<and> sint n < 10000 then
         bindR (alloc_in (sz_mul 4 (unat n)) 4 s) (\<lambda>q s. case q of
           None \<Rightarrow> fail NMO_ERR_NOMEM s
         | Some _ \<Rightarrow> bindR (read_elements read_group (unat n) s) (\<lambda>xs.
             ok (st\<lparr>material_group_count := n, material_groups := Some xs\<rparr>)))
       else ok st s)"

definition read_face :: "nmo_ck_face \<Rightarrow> chunk_cursor \<times> arena \<Rightarrow> (nmo_ck_face \<times> u16 list) sres" where
  "read_face f s =
     bindR (get nmo_chunk_read_dword s) (\<lambda>x s. bindR (get nmo_chunk_read_dword s) (\<lambda>y.
       let (i0, i1) = nmo_unpack_dword_to_words x; (i2, g) = nmo_unpack_dword_to_words y
       in ok (f\<lparr>material_group_idx := g\<rparr>, [i0, i1, i2])))"

definition read_faces :: "nmo_ck_mesh_state \<Rightarrow> chunk_cursor \<times> arena \<Rightarrow> nmo_ck_mesh_state sres" where
  "read_faces st s =
     bindR (get_or NMO_ERR_VALIDATION_FAILED nmo_chunk_read_int s) (\<lambda>n s.
       if sint n > 0 \<and> sint n < 10000000 then
         bindR (alloc_in (sz_mul 16 (unat n)) 4 s) (\<lambda>q1 s.
         bindR (alloc_in (sz_mul (sz_mul 2 (unat n)) 3) 2 s) (\<lambda>q2 (c, a). case q1 of
           None \<Rightarrow> fail NMO_ERR_NOMEM (c, a)
         | Some rg \<Rightarrow>
             if q2 = None then fail NMO_ERR_NOMEM (c, a)
             else bindR (update_each (\<lambda>(f, _). read_face f)
                           (map (\<lambda>f. (f, [])) (faces_in (fresh_dwords rg a (4 * unat n)))) (c, a)) (\<lambda>xs.
                    ok (st\<lparr>face_count := n, ms_faces := Some (map fst xs),
                           face_vertex_indices := Some (concat (map snd xs))\<rparr>))))
       else ok st s)"

definition read_lines :: "nmo_ck_mesh_state \<Rightarrow> chunk_cursor \<times> arena \<Rightarrow> nmo_ck_mesh_state sres" where
  "read_lines st s =
     bindR (try_get nmo_chunk_read_int s) (\<lambda>r s. case r of
       None \<Rightarrow> ok st s
     | Some n \<Rightarrow>
         if sint n > 0 \<and> sint n < 1000000 then
           bindR (alloc_in (sz_mul (sz_mul 2 (unat n)) 2) 2 s) (\<lambda>q (c, a). case q of
             None \<Rightarrow> ok (st\<lparr>line_count := n, line_indices := None\<rparr>) (c, a)
           | Some rg \<Rightarrow>
               bindR (read_until nmo_chunk_read_word (region_room a rg div 2) (2 * unat n) (c, a)) (\<lambda>vs.
                 ok (st\<lparr>line_count := n,
                        line_indices := Some (vs @ drop (length vs) (words16 (fresh_dwords rg a (unat n))))\<rparr>)))
         else ok st s)"

text \<open>The coordinates of a channel, two for a vertex.\<close>

definition read_coords :: "u32 \<Rightarrow> chunk_cursor \<times> arena \<Rightarrow> f32 list option sres" where
  "read_coords n s =
     (if sint n > 0 \<and> sint n < 1000000 then
        bindR (read_words_into nmo_chunk_read_float (2 * unat n) s) (\<lambda>q. ok (map_option snd q))
      else ok None s)"

text \<open>The channels up to the first that cannot be read to its count of coordinates.\<close>

fun read_channels :: "nat \<Rightarrow> chunk_cursor \<times> arena \<Rightarrow> nmo_ck_material_channel list sres" where
  "read_channels 0 s = ok [] s"
| "read_channels (Suc n) s =
     bindR (read_until nmo_chunk_read_dword 5 5 s) (\<lambda>xs s.
       if length xs < 5 then ok [] s
       else bindR (read_coords (xs ! 4) s) (\<lambda>p s.
            bindR (read_channels n s) (\<lambda>ys.
              ok (\<lparr>ch_material_id = xs ! 0, ch_flags = xs ! 1, source_blend = xs ! 2, ch_dest_blend = xs ! 3,
                   uv_count = xs ! 4, uv_coords = p\<rparr> # ys))))"

definition read_material_channels :: "nmo_ck_mesh_state \<Rightarrow> chunk_cursor \<times> arena \<Rightarrow> nmo_ck_mesh_state sres" where
  "read_material_channels st s =
     bindR (try_get nmo_chunk_read_int s) (\<lambda>r s. case r of
       None \<Rightarrow> ok st s
     | Some n \<Rightarrow>
         if sint n > 0 \<and> sint n < 100 then
           bindR (alloc_in (sz_mul 32 (unat n)) 8 s) (\<lambda>q s. case q of
             None \<Rightarrow> ok (st\<lparr>material_channel_count := n, ms_channels := None\<rparr>) s
           | Some _ \<Rightarrow>
               bindR (read_channels (unat n) s) (\<lambda>xs.
                 ok (st\<lparr>material_channel_count := n,
                        ms_channels := Some (map Some xs @ replicate (unat n - length xs) None)\<rparr>)))
         else ok st s)"

text \<open>One weight alone stands for all.\<close>

definition spread_weights :: "nat \<Rightarrow> f32 list \<Rightarrow> f32 list \<Rightarrow> f32 list" where
  "spread_weights n xs mem = (case xs of [x] \<Rightarrow> replicate n x | _ \<Rightarrow> xs @ drop (length xs) mem)"

definition read_weights :: "nmo_ck_mesh_state \<Rightarrow> chunk_cursor \<times> arena \<Rightarrow> nmo_ck_mesh_state sres" where
  "read_weights st s =
     bindR (try_get nmo_chunk_read_int s) (\<lambda>r s. case r of
       None \<Rightarrow> ok st s
     | Some n \<Rightarrow>
         if sint n > 0 \<and> sint n < 10000000 then
           bindR (read_words_into nmo_chunk_read_float (unat n) s) (\<lambda>q.
             ok (st\<lparr>vertex_weights := map_option (\<lambda>(xs, mem). spread_weights (unat n) xs mem) q\<rparr>))
         else ok st s)"

text \<open>Two masks in a word, and the last of an odd number alone.\<close>

fun read_mask_pairs :: "nat \<Rightarrow> chunk_cursor \<times> arena \<Rightarrow> u16 list sres" where
  "read_mask_pairs 0 s = ok [] s"
| "read_mask_pairs (Suc n) s =
     bindR (try_get nmo_chunk_read_dword s) (\<lambda>r s. case r of
       None \<Rightarrow> ok [] s
     | Some d \<Rightarrow> bindR (read_mask_pairs n s) (\<lambda>xs. let (lo, hi) = nmo_unpack_dword_to_words d in ok (lo # hi # xs)))"

definition set_masks :: "u16 list \<Rightarrow> nmo_ck_face list \<Rightarrow> nmo_ck_face list" where
  "set_masks ms fs = map (\<lambda>(f, m). f\<lparr>channel_mask := m\<rparr>) (zip fs ms) @ drop (length ms) fs"

definition read_masks :: "nmo_ck_mesh_state \<Rightarrow> chunk_cursor \<times> arena \<Rightarrow> nmo_ck_mesh_state sres" where
  "read_masks st s =
     bindR (try_get nmo_chunk_read_int s) (\<lambda>r s. case r of
       None \<Rightarrow> ok st s
     | Some n \<Rightarrow>
         if sint n > 0 \<and> n \<le> face_count st then
           let fs = (case ms_faces st of None \<Rightarrow> [] | Some fs \<Rightarrow> fs)
           in bindR (read_mask_pairs (unat n div 2) s) (\<lambda>ms s.
              bindR (if odd (unat n) then try_get nmo_chunk_read_word s else ok None s) (\<lambda>last.
                let fs = set_masks ms fs; k = unat n - 1
                in ok (st\<lparr>ms_faces := Some (case last of
                      None \<Rightarrow> fs | Some m \<Rightarrow> fs[k := (fs ! k)\<lparr>channel_mask := m\<rparr>])\<rparr>)))
         else ok st s)"

definition read_progressive :: "nmo_ck_mesh_state \<Rightarrow> chunk_cursor \<times> arena \<Rightarrow> nmo_ck_mesh_state sres" where
  "read_progressive st s =
     bindR (get nmo_chunk_read_int s) (\<lambda>x s. bindR (get nmo_chunk_read_int s) (\<lambda>y s.
     bindR (get nmo_chunk_read_int s) (\<lambda>z.
       ok (st\<lparr>has_progressive_mesh := True, pm_field_0 := x, pm_morph_enabled := y, pm_morph_step := z\<rparr>))))"

definition nmo_ckmesh_deserialize_modern :: "chunk_cursor \<times> arena \<Rightarrow> nmo_ck_mesh_state sres" where
  "nmo_ckmesh_deserialize_modern s =
     bindR (nmo_ckbeobject_deserialize s) (\<lambda>b s.
     bindR (section_of 0x2000 read_mesh_flags (zero_mesh b) s) (\<lambda>st s.
     bindR (section_of 0x100000 read_groups st s) (\<lambda>st s.
     bindR (nmo_ckmesh_deserialize_vertices st s) (\<lambda>st s.
     bindR (section_of 0x10000 read_faces st s) (\<lambda>st s.
     bindR (section_of 0x40000 read_lines st s) (\<lambda>st s.
     bindR (section_of 0x4000 read_material_channels st s) (\<lambda>st s.
     bindR (section_of 0x80000 read_weights st s) (\<lambda>st s.
     bindR (section_of 0x8000 read_masks st s) (\<lambda>st.
       section_of 0x800000 read_progressive st)))))))))"

definition nmo_ckmesh_deserialize :: "chunk_cursor \<times> arena \<Rightarrow> nmo_ck_mesh_state sres" where
  "nmo_ckmesh_deserialize = (\<lambda>(c, a).
     if nmo_chunk_get_data_version c \<ge> 9 then nmo_ckmesh_deserialize_modern (c, a)
     else fail NMO_ERR_NOT_IMPLEMENTED (c, a))"

definition nmo_ckmesh_serialize :: "nmo_ck_mesh_state \<Rightarrow> chunk_cursor \<Rightarrow> unit cures" where
  "nmo_ckmesh_serialize st c = fail NMO_ERR_NOT_IMPLEMENTED c"

end
