(* ===== verification/StateCodec.thy ===== *)
theory StateCodec
  imports ParameterStates ChunkApiSafety ChunkRemap
begin

text \<open>
  States that come back: the contract between the writer and the reader of a class whose state is one
  section of a chunk is the interface \<open>section_codec\<close>. What the classes share is here: what a reader
  returns for the words in front of it, and where the search for an identifier ends.
\<close>

section \<open>Searching an identifier\<close>

definition whole :: "chunk_cursor \<Rightarrow> u32 list" where
  "whole c = take (csize c) (cmem c)"

lemma find_word_first:
  assumes "n \<le> length xs" "i \<le> j" "j < n" "xs ! j = w" "\<And>k. i \<le> k \<Longrightarrow> k < j \<Longrightarrow> xs ! k \<noteq> w"
  shows "find_word w xs n i = Done (Some j)"
  using assms
proof (induction w xs n i rule: find_word.induct)
  case (1 w xs n i)
  then show ?case by (subst find_word.simps) (cases "i = j"; fastforce)
qed

lemma find_word_none:
  assumes "n \<le> length xs" "\<And>k. i \<le> k \<Longrightarrow> k < n \<Longrightarrow> xs ! k \<noteq> w"
  shows "find_word w xs n i = Done None"
  using assms
proof (induction w xs n i rule: find_word.induct)
  case (1 w xs n i)
  have "xs ! i \<noteq> w" "i < length xs" if "i < n" using that "1.prems" by auto
  moreover from this have "find_word w xs n (i + 1) = Done None" if "i < n"
    using that "1.prems" by (intro "1.IH") auto
  ultimately show ?case by (subst find_word.simps) simp
qed

lemma reader_whole:
  assumes "reader c"
  shows "length (whole c) = csize c" "csize c < 2 ^ 59"
  using assms by (auto simp: whole_def reader_def cursor_wf_def data_wf_def cmem_def split: option.splits)

lemma seek_found:
  assumes c: "reader c" and w: "whole c = xs @ ident # ds" "ident \<notin> set xs"
  obtains d where "nmo_chunk_seek_identifier ident c = ok () d" "reader d" "crest d = ds" "whole d = whole c"
    "cu_body d = cu_body c"
proof -
  have n: "csize c = length xs + Suc (length ds)" using reader_whole(1) [OF c] w(1) by simp
  then obtain ms where ms: "c_data (cu_body c) = Some ms"
    using c by (cases "c_data (cu_body c)") (auto simp: reader_def cursor_wf_def)
  have len: "csize c \<le> length ms" using c ms by (auto simp: reader_def cursor_wf_def data_wf_def)
  have nth: "ms ! k = (xs @ ident # ds) ! k" if "k < csize c" for k
    using that len w(1) ms by (auto simp: whole_def cmem_def dest: arg_cong [where f = "\<lambda>l. l ! k"])
  have find: "find_word ident ms (csize c) 0 = Done (Some (length xs))"
  proof (rule find_word_first [OF len])
    fix k assume "k < length xs"
    then have "ms ! k = xs ! k" using nth [of k] n by (simp add: nth_append)
    with \<open>k < length xs\<close> show "ms ! k \<noteq> ident" using w(2) by (metis nth_mem)
  qed (use nth [of "length xs"] n in \<open>simp_all add: nth_append\<close>)
  let ?d = "set_prev (length xs) (set_pos (Suc (length xs)) c)"
  obtain st where st: "cu_state c = Some st" using c by (auto simp: reader_def)
  have "sz_add (length xs) 1 = Suc (length xs)" using reader_whole(2) [OF c] n by (simp add: sz_add_small)
  then have "nmo_chunk_seek_identifier ident c = ok () ?d"
    using find ms st n by (simp add: nmo_chunk_seek_identifier_def)
  moreover have "reader ?d" using c st n
    by (auto simp: reader_def cursor_sets cursor_wf_def nmo_chunk_get_position_def split: option.splits)
  moreover have "crest ?d = ds"
  proof -
    have "take (csize c) ms = xs @ ident # ds" using w(1) ms by (simp add: whole_def cmem_def)
    then show ?thesis using st ms by (simp add: crest_def cursor_sets cmem_def nmo_chunk_get_position_def)
  qed
  moreover have "whole ?d = whole c" "cu_body ?d = cu_body c"
    using st by (simp_all add: whole_def cursor_sets cmem_def)
  ultimately show thesis by (rule that)
qed

lemma seek_missing:
  assumes c: "reader c" and w: "ident \<notin> set (whole c)"
  shows "nmo_chunk_seek_identifier ident c = fail NMO_ERR_NOT_FOUND c"
proof (cases "c_data (cu_body c)")
  case (Some ms)
  have len: "csize c \<le> length ms" using c Some by (auto simp: reader_def cursor_wf_def data_wf_def)
  have "find_word ident ms (csize c) 0 = Done None"
  proof (rule find_word_none [OF len])
    fix k assume "k < csize c"
    then have "ms ! k \<in> set (whole c)" using len Some by (auto simp: whole_def cmem_def in_set_conv_nth)
    with w show "ms ! k \<noteq> ident" by auto
  qed
  with Some show ?thesis by (simp add: nmo_chunk_seek_identifier_def)
qed (simp add: nmo_chunk_seek_identifier_def)

lemma seek_outcome:
  assumes "reader c"
  shows "ident \<in> set (whole c) \<Longrightarrow> \<exists>d. seek ident (c, a) = ok True (d, a) \<and> reader d \<and> whole d = whole c"
    "ident \<notin> set (whole c) \<Longrightarrow> seek ident (c, a) = ok False (c, a)"
proof -
  assume "ident \<in> set (whole c)"
  then obtain xs ds where "whole c = xs @ ident # ds" "ident \<notin> set xs" by (meson split_list_first)
  then obtain d where "nmo_chunk_seek_identifier ident c = ok () d" "reader d" "whole d = whole c"
    by (rule seek_found [OF assms])
  then show "\<exists>d. seek ident (c, a) = ok True (d, a) \<and> reader d \<and> whole d = whole c"
    by (simp add: seek_def try_get_def beside_arena_def ok_def)
next
  assume "ident \<notin> set (whole c)"
  then show "seek ident (c, a) = ok False (c, a)"
    by (simp add: seek_def try_get_def beside_arena_def seek_missing [OF assms] ok_def fail_def)
qed

section \<open>Reading words with two arenas\<close>

definition gives :: "(chunk_cursor \<times> arena \<Rightarrow> 'a sres) \<Rightarrow> u32 list \<Rightarrow> 'a \<Rightarrow> bool" where
  "gives f ds v \<longleftrightarrow> (\<forall>c b r. reader c \<longrightarrow> arena_sane b \<longrightarrow> arena_grants b \<longrightarrow> crest c = ds @ r \<longrightarrow>
     (\<exists>d b'. f (c, b) = ok v (d, b') \<and> reader d \<and> crest d = r \<and> arena_sane b' \<and> arena_grants b'))"

text \<open>The same where the words are the last.\<close>

definition ends :: "(chunk_cursor \<times> arena \<Rightarrow> 'a sres) \<Rightarrow> u32 list \<Rightarrow> 'a \<Rightarrow> bool" where
  "ends f ds v \<longleftrightarrow> (\<forall>c b. reader c \<longrightarrow> arena_sane b \<longrightarrow> arena_grants b \<longrightarrow> crest c = ds \<longrightarrow>
     (\<exists>d b'. f (c, b) = ok v (d, b')))"

lemma gives_ends: "gives f ds v \<Longrightarrow> ends f ds v"
  unfolding gives_def ends_def by (metis append.right_neutral)

lemma gives_bind: "gives f ds v \<Longrightarrow> gives (g v) es u \<Longrightarrow> gives (\<lambda>s. bindR (f s) g) (ds @ es) u"
  unfolding gives_def by (fastforce simp: ok_def)

lemma ends_bind: "gives f ds v \<Longrightarrow> ends (g v) es u \<Longrightarrow> ends (\<lambda>s. bindR (f s) g) (ds @ es) u"
  unfolding gives_def ends_def by (fastforce simp: ok_def)

lemma gives_ok [simp]: "gives (ok v) [] v"
  by (simp add: gives_def ok_def)

lemma gives_then_ok: "gives f ds v \<Longrightarrow> u = h v \<Longrightarrow> gives (\<lambda>s. bindR (f s) (\<lambda>x. ok (h x))) ds u"
  using gives_bind [of f ds v "\<lambda>x. ok (h x)" "[]" "h v"] by simp

lemma ends_then_ok: "ends f ds v \<Longrightarrow> u = h v \<Longrightarrow> ends (\<lambda>s. bindR (f s) (\<lambda>x. ok (h x))) ds u"
  unfolding ends_def by (fastforce simp: ok_def)

lemma gives_get: "yields f ds v \<Longrightarrow> gives (get f) ds v"
  unfolding yields_def gives_def beside_arena_def by (fastforce simp: ok_def)

lemma gives_or: "yields f ds v \<Longrightarrow> gives (read_or f x) ds v"
  unfolding yields_def gives_def beside_arena_def read_or_def try_get_def by (fastforce simp: ok_def)

lemma gives_try: "yields f ds v \<Longrightarrow> gives (try_get f) ds (Some v)"
  unfolding yields_def gives_def beside_arena_def try_get_def by (fastforce simp: ok_def)

lemma alloc_in_grants:
  assumes "arena_sane b" "arena_grants b" "0 < n" "n < 2 ^ 62" "al \<in> {1, 4, 8, 16}"
  obtains q b' where "alloc_in n al (c, b) = ok (Some q) (c, b')" "arena_sane b'" "arena_grants b'"
  by (rule arena_grant_region [OF assms]) (auto simp: alloc_in_def ok_def intro: that)

text \<open>The words of a list, whose elements may be encoded in more than one way.\<close>

fun encodes_each :: "('a \<Rightarrow> u32 list \<Rightarrow> bool) \<Rightarrow> 'a list \<Rightarrow> u32 list \<Rightarrow> bool" where
  "encodes_each E [] ds \<longleftrightarrow> ds = []"
| "encodes_each E (x # xs) ds \<longleftrightarrow> (\<exists>es fs. E x es \<and> encodes_each E xs fs \<and> ds = es @ fs)"

lemma puts_list:
  "(\<And>x. x \<in> set xs \<Longrightarrow> puts (k x) (E x) (wr x))
    \<Longrightarrow> puts (sum_list (map k xs)) (encodes_each E xs) (write_each wr xs (length xs))"
proof (induction xs)
  case Nil
  have "write_each wr [] 0 = ok ()" by (intro ext) simp
  then show ?case using puts_nothing by simp
next
  case (Cons x xs)
  have eq: "write_each wr (x # xs) (length (x # xs)) = (\<lambda>c. bindR (wr x c) (\<lambda>_. write_each wr xs (length xs)))"
    by (intro ext) simp
  show ?case unfolding eq by (rule puts_mono [OF puts_bind [OF Cons.prems Cons.IH]]) (use Cons.prems in auto)
qed

lemma gives_list:
  "(\<And>x es. x \<in> set xs \<Longrightarrow> E x es \<Longrightarrow> gives rd es (h x)) \<Longrightarrow> encodes_each E xs ds
    \<Longrightarrow> gives (read_elements rd (length xs)) ds (map h xs)"
proof (induction xs arbitrary: ds)
  case Nil
  have "read_elements rd 0 = ok []" by (intro ext) simp
  with Nil show ?case by simp
next
  case (Cons x xs)
  then obtain es fs where e: "E x es" "encodes_each E xs fs" "ds = es @ fs" by auto
  have "gives (\<lambda>s. bindR (rd s) (\<lambda>x s. bindR (read_elements rd (length xs) s) (\<lambda>xs. ok (x # xs)))) (es @ fs)
    (h x # map h xs)"
    using Cons.prems(1) e by (intro gives_bind [of rd _ "h x"] gives_then_ok [OF Cons.IH]) auto
  then show ?case using e(3) by (simp add: gives_def)
qed

lemma gives_array_of:
  assumes "\<And>x es. x \<in> set xs \<Longrightarrow> E x es \<Longrightarrow> gives rd es (h x)" and "encodes_each E xs ds"
    and "xs \<noteq> []" "0 < k" "k * length xs < 2 ^ 62"
  shows "gives (read_array_of rd k (length xs)) ds (Some (map h xs))"
  unfolding gives_def
proof (intro allI impI)
  fix c b r assume c: "reader c" "arena_sane b" "arena_grants b" "crest c = ds @ r"
  have rd: "gives (read_elements rd (length xs)) ds (map h xs)" by (rule gives_list [OF assms(1,2)])
  have "sz_mul (length xs) k = k * length xs" using assms(5) by (subst sz_mul_small) (simp_all add: mult.commute)
  moreover have "0 < k * length xs" using assms(3,4) by simp
  moreover from this assms(5) obtain q b' where b': "alloc_in (k * length xs) 8 (c, b) = ok (Some q) (c, b')"
    "arena_sane b'" "arena_grants b'" by (rule alloc_in_grants [OF c(2,3), of _ 8]) auto
  moreover from rd c(1,4) b'(2,3) obtain d e where
    "read_elements rd (length xs) (c, b') = ok (map h xs) (d, e)" "reader d" "crest d = r" "arena_sane e" "arena_grants e"
    unfolding gives_def by blast
  ultimately show "\<exists>d b'. read_array_of rd k (length xs) (c, b) = ok (Some (map h xs)) (d, b') \<and> reader d \<and> crest d = r
      \<and> arena_sane b' \<and> arena_grants b'"
    by (simp add: read_array_of_def ok_def)
qed

text \<open>Names: a C string or NULL, which is written as the empty string.\<close>

definition name_ok :: "u8 list option \<Rightarrow> bool" where
  "name_ok p = (case p of None \<Rightarrow> True
     | Some t \<Rightarrow> t \<noteq> [] \<and> last t = 0 \<and> 0 \<notin> set (butlast t) \<and> length t < 2 ^ 32 - 3)"

definition text_of :: "u8 list option \<Rightarrow> u8 list" where
  "text_of p = (case p of None \<Rightarrow> [0] | Some t \<Rightarrow> t)"

definition encodes_name :: "u8 list option \<Rightarrow> u32 list \<Rightarrow> bool" where
  "encodes_name p ds \<longleftrightarrow> (\<exists>es. ds = of_nat (length (text_of p)) # es \<and> holds_bytes (text_of p) es)"

lemma name_parts:
  assumes "name_ok p"
  obtains bs where "text_of p = bs @ [0]" "0 \<notin> set bs" "length bs < 2 ^ 32 - 4"
proof (cases p)
  case None
  then show thesis using that [of "[]"] by (simp add: text_of_def)
next
  case (Some t)
  then have t: "t \<noteq> []" "last t = 0" "0 \<notin> set (butlast t)" "length t < 2 ^ 32 - 3"
    using assms by (simp_all add: name_ok_def)
  have "butlast t @ [0] = t" using append_butlast_last_id [OF t(1)] unfolding t(2) .
  with Some have "text_of p = butlast t @ [0]" by (simp add: text_of_def)
  then show thesis by (rule that) (use t in simp_all)
qed

lemma puts_name: "name_ok p \<Longrightarrow> puts (length (text_of p) + 2) (encodes_name p) (write_name p)"
proof (erule name_parts)
  fix bs assume b: "text_of p = bs @ [0]" "0 \<notin> set bs"
  have "write_name p = nmo_chunk_write_string (Some (bs @ [0]))" using b(1) by (simp add: write_name_def text_of_def)
  moreover have "puts (length (text_of p) + 2) (encodes_name p) (nmo_chunk_write_string (Some (bs @ [0])))"
    by (rule puts_mono [OF puts_bytes(1) [OF b(2)]]) (auto simp: encodes_name_def b(1))
  ultimately show ?thesis by simp
qed

lemma gives_name: "name_ok p \<Longrightarrow> encodes_name p ds \<Longrightarrow> gives read_name ds (Some (text_of p))"
proof (erule name_parts)
  fix bs assume b: "text_of p = bs @ [0]" "length bs < 2 ^ 32 - 4" and e: "encodes_name p ds"
  from e b(1) obtain es where es: "ds = of_nat (length bs + 1) # es" "holds_bytes (bs @ [0]) es"
    by (auto simp: encodes_name_def)
  show ?thesis using string_yields [OF b(2) es(2)] b(1) es(1)
    unfolding yields_def gives_def read_name_def settled_def by (fastforce simp: ok_def bindE_Done_iff)
qed

section \<open>A state in one section\<close>

locale section_codec =
  fixes ident :: u32
    and save :: "'s \<Rightarrow> chunk_cursor \<Rightarrow> unit cures"
    and load :: "chunk_cursor \<times> arena \<Rightarrow> 's sres"
    and load_section :: "chunk_cursor \<times> arena \<Rightarrow> 's sres"
    and load_other :: "chunk_cursor \<times> arena \<Rightarrow> 's sres"
    and admits :: "'s \<Rightarrow> bool"
    and kept :: "'s \<Rightarrow> 's"
    and cost :: "'s \<Rightarrow> nat"
    and encodes :: "'s \<Rightarrow> u32 list \<Rightarrow> bool"
  assumes save_law: "admits st \<Longrightarrow> puts (cost st) (\<lambda>ws. \<exists>ds. encodes st ds \<and> ws = ident # ds) (save st)"
    and load_law: "load s = bindR (seek ident s) (\<lambda>found s. if found then load_section s else load_other s)"
    and section_law: "admits st \<Longrightarrow> encodes st ds \<Longrightarrow> ends load_section ds (kept st)"
begin

lemma state_round_trip:
  assumes c: "cursor_wf c" "arena_grants (cu_arena c)" and b: "arena_sane b" "arena_grants b"
    and st: "admits st" "cload c + cost st \<le> 2 ^ 56"
  shows "\<exists>c1 c2 c3 d b'. nmo_chunk_start_write c = ok () c1 \<and> save st c1 = ok () c2
    \<and> nmo_chunk_start_read c2 = ok () c3 \<and> load (c3, b) = ok (kept st) (d, b')"
proof -
  obtain c1 where c1: "nmo_chunk_start_write c = ok () c1" "cursor_wf c1" "opened c1" "arena_grants (cu_arena c1)"
    "cpos c1 = 0" "csize c1 = 0" "cload c1 \<le> cload c"
    by (rule start_write_ok [OF c])
  have "runs (cost st) c1 (save st c1) (\<lambda>_ d. \<exists>ws. (\<exists>ds. encodes st ds \<and> ws = ident # ds) \<and> written ws c1 d)"
    using save_law [OF st(1)] c1 st(2) by (simp add: puts_def)
  then obtain y c2 ds where c2: "save st c1 = Done (Inr y, c2)" "cursor_wf c2" "opened c2" "arena_grants (cu_arena c2)"
    "encodes st ds" "written (ident # ds) c1 c2"
    by (rule runs_grants [OF _ c1(4)]) blast
  have full: "take (csize c2) (cmem c2) = ident # ds" using c2(6) c1(5,6) by (auto simp: written_def)
  from start_read_ok [OF c2(2-4)] obtain c3 where c3: "nmo_chunk_start_read c2 = ok () c3" "reader c3"
    "crest c3 = ident # ds" "whole c3 = ident # ds"
  proof -
    from c2(3) obtain s where s: "cu_state c2 = Some s" by (auto simp: opened_def)
    have r: "nmo_chunk_start_read c2 = ok () (set_prev 0 (set_pos 0 c2))" using s
      by (simp add: nmo_chunk_start_read_def get_parser_state_def cursor_sets)
    obtain d where d: "nmo_chunk_start_read c2 = ok () d" "reader d" "crest d = take (csize c2) (cmem c2)"
      by (rule start_read_ok [OF c2(2-4)])
    have "whole d = take (csize c2) (cmem c2)" using d(1) r s by (auto simp: ok_def whole_def cursor_sets cmem_def)
    with d full that show thesis by auto
  qed
  obtain d where d: "nmo_chunk_seek_identifier ident c3 = ok () d" "reader d" "crest d = ds"
    by (rule seek_found [OF c3(2), of "[]" ident ds]) (use c3(4) in simp_all)
  have "seek ident (c3, b) = ok True (d, b)" by (simp add: seek_def try_get_def beside_arena_def d(1)) (simp add: ok_def)
  moreover from section_law [OF st(1) c2(5)] d(2,3) b obtain e b' where "load_section (d, b) = ok (kept st) (e, b')"
    unfolding ends_def by blast
  ultimately have "load (c3, b) = ok (kept st) (e, b')" by (simp add: load_law ok_def)
  with c1(1) c2(1) c3(1) show ?thesis by (auto simp: ok_def)
qed

end

section \<open>A new chunk\<close>

lemma new_chunk:
  obtains a where "nmo_arena_create (\<lambda>_ _. True) (\<lambda>_ _. 0) 0 = Done (Some a)" "arena_sane a" "arena_grants a" "arena_wf 2 a"
    "cursor_wf (cursor_of (Chunk empty_body None) a)" "arena_grants (cu_arena (cursor_of (Chunk empty_body None) a))"
    "cload (cursor_of (Chunk empty_body None) a) = 0"
proof -
  obtain a where a: "nmo_arena_create (\<lambda>_ _. True) (\<lambda>_ _. 0) 0 = Done (Some a)" "arena_sane a" "arena_grants a"
    by (rule default_arena_exists)
  have "arena_wf 2 a" by (rule default_arena_wf [OF a(1)]) simp
  with a show thesis
    by (intro that) (simp_all add: cursor_of_def cursor_wf_def tracked_ok_def empty_body_def nmo_chunk_get_position_def cload_def)
qed

end
