(* ===== verification/StateRoundTrips.thy ===== *)
theory StateRoundTrips
  imports StateCodec
begin

text \<open>
  The classes whose state is one section of their chunk: behaviour inputs and outputs, behaviour links,
  parameters, parameter operations and the two managers each provide the interface \<open>section_codec\<close>.
\<close>

section \<open>CKBehaviorIO and CKBehaviorLink\<close>

lemma puts_after_identifier:
  "puts k P m \<Longrightarrow> puts (k + 1) (\<lambda>ws. \<exists>ds. P ds \<and> ws = x # ds) (\<lambda>c. bindR (nmo_chunk_write_identifier x c) (\<lambda>_. m))"
  by (rule puts_mono [OF puts_bind [OF scalar_puts(8)]]) auto

text \<open>One rule for each read: the words in front of it, and what is left to read behind them.\<close>

lemma step:
  "yields f ds v \<Longrightarrow> gives (g v) es u \<Longrightarrow> gives (\<lambda>s. bindR (get f s) g) (ds @ es) u"
  "yields f ds v \<Longrightarrow> ends (g v) es u \<Longrightarrow> ends (\<lambda>s. bindR (get f s) g) (ds @ es) u"
  "yields f ds v \<Longrightarrow> gives (g v) es u \<Longrightarrow> gives (\<lambda>s. bindR (read_or f x s) g) (ds @ es) u"
  "yields f ds v \<Longrightarrow> ends (g v) es u \<Longrightarrow> ends (\<lambda>s. bindR (read_or f x s) g) (ds @ es) u"
  by (erule (1) gives_bind [OF gives_get] ends_bind [OF gives_get] gives_bind [OF gives_or] ends_bind [OF gives_or])+

lemma ends_ok: "ends (ok v) [] v"
  by (simp add: ends_def ok_def)

lemmas gives_steps =
  step(1) [OF scalar_yields(3), simplified] step(1) [OF scalar_yields(4), simplified]
  step(1) [OF scalar_yields(5), simplified] step(1) [OF scalar_yields(6), simplified]
  step(1) [OF guid_yields, simplified] step(3) [OF scalar_yields(6), simplified] step(3) [OF guid_yields, simplified]

lemmas ends_steps = ends_ok
  step(2) [OF scalar_yields(3), simplified] step(2) [OF scalar_yields(4), simplified]
  step(2) [OF scalar_yields(5), simplified] step(2) [OF scalar_yields(6), simplified]
  step(2) [OF guid_yields, simplified] step(4) [OF scalar_yields(6), simplified] step(4) [OF guid_yields, simplified]

interpretation behaviorio: section_codec CK_STATESAVE_BEHAV_IOFLAGS nmo_ckbehaviorio_serialize
  nmo_ckbehaviorio_deserialize "\<lambda>s. bindR (get nmo_chunk_read_dword s) (\<lambda>x. ok \<lparr>old_flags = x\<rparr>)"
  "ok \<lparr>old_flags = 0\<rparr>" "\<lambda>_. True" "\<lambda>st. st" "\<lambda>_. 2" "\<lambda>st ds. ds = [old_flags st]"
proof unfold_locales
  fix st :: nmo_ckbehaviorio_state
  show "puts 2 (\<lambda>ws. \<exists>ds. ds = [old_flags st] \<and> ws = CK_STATESAVE_BEHAV_IOFLAGS # ds) (nmo_ckbehaviorio_serialize st)"
    unfolding nmo_ckbehaviorio_serialize_def [abs_def]
    by (rule puts_mono [OF puts_after_identifier [OF scalar_puts(4)]]) auto
next
  fix st :: nmo_ckbehaviorio_state and ds assume "ds = [old_flags st]"
  moreover have "ends (\<lambda>s. bindR (get nmo_chunk_read_dword s) (\<lambda>x. ok \<lparr>old_flags = x\<rparr>)) [old_flags st]
      \<lparr>old_flags = old_flags st\<rparr>"
    by (rule ends_steps)+
  ultimately show "ends (\<lambda>s. bindR (get nmo_chunk_read_dword s) (\<lambda>x. ok \<lparr>old_flags = x\<rparr>)) ds st"
    by (cases st) simp
qed (simp add: nmo_ckbehaviorio_deserialize_def)

definition link_delays :: "nmo_ckbehaviorlink_state \<Rightarrow> u32" where
  "link_delays st = (scast (activation_delay st) AND 0xFFFF) OR push_bit 16 (scast (initial_activation_delay st) AND 0xFFFF)"

lemma link_delays_split:
  "ucast (link_delays st AND 0xFFFF) = activation_delay st"
  "ucast (drop_bit 16 (link_delays st) AND 0xFFFF) = initial_activation_delay st"
proof -
  have m: "(0xFFFF :: u32) = mask 16" by (simp add: mask_eq_exp_minus_1)
  show "ucast (link_delays st AND 0xFFFF) = activation_delay st"
    unfolding link_delays_def m by (rule bit_word_eqI) (auto simp: bit_simps bit_ucast_iff)
  show "ucast (drop_bit 16 (link_delays st) AND 0xFFFF) = initial_activation_delay st"
    unfolding link_delays_def m by (rule bit_word_eqI) (auto simp: bit_simps bit_ucast_iff)
qed

text \<open>The writer's words behind an identifier, and a word in front of others.\<close>

lemma puts_word:
  "puts k P m \<Longrightarrow> puts (k + 1) (\<lambda>ws. \<exists>ds. P ds \<and> ws = x # ds) (\<lambda>c. bindR (nmo_chunk_write_dword x c) (\<lambda>_. m))"
  "puts k P m \<Longrightarrow> puts (k + 1) (\<lambda>ws. \<exists>ds. P ds \<and> ws = x # ds) (\<lambda>c. bindR (nmo_chunk_write_int x c) (\<lambda>_. m))"
  "puts k P m \<Longrightarrow> puts (k + 2) (\<lambda>ws. \<exists>ds. P ds \<and> ws = x # ds) (\<lambda>c. bindR (nmo_chunk_write_object_id x c) (\<lambda>_. m))"
  "puts k P m \<Longrightarrow> puts (k + 2) (\<lambda>ws. \<exists>ds. P ds \<and> ws = d1 g # d2 g # ds) (\<lambda>c. bindR (nmo_chunk_write_guid g c) (\<lambda>_. m))"
  by (rule puts_mono [OF puts_bind [OF scalar_puts(4)]], simp, simp, fastforce)
     (rule puts_mono [OF puts_bind [OF scalar_puts(3)]], simp, simp, fastforce,
      rule puts_mono [OF puts_bind [OF scalar_puts(7)]], simp, simp, fastforce,
      rule puts_mono [OF puts_bind [OF scalar_puts(6)]], simp, simp, fastforce)

definition load_link :: "chunk_cursor \<times> arena \<Rightarrow> nmo_ckbehaviorlink_state sres" where
  "load_link s = bindR (get nmo_chunk_read_dword s) (\<lambda>delays.
     read_link_ends \<lparr>activation_delay = ucast (delays AND 0xFFFF),
                     initial_activation_delay = ucast (drop_bit 16 delays AND 0xFFFF), in_io_id = 0, out_io_id = 0\<rparr>)"

definition load_old_link :: "chunk_cursor \<times> arena \<Rightarrow> nmo_ckbehaviorlink_state sres" where
  "load_old_link s = (let st = \<lparr>activation_delay = 1, initial_activation_delay = 1, in_io_id = 0, out_io_id = 0\<rparr>
     in bindR (seek CK_STATESAVE_BEHAV_LINK_CURDELAY s) (\<lambda>found s.
          bindR (if found
                 then bindR (get nmo_chunk_read_int s) (\<lambda>d. ok (st\<lparr>activation_delay := ucast d\<rparr>))
                 else ok st s) (\<lambda>st s.
            bindR (seek CK_STATESAVE_BEHAV_LINK_IOS s) (\<lambda>found s.
              if found then read_link_ends st s else ok st s))))"

interpretation behaviorlink: section_codec CK_STATESAVE_BEHAV_LINK_NEWDATA nmo_ckbehaviorlink_serialize
  nmo_ckbehaviorlink_deserialize load_link load_old_link "\<lambda>_. True" "\<lambda>st. st" "\<lambda>_. 6"
  "\<lambda>st ds. ds = [link_delays st, in_io_id st, out_io_id st]"
proof unfold_locales
  fix st :: nmo_ckbehaviorlink_state
  show "puts 6 (\<lambda>ws. \<exists>ds. ds = [link_delays st, in_io_id st, out_io_id st]
      \<and> ws = CK_STATESAVE_BEHAV_LINK_NEWDATA # ds) (nmo_ckbehaviorlink_serialize st)"
    unfolding nmo_ckbehaviorlink_serialize_def [abs_def] link_delays_def [symmetric] Let_def
    by (rule puts_mono [OF puts_after_identifier [OF puts_word(1) [OF puts_word(3) [OF scalar_puts(7)]]]]) auto
next
  fix st :: nmo_ckbehaviorlink_state and ds assume ds: "ds = [link_delays st, in_io_id st, out_io_id st]"
  have "ends load_link [link_delays st, in_io_id st, out_io_id st]
    \<lparr>activation_delay = activation_delay st, initial_activation_delay = initial_activation_delay st,
     in_io_id = in_io_id st, out_io_id = out_io_id st\<rparr>"
    unfolding load_link_def [abs_def] read_link_ends_def
    by (rule ends_steps, simp add: link_delays_split, (rule ends_steps)+)
  then show "ends load_link ds st" by (cases st) (simp add: ds)
qed (simp add: nmo_ckbehaviorlink_deserialize_def load_link_def load_old_link_def Let_def cong: if_cong)

section \<open>CKParameter\<close>

text \<open>A block is saved when there is one; its size is that of its memory.\<close>

definition block_ok :: "u8 list option \<Rightarrow> nat \<Rightarrow> bool" where
  "block_ok p n = (case p of None \<Rightarrow> True | Some bs \<Rightarrow> n = length bs \<and> n < 2 ^ 32 - 4)"

definition kept_block :: "u8 list option \<Rightarrow> nat \<Rightarrow> u8 list option \<times> nat" where
  "kept_block p n = (if p \<noteq> None \<and> n > 0 then (p, n) else (None, 0))"

definition encodes_block :: "u8 list option \<Rightarrow> nat \<Rightarrow> u32 list \<Rightarrow> bool" where
  "encodes_block p n ds = (case fst (kept_block p n) of
       None \<Rightarrow> ds = [] | Some bs \<Rightarrow> \<exists>es. ds = of_nat (length bs) # es \<and> holds_bytes bs es)"

definition block_cost :: "u8 list option \<Rightarrow> nat" where
  "block_cost p = (case p of None \<Rightarrow> 0 | Some bs \<Rightarrow> length bs + 3)"

lemma puts_block: "block_ok p n \<Longrightarrow> puts (block_cost p) (encodes_block p n) (write_block p n)"
proof (cases "p \<noteq> None \<and> n > 0")
  case True
  then obtain bs where p: "p = Some bs" by blast
  assume "block_ok p n"
  then have n: "n = length bs" by (simp add: p block_ok_def)
  have "write_block p n = nmo_chunk_write_buffer (Some bs) (length bs)"
    using True by (auto simp: write_block_def p n intro!: ext)
  moreover have "puts (length bs + 3) (encodes_block p n) (nmo_chunk_write_buffer (Some bs) (length bs))"
    by (rule puts_mono [OF puts_bytes(2)]) (use True in \<open>auto simp: encodes_block_def kept_block_def p n\<close>)
  ultimately show ?thesis by (simp add: block_cost_def p)
next
  case False
  then have "write_block p n = ok ()" "encodes_block p n = (\<lambda>ds. ds = [])"
    by (auto simp: write_block_def encodes_block_def kept_block_def intro!: ext)
  then show ?thesis by (simp add: puts_mono [OF puts_nothing])
qed

lemma read_buffer_at_end: "reader c \<Longrightarrow> crest c = [] \<Longrightarrow> nmo_chunk_read_buffer c = fail NMO_ERR_EOF c"
  by (simp only: nmo_chunk_read_buffer_def crest_end simp_thms if_True)

lemma ends_copy:
  assumes "block_ok p n" "encodes_block p n ds"
  shows "ends read_copy ds (kept_block p n)"
proof (cases "p \<noteq> None \<and> n > 0")
  case False
  then have "ds = []" "kept_block p n = (None, 0)" using assms(2) by (auto simp: encodes_block_def kept_block_def)
  then show ?thesis
    by (simp add: ends_def read_copy_def try_get_def beside_arena_def read_buffer_at_end fail_def ok_def)
next
  case True
  then obtain bs where p: "p = Some bs" by blast
  from assms True obtain es where d: "n = length bs" "length bs < 2 ^ 32 - 4" "bs \<noteq> []"
    "ds = of_nat (length bs) # es" "holds_bytes bs es" "kept_block p n = (Some bs, length bs)"
    by (auto simp: p block_ok_def encodes_block_def kept_block_def)
  have y: "gives (try_get nmo_chunk_read_buffer) ds (Some (length bs, Some bs))"
    using gives_try [OF buffer_yields [OF d(2,5)]] d(3,4) by simp
  show ?thesis unfolding ends_def
  proof (intro allI impI)
    fix c b assume c: "reader c" "arena_sane b" "arena_grants b" "crest c = ds"
    with y obtain d' b' where r: "try_get nmo_chunk_read_buffer (c, b) = ok (Some (length bs, Some bs)) (d', b')"
      "arena_sane b'" "arena_grants b'" unfolding gives_def by (metis append.right_neutral)
    have "0 < length bs" "length bs < 2 ^ 62" using d(2,3) by simp_all
    then obtain q e where "alloc_in (length bs) 1 (d', b') = ok (Some q) (d', e)"
      by (rule alloc_in_grants [OF r(2,3), of "length bs" 1 d']) (auto intro: that)
    then show "\<exists>d b'. read_copy (c, b) = ok (kept_block p n) (d, b')"
      using d(3,6) r(1) by (simp add: read_copy_def) (simp add: ok_def)
  qed
qed

definition parameter_ok :: "nmo_ckparameter_state \<Rightarrow> bool" where
  "parameter_ok st \<longleftrightarrow> block_ok (buffer_data st) (buffer_size st) \<and> block_ok (subchunk_data st) (subchunk_size st)"

text \<open>What is saved of a parameter: its type, its mode, and the value that the mode selects.\<close>

definition kept_parameter :: "nmo_ckparameter_state \<Rightarrow> nmo_ckparameter_state" where
  "kept_parameter st =
     (let z = zero_parameter\<lparr>pm_type_guid := pm_type_guid st, pm_mode := pm_mode st\<rparr>
      in if pm_mode st = NMO_CKPARAM_MODE_NONE then z
         else if pm_mode st = NMO_CKPARAM_MODE_SUBCHUNK then
           let (p, n) = kept_block (subchunk_data st) (subchunk_size st) in z\<lparr>subchunk_data := p, subchunk_size := n\<rparr>
         else if pm_mode st = NMO_CKPARAM_MODE_OBJECT then z\<lparr>pm_object_id := pm_object_id st\<rparr>
         else if pm_mode st = NMO_CKPARAM_MODE_MANAGER then
           z\<lparr>pm_manager_guid := pm_manager_guid st, pm_manager_value := pm_manager_value st\<rparr>
         else let (p, n) = kept_block (buffer_data st) (buffer_size st) in z\<lparr>buffer_data := p, buffer_size := n\<rparr>)"

definition encodes_value :: "nmo_ckparameter_state \<Rightarrow> u32 list \<Rightarrow> bool" where
  "encodes_value st ds =
     (if pm_mode st = NMO_CKPARAM_MODE_NONE then ds = []
      else if pm_mode st = NMO_CKPARAM_MODE_SUBCHUNK then encodes_block (subchunk_data st) (subchunk_size st) ds
      else if pm_mode st = NMO_CKPARAM_MODE_OBJECT then ds = [pm_object_id st]
      else if pm_mode st = NMO_CKPARAM_MODE_MANAGER then
        ds = [d1 (pm_manager_guid st), d2 (pm_manager_guid st), pm_manager_value st]
      else encodes_block (buffer_data st) (buffer_size st) ds)"

definition encodes_parameter :: "nmo_ckparameter_state \<Rightarrow> u32 list \<Rightarrow> bool" where
  "encodes_parameter st ds \<longleftrightarrow>
     (\<exists>es. encodes_value st es \<and> ds = d1 (pm_type_guid st) # d2 (pm_type_guid st) # pm_mode st # es)"

definition parameter_cost :: "nmo_ckparameter_state \<Rightarrow> nat" where
  "parameter_cost st = block_cost (buffer_data st) + block_cost (subchunk_data st) + 8"

definition load_parameter :: "chunk_cursor \<times> arena \<Rightarrow> nmo_ckparameter_state sres" where
  "load_parameter s = bindR (get nmo_chunk_read_guid s) (\<lambda>g s. bindR (get nmo_chunk_read_dword s) (\<lambda>m.
     read_parameter_value (zero_parameter\<lparr>pm_type_guid := g, pm_mode := m\<rparr>)))"

lemmas mode_defs = NMO_CKPARAM_MODE_NONE_def NMO_CKPARAM_MODE_SUBCHUNK_def NMO_CKPARAM_MODE_OBJECT_def
  NMO_CKPARAM_MODE_MANAGER_def

lemma ends_value:
  assumes "parameter_ok st" "encodes_value st es"
  shows "ends (read_parameter_value (zero_parameter\<lparr>pm_type_guid := pm_type_guid st, pm_mode := pm_mode st\<rparr>)) es
    (kept_parameter st)"
proof -
  let ?z = "zero_parameter\<lparr>pm_type_guid := pm_type_guid st, pm_mode := pm_mode st\<rparr>"
  have copy: "ends (\<lambda>s. bindR (read_copy s) (\<lambda>(p, n). ok (f p n))) es (case kept_block p n of (p, n) \<Rightarrow> f p n)"
    if "block_ok p n" "encodes_block p n es" for f :: "u8 list option \<Rightarrow> nat \<Rightarrow> nmo_ckparameter_state" and p n
    using ends_then_ok [OF ends_copy [OF that], of _ "\<lambda>(p, n). f p n"] by (simp add: case_prod_unfold)
  have manager: "ends (\<lambda>s. bindR (try_get nmo_chunk_read_manager_int s) (\<lambda>r s. case r of
          Some (g, v) \<Rightarrow> ok (?z\<lparr>pm_manager_guid := g, pm_manager_value := v\<rparr>) s
        | None \<Rightarrow> bindR (read_bare_manager_value s) (\<lambda>v. ok (?z\<lparr>pm_manager_value := v\<rparr>))))
      [d1 g, d2 g, v] (?z\<lparr>pm_manager_guid := g, pm_manager_value := v\<rparr>)" for g v
    using ends_bind [OF gives_try [OF manager_int_yields [of g v]], where es = "[]"
        and g = "\<lambda>r s. case r of Some (g, v) \<Rightarrow> ok (?z\<lparr>pm_manager_guid := g, pm_manager_value := v\<rparr>) s
          | None \<Rightarrow> bindR (read_bare_manager_value s) (\<lambda>v. ok (?z\<lparr>pm_manager_value := v\<rparr>))"]
    by (simp add: ends_ok)
  have object: "ends (\<lambda>s. bindR (get nmo_chunk_read_object_id s) (\<lambda>x. ok (?z\<lparr>pm_object_id := x\<rparr>)))
      [pm_object_id st] (?z\<lparr>pm_object_id := pm_object_id st\<rparr>)" by (rule ends_steps)+
  show ?thesis using assms copy object manager ends_ok
    unfolding read_parameter_value_def kept_parameter_def encodes_value_def parameter_ok_def
    by (auto simp: Let_def case_prod_unfold mode_defs)
qed

interpretation ckparameter: section_codec CK_PARAM_IDENTIFIER nmo_ckparameter_serialize
  nmo_ckparameter_deserialize load_parameter "ok zero_parameter" parameter_ok kept_parameter parameter_cost encodes_parameter
proof unfold_locales
  fix st assume ok: "parameter_ok st"
  let ?w = "\<lambda>c. if pm_mode st = NMO_CKPARAM_MODE_NONE then ok () c
       else if pm_mode st = NMO_CKPARAM_MODE_SUBCHUNK then write_block (subchunk_data st) (subchunk_size st) c
       else if pm_mode st = NMO_CKPARAM_MODE_OBJECT then nmo_chunk_write_object_id (pm_object_id st) c
       else if pm_mode st = NMO_CKPARAM_MODE_MANAGER then
         nmo_chunk_write_manager_int (pm_manager_guid st) (pm_manager_value st) c
       else write_block (buffer_data st) (buffer_size st) c"
  have "puts (parameter_cost st - 4) (encodes_value st) ?w"
  proof -
    have "puts (parameter_cost st - 4) (encodes_value st) (write_block (subchunk_data st) (subchunk_size st))"
      if "pm_mode st = NMO_CKPARAM_MODE_SUBCHUNK"
      by (rule puts_mono [OF puts_block]) (use ok that in \<open>auto simp: parameter_ok_def parameter_cost_def encodes_value_def mode_defs\<close>)
    moreover have "puts (parameter_cost st - 4) (encodes_value st) (ok ())" if "pm_mode st = NMO_CKPARAM_MODE_NONE"
      by (rule puts_mono [OF puts_nothing]) (use that in \<open>auto simp: encodes_value_def\<close>)
    moreover have "puts (parameter_cost st - 4) (encodes_value st) (nmo_chunk_write_object_id (pm_object_id st))"
      if "pm_mode st = NMO_CKPARAM_MODE_OBJECT"
      by (rule puts_mono [OF scalar_puts(7)]) (use that in \<open>auto simp: encodes_value_def parameter_cost_def mode_defs\<close>)
    moreover have "puts (parameter_cost st - 4) (encodes_value st)
        (nmo_chunk_write_manager_int (pm_manager_guid st) (pm_manager_value st))"
      if "pm_mode st = NMO_CKPARAM_MODE_MANAGER"
      by (rule puts_mono [OF scalar_puts(9)]) (use that in \<open>auto simp: encodes_value_def parameter_cost_def mode_defs\<close>)
    moreover have "puts (parameter_cost st - 4) (encodes_value st) (write_block (buffer_data st) (buffer_size st))"
      if "pm_mode st \<notin> {NMO_CKPARAM_MODE_NONE, NMO_CKPARAM_MODE_SUBCHUNK, NMO_CKPARAM_MODE_OBJECT, NMO_CKPARAM_MODE_MANAGER}"
      by (rule puts_mono [OF puts_block]) (use ok that in \<open>auto simp: parameter_ok_def parameter_cost_def encodes_value_def\<close>)
    ultimately show ?thesis by (cases "pm_mode st = NMO_CKPARAM_MODE_NONE"; cases "pm_mode st = NMO_CKPARAM_MODE_SUBCHUNK";
        cases "pm_mode st = NMO_CKPARAM_MODE_OBJECT"; cases "pm_mode st = NMO_CKPARAM_MODE_MANAGER") simp_all
  qed
  from puts_after_identifier [OF puts_word(4) [OF puts_word(1) [OF this]]]
  show "puts (parameter_cost st) (\<lambda>ws. \<exists>ds. encodes_parameter st ds \<and> ws = CK_PARAM_IDENTIFIER # ds)
      (nmo_ckparameter_serialize st)"
    unfolding nmo_ckparameter_serialize_def [abs_def]
    by (rule puts_mono) (auto simp: encodes_parameter_def parameter_cost_def)
next
  fix st ds assume st: "parameter_ok st" "encodes_parameter st ds"
  then obtain es where es: "encodes_value st es" "ds = d1 (pm_type_guid st) # d2 (pm_type_guid st) # pm_mode st # es"
    by (auto simp: encodes_parameter_def)
  show "ends load_parameter ds (kept_parameter st)" unfolding load_parameter_def [abs_def] es(2)
    by (rule ends_steps)+ (rule ends_value [OF st(1) es(1)])
qed (auto simp: nmo_ckparameter_deserialize_def section_of_def load_parameter_def intro!: arg_cong [where f = "bindR _"] ext)

section \<open>CKParameterOperation\<close>

definition load_operation :: "chunk_cursor \<times> arena \<Rightarrow> nmo_ckparameteroperation_state sres" where
  "load_operation s =
     (let st = \<lparr>operation_guid = zero_guid, input1_id = 0, input2_id = 0, output_id = 0, owner_id = 0\<rparr>
      in bindR (read_operation_guid st s) (\<lambda>st s.
         bindR (read_or nmo_chunk_read_object_sequence_start 0 s) (\<lambda>seq_count s.
           if seq_count \<ge> 3 then bindR (read_operation_inputs st s) read_operation_output else ok st s)))"

definition load_old_operation :: "chunk_cursor \<times> arena \<Rightarrow> nmo_ckparameteroperation_state sres" where
  "load_old_operation s =
     (let st = \<lparr>operation_guid = zero_guid, input1_id = 0, input2_id = 0, output_id = 0, owner_id = 0\<rparr>
      in bindR (section_of CK_STATESAVE_OPERATIONOP read_operation_guid st s) (\<lambda>st s.
         bindR (section_of CK_STATESAVE_OPERATIONDEFAULTDATA (\<lambda>st s.
                  bindR (read_or nmo_chunk_read_object_id 0 s) (\<lambda>x. ok (st\<lparr>owner_id := x\<rparr>))) st s) (\<lambda>st s.
         bindR (section_of CK_STATESAVE_OPERATIONOUTPUT read_operation_output st s) (\<lambda>st.
           section_of CK_STATESAVE_OPERATIONINPUTS read_operation_inputs st))))"

interpretation ckoperation: section_codec CK_STATESAVE_OPERATIONNEWDATA nmo_ckparameteroperation_serialize
  nmo_ckparameteroperation_deserialize load_operation load_old_operation "\<lambda>_. True" "\<lambda>st. st\<lparr>owner_id := 0\<rparr>" "\<lambda>_. 10"
  "\<lambda>st ds. ds = [d1 (operation_guid st), d2 (operation_guid st), 3, input1_id st, input2_id st, output_id st]"
proof unfold_locales
  fix st :: nmo_ckparameteroperation_state
  show "puts 10 (\<lambda>ws. \<exists>ds. ds = [d1 (operation_guid st), d2 (operation_guid st), 3, input1_id st, input2_id st, output_id st]
      \<and> ws = CK_STATESAVE_OPERATIONNEWDATA # ds) (nmo_ckparameteroperation_serialize st)"
    unfolding nmo_ckparameteroperation_serialize_def [abs_def]
    by (rule puts_mono [OF puts_after_identifier [OF puts_word(4) [OF puts_word(1)
          [OF puts_word(3) [OF puts_word(3) [OF scalar_puts(7)]]]]]]) auto
next
  fix st :: nmo_ckparameteroperation_state and ds
  let ?z = "\<lparr>operation_guid = operation_guid st, input1_id = 0, input2_id = 0, output_id = 0, owner_id = 0\<rparr>"
  assume ds: "ds = [d1 (operation_guid st), d2 (operation_guid st), 3, input1_id st, input2_id st, output_id st]"
  have three: "yields nmo_chunk_read_object_sequence_start [3] 3" using sequence_start_yields [of 3] by simp
  have guid: "gives (read_operation_guid \<lparr>operation_guid = zero_guid, input1_id = 0, input2_id = 0, output_id = 0, owner_id = 0\<rparr>)
      [d1 (operation_guid st), d2 (operation_guid st)] ?z"
    unfolding read_operation_guid_def by (rule gives_then_ok [OF gives_or [OF guid_yields]]) simp
  have ins: "gives (read_operation_inputs ?z) [input1_id st, input2_id st] (?z\<lparr>input1_id := input1_id st, input2_id := input2_id st\<rparr>)"
    unfolding read_operation_inputs_def by (rule gives_steps, rule gives_then_ok [OF gives_or [OF scalar_yields(6)]]) simp
  have out: "ends (read_operation_output (?z\<lparr>input1_id := input1_id st, input2_id := input2_id st\<rparr>)) [output_id st] (st\<lparr>owner_id := 0\<rparr>)"
    unfolding read_operation_output_def
    by (rule ends_then_ok [OF gives_ends [OF gives_or [OF scalar_yields(6)]]]) simp
  have "ends (\<lambda>s. bindR (read_operation_guid \<lparr>operation_guid = zero_guid, input1_id = 0, input2_id = 0, output_id = 0, owner_id = 0\<rparr> s)
      (\<lambda>st s. bindR (read_or nmo_chunk_read_object_sequence_start 0 s) (\<lambda>seq_count s.
         if seq_count \<ge> 3 then bindR (read_operation_inputs st s) read_operation_output else ok st s)))
    ([d1 (operation_guid st), d2 (operation_guid st)] @ [3] @ [input1_id st, input2_id st] @ [output_id st]) (st\<lparr>owner_id := 0\<rparr>)"
    by (rule ends_bind [OF guid], rule ends_bind [OF gives_or [OF three]], simp only: order_refl if_True, rule ends_bind [where g = read_operation_output, OF ins out])
  then show "ends load_operation ds (st\<lparr>owner_id := 0\<rparr>)" by (simp add: load_operation_def [abs_def] ds)
qed (simp add: nmo_ckparameteroperation_deserialize_def load_operation_def load_old_operation_def Let_def cong: if_cong)

section \<open>CKMessageManager\<close>

definition messages_ok :: "nmo_ckmessagemanager_state \<Rightarrow> bool" where
  "messages_ok st \<longleftrightarrow> (case message_type_names st of None \<Rightarrow> False
     | Some ps \<Rightarrow> ps \<noteq> [] \<and> length ps \<le> 10000 \<and> message_type_count st = of_nat (length ps) \<and> list_all name_ok ps)"

definition message_names :: "nmo_ckmessagemanager_state \<Rightarrow> u8 list option list" where
  "message_names st = (case message_type_names st of None \<Rightarrow> [] | Some ps \<Rightarrow> ps)"

definition kept_messages :: "nmo_ckmessagemanager_state \<Rightarrow> nmo_ckmessagemanager_state" where
  "kept_messages st = st\<lparr>message_type_names := map_option (map (\<lambda>p. Some (text_of p))) (message_type_names st)\<rparr>"

definition load_messages :: "chunk_cursor \<times> arena \<Rightarrow> nmo_ckmessagemanager_state sres" where
  "load_messages s = bindR (get nmo_chunk_read_int s) (\<lambda>type_count s.
     if sint type_count \<le> 0 then ok \<lparr>message_type_count = 0, message_type_names = None\<rparr> s
     else if sint type_count > 10000 then fail NMO_ERR_VALIDATION_FAILED s
     else bindR (read_array_of read_name 8 (unat type_count) s) (\<lambda>ps.
            ok \<lparr>message_type_count = type_count, message_type_names = ps\<rparr>))"

lemma sint_of_count: "n \<le> 100000 \<Longrightarrow> sint (of_nat n :: u32) = int n" "n \<le> 100000 \<Longrightarrow> unat (of_nat n :: u32) = n"
  by (simp add: sint_small_word) (simp add: unat_of_nat)

interpretation ckmessages: section_codec CK_STATESAVE_MESSAGEMANAGER nmo_ckmessagemanager_serialize
  nmo_ckmessagemanager_deserialize load_messages "ok \<lparr>message_type_count = 0, message_type_names = None\<rparr>" messages_ok
  kept_messages "\<lambda>st. sum_list (map (\<lambda>p. length (text_of p) + 2) (message_names st)) + 2"
  "\<lambda>st ds. \<exists>es. ds = message_type_count st # es \<and> encodes_each encodes_name (message_names st) es"
proof unfold_locales
  fix st assume "messages_ok st"
  then obtain ps where ps: "message_type_names st = Some ps" "message_names st = ps" "ps \<noteq> []" "length ps \<le> 10000"
    "message_type_count st = of_nat (length ps)" "list_all name_ok ps"
    by (auto simp: messages_ok_def message_names_def split: option.splits)
  have n: "unat (message_type_count st) = length ps" "message_type_count st \<noteq> 0"
    using ps sint_of_count(2) [of "length ps"] by (auto simp: unat_eq_zero [symmetric])
  have names: "puts (sum_list (map (\<lambda>p. length (text_of p) + 2) ps)) (encodes_each encodes_name ps)
      (write_each write_name ps (length ps))"
    by (rule puts_list, rule puts_name) (use ps(6) in \<open>simp add: list_all_iff\<close>)
  have eq: "nmo_ckmessagemanager_serialize st = (\<lambda>c. bindR (nmo_chunk_write_identifier CK_STATESAVE_MESSAGEMANAGER c)
      (\<lambda>_ c. bindR (nmo_chunk_write_int (message_type_count st) c) (\<lambda>_. write_each write_name ps (length ps))))"
    by (intro ext) (simp add: nmo_ckmessagemanager_serialize_def n ps(1))
  show "puts (sum_list (map (\<lambda>p. length (text_of p) + 2) (message_names st)) + 2)
      (\<lambda>ws. \<exists>ds. (\<exists>es. ds = message_type_count st # es \<and> encodes_each encodes_name (message_names st) es)
        \<and> ws = CK_STATESAVE_MESSAGEMANAGER # ds) (nmo_ckmessagemanager_serialize st)"
    unfolding eq by (rule puts_mono [OF puts_after_identifier [OF puts_word(2) [OF names]]]) (auto simp: ps(2))
next
  fix st ds assume "messages_ok st" and d: "\<exists>es. ds = message_type_count st # es \<and> encodes_each encodes_name (message_names st) es"
  then obtain ps where ps: "message_type_names st = Some ps" "message_names st = ps" "ps \<noteq> []" "length ps \<le> 10000"
    "message_type_count st = of_nat (length ps)" "list_all name_ok ps"
    by (auto simp: messages_ok_def message_names_def split: option.splits)
  from d obtain es where es: "ds = of_nat (length ps) # es" "encodes_each encodes_name ps es" by (auto simp: ps)
  let ?n = "of_nat (length ps) :: u32"
  have n: "sint ?n = int (length ps)" "unat ?n = length ps" using ps(4) by (simp_all only: sint_of_count)
  have "gives (read_array_of read_name 8 (length ps)) es (Some (map (\<lambda>p. Some (text_of p)) ps))"
    by (rule gives_array_of [OF _ es(2) ps(3)], rule gives_name) (use ps in \<open>auto simp: list_all_iff\<close>)
  from gives_ends [OF gives_then_ok [OF this refl]]
  have "ends (\<lambda>s. bindR (read_array_of read_name 8 (length ps) s) (\<lambda>ps. ok \<lparr>message_type_count = ?n, message_type_names = ps\<rparr>)) es
    \<lparr>message_type_count = ?n, message_type_names = Some (map (\<lambda>p. Some (text_of p)) ps)\<rparr>" .
  moreover have "kept_messages st = \<lparr>message_type_count = ?n, message_type_names = Some (map (\<lambda>p. Some (text_of p)) ps)\<rparr>"
    using ps by (simp add: kept_messages_def)
  moreover have "0 < length ps" using ps(3) by simp
  ultimately show "ends load_messages ds (kept_messages st)" unfolding load_messages_def [abs_def] es(1)
    by (intro ends_steps) (use ps(4) in \<open>simp add: n\<close>)
qed (auto simp: nmo_ckmessagemanager_deserialize_def section_of_def load_messages_def intro!: arg_cong [where f = "bindR _"] ext)

section \<open>CKAttributeManager\<close>

definition encodes_category :: "nmo_ckattribute_category \<Rightarrow> u32 list \<Rightarrow> bool" where
  "encodes_category x ds \<longleftrightarrow> (if cat_present x
     then \<exists>es. encodes_name (cat_name x) es \<and> ds = 1 # es @ [cat_flags x] else ds = [0])"

definition kept_category :: "nmo_ckattribute_category \<Rightarrow> nmo_ckattribute_category" where
  "kept_category x = (if cat_present x then x\<lparr>cat_name := Some (text_of (cat_name x))\<rparr> else zero_category)"

definition category_cost :: "nmo_ckattribute_category \<Rightarrow> nat" where
  "category_cost x = length (text_of (cat_name x)) + 4"

lemma puts_end: "puts k P m \<Longrightarrow> puts (k + 1) (\<lambda>ds. \<exists>es. P es \<and> ds = es @ [x]) (\<lambda>c. bindR (m c) (\<lambda>_. nmo_chunk_write_dword x))"
  by (rule puts_mono [OF puts_bind [OF _ scalar_puts(4)]]) auto

lemma puts_category: "name_ok (cat_name x) \<Longrightarrow> puts (category_cost x) (encodes_category x) (write_category x)"
proof -
  assume n: "name_ok (cat_name x)"
  show ?thesis
  proof (cases "cat_present x")
    case True
    then have eq: "write_category x = (\<lambda>c. bindR (nmo_chunk_write_int 1 c) (\<lambda>_ c.
        bindR (write_name (cat_name x) c) (\<lambda>_. nmo_chunk_write_dword (cat_flags x))))"
      by (intro ext) (simp add: write_category_def)
    show ?thesis unfolding eq
      by (rule puts_mono [OF puts_word(2) [OF puts_end [OF puts_name [OF n]]]])
         (use True in \<open>auto simp: category_cost_def encodes_category_def\<close>)
  next
    case False
    then have eq: "write_category x = (\<lambda>c. bindR (nmo_chunk_write_int 0 c) (\<lambda>_. ok ()))"
      by (intro ext) (simp add: write_category_def)
    show ?thesis unfolding eq
      by (rule puts_mono [OF puts_word(2) [OF puts_nothing]])
         (use False in \<open>auto simp: category_cost_def encodes_category_def\<close>)
  qed
qed

lemma gives_category:
  assumes "name_ok (cat_name x)" "encodes_category x ds"
  shows "gives read_category ds (kept_category x)"
proof (cases "cat_present x")
  case True
  then obtain es where es: "encodes_name (cat_name x) es" "ds = 1 # es @ [cat_flags x]"
    using assms(2) by (auto simp: encodes_category_def)
  have "gives (\<lambda>s. bindR (read_name s) (\<lambda>p s. bindR (get nmo_chunk_read_dword s) (\<lambda>fl.
      ok \<lparr>cat_name = p, cat_flags = fl, cat_present = True\<rparr>))) (es @ [cat_flags x])
      \<lparr>cat_name = Some (text_of (cat_name x)), cat_flags = cat_flags x, cat_present = True\<rparr>"
    by (rule gives_bind [OF gives_name [OF assms(1) es(1)]]) (rule gives_then_ok [OF gives_get [OF scalar_yields(4)]], rule refl)
  moreover have "kept_category x = \<lparr>cat_name = Some (text_of (cat_name x)), cat_flags = cat_flags x, cat_present = True\<rparr>"
    using True by (simp add: kept_category_def)
  ultimately show ?thesis unfolding read_category_def [abs_def] es(2) by (intro gives_steps) simp
next
  case False
  then show ?thesis using assms(2) unfolding read_category_def [abs_def]
    by (simp add: encodes_category_def kept_category_def) (rule gives_steps, simp)
qed

definition encodes_descriptor :: "nmo_ckattribute_descriptor \<Rightarrow> u32 list \<Rightarrow> bool" where
  "encodes_descriptor x ds \<longleftrightarrow> (if at_present x
     then \<exists>es. encodes_name (at_name x) es \<and> ds = 1 # es @ [d1 (parameter_type_guid x), d2 (parameter_type_guid x),
            category_index x, at_compatible_class_id x, at_flags x]
     else ds = [0])"

definition kept_descriptor :: "nmo_ckattribute_descriptor \<Rightarrow> nmo_ckattribute_descriptor" where
  "kept_descriptor x = (if at_present x then x\<lparr>at_name := Some (text_of (at_name x))\<rparr> else zero_descriptor)"

definition descriptor_cost :: "nmo_ckattribute_descriptor \<Rightarrow> nat" where
  "descriptor_cost x = length (text_of (at_name x)) + 8"

lemma puts_descriptor: "name_ok (at_name x) \<Longrightarrow> puts (descriptor_cost x) (encodes_descriptor x) (write_descriptor x)"
proof -
  assume n: "name_ok (at_name x)"
  show ?thesis
  proof (cases "at_present x")
    case True
    then have eq: "write_descriptor x = (\<lambda>c. bindR (nmo_chunk_write_int 1 c) (\<lambda>_ c.
        bindR (write_name (at_name x) c) (\<lambda>_ c. bindR (nmo_chunk_write_guid (parameter_type_guid x) c) (\<lambda>_ c.
        bindR (nmo_chunk_write_int (category_index x) c) (\<lambda>_ c.
        bindR (nmo_chunk_write_int (at_compatible_class_id x) c) (\<lambda>_. nmo_chunk_write_dword (at_flags x)))))))"
      by (intro ext) (simp add: write_descriptor_def)
    show ?thesis unfolding eq
      by (rule puts_mono [OF puts_word(2) [OF puts_bind [OF puts_name [OF n]
            puts_word(4) [OF puts_word(2) [OF puts_word(2) [OF scalar_puts(4)]]]]]])
         (use True in \<open>auto simp: descriptor_cost_def encodes_descriptor_def\<close>)
  next
    case False
    then have eq: "write_descriptor x = (\<lambda>c. bindR (nmo_chunk_write_int 0 c) (\<lambda>_. ok ()))"
      by (intro ext) (simp add: write_descriptor_def)
    show ?thesis unfolding eq
      by (rule puts_mono [OF puts_word(2) [OF puts_nothing]])
         (use False in \<open>auto simp: descriptor_cost_def encodes_descriptor_def\<close>)
  qed
qed

lemma gives_descriptor:
  assumes "name_ok (at_name x)" "encodes_descriptor x ds"
  shows "gives read_descriptor ds (kept_descriptor x)"
proof (cases "at_present x")
  case True
  then obtain es where es: "encodes_name (at_name x) es" "ds = 1 # es @ [d1 (parameter_type_guid x), d2 (parameter_type_guid x),
        category_index x, at_compatible_class_id x, at_flags x]"
    using assms(2) by (auto simp: encodes_descriptor_def)
  let ?v = "\<lambda>p g ci cc fl. \<lparr>at_name = p, parameter_type_guid = g, category_index = ci, at_compatible_class_id = cc,
      at_flags = fl, at_present = True\<rparr>"
  let ?x = "?v (Some (text_of (at_name x))) (parameter_type_guid x) (category_index x) (at_compatible_class_id x) (at_flags x)"
  have "gives (\<lambda>s. bindR (read_name s) (\<lambda>p s. bindR (get nmo_chunk_read_guid s) (\<lambda>g s.
      bindR (get nmo_chunk_read_int s) (\<lambda>ci s. bindR (get nmo_chunk_read_int s) (\<lambda>cc s.
      bindR (get nmo_chunk_read_dword s) (\<lambda>fl. ok (?v p g ci cc fl)))))))
    (es @ [d1 (parameter_type_guid x), d2 (parameter_type_guid x), category_index x, at_compatible_class_id x, at_flags x]) ?x"
    by (rule gives_bind [OF gives_name [OF assms(1) es(1)]], (rule gives_steps)+) (rule gives_ok)
  moreover have "kept_descriptor x = ?x" using True by (simp add: kept_descriptor_def)
  ultimately show ?thesis unfolding read_descriptor_def [abs_def] es(2) by (intro gives_steps) simp
next
  case False
  then show ?thesis using assms(2) unfolding read_descriptor_def [abs_def]
    by (simp add: encodes_descriptor_def kept_descriptor_def) (rule gives_steps, simp)
qed

definition category_list :: "nmo_ckattributemanager_state \<Rightarrow> nmo_ckattribute_category list" where
  "category_list st = (case categories st of None \<Rightarrow> [] | Some xs \<Rightarrow> xs)"

definition attribute_list :: "nmo_ckattributemanager_state \<Rightarrow> nmo_ckattribute_descriptor list" where
  "attribute_list st = (case am_attributes st of None \<Rightarrow> [] | Some xs \<Rightarrow> xs)"

definition attributes_ok :: "nmo_ckattributemanager_state \<Rightarrow> bool" where
  "attributes_ok st \<longleftrightarrow>
     length (category_list st) \<le> 10000 \<and> category_count st = of_nat (length (category_list st))
     \<and> list_all (\<lambda>x. name_ok (cat_name x)) (category_list st)
     \<and> length (attribute_list st) \<le> 100000 \<and> am_attribute_count st = of_nat (length (attribute_list st))
     \<and> list_all (\<lambda>x. name_ok (at_name x)) (attribute_list st)"

definition nonempty :: "'a list \<Rightarrow> 'a list option" where
  "nonempty xs = (if xs = [] then None else Some xs)"

text \<open>What comes back: empty arrays as NULL, absent entries cleared, and names that were NULL as empty strings.\<close>

definition kept_attributes :: "nmo_ckattributemanager_state \<Rightarrow> nmo_ckattributemanager_state" where
  "kept_attributes st =
     \<lparr>category_count = category_count st, categories = nonempty (map kept_category (category_list st)),
      am_attribute_count = am_attribute_count st, am_attributes = nonempty (map kept_descriptor (attribute_list st))\<rparr>"

definition encodes_attributes :: "nmo_ckattributemanager_state \<Rightarrow> u32 list \<Rightarrow> bool" where
  "encodes_attributes st ds \<longleftrightarrow> (\<exists>xs ys. encodes_each encodes_category (category_list st) xs
     \<and> encodes_each encodes_descriptor (attribute_list st) ys
     \<and> ds = category_count st # am_attribute_count st # xs @ ys)"

definition attributes_cost :: "nmo_ckattributemanager_state \<Rightarrow> nat" where
  "attributes_cost st = sum_list (map category_cost (category_list st))
     + sum_list (map descriptor_cost (attribute_list st)) + 3"

definition load_attributes :: "chunk_cursor \<times> arena \<Rightarrow> nmo_ckattributemanager_state sres" where
  "load_attributes s =
     bindR (get nmo_chunk_read_int s) (\<lambda>n s. bindR (get nmo_chunk_read_int s) (\<lambda>m s.
       if sint n < 0 \<or> sint n > 10000 then fail NMO_ERR_VALIDATION_FAILED s
       else if sint m < 0 \<or> sint m > 100000 then fail NMO_ERR_VALIDATION_FAILED s
       else
         bindR (if n = 0 then ok None s else read_array_of read_category 16 (unat n) s) (\<lambda>xs s.
         bindR (if m = 0 then ok None s else read_array_of read_descriptor 32 (unat m) s) (\<lambda>ys.
           ok \<lparr>category_count = n, categories = xs, am_attribute_count = m, am_attributes = ys\<rparr>))))"

lemma gives_nonempty:
  assumes "\<And>x es. x \<in> set xs \<Longrightarrow> E x es \<Longrightarrow> gives rd es (h x)" "encodes_each E xs ds"
    and "0 < k" "k \<le> 32" "length xs \<le> 100000"
  shows "gives (\<lambda>s. if (of_nat (length xs) :: u32) = 0 then ok None s
      else read_array_of rd k (unat (of_nat (length xs) :: u32)) s) ds (nonempty (map h xs))"
proof (cases "xs = []")
  case True
  then show ?thesis using assms(2) by (simp add: nonempty_def)
next
  case False
  have n: "unat (of_nat (length xs) :: u32) = length xs" by (rule sint_of_count(2) [OF assms(5)])
  have "k * length xs \<le> 32 * 100000" using assms(4,5) by (rule mult_le_mono)
  then have "gives (read_array_of rd k (length xs)) ds (Some (map h xs))"
    using False assms(3) by (intro gives_array_of [OF assms(1,2)]) auto
  moreover have "(of_nat (length xs) :: u32) \<noteq> 0" using n False by (metis length_0_conv unat_0)
  ultimately show ?thesis using False n by (simp add: nonempty_def)
qed

interpretation ckattributes: section_codec CK_STATESAVE_ATTRIBUTEMANAGER nmo_ckattributemanager_serialize
  nmo_ckattributemanager_deserialize load_attributes
  "ok \<lparr>category_count = 0, categories = None, am_attribute_count = 0, am_attributes = None\<rparr>"
  attributes_ok kept_attributes attributes_cost encodes_attributes
proof unfold_locales
  fix st assume st: "attributes_ok st"
  have eq: "nmo_ckattributemanager_serialize st = (\<lambda>c. bindR (nmo_chunk_write_identifier CK_STATESAVE_ATTRIBUTEMANAGER c)
      (\<lambda>_ c. bindR (nmo_chunk_write_int (category_count st) c) (\<lambda>_ c. bindR (nmo_chunk_write_int (am_attribute_count st) c)
      (\<lambda>_ c. bindR (write_each write_category (category_list st) (length (category_list st)) c)
        (\<lambda>_. write_each write_descriptor (attribute_list st) (length (attribute_list st)))))))"
    using st sint_of_count(2) [of "length (category_list st)"] sint_of_count(2) [of "length (attribute_list st)"]
    by (intro ext) (simp add: nmo_ckattributemanager_serialize_def attributes_ok_def category_list_def attribute_list_def)
  have "puts (sum_list (map category_cost (category_list st))) (encodes_each encodes_category (category_list st))
      (write_each write_category (category_list st) (length (category_list st)))"
    by (rule puts_list, rule puts_category) (use st in \<open>simp add: attributes_ok_def list_all_iff\<close>)
  moreover have "puts (sum_list (map descriptor_cost (attribute_list st))) (encodes_each encodes_descriptor (attribute_list st))
      (write_each write_descriptor (attribute_list st) (length (attribute_list st)))"
    by (rule puts_list, rule puts_descriptor) (use st in \<open>simp add: attributes_ok_def list_all_iff\<close>)
  ultimately have "puts (sum_list (map category_cost (category_list st)) + sum_list (map descriptor_cost (attribute_list st)))
      (\<lambda>ds. \<exists>xs ys. encodes_each encodes_category (category_list st) xs \<and> encodes_each encodes_descriptor (attribute_list st) ys
        \<and> ds = xs @ ys)
      (\<lambda>c. bindR (write_each write_category (category_list st) (length (category_list st)) c)
        (\<lambda>_. write_each write_descriptor (attribute_list st) (length (attribute_list st))))"
    by (rule puts_bind)
  from puts_after_identifier [OF puts_word(2) [OF puts_word(2) [OF this]]]
  show "puts (attributes_cost st) (\<lambda>ws. \<exists>ds. encodes_attributes st ds \<and> ws = CK_STATESAVE_ATTRIBUTEMANAGER # ds)
      (nmo_ckattributemanager_serialize st)"
    unfolding eq by (rule puts_mono) (auto simp: attributes_cost_def encodes_attributes_def)
next
  fix st ds assume st: "attributes_ok st" "encodes_attributes st ds"
  let ?xs = "category_list st" and ?ys = "attribute_list st"
  obtain es fs where e: "encodes_each encodes_category ?xs es" "encodes_each encodes_descriptor ?ys fs"
    "ds = of_nat (length ?xs) # of_nat (length ?ys) # es @ fs"
    using st by (auto simp: encodes_attributes_def attributes_ok_def)
  have len: "length ?xs \<le> 10000" "length ?ys \<le> 100000" using st(1) by (simp_all add: attributes_ok_def)
  let ?n = "of_nat (length ?xs) :: u32" and ?m = "of_nat (length ?ys) :: u32"
  have n: "sint ?n = int (length ?xs)" "sint ?m = int (length ?ys)" using len by (simp_all only: sint_of_count)
  have k: "kept_attributes st = \<lparr>category_count = ?n, categories = nonempty (map kept_category ?xs),
      am_attribute_count = ?m, am_attributes = nonempty (map kept_descriptor ?ys)\<rparr>"
    using st(1) by (simp add: kept_attributes_def attributes_ok_def)
  have xs: "gives (\<lambda>s. if ?n = 0 then ok None s else read_array_of read_category 16 (unat ?n) s) es (nonempty (map kept_category ?xs))"
    by (rule gives_nonempty [OF gives_category e(1)]) (use st(1) len in \<open>auto simp: attributes_ok_def list_all_iff\<close>)
  have ys: "gives (\<lambda>s. if ?m = 0 then ok None s else read_array_of read_descriptor 32 (unat ?m) s) fs (nonempty (map kept_descriptor ?ys))"
    by (rule gives_nonempty [OF gives_descriptor e(2)]) (use st(1) len in \<open>auto simp: attributes_ok_def list_all_iff\<close>)
  have "ends (\<lambda>s. bindR (if ?n = 0 then ok None s else read_array_of read_category 16 (unat ?n) s) (\<lambda>xs s.
         bindR (if ?m = 0 then ok None s else read_array_of read_descriptor 32 (unat ?m) s) (\<lambda>ys.
           ok \<lparr>category_count = ?n, categories = xs, am_attribute_count = ?m, am_attributes = ys\<rparr>))) (es @ fs) (kept_attributes st)"
    unfolding k by (rule ends_bind [OF xs], rule gives_ends, rule gives_then_ok [OF ys refl])
  then show "ends load_attributes ds (kept_attributes st)" unfolding load_attributes_def [abs_def] e(3)
    by (intro ends_steps) (use len in \<open>simp add: n\<close>)
qed (auto simp: nmo_ckattributemanager_deserialize_def section_of_def load_attributes_def intro!: arg_cong [where f = "bindR _"] ext)

section \<open>What comes back\<close>

text \<open>
  C21: a parameter that is saved in a chunk and loaded again has the type and the mode it had and the value
  its mode selects (a block with its length, a referenced object, a manager with its value); the values of
  the other modes are not saved.
\<close>

theorem parameter_round_trip:
  assumes "cursor_wf c" "arena_grants (cu_arena c)" "arena_sane b" "arena_grants b"
    and "parameter_ok st" "cload c + parameter_cost st \<le> 2 ^ 56"
  shows "\<exists>c1 c2 c3 d b'. nmo_chunk_start_write c = ok () c1 \<and> nmo_ckparameter_serialize st c1 = ok () c2
    \<and> nmo_chunk_start_read c2 = ok () c3 \<and> nmo_ckparameter_deserialize (c3, b) = ok (kept_parameter st) (d, b')"
  using assms by (rule ckparameter.state_round_trip)

theorem parameter_round_trip_witness:
  "\<exists>a c1 c2 c3 d b'. nmo_arena_create (\<lambda>_ _. True) (\<lambda>_ _. 0) 0 = Done (Some a)
    \<and> nmo_chunk_start_write (cursor_of (Chunk empty_body None) a) = ok () c1
    \<and> nmo_ckparameter_serialize (zero_parameter\<lparr>pm_mode := NMO_CKPARAM_MODE_BUFFER, buffer_data := Some [1, 2, 3], buffer_size := 3,
         pm_object_id := 9\<rparr>) c1 = ok () c2
    \<and> nmo_chunk_start_read c2 = ok () c3
    \<and> nmo_ckparameter_deserialize (c3, a)
      = ok (zero_parameter\<lparr>pm_mode := NMO_CKPARAM_MODE_BUFFER, buffer_data := Some [1, 2, 3], buffer_size := 3\<rparr>) (d, b')"
proof -
  obtain a where a: "nmo_arena_create (\<lambda>_ _. True) (\<lambda>_ _. 0) 0 = Done (Some a)" "arena_sane a" "arena_grants a" "arena_wf 2 a"
    "cursor_wf (cursor_of (Chunk empty_body None) a)" "arena_grants (cu_arena (cursor_of (Chunk empty_body None) a))"
    "cload (cursor_of (Chunk empty_body None) a) = 0"
    by (rule new_chunk)
  let ?st = "zero_parameter\<lparr>pm_mode := NMO_CKPARAM_MODE_BUFFER, buffer_data := Some [1, 2, 3], buffer_size := 3, pm_object_id := 9\<rparr>"
  have ok: "parameter_ok ?st" by (simp add: parameter_ok_def block_ok_def zero_parameter_def)
  have kept: "kept_parameter ?st = zero_parameter\<lparr>pm_mode := NMO_CKPARAM_MODE_BUFFER, buffer_data := Some [1, 2, 3], buffer_size := 3\<rparr>"
    by (simp add: kept_parameter_def zero_parameter_def mode_defs NMO_CKPARAM_MODE_BUFFER_def kept_block_def)
  have "cload (cursor_of (Chunk empty_body None) a) + parameter_cost ?st \<le> 2 ^ 56"
    by (simp add: a(7) parameter_cost_def block_cost_def zero_parameter_def)
  from parameter_round_trip [OF a(5,6,2,3) ok this] a(1) show ?thesis unfolding kept by blast
qed

text \<open>
  C22: an attribute manager comes back with its categories and attributes in order, within the limits of ten
  thousand categories and a hundred thousand attributes: absent entries are cleared, and a name that was
  NULL comes back as the empty string.
\<close>

theorem attribute_manager_round_trip:
  assumes "cursor_wf c" "arena_grants (cu_arena c)" "arena_sane b" "arena_grants b"
    and "attributes_ok st" "cload c + attributes_cost st \<le> 2 ^ 56"
  shows "\<exists>c1 c2 c3 d b'. nmo_chunk_start_write c = ok () c1 \<and> nmo_ckattributemanager_serialize st c1 = ok () c2
    \<and> nmo_chunk_start_read c2 = ok () c3 \<and> nmo_ckattributemanager_deserialize (c3, b) = ok (kept_attributes st) (d, b')"
  using assms by (rule ckattributes.state_round_trip)

theorem attribute_manager_round_trip_witness:
  "\<exists>a c1 c2 c3 d b'. nmo_arena_create (\<lambda>_ _. True) (\<lambda>_ _. 0) 0 = Done (Some a)
    \<and> nmo_chunk_start_write (cursor_of (Chunk empty_body None) a) = ok () c1
    \<and> nmo_ckattributemanager_serialize \<lparr>category_count = 2,
         categories = Some [\<lparr>cat_name = None, cat_flags = 5, cat_present = True\<rparr>, \<lparr>cat_name = None, cat_flags = 6, cat_present = False\<rparr>],
         am_attribute_count = 0, am_attributes = None\<rparr> c1 = ok () c2
    \<and> nmo_chunk_start_read c2 = ok () c3
    \<and> nmo_ckattributemanager_deserialize (c3, a)
      = ok \<lparr>category_count = 2, categories = Some [\<lparr>cat_name = Some [0], cat_flags = 5, cat_present = True\<rparr>, zero_category],
           am_attribute_count = 0, am_attributes = None\<rparr> (d, b')"
proof -
  obtain a where a: "nmo_arena_create (\<lambda>_ _. True) (\<lambda>_ _. 0) 0 = Done (Some a)" "arena_sane a" "arena_grants a" "arena_wf 2 a"
    "cursor_wf (cursor_of (Chunk empty_body None) a)" "arena_grants (cu_arena (cursor_of (Chunk empty_body None) a))"
    "cload (cursor_of (Chunk empty_body None) a) = 0"
    by (rule new_chunk)
  let ?st = "\<lparr>category_count = 2,
         categories = Some [\<lparr>cat_name = None, cat_flags = 5, cat_present = True\<rparr>, \<lparr>cat_name = None, cat_flags = 6, cat_present = False\<rparr>],
         am_attribute_count = 0, am_attributes = None\<rparr>"
  have ok: "attributes_ok ?st" by (simp add: attributes_ok_def category_list_def attribute_list_def name_ok_def)
  have kept: "kept_attributes ?st = \<lparr>category_count = 2,
      categories = Some [\<lparr>cat_name = Some [0], cat_flags = 5, cat_present = True\<rparr>, zero_category],
      am_attribute_count = 0, am_attributes = None\<rparr>"
    by (simp add: kept_attributes_def category_list_def attribute_list_def nonempty_def kept_category_def text_of_def)
  have "cload (cursor_of (Chunk empty_body None) a) + attributes_cost ?st \<le> 2 ^ 56"
    by (simp add: a(7) attributes_cost_def category_list_def attribute_list_def category_cost_def text_of_def)
  from attribute_manager_round_trip [OF a(5,6,2,3) ok this] a(1) show ?thesis unfolding kept by blast
qed

text \<open>A behaviour link comes back with both delays, which are packed into one word, and both ends.\<close>

lemma behavior_link_round_trip:
  assumes "cursor_wf c" "arena_grants (cu_arena c)" "arena_sane b" "arena_grants b" "cload c + 6 \<le> 2 ^ 56"
  shows "\<exists>c1 c2 c3 d b'. nmo_chunk_start_write c = ok () c1 \<and> nmo_ckbehaviorlink_serialize st c1 = ok () c2
    \<and> nmo_chunk_start_read c2 = ok () c3 \<and> nmo_ckbehaviorlink_deserialize (c3, b) = ok st (d, b')"
  using assms by (intro behaviorlink.state_round_trip) simp_all

lemma operation_round_trip:
  assumes "cursor_wf c" "arena_grants (cu_arena c)" "arena_sane b" "arena_grants b" "cload c + 10 \<le> 2 ^ 56"
  shows "\<exists>c1 c2 c3 d b'. nmo_chunk_start_write c = ok () c1 \<and> nmo_ckparameteroperation_serialize st c1 = ok () c2
    \<and> nmo_chunk_start_read c2 = ok () c3
    \<and> nmo_ckparameteroperation_deserialize (c3, b) = ok (st\<lparr>owner_id := 0\<rparr>) (d, b')"
  using assms by (intro ckoperation.state_round_trip) simp_all

end
