(* ===== verification/StateMisreads.thy ===== *)
theory StateMisreads
  imports StateRoundTrips EntityStates
begin

text \<open>
  States that do not come back: the readers that take a position in words for one in bytes, and those
  that search the chunk for an identifier other data can look like.
\<close>

section \<open>Reading less than is needed\<close>

lemma read_word_at_end: "reader c \<Longrightarrow> crest c = [] \<Longrightarrow> nmo_chunk_read_dword c = fail NMO_ERR_EOF c"
  by (simp only: nmo_chunk_read_dword_def nmo_chunk_read_int_def crest_end simp_thms if_True)

lemma read_float_at_end: "reader c \<Longrightarrow> crest c = [] \<Longrightarrow> nmo_chunk_read_float c = fail NMO_ERR_EOF c"
  by (simp only: nmo_chunk_read_float_def crest_end simp_thms if_True)

lemma read_floats_enough:
  assumes "reader c" "n \<le> length (crest c)"
  obtains d where "read_floats n c = ok (take n (crest c)) d" "reader d" "crest d = drop n (crest c)"
proof -
  have "yields (read_floats n) (take n (crest c)) (take n (crest c))"
    using assms(2) by (intro read_floats_yields) simp
  then show thesis using assms(1) that unfolding yields_def ok_def by (metis append_take_drop_id)
qed

lemma read_floats_short:
  assumes "reader c" "length (crest c) < n"
  shows "\<exists>d. read_floats n c = fail NMO_ERR_EOF d"
  using assms
proof (induction n arbitrary: c)
  case (Suc n)
  show ?case
  proof (cases "crest c")
    case Nil
    then show ?thesis using Suc.prems(1) by (simp add: read_float_at_end) (simp add: fail_def)
  next
    case (Cons x xs)
    then have "crest c = [x] @ xs" by simp
    with scalar_yields(5) [of x] Suc.prems(1) obtain e where e: "nmo_chunk_read_float c = ok x e" "reader e" "crest e = xs"
      unfolding yields_def ok_def by blast
    with Suc.IH [OF e(2)] Suc.prems(2) Cons obtain d where "read_floats n e = fail NMO_ERR_EOF d" by auto
    with e(1) show ?thesis by (auto simp: ok_def fail_def)
  qed
qed simp

lemma get_valid_simps:
  "f c = ok v d \<Longrightarrow> get_valid f (c, a) = ok v (d, a)"
  "f c = fail e d \<Longrightarrow> get_valid f (c, a) = fail NMO_ERR_VALIDATION_FAILED (d, a)"
  by (simp_all add: get_or_def recode_def beside_arena_def ok_def fail_def)

section \<open>A block whose length is the first word\<close>

lemma region_bytes: "region_room a r = 4 * n \<Longrightarrow> length (fresh_bytes r a) = 4 * n"
  by (simp add: fresh_bytes_def)

lemma can_read_words:
  assumes "reader e" "can_read e k" "k < 2 ^ 32"
  shows "k \<le> length (crest e)"
proof -
  from assms(1) obtain st where st: "cu_state e = Some st" by (auto simp: reader_def)
  have b: "csize e < 2 ^ 59" by (rule reader_whole(2) [OF assms(1)])
  have p: "current_pos st \<le> csize e" using assms(1) st by (simp add: reader_def cursor_wf_def nmo_chunk_get_position_def)
  have "current_pos st + k < 2 ^ 64" using b p assms(3) by simp
  then have "current_pos st + k \<le> csize e" using st assms(2) by (simp add: can_read_def sz_add_small)
  moreover have "length (crest e) = csize e - current_pos st"
    using st reader_whole(1) [OF assms(1)] by (simp add: crest_def nmo_chunk_get_position_def whole_def)
  ultimately show ?thesis by simp
qed

lemma fill_takes_words:
  assumes c: "reader c" "crest c = w # ws" and buf: "length ws < 2 ^ 29" "sz \<le> length buf"
    and sz: "sz = 4 * length (w # ws)"
  obtains n buf' d where "nmo_chunk_read_and_fill_buffer buf sz c = Done ((n, buf'), d)" "reader d"
    "length (crest d) \<le> length ws"
proof -
  have "crest c = [w] @ ws" using c(2) by simp
  with yields_load [of w] c(1) obtain e where e: "load_next c = Done (Inr w, e)" "reader e" "crest e = ws"
    unfolding yields_def by blast
  have one: "can_read c 1" by (rule can_read_rest [OF c(1), of "[w]" ws]) (simp_all add: c(2))
  show thesis
  proof (cases "w = 0 \<or> unat w > sz \<or> \<not> can_read e (unat ((w + 3) div 4))")
    case True
    then have "nmo_chunk_read_and_fill_buffer buf sz c = Done ((0, buf), e)"
      unfolding nmo_chunk_read_and_fill_buffer_def e(1) bindE_simps prod.case sum.case Let_def using one
      by (cases "w = 0 \<or> unat w > sz") simp_all
    then show thesis by (rule that [OF _ e(2)]) (simp add: e(3))
  next
    case False
    define n where "n = unat w"
    then have w: "w = of_nat n" "n = unat w" by simp_all
    have n: "0 < n" "n \<le> sz" using False w(2) by (simp_all add: unat_gt_0)
    have "n + 3 < 2 ^ 32" using n(2) sz buf(1) by simp
    then have k: "unat ((w + 3) div 4) = (n + 3) div 4" unfolding w(1) by (rule counted_dwords)
    let ?k = "(n + 3) div 4"
    have "?k < 2 ^ 32" using \<open>n + 3 < 2 ^ 32\<close> by simp
    with can_read_words [OF e(2)] False k e(3) have "?k \<le> length ws" by simp
    then have split: "crest e = take ?k ws @ drop ?k ws" "?k = length (take ?k ws)" "take ?k ws \<noteq> []"
      using e(3) n(1) by auto
    have "n \<le> 4 * ?k" by linarith
    then have "n \<le> 4 * length (take ?k ws)" using split(2) by simp
    from load_block_rest [OF e(2) split(1,3,2) this]
    have load: "load_block n ?k e = ok (take n (bytes_of_dwords (take ?k ws))) (move_on ?k e)" .
    have moved: "reader (move_on ?k e)" "crest (move_on ?k e) = drop ?k ws"
      by (rule move_on_reader [OF e(2) split(1,2,3)])+
    have "n \<le> length buf" using n(2) buf(2) by simp
    then have "nmo_chunk_read_and_fill_buffer buf sz c
        = Done ((n, mem_blit buf 0 (take n (bytes_of_dwords (take ?k ws)))), move_on ?k e)"
      unfolding nmo_chunk_read_and_fill_buffer_def e(1) bindE_simps prod.case sum.case Let_def k w(2) [symmetric] load ok_def
      using one False k by (simp add: w(2) [symmetric])
    then show thesis by (rule that [OF _ moved(1)]) (simp only: moved(2) length_drop diff_le_self)
  qed
qed

text \<open>The tail is looked for from the first word on, and at least that word is gone.\<close>

lemma read_tail_takes_words:
  assumes c: "reader c" "cpos c = 0" "whole c = w # ws" "length ws < 2 ^ 29"
    and b: "arena_wf 2 b" "arena_grants b"
  obtains t d b' where "read_tail (c, b) = ok t (d, b')" "reader d" "length (crest d) \<le> length ws"
proof -
  define m where "m = 4 * length (w # ws)"
  have n: "csize c = length (w # ws)" using reader_whole(1) [OF c(1)] c(3) by simp
  have rest: "crest c = w # ws" using c(2,3) by (simp add: crest_def whole_def)
  have size: "nmo_chunk_get_data_size c = m" "0 < m"
    using n c(4) by (simp_all add: nmo_chunk_get_data_size_def sz_mul_small m_def)
  obtain q b' where q: "nmo_arena_alloc m 1 b = Done (Some q, b')" "region_room b' q = m"
    unfolding m_def by (rule block_alloc [OF b, of "length (w # ws)" 1]) (use c(4) in auto)
  have buf: "length (fresh_bytes q b') = m" using region_bytes [OF q(2) [unfolded m_def]] unfolding m_def .
  obtain k buf' d where d: "nmo_chunk_read_and_fill_buffer (fresh_bytes q b') m c = Done ((k, buf'), d)" "reader d"
    "length (crest d) \<le> length ws"
    by (rule fill_takes_words [OF c(1) rest c(4) eq_refl [OF buf [symmetric]] m_def])
  have fill: "fill_bytes m (c, b) = ok (Some (k, buf')) (d, b')"
    using q(1) d(1) by (simp add: fill_bytes_def alloc_in_def ok_def)
  have "read_tail (c, b) = (if k = m then ok \<lparr>tail_bytes = Some buf', tail_size = m\<rparr> else ok no_tail) (d, b')"
    using fill size(2) by (simp add: read_tail_def c(2) size(1) Let_def)
  then have "\<exists>t. read_tail (c, b) = ok t (d, b')" by (cases "k = m") auto
  then show thesis using d(2,3) that by blast
qed

section \<open>A 3D entity is not read back\<close>

lemma entity_needs_words:
  assumes c: "reader c" "cpos c = 0" "whole c = ws" "length ws = 17" and b: "arena_wf 2 b" "arena_grants b"
  shows "\<exists>s. nmo_ck3dentity_deserialize (c, b) = fail NMO_ERR_VALIDATION_FAILED s"
proof -
  from c(4) obtain x xs where ws: "ws = x # xs" "length xs = 16" by (cases ws) auto
  obtain t d b' where d: "read_tail (c, b) = ok t (d, b')" "reader d" "length (crest d) \<le> 16"
    using read_tail_takes_words [OF c(1,2) c(3) [unfolded ws(1)] _ b] ws(2) by auto
  show ?thesis
  proof (cases "length (crest d) < 16")
    case True
    with read_floats_short [OF d(2)] obtain e where "read_floats 16 d = fail NMO_ERR_EOF e" by blast
    from get_valid_simps(2) [where f = "read_floats 16", OF this] d(1) show ?thesis
      by (simp add: nmo_ck3dentity_deserialize_def nmo_ckrenderobject_deserialize_def ok_def fail_def)
  next
    case False
    with d(3) have "length (crest d) = 16" by simp
    then obtain e where e: "read_floats 16 d = ok (crest d) e" "reader e" "crest e = []"
      using read_floats_enough [OF d(2), of 16] by auto
    from get_valid_simps(1) [where f = "read_floats 16", OF e(1)]
      get_valid_simps(2) [where f = nmo_chunk_read_dword, OF read_word_at_end [OF e(2,3)]] d(1) show ?thesis
      by (simp add: nmo_ck3dentity_deserialize_def nmo_ckrenderobject_deserialize_def ok_def fail_def)
  qed
qed

lemma start_read_whole:
  assumes "cursor_wf c" "opened c" "arena_grants (cu_arena c)" "take (csize c) (cmem c) = ws"
  obtains d where "nmo_chunk_start_read c = ok () d" "reader d" "cpos d = 0" "whole d = ws"
proof -
  from assms(2) obtain s where s: "cu_state c = Some s" by (auto simp: opened_def)
  let ?d = "set_prev 0 (set_pos 0 c)"
  have r: "nmo_chunk_start_read c = ok () ?d" using s
    by (simp add: nmo_chunk_start_read_def get_parser_state_def cursor_sets)
  moreover obtain d where "nmo_chunk_start_read c = ok () d" "reader d"
    by (rule start_read_ok [OF assms(1-3)])
  ultimately have "reader ?d" by (simp add: ok_def)
  moreover have "whole ?d = ws" "cpos ?d = 0" using s assms(4)
    by (simp_all add: whole_def cursor_sets cmem_def nmo_chunk_get_position_def)
  ultimately show thesis using r by (intro that)
qed

lemma written_then_read:
  assumes c: "cursor_wf c" "arena_grants (cu_arena c)" and m: "puts k P m" and k: "cload c + k \<le> 2 ^ 56"
  obtains c1 c2 c3 ws where "nmo_chunk_start_write c = ok () c1" "m c1 = ok () c2" "nmo_chunk_start_read c2 = ok () c3"
    "reader c3" "cpos c3 = 0" "whole c3 = ws" "P ws"
proof -
  obtain c1 where c1: "nmo_chunk_start_write c = ok () c1" "cursor_wf c1" "opened c1" "arena_grants (cu_arena c1)"
    "cpos c1 = 0" "csize c1 = 0" "cload c1 \<le> cload c"
    by (rule start_write_ok [OF c])
  have "runs k c1 (m c1) (\<lambda>_ d. \<exists>ws. P ws \<and> written ws c1 d)" using m c1 k by (simp add: puts_def)
  then obtain y c2 ws where c2: "m c1 = Done (Inr y, c2)" "cursor_wf c2" "opened c2" "arena_grants (cu_arena c2)"
    "P ws" "written ws c1 c2"
    by (rule runs_grants [OF _ c1(4)]) blast
  have "take (csize c2) (cmem c2) = ws" using c2(6) c1(5,6) by (auto simp: written_def)
  then obtain c3 where "nmo_chunk_start_read c2 = ok () c3" "reader c3" "cpos c3 = 0" "whole c3 = ws"
    by (rule start_read_whole [OF c2(2-4)])
  with c1(1) c2(1,5) show thesis by (intro that) (auto simp: ok_def)
qed

text \<open>
  C37: a 3D entity that is saved in a chunk of its own, without unknown data, never loads again: the reader
  of its base class compares the position in words with the size in bytes, takes the first word of the
  matrix for the length of unknown data and passes over it, and of the seventeen words that were written
  at most sixteen are left for the matrix and the flags.
\<close>

theorem entity_never_loads:
  assumes "cursor_wf c" "arena_grants (cu_arena c)" "cload c + 17 \<le> 2 ^ 56" and "arena_wf 2 b" "arena_grants b"
    and "length (world_matrix st) = 16" "ro_tail (e3_render_object st) = no_tail" "e3_tail st = no_tail"
  shows "\<exists>c1 c2 c3 s. nmo_chunk_start_write c = ok () c1 \<and> nmo_ck3dentity_serialize st c1 = ok () c2
    \<and> nmo_chunk_start_read c2 = ok () c3 \<and> nmo_ck3dentity_deserialize (c3, b) = fail NMO_ERR_VALIDATION_FAILED s"
proof -
  have "write_tail no_tail = ok ()" by (intro ext) (simp add: write_tail_def no_tail_def)
  then have eq: "nmo_ck3dentity_serialize st = (\<lambda>c. bindR (write_floats (world_matrix st) c) (\<lambda>_.
      nmo_chunk_write_dword (entity_flags st)))"
    by (intro ext) (simp add: nmo_ck3dentity_serialize_def nmo_ckrenderobject_serialize_def assms)
  have "puts 17 (\<lambda>ws. length ws = 17) (nmo_ck3dentity_serialize st)" unfolding eq
    by (rule puts_mono [OF puts_bind [OF puts_floats scalar_puts(4)]]) (auto simp: assms)
  then obtain c1 c2 c3 ws where c: "nmo_chunk_start_write c = ok () c1" "nmo_ck3dentity_serialize st c1 = ok () c2"
    "nmo_chunk_start_read c2 = ok () c3" "reader c3" "cpos c3 = 0" "whole c3 = ws" "length ws = 17"
    by (rule written_then_read [OF assms(1,2) _ assms(3)])
  from entity_needs_words [OF c(4-7) assms(4,5)] c(1-3) show ?thesis by blast
qed

theorem entity_never_loads_witness:
  "\<exists>a c1 c2 c3 s. nmo_arena_create (\<lambda>_ _. True) (\<lambda>_ _. 0) 0 = Done (Some a)
    \<and> nmo_chunk_start_write (cursor_of (Chunk empty_body None) a) = ok () c1
    \<and> nmo_ck3dentity_serialize \<lparr>e3_render_object = \<lparr>ro_tail = no_tail\<rparr>,
         world_matrix = [0x3F800000, 0, 0, 0, 0, 0x3F800000, 0, 0, 0, 0, 0x3F800000, 0, 0, 0, 0, 0x3F800000],
         entity_flags = 0, e3_tail = no_tail\<rparr> c1 = ok () c2
    \<and> nmo_chunk_start_read c2 = ok () c3 \<and> nmo_ck3dentity_deserialize (c3, a) = fail NMO_ERR_VALIDATION_FAILED s"
proof -
  obtain a where a: "nmo_arena_create (\<lambda>_ _. True) (\<lambda>_ _. 0) 0 = Done (Some a)" "arena_sane a" "arena_grants a" "arena_wf 2 a"
    "cursor_wf (cursor_of (Chunk empty_body None) a)" "arena_grants (cu_arena (cursor_of (Chunk empty_body None) a))"
    "cload (cursor_of (Chunk empty_body None) a) = 0"
    by (rule new_chunk)
  from entity_never_loads [OF a(5,6) _ a(4,3), of "\<lparr>e3_render_object = \<lparr>ro_tail = no_tail\<rparr>,
         world_matrix = [0x3F800000, 0, 0, 0, 0, 0x3F800000, 0, 0, 0, 0, 0x3F800000, 0, 0, 0, 0, 0x3F800000],
         entity_flags = 0, e3_tail = no_tail\<rparr>"] a(1,7) show ?thesis by simp
qed

section \<open>A parameter input that changes its kind\<close>

text \<open>
  C38: a parameter input that takes its value directly from object 1 loads as a shared one: the reader
  searches the whole chunk for the identifier 1 of shared sources before it searches for that of direct ones, finds the
  object's ID instead, and has nothing left to read the type and the source from.
\<close>

theorem direct_source_loads_as_shared:
  assumes "cursor_wf c" "arena_grants (cu_arena c)" "cload c + 5 \<le> 2 ^ 56"
    and "1 \<notin> {d1 g, d2 g}" "CK_STATESAVE_PARAMETERIN_DISABLED \<notin> {d1 g, d2 g}"
  shows "\<exists>c1 c2 c3 d. nmo_chunk_start_write c = ok () c1
    \<and> nmo_ckparameterin_serialize \<lparr>pi_type_guid = g, source_id = 1, is_shared = 0, is_disabled = 0\<rparr> c1 = ok () c2
    \<and> nmo_chunk_start_read c2 = ok () c3
    \<and> nmo_ckparameterin_deserialize (c3, b)
      = ok \<lparr>pi_type_guid = zero_guid, source_id = 0, is_shared = 1, is_disabled = 0\<rparr> d"
proof -
  let ?st = "\<lparr>pi_type_guid = g, source_id = 1, is_shared = 0, is_disabled = 0\<rparr>"
  have eq: "nmo_ckparameterin_serialize ?st = (\<lambda>c. bindR (nmo_chunk_write_identifier CK_STATESAVE_PARAMETERIN_DATASOURCE c) (\<lambda>_ c.
      bindR (nmo_chunk_write_guid g c) (\<lambda>_ c. bindR (nmo_chunk_write_object_id 1 c) (\<lambda>_. ok ()))))"
    by (intro ext) (simp add: nmo_ckparameterin_serialize_def)
  have "puts 5 (\<lambda>ws. ws = [2, d1 g, d2 g, 1]) (nmo_ckparameterin_serialize ?st)" unfolding eq
    by (rule puts_mono [OF puts_after_identifier [OF puts_word(4) [OF puts_word(3) [OF puts_nothing]]]])
       (auto simp: CK_STATESAVE_PARAMETERIN_DATASOURCE_def)
  then obtain c1 c2 c3 ws where c: "nmo_chunk_start_write c = ok () c1" "nmo_ckparameterin_serialize ?st c1 = ok () c2"
    "nmo_chunk_start_read c2 = ok () c3" "reader c3" "cpos c3 = 0" "whole c3 = ws" "ws = [2, d1 g, d2 g, 1]"
    by (rule written_then_read [OF assms(1,2) _ assms(3)])
  have w: "whole c3 = [2, d1 g, d2 g] @ 1 # []" using c(6,7) by simp
  obtain d where d: "nmo_chunk_seek_identifier 1 c3 = ok () d" "reader d" "crest d = []" "whole d = whole c3"
    by (rule seek_found [OF c(4) w]) (use assms(4) in auto)
  have no: "\<not> can_read d 1" "\<not> can_read d 2"
    using can_read_words [OF d(2), of 1] can_read_words [OF d(2), of 2] d(3) by auto
  have "seek CK_STATESAVE_PARAMETERIN_DISABLED (d, b) = ok False (d, b)"
    using assms(5) by (intro seek_outcome(2) [OF d(2)]) (auto simp: d(4) w CK_STATESAVE_PARAMETERIN_DISABLED_def)
  moreover have "seek CK_STATESAVE_PARAMETERIN_DATASHARED (c3, b) = ok True (d, b)"
    by (simp add: seek_def try_get_def beside_arena_def CK_STATESAVE_PARAMETERIN_DATASHARED_def d(1)) (simp add: ok_def)
  ultimately have "nmo_ckparameterin_deserialize (c3, b)
      = ok \<lparr>pi_type_guid = zero_guid, source_id = 0, is_shared = 1, is_disabled = 0\<rparr> (d, b)"
    using no by (simp add: nmo_ckparameterin_deserialize_def section_of_def read_source_def read_or_def try_get_def
        beside_arena_def nmo_chunk_read_guid_def nmo_chunk_read_object_id_def ok_def fail_def)
  with c(1-3) show ?thesis by blast
qed

theorem direct_source_loads_as_shared_witness:
  "\<exists>a c1 c2 c3 d. nmo_arena_create (\<lambda>_ _. True) (\<lambda>_ _. 0) 0 = Done (Some a)
    \<and> nmo_chunk_start_write (cursor_of (Chunk empty_body None) a) = ok () c1
    \<and> nmo_ckparameterin_serialize \<lparr>pi_type_guid = \<lparr>d1 = 7, d2 = 8\<rparr>, source_id = 1, is_shared = 0, is_disabled = 0\<rparr> c1 = ok () c2
    \<and> nmo_chunk_start_read c2 = ok () c3
    \<and> nmo_ckparameterin_deserialize (c3, a) = ok \<lparr>pi_type_guid = zero_guid, source_id = 0, is_shared = 1, is_disabled = 0\<rparr> d"
proof -
  obtain a where a: "nmo_arena_create (\<lambda>_ _. True) (\<lambda>_ _. 0) 0 = Done (Some a)" "arena_sane a" "arena_grants a" "arena_wf 2 a"
    "cursor_wf (cursor_of (Chunk empty_body None) a)" "arena_grants (cu_arena (cursor_of (Chunk empty_body None) a))"
    "cload (cursor_of (Chunk empty_body None) a) = 0"
    by (rule new_chunk)
  from direct_source_loads_as_shared [OF a(5,6), of "\<lparr>d1 = 7, d2 = 8\<rparr>" a] a(1,7) show ?thesis
    by (simp add: CK_STATESAVE_PARAMETERIN_DISABLED_def)
qed

end
