(* ===== verification/Spec2Isabelle.thy ===== *)
theory Spec2Isabelle
  imports ParserSafety SerialSafety LayoutSafety ChunkPipeline HashTable IndexedMap FileHeader Hash ObjectRepository Header1Safety
    ChunkCompress ChunkApiProperties MaterialStates SceneStates DataArrayStates MeshStates StateMisreads
begin

text \<open>
  libnmo, the library that reads and writes Virtools files (NMO, CMO, VMO): a model of its data
  structures and file formats in Isabelle/HOL, and the theorems about them. Paths are relative to the
  repository's root; a definition has the name of the C function or structure it models.

  The program. A file is a fixed header, a table of its objects and plugins, and a data section with
  one chunk per manager and per object. A chunk is a buffer of 32-bit words with three lists that say
  where it holds object IDs, sub-chunks and manager entries. The lowest layer (\<^verbatim>\<open>src/core\<close>) has the
  arena every structure is allocated in, the containers and the hash functions. \<^verbatim>\<open>src/format\<close> has the
  file header, the chunk with its writer, parser and serialized forms, and the objects. \<^verbatim>\<open>src/io\<close> has the
  byte streams the headers go through. \<^verbatim>\<open>src/schema\<close> has a reader and a writer for the state of every class
  of objects, which go between a chunk and a structure. \<^verbatim>\<open>src/session\<close> has the tables that convert file IDs to runtime IDs
  and back, and the repository of the objects of a session with its indexes. Loading takes the bytes
  of a file through the header, the chunks and the conversion of their IDs into the repository; saving
  takes the way back.

  The theories, in the order of the layers, and the code each one models:
  \<^item> \<open>NmoPrelude\<close>: the error codes of \<^verbatim>\<open>include/core/nmo_error.h\<close>, the helpers of \<^verbatim>\<open>include/core/nmo_utils.h\<close>,
    and what all models share: results, effects, arithmetic on \<^verbatim>\<open>size_t\<close>, words as bytes.
  \<^item> \<open>Arena\<close>: \<^verbatim>\<open>src/core/arena.c\<close>; its interface to the clients is the locale \<open>region_allocator\<close>.
  \<^item> \<open>OpenAddressing\<close>, \<open>KeyValueStore\<close>, \<open>HashTable\<close>, \<open>IndexedMap\<close>: the probing that the containers share,
    the contract \<open>kv_store\<close> of a container, and \<^verbatim>\<open>src/core/hash_table.c\<close> and \<^verbatim>\<open>src/core/indexed_map.c\<close>.
  \<^item> \<open>Hash\<close>: \<^verbatim>\<open>src/core/hash.c\<close>, and C strings as keys.
  \<^item> \<open>IdRemap\<close>: \<^verbatim>\<open>src/format/nmo_id_remap.c\<close> and \<^verbatim>\<open>src/session/id_remap.c\<close>.
  \<^item> \<open>Chunk\<close>, \<open>ChunkWriter\<close>, \<open>ChunkParser\<close>: the chunk structure, \<^verbatim>\<open>src/format/chunk_writer.c\<close> and
    \<^verbatim>\<open>src/format/chunk_parser.c\<close>. \<open>WriterSpec\<close> and \<open>ParserSpec\<close> say what their operations promise,
    \<open>ChunkCodec\<close> has the contract \<open>codec\<close> between a write and the read that undoes it, \<open>ParserSafety\<close> the
    behaviour on hostile data.
  \<^item> \<open>ChunkSerial\<close>: \<^verbatim>\<open>src/format/chunk.c\<close>, the recursive format, the three file layouts and the deep copy.
    \<open>SerialSpec\<close> and \<open>LayoutSpec\<close> say what is stored (both are instances of the locale \<open>word_sink\<close>),
    \<open>SerialSafety\<close> and \<open>LayoutSafety\<close> treat arbitrary input, \<open>ChunkClone\<close> the deep copy.
  \<^item> \<open>ChunkRemap\<close>: \<^verbatim>\<open>src/format/chunk_remap.c\<close>.
  \<^item> \<open>ChunkPipeline\<close>: writer, file layout and parser together.
  \<^item> \<open>ByteIO\<close>, \<open>IoMemory\<close>: \<^verbatim>\<open>src/io/io.c\<close> with the contracts \<open>byte_source\<close> and \<open>byte_sink\<close>, and
    \<^verbatim>\<open>src/io/io_memory.c\<close>, which provides both.
  \<^item> \<open>FileHeader\<close>: \<^verbatim>\<open>src/format/header.c\<close>, over any source and sink.
  \<^item> \<open>Objects\<close>, \<open>RepositoryState\<close>, \<open>ObjectIndex\<close>, \<open>ObjectRepository\<close>: \<^verbatim>\<open>src/format/object.c\<close>,
    \<^verbatim>\<open>src/session/object_index.c\<close> and \<^verbatim>\<open>src/session/object_repository.c\<close>.
  \<^item> \<open>Header1\<close>: \<^verbatim>\<open>src/format/header1.c\<close>; \<open>Header1Spec\<close> says what is stored, \<open>Header1Safety\<close> treats any input.
  \<^item> \<open>ChunkApi\<close>, \<open>ChunkApiData\<close>: the second interface to a chunk, \<^verbatim>\<open>include/format/nmo_chunk_api.h\<close>, which
    keeps its position in the chunk: \<^verbatim>\<open>chunk_lifecycle.c\<close>, \<^verbatim>\<open>chunk_navigation.c\<close>, \<^verbatim>\<open>chunk_primitives.c\<close>,
    \<^verbatim>\<open>chunk_identifiers.c\<close>, \<^verbatim>\<open>chunk_sequences.c\<close>, \<^verbatim>\<open>chunk_managers.c\<close>, \<^verbatim>\<open>chunk_arrays.c\<close>, \<^verbatim>\<open>chunk_math.c\<close>,
    \<^verbatim>\<open>chunk_subchunks.c\<close> (its largest call in \<open>ChunkSubWrite\<close>) and \<^verbatim>\<open>chunk_crc.c\<close> of \<^verbatim>\<open>src/format\<close>. \<open>ChunkApiSpec\<close>, \<open>ChunkApiWrite\<close> and \<open>ChunkApiRead\<close>
    have one law per call, \<open>ChunkApiCodec\<close> the contract \<open>api_codec\<close> between a write and its read,
    \<open>ChunkApiSafety\<close> and \<open>ChunkApiProperties\<close> what follows.
  \<^item> \<open>ChunkCompress\<close>: \<^verbatim>\<open>src/format/chunk_compression.c\<close>, over any codec.
  \<^item> \<open>StateIO\<close>, \<open>Float32\<close>, \<open>EntityStates\<close>, \<open>BeObjectStates\<close>, \<open>SceneStates\<close>, \<open>ParameterStates\<close>, \<open>MaterialStates\<close>,
    \<open>DataArrayStates\<close>, \<open>MeshStates\<close>: the functions of \<^verbatim>\<open>src/schema/builtin\<close> that read the state of an object of
    each class from its chunk and write it there, over the second interface to a chunk. A reader searches
    the chunk for the identifier of each part (\<open>section_of\<close>); \<open>try_get\<close> is a call whose failure the code
    ignores, \<open>get\<close> one whose failure it returns and \<open>get_or\<close> one it wraps into another error. \<open>Float32\<close> has the
    arithmetic on \<^verbatim>\<open>float\<close> that lights and 2D entities need, on bit patterns. \<open>StateCodec\<close> has the contract
    \<open>section_codec\<close> between a writer and a reader of a part, which \<open>StateRoundTrips\<close> interprets for links and
    inputs of behaviours, parameters and their operations, and the managers of messages and attributes;
    \<open>StateMisreads\<close> has states that do not come back.

  How the code is modelled.
  \<^item> The platform is LP64 and little-endian. A \<^verbatim>\<open>size_t\<close> is a natural number and the arithmetic the code
    does on it is reduced modulo \<open>2 ^ 64\<close> (\<open>sz_add\<close>, \<open>sz_sub\<close>, \<open>sz_mul\<close>); a fixed-width integer is a word; slot
    numbers that are \<^verbatim>\<open>int\<close> are converted as the code converts them. A \<^verbatim>\<open>float\<close> is its bit pattern, and the
    load factor 0.7 the fraction it is as a \<^verbatim>\<open>double\<close>.
  \<^item> A function returns an \<open>eff\<close>: \<open>Done\<close> with its result, \<open>Undefined\<close> when it reads or writes outside a
    buffer or overflows a signed integer, \<open>Diverges\<close> when a loop does not end. A result is an error code
    or a value, next to the new state (\<open>cres\<close>); a theorem that a call returns says that it is \<open>Done\<close>.
  \<^item> A structure passed by pointer is passed and returned by value, so the NULL tests on these pointers
    are discharged by the types. Payload pointers the code tests are options. Objects point to each
    other, so they live in an explicit store; the arrays of the object index are reached through
    handles. The sub-chunks of a chunk form a tree.
  \<^item> A buffer keeps its capacity and what memory held before it was written (\<open>ar_stale\<close>, \<open>wh_fresh\<close>), so
    a theorem cannot use that fresh memory is zero.
  \<^item> What is below the library is a parameter: the answers of the allocator (\<open>alloc k n\<close>: does its \<open>k\<close>-th
    call grant \<open>n\<close> bytes; \<open>arena_grants\<close> says that it does for every request of 1 to \<open>2 ^ 63 - 1\<close> bytes), the two things observed of a growth factor, the hash and comparison callbacks
    (fields of the table), the disposal callbacks (recorded as a list of calls). Functions that only free
    memory are left out.
  \<^item> The \<^verbatim>\<open>NMO_ERROR\<close> objects of some modules are reduced to their code.

  What the lemmas show.
  \<^item> Well-formedness invariants (\<open>arena_wf\<close>, \<open>writer_wf\<close>, \<open>parser_wf\<close>, \<open>ht_wf\<close>, \<open>im_wf\<close>, \<open>repo_ok\<close>,
    \<open>family_ok\<close>) and that every operation keeps them.
  \<^item> Abstractions and refinement: the writer refines \<open>awriter\<close> (a list of words and tracked
    positions), the containers refine finite maps, a memory stream refines a file, the repository two
    maps.
  \<^item> Round trips through the chunk writer and parser, the recursive format, the file layouts, the file
    header, the composition of writer, layout and parser, and the states of objects.
  \<^item> Behaviour on arbitrary input: which calls stay in bounds and return, and exactly when the others
    do not.
  \<^item> Places where the code does something its contract does not say; each is a theorem on the model.

  Bounds and fuel. The writer's rules hold up to a load of \<open>2 ^ 56\<close> words and entries, far more than
  the 32-bit counts of a chunk can announce. \<^verbatim>\<open>nmo_chunk_deserialize\<close> recurses on nesting it reads from
  its input; its fuel is one more than an eighth of the input's size and is proved to be enough, since
  every level consumes eight bytes. Loops that double a capacity go through \<open>grow_until\<close>, which is
  \<open>None\<close> when the doubling wraps to zero. Containers answer while they have room: the growth test of the
  code does not count the slots of removed entries, so after as many removals as there are slots a
  search need not end; the theorems about the repository are stated for up to 63 operations, the room
  of its initial capacity.

  Not modelled. Output and operating system calls (the command line tools, logging, file streams,
  transactions, shared libraries); image codecs, which call vendored libraries. The
  registration of the schemas, their tables of functions and the class hierarchy, which the state
  functions do not consult. The bitmap calls of the chunk interface. The buffers of a sub-chunk that
  \<^verbatim>\<open>nmo_chunk_write_sub_chunk\<close> lets point into the buffer of its parent are copies in the model. Not
  treated are the remaining containers, strings, the pool of chunks, the manager registry and the
  pipelines of \<^verbatim>\<open>src/app\<close>.
\<close>

end
